(* ===== verification/Prelude.thy ===== *)
theory Prelude
  imports "HOL-Library.Word"
begin

text \<open>
  The vocabulary shared by every component of the model: the C integer types of
  CommonInclude/nnxtype.h, the NTSTATUS values and their classification, the outcome of
  kernel code that can stop the machine (KeBugCheckEx, a fault, a loop that spins), and
  the generic facts on lists, maps and words that the component proofs rest on.
\<close>

section \<open>Machine integers and pointers\<close>

type_synonym u8 = "8 word"
type_synonym u16 = "16 word"
type_synonym u32 = "32 word"
type_synonym u64 = "64 word"

text \<open>A pointer is a 64-bit address; NULL is 0.\<close>
type_synonym ptr = u64

abbreviation (input) NULL :: ptr where "NULL \<equiv> 0"

section \<open>Status values\<close>

type_synonym NTSTATUS = u32

definition NT_SUCCESS :: "NTSTATUS \<Rightarrow> bool" where
  "NT_SUCCESS s = (and s 0xC0000000 \<le> 0x40000000)"

definition NT_ERROR :: "NTSTATUS \<Rightarrow> bool" where
  "NT_ERROR s = (and s 0xC0000000 = 0xC0000000)"

definition NT_WARNING :: "NTSTATUS \<Rightarrow> bool" where
  "NT_WARNING s = (and s 0xC0000000 = 0x80000000)"

abbreviation (input) STATUS_SUCCESS :: NTSTATUS where "STATUS_SUCCESS \<equiv> 0"
abbreviation (input) STATUS_USER_APC :: NTSTATUS where "STATUS_USER_APC \<equiv> 0xC0"
abbreviation (input) STATUS_KERNEL_APC :: NTSTATUS where "STATUS_KERNEL_APC \<equiv> 0x100"
abbreviation (input) STATUS_TIMEOUT :: NTSTATUS where "STATUS_TIMEOUT \<equiv> 0x102"
abbreviation (input) STATUS_BUFFER_OVERFLOW :: NTSTATUS where "STATUS_BUFFER_OVERFLOW \<equiv> 0x80000005"
abbreviation (input) STATUS_INVALID_HANDLE :: NTSTATUS where "STATUS_INVALID_HANDLE \<equiv> 0xC0000008"
abbreviation (input) STATUS_INVALID_PARAMETER :: NTSTATUS where "STATUS_INVALID_PARAMETER \<equiv> 0xC000000D"
abbreviation (input) STATUS_NO_SUCH_DEVICE :: NTSTATUS where "STATUS_NO_SUCH_DEVICE \<equiv> 0xC000000E"
abbreviation (input) STATUS_NO_SUCH_FILE :: NTSTATUS where "STATUS_NO_SUCH_FILE \<equiv> 0xC000000F"
abbreviation (input) STATUS_END_OF_FILE :: NTSTATUS where "STATUS_END_OF_FILE \<equiv> 0xC0000012"
abbreviation (input) STATUS_NO_MEMORY :: NTSTATUS where "STATUS_NO_MEMORY \<equiv> 0xC0000017"
abbreviation (input) STATUS_CONFLICTING_ADDRESSES :: NTSTATUS where "STATUS_CONFLICTING_ADDRESSES \<equiv> 0xC0000018"
abbreviation (input) STATUS_ACCESS_DENIED :: NTSTATUS where "STATUS_ACCESS_DENIED \<equiv> 0xC0000022"
abbreviation (input) STATUS_BUFFER_TOO_SMALL :: NTSTATUS where "STATUS_BUFFER_TOO_SMALL \<equiv> 0xC0000023"
abbreviation (input) STATUS_OBJECT_TYPE_MISMATCH :: NTSTATUS where "STATUS_OBJECT_TYPE_MISMATCH \<equiv> 0xC0000024"
abbreviation (input) STATUS_OBJECT_NAME_NOT_FOUND :: NTSTATUS where "STATUS_OBJECT_NAME_NOT_FOUND \<equiv> 0xC0000034"
abbreviation (input) STATUS_OBJECT_NAME_COLLISION :: NTSTATUS where "STATUS_OBJECT_NAME_COLLISION \<equiv> 0xC0000035"
abbreviation (input) STATUS_OBJECT_PATH_INVALID :: NTSTATUS where "STATUS_OBJECT_PATH_INVALID \<equiv> 0xC0000039"
abbreviation (input) STATUS_NOT_SUPPORTED :: NTSTATUS where "STATUS_NOT_SUPPORTED \<equiv> 0xC00000BB"
abbreviation (input) STATUS_INTERNAL_ERROR :: NTSTATUS where "STATUS_INTERNAL_ERROR \<equiv> 0xC00000E5"
abbreviation (input) STATUS_INVALID_ADDRESS :: NTSTATUS where "STATUS_INVALID_ADDRESS \<equiv> 0xC0000141"

lemma NT_SUCCESS_values [simp]:
  "NT_SUCCESS 0" "NT_SUCCESS 0xC0" "NT_SUCCESS 0x100" "NT_SUCCESS 0x102"
  "\<not> NT_SUCCESS 0x80000005" "\<not> NT_SUCCESS 0xC0000008" "\<not> NT_SUCCESS 0xC000000D"
  "\<not> NT_SUCCESS 0xC000000E" "\<not> NT_SUCCESS 0xC000000F" "\<not> NT_SUCCESS 0xC0000012"
  "\<not> NT_SUCCESS 0xC0000017" "\<not> NT_SUCCESS 0xC0000018" "\<not> NT_SUCCESS 0xC0000022"
  "\<not> NT_SUCCESS 0xC0000023" "\<not> NT_SUCCESS 0xC0000024" "\<not> NT_SUCCESS 0xC0000034"
  "\<not> NT_SUCCESS 0xC0000035" "\<not> NT_SUCCESS 0xC0000039" "\<not> NT_SUCCESS 0xC00000BB"
  "\<not> NT_SUCCESS 0xC00000E5" "\<not> NT_SUCCESS 0xC0000141"
  by (simp_all add: NT_SUCCESS_def)

section \<open>Outcomes of kernel code\<close>

text \<open>
  Kernel code either returns, stops the machine through KeBugCheckEx (the bug check code
  is kept), dereferences a pointer it must not, or spins forever.
\<close>

datatype 'a outcome = Done 'a | Bugcheck u32 | Fault | Hang

fun obind :: "'a outcome \<Rightarrow> ('a \<Rightarrow> 'b outcome) \<Rightarrow> 'b outcome" where
  "obind (Done x) f = f x"
| "obind (Bugcheck c) f = Bugcheck c"
| "obind Fault f = Fault"
| "obind Hang f = Hang"

lemma obind_eq_Done:
  "obind m f = Done y \<longleftrightarrow> (\<exists>x. m = Done x \<and> f x = Done y)"
  by (cases m) auto

lemma obind_assoc: "obind (obind m f) g = obind m (\<lambda>x. obind (f x) g)"
  by (cases m) auto

lemma obind_Done [simp]: "obind m Done = m"
  by (cases m) auto

text \<open>A loop in the option type whose body can stop: \<open>next\<close> continues after a step that is
  Done, \<open>run_loop\<close> reads a loop that never ends as Hang.\<close>

definition next_step :: "'a outcome \<Rightarrow> ('a \<Rightarrow> 'b outcome option) \<Rightarrow> 'b outcome option" where
  "next_step m f = (case m of Done x \<Rightarrow> f x | Bugcheck c \<Rightarrow> Some (Bugcheck c) | Fault \<Rightarrow> Some Fault | Hang \<Rightarrow> Some Hang)"

definition run_loop :: "'a outcome option \<Rightarrow> 'a outcome" where
  "run_loop m = (case m of None \<Rightarrow> Hang | Some r \<Rightarrow> r)"

lemma next_step_mono [partial_function_mono]:
  "(\<And>x. mono_option (\<lambda>f. g x f)) \<Longrightarrow> mono_option (\<lambda>f. next_step m (\<lambda>x. g x f))"
  by (cases m) (simp_all add: next_step_def monotone_def flat_ord_def fun_ord_def)

lemma next_step_simps [simp]:
  "next_step (Done x) f = f x" "next_step (Bugcheck c) f = Some (Bugcheck c)"
  "next_step Fault f = Some Fault" "next_step Hang f = Some Hang"
  by (simp_all add: next_step_def)

abbreviation (input) KMODE_EXCEPTION_NOT_HANDLED :: u32 where "KMODE_EXCEPTION_NOT_HANDLED \<equiv> 0x1E"
abbreviation (input) IRQL_NOT_DISPATCH_LEVEL :: u32 where "IRQL_NOT_DISPATCH_LEVEL \<equiv> 8"
abbreviation (input) IRQL_NOT_GREATER_OR_EQUAL :: u32 where "IRQL_NOT_GREATER_OR_EQUAL \<equiv> 9"
abbreviation (input) IRQL_NOT_LESS_OR_EQUAL :: u32 where "IRQL_NOT_LESS_OR_EQUAL \<equiv> 10"

text \<open>
  ASSERT is empty unless _DEBUG is defined. A build with _DEBUG executes a breakpoint instruction when the
  condition is false, and KeExceptionHandler turns that exception into a bug check.
\<close>

definition ASSERT :: "bool \<Rightarrow> bool \<Rightarrow> 'a outcome \<Rightarrow> 'a outcome" where
  "ASSERT debug expr m = (if debug \<and> \<not> expr then Bugcheck KMODE_EXCEPTION_NOT_HANDLED else m)"

lemma ASSERT_simps [simp]:
  "ASSERT False expr m = m" "ASSERT debug True m = m" "ASSERT True False m = Bugcheck KMODE_EXCEPTION_NOT_HANDLED"
  by (simp_all add: ASSERT_def)

section \<open>Generic facts\<close>

named_theorems frame_simps \<open>reads of the list heap after writes elsewhere\<close>

lemma hd_append_Cons [simp]: "hd (xs @ [x]) = (if xs = [] then x else hd xs)"
  by (cases xs) auto

lemma distinct_snoc: "distinct (xs @ [x]) \<longleftrightarrow> distinct xs \<and> x \<notin> set xs"
  by auto

lemma list_update_same_nth: "i < length xs \<Longrightarrow> xs ! i = x \<Longrightarrow> xs[i := x] = xs"
  by (metis list_update_id)

lemma find_None_iff_all: "List.find P xs = None \<longleftrightarrow> (\<forall>x\<in>set xs. \<not> P x)"
  by (auto simp: find_None_iff)

lemma find_append:
  "List.find P (xs @ ys) = (case List.find P xs of Some x \<Rightarrow> Some x | None \<Rightarrow> List.find P ys)"
  by (induction xs) auto

lemma find_Some_split:
  "List.find P xs = Some x \<Longrightarrow> \<exists>us vs. xs = us @ x # vs \<and> P x \<and> (\<forall>u\<in>set us. \<not> P u)"
proof (induction xs)
  case (Cons y ys)
  show ?case
  proof (cases "P y")
    case True then show ?thesis using Cons.prems by (intro exI [of _ "[]"] exI [of _ ys]) auto
  next
    case False
    then obtain us vs where "ys = us @ x # vs" "P x" "\<forall>u\<in>set us. \<not> P u" using Cons by auto
    then show ?thesis using False by (intro exI [of _ "y # us"] exI [of _ vs]) auto
  qed
qed simp

lemma unat_word_of_nat: "n < 2 ^ LENGTH('a) \<Longrightarrow> unat (word_of_nat n :: 'a::len word) = n"
  by (simp add: unat_of_nat)

lemma unat_bound: "unat (n :: 'a::len word) < 2 ^ LENGTH('a)"
  by (rule unsigned_less)

lemma unat_less_uint: "unat (x :: 'a::len word) < n \<longleftrightarrow> uint x < int n"
  by (metis of_nat_less_iff of_nat_unat)

lemma sint_u64: "sint (x :: u64) = (if unat x < 2 ^ 63 then uint x else uint x - 2 ^ 64)"
proof -
  have L: "LENGTH(64) - Suc 0 = 63" by simp
  have u: "0 \<le> uint x" "uint x < 2 ^ 64" and n: "unat x < 2 ^ 63 \<longleftrightarrow> uint x < 2 ^ 63"
    using unat_bound [of x] unfolding unat_less_uint by simp_all
  have s: "sint x = take_bit 64 (uint x + 2 ^ 63) - 2 ^ 63"
    unfolding sint_uint L signed_take_bit_eq_take_bit_shift by simp
  show ?thesis
  proof (cases "uint x < 2 ^ 63")
    case True
    have "take_bit 64 (uint x + 2 ^ 63) = uint x + 2 ^ 63"
      by (rule take_bit_int_eq_self) (use True u in simp_all)
    then show ?thesis using s n True by simp
  next
    case False
    have "take_bit 64 (uint x + 2 ^ 63) = take_bit 64 (uint x + 2 ^ 63 - 2 ^ 64)"
      using minus_mod_self2 [of "uint x + 2 ^ 63" "2 ^ 64"] by (simp add: take_bit_eq_mod)
    also have "\<dots> = uint x + 2 ^ 63 - 2 ^ 64"
      by (rule take_bit_int_eq_self) (use False u in simp_all)
    finally show ?thesis using s n False by simp
  qed
qed

lemma words_below: "{i. i < (n :: 'a::len word)} = word_of_nat ` {..<unat n}"
proof (rule set_eqI)
  fix x :: "'a word"
  have "x \<in> word_of_nat ` {..<unat n}" if "x < n"
    by (rule image_eqI [of _ _ "unat x"]) (use that in \<open>simp_all add: word_less_nat_alt\<close>)
  moreover have "x < n" if "x = word_of_nat m" "m < unat n" for m
  proof -
    have "m < 2 ^ LENGTH('a)" using that(2) unat_bound [of n] by linarith
    then show ?thesis using that by (simp add: word_less_nat_alt unat_word_of_nat)
  qed
  ultimately show "x \<in> {i. i < n} \<longleftrightarrow> x \<in> word_of_nat ` {..<unat n}" by auto
qed

text \<open>Comparing words that agree above a bit position.\<close>

lemma nat_less_by_bit:
  fixes x y :: nat
  assumes "\<And>n. m < n \<Longrightarrow> bit x n = bit y n" "bit y m" "\<not> bit x m"
  shows "x < y"
proof -
  have "drop_bit (Suc m) x = drop_bit (Suc m) y"
    by (rule bit_eqI) (use assms(1) in \<open>simp add: bit_drop_bit_eq\<close>)
  then have e: "x div 2 ^ Suc m = y div 2 ^ Suc m" by (simp only: drop_bit_eq_div)
  have d: "z div 2 ^ m = 2 * (z div 2 ^ Suc m) + of_bool (bit z m)" for z :: nat
  proof -
    have "z div 2 ^ Suc m = z div 2 ^ m div 2" by (simp only: power_Suc2 div_mult2_eq)
    then show ?thesis by (simp add: bit_iff_odd)
  qed
  have "x div 2 ^ m < y div 2 ^ m" using d [of x] d [of y] e assms(2,3) by simp
  then show ?thesis by (metis div_le_mono not_le)
qed

lemma word_less_by_bit:
  fixes x y :: "'a::len word"
  assumes "\<And>n. m < n \<Longrightarrow> bit x n = bit y n" "bit y m" "\<not> bit x m"
  shows "x < y"
proof -
  have "unat x < unat y"
    by (rule nat_less_by_bit [of m])
      (use assms in \<open>auto simp: bit_unsigned_iff dest: bit_imp_le_length\<close>)
  then show ?thesis by (simp add: word_less_nat_alt)
qed

lemma xor_less_iff:
  fixes a b :: "'a::len word"
  assumes m: "bit a m" "\<And>n. m < n \<Longrightarrow> \<not> bit a n"
  shows "xor a b < b \<longleftrightarrow> bit b m"
proof
  assume "bit b m"
  then show "xor a b < b" using m by (intro word_less_by_bit [of m]) (auto simp: bit_xor_iff)
next
  assume l: "xor a b < b"
  show "bit b m"
  proof (rule ccontr)
    assume "\<not> bit b m"
    then have "b < xor a b" using m by (intro word_less_by_bit [of m]) (auto simp: bit_xor_iff)
    with l show False by simp
  qed
qed

lemma word_top_bit:
  fixes a :: "'a::len word"
  assumes "a \<noteq> 0"
  obtains m where "bit a m" "\<And>n. m < n \<Longrightarrow> \<not> bit a n" "m < LENGTH('a)"
proof -
  have ne: "\<exists>m. bit a m" using assms by (auto simp: bit_eq_iff)
  have b: "bit a n \<Longrightarrow> n < LENGTH('a)" for n by (rule bit_imp_le_length)
  have fin: "finite {n. bit a n}" by (rule finite_subset [of _ "{..<LENGTH('a)}"]) (auto dest: b)
  let ?m = "Max {n. bit a n}"
  have m: "bit a ?m" using Max_in [OF fin] ne by auto
  have "\<not> bit a n" if "?m < n" for n using Max_ge [OF fin, of n] that by (meson leD mem_Collect_eq)
  then show ?thesis using that m b by blast
qed

end
