(* ===== verification/NtList.thy ===== *)
theory NtList
  imports Prelude
begin

text \<open>
  The intrusive circular doubly linked list of NNXOSKRN/include/ntlist.h and the locked
  variants of NNXOSKRN/ntlist.c. The list heap holds the Flink and Blink fields of every
  LIST_ENTRY, indexed by address; \<open>is_list h q xs\<close> says that the entries xs, in this
  order, hang on the head q. The locale list_interface states what the users of the list
  (the dispatcher, the PFN allocator, the handle manager, the ready queues) rely on, and it
  is interpreted on the model of the code.
\<close>

section \<open>The heap and the operations\<close>

record list_heap =
  flink :: "ptr \<Rightarrow> ptr"
  blink :: "ptr \<Rightarrow> ptr"

definition set_flink :: "ptr \<Rightarrow> ptr \<Rightarrow> list_heap \<Rightarrow> list_heap" where
  "set_flink e v h = h\<lparr>flink := (flink h)(e := v)\<rparr>"

definition set_blink :: "ptr \<Rightarrow> ptr \<Rightarrow> list_heap \<Rightarrow> list_heap" where
  "set_blink e v h = h\<lparr>blink := (blink h)(e := v)\<rparr>"

lemma list_heap_reads [frame_simps, simp]:
  "flink (set_flink e v h) = (flink h)(e := v)"
  "blink (set_flink e v h) = blink h"
  "flink (set_blink e v h) = flink h"
  "blink (set_blink e v h) = (blink h)(e := v)"
  by (simp_all add: set_flink_def set_blink_def)

definition InitializeListHead :: "ptr \<Rightarrow> list_heap \<Rightarrow> list_heap" where
  "InitializeListHead ListHead h = set_blink ListHead ListHead (set_flink ListHead ListHead h)"

definition InsertTailList :: "ptr \<Rightarrow> ptr \<Rightarrow> list_heap \<Rightarrow> list_heap" where
  "InsertTailList ListHead Entry h =
     (let OldLast = blink h ListHead;
          h = set_blink ListHead Entry h;
          h = set_flink Entry ListHead h;
          h = set_blink Entry OldLast h
      in set_flink OldLast Entry h)"

definition InsertHeadList :: "ptr \<Rightarrow> ptr \<Rightarrow> list_heap \<Rightarrow> list_heap" where
  "InsertHeadList ListHead Entry h =
     (let OldFirst = flink h ListHead;
          h = set_flink ListHead Entry h;
          h = set_flink Entry OldFirst h;
          h = set_blink Entry ListHead h
      in set_blink OldFirst Entry h)"

definition RemoveHeadList :: "ptr \<Rightarrow> list_heap \<Rightarrow> ptr \<times> list_heap" where
  "RemoveHeadList ListHead h =
     (let result = flink h ListHead;
          h = set_flink ListHead (flink h (flink h ListHead)) h;
          h = set_blink (flink h ListHead) ListHead h
      in (result, h))"

definition RemoveTailList :: "ptr \<Rightarrow> list_heap \<Rightarrow> ptr \<times> list_heap" where
  "RemoveTailList ListHead h =
     (let result = blink h ListHead;
          h = set_blink ListHead (blink h (blink h ListHead)) h;
          h = set_flink (blink h ListHead) ListHead h
      in (result, h))"

definition RemoveEntryList :: "ptr \<Rightarrow> list_heap \<Rightarrow> bool \<times> list_heap" where
  "RemoveEntryList Entry h =
     (let Prev = blink h Entry;
          Next = flink h Entry;
          h = set_flink Prev Next h;
          h = set_blink Next Prev h
      in (Prev = Next, h))"

definition IsListEmpty :: "ptr \<Rightarrow> list_heap \<Rightarrow> bool" where
  "IsListEmpty Head h = (flink h Head = Head)"

section \<open>The abstraction\<close>

text \<open>\<open>links h a xs b\<close>: from a, through the entries xs, to b, with consistent back links.\<close>

fun links :: "list_heap \<Rightarrow> ptr \<Rightarrow> ptr list \<Rightarrow> ptr \<Rightarrow> bool" where
  "links h a [] b = (flink h a = b \<and> blink h b = a)"
| "links h a (x # xs) b = (flink h a = x \<and> blink h x = a \<and> links h x xs b)"

definition is_list :: "list_heap \<Rightarrow> ptr \<Rightarrow> ptr list \<Rightarrow> bool" where
  "is_list h q xs = (distinct (q # xs) \<and> links h q xs q)"

lemma links_append:
  "links h a (xs @ y # ys) b \<longleftrightarrow> links h a xs y \<and> links h y ys b"
  by (induction xs arbitrary: a) auto

lemma links_cong:
  assumes "\<And>e. e = a \<or> e \<in> set xs \<Longrightarrow> flink h' e = flink h e"
    and "\<And>e. e = b \<or> e \<in> set xs \<Longrightarrow> blink h' e = blink h e"
  shows "links h' a xs b = links h a xs b"
  using assms by (induction xs arbitrary: a) auto

lemma links_first: "links h a xs b \<Longrightarrow> flink h a = (if xs = [] then b else hd xs)"
  by (cases xs) auto

lemma links_last: "links h a xs b \<Longrightarrow> blink h b = (if xs = [] then a else last xs)"
  by (induction xs arbitrary: a) auto

lemma is_list_distinct: "is_list h q xs \<Longrightarrow> distinct xs \<and> q \<notin> set xs"
  by (simp add: is_list_def)

lemma is_list_distinct_Cons: "is_list h q xs \<Longrightarrow> distinct (q # xs)"
  by (simp add: is_list_def)

lemma is_list_first: "is_list h q xs \<Longrightarrow> flink h q = (if xs = [] then q else hd xs)"
  unfolding is_list_def by (auto dest: links_first)

lemma is_list_last: "is_list h q xs \<Longrightarrow> blink h q = (if xs = [] then q else last xs)"
  unfolding is_list_def by (auto dest: links_last)

lemma is_list_cong:
  assumes "\<And>e. e \<in> set (q # xs) \<Longrightarrow> flink h' e = flink h e"
    and "\<And>e. e \<in> set (q # xs) \<Longrightarrow> blink h' e = blink h e"
  shows "is_list h' q xs = is_list h q xs"
  using assms unfolding is_list_def by (subst links_cong [of q xs h' h q]) auto

lemma links_unique: "links h a xs b \<Longrightarrow> links h a ys b \<Longrightarrow> b \<notin> set xs \<Longrightarrow> b \<notin> set ys \<Longrightarrow> xs = ys"
proof (induction xs arbitrary: a ys)
  case Nil then show ?case by (cases ys) auto
next
  case (Cons x xs) then show ?case by (cases ys) auto
qed

lemma is_list_unique: "is_list h q xs \<Longrightarrow> is_list h q ys \<Longrightarrow> xs = ys"
  unfolding is_list_def using links_unique by fastforce

section \<open>What each operation does to the list it works on\<close>

lemma is_list_Init: "is_list (InitializeListHead q h) q []"
  by (simp add: is_list_def InitializeListHead_def)

lemma is_list_empty_iff: "is_list h q xs \<Longrightarrow> IsListEmpty q h \<longleftrightarrow> xs = []"
  using is_list_first [of h q xs] is_list_distinct [of h q xs]
  by (auto simp: IsListEmpty_def split: if_splits)

lemma links_tail:
  assumes "links h a xs b" and "distinct (a # xs)" and "e \<notin> set xs" and "b \<notin> set xs"
    and fl: "\<And>x. x \<in> set (a # xs) \<Longrightarrow> flink h' x = (if x = last (a # xs) then e else flink h x)"
    and bl: "\<And>x. x \<in> set xs \<Longrightarrow> blink h' x = blink h x" and "blink h' e = last (a # xs)"
  shows "links h' a xs e"
proof (cases xs rule: rev_cases)
  case Nil then show ?thesis using assms by auto
next
  case (snoc zs z)
  have "links h a zs z" using assms(1) by (simp add: snoc links_append)
  moreover have "links h' a zs z = links h a zs z"
    using assms snoc by (intro links_cong) auto
  ultimately show ?thesis using assms snoc by (simp add: links_append)
qed

lemma is_list_InsertTail:
  assumes l: "is_list h q xs" and e: "e \<notin> set (q # xs)"
  shows "is_list (InsertTailList q e h) q (xs @ [e])"
proof -
  have last: "blink h q = last (q # xs)" using is_list_last [OF l] by auto
  have d: "distinct (q # xs)" and lk: "links h q xs q" using l by (auto simp: is_list_def)
  have in_last: "last (q # xs) \<in> set (q # xs)" by (rule last_in_set) simp
  have "links (InsertTailList q e h) q xs e"
    by (rule links_tail [OF lk]) (use d e last in_last in \<open>auto simp: InsertTailList_def Let_def\<close>)
  then show ?thesis
    using d e last in_last unfolding is_list_def
    by (auto simp: links_append InsertTailList_def Let_def)
qed

lemma is_list_InsertHead:
  assumes l: "is_list h q xs" and e: "e \<notin> set (q # xs)"
  shows "is_list (InsertHeadList q e h) q (e # xs)"
proof (cases xs)
  case Nil
  then show ?thesis using assms by (simp add: is_list_def InsertHeadList_def Let_def)
next
  case (Cons x ys)
  have "links (InsertHeadList q e h) x ys q = links h x ys q"
    using assms Cons by (intro links_cong) (auto simp: is_list_def InsertHeadList_def Let_def)
  then show ?thesis
    using assms Cons by (auto simp: is_list_def InsertHeadList_def Let_def)
qed

lemma is_list_RemoveHead:
  assumes l: "is_list h q (x # xs)" and r: "RemoveHeadList q h = (e, h')"
  shows "e = x \<and> is_list h' q xs"
proof -
  have d: "distinct (q # x # xs)" and f: "flink h q = x" and lk: "links h x xs q"
    using l by (auto simp: is_list_def)
  have h': "h' = set_blink (flink h x) q (set_flink q (flink h x) h)" and e: "e = x"
    using r f by (auto simp: RemoveHeadList_def Let_def)
  have "links h' q xs q"
  proof (cases xs)
    case Nil then show ?thesis using lk by (simp add: h')
  next
    case (Cons y ys)
    have "links h' y ys q = links h y ys q"
      using d lk Cons by (intro links_cong) (auto simp: h')
    then show ?thesis using d lk Cons by (simp add: h')
  qed
  then show ?thesis using d e by (simp add: is_list_def)
qed

lemma is_list_RemoveTail:
  assumes l: "is_list h q (xs @ [x])" and r: "RemoveTailList q h = (e, h')"
  shows "e = x \<and> is_list h' q xs"
proof -
  have d: "distinct (q # xs @ [x])" and lk: "links h q xs x" and lx: "links h x [] q"
    using l by (auto simp: is_list_def links_append)
  have b: "blink h q = x" and p: "blink h x = last (q # xs)"
    using lx links_last [OF lk] by auto
  have h': "h' = set_flink (blink h x) q (set_blink q (blink h x) h)" and e: "e = x"
    using r b by (auto simp: RemoveTailList_def Let_def)
  have "links h' q xs q"
  proof (cases xs rule: rev_cases)
    case Nil then show ?thesis using p d by (simp add: h')
  next
    case (snoc ys y)
    have "links h' q ys y = links h q ys y"
      using d p snoc by (intro links_cong) (auto simp: h')
    then show ?thesis using d p lk snoc by (auto simp: h' links_append)
  qed
  then show ?thesis using d e by (simp add: is_list_def)
qed

lemma is_list_RemoveEntry:
  assumes l: "is_list h q (xs @ e # ys)"
  shows "is_list (snd (RemoveEntryList e h)) q (xs @ ys)"
proof -
  let ?h = "snd (RemoveEntryList e h)"
  have d: "distinct (q # xs @ e # ys)" and l1: "links h q xs e" and l2: "links h e ys q"
    using l by (auto simp: is_list_def links_append)
  have P: "blink h e = last (q # xs)" using links_last [OF l1] by auto
  have N: "flink h e = hd (ys @ [q])" using links_first [OF l2] by (cases ys) auto
  have h: "?h = set_blink (hd (ys @ [q])) (last (q # xs)) (set_flink (last (q # xs)) (hd (ys @ [q])) h)"
    by (simp add: RemoveEntryList_def Let_def P N)
  have inl: "last (q # xs) \<in> set (q # xs)" by (rule last_in_set) simp
  have a: "links ?h q xs (hd (ys @ [q]))"
    by (rule links_tail [OF l1]) (use d inl in \<open>auto simp: h split: list.splits dest: hd_in_set\<close>)
  have "links ?h q (xs @ ys) q"
  proof (cases ys)
    case Nil then show ?thesis using a by simp
  next
    case (Cons y zs)
    have "links ?h y zs q = links h y zs q"
      using d inl Cons by (intro links_cong) (auto simp: h)
    then show ?thesis using a l2 Cons by (simp add: links_append)
  qed
  then show ?thesis using d by (simp add: is_list_def)
qed

section \<open>Lists that are not touched\<close>

text \<open>Two lists are apart when they share neither heads nor entries.\<close>

definition apart :: "'a \<Rightarrow> 'a list \<Rightarrow> 'a \<Rightarrow> 'a list \<Rightarrow> bool" where
  "apart q xs r ys = (set (q # xs) \<inter> set (r # ys) = {})"

lemma apart_sym: "apart q xs r ys \<Longrightarrow> apart r ys q xs"
  by (auto simp: apart_def)

lemma last_in_Cons: "(if xs = [] then q else last xs) \<in> set (q # xs)"
  by auto

lemma hd_in_Cons: "(if xs = [] then q else hd xs) \<in> set (q # xs)"
  by auto

lemma frame_InsertTail:
  assumes "is_list h q xs" "apart q xs r ys" "e \<notin> set (r # ys)" "is_list h r ys"
  shows "is_list (InsertTailList q e h) r ys"
proof -
  have "blink h q \<in> set (q # xs)" using is_list_last [OF assms(1)] last_in_Cons by metis
  then have "is_list (InsertTailList q e h) r ys = is_list h r ys"
    using assms(2,3)
    by (intro is_list_cong) (auto simp: InsertTailList_def Let_def apart_def)
  then show ?thesis using assms by simp
qed

lemma frame_InsertHead:
  assumes "is_list h q xs" "apart q xs r ys" "e \<notin> set (r # ys)" "is_list h r ys"
  shows "is_list (InsertHeadList q e h) r ys"
proof -
  have "flink h q \<in> set (q # xs)" using is_list_first [OF assms(1)] hd_in_Cons by metis
  then have "is_list (InsertHeadList q e h) r ys = is_list h r ys"
    using assms(2,3)
    by (intro is_list_cong) (auto simp: InsertHeadList_def Let_def apart_def)
  then show ?thesis using assms by simp
qed

lemma links_closed:
  "links h a xs b \<Longrightarrow> e \<in> set (a # xs) \<Longrightarrow> flink h e \<in> set (xs @ [b])"
  "links h a xs b \<Longrightarrow> e \<in> set (xs @ [b]) \<Longrightarrow> blink h e \<in> set (a # xs)"
  by (induction xs arbitrary: a) auto

lemma is_list_closed:
  assumes "is_list h q xs" "e \<in> set (q # xs)"
  shows "flink h e \<in> set (q # xs)" "blink h e \<in> set (q # xs)"
  using links_closed [of h q xs q e] assms by (auto simp: is_list_def)

lemma frame_RemoveHead:
  assumes "is_list h q xs" "apart q xs r ys" "is_list h r ys"
  shows "is_list (snd (RemoveHeadList q h)) r ys"
proof -
  have f: "flink h q \<in> set (q # xs)" by (rule is_list_closed [OF assms(1)]) simp
  then have "flink h (flink h q) \<in> set (q # xs)" by (rule is_list_closed [OF assms(1)])
  then have "is_list (snd (RemoveHeadList q h)) r ys = is_list h r ys"
    using assms(2) f
    by (intro is_list_cong) (auto simp: RemoveHeadList_def Let_def apart_def)
  then show ?thesis using assms by simp
qed

lemma frame_RemoveTail:
  assumes "is_list h q xs" "apart q xs r ys" "is_list h r ys"
  shows "is_list (snd (RemoveTailList q h)) r ys"
proof -
  have f: "blink h q \<in> set (q # xs)" by (rule is_list_closed [OF assms(1)]) simp
  then have "blink h (blink h q) \<in> set (q # xs)" by (rule is_list_closed [OF assms(1)])
  then have "is_list (snd (RemoveTailList q h)) r ys = is_list h r ys"
    using assms(2) f
    by (intro is_list_cong) (auto simp: RemoveTailList_def Let_def apart_def)
  then show ?thesis using assms by simp
qed

lemma frame_RemoveEntry:
  assumes "is_list h q xs" "apart q xs r ys" "e \<in> set xs" "is_list h r ys"
  shows "is_list (snd (RemoveEntryList e h)) r ys"
proof -
  have "flink h e \<in> set (q # xs)" "blink h e \<in> set (q # xs)"
    using is_list_closed [OF assms(1)] assms(3) by auto
  then have "is_list (snd (RemoveEntryList e h)) r ys = is_list h r ys"
    using assms(2)
    by (intro is_list_cong) (auto simp: RemoveEntryList_def Let_def apart_def)
  then show ?thesis using assms by simp
qed

section \<open>The interface\<close>

primrec drain :: "('h \<Rightarrow> 'a \<times> 'h) \<Rightarrow> nat \<Rightarrow> 'h \<Rightarrow> 'a list \<times> 'h" where
  "drain rem 0 h = ([], h)"
| "drain rem (Suc n) h =
     (let (x, h) = rem h; (xs, h) = drain rem n h in (x # xs, h))"

locale list_interface =
  fixes repr :: "'h \<Rightarrow> 'a \<Rightarrow> 'a list \<Rightarrow> bool"
    and ins_tail ins_head :: "'a \<Rightarrow> 'a \<Rightarrow> 'h \<Rightarrow> 'h"
    and rem_head rem_tail :: "'a \<Rightarrow> 'h \<Rightarrow> 'a \<times> 'h"
    and rem_entry :: "'a \<Rightarrow> 'h \<Rightarrow> 'h"
    and is_empty :: "'a \<Rightarrow> 'h \<Rightarrow> bool"
  assumes repr_distinct: "repr h q xs \<Longrightarrow> distinct (q # xs)"
    and is_empty: "repr h q xs \<Longrightarrow> is_empty q h \<longleftrightarrow> xs = []"
    and ins_tail: "repr h q xs \<Longrightarrow> e \<notin> set (q # xs) \<Longrightarrow> repr (ins_tail q e h) q (xs @ [e])"
    and ins_head: "repr h q xs \<Longrightarrow> e \<notin> set (q # xs) \<Longrightarrow> repr (ins_head q e h) q (e # xs)"
    and rem_head: "repr h q (x # xs) \<Longrightarrow> rem_head q h = (e, h') \<Longrightarrow> e = x \<and> repr h' q xs"
    and rem_tail: "repr h q (xs @ [x]) \<Longrightarrow> rem_tail q h = (e, h') \<Longrightarrow> e = x \<and> repr h' q xs"
    and rem_entry: "repr h q (xs @ e # ys) \<Longrightarrow> repr (rem_entry e h) q (xs @ ys)"
    and ins_tail_frame: "repr h q xs \<Longrightarrow> apart q xs r ys \<Longrightarrow> e \<notin> set (r # ys) \<Longrightarrow>
      repr h r ys \<Longrightarrow> repr (ins_tail q e h) r ys"
    and ins_head_frame: "repr h q xs \<Longrightarrow> apart q xs r ys \<Longrightarrow> e \<notin> set (r # ys) \<Longrightarrow>
      repr h r ys \<Longrightarrow> repr (ins_head q e h) r ys"
    and rem_head_frame: "repr h q xs \<Longrightarrow> apart q xs r ys \<Longrightarrow> repr h r ys \<Longrightarrow>
      repr (snd (rem_head q h)) r ys"
    and rem_tail_frame: "repr h q xs \<Longrightarrow> apart q xs r ys \<Longrightarrow> repr h r ys \<Longrightarrow>
      repr (snd (rem_tail q h)) r ys"
    and rem_entry_frame: "repr h q xs \<Longrightarrow> apart q xs r ys \<Longrightarrow> e \<in> set xs \<Longrightarrow>
      repr h r ys \<Longrightarrow> repr (rem_entry e h) r ys"
begin

lemma fifo:
  "repr h q ys \<Longrightarrow> distinct (q # ys @ xs) \<Longrightarrow> repr (fold (ins_tail q) xs h) q (ys @ xs)"
proof (induction xs arbitrary: h ys)
  case (Cons x xs)
  have "repr (ins_tail q x h) q (ys @ [x])" using Cons.prems by (intro ins_tail) auto
  then show ?case using Cons.IH [of "ins_tail q x h" "ys @ [x]"] Cons.prems by simp
qed simp

lemma lifo:
  "repr h q ys \<Longrightarrow> distinct (q # ys @ xs) \<Longrightarrow> repr (fold (ins_head q) xs h) q (rev xs @ ys)"
proof (induction xs arbitrary: h ys)
  case (Cons x xs)
  have "repr (ins_head q x h) q (x # ys)" using Cons.prems by (intro ins_head) auto
  then show ?case using Cons.IH [of "ins_head q x h" "x # ys"] Cons.prems by auto
qed simp

lemma drain_head:
  "repr h q xs \<Longrightarrow> \<exists>h'. drain (rem_head q) (length xs) h = (xs, h') \<and> repr h' q []"
proof (induction xs arbitrary: h)
  case (Cons x xs)
  obtain e h1 where r: "rem_head q h = (e, h1)" by fastforce
  from rem_head [OF Cons.prems r] Cons.IH [of h1] r show ?case by auto
qed simp

lemma drain_tail:
  "repr h q xs \<Longrightarrow> \<exists>h'. drain (rem_tail q) (length xs) h = (rev xs, h') \<and> repr h' q []"
proof (induction xs arbitrary: h rule: rev_induct)
  case (snoc x xs)
  obtain e h1 where r: "rem_tail q h = (e, h1)" by fastforce
  from rem_tail [OF snoc.prems r] snoc.IH [of h1] r show ?case by auto
qed simp

lemma move_head_tail:
  assumes a: "repr h a (x # xs)" and b: "repr h b ys" and ab: "apart a (x # xs) b ys"
    and r: "rem_head a h = (e, h')"
  shows "e = x" "repr (ins_tail b x h') a xs" "repr (ins_tail b x h') b (ys @ [x])"
proof -
  have e: "e = x" and a': "repr h' a xs" using rem_head [OF a r] by auto
  have b': "repr h' b ys" using rem_head_frame [OF a ab b] r by simp
  have d: "distinct (a # x # xs)" using repr_distinct [OF a] .
  show "e = x" by (rule e)
  show "repr (ins_tail b x h') a xs"
    by (rule ins_tail_frame [OF b' _ _ a']) (use d ab in \<open>auto simp: apart_def\<close>)
  show "repr (ins_tail b x h') b (ys @ [x])"
    by (rule ins_tail [OF b']) (use ab in \<open>auto simp: apart_def\<close>)
qed

lemma move_entry_tail:
  assumes a: "repr h a (us @ x # vs)" and b: "repr h b ys" and ab: "apart a (us @ x # vs) b ys"
  shows "repr (ins_tail b x (rem_entry x h)) a (us @ vs)"
    "repr (ins_tail b x (rem_entry x h)) b (ys @ [x])"
proof -
  have a': "repr (rem_entry x h) a (us @ vs)" by (rule rem_entry [OF a])
  have b': "repr (rem_entry x h) b ys" by (rule rem_entry_frame [OF a ab _ b]) simp
  have d: "distinct (a # us @ x # vs)" using repr_distinct [OF a] .
  show "repr (ins_tail b x (rem_entry x h)) a (us @ vs)"
    by (rule ins_tail_frame [OF b' _ _ a']) (use d ab in \<open>auto simp: apart_def\<close>)
  show "repr (ins_tail b x (rem_entry x h)) b (ys @ [x])"
    by (rule ins_tail [OF b']) (use ab in \<open>auto simp: apart_def\<close>)
qed

end

text \<open>
  Many lists in one heap: the lists of the keys K hang on the heads q and hold the entries X,
  and no two of them share a node.
\<close>

definition family :: "('h \<Rightarrow> 'a \<Rightarrow> 'a list \<Rightarrow> bool) \<Rightarrow> 'h \<Rightarrow> 'k set \<Rightarrow> ('k \<Rightarrow> 'a) \<Rightarrow> ('k \<Rightarrow> 'a list) \<Rightarrow> bool" where
  "family repr h K q X = ((\<forall>k\<in>K. repr h (q k) (X k)) \<and>
     (\<forall>k\<in>K. \<forall>l\<in>K. k \<noteq> l \<longrightarrow> apart (q k) (X k) (q l) (X l)))"

lemma familyD: "family repr h K q X \<Longrightarrow> k \<in> K \<Longrightarrow> repr h (q k) (X k)"
  by (simp add: family_def)

lemma family_apart: "family repr h K q X \<Longrightarrow> k \<in> K \<Longrightarrow> l \<in> K \<Longrightarrow> k \<noteq> l \<Longrightarrow> apart (q k) (X k) (q l) (X l)"
  by (simp add: family_def)

lemma family_cong: "(\<And>k. k \<in> K \<Longrightarrow> X k = Y k) \<Longrightarrow> family repr h K q X = family repr h K q Y"
  by (simp add: family_def)

context list_interface begin

lemma family_unique_place:
  assumes f: "family repr h K q X" and "k \<in> K" "l \<in> K" "e \<in> set (X k)" "e \<in> set (X l)"
  shows "k = l"
proof (rule ccontr)
  assume "k \<noteq> l"
  with family_apart [OF f assms(2,3)] assms(4,5) show False by (auto simp: apart_def)
qed

lemma family_ins_tail:
  assumes f: "family repr h K q X" and k: "k \<in> K" and e: "\<And>l. l \<in> K \<Longrightarrow> e \<notin> set (q l # X l)"
  shows "family repr (ins_tail (q k) e h) K q (X(k := X k @ [e]))"
  unfolding family_def
proof (intro conjI ballI impI)
  fix l assume l: "l \<in> K"
  show "repr (ins_tail (q k) e h) (q l) ((X(k := X k @ [e])) l)"
  proof (cases "l = k")
    case True then show ?thesis using ins_tail [OF familyD [OF f k] e [OF k]] by simp
  next
    case False
    then show ?thesis
      using ins_tail_frame [OF familyD [OF f k] family_apart [OF f k l] e [OF l] familyD [OF f l]] by simp
  qed
next
  fix l m assume lm: "l \<in> K" "m \<in> K" "l \<noteq> m"
  then show "apart (q l) ((X(k := X k @ [e])) l) (q m) ((X(k := X k @ [e])) m)"
    using family_apart [OF f lm] e [OF lm(1)] e [OF lm(2)] by (auto simp: apart_def)
qed

lemma family_ins_head:
  assumes f: "family repr h K q X" and k: "k \<in> K" and e: "\<And>l. l \<in> K \<Longrightarrow> e \<notin> set (q l # X l)"
  shows "family repr (ins_head (q k) e h) K q (X(k := e # X k))"
  unfolding family_def
proof (intro conjI ballI impI)
  fix l assume l: "l \<in> K"
  show "repr (ins_head (q k) e h) (q l) ((X(k := e # X k)) l)"
  proof (cases "l = k")
    case True then show ?thesis using ins_head [OF familyD [OF f k] e [OF k]] by simp
  next
    case False
    then show ?thesis
      using ins_head_frame [OF familyD [OF f k] family_apart [OF f k l] e [OF l] familyD [OF f l]] by simp
  qed
next
  fix l m assume lm: "l \<in> K" "m \<in> K" "l \<noteq> m"
  then show "apart (q l) ((X(k := e # X k)) l) (q m) ((X(k := e # X k)) m)"
    using family_apart [OF f lm] e [OF lm(1)] e [OF lm(2)] by (auto simp: apart_def)
qed

lemma family_shrink:
  assumes f: "family repr h K q X" and k: "k \<in> K" and sub: "set ys \<subseteq> set (X k)"
    and r: "repr h' (q k) ys" and o: "\<And>l. l \<in> K \<Longrightarrow> l \<noteq> k \<Longrightarrow> repr h' (q l) (X l)"
  shows "family repr h' K q (X(k := ys))"
  unfolding family_def
proof (intro conjI ballI impI)
  fix l assume "l \<in> K" then show "repr h' (q l) ((X(k := ys)) l)" using r o by auto
next
  fix l m assume "l \<in> K" "m \<in> K" "l \<noteq> m"
  then show "apart (q l) ((X(k := ys)) l) (q m) ((X(k := ys)) m)"
    using family_apart [OF f, of l m] sub by (auto simp: apart_def)
qed

lemma family_rem_head:
  assumes f: "family repr h K q X" and k: "k \<in> K" and x: "X k = x # xs"
    and r: "rem_head (q k) h = (e, h')"
  shows "e = x \<and> family repr h' K q (X(k := xs))"
proof -
  have rk: "repr h (q k) (x # xs)" using familyD [OF f k] x by simp
  have "e = x" "repr h' (q k) xs" using rem_head [OF rk r] by auto
  moreover have "repr h' (q l) (X l)" if "l \<in> K" "l \<noteq> k" for l
    using rem_head_frame [OF familyD [OF f k] family_apart [OF f k that(1)] familyD [OF f that(1)]]
      that r by auto
  ultimately show ?thesis using family_shrink [OF f k _ \<open>repr h' (q k) xs\<close>] x by auto
qed

lemma family_rem_entry:
  assumes f: "family repr h K q X" and k: "k \<in> K" and x: "X k = us @ e # vs"
  shows "family repr (rem_entry e h) K q (X(k := us @ vs))"
proof (rule family_shrink [OF f k])
  show "repr (rem_entry e h) (q k) (us @ vs)" using rem_entry familyD [OF f k] x by metis
  show "repr (rem_entry e h) (q l) (X l)" if "l \<in> K" "l \<noteq> k" for l
    using rem_entry_frame [OF familyD [OF f k] family_apart [OF f k that(1)] _ familyD [OF f that(1)], of e]
      that x by auto
qed (use x in auto)

lemma family_move:
  assumes f: "family repr h K q X" and k: "k \<in> K" and l: "l \<in> K" and x: "X k = us @ e # vs" and "k \<noteq> l"
  shows "family repr (ins_tail (q l) e (rem_entry e h)) K q (X(k := us @ vs, l := X l @ [e]))"
proof -
  note g = family_rem_entry [OF f k x]
  have "e \<notin> set (q m # (X(k := us @ vs)) m)" if m: "m \<in> K" for m
    using family_apart [OF f k m] repr_distinct [OF familyD [OF f k]] x
    by (cases "m = k") (auto simp: apart_def)
  moreover have "(X(k := us @ vs)) l = X l" using \<open>k \<noteq> l\<close> by simp
  ultimately show ?thesis using family_ins_tail [OF g l, of e] by metis
qed

end

definition RemoveEntry :: "ptr \<Rightarrow> list_heap \<Rightarrow> list_heap" where
  "RemoveEntry e h = snd (RemoveEntryList e h)"

interpretation nl: list_interface is_list InsertTailList InsertHeadList RemoveHeadList
  RemoveTailList RemoveEntry IsListEmpty
  unfolding RemoveEntry_def
  by unfold_locales
    (fact is_list_distinct_Cons is_list_empty_iff is_list_InsertTail is_list_InsertHead
      is_list_RemoveHead is_list_RemoveTail is_list_RemoveEntry frame_InsertTail frame_InsertHead
      frame_RemoveHead frame_RemoveTail frame_RemoveEntry)+

text \<open>RemoveEntryList answers whether the list is empty afterwards.\<close>

lemma RemoveEntryList_result:
  assumes "is_list h q (xs @ e # ys)"
  shows "fst (RemoveEntryList e h) \<longleftrightarrow> xs = [] \<and> ys = []"
proof -
  have d: "distinct (q # xs @ e # ys)" and l1: "links h q xs e" and l2: "links h e ys q"
    using assms by (auto simp: is_list_def links_append)
  show ?thesis
    using d links_last [OF l1] links_first [OF l2]
    by (cases xs rule: rev_cases; cases ys) (auto simp: RemoveEntryList_def Let_def)
qed

section \<open>Lists of pointers\<close>

text \<open>
  FindElementInPointerList walks the Next links until it meets NULL. The walk is a
  \<open>partial_function (option)\<close>: None says that the loop never ends.
\<close>

partial_function (option) find_from :: "list_heap \<Rightarrow> (ptr \<Rightarrow> ptr) \<Rightarrow> ptr \<Rightarrow> ptr \<Rightarrow> ptr option" where
  "find_from h PointerOf current Pointer =
     (if current = NULL then Some NULL
      else if PointerOf current = Pointer then Some current
      else find_from h PointerOf (flink h current) Pointer)"

definition FindElementInPointerList :: "list_heap \<Rightarrow> (ptr \<Rightarrow> ptr) \<Rightarrow> ptr \<Rightarrow> ptr \<Rightarrow> ptr option" where
  "FindElementInPointerList h PointerOf Head Pointer = find_from h PointerOf (flink h Head) Pointer"

lemma find_from_links:
  "links h a xs b \<Longrightarrow> NULL \<notin> set xs \<Longrightarrow>
   find_from h P (flink h a) p =
     (case List.find (\<lambda>e. P e = p) xs of Some e \<Rightarrow> Some e | None \<Rightarrow> find_from h P b p)"
proof (induction xs arbitrary: a)
  case (Cons x xs)
  then show ?case by (subst find_from.simps) auto
qed simp

lemma find_from_stays:
  assumes "find_from h P c p = Some r"
    and A: "\<forall>e\<in>A. flink h e \<in> A \<and> e \<noteq> NULL \<and> P e \<noteq> p"
  shows "c \<notin> A"
proof -
  have "(\<forall>e\<in>A. flink h e \<in> A \<and> e \<noteq> NULL \<and> P e \<noteq> p) \<longrightarrow> c \<notin> A"
    by (rule find_from.raw_induct [OF _ assms(1)]) (fastforce split: if_splits)
  with A show ?thesis by blast
qed

definition PushEntryList :: "(ptr \<Rightarrow> ptr) \<Rightarrow> ptr \<Rightarrow> ptr \<Rightarrow> (ptr \<Rightarrow> ptr)" where
  "PushEntryList next Head Entry =
     (let oldHeadNext = next Head;
          next = next(Head := Entry)
      in next(Entry := oldHeadNext))"

definition PopEntryList :: "(ptr \<Rightarrow> ptr) \<Rightarrow> ptr \<Rightarrow> ptr \<times> (ptr \<Rightarrow> ptr)" where
  "PopEntryList next Head =
     (let result = next Head
      in (result, if result \<noteq> NULL then next(Head := next result) else next))"

section \<open>Properties\<close>

text \<open>A list head used as a queue is first in, first out: initialise it, append the
  entries xs with InsertTailList, and removing as many heads with RemoveHeadList returns
  xs in order and leaves the list empty.\<close>

lemma list_is_fifo:
  assumes "distinct (q # xs)"
  shows "\<exists>h'. drain (RemoveHeadList q) (length xs) (fold (InsertTailList q) xs (InitializeListHead q h))
           = (xs, h') \<and> IsListEmpty q h'"
proof -
  have "is_list (fold (InsertTailList q) xs (InitializeListHead q h)) q ([] @ xs)"
    using assms by (intro nl.fifo is_list_Init) simp
  from nl.drain_head [OF this [simplified]] show ?thesis using nl.is_empty by blast
qed

lemma list_is_fifo_example:
  "\<forall>h. \<exists>h'. drain (RemoveHeadList 1) (Suc (Suc 0)) (fold (InsertTailList 1) [5, 7] (InitializeListHead 1 h))
     = ([5, 7], h') \<and> IsListEmpty 1 h'"
  using list_is_fifo [of 1 "[5, 7]"] by simp

text \<open>FindElementInPointerList returns the first entry that carries the pointer when
  there is one. When no entry and not the head carries it, the loop never ends: the list is
  circular, so the NULL the loop waits for is never met.\<close>

lemma find_element_spec:
  assumes l: "is_list h q xs" and n: "NULL \<notin> set (q # xs)"
  shows "FindElementInPointerList h P q p =
    (case List.find (\<lambda>e. P e = p) (xs @ [q]) of Some e \<Rightarrow> Some e | None \<Rightarrow> None)"
proof (cases "List.find (\<lambda>e. P e = p) xs")
  case (Some e)
  then show ?thesis
    using l n find_from_links [of h q xs q P p]
    by (auto simp: FindElementInPointerList_def is_list_def find_append)
next
  case None
  have r: "FindElementInPointerList h P q p = find_from h P q p"
    using l n None find_from_links [of h q xs q P p]
    by (auto simp: FindElementInPointerList_def is_list_def)
  show ?thesis
  proof (cases "P q = p")
    case True
    then show ?thesis using r n None by (subst (asm) find_from.simps) (simp add: find_append)
  next
    case False
    have "\<forall>e\<in>set (q # xs). flink h e \<in> set (q # xs) \<and> e \<noteq> NULL \<and> P e \<noteq> p"
      using is_list_closed(1) [OF l] n None False by (auto simp: find_None_iff)
    then have "find_from h P q p = None"
      using find_from_stays [of h P q p _ "set (q # xs)"] by (cases "find_from h P q p") auto
    then show ?thesis using r None False by (simp add: find_append)
  qed
qed

lemma find_element_spec_example:
  "\<forall>h. FindElementInPointerList (InsertTailList 1 5 (InitializeListHead 1 h)) (\<lambda>e. e + 1) 1 6 = Some 5
   \<and> FindElementInPointerList (InsertTailList 1 5 (InitializeListHead 1 h)) (\<lambda>e. e + 1) 1 9 = None"
proof
  fix h
  have "is_list (InsertTailList 1 5 (InitializeListHead 1 h)) 1 ([] @ [5])"
    by (rule is_list_InsertTail [OF is_list_Init]) simp
  then show "FindElementInPointerList (InsertTailList 1 5 (InitializeListHead 1 h)) (\<lambda>e. e + 1) 1 6 = Some 5
    \<and> FindElementInPointerList (InsertTailList 1 5 (InitializeListHead 1 h)) (\<lambda>e. e + 1) 1 9 = None"
    using find_element_spec [of _ 1 "[5]" "\<lambda>e. e + 1" 6] find_element_spec [of _ 1 "[5]" "\<lambda>e. e + 1" 9]
    by simp
qed

end
