(* ===== verification/Irql.thy ===== *)
theory Irql
  imports NtList
begin

text \<open>
  The interrupt request level of a processor (NNXOSKRN/irql.c), the spin lock
  (NNXOSKRN/spinlock.c over HALX64/spinlock.c) and the locked list operations of
  NNXOSKRN/ntlist.c. The single processor functions are total: acquiring a lock that is
  already taken spins forever (Hang) when nobody else runs. The relation lock_step adds the
  other processors and interleaves them between the atomic operations.
\<close>

section \<open>IRQL\<close>

abbreviation (input) PASSIVE_LEVEL :: u8 where "PASSIVE_LEVEL \<equiv> 0"
abbreviation (input) APC_LEVEL :: u8 where "APC_LEVEL \<equiv> 1"
abbreviation (input) DISPATCH_LEVEL :: u8 where "DISPATCH_LEVEL \<equiv> 2"
abbreviation (input) SYNCH_LEVEL :: u8 where "SYNCH_LEVEL \<equiv> 13"
abbreviation (input) CLOCK_LEVEL :: u8 where "CLOCK_LEVEL \<equiv> 13"
abbreviation (input) HIGH_LEVEL :: u8 where "HIGH_LEVEL \<equiv> 15"

text \<open>The Irql field of the KPCR and the task priority register written by HalSetTpr.\<close>

record cpu =
  irql :: u8
  tpr :: u8

definition KiApplyIrql :: "u8 \<Rightarrow> u8 \<Rightarrow> cpu \<Rightarrow> cpu" where
  "KiApplyIrql OldValue NewValue c =
     (if OldValue = NewValue then c else c\<lparr>irql := NewValue, tpr := NewValue\<rparr>)"

definition KfRaiseIrql :: "u8 \<Rightarrow> cpu \<Rightarrow> (u8 \<times> cpu) outcome" where
  "KfRaiseIrql NewIrql c =
     (let OldIrql = irql c in
      if NewIrql < OldIrql then Bugcheck IRQL_NOT_GREATER_OR_EQUAL
      else Done (OldIrql, KiApplyIrql OldIrql NewIrql c))"

definition KfLowerIrql :: "u8 \<Rightarrow> cpu \<Rightarrow> cpu outcome" where
  "KfLowerIrql NewIrql c =
     (let OldIrql = irql c in
      if NewIrql > OldIrql then Bugcheck IRQL_NOT_LESS_OR_EQUAL
      else Done (KiApplyIrql OldIrql NewIrql c))"

definition KeGetCurrentIrql :: "cpu \<Rightarrow> u8" where
  "KeGetCurrentIrql c = irql c"

text \<open>The result is what is stored through the pointer OldIrql, if it is.\<close>

definition KeRaiseIrql :: "u8 \<Rightarrow> ptr \<Rightarrow> cpu \<Rightarrow> (u8 option \<times> cpu) outcome" where
  "KeRaiseIrql NewIrql OldIrql c =
     (if OldIrql = NULL then Done (None, c)
      else if NewIrql < KeGetCurrentIrql c then Bugcheck IRQL_NOT_GREATER_OR_EQUAL
      else obind (KfRaiseIrql NewIrql c) (\<lambda>(old, c). Done (Some old, c)))"

definition KeLowerIrql :: "u8 \<Rightarrow> cpu \<Rightarrow> cpu outcome" where
  "KeLowerIrql OldIrql c =
     (if OldIrql > KeGetCurrentIrql c then Bugcheck IRQL_NOT_LESS_OR_EQUAL
      else KfLowerIrql OldIrql c)"

definition KiSetIrql :: "u8 \<Rightarrow> cpu \<Rightarrow> u8 \<times> cpu" where
  "KiSetIrql NewIrql c =
     (let OldIrql = irql c in (OldIrql, KiApplyIrql OldIrql NewIrql c))"

lemmas irql_defs = KiApplyIrql_def KfRaiseIrql_def KfLowerIrql_def KeGetCurrentIrql_def
  KeRaiseIrql_def KeLowerIrql_def KiSetIrql_def Let_def

text \<open>The task priority register follows the IRQL.\<close>

definition cpu_ok :: "cpu \<Rightarrow> bool" where
  "cpu_ok c = (tpr c = irql c)"

lemma cpu_ok_apply: "cpu_ok c \<Longrightarrow> cpu_ok (KiApplyIrql (irql c) n c)"
  by (simp add: cpu_ok_def KiApplyIrql_def)

lemma irql_apply [simp]: "irql (KiApplyIrql (irql c) n c) = n"
  by (simp add: KiApplyIrql_def)

lemma KeRaiseIrql_Done_iff:
  "KeRaiseIrql n p c = Done (r, c') \<longleftrightarrow>
     (if p = NULL then r = None \<and> c' = c
      else irql c \<le> n \<and> r = Some (irql c) \<and> c' = KiApplyIrql (irql c) n c)"
  by (auto simp: irql_defs)

lemma KeLowerIrql_Done_iff:
  "KeLowerIrql n c = Done c' \<longleftrightarrow> n \<le> irql c \<and> c' = KiApplyIrql (irql c) n c"
  by (auto simp: irql_defs)

lemma raise_then_lower:
  "cpu_ok c \<Longrightarrow> irql c \<le> n \<Longrightarrow> KeLowerIrql (irql c) (KiApplyIrql (irql c) n c) = Done c"
  by (auto simp: irql_defs cpu_ok_def not_less)

section \<open>The spin lock on one processor\<close>

type_synonym KSPIN_LOCK = u64

definition KiAcquireSpinLock :: "KSPIN_LOCK \<Rightarrow> KSPIN_LOCK outcome" where
  "KiAcquireSpinLock SpinLock = (if bit SpinLock 0 then Hang else Done (set_bit 0 SpinLock))"

text \<open>The interlocked operation is on a LONG: only the low half of the word is cleared.\<close>

definition KiReleaseSpinLock :: "KSPIN_LOCK \<Rightarrow> KSPIN_LOCK" where
  "KiReleaseSpinLock SpinLock = and SpinLock 0xFFFFFFFF00000000"

definition KeInitializeSpinLock :: "KSPIN_LOCK \<Rightarrow> KSPIN_LOCK" where
  "KeInitializeSpinLock lock = 0"

definition KeAcquireSpinLockAtDpcLevel :: "KSPIN_LOCK \<Rightarrow> cpu \<Rightarrow> KSPIN_LOCK outcome" where
  "KeAcquireSpinLockAtDpcLevel Lock c =
     (if KeGetCurrentIrql c < DISPATCH_LEVEL then Bugcheck IRQL_NOT_DISPATCH_LEVEL
      else KiAcquireSpinLock Lock)"

definition KeReleaseSpinLockFromDpcLevel :: "KSPIN_LOCK \<Rightarrow> cpu \<Rightarrow> KSPIN_LOCK outcome" where
  "KeReleaseSpinLockFromDpcLevel Lock c =
     (if KeGetCurrentIrql c < DISPATCH_LEVEL then Bugcheck IRQL_NOT_DISPATCH_LEVEL
      else Done (KiReleaseSpinLock Lock))"

text \<open>The address of the local variable temp is not NULL; 1 stands for it.\<close>

definition KfAcquireSpinLock :: "KSPIN_LOCK \<Rightarrow> cpu \<Rightarrow> (u8 \<times> KSPIN_LOCK \<times> cpu) outcome" where
  "KfAcquireSpinLock lock c =
     obind (KeRaiseIrql DISPATCH_LEVEL 1 c) (\<lambda>(stored, c).
     obind (KiAcquireSpinLock lock) (\<lambda>lock.
       Done (case stored of None \<Rightarrow> 0 | Some temp \<Rightarrow> temp, lock, c)))"

definition KfReleaseSpinLock :: "KSPIN_LOCK \<Rightarrow> u8 \<Rightarrow> cpu \<Rightarrow> (KSPIN_LOCK \<times> cpu) outcome" where
  "KfReleaseSpinLock lock newIrql c =
     (if KeGetCurrentIrql c = PASSIVE_LEVEL then Bugcheck IRQL_NOT_GREATER_OR_EQUAL
      else let lock = KiReleaseSpinLock lock in
        obind (KeLowerIrql newIrql c) (\<lambda>c. Done (lock, c)))"

definition KeAcquireSpinLock :: "KSPIN_LOCK \<Rightarrow> cpu \<Rightarrow> (u8 \<times> KSPIN_LOCK \<times> cpu) outcome" where
  "KeAcquireSpinLock lock c = KfAcquireSpinLock lock c"

definition KeReleaseSpinLock :: "KSPIN_LOCK \<Rightarrow> u8 \<Rightarrow> cpu \<Rightarrow> (KSPIN_LOCK \<times> cpu) outcome" where
  "KeReleaseSpinLock lock newIrql c = KfReleaseSpinLock lock newIrql c"

lemma release_low_half: "n < 32 \<Longrightarrow> \<not> bit (KiReleaseSpinLock l) n"
proof -
  assume n: "n < 32"
  have m: "(0xFFFFFFFF00000000 :: u64) = push_bit 32 (mask 32)"
    by (simp add: mask_eq_exp_minus_1 push_bit_eq_mult)
  show ?thesis unfolding KiReleaseSpinLock_def m using n by (simp add: bit_simps)
qed

lemma release_clears: "\<not> bit (KiReleaseSpinLock l) 0"
  by (simp add: KiReleaseSpinLock_def bit_simps)

lemma and_high_half_eq_0: "and (1 :: u64) 0xFFFFFFFF00000000 = 0"
  by simp

lemma KfAcquire_free:
  assumes "cpu_ok c" "irql c \<le> DISPATCH_LEVEL"
  shows "KfAcquireSpinLock 0 c = Done (irql c, 1, KiApplyIrql (irql c) DISPATCH_LEVEL c)"
  using assms by (simp add: KfAcquireSpinLock_def irql_defs KiAcquireSpinLock_def set_bit_eq_or)

lemma KfRelease_taken:
  assumes "cpu_ok c" "irql c \<le> DISPATCH_LEVEL"
  shows "KfReleaseSpinLock 1 (irql c) (KiApplyIrql (irql c) DISPATCH_LEVEL c) = Done (0, c)"
  using assms
  by (auto simp: KfReleaseSpinLock_def irql_defs KiReleaseSpinLock_def cpu_ok_def)

section \<open>The locked list operations\<close>

text \<open>The machine state these operations touch: the processor, the lock word, the list heap.\<close>

record locked_list =
  lcpu :: cpu
  llock :: KSPIN_LOCK
  lheap :: list_heap

definition ExInterlockedInsertHeadList :: "ptr \<Rightarrow> ptr \<Rightarrow> locked_list \<Rightarrow> (ptr \<times> locked_list) outcome" where
  "ExInterlockedInsertHeadList ListHead ListEntry s =
     obind (KeAcquireSpinLock (llock s) (lcpu s)) (\<lambda>(irql, lock, c).
       let oldFirst = flink (lheap s) ListHead;
           h = InsertHeadList ListHead ListEntry (lheap s)
       in obind (KeReleaseSpinLock lock irql c) (\<lambda>(lock, c).
            Done (if oldFirst = ListHead then NULL else oldFirst, \<lparr>lcpu = c, llock = lock, lheap = h\<rparr>)))"

definition ExInterlockedInsertTailList :: "ptr \<Rightarrow> ptr \<Rightarrow> locked_list \<Rightarrow> (ptr \<times> locked_list) outcome" where
  "ExInterlockedInsertTailList ListHead ListEntry s =
     obind (KeAcquireSpinLock (llock s) (lcpu s)) (\<lambda>(irql, lock, c).
       let oldLast = blink (lheap s) ListHead;
           h = InsertTailList ListHead ListEntry (lheap s)
       in obind (KeReleaseSpinLock lock irql c) (\<lambda>(lock, c).
            Done (if oldLast = ListHead then NULL else oldLast, \<lparr>lcpu = c, llock = lock, lheap = h\<rparr>)))"

definition ExInterlockedRemoveHeadList :: "ptr \<Rightarrow> locked_list \<Rightarrow> (ptr \<times> locked_list) outcome" where
  "ExInterlockedRemoveHeadList ListHead s =
     (if IsListEmpty ListHead (lheap s) then Done (NULL, s)
      else obind (KeAcquireSpinLock (llock s) (lcpu s)) (\<lambda>(irql, lock, c).
        let (removedEntry, h) = RemoveHeadList ListHead (lheap s)
        in obind (KeReleaseSpinLock lock irql c) (\<lambda>(lock, c).
             Done (removedEntry, \<lparr>lcpu = c, llock = lock, lheap = h\<rparr>))))"

definition ExInterlockedRemoveTailList :: "ptr \<Rightarrow> locked_list \<Rightarrow> (ptr \<times> locked_list) outcome" where
  "ExInterlockedRemoveTailList ListHead s =
     (if IsListEmpty ListHead (lheap s) then Done (NULL, s)
      else obind (KeAcquireSpinLock (llock s) (lcpu s)) (\<lambda>(irql, lock, c).
        let (removedEntry, h) = RemoveTailList ListHead (lheap s)
        in obind (KeReleaseSpinLock lock irql c) (\<lambda>(lock, c).
             Done (removedEntry, \<lparr>lcpu = c, llock = lock, lheap = h\<rparr>))))"

definition lock_idle :: "locked_list \<Rightarrow> bool" where
  "lock_idle s = (llock s = 0 \<and> cpu_ok (lcpu s) \<and> irql (lcpu s) \<le> DISPATCH_LEVEL)"

lemmas locked_simps = lock_idle_def KeAcquireSpinLock_def KeReleaseSpinLock_def
  KfAcquire_free KfRelease_taken Let_def

lemma ExInterlockedInsertHeadList_eq:
  "lock_idle s \<Longrightarrow> ExInterlockedInsertHeadList q e s =
     Done (if flink (lheap s) q = q then NULL else flink (lheap s) q, s\<lparr>lheap := InsertHeadList q e (lheap s)\<rparr>)"
  by (simp add: ExInterlockedInsertHeadList_def locked_simps)

lemma ExInterlockedInsertTailList_eq:
  "lock_idle s \<Longrightarrow> ExInterlockedInsertTailList q e s =
     Done (if blink (lheap s) q = q then NULL else blink (lheap s) q, s\<lparr>lheap := InsertTailList q e (lheap s)\<rparr>)"
  by (simp add: ExInterlockedInsertTailList_def locked_simps)

lemma ExInterlockedRemoveHeadList_eq:
  "lock_idle s \<Longrightarrow> ExInterlockedRemoveHeadList q s =
     (if IsListEmpty q (lheap s) then Done (NULL, s)
      else Done (fst (RemoveHeadList q (lheap s)), s\<lparr>lheap := snd (RemoveHeadList q (lheap s))\<rparr>))"
  by (simp add: ExInterlockedRemoveHeadList_def locked_simps split: prod.splits)

lemma ExInterlockedRemoveTailList_eq:
  "lock_idle s \<Longrightarrow> ExInterlockedRemoveTailList q s =
     (if IsListEmpty q (lheap s) then Done (NULL, s)
      else Done (fst (RemoveTailList q (lheap s)), s\<lparr>lheap := snd (RemoveTailList q (lheap s))\<rparr>))"
  by (simp add: ExInterlockedRemoveTailList_def locked_simps split: prod.splits)

section \<open>The spin lock among processors\<close>

text \<open>
  Each processor runs KeAcquireSpinLock, a critical section and KeReleaseSpinLock, in a
  loop. A step is one atomic access to the lock word or one IRQL change: Testing is at the
  interlocked bit test, Pausing in the inner read-only loop.
\<close>

datatype lock_pc = Outside | Testing u8 | Pausing u8 | Holding u8 | Releasing u8

record smp =
  lockw :: KSPIN_LOCK
  pc :: "nat \<Rightarrow> lock_pc"
  cpus :: "nat \<Rightarrow> cpu"

inductive lock_step :: "smp \<Rightarrow> smp \<Rightarrow> bool" where
  enter: "pc s i = Outside \<Longrightarrow> KeRaiseIrql DISPATCH_LEVEL 1 (cpus s i) = Done (Some old, c) \<Longrightarrow>
    lock_step s (s\<lparr>pc := (pc s)(i := Testing old), cpus := (cpus s)(i := c)\<rparr>)"
| taken: "pc s i = Testing old \<Longrightarrow> KiAcquireSpinLock (lockw s) = Hang \<Longrightarrow>
    lock_step s (s\<lparr>pc := (pc s)(i := Pausing old)\<rparr>)"
| acquired: "pc s i = Testing old \<Longrightarrow> KiAcquireSpinLock (lockw s) = Done l \<Longrightarrow>
    lock_step s (s\<lparr>lockw := l, pc := (pc s)(i := Holding old)\<rparr>)"
| pause: "pc s i = Pausing old \<Longrightarrow>
    lock_step s (s\<lparr>pc := (pc s)(i := (if bit (lockw s) 0 then Pausing old else Testing old))\<rparr>)"
| release: "pc s i = Holding old \<Longrightarrow> KeGetCurrentIrql (cpus s i) \<noteq> PASSIVE_LEVEL \<Longrightarrow>
    lock_step s (s\<lparr>lockw := KiReleaseSpinLock (lockw s), pc := (pc s)(i := Releasing old)\<rparr>)"
| lower: "pc s i = Releasing old \<Longrightarrow> KeLowerIrql old (cpus s i) = Done c \<Longrightarrow>
    lock_step s (s\<lparr>pc := (pc s)(i := Outside), cpus := (cpus s)(i := c)\<rparr>)"

inductive_cases lock_stepE: "lock_step s s'"

fun saved_irql :: "lock_pc \<Rightarrow> u8 option" where
  "saved_irql Outside = None"
| "saved_irql (Testing old) = Some old"
| "saved_irql (Pausing old) = Some old"
| "saved_irql (Holding old) = Some old"
| "saved_irql (Releasing old) = Some old"

fun holds :: "lock_pc \<Rightarrow> bool" where
  "holds (Holding old) = True"
| "holds p = False"

definition level_ok :: "lock_pc \<Rightarrow> cpu \<Rightarrow> bool" where
  "level_ok p c = (case saved_irql p of None \<Rightarrow> True
     | Some old \<Rightarrow> old \<le> DISPATCH_LEVEL \<and> irql c = DISPATCH_LEVEL)"

definition levels_ok :: "smp \<Rightarrow> bool" where
  "levels_ok s = (\<forall>i. level_ok (pc s i) (cpus s i))"

definition owned_by :: "nat option \<Rightarrow> smp \<Rightarrow> bool" where
  "owned_by owner s = ((\<forall>j. holds (pc s j) \<longleftrightarrow> owner = Some j) \<and> (bit (lockw s) 0 \<longleftrightarrow> owner \<noteq> None))"

definition lock_inv :: "smp \<Rightarrow> bool" where
  "lock_inv s = (levels_ok s \<and> (\<exists>owner. owned_by owner s))"

lemma holds_iff: "holds p \<longleftrightarrow> (\<exists>old. p = Holding old)"
  by (cases p) auto

lemma KiAcquire_cases:
  "KiAcquireSpinLock l = Done l' \<longleftrightarrow> \<not> bit l 0 \<and> l' = set_bit 0 l"
  "KiAcquireSpinLock l = Hang \<longleftrightarrow> bit l 0"
  by (auto simp: KiAcquireSpinLock_def)

lemma levels_okD: "levels_ok s \<Longrightarrow> pc s i = p \<Longrightarrow> level_ok p (cpus s i)"
  by (auto simp: levels_ok_def)

lemma levels_ok_upd:
  assumes "levels_ok s" "level_ok p (cpus s' i)" "pc s' = (pc s)(i := p)"
    and "\<And>j. j \<noteq> i \<Longrightarrow> cpus s' j = cpus s j"
  shows "levels_ok s'"
  using assms by (auto simp: levels_ok_def)

lemma levels_step:
  assumes "lock_step s s'" and "levels_ok s" shows "levels_ok s'"
  using assms
proof (cases rule: lock_step.cases)
  case (enter i old c)
  then show ?thesis
    by (intro levels_ok_upd [OF assms(2), of "Testing old" s' i])
      (auto simp: KeRaiseIrql_Done_iff level_ok_def split: if_splits)
next
  case (taken i old)
  then show ?thesis using levels_okD [OF assms(2) taken(2)]
    by (intro levels_ok_upd [OF assms(2), of "Pausing old" s' i]) (auto simp: level_ok_def)
next
  case (acquired i old l)
  then show ?thesis using levels_okD [OF assms(2) acquired(2)]
    by (intro levels_ok_upd [OF assms(2), of "Holding old" s' i]) (auto simp: level_ok_def)
next
  case (pause i old)
  then show ?thesis using levels_okD [OF assms(2) pause(2)]
    by (intro levels_ok_upd [OF assms(2), of "if bit (lockw s) 0 then Pausing old else Testing old" s' i])
      (auto simp: level_ok_def)
next
  case (release i old)
  then show ?thesis using levels_okD [OF assms(2) release(2)]
    by (intro levels_ok_upd [OF assms(2), of "Releasing old" s' i]) (auto simp: level_ok_def)
next
  case (lower i old c)
  then show ?thesis
    by (intro levels_ok_upd [OF assms(2), of "Outside" s' i]) (auto simp: level_ok_def)
qed

lemma owned_other:
  "owned_by owner s \<Longrightarrow> \<not> holds (pc s i) \<Longrightarrow> \<not> holds p \<Longrightarrow> pc s' = (pc s)(i := p) \<Longrightarrow>
   lockw s' = lockw s \<Longrightarrow> owned_by owner s'"
  by (auto simp: owned_by_def)

lemma owned_step:
  assumes "lock_step s s'" and own: "owned_by owner s"
  shows "\<exists>owner. owned_by owner s'"
  using assms(1)
proof (cases rule: lock_step.cases)
  case (enter i old c)
  then show ?thesis using owned_other [OF own, of i "Testing old" s'] by auto
next
  case (taken i old)
  then show ?thesis using owned_other [OF own, of i "Pausing old" s'] by auto
next
  case (acquired i old l)
  then have "owned_by (Some i) s'" using own
    by (auto simp: owned_by_def KiAcquire_cases bit_simps)
  then show ?thesis ..
next
  case (pause i old)
  then show ?thesis
    using owned_other [OF own, of i "if bit (lockw s) 0 then Pausing old else Testing old" s'] by auto
next
  case (release i old)
  then have "owner = Some i" using own by (metis holds.simps(1) owned_by_def)
  then have "owned_by None s'" using release own by (auto simp: owned_by_def release_clears)
  then show ?thesis ..
next
  case (lower i old c)
  then show ?thesis using owned_other [OF own, of i Outside s'] by auto
qed

lemma lock_inv_step: "lock_step s s' \<Longrightarrow> lock_inv s \<Longrightarrow> lock_inv s'"
  unfolding lock_inv_def using levels_step owned_step by blast

definition lock_start :: "smp \<Rightarrow> bool" where
  "lock_start s = (lockw s = KeInitializeSpinLock (lockw s) \<and> (\<forall>i. pc s i = Outside))"

lemma lock_inv_start: "lock_start s \<Longrightarrow> lock_inv s"
  by (auto simp: lock_start_def lock_inv_def levels_ok_def level_ok_def owned_by_def
      KeInitializeSpinLock_def)

lemma lock_inv_reachable: "lock_step\<^sup>*\<^sup>* s s' \<Longrightarrow> lock_inv s \<Longrightarrow> lock_inv s'"
  by (induction rule: rtranclp_induct) (auto intro: lock_inv_step)

section \<open>Properties\<close>

text \<open>C1: mutual exclusion. However the processors interleave, at most one is in the critical
  section, it runs at DISPATCH_LEVEL, and it can always leave: the release does not stop the
  machine and the lowering gives back an IRQL that KeLowerIrql accepts.\<close>

theorem spinlock_mutual_exclusion:
  assumes "lock_start s0" "lock_step\<^sup>*\<^sup>* s0 s" "pc s i = Holding old"
  shows "(\<forall>j. holds (pc s j) \<longrightarrow> j = i) \<and> irql (cpus s i) = DISPATCH_LEVEL \<and>
    (\<exists>s1 s2. lock_step s s1 \<and> pc s1 i = Releasing old \<and> lock_step s1 s2 \<and> pc s2 i = Outside \<and>
       irql (cpus s2 i) = old \<and> \<not> bit (lockw s2) 0)"
proof -
  have inv: "lock_inv s" using lock_inv_reachable [OF assms(2) lock_inv_start [OF assms(1)]] .
  have h: "holds (pc s i)" using assms(3) by auto
  have lv: "old \<le> DISPATCH_LEVEL" "irql (cpus s i) = DISPATCH_LEVEL"
    and u: "\<forall>j. holds (pc s j) \<longrightarrow> j = i"
    using inv h levels_okD [OF _ assms(3)] by (auto simp: lock_inv_def level_ok_def owned_by_def)
  let ?s1 = "s\<lparr>lockw := KiReleaseSpinLock (lockw s), pc := (pc s)(i := Releasing old)\<rparr>"
  let ?c = "KiApplyIrql (irql (cpus s i)) old (cpus s i)"
  let ?s2 = "?s1\<lparr>pc := (pc ?s1)(i := Outside), cpus := (cpus ?s1)(i := ?c)\<rparr>"
  have "lock_step s ?s1"
    by (rule lock_step.release [OF assms(3)]) (simp add: KeGetCurrentIrql_def lv)
  moreover have "lock_step ?s1 ?s2"
    by (rule lock_step.lower [of _ i old]) (use lv in \<open>simp_all add: KeLowerIrql_Done_iff\<close>)
  moreover have "pc ?s1 i = Releasing old" "pc ?s2 i = Outside" "irql (cpus ?s2 i) = old"
    "\<not> bit (lockw ?s2) 0"
    by (simp_all add: release_clears)
  ultimately show ?thesis using u lv by blast
qed

lemma two_cores_reach:
  fixes c :: cpu
  assumes "c = \<lparr>irql = 0, tpr = 0\<rparr>" "d = \<lparr>irql = 2, tpr = 2\<rparr>"
  shows "lock_step\<^sup>*\<^sup>* \<lparr>lockw = 0, pc = (\<lambda>i. Outside), cpus = (\<lambda>i. c)\<rparr>
    \<lparr>lockw = 1, pc = (\<lambda>i. Outside)(0 := Holding 0), cpus = (\<lambda>i. c)(0 := d)\<rparr>"
proof -
  let ?a = "\<lparr>lockw = 0, pc = (\<lambda>i. Outside), cpus = (\<lambda>i. c)\<rparr>"
  let ?b = "\<lparr>lockw = 0, pc = (\<lambda>i. Outside)(0 := Testing 0), cpus = (\<lambda>i. c)(0 := d)\<rparr>"
  have 1: "lock_step ?a ?b"
    using lock_step.enter [of ?a 0 0 d] assms by (simp add: irql_defs)
  have "lock_step ?b (?b\<lparr>lockw := 1, pc := (pc ?b)(0 := Holding 0)\<rparr>)"
    by (rule lock_step.acquired) (simp_all add: KiAcquireSpinLock_def set_bit_eq_or)
  with 1 show ?thesis by simp
qed

theorem spinlock_mutual_exclusion_witness:
  "\<exists>s. pc s 0 = Holding 0 \<and> (\<forall>j. holds (pc s j) \<longrightarrow> j = 0) \<and>
     (\<exists>s1. lock_step s s1 \<and> pc s1 0 = Releasing 0)"
proof -
  let ?c = "\<lparr>irql = 0, tpr = 0\<rparr>" and ?d = "\<lparr>irql = 2, tpr = 2\<rparr>"
  let ?init = "\<lparr>lockw = 0, pc = (\<lambda>i. Outside), cpus = (\<lambda>i. ?c)\<rparr>"
  let ?s = "\<lparr>lockw = 1, pc = (\<lambda>i. Outside)(0 := Holding 0), cpus = (\<lambda>i. ?c)(0 := ?d)\<rparr>"
  have st: "lock_start ?init" by (simp add: lock_start_def KeInitializeSpinLock_def)
  have h: "pc ?s 0 = Holding 0" by simp
  from spinlock_mutual_exclusion [OF st two_cores_reach [OF refl refl] h] h
  show ?thesis by blast
qed

text \<open>The locked list operations. From an idle lock at or below DISPATCH_LEVEL they leave
  the lock free and the IRQL as it was, change the list as their unlocked counterparts do, and
  answer the old neighbour of the head, or NULL when the list was empty.\<close>

lemma locked_operations_spec:
  assumes "lock_idle s" and "is_list (lheap s) q xs" and "e \<notin> set (q # xs)"
  shows "(\<exists>h. ExInterlockedInsertHeadList q e s = Done (if xs = [] then NULL else hd xs, s\<lparr>lheap := h\<rparr>)
             \<and> is_list h q (e # xs)) \<and>
    (\<exists>h. ExInterlockedInsertTailList q e s = Done (if xs = [] then NULL else last xs, s\<lparr>lheap := h\<rparr>)
             \<and> is_list h q (xs @ [e])) \<and>
    (\<exists>h. ExInterlockedRemoveHeadList q s = Done (if xs = [] then NULL else hd xs, s\<lparr>lheap := h\<rparr>)
             \<and> is_list h q (tl xs)) \<and>
    (\<exists>h. ExInterlockedRemoveTailList q s = Done (if xs = [] then NULL else last xs, s\<lparr>lheap := h\<rparr>)
             \<and> is_list h q (butlast xs))"
proof (intro conjI)
  have d: "q \<notin> set xs" using nl.repr_distinct [OF assms(2)] by simp
  show "\<exists>h. ExInterlockedInsertHeadList q e s = Done (if xs = [] then NULL else hd xs, s\<lparr>lheap := h\<rparr>)
             \<and> is_list h q (e # xs)"
    using d is_list_first [OF assms(2)] nl.ins_head [OF assms(2,3)]
    by (auto simp: ExInterlockedInsertHeadList_eq [OF assms(1)] dest: hd_in_set)
  show "\<exists>h. ExInterlockedInsertTailList q e s = Done (if xs = [] then NULL else last xs, s\<lparr>lheap := h\<rparr>)
             \<and> is_list h q (xs @ [e])"
    using d is_list_last [OF assms(2)] nl.ins_tail [OF assms(2,3)]
    by (auto simp: ExInterlockedInsertTailList_eq [OF assms(1)] dest: last_in_set)
  show "\<exists>h. ExInterlockedRemoveHeadList q s = Done (if xs = [] then NULL else hd xs, s\<lparr>lheap := h\<rparr>)
             \<and> is_list h q (tl xs)"
  proof (cases xs)
    case Nil
    have "s\<lparr>lheap := lheap s\<rparr> = s" by simp
    then show ?thesis using Nil assms(2) nl.is_empty [OF assms(2)]
      by (auto simp: ExInterlockedRemoveHeadList_eq [OF assms(1)] intro!: exI [of _ "lheap s"])
  next
    case (Cons x ys)
    obtain e' h where r: "RemoveHeadList q (lheap s) = (e', h)" by fastforce
    show ?thesis using Cons nl.rem_head [OF assms(2) [unfolded Cons] r] nl.is_empty [OF assms(2)] r
      by (auto simp: ExInterlockedRemoveHeadList_eq [OF assms(1)])
  qed
  show "\<exists>h. ExInterlockedRemoveTailList q s = Done (if xs = [] then NULL else last xs, s\<lparr>lheap := h\<rparr>)
             \<and> is_list h q (butlast xs)"
  proof (cases xs rule: rev_cases)
    case Nil
    then show ?thesis using assms(2) nl.is_empty [OF assms(2)]
      by (auto simp: ExInterlockedRemoveTailList_eq [OF assms(1)] intro!: exI [of _ "lheap s"])
  next
    case (snoc ys x)
    obtain e' h where r: "RemoveTailList q (lheap s) = (e', h)" by fastforce
    show ?thesis using snoc nl.rem_tail [OF assms(2) [unfolded snoc] r] nl.is_empty [OF assms(2)] r
      by (auto simp: ExInterlockedRemoveTailList_eq [OF assms(1)])
  qed
qed

lemma locked_operations_spec_example:
  "\<forall>g. \<exists>h. ExInterlockedInsertTailList 1 5
     \<lparr>lcpu = \<lparr>irql = 0, tpr = 0\<rparr>, llock = 0, lheap = InitializeListHead 1 g\<rparr>
   = Done (NULL, \<lparr>lcpu = \<lparr>irql = 0, tpr = 0\<rparr>, llock = 0, lheap = h\<rparr>) \<and> is_list h 1 [5]"
  using locked_operations_spec
      [of "\<lparr>lcpu = \<lparr>irql = 0, tpr = 0\<rparr>, llock = 0, lheap = InitializeListHead 1 g\<rparr>" 1 "[]" 5 for g]
  by (simp add: lock_idle_def cpu_ok_def is_list_Init)

end
