(* ===== verification/PhysAlloc.thy ===== *)
theory PhysAlloc
  imports Irql
begin

text \<open>
  The physical page allocator, NNXOSKRN/HAL/X64/physical_allocator.c. The MMPFN_ENTRY array
  lives at the address PfnEntries, 32 bytes an entry, its ListEntry first; each entry hangs on
  the free list or on the working set list. The abstract state is the pair of PFN sequences
  on the two lists, and pfn_ok relates it to the heap. An operation that stores through an
  out parameter returns the stored value as an option.
\<close>

section \<open>State\<close>

type_synonym PFN_NUMBER = u64

abbreviation (input) PAGE_SIZE :: u64 where "PAGE_SIZE \<equiv> 4096"
abbreviation (input) MMPFN_FLAG_NO_PAGEOUT :: u64 where "MMPFN_FLAG_NO_PAGEOUT \<equiv> 1"
abbreviation (input) MMPFN_FLAG_PERMAMENT :: u64 where "MMPFN_FLAG_PERMAMENT \<equiv> 2"
abbreviation (input) MM_ALLOC_PFN_REGION_4GB :: u32 where "MM_ALLOC_PFN_REGION_4GB \<equiv> 1"

definition PA_FROM_PFN :: "PFN_NUMBER \<Rightarrow> u64" where "PA_FROM_PFN x = x * PAGE_SIZE"

definition PFN_FROM_PA :: "u64 \<Rightarrow> PFN_NUMBER" where "PFN_FROM_PA x = x div PAGE_SIZE"

record pfn_db =
  pheap :: list_heap
  PfnEntries :: ptr
  NumberOfPfnEntries :: u64
  FreeList :: ptr
  WorkingsetList :: ptr
  NumberOfPfns :: "ptr \<Rightarrow> u64"
  InList :: "ptr \<Rightarrow> ptr"
  Flags :: "ptr \<Rightarrow> u64"
  PfnEntriesLock :: KSPIN_LOCK

definition pfn_entry :: "pfn_db \<Rightarrow> PFN_NUMBER \<Rightarrow> ptr" where
  "pfn_entry s i = PfnEntries s + 32 * i"

definition pfn_index :: "pfn_db \<Rightarrow> ptr \<Rightarrow> PFN_NUMBER" where
  "pfn_index s e = (e - PfnEntries s) div 32"

text \<open>\<open>InList->NumberOfPfns--; InList = &l; InList->NumberOfPfns++\<close>\<close>

definition set_list :: "ptr \<Rightarrow> ptr \<Rightarrow> pfn_db \<Rightarrow> pfn_db" where
  "set_list e l s =
     (let s = s\<lparr>NumberOfPfns := (NumberOfPfns s)(InList s e := NumberOfPfns s (InList s e) - 1)\<rparr>;
          s = s\<lparr>InList := (InList s)(e := l)\<rparr>
      in s\<lparr>NumberOfPfns := (NumberOfPfns s)(l := NumberOfPfns s l + 1)\<rparr>)"

section \<open>Operations\<close>

definition reinit_entry :: "ptr \<Rightarrow> PFN_NUMBER \<Rightarrow> pfn_db \<Rightarrow> pfn_db" where
  "reinit_entry pfnEntries pfnIndex s =
     (let e = pfnEntries + 32 * pfnIndex;
          (l, f) = (if Flags s e \<noteq> 0
                    then (WorkingsetList s, or MMPFN_FLAG_PERMAMENT MMPFN_FLAG_NO_PAGEOUT)
                    else (FreeList s, 0))
      in s\<lparr>Flags := (Flags s)(e := f), InList := (InList s)(e := l),
           pheap := InsertTailList l e (pheap s)\<rparr>)"

definition MmReinitPhysAllocator :: "ptr \<Rightarrow> u64 \<Rightarrow> pfn_db \<Rightarrow> pfn_db" where
  "MmReinitPhysAllocator pfnEntries n s =
     (let h = InitializeListHead (FreeList s) (InitializeListHead (WorkingsetList s) (pheap s));
          s = s\<lparr>pheap := h, NumberOfPfns := (NumberOfPfns s)(FreeList s := n, WorkingsetList s := 0)\<rparr>;
          s = fold (reinit_entry pfnEntries) (map word_of_nat [0..<unat n]) s
      in s\<lparr>PfnEntries := pfnEntries, NumberOfPfnEntries := n,
           PfnEntriesLock := KeInitializeSpinLock (PfnEntriesLock s)\<rparr>)"

definition pfn_locked :: "cpu \<Rightarrow> (pfn_db \<Rightarrow> ('r \<times> pfn_db) outcome) \<Rightarrow> pfn_db \<Rightarrow> ('r \<times> pfn_db) outcome" where
  "pfn_locked c body s =
     obind (KeAcquireSpinLockAtDpcLevel (PfnEntriesLock s) c) (\<lambda>l.
     obind (body (s\<lparr>PfnEntriesLock := l\<rparr>)) (\<lambda>(r, s).
     obind (KeReleaseSpinLockFromDpcLevel (PfnEntriesLock s) c) (\<lambda>l.
       Done (r, s\<lparr>PfnEntriesLock := l\<rparr>))))"

definition MmAllocatePfn :: "cpu \<Rightarrow> pfn_db \<Rightarrow> ((NTSTATUS \<times> PFN_NUMBER option) \<times> pfn_db) outcome" where
  "MmAllocatePfn c = pfn_locked c (\<lambda>s.
     if IsListEmpty (FreeList s) (pheap s) then Done ((STATUS_NO_MEMORY, None), s)
     else
       let (e, h) = RemoveHeadList (FreeList s) (pheap s);
           s = set_list e (WorkingsetList s) (s\<lparr>pheap := h\<rparr>);
           s = s\<lparr>Flags := (Flags s)(e := 0), pheap := InsertTailList (WorkingsetList s) e (pheap s)\<rparr>
       in Done ((STATUS_SUCCESS, Some (pfn_index s e)), s))"

partial_function (option) MiLockedAllocRange :: "ptr \<Rightarrow> ptr \<Rightarrow> pfn_db \<Rightarrow> pfn_db option" where
  "MiLockedAllocRange Current End s =
     (if Current = End then Some s
      else
        let Next = flink (pheap s) Current;
            s = set_list Current (WorkingsetList s) (s\<lparr>pheap := RemoveEntry Current (pheap s)\<rparr>);
            s = s\<lparr>Flags := (Flags s)(Current := 4),
                  pheap := InsertTailList (WorkingsetList s) Current (pheap s)\<rparr>
        in MiLockedAllocRange Next End s)"

partial_function (option) region_loop ::
  "u64 \<Rightarrow> u32 \<Rightarrow> ptr \<Rightarrow> u64 \<Rightarrow> PFN_NUMBER \<Rightarrow> ptr \<Rightarrow> pfn_db \<Rightarrow>
   ((NTSTATUS \<times> PFN_NUMBER option) \<times> pfn_db) option" where
  "region_loop nRegionPages F ListEntry ContiguousPrefix LastPfn PrefixStart s =
     (if ListEntry = FreeList s then Some ((STATUS_NO_MEMORY, None), s)
      else
        let CurrentPfn = pfn_index s ListEntry;
            continues = (PrefixStart \<noteq> NULL \<and> LastPfn + 1 = CurrentPfn \<and>
              (and F MM_ALLOC_PFN_REGION_4GB = 0 \<or> PA_FROM_PFN CurrentPfn \<le> 0xFFFFFFFF));
            ContiguousPrefix = (if continues then ContiguousPrefix + 1 else 0);
            PrefixStart = (if continues then PrefixStart else ListEntry);
            Next = flink (pheap s) ListEntry
        in if ContiguousPrefix + 1 \<ge> nRegionPages
           then (case MiLockedAllocRange PrefixStart (flink (pheap s) ListEntry) s of
                   None \<Rightarrow> None
                 | Some s \<Rightarrow> Some ((STATUS_SUCCESS, Some (pfn_index s PrefixStart)), s))
           else region_loop nRegionPages F Next ContiguousPrefix CurrentPfn PrefixStart s)"

definition MmAllocatePfnRegion ::
  "u64 \<Rightarrow> u32 \<Rightarrow> cpu \<Rightarrow> pfn_db \<Rightarrow> ((NTSTATUS \<times> PFN_NUMBER option) \<times> pfn_db) outcome" where
  "MmAllocatePfnRegion nRegionPages F c = pfn_locked c (\<lambda>s.
     if IsListEmpty (FreeList s) (pheap s) then Done ((STATUS_NO_MEMORY, None), s)
     else (case region_loop nRegionPages F (flink (pheap s) (FreeList s)) 0 0 NULL s of
             None \<Rightarrow> Hang
           | Some r \<Rightarrow> Done r))"

definition MmFreePfn :: "PFN_NUMBER \<Rightarrow> cpu \<Rightarrow> pfn_db \<Rightarrow> (NTSTATUS \<times> pfn_db) outcome" where
  "MmFreePfn pfnNumber c = pfn_locked c (\<lambda>s.
     let e = pfn_entry s pfnNumber in
     if InList s e = FreeList s \<or> and (Flags s e) MMPFN_FLAG_PERMAMENT \<noteq> 0
     then Done (STATUS_INVALID_PARAMETER, s)
     else
       let s = set_list e (FreeList s) (s\<lparr>pheap := RemoveEntry e (pheap s)\<rparr>)
       in Done (STATUS_SUCCESS, s\<lparr>pheap := InsertTailList (FreeList s) e (pheap s)\<rparr>))"

definition MmAllocatePhysicalAddress ::
  "cpu \<Rightarrow> pfn_db \<Rightarrow> ((NTSTATUS \<times> u64 option) \<times> pfn_db) outcome" where
  "MmAllocatePhysicalAddress c s =
     obind (MmAllocatePfn c s) (\<lambda>((status, pfn), s).
       if \<not> NT_SUCCESS status then Done ((status, None), s)
       else Done ((STATUS_SUCCESS, map_option PA_FROM_PFN pfn), s))"

definition MmFreePhysicalAddress :: "u64 \<Rightarrow> cpu \<Rightarrow> pfn_db \<Rightarrow> (NTSTATUS \<times> pfn_db) outcome" where
  "MmFreePhysicalAddress physAddress = MmFreePfn (PFN_FROM_PA physAddress)"

definition MmMarkPfnAsUsed :: "PFN_NUMBER \<Rightarrow> cpu \<Rightarrow> pfn_db \<Rightarrow> (NTSTATUS \<times> pfn_db) outcome" where
  "MmMarkPfnAsUsed pfnNumber c s =
     (if pfnNumber \<ge> NumberOfPfnEntries s then Done (STATUS_INVALID_PARAMETER, s)
      else pfn_locked c (\<lambda>s.
        let e = pfn_entry s pfnNumber in
        if InList s e \<noteq> FreeList s then Done (STATUS_INVALID_PARAMETER, s)
        else
          let s = set_list e (WorkingsetList s) s
          in Done (STATUS_SUCCESS, s\<lparr>pheap := InsertTailList (WorkingsetList s) e (pheap s)\<rparr>)) s)"

definition flag_for_remap :: "PFN_NUMBER \<Rightarrow> pfn_db \<Rightarrow> pfn_db" where
  "flag_for_remap i s =
     (let e = pfn_entry s i in
      s\<lparr>Flags := (Flags s)(e := (if InList s e = FreeList s then 0 else MMPFN_FLAG_NO_PAGEOUT))\<rparr>)"

definition MiFlagPfnsForRemap :: "pfn_db \<Rightarrow> pfn_db" where
  "MiFlagPfnsForRemap s = fold flag_for_remap (map word_of_nat [0..<unat (NumberOfPfnEntries s)]) s"

section \<open>Geometry of the entry array\<close>

definition geometry :: "pfn_db \<Rightarrow> bool" where
  "geometry s = (unat (PfnEntries s) + 32 * unat (NumberOfPfnEntries s) < 2 ^ 64 \<and>
     PfnEntries s \<noteq> 0 \<and> FreeList s \<noteq> WorkingsetList s \<and>
     (\<forall>i < NumberOfPfnEntries s. pfn_entry s i \<noteq> FreeList s \<and> pfn_entry s i \<noteq> WorkingsetList s))"

lemma unat_32_mult:
  fixes i n :: u64
  assumes "i < n" "32 * unat n < 2 ^ 64"
  shows "unat (32 * i) = 32 * unat i"
proof -
  have "unat i < unat n" using assms(1) by (simp add: word_less_nat_alt)
  then have "32 * unat i < 2 ^ 64" using assms(2) by simp
  then show ?thesis by (simp add: unat_word_ariths unat_of_nat)
qed

lemma pfn_index_entry [simp]:
  assumes "geometry s" "i < NumberOfPfnEntries s"
  shows "pfn_index s (pfn_entry s i) = i"
proof -
  have u: "unat (32 * i) = 32 * unat i"
    by (rule unat_32_mult [OF assms(2)]) (use assms(1) in \<open>simp add: geometry_def\<close>)
  have "unat ((32 * i) div 32) = unat i" by (simp add: unat_div u)
  then show ?thesis by (simp add: pfn_index_def pfn_entry_def word_unat_eq_iff)
qed

lemma pfn_entry_inj:
  "geometry s \<Longrightarrow> i < NumberOfPfnEntries s \<Longrightarrow> j < NumberOfPfnEntries s \<Longrightarrow>
   pfn_entry s i = pfn_entry s j \<longleftrightarrow> i = j"
  by (metis pfn_index_entry)

lemma pfn_entry_not_NULL:
  assumes "geometry s" "i < NumberOfPfnEntries s"
  shows "pfn_entry s i \<noteq> NULL"
proof -
  have "unat i < unat (NumberOfPfnEntries s)" using assms(2) by (simp add: word_less_nat_alt)
  then have u: "unat (32 * i) = 32 * unat i" and l: "unat (PfnEntries s) + 32 * unat i < 2 ^ 64"
    using unat_32_mult [OF assms(2)] assms(1) by (auto simp: geometry_def)
  have "unat (pfn_entry s i) = unat (PfnEntries s) + 32 * unat i"
    using l unfolding pfn_entry_def by (subst unat_add_lem [THEN iffD1]) (simp_all add: u)
  moreover have "0 < unat (PfnEntries s)" using assms(1) by (simp add: geometry_def unat_gt_0)
  ultimately show ?thesis by (metis add_is_0 less_irrefl unat_0)
qed

section \<open>The abstract state\<close>

definition entries :: "pfn_db \<Rightarrow> PFN_NUMBER list \<Rightarrow> ptr list" where
  "entries s F = map (pfn_entry s) F"

definition pfn_ok :: "pfn_db \<Rightarrow> PFN_NUMBER list \<Rightarrow> PFN_NUMBER list \<Rightarrow> bool" where
  "pfn_ok s F W =
     (geometry s \<and> is_list (pheap s) (FreeList s) (entries s F) \<and>
      is_list (pheap s) (WorkingsetList s) (entries s W) \<and>
      distinct (F @ W) \<and> set (F @ W) = {i. i < NumberOfPfnEntries s} \<and>
      (\<forall>i\<in>set F. InList s (pfn_entry s i) = FreeList s) \<and>
      (\<forall>i\<in>set W. InList s (pfn_entry s i) = WorkingsetList s))"

definition same_static :: "pfn_db \<Rightarrow> pfn_db \<Rightarrow> bool" where
  "same_static s s' = (PfnEntries s' = PfnEntries s \<and> NumberOfPfnEntries s' = NumberOfPfnEntries s \<and>
     FreeList s' = FreeList s \<and> WorkingsetList s' = WorkingsetList s)"

lemma same_static_entry: "same_static s s' \<Longrightarrow> pfn_entry s' i = pfn_entry s i"
  by (simp add: same_static_def pfn_entry_def)

lemma same_static_geometry: "same_static s s' \<Longrightarrow> geometry s' = geometry s"
  by (simp add: same_static_def geometry_def pfn_entry_def)

lemma same_static_entries: "same_static s s' \<Longrightarrow> entries s' F = entries s F"
  by (simp add: entries_def same_static_entry)

lemma lock_irrelevant [simp]:
  "pfn_entry (s\<lparr>PfnEntriesLock := l\<rparr>) = pfn_entry s"
  "entries (s\<lparr>PfnEntriesLock := l\<rparr>) = entries s"
  "pfn_ok (s\<lparr>PfnEntriesLock := l\<rparr>) = pfn_ok s"
proof -
  show e: "pfn_entry (s\<lparr>PfnEntriesLock := l\<rparr>) = pfn_entry s" by (simp add: fun_eq_iff pfn_entry_def)
  show "entries (s\<lparr>PfnEntriesLock := l\<rparr>) = entries s" by (simp add: fun_eq_iff entries_def e)
  then show "pfn_ok (s\<lparr>PfnEntriesLock := l\<rparr>) = pfn_ok s"
    by (simp add: fun_eq_iff pfn_ok_def geometry_def e)
qed

lemma pfn_ok_listsD:
  assumes "pfn_ok s F W"
  shows "is_list (pheap s) (FreeList s) (entries s F)"
    and "is_list (pheap s) (WorkingsetList s) (entries s W)"
    and "geometry s" "distinct (F @ W)" "set (F @ W) = {i. i < NumberOfPfnEntries s}"
  using assms by (auto simp: pfn_ok_def)

lemma pfn_ok_apart:
  assumes "pfn_ok s F W"
  shows "apart (FreeList s) (entries s F) (WorkingsetList s) (entries s W)"
proof -
  have g: "geometry s" and d: "set F \<inter> set W = {}"
    and b: "\<And>i. i \<in> set F \<union> set W \<Longrightarrow> i < NumberOfPfnEntries s"
    using assms by (auto simp: pfn_ok_def)
  have "pfn_entry s i \<noteq> pfn_entry s j" if "i \<in> set F" "j \<in> set W" for i j
    using that d b pfn_entry_inj [OF g, of i j] by auto
  moreover have "\<And>i. i \<in> set F \<union> set W \<Longrightarrow> pfn_entry s i \<noteq> FreeList s \<and> pfn_entry s i \<noteq> WorkingsetList s"
    using g b by (auto simp: geometry_def)
  ultimately show ?thesis using g unfolding apart_def entries_def geometry_def by fastforce
qed

text \<open>One PFN changes lists: what has to hold of the new state.\<close>

lemma pfn_ok_moved:
  assumes ok: "pfn_ok s (us @ i # vs) W" and st: "same_static s s'"
    and F: "is_list (pheap s') (FreeList s) (entries s (us @ vs))"
    and W: "is_list (pheap s') (WorkingsetList s) (entries s (W @ [i]))"
    and I: "InList s' = (InList s)(pfn_entry s i := WorkingsetList s)"
  shows "pfn_ok s' (us @ vs) (W @ [i])"
proof -
  have g: "geometry s" and b: "\<And>j. j \<in> set (us @ i # vs) \<union> set W \<Longrightarrow> j < NumberOfPfnEntries s"
    using ok by (auto simp: pfn_ok_def)
  have e: "pfn_entry s j = pfn_entry s i \<longleftrightarrow> j = i" if "j \<in> set (us @ i # vs) \<union> set W" for j
    using pfn_entry_inj [OF g b [OF that]] b by auto
  have "\<forall>j\<in>set (us @ vs). InList s' (pfn_entry s j) = FreeList s"
    using ok e by (auto simp: I pfn_ok_def)
  moreover have "\<forall>j\<in>set (W @ [i]). InList s' (pfn_entry s j) = WorkingsetList s"
    using ok e by (auto simp: I pfn_ok_def)
  ultimately show ?thesis
    using ok F W st unfolding pfn_ok_def
    by (auto simp: same_static_entry [OF st] same_static_entries [OF st]
        same_static_geometry [OF st]) (auto simp: same_static_def)
qed

lemma pfn_ok_swap:
  "pfn_ok s F W \<longleftrightarrow>
   pfn_ok (s\<lparr>FreeList := WorkingsetList s, WorkingsetList := FreeList s\<rparr>) W F"
proof -
  have "geometry (s\<lparr>FreeList := WorkingsetList s, WorkingsetList := FreeList s\<rparr>) = geometry s"
    by (auto simp: geometry_def pfn_entry_def)
  moreover have "entries (s\<lparr>FreeList := WorkingsetList s, WorkingsetList := FreeList s\<rparr>) = entries s"
    by (rule ext) (simp add: entries_def pfn_entry_def)
  ultimately show ?thesis
    by (auto simp: pfn_ok_def pfn_entry_def Un_commute)
qed

lemma set_list_simps [simp]:
  "pheap (set_list e l s) = pheap s" "PfnEntries (set_list e l s) = PfnEntries s"
  "NumberOfPfnEntries (set_list e l s) = NumberOfPfnEntries s"
  "FreeList (set_list e l s) = FreeList s" "WorkingsetList (set_list e l s) = WorkingsetList s"
  "InList (set_list e l s) = (InList s)(e := l)" "Flags (set_list e l s) = Flags s"
  "PfnEntriesLock (set_list e l s) = PfnEntriesLock s"
  by (simp_all add: set_list_def Let_def)

lemma set_list_counts:
  "NumberOfPfns (set_list e l s) =
     (let n = (NumberOfPfns s)(InList s e := NumberOfPfns s (InList s e) - 1) in n(l := n l + 1))"
  by (simp add: set_list_def Let_def)

lemma pfn_locked_Done:
  assumes "DISPATCH_LEVEL \<le> irql c" "PfnEntriesLock s = 0"
    and "body (s\<lparr>PfnEntriesLock := 1\<rparr>) = Done (r, s')" "PfnEntriesLock s' = 1"
  shows "pfn_locked c body s = Done (r, s'\<lparr>PfnEntriesLock := 0\<rparr>)"
  using assms
  by (simp add: pfn_locked_def KeAcquireSpinLockAtDpcLevel_def KeGetCurrentIrql_def
      KiAcquireSpinLock_def KeReleaseSpinLockFromDpcLevel_def KiReleaseSpinLock_def set_bit_eq_or)

section \<open>Allocating and freeing one page\<close>

lemma entries_simps [simp]:
  "entries s [] = []" "entries s (i # F) = pfn_entry s i # entries s F"
  "entries s (F @ G) = entries s F @ entries s G"
  by (simp_all add: entries_def)

lemma MmAllocatePfn_refines:
  assumes ok: "pfn_ok s (i # F) W" and lk: "PfnEntriesLock s = 0" and c: "DISPATCH_LEVEL \<le> irql c"
  shows "\<exists>s'. MmAllocatePfn c s = Done ((STATUS_SUCCESS, Some i), s') \<and> pfn_ok s' F (W @ [i]) \<and>
    PfnEntriesLock s' = 0 \<and> same_static s s' \<and>
    NumberOfPfns s' = (NumberOfPfns s)(FreeList s := NumberOfPfns s (FreeList s) - 1,
                                       WorkingsetList s := NumberOfPfns s (WorkingsetList s) + 1) \<and>
    Flags s' (pfn_entry s i) = 0"
proof -
  let ?e = "pfn_entry s i"
  note l = pfn_ok_listsD [OF ok]
  have ib: "i < NumberOfPfnEntries s" and inl: "InList s ?e = FreeList s"
    using ok by (auto simp: pfn_ok_def)
  have fw: "FreeList s \<noteq> WorkingsetList s" using l(3) by (simp add: geometry_def)
  obtain e h where r: "RemoveHeadList (FreeList s) (pheap s) = (e, h)" by fastforce
  note mv = nl.move_head_tail [OF l(1) [simplified] l(2) pfn_ok_apart [OF ok, simplified] r]
  define t where "t = set_list ?e (WorkingsetList s) (s\<lparr>PfnEntriesLock := 1, pheap := h\<rparr>)"
  define s' where "s' = t\<lparr>Flags := (Flags t)(?e := 0), pheap := InsertTailList (WorkingsetList s) ?e h\<rparr>"
  have st: "same_static s s'" by (simp add: same_static_def s'_def t_def)
  have ok': "pfn_ok s' F (W @ [i])"
    by (rule pfn_ok_moved [of s "[]" i F W s', simplified])
      (use ok st mv(2,3) in \<open>simp_all add: s'_def t_def\<close>)
  have ne: "\<not> IsListEmpty (FreeList s) (pheap s)" using nl.is_empty [OF l(1)] by simp
  have ix: "pfn_index s' ?e = i"
    using pfn_index_entry [OF l(3) ib] st by (simp add: pfn_index_def same_static_def)
  have "MmAllocatePfn c s = Done ((STATUS_SUCCESS, Some i), s'\<lparr>PfnEntriesLock := 0\<rparr>)"
    unfolding MmAllocatePfn_def
    by (rule pfn_locked_Done [OF c lk])
      (use ne r mv(1) ix in \<open>simp_all add: s'_def t_def Let_def pfn_index_def\<close>)
  then show ?thesis
    using ok' st fw inl
    by (auto simp: same_static_def s'_def t_def set_list_counts Let_def fun_eq_iff)
qed

lemma MmAllocatePfn_empty:
  assumes ok: "pfn_ok s [] W" and lk: "PfnEntriesLock s = 0" and c: "DISPATCH_LEVEL \<le> irql c"
  shows "MmAllocatePfn c s = Done ((STATUS_NO_MEMORY, None), s)"
proof -
  have ne: "IsListEmpty (FreeList s) (pheap s)" using nl.is_empty [OF pfn_ok_listsD(1) [OF ok]] by simp
  have "MmAllocatePfn c s = Done ((STATUS_NO_MEMORY, None), s\<lparr>PfnEntriesLock := 1\<rparr>\<lparr>PfnEntriesLock := 0\<rparr>)"
    unfolding MmAllocatePfn_def by (rule pfn_locked_Done [OF c lk]) (use ne in simp_all)
  then show ?thesis using lk by simp
qed

lemma MmFreePfn_refines:
  assumes ok: "pfn_ok s F (us @ i # vs)" and lk: "PfnEntriesLock s = 0" and c: "DISPATCH_LEVEL \<le> irql c"
    and np: "and (Flags s (pfn_entry s i)) MMPFN_FLAG_PERMAMENT = 0"
  shows "\<exists>s'. MmFreePfn i c s = Done (STATUS_SUCCESS, s') \<and> pfn_ok s' (F @ [i]) (us @ vs) \<and>
    PfnEntriesLock s' = 0 \<and> same_static s s' \<and>
    NumberOfPfns s' = (NumberOfPfns s)(FreeList s := NumberOfPfns s (FreeList s) + 1,
                                       WorkingsetList s := NumberOfPfns s (WorkingsetList s) - 1)"
proof -
  let ?e = "pfn_entry s i"
  note l = pfn_ok_listsD [OF ok]
  have fw: "FreeList s \<noteq> WorkingsetList s" using l(3) by (simp add: geometry_def)
  have inl: "InList s ?e = WorkingsetList s" using ok by (auto simp: pfn_ok_def)
  have ap: "apart (WorkingsetList s) (entries s us @ ?e # entries s vs) (FreeList s) (entries s F)"
    using apart_sym [OF pfn_ok_apart [OF ok]] by simp
  note mv = nl.move_entry_tail [OF l(2) [simplified] l(1) ap]
  define t where "t = set_list ?e (FreeList s) (s\<lparr>PfnEntriesLock := 1, pheap := RemoveEntry ?e (pheap s)\<rparr>)"
  define s' where "s' = t\<lparr>pheap := InsertTailList (FreeList s) ?e (pheap t)\<rparr>"
  have st: "same_static s s'" by (simp add: same_static_def s'_def t_def)
  let ?sw = "\<lambda>s. s\<lparr>FreeList := WorkingsetList s, WorkingsetList := FreeList s\<rparr>"
  have en: "entries (?sw s) = entries s" "pfn_entry (?sw s) = pfn_entry s"
    by (simp_all add: fun_eq_iff entries_def pfn_entry_def)
  have "pfn_ok (?sw s') (us @ vs) (F @ [i])"
    by (rule pfn_ok_moved [of "?sw s" us i vs F])
      (use pfn_ok_swap [THEN iffD1, OF ok] st mv in
        \<open>simp_all add: s'_def t_def en same_static_def\<close>)
  then have ok': "pfn_ok s' (F @ [i]) (us @ vs)" using pfn_ok_swap by blast
  have "MmFreePfn i c s = Done (STATUS_SUCCESS, s'\<lparr>PfnEntriesLock := 0\<rparr>)"
    unfolding MmFreePfn_def
    by (rule pfn_locked_Done [OF c lk])
      (use inl fw np in \<open>simp_all add: s'_def t_def Let_def\<close>)
  then show ?thesis
    using ok' st fw inl
    by (auto simp: same_static_def s'_def t_def set_list_counts Let_def fun_eq_iff)
qed

section \<open>Marking a page as used\<close>

lemma links_back: "links h a xs b \<Longrightarrow> e \<in> set (a # xs) \<Longrightarrow> blink h (flink h e) = e"
  by (induction xs arbitrary: a) auto

lemma is_list_back: "is_list h q xs \<Longrightarrow> e \<in> set (q # xs) \<Longrightarrow> blink h (flink h e) = e"
  unfolding is_list_def using links_back by blast

lemma last_link: "links h a xs b \<Longrightarrow> flink h (last (a # xs)) = b"
  by (induction xs arbitrary: a) auto

text \<open>Appending an entry that still hangs on another list breaks that list.\<close>

lemma InsertTail_linked_breaks:
  assumes a: "is_list h a (us @ e # vs)" and b: "is_list h b ys" and ab: "apart a (us @ e # vs) b ys"
  shows "\<not> is_list (InsertTailList b e h) a zs"
proof
  let ?h = "InsertTailList b e h"
  assume l: "is_list ?h a zs"
  have d: "distinct (a # us @ e # vs)" and lk: "links h a us e"
    using a by (auto simp: is_list_def links_append)
  have lb: "blink h b \<in> set (b # ys)" by (rule is_list_closed [OF b]) simp
  have fl: "flink ?h x = flink h x" if "x \<in> set (a # us)" for x
    using that d ab lb by (auto simp: InsertTailList_def Let_def apart_def)
  have reach: "links h p ws e \<Longrightarrow> (\<And>x. x \<in> set (p # ws) \<Longrightarrow> flink ?h x = flink h x) \<Longrightarrow>
      p \<in> set (a # zs) \<Longrightarrow> last (p # ws) \<in> set (a # zs)" for p ws
  proof (induction ws arbitrary: p)
    case (Cons w ws)
    have "flink ?h p = w" using Cons.prems by simp
    then have "w \<in> set (a # zs)" using is_list_closed(1) [OF l Cons.prems(3)] by metis
    then show ?case using Cons by simp
  qed simp
  have "last (a # us) \<in> set (a # zs)" by (rule reach [OF lk fl]) simp_all
  moreover have "flink ?h (last (a # us)) = e"
    using fl [OF last_in_set] last_link [OF lk] by simp
  ultimately have "blink ?h e = last (a # us)" using is_list_back [OF l] by metis
  moreover have "blink ?h e = blink h b"
    using lb d ab by (auto simp: InsertTailList_def Let_def apart_def)
  moreover have "last (a # us) \<in> set (a # us)" by (rule last_in_set) simp
  then have "last (a # us) \<notin> set (b # ys)" using ab by (auto simp: apart_def)
  ultimately show False using lb by metis
qed

lemma MmMarkPfnAsUsed_effect:
  assumes ok: "pfn_ok s (us @ i # vs) W" and lk: "PfnEntriesLock s = 0" and c: "DISPATCH_LEVEL \<le> irql c"
  shows "\<exists>s'. MmMarkPfnAsUsed i c s = Done (STATUS_SUCCESS, s') \<and> FreeList s' = FreeList s \<and>
    pheap s' = InsertTailList (WorkingsetList s) (pfn_entry s i) (pheap s)"
proof -
  have ib: "i < NumberOfPfnEntries s" and inl: "InList s (pfn_entry s i) = FreeList s"
    using ok by (auto simp: pfn_ok_def)
  define t where "t = set_list (pfn_entry s i) (WorkingsetList s) (s\<lparr>PfnEntriesLock := 1\<rparr>)"
  define s' where "s' = t\<lparr>pheap := InsertTailList (WorkingsetList s) (pfn_entry s i) (pheap t)\<rparr>"
  have "MmMarkPfnAsUsed i c s = Done (STATUS_SUCCESS, s'\<lparr>PfnEntriesLock := 0\<rparr>)"
    unfolding MmMarkPfnAsUsed_def using ib
    by (simp add: not_le, intro pfn_locked_Done [OF c lk])
      (use inl in \<open>simp_all add: s'_def t_def Let_def\<close>)
  then show ?thesis by (simp add: s'_def t_def)
qed

section \<open>Allocating a region\<close>

lemma is_list_next: "is_list h q (xs @ e # ys) \<Longrightarrow> flink h e = hd (ys @ [q])"
  by (cases ys) (auto simp: is_list_def links_append)

lemma pfn_ok_use:
  assumes ok: "pfn_ok s (us @ i # vs) W"
    and s': "s' = (let t = set_list (pfn_entry s i) (WorkingsetList s)
                             (s\<lparr>pheap := RemoveEntry (pfn_entry s i) (pheap s)\<rparr>)
                   in t\<lparr>Flags := f, pheap := InsertTailList (WorkingsetList s) (pfn_entry s i) (pheap t)\<rparr>)"
  shows "pfn_ok s' (us @ vs) (W @ [i])" "same_static s s'" "PfnEntriesLock s' = PfnEntriesLock s"
proof -
  let ?e = "pfn_entry s i"
  note l = pfn_ok_listsD [OF ok]
  have ap: "apart (FreeList s) (entries s us @ ?e # entries s vs) (WorkingsetList s) (entries s W)"
    using pfn_ok_apart [OF ok] by simp
  note mv = nl.move_entry_tail [OF l(1) [simplified] l(2) ap]
  show st: "same_static s s'" by (simp add: same_static_def s' Let_def)
  show "pfn_ok s' (us @ vs) (W @ [i])"
    by (rule pfn_ok_moved [OF ok st]) (use mv in \<open>simp_all add: s' Let_def\<close>)
  show "PfnEntriesLock s' = PfnEntriesLock s" by (simp add: s' Let_def)
qed

lemma MiLockedAllocRange_refines:
  assumes "pfn_ok s (us @ run @ rest) W"
  shows "\<exists>s'. MiLockedAllocRange (hd (entries s (run @ rest) @ [FreeList s]))
      (hd (entries s rest @ [FreeList s])) s = Some s' \<and>
    pfn_ok s' (us @ rest) (W @ run) \<and> same_static s s' \<and> PfnEntriesLock s' = PfnEntriesLock s"
  using assms
proof (induction run arbitrary: s W)
  case Nil
  then show ?case by (subst MiLockedAllocRange.simps) (simp add: same_static_def)
next
  case (Cons i run)
  let ?e = "pfn_entry s i" and ?stop = "hd (entries s rest @ [FreeList s])"
  define t where "t = (let t = set_list ?e (WorkingsetList s) (s\<lparr>pheap := RemoveEntry ?e (pheap s)\<rparr>)
    in t\<lparr>Flags := (Flags t)(?e := 4), pheap := InsertTailList (WorkingsetList s) ?e (pheap t)\<rparr>)"
  have ok: "pfn_ok s (us @ i # (run @ rest)) W" using Cons.prems by simp
  note l = pfn_ok_listsD [OF ok]
  have t: "pfn_ok t (us @ run @ rest) (W @ [i])" "same_static s t" "PfnEntriesLock t = PfnEntriesLock s"
    using pfn_ok_use [OF ok, of t] by (simp_all add: t_def Let_def)
  have nx: "flink (pheap s) ?e = hd (entries s (run @ rest) @ [FreeList s])"
    by (rule is_list_next [of _ _ "entries s us"]) (use l(1) in simp)
  have "distinct (FreeList s # entries s us @ ?e # entries s run @ entries s rest)"
    using nl.repr_distinct [OF l(1)] by simp
  then have ne: "?e \<noteq> ?stop" by (cases "entries s rest") auto
  have e: "entries t xs = entries s xs" for xs by (rule same_static_entries [OF t(2)])
  have f: "FreeList t = FreeList s" using t(2) by (simp add: same_static_def)
  from Cons.IH [OF t(1), unfolded e f] obtain s' where s':
    "MiLockedAllocRange (hd (entries s (run @ rest) @ [FreeList s])) ?stop t = Some s'"
    "pfn_ok s' (us @ rest) ((W @ [i]) @ run)" "same_static t s'" "PfnEntriesLock s' = PfnEntriesLock t"
    by blast
  have "MiLockedAllocRange ?e ?stop s = Some s'"
    using s'(1) ne nx by (subst MiLockedAllocRange.simps) (simp add: t_def Let_def)
  then show ?case
    using s'(2-4) t(2,3) by (auto simp: same_static_def)
qed

text \<open>The search on PFN sequences: us was passed over, run is the current run.\<close>

definition continues :: "u32 \<Rightarrow> PFN_NUMBER list \<Rightarrow> PFN_NUMBER \<Rightarrow> bool" where
  "continues F run i = (run \<noteq> [] \<and> last run + 1 = i \<and>
     (and F MM_ALLOC_PFN_REGION_4GB = 0 \<or> PA_FROM_PFN i \<le> 0xFFFFFFFF))"

fun find_run :: "nat \<Rightarrow> u32 \<Rightarrow> PFN_NUMBER list \<Rightarrow> PFN_NUMBER list \<Rightarrow> PFN_NUMBER list \<Rightarrow>
    (PFN_NUMBER list \<times> PFN_NUMBER list \<times> PFN_NUMBER list) option" where
  "find_run n F us run [] = None"
| "find_run n F us run (i # rest) =
     (let (us, run) = (if continues F run i then (us, run @ [i]) else (us @ run, [i]))
      in if n \<le> length run then Some (us, run, rest) else find_run n F us run rest)"

lemma length_PFNs: "pfn_ok s F W \<Longrightarrow> length F < 2 ^ 64"
proof -
  assume ok: "pfn_ok s F W"
  have "distinct F" "set F \<subseteq> {i. i < NumberOfPfnEntries s}" using ok by (auto simp: pfn_ok_def)
  then have "card (set F) \<le> card {i. i < NumberOfPfnEntries s}" by (intro card_mono) auto
  also have "{i. i < NumberOfPfnEntries s} = word_of_nat ` {..<unat (NumberOfPfnEntries s)}"
    by (rule words_below)
  also have "card \<dots> \<le> unat (NumberOfPfnEntries s)" using card_image_le [of "{..<unat (NumberOfPfnEntries s)}"] by simp
  finally show "length F < 2 ^ 64"
    using \<open>distinct F\<close> unat_bound [of "NumberOfPfnEntries s"] by (simp add: distinct_card)
qed

lemma region_loop_refines:
  assumes ok: "pfn_ok s (us @ run @ rest) W"
    and P: "run = [] \<longrightarrow> ps = NULL \<and> us = []" "run \<noteq> [] \<longrightarrow> ps = pfn_entry s (hd run) \<and> lp = last run \<and>
      cp + 1 = word_of_nat (length run) \<and> length run < unat n"
  shows "region_loop n F (hd (entries s rest @ [FreeList s])) cp lp ps s =
    (case find_run (unat n) F us run rest of
       None \<Rightarrow> Some ((STATUS_NO_MEMORY, None), s)
     | Some (us', run', rest') \<Rightarrow>
         map_option (\<lambda>s'. ((STATUS_SUCCESS, Some (hd run')), s'))
           (MiLockedAllocRange (pfn_entry s (hd run')) (hd (entries s rest' @ [FreeList s])) s))"
  using assms
proof (induction rest arbitrary: us run cp lp ps)
  case Nil
  then show ?case by (subst region_loop.simps) simp
next
  case (Cons i rest)
  have g: "geometry s" using Cons.prems(1) by (simp add: pfn_ok_def)
  have b: "j < NumberOfPfnEntries s" if "j \<in> set (us @ run @ i # rest)" for j
    using Cons.prems(1) that by (auto simp: pfn_ok_def)
  have ne: "pfn_entry s i \<noteq> FreeList s" using g b [of i] by (auto simp: geometry_def)
  have nx: "flink (pheap s) (pfn_entry s i) = hd (entries s rest @ [FreeList s])"
    by (rule is_list_next [of _ _ "entries s (us @ run)"]) (use pfn_ok_listsD(1) [OF Cons.prems(1)] in simp)
  have lu: "length (us @ run @ i # rest) < 2 ^ 64" by (rule length_PFNs [OF Cons.prems(1)])
  have in_mid: "i \<in> set (us @ run @ i # rest)" by simp
  have cont: "(ps \<noteq> NULL \<and> lp + 1 = i \<and>
      (and F MM_ALLOC_PFN_REGION_4GB = 0 \<or> PA_FROM_PFN i \<le> 0xFFFFFFFF)) = continues F run i"
    using Cons.prems(2,3) pfn_entry_not_NULL [OF g b [of "hd run"]]
    by (auto simp: continues_def)
  have step: "region_loop n F (pfn_entry s i) cp lp ps s =
      (let cp = if continues F run i then cp + 1 else 0;
           ps = if continues F run i then ps else pfn_entry s i
       in if n \<le> cp + 1
          then (case MiLockedAllocRange ps (hd (entries s rest @ [FreeList s])) s of None \<Rightarrow> None
                | Some s' \<Rightarrow> Some ((STATUS_SUCCESS, Some (pfn_index s' ps)), s'))
          else region_loop n F (hd (entries s rest @ [FreeList s])) cp i ps s)"
    by (subst region_loop.simps)
      (simp only: Let_def cont nx ne if_False pfn_index_entry [OF g b [OF in_mid]])
  show ?case
  proof (cases "continues F run i")
    case True
    then have r: "run \<noteq> []" by (simp add: continues_def)
    have cp1: "cp + 1 + 1 = word_of_nat (length (run @ [i]))" using Cons.prems(3) r by simp
    have le: "n \<le> cp + 1 + 1 \<longleftrightarrow> unat n \<le> length (run @ [i])"
      unfolding cp1 word_le_nat_alt using lu by (subst unat_word_of_nat) simp_all
    obtain s' where al: "MiLockedAllocRange (pfn_entry s (hd run)) (hd (entries s rest @ [FreeList s])) s = Some s'"
      "same_static s s'"
      using MiLockedAllocRange_refines [of s us "run @ [i]" rest W] Cons.prems(1) r by (cases run) auto
    have ps: "ps = pfn_entry s (hd run)" and hb: "hd run < NumberOfPfnEntries s"
      using Cons.prems(3) r b by auto
    have ix: "pfn_index s' (pfn_entry s (hd run)) = hd run"
      using pfn_index_entry [OF g hb] al(2) by (simp add: pfn_index_def same_static_def)
    show ?thesis
    proof (cases "n \<le> cp + 1 + 1")
      case T: True
      then show ?thesis using True r le al(1) ix by (simp add: step [unfolded ps] Let_def ps)
    next
      case F: False
      have "region_loop n F (hd (entries s rest @ [FreeList s])) (cp + 1) i ps s =
        (case find_run (unat n) F us (run @ [i]) rest of None \<Rightarrow> Some ((STATUS_NO_MEMORY, None), s)
         | Some (us', run', rest') \<Rightarrow> map_option (\<lambda>s'. ((STATUS_SUCCESS, Some (hd run')), s'))
             (MiLockedAllocRange (pfn_entry s (hd run')) (hd (entries s rest' @ [FreeList s])) s))"
        by (rule Cons.IH) (use Cons.prems(1) ps r cp1 le F in auto)
      then show ?thesis using True F le by (simp add: step Let_def)
    qed
  next
    case False
    have le: "n \<le> 0 + 1 \<longleftrightarrow> unat n \<le> length [i]" by (simp add: word_le_nat_alt)
    obtain s' where al: "MiLockedAllocRange (pfn_entry s i) (hd (entries s rest @ [FreeList s])) s = Some s'"
      "same_static s s'"
      using MiLockedAllocRange_refines [of s "us @ run" "[i]" rest W] Cons.prems(1) by auto
    have ix: "pfn_index s' (pfn_entry s i) = i"
      using pfn_index_entry [OF g b [of i]] al(2) by (simp add: pfn_index_def same_static_def)
    show ?thesis
    proof (cases "n \<le> 0 + 1")
      case T: True
      then show ?thesis using False le al(1) ix by (simp add: step Let_def)
    next
      case F: False
      have "region_loop n F (hd (entries s rest @ [FreeList s])) 0 i (pfn_entry s i) s =
        (case find_run (unat n) F (us @ run) [i] rest of None \<Rightarrow> Some ((STATUS_NO_MEMORY, None), s)
         | Some (us', run', rest') \<Rightarrow> map_option (\<lambda>s'. ((STATUS_SUCCESS, Some (hd run')), s'))
             (MiLockedAllocRange (pfn_entry s (hd run')) (hd (entries s rest' @ [FreeList s])) s))"
        by (rule Cons.IH) (use Cons.prems(1) le F in auto)
      then show ?thesis using False F le by (simp add: step Let_def)
    qed
  qed
qed

text \<open>What a successful search found, and what an unsuccessful one excludes.\<close>

definition consecutive :: "PFN_NUMBER list \<Rightarrow> bool" where
  "consecutive run = successively (\<lambda>i j. j = i + 1) run"

lemma consecutive_append:
  "consecutive (xs @ ys) \<longleftrightarrow> consecutive xs \<and> consecutive ys \<and>
     (xs = [] \<or> ys = [] \<or> hd ys = last xs + 1)"
  by (simp add: consecutive_def successively_append_iff)

lemma consecutive_single [simp]: "consecutive []" "consecutive [i]"
  by (simp_all add: consecutive_def)

lemma consecutive_nth:
  "consecutive run \<Longrightarrow> k < length run \<Longrightarrow> run ! k = hd run + word_of_nat k"
proof (induction run arbitrary: k rule: rev_induct)
  case (snoc i run)
  then show ?case
    by (cases "k < length run"; cases "run = []")
      (auto simp: consecutive_append nth_append last_conv_nth of_nat_diff add_ac less_Suc_eq of_nat_Suc [symmetric] simp del: of_nat_Suc)
qed simp

lemma find_run_Some:
  "find_run n F us run rest = Some (us', run', rest') \<Longrightarrow> consecutive run \<Longrightarrow> length run < max 1 n \<Longrightarrow>
   us' @ run' @ rest' = us @ run @ rest \<and> consecutive run' \<and> length run' = max 1 n"
proof (induction rest arbitrary: us run)
  case (Cons i rest)
  show ?case
  proof (cases "continues F run i")
    case True
    then show ?thesis using Cons.prems Cons.IH [of us "run @ [i]"]
      by (auto simp: Let_def continues_def consecutive_append split: if_splits)
  next
    case False
    then show ?thesis using Cons.prems Cons.IH [of "us @ run" "[i]"]
      by (auto simp: Let_def split: if_splits)
  qed
qed simp

text \<open>Without the 4 GB flag the search misses no run: the current run is the longest one that
  ends where the search stands.\<close>

lemma find_run_None:
  assumes "find_run n 0 us run (seg @ bs) = None" and "consecutive (run @ seg)" and "run \<noteq> []"
    and "seg \<noteq> []"
  shows "length (run @ seg) < n"
  using assms
proof (induction seg arbitrary: us run)
  case (Cons i seg)
  have c: "continues 0 run i"
    using Cons.prems(2,3) by (auto simp: consecutive_append continues_def)
  show ?case
    using Cons.IH [of us "run @ [i]"] Cons.prems c
    by (cases "seg = []") (auto simp: Let_def split: if_splits)
qed simp

lemma find_run_complete:
  assumes "find_run n 0 us run (as @ seg @ bs) = None" "consecutive run" "consecutive seg" "seg \<noteq> []"
  shows "length seg < n"
  using assms
proof (induction as arbitrary: us run)
  case Nil
  then obtain i sg where seg: "seg = i # sg" by (cases seg) auto
  show ?case
  proof (cases "continues 0 run i")
    case True
    then have "consecutive (run @ seg)" "run \<noteq> []"
      using Nil.prems seg by (auto simp: consecutive_append continues_def)
    then show ?thesis using find_run_None [of n us run seg bs] Nil.prems by simp
  next
    case False
    then show ?thesis using Nil.prems seg find_run_None [of n "us @ run" "[i]" sg bs]
      by (cases "sg = []") (auto simp: Let_def split: if_splits)
  qed
next
  case (Cons a as)
  then show ?case
    by (auto simp: Let_def continues_def consecutive_append split: if_splits)
qed

section \<open>Initialisation\<close>

definition pfns_below :: "nat \<Rightarrow> PFN_NUMBER list" where
  "pfns_below k = map word_of_nat [0..<k]"

lemma pfns_below_Suc: "pfns_below (Suc k) = pfns_below k @ [word_of_nat k]"
  by (simp add: pfns_below_def)

lemma pfns_below_less: "i \<in> set (pfns_below k) \<Longrightarrow> k \<le> unat n \<Longrightarrow> i < (n :: u64)"
proof -
  assume "i \<in> set (pfns_below k)" "k \<le> unat n"
  then obtain m where m: "i = word_of_nat m" "m < unat n" by (auto simp: pfns_below_def)
  then have "m < 2 ^ 64" using unat_bound [of n] by simp
  then show ?thesis using m by (simp add: word_less_nat_alt unat_word_of_nat)
qed

lemma pfns_below_new: "k < unat (n :: u64) \<Longrightarrow> word_of_nat k \<notin> set (pfns_below k)"
proof
  assume k: "k < unat n" and "word_of_nat k \<in> set (pfns_below k)"
  then obtain m where m: "word_of_nat k = (word_of_nat m :: u64)" "m < k" by (auto simp: pfns_below_def)
  have "k < 2 ^ LENGTH(64)" "m < 2 ^ LENGTH(64)" using m(2) k unat_bound [of n] by linarith+
  from this [THEN unat_word_of_nat] have "k = m" using m(1) by metis
  then show False using m by simp
qed

lemma distinct_pfns_below: "k \<le> unat (n :: u64) \<Longrightarrow> distinct (pfns_below k)"
proof (induction k)
  case (Suc k)
  then show ?case using pfns_below_new [of k n] by (simp add: pfns_below_Suc)
qed (simp add: pfns_below_def)

text \<open>The lists built from the first k entries: free ones, used ones.\<close>

definition reinit_ok :: "pfn_db \<Rightarrow> pfn_db \<Rightarrow> nat \<Rightarrow> bool" where
  "reinit_ok s t k = (let used = \<lambda>i. Flags s (pfn_entry s i) \<noteq> 0 in
     same_static s t \<and>
     is_list (pheap t) (FreeList s) (entries s (filter (\<lambda>i. \<not> used i) (pfns_below k))) \<and>
     is_list (pheap t) (WorkingsetList s) (entries s (filter used (pfns_below k))) \<and>
     (\<forall>i\<in>set (pfns_below k).
        InList t (pfn_entry s i) = (if used i then WorkingsetList s else FreeList s) \<and>
        Flags t (pfn_entry s i) = (if used i then 3 else 0)) \<and>
     (\<forall>i < NumberOfPfnEntries s. i \<notin> set (pfns_below k) \<longrightarrow> Flags t (pfn_entry s i) = Flags s (pfn_entry s i)) \<and>
     NumberOfPfns t = NumberOfPfns s)"

lemma reinit_step:
  assumes g: "geometry s" and ok: "reinit_ok s t k" and k: "k < unat (NumberOfPfnEntries s)"
  shows "reinit_ok s (reinit_entry (PfnEntries s) (word_of_nat k) t) (Suc k)"
proof -
  define i where "i = (word_of_nat k :: u64)"
  define used where "used = (\<lambda>i. Flags s (pfn_entry s i) \<noteq> 0)"
  let ?F = "filter (\<lambda>i. \<not> used i) (pfns_below k)" and ?W = "filter used (pfns_below k)"
  have iN: "i < NumberOfPfnEntries s"
    using pfns_below_less [of i "Suc k"] k by (simp add: i_def pfns_below_Suc)
  have new: "i \<notin> set (pfns_below k)" unfolding i_def by (rule pfns_below_new [OF k])
  have b: "j \<in> set (pfns_below k) \<Longrightarrow> j < NumberOfPfnEntries s" for j
    using pfns_below_less [of j k] k by simp
  have inj: "j < NumberOfPfnEntries s \<Longrightarrow> pfn_entry s j = pfn_entry s i \<longleftrightarrow> j = i" for j
    using pfn_entry_inj [OF g _ iN] by blast
  have st: "same_static s t" and F: "is_list (pheap t) (FreeList s) (entries s ?F)"
    and W: "is_list (pheap t) (WorkingsetList s) (entries s ?W)"
    and fl: "Flags t (pfn_entry s i) = Flags s (pfn_entry s i)"
    using ok new iN by (auto simp: reinit_ok_def used_def Let_def)
  have ne: "pfn_entry s i \<noteq> pfn_entry s j" if "j \<in> set (pfns_below k)" for j
    using inj [OF b [OF that]] new that by metis
  have fresh: "pfn_entry s i \<notin> set (entries s (filter P (pfns_below k)))"
    "pfn_entry s i \<noteq> FreeList s" "pfn_entry s i \<noteq> WorkingsetList s" for P
    using ne g iN by (auto simp: entries_def geometry_def)
  have ap: "apart (FreeList s) (entries s ?F) (WorkingsetList s) (entries s ?W)"
    using g b pfn_entry_inj [OF g] unfolding apart_def entries_def geometry_def
    by (fastforce dest: b)
  have e: "PfnEntries s + 32 * i = pfn_entry s i" by (simp add: pfn_entry_def)
  let ?t = "reinit_entry (PfnEntries s) (word_of_nat k) t"
  have "is_list (pheap ?t) (FreeList s) (entries s (filter (\<lambda>i. \<not> used i) (pfns_below (Suc k))))"
    using st fl nl.ins_tail [OF F] nl.ins_tail_frame [OF W apart_sym [OF ap] _ F] fresh
    by (auto simp: reinit_entry_def Let_def e used_def pfns_below_Suc i_def [symmetric] same_static_def)
  moreover have "is_list (pheap ?t) (WorkingsetList s) (entries s (filter used (pfns_below (Suc k))))"
    using st fl nl.ins_tail [OF W] nl.ins_tail_frame [OF F ap _ W] fresh
    by (auto simp: reinit_entry_def Let_def e used_def pfns_below_Suc i_def [symmetric] same_static_def)
  ultimately show ?thesis
    using ok st fl inj b new unfolding reinit_ok_def Let_def
    by (auto simp: reinit_entry_def Let_def e used_def pfns_below_Suc i_def [symmetric] same_static_def)
qed

lemma reinit_fold:
  assumes g: "geometry s" and ok: "reinit_ok s s 0" and k: "k \<le> unat (NumberOfPfnEntries s)"
  shows "reinit_ok s (fold (reinit_entry (PfnEntries s)) (pfns_below k) s) k"
  using k
proof (induction k)
  case (Suc k)
  then show ?case using reinit_step [OF g] by (simp add: pfns_below_Suc)
qed (use ok in \<open>simp add: pfns_below_def\<close>)

lemma reinit_entry_cong:
  "reinit_entry b i (s\<lparr>PfnEntries := b', NumberOfPfnEntries := n', PfnEntriesLock := l\<rparr>) =
   (reinit_entry b i s)\<lparr>PfnEntries := b', NumberOfPfnEntries := n', PfnEntriesLock := l\<rparr>"
  by (simp add: reinit_entry_def Let_def split: prod.splits)

lemma reinit_fold_cong:
  "fold (reinit_entry b) is (s\<lparr>PfnEntries := b', NumberOfPfnEntries := n', PfnEntriesLock := l\<rparr>) =
   (fold (reinit_entry b) is s)\<lparr>PfnEntries := b', NumberOfPfnEntries := n', PfnEntriesLock := l\<rparr>"
  by (induction "is" arbitrary: s) (simp_all add: reinit_entry_cong)

lemma reinit_ok_start:
  assumes "geometry s"
    and "pheap s = InitializeListHead (FreeList s) (InitializeListHead (WorkingsetList s) h)"
  shows "reinit_ok s s 0"
proof -
  have "is_list (InitializeListHead (FreeList s) (InitializeListHead (WorkingsetList s) h)) (WorkingsetList s) []"
    using assms(1) is_list_Init [of "WorkingsetList s" h]
    by (subst is_list_cong [of _ _ _ "InitializeListHead (WorkingsetList s) h"])
      (auto simp: InitializeListHead_def geometry_def)
  then show ?thesis
    using assms(2) by (simp add: reinit_ok_def Let_def same_static_def pfns_below_def is_list_Init)
qed

lemma reinit_ok_pfn_ok:
  assumes g: "geometry s" and ok: "reinit_ok s t (unat (NumberOfPfnEntries s))"
  shows "pfn_ok t (filter (\<lambda>i. \<not> Flags s (pfn_entry s i) \<noteq> 0) (pfns_below (unat (NumberOfPfnEntries s))))
    (filter (\<lambda>i. Flags s (pfn_entry s i) \<noteq> 0) (pfns_below (unat (NumberOfPfnEntries s))))"
proof -
  let ?l = "pfns_below (unat (NumberOfPfnEntries s))"
  have st: "same_static s t" using ok by (simp add: reinit_ok_def Let_def)
  have d: "distinct ?l" by (rule distinct_pfns_below [of _ "NumberOfPfnEntries s"]) simp
  have "set ?l = {i. i < NumberOfPfnEntries s}"
    by (simp add: pfns_below_def words_below atLeast0LessThan)
  then show ?thesis
    using d g ok unfolding pfn_ok_def reinit_ok_def Let_def
    by (auto simp: same_static_geometry [OF st] same_static_entries [OF st] same_static_entry [OF st])
      (auto simp: same_static_def)
qed

lemma reinit_establishes:
  assumes "geometry (s\<lparr>PfnEntries := base, NumberOfPfnEntries := n\<rparr>)"
  defines "used \<equiv> \<lambda>i. Flags s (base + 32 * i) \<noteq> 0"
    and "t \<equiv> MmReinitPhysAllocator base n s"
  shows "pfn_ok t (filter (\<lambda>i. \<not> used i) (pfns_below (unat n))) (filter used (pfns_below (unat n))) \<and>
    PfnEntriesLock t = 0 \<and> (\<forall>i. i < n \<longrightarrow> Flags t (base + 32 * i) = (if used i then 3 else 0)) \<and>
    NumberOfPfns t (FreeList s) = n \<and> NumberOfPfns t (WorkingsetList s) = 0"
proof -
  define s0 where "s0 = s\<lparr>pheap := InitializeListHead (FreeList s) (InitializeListHead (WorkingsetList s) (pheap s)),
    NumberOfPfns := (NumberOfPfns s)(FreeList s := n, WorkingsetList s := 0)\<rparr>"
  define s1 where "s1 = s0\<lparr>PfnEntries := base, NumberOfPfnEntries := n, PfnEntriesLock := 0\<rparr>"
  have t: "t = fold (reinit_entry base) (pfns_below (unat n)) s1"
    by (simp add: t_def MmReinitPhysAllocator_def Let_def s1_def s0_def pfns_below_def
        KeInitializeSpinLock_def reinit_fold_cong)
  have e: "pfn_entry s1 i = base + 32 * i" for i by (simp add: pfn_entry_def s1_def)
  have g: "geometry s1" using assms(1) by (simp add: geometry_def s1_def s0_def pfn_entry_def)
  have ok: "reinit_ok s1 t (unat n)"
  proof -
    have "reinit_ok s1 s1 0"
      by (rule reinit_ok_start [OF g, of "pheap s"]) (simp add: s1_def s0_def)
    from reinit_fold [OF g this, of "unat n"] show ?thesis by (simp add: t s1_def)
  qed
  have all: "set (pfns_below (unat n)) = {i. i < n}"
    by (simp add: pfns_below_def words_below atLeast0LessThan)
  have lk: "PfnEntriesLock t = 0"
  proof -
    have "PfnEntriesLock (fold (reinit_entry base) is s1) = 0" for "is"
      using reinit_fold_cong [where s = s0 and b = base and b' = base and n' = n and l = 0] by (simp add: s1_def)
    then show ?thesis by (simp add: t)
  qed
  have st: "same_static s1 t" using ok by (simp add: reinit_ok_def Let_def)
  have u: "Flags s1 = Flags s" by (simp add: s1_def s0_def)
  have "pfn_ok t (filter (\<lambda>i. \<not> used i) (pfns_below (unat n))) (filter used (pfns_below (unat n)))"
    using reinit_ok_pfn_ok [OF g, of t] ok unfolding u e used_def by (simp add: s1_def)
  moreover have "\<forall>i. i < n \<longrightarrow> Flags t (base + 32 * i) = (if used i then 3 else 0)"
    using ok all by (auto simp: reinit_ok_def Let_def u used_def e)
  moreover have "NumberOfPfns t (FreeList s) = n \<and> NumberOfPfns t (WorkingsetList s) = 0"
    using ok g by (auto simp: reinit_ok_def Let_def s1_def s0_def geometry_def)
  ultimately show ?thesis using lk by blast
qed

section \<open>Properties\<close>

text \<open>C4: initialisation establishes the invariant. The free list holds, in ascending order,
  the PFNs whose Flags were 0 and the working set list the others, which become permanent and
  not pageable. The counters do not match the lists: the free counter is the number of all
  entries and the working set counter is 0, whatever the number of used entries.\<close>

theorem MmReinitPhysAllocator_establishes:
  assumes "geometry (s\<lparr>PfnEntries := base, NumberOfPfnEntries := n\<rparr>)"
  defines "used \<equiv> \<lambda>i. Flags s (base + 32 * i) \<noteq> 0"
    and "t \<equiv> MmReinitPhysAllocator base n s"
  shows "pfn_ok t (filter (\<lambda>i. \<not> used i) (pfns_below (unat n))) (filter used (pfns_below (unat n))) \<and>
    PfnEntriesLock t = 0 \<and> (\<forall>i. i < n \<longrightarrow> Flags t (base + 32 * i) = (if used i then 3 else 0)) \<and>
    NumberOfPfns t (FreeList s) = n \<and> NumberOfPfns t (WorkingsetList s) = 0"
  unfolding used_def t_def using assms(1) by (rule reinit_establishes)

text \<open>Three entries at 0x1000, the first used: the state the witnesses run on.\<close>

lemma less_3_cases: "(i :: u64) < 3 \<Longrightarrow> i = 0 \<or> i = 1 \<or> i = 2"
proof -
  assume "i < 3"
  then have "unat i < 3" by (simp add: word_less_nat_alt)
  then have "unat i = 0 \<or> unat i = 1 \<or> unat i = 2" by linarith
  then show ?thesis by (simp add: word_unat_eq_iff)
qed

definition blank_db :: pfn_db where
  "blank_db = \<lparr>pheap = \<lparr>flink = (\<lambda>_. 0), blink = (\<lambda>_. 0)\<rparr>, PfnEntries = 0, NumberOfPfnEntries = 0,
      FreeList = 0x10, WorkingsetList = 0x30, NumberOfPfns = (\<lambda>_. 0), InList = (\<lambda>_. 0),
      Flags = (\<lambda>_. 0)(0x1000 := 1), PfnEntriesLock = 0\<rparr>"

lemma blank_geometry: "geometry (blank_db\<lparr>PfnEntries := 0x1000, NumberOfPfnEntries := 3\<rparr>)"
  by (auto simp: geometry_def pfn_entry_def blank_db_def dest!: less_3_cases)

lemma pfns_below_3: "pfns_below (unat (3 :: u64)) = [0, 1, 2]"
  by (simp add: pfns_below_def upt_rec)

lemma blank_flags: "Flags blank_db (0x1000 + 32 * i) \<noteq> 0 \<longleftrightarrow> 32 * i = 0"
  by (simp add: blank_db_def)

theorem MmReinitPhysAllocator_establishes_witness:
  "pfn_ok (MmReinitPhysAllocator 0x1000 3 blank_db) [1, 2] [0] \<and>
   Flags (MmReinitPhysAllocator 0x1000 3 blank_db) (0x1000 + 32 * 0) = 3 \<and>
   NumberOfPfns (MmReinitPhysAllocator 0x1000 3 blank_db) (FreeList blank_db) = 3"
  using MmReinitPhysAllocator_establishes [OF blank_geometry] unfolding pfns_below_3 blank_flags
  by (auto dest: spec [of _ 0])

definition sample_db :: pfn_db where
  "sample_db = MmReinitPhysAllocator 0x1000 3 blank_db"

lemma sample_db_ok:
  "pfn_ok sample_db [1, 2] [0]" "PfnEntriesLock sample_db = 0"
  using reinit_establishes [OF blank_geometry] unfolding pfns_below_3 blank_flags sample_db_def
  by auto

text \<open>C2: allocation and release refine the two PFN sequences. MmAllocatePfn fails with
  STATUS_NO_MEMORY and changes nothing when the free sequence is empty, and otherwise hands out
  its head and appends it to the working set. MmFreePfn appends a working set page that is not
  permanent to the free sequence. The counters follow, the lock is released.\<close>

theorem pfn_alloc_free_refinement:
  assumes ok: "pfn_ok s F W" and lk: "PfnEntriesLock s = 0" and c: "DISPATCH_LEVEL \<le> irql c"
  shows "(case F of
      [] \<Rightarrow> MmAllocatePfn c s = Done ((STATUS_NO_MEMORY, None), s)
    | i # F' \<Rightarrow> (\<exists>s'. MmAllocatePfn c s = Done ((STATUS_SUCCESS, Some i), s') \<and> pfn_ok s' F' (W @ [i]) \<and>
        PfnEntriesLock s' = 0 \<and>
        NumberOfPfns s' (FreeList s) = NumberOfPfns s (FreeList s) - 1 \<and>
        NumberOfPfns s' (WorkingsetList s) = NumberOfPfns s (WorkingsetList s) + 1)) \<and>
    (\<forall>us i vs. W = us @ i # vs \<longrightarrow> and (Flags s (pfn_entry s i)) MMPFN_FLAG_PERMAMENT = 0 \<longrightarrow>
      (\<exists>s'. MmFreePfn i c s = Done (STATUS_SUCCESS, s') \<and> pfn_ok s' (F @ [i]) (us @ vs) \<and>
        PfnEntriesLock s' = 0 \<and>
        NumberOfPfns s' (FreeList s) = NumberOfPfns s (FreeList s) + 1 \<and>
        NumberOfPfns s' (WorkingsetList s) = NumberOfPfns s (WorkingsetList s) - 1))"
proof -
  have fw: "FreeList s \<noteq> WorkingsetList s" using ok by (simp add: pfn_ok_def geometry_def)
  show ?thesis
  proof (intro conjI allI impI)
    show "case F of [] \<Rightarrow> MmAllocatePfn c s = Done ((STATUS_NO_MEMORY, None), s)
      | i # F' \<Rightarrow> (\<exists>s'. MmAllocatePfn c s = Done ((STATUS_SUCCESS, Some i), s') \<and> pfn_ok s' F' (W @ [i]) \<and>
        PfnEntriesLock s' = 0 \<and>
        NumberOfPfns s' (FreeList s) = NumberOfPfns s (FreeList s) - 1 \<and>
        NumberOfPfns s' (WorkingsetList s) = NumberOfPfns s (WorkingsetList s) + 1)"
      using MmAllocatePfn_empty [OF _ lk c] MmAllocatePfn_refines [OF _ lk c] ok fw
      by (cases F) fastforce+
  qed (use MmFreePfn_refines [OF _ lk c] ok fw in fastforce)
qed

text \<open>Freeing what is not allocated is refused: a page on the free list, and a page marked
  permanent, give STATUS_INVALID_PARAMETER and the state is unchanged.\<close>

lemma MmFreePfn_refused:
  assumes ok: "pfn_ok s F W" and lk: "PfnEntriesLock s = 0" and c: "DISPATCH_LEVEL \<le> irql c"
    and "i \<in> set F \<or> and (Flags s (pfn_entry s i)) MMPFN_FLAG_PERMAMENT \<noteq> 0"
  shows "MmFreePfn i c s = Done (STATUS_INVALID_PARAMETER, s)"
proof -
  have "InList s (pfn_entry s i) = FreeList s \<or> and (Flags s (pfn_entry s i)) MMPFN_FLAG_PERMAMENT \<noteq> 0"
    using assms(1,4) by (auto simp: pfn_ok_def)
  then have "MmFreePfn i c s = Done (STATUS_INVALID_PARAMETER, s\<lparr>PfnEntriesLock := 1\<rparr>\<lparr>PfnEntriesLock := 0\<rparr>)"
    unfolding MmFreePfn_def by (intro pfn_locked_Done [OF c lk]) (simp_all add: Let_def)
  then show ?thesis using lk by simp
qed

text \<open>C3: a region. When MmAllocatePfnRegion succeeds, the pages it hands out are
  nRegionPages (one, when 0 is asked for) consecutive PFNs that stood next to each other in the
  free sequence, and they move to the working set in order; when it fails nothing changes. It
  always returns, and without the 4 GB flag it fails only when the free sequence has no such
  run.\<close>

theorem MmAllocatePfnRegion_spec:
  assumes ok: "pfn_ok s F W" and lk: "PfnEntriesLock s = 0" and c: "DISPATCH_LEVEL \<le> irql c"
  shows "(\<exists>us run rest s'. MmAllocatePfnRegion n fl c s = Done ((STATUS_SUCCESS, Some (hd run)), s') \<and>
      F = us @ run @ rest \<and> length run = max 1 (unat n) \<and>
      (\<forall>k < length run. run ! k = hd run + word_of_nat k) \<and>
      pfn_ok s' (us @ rest) (W @ run) \<and> PfnEntriesLock s' = 0) \<or>
    MmAllocatePfnRegion n fl c s = Done ((STATUS_NO_MEMORY, None), s) \<and>
      (fl = 0 \<longrightarrow> (\<nexists>us run rest. F = us @ run @ rest \<and> consecutive run \<and> length run = max 1 (unat n)))"
proof -
  let ?s = "s\<lparr>PfnEntriesLock := 1\<rparr>"
  have oks: "pfn_ok ?s ([] @ [] @ F) W" using ok by simp
  have em: "IsListEmpty (FreeList s) (pheap s) \<longleftrightarrow> F = []"
    using nl.is_empty [OF pfn_ok_listsD(1) [OF ok]] by (simp add: entries_def)
  have fst: "flink (pheap s) (FreeList s) = hd (entries s F @ [FreeList s])"
    using is_list_first [OF pfn_ok_listsD(1) [OF ok]] by (cases F) auto
  have restore: "s\<lparr>PfnEntriesLock := 1\<rparr>\<lparr>PfnEntriesLock := 0\<rparr> = s" using lk by simp
  have loop: "region_loop n fl (hd (entries s F @ [FreeList s])) 0 0 NULL ?s =
    (case find_run (unat n) fl [] [] F of None \<Rightarrow> Some ((STATUS_NO_MEMORY, None), ?s)
     | Some (us', run', rest') \<Rightarrow> map_option (\<lambda>s'. ((STATUS_SUCCESS, Some (hd run')), s'))
         (MiLockedAllocRange (pfn_entry s (hd run')) (hd (entries s rest' @ [FreeList s])) ?s))"
    using region_loop_refines [OF oks, of NULL 0 0 n fl] by (simp split: option.splits)
  show ?thesis
  proof (cases "find_run (unat n) fl [] [] F")
    case None
    have "MmAllocatePfnRegion n fl c s = Done ((STATUS_NO_MEMORY, None), ?s\<lparr>PfnEntriesLock := 0\<rparr>)"
      unfolding MmAllocatePfnRegion_def
      by (rule pfn_locked_Done [OF c lk]) (use None loop em fst in simp_all)
    moreover have "\<nexists>us run rest. F = us @ run @ rest \<and> consecutive run \<and> length run = max 1 (unat n)"
      if "fl = 0"
      using find_run_complete [of "unat n" "[]" "[]"] None that by fastforce
    ultimately show ?thesis using restore by auto
  next
    case (Some r)
    then obtain us run rest where r: "r = (us, run, rest)" by (cases r)
    have f: "us @ run @ rest = F" "consecutive run" "length run = max 1 (unat n)"
      using find_run_Some [OF Some [unfolded r]] by auto
    have ne: "run \<noteq> []" "F \<noteq> []" using f by auto
    obtain s' where s': "MiLockedAllocRange (hd (entries s (run @ rest) @ [FreeList s]))
        (hd (entries s rest @ [FreeList s])) ?s = Some s'" "pfn_ok s' (us @ rest) (W @ run)"
      "PfnEntriesLock s' = 1"
      using MiLockedAllocRange_refines [of ?s us run rest W] ok f(1) by auto
    have h: "hd (entries s (run @ rest) @ [FreeList s]) = pfn_entry s (hd run)"
      using ne by (cases run) auto
    have "MmAllocatePfnRegion n fl c s = Done ((STATUS_SUCCESS, Some (hd run)), s'\<lparr>PfnEntriesLock := 0\<rparr>)"
      unfolding MmAllocatePfnRegion_def
      by (rule pfn_locked_Done [OF c lk])
        (use Some r loop em fst ne s'(1,3) in \<open>simp_all add: h [symmetric]\<close>)
    then show ?thesis
      by (intro disjI1 exI [of _ us] exI [of _ run] exI [of _ rest] exI [of _ "s'\<lparr>PfnEntriesLock := 0\<rparr>"])
        (simp add: f(1) [symmetric] f(3) consecutive_nth [OF f(2)] s'(2) del: f(1))
  qed
qed

text \<open>MmMarkPfnAsUsed on a free page reports success and destroys the free list: it appends
  the entry to the working set without taking it off the free list first, and afterwards the
  links from the free list head are those of no list at all.\<close>

lemma MmMarkPfnAsUsed_breaks_free_list:
  assumes ok: "pfn_ok s F W" and lk: "PfnEntriesLock s = 0" and c: "DISPATCH_LEVEL \<le> irql c"
    and "i \<in> set F"
  shows "\<exists>s'. MmMarkPfnAsUsed i c s = Done (STATUS_SUCCESS, s') \<and>
    (\<forall>xs. \<not> is_list (pheap s') (FreeList s') xs)"
proof -
  obtain us vs where F: "F = us @ i # vs" using split_list [OF assms(4)] by blast
  obtain s' where s': "MmMarkPfnAsUsed i c s = Done (STATUS_SUCCESS, s')" "FreeList s' = FreeList s"
    "pheap s' = InsertTailList (WorkingsetList s) (pfn_entry s i) (pheap s)"
    using MmMarkPfnAsUsed_effect [OF ok [unfolded F] lk c] by blast
  have "\<not> is_list (InsertTailList (WorkingsetList s) (pfn_entry s i) (pheap s)) (FreeList s) xs" for xs
  proof (rule InsertTail_linked_breaks)
    show "is_list (pheap s) (FreeList s) (entries s us @ pfn_entry s i # entries s vs)"
      using pfn_ok_listsD(1) [OF ok] F by simp
    show "is_list (pheap s) (WorkingsetList s) (entries s W)" by (rule pfn_ok_listsD(2) [OF ok])
    show "apart (FreeList s) (entries s us @ pfn_entry s i # entries s vs) (WorkingsetList s) (entries s W)"
      using pfn_ok_apart [OF ok] F by simp
  qed
  then have "\<forall>xs. \<not> is_list (pheap s') (FreeList s') xs" by (simp add: s'(2,3))
  then show ?thesis using s'(1) by blast
qed

theorem pfn_alloc_free_refinement_witness:
  "\<exists>s'. MmAllocatePfn \<lparr>irql = 2, tpr = 2\<rparr> sample_db = Done ((STATUS_SUCCESS, Some 1), s') \<and>
     pfn_ok s' [2] [0, 1]"
  using pfn_alloc_free_refinement [OF sample_db_ok, of "\<lparr>irql = 2, tpr = 2\<rparr>"] by fastforce

lemma MmFreePfn_refused_example:
  "MmFreePfn 2 \<lparr>irql = 2, tpr = 2\<rparr> sample_db = Done (STATUS_INVALID_PARAMETER, sample_db)"
  by (rule MmFreePfn_refused [OF sample_db_ok]) simp_all

theorem MmAllocatePfnRegion_spec_witness:
  "\<exists>s'. MmAllocatePfnRegion 2 0 \<lparr>irql = 2, tpr = 2\<rparr> sample_db = Done ((STATUS_SUCCESS, Some 1), s') \<and>
     pfn_ok s' [] [0, 1, 2]"
proof -
  have c: "[1, 2] = [] @ [1, 2] @ [] \<and> consecutive [1, 2] \<and> length [1 :: u64, 2] = max 1 (unat (2 :: u64))"
    by (simp add: consecutive_def)
  have u: "us = [] \<and> run = [1, 2] \<and> rest = []"
    if "[1, 2] = us @ run @ rest" "length run = max 1 (unat (2 :: u64))" for us run rest :: "PFN_NUMBER list"
  proof -
    have "length run = Suc (Suc 0)" using that(2) by simp
    then obtain i j where r: "run = [i, j]" by (auto simp: length_Suc_conv)
    have "length ([1, 2] :: u64 list) = length (us @ run @ rest)" using that(1) by metis
    then have "us = [] \<and> rest = []" using r by simp
    then show ?thesis using that(1) by simp
  qed
  have d: "DISPATCH_LEVEL \<le> irql \<lparr>irql = 2, tpr = 2\<rparr>" by simp
  from MmAllocatePfnRegion_spec [OF sample_db_ok d, of 2 0] show ?thesis
  proof (elim disjE exE conjE)
    fix us run rest s'
    assume m: "MmAllocatePfnRegion 2 0 \<lparr>irql = 2, tpr = 2\<rparr> sample_db = Done ((STATUS_SUCCESS, Some (hd run)), s')"
      and r: "[1, 2] = us @ run @ rest" "length run = max 1 (unat (2 :: u64))"
      and ok: "pfn_ok s' (us @ rest) ([0] @ run)"
    show ?thesis using m ok u [OF r] by auto
  next
    assume "0 = (0 :: u32) \<longrightarrow> (\<nexists>us run rest. [1, 2] = us @ run @ rest \<and> consecutive run \<and>
      length run = max 1 (unat (2 :: u64)))"
    then show ?thesis using c by blast
  qed
qed

lemma MmMarkPfnAsUsed_breaks_free_list_example:
  "\<exists>s'. MmMarkPfnAsUsed 1 \<lparr>irql = 2, tpr = 2\<rparr> sample_db = Done (STATUS_SUCCESS, s') \<and>
     (\<forall>xs. \<not> is_list (pheap s') (FreeList s') xs)"
  using MmMarkPfnAsUsed_breaks_free_list [OF sample_db_ok, of "\<lparr>irql = 2, tpr = 2\<rparr>" 1] by simp

end
