(* ===== verification/Scheduler.thy ===== *)
theory Scheduler
  imports Irql
begin

text \<open>
  The ready queues of the thread scheduler, NNXOSKRN/scheduler.c: 32 circular lists and a
  summary word for each processor, and one such set shared by all of them. The entries are the
  ReadyQueueEntry fields of the threads. The abstract state gives, for each queue set and
  priority, the sequence of threads; sched_ok relates it to the heap and the summary words.
\<close>

section \<open>State\<close>

text \<open>FIELD_OFFSET(KTHREAD, ReadyQueueEntry) on x64; a LIST_ENTRY is 16 bytes.\<close>

definition ReadyQueueEntry :: "ptr \<Rightarrow> ptr" where "ReadyQueueEntry t = t + 256"

definition thread_of_entry :: "ptr \<Rightarrow> ptr" where "thread_of_entry e = e - 256"

lemma ReadyQueueEntry_inverse [simp]:
  "thread_of_entry (ReadyQueueEntry t) = t" "ReadyQueueEntry (thread_of_entry e) = e"
  by (simp_all add: ReadyQueueEntry_def thread_of_entry_def)

lemma inj_ReadyQueueEntry [simp]: "ReadyQueueEntry t = ReadyQueueEntry u \<longleftrightarrow> t = u"
  by (simp add: ReadyQueueEntry_def)

record sched =
  sheap :: list_heap
  SharedQueues :: ptr
  SharedSummary :: u32
  CoreQueues :: "u8 \<Rightarrow> ptr"
  CoreSummary :: "u8 \<Rightarrow> u32"
  IdleThread :: "u8 \<Rightarrow> ptr"
  ThreadPriority :: "ptr \<Rightarrow> u8"
  ThreadProcess :: "ptr \<Rightarrow> ptr"
  BasePriority :: "ptr \<Rightarrow> u8"
  Affinity :: "ptr \<Rightarrow> u64"

text \<open>\<open>&ThreadReadyQueues[priority]\<close>\<close>

definition queue_head :: "ptr \<Rightarrow> nat \<Rightarrow> ptr" where
  "queue_head queues p = queues + 16 * word_of_nat p"

section \<open>Operations\<close>

definition ClearSummaryBitIfNeccessary :: "list_heap \<Rightarrow> ptr \<Rightarrow> nat \<Rightarrow> u32 \<Rightarrow> u32" where
  "ClearSummaryBitIfNeccessary h queues p Summary =
     (if IsListEmpty (queue_head queues p) h then unset_bit p Summary else Summary)"

definition SetSummaryBitIfNeccessary :: "list_heap \<Rightarrow> ptr \<Rightarrow> nat \<Rightarrow> u32 \<Rightarrow> u32" where
  "SetSummaryBitIfNeccessary h queues p Summary =
     (if \<not> IsListEmpty (queue_head queues p) h then set_bit p Summary else Summary)"

text \<open>The sum of the two priorities is cut to a UCHAR; a value of 32 and more indexes past the
  array of queues.\<close>

definition thread_priority :: "'a sched_scheme \<Rightarrow> ptr \<Rightarrow> u8" where
  "thread_priority s Thread = ThreadPriority s Thread + BasePriority s (ThreadProcess s Thread)"

definition PspInsertIntoSharedQueue :: "ptr \<Rightarrow> 'a sched_scheme \<Rightarrow> 'a sched_scheme outcome" where
  "PspInsertIntoSharedQueue Thread s =
     (let p = unat (thread_priority s Thread) in
      if p \<ge> 32 then Fault
      else Done (s\<lparr>sheap := InsertTailList (queue_head (SharedQueues s) p) (ReadyQueueEntry Thread) (sheap s),
                   SharedSummary := set_bit p (SharedSummary s)\<rparr>))"

text \<open>The inner loop of PspManageSharedReadyQueue: the first entry whose thread may run on the
  processor, if there is one.\<close>

partial_function (option) find_runnable ::
  "list_heap \<Rightarrow> (ptr \<Rightarrow> u64) \<Rightarrow> u8 \<Rightarrow> ptr \<Rightarrow> ptr \<Rightarrow> ptr option option" where
  "find_runnable h aff CoreNumber q current =
     (if current = q then Some None
      else if bit (aff (thread_of_entry current)) (unat CoreNumber) then Some (Some current)
      else find_runnable h aff CoreNumber q (flink h current))"

text \<open>The outer loop, over the priorities still to be checked.\<close>

fun manage_loop :: "u8 \<Rightarrow> nat list \<Rightarrow> 'a sched_scheme \<Rightarrow> (bool \<times> 'a sched_scheme) outcome" where
  "manage_loop c [] s = Done (False, s)"
| "manage_loop c (p # ps) s =
     (if \<not> bit (SharedSummary s) p then manage_loop c ps s
      else (let q = queue_head (SharedQueues s) p in
        case find_runnable (sheap s) (Affinity s) c q (flink (sheap s) q) of
          None \<Rightarrow> Hang
        | Some None \<Rightarrow> manage_loop c ps s
        | Some (Some current) \<Rightarrow>
            let h = RemoveEntry current (sheap s);
                h = InsertTailList (queue_head (CoreQueues s c) p) current h
            in Done (True, s\<lparr>sheap := h,
                 CoreSummary := (CoreSummary s)(c := SetSummaryBitIfNeccessary h (CoreQueues s c) p (CoreSummary s c)),
                 SharedSummary := ClearSummaryBitIfNeccessary h (SharedQueues s) p (SharedSummary s)\<rparr>)))"

definition priorities :: "nat list" where
  "priorities = rev [0..<32]"

definition PspManageSharedReadyQueue :: "u8 \<Rightarrow> 'a sched_scheme \<Rightarrow> (bool \<times> 'a sched_scheme) outcome" where
  "PspManageSharedReadyQueue CoreNumber s =
     (if SharedSummary s = 0 then Done (False, s)
      else if CoreSummary s CoreNumber > xor (SharedSummary s) (CoreSummary s CoreNumber)
      then Done (False, s)
      else manage_loop CoreNumber priorities s)"

fun select_loop :: "u8 \<Rightarrow> nat list \<Rightarrow> 'a sched_scheme \<Rightarrow> ptr \<times> 'a sched_scheme" where
  "select_loop c [] s = (IdleThread s c, s)"
| "select_loop c (p # ps) s =
     (if bit (CoreSummary s c) p
      then (let (e, h) = RemoveHeadList (queue_head (CoreQueues s c) p) (sheap s)
            in (thread_of_entry e,
                s\<lparr>sheap := h, CoreSummary := (CoreSummary s)(c :=
                    ClearSummaryBitIfNeccessary h (CoreQueues s c) p (CoreSummary s c))\<rparr>))
      else select_loop c ps s)"

definition PspSelectNextReadyThread :: "u8 \<Rightarrow> 'a sched_scheme \<Rightarrow> (ptr \<times> 'a sched_scheme) outcome" where
  "PspSelectNextReadyThread CoreNumber s =
     obind (PspManageSharedReadyQueue CoreNumber s) (\<lambda>(_, s). Done (select_loop CoreNumber priorities s))"

section \<open>The abstract state\<close>

text \<open>None is the shared queue set, Some c the one of processor c.\<close>

type_synonym rq = "u8 option \<times> nat"

fun rq_head :: "'a sched_scheme \<Rightarrow> rq \<Rightarrow> ptr" where
  "rq_head s (None, p) = queue_head (SharedQueues s) p"
| "rq_head s (Some c, p) = queue_head (CoreQueues s c) p"

fun rq_summary :: "'a sched_scheme \<Rightarrow> u8 option \<Rightarrow> u32" where
  "rq_summary s None = SharedSummary s"
| "rq_summary s (Some c) = CoreSummary s c"

definition rqs :: "rq set" where "rqs = UNIV \<times> {..<32}"

definition rq_entries :: "(rq \<Rightarrow> ptr list) \<Rightarrow> rq \<Rightarrow> ptr list" where
  "rq_entries R k = map ReadyQueueEntry (R k)"

definition sched_ok :: "'a sched_scheme \<Rightarrow> (rq \<Rightarrow> ptr list) \<Rightarrow> bool" where
  "sched_ok s R = (family is_list (sheap s) rqs (rq_head s) (rq_entries R) \<and>
     (\<forall>w. \<forall>p<32. bit (rq_summary s w) p \<longleftrightarrow> R (w, p) \<noteq> []))"

lemma in_rqs [simp]: "(w, p) \<in> rqs \<longleftrightarrow> p < 32"
  by (simp add: rqs_def)

lemma rq_entries_upd [simp]: "rq_entries (R(k := xs)) = (rq_entries R)(k := map ReadyQueueEntry xs)"
  by (auto simp: rq_entries_def)

lemma sched_ok_list:
  "sched_ok s R \<Longrightarrow> p < 32 \<Longrightarrow> is_list (sheap s) (rq_head s (w, p)) (map ReadyQueueEntry (R (w, p)))"
  using familyD [of is_list "sheap s" rqs "rq_head s" "rq_entries R" "(w, p)"]
  by (simp add: sched_ok_def rq_entries_def)

lemma sched_ok_family: "sched_ok s R \<Longrightarrow> family is_list (sheap s) rqs (rq_head s) (rq_entries R)"
  by (simp add: sched_ok_def)

lemma sched_ok_bit: "sched_ok s R \<Longrightarrow> p < 32 \<Longrightarrow> bit (rq_summary s w) p \<longleftrightarrow> R (w, p) \<noteq> []"
  by (simp add: sched_ok_def)

lemma sched_ok_empty: "sched_ok s R \<Longrightarrow> p < 32 \<Longrightarrow> IsListEmpty (rq_head s (w, p)) (sheap s) \<longleftrightarrow> R (w, p) = []"
  using nl.is_empty [OF sched_ok_list [of s R p w]] by simp

lemma sched_ok_once:
  assumes "sched_ok s R" "p < 32" "p' < 32" "t \<in> set (R (w, p))" "t \<in> set (R (w', p'))"
  shows "w = w' \<and> p = p'"
  using nl.family_unique_place [of "sheap s" rqs "rq_head s" "rq_entries R" "(w, p)" "(w', p')"
      "ReadyQueueEntry t"] assms
  by (auto simp: sched_ok_def rq_entries_def)

lemma sched_ok_distinct: "sched_ok s R \<Longrightarrow> p < 32 \<Longrightarrow> distinct (R (w, p))"
  using nl.repr_distinct [OF sched_ok_list [of s R p w]] by (auto simp: distinct_map)

section \<open>Inserting\<close>

definition same_queues :: "'a sched_scheme \<Rightarrow> 'a sched_scheme \<Rightarrow> bool" where
  "same_queues s s' = (rq_head s' = rq_head s \<and> IdleThread s' = IdleThread s \<and>
     ThreadPriority s' = ThreadPriority s \<and> ThreadProcess s' = ThreadProcess s \<and>
     BasePriority s' = BasePriority s \<and> Affinity s' = Affinity s)"

text \<open>The entry of t is on no queue.\<close>

definition unqueued :: "'a sched_scheme \<Rightarrow> (rq \<Rightarrow> ptr list) \<Rightarrow> ptr \<Rightarrow> bool" where
  "unqueued s R t = (\<forall>k\<in>rqs. t \<notin> set (R k) \<and> ReadyQueueEntry t \<noteq> rq_head s k)"

lemma rq_head_cong:
  "SharedQueues s' = SharedQueues s \<Longrightarrow> CoreQueues s' = CoreQueues s \<Longrightarrow> rq_head s' = rq_head s"
proof (rule ext)
  fix k :: rq
  assume "SharedQueues s' = SharedQueues s" "CoreQueues s' = CoreQueues s"
  then show "rq_head s' k = rq_head s k" by (cases "(s, k)" rule: rq_head.cases) auto
qed

lemma PspInsertIntoSharedQueue_refines:
  assumes ok: "sched_ok s R" and un: "unqueued s R t" and p: "unat (thread_priority s t) < 32"
  defines "p \<equiv> unat (thread_priority s t)"
  shows "\<exists>s'. PspInsertIntoSharedQueue t s = Done s' \<and> sched_ok s' (R((None, p) := R (None, p) @ [t])) \<and>
    same_queues s s'"
proof -
  let ?R = "R((None, p) := R (None, p) @ [t])"
  define s' where "s' = s\<lparr>sheap := InsertTailList (queue_head (SharedQueues s) p) (ReadyQueueEntry t) (sheap s),
                   SharedSummary := set_bit p (SharedSummary s)\<rparr>"
  have hd: "rq_head s' = rq_head s" by (rule rq_head_cong) (simp_all add: s'_def)
  have pb: "p < 32" using p by (simp add: p_def)
  have "family is_list (InsertTailList (rq_head s (None, p)) (ReadyQueueEntry t) (sheap s)) rqs (rq_head s)
      ((rq_entries R)((None, p) := rq_entries R (None, p) @ [ReadyQueueEntry t]))"
    by (rule nl.family_ins_tail [OF sched_ok_family [OF ok]])
      (use un pb in \<open>auto simp: unqueued_def rq_entries_def\<close>)
  then have "family is_list (sheap s') rqs (rq_head s') (rq_entries ?R)"
    unfolding hd by (simp add: s'_def rq_entries_def)
  moreover have "bit (rq_summary s' w) q \<longleftrightarrow> ?R (w, q) \<noteq> []" if "q < 32" for w q
    using sched_ok_bit [OF ok that, of w] that
    by (cases w) (auto simp: s'_def bit_set_bit_iff)
  ultimately have "sched_ok s' ?R" by (simp add: sched_ok_def)
  moreover have "PspInsertIntoSharedQueue t s = Done s'"
    using pb by (simp add: PspInsertIntoSharedQueue_def s'_def p_def Let_def)
  moreover have "same_queues s s'" unfolding same_queues_def hd by (simp add: s'_def)
  ultimately show ?thesis by blast
qed

section \<open>Taking from the shared queues\<close>

definition can_run :: "'a sched_scheme \<Rightarrow> u8 \<Rightarrow> ptr \<Rightarrow> bool" where
  "can_run s c t = bit (Affinity s t) (unat c)"

lemma find_runnable_links:
  "links h a xs q \<Longrightarrow> q \<notin> set xs \<Longrightarrow>
   find_runnable h aff c q (flink h a) = Some (List.find (\<lambda>e. bit (aff (thread_of_entry e)) (unat c)) xs)"
proof (induction xs arbitrary: a)
  case Nil
  then show ?case by (subst find_runnable.simps) simp
next
  case (Cons x xs)
  then show ?case by (subst find_runnable.simps) auto
qed

lemma find_runnable_spec:
  assumes "is_list h q xs"
  shows "find_runnable h aff c q (flink h q) = Some (List.find (\<lambda>e. bit (aff (thread_of_entry e)) (unat c)) xs)"
  using assms find_runnable_links [of h q xs q aff c] by (simp add: is_list_def)

lemma find_map_thread:
  "List.find (\<lambda>e. bit (aff (thread_of_entry e)) n) (map ReadyQueueEntry ts) =
   map_option ReadyQueueEntry (List.find (\<lambda>t. bit (aff t) n) ts)"
  by (induction ts) auto

text \<open>t, the first thread of its priority that may run on c, of the highest priority of ps that
  has one, went from the shared queues to those of c.\<close>

definition taken ::
  "u8 \<Rightarrow> nat list \<Rightarrow> 'a sched_scheme \<Rightarrow> (rq \<Rightarrow> ptr list) \<Rightarrow> nat \<Rightarrow> ptr list \<Rightarrow> ptr \<Rightarrow> ptr list \<Rightarrow> 'a sched_scheme \<Rightarrow> bool"
where
  "taken c ps s R p us t vs s' = (p \<in> set ps \<and> R (None, p) = us @ t # vs \<and> can_run s c t \<and>
     (\<forall>u\<in>set us. \<not> can_run s c u) \<and>
     (\<forall>q\<in>set ps. p < q \<longrightarrow> (\<forall>u\<in>set (R (None, q)). \<not> can_run s c u)) \<and>
     manage_loop c ps s = Done (True, s') \<and> same_queues s s' \<and>
     sched_ok s' (R((None, p) := us @ vs, (Some c, p) := R (Some c, p) @ [t])))"

definition none_taken :: "u8 \<Rightarrow> nat list \<Rightarrow> 'a sched_scheme \<Rightarrow> (rq \<Rightarrow> ptr list) \<Rightarrow> bool" where
  "none_taken c ps s R = (manage_loop c ps s = Done (False, s) \<and>
     (\<forall>p\<in>set ps. \<forall>t\<in>set (R (None, p)). \<not> can_run s c t))"

lemma manage_loop_refines:
  assumes ok: "sched_ok s R" and ps: "set ps \<subseteq> {..<32}" "sorted_wrt (>) ps"
  shows "none_taken c ps s R \<or> (\<exists>p us t vs s'. taken c ps s R p us t vs s')"
  using ps
proof (induction ps)
  case (Cons p ps)
  have pb: "p < 32" using Cons.prems by simp
  have IH: "none_taken c ps s R \<or> (\<exists>p us t vs s'. taken c ps s R p us t vs s')"
    using Cons.IH Cons.prems by simp
  have fr: "find_runnable (sheap s) (Affinity s) c (queue_head (SharedQueues s) p)
      (flink (sheap s) (queue_head (SharedQueues s) p)) =
    Some (map_option ReadyQueueEntry (List.find (can_run s c) (R (None, p))))"
    using find_runnable_spec [OF sched_ok_list [OF ok pb, of None], of "Affinity s" c]
    by (simp add: find_map_thread can_run_def [abs_def])
  show ?case
  proof (cases "List.find (can_run s c) (R (None, p))")
    case None
    have no: "\<forall>t\<in>set (R (None, p)). \<not> can_run s c t" using None by (auto simp: find_None_iff)
    have "manage_loop c (p # ps) s = manage_loop c ps s"
      using fr None by (simp add: Let_def)
    with no have "none_taken c ps s R \<Longrightarrow> none_taken c (p # ps) s R"
      "taken c ps s R q us t vs s' \<Longrightarrow> taken c (p # ps) s R q us t vs s'" for q us t vs s'
      by (simp_all add: taken_def none_taken_def)
    with IH show ?thesis by blast
  next
    case (Some t)
    then obtain us vs where t: "R (None, p) = us @ t # vs" "can_run s c t" "\<forall>u\<in>set us. \<not> can_run s c u"
      using find_Some_split [OF Some] by auto
    have bt: "bit (SharedSummary s) p" using sched_ok_bit [OF ok pb, of None] t(1) by simp
    let ?R = "R((None, p) := us @ vs, (Some c, p) := R (Some c, p) @ [t])"
    let ?h = "InsertTailList (queue_head (CoreQueues s c) p) (ReadyQueueEntry t) (RemoveEntry (ReadyQueueEntry t) (sheap s))"
    define s' where "s' = s\<lparr>sheap := ?h,
                 CoreSummary := (CoreSummary s)(c := SetSummaryBitIfNeccessary ?h (CoreQueues s c) p (CoreSummary s c)),
                 SharedSummary := ClearSummaryBitIfNeccessary ?h (SharedQueues s) p (SharedSummary s)\<rparr>"
    have run: "manage_loop c (p # ps) s = Done (True, s')"
      using bt fr Some by (simp add: s'_def Let_def)
    have hd: "rq_head s' = rq_head s" by (rule rq_head_cong) (simp_all add: s'_def)
    have sq: "same_queues s s'" unfolding same_queues_def hd by (simp add: s'_def)
    have f: "family is_list (sheap s') rqs (rq_head s') (rq_entries ?R)"
    proof -
      have "family is_list (InsertTailList (rq_head s (Some c, p)) (ReadyQueueEntry t)
          (RemoveEntry (ReadyQueueEntry t) (sheap s))) rqs (rq_head s)
         ((rq_entries R)((None, p) := map ReadyQueueEntry us @ map ReadyQueueEntry vs,
            (Some c, p) := rq_entries R (Some c, p) @ [ReadyQueueEntry t]))"
        by (rule nl.family_move [OF sched_ok_family [OF ok]])
          (use pb t(1) in \<open>auto simp: rq_entries_def\<close>)
      then show ?thesis unfolding hd by (simp add: s'_def rq_entries_def)
    qed
    have em: "IsListEmpty (rq_head s (w, p)) (sheap s') \<longleftrightarrow> ?R (w, p) = []" for w
      using nl.is_empty [OF familyD [OF f], of "(w, p)"] pb unfolding hd by (simp add: rq_entries_def)
    have "bit (rq_summary s' w) q \<longleftrightarrow> ?R (w, q) \<noteq> []" if "q < 32" for w q
      using sched_ok_bit [OF ok that, of w] that em [of None] em [of "Some c"] t(1)
      by (cases w)
        (auto simp: s'_def bit_set_bit_iff bit_unset_bit_iff SetSummaryBitIfNeccessary_def
          ClearSummaryBitIfNeccessary_def)
    then have "sched_ok s' ?R" using f by (simp add: sched_ok_def)
    moreover have "\<forall>q\<in>set (p # ps). p < q \<longrightarrow> (\<forall>u\<in>set (R (None, q)). \<not> can_run s c u)"
      using Cons.prems(2) by auto
    ultimately have "taken c (p # ps) s R p us t vs s'" using t run sq by (simp add: taken_def)
    then show ?thesis by blast
  qed
qed (simp add: none_taken_def)

section \<open>Selecting\<close>

definition selected ::
  "u8 \<Rightarrow> nat list \<Rightarrow> 'a sched_scheme \<Rightarrow> (rq \<Rightarrow> ptr list) \<Rightarrow> nat \<Rightarrow> ptr \<Rightarrow> ptr list \<Rightarrow> 'a sched_scheme \<Rightarrow> bool"
where
  "selected c ps s R p t ts s' = (p \<in> set ps \<and> R (Some c, p) = t # ts \<and>
     (\<forall>q\<in>set ps. p < q \<longrightarrow> R (Some c, q) = []) \<and>
     select_loop c ps s = (t, s') \<and> same_queues s s' \<and> sched_ok s' (R((Some c, p) := ts)))"

definition none_selected :: "u8 \<Rightarrow> nat list \<Rightarrow> 'a sched_scheme \<Rightarrow> (rq \<Rightarrow> ptr list) \<Rightarrow> bool" where
  "none_selected c ps s R = (select_loop c ps s = (IdleThread s c, s) \<and> (\<forall>p\<in>set ps. R (Some c, p) = []))"

lemma select_loop_refines:
  assumes ok: "sched_ok s R" and ps: "set ps \<subseteq> {..<32}" "sorted_wrt (>) ps"
  shows "none_selected c ps s R \<or> (\<exists>p t ts s'. selected c ps s R p t ts s')"
  using ps
proof (induction ps)
  case (Cons p ps)
  have pb: "p < 32" using Cons.prems by simp
  show ?case
  proof (cases "R (Some c, p)")
    case Nil
    then have "select_loop c (p # ps) s = select_loop c ps s"
      using sched_ok_bit [OF ok pb, of "Some c"] by simp
    with Nil have "none_selected c ps s R \<Longrightarrow> none_selected c (p # ps) s R"
      "selected c ps s R q t ts s' \<Longrightarrow> selected c (p # ps) s R q t ts s'" for q t ts s'
      by (simp_all add: selected_def none_selected_def)
    moreover have "none_selected c ps s R \<or> (\<exists>p t ts s'. selected c ps s R p t ts s')"
      using Cons.IH Cons.prems by simp
    ultimately show ?thesis by blast
  next
    case (Cons t ts)
    have bt: "bit (CoreSummary s c) p" using sched_ok_bit [OF ok pb, of "Some c"] Cons by simp
    obtain e h where r: "RemoveHeadList (rq_head s (Some c, p)) (sheap s) = (e, h)" by fastforce
    have fr: "e = ReadyQueueEntry t \<and> family is_list h rqs (rq_head s)
        ((rq_entries R)((Some c, p) := map ReadyQueueEntry ts))"
      by (rule nl.family_rem_head [OF sched_ok_family [OF ok] _ _ r])
        (use pb Cons in \<open>auto simp: rq_entries_def\<close>)
    let ?R = "R((Some c, p) := ts)"
    define s' where "s' = s\<lparr>sheap := h, CoreSummary := (CoreSummary s)(c :=
                    ClearSummaryBitIfNeccessary h (CoreQueues s c) p (CoreSummary s c))\<rparr>"
    have hd: "rq_head s' = rq_head s" by (rule rq_head_cong) (simp_all add: s'_def)
    have f: "family is_list (sheap s') rqs (rq_head s') (rq_entries ?R)"
      unfolding hd using fr by (simp add: s'_def)
    have em: "IsListEmpty (rq_head s (Some c, p)) h \<longleftrightarrow> ts = []"
      using nl.is_empty [OF familyD [OF conjunct2 [OF fr]], of "(Some c, p)"] pb by simp
    have "bit (rq_summary s' w) q \<longleftrightarrow> ?R (w, q) \<noteq> []" if "q < 32" for w q
      using sched_ok_bit [OF ok that, of w] that em Cons
      by (cases w) (auto simp: s'_def bit_unset_bit_iff ClearSummaryBitIfNeccessary_def)
    then have "sched_ok s' ?R" using f by (simp add: sched_ok_def)
    moreover have "select_loop c (p # ps) s = (t, s')"
      using bt r fr by (simp add: s'_def)
    moreover have "same_queues s s'" unfolding same_queues_def hd by (simp add: s'_def)
    moreover have "\<forall>q\<in>set (p # ps). p < q \<longrightarrow> R (Some c, q) = []" using Cons.prems(2) by auto
    ultimately have "selected c (p # ps) s R p t ts s'" using Cons by (simp add: selected_def)
    then show ?thesis by blast
  qed
qed (simp add: none_selected_def)

text \<open>The test that skips the shared queues: it holds exactly when the processor itself has a
  ready thread at the highest priority of the shared queues.\<close>

lemma skip_test:
  assumes "SharedSummary s \<noteq> 0" and ok: "sched_ok s R"
  obtains m where "m < 32" "R (None, m) \<noteq> []" "\<And>n. m < n \<Longrightarrow> n < 32 \<Longrightarrow> R (None, n) = []"
    "CoreSummary s c > xor (SharedSummary s) (CoreSummary s c) \<longleftrightarrow> R (Some c, m) \<noteq> []"
proof -
  obtain m where m: "bit (SharedSummary s) m" "\<And>n. m < n \<Longrightarrow> \<not> bit (SharedSummary s) n" "m < LENGTH(32)"
    using word_top_bit [OF assms(1)] by blast
  have mb: "m < 32" using m(3) by simp
  show ?thesis
  proof (rule that [OF mb])
    show "R (None, m) \<noteq> []" using sched_ok_bit [OF ok mb, of None] m(1) by simp
    show "R (None, n) = []" if "m < n" "n < 32" for n
      using sched_ok_bit [OF ok that(2), of None] m(2) [OF that(1)] by simp
    show "CoreSummary s c > xor (SharedSummary s) (CoreSummary s c) \<longleftrightarrow> R (Some c, m) \<noteq> []"
      using xor_less_iff [OF m(1,2), of "CoreSummary s c"] sched_ok_bit [OF ok mb, of "Some c"] by simp
  qed
qed

definition queued :: "(rq \<Rightarrow> ptr list) \<Rightarrow> ptr \<Rightarrow> bool" where
  "queued R u = (\<exists>k\<in>rqs. u \<in> set (R k))"

lemma queued_cases: "queued R u \<longleftrightarrow> (\<exists>w. \<exists>p<32. u \<in> set (R (w, p)))"
  by (auto simp: queued_def rqs_def)

lemma queued_upd: "(u \<in> set ys \<longleftrightarrow> u \<in> set (R k)) \<Longrightarrow> queued (R(k := ys)) u = queued R u"
  unfolding queued_def by (rule bex_cong) auto

lemma queued_removed:
  assumes "sched_ok s R" "p < 32" "R (w, p) = t # ts"
  shows "\<not> queued (R((w, p) := ts)) t" "u \<noteq> t \<Longrightarrow> queued (R((w, p) := ts)) u = queued R u"
proof -
  have "t \<notin> set ts" using sched_ok_distinct [OF assms(1,2), of w] assms(3) by simp
  moreover have "t \<in> set (R (w', p')) \<Longrightarrow> p' < 32 \<Longrightarrow> w' = w \<and> p' = p" for w' p'
    using sched_ok_once [OF assms(1), of p' p t w' w] assms by simp
  ultimately show "\<not> queued (R((w, p) := ts)) t" by (auto simp: queued_cases)
  show "u \<noteq> t \<Longrightarrow> queued (R((w, p) := ts)) u = queued R u"
    by (rule queued_upd) (simp add: assms(3))
qed

lemma queued_moved:
  assumes "p < 32" "R (None, p) = us @ t # vs"
  shows "queued (R((None, p) := us @ vs, (Some c, p) := R (Some c, p) @ [t])) u = queued R u"
proof (cases "u = t")
  case True
  have "queued (R((None, p) := us @ vs, (Some c, p) := R (Some c, p) @ [t])) t" "queued R t"
    using assms by (auto simp: queued_def intro: bexI [of _ "(Some c, p)"] bexI [of _ "(None, p)"])
  then show ?thesis using True by simp
next
  case False
  have "queued (R((None, p) := us @ vs)) u = queued R u"
    by (rule queued_upd) (use assms(2) False in simp)
  moreover have "queued ((R((None, p) := us @ vs))((Some c, p) := R (Some c, p) @ [t])) u =
      queued (R((None, p) := us @ vs)) u"
    by (rule queued_upd) (use False in simp)
  ultimately show ?thesis by simp
qed

text \<open>The thread that should run next on c: of the highest priority that has a thread queued on
  c or a shared one that may run there, the first on c or, when c has none, the first shared.\<close>

definition runnable :: "'a sched_scheme \<Rightarrow> (rq \<Rightarrow> ptr list) \<Rightarrow> u8 \<Rightarrow> nat \<Rightarrow> ptr list" where
  "runnable s R c p = R (Some c, p) @ filter (can_run s c) (R (None, p))"

definition is_next :: "'a sched_scheme \<Rightarrow> (rq \<Rightarrow> ptr list) \<Rightarrow> u8 \<Rightarrow> ptr \<Rightarrow> bool" where
  "is_next s R c t = (\<exists>p<32. runnable s R c p \<noteq> [] \<and> t = hd (runnable s R c p) \<and>
     (\<forall>q<32. p < q \<longrightarrow> runnable s R c q = []))"

lemma set_priorities [simp]: "set priorities = {..<32}"
  by (auto simp: priorities_def)

lemma sorted_priorities: "sorted_wrt (>) priorities"
  by (simp add: priorities_def sorted_wrt_rev)

lemma same_queues_trans: "same_queues s s' \<Longrightarrow> same_queues s' s'' \<Longrightarrow> same_queues s s''"
  by (simp add: same_queues_def)

lemma filter_first: "\<forall>u\<in>set us. \<not> P u \<Longrightarrow> P t \<Longrightarrow> filter P (us @ t # vs) = t # filter P vs"
  by (induction us) auto

definition selection :: "'a sched_scheme \<Rightarrow> (rq \<Rightarrow> ptr list) \<Rightarrow> u8 \<Rightarrow> ptr \<Rightarrow> 'a sched_scheme \<Rightarrow> (rq \<Rightarrow> ptr list) \<Rightarrow> bool"
where
  "selection s R c t s' R' = (sched_ok s' R' \<and> same_queues s s' \<and>
     (t = IdleThread s c \<and> (\<forall>p<32. runnable s R c p = []) \<and> R' = R \<or>
      is_next s R c t \<and> queued R t \<and> \<not> queued R' t \<and> (\<forall>u. u \<noteq> t \<longrightarrow> queued R' u = queued R u)))"

text \<open>Nothing was moved, and above the priorities of c nothing shared may run.\<close>

lemma selection_own:
  assumes ok: "sched_ok s R"
    and sh: "\<And>p. p < 32 \<Longrightarrow> (\<forall>u\<in>set (R (None, p)). \<not> can_run s c u) \<or> (\<exists>q\<ge>p. q < 32 \<and> R (Some c, q) \<noteq> [])"
  shows "\<exists>t s' R'. select_loop c priorities s = (t, s') \<and> selection s R c t s' R'"
proof -
  from select_loop_refines [OF ok _ sorted_priorities, of c]
  consider "none_selected c priorities s R"
    | p t ts s' where "selected c priorities s R p t ts s'" by auto
  then show ?thesis
  proof cases
    case 1
    then have "\<forall>p<32. runnable s R c p = []" using sh by (fastforce simp: none_selected_def runnable_def)
    then show ?thesis using 1 ok by (auto simp: selection_def none_selected_def same_queues_def)
  next
    case 2
    then have p: "p < 32" "R (Some c, p) = t # ts" "\<forall>q<32. p < q \<longrightarrow> R (Some c, q) = []"
      and s': "select_loop c priorities s = (t, s')" "same_queues s s'" "sched_ok s' (R((Some c, p) := ts))"
      by (auto simp: selected_def)
    have "runnable s R c q = []" if "q < 32" "p < q" for q
    proof -
      have "\<not> (\<exists>r\<ge>q. r < 32 \<and> R (Some c, r) \<noteq> [])" using p(3) that by auto
      then show ?thesis using sh [OF that(1)] p(3) that by (auto simp: runnable_def filter_empty_conv)
    qed
    then have "is_next s R c t" using p by (auto simp: is_next_def runnable_def intro!: exI [of _ p])
    moreover have "queued R t" using p by (auto simp: queued_cases intro!: exI [of _ "Some c"] exI [of _ p])
    ultimately show ?thesis
      using s' queued_removed [OF ok p(1,2)] by (auto simp: selection_def)
  qed
qed

lemma selection_taken:
  assumes ok: "sched_ok s R" and tk: "taken c priorities s R p us t vs s1"
  shows "\<exists>x s' R'. select_loop c priorities s1 = (x, s') \<and> selection s R c x s' R'"
proof -
  let ?R = "R((None, p) := us @ vs, (Some c, p) := R (Some c, p) @ [t])"
  have p: "p < 32" "R (None, p) = us @ t # vs" "can_run s c t" "\<forall>u\<in>set us. \<not> can_run s c u"
    and up: "\<forall>q<32. p < q \<longrightarrow> (\<forall>u\<in>set (R (None, q)). \<not> can_run s c u)"
    and s1: "same_queues s s1" "sched_ok s1 ?R"
    using tk by (auto simp: taken_def)
  from select_loop_refines [OF s1(2) _ sorted_priorities, of c] obtain q x ts s' where
    sel: "selected c priorities s1 ?R q x ts s'"
    using p(1) by (auto simp: none_selected_def split: if_splits dest!: bspec [of _ _ p])
  have q: "q < 32" "?R (Some c, q) = x # ts" "\<forall>r<32. q < r \<longrightarrow> ?R (Some c, r) = []"
    and s': "select_loop c priorities s1 = (x, s')" "same_queues s1 s'" "sched_ok s' (?R((Some c, q) := ts))"
    using sel by (auto simp: selected_def)
  have pq: "p \<le> q"
  proof (rule ccontr)
    assume "\<not> p \<le> q" then show False using q(3) p(1) by auto
  qed
  have f: "filter (can_run s c) (R (None, p)) = t # filter (can_run s c) vs"
    using filter_first [OF p(4,3)] p(2) by simp
  have h: "runnable s R c q \<noteq> [] \<and> x = hd (runnable s R c q)"
    using q(2) pq f p(2) by (cases "q = p"; cases "R (Some c, p)") (auto simp: runnable_def)
  have ab: "runnable s R c r = []" if "r < 32" "q < r" for r
    using q(3) that pq up by (auto simp: runnable_def filter_empty_conv)
  have nx: "is_next s R c x" using h ab q(1) by (auto simp: is_next_def)
  have qx: "queued ?R x" using q(1,2) unfolding queued_cases by (metis list.set_intros(1))
  note moved = queued_moved [where R = R and p = p and us = us and t = t and vs = vs, OF p(1,2)]
  have "queued R x" using qx moved by simp
  moreover have "same_queues s s'" by (rule same_queues_trans [OF s1(1) s'(2)])
  ultimately show ?thesis
    using s' nx queued_removed [OF s1(2) q(1,2)] moved
    unfolding selection_def by blast
qed

text \<open>The selection of both operations together.\<close>

lemma PspSelectNextReadyThread_selection:
  assumes ok: "sched_ok s R"
  shows "\<exists>t s' R'. PspSelectNextReadyThread c s = Done (t, s') \<and> selection s R c t s' R'"
proof -
  have "\<exists>s1. PspManageSharedReadyQueue c s = Done (fst s1, snd s1) \<and>
    (\<exists>t s' R'. select_loop c priorities (snd s1) = (t, s') \<and> selection s R c t s' R')"
  proof (cases "SharedSummary s = 0")
    case True
    then have "R (None, p) = []" if "p < 32" for p
      using sched_ok_bit [OF ok that, of None] by simp
    then show ?thesis
      using True selection_own [OF ok, of c] by (auto simp: PspManageSharedReadyQueue_def)
  next
    case ne: False
    obtain m where m: "m < 32" "R (None, m) \<noteq> []" "\<And>n. m < n \<Longrightarrow> n < 32 \<Longrightarrow> R (None, n) = []"
      "CoreSummary s c > xor (SharedSummary s) (CoreSummary s c) \<longleftrightarrow> R (Some c, m) \<noteq> []"
      using skip_test [OF ne ok] by blast
    show ?thesis
    proof (cases "R (Some c, m) \<noteq> []")
      case True
      have "(\<forall>u\<in>set (R (None, p)). \<not> can_run s c u) \<or> (\<exists>q\<ge>p. q < 32 \<and> R (Some c, q) \<noteq> [])"
        if "p < 32" for p
        using m(1,3) True that by (cases "p \<le> m") auto
      from selection_own [OF ok this] show ?thesis
        using True m(4) ne by (auto simp: PspManageSharedReadyQueue_def)
    next
      case False
      have M: "PspManageSharedReadyQueue c s = manage_loop c priorities s"
        using False m(4) ne by (simp add: PspManageSharedReadyQueue_def)
      from manage_loop_refines [OF ok _ sorted_priorities, of c]
      consider "none_taken c priorities s R"
        | p us t vs s1 where "taken c priorities s R p us t vs s1" by auto
      then show ?thesis
      proof cases
        case 1
        then show ?thesis using M selection_own [OF ok, of c] by (auto simp: none_taken_def)
      next
        case 2
        then show ?thesis using M selection_taken [OF ok 2] by (auto simp: taken_def)
      qed
    qed
  qed
  then show ?thesis by (auto simp: PspSelectNextReadyThread_def)
qed

section \<open>Properties\<close>

text \<open>C5: the scheduler picks the right thread. PspSelectNextReadyThread returns the idle
  thread exactly when no thread can run on the processor; otherwise the first thread of the
  highest priority that has one queued on the processor or a shared one with that affinity, the
  processor's own first. The queues stay consistent with their summary words and only the
  returned thread leaves them.\<close>

theorem PspSelectNextReadyThread_spec:
  assumes ok: "sched_ok s R"
  shows "\<exists>t s' R'. PspSelectNextReadyThread c s = Done (t, s') \<and> sched_ok s' R' \<and> same_queues s s' \<and>
     (t = IdleThread s c \<and> (\<forall>p<32. runnable s R c p = []) \<and> R' = R \<or>
      is_next s R c t \<and> queued R t \<and> \<not> queued R' t \<and> (\<forall>u. u \<noteq> t \<longrightarrow> queued R' u = queued R u))"
  using PspSelectNextReadyThread_selection [OF ok] unfolding selection_def .

text \<open>A thread made ready goes to the end of the shared queue of its priority, the sum of its
  own and its process' base priority, and to no other; the summary word follows. A sum of 32 or
  more, which the code does not check, indexes past the 32 queues.\<close>

lemma PspInsertIntoSharedQueue_spec:
  assumes "sched_ok s R" and "unqueued s R t"
  shows "if thread_priority s t < 32
    then \<exists>s'. PspInsertIntoSharedQueue t s = Done s' \<and> same_queues s s' \<and>
      sched_ok s' (R((None, unat (thread_priority s t)) := R (None, unat (thread_priority s t)) @ [t]))
    else PspInsertIntoSharedQueue t s = Fault"
proof (cases "unat (thread_priority s t) < 32")
  case True
  then show ?thesis
    using PspInsertIntoSharedQueue_refines [OF assms True] by (auto simp: word_less_nat_alt)
next
  case False
  then show ?thesis by (simp add: PspInsertIntoSharedQueue_def word_less_nat_alt)
qed

section \<open>A concrete scheduler\<close>

text \<open>Every queue empty: each head points at itself. Thread 0x10 has priority 7.\<close>

definition idle_sched :: sched where
  "idle_sched = \<lparr>sheap = \<lparr>flink = (\<lambda>e. e), blink = (\<lambda>e. e)\<rparr>, SharedQueues = 0x100000, SharedSummary = 0,
     CoreQueues = (\<lambda>c. 0x200000 + 0x1000 * ucast c), CoreSummary = (\<lambda>_. 0), IdleThread = (\<lambda>_. 0x40),
     ThreadPriority = (\<lambda>t. if t = 0x10 then 7 else 3), ThreadProcess = (\<lambda>_. 0x50), BasePriority = (\<lambda>_. 0),
     Affinity = (\<lambda>_. 0xFFFFFFFFFFFFFFFF)\<rparr>"

lemma unat_queue_head: "unat b < 2 ^ 32 \<Longrightarrow> p < 32 \<Longrightarrow> unat (queue_head b p) = unat b + 16 * p"
proof -
  assume b: "unat b < 2 ^ 32" and p: "p < 32"
  have w: "(16 :: u64) * word_of_nat p = word_of_nat (16 * p)" by simp
  have u: "unat (word_of_nat (16 * p) :: u64) = 16 * p"
    by (rule unat_word_of_nat) (use p in simp)
  show ?thesis unfolding queue_head_def w
    by (subst unat_add_lem [THEN iffD1]) (use b p in \<open>simp_all only: u, simp_all\<close>)
qed

lemma unat_core_queues: "unat (0x200000 + 0x1000 * ucast (c :: u8) :: u64) = 0x200000 + 0x1000 * unat c"
proof -
  have c: "unat c < 256" using unat_bound [of c] by simp
  have w: "(0x200000 + 0x1000 * ucast c :: u64) = word_of_nat (0x200000 + 0x1000 * unat c)"
    by (simp add: unsigned_ucast_eq)
  show ?thesis unfolding w by (rule unat_word_of_nat) (use c in simp)
qed

lemma unat_idle_head:
  "p < 32 \<Longrightarrow> unat (rq_head idle_sched (None, p)) = 0x100000 + 16 * p"
  "p < 32 \<Longrightarrow> unat (rq_head idle_sched (Some c, p)) = 0x200000 + 0x1000 * unat c + 16 * p"
proof -
  assume p: "p < 32"
  have c: "unat c < 256" using unat_bound [of c] by simp
  show "unat (rq_head idle_sched (None, p)) = 0x100000 + 16 * p"
    using unat_queue_head [OF _ p, where b = "0x100000"] by (simp add: idle_sched_def)
  have "unat (queue_head (0x200000 + 0x1000 * ucast c) p) = unat (0x200000 + 0x1000 * ucast c :: u64) + 16 * p"
    by (rule unat_queue_head [OF _ p]) (use c in \<open>simp only: unat_core_queues, simp\<close>)
  then show "unat (rq_head idle_sched (Some c, p)) = 0x200000 + 0x1000 * unat c + 16 * p"
    unfolding unat_core_queues by (simp add: idle_sched_def)
qed

lemma idle_heads_inj:
  assumes "k \<in> rqs" "l \<in> rqs" "rq_head idle_sched k = rq_head idle_sched l"
  shows "k = l"
proof -
  obtain w p v q where k: "k = (w, p)" "l = (v, q)" "p < 32" "q < 32"
    using assms(1,2) by (cases k; cases l) auto
  have e: "unat (rq_head idle_sched (w, p)) = unat (rq_head idle_sched (v, q))" using assms(3) k by simp
  show ?thesis
  proof (cases w; cases v)
    fix c d assume cd: "w = Some c" "v = Some d"
    have "0x1000 * unat c + 16 * p = 0x1000 * unat d + 16 * q"
      using e unfolding cd unat_idle_head(2) [OF k(3)] unat_idle_head(2) [OF k(4)] by simp
    moreover from this have "unat c = unat d" using k(3,4) by linarith
    ultimately show ?thesis using k(1,2) cd by (simp add: word_unat_eq_iff)
  next
    fix c assume cd: "w = Some c" "v = None"
    have False
      using e k(3,4) unfolding cd unat_idle_head(2) [OF k(3)] unat_idle_head(1) [OF k(4)] by linarith
    then show ?thesis ..
  next
    fix c assume cd: "w = None" "v = Some c"
    have False
      using e k(3,4) unfolding cd unat_idle_head(1) [OF k(3)] unat_idle_head(2) [OF k(4)] by linarith
    then show ?thesis ..
  next
    assume cd: "w = None" "v = None"
    show ?thesis
      using e unfolding cd unat_idle_head(1) [OF k(3)] unat_idle_head(1) [OF k(4)] k(1,2) by simp
  qed
qed

lemma idle_sched_ok: "sched_ok idle_sched (\<lambda>_. [])"
proof -
  have "family is_list (sheap idle_sched) rqs (rq_head idle_sched) (rq_entries (\<lambda>_. []))"
    using idle_heads_inj
    by (auto simp: family_def rq_entries_def is_list_def apart_def idle_sched_def)
  moreover have "\<not> bit (rq_summary idle_sched w) p" for w p
    by (cases w) (simp_all add: idle_sched_def)
  ultimately show ?thesis by (simp add: sched_ok_def)
qed

lemma idle_unqueued: "unqueued idle_sched (\<lambda>_. []) 0x10"
proof -
  have "ReadyQueueEntry 0x10 \<noteq> rq_head idle_sched (w, p)" if "p < 32" for w p
  proof
    assume "ReadyQueueEntry 0x10 = rq_head idle_sched (w, p)"
    then have "unat (ReadyQueueEntry 0x10) = unat (rq_head idle_sched (w, p))" by simp
    then show False using that by (cases w) (simp_all add: unat_idle_head ReadyQueueEntry_def del: rq_head.simps)
  qed
  then show ?thesis by (auto simp: unqueued_def rqs_def)
qed

lemma idle_priority: "thread_priority idle_sched 0x10 = 7"
  by (simp add: thread_priority_def idle_sched_def)

lemma seven_nat: "unat (7 :: u8) = 7"
  by simp

lemma PspInsertIntoSharedQueue_spec_example:
  "\<exists>s'. PspInsertIntoSharedQueue 0x10 idle_sched = Done s' \<and>
     sched_ok s' ((\<lambda>_. [])((None, 7) := [0x10]))"
  using PspInsertIntoSharedQueue_spec [OF idle_sched_ok idle_unqueued]
  unfolding idle_priority seven_nat by auto

definition one_ready :: "sched \<Rightarrow> bool" where
  "one_ready s = (sched_ok s ((\<lambda>_. [])((None, 7) := [0x10])) \<and> Affinity s = Affinity idle_sched)"

lemma one_ready_exists: "\<exists>s. one_ready s"
  using PspInsertIntoSharedQueue_refines [OF idle_sched_ok idle_unqueued]
  unfolding idle_priority seven_nat one_ready_def by (auto simp: same_queues_def)

theorem PspSelectNextReadyThread_spec_witness:
  "\<exists>s s' R'. one_ready s \<and> PspSelectNextReadyThread 0 s = Done (0x10, s') \<and> sched_ok s' R' \<and> \<not> queued R' 0x10"
proof -
  obtain s where s: "one_ready s" using one_ready_exists ..
  let ?R = "(\<lambda>_. [])((None, 7) := [0x10]) :: rq \<Rightarrow> ptr list"
  have ok: "sched_ok s ?R" and aff: "can_run s 0 0x10"
    using s by (simp_all add: one_ready_def can_run_def idle_sched_def)
  have r: "runnable s ?R 0 p = (if p = 7 then [0x10] else [])" for p
    using aff by (simp add: runnable_def)
  have n: "is_next s ?R 0 t \<longleftrightarrow> t = 0x10" for t
    by (auto simp: is_next_def r split: if_splits)
  from PspSelectNextReadyThread_spec [OF ok, of 0] obtain t s' R' where
    d: "PspSelectNextReadyThread 0 s = Done (t, s')" "sched_ok s' R'"
    "t = IdleThread s 0 \<and> (\<forall>p<32. runnable s ?R 0 p = []) \<and> R' = ?R \<or>
     is_next s ?R 0 t \<and> queued ?R t \<and> \<not> queued R' t \<and> (\<forall>u. u \<noteq> t \<longrightarrow> queued R' u = queued ?R u)"
    by blast
  have "\<not> (\<forall>p<32. runnable s ?R 0 p = [])" using r by auto
  then have "is_next s ?R 0 t \<and> \<not> queued R' t" using d(3) by metis
  then have "t = 0x10 \<and> \<not> queued R' 0x10" using n [of t] by auto
  with s d(1,2) show ?thesis by blast
qed

end
