(* ===== verification/Dispatcher.thy ===== *)
theory Dispatcher
  imports Scheduler
begin

text \<open>
  The dispatcher: waiting for objects and signalling them (NNXOSKRN/dispatcher/dispatcher.c and
  wait.c), the mutex, semaphore and queue objects (ntmutex.c, ntsemaphore.c, ntqueue.c) and the
  timeouts of waits (NNXOSKRN/time.c). The state extends the ready queues of the scheduler: all
  lists live in one heap. A DISPATCHER_HEADER at address o has its lock word at o, whose byte 3
  is the Type field (they are a union in the source), and its WaitHead at o + 16; a KTHREAD at t
  has its ThreadLock at t + 32, its own wait blocks at t + 104 and its TimeoutEntry at t + 304;
  a KWAIT_BLOCK has 40 bytes, its WaitEntry first.
\<close>

section \<open>State\<close>

abbreviation (input) THREAD_STATE_READY :: u8 where "THREAD_STATE_READY \<equiv> 1"
abbreviation (input) THREAD_STATE_RUNNING :: u8 where "THREAD_STATE_RUNNING \<equiv> 2"
abbreviation (input) THREAD_STATE_TERMINATED :: u8 where "THREAD_STATE_TERMINATED \<equiv> 4"
abbreviation (input) THREAD_STATE_WAITING :: u8 where "THREAD_STATE_WAITING \<equiv> 5"
abbreviation (input) WaitAll :: u8 where "WaitAll \<equiv> 0"
abbreviation (input) WaitAny :: u8 where "WaitAny \<equiv> 1"
abbreviation (input) ProcessObject :: u8 where "ProcessObject \<equiv> 0"
abbreviation (input) QueueObject :: u8 where "QueueObject \<equiv> 2"
abbreviation (input) MutexObject :: u8 where "MutexObject \<equiv> 5"
abbreviation (input) SemaphoreObject :: u8 where "SemaphoreObject \<equiv> 6"
abbreviation (input) THREAD_WAIT_OBJECTS :: u32 where "THREAD_WAIT_OBJECTS \<equiv> 3"

record kstate = sched +
  kcpu :: cpu
  CurrentThread :: ptr
  DispatcherLock :: KSPIN_LOCK
  Locks :: "ptr \<Rightarrow> KSPIN_LOCK"
  SignalState :: "ptr \<Rightarrow> u32"
  MutexOwner :: "ptr \<Rightarrow> ptr"
  CurrentWaitingThreads :: "ptr \<Rightarrow> u32"
  SemaphoreLimit :: "ptr \<Rightarrow> u32"
  WbThread :: "ptr \<Rightarrow> ptr"
  WbObject :: "ptr \<Rightarrow> ptr"
  WbWaitType :: "ptr \<Rightarrow> u8"
  WbWaitMode :: "ptr \<Rightarrow> u8"
  ThreadState :: "ptr \<Rightarrow> u8"
  CurrentWaitBlocks :: "ptr \<Rightarrow> ptr"
  NumberOfCurrentWaitBlocks :: "ptr \<Rightarrow> u32"
  NumberOfActiveWaitBlocks :: "ptr \<Rightarrow> u32"
  WaitStatus :: "ptr \<Rightarrow> u64"
  Alertable :: "ptr \<Rightarrow> bool"
  WaitIrql :: "ptr \<Rightarrow> u8"
  WaitIrqlRestore :: "ptr \<Rightarrow> u8"
  Timeout :: "ptr \<Rightarrow> u64"
  TimeoutIsAbsolute :: "ptr \<Rightarrow> bool"
  AbsoluteTimeoutListHead :: ptr
  RelativeTimeoutListHead :: ptr
  NotifyIpis :: nat

definition WaitHead :: "ptr \<Rightarrow> ptr" where "WaitHead obj = obj + 16"

definition ThreadLock :: "ptr \<Rightarrow> ptr" where "ThreadLock t = t + 32"

definition ThreadWaitBlocks :: "ptr \<Rightarrow> ptr" where "ThreadWaitBlocks t = t + 104"

definition TimeoutEntry :: "ptr \<Rightarrow> ptr" where "TimeoutEntry t = t + 304"

definition wait_block :: "ptr \<Rightarrow> nat \<Rightarrow> ptr" where "wait_block a i = a + 40 * word_of_nat i"

text \<open>The Type byte of a header: bits 24 to 31 of its lock word.\<close>

definition ObjectType :: "kstate \<Rightarrow> ptr \<Rightarrow> u8" where
  "ObjectType s obj = ucast (drop_bit 24 (Locks s obj))"

definition set_ObjectType :: "u8 \<Rightarrow> KSPIN_LOCK \<Rightarrow> KSPIN_LOCK" where
  "set_ObjectType ty l = or (and l (not 0xFF000000)) (push_bit 24 (ucast ty))"

definition InitializeDispatcherHeader :: "ptr \<Rightarrow> u8 \<Rightarrow> kstate \<Rightarrow> kstate" where
  "InitializeDispatcherHeader Header ty s =
     s\<lparr>Locks := (Locks s)(Header := set_ObjectType ty (KeInitializeSpinLock (Locks s Header))),
       SignalState := (SignalState s)(Header := 0),
       sheap := InitializeListHead (WaitHead Header) (sheap s)\<rparr>"

section \<open>Locks\<close>

definition acquire_at_dpc :: "ptr \<Rightarrow> kstate \<Rightarrow> kstate outcome" where
  "acquire_at_dpc a s = obind (KeAcquireSpinLockAtDpcLevel (Locks s a) (kcpu s))
     (\<lambda>l. Done (s\<lparr>Locks := (Locks s)(a := l)\<rparr>))"

definition release_from_dpc :: "ptr \<Rightarrow> kstate \<Rightarrow> kstate outcome" where
  "release_from_dpc a s = obind (KeReleaseSpinLockFromDpcLevel (Locks s a) (kcpu s))
     (\<lambda>l. Done (s\<lparr>Locks := (Locks s)(a := l)\<rparr>))"

definition KiAcquireDispatcherLock :: "kstate \<Rightarrow> (u8 \<times> kstate) outcome" where
  "KiAcquireDispatcherLock s =
     obind (KfRaiseIrql SYNCH_LEVEL (kcpu s)) (\<lambda>(oldIrql, c).
     obind (KeAcquireSpinLockAtDpcLevel (DispatcherLock s) c) (\<lambda>l.
       Done (oldIrql, s\<lparr>kcpu := c, DispatcherLock := l\<rparr>)))"

definition KiReleaseDispatcherLock :: "u8 \<Rightarrow> kstate \<Rightarrow> kstate outcome" where
  "KiReleaseDispatcherLock oldIrql s =
     obind (KeReleaseSpinLockFromDpcLevel (DispatcherLock s) (kcpu s)) (\<lambda>l.
     obind (KeLowerIrql oldIrql (kcpu s)) (\<lambda>c.
       Done (s\<lparr>kcpu := c, DispatcherLock := l\<rparr>)))"

section \<open>Timeouts of waits\<close>

text \<open>The timeout is NULL, or the LONG64 it points at.\<close>

definition KiHandleObjectWaitTimeout :: "ptr \<Rightarrow> u64 option \<Rightarrow> kstate \<Rightarrow> kstate" where
  "KiHandleObjectWaitTimeout Thread pTimeout s =
     (let e = TimeoutEntry Thread;
          s = (if Timeout s Thread \<noteq> 0 then s\<lparr>sheap := RemoveEntry e (sheap s)\<rparr> else s);
          s = s\<lparr>Timeout := (Timeout s)(Thread := 0), TimeoutIsAbsolute := (TimeoutIsAbsolute s)(Thread := True)\<rparr>
      in case pTimeout of
           None \<Rightarrow> s
         | Some t \<Rightarrow>
             if t <s 0
             then s\<lparr>TimeoutIsAbsolute := (TimeoutIsAbsolute s)(Thread := False),
                    Timeout := (Timeout s)(Thread := - t),
                    sheap := InsertTailList (RelativeTimeoutListHead s) e (sheap s)\<rparr>
             else s\<lparr>TimeoutIsAbsolute := (TimeoutIsAbsolute s)(Thread := True),
                    Timeout := (Timeout s)(Thread := t),
                    sheap := InsertTailList (AbsoluteTimeoutListHead s) e (sheap s)\<rparr>)"

section \<open>Waking threads\<close>

text \<open>
  KiUnwaitWaitBlock, KeUnwaitThreadNoLock and RundownWaitBlocks call each other. The last two
  are written over the first, unwait, which takes a depth; the thread is no longer waiting when
  its blocks are run down, so the nesting stops at depth two. These functions and the waits carry the
  flag debug of the build, because a wait can violate their ASSERTs; everywhere else the ASSERTs are left out.
\<close>

type_synonym unwait_fn = "ptr \<Rightarrow> bool \<Rightarrow> u64 \<Rightarrow> kstate \<Rightarrow> kstate outcome"

fun rundown_loop :: "unwait_fn \<Rightarrow> ptr list \<Rightarrow> kstate \<Rightarrow> kstate outcome" where
  "rundown_loop unwait [] s = Done s"
| "rundown_loop unwait (b # bs) s =
     (let Object = WbObject s b in
      if Object \<noteq> NULL
      then obind (acquire_at_dpc Object s) (\<lambda>s.
           obind (unwait b False 0 s) (\<lambda>s.
           obind (release_from_dpc Object s) (\<lambda>s. rundown_loop unwait bs s)))
      else rundown_loop unwait bs s)"

definition RundownWaitBlocks_with :: "bool \<Rightarrow> unwait_fn \<Rightarrow> ptr \<Rightarrow> kstate \<Rightarrow> kstate outcome" where
  "RundownWaitBlocks_with debug unwait t s =
     ASSERT debug (irql (kcpu s) \<ge> DISPATCH_LEVEL) (ASSERT debug (Locks s (ThreadLock t) \<noteq> 0) (ASSERT debug (DispatcherLock s \<noteq> 0)
     (obind (rundown_loop unwait
              (map (wait_block (CurrentWaitBlocks s t)) [0..<unat (NumberOfCurrentWaitBlocks s t)]) s) (\<lambda>s.
       ASSERT debug (NumberOfActiveWaitBlocks s t = 0) (Done (s\<lparr>NumberOfCurrentWaitBlocks := (NumberOfCurrentWaitBlocks s)(t := 0),
               CurrentWaitBlocks := (CurrentWaitBlocks s)(t := NULL)\<rparr>))))))"

definition KeUnwaitThreadNoLock_with :: "bool \<Rightarrow> unwait_fn \<Rightarrow> ptr \<Rightarrow> u64 \<Rightarrow> kstate \<Rightarrow> kstate outcome" where
  "KeUnwaitThreadNoLock_with debug unwait t status s =
     ASSERT debug (ThreadState s t = THREAD_STATE_WAITING \<or> ThreadState s t = THREAD_STATE_TERMINATED)
     (obind (if ThreadState s t = THREAD_STATE_WAITING
            then (if t = CurrentThread s
                  then Done (s\<lparr>ThreadState := (ThreadState s)(t := THREAD_STATE_RUNNING)\<rparr>)
                  else obind (PspInsertIntoSharedQueue t (s\<lparr>ThreadState := (ThreadState s)(t := THREAD_STATE_READY)\<rparr>))
                    (\<lambda>s. Done (s\<lparr>NotifyIpis := Suc (NotifyIpis s)\<rparr>)))
            else Done s) (\<lambda>s.
     ASSERT debug (Locks s (ThreadLock t) \<noteq> 0)
     (let s = KiHandleObjectWaitTimeout t None s in
      obind (if NumberOfCurrentWaitBlocks s t \<noteq> 0 then RundownWaitBlocks_with debug unwait t s else Done s) (\<lambda>s.
        Done (s\<lparr>WaitStatus := (WaitStatus s)(t := status)\<rparr>)))))"

text \<open>\<open>pfnOnThreadUnwait\<close> of the decode table: queues, mutexes and semaphores have one, the
  semaphore's only prints. The table has 32 entries.\<close>

definition KiUnwaitWaitBlockFromQueue :: "ptr \<Rightarrow> kstate \<Rightarrow> kstate" where
  "KiUnwaitWaitBlockFromQueue b s =
     (let q = WbObject s b in
      s\<lparr>CurrentWaitingThreads := (CurrentWaitingThreads s)(q := CurrentWaitingThreads s q - 1)\<rparr>)"

definition KiUnwaitWaitBlockMutex :: "ptr \<Rightarrow> kstate \<Rightarrow> kstate" where
  "KiUnwaitWaitBlockMutex b s = s\<lparr>MutexOwner := (MutexOwner s)(WbObject s b := WbThread s b)\<rparr>"

definition KiUnwaitWaitBlockFromSemaphore :: "ptr \<Rightarrow> kstate \<Rightarrow> kstate" where
  "KiUnwaitWaitBlockFromSemaphore b s = s"

declare KiUnwaitWaitBlockFromQueue_def [simp] KiUnwaitWaitBlockMutex_def [simp]
declare KiUnwaitWaitBlockFromSemaphore_def [simp]

definition unwait_effect :: "u8 \<Rightarrow> ptr \<Rightarrow> kstate \<Rightarrow> kstate" where
  "unwait_effect ty b s =
     (if ty = QueueObject then KiUnwaitWaitBlockFromQueue b s
      else if ty = MutexObject then KiUnwaitWaitBlockMutex b s
      else if ty = SemaphoreObject then KiUnwaitWaitBlockFromSemaphore b s
      else s)"

definition on_thread_unwait :: "u8 \<Rightarrow> ptr \<Rightarrow> kstate \<Rightarrow> kstate outcome" where
  "on_thread_unwait ty b s = (if ty \<ge> 32 then Fault else Done (unwait_effect ty b s))"

primrec KiUnwaitWaitBlock_at :: "bool \<Rightarrow> nat \<Rightarrow> unwait_fn" where
  "KiUnwaitWaitBlock_at debug 0 = (\<lambda>b designal status s. Hang)"
| "KiUnwaitWaitBlock_at debug (Suc n) = (\<lambda>b designal status s.
     let Object = WbObject s b; Thread = WbThread s b; type = WbWaitType s b in
     if Object = NULL then Fault
     else ASSERT debug (DispatcherLock s \<noteq> 0 \<and> Thread \<noteq> NULL)
      (if Thread = NULL then Fault
       else ASSERT debug (Locks s (ThreadLock Thread) \<noteq> 0) (ASSERT debug (Locks s Object \<noteq> 0) (
       let s = (if designal then s\<lparr>SignalState := (SignalState s)(Object := SignalState s Object - 1)\<rparr> else s) in
       obind (on_thread_unwait (ObjectType s Object) b s) (\<lambda>s.
       let s = s\<lparr>sheap := RemoveEntry b (sheap s), WbObject := (WbObject s)(b := NULL),
                 WbThread := (WbThread s)(b := NULL), WbWaitMode := (WbWaitMode s)(b := 0),
                 WbWaitType := (WbWaitType s)(b := 0),
                 NumberOfActiveWaitBlocks := (NumberOfActiveWaitBlocks s)(Thread := NumberOfActiveWaitBlocks s Thread - 1)\<rparr>
       in if ThreadState s Thread = THREAD_STATE_WAITING
          then (if NumberOfActiveWaitBlocks s Thread = 0
                then KeUnwaitThreadNoLock_with debug (KiUnwaitWaitBlock_at debug n) Thread status s
                else if type = WaitAny
                then KeUnwaitThreadNoLock_with debug (KiUnwaitWaitBlock_at debug n) Thread
                       ((b - CurrentWaitBlocks s Thread) div 40) s
                else Done s)
          else Done s)))))"

definition KiUnwaitWaitBlock :: unwait_fn where
  "KiUnwaitWaitBlock = KiUnwaitWaitBlock_at False 2"

definition KeUnwaitThreadNoLock :: "ptr \<Rightarrow> u64 \<Rightarrow> kstate \<Rightarrow> kstate outcome" where
  "KeUnwaitThreadNoLock = KeUnwaitThreadNoLock_with False (KiUnwaitWaitBlock_at False 2)"

definition KeUnwaitThread :: "ptr \<Rightarrow> u64 \<Rightarrow> kstate \<Rightarrow> kstate outcome" where
  "KeUnwaitThread t status s =
     obind (KiAcquireDispatcherLock s) (\<lambda>(irql, s).
     obind (acquire_at_dpc (ThreadLock t) s) (\<lambda>s.
     obind (KeUnwaitThreadNoLock t status s) (\<lambda>s.
     obind (release_from_dpc (ThreadLock t) s) (\<lambda>s.
       KiReleaseDispatcherLock irql s))))"

section \<open>Signalling\<close>

partial_function (option) signal_loop :: "ptr \<Rightarrow> kstate \<Rightarrow> kstate outcome option" where
  "signal_loop Object s =
     (if SignalState s Object > 0 \<and> \<not> IsListEmpty (WaitHead Object) (sheap s)
      then
        let (b, h) = RemoveHeadList (WaitHead Object) (sheap s);
            s = s\<lparr>sheap := h\<rparr>;
            lk = ThreadLock (WbThread s b)
        in next_step (obind (acquire_at_dpc lk s) (\<lambda>s.
                      obind (KiUnwaitWaitBlock b True 0 s) (\<lambda>s.
                      release_from_dpc lk s)))
             (\<lambda>s. signal_loop Object s)
      else Some (Done s))"

definition KiSignal :: "ptr \<Rightarrow> u32 \<Rightarrow> kstate \<Rightarrow> kstate outcome" where
  "KiSignal Object SignalIncrement s =
     run_loop (signal_loop Object (s\<lparr>SignalState := (SignalState s)(Object := SignalState s Object + SignalIncrement)\<rparr>))"

section \<open>Waiting\<close>

fun lock_objects :: "ptr list \<Rightarrow> kstate \<Rightarrow> kstate outcome" where
  "lock_objects [] s = Done s"
| "lock_objects (obj # objs) s = obind (acquire_at_dpc obj s) (lock_objects objs)"

fun unlock_objects :: "ptr list \<Rightarrow> kstate \<Rightarrow> kstate outcome" where
  "unlock_objects [] s = Done s"
| "unlock_objects (obj # objs) s = obind (release_from_dpc obj s) (unlock_objects objs)"

fun init_wait_blocks :: "ptr \<Rightarrow> ptr \<Rightarrow> u8 \<Rightarrow> u8 \<Rightarrow> nat \<Rightarrow> ptr list \<Rightarrow> kstate \<Rightarrow> kstate" where
  "init_wait_blocks t blocks ty mode i [] s = s"
| "init_wait_blocks t blocks ty mode i (obj # objs) s =
     (let b = wait_block blocks i;
          s = s\<lparr>WbObject := (WbObject s)(b := obj), WbThread := (WbThread s)(b := t),
                WbWaitMode := (WbWaitMode s)(b := mode), WbWaitType := (WbWaitType s)(b := ty),
                sheap := InsertTailList (WaitHead obj) b (sheap s)\<rparr>
      in init_wait_blocks t blocks ty mode (Suc i) objs s)"

text \<open>The waits on objects that are signalled already; reading the SignalState through a wait
  block that was run down meanwhile is a NULL dereference.\<close>

fun fulfil_waits :: "bool \<Rightarrow> ptr \<Rightarrow> u8 \<Rightarrow> nat list \<Rightarrow> kstate \<Rightarrow> kstate outcome" where
  "fulfil_waits debug blocks ty [] s = Done s"
| "fulfil_waits debug blocks ty (i # is) s =
     (let b = wait_block blocks i; Header = WbObject s b in
      if Header = NULL then Fault
      else obind (if SignalState s Header \<noteq> 0
                  then KiUnwaitWaitBlock_at debug 2 b True (if ty = WaitAny then word_of_nat i else 0) s
                  else Done s)
             (fulfil_waits debug blocks ty is))"

text \<open>A wait returns at once, or gives up the processor (KeForceClockTick); a thread that is
  resumed returns the WaitStatus it finds then.\<close>

datatype wait_result = Returns NTSTATUS | Blocks

definition KeWaitForMultipleObjects_build ::
  "bool \<Rightarrow> ptr list \<Rightarrow> u8 \<Rightarrow> u8 \<Rightarrow> bool \<Rightarrow> u64 option \<Rightarrow> ptr \<Rightarrow> kstate \<Rightarrow> (wait_result \<times> kstate) outcome" where
  "KeWaitForMultipleObjects_build debug Objects ty mode alertable pTimeout WaitBlockArray s =
     (let Count = word_of_nat (length Objects) in
      if Count > THREAD_WAIT_OBJECTS \<and> WaitBlockArray = NULL then Done (Returns STATUS_INVALID_PARAMETER, s)
      else
        obind (KfRaiseIrql DISPATCH_LEVEL (kcpu s)) (\<lambda>(Irql, c).
        let s = s\<lparr>kcpu := c\<rparr>; t = CurrentThread s in
        obind (lock_objects Objects s) (\<lambda>s.
        obind (KiAcquireDispatcherLock s) (\<lambda>(_, s).
        let blocks = (if WaitBlockArray \<noteq> NULL then WaitBlockArray else ThreadWaitBlocks t);
            s = init_wait_blocks t blocks ty mode 0 Objects s;
            s = s\<lparr>NumberOfActiveWaitBlocks := (NumberOfActiveWaitBlocks s)(t := Count),
                  NumberOfCurrentWaitBlocks := (NumberOfCurrentWaitBlocks s)(t := Count),
                  CurrentWaitBlocks := (CurrentWaitBlocks s)(t := blocks),
                  ThreadState := (ThreadState s)(t := THREAD_STATE_WAITING)\<rparr>
        in
        obind (acquire_at_dpc (ThreadLock t) s) (\<lambda>s.
        obind (fulfil_waits debug blocks ty [0..<length Objects] s) (\<lambda>s.
        obind (release_from_dpc (ThreadLock t) s) (\<lambda>s.
        obind (unlock_objects Objects s) (\<lambda>s.
        if NumberOfActiveWaitBlocks s t = 0 \<or> (ty = WaitAny \<and> NumberOfActiveWaitBlocks s t < Count)
        then obind (KiReleaseDispatcherLock Irql s) (\<lambda>s. Done (Returns STATUS_SUCCESS, s))
        else
          let s = KiHandleObjectWaitTimeout t pTimeout (s\<lparr>Alertable := (Alertable s)(t := alertable)\<rparr>) in
          if NumberOfActiveWaitBlocks s t > 0 \<and> pTimeout = Some 0
          then obind (KeUnwaitThreadNoLock_with debug (KiUnwaitWaitBlock_at debug 2) t (ucast STATUS_TIMEOUT) s) (\<lambda>s.
               let s = s\<lparr>ThreadState := (ThreadState s)(t := THREAD_STATE_RUNNING)\<rparr> in
               obind (KiReleaseDispatcherLock Irql s) (\<lambda>s. Done (Returns STATUS_TIMEOUT, s)))
          else obind (KiReleaseDispatcherLock Irql s) (\<lambda>s.
               if Irql \<ge> DISPATCH_LEVEL then Bugcheck IRQL_NOT_LESS_OR_EQUAL
               else Done (Blocks, s))))))))))"

definition KeWaitForSingleObject_build ::
  "bool \<Rightarrow> ptr \<Rightarrow> u8 \<Rightarrow> bool \<Rightarrow> u64 option \<Rightarrow> kstate \<Rightarrow> (wait_result \<times> kstate) outcome" where
  "KeWaitForSingleObject_build debug Object mode alertable pTimeout =
     KeWaitForMultipleObjects_build debug [Object] WaitAll mode alertable pTimeout NULL"

text \<open>The build without _DEBUG, which the rest of the kernel uses.\<close>

definition KeWaitForMultipleObjects ::
  "ptr list \<Rightarrow> u8 \<Rightarrow> u8 \<Rightarrow> bool \<Rightarrow> u64 option \<Rightarrow> ptr \<Rightarrow> kstate \<Rightarrow> (wait_result \<times> kstate) outcome" where
  "KeWaitForMultipleObjects = KeWaitForMultipleObjects_build False"

definition KeWaitForSingleObject ::
  "ptr \<Rightarrow> u8 \<Rightarrow> bool \<Rightarrow> u64 option \<Rightarrow> kstate \<Rightarrow> (wait_result \<times> kstate) outcome" where
  "KeWaitForSingleObject = KeWaitForSingleObject_build False"

section \<open>Mutexes, semaphores and queues\<close>

definition acquire_lock :: "ptr \<Rightarrow> kstate \<Rightarrow> (u8 \<times> kstate) outcome" where
  "acquire_lock a s = obind (KeAcquireSpinLock (Locks s a) (kcpu s)) (\<lambda>(irql, l, c).
     Done (irql, s\<lparr>Locks := (Locks s)(a := l), kcpu := c\<rparr>))"

definition release_lock :: "ptr \<Rightarrow> u8 \<Rightarrow> kstate \<Rightarrow> kstate outcome" where
  "release_lock a oldIrql s = obind (KeReleaseSpinLock (Locks s a) oldIrql (kcpu s)) (\<lambda>(l, c).
     Done (s\<lparr>Locks := (Locks s)(a := l), kcpu := c\<rparr>))"

text \<open>The common end of KeReleaseMutex and KeReleaseSemaphore: signal under the dispatcher
  lock, then drop the lock of the object, or leave the IRQL raised for a wait that follows.\<close>

definition signal_and_unlock :: "ptr \<Rightarrow> u32 \<Rightarrow> bool \<Rightarrow> u8 \<Rightarrow> kstate \<Rightarrow> kstate outcome" where
  "signal_and_unlock obj n keep oldIrql s =
     obind (KiAcquireDispatcherLock s) (\<lambda>(irql2, s).
     obind (KiSignal obj n s) (\<lambda>s.
     obind (KiReleaseDispatcherLock irql2 s) (\<lambda>s.
       if \<not> keep then release_lock obj oldIrql s
       else let t = CurrentThread s in
         Done (s\<lparr>WaitIrql := (WaitIrql s)(t := oldIrql), WaitIrqlRestore := (WaitIrqlRestore s)(t := 1),
                 Locks := (Locks s)(obj := KiReleaseSpinLock (Locks s obj))\<rparr>))))"

definition KeReleaseMutex :: "ptr \<Rightarrow> bool \<Rightarrow> kstate \<Rightarrow> (u32 \<times> kstate) outcome" where
  "KeReleaseMutex pMutex keep s =
     obind (acquire_lock pMutex s) (\<lambda>(irql, s).
     let s = s\<lparr>MutexOwner := (MutexOwner s)(pMutex := NULL)\<rparr> in
     obind (signal_and_unlock pMutex 1 keep irql s) (\<lambda>s. Done (0, s)))"

definition KeInitializeSemaphore :: "ptr \<Rightarrow> u32 \<Rightarrow> u32 \<Rightarrow> kstate \<Rightarrow> kstate" where
  "KeInitializeSemaphore Semaphore Count Limit s =
     (let s = InitializeDispatcherHeader Semaphore SemaphoreObject s
      in s\<lparr>SemaphoreLimit := (SemaphoreLimit s)(Semaphore := Limit),
           SignalState := (SignalState s)(Semaphore := Count)\<rparr>)"

text \<open>Exceeding the limit prints a message and asserts, which does nothing in a build without _DEBUG.\<close>

definition KeReleaseSemaphore :: "ptr \<Rightarrow> u32 \<Rightarrow> bool \<Rightarrow> kstate \<Rightarrow> (u32 \<times> kstate) outcome" where
  "KeReleaseSemaphore Semaphore Adjustment keep s =
     obind (acquire_lock Semaphore s) (\<lambda>(irql, s).
     let preIncrementValue = SignalState s Semaphore in
     obind (signal_and_unlock Semaphore Adjustment keep irql s) (\<lambda>s. Done (preIncrementValue, s)))"

definition KeReadStateSemaphore :: "ptr \<Rightarrow> kstate \<Rightarrow> (u32 \<times> kstate) outcome" where
  "KeReadStateSemaphore Semaphore s =
     obind (acquire_lock Semaphore s) (\<lambda>(irql, s).
     let value = SignalState s Semaphore in
     obind (release_lock Semaphore irql s) (\<lambda>s. Done (value, s)))"

text \<open>A KQUEUE has its EntryListHead at offset 32 and its ThreadsHead at offset 56.\<close>

definition EntryListHead :: "ptr \<Rightarrow> ptr" where "EntryListHead q = q + 32"

definition KeInitializeQueue :: "ptr \<Rightarrow> kstate \<Rightarrow> kstate" where
  "KeInitializeQueue Queue s =
     (let s = InitializeDispatcherHeader Queue QueueObject s
      in s\<lparr>CurrentWaitingThreads := (CurrentWaitingThreads s)(Queue := 0),
           sheap := InitializeListHead (Queue + 56) (InitializeListHead (EntryListHead Queue) (sheap s))\<rparr>)"

definition KiInsertQueue :: "ptr \<Rightarrow> ptr \<Rightarrow> bool \<Rightarrow> kstate \<Rightarrow> (u32 \<times> kstate) outcome" where
  "KiInsertQueue Queue Entry Head s =
     obind (acquire_lock Queue s) (\<lambda>(irql, s).
     let initialState = SignalState s Queue;
         s = s\<lparr>sheap := (if Head then InsertHeadList (EntryListHead Queue) Entry (sheap s)
                         else InsertTailList (EntryListHead Queue) Entry (sheap s))\<rparr>
     in obind (signal_and_unlock Queue 1 False irql s) (\<lambda>s. Done (initialState, s)))"

definition KeInsertHeadQueue :: "ptr \<Rightarrow> ptr \<Rightarrow> kstate \<Rightarrow> (u32 \<times> kstate) outcome" where
  "KeInsertHeadQueue Queue Entry = KiInsertQueue Queue Entry True"

definition KeInsertQueue :: "ptr \<Rightarrow> ptr \<Rightarrow> kstate \<Rightarrow> (u32 \<times> kstate) outcome" where
  "KeInsertQueue Queue Entry = KiInsertQueue Queue Entry False"

text \<open>What KeRemoveQueue does with the status of its wait.\<close>

definition queue_after_wait :: "ptr \<Rightarrow> NTSTATUS \<Rightarrow> kstate \<Rightarrow> ptr \<times> kstate" where
  "queue_after_wait Queue status s =
     (if status = STATUS_SUCCESS
      then (let (e, h) = RemoveHeadList (EntryListHead Queue) (sheap s) in (e, s\<lparr>sheap := h\<rparr>))
      else (ucast status, s))"

definition KeRemoveQueue :: "ptr \<Rightarrow> u8 \<Rightarrow> u64 option \<Rightarrow> kstate \<Rightarrow> ((ptr \<times> kstate) + kstate) outcome" where
  "KeRemoveQueue Queue mode pTimeout s =
     obind (KeWaitForSingleObject Queue mode False pTimeout s) (\<lambda>(r, s).
       case r of Returns status \<Rightarrow> Done (Inl (queue_after_wait Queue status s)) | Blocks \<Rightarrow> Done (Inr s))"

section \<open>The clock\<close>

text \<open>The clock state of NNXOSKRN/time.c; rtc is the time HalRtcGetTime reads.\<close>

record clock =
  KeClockTicks :: u64
  KeLastRtcSyncTime :: u64
  KeCurrentRtc :: u64
  KiClockTickInterval :: u64
  KeMaximumIncrement :: u64

definition KeQuerySystemTime :: "u64 \<Rightarrow> nat \<Rightarrow> clock \<Rightarrow> u64 \<times> clock" where
  "KeQuerySystemTime rtc processor k =
     (let tickTime = KeClockTicks k;
          ticksPerSecond = 10000000 div KiClockTickInterval k;
          k = (if processor = 0 \<and> tickTime - KeLastRtcSyncTime k > 3 * ticksPerSecond
               then k\<lparr>KeCurrentRtc := rtc, KeLastRtcSyncTime := tickTime\<rparr> else k)
      in (KeCurrentRtc k + (tickTime - KeLastRtcSyncTime k) * KiClockTickInterval k, k))"

definition thread_of_timeout :: "ptr \<Rightarrow> ptr" where "thread_of_timeout e = e - 304"

definition PspOnThreadTimeout :: "ptr \<Rightarrow> kstate \<Rightarrow> kstate outcome" where
  "PspOnThreadTimeout e s =
     (let t = thread_of_timeout e in
      obind (acquire_at_dpc (ThreadLock t) s) (\<lambda>s.
      obind (KeUnwaitThreadNoLock t (ucast STATUS_TIMEOUT) s) (\<lambda>s.
        release_from_dpc (ThreadLock t) s)))"

definition KiExpireTimeout :: "ptr \<Rightarrow> kstate \<Rightarrow> kstate outcome" where
  "KiExpireTimeout e s = PspOnThreadTimeout e (s\<lparr>sheap := RemoveEntry e (sheap s)\<rparr>)"

partial_function (option) absolute_loop :: "u64 \<Rightarrow> ptr \<Rightarrow> kstate \<Rightarrow> kstate outcome option" where
  "absolute_loop Time Current s =
     (if Current = AbsoluteTimeoutListHead s then Some (Done s)
      else let Next = flink (sheap s) Current in
        next_step (if Timeout s (thread_of_timeout Current) > Time then KiExpireTimeout Current s else Done s)
          (\<lambda>s. absolute_loop Time Next s))"

partial_function (option) relative_loop :: "u64 \<Rightarrow> nat \<Rightarrow> ptr \<Rightarrow> kstate \<Rightarrow> kstate outcome option" where
  "relative_loop inc processor Current s =
     (if Current = RelativeTimeoutListHead s then Some (Done s)
      else
        let Next = flink (sheap s) Current;
            t = thread_of_timeout Current;
            s = (if processor = 0 then s\<lparr>Timeout := (Timeout s)(t := Timeout s t - inc)\<rparr> else s)
        in next_step (if Timeout s t <s 0 then KiExpireTimeout Current s else Done s)
             (\<lambda>s. relative_loop inc processor Next s))"

definition KiClockTick :: "u64 \<Rightarrow> nat \<Rightarrow> clock \<times> kstate \<Rightarrow> (clock \<times> kstate) outcome" where
  "KiClockTick rtc processor ks =
     (let (k, s) = ks;
          k = (if processor = 0 then k\<lparr>KeClockTicks := KeClockTicks k + 1\<rparr> else k);
          (Time, k) = KeQuerySystemTime rtc processor k
      in obind (run_loop (absolute_loop Time (flink (sheap s) (AbsoluteTimeoutListHead s)) s)) (\<lambda>s.
         obind (run_loop (relative_loop (KeMaximumIncrement k) processor (flink (sheap s) (RelativeTimeoutListHead s)) s)) (\<lambda>s.
           Done (k, s))))"

section \<open>Waking the only waiter of a block\<close>

text \<open>Taking an entry off a list a second time changes nothing while its neighbours stay.\<close>

lemma RemoveEntry_again:
  assumes "is_list h q (x # xs)"
  shows "RemoveEntry x (snd (RemoveHeadList q h)) = snd (RemoveHeadList q h)"
proof -
  have d: "distinct (q # x # xs)" and f: "flink h q = x" "blink h x = q"
    using assms by (auto simp: is_list_def)
  have n: "flink h x \<in> set (q # xs)"
  proof -
    have "links h x xs q" using assms by (simp add: is_list_def)
    then show ?thesis by (cases xs) auto
  qed
  have e: "flink h x \<noteq> x" using n d by auto
  let ?h = "snd (RemoveHeadList q h)"
  have h: "?h = set_blink (flink h x) q (set_flink q (flink h x) h)"
    using f by (simp add: RemoveHeadList_def Let_def)
  show ?thesis
    unfolding RemoveEntry_def RemoveEntryList_def h Let_def
    using d f e by (simp add: set_flink_def set_blink_def fun_upd_def fun_eq_iff)
qed

text \<open>Thread t waits on obj only, through block b, and without a timeout.\<close>

definition waits_single :: "kstate \<Rightarrow> ptr \<Rightarrow> ptr \<Rightarrow> bool" where
  "waits_single s obj b = (let t = WbThread s b in
     WbObject s b = obj \<and> obj \<noteq> NULL \<and> t \<noteq> NULL \<and> t \<noteq> CurrentThread s \<and>
     ThreadState s t = THREAD_STATE_WAITING \<and> NumberOfActiveWaitBlocks s t = 1 \<and>
     NumberOfCurrentWaitBlocks s t = 1 \<and> CurrentWaitBlocks s t = b \<and> Timeout s t = 0 \<and>
     thread_priority s t < 32)"

text \<open>The effect of waking it, once b is off the wait list.\<close>

definition woken :: "ptr \<Rightarrow> ptr \<Rightarrow> kstate \<Rightarrow> kstate" where
  "woken obj b s =
     (let t = WbThread s b;
          p = unat (thread_priority s t);
          s = s\<lparr>SignalState := (SignalState s)(obj := SignalState s obj - 1)\<rparr>;
          s = unwait_effect (ObjectType s obj) b s
      in s\<lparr>sheap := InsertTailList (queue_head (SharedQueues s) p) (ReadyQueueEntry t) (sheap s),
           SharedSummary := set_bit p (SharedSummary s),
           WbObject := (WbObject s)(b := NULL), WbThread := (WbThread s)(b := NULL),
           WbWaitMode := (WbWaitMode s)(b := 0), WbWaitType := (WbWaitType s)(b := 0),
           ThreadState := (ThreadState s)(t := THREAD_STATE_READY),
           CurrentWaitBlocks := (CurrentWaitBlocks s)(t := NULL),
           NumberOfCurrentWaitBlocks := (NumberOfCurrentWaitBlocks s)(t := 0),
           NumberOfActiveWaitBlocks := (NumberOfActiveWaitBlocks s)(t := 0),
           WaitStatus := (WaitStatus s)(t := 0),
           Timeout := (Timeout s)(t := 0), TimeoutIsAbsolute := (TimeoutIsAbsolute s)(t := True),
           NotifyIpis := Suc (NotifyIpis s)\<rparr>)"

lemma unwait_effect_cases:
  "unwait_effect ty b s = s\<lparr>CurrentWaitingThreads := CurrentWaitingThreads (unwait_effect ty b s),
     MutexOwner := MutexOwner (unwait_effect ty b s)\<rparr>"
  by (simp add: unwait_effect_def Let_def)

lemma wait_block_0 [simp]: "wait_block b 0 = b"
  by (simp add: wait_block_def)

lemma acquire_free:
  "Locks s a = 0 \<Longrightarrow> DISPATCH_LEVEL \<le> irql (kcpu s) \<Longrightarrow> acquire_at_dpc a s = Done (s\<lparr>Locks := (Locks s)(a := 1)\<rparr>)"
  by (simp add: acquire_at_dpc_def KeAcquireSpinLockAtDpcLevel_def KeGetCurrentIrql_def
      KiAcquireSpinLock_def set_bit_eq_or)

lemma release_dpc:
  "DISPATCH_LEVEL \<le> irql (kcpu s) \<Longrightarrow>
   release_from_dpc a s = Done (s\<lparr>Locks := (Locks s)(a := KiReleaseSpinLock (Locks s a))\<rparr>)"
  by (simp add: release_from_dpc_def KeReleaseSpinLockFromDpcLevel_def KeGetCurrentIrql_def)

lemma release_1 [simp]: "KiReleaseSpinLock 1 = 0"
  by (simp add: KiReleaseSpinLock_def)

lemma unwait_single:
  assumes w: "waits_single s obj b" and ty: "ObjectType s obj < 32"
    and r: "RemoveEntry b (sheap s) = sheap s"
  shows "KiUnwaitWaitBlock b True 0 s = Done (woken obj b s)"
proof -
  let ?s = "s\<lparr>SignalState := (SignalState s)(obj := SignalState s obj - 1)\<rparr>"
  obtain cw mo where u: "unwait_effect (ObjectType s obj) b ?s = ?s\<lparr>CurrentWaitingThreads := cw, MutexOwner := mo\<rparr>"
    using unwait_effect_cases by blast
  have ot: "ObjectType ?s obj = ObjectType s obj" by (simp add: ObjectType_def)
  have two: "(2 :: nat) = Suc (Suc 0)" by simp
  have up: "[0..<Suc 0] = [0]" by simp
  have pr: "unat (thread_priority s (WbThread s b)) < 32"
    using w by (simp add: waits_single_def Let_def word_less_nat_alt)
  have nt: "\<not> 32 \<le> ObjectType s obj" using ty by simp
  show ?thesis
    using w nt pr
    unfolding KiUnwaitWaitBlock_def two KiUnwaitWaitBlock_at.simps woken_def Let_def ot u
    by (simp add: waits_single_def Let_def on_thread_unwait_def u ot r
        KeUnwaitThreadNoLock_with_def PspInsertIntoSharedQueue_def thread_priority_def
        KiHandleObjectWaitTimeout_def RundownWaitBlocks_with_def)
qed

section \<open>Signalling an object with waiters\<close>

text \<open>The wait list of obj and all ready queues, as one family of lists.\<close>

definition wait_keys :: "rq option set" where "wait_keys = insert None (Some ` rqs)"

definition wait_heads :: "'a sched_scheme \<Rightarrow> ptr \<Rightarrow> rq option \<Rightarrow> ptr" where
  "wait_heads s obj = case_option (WaitHead obj) (rq_head s)"

definition wait_lists :: "(rq \<Rightarrow> ptr list) \<Rightarrow> ptr list \<Rightarrow> rq option \<Rightarrow> ptr list" where
  "wait_lists R bs = case_option bs (rq_entries R)"

lemma wait_lists_simps [simp]:
  "wait_lists R bs None = bs" "wait_lists R bs (Some k) = rq_entries R k"
  "wait_heads s obj None = WaitHead obj" "wait_heads s obj (Some k) = rq_head s k"
  by (simp_all add: wait_lists_def wait_heads_def)

lemma wait_lists_upd:
  "(wait_lists R bs)(None := cs) = wait_lists R cs"
  "(wait_lists R bs)(Some k := map ReadyQueueEntry ts) = wait_lists (R(k := ts)) bs"
  by (auto simp: fun_eq_iff wait_lists_def rq_entries_def split: option.splits)

lemma in_wait_keys [simp]: "None \<in> wait_keys" "Some (w, p) \<in> wait_keys \<longleftrightarrow> p < 32"
  by (auto simp: wait_keys_def rqs_def)

definition wait_queue :: "kstate \<Rightarrow> (rq \<Rightarrow> ptr list) \<Rightarrow> ptr \<Rightarrow> ptr list \<Rightarrow> bool" where
  "wait_queue s R obj bs =
     (family is_list (sheap s) wait_keys (wait_heads s obj) (wait_lists R bs) \<and>
      (\<forall>w. \<forall>p<32. bit (rq_summary s w) p \<longleftrightarrow> R (w, p) \<noteq> []) \<and>
      (\<forall>b\<in>set bs. waits_single s obj b \<and> unqueued s R (WbThread s b) \<and>
         ReadyQueueEntry (WbThread s b) \<notin> set (WaitHead obj # bs) \<and>
         Locks s (ThreadLock (WbThread s b)) = 0 \<and> ThreadLock (WbThread s b) \<noteq> obj) \<and>
      distinct (map (WbThread s) bs) \<and>
      ObjectType s obj < 32 \<and> DISPATCH_LEVEL \<le> irql (kcpu s))"

lemma wait_queue_sched_ok: "wait_queue s R obj bs \<Longrightarrow> sched_ok s R"
  unfolding wait_queue_def sched_ok_def
proof (elim conjE, intro conjI)
  assume f: "family is_list (sheap s) wait_keys (wait_heads s obj) (wait_lists R bs)"
  show "family is_list (sheap s) rqs (rq_head s) (rq_entries R)"
    unfolding family_def
  proof (intro conjI ballI impI)
    fix k assume k: "k \<in> rqs"
    then have K: "Some k \<in> wait_keys" by (simp add: wait_keys_def)
    show "is_list (sheap s) (rq_head s k) (rq_entries R k)" using familyD [OF f K] by simp
    fix l assume "l \<in> rqs" "k \<noteq> l"
    then show "apart (rq_head s k) (rq_entries R k) (rq_head s l) (rq_entries R l)"
      using family_apart [OF f K, of "Some l"] by (simp add: wait_keys_def)
  qed
qed

lemma wait_queue_list: "wait_queue s R obj bs \<Longrightarrow> is_list (sheap s) (WaitHead obj) bs"
  using familyD [of is_list "sheap s" wait_keys "wait_heads s obj" "wait_lists R bs" None]
  by (simp add: wait_queue_def)

abbreviation prio_nat :: "kstate \<Rightarrow> ptr \<Rightarrow> nat" where
  "prio_nat s t \<equiv> unat (thread_priority s t)"

definition made_ready :: "kstate \<Rightarrow> ptr \<Rightarrow> (rq \<Rightarrow> ptr list) \<Rightarrow> (rq \<Rightarrow> ptr list)" where
  "made_ready s t R = R((None, prio_nat s t) := R (None, prio_nat s t) @ [t])"

definition popped :: "ptr \<Rightarrow> kstate \<Rightarrow> kstate" where
  "popped obj s = s\<lparr>sheap := snd (RemoveHeadList (WaitHead obj) (sheap s))\<rparr>"

lemma popped_simps [simp]:
  "sheap (popped obj s) = snd (RemoveHeadList (WaitHead obj) (sheap s))"
  "SharedQueues (popped obj s) = SharedQueues s" "SharedSummary (popped obj s) = SharedSummary s"
  "CoreSummary (popped obj s) = CoreSummary s" "rq_head (popped obj s) = rq_head s"
  "thread_priority (popped obj s) = thread_priority s" "Locks (popped obj s) = Locks s"
  "kcpu (popped obj s) = kcpu s" "CurrentThread (popped obj s) = CurrentThread s"
  "SignalState (popped obj s) = SignalState s" "WbObject (popped obj s) = WbObject s"
  "WbThread (popped obj s) = WbThread s" "ThreadState (popped obj s) = ThreadState s"
  "NumberOfActiveWaitBlocks (popped obj s) = NumberOfActiveWaitBlocks s"
  "NumberOfCurrentWaitBlocks (popped obj s) = NumberOfCurrentWaitBlocks s"
  "CurrentWaitBlocks (popped obj s) = CurrentWaitBlocks s" "Timeout (popped obj s) = Timeout s"
  "WaitStatus (popped obj s) = WaitStatus s" "NotifyIpis (popped obj s) = NotifyIpis s"
  by (auto simp: popped_def thread_priority_def fun_eq_iff intro!: rq_head_cong [THEN fun_cong])

lemma woken_simps:
  assumes "t = WbThread s b"
  shows "sheap (woken obj b s) = InsertTailList (queue_head (SharedQueues s) (prio_nat s t)) (ReadyQueueEntry t) (sheap s)"
    "SharedSummary (woken obj b s) = set_bit (prio_nat s t) (SharedSummary s)"
    "CoreSummary (woken obj b s) = CoreSummary s"
    "rq_head (woken obj b s) = rq_head s" "thread_priority (woken obj b s) = thread_priority s"
    "Locks (woken obj b s) = Locks s" "kcpu (woken obj b s) = kcpu s"
    "CurrentThread (woken obj b s) = CurrentThread s"
    "SignalState (woken obj b s) = (SignalState s)(obj := SignalState s obj - 1)"
    "WbObject (woken obj b s) = (WbObject s)(b := NULL)" "WbThread (woken obj b s) = (WbThread s)(b := NULL)"
    "ThreadState (woken obj b s) = (ThreadState s)(t := THREAD_STATE_READY)"
    "NumberOfActiveWaitBlocks (woken obj b s) = (NumberOfActiveWaitBlocks s)(t := 0)"
    "NumberOfCurrentWaitBlocks (woken obj b s) = (NumberOfCurrentWaitBlocks s)(t := 0)"
    "CurrentWaitBlocks (woken obj b s) = (CurrentWaitBlocks s)(t := NULL)"
    "Timeout (woken obj b s) = (Timeout s)(t := 0)" "WaitStatus (woken obj b s) = (WaitStatus s)(t := 0)"
    "NotifyIpis (woken obj b s) = Suc (NotifyIpis s)"
  using assms
  by (auto simp: woken_def Let_def unwait_effect_def thread_priority_def fun_eq_iff intro!: rq_head_cong [THEN fun_cong])

lemma step_frees_head:
  assumes q: "wait_queue s R obj (b # bs)"
  shows "wait_queue (woken obj b (popped obj s)) (made_ready s (WbThread s b) R) obj bs"
proof -
  let ?t = "WbThread s b" let ?p = "prio_nat s ?t"
  let ?w = "woken obj b (popped obj s)"
  obtain e h where r: "RemoveHeadList (WaitHead obj) (sheap s) = (e, h)" by fastforce
  have po: "sheap (popped obj s) = h" by (simp add: r)
  have f: "family is_list (sheap s) wait_keys (wait_heads s obj) (wait_lists R (b # bs))"
    using q by (simp add: wait_queue_def)
  have wb: "waits_single s obj b" "unqueued s R ?t" "ReadyQueueEntry ?t \<notin> set (WaitHead obj # b # bs)"
    using q by (auto simp: wait_queue_def)
  have pb: "?p < 32" using wb(1) by (simp add: waits_single_def Let_def word_less_nat_alt)
  have f1: "family is_list h wait_keys (wait_heads s obj) (wait_lists R bs)"
    using nl.family_rem_head [OF f, of None b bs e h] r by (simp add: wait_lists_upd)
  have "ReadyQueueEntry ?t \<notin> set (wait_heads s obj l # wait_lists R bs l)" if "l \<in> wait_keys" for l
    using wb(2,3) that by (cases l) (auto simp: unqueued_def wait_keys_def rq_entries_def)
  from nl.family_ins_tail [OF f1, of "Some (None, ?p)", OF _ this]
  have f2: "family is_list (sheap ?w) wait_keys (wait_heads ?w obj) (wait_lists (made_ready s ?t R) bs)"
    using pb wait_lists_upd(2) [of R bs "(None, ?p)" "R (None, ?p) @ [?t]"]
    by (simp add: woken_simps [OF refl] po r made_ready_def wait_heads_def rq_entries_def [of R "(None, ?p)"])
  have bits: "bit (rq_summary ?w w) p \<longleftrightarrow> made_ready s ?t R (w, p) \<noteq> []" if "p < 32" for w p
    using sched_ok_bit [OF wait_queue_sched_ok [OF q] that, of w] that
    by (cases w) (auto simp: woken_simps [OF refl] po made_ready_def bit_set_bit_iff)
  have ds: "distinct (b # bs)" using nl.repr_distinct [OF wait_queue_list [OF q]] by simp
  have other: "c \<noteq> b" "WbThread s c \<noteq> ?t" if "c \<in> set bs" for c
  proof -
    have "WbThread s b \<notin> set (map (WbThread s) bs)" using q by (simp add: wait_queue_def)
    then show "WbThread s c \<noteq> ?t" using that by (metis image_eqI set_map)
    show "c \<noteq> b" using that ds by auto
  qed
  have rest: "waits_single ?w obj c \<and> unqueued ?w (made_ready s ?t R) (WbThread ?w c) \<and>
      ReadyQueueEntry (WbThread ?w c) \<notin> set (WaitHead obj # bs) \<and>
      Locks ?w (ThreadLock (WbThread ?w c)) = 0 \<and> ThreadLock (WbThread ?w c) \<noteq> obj" if c: "c \<in> set bs" for c
  proof -
    have qc: "waits_single s obj c" "unqueued s R (WbThread s c)"
      "ReadyQueueEntry (WbThread s c) \<notin> set (WaitHead obj # b # bs)"
      "Locks s (ThreadLock (WbThread s c)) = 0" "ThreadLock (WbThread s c) \<noteq> obj"
      using q c by (auto simp: wait_queue_def)
    show ?thesis using qc other [OF c] wb(2)
      by (auto simp: waits_single_def Let_def woken_simps [OF refl] po unqueued_def made_ready_def)
  qed
  have mp: "map (WbThread ?w) bs = map (WbThread s) bs"
    using other by (auto simp: woken_simps [OF refl] po)
  have "distinct (map (WbThread ?w) bs)" unfolding mp using q by (simp add: wait_queue_def)
  moreover have "ObjectType ?w obj = ObjectType s obj"
    by (simp add: ObjectType_def woken_simps [OF refl])
  moreover have "kcpu ?w = kcpu s" by (simp add: woken_simps [OF refl])
  ultimately show ?thesis
    using f2 bits rest q unfolding wait_queue_def by simp
qed

lemma woken_lock:
  "ThreadLock t \<noteq> obj \<Longrightarrow>
   woken obj b (s\<lparr>Locks := (Locks s)(ThreadLock t := l)\<rparr>) = (woken obj b s)\<lparr>Locks := (Locks s)(ThreadLock t := l)\<rparr>"
  by (simp add: woken_def Let_def unwait_effect_def ObjectType_def thread_priority_def)

lemma signal_step:
  assumes q: "wait_queue s R obj (b # bs)" and sg: "SignalState s obj \<noteq> 0"
  shows "signal_loop obj s = signal_loop obj (woken obj b (popped obj s))"
proof -
  let ?t = "WbThread s b"
  have l: "is_list (sheap s) (WaitHead obj) (b # bs)" by (rule wait_queue_list [OF q])
  have ne: "\<not> IsListEmpty (WaitHead obj) (sheap s)" using nl.is_empty [OF l] by simp
  obtain h where r: "RemoveHeadList (WaitHead obj) (sheap s) = (b, h)"
    using nl.rem_head [OF l] by (metis prod.collapse)
  have pe: "s\<lparr>sheap := h\<rparr> = popped obj s" by (simp add: popped_def r)
  have w: "waits_single s obj b" and ty: "ObjectType s obj < 32" and lv: "DISPATCH_LEVEL \<le> irql (kcpu s)"
    and lk: "Locks s (ThreadLock ?t) = 0" "ThreadLock ?t \<noteq> obj"
    using q by (auto simp: wait_queue_def)
  let ?s = "popped obj s" let ?l = "?s\<lparr>Locks := (Locks s)(ThreadLock ?t := 1)\<rparr>"
  have pp: "Locks ?s = Locks s" "kcpu ?s = kcpu s" "WbThread ?s = WbThread s"
    by (simp_all add: popped_def)
  have a: "acquire_at_dpc (ThreadLock ?t) ?s = Done ?l"
    using acquire_free [of ?s "ThreadLock ?t"] lk lv pp by simp
  have u: "KiUnwaitWaitBlock b True 0 ?l = Done (woken obj b ?l)"
  proof (rule unwait_single)
    show "waits_single ?l obj b" using w by (simp add: waits_single_def Let_def popped_def thread_priority_def)
    show "ObjectType ?l obj < 32" using ty lk(2) pp by (simp add: ObjectType_def)
    show "RemoveEntry b (sheap ?l) = sheap ?l"
      using RemoveEntry_again [OF l] by (simp add: popped_def)
  qed
  have wl: "woken obj b ?l = (woken obj b ?s)\<lparr>Locks := (Locks s)(ThreadLock ?t := 1)\<rparr>"
    using woken_lock [OF lk(2), of b ?s 1] pp by simp
  have "Locks (woken obj b ?s) = Locks s" by (simp add: woken_simps [OF refl] pp)
  moreover have "x\<lparr>Locks := Locks x\<rparr> = x" for x :: kstate by simp
  ultimately have "(woken obj b ?s)\<lparr>Locks := Locks s\<rparr> = woken obj b ?s" by metis
  then have "release_from_dpc (ThreadLock ?t) (woken obj b ?l) = Done (woken obj b ?s)"
    using release_dpc [of "woken obj b ?l" "ThreadLock ?t"] lv lk(1)
    by (simp add: wl woken_simps [OF refl] pp fun_upd_idem)
  then have "obind (acquire_at_dpc (ThreadLock ?t) ?s) (\<lambda>s. obind (KiUnwaitWaitBlock b True 0 s) (\<lambda>s.
      release_from_dpc (ThreadLock ?t) s)) = Done (woken obj b ?s)"
    by (simp add: a u)
  then show ?thesis
    using sg ne r by (subst signal_loop.simps)
      (simp add: Let_def r pe word_gt_0)
qed

text \<open>What a signal leaves: the waiters ws woken, the rest of the wait list, and who is
  untouched.\<close>

definition signalled :: "kstate \<Rightarrow> (rq \<Rightarrow> ptr list) \<Rightarrow> ptr \<Rightarrow> ptr list \<Rightarrow> ptr list \<Rightarrow> kstate \<Rightarrow> bool" where
  "signalled s R obj ws rest s' =
     (wait_queue s' (fold (made_ready s) (map (WbThread s) ws) R) obj rest \<and>
      SignalState s' obj = SignalState s obj - word_of_nat (length ws) \<and>
      (\<forall>b\<in>set ws. ThreadState s' (WbThread s b) = THREAD_STATE_READY \<and> WaitStatus s' (WbThread s b) = 0 \<and>
         NumberOfActiveWaitBlocks s' (WbThread s b) = 0 \<and> WbObject s' b = NULL) \<and>
      (\<forall>t. t \<notin> WbThread s ` set ws \<longrightarrow> ThreadState s' t = ThreadState s t \<and> WaitStatus s' t = WaitStatus s t \<and>
         NumberOfActiveWaitBlocks s' t = NumberOfActiveWaitBlocks s t) \<and>
      (\<forall>b. b \<notin> set ws \<longrightarrow> WbObject s' b = WbObject s b \<and> WbThread s' b = WbThread s b) \<and>
      NotifyIpis s' = NotifyIpis s + length ws)"

lemma signalled_none: "wait_queue s R obj bs \<Longrightarrow> signalled s R obj [] bs s"
  by (simp add: signalled_def)

lemma signalled_step:
  assumes q: "wait_queue s R obj (b # bs)" and sub: "set ws \<subseteq> set bs"
    and g: "signalled (woken obj b (popped obj s)) (made_ready s (WbThread s b) R) obj ws rest s'"
  shows "signalled s R obj (b # ws) rest s'"
proof -
  let ?w = "woken obj b (popped obj s)"
  have ds: "b \<notin> set bs" using nl.repr_distinct [OF wait_queue_list [OF q]] by simp
  have dt: "WbThread s b \<notin> WbThread s ` set bs" using q by (simp add: wait_queue_def)
  have th: "WbThread ?w c = WbThread s c" if "c \<in> set ws" for c
    using that sub ds by (auto simp: woken_simps [OF refl])
  have m: "map (WbThread ?w) ws = map (WbThread s) ws" "WbThread ?w ` set ws = WbThread s ` set ws"
    using th by auto
  have r: "made_ready ?w = made_ready s" by (simp add: made_ready_def fun_eq_iff woken_simps [OF refl])
  have nb: "b \<notin> set ws" "WbThread s b \<notin> WbThread s ` set ws" using ds dt sub by auto
  have 1: "wait_queue s' (fold (made_ready s) (map (WbThread s) (b # ws)) R) obj rest"
    using g by (simp add: signalled_def r m)
  have 2: "SignalState s' obj = SignalState s obj - word_of_nat (length (b # ws))"
    using g by (simp add: signalled_def woken_simps [OF refl])
  have 3: "ThreadState s' (WbThread s c) = THREAD_STATE_READY \<and> WaitStatus s' (WbThread s c) = 0 \<and>
      NumberOfActiveWaitBlocks s' (WbThread s c) = 0 \<and> WbObject s' c = NULL" if "c \<in> set (b # ws)" for c
  proof (cases "c = b")
    case True
    have "ThreadState s' (WbThread s b) = ThreadState ?w (WbThread s b) \<and>
      WaitStatus s' (WbThread s b) = WaitStatus ?w (WbThread s b) \<and>
      NumberOfActiveWaitBlocks s' (WbThread s b) = NumberOfActiveWaitBlocks ?w (WbThread s b)"
      using g nb(2) unfolding signalled_def m by blast
    moreover have "WbObject s' b = WbObject ?w b" using g nb(1) unfolding signalled_def by blast
    ultimately show ?thesis using True by (simp add: woken_simps [OF refl])
  next
    case False
    then have "c \<in> set ws" using that by simp
    have "\<forall>b\<in>set ws. ThreadState s' (WbThread ?w b) = THREAD_STATE_READY \<and> WaitStatus s' (WbThread ?w b) = 0 \<and>
         NumberOfActiveWaitBlocks s' (WbThread ?w b) = 0 \<and> WbObject s' b = NULL"
      using g unfolding signalled_def by blast
    from bspec [OF this \<open>c \<in> set ws\<close>] show ?thesis unfolding th [OF \<open>c \<in> set ws\<close>] .
  qed
  have 4: "ThreadState s' t = ThreadState s t \<and> WaitStatus s' t = WaitStatus s t \<and>
      NumberOfActiveWaitBlocks s' t = NumberOfActiveWaitBlocks s t" if "t \<notin> WbThread s ` set (b # ws)" for t
  proof -
    have "ThreadState s' t = ThreadState ?w t \<and> WaitStatus s' t = WaitStatus ?w t \<and>
      NumberOfActiveWaitBlocks s' t = NumberOfActiveWaitBlocks ?w t"
      using g that unfolding signalled_def m by auto
    then show ?thesis using that by (auto simp: woken_simps [OF refl])
  qed
  have 5: "WbObject s' c = WbObject s c \<and> WbThread s' c = WbThread s c" if "c \<notin> set (b # ws)" for c
    using g that by (simp add: signalled_def woken_simps [OF refl])
  have 6: "NotifyIpis s' = NotifyIpis s + length (b # ws)"
    using g by (simp add: signalled_def woken_simps [OF refl])
  show ?thesis unfolding signalled_def using 1 2 3 4 5 6 by blast
qed

lemma signal_loop_waiters:
  assumes "wait_queue s R obj bs"
  shows "\<exists>s'. signal_loop obj s = Some (Done s') \<and>
    signalled s R obj (take (unat (SignalState s obj)) bs) (drop (unat (SignalState s obj)) bs) s'"
  using assms
proof (induction bs arbitrary: s R)
  case Nil
  then have "IsListEmpty (WaitHead obj) (sheap s)"
    using nl.is_empty [OF wait_queue_list [OF Nil]] by simp
  then have "signal_loop obj s = Some (Done s)" by (subst signal_loop.simps) simp
  then show ?case using signalled_none [OF Nil] by simp
next
  case (Cons b bs)
  show ?case
  proof (cases "SignalState s obj = 0")
    case True
    then have "signal_loop obj s = Some (Done s)" by (subst signal_loop.simps) simp
    then show ?thesis using signalled_none [OF Cons.prems] True by simp
  next
    case False
    let ?w = "woken obj b (popped obj s)"
    obtain s' where s': "signal_loop obj ?w = Some (Done s')"
      "signalled ?w (made_ready s (WbThread s b) R) obj (take (unat (SignalState ?w obj)) bs)
         (drop (unat (SignalState ?w obj)) bs) s'"
      using Cons.IH [OF step_frees_head [OF Cons.prems]] by blast
    have u: "unat (SignalState s obj) = Suc (unat (SignalState ?w obj))"
      using False by (simp add: woken_simps [OF refl] unat_minus_one unat_gt_0)
    have "signalled s R obj (b # take (unat (SignalState ?w obj)) bs) (drop (unat (SignalState ?w obj)) bs) s'"
      by (rule signalled_step [OF Cons.prems _ s'(2)]) (rule set_take_subset)
    then show ?thesis using s'(1) signal_step [OF Cons.prems False] by (simp add: u)
  qed
qed

section \<open>Properties\<close>

text \<open>C6: a signal wakes waiters in the order they began to wait. When every waiter of the
  object waits on it alone, KiSignal wakes the first of them, as many as the new signal state
  allows: each becomes ready with wait status 0, no active wait block and its wait block cleared,
  and is appended to the shared queue of its priority; the signal state drops by their number,
  the others keep waiting, the ready queues stay consistent, and KiSignal returns.\<close>

theorem KiSignal_wakes_in_order:
  fixes inc :: u32
  assumes "wait_queue s R obj bs"
  defines "n \<equiv> unat (SignalState s obj + inc)"
  shows "\<exists>s'. KiSignal obj inc s = Done s' \<and> is_list (sheap s') (WaitHead obj) (drop n bs) \<and>
    sched_ok s' (fold (made_ready s) (map (WbThread s) (take n bs)) R) \<and>
    SignalState s' obj = SignalState s obj + inc - word_of_nat (length (take n bs)) \<and>
    (\<forall>b\<in>set (take n bs). ThreadState s' (WbThread s b) = THREAD_STATE_READY \<and> WaitStatus s' (WbThread s b) = 0 \<and>
       NumberOfActiveWaitBlocks s' (WbThread s b) = 0 \<and> WbObject s' b = NULL) \<and>
    (\<forall>b\<in>set (drop n bs). waits_single s' obj b)"
proof -
  let ?s = "s\<lparr>SignalState := (SignalState s)(obj := SignalState s obj + inc)\<rparr>"
  have hd: "rq_head ?s = rq_head s" by (rule rq_head_cong) simp_all
  have pr: "thread_priority ?s = thread_priority s" by (simp add: thread_priority_def fun_eq_iff)
  have sm: "rq_summary ?s w = rq_summary s w" for w by (cases w) simp_all
  have q: "wait_queue ?s R obj bs"
    using assms(1) unfolding wait_queue_def
    by (simp add: wait_heads_def hd sm unqueued_def waits_single_def Let_def pr ObjectType_def)
  have mr: "made_ready ?s = made_ready s" by (simp add: made_ready_def fun_eq_iff pr)
  obtain s' where s': "signal_loop obj ?s = Some (Done s')" "signalled ?s R obj (take n bs) (drop n bs) s'"
    using signal_loop_waiters [OF q] by (auto simp: n_def)
  have "KiSignal obj inc s = Done s'" using s'(1) by (simp add: KiSignal_def run_loop_def)
  moreover have "wait_queue s' (fold (made_ready s) (map (WbThread s) (take n bs)) R) obj (drop n bs)"
    using s'(2) by (simp add: signalled_def mr)
  moreover have "waits_single s' obj b" if "b \<in> set (drop n bs)" for b
    using calculation(2) that by (simp add: wait_queue_def)
  ultimately show ?thesis
    using s'(2) wait_queue_sched_ok wait_queue_list unfolding signalled_def by fastforce
qed

text \<open>A machine at IRQL l: every list head of idle_sched points at itself, thread 0x2000 runs,
  all locks are free.\<close>

definition quiet_kstate :: "u8 \<Rightarrow> kstate" where
  "quiet_kstate l = \<lparr>sheap = sheap idle_sched, SharedQueues = SharedQueues idle_sched, SharedSummary = 0,
     CoreQueues = CoreQueues idle_sched, CoreSummary = (\<lambda>_. 0), IdleThread = (\<lambda>_. 0x40),
     ThreadPriority = (\<lambda>t. 7), ThreadProcess = (\<lambda>_. 0x50), BasePriority = (\<lambda>_. 0),
     Affinity = (\<lambda>_. 0xFFFFFFFFFFFFFFFF),
     kcpu = \<lparr>irql = l, tpr = l\<rparr>, CurrentThread = 0x2000, DispatcherLock = 0, Locks = (\<lambda>_. 0),
     SignalState = (\<lambda>_. 0), MutexOwner = (\<lambda>_. 0), CurrentWaitingThreads = (\<lambda>_. 0),
     SemaphoreLimit = (\<lambda>_. 0), WbThread = (\<lambda>_. 0), WbObject = (\<lambda>_. 0), WbWaitType = (\<lambda>_. 0),
     WbWaitMode = (\<lambda>_. 0), ThreadState = (\<lambda>_. THREAD_STATE_RUNNING), CurrentWaitBlocks = (\<lambda>_. 0),
     NumberOfCurrentWaitBlocks = (\<lambda>_. 0), NumberOfActiveWaitBlocks = (\<lambda>_. 0), WaitStatus = (\<lambda>_. 0),
     Alertable = (\<lambda>_. False), WaitIrql = (\<lambda>_. 0), WaitIrqlRestore = (\<lambda>_. 0), Timeout = (\<lambda>_. 0),
     TimeoutIsAbsolute = (\<lambda>_. False), AbsoluteTimeoutListHead = 0x300, RelativeTimeoutListHead = 0x400,
     NotifyIpis = 0\<rparr>"

text \<open>Thread 0x1000 waits on the object 0x50000 with its own first wait block.\<close>

definition waiter_kstate :: kstate where
  "waiter_kstate = (quiet_kstate 13)\<lparr>
     sheap := InsertTailList (WaitHead 0x50000) 0x1068 (sheap idle_sched),
     WbThread := (\<lambda>_. 0)(0x1068 := 0x1000), WbObject := (\<lambda>_. 0)(0x1068 := 0x50000),
     ThreadState := (\<lambda>_. THREAD_STATE_RUNNING)(0x1000 := THREAD_STATE_WAITING),
     CurrentWaitBlocks := (\<lambda>_. 0)(0x1000 := 0x1068),
     NumberOfCurrentWaitBlocks := (\<lambda>_. 0)(0x1000 := 1), NumberOfActiveWaitBlocks := (\<lambda>_. 0)(0x1000 := 1)\<rparr>"

lemma idle_head_large: "p < 32 \<Longrightarrow> 0x100000 \<le> unat (rq_head idle_sched (w, p))"
  by (cases w) (simp_all add: unat_idle_head del: rq_head.simps)

lemma not_idle_head: "unat e < 0x100000 \<Longrightarrow> p < 32 \<Longrightarrow> e \<noteq> rq_head idle_sched (w, p)"
  using idle_head_large [of p w] by auto

lemma waiter_heads: "rq_head waiter_kstate = rq_head idle_sched"
  by (rule ext, rename_tac k, case_tac "(idle_sched, k)" rule: rq_head.cases)
    (simp_all add: waiter_kstate_def quiet_kstate_def)

lemma waiter_queue: "wait_queue waiter_kstate (\<lambda>_. []) 0x50000 [0x1068]"
proof -
  let ?h = "sheap idle_sched"
  have f0: "family is_list ?h wait_keys (wait_heads waiter_kstate 0x50000) (wait_lists (\<lambda>_. []) [])"
  proof -
    have "is_list ?h q []" for q by (simp add: is_list_def idle_sched_def)
    moreover have "wait_heads waiter_kstate 0x50000 k \<noteq> wait_heads waiter_kstate 0x50000 l"
      if "k \<in> wait_keys" "l \<in> wait_keys" "k \<noteq> l" for k l
      using that idle_heads_inj not_idle_head [of "WaitHead 0x50000"]
      by (cases k; cases l) (auto simp: wait_keys_def waiter_heads WaitHead_def rqs_def)
    moreover have "wait_lists (\<lambda>_. []) [] k = []" for k by (cases k) (simp_all add: rq_entries_def)
    ultimately show ?thesis by (simp add: family_def apart_def)
  qed
  have fr: "0x1068 \<notin> set (wait_heads waiter_kstate 0x50000 l # wait_lists (\<lambda>_. []) [] l)" if "l \<in> wait_keys" for l
    using that not_idle_head [of "0x1068"]
    by (cases l) (auto simp: wait_keys_def waiter_heads WaitHead_def rqs_def rq_entries_def)
  from nl.family_ins_tail [OF f0, of None, OF _ fr]
  have f: "family is_list (sheap waiter_kstate) wait_keys (wait_heads waiter_kstate 0x50000) (wait_lists (\<lambda>_. []) [0x1068])"
    by (simp add: waiter_kstate_def wait_lists_upd wait_heads_def)
  have b: "\<not> bit (rq_summary waiter_kstate w) p" for w p
    by (cases w) (simp_all add: waiter_kstate_def quiet_kstate_def)
  have r: "ReadyQueueEntry 0x1000 \<noteq> rq_head idle_sched (w, p)" if "p < 32" for w p
    by (rule not_idle_head [OF _ that]) (simp add: ReadyQueueEntry_def)
  have t: "WbThread waiter_kstate 0x1068 = 0x1000" by (simp add: waiter_kstate_def)
  have "unqueued waiter_kstate (\<lambda>_. []) 0x1000"
    using r by (auto simp: unqueued_def waiter_heads rqs_def)
  moreover have "waits_single waiter_kstate 0x50000 0x1068"
    by (simp add: waits_single_def Let_def waiter_kstate_def quiet_kstate_def thread_priority_def)
  moreover have "Locks waiter_kstate = (\<lambda>_. 0)" "kcpu waiter_kstate = \<lparr>irql = 13, tpr = 13\<rparr>"
    by (simp_all add: waiter_kstate_def quiet_kstate_def)
  ultimately show ?thesis
    using f b t by (simp add: wait_queue_def ObjectType_def ReadyQueueEntry_def WaitHead_def ThreadLock_def)
qed

theorem KiSignal_wakes_in_order_witness:
  "\<exists>s'. KiSignal 0x50000 1 waiter_kstate = Done s' \<and> is_list (sheap s') (WaitHead 0x50000) [] \<and>
     SignalState s' 0x50000 = 0 \<and> ThreadState s' 0x1000 = THREAD_STATE_READY"
proof -
  have "SignalState waiter_kstate 0x50000 = 0" "WbThread waiter_kstate 0x1068 = 0x1000"
    by (simp_all add: waiter_kstate_def quiet_kstate_def)
  then show ?thesis using KiSignal_wakes_in_order [OF waiter_queue, of 1] by auto
qed

text \<open>The type of an object does not survive its lock. The Type byte shares the lock word,
  and releasing a spin lock clears the low half of it: an object initialised with any type is a
  ProcessObject after the first release, so the unwait routine of a mutex or a queue no longer
  runs.\<close>

lemma object_type_lost:
  "ObjectType (InitializeDispatcherHeader obj ty s) obj = ty \<and>
   (release_from_dpc obj t = Done t' \<longrightarrow> ObjectType t' obj = ProcessObject \<and>
      on_thread_unwait (ObjectType t' obj) b t' = Done t')"
proof (intro conjI impI)
  show "ObjectType (InitializeDispatcherHeader obj ty s) obj = ty"
    by (simp add: ObjectType_def InitializeDispatcherHeader_def set_ObjectType_def KeInitializeSpinLock_def)
      (rule bit_word_eqI, simp add: bit_simps)
  assume "release_from_dpc obj t = Done t'"
  then have "Locks t' obj = KiReleaseSpinLock (Locks t obj)"
    by (auto simp: release_from_dpc_def obind_eq_Done KeReleaseSpinLockFromDpcLevel_def split: if_splits)
  then have z: "ObjectType t' obj = 0"
    by (simp add: ObjectType_def) (rule bit_word_eqI, simp add: bit_simps release_low_half)
  then show "ObjectType t' obj = ProcessObject" by simp
  show "on_thread_unwait (ObjectType t' obj) b t' = Done t'"
    unfolding z by (simp add: on_thread_unwait_def unwait_effect_def Let_def)
qed

lemma object_type_lost_example:
  "\<exists>t'. release_from_dpc 0x50000 (InitializeDispatcherHeader 0x50000 MutexObject (quiet_kstate 2)) = Done t' \<and>
    ObjectType t' 0x50000 = ProcessObject"
proof -
  let ?t = "InitializeDispatcherHeader 0x50000 MutexObject (quiet_kstate 2)"
  have "\<exists>t'. release_from_dpc 0x50000 ?t = Done t'"
    by (simp add: InitializeDispatcherHeader_def quiet_kstate_def release_dpc)
  then show ?thesis using object_type_lost [of "0x50000" 5 "quiet_kstate 2" ?t] by blast
qed

end
