(* ===== verification/Waits.thy ===== *)
theory Waits
  imports Dispatcher
begin

text \<open>
  What the waiting functions of the dispatcher do in particular situations: releasing a
  semaphore nobody waits for, waiting for any of several objects, polling with a zero timeout,
  and the expiry of absolute timeouts by the clock.
\<close>

section \<open>Semaphores\<close>

lemma dispatcher_lock_free:
  assumes "cpu_ok (kcpu s)" "irql (kcpu s) \<le> SYNCH_LEVEL" "DispatcherLock s = 0"
  shows "KiAcquireDispatcherLock s =
    Done (irql (kcpu s), s\<lparr>kcpu := KiApplyIrql (irql (kcpu s)) SYNCH_LEVEL (kcpu s), DispatcherLock := 1\<rparr>)"
  using assms
  by (simp add: KiAcquireDispatcherLock_def KfRaiseIrql_def Let_def not_less [symmetric]
      KeAcquireSpinLockAtDpcLevel_def KeGetCurrentIrql_def KiAcquireSpinLock_def set_bit_eq_or)

lemma dispatcher_lock_release:
  assumes "DISPATCH_LEVEL \<le> irql (kcpu s)" "l \<le> irql (kcpu s)" "DispatcherLock s = 1"
  shows "KiReleaseDispatcherLock l s =
    Done (s\<lparr>kcpu := KiApplyIrql (irql (kcpu s)) l (kcpu s), DispatcherLock := 0\<rparr>)"
  using assms
  by (auto simp: KiReleaseDispatcherLock_def KeReleaseSpinLockFromDpcLevel_def irql_defs not_less)

lemma apply_twice:
  "cpu_ok c \<Longrightarrow> KiApplyIrql m n (KiApplyIrql (irql c) m c) = KiApplyIrql (irql c) n c"
  by (auto simp: KiApplyIrql_def cpu_ok_def)

lemma apply_same [simp]: "KiApplyIrql n n c = c"
  by (simp add: KiApplyIrql_def)

lemma signal_no_waiters:
  "is_list (sheap s) (WaitHead obj) [] \<Longrightarrow>
   KiSignal obj n s = Done (s\<lparr>SignalState := (SignalState s)(obj := SignalState s obj + n)\<rparr>)"
  using nl.is_empty [of "sheap s" "WaitHead obj" "[]"]
  by (simp add: KiSignal_def run_loop_def) (subst signal_loop.simps, simp)

lemma signal_and_unlock_no_waiters:
  assumes "is_list (sheap s) (WaitHead obj) []" "cpu_ok c" "irql c \<le> DISPATCH_LEVEL" "DispatcherLock s = 0"
    and "kcpu s = KiApplyIrql (irql c) DISPATCH_LEVEL c"
  shows "signal_and_unlock obj n False (irql c) s =
    Done (s\<lparr>SignalState := (SignalState s)(obj := SignalState s obj + n), kcpu := c,
            Locks := (Locks s)(obj := KiReleaseSpinLock (Locks s obj))\<rparr>)"
proof -
  have ok: "cpu_ok (kcpu s)" "irql (kcpu s) = 2" using assms(2,5) by (simp_all add: cpu_ok_apply)
  let ?c13 = "KiApplyIrql 2 SYNCH_LEVEL (kcpu s)"
  have a: "KiAcquireDispatcherLock s = Done (2, s\<lparr>kcpu := ?c13, DispatcherLock := 1\<rparr>)"
    using dispatcher_lock_free [OF ok(1) _ assms(4)] ok(2) by simp
  have i: "irql ?c13 = 13" using irql_apply [of "kcpu s" 13] ok(2) by simp
  let ?t = "s\<lparr>kcpu := ?c13, DispatcherLock := 1, SignalState := (SignalState s)(obj := SignalState s obj + n)\<rparr>"
  have b: "KiSignal obj n (s\<lparr>kcpu := ?c13, DispatcherLock := 1\<rparr>) = Done ?t"
    using signal_no_waiters [of "s\<lparr>kcpu := ?c13, DispatcherLock := 1\<rparr>" obj n] assms(1) by simp
  have k: "KiApplyIrql 13 2 ?c13 = kcpu s"
    using apply_twice [OF ok(1), of 13 2] ok(2) by simp
  have d: "KiReleaseDispatcherLock 2 ?t = Done (?t\<lparr>kcpu := kcpu s, DispatcherLock := 0\<rparr>)"
    using dispatcher_lock_release [of ?t 2] i k by simp
  have e: "KeLowerIrql (irql c) (kcpu s) = Done c"
    using raise_then_lower [OF assms(2,3)] assms(5) by simp
  show ?thesis
    using a b d e ok(2) assms(4)
    by (simp add: signal_and_unlock_def release_lock_def KeReleaseSpinLock_def KfReleaseSpinLock_def
        KeGetCurrentIrql_def Let_def)
qed

lemma acquire_lock_free:
  assumes "cpu_ok (kcpu s)" "irql (kcpu s) \<le> DISPATCH_LEVEL" "\<not> bit (Locks s a) 0"
  shows "acquire_lock a s = Done (irql (kcpu s),
    s\<lparr>Locks := (Locks s)(a := set_bit 0 (Locks s a)), kcpu := KiApplyIrql (irql (kcpu s)) DISPATCH_LEVEL (kcpu s)\<rparr>)"
  using assms
  by (auto simp: acquire_lock_def KeAcquireSpinLock_def KfAcquireSpinLock_def irql_defs KiAcquireSpinLock_def
      not_less)

text \<open>Releasing a semaphore nobody waits for returns the old count and adds the adjustment to
  it (in 32 bits), whatever the limit; only the count and the low half of the lock word change.\<close>

lemma KeReleaseSemaphore_no_waiters:
  assumes "is_list (sheap s) (WaitHead sem) []" "cpu_ok (kcpu s)" "irql (kcpu s) \<le> DISPATCH_LEVEL"
    and "DispatcherLock s = 0" "\<not> bit (Locks s sem) 0"
  shows "\<exists>l. KeReleaseSemaphore sem adj False s = Done (SignalState s sem,
    s\<lparr>SignalState := (SignalState s)(sem := SignalState s sem + adj), Locks := (Locks s)(sem := l)\<rparr>)"
proof -
  let ?l = "set_bit 0 (Locks s sem)"
  let ?s = "s\<lparr>Locks := (Locks s)(sem := ?l), kcpu := KiApplyIrql (irql (kcpu s)) DISPATCH_LEVEL (kcpu s)\<rparr>"
  have "signal_and_unlock sem adj False (irql (kcpu s)) ?s =
    Done (?s\<lparr>SignalState := (SignalState s)(sem := SignalState s sem + adj), kcpu := kcpu s,
            Locks := (Locks s)(sem := KiReleaseSpinLock ?l)\<rparr>)"
    using signal_and_unlock_no_waiters [of ?s sem "kcpu s" adj] assms by simp
  then show ?thesis
    unfolding KeReleaseSemaphore_def acquire_lock_free [OF assms(2,3,5)]
    by (auto simp: Let_def)
qed

lemma KeReleaseSemaphore_no_waiters_example:
  "\<exists>l. KeReleaseSemaphore 0x50000 9 False (KeInitializeSemaphore 0x50000 2 5 (quiet_kstate 0)) =
    Done (2, (KeInitializeSemaphore 0x50000 2 5 (quiet_kstate 0))
      \<lparr>SignalState := (SignalState (KeInitializeSemaphore 0x50000 2 5 (quiet_kstate 0)))(0x50000 := 11),
       Locks := (Locks (KeInitializeSemaphore 0x50000 2 5 (quiet_kstate 0)))(0x50000 := l)\<rparr>)"
proof -
  let ?s = "KeInitializeSemaphore 0x50000 2 5 (quiet_kstate 0)"
  have "is_list (sheap ?s) (WaitHead 0x50000) []"
    by (simp add: KeInitializeSemaphore_def InitializeDispatcherHeader_def Let_def is_list_Init)
  moreover have "cpu_ok (kcpu ?s)" "irql (kcpu ?s) \<le> DISPATCH_LEVEL" "DispatcherLock ?s = 0"
    "\<not> bit (Locks ?s 0x50000) 0" "SignalState ?s 0x50000 = 2"
    by (simp_all add: KeInitializeSemaphore_def InitializeDispatcherHeader_def Let_def quiet_kstate_def
        cpu_ok_def set_ObjectType_def KeInitializeSpinLock_def bit_simps)
  ultimately show ?thesis using KeReleaseSemaphore_no_waiters [of ?s "0x50000" 9] by simp
qed

section \<open>Waiting for any of two objects\<close>

lemma wait_block_1: "wait_block b (Suc 0) = b + 40"
  by (simp add: wait_block_def)

lemma acquire_held: "Locks s a = 1 \<Longrightarrow> DISPATCH_LEVEL \<le> irql (kcpu s) \<Longrightarrow> acquire_at_dpc a s = Hang"
  by (simp add: acquire_at_dpc_def KeAcquireSpinLockAtDpcLevel_def KeGetCurrentIrql_def
      KiAcquireSpinLock_def)

lemma timeout_keeps [simp]:
  "NumberOfCurrentWaitBlocks (KiHandleObjectWaitTimeout t p s) = NumberOfCurrentWaitBlocks s"
  "NumberOfActiveWaitBlocks (KiHandleObjectWaitTimeout t p s) = NumberOfActiveWaitBlocks s"
  "CurrentWaitBlocks (KiHandleObjectWaitTimeout t p s) = CurrentWaitBlocks s"
  "WbObject (KiHandleObjectWaitTimeout t p s) = WbObject s"
  "WbThread (KiHandleObjectWaitTimeout t p s) = WbThread s"
  "WbWaitType (KiHandleObjectWaitTimeout t p s) = WbWaitType s"
  "ThreadState (KiHandleObjectWaitTimeout t p s) = ThreadState s"
  "CurrentThread (KiHandleObjectWaitTimeout t p s) = CurrentThread s"
  "Locks (KiHandleObjectWaitTimeout t p s) = Locks s"
  "SignalState (KiHandleObjectWaitTimeout t p s) = SignalState s"
  "kcpu (KiHandleObjectWaitTimeout t p s) = kcpu s"
  "DispatcherLock (KiHandleObjectWaitTimeout t p s) = DispatcherLock s"
  by (simp_all add: KiHandleObjectWaitTimeout_def Let_def split: option.split)

text \<open>Satisfying one of two waits of the current thread while the other object is locked.\<close>

lemma rundown_locked:
  assumes "WbObject s b = o1" "WbThread s b = t" "WbWaitType s b = WaitAny" "WbObject s (b + 40) = o2"
    and "o1 \<noteq> NULL" "o2 \<noteq> NULL" "t \<noteq> NULL" "ThreadState s t = THREAD_STATE_WAITING" "CurrentThread s = t"
    and "NumberOfActiveWaitBlocks s t = 2" "NumberOfCurrentWaitBlocks s t = 2" "CurrentWaitBlocks s t = b"
    and "Locks s o1 = 1" "Locks s o2 = 1" "DISPATCH_LEVEL \<le> irql (kcpu s)"
  shows "KiUnwaitWaitBlock b True st s = Hang"
proof -
  let ?s = "s\<lparr>SignalState := (SignalState s)(o1 := SignalState s o1 - 1)\<rparr>"
  have ty: "ObjectType ?s o1 = 0" using assms(13) by (simp add: ObjectType_def drop_bit_eq_div)
  have ne: "b + 40 \<noteq> b" by simp
  let ?u = "?s\<lparr>sheap := RemoveEntry b (sheap s), WbObject := (WbObject s)(b := NULL),
      WbThread := (WbThread s)(b := NULL), WbWaitMode := (WbWaitMode s)(b := 0),
      WbWaitType := (WbWaitType s)(b := 0), NumberOfActiveWaitBlocks := (NumberOfActiveWaitBlocks s)(t := 1)\<rparr>"
  have two: "[0..<2] = [0, Suc 0]" by (simp add: upt_rec)
  have r: "RundownWaitBlocks_with False f t (KiHandleObjectWaitTimeout t None (?u\<lparr>ThreadState := ts\<rparr>)) = Hang" for f ts
    unfolding RundownWaitBlocks_with_def
    using assms(4,6,11,12,14,15) ne by (simp add: two wait_block_1 Let_def acquire_held)
  have k: "KeUnwaitThreadNoLock_with False f t x ?u = Hang" for f x
    unfolding KeUnwaitThreadNoLock_with_def
    using r assms(8,9,11) by (simp add: Let_def)
  have n: "(2 :: nat) = Suc (Suc 0)" by simp
  show ?thesis
    unfolding KiUnwaitWaitBlock_def n KiUnwaitWaitBlock_at.simps
    using assms(1,2,3,5,7,8,10) ty k
    by (simp add: Let_def on_thread_unwait_def unwait_effect_def)
qed

section \<open>Properties\<close>

text \<open>C7: waiting for any of two objects, the first of which is signalled, never returns. The
  locks of all the objects are held while the satisfied wait runs down the other wait blocks, and
  running a block down takes the lock of its object again.\<close>

theorem WaitAny_signalled_deadlock:
  assumes "irql (kcpu s) \<le> DISPATCH_LEVEL" and "DispatcherLock s = 0"
    and "o1 \<noteq> NULL" "o2 \<noteq> NULL" "o1 \<noteq> o2" "CurrentThread s = t" "t \<noteq> NULL"
    and "ThreadLock t \<noteq> o1" "ThreadLock t \<noteq> o2"
    and "Locks s o1 = 0" "Locks s o2 = 0" "Locks s (ThreadLock t) = 0" and "SignalState s o1 \<noteq> 0"
  shows "KeWaitForMultipleObjects [o1, o2] WaitAny mode al pTimeout NULL s = Hang"
proof -
  let ?c2 = "KiApplyIrql (irql (kcpu s)) 2 (kcpu s)" let ?c = "KiApplyIrql 2 13 ?c2"
  have i: "irql ?c2 = 2" "irql ?c = 13"
    using irql_apply [of "kcpu s" 2] irql_apply [of ?c2 13] by simp_all
  have kr: "KfRaiseIrql 2 (kcpu s) = Done (irql (kcpu s), ?c2)"
    using assms(1) by (simp add: KfRaiseIrql_def Let_def not_less)
  let ?l = "((Locks s)(o1 := 1))(o2 := 1)"
  have lk: "lock_objects [o1, o2] (s\<lparr>kcpu := ?c2\<rparr>) = Done (s\<lparr>kcpu := ?c2, Locks := ?l\<rparr>)"
    using assms(5,10,11) i by (simp add: acquire_free)
  have kd: "KiAcquireDispatcherLock (s\<lparr>kcpu := ?c2, Locks := ?l\<rparr>) =
    Done (2, s\<lparr>kcpu := ?c, Locks := ?l, DispatcherLock := 1\<rparr>)"
    using assms(2) i
    by (simp add: KiAcquireDispatcherLock_def KfRaiseIrql_def Let_def KeAcquireSpinLockAtDpcLevel_def
        KeGetCurrentIrql_def KiAcquireSpinLock_def set_bit_eq_or)
  let ?b = "ThreadWaitBlocks t"
  let ?s = "(init_wait_blocks t ?b WaitAny mode 0 [o1, o2] (s\<lparr>kcpu := ?c, Locks := ?l, DispatcherLock := 1\<rparr>))
    \<lparr>NumberOfActiveWaitBlocks := (NumberOfActiveWaitBlocks s)(t := 2),
     NumberOfCurrentWaitBlocks := (NumberOfCurrentWaitBlocks s)(t := 2),
     CurrentWaitBlocks := (CurrentWaitBlocks s)(t := ?b),
     ThreadState := (ThreadState s)(t := THREAD_STATE_WAITING)\<rparr>"
  let ?t = "?s\<lparr>Locks := ?l(ThreadLock t := 1)\<rparr>"
  have a: "acquire_at_dpc (ThreadLock t) ?s = Done ?t"
    using assms(8,9,12) i acquire_free [of ?s "ThreadLock t"] by (simp add: Let_def)
  have ne: "?b + 40 \<noteq> ?b" by simp
  have h: "KiUnwaitWaitBlock ?b True x ?t = Hang" for x
    using assms(3-9) i ne
    by (intro rundown_locked [where ?o1.0 = o1 and ?o2.0 = o2 and t = t]) (simp_all add: Let_def wait_block_1)
  have sg: "SignalState ?t o1 = SignalState s o1" and ob: "WbObject ?t ?b = o1"
    using ne by (simp_all add: Let_def wait_block_1)
  have up: "[0..<length [o1, o2]] = [0, Suc 0]" by (simp add: upt_rec)
  have f: "fulfil_waits False ?b WaitAny [0, Suc 0] ?t = Hang"
    unfolding fulfil_waits.simps(2) wait_block_0 Let_def sg ob KiUnwaitWaitBlock_def [symmetric]
    using assms(3,13) h by simp
  have n: "word_of_nat (length [o1, o2]) = (2 :: u32)" by simp
  have ct: "CurrentThread (s\<lparr>kcpu := ?c2\<rparr>) = t" using assms(6) by simp
  have fields: "NumberOfActiveWaitBlocks (init_wait_blocks t ?b WaitAny mode 0 [o1, o2] (s\<lparr>kcpu := ?c, Locks := ?l, DispatcherLock := 1\<rparr>)) = NumberOfActiveWaitBlocks s"
    "NumberOfCurrentWaitBlocks (init_wait_blocks t ?b WaitAny mode 0 [o1, o2] (s\<lparr>kcpu := ?c, Locks := ?l, DispatcherLock := 1\<rparr>)) = NumberOfCurrentWaitBlocks s"
    "CurrentWaitBlocks (init_wait_blocks t ?b WaitAny mode 0 [o1, o2] (s\<lparr>kcpu := ?c, Locks := ?l, DispatcherLock := 1\<rparr>)) = CurrentWaitBlocks s"
    "ThreadState (init_wait_blocks t ?b WaitAny mode 0 [o1, o2] (s\<lparr>kcpu := ?c, Locks := ?l, DispatcherLock := 1\<rparr>)) = ThreadState s"
    by (simp_all add: Let_def)
  show ?thesis
    unfolding KeWaitForMultipleObjects_def KeWaitForMultipleObjects_build_def n up kr obind.simps prod.case
    unfolding Let_def ct lk kd obind.simps prod.case
    by (simp add: a f fields del: init_wait_blocks.simps lock_objects.simps fulfil_waits.simps)
qed

theorem WaitAny_signalled_deadlock_witness:
  "KeWaitForMultipleObjects [0x50000, 0x60000] WaitAny 0 False None NULL
     ((quiet_kstate 0)\<lparr>SignalState := (\<lambda>_. 0)(0x50000 := 1)\<rparr>) = Hang"
  by (rule WaitAny_signalled_deadlock [where t = "0x2000"]) (simp_all add: quiet_kstate_def ThreadLock_def)

section \<open>Polling an object\<close>

text \<open>The current thread t holds nothing, is not queued for a timeout and the object obj is free
  and not signalled.\<close>

definition poll_ready :: "ptr \<Rightarrow> ptr \<Rightarrow> kstate \<Rightarrow> bool" where
  "poll_ready t obj s =
     (CurrentThread s = t \<and> t \<noteq> NULL \<and> obj \<noteq> NULL \<and> ThreadLock t \<noteq> obj \<and> SignalState s obj = 0 \<and>
      Locks s obj = 0 \<and> Locks s (ThreadLock t) = 0 \<and> DispatcherLock s = 0 \<and> Timeout s t = 0 \<and>
      cpu_ok (kcpu s) \<and> irql (kcpu s) \<le> DISPATCH_LEVEL)"

definition polled_heap :: "ptr \<Rightarrow> ptr \<Rightarrow> ptr \<Rightarrow> list_heap \<Rightarrow> list_heap" where
  "polled_heap q t obj h =
     RemoveEntry (ThreadWaitBlocks t)
       (InsertTailList q (TimeoutEntry t) (InsertTailList (WaitHead obj) (ThreadWaitBlocks t) h))"

lemma timeout_expires:
  assumes "WbObject s b = obj" "WbThread s b = t" "obj \<noteq> NULL" "t \<noteq> NULL" "CurrentThread s = t"
    and "ThreadState s t = THREAD_STATE_WAITING" "Timeout s t = 0"
    and "NumberOfCurrentWaitBlocks s t = 1" "CurrentWaitBlocks s t = b"
    and "Locks s obj = 0" "DISPATCH_LEVEL \<le> irql (kcpu s)"
  shows "\<exists>s'. KeUnwaitThreadNoLock t st s = Done s' \<and> sheap s' = RemoveEntry b (sheap s) \<and>
    Locks s' = Locks s \<and> DispatcherLock s' = DispatcherLock s \<and> kcpu s' = kcpu s \<and>
    SignalState s' = SignalState s \<and> Timeout s' = Timeout s \<and> CurrentThread s' = CurrentThread s \<and>
    AbsoluteTimeoutListHead s' = AbsoluteTimeoutListHead s \<and>
    RelativeTimeoutListHead s' = RelativeTimeoutListHead s \<and> WaitStatus s' = (WaitStatus s)(t := st)"
proof -
  let ?a = "s\<lparr>ThreadState := (ThreadState s)(t := THREAD_STATE_RUNNING),
     Timeout := Timeout s, TimeoutIsAbsolute := (TimeoutIsAbsolute s)(t := True)\<rparr>"
  have tm: "(Timeout s)(t := 0) = Timeout s" using assms(7) by (simp add: fun_upd_idem)
  have h: "KiHandleObjectWaitTimeout t None (s\<lparr>ThreadState := (ThreadState s)(t := THREAD_STATE_RUNNING)\<rparr>) = ?a"
    using assms(7) by (simp add: KiHandleObjectWaitTimeout_def tm)
  let ?l = "?a\<lparr>Locks := (Locks s)(obj := 1)\<rparr>"
  have a: "acquire_at_dpc obj ?a = Done ?l"
    using acquire_free [of ?a obj] assms(10,11) by simp
  have ty: "ObjectType ?l obj = 0" by (simp add: ObjectType_def drop_bit_eq_div)
  let ?u = "?l\<lparr>sheap := RemoveEntry b (sheap s), WbObject := (WbObject s)(b := NULL),
     WbThread := (WbThread s)(b := NULL), WbWaitMode := (WbWaitMode s)(b := 0), WbWaitType := (WbWaitType s)(b := 0),
     NumberOfActiveWaitBlocks := (NumberOfActiveWaitBlocks s)(t := NumberOfActiveWaitBlocks s t - 1)\<rparr>"
  have n: "(2 :: nat) = Suc (Suc 0)" by simp
  have u: "KiUnwaitWaitBlock_at False 2 b False 0 ?l = Done ?u"
    unfolding n KiUnwaitWaitBlock_at.simps
    using assms(1-4) ty by (simp add: Let_def on_thread_unwait_def unwait_effect_def)
  have r: "release_from_dpc obj ?u = Done (?u\<lparr>Locks := Locks s\<rparr>)"
    using release_dpc [of ?u obj] assms(10,11) by (simp add: fun_upd_idem)
  have up: "[0..<Suc 0] = [0]" by simp
  have rd: "RundownWaitBlocks_with False (KiUnwaitWaitBlock_at False 2) t ?a =
    Done (?u\<lparr>Locks := Locks s, NumberOfCurrentWaitBlocks := (NumberOfCurrentWaitBlocks s)(t := 0),
      CurrentWaitBlocks := (CurrentWaitBlocks s)(t := NULL)\<rparr>)"
    unfolding RundownWaitBlocks_with_def
    using assms(1,3,8,9) a u r by (simp add: Let_def)
  have k: "KeUnwaitThreadNoLock t st s =
    Done (?u\<lparr>Locks := Locks s, NumberOfCurrentWaitBlocks := (NumberOfCurrentWaitBlocks s)(t := 0),
      CurrentWaitBlocks := (CurrentWaitBlocks s)(t := NULL), WaitStatus := (WaitStatus s)(t := st)\<rparr>)"
    unfolding KeUnwaitThreadNoLock_def KeUnwaitThreadNoLock_with_def
    using assms(5,6,8) h rd by (simp add: Let_def)
  then show ?thesis by simp
qed

text \<open>Both builds of a poll come to the end of the wait with the wait block and the timeout linked, and with
  the lock of the thread released.\<close>

definition unwait_point :: "ptr \<Rightarrow> ptr \<Rightarrow> kstate \<Rightarrow> kstate \<Rightarrow> bool" where
  "unwait_point t obj s u =
     (sheap u = InsertTailList (AbsoluteTimeoutListHead s) (TimeoutEntry t) (InsertTailList (WaitHead obj) (ThreadWaitBlocks t) (sheap s)) \<and>
      WbObject u (ThreadWaitBlocks t) = obj \<and> WbThread u (ThreadWaitBlocks t) = t \<and> CurrentThread u = t \<and>
      ThreadState u t = THREAD_STATE_WAITING \<and> Timeout u t = 0 \<and> NumberOfCurrentWaitBlocks u t = 1 \<and>
      CurrentWaitBlocks u t = ThreadWaitBlocks t \<and> Locks u = Locks s \<and> DispatcherLock u = 1 \<and> SignalState u = SignalState s \<and>
      kcpu u = KiApplyIrql 2 13 (KiApplyIrql (irql (kcpu s)) 2 (kcpu s)) \<and>
      AbsoluteTimeoutListHead u = AbsoluteTimeoutListHead s)"

lemma poll_unwaits:
  assumes p: "poll_ready t obj s"
  shows "\<exists>u. unwait_point t obj s u \<and> KeWaitForSingleObject_build debug obj mode al (Some 0) s =
    obind (KeUnwaitThreadNoLock_with debug (KiUnwaitWaitBlock_at debug 2) t (ucast STATUS_TIMEOUT) u) (\<lambda>s'.
      obind (KiReleaseDispatcherLock (irql (kcpu s)) (s'\<lparr>ThreadState := (ThreadState s')(t := THREAD_STATE_RUNNING)\<rparr>))
        (\<lambda>s'. Done (Returns STATUS_TIMEOUT, s')))"
proof -
  have a: "CurrentThread s = t" "t \<noteq> NULL" "obj \<noteq> NULL" "ThreadLock t \<noteq> obj" "SignalState s obj = 0"
    "Locks s obj = 0" "Locks s (ThreadLock t) = 0" "DispatcherLock s = 0" "Timeout s t = 0"
    "cpu_ok (kcpu s)" "irql (kcpu s) \<le> DISPATCH_LEVEL" using p by (simp_all add: poll_ready_def)
  let ?i = "irql (kcpu s)"
  let ?c2 = "KiApplyIrql ?i 2 (kcpu s)" let ?c = "KiApplyIrql 2 13 ?c2"
  have i: "irql ?c2 = 2" "irql ?c = 13"
    using irql_apply [of "kcpu s" 2] irql_apply [of ?c2 13] by simp_all
  have kr: "KfRaiseIrql 2 (kcpu s) = Done (?i, ?c2)"
    using a(11) by (simp add: KfRaiseIrql_def Let_def not_less)
  let ?l = "(Locks s)(obj := 1)"
  have lk: "lock_objects [obj] (s\<lparr>kcpu := ?c2\<rparr>) = Done (s\<lparr>kcpu := ?c2, Locks := ?l\<rparr>)"
    using a(6) i by (simp add: acquire_free)
  have kd: "KiAcquireDispatcherLock (s\<lparr>kcpu := ?c2, Locks := ?l\<rparr>) =
    Done (2, s\<lparr>kcpu := ?c, Locks := ?l, DispatcherLock := 1\<rparr>)"
    using a(8) i
    by (simp add: KiAcquireDispatcherLock_def KfRaiseIrql_def Let_def KeAcquireSpinLockAtDpcLevel_def
        KeGetCurrentIrql_def KiAcquireSpinLock_def set_bit_eq_or)
  let ?b = "ThreadWaitBlocks t"
  let ?s = "s\<lparr>kcpu := ?c, Locks := ?l, DispatcherLock := 1,
     WbObject := (WbObject s)(?b := obj), WbThread := (WbThread s)(?b := t),
     WbWaitMode := (WbWaitMode s)(?b := mode), WbWaitType := (WbWaitType s)(?b := WaitAll),
     sheap := InsertTailList (WaitHead obj) ?b (sheap s),
     NumberOfActiveWaitBlocks := (NumberOfActiveWaitBlocks s)(t := 1),
     NumberOfCurrentWaitBlocks := (NumberOfCurrentWaitBlocks s)(t := 1),
     CurrentWaitBlocks := (CurrentWaitBlocks s)(t := ?b),
     ThreadState := (ThreadState s)(t := THREAD_STATE_WAITING)\<rparr>"
  let ?t = "?s\<lparr>Locks := ?l(ThreadLock t := 1)\<rparr>"
  have aq: "acquire_at_dpc (ThreadLock t) ?s = Done ?t"
    using a(4,7) i acquire_free [of ?s "ThreadLock t"] by simp
  have f: "fulfil_waits debug ?b WaitAll [0] ?t = Done ?t"
    using a(3,5) by (simp add: Let_def)
  have rl: "release_from_dpc (ThreadLock t) ?t = Done ?s"
    using a(4,7) i release_dpc [of ?t "ThreadLock t"] by (simp add: fun_upd_idem fun_upd_twist)
  let ?u = "?s\<lparr>Locks := Locks s, Alertable := (Alertable s)(t := al)\<rparr>"
  have ul: "unlock_objects [obj] ?s = Done (?s\<lparr>Locks := Locks s\<rparr>)"
    using a(6) i release_dpc [of ?s obj] by (simp add: fun_upd_idem)
  let ?w = "?u\<lparr>Timeout := (Timeout s)(t := 0), TimeoutIsAbsolute := (TimeoutIsAbsolute s)(t := True),
     sheap := InsertTailList (AbsoluteTimeoutListHead s) (TimeoutEntry t) (sheap ?s)\<rparr>"
  have to: "KiHandleObjectWaitTimeout t (Some 0) ?u = ?w"
    using a(9) by (simp add: KiHandleObjectWaitTimeout_def)
  have ct: "CurrentThread (s\<lparr>kcpu := ?c2\<rparr>) = t" using a(1) by simp
  have up: "[0..<length [obj]] = [0]" by simp
  have "KeWaitForSingleObject_build debug obj mode al (Some 0) s =
    obind (KeUnwaitThreadNoLock_with debug (KiUnwaitWaitBlock_at debug 2) t (ucast STATUS_TIMEOUT) ?w) (\<lambda>s'.
      obind (KiReleaseDispatcherLock ?i (s'\<lparr>ThreadState := (ThreadState s')(t := THREAD_STATE_RUNNING)\<rparr>))
        (\<lambda>s'. Done (Returns STATUS_TIMEOUT, s')))"
    unfolding KeWaitForSingleObject_build_def KeWaitForMultipleObjects_build_def kr obind.simps prod.case
    unfolding Let_def ct up lk kd obind.simps prod.case
    using aq f rl ul to
    by (simp add: Let_def del: lock_objects.simps fulfil_waits.simps unlock_objects.simps)
  moreover have "unwait_point t obj s ?w" using a by (simp add: unwait_point_def)
  ultimately show ?thesis by blast
qed

lemma poll_once:
  assumes p: "poll_ready t obj s"
  shows "\<exists>s'. KeWaitForSingleObject obj mode al (Some 0) s = Done (Returns STATUS_TIMEOUT, s') \<and>
    sheap s' = polled_heap (AbsoluteTimeoutListHead s) t obj (sheap s) \<and> poll_ready t obj s' \<and>
    AbsoluteTimeoutListHead s' = AbsoluteTimeoutListHead s"
proof -
  have a: "t \<noteq> NULL" "obj \<noteq> NULL" "ThreadLock t \<noteq> obj" "SignalState s obj = 0" "Locks s obj = 0"
    "Locks s (ThreadLock t) = 0" "cpu_ok (kcpu s)" "irql (kcpu s) \<le> DISPATCH_LEVEL" "DispatcherLock s = 0"
    using p by (simp_all add: poll_ready_def)
  let ?i = "irql (kcpu s)" let ?c2 = "KiApplyIrql ?i 2 (kcpu s)" let ?c = "KiApplyIrql 2 13 ?c2"
  have i: "irql ?c = 13" using irql_apply [of ?c2 13] by simp
  obtain w where w: "unwait_point t obj s w" and run: "KeWaitForSingleObject obj mode al (Some 0) s =
    obind (KeUnwaitThreadNoLock t (ucast STATUS_TIMEOUT) w) (\<lambda>s'.
      obind (KiReleaseDispatcherLock ?i (s'\<lparr>ThreadState := (ThreadState s')(t := THREAD_STATE_RUNNING)\<rparr>))
        (\<lambda>s'. Done (Returns STATUS_TIMEOUT, s')))"
    using poll_unwaits [OF p] unfolding KeWaitForSingleObject_def KeUnwaitThreadNoLock_def by blast
  note w = w [unfolded unwait_point_def]
  obtain v where v: "KeUnwaitThreadNoLock t (ucast STATUS_TIMEOUT) w = Done v"
    "sheap v = RemoveEntry (ThreadWaitBlocks t) (sheap w)" "Locks v = Locks w" "DispatcherLock v = DispatcherLock w"
    "kcpu v = kcpu w" "SignalState v = SignalState w" "Timeout v = Timeout w" "CurrentThread v = CurrentThread w"
    "AbsoluteTimeoutListHead v = AbsoluteTimeoutListHead w"
    using timeout_expires [of w "ThreadWaitBlocks t" obj t "ucast STATUS_TIMEOUT"] a w i by auto
  let ?v = "v\<lparr>ThreadState := (ThreadState v)(t := THREAD_STATE_RUNNING)\<rparr>"
  have kc: "KiApplyIrql 13 ?i ?c = kcpu s"
    using a(7) by (auto simp: KiApplyIrql_def cpu_ok_def)
  have le: "?i \<le> 13" using a(8) by (simp add: word_le_nat_alt)
  have rdl: "KiReleaseDispatcherLock ?i ?v = Done (?v\<lparr>kcpu := kcpu s, DispatcherLock := 0\<rparr>)"
    using dispatcher_lock_release [of ?v ?i] i w v(4,5) kc le by simp
  have "KeWaitForSingleObject obj mode al (Some 0) s = Done (Returns STATUS_TIMEOUT, ?v\<lparr>kcpu := kcpu s, DispatcherLock := 0\<rparr>)"
    using run v(1) rdl by simp
  then show ?thesis
    using w v a by (intro exI [where x = "?v\<lparr>kcpu := kcpu s, DispatcherLock := 0\<rparr>"])
      (simp add: poll_ready_def polled_heap_def)
qed

text \<open>A build with _DEBUG stops there: KeUnwaitThreadNoLock asserts that the lock of the thread is held.\<close>

lemma poll_asserts:
  assumes "poll_ready t obj s"
  shows "KeWaitForSingleObject_build True obj mode al (Some 0) s = Bugcheck KMODE_EXCEPTION_NOT_HANDLED"
proof -
  obtain u where u: "unwait_point t obj s u" and run: "KeWaitForSingleObject_build True obj mode al (Some 0) s =
    obind (KeUnwaitThreadNoLock_with True (KiUnwaitWaitBlock_at True 2) t (ucast STATUS_TIMEOUT) u) (\<lambda>s'.
      obind (KiReleaseDispatcherLock (irql (kcpu s)) (s'\<lparr>ThreadState := (ThreadState s')(t := THREAD_STATE_RUNNING)\<rparr>))
        (\<lambda>s'. Done (Returns STATUS_TIMEOUT, s')))"
    using poll_unwaits [OF assms] by blast
  have "Locks u (ThreadLock t) = 0" using assms u by (simp add: poll_ready_def unwait_point_def)
  then have "KeUnwaitThreadNoLock_with True (KiUnwaitWaitBlock_at True 2) t (ucast STATUS_TIMEOUT) u = Bugcheck KMODE_EXCEPTION_NOT_HANDLED"
    using u by (simp add: KeUnwaitThreadNoLock_with_def unwait_point_def)
  then show ?thesis using run by simp
qed

lemma absolute_stuck:
  assumes "flink (sheap s) e = e" "Timeout s (thread_of_timeout e) = 0" "e \<noteq> AbsoluteTimeoutListHead s"
  shows "absolute_loop Time e s = None"
proof -
  have "\<not> (c = e \<and> s' = s)" if a: "absolute_loop Time c s' = Some y" for c s' y
    by (rule absolute_loop.raw_induct [OF _ a], insert assms) (auto simp: Let_def, blast)
  then show ?thesis by (cases "absolute_loop Time e s") blast+
qed

lemma thread_of_entry [simp]: "thread_of_timeout (TimeoutEntry t) = t"
  by (simp add: thread_of_timeout_def TimeoutEntry_def)

lemma polled_heap_links:
  assumes d: "distinct [q, TimeoutEntry t, ThreadWaitBlocks t, WaitHead obj]"
    and w: "flink h (WaitHead obj) = WaitHead obj" "blink h (WaitHead obj) = WaitHead obj"
    and b: "blink h q = q \<or> blink h q = TimeoutEntry t"
  defines "h' \<equiv> polled_heap q t obj h"
  shows "flink h' (WaitHead obj) = WaitHead obj" "blink h' (WaitHead obj) = WaitHead obj"
    and "blink h' q = TimeoutEntry t"
    and "blink h q = q \<Longrightarrow> flink h' q = TimeoutEntry t"
    and "blink h q = TimeoutEntry t \<Longrightarrow> flink h' (TimeoutEntry t) = TimeoutEntry t \<and> flink h' q = flink h q"
proof -
  let ?e = "TimeoutEntry t" let ?b = "ThreadWaitBlocks t" let ?w = "WaitHead obj"
  have ne: "q \<noteq> ?e" "q \<noteq> ?b" "q \<noteq> ?w" "?e \<noteq> q" "?e \<noteq> ?b" "?e \<noteq> ?w" "?b \<noteq> q" "?b \<noteq> ?e" "?b \<noteq> ?w"
    "?w \<noteq> q" "?w \<noteq> ?e" "?w \<noteq> ?b" using d by auto
  note defs = h'_def polled_heap_def RemoveEntry_def RemoveEntryList_def InsertTailList_def Let_def
  show "flink h' ?w = ?w" "blink h' ?w = ?w" "blink h' q = ?e"
    using b by (elim disjE; simp add: defs ne w)+
  show "flink h' q = ?e" if "blink h q = q" using that by (simp add: defs ne w)
  show "flink h' ?e = ?e \<and> flink h' q = flink h q" if "blink h q = ?e" using that by (simp add: defs ne w)
qed

text \<open>C8: what a poll, a wait with a timeout of zero, does to a free object that is not signalled. It runs
  the end of the wait after it has released the lock of the thread, although KeUnwaitThreadNoLock (and RundownWaitBlocks and
  KiUnwaitWaitBlock after it) assert that this lock is held: a build with _DEBUG stops at that ASSERT in the first poll, with
  the bug check of the breakpoint. In a build without _DEBUG, where ASSERT is empty, the poll returns STATUS_TIMEOUT but leaves
  the timeout entry of the thread on the list of absolute timeouts (its Timeout is 0, which means it is on no list), so a
  second poll links the entry to itself, and the next clock tick, on any processor, follows that link for ever.\<close>

theorem polling_twice_stops_the_clock:
  assumes "poll_ready t obj s" "is_list (sheap s) (WaitHead obj) []" "is_list (sheap s) (AbsoluteTimeoutListHead s) []"
    and "distinct [AbsoluteTimeoutListHead s, TimeoutEntry t, ThreadWaitBlocks t, WaitHead obj]"
  shows "KeWaitForSingleObject_build True obj mode al (Some 0) s = Bugcheck KMODE_EXCEPTION_NOT_HANDLED \<and>
    (\<exists>s1 s2. KeWaitForSingleObject_build False obj mode al (Some 0) s = Done (Returns STATUS_TIMEOUT, s1) \<and>
      KeWaitForSingleObject_build False obj mode al (Some 0) s1 = Done (Returns STATUS_TIMEOUT, s2) \<and>
      (\<forall>rtc processor k. KiClockTick rtc processor (k, s2) = Hang))"
proof -
  let ?q = "AbsoluteTimeoutListHead s" let ?e = "TimeoutEntry t"
  obtain s1 where s1: "KeWaitForSingleObject obj mode al (Some 0) s = Done (Returns STATUS_TIMEOUT, s1)"
    "sheap s1 = polled_heap ?q t obj (sheap s)" "poll_ready t obj s1" "AbsoluteTimeoutListHead s1 = ?q"
    using poll_once [OF assms(1)] by blast
  obtain s2 where s2: "KeWaitForSingleObject obj mode al (Some 0) s1 = Done (Returns STATUS_TIMEOUT, s2)"
    "sheap s2 = polled_heap ?q t obj (sheap s1)" "poll_ready t obj s2" "AbsoluteTimeoutListHead s2 = ?q"
    using poll_once [OF s1(3)] s1(4) by auto
  have w: "flink (sheap s) (WaitHead obj) = WaitHead obj" "blink (sheap s) (WaitHead obj) = WaitHead obj"
    and b: "blink (sheap s) ?q = ?q" using assms(2,3) by (simp_all add: is_list_def)
  note l1 = polled_heap_links [OF assms(4) w disjI1 [OF b], folded s1(2)]
  note l2 = polled_heap_links [OF assms(4) l1(1,2) disjI2 [OF l1(3)], folded s2(2)]
  have e: "flink (sheap s2) ?e = ?e" "flink (sheap s2) ?q = ?e" using l1(3,4) l2(5) b by simp_all
  have "Timeout s2 t = 0" using s2(3) by (simp add: poll_ready_def)
  then have "absolute_loop Time ?e s2 = None" for Time
    using absolute_stuck [of s2 ?e] e(1) s2(4) assms(4) by auto
  then have "KiClockTick rtc processor (k, s2) = Hang" for rtc processor k
    using e(2) s2(4) by (simp add: KiClockTick_def Let_def run_loop_def split: prod.split)
  then show ?thesis using poll_asserts [OF assms(1)] s1(1) s2(1) unfolding KeWaitForSingleObject_def by blast
qed

theorem polling_twice_stops_the_clock_witness:
  "KeWaitForSingleObject_build True 0x50000 0 False (Some 0) (quiet_kstate 0) = Bugcheck KMODE_EXCEPTION_NOT_HANDLED \<and>
    (\<exists>s1 s2. KeWaitForSingleObject_build False 0x50000 0 False (Some 0) (quiet_kstate 0) = Done (Returns STATUS_TIMEOUT, s1) \<and>
      KeWaitForSingleObject_build False 0x50000 0 False (Some 0) s1 = Done (Returns STATUS_TIMEOUT, s2) \<and>
      (\<forall>rtc processor k. KiClockTick rtc processor (k, s2) = Hang))"
  by (rule polling_twice_stops_the_clock [where t = "0x2000"])
    (simp_all add: poll_ready_def quiet_kstate_def cpu_ok_def ThreadLock_def WaitHead_def TimeoutEntry_def
      ThreadWaitBlocks_def is_list_def idle_sched_def)

section \<open>The clock tick\<close>

lemma absolute_due:
  assumes "links (sheap s) c es (AbsoluteTimeoutListHead s)" "AbsoluteTimeoutListHead s \<notin> set es"
    and "\<forall>e\<in>set es. Timeout s (thread_of_timeout e) \<le> Time"
  shows "absolute_loop Time (flink (sheap s) c) s = Some (Done s)"
  using assms
proof (induction es arbitrary: c)
  case Nil
  then show ?case by (subst absolute_loop.simps) simp
next
  case (Cons e es)
  then show ?case by (subst absolute_loop.simps) (auto simp: Let_def not_less)
qed

text \<open>What a tick does to the timeout of a thread on the list of relative timeouts.\<close>

definition tick_down :: "u64 \<Rightarrow> ptr list \<Rightarrow> kstate \<Rightarrow> kstate" where
  "tick_down inc es s = s\<lparr>Timeout := (\<lambda>t. if TimeoutEntry t \<in> set es then Timeout s t - inc else Timeout s t)\<rparr>"

lemma entry_of_thread [simp]: "TimeoutEntry (thread_of_timeout e) = e"
  by (simp add: thread_of_timeout_def TimeoutEntry_def)

lemma entry_eq [simp]: "TimeoutEntry t = e \<longleftrightarrow> t = thread_of_timeout e"
  by (auto simp: thread_of_timeout_def TimeoutEntry_def)

lemma relative_running:
  assumes "links (sheap s) c es (RelativeTimeoutListHead s)" "distinct (RelativeTimeoutListHead s # es)"
    and "\<forall>e\<in>set es. 0 \<le>s Timeout s (thread_of_timeout e) - inc"
  shows "relative_loop inc 0 (flink (sheap s) c) s = Some (Done (tick_down inc es s))"
  using assms
proof (induction es arbitrary: c s)
  case Nil
  then show ?case by (subst relative_loop.simps) (simp add: tick_down_def)
next
  case (Cons e es)
  let ?t = "thread_of_timeout e" let ?s = "s\<lparr>Timeout := (Timeout s)(?t := Timeout s ?t - inc)\<rparr>"
  have ne: "thread_of_timeout x \<noteq> ?t" if "x \<in> set es" for x
    using that Cons.prems(2) entry_of_thread by (metis distinct.simps(2))
  have "relative_loop inc 0 (flink (sheap ?s) e) ?s = Some (Done (tick_down inc es ?s))"
    by (rule Cons.IH) (use Cons.prems ne in auto)
  moreover have "tick_down inc es ?s = tick_down inc (e # es) s"
    using Cons.prems(2) by (auto simp: tick_down_def fun_eq_iff)
  ultimately show ?case
    using Cons.prems by (subst relative_loop.simps) (auto simp: Let_def)
qed

lemma relative_other_cpu:
  assumes "links (sheap s) c es (RelativeTimeoutListHead s)" "distinct (RelativeTimeoutListHead s # es)"
    and "\<forall>e\<in>set es. 0 \<le>s Timeout s (thread_of_timeout e)" "p \<noteq> 0"
  shows "relative_loop inc p (flink (sheap s) c) s = Some (Done s)"
  using assms
proof (induction es arbitrary: c)
  case Nil
  then show ?case by (subst relative_loop.simps) simp
next
  case (Cons e es)
  then show ?case by (subst relative_loop.simps) (auto simp: Let_def)
qed

text \<open>What a clock tick does while no timeout fires. Processor 0 counts the tick and takes
  KeMaximumIncrement off every relative timeout; the other processors change nothing. An absolute
  timeout whose time has come (Timeout at most the system time) does not fire: the comparison
  in the code is the other way round, so it stays on its list for ever.\<close>

lemma KiClockTick_spec:
  assumes "KeQuerySystemTime rtc p (if p = 0 then k\<lparr>KeClockTicks := KeClockTicks k + 1\<rparr> else k) = (Time, k')"
    and "is_list (sheap s) (AbsoluteTimeoutListHead s) as" "is_list (sheap s) (RelativeTimeoutListHead s) rs"
    and "\<forall>e\<in>set as. Timeout s (thread_of_timeout e) \<le> Time"
    and "\<forall>e\<in>set rs. 0 \<le>s Timeout s (thread_of_timeout e) - (if p = 0 then KeMaximumIncrement k' else 0)"
  shows "KiClockTick rtc p (k, s) =
    Done (k', if p = 0 then tick_down (KeMaximumIncrement k') rs s else s)"
proof -
  have a: "run_loop (absolute_loop Time (flink (sheap s) (AbsoluteTimeoutListHead s)) s) = Done s"
    using absolute_due [of s "AbsoluteTimeoutListHead s" as Time] assms(2,4)
    by (simp add: is_list_def run_loop_def)
  have r: "run_loop (relative_loop (KeMaximumIncrement k') p (flink (sheap s) (RelativeTimeoutListHead s)) s) =
    Done (if p = 0 then tick_down (KeMaximumIncrement k') rs s else s)"
    using relative_running [of s "RelativeTimeoutListHead s" rs "KeMaximumIncrement k'"]
      relative_other_cpu [of s "RelativeTimeoutListHead s" rs p "KeMaximumIncrement k'"] assms(3,5)
    by (cases "p = 0") (simp_all add: is_list_def run_loop_def)
  show ?thesis using assms(1) a r by (simp add: KiClockTick_def Let_def)
qed

text \<open>Thread 0x2000 waits until time 5, thread 0x3000 for 100 units more.\<close>

definition timed_kstate :: kstate where
  "timed_kstate = (quiet_kstate 13)\<lparr>
     sheap := InsertTailList 0x400 (TimeoutEntry 0x3000) (InsertTailList 0x300 (TimeoutEntry 0x2000) (sheap idle_sched)),
     Timeout := (\<lambda>_. 0)(0x2000 := 5, 0x3000 := 100)\<rparr>"

definition timed_clock :: clock where
  "timed_clock = \<lparr>KeClockTicks = 9, KeLastRtcSyncTime = 0, KeCurrentRtc = 1000,
     KiClockTickInterval = 10, KeMaximumIncrement = 10\<rparr>"

lemma KiClockTick_spec_example:
  "\<exists>k'. KiClockTick 0 0 (timed_clock, timed_kstate) = Done (k', tick_down 10 [TimeoutEntry 0x3000] timed_kstate) \<and>
     KeClockTicks k' = 10"
proof -
  let ?k = "timed_clock\<lparr>KeClockTicks := 10\<rparr>"
  have q: "KeQuerySystemTime 0 0 (timed_clock\<lparr>KeClockTicks := KeClockTicks timed_clock + 1\<rparr>) = (1100, ?k)"
    by (simp add: KeQuerySystemTime_def timed_clock_def Let_def)
  have h: "is_list (sheap timed_kstate) 0x300 [TimeoutEntry 0x2000]" "is_list (sheap timed_kstate) 0x400 [TimeoutEntry 0x3000]"
    by (simp_all add: timed_kstate_def is_list_def idle_sched_def InsertTailList_def TimeoutEntry_def)
  have heads: "AbsoluteTimeoutListHead timed_kstate = 0x300" "RelativeTimeoutListHead timed_kstate = 0x400"
    "Timeout timed_kstate = (\<lambda>_. 0)(0x2000 := 5, 0x3000 := 100)" "KeMaximumIncrement ?k = 10"
    by (simp_all add: timed_kstate_def quiet_kstate_def timed_clock_def)
  have "KiClockTick 0 0 (timed_clock, timed_kstate) =
    Done (?k, if (0::nat) = 0 then tick_down (KeMaximumIncrement ?k) [TimeoutEntry 0x3000] timed_kstate else timed_kstate)"
    by (rule KiClockTick_spec [where Time = 1100 and as = "[TimeoutEntry 0x2000]"])
      (use q h heads in \<open>simp_all add: word_sle_eq\<close>)
  then show ?thesis using heads(4) by (auto simp: timed_clock_def)
qed

end
