(* ===== verification/Rtl.thy ===== *)
theory Rtl
  imports Prelude
begin

text \<open>
  The run-time library: filling and copying memory (NNXOSKRN/rtl/rtl.c), counted strings
  (NNXOSKRN/rtl/rtlstring.c) and text conversion (NNXOSKRN/text.c). Memory is a map from
  addresses to bytes; the buffers of UNICODE_STRINGs a map from the addresses of their
  characters.
\<close>

section \<open>Memory\<close>

type_synonym mem = "ptr \<Rightarrow> u8"

definition RtlFillMemory :: "ptr \<Rightarrow> u64 \<Rightarrow> u32 \<Rightarrow> mem \<Rightarrow> mem" where
  "RtlFillMemory Memory Size Value m =
     fold (\<lambda>i m. m(Memory + word_of_nat i := ucast Value)) [0..<unat Size] m"

definition RtlZeroMemory :: "ptr \<Rightarrow> u64 \<Rightarrow> mem \<Rightarrow> mem" where
  "RtlZeroMemory Memory Size = RtlFillMemory Memory Size 0"

text \<open>The loop counter is an int: a size above 0x7FFFFFFF makes its increment overflow, which has no defined
  behaviour in C. The model gives Fault for the whole call then, also for the bytes copied before the overflow.\<close>

definition RtlCopyMemory :: "ptr \<Rightarrow> ptr \<Rightarrow> u64 \<Rightarrow> mem \<Rightarrow> mem outcome" where
  "RtlCopyMemory dst src count m =
     (if count > 0x7FFFFFFF then Fault
      else Done (fold (\<lambda>b m. m(dst + word_of_nat b := m (src + word_of_nat b))) [0..<unat count] m))"

definition memset :: "ptr \<Rightarrow> u8 \<Rightarrow> u64 \<Rightarrow> mem \<Rightarrow> ptr \<times> mem" where
  "memset dst value count m = (dst, RtlFillMemory dst count (ucast value) m)"

definition memcpy :: "ptr \<Rightarrow> ptr \<Rightarrow> u64 \<Rightarrow> mem \<Rightarrow> (ptr \<times> mem) outcome" where
  "memcpy dst src count m = obind (RtlCopyMemory dst src count m) (\<lambda>m. Done (dst, m))"

text \<open>\<open>in_range a n x\<close>: x is one of the n bytes from a, the addresses wrapping around.\<close>

definition in_range :: "ptr \<Rightarrow> nat \<Rightarrow> ptr \<Rightarrow> bool" where
  "in_range a n x = (unat (x - a) < n)"

lemma unat_diff_eq:
  "n < 2 ^ 64 \<Longrightarrow> unat ((x :: ptr) - a) = n \<longleftrightarrow> x = a + word_of_nat n"
proof
  assume n: "unat (x - a) = n"
  have "x = a + (x - a)" by simp
  also have "x - a = word_of_nat n" using n by auto
  finally show "x = a + word_of_nat n" .
qed (simp add: unat_word_of_nat)

lemma in_range_Suc:
  "Suc n \<le> 2 ^ 64 \<Longrightarrow> in_range a (Suc n) x \<longleftrightarrow> in_range a n x \<or> x = a + word_of_nat n"
  using unat_diff_eq [of n x a] by (auto simp: in_range_def less_Suc_eq)

lemma fill_fold:
  "n \<le> 2 ^ 64 \<Longrightarrow>
   fold (\<lambda>i m. m(a + word_of_nat i := v)) [0..<n] m = (\<lambda>x. if in_range a n x then v else m (x :: ptr))"
proof (induction n)
  case (Suc n)
  then show ?case by (auto simp: fun_eq_iff in_range_Suc)
qed (simp add: in_range_def fun_eq_iff)

lemma RtlFillMemory_eq:
  "RtlFillMemory a n v m = (\<lambda>x. if in_range a (unat n) x then ucast v else m x)"
  using unat_bound [of n] by (simp add: RtlFillMemory_def fill_fold)

lemma fold_same: "fold (\<lambda>b m. m) xs m = m"
  by (induction xs) auto

text \<open>A forward copy reads the source before it is overwritten when the destination does not
  start inside the source.\<close>

lemma copy_fold:
  assumes "n \<le> 2 ^ 63" "dst = src \<or> \<not> in_range src n dst"
  shows "fold (\<lambda>b m. m(dst + word_of_nat b := m (src + word_of_nat b))) [0..<n] m =
    (\<lambda>x. if in_range dst n x then m (src + (x - dst)) else m (x :: ptr))"
  using assms
proof (induction n)
  case (Suc n)
  let ?f = "\<lambda>b m. m(dst + word_of_nat b := m (src + word_of_nat b))"
  have p: "dst = src \<or> \<not> in_range src n dst" using Suc.prems by (auto simp: in_range_def)
  have IH: "fold ?f [0..<n] m = (\<lambda>x. if in_range dst n x then m (src + (x - dst)) else m x)"
    by (rule Suc.IH) (use Suc.prems p in auto)
  have rd: "fold ?f [0..<n] m (src + word_of_nat n) = m (src + word_of_nat n)"
  proof (cases "in_range dst n (src + word_of_nat n)")
    case True
    show ?thesis
    proof (cases "dst = src")
      case False
      then have o: "\<not> unat (dst - src) < Suc n" using Suc.prems(2) by (simp add: in_range_def)
      let ?d = "dst - src"
      have un: "unat (word_of_nat n :: u64) = n" using Suc.prems(1) by (simp add: unat_word_of_nat)
      have t: "unat (word_of_nat n - ?d) < n" using True by (simp add: in_range_def algebra_simps)
      have lt: "word_of_nat n < ?d" using o un by (simp add: word_less_nat_alt)
      have "unat (word_of_nat n - ?d) = 2 ^ 64 + n - unat ?d"
        using lt un by (simp add: unat_sub_if_size word_size word_less_nat_alt not_le)
      moreover have "unat ?d < 2 ^ 64" using unat_bound [of ?d] by simp
      ultimately have "n < unat (word_of_nat n - ?d)" by arith
      then show ?thesis using t by simp
    qed (simp add: fold_same)
  qed (simp add: IH)
  have f: "fold ?f [0..<Suc n] m = (fold ?f [0..<n] m)(dst + word_of_nat n := m (src + word_of_nat n))"
    by (simp add: rd)
  show ?case
    unfolding f IH using Suc.prems(1) by (auto simp: fun_eq_iff in_range_Suc)
qed (simp add: in_range_def fun_eq_iff)

section \<open>Counted strings\<close>

record UNICODE_STRING =
  Length :: u16
  MaxLength :: u16
  Buffer :: ptr

text \<open>The state: the descriptors, and the characters by address (two bytes each for a
  UNICODE_STRING, one for a STRING).\<close>

record 'c strings =
  str :: "ptr \<Rightarrow> UNICODE_STRING"
  chars :: "ptr \<Rightarrow> 'c"

definition wchar_at :: "u16 strings \<Rightarrow> ptr \<Rightarrow> nat \<Rightarrow> u16" where
  "wchar_at s buf i = chars s (buf + 2 * word_of_nat i)"

definition char_at :: "u8 strings \<Rightarrow> ptr \<Rightarrow> nat \<Rightarrow> u8" where
  "char_at s buf i = chars s (buf + word_of_nat i)"

fun compare_wchars :: "u16 strings \<Rightarrow> ptr \<Rightarrow> ptr \<Rightarrow> nat list \<Rightarrow> int" where
  "compare_wchars s a b [] = 0"
| "compare_wchars s a b (i # is) =
     (if wchar_at s a i > wchar_at s b i then 1
      else if wchar_at s a i < wchar_at s b i then -1
      else compare_wchars s a b is)"

definition RtlCompareUnicodeString :: "ptr \<Rightarrow> ptr \<Rightarrow> bool \<Rightarrow> u16 strings \<Rightarrow> int" where
  "RtlCompareUnicodeString A B IgnoreCase s =
     (if Length (str s A) > Length (str s B) then 1
      else if Length (str s A) < Length (str s B) then -1
      else compare_wchars s (Buffer (str s A)) (Buffer (str s B)) [0..<unat (Length (str s A)) div 2])"

definition RtlEqualUnicodeString :: "ptr \<Rightarrow> ptr \<Rightarrow> bool \<Rightarrow> u16 strings \<Rightarrow> bool" where
  "RtlEqualUnicodeString A B IgnoreCase s = (RtlCompareUnicodeString A B IgnoreCase s = 0)"

text \<open>PCHAR points to signed characters.\<close>

fun compare_chars :: "u8 strings \<Rightarrow> ptr \<Rightarrow> ptr \<Rightarrow> nat list \<Rightarrow> int" where
  "compare_chars s a b [] = 0"
| "compare_chars s a b (i # is) =
     (if char_at s b i <s char_at s a i then 1
      else if char_at s a i <s char_at s b i then -1
      else compare_chars s a b is)"

definition RtlCompareString :: "ptr \<Rightarrow> ptr \<Rightarrow> bool \<Rightarrow> u8 strings \<Rightarrow> int" where
  "RtlCompareString A B IgnoreCase s =
     (if Length (str s A) > Length (str s B) then 1
      else if Length (str s A) < Length (str s B) then -1
      else compare_chars s (Buffer (str s A)) (Buffer (str s B)) [0..<unat (Length (str s A))])"

definition RtlEqualString :: "ptr \<Rightarrow> ptr \<Rightarrow> bool \<Rightarrow> u8 strings \<Rightarrow> bool" where
  "RtlEqualString A B IgnoreCase s = (RtlCompareString A B IgnoreCase s = 0)"

function cat_loop :: "ptr \<Rightarrow> ptr \<Rightarrow> nat \<Rightarrow> u16 strings \<Rightarrow> nat \<times> u16 strings" where
  "cat_loop D S i s =
     (if i < unat (Length (str s S)) div 2 \<and> Length (str s D) < MaxLength (str s D)
      then
        let d = str s D;
            c = wchar_at s (Buffer (str s S)) i;
            s = s\<lparr>chars := (chars s)(Buffer d + 2 * word_of_nat (unat (Length d) div 2) := c)\<rparr>;
            s = s\<lparr>str := (str s)(D := d\<lparr>Length := Length d + 2\<rparr>)\<rparr>
        in cat_loop D S (Suc i) s
      else (i, s))"
  by pat_completeness auto

lemma half_length: "unat (l :: u16) div 2 < 0x8000"
  using unat_bound [of l] by simp

lemma half_length_less: "i < unat (l :: u16) div 2 \<Longrightarrow> 0x8000 - Suc i < 0x8000 - i"
  using half_length [of l] by linarith

termination cat_loop
  by (relation "measure (\<lambda>(D, S, i, s). 0x8000 - i)") (auto dest: half_length_less simp del: diff_Suc_less One_nat_def)

definition RtlUnicodeStringCat :: "ptr \<Rightarrow> ptr \<Rightarrow> u16 strings \<Rightarrow> NTSTATUS \<times> u16 strings" where
  "RtlUnicodeStringCat D S s =
     (if D = NULL \<or> S = NULL then (STATUS_INVALID_PARAMETER, s)
      else if Buffer (str s D) = NULL \<or> Buffer (str s S) = NULL then (STATUS_INVALID_PARAMETER, s)
      else if Length (str s D) = MaxLength (str s D) \<and> Length (str s S) > 0 then (STATUS_INVALID_PARAMETER, s)
      else
        let (i, s) = cat_loop D S 0 s
        in (if i < unat (Length (str s S)) div 2 then STATUS_BUFFER_OVERFLOW else STATUS_SUCCESS, s))"

lemma wchar_addr_inj:
  assumes "j < 0x8000" "k < 0x8000" "b + 2 * word_of_nat j = b + 2 * (word_of_nat k :: ptr)"
  shows "j = k"
proof -
  have "unat (2 * word_of_nat j :: ptr) = 2 * j" if "j < 0x8000" for j
    using that by (simp add: unat_word_ariths unat_of_nat)
  then show ?thesis using assms by (metis add_left_cancel mult_left_cancel zero_neq_numeral)
qed

text \<open>The effect of appending n characters of the buffer a, from index i on, to string D.\<close>

definition appended :: "ptr \<Rightarrow> ptr \<Rightarrow> nat \<Rightarrow> nat \<Rightarrow> u16 strings \<Rightarrow> u16 strings \<Rightarrow> bool" where
  "appended D a i n s s' =
     (let b = Buffer (str s D); d = unat (Length (str s D)) div 2 in
      str s' = (str s)(D := (str s D)\<lparr>Length := Length (str s D) + 2 * word_of_nat n\<rparr>) \<and>
      (\<forall>k<n. wchar_at s' b (d + k) = wchar_at s a (i + k)) \<and>
      (\<forall>x. (\<forall>k<n. x \<noteq> b + 2 * word_of_nat (d + k)) \<longrightarrow> chars s' x = chars s x))"

lemma appended_0: "appended D a i 0 s s"
  by (simp add: appended_def Let_def)

lemma appended_Suc:
  fixes D :: ptr
  assumes d: "d = unat (Length (str s D)) div 2" "unat (Length (str s D)) = 2 * d" "d + Suc n < 0x8000"
    and b: "b = Buffer (str s D)"
    and s1: "s1 = s\<lparr>chars := (chars s)(b + 2 * word_of_nat d := wchar_at s a i),
                 str := (str s)(D := (str s D)\<lparr>Length := Length (str s D) + 2\<rparr>)\<rparr>"
    and apart: "\<forall>k\<le>n. a + 2 * word_of_nat (i + k) \<noteq> b + 2 * word_of_nat d"
    and ap: "appended D a (Suc i) n s1 s'"
  shows "appended D a i (Suc n) s s'"
proof -
  have L: "unat (Length (str s D) + 2) = 2 * Suc d"
    using d by (simp add: unat_word_ariths)
  have S: "str s1 D = (str s D)\<lparr>Length := Length (str s D) + 2\<rparr>" by (simp add: s1)
  have ap': "str s' = (str s1)(D := (str s1 D)\<lparr>Length := Length (str s D) + 2 + 2 * word_of_nat n\<rparr>)"
    "\<forall>k<n. wchar_at s' b (Suc d + k) = wchar_at s1 a (Suc i + k)"
    "\<forall>x. (\<forall>k<n. x \<noteq> b + 2 * word_of_nat (Suc d + k)) \<longrightarrow> chars s' x = chars s1 x"
    using ap L by (simp_all add: appended_def Let_def S b add.assoc)
  have rd: "wchar_at s1 a (i + k) = wchar_at s a (i + k)" if "k \<le> n" for k
    using apart that by (simp add: s1 wchar_at_def)
  have 1: "wchar_at s' b (d + k) = wchar_at s a (i + k)" if k: "k < Suc n" for k
  proof (cases k)
    case 0
    have "b + 2 * word_of_nat d \<noteq> b + 2 * word_of_nat (Suc d + k)" if "k < n" for k
      using wchar_addr_inj [of d "Suc d + k" b] that d(3) by force
    then have "chars s' (b + 2 * word_of_nat d) = chars s1 (b + 2 * word_of_nat d)" using ap'(3) by blast
    then show ?thesis using 0 by (simp add: wchar_at_def s1)
  next
    case (Suc j)
    then have "wchar_at s' b (Suc d + j) = wchar_at s1 a (Suc i + j)" using ap'(2) k by simp
    then show ?thesis using Suc rd [of "Suc j"] k by simp
  qed
  have 2: "chars s' x = chars s x" if x: "\<forall>k<Suc n. x \<noteq> b + 2 * word_of_nat (d + k)" for x
  proof -
    have "x \<noteq> b + 2 * word_of_nat (Suc d + k)" if "k < n" for k
      using x [rule_format, of "Suc k"] that by simp
    then have "chars s' x = chars s1 x" using ap'(3) by blast
    moreover have "x \<noteq> b + 2 * word_of_nat d" using x [rule_format, of 0] by simp
    ultimately show ?thesis by (simp add: s1)
  qed
  have "str s' = (str s)(D := (str s D)\<lparr>Length := Length (str s D) + 2 * word_of_nat (Suc n)\<rparr>)"
    using ap'(1) by (simp add: s1 S algebra_simps)
  then show ?thesis using 1 2 d(1) b by (simp add: appended_def Let_def)
qed

lemma cat_loop_spec:
  fixes D S :: ptr
  assumes "D \<noteq> S" "Buffer (str s D) = b" "Buffer (str s S) = a"
    and "unat (Length (str s D)) = 2 * d" "unat (MaxLength (str s D)) = 2 * m" "d \<le> m"
    and "unat (Length (str s S)) div 2 = l" "i \<le> l"
    and "\<forall>k<l. \<forall>j<m. a + 2 * word_of_nat k \<noteq> b + 2 * word_of_nat j"
  shows "\<exists>s'. cat_loop D S i s = (i + min (l - i) (m - d), s') \<and>
    appended D a i (min (l - i) (m - d)) s s'"
  using assms
proof (induction "l - i" arbitrary: i d s)
  case 0
  then show ?case by (subst cat_loop.simps) (simp add: appended_0)
next
  case (Suc r)
  have mb: "2 * m < 0x10000" using Suc.prems(5) unat_bound [of "MaxLength (str s D)"] by simp
  have il: "i < l" using Suc.hyps by simp
  show ?case
  proof (cases "d < m")
    case False
    then have "\<not> Length (str s D) < MaxLength (str s D)"
      using Suc.prems(4,5,6) by (simp add: word_less_nat_alt)
    then show ?thesis using False Suc.prems(6) by (subst cat_loop.simps) (simp add: appended_0)
  next
    case True
    let ?s = "s\<lparr>chars := (chars s)(b + 2 * word_of_nat d := wchar_at s a i),
                str := (str s)(D := (str s D)\<lparr>Length := Length (str s D) + 2\<rparr>)\<rparr>"
    have L: "unat (Length (str s D) + 2) = 2 * Suc d"
      using Suc.prems(4) True mb by (simp add: unat_word_ariths)
    have lt: "Length (str s D) < MaxLength (str s D)"
      using Suc.prems(4,5) True by (simp add: word_less_nat_alt)
    have "cat_loop D S i s = cat_loop D S (Suc i) ?s"
      using Suc.prems(1-4,7) il lt by (subst cat_loop.simps) (simp add: Let_def)
    moreover obtain s' where s': "cat_loop D S (Suc i) ?s = (Suc i + min (l - Suc i) (m - Suc d), s')"
      "appended D a (Suc i) (min (l - Suc i) (m - Suc d)) ?s s'"
    proof -
      have "\<exists>s'. cat_loop D S (Suc i) ?s = (Suc i + min (l - Suc i) (m - Suc d), s') \<and>
        appended D a (Suc i) (min (l - Suc i) (m - Suc d)) ?s s'"
        by (rule Suc.hyps(1)) (use Suc.hyps(2) Suc.prems L True il in auto)
      then show thesis using that by blast
    qed
    moreover have mn: "min (l - i) (m - d) = Suc (min (l - Suc i) (m - Suc d))" using il True by simp
    moreover have "appended D a i (Suc (min (l - Suc i) (m - Suc d))) s s'"
    proof (rule appended_Suc [where d = d and b = b, OF _ _ _ _ refl _ s'(2)])
      show "\<forall>k\<le>min (l - Suc i) (m - Suc d). a + 2 * word_of_nat (i + k) \<noteq> b + 2 * word_of_nat d"
      proof (intro allI impI)
        fix k assume "k \<le> min (l - Suc i) (m - Suc d)"
        then have "i + k < l" using il by linarith
        then show "a + 2 * word_of_nat (i + k) \<noteq> b + 2 * word_of_nat d"
          using Suc.prems(9) True by blast
      qed
    qed (use Suc.prems True mb in auto)
    ultimately show ?thesis by simp
  qed
qed

section \<open>Comparison\<close>

lemma compare_wchars_zero:
  "compare_wchars s a b is = 0 \<longleftrightarrow> (\<forall>i\<in>set is. wchar_at s a i = wchar_at s b i)"
  by (induction "is") auto

lemma compare_wchars_swap: "compare_wchars s b a is = - compare_wchars s a b is"
  by (induction "is") auto

lemma compare_chars_zero:
  "compare_chars s a b is = 0 \<longleftrightarrow> (\<forall>i\<in>set is. char_at s a i = char_at s b i)"
  by (induction "is") (auto simp: word_sless_alt intro: signed_word_eqI [OF sym])

lemma compare_wchars_trans:
  "compare_wchars s a b is \<le> 0 \<Longrightarrow> compare_wchars s b c is \<le> 0 \<Longrightarrow> compare_wchars s a c is \<le> 0"
  by (induction "is") (auto split: if_splits)

section \<open>Characters and numbers\<close>

definition ToUppercase :: "u8 \<Rightarrow> u8" where
  "ToUppercase c = (if 0x61 \<le>s c \<and> c \<le>s 0x7A then c + (0x41 - 0x61) else c)"

definition ToLowercase :: "u8 \<Rightarrow> u8" where
  "ToLowercase c = (if 0x41 \<le>s c \<and> c \<le>s 0x5A then c - (0x41 - 0x61) else c)"

definition FindCharacterLast :: "(nat \<Rightarrow> u8) \<Rightarrow> u64 \<Rightarrow> u8 \<Rightarrow> u64" where
  "FindCharacterLast string len character =
     fold (\<lambda>i current. if string i = character then word_of_nat i else current) [0..<unat len] (- 1)"

definition FindCharacterFirst :: "(nat \<Rightarrow> u8) \<Rightarrow> u64 \<Rightarrow> u8 \<Rightarrow> u64" where
  "FindCharacterFirst string len character =
     (case List.find (\<lambda>i. string i = character) [0..<unat len] of Some i \<Rightarrow> word_of_nat i | None \<Rightarrow> - 1)"

text \<open>The loops of IntegerToAsciiBase: counting the digits (p moves along), and writing them
  backwards from p. A base of 1 or -1 never ends; a digit outside the digit string is a Fault.\<close>

partial_function (option) count_digits :: "u64 \<Rightarrow> u64 \<Rightarrow> u64 \<Rightarrow> u64 option" where
  "count_digits base i counter =
     (let i = i div base; counter = counter + 1
      in if i \<noteq> 0 then count_digits base i counter else Some counter)"

partial_function (option) write_digits :: "u8 list \<Rightarrow> u64 \<Rightarrow> u64 \<Rightarrow> ptr \<Rightarrow> mem \<Rightarrow> mem outcome option" where
  "write_digits digit base i p m =
     (let d = unat (i mod base) in
      if d \<ge> length digit then Some Fault
      else
        let p = p - 1; m = m(p := digit ! d); i = i div base
        in if i \<noteq> 0 then write_digits digit base i p m else Some (Done m))"

text \<open>The string literal that holds the digits ends with a zero byte. The base is an INT8, extended to
  64 bits by the divisions; the conversion of a NULL buffer only counts.\<close>

definition IntegerToAsciiBase :: "u64 \<Rightarrow> u8 \<Rightarrow> ptr \<Rightarrow> u8 list \<Rightarrow> mem \<Rightarrow> (u64 \<times> mem) outcome" where
  "IntegerToAsciiBase i base b digit m =
     (let p = b; shifter = i in
      if base = 0 then Done (0, m)
      else
        let (i, counter, m) =
              (if base <s 0 \<and> i <s 0
               then (- i, if b \<noteq> NULL then 0 else 1, if b \<noteq> NULL then m(b := 0x2D) else m)
               else (i, 0, m));
            base = (if base <s 0 then - base else base)
        in if b = NULL
           then (case count_digits (scast base) i counter of None \<Rightarrow> Hang | Some c \<Rightarrow> Done (c, m))
           else (case count_digits (scast base) shifter counter of
                   None \<Rightarrow> Hang
                 | Some c \<Rightarrow>
                     obind (run_loop (write_digits digit (scast base) i (p + c) (m(p + c := 0))))
                       (\<lambda>m. Done (c, m))))"

definition lower_digits :: "u8 list" where
  "lower_digits = [0x30, 0x31, 0x32, 0x33, 0x34, 0x35, 0x36, 0x37, 0x38, 0x39, 0x61, 0x62, 0x63, 0x64, 0x65, 0x66, 0]"

definition upper_digits :: "u8 list" where
  "upper_digits = [0x30, 0x31, 0x32, 0x33, 0x34, 0x35, 0x36, 0x37, 0x38, 0x39, 0x41, 0x42, 0x43, 0x44, 0x45, 0x46, 0]"

definition IntegerToAscii :: "u64 \<Rightarrow> u8 \<Rightarrow> ptr \<Rightarrow> mem \<Rightarrow> (u64 \<times> mem) outcome" where
  "IntegerToAscii i base b = IntegerToAsciiBase i base b lower_digits"

definition IntegerToAsciiCapital :: "u64 \<Rightarrow> u8 \<Rightarrow> ptr \<Rightarrow> mem \<Rightarrow> (u64 \<times> mem) outcome" where
  "IntegerToAsciiCapital i base b = IntegerToAsciiBase i base b upper_digits"

text \<open>The digits of n in base B, most significant first.\<close>

fun digits :: "nat \<Rightarrow> nat \<Rightarrow> nat list" where
  "digits B n = (if B < 2 \<or> n < B then [n] else digits B (n div B) @ [n mod B])"

declare digits.simps [simp del]

definition value_of :: "nat \<Rightarrow> nat list \<Rightarrow> nat" where
  "value_of B = foldl (\<lambda>a d. B * a + d) 0"

lemma value_of_digits: "2 \<le> B \<Longrightarrow> value_of B (digits B n) = n"
proof (induction B n rule: digits.induct)
  case (1 B n)
  show ?case using 1 by (subst digits.simps) (auto simp: value_of_def)
qed

lemma digits_bound: "2 \<le> B \<Longrightarrow> d \<in> set (digits B n) \<Longrightarrow> d < B"
proof (induction B n rule: digits.induct)
  case (1 B n)
  show ?case using 1 by (subst (asm) digits.simps) (auto split: if_splits)
qed

lemma digits_length: "2 \<le> B \<Longrightarrow> n < 2 ^ k \<Longrightarrow> length (digits B n) \<le> max 1 k"
proof (induction k arbitrary: n)
  case 0
  then show ?case by (subst digits.simps) simp
next
  case (Suc k)
  have "n div B \<le> n div 2" using Suc.prems(1) by (simp add: div_le_mono2)
  then have "n div B < 2 ^ k" using Suc.prems(2) by simp
  then have IH: "length (digits B (n div B)) \<le> max 1 k" by (rule Suc.IH [OF Suc.prems(1)])
  show ?case
  proof (cases "n < B")
    case False
    then have "0 < n div B" using Suc.prems(1) by (simp add: div_greater_zero_iff)
    then have "k \<noteq> 0" using \<open>n div B < 2 ^ k\<close> by (cases k) auto
    then show ?thesis using IH by (subst digits.simps) simp
  qed (subst digits.simps, simp)
qed

lemma digits_word_length: "2 \<le> B \<Longrightarrow> length (digits B (unat (i :: u64))) \<le> 64"
  using digits_length [of B "unat i" 64] unat_bound [of i] by simp

lemma div_zero_iff: "unat (base :: u64) \<noteq> 0 \<Longrightarrow> i div base \<noteq> 0 \<longleftrightarrow> \<not> unat i < unat base"
  by (simp add: unat_gt_0 [symmetric] unat_div_distrib div_greater_zero_iff not_less)

lemma count_digits_eq:
  "2 \<le> unat base \<Longrightarrow> count_digits base i c = Some (c + word_of_nat (length (digits (unat base) (unat i))))"
proof (induction "unat i" arbitrary: i c rule: less_induct)
  case less
  show ?case
  proof (cases "unat i < unat base")
    case True
    then show ?thesis using less.prems div_zero_iff [of base i]
      by (subst count_digits.simps) (simp add: Let_def digits.simps [of "unat base" "unat i"])
  next
    case False
    have "unat (i div base) < unat i"
      using False less.prems by (simp add: unat_div_distrib)
    then have IH: "count_digits base (i div base) (c + 1) =
      Some (c + 1 + word_of_nat (length (digits (unat base) (unat (i div base)))))"
      using less by blast
    have "digits (unat base) (unat i) = digits (unat base) (unat (i div base)) @ [unat i mod unat base]"
      using False less.prems by (subst digits.simps) (simp add: unat_div_distrib)
    then show ?thesis using False less.prems div_zero_iff [of base i] IH
      by (subst count_digits.simps) (simp add: Let_def algebra_simps)
  qed
qed

text \<open>Memory with the bytes ds written at address a.\<close>

definition store :: "ptr \<Rightarrow> u8 list \<Rightarrow> mem \<Rightarrow> mem" where
  "store a ds m = (\<lambda>x. if in_range a (length ds) x then ds ! unat (x - a) else m x)"

lemma store_Nil [simp]: "store a [] m = m"
  by (simp add: store_def in_range_def)

lemma store_snoc:
  "Suc (length ds) \<le> 2 ^ 64 \<Longrightarrow> store a (ds @ [d]) m = store a ds (m(a + word_of_nat (length ds) := d))"
  by (auto simp: store_def fun_eq_iff in_range_Suc nth_append in_range_def unat_diff_eq [symmetric])

lemma store_nth: "k < length ds \<Longrightarrow> length ds \<le> 2 ^ 64 \<Longrightarrow> store a ds m (a + word_of_nat k) = ds ! k"
  by (simp add: store_def in_range_def unat_word_of_nat)

lemma store_outside: "\<not> in_range a (length ds) x \<Longrightarrow> store a ds m x = m x"
  by (simp add: store_def)

lemma write_digits_eq:
  assumes "2 \<le> unat base" "unat base \<le> length digit"
  shows "write_digits digit base i p m =
    Some (Done (store (p - word_of_nat (length (digits (unat base) (unat i))))
      (map ((!) digit) (digits (unat base) (unat i))) m))"
  using assms(1)
proof (induction "unat i" arbitrary: i p m rule: less_induct)
  case less
  let ?ds = "\<lambda>i. digits (unat base) (unat i)"
  have d: "unat (i mod base) = unat i mod unat base" by (simp add: unat_mod_distrib)
  have dl: "unat i mod unat base < length digit"
    using assms mod_less_divisor [of "unat base" "unat i"] by linarith
  show ?case
  proof (cases "unat i < unat base")
    case True
    have "?ds i = [unat i]" using True by (subst digits.simps) simp
    then show ?thesis using True less.prems div_zero_iff [of base i] d dl store_snoc [of "[]" "p - 1"]
      by (subst write_digits.simps) (simp add: Let_def)
  next
    case False
    have "unat (i div base) < unat i"
      using False less.prems by (simp add: unat_div_distrib)
    then have IH: "write_digits digit base (i div base) (p - 1) m' =
      Some (Done (store (p - 1 - word_of_nat (length (?ds (i div base)))) (map ((!) digit) (?ds (i div base))) m'))"
      for m' using less by blast
    have ds: "?ds i = ?ds (i div base) @ [unat i mod unat base]"
      using False less.prems by (subst digits.simps) (simp add: unat_div_distrib)
    have len: "Suc (length (?ds (i div base))) \<le> 2 ^ 64"
      using digits_word_length [OF less.prems, of "i div base"] by simp
    show ?thesis using False less.prems div_zero_iff [of base i] IH d dl len
      by (subst write_digits.simps) (simp add: Let_def ds store_snoc algebra_simps)
  qed
qed

lemma scast_base:
  "2 \<le> unat (base :: u8) \<Longrightarrow> unat base < 128 \<Longrightarrow> unat (scast base :: u64) = unat base \<and> \<not> base <s 0"
proof -
  assume b: "2 \<le> unat base" "unat base < 128"
  have "int (unat base) < int 128" using b(2) by (simp only: of_nat_less_iff)
  then have lt: "uint base < 2 ^ 7" by simp
  have ge: "- (2 ^ 7) \<le> uint base" by (rule order_trans [of _ 0]) simp_all
  have L: "LENGTH(8) - Suc 0 = 7" by simp
  have s: "sint base = uint base"
    unfolding sint_uint L by (rule signed_take_bit_int_eq_self [OF ge lt])
  have "(scast base :: u64) = ucast base" unfolding scast_eq s by simp
  then have "unat (scast base :: u64) = unat base"
    using b(2) by (simp add: unsigned_ucast_eq take_bit_nat_eq_self)
  moreover have "0 \<le> sint base" unfolding s by simp
  ultimately show ?thesis by (simp add: word_sless_alt)
qed

lemma ascii_conversion:
  assumes "2 \<le> unat base" "unat base < 128" "unat base \<le> length digit" "b \<noteq> NULL"
  shows "IntegerToAsciiBase i base b digit m = (let ds = map ((!) digit) (digits (unat base) (unat i)) in
    Done (word_of_nat (length ds), store b ds (m(b + word_of_nat (length ds) := 0))))"
proof -
  let ?B = "scast base :: u64" let ?ds = "digits (unat base) (unat i)"
  have B: "unat ?B = unat base" "\<not> base <s 0" using scast_base [OF assms(1,2)] by blast+
  have z: "base \<noteq> 0" using assms(1) by auto
  have c: "count_digits ?B i 0 = Some (word_of_nat (length ?ds))"
    using count_digits_eq [of ?B i 0] assms(1) B by simp
  have w: "write_digits digit ?B i p m = Some (Done (store (p - word_of_nat (length ?ds)) (map ((!) digit) ?ds) m))" for p m
    using write_digits_eq [of ?B digit i p m] assms(1,3) B by simp
  show ?thesis
    unfolding IntegerToAsciiBase_def using B(2) z assms(4) c w by (simp add: Let_def run_loop_def)
qed

lemma ascii_negative:
  assumes "2 \<le> unat (- base)" "unat (- base) < 128" "unat (- base) \<le> length digit" "b \<noteq> NULL"
    and "base <s 0" "i <s 0"
  shows "IntegerToAsciiBase i base b digit m =
    (let n = length (digits (unat (- base)) (unat i)); ds = map ((!) digit) (digits (unat (- base)) (unat (- i))) in
     Done (word_of_nat n, store (b + word_of_nat n - word_of_nat (length ds)) ds (m(b := 0x2D, b + word_of_nat n := 0))))"
proof -
  let ?B = "scast (- base) :: u64" let ?u = "digits (unat (- base)) (unat i)"
  let ?a = "digits (unat (- base)) (unat (- i))"
  have B: "unat ?B = unat (- base)" using scast_base [OF assms(1,2)] by blast
  have z: "base \<noteq> 0" using assms(1) by auto
  have c: "count_digits ?B i 0 = Some (word_of_nat (length ?u))"
    using count_digits_eq [of ?B i 0] assms(1) B by simp
  have w: "write_digits digit ?B (- i) p m = Some (Done (store (p - word_of_nat (length ?a)) (map ((!) digit) ?a) m))" for p m
    using write_digits_eq [of ?B digit "- i" p m] assms(1,3) B by simp
  show ?thesis
    unfolding IntegerToAsciiBase_def using assms(4-6) z c w by (simp add: Let_def run_loop_def)
qed

section \<open>Properties\<close>

text \<open>Copying up to 0x7FFFFFFF bytes makes the destination what the source was and leaves all
  other memory alone, unless the destination starts inside the source; a larger size overflows
  the int that counts the bytes.\<close>

lemma RtlCopyMemory_spec:
  "(unat count < 2 ^ 31 \<longrightarrow> dst = src \<or> \<not> in_range src (unat count) dst \<longrightarrow>
     RtlCopyMemory dst src count m =
       Done (\<lambda>x. if in_range dst (unat count) x then m (src + (x - dst)) else m x)) \<and>
   (2 ^ 31 \<le> unat count \<longrightarrow> RtlCopyMemory dst src count m = Fault)"
proof -
  have "\<not> count > 0x7FFFFFFF \<longleftrightarrow> unat count < 2 ^ 31" by (auto simp: word_less_nat_alt)
  then show ?thesis
    using copy_fold [of "unat count" dst src m] unfolding RtlCopyMemory_def by auto
qed

lemma RtlCopyMemory_spec_example:
  "\<exists>m'. RtlCopyMemory 0x1000 0x1002 4 (\<lambda>x. ucast x) = Done m' \<and> m' 0x1000 = 2 \<and> m' 0x1003 = 5 \<and>
     RtlCopyMemory 0x1000 0x1002 0x80000000 (\<lambda>x. ucast x) = Fault"
  using RtlCopyMemory_spec [of 4 "0x1000" "0x1002" "\<lambda>x. ucast x"]
    RtlCopyMemory_spec [of "0x80000000" "0x1000" "0x1002" "\<lambda>x. ucast x"]
  by (simp add: in_range_def)

text \<open>C9: RtlUnicodeStringCat appends as many characters of the source as the destination has
  room for, changes only those characters and the length, and returns STATUS_BUFFER_OVERFLOW when
  some did not fit (STATUS_INVALID_PARAMETER, with no change, when the destination was already
  full). The lengths of the destination are even, the buffers do not overlap.\<close>

theorem RtlUnicodeStringCat_spec:
  fixes D S :: ptr
  assumes "D \<noteq> NULL" "S \<noteq> NULL" "D \<noteq> S" "Buffer (str s D) \<noteq> NULL" "Buffer (str s S) \<noteq> NULL"
    and "unat (Length (str s D)) = 2 * d" "unat (MaxLength (str s D)) = 2 * m" "d \<le> m"
    and "unat (Length (str s S)) = 2 * l"
    and "\<forall>k<l. \<forall>j<m. Buffer (str s S) + 2 * word_of_nat k \<noteq> Buffer (str s D) + 2 * word_of_nat j"
  shows "\<exists>s'. RtlUnicodeStringCat D S s =
      (if l \<le> m - d then STATUS_SUCCESS else if d = m then STATUS_INVALID_PARAMETER else STATUS_BUFFER_OVERFLOW, s') \<and>
    appended D (Buffer (str s S)) 0 (min l (m - d)) s s'"
proof (cases "d = m \<and> l \<noteq> 0")
  case True
  then have "Length (str s D) = MaxLength (str s D)" "Length (str s S) > 0"
    using assms(6,7,9) by (simp_all add: word_unat_eq_iff word_gt_0 unat_gt_0 [symmetric])
  then show ?thesis using True assms(1-5) appended_0 [of D "Buffer (str s S)" 0 s]
    by (simp add: RtlUnicodeStringCat_def)
next
  case False
  obtain s' where s': "cat_loop D S 0 s = (min l (m - d), s')" "appended D (Buffer (str s S)) 0 (min l (m - d)) s s'"
    using cat_loop_spec [of D S s "Buffer (str s D)" "Buffer (str s S)" d m l 0] assms by auto
  have n: "\<not> (Length (str s D) = MaxLength (str s D) \<and> Length (str s S) > 0)"
    using False assms(6,7,9) by (auto simp: word_unat_eq_iff word_gt_0 unat_gt_0 [symmetric])
  have "Length (str s' S) = Length (str s S)" using s'(2) assms(3) by (simp add: appended_def Let_def)
  then show ?thesis using s' n False assms(1-5,9) by (auto simp: RtlUnicodeStringCat_def)
qed

text \<open>Two strings: "ab" with room for four characters, and "cde".\<close>

definition two_strings :: "u16 strings" where
  "two_strings = \<lparr>str = (\<lambda>a. if a = 1 then \<lparr>Length = 4, MaxLength = 8, Buffer = 0x100\<rparr>
                              else \<lparr>Length = 6, MaxLength = 6, Buffer = 0x200\<rparr>),
     chars = (\<lambda>_. 0)(0x100 := 0x61, 0x102 := 0x62, 0x200 := 0x63, 0x202 := 0x64, 0x204 := 0x65)\<rparr>"

theorem RtlUnicodeStringCat_spec_witness:
  "\<exists>s'. RtlUnicodeStringCat 1 2 two_strings = (STATUS_BUFFER_OVERFLOW, s') \<and>
     appended 1 0x200 0 2 two_strings s'"
proof -
  have "(0x200 :: ptr) + 2 * word_of_nat k \<noteq> 0x100 + 2 * word_of_nat j" if "k < 3" "j < 4" for k j
  proof
    assume "(0x200 :: ptr) + 2 * word_of_nat k = 0x100 + 2 * word_of_nat j"
    then have "unat ((0x200 :: ptr) + 2 * word_of_nat k) = unat ((0x100 :: ptr) + 2 * word_of_nat j)" by (rule arg_cong)
    then show False using that by (simp add: unat_word_ariths unat_word_of_nat)
  qed
  then show ?thesis
    using RtlUnicodeStringCat_spec [of 1 2 two_strings 2 4 3] by (simp add: two_strings_def)
qed

text \<open>C10: converting a number to text with a positive base B from 2 to 16 writes its digits and a zero
  byte, and nothing else, and returns their number; read back in base B they are the number.\<close>

theorem IntegerToAscii_spec:
  assumes "2 \<le> unat base" "unat base \<le> 16" "b \<noteq> NULL"
  shows "\<exists>ds m'. IntegerToAscii i base b m = Done (word_of_nat (length ds), m') \<and>
    value_of (unat base) ds = unat i \<and> (\<forall>d\<in>set ds. d < unat base) \<and>
    m' = store b (map ((!) lower_digits) ds @ [0]) m"
proof -
  let ?ds = "digits (unat base) (unat i)"
  have "Suc (length ?ds) \<le> 2 ^ 64" using digits_word_length [OF assms(1), of i] by simp
  then show ?thesis
    using ascii_conversion [of base lower_digits b i m] assms value_of_digits [OF assms(1)] digits_bound [OF assms(1)]
    by (intro exI [of _ ?ds])
      (simp add: IntegerToAscii_def store_snoc Let_def lower_digits_def)
qed

theorem IntegerToAscii_spec_witness:
  "\<exists>ds m'. IntegerToAscii 255 16 0x1000 (\<lambda>_. 1) = Done (word_of_nat (length ds), m') \<and> value_of 16 ds = 255 \<and>
     m' = store 0x1000 (map ((!) lower_digits) ds @ [0]) (\<lambda>_. 1)"
  using IntegerToAscii_spec [of 16 "0x1000" 255 "\<lambda>_. 1"] by auto

text \<open>A negative number in a negative base is not written as its digits after a minus sign. The
  length is that of the number read as unsigned, and the digits of the absolute value stand at the
  end of it: the bytes between the sign and the digits keep what the buffer held.\<close>

lemma IntegerToAscii_negative:
  assumes "2 \<le> unat (- base)" "unat (- base) \<le> 16" "base <s 0" "i <s 0" "b \<noteq> NULL"
  defines "n \<equiv> length (digits (unat (- base)) (unat i))" and "k \<equiv> length (digits (unat (- base)) (unat (- i)))"
  assumes "k < n"
  shows "\<exists>m'. IntegerToAscii i base b m = Done (word_of_nat n, m') \<and> m' b = 0x2D \<and>
    (\<forall>j. 0 < j \<and> j < n - k \<longrightarrow> m' (b + word_of_nat j) = m (b + word_of_nat j)) \<and> m' (b + word_of_nat n) = 0"
proof -
  let ?ds = "map ((!) lower_digits) (digits (unat (- base)) (unat (- i)))"
  let ?m = "store (b + word_of_nat n - word_of_nat k) ?ds (m(b := 0x2D, b + word_of_nat n := 0))"
  have n: "n \<le> 64" using digits_word_length [OF assms(1), of i] by (simp add: n_def)
  have un: "unat (word_of_nat j :: u64) = j" if "j \<le> 64" for j using that by (simp add: unat_word_of_nat)
  have eq: "b + word_of_nat n - word_of_nat k = b + word_of_nat (n - k)"
    using assms(8) by (simp add: of_nat_diff)
  have out: "?m (b + word_of_nat j) = (m(b := 0x2D, b + word_of_nat n := 0)) (b + word_of_nat j)" if "j < n - k \<or> j = n" for j
  proof (rule store_outside)
    have jn: "j \<le> 64" using that n by auto
    have "(b + word_of_nat j) - (b + word_of_nat (n - k)) = word_of_nat j - word_of_nat (n - k)" by simp
    also have "unat (word_of_nat j - word_of_nat (n - k) :: u64) = (if n - k \<le> j then j - (n - k) else j + 2 ^ 64 - (n - k))"
      unfolding unat_sub_if_size word_le_nat_alt un [OF jn] un [of "n - k", OF le_trans [OF diff_le_self n]]
      by (simp add: word_size del: diff_is_0_eq diff_diff_right)
    finally have "\<not> unat ((b + word_of_nat j) - (b + word_of_nat (n - k))) < k"
      using that n assms(8) by (auto split: if_splits)
    then show "\<not> in_range (b + word_of_nat n - word_of_nat k) (length ?ds) (b + word_of_nat j)"
      unfolding eq by (simp add: in_range_def k_def)
  qed
  have "IntegerToAscii i base b m = Done (word_of_nat n, ?m)"
    using ascii_negative [of base lower_digits b i m] assms(1-5)
    by (simp add: IntegerToAscii_def Let_def lower_digits_def n_def k_def)
  moreover have ne: "b + word_of_nat n \<noteq> b" "\<And>j. 0 < j \<Longrightarrow> j < n - k \<Longrightarrow> (word_of_nat j :: u64) \<noteq> 0 \<and> (word_of_nat j :: u64) \<noteq> word_of_nat n"
    using un n assms(8) by (metis add_cancel_left_right un unat_0 not_less0 order_refl)
     (metis un n less_imp_le_nat less_le_trans diff_le_self nat_neq_iff unat_0 order_trans)
  ultimately show ?thesis
    using out [of 0] out [of n] out assms(8) by (intro exI [of _ ?m]) simp
qed

lemma IntegerToAscii_negative_example:
  "\<exists>m'. IntegerToAscii (- 5) (- 10) 0x1000 (\<lambda>_. 0x3F) = Done (20, m') \<and> m' 0x1000 = 0x2D \<and>
     m' 0x1001 = 0x3F \<and> m' 0x1014 = 0"
proof -
  have d: "digits 10 5 = [5]" by (simp add: digits.simps)
  have l: "length (digits 10 18446744073709551611) = 20" by (simp add: digits.simps)
  show ?thesis
    using IntegerToAscii_negative [of "- 10" "- 5" "0x1000" "\<lambda>_. 0x3F"] d l
    by (auto simp: word_sless_alt dest: spec [of _ 1])
qed

end
