(* ===== verification/Pool.thy ===== *)
theory Pool
  imports Rtl Irql
begin

text \<open>
  The pool manager (NNXOSKRN/pool.c). A pool is a region of memory, described by a
  POOL_DESCRIPTOR of 48 bytes at its start, and tiled by blocks: a POOL_HEADER of 32 bytes
  and the memory of the block. The headers are linked in address order. The headers and
  descriptors are fields by address; the memory of the blocks is a byte map.
\<close>

section \<open>State\<close>

abbreviation (input) BAD_POOL_HEADER :: u32 where "BAD_POOL_HEADER \<equiv> 0x19"
abbreviation (input) BAD_POOL_CALLER :: u32 where "BAD_POOL_CALLER \<equiv> 0xC2"
abbreviation (input) SPIN_LOCK_NOT_OWNED :: u32 where "SPIN_LOCK_NOT_OWNED \<equiv> 0x10"
abbreviation (input) NonPagedPool :: u32 where "NonPagedPool \<equiv> 0"
abbreviation (input) PagedPool :: u32 where "PagedPool \<equiv> 1"

record pool =
  cpool :: cpu
  bheap :: list_heap
  Pools :: "u32 \<Rightarrow> ptr"
  PoolLock :: "ptr \<Rightarrow> KSPIN_LOCK"
  MaximalIrql :: "ptr \<Rightarrow> u8"
  AddressStart :: "ptr \<Rightarrow> ptr"
  AddressEnd :: "ptr \<Rightarrow> ptr"
  AllocationTag :: "ptr \<Rightarrow> u32"
  PoolType :: "ptr \<Rightarrow> u32"
  BlockSize :: "ptr \<Rightarrow> u64"
  pmem :: mem

text \<open>The entry of Pools, an array of 16 pointers: reading the descriptor behind NULL is a Fault.\<close>

definition pool_of :: "u32 \<Rightarrow> pool \<Rightarrow> ptr outcome" where
  "pool_of ty s = (if ty \<ge> 16 \<or> Pools s ty = NULL then Fault else Done (Pools s ty))"

definition lock_pool :: "ptr \<Rightarrow> pool \<Rightarrow> (u8 \<times> pool) outcome" where
  "lock_pool d s = obind (KeAcquireSpinLock (PoolLock s d) (cpool s)) (\<lambda>(irql, l, c).
     Done (irql, s\<lparr>PoolLock := (PoolLock s)(d := l), cpool := c\<rparr>))"

definition unlock_pool :: "ptr \<Rightarrow> u8 \<Rightarrow> pool \<Rightarrow> pool outcome" where
  "unlock_pool d oldIrql s = obind (KeReleaseSpinLock (PoolLock s d) oldIrql (cpool s)) (\<lambda>(l, c).
     Done (s\<lparr>PoolLock := (PoolLock s)(d := l), cpool := c\<rparr>))"

section \<open>Blocks\<close>

definition ExInitEmptyPoolBlock :: "ptr \<Rightarrow> u64 \<Rightarrow> u32 \<Rightarrow> pool \<Rightarrow> pool" where
  "ExInitEmptyPoolBlock b n ty s =
     s\<lparr>AllocationTag := (AllocationTag s)(b := 0), BlockSize := (BlockSize s)(b := n),
       PoolType := (PoolType s)(b := ty)\<rparr>"

definition InsertAfter :: "ptr \<Rightarrow> ptr \<Rightarrow> list_heap \<Rightarrow> list_heap" where
  "InsertAfter oldHeader newHeader h =
     (let h = set_blink newHeader oldHeader h;
          h = set_flink newHeader (flink h oldHeader) h;
          h = set_blink (flink h oldHeader) newHeader h
      in set_flink oldHeader newHeader h)"

definition tag_byte :: "u32 \<Rightarrow> nat \<Rightarrow> u8" where
  "tag_byte Tag i = ucast (drop_bit (8 * i) Tag)"

definition ValidateTag :: "u32 \<Rightarrow> bool" where
  "ValidateTag Tag = list_all (\<lambda>i. \<not> (tag_byte Tag i < 0x20 \<or> tag_byte Tag i > 0x7E)) [0..<4]"

definition ExVerifyPoolBlock :: "ptr \<Rightarrow> u32 \<Rightarrow> pool \<Rightarrow> bool outcome" where
  "ExVerifyPoolBlock b ty s = obind (pool_of ty s) (\<lambda>d.
     let outside = (\<lambda>a. a \<ge> AddressEnd s d \<or> a < AddressStart s d);
         result = True;
         result = (if PoolType s b \<noteq> ty then False else result);
         result = (if result \<and> b \<ge> AddressEnd s d \<or> b < AddressStart s d then False else result);
         result = (if result \<and> flink (bheap s) b \<noteq> d then (if outside (flink (bheap s) b) then False else result) else result);
         result = (if result \<and> blink (bheap s) b \<noteq> d then (if outside (blink (bheap s) b) then False else result) else result);
         result = (if AllocationTag s b \<noteq> 0 then result \<and> ValidateTag (AllocationTag s b) else result)
     in if PoolLock s d = 0 then Bugcheck SPIN_LOCK_NOT_OWNED else Done result)"

text \<open>The enumeration prints the blocks, and spins when one is larger than 0xFFFFFF.\<close>

partial_function (option) enumerate_loop :: "u32 \<Rightarrow> ptr \<Rightarrow> ptr \<Rightarrow> pool \<Rightarrow> unit outcome option" where
  "enumerate_loop ty d current s =
     next_step (ExVerifyPoolBlock current ty s) (\<lambda>ok.
       if ok \<and> current \<noteq> d
       then (if BlockSize s current > 0xFFFFFF then Some Hang
             else enumerate_loop ty d (flink (bheap s) current) s)
       else Some (Done ()))"

definition DebugEnumeratePoolBlocks :: "u32 \<Rightarrow> pool \<Rightarrow> unit outcome" where
  "DebugEnumeratePoolBlocks ty s = obind (pool_of ty s) (\<lambda>d.
     if PoolLock s d = 0 then Bugcheck SPIN_LOCK_NOT_OWNED
     else run_loop (enumerate_loop ty d (flink (bheap s) d) s))"

partial_function (option) verify_loop :: "u32 \<Rightarrow> ptr \<Rightarrow> ptr \<Rightarrow> pool \<Rightarrow> bool outcome option" where
  "verify_loop ty d b s =
     (if b = d then Some (Done True)
      else next_step (ExVerifyPoolBlock b ty s) (\<lambda>ok.
        if \<not> ok then Some (Done False) else verify_loop ty d (flink (bheap s) b) s))"

definition ExVerifyPool :: "u32 \<Rightarrow> pool \<Rightarrow> (bool \<times> pool) outcome" where
  "ExVerifyPool ty s =
     obind (pool_of ty s) (\<lambda>d.
     obind (lock_pool d s) (\<lambda>(irql, s).
     obind (DebugEnumeratePoolBlocks ty s) (\<lambda>_.
     obind (run_loop (verify_loop ty d (flink (bheap s) d) s)) (\<lambda>ok.
     obind (unlock_pool d irql s) (\<lambda>s. Done (ok, s))))))"

section \<open>Initialisation\<close>

definition init_region :: "ptr \<Rightarrow> u64 \<Rightarrow> u8 \<Rightarrow> u32 \<Rightarrow> pool \<Rightarrow> pool" where
  "init_region r n maxIrql ty s =
     (let first = r + 48 in
      s\<lparr>AddressStart := (AddressStart s)(r := r + 48), AddressEnd := (AddressEnd s)(r := r + n),
        MaximalIrql := (MaximalIrql s)(r := maxIrql),
        PoolLock := (PoolLock s)(r := KeInitializeSpinLock (PoolLock s r)),
        Pools := (Pools s)(ty := r),
        PoolType := (PoolType s)(first := ty), BlockSize := (BlockSize s)(first := n - 48 - 32),
        AllocationTag := (AllocationTag s)(first := 0),
        bheap := InsertTailList r first (InitializeListHead r (bheap s))\<rparr>)"

definition ExInitializePool :: "ptr \<Rightarrow> u64 \<Rightarrow> ptr \<Rightarrow> u64 \<Rightarrow> pool \<Rightarrow> NTSTATUS \<times> pool" where
  "ExInitializePool paged pagedSize nonPaged nonPagedSize s =
     (if nonPagedSize \<le> 48 \<or> pagedSize \<le> 48 then (STATUS_NO_MEMORY, s)
      else (STATUS_SUCCESS,
        init_region nonPaged nonPagedSize 0xFF NonPagedPool (init_region paged pagedSize APC_LEVEL PagedPool s)))"

definition ExExpandPool :: "u32 \<Rightarrow> ptr \<Rightarrow> u64 \<Rightarrow> pool \<Rightarrow> (bool \<times> pool) outcome" where
  "ExExpandPool ty pMemory n s =
     (if ty \<ge> 16 then Fault
      else let d = Pools s ty in
        if d = NULL then Done (False, s)
        else
          let s = ExInitEmptyPoolBlock pMemory (n - 32) ty s in
          obind (ExInterlockedInsertTailList d pMemory \<lparr>lcpu = cpool s, llock = PoolLock s d, lheap = bheap s\<rparr>) (\<lambda>(_, l).
            Done (True, s\<lparr>cpool := lcpu l, PoolLock := (PoolLock s)(d := llock l), bheap := lheap l\<rparr>)))"

section \<open>Allocation\<close>

text \<open>The do-while loop that looks for an aligned place in the block memory from start to bend: None
  when there is none.\<close>

partial_function (option) find_place :: "u64 \<Rightarrow> u64 \<Rightarrow> ptr \<Rightarrow> ptr \<Rightarrow> ptr \<Rightarrow> ptr option option" where
  "find_place alignment n start bend potentialDataPtr =
     (let potentialDataEndPtr = potentialDataPtr + n;
          precedingBytes = potentialDataPtr - start;
          followingBytes = bend - potentialDataEndPtr
      in if \<not> (precedingBytes \<noteq> 0 \<and> precedingBytes <s 32) \<and> \<not> (followingBytes \<noteq> 0 \<and> followingBytes <s 32)
         then Some (Some potentialDataPtr)
         else if potentialDataEndPtr < bend
         then find_place alignment n start bend (potentialDataPtr + alignment)
         else Some None)"

text \<open>Splitting block b so that its data start at p.\<close>

definition split_block :: "u32 \<Rightarrow> u64 \<Rightarrow> u32 \<Rightarrow> ptr \<Rightarrow> ptr \<Rightarrow> pool \<Rightarrow> pool" where
  "split_block ty n tag b p s =
     (let start = b + 32; bend = start + BlockSize s b;
          potentialDataEndPtr = p + n; precedingBytes = p - start; followingBytes = bend - potentialDataEndPtr;
          (cur, s) = (if precedingBytes \<noteq> 0
                      then let newHeader = p - 32 in
                        (newHeader, s\<lparr>bheap := InsertAfter b newHeader (bheap s),
                           BlockSize := (BlockSize s)(b := precedingBytes - 32),
                           PoolType := (PoolType s)(newHeader := ty)\<rparr>)
                      else (b, s));
          s = (if followingBytes \<noteq> 0
               then s\<lparr>bheap := InsertAfter cur potentialDataEndPtr (bheap s),
                      BlockSize := (BlockSize s)(potentialDataEndPtr := followingBytes - 32),
                      AllocationTag := (AllocationTag s)(potentialDataEndPtr := 0),
                      PoolType := (PoolType s)(potentialDataEndPtr := ty)\<rparr>
               else s)
      in s\<lparr>BlockSize := (BlockSize s)(cur := n), AllocationTag := (AllocationTag s)(cur := tag)\<rparr>)"

definition first_place :: "u64 \<Rightarrow> ptr \<Rightarrow> ptr" where
  "first_place alignment start = ((start + alignment - 1) div alignment) * alignment"

partial_function (option) alloc_loop ::
  "u32 \<Rightarrow> u64 \<Rightarrow> u64 \<Rightarrow> u32 \<Rightarrow> ptr \<Rightarrow> ptr \<Rightarrow> pool \<Rightarrow> (ptr option \<times> pool) outcome option" where
  "alloc_loop ty n alignment tag d b s =
     (if b = d then Some (Done (None, s))
      else next_step (ExVerifyPoolBlock b ty s) (\<lambda>ok.
        if \<not> ok then Some (obind (DebugEnumeratePoolBlocks ty s) (\<lambda>_. Bugcheck BAD_POOL_CALLER))
        else next_step
               (if AllocationTag s b = 0 \<and> n < BlockSize s b
                then (case find_place alignment n (b + 32) (b + 32 + BlockSize s b) (first_place alignment (b + 32))
                      of None \<Rightarrow> Hang | Some r \<Rightarrow> Done r)
                else Done None)
               (\<lambda>r. if r = None then alloc_loop ty n alignment tag d (flink (bheap s) b) s
                    else Some (Done (r, split_block ty n tag b (the r) s)))))"

definition ExAllocatePoolWithTag :: "u32 \<Rightarrow> u64 \<Rightarrow> u32 \<Rightarrow> pool \<Rightarrow> (ptr \<times> pool) outcome" where
  "ExAllocatePoolWithTag ty n tag s =
     (let alignment = (if n < 0x1000 then 16 else 0x1000) in
      if tag = 0 then Bugcheck BAD_POOL_CALLER
      else if \<not> ValidateTag tag then Bugcheck BAD_POOL_CALLER
      else obind (pool_of ty s) (\<lambda>d.
        if irql (cpool s) > MaximalIrql s d then Bugcheck BAD_POOL_CALLER
        else obind (lock_pool d s) (\<lambda>(oldIrql, s).
             obind (run_loop (alloc_loop ty n alignment tag d (flink (bheap s) d) s)) (\<lambda>(r, s).
               case r of
                 Some p \<Rightarrow> obind (unlock_pool d oldIrql s) (\<lambda>s. Done (p, s))
               | None \<Rightarrow> obind (DebugEnumeratePoolBlocks ty s) (\<lambda>_.
                   obind (unlock_pool d oldIrql s) (\<lambda>s. Done (NULL, s)))))))"

text \<open>The tag of ExAllocatePool is the multi-character constant 'POOL'.\<close>

definition ExAllocatePool :: "u32 \<Rightarrow> u64 \<Rightarrow> pool \<Rightarrow> (ptr \<times> pool) outcome" where
  "ExAllocatePool ty n = ExAllocatePoolWithTag ty n 0x504F4F4C"

definition ExAllocatePoolZero :: "u32 \<Rightarrow> u64 \<Rightarrow> u32 \<Rightarrow> pool \<Rightarrow> (ptr \<times> pool) outcome" where
  "ExAllocatePoolZero ty n tag s = obind (ExAllocatePoolWithTag ty n tag s) (\<lambda>(result, s).
     if result = NULL then Done (NULL, s)
     else Done (result, s\<lparr>pmem := RtlZeroMemory result n (pmem s)\<rparr>))"

definition ExAllocatePoolUninitialized :: "u32 \<Rightarrow> u64 \<Rightarrow> u32 \<Rightarrow> pool \<Rightarrow> (ptr \<times> pool) outcome" where
  "ExAllocatePoolUninitialized ty n tag = ExAllocatePoolWithTag ty n tag"

section \<open>Freeing\<close>

definition MergeWithNextBlock :: "ptr \<Rightarrow> pool \<Rightarrow> pool outcome" where
  "MergeWithNextBlock b s = obind (pool_of (PoolType s b) s) (\<lambda>d.
     if PoolLock s d = 0 then Bugcheck SPIN_LOCK_NOT_OWNED
     else
       obind (ExVerifyPoolBlock b (PoolType s b) s) (\<lambda>ok1.
       obind (if ok1 then ExVerifyPoolBlock (flink (bheap s) b) (PoolType s b) s else Done False) (\<lambda>ok2.
       if \<not> ok2 then Bugcheck BAD_POOL_HEADER
       else
         let next = flink (bheap s) b;
             s = s\<lparr>BlockSize := (BlockSize s)(b := BlockSize s b + BlockSize s next + 32)\<rparr>;
             h = set_blink (flink (bheap s) next) b (bheap s)
         in Done (s\<lparr>bheap := set_flink b (flink h next) h\<rparr>))))"

partial_function (option) merge_loop :: "u32 \<Rightarrow> ptr \<Rightarrow> ptr \<Rightarrow> pool \<Rightarrow> pool outcome option" where
  "merge_loop ty d b s =
     (if b = d then Some (Done s)
      else next_step (ExVerifyPoolBlock b ty s) (\<lambda>ok.
        if \<not> ok then Some (Bugcheck BAD_POOL_CALLER)
        else
          let next = flink (bheap s) b in
          if BlockSize s b + b + 32 = next \<and> AllocationTag s b = 0 \<and> AllocationTag s next = 0
          then next_step (MergeWithNextBlock b s) (\<lambda>s. merge_loop ty d b s)
          else merge_loop ty d next s))"

definition ExMergePool :: "u32 \<Rightarrow> pool \<Rightarrow> pool outcome" where
  "ExMergePool ty s = obind (pool_of ty s) (\<lambda>d.
     obind (lock_pool d s) (\<lambda>(oldIrql, s).
     obind (run_loop (merge_loop ty d (flink (bheap s) d) s)) (\<lambda>s. unlock_pool d oldIrql s)))"

definition ExFreePoolWithTag :: "ptr \<Rightarrow> u32 \<Rightarrow> pool \<Rightarrow> pool outcome" where
  "ExFreePoolWithTag data tag s =
     (let b = data - 32; ty = PoolType s b in
      if AllocationTag s b = 0 then Bugcheck BAD_POOL_CALLER
      else if tag \<noteq> AllocationTag s b \<and> tag \<noteq> 0 then (if ty \<ge> 16 then Fault else Bugcheck BAD_POOL_CALLER)
      else obind (pool_of ty s) (\<lambda>d.
        if irql (cpool s) > MaximalIrql s d then Bugcheck BAD_POOL_CALLER
        else obind (lock_pool d s) (\<lambda>(oldIrql, s).
             let s = s\<lparr>AllocationTag := (AllocationTag s)(b := 0)\<rparr> in
             obind (unlock_pool d oldIrql s) (\<lambda>s. ExMergePool ty s))))"

definition ExFreePool :: "ptr \<Rightarrow> pool \<Rightarrow> pool outcome" where
  "ExFreePool data = ExFreePoolWithTag data 0"

definition ExPoolSelfCheck :: "pool \<Rightarrow> (NTSTATUS \<times> pool) outcome" where
  "ExPoolSelfCheck s =
     obind (pool_of NonPagedPool s) (\<lambda>d.
     obind (lock_pool d s) (\<lambda>(oldIrql, s).
     obind (DebugEnumeratePoolBlocks NonPagedPool s) (\<lambda>_.
     obind (unlock_pool d oldIrql s) (\<lambda>s. Done (STATUS_SUCCESS, s)))))"

section \<open>Tilings\<close>

text \<open>The blocks bs, with a header each, tile the addresses from a to e.\<close>

fun tiles :: "(ptr \<Rightarrow> u64) \<Rightarrow> nat \<Rightarrow> ptr list \<Rightarrow> nat \<Rightarrow> bool" where
  "tiles sz a [] e = (a = e)"
| "tiles sz a (b # bs) e = (unat b = a \<and> tiles sz (a + 32 + unat (sz b)) bs e)"

lemma tiles_append: "tiles sz a (xs @ ys) e \<longleftrightarrow> (\<exists>m. tiles sz a xs m \<and> tiles sz m ys e)"
  by (induction xs arbitrary: a) auto

lemma tiles_cong: "(\<And>b. b \<in> set bs \<Longrightarrow> sz' b = sz b) \<Longrightarrow> tiles sz' a bs e = tiles sz a bs e"
  by (induction bs arbitrary: a) auto

lemma tiles_mono: "tiles sz a bs e \<Longrightarrow> a \<le> e"
  by (induction bs arbitrary: a) fastforce+

lemma tiles_bounds:
  "tiles sz a bs e \<Longrightarrow> b \<in> set bs \<Longrightarrow> a \<le> unat b \<and> unat b + 32 + unat (sz b) \<le> e"
proof (induction bs arbitrary: a)
  case (Cons c bs)
  then show ?case using tiles_mono [of sz "a + 32 + unat (sz c)" bs e] by force
qed simp

lemma tiles_split:
  "tiles sz a (xs @ b # ys) e \<longleftrightarrow> tiles sz a xs (unat b) \<and> tiles sz (unat b + 32 + unat (sz b)) ys e"
  by (auto simp: tiles_append)

lemma tiles_disjoint:
  "tiles sz a (xs @ b # ys) e \<Longrightarrow> c \<in> set xs \<Longrightarrow> unat c + 32 + unat (sz c) \<le> unat b"
  "tiles sz a (xs @ b # ys) e \<Longrightarrow> c \<in> set ys \<Longrightarrow> unat b + 32 + unat (sz b) \<le> unat c"
  using tiles_bounds [of sz a xs "unat b" c] tiles_bounds [of sz "unat b + 32 + unat (sz b)" ys e c]
  by (simp_all add: tiles_split)

section \<open>The invariant of a pool\<close>

definition usable_tag :: "u32 \<Rightarrow> bool" where
  "usable_tag t = (t = 0 \<or> ValidateTag t)"

definition pool_blocks :: "pool \<Rightarrow> u32 \<Rightarrow> ptr list \<Rightarrow> bool" where
  "pool_blocks s ty bs = (let d = Pools s ty in
     ty < 16 \<and> d \<noteq> NULL \<and> is_list (bheap s) d bs \<and>
     tiles (BlockSize s) (unat (AddressStart s d)) bs (unat (AddressEnd s d)) \<and>
     (\<forall>b\<in>set bs. PoolType s b = ty \<and> usable_tag (AllocationTag s b)) \<and>
     unat d + 48 \<le> unat (AddressStart s d) \<and> unat (AddressEnd s d) + 0x2000 \<le> 2 ^ 64 \<and>
     unat (AddressEnd s d) < unat (AddressStart s d) + 2 ^ 62)"

lemma pool_blocks_cong:
  assumes "Pools s' = Pools s" "bheap s' = bheap s" "BlockSize s' = BlockSize s" "PoolType s' = PoolType s"
    "AllocationTag s' = AllocationTag s" "AddressStart s' = AddressStart s" "AddressEnd s' = AddressEnd s"
  shows "pool_blocks s' ty bs = pool_blocks s ty bs"
  using assms by (simp add: pool_blocks_def)

lemma pool_of_blocks: "pool_blocks s ty bs \<Longrightarrow> pool_of ty s = Done (Pools s ty)"
  by (auto simp: pool_blocks_def pool_of_def Let_def)

lemma block_in_region:
  assumes "pool_blocks s ty bs" "b \<in> set bs"
  shows "AddressStart s (Pools s ty) \<le> b \<and> b < AddressEnd s (Pools s ty) \<and> b \<noteq> Pools s ty"
  using assms tiles_bounds [of "BlockSize s" "unat (AddressStart s (Pools s ty))" bs "unat (AddressEnd s (Pools s ty))" b]
  by (auto simp: pool_blocks_def Let_def word_le_nat_alt word_less_nat_alt)

lemma list_neighbours:
  assumes "is_list h d bs" "b \<in> set bs"
  shows "flink h b \<in> set (d # bs) \<and> blink h b \<in> set (d # bs)"
proof -
  obtain xs ys where bs: "bs = xs @ b # ys" using assms(2) by (meson split_list)
  have "links h d xs b" "links h b ys d" using assms(1) by (auto simp: is_list_def bs links_append)
  then have "flink h b = (if ys = [] then d else hd ys)" "blink h b = (if xs = [] then d else last xs)"
    using links_first [of h b ys d] links_last [of h d xs b] by simp_all
  then show ?thesis by (auto simp: bs split: if_splits)
qed

lemma verify_ok:
  assumes p: "pool_blocks s ty bs" and b: "b \<in> set bs" and l: "PoolLock s (Pools s ty) \<noteq> 0"
  shows "ExVerifyPoolBlock b ty s = Done True"
proof -
  let ?d = "Pools s ty"
  have i: "is_list (bheap s) ?d bs" using p by (simp add: pool_blocks_def Let_def)
  have n: "x = ?d \<or> \<not> (AddressEnd s ?d \<le> x \<or> x < AddressStart s ?d)" if "x \<in> set (?d # bs)" for x
    using block_in_region [OF p] that by (auto simp: not_le not_less)
  have t: "PoolType s b = ty" "usable_tag (AllocationTag s b)" using p b by (auto simp: pool_blocks_def Let_def)
  show ?thesis
    using n [of "flink (bheap s) b"] n [of "blink (bheap s) b"] n [of b] list_neighbours [OF i b] l b t
      block_in_region [OF p b]
    by (auto simp: ExVerifyPoolBlock_def pool_of_blocks [OF p] Let_def usable_tag_def)
qed

section \<open>Finding a place\<close>

definition place_ok :: "nat \<Rightarrow> nat \<Rightarrow> nat \<Rightarrow> nat \<Rightarrow> nat \<Rightarrow> bool" where
  "place_ok al n a e p = (al dvd p \<and> a \<le> p \<and> (p = a \<or> a + 32 \<le> p) \<and> (p + n = e \<or> p + n + 32 \<le> e))"

lemma sless_32: "x <s 32 \<longleftrightarrow> unat x < 32 \<or> 2 ^ 63 \<le> unat (x :: u64)"
  using unat_bound [of x] unfolding word_sless_alt sint_u64 unat_less_uint not_less [symmetric] by auto

lemma unat_minus:
  "unat ((x :: u64) - y) = (if unat y \<le> unat x then unat x - unat y else unat x + 2 ^ 64 - unat y)"
  by (simp add: unat_sub_if_size word_size)

lemma dvd_next: "(a :: nat) dvd p \<Longrightarrow> a dvd q \<Longrightarrow> p \<le> q \<Longrightarrow> q < p + a \<Longrightarrow> q = p"
  using dvd_imp_le [of a "q - p"] by (cases "q = p") (auto simp: dvd_diff_nat)

lemma find_place_spec:
  assumes al: "al = 16 \<or> al = 0x1000"
    and p: "unat al dvd unat p" "unat start \<le> unat p" "unat p + unat n < unat bend + unat al"
    and b: "unat start \<le> unat bend" "unat bend + 0x2000 \<le> 2 ^ 64" "unat bend < unat start + 2 ^ 63 - 0x2000"
  shows "\<exists>r. find_place al n start bend p = Some r \<and>
    (case r of Some q \<Rightarrow> place_ok (unat al) (unat n) (unat start) (unat bend) (unat q)
     | None \<Rightarrow> \<forall>q\<ge>unat p. \<not> place_ok (unat al) (unat n) (unat start) (unat bend) q)"
  using p
proof (induction "unat bend + unat al - unat p" arbitrary: p rule: less_induct)
  case less
  have a: "unat al = 16 \<or> unat al = 0x1000" using al by auto
  have e: "unat (p + n) = unat p + unat n"
    using less.prems(3) b(2) a by (auto simp: unat_plus_if')
  have pr: "unat (p - start) = unat p - unat start" using less.prems(2) by (simp add: unat_minus)
  have prs: "p - start \<noteq> 0 \<and> p - start <s 32 \<longleftrightarrow> unat p \<noteq> unat start \<and> unat p < unat start + 32"
    using less.prems(2,3) b(3) a unfolding sless_32 pr by (auto simp: unat_eq_0 [symmetric] pr)
  have fos: "bend - (p + n) \<noteq> 0 \<and> bend - (p + n) <s 32 \<longleftrightarrow>
      unat p + unat n \<noteq> unat bend \<and> unat bend < unat p + unat n + 32"
    using less.prems(2,3) b a unfolding sless_32
    by (auto simp: unat_minus e unat_eq_0 [symmetric])
  let ?ok = "place_ok (unat al) (unat n) (unat start) (unat bend)"
  have ok: "\<not> (p - start \<noteq> 0 \<and> p - start <s 32) \<and> \<not> (bend - (p + n) \<noteq> 0 \<and> bend - (p + n) <s 32) \<longleftrightarrow> ?ok (unat p)"
    unfolding prs fos place_ok_def using less.prems(1,2) by auto
  show ?case
  proof (cases "?ok (unat p)")
    case True
    then show ?thesis using ok by (subst find_place.simps) (simp add: Let_def)
  next
    case False
    have step: "\<not> ?ok q" if "\<forall>q\<ge>unat p + unat al. \<not> ?ok q" "unat p \<le> q" for q
    proof (cases "q < unat p + unat al")
      case True
      have "q = unat p" if "unat al dvd q"
        using dvd_next [OF less.prems(1) that \<open>unat p \<le> q\<close> True] .
      then show ?thesis using False by (auto simp: place_ok_def)
    qed (use that in auto)
    show ?thesis
    proof (cases "p + n < bend")
      case lt: True
      have u: "unat (p + al) = unat p + unat al"
        using lt e a b(2) by (auto simp: unat_plus_if' word_less_nat_alt)
      have "\<exists>r. find_place al n start bend (p + al) = Some r \<and>
        (case r of Some q \<Rightarrow> ?ok (unat q) | None \<Rightarrow> \<forall>q\<ge>unat (p + al). \<not> ?ok q)"
        by (rule less.hyps) (use less.prems lt e u a in \<open>auto simp: word_less_nat_alt\<close>)
      then show ?thesis using ok False lt step u
        by (subst find_place.simps) (auto simp: Let_def split: option.splits)
    next
      case ge: False
      have "\<not> ?ok q" if "q \<ge> unat p + unat al" for q
        using ge e that a by (auto simp: place_ok_def word_less_nat_alt)
      then show ?thesis using ok False ge step
        by (subst find_place.simps) (auto simp: Let_def)
    qed
  qed
qed

lemma round_up_nat: "0 < (a :: nat) \<Longrightarrow> n \<le> (n + a - 1) div a * a"
proof -
  assume a: "0 < a"
  obtain t where t: "t = n + a - 1" by blast
  have "t div a * a = t - t mod a" "t mod a < a" using a by (simp_all add: minus_mod_eq_div_mult)
  then have "n \<le> t div a * a" using t a by linarith
  then show ?thesis unfolding t .
qed

lemma mod_below: "(x :: nat) \<le> y \<Longrightarrow> y < m \<Longrightarrow> x mod m = x"
  by simp

lemma first_place_spec:
  assumes "al = 16 \<or> al = 0x1000" "unat start + 0x2000 \<le> 2 ^ 64"
  shows "unat al dvd unat (first_place al start) \<and> unat start \<le> unat (first_place al start) \<and>
    unat (first_place al start) < unat start + unat al"
proof -
  have a: "unat al = 16 \<or> unat al = 0x1000" using assms(1) by auto
  have s: "unat (start + al - 1) = unat start + unat al - 1"
    using assms a by (auto simp: unat_minus unat_plus_if')
  let ?k = "(unat start + unat al - 1) div unat al"
  have w: "unat (first_place al start) = ?k * unat al mod 2 ^ 64"
    by (simp add: first_place_def unat_word_ariths unat_div_distrib s mod_mult_left_eq)
  have k: "?k * unat al \<le> unat start + unat al - 1" by (rule div_times_less_eq_dividend)
  have lt: "unat start + unat al - 1 < 2 ^ 64" using assms(2) a by auto
  have f: "unat (first_place al start) = ?k * unat al"
    unfolding w by (rule mod_below [OF k lt])
  have p: "0 < unat al" using a by auto
  have "unat start \<le> ?k * unat al" by (rule round_up_nat [OF p])
  then show ?thesis unfolding f using k p by (intro conjI dvd_triv_right) linarith+
qed

section \<open>Splitting a block\<close>

lemma InsertAfter_list:
  assumes "is_list h d (xs @ b # ys)" "e \<notin> set (d # xs @ b # ys)"
  shows "is_list (InsertAfter b e h) d (xs @ b # e # ys)"
proof -
  let ?n = "flink h b"
  have ds: "distinct (d # xs @ b # ys)" and l1: "links h d xs b" and l2: "links h b ys d"
    using assms(1) by (auto simp: is_list_def links_append)
  have n: "?n = (if ys = [] then d else hd ys)" using links_first [OF l2] .
  have ne: "e \<noteq> b" "e \<noteq> d" using assms(2) by auto
  have h: "InsertAfter b e h = set_flink b e (set_blink ?n e (set_flink e ?n (set_blink e b h)))"
    using ne by (simp add: InsertAfter_def Let_def)
  have nx: "?n \<notin> set xs" "?n \<noteq> b" "?n \<noteq> e" using ds n assms(2) by (auto simp: hd_in_set split: if_splits)
  have 1: "links (InsertAfter b e h) d xs b"
    using l1 by (subst links_cong [of d xs _ h]) (use ds assms(2) ne nx in \<open>auto simp: h\<close>)
  have 2: "links (InsertAfter b e h) b (e # ys) d"
  proof (cases ys)
    case Nil
    then show ?thesis using n ne nx by (simp add: h)
  next
    case (Cons y zs)
    have "links h y zs d" using l2 Cons by simp
    then have "links (InsertAfter b e h) y zs d"
      by (subst links_cong [of y zs _ h]) (use ds assms(2) ne nx Cons n in \<open>auto simp: h\<close>)
    then show ?thesis using Cons n ne nx by (simp add: h)
  qed
  have l: "links (InsertAfter b e h) d (xs @ b # e # ys) d"
    unfolding links_append using 1 2 by blast
  show ?thesis using ds assms(2) l by (auto simp: is_list_def)
qed

text \<open>Cutting block b at e, which becomes the header of a block with tag t.\<close>

definition cut_block :: "u32 \<Rightarrow> ptr \<Rightarrow> ptr \<Rightarrow> u64 \<Rightarrow> u32 \<Rightarrow> pool \<Rightarrow> pool" where
  "cut_block ty b e m t s = s\<lparr>bheap := InsertAfter b e (bheap s),
     BlockSize := (BlockSize s)(b := m, e := BlockSize s b - m - 32),
     AllocationTag := (AllocationTag s)(e := t), PoolType := (PoolType s)(e := ty)\<rparr>"

lemma cut_block_at:
  "e \<noteq> b \<Longrightarrow> BlockSize (cut_block ty b e m t s) b = m \<and>
    AllocationTag (cut_block ty b e m t s) b = AllocationTag s b"
  by (simp add: cut_block_def)

lemma cut_block_keeps:
  assumes p: "pool_blocks s ty (pre @ b # post)" and e: "unat e = unat b + 32 + unat m"
    and m: "unat m + 32 \<le> unat (BlockSize s b)" and t: "usable_tag t"
  shows "pool_blocks (cut_block ty b e m t s) ty (pre @ b # e # post) \<and> e \<notin> set (pre @ b # post)"
proof -
  let ?d = "Pools s ty" let ?a = "unat (AddressStart s ?d)" let ?z = "unat (AddressEnd s ?d)"
  let ?s = "cut_block ty b e m t s"
  have tl: "tiles (BlockSize s) ?a (pre @ b # post) ?z" and li: "is_list (bheap s) ?d (pre @ b # post)"
    and dd: "unat ?d + 48 \<le> ?a"
    using p by (simp_all add: pool_blocks_def Let_def)
  have bb: "?a \<le> unat b" using tiles_bounds [OF tl, of b] by simp
  have e1: "e \<notin> set pre" using tiles_disjoint(1) [OF tl] e by fastforce
  have e2: "e \<notin> set post" using tiles_disjoint(2) [OF tl] e m by fastforce
  have e3: "e \<noteq> b" "e \<noteq> ?d" using e dd bb by auto
  have en: "e \<notin> set (pre @ b # post)" using e1 e2 e3 by simp
  have bn: "b \<notin> set (pre @ post)" using li by (auto simp: is_list_def)
  have sz: "unat (BlockSize s b - m - 32) = unat (BlockSize s b) - unat m - 32"
    using m by (simp add: unat_minus)
  have t1: "tiles (BlockSize ?s) ?a pre (unat b)"
    using tl bn e1 by (subst tiles_cong [of pre _ "BlockSize s"]) (auto simp: cut_block_def tiles_split)
  have t2: "tiles (BlockSize ?s) (unat b + 32 + unat (BlockSize s b)) post ?z"
    using tl bn e2 by (subst tiles_cong [of post _ "BlockSize s"]) (auto simp: cut_block_def tiles_split)
  have t3: "BlockSize ?s b = m" "BlockSize ?s e = BlockSize s b - m - 32" using e3 by (simp_all add: cut_block_def)
  have ar: "unat b + 32 + unat m + 32 + (unat (BlockSize s b) - unat m - 32) = unat b + 32 + unat (BlockSize s b)"
    using m by simp
  have tls: "tiles (BlockSize ?s) ?a (pre @ b # e # post) ?z"
    unfolding tiles_split tiles.simps t3 sz ar using t1 t2 e by simp
  have "is_list (bheap ?s) ?d (pre @ b # e # post)"
    unfolding cut_block_def using InsertAfter_list [OF li, of e] en e3 by simp
  then show ?thesis using p t tls en by (auto simp: pool_blocks_def Let_def cut_block_def)
qed

text \<open>The blocks that take the place of b, and what an allocation leaves.\<close>

definition split_into :: "pool \<Rightarrow> ptr \<Rightarrow> ptr \<Rightarrow> u64 \<Rightarrow> ptr list" where
  "split_into s b p n =
     (if p = b + 32 then [b] else [b, p - 32]) @ (if p + n = b + 32 + BlockSize s b then [] else [p + n])"

lemma set_tag_keeps:
  "pool_blocks s ty bs \<Longrightarrow> usable_tag t \<Longrightarrow> pool_blocks (s\<lparr>AllocationTag := (AllocationTag s)(b := t)\<rparr>) ty bs"
  by (auto simp: pool_blocks_def Let_def)

lemma split_block_spec:
  assumes p: "pool_blocks s ty (pre @ b # post)" and free: "AllocationTag s b = 0" and t: "ValidateTag tag"
    and pl: "place_ok al (unat n) (unat b + 32) (unat b + 32 + unat (BlockSize s b)) (unat p)"
  defines "s' \<equiv> split_block ty n tag b p s"
  shows "pool_blocks s' ty (pre @ split_into s b p n @ post)"
    and "AllocationTag s' (p - 32) = tag" "BlockSize s' (p - 32) = n" "p - 32 \<in> set (split_into s b p n)"
    and "\<And>c. c \<noteq> p - 32 \<Longrightarrow> c \<in> set (split_into s b p n) \<Longrightarrow> AllocationTag s' c = 0"
    and "\<And>c. c \<notin> set (split_into s b p n) \<Longrightarrow> AllocationTag s' c = AllocationTag s c \<and> BlockSize s' c = BlockSize s c"
    and "Pools s' = Pools s \<and> PoolLock s' = PoolLock s \<and> cpool s' = cpool s \<and> MaximalIrql s' = MaximalIrql s \<and>
      AddressStart s' = AddressStart s \<and> AddressEnd s' = AddressEnd s \<and> pmem s' = pmem s"
    and "set (split_into s b p n) \<inter> set (pre @ post) = {}"
proof -
  let ?d = "Pools s ty" let ?z = "unat b + 32 + unat (BlockSize s b)"
  have tl: "tiles (BlockSize s) (unat (AddressStart s ?d)) (pre @ b # post) (unat (AddressEnd s ?d))"
    and hi: "unat (AddressEnd s ?d) + 0x2000 \<le> 2 ^ 64"
    using p by (simp_all add: pool_blocks_def Let_def)
  have bz: "?z \<le> unat (AddressEnd s ?d)" using tiles_bounds [OF tl, of b] by simp
  have ub: "unat (b + 32) = unat b + 32" "unat (b + 32 + BlockSize s b) = ?z"
    using bz hi by (simp_all add: unat_plus_if')
  have P: "unat b + 32 \<le> unat p" "unat p = unat b + 32 \<or> unat b + 64 \<le> unat p"
    "unat p + unat n = ?z \<or> unat p + unat n + 32 \<le> ?z"
    using pl by (auto simp: place_ok_def)
  have pn: "unat (p + n) = unat p + unat n" using P(3) bz hi by (auto simp: unat_plus_if')
  have pm: "unat (p - 32) = unat p - 32" using P(1) by (simp add: unat_minus)
  have ut: "usable_tag tag" "usable_tag 0" using t by (simp_all add: usable_tag_def)
  have bn: "b \<notin> set (pre @ post)" using p by (auto simp: pool_blocks_def Let_def is_list_def)
  let ?new = "p \<noteq> b + 32" let ?fol = "p + n \<noteq> b + 32 + BlockSize s b"
  have new: "?new \<longleftrightarrow> unat p \<noteq> unat b + 32" using ub by (auto simp: word_unat_eq_iff)
  have fol: "?fol \<longleftrightarrow> unat p + unat n \<noteq> ?z" using ub pn by (metis word_unat_eq_iff)
  let ?cur = "if ?new then p - 32 else b"
  let ?A = "if ?new then cut_block ty b (p - 32) (p - (b + 32) - 32) tag s
            else s\<lparr>AllocationTag := (AllocationTag s)(b := tag)\<rparr>"
  let ?B = "if ?fol then cut_block ty ?cur (p + n) n 0 ?A else ?A"
  let ?mid = "if ?new then [b, p - 32] else [b]"
  have cur: "?cur = p - 32" using new by auto
  have A: "pool_blocks ?A ty (pre @ ?mid @ post) \<and> (?new \<longrightarrow> p - 32 \<notin> set (pre @ b # post))"
  proof (cases ?new)
    case True
    then have g: "unat b + 64 \<le> unat p" using new P by auto
    have um: "unat (p - (b + 32) - 32) = unat p - unat b - 64"
      using g ub by (simp add: unat_minus)
    have "pool_blocks (cut_block ty b (p - 32) (p - (b + 32) - 32) tag s) ty (pre @ b # (p - 32) # post) \<and>
      p - 32 \<notin> set (pre @ b # post)"
      by (rule cut_block_keeps [OF p _ _ ut(1)]) (use g um pm P(3) in auto)
    then show ?thesis using True by simp
  next
    case False
    then show ?thesis using set_tag_keeps [OF p ut(1)] by simp
  qed
  have zw: "BlockSize ?A ?cur = (b + 32 + BlockSize s b) - p"
    by (auto simp: cut_block_def)
  have zc: "unat (BlockSize ?A ?cur) = ?z - unat p"
    unfolding zw using P(3) ub(2) by (auto simp: unat_minus)
  have "unat (p + n) \<noteq> unat (p - 32)" using pn pm P(1) by linarith
  then have ne: "p + n \<noteq> p - 32" by auto
  have "unat (p + n) \<noteq> unat b" using pn P(1) by linarith
  then have nb: "p + n \<noteq> b" by auto
  have mid: "pre @ ?mid @ post = (if ?new then pre @ [b] else pre) @ ?cur # post" by simp
  have B: "pool_blocks ?B ty (pre @ split_into s b p n @ post) \<and> (?fol \<longrightarrow> p + n \<notin> set (pre @ ?mid @ post))"
  proof (cases ?fol)
    case True
    have "pool_blocks (cut_block ty ?cur (p + n) n 0 ?A) ty ((if ?new then pre @ [b] else pre) @ ?cur # (p + n) # post) \<and>
      p + n \<notin> set ((if ?new then pre @ [b] else pre) @ ?cur # post)"
    proof (rule cut_block_keeps [OF _ _ _ ut(2)])
      show "pool_blocks ?A ty ((if ?new then pre @ [b] else pre) @ ?cur # post)" using A mid by metis
      show "unat (p + n) = unat ?cur + 32 + unat n" using cur pn pm P(1) by simp
      show "unat n + 32 \<le> unat (BlockSize ?A ?cur)" using zc P(3) True fol by linarith
    qed
    then show ?thesis using True by (auto simp: split_into_def)
  next
    case False
    then show ?thesis using A by (auto simp: split_into_def)
  qed
  have bs: "BlockSize s b = p + n - (b + 32)" if "\<not> ?fol" using that by (simp add: algebra_simps)
  have eq: "s' = ?B"
  proof (cases ?fol)
    case True
    then show ?thesis
      using ne nb unfolding s'_def
      by (intro pool.equality) (auto simp: split_block_def cut_block_def Let_def algebra_simps fun_eq_iff)
  next
    case False
    then show ?thesis
      using ne nb unfolding s'_def
      by (intro pool.equality) (auto simp: split_block_def cut_block_def Let_def bs [OF False] algebra_simps fun_eq_iff)
  qed
  show "pool_blocks s' ty (pre @ split_into s b p n @ post)" unfolding eq using B by blast
  have tg: "AllocationTag ?A ?cur = tag" by (auto simp: cut_block_def)
  have pnc: "p + n \<noteq> ?cur" unfolding cur by (rule ne)
  have mem: "?cur \<in> set (split_into s b p n)" by (auto simp: split_into_def)
  then show "p - 32 \<in> set (split_into s b p n)" unfolding cur .
  have "AllocationTag s' ?cur = tag \<and> BlockSize s' ?cur = n"
  proof (cases ?fol)
    case True
    show ?thesis unfolding eq if_P [OF True] by (simp only: cut_block_at [OF pnc] tg)
  next
    case False
    have "BlockSize ?A ?cur = n" unfolding zw using False by (metis add_diff_cancel_left')
    then show ?thesis unfolding eq if_not_P [OF False] using tg by blast
  qed
  then show "AllocationTag s' (p - 32) = tag" "BlockSize s' (p - 32) = n" unfolding cur by blast+
  show "AllocationTag s' c = 0" if "c \<noteq> p - 32" "c \<in> set (split_into s b p n)" for c
    using that free nb unfolding eq by (auto simp: cut_block_def split_into_def split: if_splits)
  show "AllocationTag s' c = AllocationTag s c \<and> BlockSize s' c = BlockSize s c" if "c \<notin> set (split_into s b p n)" for c
    using that unfolding eq by (auto simp: cut_block_def split_into_def split: if_splits)
  show "Pools s' = Pools s \<and> PoolLock s' = PoolLock s \<and> cpool s' = cpool s \<and> MaximalIrql s' = MaximalIrql s \<and>
      AddressStart s' = AddressStart s \<and> AddressEnd s' = AddressEnd s \<and> pmem s' = pmem s"
    unfolding eq by (simp add: cut_block_def)
  show "set (split_into s b p n) \<inter> set (pre @ post) = {}"
    using A B bn by (auto simp: split_into_def split: if_splits)
qed

section \<open>The search for a block\<close>

abbreviation block_place :: "pool \<Rightarrow> u64 \<Rightarrow> u64 \<Rightarrow> ptr \<Rightarrow> nat \<Rightarrow> bool" where
  "block_place s al n b \<equiv> place_ok (unat al) (unat n) (unat b + 32) (unat b + 32 + unat (BlockSize s b))"

definition fits :: "pool \<Rightarrow> u64 \<Rightarrow> u64 \<Rightarrow> ptr \<Rightarrow> bool" where
  "fits s al n b = (AllocationTag s b = 0 \<and> n < BlockSize s b \<and> (\<exists>p. block_place s al n b p))"

definition place_answer :: "pool \<Rightarrow> u64 \<Rightarrow> u64 \<Rightarrow> ptr \<Rightarrow> ptr option \<Rightarrow> bool" where
  "place_answer s al n b r =
     (case r of Some q \<Rightarrow> block_place s al n b (unat q) | None \<Rightarrow> \<forall>q. \<not> block_place s al n b q)"

lemma place_in_block:
  assumes p: "pool_blocks s ty bs" "b \<in> set bs" and n: "n < BlockSize s b" and al: "al = 16 \<or> al = 0x1000"
  shows "\<exists>r. find_place al n (b + 32) (b + 32 + BlockSize s b) (first_place al (b + 32)) = Some r \<and>
    place_answer s al n b r"
proof -
  let ?d = "Pools s ty" let ?z = "unat b + 32 + unat (BlockSize s b)"
  have tl: "tiles (BlockSize s) (unat (AddressStart s ?d)) bs (unat (AddressEnd s ?d))"
    and hi: "unat (AddressEnd s ?d) + 0x2000 \<le> 2 ^ 64" "unat (AddressEnd s ?d) < unat (AddressStart s ?d) + 2 ^ 62"
    using p by (simp_all add: pool_blocks_def Let_def)
  have bz: "unat (AddressStart s ?d) \<le> unat b \<and> ?z \<le> unat (AddressEnd s ?d)" using tiles_bounds [OF tl p(2)] by simp
  have ub: "unat (b + 32) = unat b + 32" "unat (b + 32 + BlockSize s b) = ?z"
    using bz hi by (auto simp: unat_plus_if')
  have a: "unat al = 16 \<or> unat al = 0x1000" using al by auto
  note f = first_place_spec [OF al, of "b + 32", unfolded ub]
  have f': "unat al dvd unat (first_place al (b + 32))" "unat b + 32 \<le> unat (first_place al (b + 32))"
    "unat (first_place al (b + 32)) < unat b + 32 + unat al" using f bz hi by auto
  obtain r where r: "find_place al n (b + 32) (b + 32 + BlockSize s b) (first_place al (b + 32)) = Some r"
    "case r of Some q \<Rightarrow> block_place s al n b (unat q) | None \<Rightarrow> \<forall>q\<ge>unat (first_place al (b + 32)). \<not> block_place s al n b q"
    using find_place_spec [OF al f'(1), of "b + 32" n "b + 32 + BlockSize s b", unfolded ub] f' bz hi n
    by (auto simp: word_less_nat_alt)
  moreover have ge: "unat (first_place al (b + 32)) \<le> q" if q: "block_place s al n b q" for q
  proof (rule ccontr)
    assume "\<not> unat (first_place al (b + 32)) \<le> q"
    then have lt: "q < unat (first_place al (b + 32))" by simp
    have "unat al dvd unat (first_place al (b + 32)) - q" using f'(1) q by (simp add: place_ok_def dvd_diff_nat)
    then have "unat al \<le> unat (first_place al (b + 32)) - q" using lt by (simp add: dvd_imp_le)
    moreover have "unat b + 32 \<le> q" using q by (simp add: place_ok_def)
    ultimately show False using f'(3) lt by linarith
  qed
  have "place_answer s al n b r"
    using r(2) ge by (cases r) (auto simp: place_answer_def)
  with r(1) show ?thesis by blast
qed

lemma next_block:
  assumes "pool_blocks s ty (pre @ b # post)"
  shows "flink (bheap s) b = hd (post @ [Pools s ty])"
proof -
  have "links (bheap s) b post (Pools s ty)"
    using assms by (auto simp: pool_blocks_def Let_def is_list_def links_append)
  from links_first [OF this] show ?thesis by simp
qed

lemma first_block: "pool_blocks s ty bs \<Longrightarrow> flink (bheap s) (Pools s ty) = hd (bs @ [Pools s ty])"
  using is_list_first [of "bheap s" "Pools s ty" bs] by (auto simp: pool_blocks_def Let_def)

text \<open>The answer of the search over the blocks bs: the first block with an aligned place is split, or
  there is none and nothing changes.\<close>

definition alloc_answer :: "u32 \<Rightarrow> u64 \<Rightarrow> u64 \<Rightarrow> u32 \<Rightarrow> ptr list \<Rightarrow> pool \<Rightarrow> ptr option \<times> pool \<Rightarrow> bool" where
  "alloc_answer ty n al tag bs s r =
     (case fst r of
        None \<Rightarrow> snd r = s \<and> (\<forall>b\<in>set bs. \<not> fits s al n b)
      | Some q \<Rightarrow> \<exists>xs b ys. bs = xs @ b # ys \<and> (\<forall>c\<in>set xs. \<not> fits s al n c) \<and> AllocationTag s b = 0 \<and>
          block_place s al n b (unat q) \<and> snd r = split_block ty n tag b q s)"

lemma alloc_answer_skip:
  "alloc_answer ty n al tag bs s r \<Longrightarrow> \<not> fits s al n b \<Longrightarrow> alloc_answer ty n al tag (b # bs) s r"
proof (cases "fst r")
  case (Some q)
  assume a: "alloc_answer ty n al tag bs s r" and nf: "\<not> fits s al n b"
  obtain xs c ys where "bs = xs @ c # ys" "\<forall>c\<in>set xs. \<not> fits s al n c" "AllocationTag s c = 0"
    "block_place s al n c (unat q)" "snd r = split_block ty n tag c q s"
    using a Some unfolding alloc_answer_def by auto
  then have "b # bs = (b # xs) @ c # ys \<and> (\<forall>c\<in>set (b # xs). \<not> fits s al n c) \<and> AllocationTag s c = 0 \<and>
    block_place s al n c (unat q) \<and> snd r = split_block ty n tag c q s" using nf by simp
  then show ?thesis using Some unfolding alloc_answer_def by (simp only: option.case) blast
qed (simp add: alloc_answer_def)

lemma alloc_answer_hit:
  "AllocationTag s b = 0 \<Longrightarrow> block_place s al n b (unat q) \<Longrightarrow>
   alloc_answer ty n al tag (b # bs) s (Some q, split_block ty n tag b q s)"
  unfolding alloc_answer_def fst_conv snd_conv option.case
  by (rule exI [of _ "[]"], rule exI [of _ b], rule exI [of _ bs]) simp

lemma alloc_loop_spec:
  assumes p: "pool_blocks s ty (pre @ rest)" and l: "PoolLock s (Pools s ty) \<noteq> 0" and al: "al = 16 \<or> al = 0x1000"
  shows "\<exists>r. alloc_loop ty n al tag (Pools s ty) (hd (rest @ [Pools s ty])) s = Some (Done r) \<and>
    alloc_answer ty n al tag rest s r"
  using p
proof (induction rest arbitrary: pre)
  case Nil
  then show ?case by (subst alloc_loop.simps) (simp add: alloc_answer_def)
next
  case (Cons b rest)
  let ?d = "Pools s ty"
  have bm: "b \<in> set (pre @ b # rest)" by simp
  have v: "ExVerifyPoolBlock b ty s = Done True" by (rule verify_ok [OF Cons.prems bm l])
  have bd: "b \<noteq> ?d" using block_in_region [OF Cons.prems bm] by simp
  have nx: "flink (bheap s) b = hd (rest @ [?d])" using next_block [OF Cons.prems] .
  have "pool_blocks s ty ((pre @ [b]) @ rest)" using Cons.prems by simp
  from Cons.IH [OF this] obtain r where
    IH: "alloc_loop ty n al tag ?d (hd (rest @ [?d])) s = Some (Done r)" "alloc_answer ty n al tag rest s r"
    by blast
  have "\<exists>r. alloc_loop ty n al tag ?d b s = Some (Done r) \<and> alloc_answer ty n al tag (b # rest) s r"
  proof (cases "AllocationTag s b = 0 \<and> n < BlockSize s b")
    case True
    obtain o' where o: "find_place al n (b + 32) (b + 32 + BlockSize s b) (first_place al (b + 32)) = Some o'"
      "place_answer s al n b o'"
      using place_in_block [OF Cons.prems bm conjunct2 [OF True] al] by blast
    show ?thesis
    proof (cases o')
      case None
      have "alloc_loop ty n al tag ?d b s = Some (Done r)"
        using bd v True o(1) None nx IH(1) by (subst alloc_loop.simps) simp
      moreover have "\<not> fits s al n b" using o(2) None by (simp add: fits_def place_answer_def)
      ultimately show ?thesis using alloc_answer_skip [OF IH(2)] by blast
    next
      case (Some q)
      have "alloc_loop ty n al tag ?d b s = Some (Done (Some q, split_block ty n tag b q s))"
        using bd v True o(1) Some by (subst alloc_loop.simps) simp
      moreover have "block_place s al n b (unat q)" using o(2) Some by (simp add: place_answer_def)
      ultimately show ?thesis using alloc_answer_hit True by blast
    qed
  next
    case False
    have "alloc_loop ty n al tag ?d b s = Some (Done r)"
      using bd v False nx IH(1) by (subst alloc_loop.simps) auto
    moreover have "\<not> fits s al n b" using False by (auto simp: fits_def)
    ultimately show ?thesis using alloc_answer_skip [OF IH(2)] by blast
  qed
  then show ?case by simp
qed

section \<open>Merging\<close>

text \<open>Block b after it has swallowed its successor.\<close>

definition swallow :: "ptr \<Rightarrow> pool \<Rightarrow> pool" where
  "swallow b s =
     (let next = flink (bheap s) b in
      s\<lparr>BlockSize := (BlockSize s)(b := BlockSize s b + BlockSize s next + 32),
        bheap := set_flink b (flink (bheap s) next) (set_blink (flink (bheap s) next) b (bheap s))\<rparr>)"

lemma swallow_keeps:
  assumes p: "pool_blocks s ty (pre @ b # c # post)"
  shows "pool_blocks (swallow b s) ty (pre @ b # post)" "flink (bheap s) b = c"
proof -
  let ?d = "Pools s ty" let ?a = "unat (AddressStart s ?d)" let ?z = "unat (AddressEnd s ?d)"
  let ?s = "swallow b s"
  have tl: "tiles (BlockSize s) ?a (pre @ b # c # post) ?z" and li: "is_list (bheap s) ?d (pre @ b # c # post)"
    and hi: "?z + 0x2000 \<le> 2 ^ 64" "?z < ?a + 2 ^ 62"
    using p by (simp_all add: pool_blocks_def Let_def)
  show fl: "flink (bheap s) b = c" using next_block [OF p] by simp
  have lk: "links (bheap s) b (c # post) ?d" using li by (auto simp: is_list_def links_append)
  then have bl: "blink (bheap s) c = b" by simp
  have h: "bheap ?s = RemoveEntry c (bheap s)"
    by (simp add: swallow_def Let_def fl RemoveEntry_def RemoveEntryList_def bl set_flink_def set_blink_def)
  have "is_list (bheap ?s) ?d ((pre @ [b]) @ post)"
    unfolding h using nl.rem_entry [of "bheap s" ?d "pre @ [b]" c post] li by simp
  then have l: "is_list (bheap ?s) ?d (pre @ b # post)" by simp
  have tc: "unat c = unat b + 32 + unat (BlockSize s b)"
    "tiles (BlockSize s) ?a pre (unat b)" "tiles (BlockSize s) (unat c + 32 + unat (BlockSize s c)) post ?z"
    using tl by (auto simp: tiles_split)
  have cz: "unat c + 32 + unat (BlockSize s c) \<le> ?z" using tiles_bounds [OF tl, of c] by simp
  have sz: "unat (BlockSize s b + BlockSize s c + 32) = unat (BlockSize s b) + unat (BlockSize s c) + 32"
    using cz hi tc(1) by (auto simp: unat_plus_if')
  have bs: "BlockSize ?s = (BlockSize s)(b := BlockSize s b + BlockSize s c + 32)"
    by (simp add: swallow_def Let_def fl)
  have nb: "b \<notin> set (pre @ post)" using li by (auto simp: is_list_def)
  have t1: "tiles (BlockSize ?s) ?a pre (unat b)"
    using tc(2) nb by (subst tiles_cong [of pre _ "BlockSize s"]) (auto simp: bs)
  have t2: "tiles (BlockSize ?s) (unat c + 32 + unat (BlockSize s c)) post ?z"
    using tc(3) nb by (subst tiles_cong [of post _ "BlockSize s"]) (auto simp: bs)
  have ar: "unat b + 32 + unat (BlockSize ?s b) = unat c + 32 + unat (BlockSize s c)"
    by (simp add: bs sz tc(1))
  have "tiles (BlockSize ?s) ?a (pre @ b # post) ?z" unfolding tiles_split ar using t1 t2 by blast
  then show "pool_blocks ?s ty (pre @ b # post)"
    using p l by (auto simp: pool_blocks_def Let_def swallow_def)
qed

lemma MergeWithNextBlock_eq:
  assumes p: "pool_blocks s ty (pre @ b # c # post)" and l: "PoolLock s (Pools s ty) \<noteq> 0"
  shows "MergeWithNextBlock b s = Done (swallow b s)"
proof -
  have t: "PoolType s b = ty" using p by (simp add: pool_blocks_def Let_def)
  have "ExVerifyPoolBlock b ty s = Done True" "ExVerifyPoolBlock c ty s = Done True"
    using verify_ok [OF p _ l] by simp_all
  then show ?thesis
    using swallow_keeps(2) [OF p] l
    by (simp add: MergeWithNextBlock_def t pool_of_blocks [OF p] swallow_def Let_def)
qed

text \<open>No two neighbours of the list are both free.\<close>

fun no_free_pair :: "(ptr \<Rightarrow> u32) \<Rightarrow> ptr list \<Rightarrow> bool" where
  "no_free_pair tg (b # c # bs) = (\<not> (tg b = 0 \<and> tg c = 0) \<and> no_free_pair tg (c # bs))"
| "no_free_pair tg bs = True"

text \<open>What merging keeps: the allocated blocks, their sizes, and everything that is no block.\<close>

definition merged :: "pool \<Rightarrow> ptr list \<Rightarrow> pool \<Rightarrow> ptr list \<Rightarrow> bool" where
  "merged s bs s' bs' =
     (set bs' \<subseteq> set bs \<and> (\<forall>c\<in>set bs. AllocationTag s c \<noteq> 0 \<longrightarrow> c \<in> set bs' \<and> BlockSize s' c = BlockSize s c) \<and>
      AllocationTag s' = AllocationTag s \<and> Pools s' = Pools s \<and> PoolLock s' = PoolLock s \<and> cpool s' = cpool s \<and>
      MaximalIrql s' = MaximalIrql s \<and> AddressStart s' = AddressStart s \<and> AddressEnd s' = AddressEnd s \<and>
      pmem s' = pmem s \<and> PoolType s' = PoolType s)"

lemma merged_refl: "merged s bs s bs"
  by (simp add: merged_def)

lemma merged_trans: "merged s bs s' bs' \<Longrightarrow> merged s' bs' s'' bs'' \<Longrightarrow> merged s bs s'' bs''"
  by (auto simp: merged_def)

lemma merged_swallow:
  assumes "pool_blocks s ty (pre @ b # c # post)" "AllocationTag s b = 0" "AllocationTag s c = 0"
  shows "merged s (pre @ b # c # post) (swallow b s) (pre @ b # post)"
  using assms swallow_keeps(2) [OF assms(1)] by (auto simp: merged_def swallow_def Let_def)

lemma last_not_adjacent:
  assumes "pool_blocks s ty (pre @ [b])"
  shows "BlockSize s b + b + 32 \<noteq> Pools s ty"
proof -
  let ?d = "Pools s ty"
  have tl: "tiles (BlockSize s) (unat (AddressStart s ?d)) (pre @ [b]) (unat (AddressEnd s ?d))"
    and hi: "unat (AddressEnd s ?d) + 0x2000 \<le> 2 ^ 64" and d: "unat ?d + 48 \<le> unat (AddressStart s ?d)"
    using assms by (simp_all add: pool_blocks_def Let_def)
  have b: "unat (AddressStart s ?d) \<le> unat b" "unat b + 32 + unat (BlockSize s b) \<le> unat (AddressEnd s ?d)"
    using tiles_bounds [OF tl, of b] by simp_all
  then have "unat (BlockSize s b + b + 32) = unat (BlockSize s b) + unat b + 32"
    using hi by (auto simp: unat_plus_if')
  then show ?thesis using b d by auto
qed

lemma next_adjacent:
  assumes "pool_blocks s ty (pre @ b # c # post)"
  shows "BlockSize s b + b + 32 = c"
proof -
  let ?d = "Pools s ty"
  have tl: "tiles (BlockSize s) (unat (AddressStart s ?d)) (pre @ b # c # post) (unat (AddressEnd s ?d))"
    and hi: "unat (AddressEnd s ?d) + 0x2000 \<le> 2 ^ 64"
    using assms by (simp_all add: pool_blocks_def Let_def)
  have c: "unat c = unat b + 32 + unat (BlockSize s b)" "unat c < 2 ^ 64"
    using tl unat_bound [of c] by (auto simp: tiles_split)
  then have "unat (BlockSize s b + b + 32) = unat c" by (auto simp: unat_plus_if')
  then show ?thesis by (rule word_unat_eq_iff [THEN iffD2])
qed

lemma merge_loop_spec:
  assumes "pool_blocks s ty (pre @ rest)" "PoolLock s (Pools s ty) \<noteq> 0"
  shows "\<exists>s' bs'. merge_loop ty (Pools s ty) (hd (rest @ [Pools s ty])) s = Some (Done s') \<and>
    pool_blocks s' ty (pre @ bs') \<and> merged s (pre @ rest) s' (pre @ bs') \<and>
    no_free_pair (AllocationTag s') bs' \<and> hd (bs' @ [Pools s ty]) = hd (rest @ [Pools s ty])"
  using assms
proof (induction "length rest" arbitrary: pre rest s rule: less_induct)
  case less
  let ?d = "Pools s ty"
  show ?case
  proof (cases rest)
    case Nil
    then show ?thesis using less.prems merged_refl [of s pre]
      by (subst merge_loop.simps) (auto intro!: exI [of _ "[]"])
  next
    case (Cons b rest')
    have p: "pool_blocks s ty (pre @ b # rest')" using less.prems(1) Cons by simp
    have bm: "b \<in> set (pre @ b # rest')" by simp
    have v: "ExVerifyPoolBlock b ty s = Done True" by (rule verify_ok [OF p bm less.prems(2)])
    have bd: "b \<noteq> ?d" using block_in_region [OF p bm] by simp
    have nx: "flink (bheap s) b = hd (rest' @ [?d])" using next_block [OF p] .
    show ?thesis
    proof (cases "\<exists>c rest''. rest' = c # rest'' \<and> AllocationTag s b = 0 \<and> AllocationTag s c = 0")
      case True
      then obtain c rest'' where r: "rest' = c # rest''" "AllocationTag s b = 0" "AllocationTag s c = 0" by blast
      have p2: "pool_blocks s ty (pre @ b # c # rest'')" using p r(1) by simp
      let ?s = "swallow b s"
      have keep: "Pools ?s = Pools s" "PoolLock ?s = PoolLock s" by (simp_all add: swallow_def Let_def)
      have "merge_loop ty ?d b s = merge_loop ty ?d b ?s"
        using bd v nx r next_adjacent [OF p2] MergeWithNextBlock_eq [OF p2 less.prems(2)]
        by (subst merge_loop.simps) (simp add: Let_def)
      moreover have ex: "\<exists>s' bs'. merge_loop ty (Pools ?s ty) (hd ((b # rest'') @ [Pools ?s ty])) ?s = Some (Done s') \<and>
        pool_blocks s' ty (pre @ bs') \<and> merged ?s (pre @ b # rest'') s' (pre @ bs') \<and>
        no_free_pair (AllocationTag s') bs' \<and> hd (bs' @ [Pools ?s ty]) = hd ((b # rest'') @ [Pools ?s ty])"
        by (rule less.hyps) (use Cons r swallow_keeps(1) [OF p2] less.prems(2) keep in auto)
      moreover obtain s' bs' where s': "merge_loop ty ?d b ?s = Some (Done s')" "pool_blocks s' ty (pre @ bs')"
        "merged ?s (pre @ b # rest'') s' (pre @ bs')" "no_free_pair (AllocationTag s') bs'" "hd (bs' @ [?d]) = b"
        using ex keep(1) by auto
      moreover have "merged s (pre @ rest) s' (pre @ bs')"
        using merged_trans [OF merged_swallow [OF p2 r(2,3)] s'(3)] Cons r(1) by simp
      ultimately show ?thesis using Cons by (intro exI [of _ s'] exI [of _ bs']) simp
    next
      case False
      have "\<not> (BlockSize s b + b + 32 = hd (rest' @ [?d]) \<and> AllocationTag s b = 0 \<and> AllocationTag s (hd (rest' @ [?d])) = 0)"
        using False last_not_adjacent p by (cases rest') auto
      then have st: "merge_loop ty ?d b s = merge_loop ty ?d (hd (rest' @ [?d])) s"
        using bd v nx by (subst merge_loop.simps) (auto simp: Let_def)
      have "\<exists>s' bs'. merge_loop ty ?d (hd (rest' @ [?d])) s = Some (Done s') \<and>
        pool_blocks s' ty ((pre @ [b]) @ bs') \<and> merged s ((pre @ [b]) @ rest') s' ((pre @ [b]) @ bs') \<and>
        no_free_pair (AllocationTag s') bs' \<and> hd (bs' @ [?d]) = hd (rest' @ [?d])"
        by (rule less.hyps) (use Cons p less.prems(2) in auto)
      then obtain s' bs' where s': "merge_loop ty ?d (hd (rest' @ [?d])) s = Some (Done s')"
        "pool_blocks s' ty (pre @ b # bs')" "merged s (pre @ b # rest') s' (pre @ b # bs')"
        "no_free_pair (AllocationTag s') bs'" "hd (bs' @ [?d]) = hd (rest' @ [?d])" by auto
      have "no_free_pair (AllocationTag s') (b # bs')"
      proof (cases bs')
        case (Cons c cs)
        have "Pools s' = Pools s" "AllocationTag s' = AllocationTag s" using s'(3) by (simp_all add: merged_def)
        moreover have "c \<noteq> ?d" using block_in_region [OF s'(2), of c] Cons calculation(1) by simp
        then have "rest' \<noteq> []" "hd rest' = c" using s'(5) Cons by (cases rest'; simp)+
        ultimately show ?thesis using False s'(4) Cons by (cases rest') auto
      qed simp
      then show ?thesis using st s'(1-3) Cons by (intro exI [of _ s'] exI [of _ "b # bs'"]) simp
    qed
  qed
qed

section \<open>A pool between two calls\<close>

definition pool_ok :: "pool \<Rightarrow> u32 \<Rightarrow> ptr list \<Rightarrow> bool" where
  "pool_ok s ty bs = (let d = Pools s ty in
     pool_blocks s ty bs \<and> PoolLock s d = 0 \<and> cpu_ok (cpool s) \<and> irql (cpool s) \<le> DISPATCH_LEVEL \<and>
     irql (cpool s) \<le> MaximalIrql s d)"

definition held :: "ptr \<Rightarrow> pool \<Rightarrow> pool" where
  "held d s = s\<lparr>PoolLock := (PoolLock s)(d := 1),
     cpool := KiApplyIrql (irql (cpool s)) DISPATCH_LEVEL (cpool s)\<rparr>"

lemma lock_held:
  "PoolLock s d = 0 \<Longrightarrow> cpu_ok (cpool s) \<Longrightarrow> irql (cpool s) \<le> DISPATCH_LEVEL \<Longrightarrow>
   lock_pool d s = Done (irql (cpool s), held d s)"
  by (simp add: lock_pool_def KeAcquireSpinLock_def KfAcquire_free held_def)

lemma unlock_held:
  assumes "PoolLock t d = 1" "cpool t = KiApplyIrql (irql c) DISPATCH_LEVEL c" "cpu_ok c" "irql c \<le> DISPATCH_LEVEL"
  shows "unlock_pool d (irql c) t = Done (t\<lparr>PoolLock := (PoolLock t)(d := 0), cpool := c\<rparr>)"
  using assms KfRelease_taken [OF assms(3,4)] by (simp add: unlock_pool_def KeReleaseSpinLock_def)

lemma held_simps [simp]:
  "PoolLock (held d s) = (PoolLock s)(d := 1)" "Pools (held d s) = Pools s" "bheap (held d s) = bheap s"
  "BlockSize (held d s) = BlockSize s" "AllocationTag (held d s) = AllocationTag s"
  "pmem (held d s) = pmem s" "MaximalIrql (held d s) = MaximalIrql s"
  "cpool (held d s) = KiApplyIrql (irql (cpool s)) DISPATCH_LEVEL (cpool s)"
  by (simp_all add: held_def)

lemma held_blocks: "pool_blocks (held d s) ty bs = pool_blocks s ty bs"
  by (rule pool_blocks_cong) (simp_all add: held_def)

lemma held_fits: "fits (held d s) al n b = fits s al n b"
  by (simp add: fits_def)

lemma held_back: "PoolLock s d = 0 \<Longrightarrow> (held d s)\<lparr>PoolLock := (PoolLock (held d s))(d := 0), cpool := cpool s\<rparr> = s"
  by (simp add: held_def fun_upd_idem)

lemma enumerate_spec:
  assumes p: "pool_blocks s ty (pre @ rest)" and l: "PoolLock s (Pools s ty) \<noteq> 0"
  shows "enumerate_loop ty (Pools s ty) (hd (rest @ [Pools s ty])) s =
    Some (if \<forall>b\<in>set rest. BlockSize s b \<le> 0xFFFFFF then Done () else Hang)"
  using p
proof (induction rest arbitrary: pre)
  case Nil
  have "\<exists>ok. ExVerifyPoolBlock (Pools s ty) ty s = Done ok"
    using l by (simp add: ExVerifyPoolBlock_def pool_of_blocks [OF p] Let_def)
  then show ?case by (subst enumerate_loop.simps) auto
next
  case (Cons b rest)
  have bm: "b \<in> set (pre @ b # rest)" by simp
  have v: "ExVerifyPoolBlock b ty s = Done True" by (rule verify_ok [OF Cons.prems bm l])
  have bd: "b \<noteq> Pools s ty" using block_in_region [OF Cons.prems bm] by simp
  have nx: "flink (bheap s) b = hd (rest @ [Pools s ty])" using next_block [OF Cons.prems] .
  have "pool_blocks s ty ((pre @ [b]) @ rest)" using Cons.prems by simp
  from Cons.IH [OF this] show ?case
    using v bd nx by (subst enumerate_loop.simps) (auto simp: not_less)
qed

lemma DebugEnumerate_eq:
  assumes "pool_blocks s ty bs" "PoolLock s (Pools s ty) \<noteq> 0"
  shows "DebugEnumeratePoolBlocks ty s = (if \<forall>b\<in>set bs. BlockSize s b \<le> 0xFFFFFF then Done () else Hang)"
  using enumerate_spec [of s ty "[]" bs] assms
  by (simp add: DebugEnumeratePoolBlocks_def pool_of_blocks first_block run_loop_def)

text \<open>The data pointer an allocation returns is never NULL.\<close>

lemma place_not_null: "place_ok al n (unat b + 32) e (unat p) \<Longrightarrow> p \<noteq> NULL"
  by (auto simp: place_ok_def)

definition page_alignment :: "u64 \<Rightarrow> u64" where
  "page_alignment n = (if n < 0x1000 then 16 else 0x1000)"

text \<open>What the allocation of n bytes with tag, at p in block b, makes of the pool.\<close>

definition allocated :: "pool \<Rightarrow> u32 \<Rightarrow> u64 \<Rightarrow> u32 \<Rightarrow> ptr list \<Rightarrow> ptr \<Rightarrow> ptr list \<Rightarrow> ptr \<Rightarrow> pool \<Rightarrow> bool" where
  "allocated s ty n tag xs b ys p s' =
     (pool_ok s' ty (xs @ split_into s b p n @ ys) \<and>
      AllocationTag s' (p - 32) = tag \<and> BlockSize s' (p - 32) = n \<and> p - 32 \<in> set (split_into s b p n) \<and>
      (\<forall>c\<in>set (split_into s b p n) - {p - 32}. AllocationTag s' c = 0) \<and>
      (\<forall>c\<in>set (xs @ ys). AllocationTag s' c = AllocationTag s c \<and> BlockSize s' c = BlockSize s c) \<and>
      pmem s' = pmem s)"

lemma ExMergePool_eq:
  assumes "pool_ok s ty bs"
  shows "\<exists>s' bs'. ExMergePool ty s = Done s' \<and> pool_ok s' ty bs' \<and> merged s bs s' bs' \<and>
    no_free_pair (AllocationTag s') bs'"
proof -
  let ?d = "Pools s ty" let ?h = "held ?d s"
  have b: "pool_blocks s ty bs" and l0: "PoolLock s ?d = 0" and c: "cpu_ok (cpool s)" "irql (cpool s) \<le> DISPATCH_LEVEL"
    and mi: "irql (cpool s) \<le> MaximalIrql s ?d"
    using assms by (simp_all add: pool_ok_def Let_def)
  have bh: "pool_blocks ?h ty ([] @ bs)" using b by (simp add: held_blocks)
  obtain t bs' where t: "merge_loop ty ?d (hd (bs @ [?d])) ?h = Some (Done t)" "pool_blocks t ty bs'"
    "merged ?h bs t bs'" "no_free_pair (AllocationTag t) bs'"
    using merge_loop_spec [OF bh] by auto
  let ?t = "t\<lparr>PoolLock := (PoolLock t)(?d := 0), cpool := cpool s\<rparr>"
  have f: "PoolLock t = PoolLock ?h" "cpool t = cpool ?h" "Pools t = Pools s" "MaximalIrql t = MaximalIrql s"
    using t(3) by (simp_all add: merged_def)
  have u: "unlock_pool ?d (irql (cpool s)) t = Done ?t"
    using unlock_held [of t ?d "cpool s"] c f by simp
  have "flink (bheap ?h) ?d = hd (bs @ [?d])" using first_block [OF b] by simp
  then have "ExMergePool ty s = Done ?t"
    using t(1) u lock_held [OF l0 c] by (simp add: ExMergePool_def pool_of_blocks [OF b] run_loop_def)
  moreover have "pool_blocks ?t ty bs'" using t(2) by (subst pool_blocks_cong [of _ t]) simp_all
  then have "pool_ok ?t ty bs'" using c mi f by (simp add: pool_ok_def Let_def)
  moreover have "merged s bs ?t bs'" using t(3) l0 by (simp add: merged_def held_def fun_upd_idem)
  ultimately show ?thesis using t(4) by fastforce
qed

lemma init_region_blocks:
  assumes "ty < 16" "r \<noteq> NULL" "80 \<le> unat n" "unat r + unat n + 0x2000 \<le> 2 ^ 64" "unat n < 2 ^ 62"
  shows "pool_blocks (init_region r n m ty s) ty [r + 48]"
proof -
  let ?s = "init_region r n m ty s"
  have u: "unat (r + 48) = unat r + 48" "unat (r + n) = unat r + unat n" "unat (n - 80) = unat n - 80"
    using assms(3,4) by (auto simp: unat_plus_if' unat_minus)
  have ne: "r + 48 \<noteq> r" by simp
  have l: "is_list (bheap ?s) r [r + 48]"
    using nl.ins_tail [OF is_list_Init, of "r + 48" r "bheap s"] ne by (simp add: init_region_def Let_def)
  show ?thesis
    using assms u l by (simp add: pool_blocks_def Let_def init_region_def usable_tag_def)
qed

lemma init_region_frame:
  assumes b: "pool_blocks s ty [a + 48]" and d: "Pools s ty = a" and ne: "ty' \<noteq> ty"
    and ap: "r \<noteq> a" "r \<noteq> a + 48" "r + 48 \<noteq> a" "r + 48 \<noteq> a + 48"
  shows "pool_blocks (init_region r n m ty' s) ty [a + 48]"
proof -
  let ?s = "init_region r n m ty' s"
  have "is_list (bheap ?s) a [a + 48]"
    using b d ap by (subst is_list_cong [of _ _ _ "bheap s"])
      (auto simp: pool_blocks_def Let_def init_region_def InsertTailList_def InitializeListHead_def)
  then show ?thesis using b d ap ne by (auto simp: pool_blocks_def Let_def init_region_def)
qed

section \<open>Properties\<close>

text \<open>C11: an allocation takes the first free block with an aligned place for it (16 bytes, or a page
  from a page on), splits it, tags the new block and leaves every other block alone; the pool
  stays a tiling of its region. When no free block has such a place it returns NULL and changes
  nothing, unless a block is larger than 0xFFFFFF bytes: then the report of the failure spins for
  ever with the pool locked.\<close>

theorem ExAllocatePoolWithTag_spec:
  fixes n :: u64
  assumes p: "pool_ok s ty bs" and t: "tag \<noteq> 0" "ValidateTag tag"
  defines "al \<equiv> page_alignment n"
  shows "(\<exists>xs b ys p s'. bs = xs @ b # ys \<and> (\<forall>c\<in>set xs. \<not> fits s al n c) \<and> AllocationTag s b = 0 \<and>
      block_place s al n b (unat p) \<and> ExAllocatePoolWithTag ty n tag s = Done (p, s') \<and>
      allocated s ty n tag xs b ys p s') \<or>
    (\<forall>b\<in>set bs. \<not> fits s al n b) \<and>
      ExAllocatePoolWithTag ty n tag s = (if \<forall>b\<in>set bs. BlockSize s b \<le> 0xFFFFFF then Done (NULL, s) else Hang)"
proof -
  let ?d = "Pools s ty" let ?h = "held ?d s"
  have b: "pool_blocks s ty bs" and l0: "PoolLock s ?d = 0" and c: "cpu_ok (cpool s)" "irql (cpool s) \<le> DISPATCH_LEVEL"
    and mi: "irql (cpool s) \<le> MaximalIrql s ?d"
    using p by (simp_all add: pool_ok_def Let_def)
  have bh: "pool_blocks ?h ty ([] @ bs)" using b by (simp add: held_blocks)
  have al: "al = 16 \<or> al = 0x1000" by (simp add: al_def page_alignment_def)
  obtain r where r: "alloc_loop ty n al tag ?d (hd (bs @ [?d])) ?h = Some (Done r)" "alloc_answer ty n al tag bs ?h r"
    using alloc_loop_spec [OF bh _ al, of n tag] by auto
  have fl: "flink (bheap ?h) ?d = hd (bs @ [?d])" using first_block [OF b] by simp
  have start: "ExAllocatePoolWithTag ty n tag s = (case fst r of
      Some p \<Rightarrow> obind (unlock_pool ?d (irql (cpool s)) (snd r)) (\<lambda>s. Done (p, s))
    | None \<Rightarrow> obind (DebugEnumeratePoolBlocks ty (snd r)) (\<lambda>_.
        obind (unlock_pool ?d (irql (cpool s)) (snd r)) (\<lambda>s. Done (NULL, s))))"
    using t leD [OF mi] r(1) fl lock_held [OF l0 c] unfolding al_def page_alignment_def
    by (simp add: ExAllocatePoolWithTag_def pool_of_blocks [OF b] Let_def run_loop_def split_beta split: option.split)
  show ?thesis
  proof (cases "fst r")
    case None
    then have a: "snd r = ?h" "\<forall>b\<in>set bs. \<not> fits s al n b"
      using r(2) by (simp_all add: alloc_answer_def held_fits)
    have "unlock_pool ?d (irql (cpool s)) ?h = Done s"
      using unlock_held [of ?h ?d "cpool s"] c held_back [OF l0] by simp
    then show ?thesis
      using start None a DebugEnumerate_eq [OF bh] by simp
  next
    case (Some q)
    then obtain xs b' ys where a: "bs = xs @ b' # ys" "\<forall>c\<in>set xs. \<not> fits s al n c" "AllocationTag ?h b' = 0"
      "block_place ?h al n b' (unat q)" "snd r = split_block ty n tag b' q ?h"
      using r(2) by (auto simp: alloc_answer_def held_fits)
    have bx: "pool_blocks ?h ty (xs @ b' # ys)" using bh a(1) by simp
    note sp = split_block_spec [OF bx a(3) t(2) a(4), folded a(5)]
    have si: "split_into ?h b' q n = split_into s b' q n" by (simp add: split_into_def)
    let ?s' = "(snd r)\<lparr>PoolLock := (PoolLock (snd r))(?d := 0), cpool := cpool s\<rparr>"
    have u: "unlock_pool ?d (irql (cpool s)) (snd r) = Done ?s'"
      using unlock_held [of "snd r" ?d "cpool s"] c sp(7) by simp
    have lk: "PoolLock ?s' = PoolLock s" using sp(7) l0 by (simp add: fun_upd_idem)
    have ok: "pool_ok ?s' ty (xs @ split_into s b' q n @ ys)"
    proof -
      have "pool_blocks ?s' ty (xs @ split_into s b' q n @ ys)"
        using sp(1) unfolding si by (subst pool_blocks_cong [of _ "snd r"]) simp_all
      then show ?thesis using c l0 mi sp(7) by (simp add: pool_ok_def Let_def)
    qed
    have oth: "\<forall>c\<in>set (xs @ ys). AllocationTag ?s' c = AllocationTag s c \<and> BlockSize ?s' c = BlockSize s c"
      using sp(6,8) by fastforce
    have "allocated s ty n tag xs b' ys q ?s'"
      unfolding allocated_def using ok sp(2-5,7) oth by (simp add: si)
    then have "bs = xs @ b' # ys \<and> (\<forall>c\<in>set xs. \<not> fits s al n c) \<and> AllocationTag s b' = 0 \<and>
      block_place s al n b' (unat q) \<and> ExAllocatePoolWithTag ty n tag s = Done (q, ?s') \<and>
      allocated s ty n tag xs b' ys q ?s'"
      using start Some u a(1-4) by simp
    then show ?thesis by blast
  qed
qed

text \<open>C12: freeing an allocated block, with its tag or with tag 0, marks it free and merges: afterwards
  no two neighbouring blocks are free, every other allocated block is where it was with its size,
  and the pool is still a tiling of its region.\<close>

theorem ExFreePoolWithTag_spec:
  assumes p: "pool_ok s ty bs" and b: "b \<in> set bs" and t: "AllocationTag s b \<noteq> 0"
    and tag: "tag = AllocationTag s b \<or> tag = 0"
  shows "\<exists>s' bs'. ExFreePoolWithTag (b + 32) tag s = Done s' \<and> pool_ok s' ty bs' \<and>
    no_free_pair (AllocationTag s') bs' \<and> set bs' \<subseteq> set bs \<and> AllocationTag s' b = 0 \<and>
    (\<forall>c\<in>set bs - {b}. AllocationTag s' c = AllocationTag s c \<and>
       (AllocationTag s c \<noteq> 0 \<longrightarrow> c \<in> set bs' \<and> BlockSize s' c = BlockSize s c))"
proof -
  let ?d = "Pools s ty" let ?s = "s\<lparr>AllocationTag := (AllocationTag s)(b := 0)\<rparr>"
  have bl: "pool_blocks s ty bs" and l0: "PoolLock s ?d = 0" and c: "cpu_ok (cpool s)" "irql (cpool s) \<le> DISPATCH_LEVEL"
    and mi: "irql (cpool s) \<le> MaximalIrql s ?d"
    using p by (simp_all add: pool_ok_def Let_def)
  have ty: "PoolType s b = ty" using bl b by (simp add: pool_blocks_def Let_def)
  have "pool_blocks ?s ty bs" using set_tag_keeps [OF bl, of 0 b] by (simp add: usable_tag_def)
  then have ok: "pool_ok ?s ty bs" using l0 c mi by (simp add: pool_ok_def Let_def)
  have "unlock_pool ?d (irql (cpool s)) ((held ?d s)\<lparr>AllocationTag := (AllocationTag s)(b := 0)\<rparr>) = Done ?s"
    using unlock_held [of "(held ?d s)\<lparr>AllocationTag := (AllocationTag s)(b := 0)\<rparr>" ?d "cpool s"] c l0
    by (simp add: held_def fun_upd_idem)
  then have "ExFreePoolWithTag (b + 32) tag s = ExMergePool ty ?s"
    using t tag ty leD [OF mi] lock_held [OF l0 c]
    by (auto simp: ExFreePoolWithTag_def Let_def pool_of_blocks [OF bl])
  moreover obtain s' bs' where m: "ExMergePool ty ?s = Done s'" "pool_ok s' ty bs'" "merged ?s bs s' bs'"
    "no_free_pair (AllocationTag s') bs'"
    using ExMergePool_eq [OF ok] by blast
  ultimately show ?thesis
    using m by (intro exI [of _ s'] exI [of _ bs']) (auto simp: merged_def)
qed

text \<open>Initialising the two pools with regions of at least 80 bytes makes each of them one free
  block behind its descriptor; the size check only asks for more than 48 bytes, and a region of
  49 to 79 bytes gets a block whose size has wrapped around.\<close>

lemma ExInitializePool_establishes:
  assumes r: "paged \<noteq> NULL" "nonPaged \<noteq> NULL" "unat pn < 2 ^ 62" "unat nn < 2 ^ 62"
    and reg: "unat paged + unat pn + 0x2000 \<le> 2 ^ 64" "unat nonPaged + unat nn + 0x2000 \<le> 2 ^ 64"
    and apart: "unat paged + unat pn \<le> unat nonPaged \<or> unat nonPaged + unat nn \<le> unat paged"
    and c: "cpu_ok (cpool s)" "irql (cpool s) \<le> APC_LEVEL"
    and big: "48 < unat pn" "48 < unat nn"
  shows "\<exists>s'. ExInitializePool paged pn nonPaged nn s = (STATUS_SUCCESS, s') \<and>
    BlockSize s' (nonPaged + 48) = nn - 80 \<and> BlockSize s' (paged + 48) = pn - 80 \<and>
    (80 \<le> unat pn \<and> 80 \<le> unat nn \<longrightarrow>
       pool_ok s' NonPagedPool [nonPaged + 48] \<and> pool_ok s' PagedPool [paged + 48]) \<and>
    (unat nn < 80 \<longrightarrow> 2 ^ 63 \<le> unat (BlockSize s' (nonPaged + 48)))"
proof -
  let ?p = "init_region paged pn APC_LEVEL PagedPool s"
  let ?s = "init_region nonPaged nn 0xFF NonPagedPool ?p"
  have u: "unat (paged + 48) = unat paged + 48" "unat (nonPaged + 48) = unat nonPaged + 48"
    using reg big by (auto simp: unat_plus_if')
  have ap: "nonPaged \<noteq> paged" "nonPaged \<noteq> paged + 48" "nonPaged + 48 \<noteq> paged" "nonPaged + 48 \<noteq> paged + 48"
    using apart u big by (auto simp: word_unat_eq_iff)
  have e: "ExInitializePool paged pn nonPaged nn s = (STATUS_SUCCESS, ?s)"
    using big by (simp add: ExInitializePool_def word_le_nat_alt)
  have sz: "BlockSize ?s (nonPaged + 48) = nn - 80 \<and> BlockSize ?s (paged + 48) = pn - 80"
    using ap by (simp add: init_region_def Let_def)
  have ok: "pool_ok ?s NonPagedPool [nonPaged + 48] \<and> pool_ok ?s PagedPool [paged + 48]" if "80 \<le> unat pn" "80 \<le> unat nn"
  proof -
    have "pool_blocks ?p PagedPool [paged + 48]"
      by (rule init_region_blocks) (use that r reg in auto)
    then have 1: "pool_blocks ?s PagedPool [paged + 48]"
      by (rule init_region_frame) (use ap in \<open>auto simp: init_region_def Let_def\<close>)
    have 2: "pool_blocks ?s NonPagedPool [nonPaged + 48]"
      by (rule init_region_blocks) (use that r reg in auto)
    have f: "Pools ?s NonPagedPool = nonPaged" "Pools ?s PagedPool = paged" "cpool ?s = cpool s"
      "PoolLock ?s nonPaged = 0" "PoolLock ?s paged = 0" "MaximalIrql ?s nonPaged = 0xFF" "MaximalIrql ?s paged = APC_LEVEL"
      using ap by (simp_all add: init_region_def Let_def KeInitializeSpinLock_def)
    have "irql (cpool s) \<le> DISPATCH_LEVEL" "irql (cpool s) \<le> 0xFF"
      using c(2) by (auto simp: word_le_nat_alt)
    then show ?thesis unfolding pool_ok_def Let_def f using 1 2 c by simp
  qed
  have "2 ^ 63 \<le> unat (nn - 80)" if "unat nn < 80" using that big by (simp add: unat_minus)
  then show ?thesis using e sz ok by auto
qed

text \<open>A machine with no pools yet.\<close>

definition no_pools :: pool where
  "no_pools = \<lparr>cpool = \<lparr>irql = 0, tpr = 0\<rparr>, bheap = \<lparr>flink = \<lambda>_. 0, blink = \<lambda>_. 0\<rparr>, Pools = (\<lambda>_. 0),
     PoolLock = (\<lambda>_. 0), MaximalIrql = (\<lambda>_. 0), AddressStart = (\<lambda>_. 0), AddressEnd = (\<lambda>_. 0),
     AllocationTag = (\<lambda>_. 0), PoolType = (\<lambda>_. 0), BlockSize = (\<lambda>_. 0), pmem = (\<lambda>_. 0)\<rparr>"

lemma ExInitializePool_establishes_example:
  "\<exists>s'. ExInitializePool 0x100000 0x10000 0x200000 0x20000 no_pools = (STATUS_SUCCESS, s') \<and>
     pool_ok s' NonPagedPool [0x200030] \<and> pool_ok s' PagedPool [0x100030]"
  using ExInitializePool_establishes [of "0x100000" "0x200000" "0x10000" "0x20000" no_pools]
  by (auto simp: no_pools_def cpu_ok_def)

text \<open>A non-paged pool of one free block of 1024 bytes, and one with an allocated block.\<close>

definition one_block :: "u32 \<Rightarrow> pool" where
  "one_block t = \<lparr>cpool = \<lparr>irql = 0, tpr = 0\<rparr>,
     bheap = \<lparr>flink = (\<lambda>_. 0)(0x1000 := 0x1030, 0x1030 := 0x1000), blink = (\<lambda>_. 0)(0x1000 := 0x1030, 0x1030 := 0x1000)\<rparr>,
     Pools = (\<lambda>_. 0)(0 := 0x1000), PoolLock = (\<lambda>_. 0), MaximalIrql = (\<lambda>_. 0xFF), AddressStart = (\<lambda>_. 0x1030),
     AddressEnd = (\<lambda>_. 0x1450), AllocationTag = (\<lambda>_. t), PoolType = (\<lambda>_. 0), BlockSize = (\<lambda>_. 0x400), pmem = (\<lambda>_. 0)\<rparr>"

lemma pool_tag_valid: "ValidateTag 0x504F4F4C"
  by (simp add: ValidateTag_def tag_byte_def upt_rec drop_bit_eq_div)

lemma one_block_ok: "usable_tag t \<Longrightarrow> pool_ok (one_block t) 0 [0x1030]"
  by (simp add: pool_ok_def pool_blocks_def one_block_def cpu_ok_def is_list_def Let_def)

theorem ExAllocatePoolWithTag_spec_witness:
  "\<exists>p s'. ExAllocatePoolWithTag 0 100 0x504F4F4C (one_block 0) = Done (p, s') \<and> 16 dvd unat p"
proof -
  have "block_place (one_block 0) 16 100 0x1030 0x1050" by (simp add: place_ok_def one_block_def)
  then have f: "fits (one_block 0) 16 100 0x1030" by (auto simp: fits_def one_block_def)
  have ok: "pool_ok (one_block 0) 0 [0x1030]" by (rule one_block_ok) (simp add: usable_tag_def)
  show ?thesis
    using ExAllocatePoolWithTag_spec [OF ok _ pool_tag_valid, of 100] f
    by (auto simp: page_alignment_def place_ok_def)
qed

theorem ExFreePoolWithTag_spec_witness:
  "\<exists>s' bs'. ExFreePoolWithTag 0x1050 0 (one_block 0x504F4F4C) = Done s' \<and> pool_ok s' 0 bs' \<and> AllocationTag s' 0x1030 = 0"
proof -
  have "pool_ok (one_block 0x504F4F4C) 0 [0x1030]" by (rule one_block_ok) (simp add: usable_tag_def pool_tag_valid)
  moreover have "AllocationTag (one_block 0x504F4F4C) 0x1030 \<noteq> 0" by (simp add: one_block_def)
  ultimately show ?thesis
    using ExFreePoolWithTag_spec [of "one_block 0x504F4F4C" 0 "[0x1030]" "0x1030" 0] by auto
qed

end
