(* ===== verification/Objects.thy ===== *)
theory Objects
  imports Pool
begin

text \<open>
  The object manager: object headers and their reference counts (NNXOSKRN/ob/objects.c), handle
  databases (NNXOSKRN/ob/handle.c) and the namespace of directory objects
  (NNXOSKRN/ob/namespace.c). An object lies 88 bytes behind its OBJECT_HEADER; the fields of the
  headers, the object types and the handle databases are maps from addresses. Headers are
  allocated from the non-paged pool of the model of pool.c.
\<close>

section \<open>State\<close>

abbreviation (input) KernelMode :: u8 where "KernelMode \<equiv> 0"
abbreviation (input) UserMode :: u8 where "UserMode \<equiv> 1"
abbreviation (input) OBJ_CASE_INSENSITIVE :: u32 where "OBJ_CASE_INSENSITIVE \<equiv> 0x40"
abbreviation (input) OBJ_OPENIF :: u32 where "OBJ_OPENIF \<equiv> 0x80"
abbreviation (input) OBJ_KERNEL_HANDLE :: u32 where "OBJ_KERNEL_HANDLE \<equiv> 0x200"
abbreviation (input) OBJ_FORCE_ACCESS_CHECK :: u32 where "OBJ_FORCE_ACCESS_CHECK \<equiv> 0x400"
abbreviation (input) OBJ_PERMANENT :: u32 where "OBJ_PERMANENT \<equiv> 0x10"
abbreviation (input) OBJ_VALID_ATTRIBUTES :: u32 where "OBJ_VALID_ATTRIBUTES \<equiv> 0x7F2"

type_synonym handle = u64

record ob =
  ocpu :: cpu
  oheap :: list_heap
  opool :: pool
  ostr :: "u16 strings"
  HandleManagerLock :: KSPIN_LOCK
  ProcessLock :: KSPIN_LOCK
  SystemHandleDatabaseHead :: ptr
  ProcessHandleDatabaseHead :: ptr
  DbObject :: "ptr \<Rightarrow> nat \<Rightarrow> ptr"
  HLock :: "ptr \<Rightarrow> KSPIN_LOCK"
  HRoot :: "ptr \<Rightarrow> handle"
  HAttributes :: "ptr \<Rightarrow> u32"
  HAccess :: "ptr \<Rightarrow> u32"
  ReferenceCount :: "ptr \<Rightarrow> u32"
  HandleCount :: "ptr \<Rightarrow> u32"
  HType :: "ptr \<Rightarrow> ptr"
  TObjectOpen :: "ptr \<Rightarrow> u64"
  TAddChildObject :: "ptr \<Rightarrow> u64"
  TOnOpen :: "ptr \<Rightarrow> u64"
  TOnCreate :: "ptr \<Rightarrow> u64"
  TOnDelete :: "ptr \<Rightarrow> u64"
  TInstanceSize :: "ptr \<Rightarrow> u64"
  GlobalNamespace :: handle
  ObpTypeDirHandle :: handle

text \<open>The header starts with ParentChildListEntry; its Name is at offset 16. The ChildrenHead of a
  directory is at the address of the object.\<close>

definition ObGetHeaderFromObject :: "ptr \<Rightarrow> ptr" where "ObGetHeaderFromObject obj = obj - 88"

definition ObGetObjectFromHeader :: "ptr \<Rightarrow> ptr" where "ObGetObjectFromHeader h = h + 88"

definition HName :: "ptr \<Rightarrow> ptr" where "HName h = h + 16"

lemma object_header [simp]:
  "ObGetHeaderFromObject (ObGetObjectFromHeader h) = h" "ObGetObjectFromHeader (ObGetHeaderFromObject obj) = obj"
  by (simp_all add: ObGetHeaderFromObject_def ObGetObjectFromHeader_def)

text \<open>The methods of object types are function pointers: 1 and 2 stand for those of directories, the
  others, which belong to other components, are read through this table. A method gets the
  object and the optional data.\<close>

record 'w methods =
  call_open :: "u64 \<Rightarrow> ptr \<Rightarrow> u32 \<Rightarrow> u8 \<Rightarrow> UNICODE_STRING \<Rightarrow> bool \<Rightarrow> ptr \<Rightarrow> 'w ob_scheme \<Rightarrow> ((NTSTATUS \<times> ptr option) \<times> 'w ob_scheme) outcome"
  call_add :: "u64 \<Rightarrow> ptr \<Rightarrow> ptr \<Rightarrow> 'w ob_scheme \<Rightarrow> (NTSTATUS \<times> 'w ob_scheme) outcome"
  call_method :: "u64 \<Rightarrow> ptr \<Rightarrow> ptr \<Rightarrow> 'w ob_scheme \<Rightarrow> (NTSTATUS \<times> 'w ob_scheme) outcome"

abbreviation (input) pDirObjTypeOpenObject :: u64 where "pDirObjTypeOpenObject \<equiv> 1"
abbreviation (input) pDirObjTypeAddChildObject :: u64 where "pDirObjTypeAddChildObject \<equiv> 2"

section \<open>Locks\<close>

definition lock_header :: "ptr \<Rightarrow> 'w ob_scheme \<Rightarrow> (u8 \<times> 'w ob_scheme) outcome" where
  "lock_header h s = obind (KeAcquireSpinLock (HLock s h) (ocpu s)) (\<lambda>(irql, l, c).
     Done (irql, s\<lparr>HLock := (HLock s)(h := l), ocpu := c\<rparr>))"

definition unlock_header :: "ptr \<Rightarrow> u8 \<Rightarrow> 'w ob_scheme \<Rightarrow> 'w ob_scheme outcome" where
  "unlock_header h oldIrql s = obind (KeReleaseSpinLock (HLock s h) oldIrql (ocpu s)) (\<lambda>(l, c).
     Done (s\<lparr>HLock := (HLock s)(h := l), ocpu := c\<rparr>))"

definition lock_database :: "bool \<Rightarrow> 'w ob_scheme \<Rightarrow> (u8 \<times> 'w ob_scheme) outcome" where
  "lock_database isKernelHandle s =
     (if isKernelHandle
      then obind (KeAcquireSpinLock (HandleManagerLock s) (ocpu s)) (\<lambda>(irql, l, c).
             Done (irql, s\<lparr>HandleManagerLock := l, ocpu := c\<rparr>))
      else obind (KeAcquireSpinLock (ProcessLock s) (ocpu s)) (\<lambda>(irql, l, c).
             Done (irql, s\<lparr>ProcessLock := l, ocpu := c\<rparr>)))"

definition unlock_database :: "bool \<Rightarrow> u8 \<Rightarrow> 'w ob_scheme \<Rightarrow> 'w ob_scheme outcome" where
  "unlock_database isKernelHandle oldIrql s =
     (if isKernelHandle
      then obind (KeReleaseSpinLock (HandleManagerLock s) oldIrql (ocpu s)) (\<lambda>(l, c).
             Done (s\<lparr>HandleManagerLock := l, ocpu := c\<rparr>))
      else obind (KeReleaseSpinLock (ProcessLock s) oldIrql (ocpu s)) (\<lambda>(l, c).
             Done (s\<lparr>ProcessLock := l, ocpu := c\<rparr>)))"

section \<open>Handles\<close>

definition ObpIsKernelHandle :: "handle \<Rightarrow> bool" where
  "ObpIsKernelHandle h = odd h"

definition ObpGetHandleDatabaseHead :: "bool \<Rightarrow> 'w ob_scheme \<Rightarrow> ptr" where
  "ObpGetHandleDatabaseHead isKernelHandle s =
     (if isKernelHandle then SystemHandleDatabaseHead s else ProcessHandleDatabaseHead s)"

text \<open>One part of a handle database is a page with (4096 - 16) / 16 entries. The loop follows the list
  of the parts; an entry is named by its part and its index there.\<close>

abbreviation (input) ENTRIES_PER_HANDLE_DATABASE :: u64 where "ENTRIES_PER_HANDLE_DATABASE \<equiv> 255"

partial_function (option) entry_loop :: "list_heap \<Rightarrow> u64 \<Rightarrow> ptr \<Rightarrow> u64 \<Rightarrow> (ptr \<times> nat) option option" where
  "entry_loop h handleAsIndex current currentIndex =
     (if current = NULL then Some None
      else if currentIndex \<le> handleAsIndex \<and> currentIndex + ENTRIES_PER_HANDLE_DATABASE > handleAsIndex
      then Some (Some (current, unat (handleAsIndex mod ENTRIES_PER_HANDLE_DATABASE)))
      else entry_loop h handleAsIndex (flink h current) (currentIndex + ENTRIES_PER_HANDLE_DATABASE))"

definition ObGetHandleDatabaseEntryFromHandle ::
  "handle \<Rightarrow> ptr \<Rightarrow> 'w ob_scheme \<Rightarrow> (NTSTATUS \<times> (ptr \<times> nat) option) outcome" where
  "ObGetHandleDatabaseEntryFromHandle h databaseHead s =
     (if h = NULL then Done (STATUS_INVALID_HANDLE, None)
      else case entry_loop (oheap s) (h div 2) (flink (oheap s) databaseHead) 0 of
             None \<Rightarrow> Hang
           | Some None \<Rightarrow> Done (STATUS_INVALID_HANDLE, None)
           | Some (Some e) \<Rightarrow> Done (STATUS_SUCCESS, Some e))"

definition entry_object :: "'w ob_scheme \<Rightarrow> ptr \<times> nat \<Rightarrow> ptr" where
  "entry_object s e = DbObject s (fst e) (snd e)"

definition set_entry :: "ptr \<times> nat \<Rightarrow> ptr \<Rightarrow> 'w ob_scheme \<Rightarrow> 'w ob_scheme" where
  "set_entry e obj s = s\<lparr>DbObject := (DbObject s)(fst e := (DbObject s (fst e))(snd e := obj))\<rparr>"

section \<open>References\<close>

definition ObReferenceObjectUnsafe :: "ptr \<Rightarrow> 'w ob_scheme \<Rightarrow> NTSTATUS \<times> 'w ob_scheme" where
  "ObReferenceObjectUnsafe obj s =
     (let h = ObGetHeaderFromObject obj in
      (STATUS_SUCCESS, s\<lparr>ReferenceCount := (ReferenceCount s)(h := ReferenceCount s h + 1)\<rparr>))"

definition ObReferenceObject :: "ptr \<Rightarrow> 'w ob_scheme \<Rightarrow> (NTSTATUS \<times> 'w ob_scheme) outcome" where
  "ObReferenceObject obj s =
     (let h = ObGetHeaderFromObject obj in
      obind (lock_header h s) (\<lambda>(irql, s).
      obind (unlock_header h irql (snd (ObReferenceObjectUnsafe obj s))) (\<lambda>s. Done (STATUS_SUCCESS, s))))"

definition ObReferenceObjectByPointer :: "ptr \<Rightarrow> u32 \<Rightarrow> ptr \<Rightarrow> u8 \<Rightarrow> 'w ob_scheme \<Rightarrow> (NTSTATUS \<times> 'w ob_scheme) outcome" where
  "ObReferenceObjectByPointer obj desiredAccess objectType accessMode s =
     (if obj = NULL then Done (STATUS_INVALID_PARAMETER, s)
      else let h = ObGetHeaderFromObject obj in
        obind (lock_header h s) (\<lambda>(irql, s).
        let return = (\<lambda>st s. obind (unlock_header h irql s) (\<lambda>s. Done (st, s))) in
        if and (HAttributes s h) (not OBJ_VALID_ATTRIBUTES) \<noteq> 0 then return STATUS_INVALID_PARAMETER s
        else if and (HAttributes s h) OBJ_KERNEL_HANDLE \<noteq> 0 \<and> accessMode \<noteq> KernelMode then return STATUS_INVALID_HANDLE s
        else if (and (HAttributes s h) OBJ_FORCE_ACCESS_CHECK \<noteq> 0 \<or> accessMode \<noteq> KernelMode) \<and>
                HType s h \<noteq> objectType \<and> objectType \<noteq> NULL
        then return STATUS_OBJECT_TYPE_MISMATCH s
        else if (and (HAttributes s h) OBJ_FORCE_ACCESS_CHECK \<noteq> 0 \<or> accessMode \<noteq> KernelMode) \<and>
                and desiredAccess (not (HAccess s h)) \<noteq> 0
        then return STATUS_ACCESS_DENIED s
        else return STATUS_SUCCESS (s\<lparr>ReferenceCount := (ReferenceCount s)(h := ReferenceCount s h + 1)\<rparr>)))"

definition ObExtractAndReferenceObjectFromHandle ::
  "handle \<Rightarrow> u8 \<Rightarrow> 'w ob_scheme \<Rightarrow> ((NTSTATUS \<times> ptr option) \<times> 'w ob_scheme) outcome" where
  "ObExtractAndReferenceObjectFromHandle h accessMode s =
     (if h = NULL then Done ((STATUS_INVALID_HANDLE, None), s)
      else
        let isKernelHandle = ObpIsKernelHandle h in
        if isKernelHandle \<and> accessMode = UserMode then Done ((STATUS_ACCESS_DENIED, None), s)
        else
          obind (lock_database isKernelHandle s) (\<lambda>(irql, s).
          obind (ObGetHandleDatabaseEntryFromHandle h (ObpGetHandleDatabaseHead isKernelHandle s) s) (\<lambda>(status, entry).
            if status \<noteq> STATUS_SUCCESS
            then obind (unlock_database isKernelHandle irql s) (\<lambda>s. Done ((status, None), s))
            else
              let localObject = entry_object s (the entry) in
              if localObject = NULL
              then obind (unlock_database isKernelHandle irql s) (\<lambda>s. Done ((STATUS_INVALID_HANDLE, None), s))
              else obind (ObReferenceObject localObject s) (\<lambda>(_, s).
                   obind (unlock_database isKernelHandle irql s) (\<lambda>s.
                     Done ((STATUS_SUCCESS, Some localObject), s))))))"

section \<open>Dereferencing and deletion\<close>

text \<open>ObDereferenceObject, ObpDeleteObject and ObReferenceObjectByHandle call each other; the last two
  are written over the first. The calls nest as deep as the chain of roots that are deleted one
  after the other, and the depth is bounded as the kernel stack bounds it: past it the model
  hangs.\<close>

type_synonym 'w deref_fn = "ptr \<Rightarrow> 'w ob_scheme \<Rightarrow> (NTSTATUS \<times> 'w ob_scheme) outcome"

definition ObReferenceObjectByHandle_with ::
  "'w deref_fn \<Rightarrow> handle \<Rightarrow> u32 \<Rightarrow> ptr \<Rightarrow> u8 \<Rightarrow> 'w ob_scheme \<Rightarrow> ((NTSTATUS \<times> ptr option) \<times> 'w ob_scheme) outcome" where
  "ObReferenceObjectByHandle_with deref h desiredAccess objectType accessMode s =
     (if h = NULL then Done ((STATUS_INVALID_HANDLE, None), s)
      else
        obind (ObExtractAndReferenceObjectFromHandle h accessMode s) (\<lambda>((status, obj), s).
          if status \<noteq> STATUS_SUCCESS then Done ((status, None), s)
          else
            obind (ObReferenceObjectByPointer (the obj) desiredAccess objectType accessMode s) (\<lambda>(status, s).
            obind (deref (the obj) s) (\<lambda>(_, s).
              Done (if status \<noteq> STATUS_SUCCESS then (status, None) else (STATUS_SUCCESS, obj), s)))))"

text \<open>The pool works on the processor of the caller.\<close>

definition free_header :: "ptr \<Rightarrow> 'w ob_scheme \<Rightarrow> 'w ob_scheme outcome" where
  "free_header h s = obind (ExFreePool h ((opool s)\<lparr>cpool := ocpu s\<rparr>)) (\<lambda>p. Done (s\<lparr>opool := p, ocpu := cpool p\<rparr>))"

definition ObpDeleteObject_with :: "'w deref_fn \<Rightarrow> 'w methods \<Rightarrow> ptr \<Rightarrow> 'w ob_scheme \<Rightarrow> (NTSTATUS \<times> 'w ob_scheme) outcome" where
  "ObpDeleteObject_with deref M obj s =
     (let h = ObGetHeaderFromObject obj in
      if HandleCount s h > 0 then Done (STATUS_ACCESS_DENIED, s)
      else
        obind (if HRoot s h \<noteq> NULL
               then
                 obind (ObReferenceObjectByHandle_with deref (HRoot s h) 0 NULL KernelMode s) (\<lambda>((status, root), s).
                   if status \<noteq> STATUS_SUCCESS then Done (status, s)
                   else
                     obind (lock_header (ObGetHeaderFromObject (the root)) s) (\<lambda>(irql, s).
                     obind (unlock_header (ObGetHeaderFromObject (the root)) irql
                              (s\<lparr>oheap := RemoveEntry h (oheap s)\<rparr>)) (\<lambda>s.
                     obind (deref (the root) s) (\<lambda>(_, s).
                     obind (deref (the root) s) (\<lambda>(_, s). Done (STATUS_SUCCESS, s))))))
               else Done (STATUS_SUCCESS, s)) (\<lambda>(status, s).
          if status \<noteq> STATUS_SUCCESS then Done (status, s)
          else
            obind (if TOnDelete s (HType s h) \<noteq> NULL then call_method M (TOnDelete s (HType s h)) obj NULL s
                   else Done (STATUS_SUCCESS, s)) (\<lambda>(status, s).
            obind (free_header h s) (\<lambda>s. Done (status, s)))))"

primrec ObDereferenceObject_at :: "nat \<Rightarrow> 'w methods \<Rightarrow> 'w deref_fn" where
  "ObDereferenceObject_at 0 M = (\<lambda>obj s. Hang)"
| "ObDereferenceObject_at (Suc n) M = (\<lambda>obj s.
     let h = ObGetHeaderFromObject obj in
     obind (lock_header h s) (\<lambda>(irql, s).
     let s = s\<lparr>ReferenceCount := (ReferenceCount s)(h := ReferenceCount s h - 1)\<rparr> in
     if ReferenceCount s h = 0
     then
       let s = s\<lparr>ostr := (ostr s)\<lparr>str := (str (ostr s))(HName h := \<lparr>Length = 0, MaxLength = 0, Buffer = 0\<rparr>)\<rparr>\<rparr> in
       obind (unlock_header h irql s) (\<lambda>s. ObpDeleteObject_with (ObDereferenceObject_at n M) M obj s)
     else obind (unlock_header h irql s) (\<lambda>s. Done (STATUS_SUCCESS, s))))"

definition deref_depth :: nat where "deref_depth = 64"

definition ObDereferenceObject :: "'w methods \<Rightarrow> 'w deref_fn" where
  "ObDereferenceObject M = ObDereferenceObject_at deref_depth M"

definition ObpDeleteObject :: "'w methods \<Rightarrow> ptr \<Rightarrow> 'w ob_scheme \<Rightarrow> (NTSTATUS \<times> 'w ob_scheme) outcome" where
  "ObpDeleteObject M = ObpDeleteObject_with (ObDereferenceObject M) M"

definition ObReferenceObjectByHandle ::
  "'w methods \<Rightarrow> handle \<Rightarrow> u32 \<Rightarrow> ptr \<Rightarrow> u8 \<Rightarrow> 'w ob_scheme \<Rightarrow> ((NTSTATUS \<times> ptr option) \<times> 'w ob_scheme) outcome" where
  "ObReferenceObjectByHandle M = ObReferenceObjectByHandle_with (ObDereferenceObject M)"

section \<open>Creating and closing handles\<close>

partial_function (option) free_entry_loop ::
  "'w ob_scheme \<Rightarrow> ptr \<Rightarrow> ptr \<Rightarrow> u64 \<Rightarrow> (u64 \<times> (ptr \<times> nat)) option option" where
  "free_entry_loop s databaseHead current currentIndex =
     (if current = databaseHead then Some None
      else case List.find (\<lambda>i. DbObject s current i = NULL) [0..<255] of
             Some i \<Rightarrow> Some (Some (currentIndex + word_of_nat i, (current, i)))
           | None \<Rightarrow> free_entry_loop s databaseHead (flink (oheap s) current) (currentIndex + 255))"

text \<open>The out pointer is not NULL here; its value is returned.\<close>

definition ObCreateHandle :: "u8 \<Rightarrow> bool \<Rightarrow> ptr \<Rightarrow> 'w ob_scheme \<Rightarrow> ((NTSTATUS \<times> handle option) \<times> 'w ob_scheme) outcome" where
  "ObCreateHandle accessMode isKernelHandle obj s =
     (if obj = NULL then Done ((STATUS_INVALID_PARAMETER, None), s)
      else
        let h = ObGetHeaderFromObject obj;
            isKernelHandle = (isKernelHandle \<or> and (HAttributes s h) OBJ_KERNEL_HANDLE \<noteq> 0)
        in if isKernelHandle \<and> accessMode = UserMode then Done ((STATUS_ACCESS_DENIED, None), s)
           else
             let databaseHead = ObpGetHandleDatabaseHead isKernelHandle s in
             obind (lock_database True s) (\<lambda>(irql, s).
             case free_entry_loop s databaseHead (flink (oheap s) databaseHead) 0 of
               None \<Rightarrow> Hang
             | Some None \<Rightarrow> obind (unlock_database True irql s) (\<lambda>s. Done ((STATUS_NO_MEMORY, None), s))
             | Some (Some (currentIndex, e)) \<Rightarrow>
                 let out = or (currentIndex * 2) (if isKernelHandle then 1 else 0);
                     s = set_entry e obj s;
                     s = s\<lparr>HandleCount := (HandleCount s)(h := HandleCount s h + 1)\<rparr>
                 in obind (unlock_database True irql s) (\<lambda>s.
                    obind (ObReferenceObject obj s) (\<lambda>(_, s). Done ((STATUS_SUCCESS, Some out), s)))))"

definition ObCloseHandleByEntry :: "'w methods \<Rightarrow> ptr \<times> nat \<Rightarrow> 'w ob_scheme \<Rightarrow> 'w ob_scheme outcome" where
  "ObCloseHandleByEntry M e s =
     (let obj = entry_object s e; h = ObGetHeaderFromObject obj in
      obind (lock_header h s) (\<lambda>(irql, s).
      obind (unlock_header h irql (s\<lparr>HandleCount := (HandleCount s)(h := HandleCount s h - 1)\<rparr>)) (\<lambda>s.
      obind (ObDereferenceObject M obj s) (\<lambda>(_, s). Done (set_entry e NULL s)))))"

definition ObCloseHandle :: "'w methods \<Rightarrow> handle \<Rightarrow> u8 \<Rightarrow> 'w ob_scheme \<Rightarrow> (NTSTATUS \<times> 'w ob_scheme) outcome" where
  "ObCloseHandle M h accessMode s =
     (let isKernelHandle = ObpIsKernelHandle h in
      if isKernelHandle \<and> accessMode = UserMode then Done (STATUS_ACCESS_DENIED, s)
      else
        obind (lock_database isKernelHandle s) (\<lambda>(irql, s).
        obind (ObGetHandleDatabaseEntryFromHandle h (ObpGetHandleDatabaseHead isKernelHandle s) s) (\<lambda>(status, entry).
          if status \<noteq> STATUS_SUCCESS
          then obind (unlock_database isKernelHandle irql s) (\<lambda>s. Done (status, s))
          else if entry_object s (the entry) = NULL
          then obind (unlock_database isKernelHandle irql s) (\<lambda>s. Done (STATUS_INVALID_HANDLE, s))
          else obind (ObCloseHandleByEntry M (the entry) s) (\<lambda>s.
               obind (unlock_database isKernelHandle irql s) (\<lambda>s. Done (STATUS_SUCCESS, s))))))"

definition ObCloneHandle :: "'w methods \<Rightarrow> handle \<Rightarrow> 'w ob_scheme \<Rightarrow> ((NTSTATUS \<times> handle option) \<times> 'w ob_scheme) outcome" where
  "ObCloneHandle M InHandle s =
     (if InHandle = NULL then Done ((STATUS_INVALID_HANDLE, None), s)
      else
        obind (ObExtractAndReferenceObjectFromHandle InHandle KernelMode s) (\<lambda>((status, obj), s).
          if \<not> NT_SUCCESS status then Done ((status, None), s)
          else
            obind (ObCreateHandle KernelMode (ObpIsKernelHandle InHandle) (the obj) s) (\<lambda>(r, s).
            obind (ObDereferenceObject M (the obj) s) (\<lambda>(_, s). Done (r, s)))))"

definition ObInitHandleManager :: "ptr \<Rightarrow> 'w ob_scheme \<Rightarrow> NTSTATUS \<times> 'w ob_scheme" where
  "ObInitHandleManager InitialSystemHandleDatabase s =
     (STATUS_SUCCESS,
      s\<lparr>oheap := InsertHeadList (SystemHandleDatabaseHead s) InitialSystemHandleDatabase
                  (InitializeListHead (SystemHandleDatabaseHead s) (oheap s)),
        HandleManagerLock := KeInitializeSpinLock (HandleManagerLock s)\<rparr>)"

end
