(* ===== verification/Namespace.thy ===== *)
theory Namespace
  imports Objects
begin

text \<open>
  The namespace of the object manager (NNXOSKRN/ob/namespace.c): directory objects, the walk of a
  path through them, moving an object to another root; and the creation of named objects
  (ObCreateObject and ObCreateType of NNXOSKRN/ob/objects.c), which uses it.
\<close>

section \<open>Directories\<close>

definition DirObjTypeAddChildObject :: "ptr \<Rightarrow> ptr \<Rightarrow> 'w ob_scheme \<Rightarrow> NTSTATUS \<times> 'w ob_scheme" where
  "DirObjTypeAddChildObject selfObject newObject s =
     (STATUS_SUCCESS, s\<lparr>oheap := InsertHeadList selfObject (ObGetHeaderFromObject newObject) (oheap s)\<rparr>)"

text \<open>A name that is passed down is a descriptor on the stack; 8 is its address.\<close>

definition local_name :: ptr where "local_name = 8"

definition names_equal :: "'w ob_scheme \<Rightarrow> ptr \<Rightarrow> UNICODE_STRING \<Rightarrow> bool \<Rightarrow> bool" where
  "names_equal s h KnownName CaseInsensitive =
     RtlEqualUnicodeString (HName h) local_name CaseInsensitive
       ((ostr s)\<lparr>str := (str (ostr s))(local_name := KnownName)\<rparr>)"

definition open_child :: "'w methods \<Rightarrow> ptr \<Rightarrow> u32 \<Rightarrow> u8 \<Rightarrow> ptr \<Rightarrow> 'w ob_scheme \<Rightarrow> ((NTSTATUS \<times> ptr option) \<times> 'w ob_scheme) outcome" where
  "open_child M h DesiredAccess AccessMode OptionalData s =
     (let obj = ObGetObjectFromHeader h in
      obind (ObReferenceObjectByPointer obj DesiredAccess NULL AccessMode s) (\<lambda>(status, s).
        if status \<noteq> STATUS_SUCCESS then Done ((status, None), s)
        else if TOnOpen s (HType s h) \<noteq> NULL
        then
          obind (call_method M (TOnOpen s (HType s h)) obj OptionalData s) (\<lambda>(status, s).
            if status \<noteq> STATUS_SUCCESS
            then obind (ObDereferenceObject M obj s) (\<lambda>(_, s). Done ((status, None), s))
            else Done ((STATUS_SUCCESS, Some obj), s))
        else Done ((STATUS_SUCCESS, Some obj), s)))"

partial_function (option) child_loop ::
  "'w methods \<Rightarrow> ptr \<Rightarrow> ptr \<Rightarrow> u32 \<Rightarrow> u8 \<Rightarrow> UNICODE_STRING \<Rightarrow> bool \<Rightarrow> ptr \<Rightarrow> 'w ob_scheme \<Rightarrow> ((NTSTATUS \<times> ptr option) \<times> 'w ob_scheme) outcome option" where
  "child_loop M dir current DesiredAccess AccessMode KnownName CaseInsensitive OptionalData s =
     (if current = dir then Some (Done ((STATUS_OBJECT_NAME_NOT_FOUND, None), s))
      else if names_equal s current KnownName CaseInsensitive
      then Some (open_child M current DesiredAccess AccessMode OptionalData s)
      else child_loop M dir (flink (oheap s) current) DesiredAccess AccessMode KnownName CaseInsensitive OptionalData s)"

definition DirObjTypeOpenObjectWithNameDecoded ::
  "'w methods \<Rightarrow> ptr \<Rightarrow> u32 \<Rightarrow> u8 \<Rightarrow> UNICODE_STRING \<Rightarrow> bool \<Rightarrow> ptr \<Rightarrow> 'w ob_scheme \<Rightarrow> ((NTSTATUS \<times> ptr option) \<times> 'w ob_scheme) outcome" where
  "DirObjTypeOpenObjectWithNameDecoded M dir DesiredAccess AccessMode KnownName CaseInsensitive OptionalData s =
     run_loop (child_loop M dir (flink (oheap s) dir) DesiredAccess AccessMode KnownName CaseInsensitive OptionalData s)"

definition first_slash :: "'w ob_scheme \<Rightarrow> UNICODE_STRING \<Rightarrow> nat" where
  "first_slash s Name = length (takeWhile (\<lambda>i. wchar_at (ostr s) (Buffer Name) i \<noteq> 0x5C) [0..<unat (Length Name) div 2])"

lemma first_slash_le: "first_slash s Name \<le> unat (Length Name) div 2"
  unfolding first_slash_def using length_takeWhile_le [of _ "[0..<unat (Length Name) div 2]"] by (metis diff_zero length_upt)

definition path_head :: "UNICODE_STRING \<Rightarrow> nat \<Rightarrow> UNICODE_STRING" where
  "path_head Name i = \<lparr>Length = word_of_nat (i * 2), MaxLength = word_of_nat (i * 2), Buffer = Buffer Name\<rparr>"

definition path_tail :: "UNICODE_STRING \<Rightarrow> nat \<Rightarrow> UNICODE_STRING" where
  "path_tail Name i =
     \<lparr>Length = Length Name - word_of_nat ((i + 1) * 2), MaxLength = Length Name - word_of_nat ((i + 1) * 2),
      Buffer = Buffer Name + 2 * word_of_nat (i + 1)\<rparr>"

lemma path_tail_length:
  assumes "i < unat (Length Name) div 2"
  shows "unat (Length (path_tail Name i)) = unat (Length Name) - (i + 1) * 2"
proof -
  have "unat (word_of_nat ((i + 1) * 2) :: u16) = (i + 1) * 2"
    using assms unat_bound [of "Length Name"] by (intro unat_word_of_nat) simp
  moreover have "(i + 1) * 2 \<le> unat (Length Name)" using assms by simp
  ultimately show ?thesis by (simp add: path_tail_def unat_sub_if_size word_size)
qed

lemma path_tail_shorter:
  "first_slash s Name \<noteq> unat (Length Name) div 2 \<Longrightarrow>
   unat (Length (path_tail Name (first_slash s Name))) < unat (Length Name)"
proof -
  assume "first_slash s Name \<noteq> unat (Length Name) div 2"
  then have lt: "first_slash s Name < unat (Length Name) div 2" using first_slash_le [of s Name] by simp
  then have "0 < unat (Length Name)" by (cases "unat (Length Name)") simp_all
  then show ?thesis unfolding path_tail_length [OF lt] by simp
qed

function DirObjTypeOpenObject ::
  "'w methods \<Rightarrow> ptr \<Rightarrow> u32 \<Rightarrow> u8 \<Rightarrow> UNICODE_STRING \<Rightarrow> bool \<Rightarrow> ptr \<Rightarrow> 'w ob_scheme \<Rightarrow> ((NTSTATUS \<times> ptr option) \<times> 'w ob_scheme) outcome" where
  "DirObjTypeOpenObject M dir DesiredAccess AccessMode Name CaseInsensitive OptionalData s =
     (if Length Name = 0 then Done ((STATUS_OBJECT_PATH_INVALID, None), s)
      else
        let i = first_slash s Name in
        if i = unat (Length Name) div 2
        then DirObjTypeOpenObjectWithNameDecoded M dir DesiredAccess AccessMode Name CaseInsensitive OptionalData s
        else if i = 0 then Done ((STATUS_OBJECT_PATH_INVALID, None), s)
        else
          obind (DirObjTypeOpenObjectWithNameDecoded M dir DesiredAccess AccessMode (path_head Name i)
                   CaseInsensitive OptionalData s) (\<lambda>((status, nextParent), s').
            if status \<noteq> STATUS_SUCCESS then Done ((status, None), s')
            else
              let parent = the nextParent; ty = HType s' (ObGetHeaderFromObject parent) in
              if TObjectOpen s' ty = NULL
              then obind (ObDereferenceObject M parent s') (\<lambda>(_, s'). Done ((STATUS_OBJECT_PATH_INVALID, None), s'))
              else
                obind (if TObjectOpen s' ty = pDirObjTypeOpenObject
                       then DirObjTypeOpenObject M parent DesiredAccess AccessMode (path_tail Name i)
                              CaseInsensitive OptionalData s'
                       else call_open M (TObjectOpen s' ty) parent DesiredAccess AccessMode (path_tail Name i)
                              CaseInsensitive OptionalData s') (\<lambda>(r, s').
                obind (ObDereferenceObject M parent s') (\<lambda>(_, s'). Done (r, s')))))"
  by pat_completeness auto

termination DirObjTypeOpenObject
  by (relation "measure (\<lambda>(M, dir, a, m, Name, ci, d, s). unat (Length Name))") (simp_all add: path_tail_shorter)

text \<open>A call through the ObjectOpen and AddChildObject pointers of a type.\<close>

definition call_ObjectOpen ::
  "'w methods \<Rightarrow> u64 \<Rightarrow> ptr \<Rightarrow> u32 \<Rightarrow> u8 \<Rightarrow> UNICODE_STRING \<Rightarrow> bool \<Rightarrow> ptr \<Rightarrow> 'w ob_scheme \<Rightarrow> ((NTSTATUS \<times> ptr option) \<times> 'w ob_scheme) outcome" where
  "call_ObjectOpen M f = (if f = pDirObjTypeOpenObject then DirObjTypeOpenObject M else call_open M f)"

definition call_AddChildObject :: "'w methods \<Rightarrow> u64 \<Rightarrow> ptr \<Rightarrow> ptr \<Rightarrow> 'w ob_scheme \<Rightarrow> (NTSTATUS \<times> 'w ob_scheme) outcome" where
  "call_AddChildObject M f root obj s =
     (if f = pDirObjTypeAddChildObject then Done (DirObjTypeAddChildObject root obj s) else call_add M f root obj s)"

section \<open>Changing the root\<close>

text \<open>The call that restores the old root passes its object pointer where a handle is expected; by
  then the object has no root, so it does not recur again.\<close>

primrec ObChangeRoot_at :: "nat \<Rightarrow> 'w methods \<Rightarrow> ptr \<Rightarrow> handle \<Rightarrow> u8 \<Rightarrow> 'w ob_scheme \<Rightarrow> (NTSTATUS \<times> 'w ob_scheme) outcome" where
  "ObChangeRoot_at 0 M obj newRoot accessMode s = Hang"
| "ObChangeRoot_at (Suc n) M obj newRoot accessMode s =
     obind (ObReferenceObject obj s) (\<lambda>(_, s).
     let h = ObGetHeaderFromObject obj in
     obind (lock_header h s) (\<lambda>(irql1, s).
     let leave = (\<lambda>st s. obind (unlock_header h irql1 s) (\<lambda>s.
                         obind (ObDereferenceObject M obj s) (\<lambda>(_, s). Done (st, s)))) in
     obind (if HRoot s h \<noteq> NULL
            then
              obind (ObReferenceObjectByHandle M (HRoot s h) 0 NULL accessMode s) (\<lambda>((status, root), s).
                if status \<noteq> STATUS_SUCCESS then Done (Inl status, s)
                else
                  let s = s\<lparr>HRoot := (HRoot s)(h := NULL), oheap := RemoveEntry h (oheap s)\<rparr> in
                  obind (ObDereferenceObject M (the root) s) (\<lambda>(_, s). Done (Inr (the root), s)))
            else Done (Inr NULL, s)) (\<lambda>(r, s).
       case r of
         Inl status \<Rightarrow> leave status s
       | Inr originalRoot \<Rightarrow>
           obind (ObReferenceObjectByHandle M newRoot 0 NULL accessMode s) (\<lambda>((status, root), s).
             if status \<noteq> STATUS_SUCCESS then leave status s
             else
               let rootObject = the root; rh = ObGetHeaderFromObject rootObject in
               obind (lock_header rh s) (\<lambda>(irql2, s).
               let add = TAddChildObject s (HType s rh) in
               obind (if add = NULL then Done ((STATUS_OBJECT_PATH_INVALID, True), s)
                      else obind (call_AddChildObject M add rootObject obj s) (\<lambda>(status, s).
                             Done ((STATUS_SUCCESS, status \<noteq> STATUS_SUCCESS), s))) (\<lambda>((statusToReturn, failed), s).
                 if failed
                 then
                   obind (unlock_header rh irql2 s) (\<lambda>s.
                   obind (unlock_header h irql1 s) (\<lambda>s.
                   obind (if originalRoot \<noteq> NULL then ObChangeRoot_at n M obj originalRoot accessMode s
                          else Done (STATUS_SUCCESS, s)) (\<lambda>(status, s).
                   obind (ObDereferenceObject M obj s) (\<lambda>(_, s).
                   obind (ObDereferenceObject M rootObject s) (\<lambda>(_, s).
                     Done (if status \<noteq> STATUS_SUCCESS then status else statusToReturn, s))))))
                 else
                   let s = s\<lparr>HRoot := (HRoot s)(h := newRoot)\<rparr> in
                   obind (unlock_header rh irql2 s) (\<lambda>s.
                   obind (unlock_header h irql1 s) (\<lambda>s.
                   obind (ObDereferenceObject M obj s) (\<lambda>(_, s).
                   obind (if originalRoot \<noteq> NULL then ObDereferenceObject M originalRoot s
                          else Done (STATUS_SUCCESS, s)) (\<lambda>(_, s).
                     Done (STATUS_SUCCESS, s)))))))))))"

definition ObChangeRoot :: "'w methods \<Rightarrow> ptr \<Rightarrow> handle \<Rightarrow> u8 \<Rightarrow> 'w ob_scheme \<Rightarrow> (NTSTATUS \<times> 'w ob_scheme) outcome" where
  "ObChangeRoot = ObChangeRoot_at 2"

section \<open>Creating objects\<close>

record OBJECT_ATTRIBUTES =
  ARoot :: handle
  ObjectName :: "UNICODE_STRING option"
  AAttributes :: u32

definition InitializeObjectAttributes :: "UNICODE_STRING option \<Rightarrow> u32 \<Rightarrow> handle \<Rightarrow> OBJECT_ATTRIBUTES" where
  "InitializeObjectAttributes n flags root = \<lparr>ARoot = root, ObjectName = n, AAttributes = flags\<rparr>"

text \<open>The first half of ObCreateObject: find the root and look whether the name is taken. It ends the
  creation with a result, or yields the root handle, the root object and the last status.\<close>

definition find_root ::
  "'w methods \<Rightarrow> u32 \<Rightarrow> u8 \<Rightarrow> OBJECT_ATTRIBUTES \<Rightarrow> ptr \<Rightarrow> 'w ob_scheme \<Rightarrow>
    (((NTSTATUS \<times> ptr option) + (handle \<times> ptr \<times> NTSTATUS)) \<times> 'w ob_scheme) outcome" where
  "find_root M DesiredAccess AccessMode A OptionalData s =
     (case ObjectName A of
        None \<Rightarrow> Done (Inr (NULL, NULL, STATUS_SUCCESS), s)
      | Some name \<Rightarrow>
          let Root = (if ARoot A = NULL then GlobalNamespace s else ARoot A) in
          if Root = NULL then Done (Inr (NULL, NULL, STATUS_SUCCESS), s)
          else
            obind (ObReferenceObjectByHandle M Root DesiredAccess NULL AccessMode s) (\<lambda>((status, root), s).
              if status \<noteq> STATUS_SUCCESS then Done (Inl (status, None), s)
              else
                let RootObject = the root; f = TObjectOpen s (HType s (ObGetHeaderFromObject RootObject)) in
                obind (if f = NULL then Done ((STATUS_OBJECT_PATH_INVALID, None), s)
                       else call_ObjectOpen M f RootObject DesiredAccess AccessMode name
                              (and (AAttributes A) OBJ_CASE_INSENSITIVE \<noteq> 0) OptionalData s)
                  (\<lambda>((status, PotentialCollision), s).
                    if status = STATUS_SUCCESS
                    then if and (AAttributes A) OBJ_OPENIF \<noteq> 0
                         then Done (Inl (STATUS_SUCCESS, PotentialCollision), s)
                         else obind (ObDereferenceObject M (the PotentialCollision) s) (\<lambda>(_, s).
                                Done (Inl (STATUS_OBJECT_NAME_COLLISION, None), s))
                    else Done (Inr (Root, RootObject, status), s))))"

text \<open>Filling in a new header.\<close>

definition init_header :: "ptr \<Rightarrow> u32 \<Rightarrow> OBJECT_ATTRIBUTES \<Rightarrow> handle \<Rightarrow> ptr \<Rightarrow> 'w ob_scheme \<Rightarrow> 'w ob_scheme" where
  "init_header h DesiredAccess A Root ty s =
     s\<lparr>HLock := (HLock s)(h := KeInitializeSpinLock (HLock s h)), HAccess := (HAccess s)(h := DesiredAccess),
       HAttributes := (HAttributes s)(h := AAttributes A), HRoot := (HRoot s)(h := Root), HType := (HType s)(h := ty),
       ReferenceCount := (ReferenceCount s)(h := 1), HandleCount := (HandleCount s)(h := 0),
       oheap := InitializeListHead (h + 56) (oheap s),
       ostr := (ostr s)\<lparr>str := (str (ostr s))(HName h :=
         (case ObjectName A of Some name \<Rightarrow> name | None \<Rightarrow> \<lparr>Length = 0, MaxLength = 0, Buffer = 0\<rparr>))\<rparr>\<rparr>"

text \<open>The tag is 'OBJ '. The test of RootHeader guards the test of the status: an object without a
  root is returned whatever its OnCreate said.\<close>

definition ObCreateObject ::
  "'w methods \<Rightarrow> u32 \<Rightarrow> u8 \<Rightarrow> OBJECT_ATTRIBUTES \<Rightarrow> ptr \<Rightarrow> ptr \<Rightarrow> 'w ob_scheme \<Rightarrow> ((NTSTATUS \<times> ptr option) \<times> 'w ob_scheme) outcome" where
  "ObCreateObject M DesiredAccess AccessMode A pObjectType OptionalData s =
     obind (find_root M DesiredAccess AccessMode A OptionalData s) (\<lambda>(r, s).
       case r of
         Inl result \<Rightarrow> Done (result, s)
       | Inr (Root, RootObject, status) \<Rightarrow>
           obind (ExAllocatePoolWithTag NonPagedPool (88 + TInstanceSize s pObjectType) 0x4F424A20
                    ((opool s)\<lparr>cpool := ocpu s\<rparr>)) (\<lambda>(h, p).
           let s = s\<lparr>opool := p, ocpu := cpool p\<rparr> in
           if h = NULL then Done ((STATUS_NO_MEMORY, None), s)
           else
             let s = init_header h DesiredAccess A Root pObjectType s; obj = ObGetObjectFromHeader h in
             obind (if Root = NULL then Done (status, s)
                    else let add = TAddChildObject s (HType s (ObGetHeaderFromObject RootObject)) in
                      if add = NULL then Done (STATUS_INVALID_HANDLE, s)
                      else call_AddChildObject M add RootObject obj s) (\<lambda>(status, s).
             obind (if status = STATUS_SUCCESS \<and> TOnCreate s (HType s h) \<noteq> NULL
                    then call_method M (TOnCreate s (HType s h)) obj OptionalData s
                    else Done (status, s)) (\<lambda>(status, s).
             if Root \<noteq> NULL \<and> status \<noteq> STATUS_SUCCESS
             then obind (ObDereferenceObject M obj s) (\<lambda>(_, s). Done ((status, None), s))
             else Done ((STATUS_SUCCESS, Some obj), s)))))"

text \<open>The new type starts with null pointers.\<close>

definition ObCreateType :: "'w methods \<Rightarrow> UNICODE_STRING \<Rightarrow> u64 \<Rightarrow> ptr \<Rightarrow> 'w ob_scheme \<Rightarrow> ((NTSTATUS \<times> ptr option) \<times> 'w ob_scheme) outcome" where
  "ObCreateType M TypeName InstanceSize ObTypeObjectType s =
     obind (ObCreateObject M 0 KernelMode
              (InitializeObjectAttributes (Some TypeName) OBJ_KERNEL_HANDLE (ObpTypeDirHandle s))
              ObTypeObjectType NULL s) (\<lambda>((status, r), s).
       if \<not> NT_SUCCESS status then Done ((status, None), s)
       else
         let t = the r in
         Done ((STATUS_SUCCESS, Some t),
           s\<lparr>TObjectOpen := (TObjectOpen s)(t := 0), TAddChildObject := (TAddChildObject s)(t := 0),
             TOnOpen := (TOnOpen s)(t := 0), TOnCreate := (TOnCreate s)(t := 0), TOnDelete := (TOnDelete s)(t := 0),
             TInstanceSize := (TInstanceSize s)(t := InstanceSize)\<rparr>))"

section \<open>Initialising the namespace\<close>

definition create_directory ::
  "'w methods \<Rightarrow> UNICODE_STRING \<Rightarrow> handle \<Rightarrow> ptr \<Rightarrow> 'w ob_scheme \<Rightarrow> ((NTSTATUS \<times> handle option) \<times> 'w ob_scheme) outcome" where
  "create_directory M name root ObDirectoryObjectType s =
     obind (ObCreateObject M 0 KernelMode
              (InitializeObjectAttributes (Some name) (or OBJ_PERMANENT OBJ_KERNEL_HANDLE) root)
              ObDirectoryObjectType NULL s) (\<lambda>((status, r), s).
       if status \<noteq> STATUS_SUCCESS then Done ((status, None), s)
       else
         let dir = the r in
         ObCreateHandle KernelMode True dir (s\<lparr>oheap := InitializeListHead dir (oheap s)\<rparr>))"

definition ObpInitNamespace ::
  "'w methods \<Rightarrow> UNICODE_STRING \<Rightarrow> UNICODE_STRING \<Rightarrow> ptr \<Rightarrow> ptr \<Rightarrow> 'w ob_scheme \<Rightarrow> (NTSTATUS \<times> 'w ob_scheme) outcome" where
  "ObpInitNamespace M EmptyName TypesDirName ObDirectoryObjectType ObTypeObjectType s =
     obind (create_directory M EmptyName NULL ObDirectoryObjectType s) (\<lambda>((status, r), s).
       if status \<noteq> STATUS_SUCCESS then Done (status, s)
       else
         let s = s\<lparr>GlobalNamespace := the r\<rparr> in
         obind (create_directory M TypesDirName (GlobalNamespace s) ObDirectoryObjectType s) (\<lambda>((status, r), s).
           if status \<noteq> STATUS_SUCCESS then Done (status, s)
           else
             let s = s\<lparr>ObpTypeDirHandle := the r\<rparr> in
             obind (ObChangeRoot M ObDirectoryObjectType (the r) KernelMode s) (\<lambda>(status, s).
               if status \<noteq> STATUS_SUCCESS then Done (status, s)
               else ObChangeRoot M ObTypeObjectType (the r) KernelMode s)))"

end
