(* ===== verification/Handles.thy ===== *)
theory Handles
  imports Objects
begin

text \<open>
  The laws of object references and handles: what taking a reference does on every path, which
  entry a handle names, that a handle that was created leads back to its object, and what closing
  the last handle of a named object does to the handle manager lock.
\<close>

section \<open>References\<close>

definition calm :: "'w ob_scheme \<Rightarrow> bool" where
  "calm s = (cpu_ok (ocpu s) \<and> irql (ocpu s) \<le> DISPATCH_LEVEL)"

definition raised :: "cpu \<Rightarrow> cpu" where "raised c = KiApplyIrql (irql c) DISPATCH_LEVEL c"

lemma raised_ok: "cpu_ok c \<Longrightarrow> cpu_ok (raised c) \<and> irql (raised c) = DISPATCH_LEVEL"
  by (simp add: raised_def cpu_ok_apply)

lemma lock_free:
  "cpu_ok c \<Longrightarrow> irql c \<le> DISPATCH_LEVEL \<Longrightarrow> KeAcquireSpinLock 0 c = Done (irql c, 1, raised c)"
  by (simp add: KeAcquireSpinLock_def KfAcquire_free raised_def)

lemma lock_taken: "cpu_ok c \<Longrightarrow> irql c \<le> DISPATCH_LEVEL \<Longrightarrow> KeAcquireSpinLock 1 c = Hang"
  by (simp add: KeAcquireSpinLock_def KfAcquireSpinLock_def irql_defs KiAcquireSpinLock_def)

lemma unlock_taken:
  "cpu_ok c \<Longrightarrow> irql c \<le> DISPATCH_LEVEL \<Longrightarrow> KeReleaseSpinLock 1 (irql c) (raised c) = Done (0, c)"
  by (simp add: KeReleaseSpinLock_def KfRelease_taken raised_def)

lemma lock_header_free:
  "calm s \<Longrightarrow> HLock s h = 0 \<Longrightarrow>
   lock_header h s = Done (irql (ocpu s), s\<lparr>HLock := (HLock s)(h := 1), ocpu := raised (ocpu s)\<rparr>)"
  by (simp add: lock_header_def calm_def lock_free)

lemma unlock_header_taken:
  "cpu_ok c \<Longrightarrow> irql c \<le> DISPATCH_LEVEL \<Longrightarrow> HLock s h = 1 \<Longrightarrow> ocpu s = raised c \<Longrightarrow>
   unlock_header h (irql c) s = Done (s\<lparr>HLock := (HLock s)(h := 0), ocpu := c\<rparr>)"
  by (simp add: unlock_header_def unlock_taken)

text \<open>s with one more reference to the object with header h.\<close>

definition referenced :: "ptr \<Rightarrow> 'w ob_scheme \<Rightarrow> 'w ob_scheme" where
  "referenced h s = s\<lparr>ReferenceCount := (ReferenceCount s)(h := ReferenceCount s h + 1)\<rparr>"

lemma under_header_lock:
  assumes "calm s" "HLock s h = 0"
  shows "unlock_header h (irql (ocpu s)) (s\<lparr>HLock := (HLock s)(h := 1), ocpu := raised (ocpu s)\<rparr>) = Done s"
    and "unlock_header h (irql (ocpu s)) (s\<lparr>HLock := (HLock s)(h := 1), ocpu := raised (ocpu s), ReferenceCount := rc\<rparr>) =
      Done (s\<lparr>ReferenceCount := rc\<rparr>)"
    and "unlock_header h (irql (ocpu s)) (s\<lparr>HLock := (HLock s)(h := 1), ocpu := raised (ocpu s), HandleCount := rc\<rparr>) =
      Done (s\<lparr>HandleCount := rc\<rparr>)"
  using assms by (simp_all add: unlock_header_taken calm_def fun_upd_idem)

lemma ObReferenceObject_eq:
  "calm s \<Longrightarrow> HLock s (ObGetHeaderFromObject obj) = 0 \<Longrightarrow>
   ObReferenceObject obj s = Done (STATUS_SUCCESS, referenced (ObGetHeaderFromObject obj) s)"
  by (simp add: ObReferenceObject_def Let_def lock_header_free ObReferenceObjectUnsafe_def
      under_header_lock referenced_def)

section \<open>Which entry a handle names\<close>

lemma links_nth: "links h a xs b \<Longrightarrow> j < length xs \<Longrightarrow> flink h (xs ! j) = (xs @ [b]) ! Suc j"
proof (induction xs arbitrary: a j)
  case (Cons x xs)
  then show ?case by (cases j; cases xs) auto
qed simp

text \<open>The list of parts is circular: its head follows the last part.\<close>

lemma ring_next:
  assumes "is_list h q ds" "j \<le> length ds"
  shows "flink h ((ds @ [q]) ! j) = (ds @ [q]) ! (Suc j mod Suc (length ds))"
proof (cases "j = length ds")
  case True
  then show ?thesis using is_list_first [OF assms(1)] by (cases ds) (simp_all add: hd_conv_nth)
next
  case False
  then have j: "j < length ds" using assms(2) by simp
  then have "flink h (ds ! j) = (ds @ [q]) ! Suc j"
    using assms(1) links_nth [of h q ds q j] by (simp add: is_list_def)
  then show ?thesis using j by (simp add: nth_append)
qed

lemma entry_loop_ring:
  assumes l: "is_list h q ds" and n: "NULL \<notin> set (q # ds)" and i: "unat i < 2 ^ 63" and k: "255 * k \<le> unat i"
  shows "entry_loop h i ((ds @ [q]) ! (k mod Suc (length ds))) (word_of_nat (255 * k)) =
    Some (Some ((ds @ [q]) ! (unat i div 255 mod Suc (length ds)), unat i mod 255))"
  using k
proof (induction "unat i div 255 - k" arbitrary: k)
  case 0
  have kd: "k = unat i div 255" using 0 by (simp add: less_eq_div_iff_mult_less_eq)
  have u: "unat (word_of_nat (255 * k) :: u64) = 255 * k"
    by (rule unat_word_of_nat) (use 0(2) i in simp)
  have "unat i < 255 * k + 255" using kd by simp
  moreover have "unat (word_of_nat (255 * k) + 255 :: u64) = 255 * k + 255"
    using u 0(2) i by (subst unat_plus_if') (auto simp: u)
  moreover have "(ds @ [q]) ! (k mod Suc (length ds)) \<in> set (ds @ [q])" by (rule nth_mem) simp
  ultimately show ?case
    using n 0(2) u by (subst entry_loop.simps) (auto simp: word_le_nat_alt word_less_nat_alt unat_mod_distrib kd)
next
  case (Suc d)
  have kd: "Suc k \<le> unat i div 255" using Suc(2) by simp
  then have k2: "255 * Suc k \<le> unat i" by (simp add: less_eq_div_iff_mult_less_eq)
  have u: "unat (word_of_nat (255 * k) :: u64) = 255 * k"
    by (rule unat_word_of_nat) (use k2 i in simp)
  have w: "word_of_nat (255 * k) + 255 = (word_of_nat (255 * Suc k) :: u64)" by simp
  have u2: "unat (word_of_nat (255 * Suc k) :: u64) = 255 * Suc k"
    by (rule unat_word_of_nat) (use k2 i in simp)
  have ge: "\<not> word_of_nat (255 * k) + 255 > i" unfolding w using u2 k2 by (simp add: word_less_nat_alt)
  have m: "(ds @ [q]) ! (k mod Suc (length ds)) \<in> set (ds @ [q])" by (rule nth_mem) simp
  have nx: "flink h ((ds @ [q]) ! (k mod Suc (length ds))) = (ds @ [q]) ! (Suc k mod Suc (length ds))"
    using ring_next [OF l, of "k mod Suc (length ds)"] by (simp add: mod_Suc_eq less_Suc_eq_le [symmetric])
  have "entry_loop h i ((ds @ [q]) ! (k mod Suc (length ds))) (word_of_nat (255 * k)) =
    entry_loop h i ((ds @ [q]) ! (Suc k mod Suc (length ds))) (word_of_nat (255 * Suc k))"
    using n m ge by (subst entry_loop.simps) (auto simp: nx add.commute)
  then show ?case using Suc(1) [of "Suc k"] Suc(2) k2 by simp
qed

lemma lookup_entry:
  assumes "is_list (oheap s) q ds" "NULL \<notin> set (q # ds)" "h \<noteq> NULL"
  shows "ObGetHandleDatabaseEntryFromHandle h q s =
    Done (STATUS_SUCCESS, Some ((ds @ [q]) ! (unat h div 2 div 255 mod Suc (length ds)), unat h div 2 mod 255))"
proof -
  have u: "unat (h div 2) = unat h div 2" by (simp add: unat_div_distrib)
  have "unat h div 2 < 2 ^ 63" using unat_bound [of h] by simp
  moreover have "flink (oheap s) q = (ds @ [q]) ! 0"
    using is_list_first [OF assms(1)] by (cases ds) simp_all
  ultimately show ?thesis
    using entry_loop_ring [OF assms(1,2), of "h div 2" 0] assms(3) u
    by (simp add: ObGetHandleDatabaseEntryFromHandle_def)
qed

text \<open>The search for a free entry: the first one in the order of the list.\<close>

lemma first_free_entry:
  assumes "list_all (\<lambda>i. DbObject s d i \<noteq> NULL) [0..<e]" "e < 255" "DbObject s d e = NULL"
  shows "List.find (\<lambda>i. DbObject s d i = NULL) [0..<255] = Some e"
proof -
  have "[0..<255] = [0..<e] @ e # [Suc e..<255]"
    using assms(2) by (metis append.assoc append_Cons append_Nil less_imp_le_nat upt_add_eq_append upt_conv_Cons zero_le le_add_diff_inverse)
  moreover have "List.find (\<lambda>i. DbObject s d i = NULL) [0..<e] = None"
    using assms(1) by (simp add: find_None_iff list_all_iff)
  moreover have "List.find P (xs @ ys) = (case List.find P xs of None \<Rightarrow> List.find P ys | Some x \<Rightarrow> Some x)" for P xs and ys :: "nat list"
    by (induction xs) auto
  ultimately show ?thesis using assms(3) by simp
qed

lemma free_entry_spec:
  assumes "links (oheap s) a (xs @ d # ys) q" "q \<notin> set (xs @ [d])"
    and "\<forall>x\<in>set xs. \<forall>i<255. DbObject s x i \<noteq> NULL"
    and "\<forall>i<e. DbObject s d i \<noteq> NULL" "e < 255" "DbObject s d e = NULL"
  shows "free_entry_loop s q (flink (oheap s) a) c = Some (Some (c + word_of_nat (255 * length xs + e), (d, e)))"
  using assms(1-3)
proof (induction xs arbitrary: a c)
  case Nil
  have "List.find (\<lambda>i. DbObject s d i = NULL) [0..<255] = Some e"
    by (rule first_free_entry) (use assms(4-6) in \<open>auto simp: list_all_iff\<close>)
  then show ?case using Nil by (subst free_entry_loop.simps) simp
next
  case (Cons x xs)
  have "List.find (\<lambda>i. DbObject s x i = NULL) [0..<255] = None"
    using Cons.prems(3) by (simp add: find_None_iff)
  moreover have "x \<noteq> q" "flink (oheap s) a = x" using Cons.prems(1,2) by auto
  ultimately have "free_entry_loop s q (flink (oheap s) a) c = free_entry_loop s q (flink (oheap s) x) (c + 255)"
    by (subst free_entry_loop.simps) simp
  also have "\<dots> = Some (Some (c + 255 + word_of_nat (255 * length xs + e), (d, e)))"
    by (rule Cons.IH) (use Cons.prems in auto)
  finally show ?case by (simp add: algebra_simps)
qed

section \<open>Locks of the databases\<close>

lemma lock_database_free:
  assumes "calm s" "HandleManagerLock s = 0" "ProcessLock s = 0"
  shows "lock_database k s = Done (irql (ocpu s),
    (if k then s\<lparr>HandleManagerLock := 1, ocpu := raised (ocpu s)\<rparr> else s\<lparr>ProcessLock := 1, ocpu := raised (ocpu s)\<rparr>))"
  using assms by (simp add: lock_database_def calm_def lock_free)

definition database_held :: "bool \<Rightarrow> 'w ob_scheme \<Rightarrow> 'w ob_scheme" where
  "database_held k s = (if k then s\<lparr>HandleManagerLock := 1, ocpu := raised (ocpu s)\<rparr>
                        else s\<lparr>ProcessLock := 1, ocpu := raised (ocpu s)\<rparr>)"

lemma unlock_database_held:
  assumes "calm s" "HandleManagerLock s = 0" "ProcessLock s = 0"
    and "ocpu t = raised (ocpu s)" "if k then HandleManagerLock t = 1 else ProcessLock t = 1"
  shows "unlock_database k (irql (ocpu s)) t =
    Done (if k then t\<lparr>HandleManagerLock := 0, ocpu := ocpu s\<rparr> else t\<lparr>ProcessLock := 0, ocpu := ocpu s\<rparr>)"
  using assms by (auto simp: unlock_database_def calm_def unlock_taken)

definition handles_idle :: "'w ob_scheme \<Rightarrow> bool" where
  "handles_idle s = (calm s \<and> HandleManagerLock s = 0 \<and> ProcessLock s = 0)"

lemma database_held_calm: "calm s \<Longrightarrow> calm (database_held k s)"
  using raised_ok [of "ocpu s"] by (auto simp: calm_def database_held_def)

lemma database_held_simps [simp]:
  "oheap (database_held k s) = oheap s" "DbObject (database_held k s) = DbObject s"
  "HLock (database_held k s) = HLock s" "ReferenceCount (database_held k s) = ReferenceCount s"
  "HandleCount (database_held k s) = HandleCount s" "HRoot (database_held k s) = HRoot s"
  "HAttributes (database_held k s) = HAttributes s" "ostr (database_held k s) = ostr s"
  "ObpGetHandleDatabaseHead k' (database_held k s) = ObpGetHandleDatabaseHead k' s"
  "ocpu (database_held k s) = raised (ocpu s)"
  "SystemHandleDatabaseHead (database_held k s) = SystemHandleDatabaseHead s"
  "entry_object (database_held k s) e = entry_object s e"
  by (simp_all add: database_held_def ObpGetHandleDatabaseHead_def entry_object_def)

lemma lock_database_idle: "handles_idle s \<Longrightarrow> lock_database k s = Done (irql (ocpu s), database_held k s)"
  by (simp add: handles_idle_def lock_database_free database_held_def)

lemma unlock_database_referenced:
  assumes "handles_idle s"
  shows "unlock_database k (irql (ocpu s)) (database_held k s) = Done s"
    and "unlock_database k (irql (ocpu s)) (referenced h (database_held k s)) = Done (referenced h s)"
  using assms unlock_database_held [of s "database_held k s" k] unlock_database_held [of s "referenced h (database_held k s)" k]
  by (auto simp: handles_idle_def database_held_def referenced_def)

lemma lookup_held:
  "ObGetHandleDatabaseEntryFromHandle h q (database_held k s) = ObGetHandleDatabaseEntryFromHandle h q s"
  by (simp add: ObGetHandleDatabaseEntryFromHandle_def)

lemma Extract_eq:
  assumes "handles_idle s" "h \<noteq> NULL" "\<not> (ObpIsKernelHandle h \<and> mode = UserMode)"
    and "ObGetHandleDatabaseEntryFromHandle h (ObpGetHandleDatabaseHead (ObpIsKernelHandle h) s) s = Done (STATUS_SUCCESS, Some e)"
    and "HLock s (ObGetHeaderFromObject (entry_object s e)) = 0"
  shows "ObExtractAndReferenceObjectFromHandle h mode s =
    (if entry_object s e = NULL then Done ((STATUS_INVALID_HANDLE, None), s)
     else Done ((STATUS_SUCCESS, Some (entry_object s e)), referenced (ObGetHeaderFromObject (entry_object s e)) s))"
proof -
  let ?k = "ObpIsKernelHandle h"
  have c: "calm (database_held ?k s)" using assms(1) database_held_calm [of s] by (simp add: handles_idle_def)
  have eo: "entry_object (database_held ?k s) e = entry_object s e" by (simp add: entry_object_def)
  have r: "ObReferenceObject (entry_object s e) (database_held ?k s) =
    Done (STATUS_SUCCESS, referenced (ObGetHeaderFromObject (entry_object s e)) (database_held ?k s))"
    using ObReferenceObject_eq [OF c] assms(5) by simp
  show ?thesis
    using assms(2-4) lock_database_idle [OF assms(1), of ?k] unlock_database_referenced [OF assms(1), of ?k] r
    by (auto simp: ObExtractAndReferenceObjectFromHandle_def Let_def lookup_held eo)
qed

lemma even_handle: "even (h :: handle) = even (unat h)"
  by (simp only: even_iff_mod_2_eq_zero word_unat_eq_iff unat_mod_distrib) simp

section \<open>Deleting under the handle manager lock\<close>

text \<open>What deleting does with a kernel root while the handle manager lock is taken.\<close>

lemma lock_database_taken:
  "calm s \<Longrightarrow> HandleManagerLock s = 1 \<Longrightarrow> lock_database True s = Hang"
  by (simp add: lock_database_def calm_def lock_taken)

lemma delete_hangs:
  assumes "calm s" "HandleManagerLock s = 1" "HandleCount s (ObGetHeaderFromObject obj) = 0"
    and "odd (HRoot s (ObGetHeaderFromObject obj))"
  shows "ObpDeleteObject_with deref M obj s = Hang"
proof -
  have "HRoot s (ObGetHeaderFromObject obj) \<noteq> NULL" using assms(4) by auto
  then show ?thesis
    using assms lock_database_taken [OF assms(1,2)]
    by (simp add: ObpDeleteObject_with_def Let_def ObReferenceObjectByHandle_with_def
        ObExtractAndReferenceObjectFromHandle_def ObpIsKernelHandle_def)
qed

lemma last_dereference_hangs:
  assumes "calm s" "HandleManagerLock s = 1" "HLock s (ObGetHeaderFromObject obj) = 0"
    and "ReferenceCount s (ObGetHeaderFromObject obj) = 1" "HandleCount s (ObGetHeaderFromObject obj) = 0"
    and "odd (HRoot s (ObGetHeaderFromObject obj))"
  shows "ObDereferenceObject_at (Suc n) M obj s = Hang"
proof -
  let ?h = "ObGetHeaderFromObject obj"
  let ?t = "s\<lparr>HLock := (HLock s)(?h := 1), ocpu := raised (ocpu s), ReferenceCount := (ReferenceCount s)(?h := 0),
    ostr := (ostr s)\<lparr>str := (str (ostr s))(HName ?h := \<lparr>Length = 0, MaxLength = 0, Buffer = 0\<rparr>)\<rparr>\<rparr>"
  let ?v = "?t\<lparr>HLock := (HLock ?t)(?h := 0), ocpu := ocpu s\<rparr>"
  have "unlock_header ?h (irql (ocpu s)) ?t = Done ?v"
    using assms(1) by (intro unlock_header_taken) (auto simp: calm_def)
  moreover have "ObpDeleteObject_with (ObDereferenceObject_at n M) M obj ?v = Hang"
    by (rule delete_hangs) (use assms in \<open>simp_all add: calm_def\<close>)
  ultimately show ?thesis
    using assms(4) lock_header_free [OF assms(1,3)] by (simp add: Let_def)
qed

section \<open>Properties\<close>

text \<open>C13: taking a reference by pointer succeeds exactly when the attributes are valid, the mode may
  use the object, and, where access is checked, the type matches (or is not asked for) and no
  access is missing; only then the reference count grows, by one, and in every case the lock and
  the IRQL are as before.\<close>

theorem ObReferenceObjectByPointer_spec:
  assumes "calm s" "HLock s (ObGetHeaderFromObject obj) = 0" "obj \<noteq> NULL"
  defines "h \<equiv> ObGetHeaderFromObject obj"
  shows "\<exists>status. ObReferenceObjectByPointer obj access ty mode s =
      Done (status, if status = STATUS_SUCCESS then referenced h s else s) \<and>
    (status = STATUS_SUCCESS \<longleftrightarrow>
       and (HAttributes s h) (not OBJ_VALID_ATTRIBUTES) = 0 \<and>
       (mode = KernelMode \<or> and (HAttributes s h) OBJ_KERNEL_HANDLE = 0) \<and>
       (mode = KernelMode \<and> and (HAttributes s h) OBJ_FORCE_ACCESS_CHECK = 0 \<or>
        (ty = NULL \<or> HType s h = ty) \<and> and access (not (HAccess s h)) = 0))"
  using assms under_header_lock [OF assms(1,2)]
  by (auto simp: ObReferenceObjectByPointer_def Let_def lock_header_free referenced_def)

text \<open>A handle manager with one part, at 0x3000, whose entry 0 holds the object 0x5058.\<close>

definition one_handle :: ob where
  "one_handle = \<lparr>ocpu = \<lparr>irql = 0, tpr = 0\<rparr>,
     oheap = \<lparr>flink = (\<lambda>_. 0)(0x2000 := 0x3000, 0x3000 := 0x2000), blink = (\<lambda>_. 0)(0x2000 := 0x3000, 0x3000 := 0x2000)\<rparr>,
     opool = no_pools, ostr = \<lparr>str = (\<lambda>_. \<lparr>Length = 0, MaxLength = 0, Buffer = 0\<rparr>), chars = (\<lambda>_. 0)\<rparr>,
     HandleManagerLock = 0, ProcessLock = 0, SystemHandleDatabaseHead = 0x2000, ProcessHandleDatabaseHead = 0x2000,
     DbObject = (\<lambda>_ _. 0)(0x3000 := (\<lambda>_. 0)(0 := 0x5058)), HLock = (\<lambda>_. 0), HRoot = (\<lambda>_. 0)(0x5000 := 1),
     HAttributes = (\<lambda>_. OBJ_KERNEL_HANDLE), HAccess = (\<lambda>_. 1), ReferenceCount = (\<lambda>_. 1), HandleCount = (\<lambda>_. 1),
     HType = (\<lambda>_. 0x7000), TObjectOpen = (\<lambda>_. 0), TAddChildObject = (\<lambda>_. 0), TOnOpen = (\<lambda>_. 0),
     TOnCreate = (\<lambda>_. 0), TOnDelete = (\<lambda>_. 0), TInstanceSize = (\<lambda>_. 0), GlobalNamespace = 0, ObpTypeDirHandle = 0\<rparr>"

lemma one_handle_idle: "handles_idle one_handle"
  by (simp add: handles_idle_def calm_def one_handle_def cpu_ok_def)

lemma one_handle_list: "is_list (oheap one_handle) 0x2000 [0x3000]"
  by (simp add: is_list_def one_handle_def)

theorem ObReferenceObjectByPointer_spec_witness:
  "ObReferenceObjectByPointer 0x5058 3 0x7000 KernelMode one_handle = Done (STATUS_SUCCESS, referenced 0x5000 one_handle)"
proof -
  have "calm one_handle" "HLock one_handle (ObGetHeaderFromObject 0x5058) = 0" "ObGetHeaderFromObject 0x5058 = 0x5000"
    by (simp_all add: one_handle_def calm_def cpu_ok_def ObGetHeaderFromObject_def)
  then show ?thesis
    using ObReferenceObjectByPointer_spec [of one_handle "0x5058" 3 "0x7000" KernelMode]
    by (auto simp: one_handle_def)
qed

text \<open>Every handle but NULL names an entry. The list of database parts is circular and the loop
  that follows it only ends at NULL, so a number past the last part goes on through the list head,
  read as if it were a part, and around again: no handle is ever rejected as out of range, and
  with k parts the handles n and n + 2 * 255 * (k + 1) name the same entry.\<close>

lemma handle_lookup_wraps:
  assumes "is_list (oheap s) q ds" "NULL \<notin> set (q # ds)" "h \<noteq> NULL"
  shows "ObGetHandleDatabaseEntryFromHandle h q s =
      Done (STATUS_SUCCESS, Some ((ds @ [q]) ! (unat h div 2 div 255 mod Suc (length ds)), unat h div 2 mod 255)) \<and>
    (\<forall>h' :: u64. unat h' = unat h + 2 * 255 * Suc (length ds) \<longrightarrow>
       ObGetHandleDatabaseEntryFromHandle h' q s = ObGetHandleDatabaseEntryFromHandle h q s)"
proof (intro conjI allI impI)
  show "ObGetHandleDatabaseEntryFromHandle h q s =
      Done (STATUS_SUCCESS, Some ((ds @ [q]) ! (unat h div 2 div 255 mod Suc (length ds)), unat h div 2 mod 255))"
    by (rule lookup_entry [OF assms])
  fix h' :: u64 assume h': "unat h' = unat h + 2 * 255 * Suc (length ds)"
  have "h' \<noteq> NULL" using h' by auto
  from lookup_entry [OF assms(1,2) this]
  have l: "ObGetHandleDatabaseEntryFromHandle h' q s =
      Done (STATUS_SUCCESS, Some ((ds @ [q]) ! (unat h' div 2 div 255 mod Suc (length ds)), unat h' div 2 mod 255))" .
  have "unat h' div 2 = unat h div 2 + 255 * Suc (length ds)" unfolding h' by simp
  then have "unat h' div 2 div 255 = unat h div 2 div 255 + Suc (length ds)" "unat h' div 2 mod 255 = unat h div 2 mod 255"
    by (simp_all only: mod_mult_self2 div_mult_self2 add.commute simp_thms not_False_eq_True zero_neq_numeral)
  then show "ObGetHandleDatabaseEntryFromHandle h' q s = ObGetHandleDatabaseEntryFromHandle h q s"
    unfolding l lookup_entry [OF assms] by (metis mod_add_self2)
qed

lemma handle_lookup_wraps_example:
  "ObGetHandleDatabaseEntryFromHandle 1 0x2000 one_handle = Done (STATUS_SUCCESS, Some (0x3000, 0)) \<and>
   ObGetHandleDatabaseEntryFromHandle 1021 0x2000 one_handle = Done (STATUS_SUCCESS, Some (0x3000, 0))"
  using handle_lookup_wraps [OF one_handle_list, of 1] by simp

text \<open>C14: creating a handle takes the first free entry, entry e of part p, and counts the handle and a
  reference; the handle leads back to the object. Its value is twice the number of the entry, plus
  one in the system database: the first handle of a process is NULL and leads nowhere.\<close>

theorem ObCreateHandle_roundtrip:
  fixes obj :: ptr and k :: bool and s :: "'w ob_scheme"
  defines "q \<equiv> ObpGetHandleDatabaseHead k s" and "h \<equiv> ObGetHeaderFromObject obj"
  assumes idle: "handles_idle s" and l: "is_list (oheap s) q (xs @ d # ys)" and nn: "NULL \<notin> set (q # xs @ d # ys)"
    and full: "\<forall>x\<in>set xs. \<forall>i<255. DbObject s x i \<noteq> NULL" "\<forall>i<e. DbObject s d i \<noteq> NULL"
    and free: "e < 255" "DbObject s d e = NULL" and o: "obj \<noteq> NULL" "HLock s h = 0"
    and k: "and (HAttributes s h) OBJ_KERNEL_HANDLE \<noteq> 0 \<longrightarrow> k" and len: "length xs < 2 ^ 50"
  defines "v \<equiv> 2 * (255 * length xs + e) + of_bool k"
  shows "\<exists>s'. ObCreateHandle KernelMode k obj s = Done ((STATUS_SUCCESS, Some (word_of_nat v)), s') \<and>
    ReferenceCount s' h = ReferenceCount s h + 1 \<and> HandleCount s' h = HandleCount s h + 1 \<and>
    ObExtractAndReferenceObjectFromHandle (word_of_nat v) KernelMode s' =
      (if v = 0 then Done ((STATUS_INVALID_HANDLE, None), s') else Done ((STATUS_SUCCESS, Some obj), referenced h s'))"
proof -
  let ?D = "(DbObject s)(d := (DbObject s d)(e := obj))"
  let ?H = "(HandleCount s)(h := HandleCount s h + 1)"
  let ?t = "s\<lparr>DbObject := ?D, HandleCount := ?H\<rparr>"
  let ?u = "(database_held True s)\<lparr>DbObject := ?D, HandleCount := ?H\<rparr>"
  have kk: "(k \<or> and (HAttributes s h) OBJ_KERNEL_HANDLE \<noteq> 0) = k" using k by auto
  have f: "free_entry_loop (database_held True s) q (flink (oheap s) q) 0 = Some (Some (word_of_nat (255 * length xs + e), (d, e)))"
    using free_entry_spec [of "database_held True s" q xs d ys q e 0] l full free by (simp add: is_list_def)
  have vb: "v < 2 ^ 64" using len free(1) by (auto simp: v_def)
  have v: "or (word_of_nat (255 * length xs + e) * 2) (if k then 1 else 0) = (word_of_nat v :: u64)"
  proof -
    have "or (x * 2) 1 = x * 2 + (1 :: u64)" for x by (simp add: or_one_eq)
    moreover have "word_of_nat v = word_of_nat (255 * length xs + e) * 2 + (of_bool k :: u64)"
      by (cases k) (simp_all add: v_def)
    ultimately show ?thesis by (cases k) (simp_all only: if_True if_False of_bool_eq or.right_neutral add_0_right)
  qed
  have ul: "unlock_database True (irql (ocpu s)) ?u = Done ?t"
    using idle unlock_database_held [of s ?u True] by (simp add: handles_idle_def database_held_def)
  have ct: "calm ?t" "HLock ?t h = 0" using idle o(2) by (simp_all add: handles_idle_def calm_def)
  have c: "ObCreateHandle KernelMode k obj s = Done ((STATUS_SUCCESS, Some (word_of_nat v)), referenced h ?t)"
    using o(1) f ul lock_database_idle [OF idle, of True] ObReferenceObject_eq [OF ct(1), of obj] ct(2)
    by (simp add: ObCreateHandle_def Let_def h_def [symmetric] kk q_def [symmetric] v set_entry_def del: of_nat_add of_nat_mult)
  let ?s' = "referenced h ?t"
  have idle': "handles_idle ?s'" using idle by (simp add: handles_idle_def calm_def referenced_def)
  have uv: "unat (word_of_nat v :: u64) = v" using vb by (simp add: unat_word_of_nat)
  have "ObExtractAndReferenceObjectFromHandle (word_of_nat v) KernelMode ?s' = Done ((STATUS_SUCCESS, Some obj), referenced h ?s')"
    if v0: "v \<noteq> 0"
  proof -
    have nz: "(word_of_nat v :: u64) \<noteq> NULL" using v0 uv by auto
    have od: "ObpIsKernelHandle (word_of_nat v) = k"
      unfolding ObpIsKernelHandle_def even_handle uv by (simp add: v_def)
    have hd: "v div 2 = 255 * length xs + e" by (cases k) (simp_all add: v_def)
    have le: "is_list (oheap ?s') q (xs @ d # ys)" using l by (simp add: referenced_def)
    have "((xs @ d # ys) @ [q]) ! (v div 2 div 255 mod Suc (length (xs @ d # ys))) = d" "v div 2 mod 255 = e"
      using free(1) unfolding hd by (simp_all add: nth_append)
    then have lk: "ObGetHandleDatabaseEntryFromHandle (word_of_nat v) q ?s' = Done (STATUS_SUCCESS, Some (d, e))"
      using lookup_entry [OF le nn nz] uv by simp
    have q': "ObpGetHandleDatabaseHead k ?s' = q" by (simp add: q_def ObpGetHandleDatabaseHead_def referenced_def)
    have eo: "entry_object ?s' (d, e) = obj" by (simp add: entry_object_def referenced_def)
    have hl: "HLock ?s' (ObGetHeaderFromObject (entry_object ?s' (d, e))) = 0"
      unfolding eo using o(2) by (simp add: h_def referenced_def)
    have m: "\<not> (ObpIsKernelHandle (word_of_nat v) \<and> KernelMode = UserMode)" by simp
    show ?thesis
      using Extract_eq [OF idle' nz m _ hl] lk o(1) unfolding od q' eo by (simp only: h_def if_False)
  qed
  moreover have "ObExtractAndReferenceObjectFromHandle 0 KernelMode ?s' = Done ((STATUS_INVALID_HANDLE, None), ?s')"
    by (simp add: ObExtractAndReferenceObjectFromHandle_def)
  ultimately show ?thesis
    using c by (intro exI [of _ ?s']) (auto simp: referenced_def)
qed

theorem ObCreateHandle_roundtrip_witness:
  "\<exists>s'. ObCreateHandle KernelMode True 0x6058 one_handle = Done ((STATUS_SUCCESS, Some 3), s') \<and>
    HandleCount s' 0x6000 = 2 \<and>
    ObExtractAndReferenceObjectFromHandle 3 KernelMode s' = Done ((STATUS_SUCCESS, Some 0x6058), referenced 0x6000 s')"
proof -
  have h: "ObGetHeaderFromObject 0x6058 = 0x6000" by (simp add: ObGetHeaderFromObject_def)
  have q: "ObpGetHandleDatabaseHead True one_handle = 0x2000" by (simp add: ObpGetHandleDatabaseHead_def one_handle_def)
  have l: "is_list (oheap one_handle) (ObpGetHandleDatabaseHead True one_handle) ([] @ 0x3000 # [])"
    using one_handle_list q by simp
  have "DbObject one_handle 0x3000 0 \<noteq> NULL" "DbObject one_handle 0x3000 1 = NULL"
    "HLock one_handle (ObGetHeaderFromObject 0x6058) = 0" "HandleCount one_handle 0x6000 = 1"
    by (simp_all add: one_handle_def)
  then show ?thesis
    using ObCreateHandle_roundtrip [OF one_handle_idle l, of 1 "0x6058"] h q by auto
qed

text \<open>C15: closing the last handle of an object that has no other reference and lies in a directory
  named by a kernel handle never returns: ObCloseHandle holds the handle manager lock while
  ObpDeleteObject looks the root handle up, which takes the same lock.\<close>

theorem ObCloseHandle_deadlock:
  fixes obj :: ptr and s :: "'w ob_scheme" and v :: handle
  defines "h \<equiv> ObGetHeaderFromObject obj"
  assumes idle: "handles_idle s" and v: "odd v"
    and e: "ObGetHandleDatabaseEntryFromHandle v (SystemHandleDatabaseHead s) s = Done (STATUS_SUCCESS, Some e)"
    and o: "entry_object s e = obj" "obj \<noteq> NULL"
    and l: "HLock s h = 0" "HandleCount s h = 1" "ReferenceCount s h = 1" "odd (HRoot s h)"
  shows "ObCloseHandle M v KernelMode s = Hang"
proof -
  let ?d = "database_held True s"
  let ?c = "?d\<lparr>HandleCount := (HandleCount s)(h := 0)\<rparr>"
  have cd: "calm ?d" using idle database_held_calm [of s] by (simp add: handles_idle_def)
  have "entry_object ?d e = obj" using o(1) by (simp add: entry_object_def)
  moreover have "lock_header h ?d = Done (irql (ocpu ?d), ?d\<lparr>HLock := (HLock ?d)(h := 1), ocpu := raised (ocpu ?d)\<rparr>)"
    by (rule lock_header_free) (use cd l in simp_all)
  moreover have "unlock_header h (irql (ocpu ?d)) (?d\<lparr>HLock := (HLock ?d)(h := 1), ocpu := raised (ocpu ?d),
      HandleCount := (HandleCount s)(h := 0)\<rparr>) = Done ?c"
    using under_header_lock(3) [OF cd, of h] l(1) by simp
  moreover have "ObDereferenceObject M obj ?c = Hang"
  proof -
    have "deref_depth = Suc 63" by (simp add: deref_depth_def)
    moreover have "ObDereferenceObject_at (Suc 63) M obj ?c = Hang"
      by (rule last_dereference_hangs) (use cd l in \<open>simp_all add: calm_def h_def [symmetric] database_held_def\<close>)
    ultimately show ?thesis by (simp only: ObDereferenceObject_def)
  qed
  ultimately have "ObCloseHandleByEntry M e ?d = Hang"
    using l(2) by (simp add: ObCloseHandleByEntry_def Let_def h_def [symmetric])
  then show ?thesis
    using lock_database_idle [OF idle, of True] e o v
    by (simp add: ObCloseHandle_def Let_def ObpIsKernelHandle_def lookup_held ObpGetHandleDatabaseHead_def)
qed

theorem ObCloseHandle_deadlock_witness: "\<forall>M. ObCloseHandle M 1 KernelMode one_handle = Hang"
proof
  fix M :: "unit methods"
  have "ObGetHandleDatabaseEntryFromHandle 1 0x2000 one_handle = Done (STATUS_SUCCESS, Some (0x3000, 0))"
    using lookup_entry [OF one_handle_list, of 1] by simp
  moreover have "SystemHandleDatabaseHead one_handle = 0x2000" by (simp add: one_handle_def)
  moreover have "entry_object one_handle (0x3000, 0) = 0x5058" "ObGetHeaderFromObject 0x5058 = 0x5000"
    by (simp_all add: entry_object_def one_handle_def ObGetHeaderFromObject_def)
  moreover have "HLock one_handle 0x5000 = 0" "HandleCount one_handle 0x5000 = 1" "ReferenceCount one_handle 0x5000 = 1"
    "odd (HRoot one_handle 0x5000)"
    by (simp_all add: one_handle_def)
  ultimately show "ObCloseHandle M 1 KernelMode one_handle = Hang"
    using ObCloseHandle_deadlock [OF one_handle_idle, of 1 "(0x3000, 0)" "0x5058" M] by simp
qed

end
