(* ===== verification/Paths.thy ===== *)
theory Paths
  imports Namespace Handles
begin

text \<open>
  What opening an object by its path promises: the path is split at the backslashes and the parts
  are looked up one after the other, each among the children of the directory before it; only the
  object at the end of the path keeps a reference.
\<close>

section \<open>The specification\<close>

text \<open>The parts of a path, as descriptors into its buffer.\<close>

function path_parts :: "'w ob_scheme \<Rightarrow> UNICODE_STRING \<Rightarrow> UNICODE_STRING list" where
  "path_parts s Name =
     (let i = first_slash s Name in
      if i = unat (Length Name) div 2 then [Name] else path_head Name i # path_parts s (path_tail Name i))"
  by pat_completeness auto

termination path_parts
  by (relation "measure (\<lambda>(s, Name). unat (Length Name))") (simp_all add: path_tail_shorter)

declare path_parts.simps [simp del] DirObjTypeOpenObject.simps [simp del]

text \<open>The walk: an empty part or a part below an object that is no directory makes the path invalid.\<close>

primrec walk :: "'w ob_scheme \<Rightarrow> (ptr \<Rightarrow> ptr list) \<Rightarrow> bool \<Rightarrow> ptr \<Rightarrow> UNICODE_STRING list \<Rightarrow> NTSTATUS + ptr" where
  "walk s kids ci dir [] = Inl STATUS_OBJECT_PATH_INVALID"
| "walk s kids ci dir (n # ns) =
     (if Length n = 0 then Inl STATUS_OBJECT_PATH_INVALID
      else case List.find (\<lambda>h. names_equal s h n ci) (kids dir) of
             None \<Rightarrow> Inl STATUS_OBJECT_NAME_NOT_FOUND
           | Some h \<Rightarrow>
               if ns = [] then Inr (ObGetObjectFromHeader h)
               else if TObjectOpen s (HType s h) = NULL then Inl STATUS_OBJECT_PATH_INVALID
               else walk s kids ci (ObGetObjectFromHeader h) ns)"

definition walk_result :: "'w ob_scheme \<Rightarrow> NTSTATUS + ptr \<Rightarrow> (NTSTATUS \<times> ptr option) \<times> 'w ob_scheme" where
  "walk_result s r = (case r of Inl status \<Rightarrow> ((status, None), s)
     | Inr obj \<Rightarrow> ((STATUS_SUCCESS, Some obj), referenced (ObGetHeaderFromObject obj) s))"

text \<open>A quiet namespace: the children of every directory are the list kids names; every child is
  unlocked, has valid attributes without forced access checks, is referenced at least once and at
  most m times less than the counter holds, and is a directory or has no children.\<close>

definition openable :: "nat \<Rightarrow> 'w ob_scheme \<Rightarrow> ptr \<Rightarrow> bool" where
  "openable m s h = (HLock s h = 0 \<and> and (HAttributes s h) (not OBJ_VALID_ATTRIBUTES) = 0 \<and>
     and (HAttributes s h) OBJ_FORCE_ACCESS_CHECK = 0 \<and> ObGetObjectFromHeader h \<noteq> NULL \<and>
     0 < unat (ReferenceCount s h) \<and> unat (ReferenceCount s h) + m < 2 ^ 32 \<and> TOnOpen s (HType s h) = NULL \<and>
     TObjectOpen s (HType s h) \<in> {NULL, pDirObjTypeOpenObject})"

definition directory :: "'w ob_scheme \<Rightarrow> ptr \<Rightarrow> bool" where
  "directory s d = (TObjectOpen s (HType s (ObGetHeaderFromObject d)) = pDirObjTypeOpenObject)"

definition namespace_ok :: "nat \<Rightarrow> (ptr \<Rightarrow> ptr list) \<Rightarrow> 'w ob_scheme \<Rightarrow> bool" where
  "namespace_ok m kids s = (calm s \<and> (\<forall>d. directory s d \<longrightarrow> is_list (oheap s) d (kids d) \<and>
     (\<forall>h\<in>set (kids d). openable m s h)))"

section \<open>One directory\<close>

lemma dereferenced:
  assumes "calm s" "HLock s (ObGetHeaderFromObject obj) = 0" "ReferenceCount s (ObGetHeaderFromObject obj) \<noteq> 0"
  shows "ObDereferenceObject M obj (referenced (ObGetHeaderFromObject obj) s) = Done (STATUS_SUCCESS, s)"
proof -
  let ?h = "ObGetHeaderFromObject obj"
  let ?r = "referenced ?h s"
  obtain n where d: "ObDereferenceObject M = ObDereferenceObject_at (Suc n) M"
    by (rule that [of 63]) (simp add: ObDereferenceObject_def deref_depth_def)
  have c: "calm ?r" "HLock ?r ?h = 0" using assms by (simp_all add: referenced_def calm_def)
  have "unlock_header ?h (irql (ocpu s)) (?r\<lparr>HLock := (HLock s)(?h := 1), ocpu := raised (ocpu s),
      ReferenceCount := ReferenceCount s\<rparr>) = Done s"
    using under_header_lock(2) [OF assms(1,2), of "ReferenceCount s"] by (simp add: referenced_def)
  then show ?thesis
    using assms(3) lock_header_free [OF c]
    by (simp add: d Let_def referenced_def)
qed

lemma dereferenced_below:
  assumes "calm s" "HLock s (ObGetHeaderFromObject obj) = 0" "ReferenceCount s (ObGetHeaderFromObject obj) \<noteq> 0"
    and "unat (ReferenceCount s (ObGetHeaderFromObject obj)) + 1 < 2 ^ 32"
  shows "ObDereferenceObject M obj (referenced h (referenced (ObGetHeaderFromObject obj) s)) = Done (STATUS_SUCCESS, referenced h s)"
proof -
  have "referenced h (referenced (ObGetHeaderFromObject obj) s) = referenced (ObGetHeaderFromObject obj) (referenced h s)"
    by (cases "h = ObGetHeaderFromObject obj") (simp_all add: referenced_def fun_upd_twist)
  moreover have "ReferenceCount s (ObGetHeaderFromObject obj) + 1 \<noteq> 0"
    using assms(4) unat_plus_if' [of "ReferenceCount s (ObGetHeaderFromObject obj)" 1] by auto
  ultimately show ?thesis
    using assms dereferenced [of "referenced h s" obj M] by (auto simp: referenced_def calm_def)
qed

lemma open_child_ok:
  assumes "calm s" "openable m s h"
  shows "open_child M h a KernelMode d s = Done ((STATUS_SUCCESS, Some (ObGetObjectFromHeader h)), referenced h s)"
  using assms under_header_lock(2) [of s h]
  by (simp add: open_child_def openable_def Let_def ObReferenceObjectByPointer_def lock_header_free referenced_def)

lemma child_loop_run:
  assumes "links (oheap s) p hs dir" "dir \<notin> set hs"
  shows "child_loop M dir (flink (oheap s) p) a m n ci d s = Some
    (case List.find (\<lambda>h. names_equal s h n ci) hs of
       None \<Rightarrow> Done ((STATUS_OBJECT_NAME_NOT_FOUND, None), s) | Some h \<Rightarrow> open_child M h a m d s)"
  using assms
proof (induction hs arbitrary: p)
  case Nil
  then show ?case by (subst child_loop.simps) simp
next
  case (Cons h hs)
  have "h \<noteq> dir" "flink (oheap s) p = h" using Cons.prems by auto
  then show ?case using Cons by (subst child_loop.simps) simp
qed

lemma list_head_outside: "is_list h q xs \<Longrightarrow> links h q xs q \<and> q \<notin> set xs"
  by (simp add: is_list_def)

lemma open_in_directory:
  assumes "namespace_ok m kids s" "directory s dir"
  shows "DirObjTypeOpenObjectWithNameDecoded M dir a KernelMode n ci d s = Done (walk_result s
    (case List.find (\<lambda>h. names_equal s h n ci) (kids dir) of
       None \<Rightarrow> Inl STATUS_OBJECT_NAME_NOT_FOUND | Some h \<Rightarrow> Inr (ObGetObjectFromHeader h)))"
proof -
  have l: "is_list (oheap s) dir (kids dir)" "\<forall>h\<in>set (kids dir). openable m s h" "calm s"
    using assms by (auto simp: namespace_ok_def)
  have "openable m s h" if "List.find (\<lambda>h. names_equal s h n ci) (kids dir) = Some h" for h
    using that l(2) by (auto simp: find_Some_iff)
  then show ?thesis
    using child_loop_run [of s dir "kids dir" dir M a KernelMode n ci d] list_head_outside [OF l(1)] open_child_ok [OF l(3)]
    by (auto simp: DirObjTypeOpenObjectWithNameDecoded_def run_loop_def walk_result_def split: option.splits)
qed

section \<open>The walk\<close>

lemma referenced_keeps [simp]:
  "names_equal (referenced h s) = names_equal s" "first_slash (referenced h s) = first_slash s"
  "HType (referenced h s) = HType s" "TObjectOpen (referenced h s) = TObjectOpen s"
  "directory (referenced h s) = directory s"
  by (simp_all add: referenced_def names_equal_def first_slash_def directory_def fun_eq_iff)

lemma path_parts_referenced [simp]: "path_parts (referenced h s) n = path_parts s n"
proof (induction "unat (Length n)" arbitrary: n rule: less_induct)
  case less
  then show ?case
    using path_tail_shorter by (subst (1 2) path_parts.simps) (auto simp: Let_def)
qed

lemma walk_referenced [simp]: "walk (referenced h s) kids ci dir ns = walk s kids ci dir ns"
  by (induction ns arbitrary: dir) (auto split: option.splits)

lemma openable_referenced:
  assumes "openable (Suc m) s g"
  shows "openable m (referenced h s) g"
proof -
  have "unat (ReferenceCount s g + 1) = unat (ReferenceCount s g) + 1"
    using assms by (subst unat_plus_if') (auto simp: openable_def)
  moreover have "unat (ReferenceCount s g) + m < 2 ^ 32" using assms unfolding openable_def by linarith
  ultimately show ?thesis using assms by (auto simp: openable_def referenced_def)
qed

lemma namespace_referenced:
  assumes "namespace_ok (Suc m) kids s"
  shows "namespace_ok m kids (referenced h s)"
proof -
  have "calm (referenced h s) = calm s" "oheap (referenced h s) = oheap s" by (simp_all add: referenced_def calm_def)
  then show ?thesis
    using assms unfolding namespace_ok_def by (auto intro: openable_referenced)
qed

lemma namespace_less: "namespace_ok m kids s \<Longrightarrow> m' \<le> m \<Longrightarrow> namespace_ok m' kids s"
proof -
  have "openable m s h \<Longrightarrow> m' \<le> m \<Longrightarrow> openable m' s h" for h
    unfolding openable_def by linarith
  then show "namespace_ok m kids s \<Longrightarrow> m' \<le> m \<Longrightarrow> namespace_ok m' kids s"
    unfolding namespace_ok_def by blast
qed

lemma find_child:
  assumes "namespace_ok m kids s" "directory s dir" "List.find P (kids dir) = Some h"
  shows "openable m s h"
  using assms by (auto simp: namespace_ok_def find_Some_iff)

lemma open_path:
  assumes "namespace_ok (unat (Length Name)) kids s" "directory s dir" "even (unat (Length Name))"
  shows "DirObjTypeOpenObject M dir a KernelMode Name ci d s = Done (walk_result s (walk s kids ci dir (path_parts s Name)))"
  using assms
proof (induction "unat (Length Name)" arbitrary: Name dir s rule: less_induct)
  case less
  let ?i = "first_slash s Name" and ?l = "unat (Length Name)"
  show ?case
  proof (cases "Length Name = 0 \<or> ?i = ?l div 2 \<or> ?i = 0")
    case True
    have "?i = 0" if "Length Name = 0" using first_slash_le [of s Name] that by simp
    moreover have "Length (path_head Name 0) = 0" by (simp add: path_head_def)
    ultimately show ?thesis
      using True open_in_directory [OF less(2,3)]
      by (subst DirObjTypeOpenObject.simps, subst path_parts.simps)
        (auto simp: Let_def walk_result_def split: option.splits)
  next
    case False
    let ?n = "path_head Name ?i" and ?t = "path_tail Name ?i"
    have lt: "?i < ?l div 2" using False first_slash_le [of s Name] by simp
    have "unat (Length ?n) = ?i * 2"
      unfolding path_head_def using lt unat_bound [of "Length Name"] by (simp only: UNICODE_STRING.simps, intro unat_word_of_nat) simp
    then have n0: "Length ?n \<noteq> 0" using False by auto
    have tl: "unat (Length ?t) = ?l - (?i + 1) * 2" by (rule path_tail_length [OF lt])
    have ts: "unat (Length ?t) < ?l" by (rule path_tail_shorter) (use False in simp)
    have te: "even (unat (Length ?t))" using less(4) unfolding tl by simp
    have pp: "path_parts s Name = ?n # path_parts s ?t" using False by (subst path_parts.simps) (simp add: Let_def)
    have pn: "path_parts s ?t \<noteq> []" by (subst path_parts.simps) (simp add: Let_def)
    note od = open_in_directory [OF less(2,3), of M a ?n ci d]
    show ?thesis
    proof (cases "List.find (\<lambda>h. names_equal s h ?n ci) (kids dir)")
      case None
      then show ?thesis
        using False od n0 by (subst DirObjTypeOpenObject.simps) (simp add: Let_def pp walk_result_def)
    next
      case (Some h)
      let ?p = "ObGetObjectFromHeader h"
      have op: "openable ?l s h" by (rule find_child [OF less(2,3) Some])
      have c: "calm s" using less(2) by (simp add: namespace_ok_def)
      have rc: "HLock s h = 0" "ReferenceCount s h \<noteq> 0" "unat (ReferenceCount s h) + 1 < 2 ^ 32"
        using op ts by (auto simp: openable_def)
      have op2: "TObjectOpen s (HType s h) = NULL \<or> TObjectOpen s (HType s h) = pDirObjTypeOpenObject"
        using op by (simp add: openable_def)
      have ns: "namespace_ok (unat (Length ?t)) kids (referenced h s)"
        using namespace_less [OF less(2), of "Suc (unat (Length ?t))"] ts by (simp add: namespace_referenced)
      have rec: "DirObjTypeOpenObject M ?p a KernelMode ?t ci d (referenced h s) =
          Done (walk_result (referenced h s) (walk s kids ci ?p (path_parts s ?t)))"
        if "TObjectOpen s (HType s h) = pDirObjTypeOpenObject"
        using less(1) [OF ts ns, of ?p] te that by (simp add: directory_def)
      have dr: "ObDereferenceObject M ?p (referenced h s) = Done (STATUS_SUCCESS, s)"
        using dereferenced [OF c, of ?p M] rc by simp
      have drb: "ObDereferenceObject M ?p (referenced g (referenced h s)) = Done (STATUS_SUCCESS, referenced g s)" for g
        using dereferenced_below [OF c, of ?p M g] rc by simp
      show ?thesis
        using False od n0 Some op2 dr drb rec pn
        by (subst DirObjTypeOpenObject.simps)
          (auto simp: Let_def pp walk_result_def split: sum.splits)
    qed
  qed
qed

section \<open>The property\<close>

text \<open>C16: opening an object by a path from a directory is the walk of its parts through the
  directories, and on every outcome the only change of the state is one reference more to the
  object found: all locks are free again and every directory on the way has its old count.\<close>

theorem DirObjTypeOpenObject_walks:
  assumes "namespace_ok (unat (Length Name)) kids s" "directory s dir" "even (unat (Length Name))"
  shows "DirObjTypeOpenObject M dir a KernelMode Name ci d s =
    Done (case walk s kids ci dir (path_parts s Name) of
            Inl status \<Rightarrow> ((status, None), s)
          | Inr obj \<Rightarrow> ((STATUS_SUCCESS, Some obj), referenced (ObGetHeaderFromObject obj) s))"
  using open_path [OF assms] by (simp add: walk_result_def)

text \<open>The directory at 0x1000 holds the directory "d", which holds the object "f"; the path "d\f" is at
  0x9000, where the two names are read, too.\<close>

definition d_name :: UNICODE_STRING where "d_name = \<lparr>Length = 2, MaxLength = 2, Buffer = 0x9000\<rparr>"

definition f_name :: UNICODE_STRING where "f_name = \<lparr>Length = 2, MaxLength = 2, Buffer = 0x9004\<rparr>"

definition df_path :: UNICODE_STRING where "df_path = \<lparr>Length = 6, MaxLength = 6, Buffer = 0x9000\<rparr>"

definition two_levels :: ob where
  "two_levels = one_handle\<lparr>
     oheap := \<lparr>flink = (\<lambda>x. x)(0x1000 := 0x2000, 0x2000 := 0x1000, 0x2058 := 0x3000, 0x3000 := 0x2058),
              blink = (\<lambda>x. x)(0x1000 := 0x2000, 0x2000 := 0x1000, 0x2058 := 0x3000, 0x3000 := 0x2058)\<rparr>,
     ostr := \<lparr>str = (\<lambda>_. d_name)(0x3010 := f_name), chars = (\<lambda>_. 0)(0x9000 := 0x64, 0x9002 := 0x5C, 0x9004 := 0x66)\<rparr>,
     HType := (\<lambda>_. 0x7100)(0xFA8 := 0x7000, 0x2000 := 0x7000),
     TObjectOpen := (\<lambda>_. 0)(0x7000 := pDirObjTypeOpenObject)\<rparr>"

definition two_kids :: "ptr \<Rightarrow> ptr list" where "two_kids = (\<lambda>_. [])(0x1000 := [0x2000], 0x2058 := [0x3000])"

lemma two_levels_dirs: "directory two_levels d \<longleftrightarrow> d = 0x1000 \<or> d = 0x2058"
proof -
  have "(d - 88 = 0xFA8) = (d = 0x1000)" "(d - 88 = 0x2000) = (d = 0x2058)" by (auto simp: diff_eq_eq)
  then show ?thesis by (auto simp: directory_def two_levels_def ObGetHeaderFromObject_def)
qed

lemma two_levels_ok: "namespace_ok 6 two_kids two_levels"
proof -
  have "calm two_levels" using one_handle_idle by (simp add: handles_idle_def calm_def two_levels_def)
  then show ?thesis
    unfolding namespace_ok_def two_levels_dirs
    by (auto simp: two_kids_def is_list_def two_levels_def one_handle_def openable_def ObGetObjectFromHeader_def)
qed

theorem DirObjTypeOpenObject_walks_witness:
  "\<forall>M. DirObjTypeOpenObject M 0x1000 1 KernelMode df_path False NULL two_levels =
    Done ((STATUS_SUCCESS, Some 0x3058), referenced 0x3000 two_levels)"
proof
  fix M :: "unit methods"
  have f1: "first_slash two_levels df_path = 1"
    by (simp add: first_slash_def df_path_def two_levels_def wchar_at_def upt_rec)
  have t: "path_tail df_path 1 = f_name" by (simp add: path_tail_def df_path_def f_name_def)
  have h: "path_head df_path 1 = d_name" by (simp add: path_head_def df_path_def d_name_def)
  have f2: "first_slash two_levels f_name = 1"
    by (simp add: first_slash_def f_name_def two_levels_def wchar_at_def upt_rec)
  have p2: "path_parts two_levels f_name = [f_name]"
    using f2 by (subst path_parts.simps) (simp add: f_name_def)
  have p: "path_parts two_levels df_path = [d_name, f_name]"
    using f1 t h p2 by (subst path_parts.simps) (simp add: df_path_def)
  have n: "names_equal two_levels 0x2000 d_name False" "names_equal two_levels 0x3000 f_name False"
    by (simp_all add: names_equal_def HName_def local_name_def two_levels_def RtlEqualUnicodeString_def
        RtlCompareUnicodeString_def d_name_def f_name_def upt_rec)
  have w: "walk two_levels two_kids False 0x1000 (path_parts two_levels df_path) = Inr 0x3058"
    using n by (simp add: p two_kids_def)
      (simp add: d_name_def f_name_def two_levels_def ObGetObjectFromHeader_def)
  have d: "directory two_levels 0x1000" by (simp add: two_levels_dirs)
  show "DirObjTypeOpenObject M 0x1000 1 KernelMode df_path False NULL two_levels =
      Done ((STATUS_SUCCESS, Some 0x3058), referenced 0x3000 two_levels)"
    using DirObjTypeOpenObject_walks [of df_path two_kids two_levels "0x1000" M 1 False NULL] two_levels_ok d w
    by (simp add: df_path_def ObGetHeaderFromObject_def)
qed

end
