(* ===== verification/Vfs.thy ===== *)
theory Vfs
  imports Rtl
begin

text \<open>
  The virtual file system layer (NNXOSKRN/drivers/builtin/fs/vfs.c): the table of mounted file
  systems, sector access through the driver, path strings and open files. A C string is the
  function that reads its characters from where the pointer points; adding to the pointer shifts
  it. Fresh memory from NNXAllocatorAlloc holds unknown bytes, a field of the file system.
\<close>

section \<open>Strings\<close>

type_synonym cstr = "nat \<Rightarrow> u8"
type_synonym bytes = "nat \<Rightarrow> u8"

definition shift :: "cstr \<Rightarrow> u64 \<Rightarrow> cstr" where "shift s k = (\<lambda>i. s (unat k + i))"

definition str_length :: "cstr \<Rightarrow> u64" where "str_length s = FindCharacterFirst s (- 1) 0"

abbreviation (input) SLASH :: u8 where "SLASH \<equiv> 0x2F"
abbreviation (input) BACKSLASH :: u8 where "BACKSLASH \<equiv> 0x5C"

definition FindFirstSlash :: "cstr \<Rightarrow> u64" where
  "FindFirstSlash path =
     (let pathLength = str_length path;
          forwardSlash = FindCharacterFirst path pathLength SLASH;
          backSlash = FindCharacterFirst path pathLength BACKSLASH
      in if forwardSlash < backSlash then forwardSlash else backSlash)"

definition FindLastSlash :: "cstr \<Rightarrow> u64" where
  "FindLastSlash path =
     (let pathLength = str_length path;
          forwardSlash = FindCharacterLast path pathLength SLASH;
          backSlash = FindCharacterLast path pathLength BACKSLASH
      in if forwardSlash \<noteq> - 1 \<and> (forwardSlash > backSlash \<or> backSlash = - 1) then forwardSlash else backSlash)"

definition GetParentPathLength :: "cstr \<Rightarrow> u64" where "GetParentPathLength path = FindLastSlash path"

text \<open>Copying the parent path into fresh memory m and ending it. Without a slash the length is -1:
  that many bytes are a Fault of RtlCopyMemory.\<close>

definition GetParentPath :: "cstr \<Rightarrow> bytes \<Rightarrow> (u64 \<times> cstr) outcome" where
  "GetParentPath path m =
     (let n = GetParentPathLength path in
      if n > 0x7FFFFFFF then Fault else Done (n, \<lambda>i. if i < unat n then path i else if i = unat n then 0 else m i))"

text \<open>Name and extension of a path, written into the 32 bytes of a directory entry: the name from
  byte 0, the extension from byte 8. Nothing bounds them to 8 and 3 characters; writing past
  the entry is a Fault.\<close>

definition GetFileNameAndExtensionFromPath :: "cstr \<Rightarrow> bytes \<Rightarrow> (u64 \<times> bytes) outcome" where
  "GetFileNameAndExtensionFromPath path e =
     (let len = str_length path;
          start = FindLastSlash path + 1;
          p = shift path start;
          dot = FindCharacterLast p (len - start) 0x2E;
          filenameEnd = (if dot = - 1 then len - start else dot);
          e = (\<lambda>i. if i < 11 then 0x20 else e i)
      in if unat filenameEnd > 32 then Fault
         else
           let e = (\<lambda>i. if i < unat filenameEnd then p i else e i) in
           if dot = - 1 then Done (start, e)
           else let n = unat (len - start - dot - 1) in
             if n > 24 then Fault
             else Done (start, \<lambda>i. if 8 \<le> i \<and> i < 8 + n then p (unat dot + 1 + (i - 8)) else e i))"

section \<open>Sectors\<close>

type_synonym VFS_STATUS = u32

abbreviation (input) VFS_ERR_INVALID_FILENAME :: VFS_STATUS where "VFS_ERR_INVALID_FILENAME \<equiv> 0xFFFF0001"
abbreviation (input) VFS_ERR_INVALID_PATH :: VFS_STATUS where "VFS_ERR_INVALID_PATH \<equiv> 0xFFFF0002"
abbreviation (input) VFS_ERR_EOF :: VFS_STATUS where "VFS_ERR_EOF \<equiv> 0xFFFF0004"
abbreviation (input) VFS_ERR_NOT_A_DIRECTORY :: VFS_STATUS where "VFS_ERR_NOT_A_DIRECTORY \<equiv> 0xFFFF0005"
abbreviation (input) VFS_ERR_FILE_NOT_FOUND :: VFS_STATUS where "VFS_ERR_FILE_NOT_FOUND \<equiv> 0xFFFF0007"
abbreviation (input) VFS_ERR_NOT_ENOUGH_ROOM_FOR_WRITE :: VFS_STATUS where "VFS_ERR_NOT_ENOUGH_ROOM_FOR_WRITE \<equiv> 0xFFFF0008"
abbreviation (input) VFS_ERR_READONLY :: VFS_STATUS where "VFS_ERR_READONLY \<equiv> 0xFFFF0009"
abbreviation (input) VFS_ERR_FILE_ALREADY_EXISTS :: VFS_STATUS where "VFS_ERR_FILE_ALREADY_EXISTS \<equiv> 0xFFFF000A"
abbreviation (input) VFS_ERR_ARGUMENT_INVALID :: VFS_STATUS where "VFS_ERR_ARGUMENT_INVALID \<equiv> 0xFFFF000B"

text \<open>A file system over its device: the 512 bytes of every sector, the status with which the
  driver answers an access to a sector, the cache of the FAT driver, and the unknown bytes that
  fresh memory holds.\<close>

record vfs =
  sectors :: "u64 \<Rightarrow> bytes"
  read_status :: "u64 \<Rightarrow> VFS_STATUS"
  write_status :: "u64 \<Rightarrow> VFS_STATUS"
  CachedFatSector :: bytes
  CachedFatSectorNumber :: u32
  fresh :: bytes

definition VfsReadSector :: "vfs \<Rightarrow> u64 \<Rightarrow> nat \<Rightarrow> bytes \<Rightarrow> VFS_STATUS \<times> bytes" where
  "VfsReadSector v sectorIndex off destination =
     (if read_status v sectorIndex \<noteq> 0 then (read_status v sectorIndex, destination)
      else (0, \<lambda>i. if off \<le> i \<and> i < off + 512 then sectors v sectorIndex (i - off) else destination i))"

definition VfsWriteSector :: "vfs \<Rightarrow> u64 \<Rightarrow> nat \<Rightarrow> bytes \<Rightarrow> VFS_STATUS \<times> vfs" where
  "VfsWriteSector v sectorIndex off source =
     (if write_status v sectorIndex \<noteq> 0 then (write_status v sectorIndex, v)
      else (0, v\<lparr>sectors := (sectors v)(sectorIndex := (\<lambda>i. if i < 512 then source (off + i) else sectors v sectorIndex i))\<rparr>))"

section \<open>The table of file systems\<close>

text \<open>An entry without device data is free. Each entry keeps what VfsRegister stores.\<close>

record vfs_entry =
  DeviceSpecificData :: ptr
  Functions :: ptr
  ReadSector :: ptr
  WriteSector :: ptr

definition VFS_MAX_NUMBER :: nat where "VFS_MAX_NUMBER = 64"

definition VfsInit :: "vfs_entry list" where
  "VfsInit = replicate VFS_MAX_NUMBER \<lparr>DeviceSpecificData = 0, Functions = 0, ReadSector = 0, WriteSector = 0\<rparr>"

definition VfsRegister :: "ptr \<Rightarrow> ptr \<Rightarrow> ptr \<Rightarrow> ptr \<Rightarrow> vfs_entry list \<Rightarrow> u64 \<times> vfs_entry list" where
  "VfsRegister deviceSpecificData readSector writeSector functions t =
     (case List.find (\<lambda>i. DeviceSpecificData (t ! i) = NULL) [0..<VFS_MAX_NUMBER] of
        Some i \<Rightarrow> (word_of_nat i, t[i := \<lparr>DeviceSpecificData = deviceSpecificData, Functions = functions,
                                       ReadSector = readSector, WriteSector = writeSector\<rparr>])
      | None \<Rightarrow> (- 1, t))"

definition VfsGetPointerToVfs :: "u64 \<Rightarrow> vfs_entry list \<Rightarrow> vfs_entry option" where
  "VfsGetPointerToVfs n t = (if DeviceSpecificData (t ! unat n) = NULL then None else Some (t ! unat n))"

definition VfsGetSystemVfs :: "vfs_entry list \<Rightarrow> vfs_entry option" where
  "VfsGetSystemVfs t = VfsGetPointerToVfs 0 t"

section \<open>Open files\<close>

record VFS_FILE =
  FName :: cstr
  FPath :: cstr
  FilePointer :: u64
  FileSize :: u64

abbreviation (input) VFS_MAX_PATH :: u64 where "VFS_MAX_PATH \<equiv> 2048"

text \<open>The three flags say whether each of the three allocations succeeds.\<close>

definition VfsAllocateVfsFile :: "bool \<times> bool \<times> bool \<Rightarrow> cstr \<Rightarrow> VFS_FILE option" where
  "VfsAllocateVfsFile allocated path =
     (case allocated of (file, p, n) \<Rightarrow>
        if \<not> file \<or> str_length path + 1 > VFS_MAX_PATH \<or> \<not> p \<or> \<not> n then None
        else Some \<lparr>FName = shift path (FindLastSlash path + 1), FPath = path, FilePointer = 0, FileSize = 0\<rparr>)"

end
