(* ===== verification/Fat.thy ===== *)
theory Fat
  imports Vfs
begin

text \<open>
  The FAT driver (NNXOSKRN/drivers/builtin/fs/fat.c), first part: the geometry of a volume, the
  file allocation table and cluster chains. Numbers in sectors are little endian. A quotient by a
  zero field of the BIOS parameter block, a division fault in C, is 0 here; allocations from the
  pool succeed.
\<close>

section \<open>Numbers in buffers\<close>

definition get16 :: "bytes \<Rightarrow> nat \<Rightarrow> u16" where
  "get16 b i = or (ucast (b i)) (push_bit 8 (ucast (b (i + 1))))"

definition get32 :: "bytes \<Rightarrow> nat \<Rightarrow> u32" where
  "get32 b i = or (ucast (get16 b i)) (push_bit 16 (ucast (get16 b (i + 2))))"

definition set16 :: "nat \<Rightarrow> u16 \<Rightarrow> bytes \<Rightarrow> bytes" where
  "set16 i v b = b(i := ucast v, i + 1 := ucast (drop_bit 8 v))"

definition set32 :: "nat \<Rightarrow> u32 \<Rightarrow> bytes \<Rightarrow> bytes" where
  "set32 i v b = set16 (i + 2) (ucast (drop_bit 16 v)) (set16 i (ucast v) b)"

section \<open>Geometry\<close>

record BPB =
  BytesPerSector :: u16
  SectorsPerCluster :: u8
  SectorReservedSize :: u16
  NumberOfFats :: u8
  RootEntryCount :: u16
  SectorTotSize16 :: u16
  SectorFatSize16 :: u16
  SectorTotSize32 :: u32
  SectorFatSize32 :: u32
  FirstAccessibleCluster :: u32

text \<open>The block as it lies in sector 0; the bytes behind the first 36 are those of the FAT32
  extension.\<close>

definition bpb_of :: "bytes \<Rightarrow> BPB" where
  "bpb_of b = \<lparr>BytesPerSector = get16 b 11, SectorsPerCluster = b 13, SectorReservedSize = get16 b 14,
     NumberOfFats = b 16, RootEntryCount = get16 b 17, SectorTotSize16 = get16 b 19, SectorFatSize16 = get16 b 22,
     SectorTotSize32 = get32 b 32, SectorFatSize32 = get32 b 36, FirstAccessibleCluster = get32 b 44\<rparr>"

text \<open>The block starts zeroed; the status of the read is not looked at.\<close>

definition read_bpb :: "vfs \<Rightarrow> BPB" where
  "read_bpb v = bpb_of (snd (VfsReadSector v 0 0 (\<lambda>_. 0)))"

definition FatVolumeTotalSize :: "BPB \<Rightarrow> u32" where
  "FatVolumeTotalSize b = (if SectorTotSize16 b = 0 then SectorTotSize32 b else ucast (SectorTotSize16 b))"

definition FatFileAllocationTableSize :: "BPB \<Rightarrow> u32" where
  "FatFileAllocationTableSize b = (if SectorFatSize16 b = 0 then SectorFatSize32 b else ucast (SectorFatSize16 b))"

definition FatCalculateFirstClusterPosition :: "BPB \<Rightarrow> u32" where
  "FatCalculateFirstClusterPosition b =
     (let rootDirSectors = (ucast (RootEntryCount b) * 32 + (ucast (BytesPerSector b) - 1)) div ucast (BytesPerSector b);
          fatSize = FatFileAllocationTableSize b
      in ucast (SectorReservedSize b) + ucast (NumberOfFats b) * fatSize + rootDirSectors)"

definition FatCalculateFatClusterCount :: "BPB \<Rightarrow> u32" where
  "FatCalculateFatClusterCount b =
     (FatVolumeTotalSize b - FatCalculateFirstClusterPosition b) div ucast (SectorsPerCluster b)"

definition FatIsFat32 :: "BPB \<Rightarrow> bool" where "FatIsFat32 b = (RootEntryCount b = 0)"

definition FatIsFat16 :: "BPB \<Rightarrow> bool" where
  "FatIsFat16 b = (if FatIsFat32 b then False else FatCalculateFatClusterCount b > 4084)"

definition FatIsFat12 :: "BPB \<Rightarrow> bool" where "FatIsFat12 b = (\<not> (FatIsFat16 b \<or> FatIsFat32 b))"

definition FatGetClusterEof :: "BPB \<Rightarrow> u32" where
  "FatGetClusterEof b = (if FatIsFat32 b then 0xFFFFFF8 else if FatIsFat16 b then 0xFFF8 else 0xFF8)"

definition FatIsClusterEof :: "BPB \<Rightarrow> u32 \<Rightarrow> bool" where
  "FatIsClusterEof b cluster = (cluster \<ge> FatGetClusterEof b)"

definition FatLocateMainFat :: "BPB \<Rightarrow> u32" where "FatLocateMainFat b = ucast (SectorReservedSize b)"

definition FatGetRootCluster :: "BPB \<Rightarrow> u32" where
  "FatGetRootCluster b = (if FatIsFat32 b then FirstAccessibleCluster b else 0)"

definition FatLocateNthFat :: "BPB \<Rightarrow> u32 \<Rightarrow> u32" where
  "FatLocateNthFat b n =
     (if ucast (NumberOfFats b) > n then ucast (SectorReservedSize b) + FatFileAllocationTableSize b * n else 0)"

section \<open>Entries of the table\<close>

text \<open>A buffer for sectors of the table, with the number of the sector in it.\<close>

type_synonym cache = "bytes \<times> u32"

definition bps :: "BPB \<Rightarrow> u32" where "bps b = ucast (BytesPerSector b)"

definition Fat32WriteFatEntry :: "BPB \<Rightarrow> u32 \<Rightarrow> u32 \<Rightarrow> bytes \<Rightarrow> bytes" where
  "Fat32WriteFatEntry b n value sectorData = set32 (4 * unat (n mod (bps b div 4))) value sectorData"

definition Fat16WriteFatEntry :: "BPB \<Rightarrow> u32 \<Rightarrow> u16 \<Rightarrow> bytes \<Rightarrow> bytes" where
  "Fat16WriteFatEntry b n value sectorData = set16 (2 * unat (n mod (bps b div 2))) value sectorData"

definition Fat12WriteFatEntry :: "BPB \<Rightarrow> u32 \<Rightarrow> u16 \<Rightarrow> bytes \<Rightarrow> bytes" where
  "Fat12WriteFatEntry b n value sectorsData =
     (let byteOffset = unat ((n * 3) mod bps b) in
      set16 byteOffset (or (and (get16 sectorsData byteOffset) (not 0xFFF)) value) sectorsData)"

definition Fat12ReadFatEntry :: "BPB \<Rightarrow> vfs \<Rightarrow> u32 \<Rightarrow> cache \<Rightarrow> u32 \<Rightarrow> u32 \<times> cache" where
  "Fat12ReadFatEntry b v mainFAT c n =
     (let entryBitOffset = n * 12; entryByteOffset = entryBitOffset div 8;
          relativeLowByteOffset = entryByteOffset mod bps b;
          desiredLowSector = entryByteOffset div bps b + mainFAT;
          r = (if snd c \<noteq> desiredLowSector
               then let (st1, buf) = VfsReadSector v (ucast desiredLowSector) 0 (fst c);
                        (st2, buf) = VfsReadSector v (ucast desiredLowSector + 1) (unat (bps b)) buf
                    in (or st1 st2 = 0, (buf, if or st1 st2 = 0 then desiredLowSector else snd c))
               else (True, c))
      in if \<not> fst r then (0, snd r)
         else let w = get16 (fst (snd r)) (unat relativeLowByteOffset);
                  w = (if entryBitOffset mod 8 \<noteq> 0 then push_bit 4 w else w)
              in (ucast (and w 0xFFF0), snd r))"

definition Fat16Or32ReadFatEntry :: "BPB \<Rightarrow> vfs \<Rightarrow> u32 \<Rightarrow> cache \<Rightarrow> u32 \<Rightarrow> u32 \<times> cache" where
  "Fat16Or32ReadFatEntry b v mainFAT c n =
     (let entryByteOffset = n * 2 * (if FatIsFat32 b then 2 else 1);
          relativeByteOffset = entryByteOffset mod bps b;
          desiredLowSector = entryByteOffset div bps b + mainFAT;
          r = (if snd c \<noteq> desiredLowSector
               then let (st, buf) = VfsReadSector v (ucast desiredLowSector) 0 (fst c)
                    in (st = 0, (buf, if st = 0 then desiredLowSector else snd c))
               else (True, c))
      in if \<not> fst r then (0, snd r)
         else (if FatIsFat16 b then ucast (get16 (fst (snd r)) (unat relativeByteOffset))
               else get32 (fst (snd r)) (unat relativeByteOffset), snd r))"

text \<open>Without a buffer (None) the entry is read through a new one that holds no sector yet.\<close>

definition FatReadFatEntry :: "BPB \<Rightarrow> vfs \<Rightarrow> u32 \<Rightarrow> cache option \<Rightarrow> u32 \<times> cache option" where
  "FatReadFatEntry b v n oc =
     (let mainFAT = FatLocateMainFat b;
          c = (case oc of Some c \<Rightarrow> c | None \<Rightarrow> (fresh v, 0));
          (e, c) = (if FatIsFat32 b \<or> FatIsFat16 b then Fat16Or32ReadFatEntry b v mainFAT c n
                    else Fat12ReadFatEntry b v mainFAT c n)
      in (e, map_option (\<lambda>_. c) oc))"

definition FatWriteFatEntryInternal :: "BPB \<Rightarrow> vfs \<Rightarrow> u32 \<Rightarrow> cache \<Rightarrow> u32 \<Rightarrow> VFS_STATUS \<times> cache \<times> vfs" where
  "FatWriteFatEntryInternal b v n c entry =
     (let (buf, cur) = the (snd (FatReadFatEntry b v n (Some c))) in
      if FatIsFat12 b
      then let buf = Fat12WriteFatEntry b n (ucast (and entry 0xFFF)) buf;
               (st, v) = VfsWriteSector v (ucast cur + 1) (unat (bps b)) buf
           in if st \<noteq> 0 then (VFS_ERR_READONLY, (buf, cur), v)
              else let (st, v) = VfsWriteSector v (ucast cur) 0 buf
                   in (if st \<noteq> 0 then VFS_ERR_READONLY else 0, (buf, cur), v)
      else let buf = (if FatIsFat32 b then Fat32WriteFatEntry b n entry buf else Fat16WriteFatEntry b n (ucast entry) buf);
               (st, v) = VfsWriteSector v (ucast cur) 0 buf
           in (if st \<noteq> 0 then VFS_ERR_READONLY else 0, (buf, cur), v))"

definition FatWriteFatEntry :: "BPB \<Rightarrow> vfs \<Rightarrow> u32 \<Rightarrow> cache option \<Rightarrow> u32 \<Rightarrow> VFS_STATUS \<times> cache option \<times> vfs" where
  "FatWriteFatEntry b v n oc entry =
     (let c = (case oc of Some c \<Rightarrow> c | None \<Rightarrow> (fresh v, 0));
          (status, c, v) = FatWriteFatEntryInternal b v n c entry
      in (status, map_option (\<lambda>_. c) oc, v))"

text \<open>Every caller writes without a buffer.\<close>

definition write_entry :: "BPB \<Rightarrow> vfs \<Rightarrow> u32 \<Rightarrow> u32 \<Rightarrow> VFS_STATUS \<times> vfs" where
  "write_entry b v n entry = (let (status, _, v) = FatWriteFatEntry b v n None entry in (status, v))"

definition FatIsFree :: "u32 \<Rightarrow> BPB \<Rightarrow> vfs \<Rightarrow> cache \<Rightarrow> bool \<times> cache" where
  "FatIsFree n b v c = (let (e, oc) = FatReadFatEntry b v n (Some c) in (e = 0, the oc))"

primrec scan_free_loop :: "BPB \<Rightarrow> vfs \<Rightarrow> nat list \<Rightarrow> cache \<Rightarrow> u32 \<Rightarrow> u32" where
  "scan_free_loop b v [] c freeClusters = freeClusters"
| "scan_free_loop b v (i # is) c freeClusters =
     (let (f, c) = FatIsFree (word_of_nat i) b v c in scan_free_loop b v is c (freeClusters + (if f then 1 else 0)))"

definition FatScanFree :: "vfs \<Rightarrow> u32" where
  "FatScanFree v = (let b = read_bpb v in
     scan_free_loop b v [1..<unat (FatCalculateFatClusterCount b + 2)] (fresh v, 0) 0)"

primrec find_free_loop :: "BPB \<Rightarrow> vfs \<Rightarrow> nat list \<Rightarrow> cache \<Rightarrow> u32" where
  "find_free_loop b v [] c = 0xFFFFFFFF"
| "find_free_loop b v (i # is) c =
     (let (f, c) = FatIsFree (word_of_nat i) b v c in if f then word_of_nat i else find_free_loop b v is c)"

definition FatFindFreeCluster :: "BPB \<Rightarrow> vfs \<Rightarrow> u32" where
  "FatFindFreeCluster b v = find_free_loop b v [1..<unat (FatCalculateFatClusterCount b + 2)] (fresh v, 0)"

section \<open>Chains\<close>

definition FatFollowClusterChain :: "BPB \<Rightarrow> vfs \<Rightarrow> u32 \<Rightarrow> u32 \<times> vfs" where
  "FatFollowClusterChain b v cluster =
     (let (e, oc) = FatReadFatEntry b v cluster (Some (CachedFatSector v, CachedFatSectorNumber v)); c = the oc
      in (e, v\<lparr>CachedFatSector := fst c, CachedFatSectorNumber := snd c\<rparr>))"

definition FatInitVfs :: "vfs \<Rightarrow> vfs" where
  "FatInitVfs v = v\<lparr>CachedFatSector := fresh v, CachedFatSectorNumber := - 1\<rparr>"

primrec chain_steps :: "BPB \<Rightarrow> nat \<Rightarrow> vfs \<Rightarrow> u32 \<Rightarrow> u32 \<times> vfs" where
  "chain_steps b 0 v start = (start, v)"
| "chain_steps b (Suc k) v start =
     (if FatIsClusterEof b start then (start, v)
      else let (start, v) = FatFollowClusterChain b v start in chain_steps b k v start)"

definition FatFollowClusterChainToAPoint :: "BPB \<Rightarrow> vfs \<Rightarrow> u32 \<Rightarrow> u32 \<Rightarrow> u32 \<times> vfs" where
  "FatFollowClusterChainToAPoint b v start endIndex = chain_steps b (unat endIndex) v start"

partial_function (option) chain_end :: "BPB \<Rightarrow> vfs \<Rightarrow> u32 \<Rightarrow> u32 \<Rightarrow> (u32 \<times> vfs) option" where
  "chain_end b v start prev =
     (if FatIsClusterEof b start then Some (prev, v)
      else chain_end b (snd (FatFollowClusterChain b v start)) (fst (FatFollowClusterChain b v start)) start)"

definition FatFollowClusterChainToEnd :: "BPB \<Rightarrow> vfs \<Rightarrow> u32 \<Rightarrow> (u32 \<times> vfs) outcome" where
  "FatFollowClusterChainToEnd b v start = (case chain_end b v start 0 of None \<Rightarrow> Hang | Some r \<Rightarrow> Done r)"

section \<open>Clusters on the disk\<close>

definition first_sector_of_cluster :: "BPB \<Rightarrow> u32 \<Rightarrow> u32" where
  "first_sector_of_cluster b clusterIndex =
     ucast (SectorsPerCluster b) * clusterIndex + FatCalculateFirstClusterPosition b - 2 * ucast (SectorsPerCluster b)"

primrec read_cluster_loop :: "vfs \<Rightarrow> u64 \<Rightarrow> nat \<Rightarrow> nat list \<Rightarrow> nat \<Rightarrow> bytes \<Rightarrow> VFS_STATUS \<times> bytes" where
  "read_cluster_loop v first sz [] off data = (0, data)"
| "read_cluster_loop v first sz (i # is) off data =
     (let (st, data) = VfsReadSector v (first + word_of_nat i) off data
      in if st \<noteq> 0 then (st, data) else read_cluster_loop v first sz is (off + sz) data)"

definition FatReadCluster :: "BPB \<Rightarrow> vfs \<Rightarrow> u32 \<Rightarrow> bytes \<Rightarrow> VFS_STATUS \<times> bytes" where
  "FatReadCluster b v clusterIndex data =
     read_cluster_loop v (ucast (first_sector_of_cluster b clusterIndex)) (unat (bps b)) [0..<unat (SectorsPerCluster b)] 0 data"

definition FatReadSectorOfCluster :: "BPB \<Rightarrow> vfs \<Rightarrow> u32 \<Rightarrow> u32 \<Rightarrow> nat \<Rightarrow> bytes \<Rightarrow> VFS_STATUS \<times> bytes" where
  "FatReadSectorOfCluster b v clusterIndex sectorIndex off data =
     VfsReadSector v (ucast (first_sector_of_cluster b clusterIndex) + ucast sectorIndex) off data"

definition FatWriteSectorOfCluster :: "BPB \<Rightarrow> vfs \<Rightarrow> u32 \<Rightarrow> u32 \<Rightarrow> nat \<Rightarrow> bytes \<Rightarrow> VFS_STATUS \<times> vfs" where
  "FatWriteSectorOfCluster b v clusterIndex sectorIndex off data =
     VfsWriteSector v (ucast (first_sector_of_cluster b clusterIndex) + ucast sectorIndex) off data"

section \<open>Growing and shrinking chains\<close>

partial_function (option) free_chain :: "BPB \<Rightarrow> vfs \<Rightarrow> u32 \<Rightarrow> (VFS_STATUS \<times> vfs) option" where
  "free_chain b v clusterToBeRemoved =
     (if FatIsClusterEof b clusterToBeRemoved then Some (0, v)
      else let r = FatFollowClusterChain b v clusterToBeRemoved;
               w = write_entry b (snd r) clusterToBeRemoved 0
           in if fst w \<noteq> 0 then Some w else free_chain b (snd w) (fst r))"

definition FatDecreaseClusterChainLengthTo :: "BPB \<Rightarrow> vfs \<Rightarrow> u32 \<Rightarrow> u32 \<Rightarrow> (VFS_STATUS \<times> vfs) outcome" where
  "FatDecreaseClusterChainLengthTo b v start removeFrom =
     (let (clusterChainEnd, v) = FatFollowClusterChainToAPoint b v start (removeFrom - (if removeFrom \<noteq> 0 then 1 else 0));
          (clusterToBeRemoved, v) = (if removeFrom \<noteq> 0 then FatFollowClusterChain b v clusterChainEnd else (clusterChainEnd, v));
          (status, v) = (if removeFrom \<noteq> 0 then write_entry b v clusterChainEnd (FatGetClusterEof b) else (0, v))
      in if status \<noteq> 0 then Done (status, v)
         else case free_chain b v clusterToBeRemoved of None \<Rightarrow> Hang | Some r \<Rightarrow> Done r)"

definition clear_cluster :: "BPB \<Rightarrow> u32 \<Rightarrow> vfs \<Rightarrow> vfs" where
  "clear_cluster b cluster v =
     fold (\<lambda>j v. snd (FatWriteSectorOfCluster b v cluster (word_of_nat j) 0 (\<lambda>_. 0))) [0..<unat (SectorsPerCluster b)] v"

primrec append_clusters :: "BPB \<Rightarrow> nat \<Rightarrow> vfs \<Rightarrow> u32 \<Rightarrow> VFS_STATUS \<times> vfs" where
  "append_clusters b 0 v lastCluster = (0, v)"
| "append_clusters b (Suc k) v lastCluster =
     (let cluster = FatFindFreeCluster b v;
          (status, v) = write_entry b v cluster (FatGetClusterEof b)
      in if status \<noteq> 0 then (status, v)
         else let (status, v) = write_entry b v lastCluster cluster
              in if status \<noteq> 0 then (status, v) else append_clusters b k (clear_cluster b cluster v) cluster)"

definition FatIncreaseClusterChainLengthBy :: "BPB \<Rightarrow> vfs \<Rightarrow> u32 \<Rightarrow> u32 \<Rightarrow> (VFS_STATUS \<times> vfs) outcome" where
  "FatIncreaseClusterChainLengthBy b v start n =
     obind (FatFollowClusterChainToEnd b v start) (\<lambda>(lastCluster, v). Done (append_clusters b (unat n) v lastCluster))"

end
