(* ===== verification/FatTable.thy ===== *)
theory FatTable
  imports Fat
begin

text \<open>
  The laws of the file allocation table: what writing an entry changes, and that chains are
  followed through a cache that writing does not update.
\<close>

section \<open>Numbers in buffers\<close>

lemma bytes16: "or (ucast (ucast (w :: u16) :: u8)) (push_bit 8 (ucast (ucast (drop_bit 8 w) :: u8))) = w"
  by (rule bit_word_eqI) (auto simp: bit_simps)

lemma words32: "or (ucast (ucast (w :: u32) :: u16)) (push_bit 16 (ucast (ucast (drop_bit 16 w) :: u16))) = w"
  by (rule bit_word_eqI) (auto simp: bit_simps)

lemma get16_set16 [simp]: "get16 (set16 i v b) i = v"
  by (simp add: get16_def set16_def bytes16)

lemma get16_set16_other: "j + 2 \<le> i \<or> i + 2 \<le> j \<Longrightarrow> get16 (set16 i v b) j = get16 b j"
  by (auto simp: get16_def set16_def)

lemma get32_set32 [simp]: "get32 (set32 i v b) i = v"
  by (simp add: get32_def set32_def get16_set16_other words32)

lemma get32_set32_other: "j + 4 \<le> i \<or> i + 4 \<le> j \<Longrightarrow> get32 (set32 i v b) j = get32 b j"
  by (auto simp: get32_def set32_def get16_set16_other)

lemma get_agree:
  "(\<And>k. i \<le> k \<Longrightarrow> k < i + 2 \<Longrightarrow> b k = c k) \<Longrightarrow> get16 b i = get16 c i"
  "(\<And>k. i \<le> k \<Longrightarrow> k < i + 4 \<Longrightarrow> b k = c k) \<Longrightarrow> get32 b i = get32 c i"
  by (simp_all add: get16_def get32_def)

section \<open>Volumes\<close>

text \<open>A FAT16 or FAT32 volume with the usual sectors of 512 bytes. An entry has 2 or 4 bytes; its
  number is in range when its offset does not wrap around.\<close>

definition table_volume :: "BPB \<Rightarrow> bool" where
  "table_volume b = (BytesPerSector b = 512 \<and> \<not> FatIsFat12 b \<and> SectorReservedSize b \<noteq> 0)"

definition width :: "BPB \<Rightarrow> nat" where "width b = (if FatIsFat32 b then 4 else 2)"

definition in_range_entry :: "BPB \<Rightarrow> u32 \<Rightarrow> bool" where
  "in_range_entry b n = (unat n * width b < 2 ^ 32)"

definition entry_sector :: "BPB \<Rightarrow> u32 \<Rightarrow> u32" where
  "entry_sector b n = word_of_nat (unat n * width b div 512) + FatLocateMainFat b"

definition entry_offset :: "BPB \<Rightarrow> u32 \<Rightarrow> nat" where
  "entry_offset b n = unat n * width b mod 512"

definition entry_in :: "BPB \<Rightarrow> bytes \<Rightarrow> u32 \<Rightarrow> u32" where
  "entry_in b buf n = (if FatIsFat32 b then get32 buf (entry_offset b n) else ucast (get16 buf (entry_offset b n)))"

lemma volume_kind: "table_volume b \<Longrightarrow> FatIsFat16 b = (\<not> FatIsFat32 b)"
  by (auto simp: table_volume_def FatIsFat12_def FatIsFat16_def)

lemma volume_bps: "table_volume b \<Longrightarrow> bps b = 512"
  by (simp add: table_volume_def bps_def)

lemma entry_byte_offset:
  assumes "in_range_entry b n"
  shows "unat (n * 2 * (if FatIsFat32 b then 2 else 1) :: u32) = unat n * width b"
proof -
  have "unat (n * (if FatIsFat32 b then 4 else 2) :: u32) = unat n * width b"
    using assms unat_mult_lem [of n 4] unat_mult_lem [of n 2]
    by (simp add: in_range_entry_def width_def split: if_splits)
  then show ?thesis by (simp add: mult.assoc split: if_splits)
qed

lemma entry_offset_bound: "entry_offset b n + width b \<le> 512"
proof -
  have "entry_offset b n = width b * (unat n mod (512 div width b))"
    by (auto simp: entry_offset_def width_def mult_mod_right mult.commute)
  moreover have "unat n mod (512 div width b) < 512 div width b" by (rule mod_less_divisor) (simp add: width_def)
  ultimately show ?thesis by (simp add: width_def split: if_splits)
qed

lemma entry_in_agree:
  assumes "\<And>k. k < 512 \<Longrightarrow> x k = y k"
  shows "entry_in b x n = entry_in b y n"
proof (cases "FatIsFat32 b")
  case True
  then have "get32 x (entry_offset b n) = get32 y (entry_offset b n)"
    using entry_offset_bound [of b n] assms by (intro get_agree(2)) (simp add: width_def)
  then show ?thesis using True by (simp add: entry_in_def)
next
  case False
  then have "get16 x (entry_offset b n) = get16 y (entry_offset b n)"
    using entry_offset_bound [of b n] assms by (intro get_agree(1)) (simp add: width_def)
  then show ?thesis using False by (simp add: entry_in_def)
qed

lemma unat_ucast_up: "unat (ucast (w :: u16) :: u32) = unat w"
  by (simp add: unsigned_ucast_eq take_bit_nat_eq_self unat_bound [THEN less_le_trans])

lemma unat_entry_sector:
  assumes "in_range_entry b n"
  shows "unat (entry_sector b n) = unat n * width b div 512 + unat (SectorReservedSize b)"
proof -
  have "unat (word_of_nat (unat n * width b div 512) :: u32) = unat n * width b div 512"
    by (rule unat_word_of_nat) (use assms in \<open>simp add: in_range_entry_def\<close>)
  moreover have "unat (FatLocateMainFat b) = unat (SectorReservedSize b)"
    by (simp add: FatLocateMainFat_def unat_ucast_up)
  moreover have "unat (SectorReservedSize b) < 2 ^ 16" using unat_bound [of "SectorReservedSize b"] by simp
  moreover have "unat n * width b div 512 < 2 ^ 23" using assms by (simp add: in_range_entry_def)
  ultimately show ?thesis unfolding entry_sector_def by (subst unat_plus_if') simp
qed

lemma entry_sector_nonzero: "table_volume b \<Longrightarrow> in_range_entry b n \<Longrightarrow> entry_sector b n \<noteq> 0"
  using unat_entry_sector [of b n] by (auto simp: table_volume_def unat_eq_0)

text \<open>Reading an entry through a buffer.\<close>

lemma read_entry:
  assumes "table_volume b" "in_range_entry b n"
  shows "Fat16Or32ReadFatEntry b v (FatLocateMainFat b) c n =
    (let es = entry_sector b n in
     if snd c = es then (entry_in b (fst c) n, c)
     else if read_status v (ucast es) \<noteq> 0 then (0, c)
     else (entry_in b (sectors v (ucast es)) n, (\<lambda>i. if i < 512 then sectors v (ucast es) i else fst c i, es)))"
proof -
  let ?o = "n * 2 * (if FatIsFat32 b then 2 else 1)"
  have d: "?o div bps b + FatLocateMainFat b = entry_sector b n"
  proof -
    have "unat (?o div 512) = unat n * width b div 512"
      using entry_byte_offset [OF assms(2)] by (simp add: unat_div_distrib)
    then have "?o div 512 = word_of_nat (unat n * width b div 512)" by (metis of_nat_unat ucast_id)
    then show ?thesis using assms(1) by (simp add: volume_bps entry_sector_def)
  qed
  have m: "unat (?o mod bps b) = entry_offset b n"
    using entry_byte_offset [OF assms(2)] assms(1) by (simp add: volume_bps unat_mod_distrib entry_offset_def)
  have e: "(if FatIsFat16 b then ucast (get16 buf (entry_offset b n)) else get32 buf (entry_offset b n)) = entry_in b buf n" for buf
    using volume_kind [OF assms(1)] by (simp add: entry_in_def)
  have a: "entry_in b (\<lambda>i. if i < 512 then x i else y i) n = entry_in b x n" for x y
    by (rule entry_in_agree) simp
  show ?thesis
    unfolding Fat16Or32ReadFatEntry_def Let_def d m e
    by (auto simp: VfsReadSector_def a split: prod.splits)
qed

definition fat_entry :: "BPB \<Rightarrow> vfs \<Rightarrow> u32 \<Rightarrow> u32" where
  "fat_entry b v n = fst (FatReadFatEntry b v n None)"

lemma FatRead_table:
  assumes "table_volume b"
  shows "FatReadFatEntry b v n oc =
    (let r = Fat16Or32ReadFatEntry b v (FatLocateMainFat b) (case oc of Some c \<Rightarrow> c | None \<Rightarrow> (fresh v, 0)) n
     in (fst r, map_option (\<lambda>_. snd r) oc))"
  using volume_kind [OF assms] by (auto simp: FatReadFatEntry_def Let_def split: prod.splits)

lemma fat_entry_eq:
  assumes "table_volume b" "in_range_entry b n"
  shows "fat_entry b v n = (if read_status v (ucast (entry_sector b n)) \<noteq> 0 then 0
    else entry_in b (sectors v (ucast (entry_sector b n))) n)"
  using entry_sector_nonzero [OF assms] by (simp add: fat_entry_def FatRead_table assms read_entry Let_def)

section \<open>Writing entries\<close>

definition put_entry :: "BPB \<Rightarrow> u32 \<Rightarrow> u32 \<Rightarrow> bytes \<Rightarrow> bytes" where
  "put_entry b n value buf =
     (if FatIsFat32 b then set32 (entry_offset b n) value buf else set16 (entry_offset b n) (ucast value) buf)"

definition stored :: "BPB \<Rightarrow> u32 \<Rightarrow> u32" where
  "stored b value = (if FatIsFat32 b then value else ucast (ucast value :: u16))"

lemma entry_offset_multiple: "entry_offset b n = width b * (unat n mod (512 div width b))"
  by (auto simp: entry_offset_def width_def mult_mod_right mult.commute)

lemma put_entry_eq:
  assumes "table_volume b"
  shows "(if FatIsFat32 b then Fat32WriteFatEntry b n value buf else Fat16WriteFatEntry b n (ucast value) buf) = put_entry b n value buf"
  using assms by (simp add: Fat32WriteFatEntry_def Fat16WriteFatEntry_def put_entry_def volume_bps
      entry_offset_multiple unat_mod_distrib width_def)

lemma entry_put_same: "entry_in b (put_entry b n value buf) n = stored b value"
  by (simp add: entry_in_def put_entry_def stored_def)

lemma entries_apart:
  assumes "entry_sector b m = entry_sector b n" "in_range_entry b m" "in_range_entry b n" "m \<noteq> n"
  shows "entry_offset b m + width b \<le> entry_offset b n \<or> entry_offset b n + width b \<le> entry_offset b m"
proof -
  have "unat m * width b div 512 = unat n * width b div 512"
    using assms(1) unat_entry_sector [OF assms(2)] unat_entry_sector [OF assms(3)] by simp
  moreover have "width b > 0" "unat m \<noteq> unat n" using assms(4) by (auto simp: width_def word_unat_eq_iff)
  ultimately have ne: "entry_offset b m \<noteq> entry_offset b n"
    unfolding entry_offset_def by (metis div_mult_mod_eq mult_cancel2 less_irrefl)
  obtain i j where "entry_offset b m = width b * i" "entry_offset b n = width b * j"
    using entry_offset_multiple by blast
  then show ?thesis
    using ne by (metis linorder_neqE_nat mult_Suc_right add.commute mult_le_mono2 Suc_leI)
qed

lemma entry_put_other:
  assumes "entry_sector b m = entry_sector b n" "in_range_entry b m" "in_range_entry b n" "m \<noteq> n"
  shows "entry_in b (put_entry b n value buf) m = entry_in b buf m"
  using entries_apart [OF assms]
  by (auto simp: entry_in_def put_entry_def width_def get32_set32_other get16_set16_other)

definition sector_with :: "BPB \<Rightarrow> u32 \<Rightarrow> u32 \<Rightarrow> vfs \<Rightarrow> bytes" where
  "sector_with b n value v =
     (let s = sectors v (ucast (entry_sector b n)) in
      (\<lambda>i. if i < 512 then put_entry b n value (\<lambda>i. if i < 512 then s i else fresh v i) i else s i))"

lemma entry_in_sector_with:
  "entry_in b (sector_with b n value v) m = entry_in b (put_entry b n value (\<lambda>i. if i < 512 then sectors v (ucast (entry_sector b n)) i else fresh v i)) m"
  by (rule entry_in_agree) (simp add: sector_with_def Let_def)

lemma write_entry_eq:
  assumes "table_volume b" "in_range_entry b n" "read_status v (ucast (entry_sector b n)) = 0"
  shows "write_entry b v n value =
    (if write_status v (ucast (entry_sector b n)) \<noteq> 0 then (VFS_ERR_READONLY, v)
     else (0, v\<lparr>sectors := (sectors v)(ucast (entry_sector b n) := sector_with b n value v)\<rparr>))"
proof -
  have k: "\<not> FatIsFat12 b" using assms(1) by (simp add: table_volume_def)
  have nz: "entry_sector b n \<noteq> 0" by (rule entry_sector_nonzero [OF assms(1,2)])
  show ?thesis
    using assms k nz
    by (simp add: write_entry_def FatWriteFatEntry_def FatWriteFatEntryInternal_def FatRead_table read_entry
        Let_def put_entry_eq VfsWriteSector_def sector_with_def cong: if_cong)
qed

lemma ucast_sector_inj: "(ucast (s :: u32) :: u64) = ucast t \<longleftrightarrow> s = t"
proof -
  have "unat (ucast (w :: u32) :: u64) = unat w" for w
    using unat_bound [of w] by (simp add: unsigned_ucast_eq take_bit_nat_eq_self)
  then show ?thesis by (metis word_unat_eq_iff)
qed

lemma write_entry_reads:
  fixes v :: vfs and n w :: u32
  assumes "table_volume b" "in_range_entry b n" "in_range_entry b m"
  defines "v' \<equiv> v\<lparr>sectors := (sectors v)(ucast (entry_sector b n) := sector_with b n w v)\<rparr>"
  assumes "read_status v (ucast (entry_sector b n)) = 0"
  shows "fat_entry b v' m = (if m = n then stored b w else fat_entry b v m)"
proof (cases "entry_sector b m = entry_sector b n")
  case True
  have a: "entry_in b (\<lambda>i. if i < 512 then sectors v (ucast (entry_sector b n)) i else fresh v i) m =
      entry_in b (sectors v (ucast (entry_sector b n))) m"
    by (rule entry_in_agree) simp
  show ?thesis
    using True assms entry_put_same entry_put_other [OF True assms(3,2)] a
    by (auto simp: fat_entry_eq v'_def entry_in_sector_with)
next
  case False
  then have "m \<noteq> n" by auto
  then show ?thesis using False assms by (simp add: fat_entry_eq v'_def ucast_sector_inj)
qed

section \<open>Appending to a chain\<close>

definition with_cache :: "cache \<Rightarrow> vfs \<Rightarrow> vfs" where
  "with_cache c v = v\<lparr>CachedFatSector := fst c, CachedFatSectorNumber := snd c\<rparr>"

lemma with_cache_keeps [simp]:
  "sectors (with_cache c v) = sectors v" "read_status (with_cache c v) = read_status v"
  "write_status (with_cache c v) = write_status v" "fresh (with_cache c v) = fresh v"
  "CachedFatSector (with_cache c v) = fst c" "CachedFatSectorNumber (with_cache c v) = snd c"
  by (simp_all add: with_cache_def)

lemma VfsReadSector_cache [simp]: "VfsReadSector (with_cache c v) = VfsReadSector v"
  by (simp add: fun_eq_iff VfsReadSector_def cong: if_cong)

lemma reads_ignore_cache:
  "Fat16Or32ReadFatEntry b (with_cache c v) = Fat16Or32ReadFatEntry b v"
  "Fat12ReadFatEntry b (with_cache c v) = Fat12ReadFatEntry b v"
  by (intro ext, simp only: Fat16Or32ReadFatEntry_def VfsReadSector_cache)
    (intro ext, simp only: Fat12ReadFatEntry_def VfsReadSector_cache)

lemma FatRead_ignores_cache:
  "FatReadFatEntry b (with_cache c v) = FatReadFatEntry b v"
  "FatIsFree n b (with_cache c v) = FatIsFree n b v"
  by (intro ext, simp only: FatReadFatEntry_def reads_ignore_cache with_cache_keeps)
    (intro ext, simp only: FatIsFree_def FatReadFatEntry_def reads_ignore_cache with_cache_keeps)

lemma FatFindFreeCluster_cache [simp]: "FatFindFreeCluster b (with_cache c v) = FatFindFreeCluster b v"
proof -
  have "find_free_loop b (with_cache c v) is d = find_free_loop b v is d" for "is" d
    by (induction "is" arbitrary: d) (simp_all add: FatRead_ignores_cache split: prod.splits)
  then show ?thesis by (simp add: FatFindFreeCluster_def)
qed

lemma fat_entry_cache [simp]: "fat_entry b (with_cache c v) n = fat_entry b v n"
  by (simp add: fat_entry_def FatRead_ignores_cache)

text \<open>All sectors can be read and written.\<close>

definition healthy :: "vfs \<Rightarrow> bool" where
  "healthy v = (\<forall>s. read_status v s = 0 \<and> write_status v s = 0)"

text \<open>Following a chain looks at the cache, and leaves the sector of the entry in it.\<close>

lemma follow_chain:
  assumes "table_volume b" "in_range_entry b n" "healthy v"
  shows "\<exists>c. FatFollowClusterChain b v n = (entry_in b (fst c) n, with_cache c v) \<and> snd c = entry_sector b n \<and>
    entry_in b (fst c) n = (if CachedFatSectorNumber v = entry_sector b n then entry_in b (CachedFatSector v) n else fat_entry b v n)"
proof (cases "CachedFatSectorNumber v = entry_sector b n")
  case True
  then show ?thesis
    using assms by (intro exI [of _ "(CachedFatSector v, CachedFatSectorNumber v)"])
      (simp add: FatFollowClusterChain_def FatRead_table read_entry Let_def with_cache_def)
next
  case False
  let ?c = "(\<lambda>i. if i < 512 then sectors v (ucast (entry_sector b n)) i else CachedFatSector v i, entry_sector b n)"
  have a: "entry_in b (fst ?c) n = entry_in b (sectors v (ucast (entry_sector b n))) n"
    by (rule entry_in_agree) simp
  show ?thesis
    using assms False a by (intro exI [of _ ?c])
      (simp add: FatFollowClusterChain_def FatRead_table read_entry Let_def with_cache_def healthy_def fat_entry_eq
        cong: if_cong)
qed

lemma chain_end_single:
  assumes "\<not> FatIsClusterEof b start" "FatFollowClusterChain b v start = (e, v')" "FatIsClusterEof b e"
  shows "FatFollowClusterChainToEnd b v start = Done (start, v')"
  using assms by (simp add: FatFollowClusterChainToEnd_def chain_end.simps)

text \<open>Clearing a cluster leaves all other sectors.\<close>

definition cluster_sector :: "BPB \<Rightarrow> u32 \<Rightarrow> nat \<Rightarrow> u64" where
  "cluster_sector b c j = ucast (first_sector_of_cluster b c) + ucast (word_of_nat j :: u32)"

lemma clear_cluster_keeps:
  assumes "\<forall>j<unat (SectorsPerCluster b). cluster_sector b c j \<noteq> s"
  shows "sectors (clear_cluster b c v) s = sectors v s \<and> read_status (clear_cluster b c v) = read_status v \<and>
    write_status (clear_cluster b c v) = write_status v \<and> CachedFatSector (clear_cluster b c v) = CachedFatSector v \<and>
    CachedFatSectorNumber (clear_cluster b c v) = CachedFatSectorNumber v \<and> fresh (clear_cluster b c v) = fresh v"
proof -
  let ?w = "\<lambda>j v. snd (FatWriteSectorOfCluster b v c (word_of_nat j) 0 (\<lambda>_. 0))"
  have "\<forall>j\<in>set js. cluster_sector b c j \<noteq> s \<Longrightarrow>
    sectors (fold ?w js v) s = sectors v s \<and> read_status (fold ?w js v) = read_status v \<and>
    write_status (fold ?w js v) = write_status v \<and> CachedFatSector (fold ?w js v) = CachedFatSector v \<and>
    CachedFatSectorNumber (fold ?w js v) = CachedFatSectorNumber v \<and> fresh (fold ?w js v) = fresh v" for js
  proof (induction js arbitrary: v)
    case (Cons j js)
    have "sectors (?w j v) s = sectors v s \<and> read_status (?w j v) = read_status v \<and> write_status (?w j v) = write_status v \<and>
      CachedFatSector (?w j v) = CachedFatSector v \<and> CachedFatSectorNumber (?w j v) = CachedFatSectorNumber v \<and> fresh (?w j v) = fresh v"
      using Cons.prems by (auto simp: FatWriteSectorOfCluster_def VfsWriteSector_def cluster_sector_def [symmetric])
    then show ?case using Cons.IH [of "?w j v"] Cons.prems by simp
  qed simp
  then show ?thesis using assms by (simp add: clear_cluster_def)
qed

lemma append_one:
  assumes "table_volume b" "healthy v" "in_range_entry b start" "in_range_entry b x" "x \<noteq> start"
    and x: "FatFindFreeCluster b v = x" "\<forall>j<unat (SectorsPerCluster b). cluster_sector b x j \<noteq> ucast (entry_sector b start)"
  shows "\<exists>v'. append_clusters b 1 v start = (0, v') \<and> healthy v' \<and> fat_entry b v' start = stored b x \<and>
    CachedFatSector v' = CachedFatSector v \<and> CachedFatSectorNumber v' = CachedFatSectorNumber v"
proof -
  let ?w = "\<lambda>n y v. v\<lparr>sectors := (sectors v)(ucast (entry_sector b n) := sector_with b n y v)\<rparr>"
  define v1 where "v1 = ?w x (FatGetClusterEof b) v"
  define v2 where "v2 = ?w start x v1"
  have h: "healthy v1" "healthy v2" using assms(2) by (simp_all add: healthy_def v1_def v2_def)
  have w1: "write_entry b v x (FatGetClusterEof b) = (0, v1)"
    using write_entry_eq [OF assms(1,4), of v] assms(2) by (simp add: healthy_def v1_def)
  have w2: "write_entry b v1 start x = (0, v2)"
    using write_entry_eq [OF assms(1,3), of v1] h(1) by (simp add: healthy_def v2_def)
  have e2: "fat_entry b v2 start = stored b x"
    unfolding v2_def using write_entry_reads [OF assms(1,3,3), of v1 x] h(1) by (simp add: healthy_def)
  define v3 where "v3 = clear_cluster b x v2"
  note k = clear_cluster_keeps [OF x(2), of v2, folded v3_def]
  have "healthy v3" using h(2) k by (simp add: healthy_def)
  moreover have "fat_entry b v3 start = stored b x" using e2 k h(2) by (simp add: fat_entry_eq [OF assms(1,3)] healthy_def)
  moreover have "append_clusters b 1 v start = (0, v3)" using w1 w2 x(1) by (simp add: v3_def)
  ultimately show ?thesis using k by (auto simp: v2_def v1_def)
qed

section \<open>Properties\<close>

text \<open>C17: on a FAT16 or FAT32 volume writing an entry changes one sector, and there only that entry:
  it reads back as the value written (its low 16 bits on FAT16) and every other entry as before.\<close>

theorem write_entry_roundtrip:
  assumes "table_volume b" "in_range_entry b n"
    and "read_status v (ucast (entry_sector b n)) = 0" "write_status v (ucast (entry_sector b n)) = 0"
  shows "\<exists>v'. write_entry b v n x = (0, v') \<and>
    v' = v\<lparr>sectors := (sectors v)(ucast (entry_sector b n) := sectors v' (ucast (entry_sector b n)))\<rparr> \<and>
    fst (FatReadFatEntry b v' n None) = (if FatIsFat32 b then x else ucast (ucast x :: u16)) \<and>
    (\<forall>m. in_range_entry b m \<and> m \<noteq> n \<longrightarrow> fst (FatReadFatEntry b v' m None) = fst (FatReadFatEntry b v m None))"
  using write_entry_eq [OF assms(1,2,3), of x] assms(4) write_entry_reads [OF assms(1,2), of _ v x, OF _ assms(3)] assms(2)
  by (simp add: fat_entry_def stored_def)

text \<open>A FAT32 volume: 512-byte sectors, one sector per cluster, the table in sector 1.\<close>

definition small_volume :: BPB where
  "small_volume = \<lparr>BytesPerSector = 512, SectorsPerCluster = 1, SectorReservedSize = 1, NumberOfFats = 1, RootEntryCount = 0,
     SectorTotSize16 = 0, SectorFatSize16 = 0, SectorTotSize32 = 102, SectorFatSize32 = 1, FirstAccessibleCluster = 2\<rparr>"

text \<open>Its table: cluster 2 is a chain of its own, the clusters from 3 are free.\<close>

definition small_disk :: vfs where
  "small_disk = \<lparr>sectors = (\<lambda>_ _. 0)(1 := set32 0 0xFFFFFF8 (set32 4 0xFFFFFFF (set32 8 0xFFFFFFF (\<lambda>_. 0)))),
     read_status = (\<lambda>_. 0), write_status = (\<lambda>_. 0), CachedFatSector = (\<lambda>_. 0), CachedFatSectorNumber = - 1, fresh = (\<lambda>_. 0)\<rparr>"

lemma small_volume_ok: "table_volume small_volume" "in_range_entry small_volume n \<longleftrightarrow> unat n < 2 ^ 30" "FatIsFat32 small_volume"
  by (simp_all add: table_volume_def small_volume_def FatIsFat12_def FatIsFat32_def in_range_entry_def width_def)

theorem write_entry_roundtrip_witness:
  "\<exists>v'. write_entry small_volume small_disk 3 0xFFFFFFF = (0, v') \<and>
    fst (FatReadFatEntry small_volume v' 3 None) = 0xFFFFFFF"
  using write_entry_roundtrip [of small_volume 3 small_disk "0xFFFFFFF"] small_volume_ok
  by (auto simp: small_disk_def)

text \<open>C18: the end of a chain is looked for through the sector cache, which writing an entry leaves as it
  was. After a cluster has been appended to a chain of one cluster the walk to the end still stops
  at the first cluster, although its entry now names the new one: the next append starts there
  again and the cluster appended before is lost.\<close>

theorem append_forgets_cluster:
  assumes "table_volume b" "healthy v" "in_range_entry b start" "\<not> FatIsClusterEof b start"
    and "FatIsClusterEof b (fat_entry b v start)" "CachedFatSectorNumber v \<noteq> entry_sector b start"
    and "in_range_entry b (FatFindFreeCluster b v)" "FatFindFreeCluster b v \<noteq> start"
    and "\<forall>j<unat (SectorsPerCluster b). cluster_sector b (FatFindFreeCluster b v) j \<noteq> ucast (entry_sector b start)"
  shows "\<exists>v'. FatIncreaseClusterChainLengthBy b v start 1 = Done (0, v') \<and>
    fst (FatReadFatEntry b v' start None) = stored b (FatFindFreeCluster b v) \<and>
    FatFollowClusterChainToEnd b v' start = Done (start, v')"
proof -
  obtain c where f: "FatFollowClusterChain b v start = (entry_in b (fst c) start, with_cache c v)"
    and c: "snd c = entry_sector b start" and e: "entry_in b (fst c) start = fat_entry b v start"
    using follow_chain [OF assms(1,3,2)] assms(6) by auto
  have te: "FatFollowClusterChainToEnd b v start = Done (start, with_cache c v)"
    by (rule chain_end_single [OF assms(4) f]) (simp add: e assms(5))
  have hc: "healthy (with_cache c v)" using assms(2) by (simp add: healthy_def)
  obtain v' where v': "append_clusters b 1 (with_cache c v) start = (0, v')" "healthy v'"
    "fat_entry b v' start = stored b (FatFindFreeCluster b v)" "CachedFatSector v' = fst c" "CachedFatSectorNumber v' = snd c"
    using append_one [OF assms(1) hc assms(3,7,8) FatFindFreeCluster_cache assms(9)] by auto
  have "FatFollowClusterChain b v' start = (entry_in b (fst c) start, v')"
    using assms(1,3) v'(4,5) c
    by (simp add: FatFollowClusterChain_def FatRead_table read_entry Let_def)
  then have "FatFollowClusterChainToEnd b v' start = Done (start, v')"
    by (rule chain_end_single [OF assms(4)]) (simp add: e assms(5))
  then show ?thesis
    using te v' by (simp add: FatIncreaseClusterChainLengthBy_def fat_entry_def)
qed

lemma small_entry:
  assumes "unat n < 128"
  shows "entry_sector small_volume n = 1" "in_range_entry small_volume n"
    "fat_entry small_volume small_disk n = (if n = 0 then 0xFFFFFF8 else if n = 1 \<or> n = 2 then 0xFFFFFFF else 0)"
proof -
  show i: "in_range_entry small_volume n" using assms by (simp add: small_volume_ok)
  show e: "entry_sector small_volume n = 1"
    using assms by (simp add: entry_sector_def width_def small_volume_ok FatLocateMainFat_def)
      (simp add: small_volume_def)
  have o: "entry_offset small_volume n = 4 * unat n"
    using assms by (simp add: entry_offset_def width_def small_volume_ok)
  have "fat_entry small_volume small_disk n =
      get32 (set32 0 0xFFFFFF8 (set32 4 0xFFFFFFF (set32 8 0xFFFFFFF (\<lambda>_. 0)))) (4 * unat n)"
    unfolding fat_entry_eq [OF small_volume_ok(1) i] e
    by (simp add: entry_in_def small_volume_ok o) (simp add: small_disk_def)
  also have "\<dots> = (if n = 0 then 0xFFFFFF8 else if n = 1 \<or> n = 2 then 0xFFFFFFF else 0)"
  proof -
    have "n = 0 \<or> n = 1 \<or> n = 2 \<or> 3 \<le> unat n" by (simp add: word_unat_eq_iff) arith
    moreover have "get32 (\<lambda>_. 0) k = 0" for k by (simp add: get32_def get16_def)
    ultimately show ?thesis by (auto simp: get32_set32_other)
  qed
  finally show "fat_entry small_volume small_disk n = (if n = 0 then 0xFFFFFF8 else if n = 1 \<or> n = 2 then 0xFFFFFFF else 0)" .
qed

text \<open>On a healthy volume the cache of a scan never matters when it holds the table sector it names.\<close>

definition faithful :: "vfs \<Rightarrow> cache \<Rightarrow> bool" where
  "faithful v c = (snd c = 0 \<or> (\<forall>i<512. fst c i = sectors v (ucast (snd c)) i))"

lemma FatIsFree_eq:
  assumes "table_volume b" "in_range_entry b n" "healthy v" "faithful v c"
  shows "\<exists>c'. FatIsFree n b v c = (fat_entry b v n = 0, c') \<and> faithful v c'"
proof -
  have nz: "entry_sector b n \<noteq> 0" by (rule entry_sector_nonzero [OF assms(1,2)])
  have e: "entry_in b (fst c) n = entry_in b (sectors v (ucast (entry_sector b n))) n" if "snd c = entry_sector b n"
    by (rule entry_in_agree) (use assms(4) that nz in \<open>simp add: faithful_def\<close>)
  show ?thesis
    using assms(3,4) e
    by (auto simp: FatIsFree_def FatRead_table assms(1) read_entry assms(2) Let_def fat_entry_eq healthy_def faithful_def)
qed

lemma find_free_first:
  assumes "table_volume b" "healthy v" "faithful v c" "\<forall>i\<in>set (is @ [k]). in_range_entry b (word_of_nat i)"
    and "\<forall>i\<in>set is. fat_entry b v (word_of_nat i) \<noteq> 0" "fat_entry b v (word_of_nat k) = 0"
  shows "find_free_loop b v (is @ k # ks) c = word_of_nat k"
  using assms(3-5)
proof (induction "is" arbitrary: c)
  case Nil
  then show ?case using FatIsFree_eq [OF assms(1) _ assms(2), of "word_of_nat k" c] assms(6) by auto
next
  case (Cons i "is")
  then obtain c' where "FatIsFree (word_of_nat i) b v c = (False, c')" "faithful v c'"
    using FatIsFree_eq [OF assms(1) _ assms(2), of "word_of_nat i" c] by auto
  then show ?case using Cons by simp
qed

theorem append_forgets_cluster_witness:
  "\<exists>v'. FatIncreaseClusterChainLengthBy small_volume small_disk 2 1 = Done (0, v') \<and>
    fst (FatReadFatEntry small_volume v' 2 None) = 3 \<and> FatFollowClusterChainToEnd small_volume v' 2 = Done (2, v')"
proof -
  have h: "healthy small_disk" by (simp add: healthy_def small_disk_def)
  have "FatCalculateFatClusterCount small_volume = 100"
    by (simp add: FatCalculateFatClusterCount_def FatVolumeTotalSize_def FatCalculateFirstClusterPosition_def
        FatFileAllocationTableSize_def small_volume_def)
  moreover have "[1..<102] = [1, 2] @ 3 # [4..<102]" by (simp add: upt_conv_Cons)
  moreover have "find_free_loop small_volume small_disk ([1, 2] @ 3 # [4..<102]) (fresh small_disk, 0) = word_of_nat 3"
    by (rule find_free_first [OF small_volume_ok(1) h]) (simp_all add: faithful_def small_entry)
  ultimately have f: "FatFindFreeCluster small_volume small_disk = 3" by (simp add: FatFindFreeCluster_def)
  have eof: "FatIsClusterEof small_volume c \<longleftrightarrow> c \<ge> 0xFFFFFF8" for c
    by (simp add: FatIsClusterEof_def FatGetClusterEof_def small_volume_ok)
  have "cluster_sector small_volume 3 j \<noteq> ucast (entry_sector small_volume 2)" if "j < unat (SectorsPerCluster small_volume)" for j
    using that by (simp add: small_entry cluster_sector_def first_sector_of_cluster_def FatCalculateFirstClusterPosition_def
        FatFileAllocationTableSize_def) (simp add: small_volume_def)
  then show ?thesis
    using append_forgets_cluster [OF small_volume_ok(1) h, of 2] f
    by (simp add: small_entry eof stored_def small_volume_ok) (simp add: small_disk_def)
qed

end
