(* ===== verification/FatFile.thy ===== *)
theory FatFile
  imports Fat
begin

text \<open>
  The FAT driver, second part: directory entries and their names, the search of a path, reading and
  writing files, changing and deleting entries (NNXOSKRN/drivers/builtin/fs/fat.c). A directory
  entry is its 32 bytes. NULL for a file is None and stands for the root directory.
\<close>

section \<open>Directory entries\<close>

type_synonym direntry = bytes

definition file_attributes :: "direntry \<Rightarrow> u8" where "file_attributes e = e 11"

definition high_cluster :: "direntry \<Rightarrow> u16" where "high_cluster e = get16 e 20"

definition low_cluster :: "direntry \<Rightarrow> u16" where "low_cluster e = get16 e 26"

definition file_size :: "direntry \<Rightarrow> u32" where "file_size e = get32 e 28"

definition set_cluster :: "u32 \<Rightarrow> direntry \<Rightarrow> direntry" where
  "set_cluster c e = set16 20 (ucast (drop_bit 16 (and c 0xFFFF0000))) (set16 26 (ucast (and c 0xFFFF)) e)"

definition entry_at :: "bytes \<Rightarrow> nat \<Rightarrow> direntry" where "entry_at buf k = (\<lambda>i. buf (32 * k + i))"

definition put_entry_at :: "nat \<Rightarrow> direntry \<Rightarrow> bytes \<Rightarrow> bytes" where
  "put_entry_at k e buf = (\<lambda>i. if 32 * k \<le> i \<and> i < 32 * k + 32 then e (i - 32 * k) else buf i)"

abbreviation (input) FAT_FILE_DELETED :: u8 where "FAT_FILE_DELETED \<equiv> 0xE5"
abbreviation (input) FAT_VOLUME_ID :: u8 where "FAT_VOLUME_ID \<equiv> 8"
abbreviation (input) FAT_DIRECTORY :: u8 where "FAT_DIRECTORY \<equiv> 16"

definition entries_per_sector :: "BPB \<Rightarrow> nat" where "entries_per_sector b = unat (bps b) div 32"

text \<open>The last character that is not a space.\<close>

primrec trim_end :: "(nat \<Rightarrow> u8) \<Rightarrow> nat \<Rightarrow> nat" where
  "trim_end f 0 = 0"
| "trim_end f (Suc k) = (if f k \<noteq> 0x20 then Suc k else trim_end f k)"

definition FatCopyNameFromEntry :: "direntry \<Rightarrow> bytes \<Rightarrow> bytes \<times> nat \<times> nat" where
  "FatCopyNameFromEntry e dst =
     (let endName = trim_end e 8; endExt = trim_end (\<lambda>i. e (8 + i)) 3
      in ((\<lambda>i. if i < endName then e i else dst i), endName, endExt))"

definition entry_name :: "direntry \<Rightarrow> cstr" where
  "entry_name e =
     (let (n, endName, endExt) = FatCopyNameFromEntry e (\<lambda>_. 0)
      in if endExt = 0 then n
         else (\<lambda>i. if i = endName then 0x2E
                   else if endName < i \<and> i < endName + 1 + endExt then e (8 + (i - endName - 1)) else n i))"

partial_function (option) compare_name_loop :: "cstr \<Rightarrow> cstr \<Rightarrow> nat \<Rightarrow> bool option" where
  "compare_name_loop filename entryName i =
     (if filename i = 0 then Some True
      else if ToUppercase (filename i) \<noteq> ToUppercase (entryName i) then Some False
      else compare_name_loop filename entryName (Suc i))"

definition FatCompareName :: "direntry \<Rightarrow> cstr \<Rightarrow> bool" where
  "FatCompareName e filename = (case compare_name_loop filename (entry_name e) 0 of Some r \<Rightarrow> r | None \<Rightarrow> False)"

definition FatIsFileOrDir :: "direntry \<Rightarrow> bool" where
  "FatIsFileOrDir e = (e 0 \<noteq> 0 \<and> e 0 \<noteq> FAT_FILE_DELETED \<and> and (file_attributes e) FAT_VOLUME_ID = 0)"

definition FatSearchForFileInDirectory :: "bytes \<Rightarrow> BPB \<Rightarrow> cstr \<Rightarrow> VFS_STATUS + direntry" where
  "FatSearchForFileInDirectory sectorData b name =
     (case List.find (\<lambda>k. FatIsFileOrDir (entry_at sectorData k) \<and> FatCompareName (entry_at sectorData k) name)
             [0..<entries_per_sector b] of
        Some k \<Rightarrow> Inr (entry_at sectorData k)
      | None \<Rightarrow> Inl VFS_ERR_FILE_NOT_FOUND)"

definition FatGetFirstClusterOfFile :: "BPB \<Rightarrow> direntry option \<Rightarrow> u32" where
  "FatGetFirstClusterOfFile b f =
     (case f of
        None \<Rightarrow> 0xFFFFFFFF
      | Some e \<Rightarrow> or (ucast (low_cluster e)) (if FatIsFat32 b then push_bit 16 (ucast (high_cluster e)) else 0))"

text \<open>Copying the first part of a path into the 13 bytes of filenameCopy, which start unknown.\<close>

definition FatCopyFirstFilenameFromPath :: "cstr \<Rightarrow> bytes \<Rightarrow> VFS_STATUS \<times> bytes" where
  "FatCopyFirstFilenameFromPath path filenameCopy =
     (let slash = FindFirstSlash path; len = str_length path in
      if slash = - 1 \<and> len \<le> 12
      then (0, \<lambda>i. if i < unat len then path i else if i = unat len then 0 else filenameCopy i)
      else if slash > 12 then (VFS_ERR_INVALID_PATH, filenameCopy)
      else
        let slash = (if path (unat (slash + 1)) = 0 then 0 else slash);
            copy = (if slash = 0 then filenameCopy
                    else (\<lambda>i. if i < unat slash then path i else if i = unat slash then 0 else filenameCopy i));
            endI = (case List.find (\<lambda>i. copy i = 0x2E) (rev [0..<13]) of Some i \<Rightarrow> i | None \<Rightarrow> 0)
        in if endI > 9 \<or> (endI = 0 \<and> slash > 8) then (VFS_ERR_INVALID_FILENAME, copy) else (0, copy))"

definition FatWriteDirectoryEntryToSectors :: "bytes \<Rightarrow> BPB \<Rightarrow> cstr \<Rightarrow> direntry \<Rightarrow> bool \<times> bytes" where
  "FatWriteDirectoryEntryToSectors sectorData b filename fileDir =
     (case List.find (\<lambda>k. entry_at sectorData k 0 = 0 \<or> FatCompareName (entry_at sectorData k) filename)
             [0..<entries_per_sector b] of
        Some k \<Rightarrow> (True, put_entry_at k fileDir sectorData)
      | None \<Rightarrow> (False, sectorData))"

section \<open>Finding a path\<close>

text \<open>The root directory of a FAT12 or FAT16 volume: the status of the reads is not looked at, so a
  sector that cannot be read is searched with what the buffer held.\<close>

definition root_dir_start :: "BPB \<Rightarrow> u32" where
  "root_dir_start b = ucast (SectorReservedSize b) + ucast (NumberOfFats b) * FatFileAllocationTableSize b"

definition root_dir_sectors :: "BPB \<Rightarrow> u32" where
  "root_dir_sectors b = (ucast (RootEntryCount b) * 32 + (bps b - 1)) div bps b"

primrec root_search :: "BPB \<Rightarrow> vfs \<Rightarrow> cstr \<Rightarrow> nat list \<Rightarrow> bytes \<Rightarrow> direntry option" where
  "root_search b v name [] buf = None"
| "root_search b v name (i # is) buf =
     (let buf = snd (VfsReadSector v (ucast (root_dir_start b) + word_of_nat i) 0 buf)
      in case FatSearchForFileInDirectory buf b name of Inr e \<Rightarrow> Some e | Inl _ \<Rightarrow> root_search b v name is buf)"

primrec cluster_search :: "BPB \<Rightarrow> vfs \<Rightarrow> cstr \<Rightarrow> u32 \<Rightarrow> nat list \<Rightarrow> bytes \<Rightarrow> (VFS_STATUS + direntry) option \<times> bytes" where
  "cluster_search b v name cluster [] buf = (None, buf)"
| "cluster_search b v name cluster (i # is) buf =
     (let (st, buf) = FatReadSectorOfCluster b v cluster (word_of_nat i) 0 buf
      in if st \<noteq> 0 then (Some (Inl st), buf)
         else case FatSearchForFileInDirectory buf b name of
                Inr e \<Rightarrow> (Some (Inr e), buf)
              | Inl _ \<Rightarrow> cluster_search b v name cluster is buf)"

partial_function (option) chain_search :: "BPB \<Rightarrow> vfs \<Rightarrow> cstr \<Rightarrow> u32 \<Rightarrow> bytes \<Rightarrow> ((VFS_STATUS + direntry) \<times> vfs) option" where
  "chain_search b v name cluster buf =
     (if FatIsClusterEof b cluster then Some (Inl VFS_ERR_FILE_NOT_FOUND, v)
      else
        case cluster_search b v name cluster [0..<unat (SectorsPerCluster b)] buf of
          (Some r, _) \<Rightarrow> Some (r, v)
        | (None, buf) \<Rightarrow>
            chain_search b (snd (FatFollowClusterChain b v cluster)) name (fst (FatFollowClusterChain b v cluster)) buf)"

definition skip_slashes :: "cstr \<Rightarrow> cstr" where
  "skip_slashes path =
     (\<lambda>i. path (length (takeWhile (\<lambda>i. path i = BACKSLASH \<or> path i = SLASH) [0..<unat (str_length path)]) + i))"

partial_function (option) find_path :: "BPB \<Rightarrow> vfs \<Rightarrow> u32 \<Rightarrow> cstr \<Rightarrow> ((VFS_STATUS + direntry) \<times> vfs) option" where
  "find_path b v parent path =
     (let path = skip_slashes path; slash = FindFirstSlash path;
          (status, name) = FatCopyFirstFilenameFromPath path (fresh v)
      in if status \<noteq> 0 then Some (Inl status, v)
         else if \<not> FatIsFat32 b \<and> (parent = 0 \<or> parent = 0xFFFFFFFF)
         then
           (case root_search b v name [0..<unat (root_dir_sectors b)] (fresh v) of
              None \<Rightarrow> Some (Inl VFS_ERR_FILE_NOT_FOUND, v)
            | Some e \<Rightarrow>
                if slash = - 1 then Some (Inr e, v)
                else if and (file_attributes e) FAT_DIRECTORY = 0 then Some (Inl VFS_ERR_NOT_A_DIRECTORY, v)
                else find_path b v (ucast (low_cluster e)) (shift path (slash + 1)))
         else
           Option.bind (chain_search b v name (if parent = 0xFFFFFFFF then FatGetRootCluster b else parent) (fresh v)) (\<lambda>(r, v).
             case r of
               Inl status \<Rightarrow> Some (Inl status, v)
             | Inr e \<Rightarrow>
                 if slash = - 1 then Some (Inr e, v)
                 else if and (file_attributes e) FAT_DIRECTORY = 0 then Some (Inl VFS_ERR_NOT_A_DIRECTORY, v)
                 else find_path b v (FatGetFirstClusterOfFile b (Some e)) (shift path (slash + 1))))"

definition FatReccursivlyFindDirectoryEntry :: "BPB \<Rightarrow> vfs \<Rightarrow> u32 \<Rightarrow> cstr \<Rightarrow> ((VFS_STATUS + direntry) \<times> vfs) outcome" where
  "FatReccursivlyFindDirectoryEntry b v parent path = (case find_path b v parent path of None \<Rightarrow> Hang | Some r \<Rightarrow> Done r)"

section \<open>Sectors of files\<close>

text \<open>Reading sector offsetSector of a file to offset off of the output.\<close>

definition FatReadSectorFromFile ::
  "BPB \<Rightarrow> vfs \<Rightarrow> direntry option \<Rightarrow> u32 \<Rightarrow> nat \<Rightarrow> bytes \<Rightarrow> VFS_STATUS \<times> bytes \<times> vfs" where
  "FatReadSectorFromFile b v file offsetSector off output =
     (if file = None \<and> \<not> FatIsFat32 b
      then let (st, output) = VfsReadSector v (ucast offsetSector + ucast (SectorReservedSize b) +
                 ucast (NumberOfFats b) * ucast (FatFileAllocationTableSize b)) off output
           in (st, output, v)
      else
        let curCluster = (if file = None then FatGetRootCluster b else FatGetFirstClusterOfFile b file);
            (curCluster, v) = FatFollowClusterChainToAPoint b v curCluster (offsetSector div ucast (SectorsPerCluster b));
            (st, buffer) = FatReadSectorOfCluster b v curCluster (offsetSector mod ucast (SectorsPerCluster b)) 0 (\<lambda>_. 0)
        in if st \<noteq> 0 then (st, output, v)
           else (0, (\<lambda>i. if off \<le> i \<and> i < off + unat (bps b) then buffer (i - off) else output i), v))"

text \<open>The sectors of one cluster: True when the last sector was passed. A failed write is only
  reported on the screen.\<close>

primrec write_cluster :: "BPB \<Rightarrow> u32 \<Rightarrow> u32 \<Rightarrow> u32 \<Rightarrow> u32 \<Rightarrow> bytes \<Rightarrow> nat list \<Rightarrow> nat \<Rightarrow> vfs \<Rightarrow> bool \<times> nat \<times> vfs" where
  "write_cluster b cluster clusterIndex firstSector lastSector input [] inputOffset v = (False, inputOffset, v)"
| "write_cluster b cluster clusterIndex firstSector lastSector input (i # is) inputOffset v =
     (let s = word_of_nat i + clusterIndex * ucast (SectorsPerCluster b) in
      if s > lastSector then (True, inputOffset, v)
      else if s \<ge> firstSector
      then write_cluster b cluster clusterIndex firstSector lastSector input is (inputOffset + unat (bps b))
             (snd (FatWriteSectorOfCluster b v cluster (word_of_nat i) inputOffset input))
      else write_cluster b cluster clusterIndex firstSector lastSector input is inputOffset v)"

partial_function (option) write_chain ::
  "BPB \<Rightarrow> u32 \<Rightarrow> u32 \<Rightarrow> u32 \<Rightarrow> u32 \<Rightarrow> u32 \<Rightarrow> bytes \<Rightarrow> nat \<Rightarrow> vfs \<Rightarrow> (VFS_STATUS \<times> vfs) option" where
  "write_chain b cluster clusterIndex lastCluster firstSector lastSector input inputOffset v =
     (if clusterIndex > lastCluster then Some (0, v)
      else if FatIsClusterEof b cluster then Some (VFS_ERR_EOF, v)
      else
        case write_cluster b cluster clusterIndex firstSector lastSector input [0..<unat (SectorsPerCluster b)] inputOffset v of
          (stop, inputOffset, v) \<Rightarrow>
            if stop then Some (0, v)
            else write_chain b (fst (FatFollowClusterChain b v cluster)) (clusterIndex + 1) lastCluster firstSector lastSector
                   input inputOffset (snd (FatFollowClusterChain b v cluster)))"

primrec write_root :: "nat \<Rightarrow> u64 \<Rightarrow> nat \<Rightarrow> bytes \<Rightarrow> vfs \<Rightarrow> VFS_STATUS \<times> vfs" where
  "write_root 0 sector off input v = (0, v)"
| "write_root (Suc k) sector off input v =
     (let (st, v) = VfsWriteSector v sector off input in if st \<noteq> 0 then (st, v) else write_root k sector off input v)"

definition FatWriteSectorsToFile ::
  "BPB \<Rightarrow> vfs \<Rightarrow> direntry option \<Rightarrow> u32 \<Rightarrow> nat \<Rightarrow> bytes \<Rightarrow> u32 \<Rightarrow> (VFS_STATUS \<times> vfs) outcome" where
  "FatWriteSectorsToFile b v file index off input sectorsCount =
     (if file = None \<and> \<not> FatIsFat32 b
      then Done (write_root (unat sectorsCount) (ucast index + ucast (SectorReservedSize b) +
             ucast (NumberOfFats b) * ucast (FatFileAllocationTableSize b)) off input v)
      else
        let lastSector = index + sectorsCount - 1;
            firstCluster = index div ucast (SectorsPerCluster b);
            lastCluster = lastSector div ucast (SectorsPerCluster b);
            cluster = (if file = None then FatGetRootCluster b else FatGetFirstClusterOfFile b file);
            (cluster, v) = FatFollowClusterChainToAPoint b v cluster firstCluster
        in case write_chain b cluster firstCluster lastCluster index lastSector input off v of
             None \<Rightarrow> Hang | Some r \<Rightarrow> Done r)"

section \<open>Reading and writing bytes\<close>

text \<open>The loops run over the sectors from the first to the last. Input and output are the buffers of
  the caller; the count of bytes goes on while sectors are passed.\<close>

primrec copy_in :: "nat list \<Rightarrow> nat \<Rightarrow> bytes \<Rightarrow> u32 \<Rightarrow> bytes \<Rightarrow> u32 \<times> bytes" where
  "copy_in [] lower input written temp = (written, temp)"
| "copy_in (j # js) lower input written temp =
     copy_in js lower input (written + 1) (temp(j + lower := input (unat written)))"

primrec write_loop ::
  "BPB \<Rightarrow> direntry option \<Rightarrow> u32 \<Rightarrow> u32 \<Rightarrow> u32 \<Rightarrow> u32 \<Rightarrow> bytes \<Rightarrow> nat list \<Rightarrow> u32 \<Rightarrow> bytes \<Rightarrow> vfs \<Rightarrow>
    (VFS_STATUS \<times> u32 \<times> vfs) outcome" where
  "write_loop b file startSector endSector sectorOffset lastSectorEndOffset input [] written temp v = Done (0, written, v)"
| "write_loop b file startSector endSector sectorOffset lastSectorEndOffset input (k # ks) written temp v =
     (let i = word_of_nat k in
      if i = endSector \<or> (i = startSector \<and> sectorOffset \<noteq> 0)
      then
        let (_, temp, v) = FatReadSectorFromFile b v file i 0 temp;
            lowerBound = (if i = startSector then sectorOffset else 0);
            upperBound = (if i = endSector then lastSectorEndOffset + 1 else bps b);
            (written, temp) = copy_in [0..<unat (upperBound - lowerBound)] (unat lowerBound) input written temp
        in obind (FatWriteSectorsToFile b v file i 0 temp 1) (\<lambda>(status, v).
             if status \<noteq> 0 then Done (status, written, v)
             else write_loop b file startSector endSector sectorOffset lastSectorEndOffset input ks written temp v)
      else
        obind (FatWriteSectorsToFile b v file i (unat written) input 1) (\<lambda>(status, v).
          if status \<noteq> 0 then Done (status, written + 512, v)
          else write_loop b file startSector endSector sectorOffset lastSectorEndOffset input ks (written + 512) temp v))"

definition FatWriteFile ::
  "BPB \<Rightarrow> vfs \<Rightarrow> direntry option \<Rightarrow> u64 \<Rightarrow> u64 \<Rightarrow> bytes \<Rightarrow> (VFS_STATUS \<times> u32 \<times> vfs) outcome" where
  "FatWriteFile b v file offset sz input =
     (if file = None then Done (VFS_ERR_FILE_NOT_FOUND, 0, v)
      else
        let bs = ucast (BytesPerSector b) :: u64;
            startSector = ucast (offset div bs);
            endSector = ucast (offset + sz - 1) div bps b;
            sectorOffset = ucast (offset mod bs);
            lastSectorEndOffset = ucast ((offset + sz - 1) mod bs);
            lastSectorEndOffset = (if lastSectorEndOffset = 0 then bps b - 1 else lastSectorEndOffset)
        in write_loop b file startSector endSector sectorOffset lastSectorEndOffset input
             [unat startSector..<unat endSector + 1] 0 (fresh v) v)"

primrec copy_out :: "nat list \<Rightarrow> bytes \<Rightarrow> u32 \<Rightarrow> bytes \<Rightarrow> u32 \<times> bytes" where
  "copy_out [] buffer readBytes output = (readBytes, output)"
| "copy_out (j # js) buffer readBytes output = copy_out js buffer (readBytes + 1) (output(unat readBytes := buffer j))"

primrec read_loop ::
  "BPB \<Rightarrow> direntry option \<Rightarrow> u32 \<Rightarrow> u32 \<Rightarrow> u32 \<Rightarrow> u32 \<Rightarrow> nat list \<Rightarrow> u32 \<Rightarrow> bytes \<Rightarrow> bytes \<Rightarrow> vfs \<Rightarrow>
    VFS_STATUS \<times> u32 \<times> bytes \<times> vfs" where
  "read_loop b file offset sz startSector endSector [] readBytes buffer output v = (0, readBytes, output, v)"
| "read_loop b file offset sz startSector endSector (k # ks) readBytes buffer output v =
     (let i = word_of_nat k;
          lowReadLimit = (if i = startSector then offset mod bps b else 0);
          highReadLimit = (if i = endSector then (if (offset + sz) mod bps b = 0 then bps b else (offset + sz) mod bps b) else bps b)
      in if lowReadLimit \<noteq> 0 \<or> highReadLimit \<noteq> bps b
         then
           let (status, buffer, v) = FatReadSectorFromFile b v file i 0 buffer in
           if status \<noteq> 0 then (status, readBytes, output, v)
           else let (readBytes, output) = copy_out [unat lowReadLimit..<unat highReadLimit] buffer readBytes output
                in read_loop b file offset sz startSector endSector ks readBytes buffer output v
         else
           let (status, output, v) = FatReadSectorFromFile b v file i (unat readBytes) output in
           if status \<noteq> 0 then (status, readBytes, output, v)
           else read_loop b file offset sz startSector endSector ks (readBytes + 512) buffer output v)"

definition FatReadFile ::
  "BPB \<Rightarrow> vfs \<Rightarrow> direntry option \<Rightarrow> u32 \<Rightarrow> u32 \<Rightarrow> bytes \<Rightarrow> VFS_STATUS \<times> u32 option \<times> bytes \<times> vfs" where
  "FatReadFile b v file offset sz output =
     (if sz = 0 then (0, None, output, v)
      else
        let startSector = offset div bps b; endSector = (offset + sz - 1) div bps b;
            (status, readBytes, output, v) =
              read_loop b file offset sz startSector endSector [unat startSector..<unat endSector + 1] 0 (\<lambda>_. 0) output v
        in (status, Some readBytes, output, v))"

section \<open>Changing directories\<close>

text \<open>The size FatChangeDirectoryEntry stores in the caller's copy of the parent entry is never read
  again and left out.\<close>

definition FatCompareEntries :: "direntry \<Rightarrow> direntry \<Rightarrow> bool" where
  "FatCompareEntries e1 e2 = list_all (\<lambda>i. (i < 3 \<longrightarrow> e1 (8 + i) = e2 (8 + i)) \<and> e1 i = e2 i) [0..<8]"

definition replaceable :: "direntry \<Rightarrow> direntry \<Rightarrow> bool" where
  "replaceable fileEntry currentEntry =
     ((fileEntry 0 = FAT_FILE_DELETED \<or> fileEntry 0 = 0) \<and> (currentEntry 0 = FAT_FILE_DELETED \<or> currentEntry 0 = 0) \<or>
      FatCompareEntries fileEntry currentEntry)"

partial_function (option) change_loop ::
  "BPB \<Rightarrow> direntry option \<Rightarrow> direntry \<Rightarrow> direntry \<Rightarrow> u32 \<Rightarrow> bytes \<Rightarrow> vfs \<Rightarrow> (VFS_STATUS \<times> vfs) outcome option" where
  "change_loop b parent fileEntry desired offset buffer v =
     (case FatReadSectorFromFile b v parent offset 0 buffer of
        (status, buffer, v) \<Rightarrow>
          if status \<noteq> 0 then Some (Done (status, v))
          else
            case List.find (\<lambda>k. replaceable fileEntry (entry_at buffer k)) [0..<entries_per_sector b] of
              Some k \<Rightarrow> Some (FatWriteSectorsToFile b v parent offset 0 (put_entry_at k desired buffer) 1)
            | None \<Rightarrow> change_loop b parent fileEntry desired (offset + 1) buffer v)"

definition FatChangeDirectoryEntry ::
  "BPB \<Rightarrow> vfs \<Rightarrow> direntry option \<Rightarrow> direntry \<Rightarrow> direntry \<Rightarrow> (VFS_STATUS \<times> vfs) outcome" where
  "FatChangeDirectoryEntry b v parent fileEntry desired =
     (if FatGetFirstClusterOfFile b parent = 0 then Done (VFS_ERR_EOF, v)
      else run_loop (change_loop b parent fileEntry desired 0 (fresh v) v))"

definition FatAddDirectoryEntry :: "BPB \<Rightarrow> vfs \<Rightarrow> direntry option \<Rightarrow> direntry \<Rightarrow> (VFS_STATUS \<times> vfs) outcome" where
  "FatAddDirectoryEntry b v parent fileEntry = FatChangeDirectoryEntry b v parent (\<lambda>_. 0) fileEntry"

section \<open>Resizing and deleting\<close>

text \<open>The step of FatResizeFile that changes the chain: it yields the new entry of the file.\<close>

definition resize_chain :: "BPB \<Rightarrow> vfs \<Rightarrow> direntry \<Rightarrow> u32 \<Rightarrow> u32 \<Rightarrow> (VFS_STATUS \<times> direntry \<times> vfs) outcome" where
  "resize_chain b v file oldSizeCluster newSizeCluster =
     (let cluster = FatGetFirstClusterOfFile b (Some file); change = uint newSizeCluster - uint oldSizeCluster in
      if change > 0
      then
        let fc = (if oldSizeCluster = 0 \<and> cluster = 0 then FatFindFreeCluster b v else cluster);
            (status, v) = (if oldSizeCluster = 0 \<and> cluster = 0 then write_entry b v fc (FatGetClusterEof b) else (0, v));
            file' = (if oldSizeCluster = 0 \<and> cluster = 0 then set_cluster fc file else file);
            change = (if oldSizeCluster = 0 \<and> cluster = 0 then change - 1 else change)
        in if status \<noteq> 0 then Done (status, file, v)
           else if change > 0
           then obind (FatIncreaseClusterChainLengthBy b v fc (word_of_int change)) (\<lambda>(status, v). Done (status, file', v))
           else Done (0, file', v)
      else if change < 0
      then
        obind (FatDecreaseClusterChainLengthTo b v cluster newSizeCluster) (\<lambda>(status, v).
          if status \<noteq> 0 then Done (status, file, v)
          else if newSizeCluster = 0
          then let (status, v) = write_entry b v cluster 0
               in Done (status, if status \<noteq> 0 then file else set_cluster 0 file, v)
          else Done (0, file, v))
      else Done (0, file, v))"

definition FatResizeFile :: "BPB \<Rightarrow> vfs \<Rightarrow> direntry option \<Rightarrow> cstr \<Rightarrow> u64 \<Rightarrow> (VFS_STATUS \<times> vfs) outcome" where
  "FatResizeFile b v parentFile filename newSize =
     obind (FatReccursivlyFindDirectoryEntry b v (FatGetFirstClusterOfFile b parentFile) filename) (\<lambda>(r, v).
       case r of
         Inl status \<Rightarrow> Done (status, v)
       | Inr file \<Rightarrow>
           let clusterSize = bps b * ucast (SectorsPerCluster b);
               oldSizeCluster = (file_size file + clusterSize - 1) div clusterSize;
               newSizeCluster = (ucast newSize + clusterSize - 1) div clusterSize
           in if FatIsClusterEof b (FatGetFirstClusterOfFile b (Some file)) then Done (VFS_ERR_EOF, v)
              else
                obind (resize_chain b v file oldSizeCluster newSizeCluster) (\<lambda>(status, file', v).
                  if status \<noteq> 0 then Done (status, v)
                  else FatChangeDirectoryEntry b v parentFile file (set32 28 (ucast newSize) file')))"

definition FatDeleteFileEntry :: "BPB \<Rightarrow> vfs \<Rightarrow> direntry option \<Rightarrow> cstr \<Rightarrow> (VFS_STATUS \<times> vfs) outcome" where
  "FatDeleteFileEntry b v parentDirectory filename =
     obind (FatReccursivlyFindDirectoryEntry b v (FatGetFirstClusterOfFile b parentDirectory) filename) (\<lambda>(r, v).
       case r of
         Inl status \<Rightarrow> Done (status, v)
       | Inr e \<Rightarrow> FatChangeDirectoryEntry b v parentDirectory e (e(0 := FAT_FILE_DELETED)))"

text \<open>The name of an entry as FatDeleteDirectoryEntry writes it: up to the first space.\<close>

definition deleted_name :: "direntry \<Rightarrow> cstr" where
  "deleted_name e =
     (let n = FindCharacterFirst e 8 0x20; filenameLength = (if n = - 1 then 8 else unat n);
          x = FindCharacterFirst (\<lambda>i. e (8 + i)) 3 0x20; extensionLength = (if x = - 1 then 3 else unat x)
      in (\<lambda>i. if i < filenameLength then e i
              else if extensionLength = 0 then 0
              else if i = filenameLength then 0x2E
              else if i < filenameLength + 1 + extensionLength then e (8 + (i - filenameLength - 1)) else 0))"

definition dot_entry :: "direntry" where
  "dot_entry = (\<lambda>i. if i = 0 then 0x2E else if i < 11 then 0x20 else 0)"

definition dotdot_entry :: "direntry" where
  "dotdot_entry = (\<lambda>i. if i < 2 then 0x2E else if i < 11 then 0x20 else 0)"

text \<open>The walk through a directory that is deleted: rec deletes one child. The calls nest as deep as
  the directories do; their depth is bounded as the kernel stack bounds it.\<close>

primrec delete_entries :: "(direntry \<Rightarrow> vfs \<Rightarrow> (VFS_STATUS \<times> vfs) outcome) \<Rightarrow> bytes \<Rightarrow> nat list \<Rightarrow> vfs \<Rightarrow> vfs outcome" where
  "delete_entries rec buf [] v = Done v"
| "delete_entries rec buf (k # ks) v =
     (if entry_at buf k 0 \<noteq> 0 \<and> entry_at buf k 0 \<noteq> FAT_FILE_DELETED
      then obind (rec (entry_at buf k) v) (\<lambda>(_, v). delete_entries rec buf ks v)
      else delete_entries rec buf ks v)"

primrec delete_sectors ::
  "(direntry \<Rightarrow> vfs \<Rightarrow> (VFS_STATUS \<times> vfs) outcome) \<Rightarrow> BPB \<Rightarrow> u32 \<Rightarrow> nat list \<Rightarrow> bytes \<Rightarrow> vfs \<Rightarrow> (bytes \<times> vfs) outcome" where
  "delete_sectors rec b cluster [] buf v = Done (buf, v)"
| "delete_sectors rec b cluster (i # is) buf v =
     (let buf = snd (FatReadSectorOfCluster b v cluster (word_of_nat i) 0 buf)
      in obind (delete_entries rec buf [0..<entries_per_sector b] v) (\<lambda>v. delete_sectors rec b cluster is buf v))"

partial_function (option) delete_chain ::
  "(direntry \<Rightarrow> vfs \<Rightarrow> (VFS_STATUS \<times> vfs) outcome) \<Rightarrow> BPB \<Rightarrow> u32 \<Rightarrow> bytes \<Rightarrow> vfs \<Rightarrow> vfs outcome option" where
  "delete_chain rec b cluster buf v =
     (if cluster = 0 \<or> FatIsClusterEof b cluster then Some (Done v)
      else
        next_step (delete_sectors rec b cluster [0..<unat (SectorsPerCluster b)] buf v) (\<lambda>(buf, v).
          delete_chain rec b (fst (FatFollowClusterChain b v cluster)) buf (snd (FatFollowClusterChain b v cluster))))"

primrec delete_entry_at :: "nat \<Rightarrow> BPB \<Rightarrow> direntry option \<Rightarrow> direntry \<Rightarrow> vfs \<Rightarrow> (VFS_STATUS \<times> vfs) outcome" where
  "delete_entry_at 0 b parentDirectory e v = Hang"
| "delete_entry_at (Suc d) b parentDirectory e v =
     (let empty = (\<lambda>i. if i = 0 then FAT_FILE_DELETED else 0); filename = deleted_name e in
      obind (if and (file_attributes e) FAT_DIRECTORY \<noteq> 0
             then
               obind (FatChangeDirectoryEntry b v (Some e) dotdot_entry empty) (\<lambda>(_, v).
               obind (FatChangeDirectoryEntry b v (Some e) dot_entry empty) (\<lambda>(_, v).
                 run_loop (delete_chain (delete_entry_at d b (Some e)) b (FatGetFirstClusterOfFile b (Some e)) (fresh v) v)))
             else Done v) (\<lambda>v.
      obind (FatResizeFile b v parentDirectory filename 0) (\<lambda>(status, v).
        if status \<noteq> 0 then Done (status, v)
        else
          obind (FatReccursivlyFindDirectoryEntry b v (FatGetFirstClusterOfFile b parentDirectory) filename) (\<lambda>(r, v).
            case r of
              Inl status \<Rightarrow> Done (status, v)
            | Inr e' \<Rightarrow> FatChangeDirectoryEntry b v parentDirectory e' empty))))"

definition delete_depth :: nat where "delete_depth = 64"

definition FatDeleteDirectoryEntry :: "BPB \<Rightarrow> vfs \<Rightarrow> direntry option \<Rightarrow> direntry \<Rightarrow> (VFS_STATUS \<times> vfs) outcome" where
  "FatDeleteDirectoryEntry b v parentDirectory e = delete_entry_at delete_depth b parentDirectory e v"

definition FatDeleteFile :: "BPB \<Rightarrow> vfs \<Rightarrow> direntry option \<Rightarrow> cstr \<Rightarrow> (VFS_STATUS \<times> vfs) outcome" where
  "FatDeleteFile b v parentDirectory filename =
     obind (FatReccursivlyFindDirectoryEntry b v (FatGetFirstClusterOfFile b parentDirectory) filename) (\<lambda>(r, v).
       case r of
         Inl status \<Rightarrow> Done (status, v)
       | Inr e \<Rightarrow> FatDeleteDirectoryEntry b v parentDirectory e)"

end
