(* ===== verification/FatContent.thy ===== *)
theory FatContent
  imports FatTable FatFile
begin

text \<open>
  What reading and writing through the FAT driver do to the bytes of a file: the bytes of a file are
  those of the sectors of its clusters, in the order of the chain. Names of entries: what a search
  accepts.
\<close>

section \<open>Following a chain\<close>

text \<open>The cache agrees with the disk whenever it holds the sector of an entry of one of the clusters.\<close>

definition cache_good :: "BPB \<Rightarrow> u32 set \<Rightarrow> vfs \<Rightarrow> bool" where
  "cache_good b N v = (\<forall>n\<in>N. CachedFatSectorNumber v = entry_sector b n \<longrightarrow>
     (\<forall>i<512. CachedFatSector v i = sectors v (ucast (entry_sector b n)) i))"

definition chain :: "BPB \<Rightarrow> vfs \<Rightarrow> u32 list \<Rightarrow> bool" where
  "chain b v cs = (cs \<noteq> [] \<and> (\<forall>x\<in>set cs. in_range_entry b x \<and> \<not> FatIsClusterEof b x) \<and>
     (\<forall>i. Suc i < length cs \<longrightarrow> fat_entry b v (cs ! i) = cs ! Suc i))"

lemma with_cache_twice [simp]: "with_cache c (with_cache d v) = with_cache c v"
  by (simp add: with_cache_def)

lemma with_cache_own [simp]: "with_cache (CachedFatSector v, CachedFatSectorNumber v) v = v"
  by (simp add: with_cache_def)

lemma follow_good:
  assumes "table_volume b" "in_range_entry b n" "healthy v" "cache_good b N v" "n \<in> N"
  shows "\<exists>c. FatFollowClusterChain b v n = (fat_entry b v n, with_cache c v) \<and> cache_good b N (with_cache c v)"
proof (cases "CachedFatSectorNumber v = entry_sector b n")
  case True
  have "entry_in b (CachedFatSector v) n = entry_in b (sectors v (ucast (entry_sector b n))) n"
    by (rule entry_in_agree) (use assms True in \<open>simp add: cache_good_def\<close>)
  then have "FatFollowClusterChain b v n = (fat_entry b v n, v)"
    using True assms by (simp add: FatFollowClusterChain_def FatRead_table read_entry Let_def healthy_def fat_entry_eq)
  then show ?thesis
    using assms(4) by (intro exI [of _ "(CachedFatSector v, CachedFatSectorNumber v)"]) simp
next
  case False
  let ?c = "(\<lambda>i. if i < 512 then sectors v (ucast (entry_sector b n)) i else CachedFatSector v i, entry_sector b n)"
  have "FatFollowClusterChain b v n = (fat_entry b v n, with_cache ?c v)"
    using False assms
    by (simp add: FatFollowClusterChain_def FatRead_table read_entry Let_def with_cache_def healthy_def fat_entry_eq cong: if_cong)
  moreover have "cache_good b N (with_cache ?c v)" by (auto simp: cache_good_def)
  ultimately show ?thesis by blast
qed

lemma chain_steps_to:
  assumes "table_volume b" "healthy v" "cache_good b N v" "chain b v cs" "k < length cs" "set cs \<subseteq> N"
  shows "\<exists>c. chain_steps b k v (hd cs) = (cs ! k, with_cache c v) \<and> cache_good b N (with_cache c v)"
  using assms(2-)
proof (induction k arbitrary: v cs)
  case 0
  then show ?case
    by (intro exI [of _ "(CachedFatSector v, CachedFatSectorNumber v)"]) (simp add: chain_def hd_conv_nth)
next
  case (Suc k)
  have m: "in_range_entry b (hd cs)" "\<not> FatIsClusterEof b (hd cs)" "hd cs \<in> N"
    using Suc.prems(3-5) by (auto simp: chain_def)
  obtain c where c: "FatFollowClusterChain b v (hd cs) = (fat_entry b v (hd cs), with_cache c v)" "cache_good b N (with_cache c v)"
    using follow_good [OF assms(1) m(1) Suc.prems(1,2) m(3)] by blast
  have e: "fat_entry b v (hd cs) = hd (tl cs)"
    using Suc.prems(3,4) by (cases cs; cases "tl cs") (auto simp: chain_def)
  have "tl cs \<noteq> []" using Suc.prems(4) by (cases cs) auto
  then have "chain b (with_cache c v) (tl cs)" "healthy (with_cache c v)" "k < length (tl cs)" "set (tl cs) \<subseteq> N"
    using Suc.prems by (auto simp: chain_def healthy_def nth_tl dest: list.set_sel(2))
  then obtain d where "chain_steps b k (with_cache c v) (hd (tl cs)) = (tl cs ! k, with_cache d (with_cache c v))"
    "cache_good b N (with_cache d (with_cache c v))"
    using Suc.IH [OF _ c(2)] by blast
  then show ?case using c m e Suc.prems(4) by (intro exI [of _ d]) (simp add: nth_tl)
qed

section \<open>The bytes of a file\<close>

text \<open>Byte k of the file with clusters cs.\<close>

definition file_sector :: "BPB \<Rightarrow> u32 list \<Rightarrow> nat \<Rightarrow> u64" where
  "file_sector b cs s = cluster_sector b (cs ! (s div unat (SectorsPerCluster b))) (s mod unat (SectorsPerCluster b))"

definition file_byte :: "BPB \<Rightarrow> vfs \<Rightarrow> u32 list \<Rightarrow> nat \<Rightarrow> u8" where
  "file_byte b v cs k = sectors v (file_sector b cs (k div 512)) (k mod 512)"

text \<open>A file whose clusters are cs, on a healthy volume.\<close>

definition file_ok :: "BPB \<Rightarrow> vfs \<Rightarrow> direntry \<Rightarrow> u32 list \<Rightarrow> bool" where
  "file_ok b v e cs = (table_volume b \<and> healthy v \<and> cache_good b (set cs) v \<and> chain b v cs \<and> SectorsPerCluster b \<noteq> 0 \<and>
     FatGetFirstClusterOfFile b (Some e) = hd cs)"

lemma file_ok_cache: "file_ok b v e cs \<Longrightarrow> cache_good b (set cs) (with_cache c v) \<Longrightarrow> file_ok b (with_cache c v) e cs"
  by (simp add: file_ok_def healthy_def chain_def)

lemma file_byte_cache [simp]: "file_byte b (with_cache c v) cs = file_byte b v cs"
  by (simp add: file_byte_def fun_eq_iff)

lemma file_byte_at: "j < 512 \<Longrightarrow> file_byte b v cs (512 * k + j) = sectors v (file_sector b cs k) j"
  by (simp add: file_byte_def)

lemma unat_spc: "unat (ucast (SectorsPerCluster b) :: u32) = unat (SectorsPerCluster b)"
  using unat_bound [of "SectorsPerCluster b"] by (simp add: unsigned_ucast_eq take_bit_nat_eq_self)

lemma read_file_sector:
  assumes ok: "file_ok b v e cs" and s: "unat s < unat (SectorsPerCluster b) * length cs"
  shows "\<exists>c. FatReadSectorFromFile b v (Some e) s off out =
      (0, (\<lambda>i. if off \<le> i \<and> i < off + 512 then file_byte b v cs (512 * unat s + (i - off)) else out i), with_cache c v) \<and>
    cache_good b (set cs) (with_cache c v)"
proof -
  let ?spc = "ucast (SectorsPerCluster b) :: u32"
  let ?k = "unat s div unat (SectorsPerCluster b)"
  have k: "unat (s div ?spc) = ?k" by (simp add: unat_div_distrib unat_spc)
  have m: "s mod ?spc = word_of_nat (unat s mod unat (SectorsPerCluster b))"
    by (simp add: unat_spc [symmetric] flip: unat_mod_distrib)
  have "?k < length cs" using s by (simp add: less_mult_imp_div_less mult.commute)
  then obtain c where c: "chain_steps b ?k v (hd cs) = (cs ! ?k, with_cache c v)" "cache_good b (set cs) (with_cache c v)"
    using chain_steps_to [of b v "set cs" cs ?k] ok unfolding file_ok_def by blast
  have b: "bps b = 512" using ok volume_bps by (auto simp: file_ok_def)
  have f: "FatFollowClusterChainToAPoint b v (hd cs) (s div ?spc) = (cs ! ?k, with_cache c v)"
    unfolding FatFollowClusterChainToAPoint_def k by (rule c(1))
  have r: "FatReadSectorOfCluster b (with_cache c v) (cs ! ?k) (s mod ?spc) 0 (\<lambda>_. 0) =
      (0, \<lambda>i. if i < 512 then sectors v (file_sector b cs (unat s)) i else 0)"
    using ok unfolding m FatReadSectorOfCluster_def cluster_sector_def [symmetric] file_sector_def
    by (auto simp: VfsReadSector_def file_ok_def healthy_def)
  have "FatReadSectorFromFile b v (Some e) s off out =
      (0, (\<lambda>i. if off \<le> i \<and> i < off + 512 then file_byte b v cs (512 * unat s + (i - off)) else out i), with_cache c v)"
  proof -
    have "(if off \<le> i \<and> i < off + 512 then (if i - off < 512 then sectors v (file_sector b cs (unat s)) (i - off) else 0) else out i) =
      (if off \<le> i \<and> i < off + 512 then file_byte b v cs (512 * unat s + (i - off)) else out i)" for i
      using file_byte_at [of "i - off" b v cs "unat s"] by auto
    then show ?thesis using ok f r by (simp add: FatReadSectorFromFile_def Let_def file_ok_def b)
  qed
  then show ?thesis using c(2) by blast
qed

section \<open>Reading\<close>

lemma copy_out_eq:
  assumes "l \<le> h" "unat r + (h - l) < 2 ^ 32"
  shows "copy_out [l..<h] buffer r out =
    (r + word_of_nat (h - l), \<lambda>i. if unat r \<le> i \<and> i < unat r + (h - l) then buffer (l + (i - unat r)) else out i)"
  using assms
proof (induction "h - l" arbitrary: l r out)
  case 0
  then show ?case by (auto simp: fun_eq_iff)
next
  case (Suc d)
  have lt: "l < h" using Suc(2) by simp
  have r1: "unat (r + 1) = unat r + 1" using Suc.prems lt by (subst unat_plus_if') auto
  have w: "r + 1 + word_of_nat (h - Suc l) = r + word_of_nat (h - l)"
  proof -
    have "h - l = Suc (h - Suc l)" using lt by simp
    then show ?thesis by simp
  qed
  have "copy_out [l..<h] buffer r out = copy_out [Suc l..<h] buffer (r + 1) (out(unat r := buffer l))"
    using lt by (simp add: upt_conv_Cons)
  also have "\<dots> = (r + 1 + word_of_nat (h - Suc l), \<lambda>i. if unat (r + 1) \<le> i \<and> i < unat (r + 1) + (h - Suc l)
      then buffer (Suc l + (i - unat (r + 1))) else (out(unat r := buffer l)) i)"
    by (rule Suc.hyps(1)) (use Suc.hyps(2) Suc.prems lt r1 in auto)
  also have "\<dots> = (r + word_of_nat (h - l), \<lambda>i. if unat r \<le> i \<and> i < unat r + (h - l) then buffer (l + (i - unat r)) else out i)"
    unfolding w r1 using lt by (auto simp: fun_eq_iff intro!: arg_cong [of _ _ buffer])
  finally show ?case .
qed

text \<open>The sectors of a read of z bytes from byte a, the part of each that is read, and where it goes.\<close>

definition low_limit :: "nat \<Rightarrow> nat \<Rightarrow> nat" where "low_limit a k = (if k = a div 512 then a mod 512 else 0)"

definition high_limit :: "nat \<Rightarrow> nat \<Rightarrow> nat \<Rightarrow> nat" where
  "high_limit a z k = (if k = (a + z - 1) div 512 then (if (a + z) mod 512 = 0 then 512 else (a + z) mod 512) else 512)"

lemma limits:
  assumes "0 < z" "a div 512 \<le> k" "k \<le> (a + z - 1) div 512"
  shows "low_limit a k \<le> high_limit a z k" "high_limit a z k \<le> 512" "a \<le> 512 * k + low_limit a k"
    "512 * k + high_limit a z k \<le> a + z"
    "k < (a + z - 1) div 512 \<Longrightarrow> 512 * k + high_limit a z k = 512 * Suc k + low_limit a (Suc k)"
    "k = (a + z - 1) div 512 \<Longrightarrow> 512 * k + high_limit a z k = a + z"
proof -
  have e: "512 * k + high_limit a z k = a + z" if "k = (a + z - 1) div 512"
  proof -
    define n where "n = a + z - 1"
    have "a + z = Suc n" using assms(1) by (simp add: n_def)
    then have "high_limit a z k = Suc (n mod 512)"
      using that by (simp add: high_limit_def n_def [symmetric] mod_Suc)
    moreover have "512 * k + n mod 512 = n" using that by (simp add: n_def)
    ultimately show ?thesis using \<open>a + z = Suc n\<close> by simp
  qed
  show "k = (a + z - 1) div 512 \<Longrightarrow> 512 * k + high_limit a z k = a + z" by (rule e)
  show l: "a \<le> 512 * k + low_limit a k" using assms(2) by (auto simp: low_limit_def)
  show h: "high_limit a z k \<le> 512" by (simp add: high_limit_def less_imp_le)
  show "512 * k + high_limit a z k \<le> a + z"
    using e h assms(3) by (cases "k = (a + z - 1) div 512") (auto simp: high_limit_def)
  show "k < (a + z - 1) div 512 \<Longrightarrow> 512 * k + high_limit a z k = 512 * Suc k + low_limit a (Suc k)"
    using assms(2) by (auto simp: high_limit_def low_limit_def)
  have "low_limit a k \<le> 512" by (simp add: low_limit_def less_imp_le)
  moreover have "512 * k + low_limit a k \<le> a + z" if "k = (a + z - 1) div 512"
    using that assms(1) by (auto simp: low_limit_def)
  ultimately show "low_limit a k \<le> high_limit a z k"
    using e by (cases "k = (a + z - 1) div 512") (auto simp: high_limit_def)
qed

lemma read_loop_from:
  fixes offset sz :: u32 and a z :: nat
  defines "a \<equiv> unat offset" and "z \<equiv> unat sz"
  assumes ok: "file_ok b v e cs" and z: "0 < z" and nw: "a + z < 2 ^ 32"
    and fits: "a + z \<le> 512 * (unat (SectorsPerCluster b) * length cs)"
    and k: "a div 512 \<le> k" "k \<le> (a + z - 1) div 512" and r: "unat r = 512 * k + low_limit a k - a"
  shows "\<exists>c. read_loop b (Some e) offset sz (offset div bps b) ((offset + sz - 1) div bps b)
      [k..<Suc ((a + z - 1) div 512)] r buffer out v =
      (0, sz, (\<lambda>i. if unat r \<le> i \<and> i < z then file_byte b v cs (a + i) else out i), with_cache c v)"
  using ok k r
proof (induction "(a + z - 1) div 512 - k" arbitrary: k r buffer out v rule: less_induct)
  case (less k r buffer out v)
  let ?last = "(a + z - 1) div 512"
  have b: "bps b = 512" using less.prems(1) volume_bps by (auto simp: file_ok_def)
  have k32: "k < 2 ^ 32" using less.prems(3) nw by (meson div_le_dividend le_less_trans less_imp_le diff_le_self order_trans)
  have uk: "unat (word_of_nat k :: u32) = k" by (rule unat_word_of_nat) (use k32 in simp)
  have u1: "unat (offset + sz) = a + z" using nw by (subst unat_plus_if') (simp add: a_def z_def)
  have u2: "unat (offset + sz - 1) = a + z - 1"
    using u1 z unat_sub [of 1 "offset + sz"] by (simp add: word_le_nat_alt)
  have first: "(word_of_nat k = offset div 512) = (k = a div 512)"
    unfolding word_unat_eq_iff uk by (simp add: unat_div_distrib a_def)
  have final: "(word_of_nat k = (offset + sz - 1) div 512) = (k = ?last)"
    unfolding word_unat_eq_iff uk by (simp add: unat_div_distrib u2)
  define low where "low = (if word_of_nat k = offset div bps b then offset mod bps b else 0)"
  define high where "high = (if word_of_nat k = (offset + sz - 1) div bps b then
    (if (offset + sz) mod bps b = 0 then bps b else (offset + sz) mod bps b) else bps b)"
  have ul: "unat low = low_limit a k" unfolding low_def first low_limit_def b by (simp add: unat_mod_distrib a_def)
  have m0: "((offset + sz) mod 512 = 0) = ((a + z) mod 512 = 0)"
    unfolding word_unat_eq_iff by (simp add: unat_mod_distrib u1)
  have uh: "unat high = high_limit a z k"
    unfolding high_def final high_limit_def b m0 by (simp add: unat_mod_distrib u1)
  note lim = limits [OF z less.prems(2,3)]
  let ?r' = "r + word_of_nat (unat high - unat low)"
  let ?out' = "\<lambda>i. if unat r \<le> i \<and> i < unat r + (unat high - unat low)
    then file_byte b v cs (512 * k + unat low + (i - unat r)) else out i"
  have rb: "unat r + (unat high - unat low) \<le> z" using lim less.prems(4) ul uh by simp
  have ur': "unat ?r' = 512 * k + high_limit a z k - a"
  proof -
    have "unat (word_of_nat (unat high - unat low) :: u32) = unat high - unat low"
      by (rule unat_word_of_nat) (use uh lim(2) in simp)
    moreover have "unat r + (unat high - unat low) < 2 ^ 32" using rb nw by simp
    ultimately have "unat ?r' = unat r + (unat high - unat low)" by (subst unat_plus_if') simp
    then show ?thesis using lim(1,3) less.prems(4) ul uh by simp
  qed
  have sect: "unat (word_of_nat k :: u32) < unat (SectorsPerCluster b) * length cs"
  proof -
    have "512 * k < a + z" using less.prems(3) z by (cases "a + z") (auto simp: less_Suc_eq_le)
    then show ?thesis using fits uk by simp
  qed
  have step: "\<exists>c bf. read_loop b (Some e) offset sz (offset div bps b) ((offset + sz - 1) div bps b) (k # ks) r buffer out v =
      read_loop b (Some e) offset sz (offset div bps b) ((offset + sz - 1) div bps b) ks ?r' bf ?out' (with_cache c v) \<and>
      cache_good b (set cs) (with_cache c v)" for ks
  proof (cases "low \<noteq> 0 \<or> high \<noteq> bps b")
    case True
    obtain c where c: "FatReadSectorFromFile b v (Some e) (word_of_nat k) 0 buffer =
      (0, \<lambda>i. if i < 512 then file_byte b v cs (512 * k + i) else buffer i, with_cache c v)" "cache_good b (set cs) (with_cache c v)"
      using read_file_sector [OF less.prems(1) sect, of 0 buffer] unfolding uk by (simp cong: if_cong) blast
    let ?bf = "\<lambda>i. if i < 512 then file_byte b v cs (512 * k + i) else buffer i"
    have "copy_out [unat low..<unat high] ?bf r out = (?r', \<lambda>i. if unat r \<le> i \<and> i < unat r + (unat high - unat low)
        then ?bf (unat low + (i - unat r)) else out i)"
      by (rule copy_out_eq) (use lim rb nw ul uh in simp_all)
    also have "(\<lambda>i. if unat r \<le> i \<and> i < unat r + (unat high - unat low) then ?bf (unat low + (i - unat r)) else out i) = ?out'"
      using lim(2) ul uh by (auto simp: fun_eq_iff add.assoc)
    finally have "read_loop b (Some e) offset sz (offset div bps b) ((offset + sz - 1) div bps b) (k # ks) r buffer out v =
      read_loop b (Some e) offset sz (offset div bps b) ((offset + sz - 1) div bps b) ks ?r' ?bf ?out' (with_cache c v)"
      unfolding read_loop.simps(2) Let_def low_def [symmetric] high_def [symmetric] using True c(1) by simp
    then show ?thesis using c(2) by blast
  next
    case False
    then have lh: "low = 0" "high = 512" using b by simp_all
    obtain c where c: "FatReadSectorFromFile b v (Some e) (word_of_nat k) (unat r) out =
      (0, \<lambda>i. if unat r \<le> i \<and> i < unat r + 512 then file_byte b v cs (512 * k + (i - unat r)) else out i, with_cache c v)"
      "cache_good b (set cs) (with_cache c v)"
      using read_file_sector [OF less.prems(1) sect, of "unat r" out] unfolding uk by blast
    have "read_loop b (Some e) offset sz (offset div bps b) ((offset + sz - 1) div bps b) (k # ks) r buffer out v =
      read_loop b (Some e) offset sz (offset div bps b) ((offset + sz - 1) div bps b) ks ?r' buffer ?out' (with_cache c v)"
      unfolding read_loop.simps(2) Let_def low_def [symmetric] high_def [symmetric] using False c(1) lh by (simp cong: if_cong)
    then show ?thesis using c(2) by blast
  qed
  show ?case
  proof (cases "k = ?last")
    case True
    obtain c where c: "read_loop b (Some e) offset sz (offset div bps b) ((offset + sz - 1) div bps b) [k] r buffer out v =
      (0, ?r', ?out', with_cache c v)"
      using step [of "[]"] by auto
    have rz: "unat r + (unat high - unat low) = z" using lim(1,3) lim(6) [OF True] less.prems(4) ul uh by simp
    have r'eq: "?r' = sz" using ur' lim(6) [OF True] by (simp add: word_unat_eq_iff z_def)
    have out'eq: "?out' = (\<lambda>i. if unat r \<le> i \<and> i < z then file_byte b v cs (a + i) else out i)"
    proof -
      have "512 * k + unat low + (i - unat r) = a + i" if "unat r \<le> i" for i
        using that less.prems(4) lim(3) ul by simp
      then show ?thesis unfolding rz by (simp add: fun_eq_iff)
    qed
    have "[k..<Suc ?last] = [k]" using True by simp
    then show ?thesis using c unfolding r'eq out'eq by (intro exI [of _ c]) (simp only:)
  next
    case False
    then have kl: "k < ?last" using less.prems(3) by simp
    obtain c bf where c: "read_loop b (Some e) offset sz (offset div bps b) ((offset + sz - 1) div bps b)
        (k # [Suc k..<Suc ?last]) r buffer out v =
      read_loop b (Some e) offset sz (offset div bps b) ((offset + sz - 1) div bps b) [Suc k..<Suc ?last] ?r' bf ?out' (with_cache c v)"
      "cache_good b (set cs) (with_cache c v)"
      using step by blast
    have r'2: "unat ?r' = 512 * Suc k + low_limit a (Suc k) - a" using ur' lim(5) [OF kl] by simp
    have lt: "?last - Suc k < ?last - k" and k1: "a div 512 \<le> Suc k" "Suc k \<le> ?last" using kl less.prems(2) by auto
    obtain d where d: "read_loop b (Some e) offset sz (offset div bps b) ((offset + sz - 1) div bps b) [Suc k..<Suc ?last] ?r' bf ?out' (with_cache c v) =
      (0, sz, (\<lambda>i. if unat ?r' \<le> i \<and> i < z then file_byte b v cs (a + i) else ?out' i), with_cache d v)"
      using less.hyps [OF lt file_ok_cache [OF less.prems(1) c(2)] k1 r'2, of bf ?out']
      unfolding file_byte_cache with_cache_twice by blast
    have u: "[k..<Suc ?last] = k # [Suc k..<Suc ?last]" using kl by (simp add: upt_conv_Cons del: upt_Suc)
    have rr: "unat ?r' = unat r + (unat high - unat low)" using ur' lim(1,3) less.prems(4) ul uh by simp
    have "(\<lambda>i. if unat ?r' \<le> i \<and> i < z then file_byte b v cs (a + i) else ?out' i) =
      (\<lambda>i. if unat r \<le> i \<and> i < z then file_byte b v cs (a + i) else out i)"
    proof -
      have "512 * k + unat low + (i - unat r) = a + i" if "unat r \<le> i" for i
        using that less.prems(4) lim(3) ul by simp
      then show ?thesis using rb unfolding rr by (auto simp: fun_eq_iff)
    qed
    then show ?thesis using c(1) d unfolding u by (intro exI [of _ d]) (simp only: with_cache_twice)
  qed
qed

section \<open>Writing a sector\<close>

lemma write_cluster_skip:
  assumes "\<forall>j\<in>set js. word_of_nat j + ci * ucast (SectorsPerCluster b) < f \<and> word_of_nat j + ci * ucast (SectorsPerCluster b) \<le> l"
  shows "write_cluster b c ci f l input (js @ is) off v = write_cluster b c ci f l input is off v"
  using assms by (induction js) (auto simp: Let_def not_less not_le)

text \<open>The sectors of a file are distinct, and none of them holds a table entry of the file.\<close>

definition file_apart :: "BPB \<Rightarrow> u32 list \<Rightarrow> bool" where
  "file_apart b cs = (let n = unat (SectorsPerCluster b) * length cs in
     (\<forall>s<n. \<forall>t<n. file_sector b cs s = file_sector b cs t \<longrightarrow> s = t) \<and>
     (\<forall>s<n. \<forall>c\<in>set cs. file_sector b cs s \<noteq> ucast (entry_sector b c)))"

definition written :: "BPB \<Rightarrow> u32 list \<Rightarrow> nat \<Rightarrow> bytes \<Rightarrow> vfs \<Rightarrow> vfs" where
  "written b cs s f v = v\<lparr>sectors := (sectors v)(file_sector b cs s := (\<lambda>i. if i < 512 then f i else sectors v (file_sector b cs s) i))\<rparr>"

lemma written_cache: "written b cs s f (with_cache c v) = with_cache c (written b cs s f v)"
  by (simp add: written_def with_cache_def cong: if_cong)

lemma file_ok_written:
  assumes ok: "file_ok b v e cs" and a: "file_apart b cs" and s: "s < unat (SectorsPerCluster b) * length cs"
  shows "file_ok b (written b cs s f v) e cs"
proof -
  have ne: "file_sector b cs s \<noteq> ucast (entry_sector b c)" if "c \<in> set cs" for c
    using a s that by (simp add: file_apart_def Let_def)
  have "fat_entry b (written b cs s f v) c = fat_entry b v c" if "c \<in> set cs" for c
    using ne [OF that] ok that by (simp add: fat_entry_eq written_def file_ok_def chain_def)
  moreover have "cache_good b (set cs) (written b cs s f v)"
    using ok ne not_sym [OF ne] by (auto simp: cache_good_def written_def file_ok_def)
  ultimately show ?thesis
    using ok by (auto simp: file_ok_def chain_def healthy_def written_def)
qed

lemma file_byte_written:
  assumes a: "file_apart b cs" and s: "s < unat (SectorsPerCluster b) * length cs"
    and k: "k < 512 * (unat (SectorsPerCluster b) * length cs)"
  shows "file_byte b (written b cs s f v) cs k = (if k div 512 = s then f (k mod 512) else file_byte b v cs k)"
proof -
  have "k div 512 < unat (SectorsPerCluster b) * length cs" using k by (simp add: less_mult_imp_div_less mult.commute)
  then have "file_sector b cs (k div 512) = file_sector b cs s \<longleftrightarrow> k div 512 = s"
    using a s by (auto simp: file_apart_def Let_def)
  then show ?thesis by (simp add: file_byte_def written_def)
qed

lemma write_file_sector:
  assumes ok: "file_ok b v e cs" and ap: "file_apart b cs"
    and s: "unat s < unat (SectorsPerCluster b) * length cs" "unat s < 2 ^ 31"
  shows "\<exists>d. FatWriteSectorsToFile b v (Some e) s off input 1 = Done (0, with_cache d (written b cs (unat s) (\<lambda>i. input (off + i)) v)) \<and>
    file_ok b (with_cache d (written b cs (unat s) (\<lambda>i. input (off + i)) v)) e cs"
proof -
  let ?n = "unat (SectorsPerCluster b)" and ?spc = "ucast (SectorsPerCluster b) :: u32"
  let ?q = "unat s div ?n" and ?m = "unat s mod ?n"
  have n: "0 < ?n" "?n < 256" using ok unat_bound [of "SectorsPerCluster b"] by (auto simp: file_ok_def unat_gt_0)
  have k: "unat (s div ?spc) = ?q" by (simp add: unat_div_distrib unat_spc)
  have "?q < length cs" using s(1) by (simp add: less_mult_imp_div_less mult.commute)
  then obtain c where c: "chain_steps b ?q v (hd cs) = (cs ! ?q, with_cache c v)" "cache_good b (set cs) (with_cache c v)"
    "\<not> FatIsClusterEof b (cs ! ?q)" "in_range_entry b (cs ! ?q)" "cs ! ?q \<in> set cs"
    using chain_steps_to [of b v "set cs" cs ?q] ok unfolding file_ok_def chain_def by (metis nth_mem order_refl)
  have f: "FatFollowClusterChainToAPoint b v (hd cs) (s div ?spc) = (cs ! ?q, with_cache c v)"
    unfolding FatFollowClusterChainToAPoint_def k by (rule c(1))
  have pos: "unat (word_of_nat j + s div ?spc * ?spc :: u32) = j + ?q * ?n" if "j < ?n" for j
  proof -
    obtain w where w: "w = ?q * ?n" by blast
    then have "unat (s div ?spc * ?spc) = w"
      using unat_mult_lem [of "s div ?spc" ?spc] k unat_spc [of b] unat_bound [of s]
      by (metis div_times_less_eq_dividend le_less_trans)
    moreover have "w \<le> unat s" by (simp add: w)
    moreover have "unat (word_of_nat j :: u32) = j" by (rule unat_word_of_nat) (use that n in simp)
    ultimately show ?thesis unfolding w [symmetric] using that n s(2) by (subst unat_plus_if') simp
  qed
  have qm: "?q * ?n + ?m = unat s" by simp
  have mn: "?m < ?n" using n by simp
  have sm: "word_of_nat ?m + s div ?spc * ?spc = s" using pos [OF mn] qm by (simp add: word_unat_eq_iff)
  have less: "word_of_nat j + s div ?spc * ?spc < s" if "j < ?m" for j
  proof -
    have "j + ?q * ?n < ?q * ?n + ?m" "j < ?n" using that mn by (simp_all only: add.commute [of j] nat_add_left_cancel_less)
    then show ?thesis using pos [of j] unfolding qm by (simp only: word_less_nat_alt)
  qed
  have gr: "word_of_nat j + s div ?spc * ?spc > s" if "?m < j" "j < ?n" for j
  proof -
    have "?q * ?n + ?m < j + ?q * ?n" using that(1) by (simp only: add.commute [of j] nat_add_left_cancel_less)
    then show ?thesis using pos [OF that(2)] unfolding qm by (simp only: word_less_nat_alt)
  qed
  let ?v = "written b cs (unat s) (\<lambda>i. input (off + i)) v"
  have ok2: "file_ok b (with_cache c ?v) e cs"
    using file_ok_written [OF file_ok_cache [OF ok c(2)] ap s(1), of "\<lambda>i. input (off + i)"] by (simp add: written_cache)
  have w: "snd (FatWriteSectorOfCluster b (with_cache c v) (cs ! ?q) (word_of_nat ?m) off input) = with_cache c ?v"
    using ok unfolding FatWriteSectorOfCluster_def cluster_sector_def [symmetric] file_sector_def [symmetric]
    by (simp add: VfsWriteSector_def file_ok_def healthy_def with_cache_def written_def cong: if_cong)
  obtain stop o' where wc: "write_cluster b (cs ! ?q) (s div ?spc) s s input [0..<?n] off (with_cache c v) = (stop, o', with_cache c ?v)"
  proof -
    have up: "[0..<?n] = [0..<?m] @ ?m # [Suc ?m..<?n]"
      using mn by (metis less_imp_add_positive upt_add_eq_append upt_conv_Cons zero_le less_imp_le_nat le_add_diff_inverse)
    have "write_cluster b (cs ! ?q) (s div ?spc) s s input [0..<?n] off (with_cache c v) =
        write_cluster b (cs ! ?q) (s div ?spc) s s input [Suc ?m..<?n] (off + unat (bps b)) (with_cache c ?v)"
      unfolding up using less sm w by (subst write_cluster_skip) (auto simp: less_imp_le)
    moreover have "\<exists>stop o'. write_cluster b (cs ! ?q) (s div ?spc) s s input [Suc ?m..<?n] (off + unat (bps b)) (with_cache c ?v) =
        (stop, o', with_cache c ?v)"
      using gr [of "Suc ?m"] by (cases "Suc ?m < ?n") (auto simp: upt_conv_Cons)
    ultimately show ?thesis using that by auto
  qed
  obtain d where xd: "FatFollowClusterChain b (with_cache c ?v) (cs ! ?q) = (fat_entry b (with_cache c ?v) (cs ! ?q), with_cache d ?v)"
    and gd: "cache_good b (set cs) (with_cache d ?v)"
    using follow_good [of b "cs ! ?q" "with_cache c ?v" "set cs"] ok2 c(4,5) unfolding file_ok_def with_cache_twice by blast
  have nx: "s div ?spc + 1 > s div ?spc"
  proof -
    have "?q < 2 ^ 31" using s(2) by (rule le_less_trans [OF div_le_dividend])
    then have "unat (s div ?spc + 1) = ?q + 1" using k by (subst unat_plus_if') simp
    then show ?thesis using k by (simp add: word_less_nat_alt)
  qed
  have "write_chain b (cs ! ?q) (s div ?spc) (s div ?spc) s s input off (with_cache c v) =
      Some (0, if stop then with_cache c ?v else with_cache d ?v)"
    using c(3) wc xd nx by (subst write_chain.simps) (simp add: write_chain.simps [of b "fat_entry b v' n" for v' n])
  then have "FatWriteSectorsToFile b v (Some e) s off input 1 = Done (0, with_cache (if stop then c else d) ?v)"
    using ok f by (simp add: FatWriteSectorsToFile_def Let_def file_ok_def)
  moreover have "file_ok b (with_cache (if stop then c else d) ?v) e cs"
    using ok2 file_ok_cache [OF ok2, of d] gd by simp
  ultimately show ?thesis by blast
qed

section \<open>Writing\<close>

lemma copy_in_eq:
  assumes "j \<le> n" "unat w + (n - j) < 2 ^ 32"
  shows "copy_in [j..<n] lower input w temp =
    (w + word_of_nat (n - j), \<lambda>i. if lower + j \<le> i \<and> i < lower + n then input (unat w + (i - (lower + j))) else temp i)"
  using assms
proof (induction "n - j" arbitrary: j w temp)
  case 0
  then show ?case by (auto simp: fun_eq_iff)
next
  case (Suc d)
  have lt: "j < n" using Suc(2) by simp
  have w1: "unat (w + 1) = unat w + 1" using Suc.prems lt by (subst unat_plus_if') auto
  have ww: "w + 1 + word_of_nat (n - Suc j) = w + word_of_nat (n - j)"
  proof -
    have "n - j = Suc (n - Suc j)" using lt by simp
    then show ?thesis by simp
  qed
  have "copy_in [j..<n] lower input w temp = copy_in [Suc j..<n] lower input (w + 1) (temp(j + lower := input (unat w)))"
    using lt by (simp add: upt_conv_Cons)
  also have "\<dots> = (w + 1 + word_of_nat (n - Suc j), \<lambda>i. if lower + Suc j \<le> i \<and> i < lower + n
      then input (unat (w + 1) + (i - (lower + Suc j))) else (temp(j + lower := input (unat w))) i)"
    by (rule Suc.hyps(1)) (use Suc.hyps(2) Suc.prems lt w1 in auto)
  also have "\<dots> = (w + word_of_nat (n - j), \<lambda>i. if lower + j \<le> i \<and> i < lower + n then input (unat w + (i - (lower + j))) else temp i)"
    unfolding ww w1 using lt by (auto simp: fun_eq_iff intro!: arg_cong [of _ _ input])
  finally show ?case .
qed

text \<open>How many bytes a write of z bytes at byte a changes: when the last byte is the first of its
  sector, the whole sector is taken for written.\<close>

definition write_extent :: "nat \<Rightarrow> nat \<Rightarrow> nat" where
  "write_extent a z = (if (a + z - 1) mod 512 = 0 then z + 511 else z)"

lemma write_extent_last: "0 < z \<Longrightarrow> (a + write_extent a z - 1) div 512 = (a + z - 1) div 512"
proof -
  assume "0 < z"
  then obtain n where n: "a + z = Suc n" by (cases "a + z") auto
  show ?thesis
  proof (cases "n mod 512 = 0")
    case True
    then have "a + write_extent a z - 1 = n + 511" using n by (auto simp: write_extent_def)
    moreover have "(n + 511) div 512 = n div 512" using True by (auto elim!: dvdE simp: mod_eq_0_iff_dvd)
    ultimately show ?thesis using n by simp
  qed (use n in \<open>simp add: write_extent_def\<close>)
qed

lemma write_upper:
  assumes "0 < z" "k = (a + z - 1) div 512"
  shows "(if (a + z - 1) mod 512 = 0 then 511 else (a + z - 1) mod 512) + 1 = high_limit a (write_extent a z) k"
proof -
  obtain n where n: "a + z = Suc n" using assms(1) by (cases "a + z") auto
  have kl: "k = (a + write_extent a z - 1) div 512" using assms write_extent_last by simp
  show ?thesis
  proof (cases "n mod 512 = 0")
    case True
    then have "a + write_extent a z = n + 512" using n by (auto simp: write_extent_def)
    then show ?thesis using True n kl by (simp add: high_limit_def)
  next
    case False
    then have e: "write_extent a z = z" using n by (simp add: write_extent_def)
    show ?thesis using False n kl unfolding e by (simp add: high_limit_def mod_Suc)
  qed
qed

lemma write_loop_from:
  assumes ok: "file_ok b v e cs" and ap: "file_apart b cs" and z: "0 < z"
    and T: "T = 512 * (unat (SectorsPerCluster b) * length cs)" "T < 2 ^ 32" "a + write_extent a z \<le> T"
    and w: "unat ss = a div 512" "unat es = (a + z - 1) div 512" "unat so = a mod 512"
      "unat lo = (if (a + z - 1) mod 512 = 0 then 511 else (a + z - 1) mod 512)"
    and k: "a div 512 \<le> k" "k \<le> (a + z - 1) div 512" and r: "unat r = 512 * k + low_limit a k - a"
  shows "\<exists>v'. write_loop b (Some e) ss es so lo input [k..<Suc ((a + z - 1) div 512)] r temp v =
      Done (0, word_of_nat (write_extent a z), v') \<and> file_ok b v' e cs \<and>
      (\<forall>j<T. file_byte b v' cs j = (if a + unat r \<le> j \<and> j < a + write_extent a z then input (j - a) else file_byte b v cs j))"
  using ok k r
proof (induction "(a + z - 1) div 512 - k" arbitrary: k r temp v rule: less_induct)
  case (less k r temp v)
  let ?last = "(a + z - 1) div 512" and ?z = "write_extent a z"
  have zz: "0 < ?z" "?last = (a + ?z - 1) div 512" using z write_extent_last [OF z, of a] by (simp_all add: write_extent_def)
  have b: "bps b = 512" using less.prems(1) volume_bps by (auto simp: file_ok_def)
  have k31: "k < 2 ^ 31"
  proof -
    have "512 * k < a + ?z" using less.prems(3) zz by (cases "a + ?z") (auto simp: less_Suc_eq_le)
    then show ?thesis using T(2,3) by simp
  qed
  have uk: "unat (word_of_nat k :: u32) = k" by (rule unat_word_of_nat) (use k31 in simp)
  have first: "(word_of_nat k = ss) = (k = a div 512)" and final: "(word_of_nat k = es) = (k = ?last)"
    unfolding word_unat_eq_iff uk w by auto
  have k2: "k \<le> (a + ?z - 1) div 512" using less.prems(3) zz(2) by simp
  note lim = limits [OF zz(1) less.prems(2) k2]
  define l where "l = low_limit a k"
  define h where "h = high_limit a ?z k"
  have sect: "unat (word_of_nat k :: u32) < unat (SectorsPerCluster b) * length cs"
  proof -
    have "512 * k < a + ?z" using k2 zz(1) by (cases "a + ?z") (auto simp: less_Suc_eq_le)
    then have "512 * k < 512 * (unat (SectorsPerCluster b) * length cs)" using T by linarith
    then show ?thesis using uk by simp
  qed
  have ks: "k < unat (SectorsPerCluster b) * length cs" "unat (word_of_nat k :: u32) < 2 ^ 31" using sect uk k31 by simp_all
  have rb: "unat r + (h - l) \<le> ?z" "unat r + (h - l) < 2 ^ 32"
    using lim less.prems(4) T(2,3) unfolding l_def h_def by simp_all
  let ?r' = "r + word_of_nat (h - l)"
  have ur': "unat ?r' = 512 * k + h - a"
  proof -
    have "unat (word_of_nat (h - l) :: u32) = h - l"
      by (rule unat_word_of_nat) (use lim(2) in \<open>simp add: h_def\<close>)
    then have "unat ?r' = unat r + (h - l)" using rb by (subst unat_plus_if') simp
    then show ?thesis using lim(1,3) less.prems(4) by (simp add: l_def h_def)
  qed
  have step: "\<exists>tm v'. write_loop b (Some e) ss es so lo input (k # ks) r temp v =
        write_loop b (Some e) ss es so lo input ks ?r' tm v' \<and> file_ok b v' e cs \<and>
      (\<forall>j<T. file_byte b v' cs j = (if 512 * k + l \<le> j \<and> j < 512 * k + h then input (j - a) else file_byte b v cs j))" for ks
  proof (cases "word_of_nat k = es \<or> (word_of_nat k = ss \<and> so \<noteq> 0)")
    case True
    obtain c where c: "FatReadSectorFromFile b v (Some e) (word_of_nat k) 0 temp =
      (0, \<lambda>i. if i < 512 then file_byte b v cs (512 * k + i) else temp i, with_cache c v)" "cache_good b (set cs) (with_cache c v)"
      using read_file_sector [OF less.prems(1) sect, of 0 temp] unfolding uk by (simp cong: if_cong) blast
    let ?tm = "\<lambda>i. if i < 512 then file_byte b v cs (512 * k + i) else temp i"
    define lw where "lw = (if word_of_nat k = ss then so else 0)"
    define up where "up = (if word_of_nat k = es then lo + 1 else bps b)"
    have ul: "unat lw = l" unfolding lw_def first l_def low_limit_def using w(3) by simp
    have "unat (lo + 1) = unat lo + 1" using w(4) by (subst unat_plus_if') (simp split: if_splits)
    then have uu: "unat up = h"
      unfolding up_def final h_def using write_upper [OF z, of k a] w(4) zz(2) by (auto simp: b high_limit_def)
    have ud: "unat (up - lw) = h - l"
      using lim(1) ul uu by (subst unat_sub) (simp_all add: word_le_nat_alt l_def h_def)
    let ?tm2 = "\<lambda>i. if l \<le> i \<and> i < h then input (unat r + (i - l)) else ?tm i"
    have ci: "copy_in [0..<unat (up - lw)] (unat lw) input r ?tm = (?r', ?tm2)"
    proof -
      have "l \<le> h" using lim(1) by (simp add: l_def h_def)
      then show ?thesis
        unfolding ud ul using copy_in_eq [of 0 "h - l" r l input ?tm] rb(2)
        by (simp only: diff_zero add_0_right le_add_diff_inverse le0 simp_thms)
    qed
    obtain d where d: "FatWriteSectorsToFile b (with_cache c v) (Some e) (word_of_nat k) 0 ?tm2 1 =
        Done (0, with_cache d (written b cs k ?tm2 (with_cache c v)))"
      "file_ok b (with_cache d (written b cs k ?tm2 (with_cache c v))) e cs"
      using write_file_sector [OF file_ok_cache [OF less.prems(1) c(2)] ap sect ks(2), of 0 ?tm2] unfolding uk add_0 by blast
    have fb: "file_byte b (with_cache d (written b cs k ?tm2 (with_cache c v))) cs j =
        (if 512 * k + l \<le> j \<and> j < 512 * k + h then input (j - a) else file_byte b v cs j)" if j: "j < T" for j
    proof -
      have jk: "j = 512 * (j div 512) + j mod 512" by simp
      have "file_byte b (with_cache d (written b cs k ?tm2 (with_cache c v))) cs j = (if j div 512 = k then ?tm2 (j mod 512) else file_byte b v cs j)"
        using file_byte_written [OF ap ks(1), of j ?tm2 "with_cache c v"] j T by simp
      also have "\<dots> = (if 512 * k + l \<le> j \<and> j < 512 * k + h then input (j - a) else file_byte b v cs j)"
      proof (cases "j div 512 = k")
        case True
        have jm: "j = 512 * k + j mod 512" using jk True by simp
        have ix: "unat r + (j mod 512 - l) = j - a" if "l \<le> j mod 512"
          using that jm lim(3) less.prems(4) unfolding l_def by linarith
        have in1: "(l \<le> j mod 512 \<and> j mod 512 < h) = (512 * k + l \<le> j \<and> j < 512 * k + h)"
          using jm by linarith
        have "j mod 512 < 512" by simp
        then show ?thesis using True ix in1 jm by auto
      next
        case False
        then have "\<not> (512 * k + l \<le> j \<and> j < 512 * k + h)" using jk lim(2) unfolding h_def by linarith
        then show ?thesis using False by auto
      qed
      finally show ?thesis .
    qed
    have "write_loop b (Some e) ss es so lo input (k # ks) r temp v =
        write_loop b (Some e) ss es so lo input ks ?r' ?tm2 (with_cache d (written b cs k ?tm2 (with_cache c v)))"
      unfolding write_loop.simps(2) Let_def lw_def [symmetric] up_def [symmetric] using True c(1) ci d(1) by simp
    then show ?thesis using d(2) fb by blast
  next
    case False
    then have "k \<noteq> (a + ?z - 1) div 512" "k \<noteq> a div 512 \<or> a mod 512 = 0"
      using first final w(3) zz(2) by (auto simp: unat_eq_0)
    then have lh: "l = 0" "h = 512" by (auto simp: l_def h_def low_limit_def high_limit_def)
    obtain d where d: "FatWriteSectorsToFile b v (Some e) (word_of_nat k) (unat r) input 1 =
        Done (0, with_cache d (written b cs k (\<lambda>i. input (unat r + i)) v))"
      "file_ok b (with_cache d (written b cs k (\<lambda>i. input (unat r + i)) v)) e cs"
      using write_file_sector [OF less.prems(1) ap sect ks(2), of "unat r" input] unfolding uk by blast
    have fb: "file_byte b (with_cache d (written b cs k (\<lambda>i. input (unat r + i)) v)) cs j =
        (if 512 * k + l \<le> j \<and> j < 512 * k + h then input (j - a) else file_byte b v cs j)" if j: "j < T" for j
    proof -
      have jk: "j = 512 * (j div 512) + j mod 512" "j mod 512 < 512" by simp_all
      have in1: "(j div 512 = k) = (512 * k + l \<le> j \<and> j < 512 * k + h)" using jk unfolding lh by linarith
      have "unat r + j mod 512 = j - a" if "j div 512 = k"
        using that jk lim(3) less.prems(4) lh(1) unfolding l_def by linarith
      then show ?thesis
        using file_byte_written [OF ap ks(1), of j "\<lambda>i. input (unat r + i)" v] j T in1 by auto
    qed
    have "write_loop b (Some e) ss es so lo input (k # ks) r temp v =
        write_loop b (Some e) ss es so lo input ks ?r' temp (with_cache d (written b cs k (\<lambda>i. input (unat r + i)) v))"
      unfolding write_loop.simps(2) Let_def using False d(1) lh by auto
    then show ?thesis using d(2) fb by blast
  qed
  show ?case
  proof (cases "k = ?last")
    case True
    obtain v' where v': "write_loop b (Some e) ss es so lo input [k] r temp v = Done (0, ?r', v')" "file_ok b v' e cs"
      "\<forall>j<T. file_byte b v' cs j = (if 512 * k + l \<le> j \<and> j < 512 * k + h then input (j - a) else file_byte b v cs j)"
      using step [of "[]"] by (auto simp del: write_loop.simps(2))
    have e: "512 * k + h = a + ?z" using lim(6) True zz(2) by (simp add: h_def)
    have rr: "512 * k + l = a + unat r" using less.prems(4) lim(3) by (simp add: l_def)
    have "?r' = word_of_nat ?z"
    proof -
      have "unat ?r' = ?z" using ur' e by simp
      then show ?thesis by (metis of_nat_unat ucast_id)
    qed
    moreover have "[k..<Suc ?last] = [k]" using True by simp
    ultimately show ?thesis using v' unfolding e rr by (intro exI [of _ v']) (simp only: simp_thms)
  next
    case False
    then have kl: "k < ?last" using less.prems(3) by simp
    obtain tm v1 where v1: "write_loop b (Some e) ss es so lo input (k # [Suc k..<Suc ?last]) r temp v =
        write_loop b (Some e) ss es so lo input [Suc k..<Suc ?last] ?r' tm v1" "file_ok b v1 e cs"
      "\<forall>j<T. file_byte b v1 cs j = (if 512 * k + l \<le> j \<and> j < 512 * k + h then input (j - a) else file_byte b v cs j)"
      using step by blast
    have nx: "512 * k + h = 512 * Suc k + low_limit a (Suc k)" using lim(5) kl zz(2) by (simp add: h_def)
    have r'2: "unat ?r' = 512 * Suc k + low_limit a (Suc k) - a" using ur' nx by simp
    have lt: "?last - Suc k < ?last - k" and k1: "a div 512 \<le> Suc k" "Suc k \<le> ?last" using kl less.prems(2) by auto
    obtain v2 where v2: "write_loop b (Some e) ss es so lo input [Suc k..<Suc ?last] ?r' tm v1 = Done (0, word_of_nat ?z, v2)"
      "file_ok b v2 e cs"
      "\<forall>j<T. file_byte b v2 cs j = (if a + unat ?r' \<le> j \<and> j < a + ?z then input (j - a) else file_byte b v1 cs j)"
      using less.hyps [OF lt v1(2) k1 r'2] by blast
    have u: "[k..<Suc ?last] = k # [Suc k..<Suc ?last]" using kl by (simp add: upt_conv_Cons del: upt_Suc)
    have rr: "512 * k + l = a + unat r" using less.prems(4) lim(3) by (simp add: l_def)
    have rr': "512 * k + h = a + unat ?r'" using ur' lim(1,3) by (simp add: h_def l_def)
    have "unat ?r' \<le> ?z" "unat r \<le> unat ?r'" using rr rr' rb(1) lim(1) unfolding l_def h_def by linarith+
    then have "\<forall>j<T. file_byte b v2 cs j = (if a + unat r \<le> j \<and> j < a + ?z then input (j - a) else file_byte b v cs j)"
      using v2(3) v1(3) unfolding rr rr' by (auto simp del: of_nat_diff)
    then show ?thesis using v1(1) v2 unfolding u by (intro exI [of _ v2]) (simp only: simp_thms)
  qed
qed

section \<open>Names\<close>

lemma compare_name_loop_eq:
  assumes "f n = 0" "\<forall>i<n. f i \<noteq> 0" "i \<le> n"
  shows "compare_name_loop f g i = Some (\<forall>j. i \<le> j \<and> j < n \<longrightarrow> ToUppercase (f j) = ToUppercase (g j))"
  using assms(3)
proof (induction "n - i" arbitrary: i)
  case 0
  then show ?case using assms(1) by (subst compare_name_loop.simps) auto
next
  case (Suc d)
  have lt: "i < n" using Suc(2) by simp
  have IH: "compare_name_loop f g (Suc i) = Some (\<forall>j. Suc i \<le> j \<and> j < n \<longrightarrow> ToUppercase (f j) = ToUppercase (g j))"
    using Suc by simp
  have "(\<forall>j. i \<le> j \<and> j < n \<longrightarrow> ToUppercase (f j) = ToUppercase (g j)) \<longleftrightarrow>
      ToUppercase (f i) = ToUppercase (g i) \<and> (\<forall>j. Suc i \<le> j \<and> j < n \<longrightarrow> ToUppercase (f j) = ToUppercase (g j))"
    using lt by (metis Suc_leI le_neq_implies_less order_refl Suc_leD)
  then show ?case using assms(2) lt IH by (subst compare_name_loop.simps) auto
qed

lemma FatCompareName_eq:
  "f n = 0 \<Longrightarrow> \<forall>i<n. f i \<noteq> 0 \<Longrightarrow> FatCompareName e f = (\<forall>i<n. ToUppercase (f i) = ToUppercase (entry_name e i))"
  using compare_name_loop_eq [of f n 0 "entry_name e"] by (simp add: FatCompareName_def)

section \<open>Properties\<close>

text \<open>C19: reading from a file gives exactly the bytes asked for, across the borders of sectors and
  clusters, and touches neither the disk nor the rest of the buffer.\<close>

theorem FatReadFile_spec:
  assumes "file_ok b v e cs" "0 < unat sz" "unat offset + unat sz < 2 ^ 32"
    and "unat offset + unat sz \<le> 512 * (unat (SectorsPerCluster b) * length cs)"
  shows "\<exists>c. FatReadFile b v (Some e) offset sz out =
    (0, Some sz, (\<lambda>i. if i < unat sz then file_byte b v cs (unat offset + i) else out i), with_cache c v)"
proof -
  let ?a = "unat offset" and ?z = "unat sz"
  have b: "bps b = 512" using assms(1) volume_bps by (auto simp: file_ok_def)
  have u1: "unat (offset + sz) = ?a + ?z" using assms(3) by (subst unat_plus_if') simp
  have u2: "unat (offset + sz - 1) = ?a + ?z - 1" using u1 assms(2) unat_sub [of 1 "offset + sz"] by (simp add: word_le_nat_alt)
  have s: "unat (offset div bps b) = ?a div 512" "unat ((offset + sz - 1) div bps b) + 1 = Suc ((?a + ?z - 1) div 512)"
    unfolding b by (simp_all add: unat_div_distrib u2)
  have k: "?a div 512 \<le> (?a + ?z - 1) div 512" using assms(2) by (intro div_le_mono) simp
  obtain c where "read_loop b (Some e) offset sz (offset div bps b) ((offset + sz - 1) div bps b)
      [?a div 512..<Suc ((?a + ?z - 1) div 512)] 0 (\<lambda>_. 0) out v =
      (0, sz, (\<lambda>i. if unat (0 :: u32) \<le> i \<and> i < ?z then file_byte b v cs (?a + i) else out i), with_cache c v)"
    using read_loop_from [OF assms(1-4) order_refl k, of 0 "\<lambda>_. 0" out] by (auto simp: low_limit_def)
  moreover have "sz \<noteq> 0" using assms(2) by auto
  ultimately show ?thesis unfolding FatReadFile_def Let_def s by (intro exI [of _ c]) simp
qed

text \<open>The directory entry of a file that starts at cluster 2.\<close>

definition cluster2_file :: direntry where "cluster2_file = (\<lambda>_. 0)(26 := 2)"

lemma small_file_ok: "file_ok small_volume small_disk cluster2_file [2]" "file_apart small_volume [2]"
  "file_sector small_volume [2] 0 = 2" "SectorsPerCluster small_volume = 1"
proof -
  show s1: "SectorsPerCluster small_volume = 1" by (simp add: small_volume_def)
  show fs: "file_sector small_volume [2] 0 = 2"
    by (simp add: file_sector_def cluster_sector_def first_sector_of_cluster_def FatCalculateFirstClusterPosition_def
        FatFileAllocationTableSize_def s1) (simp add: small_volume_def)
  show "file_apart small_volume [2]" using fs by (simp add: file_apart_def s1 small_entry)
  have "healthy small_disk" by (simp add: healthy_def small_disk_def)
  moreover have "chain small_volume small_disk [2]"
    by (simp add: chain_def small_entry FatIsClusterEof_def FatGetClusterEof_def small_volume_ok)
  moreover have "cache_good small_volume {2} small_disk" by (simp add: cache_good_def small_entry) (simp add: small_disk_def)
  moreover have "FatGetFirstClusterOfFile small_volume (Some cluster2_file) = 2"
    by (simp add: FatGetFirstClusterOfFile_def cluster2_file_def low_cluster_def high_cluster_def get16_def small_volume_ok)
  ultimately show "file_ok small_volume small_disk cluster2_file [2]" by (simp add: file_ok_def small_volume_ok s1)
qed

theorem FatReadFile_spec_witness:
  "\<exists>c. FatReadFile small_volume small_disk (Some cluster2_file) 5 3 (\<lambda>_. 7) =
    (0, Some 3, (\<lambda>i. if i < 3 then 0 else 7), with_cache c small_disk)"
proof -
  have "file_byte small_volume small_disk [2] (5 + i) = 0" if "i < 3" for i
    using that by (simp add: file_byte_def small_file_ok) (simp add: small_disk_def)
  then have "(\<lambda>i. if i < 3 then file_byte small_volume small_disk [2] (5 + i) else 7) = (\<lambda>i. if i < 3 then 0 else 7)" by auto
  then show ?thesis
    using FatReadFile_spec [OF small_file_ok(1), of 3 5 "\<lambda>_. 7"] small_file_ok(4) by (simp cong: if_cong)
qed

text \<open>C20: writing to a file changes exactly the bytes written, unless the last of them is the first
  byte of its sector: then 511 bytes behind it are overwritten as well, with whatever lies behind
  the input, and counted as written.\<close>

theorem FatWriteFile_spec:
  fixes offset sz :: u64 and cs :: "u32 list" and b :: BPB
  defines "a \<equiv> unat offset" and "z \<equiv> unat sz" and "T \<equiv> 512 * (unat (SectorsPerCluster b) * length cs)"
  defines "n \<equiv> (if (a + z - 1) mod 512 = 0 then z + 511 else z)"
  assumes "file_ok b v e cs" "file_apart b cs" "0 < z" "T < 2 ^ 32" "a + n \<le> T"
  shows "\<exists>v'. FatWriteFile b v (Some e) offset sz input = Done (0, word_of_nat n, v') \<and> file_ok b v' e cs \<and>
    (\<forall>j<T. file_byte b v' cs j = (if a \<le> j \<and> j < a + n then input (j - a) else file_byte b v cs j))"
proof -
  have n: "n = write_extent a z" by (simp add: n_def write_extent_def)
  have b: "bps b = 512" "ucast (BytesPerSector b) = (512 :: u64)"
    using assms(5) volume_bps by (auto simp: file_ok_def table_volume_def)
  have az: "a + z < 2 ^ 32" using assms(8,9) by (auto simp: n_def split: if_splits)
  have u1: "unat (offset + sz) = a + z" using az by (subst unat_plus_if') (simp add: a_def z_def)
  have u2: "unat (offset + sz - 1) = a + z - 1" using u1 assms(7) unat_sub [of 1 "offset + sz"] by (simp add: word_le_nat_alt)
  have uc: "unat (ucast x :: u32) = unat x" if "unat x < 2 ^ 32" for x :: u64
    using that by (simp add: unsigned_ucast_eq take_bit_nat_eq_self)
  have ss: "unat (ucast (offset div 512) :: u32) = a div 512"
    using az by (subst uc) (simp_all add: unat_div_distrib a_def)
  have es: "unat (ucast (offset + sz - 1) div 512 :: u32) = (a + z - 1) div 512"
    unfolding unat_div_distrib using az by (subst uc) (simp_all add: u2)
  have so: "unat (ucast (offset mod 512) :: u32) = a mod 512"
    by (subst uc) (simp_all add: unat_mod_distrib a_def)
  have l0: "unat (ucast ((offset + sz - 1) mod 512) :: u32) = (a + z - 1) mod 512"
    by (subst uc) (simp_all add: unat_mod_distrib u2)
  let ?lo = "if ucast ((offset + sz - 1) mod 512) = (0 :: u32) then bps b - 1 else ucast ((offset + sz - 1) mod 512)"
  have lo: "unat ?lo = (if (a + z - 1) mod 512 = 0 then 511 else (a + z - 1) mod 512)"
    using l0 by (auto simp: b unat_eq_0 [symmetric] simp del: unat_eq_0)
  have k: "a div 512 \<le> (a + z - 1) div 512" using assms(7) by (intro div_le_mono) simp
  obtain v' where "write_loop b (Some e) (ucast (offset div 512)) (ucast (offset + sz - 1) div 512) (ucast (offset mod 512)) ?lo
      input [a div 512..<Suc ((a + z - 1) div 512)] 0 (fresh v) v = Done (0, word_of_nat n, v')" "file_ok b v' e cs"
    "\<forall>j<T. file_byte b v' cs j = (if a + unat (0 :: u32) \<le> j \<and> j < a + n then input (j - a) else file_byte b v cs j)"
    using write_loop_from [OF assms(5-7) meta_eq_to_obj_eq [OF T_def] assms(8) _ ss es so lo order_refl k, of 0 input "fresh v"] assms(9)
    unfolding n by (auto simp: low_limit_def)
  then show ?thesis
    unfolding FatWriteFile_def Let_def b using ss es by (intro exI [of _ v']) (simp add: b)
qed

theorem FatWriteFile_spec_witness:
  "\<exists>v'. FatWriteFile small_volume small_disk (Some cluster2_file) 0 1 (\<lambda>i. word_of_nat i) = Done (0, 512, v') \<and>
    file_byte small_volume v' [2] 255 = 255"
  using FatWriteFile_spec [OF small_file_ok(1,2), of 1 0 "\<lambda>i. word_of_nat i"] small_file_ok(4) by auto

text \<open>C21: a search in a directory sector takes the first file or directory whose name begins with the
  name looked for, letters compared in upper case: "F" finds "FOO.TXT", and the empty name the
  first entry.\<close>

theorem FatSearch_takes_prefix:
  assumes "name n = 0" "\<forall>i<n. name i \<noteq> 0"
  shows "FatSearchForFileInDirectory buf b name =
    (case List.find (\<lambda>k. FatIsFileOrDir (entry_at buf k) \<and>
                        (\<forall>i<n. ToUppercase (name i) = ToUppercase (entry_name (entry_at buf k) i))) [0..<unat (bps b) div 32] of
       Some k \<Rightarrow> Inr (entry_at buf k) | None \<Rightarrow> Inl VFS_ERR_FILE_NOT_FOUND)"
  by (simp add: FatSearchForFileInDirectory_def FatCompareName_eq [OF assms] entries_per_sector_def)

text \<open>A sector whose first entry is FOO.TXT.\<close>

definition foo_sector :: bytes where
  "foo_sector = (\<lambda>_. 0)(0 := 0x46, 1 := 0x4F, 2 := 0x4F, 3 := 0x20, 4 := 0x20, 5 := 0x20, 6 := 0x20, 7 := 0x20,
     8 := 0x54, 9 := 0x58, 10 := 0x54)"

theorem FatSearch_takes_prefix_witness:
  "FatSearchForFileInDirectory foo_sector small_volume ((\<lambda>_. 0)(0 := 0x66)) = Inr (entry_at foo_sector 0)"
proof -
  have "bps small_volume = 512" by (simp add: bps_def small_volume_def)
  moreover have "[0..<16] = 0 # [1..<16]" by (simp add: upt_conv_Cons)
  moreover have "FatIsFileOrDir (entry_at foo_sector 0)"
    by (simp add: FatIsFileOrDir_def entry_at_def foo_sector_def file_attributes_def)
  moreover have "ToUppercase 0x66 = ToUppercase (entry_name (entry_at foo_sector 0) 0)"
    by code_simp
  ultimately show ?thesis
    using FatSearch_takes_prefix [of "(\<lambda>_. 0)(0 := 0x66)" 1 foo_sector small_volume] by simp
qed

end
