(* ===== verification/FatVfs.thy ===== *)
theory FatVfs
  imports FatFile
begin

text \<open>
  The FAT driver, third part: the operations it offers to the virtual file system
  (NNXOSKRN/drivers/builtin/fs/fat.c). Each reads the BIOS parameter block anew and finds the
  directory entry of the path before it works on it. Memory for paths is fresh memory.
\<close>

section \<open>Looking up\<close>

definition FatVfsInterfaceGetDirectoryEntry :: "vfs \<Rightarrow> cstr \<Rightarrow> ((VFS_STATUS + direntry) \<times> BPB \<times> vfs) outcome" where
  "FatVfsInterfaceGetDirectoryEntry v path =
     (let b = read_bpb v in
      obind (FatReccursivlyFindDirectoryEntry b v (FatGetRootCluster b) path) (\<lambda>(r, v). Done (r, b, v)))"

definition FatVfsInterfaceCheckIfFileExists :: "vfs \<Rightarrow> cstr \<Rightarrow> (bool \<times> vfs) outcome" where
  "FatVfsInterfaceCheckIfFileExists v path =
     obind (FatVfsInterfaceGetDirectoryEntry v path) (\<lambda>(r, b, v). Done (\<not> isl r, v))"

definition FatVfsInterfaceOpenFile :: "bool \<times> bool \<times> bool \<Rightarrow> vfs \<Rightarrow> cstr \<Rightarrow> (VFS_FILE option \<times> vfs) outcome" where
  "FatVfsInterfaceOpenFile allocated v path =
     obind (FatVfsInterfaceCheckIfFileExists v path) (\<lambda>(exists, v).
       if \<not> exists then Done (None, v)
       else
         obind (FatVfsInterfaceGetDirectoryEntry v path) (\<lambda>(r, b, v).
           case r of
             Inl _ \<Rightarrow> Done (None, v)
           | Inr e \<Rightarrow>
               (case VfsAllocateVfsFile allocated path of
                  None \<Rightarrow> Fault
                | Some file \<Rightarrow> Done (Some (file\<lparr>FileSize := ucast (file_size e)\<rparr>), v))))"

section \<open>Creating\<close>

definition parent_path :: "vfs \<Rightarrow> cstr \<Rightarrow> u64 \<Rightarrow> cstr" where
  "parent_path v path borderPoint =
     (\<lambda>i. if i < unat (borderPoint - 1) then path i else if i = unat (borderPoint - 1) then 0 else fresh v i)"

definition FatVfsInterfaceCreateFile :: "vfs \<Rightarrow> cstr \<Rightarrow> (VFS_STATUS \<times> vfs) outcome" where
  "FatVfsInterfaceCreateFile v path =
     obind (GetFileNameAndExtensionFromPath path (\<lambda>_. 0)) (\<lambda>(borderPoint, fileEntry).
     obind (FatVfsInterfaceCheckIfFileExists v path) (\<lambda>(exists, v).
       if exists then Done (VFS_ERR_FILE_ALREADY_EXISTS, v)
       else if borderPoint \<noteq> 0
       then
         obind (FatVfsInterfaceGetDirectoryEntry v (parent_path v path borderPoint)) (\<lambda>(r, b, v).
           let parent = (case r of Inr e \<Rightarrow> e | Inl _ \<Rightarrow> (\<lambda>_. 0));
               (status, v) = (if high_cluster parent = 0 \<and> low_cluster parent = 0
                              then write_entry b v (FatFindFreeCluster b v) (FatGetClusterEof b) else (0, v))
           in if status \<noteq> 0 then Done (status, v)
              else
                obind (FatAddDirectoryEntry b v (Some parent) fileEntry) (\<lambda>(status, v).
                  if status = VFS_ERR_EOF
                  then
                    obind (FatIncreaseClusterChainLengthBy b v (FatGetFirstClusterOfFile b (Some parent)) 1) (\<lambda>(status, v).
                      if status = 0 then FatAddDirectoryEntry b v (Some parent) fileEntry
                      else Done (VFS_ERR_NOT_ENOUGH_ROOM_FOR_WRITE, v))
                  else Done (status, v)))
       else
         let b = read_bpb v; status = fst (VfsReadSector v 0 0 (\<lambda>_. 0))
         in if status \<noteq> 0 then Done (status, v) else FatAddDirectoryEntry b v None fileEntry))"

definition FatVfsInterfaceOpenOrCreateFile :: "bool \<times> bool \<times> bool \<Rightarrow> vfs \<Rightarrow> cstr \<Rightarrow> (VFS_FILE option \<times> vfs) outcome" where
  "FatVfsInterfaceOpenOrCreateFile allocated v path =
     obind (FatVfsInterfaceCheckIfFileExists v path) (\<lambda>(exists, v).
       if exists then FatVfsInterfaceOpenFile allocated v path
       else
         obind (FatVfsInterfaceCreateFile v path) (\<lambda>(status, v).
           if status \<noteq> 0 then Done (None, v) else FatVfsInterfaceOpenFile allocated v path))"

definition FatVfsInterfaceRecreateDeletedFile :: "VFS_FILE \<Rightarrow> vfs \<Rightarrow> (VFS_STATUS \<times> vfs) outcome" where
  "FatVfsInterfaceRecreateDeletedFile file v = FatVfsInterfaceCreateFile v (FPath file)"

section \<open>Deleting\<close>

definition FatVfsInterfaceDeleteFileFromPath :: "vfs \<Rightarrow> cstr \<Rightarrow> (VFS_STATUS \<times> vfs) outcome" where
  "FatVfsInterfaceDeleteFileFromPath v path =
     (let parentPathLength = GetParentPathLength path + 1 in
      obind (FatVfsInterfaceGetDirectoryEntry v path) (\<lambda>(r, b, v).
        case r of
          Inl status \<Rightarrow> Done (status, v)
        | Inr _ \<Rightarrow>
            if parentPathLength = 0 then FatDeleteFile b v None path
            else
              obind (GetParentPath path (fresh v)) (\<lambda>(_, parentPath).
              obind (FatVfsInterfaceGetDirectoryEntry v parentPath) (\<lambda>(r, b, v).
                case r of
                  Inl status \<Rightarrow> Done (status, v)
                | Inr parentFile \<Rightarrow> FatDeleteFile b v (Some parentFile) (shift path parentPathLength)))))"

definition FatVfsInterfaceDeleteFile :: "VFS_FILE \<Rightarrow> vfs \<Rightarrow> (VFS_STATUS \<times> vfs) outcome" where
  "FatVfsInterfaceDeleteFile file v = FatVfsInterfaceDeleteFileFromPath v (FPath file)"

section \<open>Reading and writing\<close>

definition Checks :: "VFS_FILE option \<Rightarrow> u64 \<Rightarrow> VFS_STATUS" where
  "Checks file sz =
     (if sz = 0 then VFS_ERR_ARGUMENT_INVALID
      else case file of
             None \<Rightarrow> VFS_ERR_ARGUMENT_INVALID
           | Some f \<Rightarrow> if FileSize f < FilePointer f then VFS_ERR_ARGUMENT_INVALID else 0)"

definition FatVfsInterfaceWriteFile :: "VFS_FILE option \<Rightarrow> u64 \<Rightarrow> bytes \<Rightarrow> vfs \<Rightarrow> (VFS_STATUS \<times> VFS_FILE option \<times> vfs) outcome" where
  "FatVfsInterfaceWriteFile file sz buffer v =
     (if Checks file sz \<noteq> 0 then Done (Checks file sz, file, v)
      else
        let f = the file in
        obind (FatVfsInterfaceGetDirectoryEntry v (FPath f)) (\<lambda>(r, b, v).
          case r of
            Inl status \<Rightarrow> Done (status, file, v)
          | Inr e \<Rightarrow>
              obind (FatWriteFile b v (Some e) (FilePointer f) sz buffer) (\<lambda>(status, written, v).
                Done (status, Some (f\<lparr>FilePointer := FilePointer f + ucast written\<rparr>), v))))"

definition FatVfsInterfaceReadFile ::
  "VFS_FILE option \<Rightarrow> u64 \<Rightarrow> bytes \<Rightarrow> vfs \<Rightarrow> (VFS_STATUS \<times> bytes \<times> VFS_FILE option \<times> vfs) outcome" where
  "FatVfsInterfaceReadFile file sz buffer v =
     (if Checks file sz \<noteq> 0 then Done (Checks file sz, buffer, file, v)
      else
        let f = the file in
        obind (FatVfsInterfaceGetDirectoryEntry v (FPath f)) (\<lambda>(r, b, v).
          case r of
            Inl status \<Rightarrow> Done (status, buffer, file, v)
          | Inr e \<Rightarrow>
              (case FatReadFile b v (Some e) (ucast (FilePointer f)) (ucast sz) buffer of
                 (status, Some n, buffer, v) \<Rightarrow>
                   Done (status, buffer, Some (f\<lparr>FilePointer := FilePointer f + ucast n\<rparr>), v)
               | (status, None, buffer, v) \<Rightarrow> Fault)))"

definition FatVfsInterfaceResizeFile :: "VFS_FILE \<Rightarrow> u64 \<Rightarrow> vfs \<Rightarrow> (VFS_STATUS \<times> VFS_FILE \<times> vfs) outcome" where
  "FatVfsInterfaceResizeFile file newsize v =
     (let resize = (\<lambda>b parent v. obind (FatResizeFile b v parent (FName file) newsize) (\<lambda>(status, v).
                      Done (status, if status \<noteq> 0 then file else file\<lparr>FileSize := newsize\<rparr>, v)))
      in if GetParentPathLength (FPath file) + 1 > 0
         then
           obind (GetParentPath (FPath file) (fresh v)) (\<lambda>(_, parentPath).
           obind (FatVfsInterfaceGetDirectoryEntry v parentPath) (\<lambda>(r, b, v).
             case r of
               Inl status \<Rightarrow> Done (status, file, v)
             | Inr parentDirentry \<Rightarrow> resize b (Some parentDirentry) v))
         else resize (read_bpb v) None v)"

definition FatVfsInterfaceAppendFile :: "VFS_FILE option \<Rightarrow> u64 \<Rightarrow> bytes \<Rightarrow> vfs \<Rightarrow> (VFS_STATUS \<times> VFS_FILE option \<times> vfs) outcome" where
  "FatVfsInterfaceAppendFile file sz buffer v =
     (if Checks file sz \<noteq> 0 then Done (Checks file sz, file, v)
      else
        obind (FatVfsInterfaceResizeFile (the file) (FileSize (the file) + sz) v) (\<lambda>(status, f, v).
          if status \<noteq> 0 then Done (status, Some f, v)
          else
            obind (FatVfsInterfaceGetDirectoryEntry v (FPath f)) (\<lambda>(r, b, v).
              case r of
                Inl status \<Rightarrow> Done (status, Some f, v)
              | Inr e \<Rightarrow>
                  obind (FatWriteFile b v (Some e) (FileSize f - sz) sz buffer) (\<lambda>(status, _, v).
                    Done (status, Some f, v)))))"

section \<open>Attributes and directories\<close>

definition FatVfsInterfaceChangeDirectoryEntryInternal :: "vfs \<Rightarrow> cstr \<Rightarrow> direntry \<Rightarrow> (VFS_STATUS \<times> BPB \<times> vfs) outcome" where
  "FatVfsInterfaceChangeDirectoryEntryInternal v path desired =
     obind (FatVfsInterfaceGetDirectoryEntry v path) (\<lambda>(r, b, v).
       case r of
         Inl status \<Rightarrow> Done (status, b, v)
       | Inr fileEntry \<Rightarrow>
           if GetParentPathLength path > 0
           then
             obind (GetParentPath path (fresh v)) (\<lambda>(_, parentPath).
             obind (FatVfsInterfaceGetDirectoryEntry v parentPath) (\<lambda>(r, b, v).
               case r of
                 Inl status \<Rightarrow> Done (status, b, v)
               | Inr parentFile \<Rightarrow>
                   obind (FatChangeDirectoryEntry b v (Some parentFile) fileEntry desired) (\<lambda>(status, v). Done (status, b, v))))
           else obind (FatChangeDirectoryEntry b v None fileEntry desired) (\<lambda>(status, v). Done (status, b, v)))"

text \<open>It always reports success. When the first attempt fails and the entry is not found either, the
  entry on the stack is unknown.\<close>

definition FatVfsInterfaceChangeDirectoryEntry :: "vfs \<Rightarrow> cstr \<Rightarrow> direntry \<Rightarrow> (VFS_STATUS \<times> vfs) outcome" where
  "FatVfsInterfaceChangeDirectoryEntry v path desired =
     obind (FatVfsInterfaceChangeDirectoryEntryInternal v path desired) (\<lambda>(status, b, v).
       if status = 0 then Done (0, v)
       else
         obind (FatVfsInterfaceGetDirectoryEntry v path) (\<lambda>(r, b, v).
           let file = (case r of Inr e \<Rightarrow> e | Inl _ \<Rightarrow> fresh v) in
           obind (FatIncreaseClusterChainLengthBy b v (FatGetFirstClusterOfFile b (Some file)) 1) (\<lambda>(status, v).
             if status = 0
             then obind (FatVfsInterfaceChangeDirectoryEntryInternal v path desired) (\<lambda>(status, b, v). Done (0, v))
             else Done (0, v))))"

definition FatVfsInterfaceChangeFileAttributes :: "vfs \<Rightarrow> cstr \<Rightarrow> u8 \<Rightarrow> (VFS_STATUS \<times> vfs) outcome" where
  "FatVfsInterfaceChangeFileAttributes v path attributes =
     obind (FatVfsInterfaceGetDirectoryEntry v path) (\<lambda>(r, b, v).
       case r of
         Inl status \<Rightarrow> Done (status, v)
       | Inr e \<Rightarrow> FatVfsInterfaceChangeDirectoryEntry v path (e(11 := attributes)))"

definition FatVfsInterfaceGetFileAttributes :: "vfs \<Rightarrow> cstr \<Rightarrow> (u8 \<times> vfs) outcome" where
  "FatVfsInterfaceGetFileAttributes v path =
     obind (FatVfsInterfaceGetDirectoryEntry v path) (\<lambda>(r, b, v).
       Done (case r of Inl _ \<Rightarrow> 0 | Inr e \<Rightarrow> file_attributes e, v))"

text \<open>The copy of the path is looked at before anything is copied into it: whether trailing slashes are
  cut depends on what the fresh memory holds (and, through the bitwise conjunction, on the
  length being odd).\<close>

primrec cut_slashes :: "nat \<Rightarrow> cstr \<Rightarrow> cstr \<times> nat" where
  "cut_slashes 0 pathCopy = (pathCopy, 0)"
| "cut_slashes (Suc n) pathCopy =
     (if odd (Suc n) \<and> (pathCopy n = SLASH \<or> pathCopy n = BACKSLASH) then cut_slashes n (pathCopy(n := 0))
      else (pathCopy, Suc n))"

definition path_copy :: "vfs \<Rightarrow> cstr \<Rightarrow> cstr" where
  "path_copy v path =
     (let n = unat (str_length path); (pathCopy, pathLength) = cut_slashes n ((fresh v)(n := 0))
      in (\<lambda>i. if i < pathLength then path i else pathCopy i))"

definition dot_name :: "direntry \<Rightarrow> direntry \<Rightarrow> direntry" where
  "dot_name name e = (\<lambda>i. if i < 11 then name i else e i)"

definition FatVfsInterfaceCreateDirectory :: "vfs \<Rightarrow> cstr \<Rightarrow> (VFS_STATUS \<times> vfs) outcome" where
  "FatVfsInterfaceCreateDirectory v path0 =
     (let path = path_copy v path0 in
      obind (FatVfsInterfaceCreateFile v path) (\<lambda>(status, v).
        if status \<noteq> 0 then Done (status, v)
        else
      obind (FatVfsInterfaceChangeFileAttributes v path FAT_DIRECTORY) (\<lambda>(status, v).
        if status \<noteq> 0 then Done (status, v)
        else
      obind (FatVfsInterfaceGetDirectoryEntry v path) (\<lambda>(r, b, v).
        case r of
          Inl status \<Rightarrow>
            obind (FatVfsInterfaceChangeFileAttributes v path 0) (\<lambda>(status2, v).
              if status2 \<noteq> 0 then Done (status, v)
              else obind (FatVfsInterfaceDeleteFileFromPath v path) (\<lambda>(_, v). Done (status, v)))
        | Inr fileEntry \<Rightarrow>
            obind (if GetParentPathLength path \<noteq> 0
                   then
                     obind (GetParentPath path (fresh v)) (\<lambda>(_, parentPath).
                     obind (FatVfsInterfaceGetDirectoryEntry v parentPath) (\<lambda>(r, b, v).
                       case r of
                         Inl status \<Rightarrow> Done (Inl status, b, v)
                       | Inr tempParent \<Rightarrow> Done (Inr (FatGetFirstClusterOfFile b (Some tempParent)), b, v)))
                   else Done (Inr (FatGetRootCluster b), b, v)) (\<lambda>(r, b, v).
              case r of
                Inl status \<Rightarrow> Done (status, v)
              | Inr parentCluster \<Rightarrow>
                  obind (FatAddDirectoryEntry b v (Some fileEntry) (dot_name dot_entry fileEntry)) (\<lambda>(_, v).
                  obind (FatAddDirectoryEntry b v (Some fileEntry)
                           (set_cluster parentCluster (dot_name dotdot_entry fileEntry))) (\<lambda>(_, v).
                    Done (0, v))))))))"

end
