(* ===== verification/Rtc.thy ===== *)
theory Rtc
  imports Irql "HOL-Library.Signed_Division"
begin

text \<open>
  The CMOS memory and the real-time clock (HALX64/cmos.c, HALX64/rtc.c). The device behind the
  ports 0x70 and 0x71 is hardware: it is an argument \<open>dev\<close>, which gives the byte an inb returns
  from the port accesses made so far, the latest first. HalRtcGetTime is compared with a count
  of days by years and months.
\<close>

section \<open>State\<close>

datatype port_access = Out u16 u8 | In u16 u8

type_synonym device = "port_access list \<Rightarrow> u16 \<Rightarrow> u8"

record rtc =
  rcpu :: cpu
  trace :: "port_access list"
  CmosSpinlock :: KSPIN_LOCK
  RtcLock :: KSPIN_LOCK
  HalNmiDesiredState :: u8
  CenturyRegister :: u8
  RtcBcdMode :: bool
  Rtc12HMode :: bool

definition outb :: "u16 \<Rightarrow> u8 \<Rightarrow> rtc \<Rightarrow> rtc" where
  "outb port v s = s\<lparr>trace := Out port v # trace s\<rparr>"

definition inb :: "device \<Rightarrow> u16 \<Rightarrow> rtc \<Rightarrow> u8 \<times> rtc" where
  "inb dev port s = (let v = dev (trace s) port in (v, s\<lparr>trace := In port v # trace s\<rparr>))"

text \<open>KeRaiseIrql(HIGH_LEVEL, &irql) followed by KiAcquireSpinLock, and the way back.\<close>

definition raise_high :: "rtc \<Rightarrow> (u8 \<times> rtc) outcome" where
  "raise_high s = obind (KeRaiseIrql HIGH_LEVEL 1 (rcpu s)) (\<lambda>(stored, c).
     Done (case stored of None \<Rightarrow> 0 | Some old \<Rightarrow> old, s\<lparr>rcpu := c\<rparr>))"

definition lower_to :: "u8 \<Rightarrow> rtc \<Rightarrow> rtc outcome" where
  "lower_to old s = obind (KeLowerIrql old (rcpu s)) (\<lambda>c. Done (s\<lparr>rcpu := c\<rparr>))"

definition lock_cmos :: "rtc \<Rightarrow> rtc outcome" where
  "lock_cmos s = obind (KiAcquireSpinLock (CmosSpinlock s)) (\<lambda>l. Done (s\<lparr>CmosSpinlock := l\<rparr>))"

definition unlock_cmos :: "rtc \<Rightarrow> rtc" where
  "unlock_cmos s = s\<lparr>CmosSpinlock := KiReleaseSpinLock (CmosSpinlock s)\<rparr>"

section \<open>cmos.c\<close>

definition CmosSelectRegister :: "u8 \<Rightarrow> rtc \<Rightarrow> rtc" where
  "CmosSelectRegister Register s = outb 0x70 (or Register (push_bit 7 (HalNmiDesiredState s))) s"

definition CmosWriteRegister :: "u8 \<Rightarrow> u8 \<Rightarrow> rtc \<Rightarrow> rtc outcome" where
  "CmosWriteRegister Register v s =
     obind (raise_high s) (\<lambda>(old, s).
     obind (lock_cmos s) (\<lambda>s.
       lower_to old (unlock_cmos (outb 0x71 v (CmosSelectRegister Register s)))))"

definition CmosReadRegister :: "device \<Rightarrow> u8 \<Rightarrow> rtc \<Rightarrow> (u8 \<times> rtc) outcome" where
  "CmosReadRegister dev Register s =
     obind (raise_high s) (\<lambda>(old, s).
     obind (lock_cmos s) (\<lambda>s.
       let (returnValue, s) = inb dev 0x71 (CmosSelectRegister Register s)
       in obind (lower_to old (unlock_cmos s)) (\<lambda>s. Done (returnValue, s))))"

section \<open>rtc.c: reading a register\<close>

definition HalRtcInitialize :: "device \<Rightarrow> u8 \<Rightarrow> rtc \<Rightarrow> rtc outcome" where
  "HalRtcInitialize dev CenturyRegisterNumber s =
     (let s = s\<lparr>CenturyRegister := (if CenturyRegisterNumber = 0 then 0x32 else CenturyRegisterNumber),
                RtcLock := KeInitializeSpinLock (RtcLock s)\<rparr>
      in obind (CmosReadRegister dev 0x0B s) (\<lambda>(b, s).
         obind (CmosWriteRegister 0xB (and b 0xF9) s) (\<lambda>s.
         obind (CmosReadRegister dev 0x0B s) (\<lambda>(registerB, s).
           Done (s\<lparr>Rtc12HMode := \<not> (and registerB 0x02 \<noteq> 0), RtcBcdMode := \<not> (and registerB 0x04 \<noteq> 0)\<rparr>)))))"

definition CmosInitialize :: "device \<Rightarrow> u8 \<Rightarrow> rtc \<Rightarrow> rtc outcome" where
  "CmosInitialize dev century s =
     HalRtcInitialize dev century (s\<lparr>CmosSpinlock := KeInitializeSpinLock (CmosSpinlock s)\<rparr>)"

text \<open>while (CmosReadRegister(0x0A) & 0x80): the loop ends when the device says so.\<close>

partial_function (option) wait_update :: "device \<Rightarrow> rtc \<Rightarrow> rtc outcome option" where
  "wait_update dev s = next_step (CmosReadRegister dev 0x0A s) (\<lambda>a.
     if and (fst a) 0x80 \<noteq> 0 then wait_update dev (snd a) else Some (Done (snd a)))"

definition read_settled :: "device \<Rightarrow> u8 \<Rightarrow> rtc \<Rightarrow> (u8 \<times> rtc) outcome" where
  "read_settled dev Register s = obind (run_loop (wait_update dev s)) (CmosReadRegister dev Register)"

partial_function (option) read_twice :: "device \<Rightarrow> u8 \<Rightarrow> rtc \<Rightarrow> (u8 \<times> rtc) outcome option" where
  "read_twice dev Register s =
     next_step (read_settled dev Register s) (\<lambda>value1.
     next_step (read_settled dev Register (snd value1)) (\<lambda>value2.
       if fst value1 \<noteq> fst value2 then read_twice dev Register (snd value2) else Some (Done value2)))"

definition bcd_value :: "u8 \<Rightarrow> u8" where
  "bcd_value v = 10 * (drop_bit 4 (and v 0xF0)) + and v 0xF"

definition HalpRtcHandleDataRead :: "device \<Rightarrow> u8 \<Rightarrow> rtc \<Rightarrow> (u8 \<times> rtc) outcome" where
  "HalpRtcHandleDataRead dev Register s =
     obind (raise_high s) (\<lambda>(old, s).
     obind (KiAcquireSpinLock (RtcLock s)) (\<lambda>l.
     obind (run_loop (read_twice dev Register (s\<lparr>RtcLock := l\<rparr>))) (\<lambda>(v, s).
       let v = (if RtcBcdMode s then bcd_value v else v)
       in obind (lower_to old (s\<lparr>RtcLock := KiReleaseSpinLock (RtcLock s)\<rparr>)) (\<lambda>s. Done (v, s)))))"

definition HalRtcGetSeconds :: "device \<Rightarrow> rtc \<Rightarrow> (u8 \<times> rtc) outcome" where
  "HalRtcGetSeconds dev s = HalpRtcHandleDataRead dev 0x00 s"

definition HalRtcGetMinutes :: "device \<Rightarrow> rtc \<Rightarrow> (u8 \<times> rtc) outcome" where
  "HalRtcGetMinutes dev s = HalpRtcHandleDataRead dev 0x02 s"

text \<open>The hour as the bits of the register give it, on a 12 or a 24 hour clock.\<close>

definition adjust_hours :: "bool \<Rightarrow> bool \<Rightarrow> u8 \<Rightarrow> u8" where
  "adjust_hours twelve bcd v =
     (if \<not> twelve then v
      else if v = 12 then 0
      else if v > 12 then (if bcd then v - (80 - 12) else v - (128 - 12))
      else v)"

definition HalRtcGetHours :: "device \<Rightarrow> rtc \<Rightarrow> (u8 \<times> rtc) outcome" where
  "HalRtcGetHours dev s = obind (HalpRtcHandleDataRead dev 0x04 s) (\<lambda>(v, s).
     Done (adjust_hours (Rtc12HMode s) (RtcBcdMode s) v, s))"

definition HalRtcGetDay :: "device \<Rightarrow> rtc \<Rightarrow> (u8 \<times> rtc) outcome" where
  "HalRtcGetDay dev s = HalpRtcHandleDataRead dev 0x07 s"

definition HalRtcGetMonth :: "device \<Rightarrow> rtc \<Rightarrow> (u8 \<times> rtc) outcome" where
  "HalRtcGetMonth dev s = HalpRtcHandleDataRead dev 0x08 s"

definition HalRtcGetYear :: "device \<Rightarrow> rtc \<Rightarrow> (u16 \<times> rtc) outcome" where
  "HalRtcGetYear dev s =
     (if CenturyRegister s \<noteq> 0
      then obind (HalpRtcHandleDataRead dev 0x09 s) (\<lambda>(y, s).
           obind (HalpRtcHandleDataRead dev (CenturyRegister s) s) (\<lambda>(c, s).
             Done (ucast y + 100 * ucast c, s)))
      else obind (HalpRtcHandleDataRead dev 0x09 s) (\<lambda>(y, s). Done (ucast y, s)))"

section \<open>rtc.c: the time\<close>

definition daysSinceYearStartNonLeap :: "u64 list" where
  "daysSinceYearStartNonLeap = [0, 0, 31, 59, 90, 120, 151, 181, 212, 243, 273, 304, 334]"

text \<open>A month above 12 reads the stack behind the table: \<open>behind\<close>. The year is promoted to int, and
  the division and the remainder of ints truncate.\<close>

definition time_of :: "(nat \<Rightarrow> u64) \<Rightarrow> u16 \<Rightarrow> u8 \<Rightarrow> u8 \<Rightarrow> u8 \<Rightarrow> u8 \<Rightarrow> u8 \<Rightarrow> u64" where
  "time_of behind year month day hour minute second =
     (let y = uint year;
          isCurrentYearLeapYear = (if y mod 100 = 0 then y mod 400 = 0 else y mod 4 = 0);
          quadCenturiesSince1600 = (word_of_int ((y - 1600) sdiv 400) :: u64);
          remainderYears = (word_of_int ((y - 1600) smod 400) :: u64);
          leapYearsSince1600 = quadCenturiesSince1600 * (4 * 25 - 3)
            + remainderYears div 4 - remainderYears div 100 + remainderYears div 400
            + (if remainderYears > 0 then 1 else 0);
          m = unat month;
          daysSince1600 = word_of_int ((y - 1600) * 365) + leapYearsSince1600
            + (if m < 13 then daysSinceYearStartNonLeap ! m else behind m)
            + (if isCurrentYearLeapYear \<and> month > 2 then 1 else 0)
            + ucast day - 1;
          secondsSince1600 = 60 * (60 * (daysSince1600 * 24 + ucast hour) + ucast minute) + ucast second
      in secondsSince1600 * 10000000)"

definition HalRtcGetTime :: "device \<Rightarrow> (nat \<Rightarrow> u64) \<Rightarrow> rtc \<Rightarrow> (u64 \<times> rtc) outcome" where
  "HalRtcGetTime dev behind s =
     obind (HalRtcGetYear dev s) (\<lambda>(year, s).
     obind (HalRtcGetMonth dev s) (\<lambda>(month, s).
     obind (HalRtcGetDay dev s) (\<lambda>(day, s).
     obind (HalRtcGetHours dev s) (\<lambda>(hour, s).
     obind (HalRtcGetMinutes dev s) (\<lambda>(minute, s).
     obind (HalRtcGetSeconds dev s) (\<lambda>(second, s).
       Done (time_of behind year month day hour minute second, s)))))))"

section \<open>Reading an idle clock\<close>

text \<open>The locks are free and the processor is at any level. A device that shows registers gives, after
  a register is selected at port 0x70, its contents at port 0x71; the clock is not updating.\<close>

definition cmos_free :: "rtc \<Rightarrow> bool" where
  "cmos_free s = (cpu_ok (rcpu s) \<and> irql (rcpu s) \<le> 15 \<and> CmosSpinlock s = 0)"

definition rtc_free :: "rtc \<Rightarrow> bool" where
  "rtc_free s = (cmos_free s \<and> RtcLock s = 0)"

definition shows_registers :: "device \<Rightarrow> u8 \<Rightarrow> (u8 \<Rightarrow> u8) \<Rightarrow> bool" where
  "shows_registers dev nmi regs =
     (\<forall>r t. dev (Out 0x70 (or r (push_bit 7 nmi)) # t) 0x71 = regs r)"

lemma CmosReadRegister_free:
  assumes "cmos_free s"
  shows "CmosReadRegister dev r s =
    (let t = Out 0x70 (or r (push_bit 7 (HalNmiDesiredState s))) # trace s
     in Done (dev t 0x71, s\<lparr>trace := In 0x71 (dev t 0x71) # t\<rparr>))"
proof -
  obtain c where c: "rcpu s = c" by blast
  have "cpu_ok c" "irql c \<le> 15" "CmosSpinlock s = 0" using assms c by (auto simp: cmos_free_def)
  then show ?thesis using c
    by (cases s; cases c)
      (auto simp: CmosReadRegister_def raise_high_def lower_to_def lock_cmos_def unlock_cmos_def
        inb_def outb_def CmosSelectRegister_def irql_defs KiAcquireSpinLock_def KiReleaseSpinLock_def
        cpu_ok_def Let_def not_less)
qed

lemma cmos_free_trace [simp]:
  "cmos_free (s\<lparr>trace := t\<rparr>) = cmos_free s" "rtc_free (s\<lparr>trace := t\<rparr>) = rtc_free s"
  by (simp_all add: cmos_free_def rtc_free_def)

lemma read_register:
  assumes "cmos_free s" "shows_registers dev (HalNmiDesiredState s) regs"
  obtains t where "CmosReadRegister dev r s = Done (regs r, s\<lparr>trace := t\<rparr>)"
  using assms by (auto simp: CmosReadRegister_free shows_registers_def Let_def)

lemma wait_update_done:
  assumes "cmos_free s" "shows_registers dev (HalNmiDesiredState s) regs" "and (regs 0x0A) 0x80 = 0"
  obtains t where "run_loop (wait_update dev s) = Done (s\<lparr>trace := t\<rparr>)"
proof -
  obtain t where "CmosReadRegister dev 0x0A s = Done (regs 0x0A, s\<lparr>trace := t\<rparr>)"
    using read_register [OF assms(1,2)] .
  then have "run_loop (wait_update dev s) = Done (s\<lparr>trace := t\<rparr>)"
    using assms(3) by (simp add: wait_update.simps run_loop_def)
  then show ?thesis by (rule that)
qed

lemma read_twice_done:
  assumes "cmos_free s" "shows_registers dev (HalNmiDesiredState s) regs" "and (regs 0x0A) 0x80 = 0"
  obtains t where "run_loop (read_twice dev r s) = Done (regs r, s\<lparr>trace := t\<rparr>)"
proof -
  have r: "\<exists>t. read_settled dev r (s\<lparr>trace := u\<rparr>) = Done (regs r, s\<lparr>trace := t\<rparr>)" for u
  proof -
    obtain a where "run_loop (wait_update dev (s\<lparr>trace := u\<rparr>)) = Done (s\<lparr>trace := a\<rparr>)"
      using wait_update_done [of "s\<lparr>trace := u\<rparr>" dev regs] assms by auto
    moreover obtain b where "CmosReadRegister dev r (s\<lparr>trace := a\<rparr>) = Done (regs r, s\<lparr>trace := b\<rparr>)"
      using read_register [of "s\<lparr>trace := a\<rparr>" dev regs r] assms by auto
    ultimately show ?thesis by (auto simp: read_settled_def)
  qed
  have id: "s\<lparr>trace := trace s\<rparr> = s" by simp
  obtain a b where "read_settled dev r s = Done (regs r, s\<lparr>trace := a\<rparr>)"
    "read_settled dev r (s\<lparr>trace := a\<rparr>) = Done (regs r, s\<lparr>trace := b\<rparr>)"
    using r [of "trace s"] r unfolding id by blast
  then have "run_loop (read_twice dev r s) = Done (regs r, s\<lparr>trace := b\<rparr>)"
    by (simp add: read_twice.simps run_loop_def)
  then show ?thesis by (rule that)
qed

lemma HalpRtcHandleDataRead_free:
  assumes "rtc_free s" "shows_registers dev (HalNmiDesiredState s) regs" "and (regs 0x0A) 0x80 = 0"
  obtains t where "HalpRtcHandleDataRead dev r s =
    Done (if RtcBcdMode s then bcd_value (regs r) else regs r, s\<lparr>trace := t\<rparr>)"
proof -
  obtain c where c: "rcpu s = c" by blast
  have f: "cpu_ok c" "irql c \<le> 15" "CmosSpinlock s = 0" "RtcLock s = 0"
    using assms(1) c by (auto simp: rtc_free_def cmos_free_def)
  let ?c = "KiApplyIrql (irql c) 15 c"
  let ?s = "s\<lparr>rcpu := ?c, RtcLock := 1\<rparr>"
  have free: "cmos_free ?s" "shows_registers dev (HalNmiDesiredState ?s) regs"
    using f assms(2) by (simp_all add: cmos_free_def cpu_ok_apply)
  obtain t where t: "run_loop (read_twice dev r ?s) = Done (regs r, ?s\<lparr>trace := t\<rparr>)"
    using read_twice_done [OF free assms(3)] .
  have h: "raise_high s = Done (irql c, s\<lparr>rcpu := ?c\<rparr>)"
    using f c by (auto simp: raise_high_def KeRaiseIrql_def KfRaiseIrql_def KeGetCurrentIrql_def Let_def)
  have l: "KeLowerIrql (irql c) ?c = Done c" using raise_then_lower f by blast
  have "s\<lparr>trace := t, RtcLock := 0, rcpu := c\<rparr> = s\<lparr>trace := t\<rparr>"
    using c f by (cases s) simp
  then have "HalpRtcHandleDataRead dev r s =
    Done (if RtcBcdMode s then bcd_value (regs r) else regs r, s\<lparr>trace := t\<rparr>)"
    using h l t f(4) by (simp add: HalpRtcHandleDataRead_def KiAcquireSpinLock_def KiReleaseSpinLock_def
      lower_to_def Let_def)
  then show ?thesis by (rule that)
qed

section \<open>The calendar\<close>

text \<open>The reference: the days of the years and months before a date.\<close>

definition leap :: "nat \<Rightarrow> bool" where
  "leap y = (4 dvd y \<and> (100 dvd y \<longrightarrow> 400 dvd y))"

definition month_days :: "nat \<Rightarrow> nat \<Rightarrow> nat" where
  "month_days y m =
     (if m = 2 then (if leap y then 29 else 28) else if m \<in> {4, 6, 9, 11} then 30 else 31)"

definition days_before :: "nat \<Rightarrow> nat \<Rightarrow> nat \<Rightarrow> nat" where
  "days_before y m d =
     (\<Sum>k\<in>{1600..<y}. if leap k then 366 else 365) + (\<Sum>k\<in>{1..<m}. month_days y k) + (d - 1)"

definition valid_date :: "nat \<Rightarrow> nat \<Rightarrow> nat \<Rightarrow> bool" where
  "valid_date y m d = (1600 \<le> y \<and> y < 10000 \<and> 1 \<le> m \<and> m \<le> 12 \<and> 1 \<le> d \<and> d \<le> month_days y m)"

text \<open>The leap days the code counts before year 1600 + n: in a leap year that is not a multiple of 400
  the year itself is among them.\<close>

definition leaps_counted :: "nat \<Rightarrow> nat" where
  "leaps_counted n = n div 400 * 97 + (n mod 400 div 4 + (if n mod 400 > 0 then 1 else 0) - n mod 400 div 100)"

definition counted_twice :: "nat \<Rightarrow> bool" where
  "counted_twice y = (leap y \<and> \<not> 400 dvd y)"

lemma dvd_year: "k dvd 400 \<Longrightarrow> k dvd 1600 + (400 * q + r) \<longleftrightarrow> k dvd (r :: nat)"
proof -
  assume "k dvd 400"
  then have "k dvd 400 * (4 + q)" by (rule dvd_mult2)
  then have "k dvd 400 * (4 + q) + r \<longleftrightarrow> k dvd r" by (rule dvd_add_right_iff)
  then show ?thesis by (simp add: algebra_simps)
qed

lemma leap_year_of_400:
  assumes "r < 400"
  shows "leap (1600 + (400 * q + r)) \<longleftrightarrow> 4 dvd r \<and> (100 dvd r \<longrightarrow> r = 0)"
    and "counted_twice (1600 + (400 * q + r)) \<longleftrightarrow> 4 dvd r \<and> \<not> 100 dvd r"
proof -
  have z: "400 dvd r \<longleftrightarrow> r = 0" using assms by (auto dest: dvd_imp_le)
  have d: "4 dvd (400 :: nat)" "100 dvd (400 :: nat)" "400 dvd (400 :: nat)" by simp_all
  show l: "leap (1600 + (400 * q + r)) \<longleftrightarrow> 4 dvd r \<and> (100 dvd r \<longrightarrow> r = 0)"
    unfolding leap_def dvd_year [OF d(1)] dvd_year [OF d(2)] dvd_year [OF d(3)] z by blast
  show "counted_twice (1600 + (400 * q + r)) \<longleftrightarrow> 4 dvd r \<and> \<not> 100 dvd r"
    unfolding counted_twice_def l dvd_year [OF d(3)] z by (cases "r = 0") auto
qed

lemma leaps_counted_400:
  "r < 400 \<Longrightarrow> leaps_counted (400 * q + r) = 97 * q + (r div 4 + of_bool (0 < r) - r div 100)"
  using div_le_mono2 [of 4 100 r] by (simp add: leaps_counted_def mult.commute)

text \<open>The arithmetic of the step, with the divisibilities as truth values.\<close>

lemma leaps_step:
  "(S100 \<longrightarrow> S4) \<Longrightarrow> b \<le> a \<Longrightarrow> (r = 0 \<longrightarrow> P \<and> Q) \<Longrightarrow>
   c + (a + of_bool S4 + of_bool (0 < Suc r) - (b + of_bool S100)) + of_bool (P \<and> \<not> Q) =
   c + (a + of_bool (0 < r) - b) + of_bool (P \<and> (Q \<longrightarrow> r = 0)) + (of_bool (S4 \<and> \<not> S100) :: nat)"
  by (cases S4; cases S100; cases P; cases Q; cases "r = 0") simp_all

lemma leaps_counted_Suc:
  "leaps_counted (Suc n) + of_bool (counted_twice (1600 + n)) =
   leaps_counted n + of_bool (leap (1600 + n)) + of_bool (counted_twice (1600 + Suc n))"
proof -
  define q r where "q = n div 400" and "r = n mod 400"
  have n: "n = 400 * q + r" and r: "r < 400" by (simp_all add: q_def r_def)
  show ?thesis
  proof (cases "r = 399")
    case True
    have "Suc n = 400 * Suc q + 0" using n True by simp
    then have "leaps_counted (Suc n) = 97 * Suc q" "\<not> counted_twice (1600 + Suc n)"
      using leaps_counted_400 [of 0 "Suc q"] leap_year_of_400(2) [of 0 "Suc q"] by simp_all
    then show ?thesis using True leap_year_of_400 [OF r] leaps_counted_400 [OF r] unfolding n by simp
  next
    case False
    then have r': "Suc r < 400" using r by simp
    have S: "Suc n = 400 * q + Suc r" using n by simp
    have step: "Suc r div 4 = r div 4 + of_bool (4 dvd Suc r)" "Suc r div 100 = r div 100 + of_bool (100 dvd Suc r)"
      by (simp_all add: div_Suc dvd_eq_mod_eq_0)
    have m: "100 dvd Suc r \<longrightarrow> 4 dvd Suc r" using dvd_trans [of 4 "100 :: nat" "Suc r"] by simp
    have d: "r div 100 \<le> r div 4" by (rule div_le_mono2) simp_all
    show ?thesis
      unfolding S leaps_counted_400 [OF r'] leap_year_of_400 [OF r']
      unfolding n leaps_counted_400 [OF r] leap_year_of_400 [OF r] step
      by (rule leaps_step [OF m d]) simp
  qed
qed

lemma years_before:
  "(\<Sum>k\<in>{1600..<1600 + n}. if leap k then 366 else 365 :: nat) + of_bool (counted_twice (1600 + n)) =
   365 * n + leaps_counted n"
proof (induction n)
  case 0 then show ?case by (simp add: leaps_counted_def counted_twice_def)
next
  case (Suc n)
  have "(\<Sum>k\<in>{1600..<1600 + Suc n}. if leap k then 366 else 365 :: nat) =
      (\<Sum>k\<in>{1600..<1600 + n}. if leap k then 366 else 365) + 365 + of_bool (leap (1600 + n))"
    unfolding add_Suc_right by (subst sum.atLeastLessThan_Suc) simp_all
  moreover have "a + c' = 365 * Suc n + l'" if "a = b + 365 + x" "b + c = 365 * n + l" "l' + c = l + x + c'"
    for a b c c' l l' x :: nat using that by simp
  ultimately show ?case using Suc.IH leaps_counted_Suc [of n] by blast
qed

lemma months_before:
  assumes "1 \<le> m" "m \<le> 12"
  shows "(\<Sum>k\<in>{1..<m}. month_days y k) =
    unat (daysSinceYearStartNonLeap ! m) + of_bool (leap y \<and> 2 < m)"
proof -
  have s: "(\<Sum>k\<in>{1..<m}. month_days y k) = sum_list (map (month_days y) [1..<m])"
    by (metis set_upt sum_set_upt_conv_sum_list_nat)
  have "m = 1 \<or> m = 2 \<or> m = 3 \<or> m = 4 \<or> m = 5 \<or> m = 6 \<or> m = 7 \<or> m = 8 \<or> m = 9 \<or> m = 10 \<or> m = 11 \<or> m = 12"
    using assms by arith
  then show ?thesis unfolding s
    by (elim disjE) (simp_all add: upt_conv_Cons month_days_def daysSinceYearStartNonLeap_def)
qed

section \<open>Decoding the registers\<close>

definition register_of :: "bool \<Rightarrow> nat \<Rightarrow> u8" where
  "register_of bcd n = word_of_nat (if bcd then 16 * (n div 10) + n mod 10 else n)"

definition hour_register :: "bool \<Rightarrow> bool \<Rightarrow> nat \<Rightarrow> u8" where
  "hour_register twelve bcd h =
     (if \<not> twelve then register_of bcd h
      else let r = register_of bcd (if h mod 12 = 0 then 12 else h mod 12)
           in if 12 \<le> h then or r 0x80 else r)"

definition decoded :: "bool \<Rightarrow> u8 \<Rightarrow> u8" where
  "decoded bcd v = (if bcd then bcd_value v else v)"

lemma decoded_register:
  assumes "n < 100"
  shows "decoded bcd (register_of bcd n) = word_of_nat n"
proof -
  have "list_all (\<lambda>n. bcd_value (register_of True n) = word_of_nat n) [0..<100]" by code_simp
  then show ?thesis using assms by (auto simp: decoded_def list_all_iff register_of_def)
qed

text \<open>Noon on a 12 hour clock is the only hour that is not decoded: it comes out as 24.\<close>

lemma decoded_hours:
  assumes "h < 24"
  shows "adjust_hours twelve bcd (decoded bcd (hour_register twelve bcd h)) =
    word_of_nat (if twelve \<and> h = 12 then 24 else h)"
proof -
  have "list_all (\<lambda>twelve. list_all (\<lambda>bcd. list_all (\<lambda>h.
      adjust_hours twelve bcd (decoded bcd (hour_register twelve bcd h)) =
      word_of_nat (if twelve \<and> h = 12 then 24 else h)) [0..<24]) [True, False]) [True, False]"
    by code_simp
  then show ?thesis using assms by (cases twelve; cases bcd) (simp_all add: list_all_iff)
qed

section \<open>The time in words\<close>

lemma word_of_nat_div: "word_of_nat a div word_of_nat b = (word_of_nat (a div b) :: u64)"
  if "a < 2 ^ 64" "b < 2 ^ 64"
proof -
  have "unat (word_of_nat a div word_of_nat b :: u64) = a div b"
    using that by (simp add: unat_div unat_of_nat)
  then show ?thesis by (metis of_nat_unat ucast_id)
qed

lemma sdiv_smod_nat: "(int n) sdiv 400 = int (n div 400)" "(int n) smod 400 = int (n mod 400)"
  by (cases "n = 0"; simp add: signed_divide_int_def signed_modulo_int_def zdiv_int zmod_int)+

lemma int_mod_0: "(int y mod 4 = 0) = (4 dvd y)" "(int y mod 100 = 0) = (100 dvd y)" "(int y mod 400 = 0) = (400 dvd y)"
  by (metis int_dvd_int_iff of_nat_numeral dvd_eq_mod_eq_0)+

lemma leap_words:
  assumes "n < 10000"
  shows "word_of_nat (n div 400) * (4 * 25 - 3) + word_of_nat (n mod 400) div 4 - word_of_nat (n mod 400) div 100
    + word_of_nat (n mod 400) div 400 + (if word_of_nat (n mod 400) > (0 :: u64) then 1 else 0) =
    (word_of_nat (leaps_counted n) :: u64)"
proof -
  let ?r = "n mod 400"
  have r: "?r < 2 ^ 64" and r4: "?r < 400" by (rule less_trans [of _ 400]; simp) simp
  have "word_of_nat ?r div word_of_nat 4 = (word_of_nat (?r div 4) :: u64)"
    "word_of_nat ?r div word_of_nat 100 = (word_of_nat (?r div 100) :: u64)"
    "word_of_nat ?r div word_of_nat 400 = (word_of_nat (?r div 400) :: u64)"
    by (rule word_of_nat_div [OF r]; simp)+
  then have d: "word_of_nat ?r div 4 = (word_of_nat (?r div 4) :: u64)"
    "word_of_nat ?r div 100 = (word_of_nat (?r div 100) :: u64)" "word_of_nat ?r div 400 = (0 :: u64)"
    by simp_all
  have p: "(word_of_nat ?r > (0 :: u64)) = (0 < ?r)"
    using r by (simp add: word_less_nat_alt unat_of_nat)
  have l: "?r div 100 \<le> ?r div 4" by (rule div_le_mono2) simp_all
  show ?thesis using l unfolding d p leaps_counted_def by (simp add: of_nat_diff)
qed

lemma time_of_words:
  assumes y: "y = 1600 + n" "y < 10000" and m: "1 \<le> m" "m \<le> 12" and d: "1 \<le> d" "d < 32"
    and h: "h < 25" and ms: "mi < 60" "sec < 60"
  shows "time_of behind (word_of_nat y) (word_of_nat m) (word_of_nat d) (word_of_nat h)
      (word_of_nat mi) (word_of_nat sec) =
    word_of_nat (10000000 * (60 * (60 * (24 * (365 * n + leaps_counted n + unat (daysSinceYearStartNonLeap ! m)
      + of_bool (leap y \<and> 2 < m) + (d - 1)) + h) + mi) + sec))"
proof -
  have u: "uint (word_of_nat y :: u16) = int y"
    using y(2) by (simp add: unsigned_of_nat take_bit_nat_eq_self)
  have lp: "(if int y mod 100 = 0 then int y mod 400 = 0 else int y mod 4 = 0) = leap y"
    unfolding int_mod_0 leap_def using dvd_trans [of 4 "400 :: nat" y] by auto
  have um: "unat (word_of_nat m :: u8) = m" and gm: "(word_of_nat m > (2 :: u8)) = (2 < m)"
    using m by (simp_all add: unat_of_nat word_less_nat_alt)
  have cast: "ucast (word_of_nat k :: u8) = (word_of_nat k :: u64)" if "k < 256" for k
    using that by (simp add: unsigned_of_nat take_bit_nat_eq_self)
  have c: "ucast (word_of_nat d :: u8) = (word_of_nat d :: u64)" "ucast (word_of_nat h :: u8) = (word_of_nat h :: u64)"
    "ucast (word_of_nat mi :: u8) = (word_of_nat mi :: u64)" "ucast (word_of_nat sec :: u8) = (word_of_nat sec :: u64)"
    using d h ms by (simp_all add: cast)
  have n: "int y - 1600 = int n" "n < 10000" using y by simp_all
  have t: "daysSinceYearStartNonLeap ! m = word_of_nat (unat (daysSinceYearStartNonLeap ! m))" by simp
  have i: "word_of_int (int n * 365) = (word_of_nat n * 365 :: u64)" by simp
  have d1: "word_of_nat d = (word_of_nat (d - 1) + 1 :: u64)" using d by (simp add: of_nat_diff)
  have um13: "(m < 13) = True" using m by simp
  have "time_of behind (word_of_nat y) (word_of_nat m) (word_of_nat d) (word_of_nat h)
      (word_of_nat mi) (word_of_nat sec) =
    (60 * (60 * ((word_of_nat n * 365 + word_of_nat (leaps_counted n) + daysSinceYearStartNonLeap ! m
      + (if leap y \<and> 2 < m then 1 else 0) + (word_of_nat (d - 1) + 1) - 1) * 24 + word_of_nat h)
      + word_of_nat mi) + word_of_nat sec) * 10000000"
    unfolding time_of_def Let_def u lp um gm c n(1) sdiv_smod_nat i d1 of_int_of_nat_eq um13 if_True
      leap_words [OF n(2)] by (rule refl)
  moreover obtain e where "d = Suc e" using d(1) by (cases d) simp_all
  ultimately show ?thesis by (subst t) (simp add: algebra_simps)
qed

section \<open>The system time\<close>

text \<open>The registers show a date and a time: 9 and the century register the year, and the update
  bit is clear.\<close>

definition shows_time :: "rtc \<Rightarrow> (u8 \<Rightarrow> u8) \<Rightarrow> nat \<Rightarrow> nat \<Rightarrow> nat \<Rightarrow> nat \<Rightarrow> nat \<Rightarrow> nat \<Rightarrow> bool" where
  "shows_time s regs y m d h mi sec =
     (let bcd = RtcBcdMode s in
      CenturyRegister s \<noteq> 0 \<and> and (regs 0x0A) 0x80 = 0 \<and>
      regs (CenturyRegister s) = register_of bcd (y div 100) \<and> regs 9 = register_of bcd (y mod 100) \<and>
      regs 8 = register_of bcd m \<and> regs 7 = register_of bcd d \<and>
      regs 4 = hour_register (Rtc12HMode s) bcd h \<and> regs 2 = register_of bcd mi \<and> regs 0 = register_of bcd sec)"

definition seconds_since_1600 :: "nat \<Rightarrow> nat \<Rightarrow> nat \<Rightarrow> nat \<Rightarrow> nat \<Rightarrow> nat \<Rightarrow> nat" where
  "seconds_since_1600 y m d h mi sec = 60 * (60 * (24 * days_before y m d + h) + mi) + sec"

definition shown_by :: "device \<Rightarrow> (u8 \<Rightarrow> u8) \<Rightarrow> rtc \<Rightarrow> bool" where
  "shown_by dev regs s = (rtc_free s \<and> shows_registers dev (HalNmiDesiredState s) regs \<and> and (regs 0x0A) 0x80 = 0)"

lemma shown_by_trace [simp]: "shown_by dev regs (s\<lparr>trace := t\<rparr>) = shown_by dev regs s"
  by (simp add: shown_by_def)

lemma read_shown:
  assumes "shown_by dev regs s"
  obtains t where "HalpRtcHandleDataRead dev r s = Done (decoded (RtcBcdMode s) (regs r), s\<lparr>trace := t\<rparr>)"
  using HalpRtcHandleDataRead_free [of s dev regs r] assms by (auto simp: shown_by_def decoded_def)

lemma HalRtcGetYear_shown:
  assumes s: "shown_by dev regs s" and c: "CenturyRegister s \<noteq> 0" and y: "y < 10000"
    and r: "regs (CenturyRegister s) = register_of (RtcBcdMode s) (y div 100)" "regs 9 = register_of (RtcBcdMode s) (y mod 100)"
  obtains t where "HalRtcGetYear dev s = Done (word_of_nat y, s\<lparr>trace := t\<rparr>)"
proof -
  have lt: "y mod 100 < 100" "y div 100 < 100" using y by simp_all
  obtain a where a: "HalpRtcHandleDataRead dev 9 s = Done (word_of_nat (y mod 100), s\<lparr>trace := a\<rparr>)"
    using read_shown [OF s, of 9] decoded_register [OF lt(1)] r(2) by metis
  obtain b where "HalpRtcHandleDataRead dev (CenturyRegister s) (s\<lparr>trace := a\<rparr>) =
      Done (word_of_nat (y div 100), s\<lparr>trace := b\<rparr>)"
    using read_shown [of dev regs "s\<lparr>trace := a\<rparr>" "CenturyRegister s"] s decoded_register [OF lt(2)] r(1) by auto
  moreover have "ucast (word_of_nat (y mod 100) :: u8) + 100 * ucast (word_of_nat (y div 100) :: u8) = (word_of_nat y :: u16)"
  proof -
    have "ucast (word_of_nat (y mod 100) :: u8) = (word_of_nat (y mod 100) :: u16)"
      "ucast (word_of_nat (y div 100) :: u8) = (word_of_nat (y div 100) :: u16)"
      using lt by (simp_all add: unsigned_of_nat take_bit_nat_eq_self)
    moreover have "word_of_nat (y mod 100) + 100 * word_of_nat (y div 100) = (word_of_nat (y mod 100 + 100 * (y div 100)) :: u16)"
      by (simp only: of_nat_add of_nat_mult of_nat_numeral)
    ultimately show ?thesis by (simp only: mod_mult_div_eq)
  qed
  ultimately have "HalRtcGetYear dev s = Done (word_of_nat y, s\<lparr>trace := b\<rparr>)"
    using a c by (simp add: HalRtcGetYear_def)
  then show ?thesis by (rule that)
qed

lemma HalRtcGetHours_shown:
  assumes "shown_by dev regs s" "h < 24" "regs 4 = hour_register (Rtc12HMode s) (RtcBcdMode s) h"
  obtains t where "HalRtcGetHours dev s = Done (word_of_nat (if Rtc12HMode s \<and> h = 12 then 24 else h), s\<lparr>trace := t\<rparr>)"
proof -
  obtain t where "HalpRtcHandleDataRead dev 4 s = Done (decoded (RtcBcdMode s) (regs 4), s\<lparr>trace := t\<rparr>)"
    using read_shown [OF assms(1)] .
  then have "HalRtcGetHours dev s = Done (word_of_nat (if Rtc12HMode s \<and> h = 12 then 24 else h), s\<lparr>trace := t\<rparr>)"
    using decoded_hours [OF assms(2), of "Rtc12HMode s" "RtcBcdMode s"] assms(3) by (simp add: HalRtcGetHours_def)
  then show ?thesis by (rule that)
qed

lemma read_number:
  assumes "shown_by dev regs s" "n < 100" "regs r = register_of (RtcBcdMode s) n"
  shows "\<exists>t. HalpRtcHandleDataRead dev r s = Done (word_of_nat n, s\<lparr>trace := t\<rparr>)"
  using read_shown [OF assms(1), of r] decoded_register [OF assms(2)] assms(3) by metis

lemma counted_days:
  assumes "valid_date y m d"
  shows "365 * (y - 1600) + leaps_counted (y - 1600) + unat (daysSinceYearStartNonLeap ! m)
      + of_bool (leap y \<and> 2 < m) + (d - 1) = days_before y m d + of_bool (counted_twice y)"
proof -
  have y: "1600 + (y - 1600) = y" and m: "1 \<le> m" "m \<le> 12" using assms by (simp_all add: valid_date_def)
  show ?thesis using years_before [of "y - 1600"] months_before [OF m, of y] unfolding y days_before_def by linarith
qed

text \<open>C22: on a clock that shows a valid date and time, in BCD or binary, with 12 or 24 hours,
  HalRtcGetTime gives the units of 100 ns since 1600, but one day too many in a leap year that is
  not a multiple of 400, and twelve hours too many from noon to one o'clock of a 12 hour clock.
  Only the trace of port accesses changes.\<close>

theorem HalRtcGetTime_spec:
  assumes "rtc_free s" "shows_registers dev (HalNmiDesiredState s) regs"
    and "shows_time s regs y m d h mi sec" "valid_date y m d" "h < 24" "mi < 60" "sec < 60"
  shows "\<exists>t. HalRtcGetTime dev behind s =
    Done (word_of_nat (10000000 * (seconds_since_1600 y m d h mi sec
      + (if leap y \<and> \<not> 400 dvd y then 24 * 60 * 60 else 0)
      + (if Rtc12HMode s \<and> h = 12 then 12 * 60 * 60 else 0))), s\<lparr>trace := t\<rparr>)"
proof -
  have s: "shown_by dev regs (s\<lparr>trace := t\<rparr>)" for t using assms(1-3) by (simp add: shown_by_def shows_time_def Let_def)
  have id: "s\<lparr>trace := trace s\<rparr> = s" by simp
  have v: "1600 \<le> y" "y < 10000" "1 \<le> m" "m \<le> 12" "1 \<le> d" "d < 32" "m < 100" "d < 100" "mi < 100" "sec < 100"
    using assms(4,6,7) by (auto simp: valid_date_def month_days_def split: if_splits)
  note r = assms(3) [unfolded shows_time_def Let_def]
  obtain t1 where t1: "HalRtcGetYear dev s = Done (word_of_nat y, s\<lparr>trace := t1\<rparr>)"
    using HalRtcGetYear_shown [of dev regs s y] s [of "trace s"] v(2) r by auto
  obtain t2 where t2: "HalpRtcHandleDataRead dev 8 (s\<lparr>trace := t1\<rparr>) = Done (word_of_nat m, s\<lparr>trace := t2\<rparr>)"
    using read_number [OF s [of t1] v(7), of 8] r by auto
  obtain t3 where t3: "HalpRtcHandleDataRead dev 7 (s\<lparr>trace := t2\<rparr>) = Done (word_of_nat d, s\<lparr>trace := t3\<rparr>)"
    using read_number [OF s [of t2] v(8), of 7] r by auto
  obtain t4 where t4: "HalRtcGetHours dev (s\<lparr>trace := t3\<rparr>) =
      Done (word_of_nat (if Rtc12HMode s \<and> h = 12 then 24 else h), s\<lparr>trace := t4\<rparr>)"
    using HalRtcGetHours_shown [OF s [of t3] assms(5)] r by auto
  obtain t5 where t5: "HalpRtcHandleDataRead dev 2 (s\<lparr>trace := t4\<rparr>) = Done (word_of_nat mi, s\<lparr>trace := t5\<rparr>)"
    using read_number [OF s [of t4] v(9), of 2] r by auto
  obtain t6 where t6: "HalpRtcHandleDataRead dev 0 (s\<lparr>trace := t5\<rparr>) = Done (word_of_nat sec, s\<lparr>trace := t6\<rparr>)"
    using read_number [OF s [of t5] v(10), of 0] r by auto
  let ?h = "if Rtc12HMode s \<and> h = 12 then 24 else h"
  have "?h < 25" using assms(5) by simp
  then have "time_of behind (word_of_nat y) (word_of_nat m) (word_of_nat d) (word_of_nat ?h) (word_of_nat mi) (word_of_nat sec) =
    word_of_nat (10000000 * (60 * (60 * (24 * (days_before y m d + of_bool (counted_twice y)) + ?h) + mi) + sec))"
    using time_of_words [of y "y - 1600" m d ?h mi sec behind] v assms(6,7)
    unfolding counted_days [OF assms(4)] by simp
  moreover have "60 * (60 * (24 * (days_before y m d + of_bool (counted_twice y)) + ?h) + mi) + sec =
      seconds_since_1600 y m d h mi sec + (if leap y \<and> \<not> 400 dvd y then 24 * 60 * 60 else 0)
      + (if Rtc12HMode s \<and> h = 12 then 12 * 60 * 60 else 0)"
    by (simp add: seconds_since_1600_def counted_twice_def)
  moreover have "HalRtcGetTime dev behind s =
    Done (time_of behind (word_of_nat y) (word_of_nat m) (word_of_nat d) (word_of_nat ?h) (word_of_nat mi) (word_of_nat sec),
      s\<lparr>trace := t6\<rparr>)"
    unfolding HalRtcGetTime_def HalRtcGetMonth_def HalRtcGetDay_def HalRtcGetMinutes_def HalRtcGetSeconds_def
      t1 t2 t3 t4 t5 t6 obind.simps prod.case by (rule refl)
  ultimately show ?thesis by metis
qed

text \<open>12:30:15 on the 5th of March 2024, in BCD on a 12 hour clock: both errors.\<close>

definition march_regs :: "u8 \<Rightarrow> u8" where
  "march_regs r = ((\<lambda>_. 0)(9 := 0x24, 0x32 := 0x20, 8 := 3, 7 := 5, 4 := 0x92, 2 := 0x30, 0 := 0x15)) (and r 0x7F)"

definition march_device :: device where
  "march_device t port = (case t of Out p v # _ \<Rightarrow> march_regs v | _ \<Rightarrow> 0)"

definition noon_rtc :: rtc where
  "noon_rtc = \<lparr>rcpu = \<lparr>irql = 0, tpr = 0\<rparr>, trace = [], CmosSpinlock = 0, RtcLock = 0,
     HalNmiDesiredState = 1, CenturyRegister = 0x32, RtcBcdMode = True, Rtc12HMode = True\<rparr>"

theorem HalRtcGetTime_spec_witness:
  "\<forall>behind. \<exists>t. HalRtcGetTime march_device behind noon_rtc =
     Done (word_of_nat (10000000 * (seconds_since_1600 2024 3 5 12 30 15 + 24 * 60 * 60 + 12 * 60 * 60)), noon_rtc\<lparr>trace := t\<rparr>)"
proof
  fix behind
  have a: "rtc_free noon_rtc" by (simp add: rtc_free_def cmos_free_def noon_rtc_def cpu_ok_def)
  have nmi: "and (or r 0x80) 0x7F = and r 0x7F" for r :: u8 by (simp add: bit.conj_disj_distrib2)
  have b: "shows_registers march_device (HalNmiDesiredState noon_rtc) march_regs"
    by (simp add: shows_registers_def march_device_def march_regs_def noon_rtc_def nmi)
  have c: "shows_time noon_rtc march_regs 2024 3 5 12 30 15"
    by (simp add: shows_time_def noon_rtc_def march_regs_def register_of_def hour_register_def)
  have d: "valid_date 2024 3 5" by (simp add: valid_date_def month_days_def)
  have l: "leap 2024" "\<not> 400 dvd (2024 :: nat)" by (simp_all add: leap_def)
  show "\<exists>t. HalRtcGetTime march_device behind noon_rtc =
     Done (word_of_nat (10000000 * (seconds_since_1600 2024 3 5 12 30 15 + 24 * 60 * 60 + 12 * 60 * 60)), noon_rtc\<lparr>trace := t\<rparr>)"
    using HalRtcGetTime_spec [OF a b c d, of behind] l by (simp add: noon_rtc_def)
qed

end
