(* ===== verification/Paging.thy ===== *)
theory Paging
  imports PhysAlloc
begin

text \<open>
  Page tables, NNXOSKRN/HAL/X64/paging.c. The kernel reaches the tables through entry 510 of the
  top table, which points to that table itself: an access to the recursive region is an ordinary
  access to virtual memory. The model has physical memory and the page walk of the processor
  (four levels, no large pages, as the Intel manual gives it), and the code loads and stores through
  that walk. There is no TLB: invalidations are left out. The abstract state is the
  entry of each page of the address space.
\<close>

section \<open>Physical memory and the page walk\<close>

text \<open>A frame is 512 words of 8 bytes.\<close>

record mmu =
  mcpu :: cpu
  mpfns :: pfn_db
  phys :: "u64 \<Rightarrow> nat \<Rightarrow> u64"
  cr3 :: u64
  cr0 :: u64
  cr4 :: u64
  vheap :: list_heap
  PagingSpinlock :: KSPIN_LOCK
  KernelPml4Entry :: u64

definition frame_of :: "u64 \<Rightarrow> u64" where
  "frame_of e = and (drop_bit 12 e) 0xFFFFFFFFFF"

text \<open>Bit 0 is Present, bit 7 of an entry that is not of the last level makes a large page.\<close>

fun page_walk :: "mmu \<Rightarrow> u64 \<Rightarrow> nat list \<Rightarrow> u64 option" where
  "page_walk s f [] = Some f"
| "page_walk s f (i # is) =
     (let e = phys s f i
      in if bit e 0 \<and> (is = [] \<or> \<not> bit e 7) then page_walk s (frame_of e) is else None)"

definition slot :: "nat \<Rightarrow> u64 \<Rightarrow> nat" where
  "slot k v = unat (drop_bit (12 + 9 * k) v) mod 512"

definition translate :: "mmu \<Rightarrow> u64 \<Rightarrow> u64 option" where
  "translate s v =
     (if unat v div 2 ^ 47 \<in> {0, 2 ^ 17 - 1} then page_walk s (frame_of (cr3 s)) [slot 3 v, slot 2 v, slot 1 v, slot 0 v]
      else None)"

definition word_in_page :: "u64 \<Rightarrow> nat" where
  "word_in_page v = unat v mod 4096 div 8"

definition load :: "u64 \<Rightarrow> mmu \<Rightarrow> u64 outcome" where
  "load v s = (case translate s v of None \<Rightarrow> Fault | Some f \<Rightarrow> Done (phys s f (word_in_page v)))"

definition store :: "u64 \<Rightarrow> u64 \<Rightarrow> mmu \<Rightarrow> mmu outcome" where
  "store v x s = (case translate s v of None \<Rightarrow> Fault
     | Some f \<Rightarrow> Done (s\<lparr>phys := (phys s)(f := (phys s f)(word_in_page v := x))\<rparr>))"

section \<open>The recursive region\<close>

definition PAGE_ALIGN :: "u64 \<Rightarrow> u64" where "PAGE_ALIGN x = and x (not 0xFFF)"

definition ToCanonicalAddress :: "u64 \<Rightarrow> u64" where
  "ToCanonicalAddress address = or address (if and address 0x800000000000 \<noteq> 0 then 0xFFFF000000000000 else 0)"

abbreviation (input) PAGE_PRESENT :: u64 where "PAGE_PRESENT \<equiv> 1"
abbreviation (input) PAGE_WRITE :: u64 where "PAGE_WRITE \<equiv> 2"
abbreviation (input) PAGE_USER :: u64 where "PAGE_USER \<equiv> 4"

abbreviation (input) PML4EntryForRecursivePaging :: u64 where "PML4EntryForRecursivePaging \<equiv> 510"

definition RecursivePagingPTsBase :: u64 where
  "RecursivePagingPTsBase = ToCanonicalAddress (ToCanonicalAddress (0x8000000000 * PML4EntryForRecursivePaging))"

definition RecursivePagingPDsBase :: u64 where
  "RecursivePagingPDsBase = ToCanonicalAddress (RecursivePagingPTsBase + 0x40000000 * PML4EntryForRecursivePaging)"

definition RecursivePagingPDPsBase :: u64 where
  "RecursivePagingPDPsBase = ToCanonicalAddress (RecursivePagingPDsBase + 0x200000 * PML4EntryForRecursivePaging)"

definition RecursivePagingPML4Base :: u64 where
  "RecursivePagingPML4Base = ToCanonicalAddress (RecursivePagingPDPsBase + 4096 * PML4EntryForRecursivePaging)"

text \<open>An element of one of the four arrays.\<close>

definition get :: "u64 \<Rightarrow> u64 \<Rightarrow> mmu \<Rightarrow> u64 outcome" where
  "get base i = load (base + 8 * i)"

definition put :: "u64 \<Rightarrow> u64 \<Rightarrow> u64 \<Rightarrow> mmu \<Rightarrow> mmu outcome" where
  "put base i x = store (base + 8 * i) x"

definition PagingCheckIsPageIndexFree :: "u64 \<Rightarrow> mmu \<Rightarrow> bool outcome" where
  "PagingCheckIsPageIndexFree pageIndex s =
     obind (get RecursivePagingPML4Base (pageIndex div (512 * 512 * 512)) s) (\<lambda>e. if e = 0 then Done True else
     obind (get RecursivePagingPDPsBase (pageIndex div (512 * 512)) s) (\<lambda>e. if e = 0 then Done True else
     obind (get RecursivePagingPDsBase (pageIndex div 512) s) (\<lambda>e. if e = 0 then Done True else
     obind (get RecursivePagingPTsBase pageIndex s) (\<lambda>e. Done (e = 0)))))"

section \<open>Mapping a page\<close>

text \<open>RtlZeroMemory on the page of a fresh table, word by word.\<close>

primrec zero_words :: "u64 \<Rightarrow> nat list \<Rightarrow> mmu \<Rightarrow> mmu outcome" where
  "zero_words base [] s = Done s"
| "zero_words base (i # is) s = obind (put base (word_of_nat i) 0 s) (zero_words base is)"

definition allocate_pfn :: "mmu \<Rightarrow> ((NTSTATUS \<times> PFN_NUMBER option) \<times> mmu) outcome" where
  "allocate_pfn s = obind (MmAllocatePfn (mcpu s) (mpfns s)) (\<lambda>(r, d). Done (r, s\<lparr>mpfns := d\<rparr>))"

text \<open>One of the three levels: a missing table is allocated, entered at \<open>base[i]\<close> and cleared, where its
  page in the next array is \<open>child + 512 * i\<close>.\<close>

definition ensure_table :: "u64 \<Rightarrow> u64 \<Rightarrow> u64 \<Rightarrow> mmu \<Rightarrow> (NTSTATUS \<times> mmu) outcome" where
  "ensure_table base i child s =
     obind (get base i s) (\<lambda>e.
       if e \<noteq> 0 then Done (STATUS_SUCCESS, s)
       else obind (allocate_pfn s) (\<lambda>((status, allocatedPfn), s).
         case allocatedPfn of
           None \<Rightarrow> Done (status, s)
         | Some pfn \<Rightarrow>
             if \<not> NT_SUCCESS status then Done (status, s)
             else
             obind (put base i (or (PA_FROM_PFN pfn) (or PAGE_PRESENT (or PAGE_WRITE PAGE_USER))) s) (\<lambda>s.
             obind (zero_words (child + 8 * (512 * i)) [0..<512] s) (\<lambda>s. Done (STATUS_SUCCESS, s)))))"

definition and_then :: "(NTSTATUS \<times> mmu) outcome \<Rightarrow> (mmu \<Rightarrow> (NTSTATUS \<times> mmu) outcome) \<Rightarrow> (NTSTATUS \<times> mmu) outcome" where
  "and_then m f = obind m (\<lambda>(status, s). if \<not> NT_SUCCESS status then Done (status, s) else f s)"

definition PagingMapPage :: "u64 \<Rightarrow> u64 \<Rightarrow> u16 \<Rightarrow> mmu \<Rightarrow> (NTSTATUS \<times> mmu) outcome" where
  "PagingMapPage v p f s =
     (let v = and (PAGE_ALIGN v) 0xFFFFFFFFFFFF; p = PAGE_ALIGN p;
          ptIndex = drop_bit 12 v; pdIndex = drop_bit 21 v; pdpIndex = drop_bit 30 v; pml4Index = drop_bit 39 v
      in and_then (ensure_table RecursivePagingPML4Base pml4Index RecursivePagingPDPsBase s) (\<lambda>s.
         and_then (ensure_table RecursivePagingPDPsBase pdpIndex RecursivePagingPDsBase s) (\<lambda>s.
         and_then (ensure_table RecursivePagingPDsBase pdIndex RecursivePagingPTsBase s) (\<lambda>s.
         obind (put RecursivePagingPTsBase ptIndex (or p (ucast f)) s) (\<lambda>s. Done (STATUS_SUCCESS, s))))))"

definition PagingGetTableMapping :: "u64 \<Rightarrow> mmu \<Rightarrow> u64 outcome" where
  "PagingGetTableMapping virtualAddress s =
     (let v = and virtualAddress 0xFFFFFFFFFFFF;
          ptIndex = drop_bit 12 v; pdIndex = drop_bit 21 v; pdpIndex = drop_bit 30 v; pml4Index = drop_bit 39 v
      in obind (get RecursivePagingPML4Base pml4Index s) (\<lambda>e. if e = 0 then Done 0 else
         obind (get RecursivePagingPDPsBase pdpIndex s) (\<lambda>e. if e = 0 then Done 0 else
         obind (get RecursivePagingPDsBase pdIndex s) (\<lambda>e. if e = 0 then Done 0 else
         get RecursivePagingPTsBase ptIndex s))))"

section \<open>Finding free pages\<close>

primrec first_used :: "nat list \<Rightarrow> u64 \<Rightarrow> mmu \<Rightarrow> nat option outcome" where
  "first_used [] i s = Done None"
| "first_used (j # js) i s = obind (PagingCheckIsPageIndexFree (i + word_of_nat j) s) (\<lambda>free.
     if \<not> free then Done (Some j) else first_used js i s)"

partial_function (option) find_pages_loop :: "u64 \<Rightarrow> u64 \<Rightarrow> u64 \<Rightarrow> mmu \<Rightarrow> u64 outcome option" where
  "find_pages_loop n count i s =
     (if i < n
      then (if i + count \<ge> n then Some (Done (- 1))
            else next_step (first_used [0..<unat count] i s) (\<lambda>r.
              if r = None then Some (Done (ToCanonicalAddress (i * 4096)))
              else find_pages_loop n count (i + word_of_nat (the r) + 1) s))
      else Some (Done (- 1)))"

definition PagingFindFreePages :: "u64 \<Rightarrow> u64 \<Rightarrow> u64 \<Rightarrow> mmu \<Rightarrow> u64 outcome" where
  "PagingFindFreePages lo hi count s =
     (let (lo, hi) = (if hi < lo then (hi, lo) else (lo, hi)) in
      if and hi 0xFFFF000000000000 \<noteq> and lo 0xFFFF000000000000 then Bugcheck 0x4D
      else run_loop (find_pages_loop (and hi 0xFFFFFFFFFFFF div 4096) count (and lo 0xFFFFFFFFFFFF div 4096) s))"

section \<open>Allocating pages\<close>

definition lock_paging :: "mmu \<Rightarrow> mmu outcome" where
  "lock_paging s = obind (KeAcquireSpinLockAtDpcLevel (PagingSpinlock s) (mcpu s)) (\<lambda>l. Done (s\<lparr>PagingSpinlock := l\<rparr>))"

definition unlock_paging :: "mmu \<Rightarrow> mmu outcome" where
  "unlock_paging s = obind (KeReleaseSpinLockFromDpcLevel (PagingSpinlock s) (mcpu s)) (\<lambda>l. Done (s\<lparr>PagingSpinlock := l\<rparr>))"

text \<open>The status of PagingMapPage is not looked at.\<close>

definition PagingAllocatePageWithPhysicalAddress ::
  "u64 \<Rightarrow> u64 \<Rightarrow> u16 \<Rightarrow> u64 \<Rightarrow> mmu \<Rightarrow> (u64 \<times> mmu) outcome" where
  "PagingAllocatePageWithPhysicalAddress lo hi flags physPage s =
     obind (lock_paging s) (\<lambda>s.
     obind (PagingFindFreePages lo hi 1 s) (\<lambda>result.
     obind (PagingMapPage result physPage flags s) (\<lambda>(_, s).
     obind (unlock_paging s) (\<lambda>s. Done (ToCanonicalAddress result, s)))))"

definition PagingAllocatePageEx :: "u64 \<Rightarrow> u64 \<Rightarrow> u16 \<Rightarrow> mmu \<Rightarrow> (u64 \<times> mmu) outcome" where
  "PagingAllocatePageEx lo hi flags s =
     obind (allocate_pfn s) (\<lambda>((status, pfnNumber), s).
       case pfnNumber of
         None \<Rightarrow> Done (- 1, s)
       | Some pfn \<Rightarrow> if \<not> NT_SUCCESS status then Done (- 1, s)
                   else PagingAllocatePageWithPhysicalAddress lo hi flags (PA_FROM_PFN pfn) s)"

abbreviation (input) PAGING_KERNEL_SPACE :: u64 where "PAGING_KERNEL_SPACE \<equiv> 0xFFFFFF8000000000"
abbreviation (input) PAGING_KERNEL_SPACE_END :: u64 where "PAGING_KERNEL_SPACE_END \<equiv> 0xFFFFFFFFFFFFFFFF"

definition PagingAllocatePageFromRange :: "u64 \<Rightarrow> u64 \<Rightarrow> mmu \<Rightarrow> (u64 \<times> mmu) outcome" where
  "PagingAllocatePageFromRange lo hi s =
     (let user = (if lo < PAGING_KERNEL_SPACE \<and> hi < PAGING_KERNEL_SPACE then 4 else 0)
      in PagingAllocatePageEx lo hi (or 1 (or 2 user)) s)"

definition PagingAllocatePage :: "mmu \<Rightarrow> (u64 \<times> mmu) outcome" where
  "PagingAllocatePage = PagingAllocatePageFromRange 0 ((PML4EntryForRecursivePaging - 1) * 0x8000000000 - 1)"

primrec map_block :: "nat list \<Rightarrow> u64 \<Rightarrow> u64 \<Rightarrow> u16 \<Rightarrow> mmu \<Rightarrow> mmu outcome" where
  "map_block [] virt physFirstPage flags s = Done s"
| "map_block (i # is) virt physFirstPage flags s =
     obind (PagingMapPage (virt + word_of_nat i * 4096) (physFirstPage + word_of_nat i * 4096) flags s) (\<lambda>(_, s).
       map_block is virt physFirstPage flags s)"

definition PagingAllocatePageBlockWithPhysicalAddresses ::
  "u64 \<Rightarrow> u64 \<Rightarrow> u64 \<Rightarrow> u16 \<Rightarrow> u64 \<Rightarrow> mmu \<Rightarrow> (u64 \<times> mmu) outcome" where
  "PagingAllocatePageBlockWithPhysicalAddresses n lo hi flags physFirstPage s =
     obind (lock_paging s) (\<lambda>s.
     obind (PagingFindFreePages lo hi n s) (\<lambda>virt.
     obind (map_block [0..<unat n] virt physFirstPage flags s) (\<lambda>s.
     obind (unlock_paging s) (\<lambda>s. Done (virt, s)))))"

definition allocate_physical :: "mmu \<Rightarrow> ((NTSTATUS \<times> u64 option) \<times> mmu) outcome" where
  "allocate_physical s = obind (MmAllocatePhysicalAddress (mcpu s) (mpfns s)) (\<lambda>(r, d). Done (r, s\<lparr>mpfns := d\<rparr>))"

text \<open>None when a page could not be allocated.\<close>

primrec allocate_block :: "nat list \<Rightarrow> u64 \<Rightarrow> u16 \<Rightarrow> mmu \<Rightarrow> (bool \<times> mmu) outcome" where
  "allocate_block [] virt flags s = Done (True, s)"
| "allocate_block (i # is) virt flags s =
     obind (allocate_physical s) (\<lambda>((status, p), s).
       case p of
         None \<Rightarrow> Done (False, s)
       | Some p \<Rightarrow> if \<not> NT_SUCCESS status then Done (False, s)
                 else obind (PagingMapPage (virt + word_of_nat i * 4096) p flags s) (\<lambda>(_, s). allocate_block is virt flags s))"

definition PagingAllocatePageBlockEx :: "u64 \<Rightarrow> u64 \<Rightarrow> u64 \<Rightarrow> u16 \<Rightarrow> mmu \<Rightarrow> (u64 \<times> mmu) outcome" where
  "PagingAllocatePageBlockEx n lo hi flags s =
     obind (lock_paging s) (\<lambda>s.
     obind (PagingFindFreePages lo hi n s) (\<lambda>virt.
     obind (allocate_block [0..<unat n] virt flags s) (\<lambda>(ok, s).
     obind (unlock_paging s) (\<lambda>s. Done (if ok then virt else - 1, s)))))"

definition PagingAllocatePageBlock :: "u64 \<Rightarrow> u16 \<Rightarrow> mmu \<Rightarrow> (u64 \<times> mmu) outcome" where
  "PagingAllocatePageBlock n flags = PagingAllocatePageBlockEx n 0 (0x800000000000 - 4096) flags"

definition PagingAllocatePageBlockFromRange :: "u64 \<Rightarrow> u64 \<Rightarrow> u64 \<Rightarrow> mmu \<Rightarrow> (u64 \<times> mmu) outcome" where
  "PagingAllocatePageBlockFromRange n lo hi = PagingAllocatePageBlockEx n lo hi (or 1 2)"

definition PagingMapStrcutureToVirtual :: "u64 \<Rightarrow> u64 \<Rightarrow> u16 \<Rightarrow> mmu \<Rightarrow> (u64 \<times> mmu) outcome" where
  "PagingMapStrcutureToVirtual physicalAddress structureSize flags s =
     obind (PagingAllocatePageBlockWithPhysicalAddresses
       ((PAGE_ALIGN (physicalAddress + structureSize) - PAGE_ALIGN physicalAddress) div 4096 + 1)
       PAGING_KERNEL_SPACE PAGING_KERNEL_SPACE_END flags (PAGE_ALIGN physicalAddress) s) (\<lambda>(virt, s).
     Done (virt + (physicalAddress - PAGE_ALIGN physicalAddress), s))"

definition PhysicalAddressFunctionAllocPages :: "u64 \<Rightarrow> u64 \<Rightarrow> mmu \<Rightarrow> (u64 \<times> mmu) outcome" where
  "PhysicalAddressFunctionAllocPages irrelevant relativeIrrelevant s =
     obind (allocate_physical s) (\<lambda>((status, p), s).
       Done (case p of None \<Rightarrow> - 1 | Some p \<Rightarrow> if \<not> NT_SUCCESS status then - 1 else p, s))"

section \<open>Address spaces and control registers\<close>

record ADDRESS_SPACE =
  TopStructPhysAddress :: u64
  SectionViewHead :: ptr
  ALock :: KSPIN_LOCK

definition MmCreateAddressSpace :: "ADDRESS_SPACE \<Rightarrow> mmu \<Rightarrow> (NTSTATUS \<times> ADDRESS_SPACE \<times> mmu) outcome" where
  "MmCreateAddressSpace a s =
     (let a = a\<lparr>ALock := KeInitializeSpinLock (ALock a)\<rparr> in
      obind (allocate_physical s) (\<lambda>((status, p), s).
        case p of
          None \<Rightarrow> Done (status, a, s)
        | Some PhysicalPML4 \<Rightarrow>
            if \<not> NT_SUCCESS status then Done (status, a, s)
            else
            obind (PagingAllocatePageWithPhysicalAddress PAGING_KERNEL_SPACE PAGING_KERNEL_SPACE_END (or 1 2) PhysicalPML4 s) (\<lambda>(virtualPML4, s).
            obind (zero_words virtualPML4 [0..<512] s) (\<lambda>s.
            obind (put virtualPML4 PML4EntryForRecursivePaging (or PhysicalPML4 (or PAGE_PRESENT PAGE_WRITE)) s) (\<lambda>s.
            obind (put virtualPML4 511 (KernelPml4Entry s) s) (\<lambda>s.
              Done (STATUS_SUCCESS, a\<lparr>TopStructPhysAddress := PhysicalPML4\<rparr>,
                s\<lparr>vheap := InitializeListHead (SectionViewHead a) (vheap s)\<rparr>)))))))"

definition MmApplyAddressSpace :: "ADDRESS_SPACE \<Rightarrow> mmu \<Rightarrow> mmu" where
  "MmApplyAddressSpace a s = s\<lparr>cr3 := TopStructPhysAddress a\<rparr>"

definition SetupCR4 :: "mmu \<Rightarrow> mmu" where
  "SetupCR4 s = s\<lparr>cr4 := and (cr4 s) (not 4096)\<rparr>"

definition PagingEnableSystemWriteProtection :: "mmu \<Rightarrow> mmu" where
  "PagingEnableSystemWriteProtection s = s\<lparr>cr0 := or (cr0 s) 65536\<rparr>"

definition PagingDisableSystemWriteProtection :: "mmu \<Rightarrow> mmu" where
  "PagingDisableSystemWriteProtection s = s\<lparr>cr0 := and (cr0 s) (not 65536)\<rparr>"

definition SetupCR0 :: "mmu \<Rightarrow> mmu" where
  "SetupCR0 = PagingEnableSystemWriteProtection"

text \<open>The protection of a view of a section.\<close>

definition PagingFlagsFromSectionFlags :: "PFN_NUMBER \<Rightarrow> u32 \<Rightarrow> u16" where
  "PagingFlagsFromSectionFlags Mapping Protection =
     (if Mapping = 0 then 0
      else if Protection = 0x02 then or 1 4
      else if Protection = 0x04 then or 1 (or 4 2)
      else 0)"

section \<open>Before the recursive mapping exists\<close>

text \<open>Memory is mapped to itself, and tables are reached by their physical address.\<close>

definition ensure_before :: "u64 \<Rightarrow> nat \<Rightarrow> mmu \<Rightarrow> ((NTSTATUS \<times> u64) \<times> mmu) outcome" where
  "ensure_before t i s =
     (let f = drop_bit 12 t in
      if phys s f i \<noteq> 0 then Done ((STATUS_SUCCESS, PAGE_ALIGN (phys s f i)), s)
      else obind (allocate_pfn s) (\<lambda>((status, allocatedPfn), s).
        case allocatedPfn of
          None \<Rightarrow> Done ((status, 0), s)
        | Some pfn \<Rightarrow>
            if \<not> NT_SUCCESS status then Done ((status, 0), s)
            else
            let s = s\<lparr>phys := (phys s)(f := (phys s f)(i := PA_FROM_PFN pfn))\<rparr>;
                g = drop_bit 12 (phys s f i);
                s = s\<lparr>phys := (phys s)(g := (\<lambda>j. if j < 512 then 0 else phys s g j))\<rparr>;
                s = s\<lparr>phys := (phys s)(f := (phys s f)(i := or (phys s f i) 7))\<rparr>
            in Done ((STATUS_SUCCESS, PAGE_ALIGN (phys s f i)), s)))"

definition PagingMapPageBeforeInit :: "u64 \<Rightarrow> u64 \<Rightarrow> u64 \<Rightarrow> u16 \<Rightarrow> mmu \<Rightarrow> (NTSTATUS \<times> mmu) outcome" where
  "PagingMapPageBeforeInit PML4 p v f s =
     (let v = and (PAGE_ALIGN v) 0xFFFFFFFFFFFF; p = PAGE_ALIGN p in
      obind (ensure_before PML4 (slot 3 v) s) (\<lambda>((status, Pdp), s). if \<not> NT_SUCCESS status then Done (status, s) else
      obind (ensure_before Pdp (slot 2 v) s) (\<lambda>((status, Pd), s). if \<not> NT_SUCCESS status then Done (status, s) else
      obind (ensure_before Pd (slot 1 v) s) (\<lambda>((status, Pt), s). if \<not> NT_SUCCESS status then Done (status, s) else
        let g = drop_bit 12 Pt
        in Done (STATUS_SUCCESS, s\<lparr>phys := (phys s)(g := (phys s g)(slot 0 v := or p (ucast f)))\<rparr>)))))"

partial_function (option) map_range_loop ::
  "u64 \<Rightarrow> u64 \<Rightarrow> u64 \<Rightarrow> u64 \<Rightarrow> u16 \<Rightarrow> u64 \<Rightarrow> mmu \<Rightarrow> (NTSTATUS \<times> mmu) outcome option" where
  "map_range_loop PML4 PhysicalStart PhysicalEnd VirtualStart f AddressDelta s =
     (if AddressDelta + PhysicalStart \<le> PhysicalEnd
      then next_step (PagingMapPageBeforeInit PML4 (PhysicalStart + AddressDelta) (VirtualStart + AddressDelta) f s) (\<lambda>r.
        if \<not> NT_SUCCESS (fst r) then Some (Done r)
        else map_range_loop PML4 PhysicalStart PhysicalEnd VirtualStart f (AddressDelta + 4096) (snd r))
      else Some (Done (STATUS_SUCCESS, s)))"

definition PagingMapRangeBeforeInit :: "u64 \<Rightarrow> u64 \<Rightarrow> u64 \<Rightarrow> u64 \<Rightarrow> u16 \<Rightarrow> mmu \<Rightarrow> (NTSTATUS \<times> mmu) outcome" where
  "PagingMapRangeBeforeInit PML4 PhysicalStart PhysicalEnd VirtualStart f s =
     run_loop (map_range_loop PML4 PhysicalStart PhysicalEnd VirtualStart f 0 s)"

text \<open>The address on the stack is an argument; the results of the ranges are not looked at.\<close>

definition PagingInit :: "u64 \<Rightarrow> u64 \<Rightarrow> u64 \<Rightarrow> mmu \<Rightarrow> (NTSTATUS \<times> mmu) outcome" where
  "PagingInit rsp MinKernelAddress MaxKernelAddress s =
     (let s = SetupCR4 (SetupCR0 s) in
      obind (allocate_physical s) (\<lambda>((status, physAddr), s).
        case physAddr of
          None \<Rightarrow> Done (status, s)
        | Some pml4 \<Rightarrow>
            if \<not> NT_SUCCESS status then Done (status, s)
            else
            let f = drop_bit 12 pml4;
                s = s\<lparr>phys := (phys s)(f := (\<lambda>j. if j < 512 then 0 else phys s f j))\<rparr>;
                rw = or 1 2;
                stack = PAGE_ALIGN rsp - 10 * 4096;
                entries = PfnEntries (mpfns s);
                MemMapPageSize = NumberOfPfnEntries (mpfns s) * 32 + 4096;
                high = PAGING_KERNEL_SPACE + (MaxKernelAddress - MinKernelAddress)
            in obind (PagingMapRangeBeforeInit pml4 MinKernelAddress MaxKernelAddress MinKernelAddress rw s) (\<lambda>(_, s).
               obind (PagingMapRangeBeforeInit pml4 stack (PAGE_ALIGN rsp + 4096) stack rw s) (\<lambda>(_, s).
               obind (PagingMapRangeBeforeInit pml4 MinKernelAddress MaxKernelAddress PAGING_KERNEL_SPACE rw s) (\<lambda>(_, s).
               obind (PagingMapRangeBeforeInit pml4 (PAGE_ALIGN entries) (PAGE_ALIGN entries + MemMapPageSize) high rw s) (\<lambda>(_, s).
                 let s = s\<lparr>mpfns := MiFlagPfnsForRemap (mpfns s)\<rparr>;
                     entries = or high (and entries 0xFFF);
                     s = s\<lparr>phys := (phys s)(f := (phys s f)(510 := or pml4 3))\<rparr>;
                     s = s\<lparr>KernelPml4Entry := phys s f 511, cr3 := pml4\<rparr>
                 in Done (STATUS_SUCCESS, s\<lparr>mpfns := MmReinitPhysAllocator entries (NumberOfPfnEntries (mpfns s)) (mpfns s)\<rparr>)))))))"

end
