(* ===== verification/PageTables.thy ===== *)
theory PageTables
  imports Paging
begin

text \<open>
  The refinement of PagingMapPage (HAL/X64/paging.c). The tables form a tree; an access through the
  recursive region is an access to the table at a path, and mapping a page updates the entry of
  that page in the abstract address space and nothing else.
\<close>

section \<open>The tree of tables\<close>

text \<open>Paths lead from the top table down, the last slot first.\<close>

fun table :: "mmu \<Rightarrow> nat list \<Rightarrow> u64 option" where
  "table s [] = Some (frame_of (cr3 s))"
| "table s (i # p) = (case table s p of None \<Rightarrow> None | Some f \<Rightarrow>
     if phys s f i = 0 then None else Some (frame_of (phys s f i)))"

definition good :: "u64 \<Rightarrow> bool" where
  "good e = (bit e 0 \<and> \<not> bit e 7)"

definition valid_path :: "nat list \<Rightarrow> bool" where
  "valid_path p = (length p \<le> 3 \<and> (\<forall>i\<in>set p. i < 512) \<and> (p \<noteq> [] \<longrightarrow> last p \<noteq> 510))"

definition tables_ok :: "mmu \<Rightarrow> bool" where
  "tables_ok s =
     (good (phys s (frame_of (cr3 s)) 510) \<and> frame_of (phys s (frame_of (cr3 s)) 510) = frame_of (cr3 s) \<and>
      (\<forall>p i f. valid_path (i # p) \<longrightarrow> table s p = Some f \<longrightarrow> phys s f i \<noteq> 0 \<longrightarrow> good (phys s f i)) \<and>
      (\<forall>p q f. valid_path p \<longrightarrow> valid_path q \<longrightarrow> table s p = Some f \<longrightarrow> table s q = Some f \<longrightarrow> p = q))"

text \<open>The address with given slots: the recursive address of word \<open>i\<close> of the table at a path.\<close>

definition vaddr :: "nat \<Rightarrow> nat \<Rightarrow> nat \<Rightarrow> nat \<Rightarrow> nat \<Rightarrow> nat" where
  "vaddr a b c d off = ((if 256 \<le> a then (2 ^ 16 - 1) * 2 ^ 48 else 0) + (((a * 512 + b) * 512 + c) * 512 + d) * 4096 + off)"

lemma vaddr_bound:
  assumes "a < 512" "b < 512" "c < 512" "d < 512" "off < 4096"
  shows "vaddr a b c d off < 2 ^ 64"
  using assms by (simp add: vaddr_def)

lemma mixed_radix:
  fixes q r n :: nat
  assumes "r < n"
  shows "(q * n + r) div n = q" "(q * n + r) mod n = r"
  using assms by simp_all

lemma slots_vaddr:
  assumes "a < 512" "b < 512" "c < 512" "d < 512" "off < 4096"
  defines "v \<equiv> word_of_nat (vaddr a b c d off) :: u64"
  shows "slot 3 v = a" "slot 2 v = b" "slot 1 v = c" "slot 0 v = d" "unat v mod 4096 = off"
    and "unat v div 2 ^ 47 \<in> {0, 2 ^ 17 - 1}"
proof -
  define h :: nat where "h = (if 256 \<le> a then 2 ^ 16 - 1 else 0)"
  have "unat v = vaddr a b c d off"
    unfolding v_def by (rule unat_word_of_nat) (use vaddr_bound [OF assms(1-5)] in simp)
  then have u: "unat v = ((((h * 512 + a) * 512 + b) * 512 + c) * 512 + d) * 4096 + off"
    by (simp add: vaddr_def h_def)
  have m: "unat v mod 4096 = off" and d0: "unat v div 4096 = (((h * 512 + a) * 512 + b) * 512 + c) * 512 + d"
    unfolding u by (rule mixed_radix [OF assms(5)])+
  have d1: "unat v div 2097152 = ((h * 512 + a) * 512 + b) * 512 + c"
    using div_mult2_eq [of "unat v" 4096 512] mixed_radix(1) [OF assms(4)] d0 by simp
  have d2: "unat v div 1073741824 = (h * 512 + a) * 512 + b"
    using div_mult2_eq [of "unat v" 2097152 512] mixed_radix(1) [OF assms(3)] d1 by simp
  have d3: "unat v div 549755813888 = h * 512 + a"
    using div_mult2_eq [of "unat v" 1073741824 512] mixed_radix(1) [OF assms(2)] d2 by simp
  show "unat v mod 4096 = off" by (rule m)
  have sl: "slot k v = unat v div 2 ^ (12 + 9 * k) mod 512" for k
    unfolding slot_def unat_drop_bit_eq by (simp only: drop_bit_eq_div)
  have power_eval: "(2 :: nat) ^ (12 + 9 * 0) = 4096" "(2 :: nat) ^ (12 + 9 * 1) = 2097152"
    "(2 :: nat) ^ (12 + 9 * 2) = 1073741824" "(2 :: nat) ^ (12 + 9 * 3) = 549755813888" by simp_all
  show "slot 0 v = d" unfolding sl using mixed_radix(2) [OF assms(4)] by (simp only: d0 power_eval)
  show "slot 1 v = c" unfolding sl using mixed_radix(2) [OF assms(3)] by (simp only: d1 power_eval)
  show "slot 2 v = b" unfolding sl using mixed_radix(2) [OF assms(2)] by (simp only: d2 power_eval)
  show "slot 3 v = a" unfolding sl using mixed_radix(2) [OF assms(1)] by (simp only: d3 power_eval)
  have "unat v div 2 ^ 47 = (h * 512 + a) div 256" using div_mult2_eq [of "unat v" 549755813888 256] d3 by simp
  moreover have "(h * 512 + a) div 256 = (if 256 \<le> a then 2 ^ 17 - 1 else 0)"
    using assms(1) by (intro div_nat_eqI) (simp_all add: h_def)
  ultimately show "unat v div 2 ^ 47 \<in> {0, 2 ^ 17 - 1}" by simp
qed

text \<open>Where the code's arrays are.\<close>

lemma bases:
  "RecursivePagingPTsBase = 0xFFFFFF0000000000" "RecursivePagingPDsBase = 0xFFFFFF7F80000000"
  "RecursivePagingPDPsBase = 0xFFFFFF7FBFC00000" "RecursivePagingPML4Base = 0xFFFFFF7FBFDFE000"
  by code_simp+

text \<open>The address of word \<open>i\<close> of the table at path \<open>p\<close>: as many times 510 as there are missing levels.\<close>

fun rec_addr :: "nat list \<Rightarrow> nat \<Rightarrow> nat" where
  "rec_addr [] i = vaddr 510 510 510 510 (8 * i)"
| "rec_addr [a] i = vaddr 510 510 510 a (8 * i)"
| "rec_addr [b, a] i = vaddr 510 510 a b (8 * i)"
| "rec_addr (c # b # a # _) i = vaddr 510 a b c (8 * i)"

text \<open>The entries along a path are good, and the recursive entry is in place.\<close>

fun path_good :: "mmu \<Rightarrow> nat list \<Rightarrow> bool" where
  "path_good s [] = True"
| "path_good s (i # p) = (path_good s p \<and> (\<forall>f. table s p = Some f \<longrightarrow> good (phys s f i)))"

definition root_ok :: "mmu \<Rightarrow> bool" where
  "root_ok s = (good (phys s (frame_of (cr3 s)) 510) \<and> frame_of (phys s (frame_of (cr3 s)) 510) = frame_of (cr3 s))"

lemma valid_path_Cons: "valid_path (i # p) \<Longrightarrow> valid_path p"
  by (cases p) (auto simp: valid_path_def)

lemma tables_ok_root: "tables_ok s \<Longrightarrow> root_ok s"
  by (simp add: tables_ok_def root_ok_def)

lemma tables_ok_path: "tables_ok s \<Longrightarrow> valid_path p \<Longrightarrow> table s p = Some f \<Longrightarrow> path_good s p"
proof (induction p arbitrary: f)
  case (Cons i p)
  obtain g where g: "table s p = Some g" "phys s g i \<noteq> 0" using Cons.prems(3) by (auto split: option.splits if_splits)
  have "good (phys s g i)" using Cons.prems(1,2) g by (auto simp: tables_ok_def)
  then show ?case using Cons.IH [OF Cons.prems(1) valid_path_Cons [OF Cons.prems(2)] g(1)] g(1) by simp
qed simp

lemma walk_table:
  assumes "path_good s p" "table s p = Some f"
  shows "page_walk s (frame_of (cr3 s)) (rev p @ is) = page_walk s f is"
  using assms
proof (induction p arbitrary: f "is")
  case (Cons i p)
  obtain g where g: "table s p = Some g" "f = frame_of (phys s g i)"
    using Cons.prems(2) by (auto split: option.splits if_splits)
  then show ?case using Cons.IH [of g "i # is"] Cons.prems(1) by (simp add: good_def Let_def)
qed simp

lemma walk_510:
  assumes "root_ok s"
  shows "page_walk s (frame_of (cr3 s)) (replicate n 510 @ is) = page_walk s (frame_of (cr3 s)) is"
  using assms by (induction n) (auto simp: root_ok_def good_def Let_def)

lemma valid_path_cases:
  assumes "valid_path p"
  obtains "p = []" | a where "p = [a]" "a < 512" | a b where "p = [b, a]" "a < 512" "b < 512"
    | a b c where "p = [c, b, a]" "a < 512" "b < 512" "c < 512"
proof -
  have "p = [] \<or> (\<exists>a. p = [a]) \<or> (\<exists>a b. p = [b, a]) \<or> (\<exists>a b c. p = [c, b, a])"
    using assms by (auto simp: valid_path_def le_Suc_eq length_Suc_conv eval_nat_numeral)
  then show ?thesis using assms that by (auto simp: valid_path_def)
qed

lemma translate_vaddr:
  assumes "a < 512" "b < 512" "c < 512" "d < 512" "off < 4096"
  shows "translate s (word_of_nat (vaddr a b c d off)) = page_walk s (frame_of (cr3 s)) [a, b, c, d]"
  unfolding translate_def slots_vaddr(1-4) [OF assms] using slots_vaddr(6) [OF assms] by simp

lemma translate_rec:
  assumes r: "root_ok s" and pg: "path_good s p" and p: "valid_path p" and t: "table s p = Some f" and i: "i < 512"
  shows "translate s (word_of_nat (rec_addr p i)) = Some f" "word_in_page (word_of_nat (rec_addr p i)) = i"
proof -
  have i8: "8 * i < 4096" using i by simp
  have w: "page_walk s (frame_of (cr3 s)) (replicate n 510 @ rev p) = Some f" for n
    using walk_510 [OF r, of n "rev p"] walk_table [OF pg t, of "[]"] by simp
  have rp: "replicate 4 (510 :: nat) = [510, 510, 510, 510]" "replicate 3 (510 :: nat) = [510, 510, 510]"
    "replicate 2 (510 :: nat) = [510, 510]" "replicate 1 (510 :: nat) = [510]"
    by (simp_all add: eval_nat_numeral)
  have "translate s (word_of_nat (rec_addr p i)) = Some f \<and> word_in_page (word_of_nat (rec_addr p i)) = i"
    using p
  proof (cases rule: valid_path_cases)
    case 1
    then show ?thesis using w [of 4] i8 unfolding rp
      by (simp add: translate_vaddr word_in_page_def slots_vaddr(5))
  next
    case 2
    then show ?thesis using w [of 3] i8 unfolding rp
      by (simp add: translate_vaddr word_in_page_def slots_vaddr(5))
  next
    case 3
    then show ?thesis using w [of 2] i8 unfolding rp
      by (simp add: translate_vaddr word_in_page_def slots_vaddr(5))
  next
    case 4
    then show ?thesis using w [of 1] i8 unfolding rp
      by (simp add: translate_vaddr word_in_page_def slots_vaddr(5))
  qed
  then show "translate s (word_of_nat (rec_addr p i)) = Some f" "word_in_page (word_of_nat (rec_addr p i)) = i"
    by blast+
qed

definition poke :: "u64 \<Rightarrow> nat \<Rightarrow> u64 \<Rightarrow> mmu \<Rightarrow> mmu" where
  "poke f i x s = s\<lparr>phys := (phys s)(f := (phys s f)(i := x))\<rparr>"

lemma access_table:
  assumes "root_ok s" "path_good s p" "valid_path p" "table s p = Some f" "i < 512"
    and a: "base + 8 * j = word_of_nat (rec_addr p i)"
  shows "get base j s = Done (phys s f i)" "put base j x s = Done (poke f i x s)"
  using translate_rec [OF assms(1-5)] by (simp_all add: get_def put_def a load_def store_def poke_def)

lemma array_addrs:
  "RecursivePagingPML4Base + 8 * word_of_nat i = word_of_nat (rec_addr [] i)"
  "RecursivePagingPDPsBase + 8 * word_of_nat (a * 512 + i) = word_of_nat (rec_addr [a] i)"
  "RecursivePagingPDsBase + 8 * word_of_nat ((a * 512 + b) * 512 + i) = word_of_nat (rec_addr [b, a] i)"
  "RecursivePagingPTsBase + 8 * word_of_nat (((a * 512 + b) * 512 + c) * 512 + i) = word_of_nat (rec_addr [c, b, a] i)"
  unfolding bases by (simp_all add: vaddr_def algebra_simps)

text \<open>Writes into a frame that no table above the path is in.\<close>

fun above :: "mmu \<Rightarrow> nat list \<Rightarrow> u64 \<Rightarrow> bool" where
  "above s [] g = True"
| "above s (i # p) g = (table s p \<noteq> Some g \<and> above s p g)"

lemma above_poke:
  assumes "above s p g"
  shows "table (poke g j x s) p = table s p" "path_good (poke g j x s) p = path_good s p" "above (poke g j x s) p g"
proof -
  have "table (poke g j x s) p = table s p \<and> path_good (poke g j x s) p = path_good s p \<and> above (poke g j x s) p g"
    using assms by (induction p) (auto simp: poke_def split: option.splits)
  then show "table (poke g j x s) p = table s p" "path_good (poke g j x s) p = path_good s p" "above (poke g j x s) p g"
    by blast+
qed

lemma root_poke: "root_ok s \<Longrightarrow> frame_of (cr3 s) \<noteq> g \<Longrightarrow> root_ok (poke g j x s)"
  by (simp add: root_ok_def poke_def)

lemma zero_words_spec:
  assumes "root_ok s" "frame_of (cr3 s) \<noteq> g" "path_good s p" "above s p g" "valid_path p" "table s p = Some g"
    and "set is \<subseteq> {..<512}" and a: "\<And>j. j < 512 \<Longrightarrow> base + 8 * word_of_nat j = word_of_nat (rec_addr p j)"
  shows "zero_words base is s = Done (fold (\<lambda>j s. poke g j 0 s) is s)"
  using assms(1-7)
proof (induction "is" arbitrary: s)
  case (Cons j js)
  have j: "j < 512" using Cons.prems(7) by simp
  have p: "put base (word_of_nat j) 0 s = Done (poke g j 0 s)"
    by (rule access_table(2) [OF Cons.prems(1,3,5,6) j a [OF j]])
  have "zero_words base js (poke g j 0 s) = Done (fold (\<lambda>j s. poke g j 0 s) js (poke g j 0 s))"
    by (rule Cons.IH) (use Cons.prems above_poke [OF Cons.prems(4)] root_poke in \<open>auto simp: poke_def\<close>)
  then show ?case using p by simp
qed simp

lemma fold_poke:
  "fold (\<lambda>j s. poke g j 0 s) is s =
    s\<lparr>phys := (phys s)(g := (\<lambda>j. if j \<in> set is then 0 else phys s g j))\<rparr>"
  by (induction "is" arbitrary: s) (auto simp: poke_def fun_eq_iff)

section \<open>A new table\<close>

definition with_table :: "u64 \<Rightarrow> nat \<Rightarrow> u64 \<Rightarrow> u64 \<Rightarrow> mmu \<Rightarrow> mmu" where
  "with_table f i e g s =
     s\<lparr>phys := (phys s)(f := (phys s f)(i := e), g := (\<lambda>j. if j < 512 then 0 else phys s g j))\<rparr>"

definition new_table :: "mmu \<Rightarrow> nat list \<Rightarrow> nat \<Rightarrow> u64 \<Rightarrow> u64 \<Rightarrow> u64 \<Rightarrow> bool" where
  "new_table s p i f e g =
     (tables_ok s \<and> valid_path (i # p) \<and> table s p = Some f \<and> phys s f i = 0 \<and> good e \<and> frame_of e = g \<and>
      (\<forall>q. valid_path q \<longrightarrow> table s q \<noteq> Some g))"

lemma tables_inj: "tables_ok s \<Longrightarrow> valid_path p \<Longrightarrow> valid_path q \<Longrightarrow> table s p = Some f \<Longrightarrow> table s q = Some f \<Longrightarrow> p = q"
  unfolding tables_ok_def by blast

lemma good_nonzero: "good e \<Longrightarrow> e \<noteq> 0"
  by (auto simp: good_def)

lemma table_with_table:
  assumes n: "new_table s p i f e g" and q: "valid_path q"
  shows "table (with_table f i e g s) q = (if q = i # p then Some g else table s q)"
  using q
proof (induction q)
  case Nil
  then show ?case by (simp add: with_table_def)
next
  case (Cons j q)
  note v = valid_path_Cons [OF Cons.prems]
  have vp: "valid_path p" using n valid_path_Cons by (auto simp: new_table_def)
  have fg: "f \<noteq> g" using n vp by (auto simp: new_table_def)
  have none: "table s (i # p) = None" using n by (simp add: new_table_def)
  have j: "j < 512" using Cons.prems by (simp add: valid_path_def)
  show ?case
  proof (cases "q = i # p")
    case True
    have ne: "j # i # p \<noteq> i # p" by (metis length_Cons n_not_Suc_n)
    have a: "table s (j # i # p) = None" unfolding table.simps(2) [of s j] none by simp
    have "table (with_table f i e g s) (i # p) = Some g" using Cons.IH [OF v] True by simp
    then have b: "table (with_table f i e g s) (j # i # p) = None"
      unfolding table.simps(2) [of _ j] by (simp only: option.case) (simp add: with_table_def j)
    show ?thesis unfolding True a b using ne by simp
  next
    case False
    show ?thesis
    proof (cases "table s q")
      case None
      have "q \<noteq> p" using None n by (auto simp: new_table_def)
      then show ?thesis using Cons.IH [OF v] None False by simp
    next
      case (Some h)
      have hg: "h \<noteq> g" using Some v n by (auto simp: new_table_def)
      have hf: "h = f \<longleftrightarrow> q = p" using tables_inj [of s q p h] Some v vp n by (auto simp: new_table_def)
      have e: "e \<noteq> 0" "frame_of e = g" using n good_nonzero by (auto simp: new_table_def)
      show ?thesis using Cons.IH [OF v] Some False hg hf e fg by (auto simp: with_table_def)
    qed
  qed
qed

lemma tables_ok_with_table:
  assumes n: "new_table s p i f e g"
  shows "tables_ok (with_table f i e g s)"
proof -
  let ?s = "with_table f i e g s"
  note t = table_with_table [OF n]
  have ok: "tables_ok s" and vip: "valid_path (i # p)" and e: "good e" and z: "phys s f i = 0" and tf: "table s p = Some f"
    and fresh: "\<And>q. valid_path q \<Longrightarrow> table s q \<noteq> Some g" using n by (auto simp: new_table_def)
  have vp: "valid_path p" by (rule valid_path_Cons [OF vip])
  have nil: "valid_path []" by (simp add: valid_path_def)
  have rg: "frame_of (cr3 s) \<noteq> g" using fresh [OF nil] by simp
  have c: "cr3 ?s = cr3 s" by (simp add: with_table_def)
  have root: "root_ok s" by (rule tables_ok_root [OF ok])
  have "frame_of (cr3 s) = f \<Longrightarrow> i \<noteq> 510"
    using z root good_nonzero by (auto simp: root_ok_def)
  then have r: "phys ?s (frame_of (cr3 s)) 510 = phys s (frame_of (cr3 s)) 510" using rg by (auto simp: with_table_def)
  have g1: "good (phys ?s h j)" if v: "valid_path (j # q)" and h: "table ?s q = Some h" and ne: "phys ?s h j \<noteq> 0" for q j h
  proof (cases "q = i # p")
    case True
    then have "h = g" using h t [OF valid_path_Cons [OF v]] by simp
    moreover have "j < 512" using v by (simp add: valid_path_def)
    ultimately show ?thesis using ne by (simp add: with_table_def)
  next
    case False
    then have h': "table s q = Some h" using h t [OF valid_path_Cons [OF v]] by simp
    then have "h \<noteq> g" using fresh valid_path_Cons [OF v] by auto
    then have "phys ?s h j = (if h = f \<and> j = i then e else phys s h j)" by (simp add: with_table_def)
    then show ?thesis using ne e ok v h' by (auto simp: tables_ok_def)
  qed
  have inj: "q = q'" if v: "valid_path q" "valid_path q'" and h: "table ?s q = Some h" "table ?s q' = Some h" for q q' h
    using h tables_inj [OF ok v] fresh [OF v(1)] fresh [OF v(2)]
    unfolding t [OF v(1)] t [OF v(2)] by (auto split: if_splits)
  show ?thesis
    unfolding tables_ok_def c r using root g1 inj by (simp add: root_ok_def)
qed

section \<open>The abstract address space\<close>

definition page_path :: "nat \<Rightarrow> nat list" where
  "page_path n = [n div 2 ^ 9 mod 512, n div 2 ^ 18 mod 512, n div 2 ^ 27 mod 512]"

text \<open>The entry of page \<open>n\<close>, 0 where a table is missing.\<close>

definition page_entry :: "mmu \<Rightarrow> nat \<Rightarrow> u64" where
  "page_entry s n = (case table s (page_path n) of None \<Rightarrow> 0 | Some f \<Rightarrow> phys s f (n mod 512))"

definition ordinary :: "nat \<Rightarrow> bool" where
  "ordinary n = (n < 2 ^ 36 \<and> n div 2 ^ 27 \<noteq> 510)"

lemma page_path_valid: "ordinary n \<Longrightarrow> valid_path (page_path n)"
proof -
  assume o: "ordinary n"
  have "n < 512 * 2 ^ 27" using o by (simp add: ordinary_def)
  then have "n div 2 ^ 27 < 512" by (rule less_mult_imp_div_less)
  then show ?thesis using o by (auto simp: ordinary_def page_path_def valid_path_def)
qed

lemma page_entry_with_table:
  assumes n: "new_table s p i f e g" and "ordinary n"
  shows "page_entry (with_table f i e g s) n = page_entry s n"
proof -
  let ?q = "page_path n"
  have v: "valid_path ?q" by (rule page_path_valid [OF assms(2)])
  have nn: "n mod 512 < 512" by simp
  have tf: "table s p = Some f" and vip: "valid_path (i # p)" and z: "phys s f i = 0"
    and fresh: "\<And>q. valid_path q \<Longrightarrow> table s q \<noteq> Some g" and ok: "tables_ok s" using n by (auto simp: new_table_def)
  show ?thesis
  proof (cases "?q = i # p")
    case True
    have "table s ?q = None" unfolding True using tf z by simp
    then show ?thesis using table_with_table [OF n v] True nn by (simp add: page_entry_def with_table_def)
  next
    case False
    show ?thesis
    proof (cases "table s ?q")
      case None
      then show ?thesis using table_with_table [OF n v] False by (simp add: page_entry_def)
    next
      case (Some h)
      have "h \<noteq> g" using fresh [OF v] Some by auto
      moreover have "h \<noteq> f"
      proof
        assume "h = f"
        then have "?q = p" using tables_inj [OF ok v valid_path_Cons [OF vip] Some] tf by simp
        then have "length p = 3" by (auto simp: page_path_def)
        then show False using vip by (simp add: valid_path_def)
      qed
      ultimately show ?thesis using table_with_table [OF n v] False Some by (simp add: page_entry_def with_table_def)
    qed
  qed
qed

section \<open>Ensuring a table\<close>

lemma mpfns_simps [simp]:
  "table (s\<lparr>mpfns := d\<rparr>) p = table s p" "page_entry (s\<lparr>mpfns := d\<rparr>) n = page_entry s n"
  "path_good (s\<lparr>mpfns := d\<rparr>) p = path_good s p" "root_ok (s\<lparr>mpfns := d\<rparr>) = root_ok s"
  "tables_ok (s\<lparr>mpfns := d\<rparr>) = tables_ok s"
proof -
  show t: "table (s\<lparr>mpfns := d\<rparr>) p = table s p" for p by (induction p) (simp_all split: option.splits)
  show "page_entry (s\<lparr>mpfns := d\<rparr>) n = page_entry s n" by (simp add: page_entry_def t split: option.split)
  show "path_good (s\<lparr>mpfns := d\<rparr>) p = path_good s p" by (induction p) (simp_all add: t)
  show "root_ok (s\<lparr>mpfns := d\<rparr>) = root_ok s" by (simp add: root_ok_def)
  show "tables_ok (s\<lparr>mpfns := d\<rparr>) = tables_ok s" by (simp add: tables_ok_def t)
qed

text \<open>The free pages hold no table.\<close>

definition ready :: "mmu \<Rightarrow> PFN_NUMBER list \<Rightarrow> PFN_NUMBER list \<Rightarrow> bool" where
  "ready s F W =
     (tables_ok s \<and> pfn_ok (mpfns s) F W \<and> PfnEntriesLock (mpfns s) = 0 \<and> DISPATCH_LEVEL \<le> irql (mcpu s) \<and>
      (\<forall>g\<in>set F. g < 2 ^ 40 \<and> (\<forall>p. valid_path p \<longrightarrow> table s p \<noteq> Some g)))"

text \<open>New tables come from the free pages F.\<close>

definition tables_from :: "mmu \<Rightarrow> PFN_NUMBER list \<Rightarrow> mmu \<Rightarrow> bool" where
  "tables_from s F s' = (\<forall>q g. valid_path q \<longrightarrow> table s' q = Some g \<longrightarrow> table s q = Some g \<or> g \<in> set F)"

lemma tables_from_refl [simp]: "tables_from s F s" by (simp add: tables_from_def)

lemma tables_from_trans: "tables_from s F t \<Longrightarrow> set G \<subseteq> set F \<Longrightarrow> tables_from t G u \<Longrightarrow> tables_from s F u"
  unfolding tables_from_def by blast

lemma tables_from_same: "(\<And>q. valid_path q \<Longrightarrow> table u q = table t q) \<Longrightarrow> tables_from s F t \<Longrightarrow> tables_from s F u"
  unfolding tables_from_def by simp

definition same_space :: "mmu \<Rightarrow> PFN_NUMBER list \<Rightarrow> mmu \<Rightarrow> bool" where
  "same_space s F s' = ((\<exists>d m. s' = s\<lparr>mpfns := d, phys := m\<rparr>) \<and> (\<forall>n. ordinary n \<longrightarrow> page_entry s' n = page_entry s n) \<and>
     tables_from s F s')"

lemma same_space_refl [simp]: "same_space s F s"
  by (cases s) (simp add: same_space_def)

lemma same_space_trans: "same_space s F t \<Longrightarrow> set G \<subseteq> set F \<Longrightarrow> same_space t G u \<Longrightarrow> same_space s F u"
  unfolding same_space_def by (elim conjE, intro conjI) (fastforce, simp, rule tables_from_trans)

lemma new_entry:
  assumes "g < 2 ^ 40"
  shows "frame_of (or (PA_FROM_PFN g) 7) = g" "good (or (PA_FROM_PFN g) 7)"
proof -
  have pa: "PA_FROM_PFN g = push_bit 12 g" by (simp add: PA_FROM_PFN_def push_bit_eq_mult mult.commute)
  have m: "(0xFFFFFFFFFF :: u64) = mask 40" "(7 :: u64) = mask 3" by (simp_all add: mask_eq_exp_minus_1)
  have b: "bit g n \<Longrightarrow> n < 40" for n using assms by (metis bit_take_bit_iff less_mask_eq take_bit_eq_mask)
  show "frame_of (or (PA_FROM_PFN g) 7) = g"
    unfolding frame_of_def pa m by (rule bit_word_eqI) (auto simp: bit_simps dest: b)
  show "good (or (PA_FROM_PFN g) 7)" unfolding good_def pa m by (simp add: bit_simps)
qed

lemma above_fresh:
  assumes "\<And>q. valid_path q \<Longrightarrow> table s q \<noteq> Some g" "valid_path p"
  shows "above s p g"
  using assms(2) by (induction p) (auto dest: valid_path_Cons simp: assms(1))

text \<open>Entering the table makes it reachable; what it held before is not looked at.\<close>

lemma entered_table:
  assumes n: "new_table s p i f e g"
  shows "root_ok (poke f i e s)" "path_good (poke f i e s) (i # p)" "above (poke f i e s) (i # p) g"
    "table (poke f i e s) (i # p) = Some g"
proof -
  have ok: "tables_ok s" and vip: "valid_path (i # p)" and tf: "table s p = Some f" and z: "phys s f i = 0"
    and e: "good e" "frame_of e = g" and fresh: "\<And>q. valid_path q \<Longrightarrow> table s q \<noteq> Some g"
    using n by (auto simp: new_table_def)
  have vp: "valid_path p" by (rule valid_path_Cons [OF vip])
  have ab: "above s q f" if "valid_path q" "\<forall>r. valid_path r \<longrightarrow> table s r = Some f \<longrightarrow> length q \<le> length r" for q
    using that
  proof (induction q)
    case (Cons j q)
    have vq: "valid_path q" by (rule valid_path_Cons [OF Cons.prems(1)])
    have "table s q \<noteq> Some f" using Cons.prems(2) vq by fastforce
    then show ?case using Cons.IH [OF vq] Cons.prems(2) by (auto dest: Suc_leD)
  qed simp
  have a: "above s p f" by (rule ab [OF vp]) (use tables_inj [OF ok vp _ tf] in blast)
  have p: "table (poke f i e s) p = Some f" "path_good (poke f i e s) p"
    using above_poke [OF a] tf tables_ok_path [OF ok vp tf] by simp_all
  have ph: "phys (poke f i e s) f i = e" by (simp add: poke_def)
  show t: "table (poke f i e s) (i # p) = Some g" using p(1) ph good_nonzero [OF e(1)] e(2) by simp
  show "path_good (poke f i e s) (i # p)" using p ph e(1) by simp
  have root: "root_ok s" by (rule tables_ok_root [OF ok])
  have "frame_of (cr3 s) = f \<Longrightarrow> i \<noteq> 510" using z root good_nonzero by (auto simp: root_ok_def)
  then show "root_ok (poke f i e s)" using root by (auto simp: root_ok_def poke_def)
  have fg: "f \<noteq> g" using fresh [OF vp] tf by simp
  have "above (poke f i e s) q g" if "above s q f" "above s q g" for q
    using that by (induction q) (auto simp: above_poke(1))
  then have "above (poke f i e s) p g" using a above_fresh [OF fresh vp] by blast
  then show "above (poke f i e s) (i # p) g" using p(1) fg by simp
qed

text \<open>The result of ensuring the table at \<open>p\<close>: it is there, and a free page was used if it was not.\<close>

definition ensured :: "(NTSTATUS \<times> mmu) outcome \<Rightarrow> mmu \<Rightarrow> PFN_NUMBER list \<Rightarrow> nat list \<Rightarrow> bool" where
  "ensured r s F p =
     (F = [] \<and> table s p = None \<and> r = Done (STATUS_NO_MEMORY, s) \<or>
      (\<exists>s' W' g. r = Done (STATUS_SUCCESS, s') \<and> ready s' (if table s p = None then tl F else F) W' \<and>
         (table s p = None \<longrightarrow> F \<noteq> []) \<and> (\<forall>q. valid_path q \<longrightarrow> table s' q = (if q = p then Some g else table s q)) \<and>
         same_space s F s'))"

lemma ensure_table_spec:
  assumes r: "ready s F W" and vip: "valid_path (i # p)" and tf: "table s p = Some f"
    and a: "base + 8 * j = word_of_nat (rec_addr p i)"
    and ch: "\<And>k. k < 512 \<Longrightarrow> child + 8 * (512 * j) + 8 * word_of_nat k = word_of_nat (rec_addr (i # p) k)"
  shows "ensured (ensure_table base j child s) s F (i # p)"
proof -
  have ok: "tables_ok s" and pf: "pfn_ok (mpfns s) F W" "PfnEntriesLock (mpfns s) = 0" "DISPATCH_LEVEL \<le> irql (mcpu s)"
    and fr: "\<And>g q. g \<in> set F \<Longrightarrow> g < 2 ^ 40 \<and> (valid_path q \<longrightarrow> table s q \<noteq> Some g)"
    using r by (auto simp: ready_def)
  have vp: "valid_path p" and i: "i < 512" using vip valid_path_Cons by (auto simp: valid_path_def)
  note ac = access_table [OF tables_ok_root [OF ok] tables_ok_path [OF ok vp tf] vp tf i a]
  show ?thesis
  proof (cases "phys s f i = 0")
    case False
    then have e: "ensure_table base j child s = Done (STATUS_SUCCESS, s)" using ac(1) by (simp add: ensure_table_def)
    obtain g where "table s (i # p) = Some g" using False tf by simp
    then show ?thesis
      unfolding ensured_def e using r by (intro disjI2 exI [of _ s] exI [of _ W] exI [of _ g]) simp
  next
    case True
    show ?thesis
    proof (cases F)
      case Nil
      have "allocate_pfn s = Done ((STATUS_NO_MEMORY, None), s)"
        using MmAllocatePfn_empty pf unfolding Nil by (simp add: allocate_pfn_def)
      then show ?thesis using Nil True ac(1) tf by (simp add: ensured_def ensure_table_def)
    next
      case (Cons g F')
      obtain d where d: "MmAllocatePfn (mcpu s) (mpfns s) = Done ((STATUS_SUCCESS, Some g), d)"
        "pfn_ok d F' (W @ [g])" "PfnEntriesLock d = 0"
        using MmAllocatePfn_refines [of "mpfns s" g F' W "mcpu s"] pf Cons by auto
      let ?e = "or (PA_FROM_PFN g) 7" and ?t = "s\<lparr>mpfns := d\<rparr>"
      have g: "g < 2 ^ 40" using fr Cons by simp
      have n: "new_table ?t p i f ?e g"
        using ok vip tf True new_entry [OF g] fr [of g] Cons by (simp add: new_table_def)
      let ?u = "poke f i ?e ?t"
      have al: "allocate_pfn s = Done ((STATUS_SUCCESS, Some g), ?t)" using d(1) by (simp add: allocate_pfn_def)
      have vt: "valid_path p" "table ?t p = Some f" "tables_ok ?t" using vp tf ok by simp_all
      have pt: "put base j ?e ?t = Done ?u"
        by (rule access_table(2) [OF tables_ok_root [OF vt(3)] tables_ok_path [OF vt(3) vt(1,2)] vt(1,2) i a])
      have root: "frame_of (cr3 ?u) \<noteq> g"
        using fr [of g "[]"] Cons by (simp add: poke_def valid_path_def)
      note en = entered_table [OF n]
      have "zero_words (child + 8 * (512 * j)) [0..<512] ?u = Done (fold (\<lambda>k s. poke g k 0 s) [0..<512] ?u)"
        by (rule zero_words_spec [OF en(1) root en(2,3) vip en(4) _ ch]) auto
      moreover have "fold (\<lambda>k s. poke g k 0 s) [0..<512] ?u = with_table f i ?e g ?t"
      proof -
        have "f \<noteq> g" using fr [of g p] vp tf Cons by auto
        then show ?thesis unfolding fold_poke by (auto simp: with_table_def poke_def fun_eq_iff)
      qed
      ultimately have res: "ensure_table base j child s = Done (STATUS_SUCCESS, with_table f i ?e g ?t)"
        using ac(1) True al pt by (simp add: ensure_table_def)
      let ?s = "with_table f i ?e g ?t"
      have tp: "table ?s q = (if q = i # p then Some g else table s q)" if "valid_path q" for q
        using table_with_table [OF n that] by simp
      have m: "mpfns ?s = d" "mcpu ?s = mcpu s" by (simp_all add: with_table_def)
      have dist: "distinct (g # F')" using pf(1) Cons by (simp add: pfn_ok_def)
      have "ready ?s F' (W @ [g])"
        unfolding ready_def m using tables_ok_with_table [OF n] d(2,3) pf(3) fr dist Cons
        by (auto simp: tp)
      moreover have "tables_from s F ?s" using tp Cons unfolding tables_from_def by auto
      then have "same_space s F ?s"
        using page_entry_with_table [OF n] by (auto simp: same_space_def with_table_def)
      ultimately show ?thesis
        unfolding ensured_def res using tp Cons tf True
        by (intro disjI2 exI [of _ ?s] exI [of _ "W @ [g]"] exI [of _ g]) simp
    qed
  qed
qed

section \<open>Writing the last level\<close>

lemma above_leaf:
  assumes ok: "tables_ok s" and P: "valid_path P" "length P = 3" "table s P = Some f" and q: "valid_path q"
  shows "above s q f"
  using q
proof (induction q)
  case (Cons j q)
  have v: "valid_path q" "length q \<le> 2" using Cons.prems valid_path_Cons by (auto simp: valid_path_def)
  have "table s q \<noteq> Some f" using tables_inj [OF ok v(1) P(1) _ P(3)] v(2) P(2) by auto
  then show ?case using Cons.IH [OF v(1)] by simp
qed simp

lemma leaf_poke:
  assumes ok: "tables_ok s" and P: "valid_path P" "length P = 3" "table s P = Some f"
  shows "valid_path q \<Longrightarrow> table (poke f d x s) q = table s q" "tables_ok (poke f d x s)"
proof -
  let ?s = "poke f d x s"
  show t: "table ?s q = table s q" if "valid_path q" for q
    by (rule above_poke(1) [OF above_leaf [OF ok P that]])
  have root: "root_ok ?s"
  proof (rule root_poke [OF tables_ok_root [OF ok]])
    show "frame_of (cr3 s) \<noteq> f"
      using tables_inj [OF ok _ P(1) _ P(3), of "[]"] P(2) by (auto simp: valid_path_def)
  qed
  have g: "good (phys ?s h i)" if v: "valid_path (i # q)" and h: "table ?s q = Some h" and z: "phys ?s h i \<noteq> 0" for q i h
  proof -
    have vq: "valid_path q" "length q \<le> 2" using v valid_path_Cons by (auto simp: valid_path_def)
    have h': "table s q = Some h" using h t [OF vq(1)] by simp
    have "h \<noteq> f" using tables_inj [OF ok vq(1) P(1) h'] P(2,3) vq(2) by auto
    then show ?thesis using z ok v h' by (auto simp: poke_def tables_ok_def)
  qed
  show "tables_ok ?s"
    unfolding tables_ok_def using root g tables_inj [OF ok] t by (auto simp: root_ok_def poke_def [THEN arg_cong [where f = cr3]])
qed

text \<open>The page number of an address, and the four indices the code computes.\<close>

definition page_of :: "u64 \<Rightarrow> nat" where "page_of v = unat v div 2 ^ 12 mod 2 ^ 36"

lemma page_indices:
  defines "w v \<equiv> and v (0xFFFFFFFFFFFF :: u64)"
  shows "drop_bit 12 (w v) = word_of_nat (page_of v)" "drop_bit 21 (w v) = word_of_nat (page_of v div 2 ^ 9)"
    "drop_bit 30 (w v) = word_of_nat (page_of v div 2 ^ 18)" "drop_bit 39 (w v) = word_of_nat (page_of v div 2 ^ 27)"
proof -
  have m: "(0xFFFFFFFFFFFF :: u64) = mask 48" by (simp add: mask_eq_exp_minus_1)
  have "unat (drop_bit (12 + k) (w v)) = page_of v div 2 ^ k" for k
  proof -
    have a: "unat (w v) = unat v mod 2 ^ 48"
      unfolding w_def m by (simp only: take_bit_eq_mask [symmetric] unsigned_take_bit_eq) (simp only: take_bit_eq_mod)
    have "unat (drop_bit (12 + k) (w v)) = unat v mod 2 ^ 48 div 2 ^ (12 + k)"
      unfolding unat_drop_bit_eq a by (simp only: drop_bit_eq_div)
    also have "\<dots> = page_of v div 2 ^ k"
      unfolding page_of_def power_add div_mult2_eq using div_exp_mod_exp_eq [of "unat v" 12 36] by simp
    finally show ?thesis .
  qed
  then have "drop_bit (12 + k) (w v) = word_of_nat (page_of v div 2 ^ k)" for k
    by (metis of_nat_unat ucast_id)
  from this [of 0] this [of 9] this [of 18] this [of 27] show
    "drop_bit 12 (w v) = word_of_nat (page_of v)" "drop_bit 21 (w v) = word_of_nat (page_of v div 2 ^ 9)"
    "drop_bit 30 (w v) = word_of_nat (page_of v div 2 ^ 18)" "drop_bit 39 (w v) = word_of_nat (page_of v div 2 ^ 27)"
    by simp_all
qed

lemma page_of_align [simp]: "page_of (PAGE_ALIGN v) = page_of v"
proof -
  have m: "(0xFFF :: u64) = mask 12" by (simp add: mask_eq_exp_minus_1)
  have "drop_bit 12 (PAGE_ALIGN v) = drop_bit 12 v"
    unfolding PAGE_ALIGN_def m by (rule bit_word_eqI) (auto simp: bit_simps dest: bit_imp_le_length)
  then have "unat (PAGE_ALIGN v) div 2 ^ 12 = unat v div 2 ^ 12"
    by (metis drop_bit_eq_div unat_drop_bit_eq)
  then show ?thesis by (simp only: page_of_def)
qed

lemma page_digits:
  fixes n :: nat
  shows "n div 2 ^ 18 = n div 2 ^ 27 * 512 + n div 2 ^ 18 mod 512" "n div 2 ^ 9 = n div 2 ^ 18 * 512 + n div 2 ^ 9 mod 512"
    "n = n div 2 ^ 9 * 512 + n mod 512"
  using div_mult_mod_eq [of "n div 2 ^ 18" 512] div_mult_mod_eq [of "n div 2 ^ 9" 512] div_mult_mod_eq [of n 512]
    div_mult2_eq [of n "2 ^ 18" 512] div_mult2_eq [of n "2 ^ 9" 512]
  by simp_all

lemma ordinary_top: "ordinary n \<Longrightarrow> n div 2 ^ 27 mod 512 = n div 2 ^ 27"
proof -
  assume "ordinary n"
  then have "n < 512 * 2 ^ 27" by (simp add: ordinary_def)
  then have "n div 2 ^ 27 < 512" by (rule less_mult_imp_div_less)
  then show ?thesis by simp
qed

text \<open>The addresses the code computes for the four levels of page \<open>n\<close>.\<close>

lemma page_addrs:
  assumes "ordinary n"
  defines "a \<equiv> n div 2 ^ 27 mod 512" and "b \<equiv> n div 2 ^ 18 mod 512" and "c \<equiv> n div 2 ^ 9 mod 512"
  shows "RecursivePagingPML4Base + 8 * word_of_nat (n div 2 ^ 27) = word_of_nat (rec_addr [] a)"
    "RecursivePagingPDPsBase + 8 * word_of_nat (n div 2 ^ 18) = word_of_nat (rec_addr [a] b)"
    "RecursivePagingPDsBase + 8 * word_of_nat (n div 2 ^ 9) = word_of_nat (rec_addr [b, a] c)"
    "RecursivePagingPTsBase + 8 * word_of_nat n = word_of_nat (rec_addr [c, b, a] (n mod 512))"
proof -
  have a: "n div 2 ^ 27 = a" using ordinary_top [OF assms(1)] by (simp add: a_def)
  have b: "n div 2 ^ 18 = a * 512 + b" using page_digits(1) [of n] unfolding a b_def .
  have c: "n div 2 ^ 9 = (a * 512 + b) * 512 + c" using page_digits(2) [of n] unfolding b c_def .
  have d: "n = ((a * 512 + b) * 512 + c) * 512 + n mod 512" using page_digits(3) [of n] unfolding c .
  show "RecursivePagingPML4Base + 8 * word_of_nat (n div 2 ^ 27) = word_of_nat (rec_addr [] a)"
    unfolding a by (rule array_addrs)
  show "RecursivePagingPDPsBase + 8 * word_of_nat (n div 2 ^ 18) = word_of_nat (rec_addr [a] b)"
    unfolding b by (rule array_addrs)
  show "RecursivePagingPDsBase + 8 * word_of_nat (n div 2 ^ 9) = word_of_nat (rec_addr [b, a] c)"
    unfolding c by (rule array_addrs)
  show "RecursivePagingPTsBase + 8 * word_of_nat n = word_of_nat (rec_addr [c, b, a] (n mod 512))"
    by (subst d) (rule array_addrs)
qed

text \<open>The accesses of the code to the entries of page \<open>n\<close>, as far as its tables exist.\<close>

lemma page_gets:
  assumes ok: "tables_ok s" and o: "ordinary n"
  defines "a \<equiv> n div 2 ^ 27 mod 512" and "b \<equiv> n div 2 ^ 18 mod 512" and "c \<equiv> n div 2 ^ 9 mod 512"
  shows "get RecursivePagingPML4Base (word_of_nat (n div 2 ^ 27)) s = Done (phys s (frame_of (cr3 s)) a)"
    "table s [a] = Some f \<Longrightarrow> get RecursivePagingPDPsBase (word_of_nat (n div 2 ^ 18)) s = Done (phys s f b)"
    "table s [b, a] = Some f \<Longrightarrow> get RecursivePagingPDsBase (word_of_nat (n div 2 ^ 9)) s = Done (phys s f c)"
    "table s [c, b, a] = Some f \<Longrightarrow> get RecursivePagingPTsBase (word_of_nat n) s = Done (phys s f (n mod 512))"
    "table s [c, b, a] = Some f \<Longrightarrow> put RecursivePagingPTsBase (word_of_nat n) x s = Done (poke f (n mod 512) x s)"
proof -
  have v: "valid_path [c, b, a]" using page_path_valid [OF o] by (simp add: page_path_def a_def b_def c_def)
  note v2 = valid_path_Cons [OF v] note v1 = valid_path_Cons [OF v2] note v0 = valid_path_Cons [OF v1]
  note ad = page_addrs [OF o, folded a_def b_def c_def]
  have lt: "a < 512" "b < 512" "c < 512" "n mod 512 < 512" by (simp_all add: a_def b_def c_def)
  note acc = access_table [OF tables_ok_root [OF ok] tables_ok_path [OF ok]]
  show "get RecursivePagingPML4Base (word_of_nat (n div 2 ^ 27)) s = Done (phys s (frame_of (cr3 s)) a)"
    by (rule acc(1) [OF v0 _ v0 _ lt(1) ad(1)]) simp_all
  show "table s [a] = Some f \<Longrightarrow> get RecursivePagingPDPsBase (word_of_nat (n div 2 ^ 18)) s = Done (phys s f b)"
    by (rule acc(1) [OF v1 _ v1 _ lt(2) ad(2)])
  show "table s [b, a] = Some f \<Longrightarrow> get RecursivePagingPDsBase (word_of_nat (n div 2 ^ 9)) s = Done (phys s f c)"
    by (rule acc(1) [OF v2 _ v2 _ lt(3) ad(3)])
  show "table s [c, b, a] = Some f \<Longrightarrow> get RecursivePagingPTsBase (word_of_nat n) s = Done (phys s f (n mod 512))"
    by (rule acc(1) [OF v _ v _ lt(4) ad(4)])
  show "table s [c, b, a] = Some f \<Longrightarrow> put RecursivePagingPTsBase (word_of_nat n) x s = Done (poke f (n mod 512) x s)"
    by (rule acc(2) [OF v _ v _ lt(4) ad(4)])
qed

text \<open>And the page a child table is cleared through.\<close>

lemma child_addrs:
  assumes "ordinary n" "k < 512"
  defines "a \<equiv> n div 2 ^ 27 mod 512" and "b \<equiv> n div 2 ^ 18 mod 512" and "c \<equiv> n div 2 ^ 9 mod 512"
  shows "RecursivePagingPDPsBase + 8 * (512 * word_of_nat (n div 2 ^ 27)) + 8 * word_of_nat k = word_of_nat (rec_addr [a] k)"
    "RecursivePagingPDsBase + 8 * (512 * word_of_nat (n div 2 ^ 18)) + 8 * word_of_nat k = word_of_nat (rec_addr [b, a] k)"
    "RecursivePagingPTsBase + 8 * (512 * word_of_nat (n div 2 ^ 9)) + 8 * word_of_nat k = word_of_nat (rec_addr [c, b, a] k)"
proof -
  have a: "n div 2 ^ 27 = a" using ordinary_top [OF assms(1)] by (simp add: a_def)
  have b: "n div 2 ^ 18 = a * 512 + b" using page_digits(1) [of n] unfolding a b_def .
  have c: "n div 2 ^ 9 = (a * 512 + b) * 512 + c" using page_digits(2) [of n] unfolding b c_def .
  have s: "x + 8 * (512 * word_of_nat m) + 8 * word_of_nat k = x + 8 * (word_of_nat (m * 512 + k) :: u64)" for x m by simp
  show "RecursivePagingPDPsBase + 8 * (512 * word_of_nat (n div 2 ^ 27)) + 8 * word_of_nat k = word_of_nat (rec_addr [a] k)"
    unfolding a s by (rule array_addrs)
  show "RecursivePagingPDsBase + 8 * (512 * word_of_nat (n div 2 ^ 18)) + 8 * word_of_nat k = word_of_nat (rec_addr [b, a] k)"
    unfolding b s by (rule array_addrs)
  show "RecursivePagingPTsBase + 8 * (512 * word_of_nat (n div 2 ^ 9)) + 8 * word_of_nat k = word_of_nat (rec_addr [c, b, a] k)"
    unfolding c s by (rule array_addrs)
qed

section \<open>Mapping refines the address space\<close>

lemma page_entry_leaf_poke:
  assumes ok: "tables_ok s" and n: "ordinary n" and t: "table s (page_path n) = Some f" and m: "ordinary m"
  shows "page_entry (poke f (n mod 512) x s) m = (if m = n then x else page_entry s m)"
proof -
  let ?P = "page_path n"
  have P: "valid_path ?P" "length ?P = 3" using page_path_valid [OF n] by (simp_all add: page_path_def)
  note lp = leaf_poke(1) [OF ok P t page_path_valid [OF m]]
  have eq: "m = n" if "page_path m = ?P" "m mod 512 = n mod 512"
  proof -
    have "m div 2 ^ 27 = n div 2 ^ 27" using that(1) ordinary_top [OF m] ordinary_top [OF n] by (simp add: page_path_def)
    moreover have "m div 2 ^ 18 mod 512 = n div 2 ^ 18 mod 512" "m div 2 ^ 9 mod 512 = n div 2 ^ 9 mod 512"
      using that(1) by (simp_all add: page_path_def)
    ultimately show ?thesis using page_digits [of m] page_digits [of n] that(2) by metis
  qed
  show ?thesis
  proof (cases "table s (page_path m)")
    case None
    then show ?thesis using lp t by (auto simp: page_entry_def)
  next
    case (Some h)
    have "h = f \<Longrightarrow> page_path m = ?P"
      using tables_inj [OF ok page_path_valid [OF m] P(1) Some] t by simp
    then show ?thesis using lp Some t eq by (auto simp: page_entry_def poke_def)
  qed
qed

definition missing :: "mmu \<Rightarrow> nat \<Rightarrow> nat" where
  "missing s n = length (filter (\<lambda>k. table s (drop k (page_path n)) = None) [0, 1, 2])"

lemma missing_paths:
  "missing s n = of_bool (table s [n div 2 ^ 27 mod 512] = None) + of_bool (table s [n div 2 ^ 18 mod 512, n div 2 ^ 27 mod 512] = None)
     + of_bool (table s (page_path n) = None)"
  by (simp add: missing_def page_path_def)

definition mapped :: "nat \<Rightarrow> u64 \<Rightarrow> mmu \<Rightarrow> PFN_NUMBER list \<Rightarrow> (NTSTATUS \<times> mmu) outcome \<Rightarrow> bool" where
  "mapped n x s F r =
     (\<exists>st s' F' W'. r = Done (st, s') \<and> ready s' F' W' \<and> (\<exists>d m. s' = s\<lparr>mpfns := d, phys := m\<rparr>) \<and>
        tables_from s F s' \<and>
        (missing s n \<le> length F \<and> st = STATUS_SUCCESS \<and> F' = drop (missing s n) F \<and>
           (\<forall>k. ordinary k \<longrightarrow> page_entry s' k = (if k = n then x else page_entry s k)) \<or>
         length F < missing s n \<and> st = STATUS_NO_MEMORY \<and> F' = [] \<and>
           (\<forall>k. ordinary k \<longrightarrow> page_entry s' k = page_entry s k)))"

lemma mapped_no_memory:
  "ready s' [] W' \<Longrightarrow> same_space s F s' \<Longrightarrow> length F < missing s n \<Longrightarrow> mapped n x s F (Done (STATUS_NO_MEMORY, s'))"
  unfolding mapped_def same_space_def by blast

lemma mapped_success:
  "ready s' (drop (missing s n) F) W' \<Longrightarrow> missing s n \<le> length F \<Longrightarrow>
   (\<And>k. ordinary k \<Longrightarrow> page_entry s' k = (if k = n then x else page_entry s k)) \<Longrightarrow>
   \<exists>d m. s' = s\<lparr>mpfns := d, phys := m\<rparr> \<Longrightarrow> tables_from s F s' \<Longrightarrow> mapped n x s F (Done (STATUS_SUCCESS, s'))"
  unfolding mapped_def by blast

text \<open>Going on after a level: the free pages left and the paths that are still missing.\<close>

lemma and_then_ensured:
  assumes "ensured r s F p"
    and "F = [] \<Longrightarrow> table s p = None \<Longrightarrow> P (Done (STATUS_NO_MEMORY, s))"
    and "\<And>s' F' W' g. ready s' F' W' \<Longrightarrow> F' = drop (of_bool (table s p = None)) F \<Longrightarrow> of_bool (table s p = None) \<le> length F \<Longrightarrow>
      (\<And>q. valid_path q \<Longrightarrow> table s' q = (if q = p then Some g else table s q)) \<Longrightarrow> same_space s F s' \<Longrightarrow> P (k s')"
  shows "P (and_then r k)"
  using assms(1) unfolding ensured_def
proof
  assume "F = [] \<and> table s p = None \<and> r = Done (STATUS_NO_MEMORY, s)"
  then show ?thesis using assms(2) by (simp add: and_then_def)
next
  assume "\<exists>s' W' g. r = Done (STATUS_SUCCESS, s') \<and> ready s' (if table s p = None then tl F else F) W' \<and>
         (table s p = None \<longrightarrow> F \<noteq> []) \<and> (\<forall>q. valid_path q \<longrightarrow> table s' q = (if q = p then Some g else table s q)) \<and>
         same_space s F s'"
  then obtain s' W' g where h: "r = Done (STATUS_SUCCESS, s')" "ready s' (if table s p = None then tl F else F) W'"
    "table s p = None \<longrightarrow> F \<noteq> []" "\<forall>q. valid_path q \<longrightarrow> table s' q = (if q = p then Some g else table s q)" "same_space s F s'"
    by (elim exE conjE) (rule that)
  have "P (k s')"
    by (rule assms(3) [OF h(2) _ _ h(4) [rule_format] h(5)]) (use h(3) in \<open>cases F; simp add: drop_Suc\<close>)+
  then show ?thesis using h(1) by (simp add: and_then_def)
qed

lemma used_up: "drop m (drop n F) = [] \<Longrightarrow> length F \<le> n + m"
  by simp

lemma used_exactly:
  "m \<le> length F \<Longrightarrow> n \<le> length (drop m F) \<Longrightarrow> k \<le> length (drop n (drop m F)) \<Longrightarrow>
   drop k (drop n (drop m F)) = drop (m + n + k) F \<and> m + n + k \<le> length F"
  by (simp add: add.commute add.left_commute)

lemma PagingMapPage_mapped:
  assumes r: "ready s F W" and o: "ordinary (page_of v)"
  shows "mapped (page_of v) (or (PAGE_ALIGN p) (ucast f)) s F (PagingMapPage v p f s)"
proof -
  let ?n = "page_of v" and ?x = "or (PAGE_ALIGN p) (ucast f)"
  let ?a = "?n div 2 ^ 27 mod 512" and ?b = "?n div 2 ^ 18 mod 512" and ?c = "?n div 2 ^ 9 mod 512"
  let ?A = "table s [?a] = None" and ?B = "table s [?b, ?a] = None" and ?C = "table s [?c, ?b, ?a] = None"
  have v: "valid_path [?c, ?b, ?a]" using page_path_valid [OF o] by (simp add: page_path_def)
  note v2 = valid_path_Cons [OF v] note v1 = valid_path_Cons [OF v2]
  have t0: "table s [] = Some (frame_of (cr3 s))" by simp
  note ad = page_addrs [OF o] note ch = child_addrs [OF o]
  have ms: "missing s ?n = of_bool ?A + of_bool ?B + of_bool ?C" by (simp add: missing_paths page_path_def del: table.simps)
  show ?thesis
    unfolding PagingMapPage_def Let_def page_indices page_of_align
  proof (rule and_then_ensured [OF ensure_table_spec [OF r v1 t0 ad(1) ch(1)]])
    assume "F = []" ?A
    then show "mapped ?n ?x s F (Done (STATUS_NO_MEMORY, s))"
      using r by (intro mapped_no_memory [of s W]) (simp_all add: ms del: table.simps)
  next
    fix s1 F1 W1 g1
    assume r1: "ready s1 F1 W1" and f1: "F1 = drop (of_bool ?A) F" "of_bool ?A \<le> length F"
      and t1: "\<And>q. valid_path q \<Longrightarrow> table s1 q = (if q = [?a] then Some g1 else table s q)" and sp1: "same_space s F s1"
    have b1: "(table s1 [?b, ?a] = None) = ?B" "(table s1 [?c, ?b, ?a] = None) = ?C" "table s1 [?a] = Some g1"
      using t1 [OF v] t1 [OF v1] t1 [OF v2] by (simp_all del: table.simps)
    show "mapped ?n ?x s F (and_then (ensure_table RecursivePagingPDPsBase (word_of_nat (?n div 2 ^ 18)) RecursivePagingPDsBase s1) (\<lambda>s.
         and_then (ensure_table RecursivePagingPDsBase (word_of_nat (?n div 2 ^ 9)) RecursivePagingPTsBase s) (\<lambda>s.
         obind (put RecursivePagingPTsBase (word_of_nat ?n) ?x s) (\<lambda>s. Done (STATUS_SUCCESS, s)))))"
    proof (rule and_then_ensured [OF ensure_table_spec [OF r1 v2 b1(3) ad(2) ch(2)]])
      assume e: "F1 = []" "table s1 [?b, ?a] = None"
      have "length F < missing s ?n"
        using used_up [of 0 "of_bool ?A" F] e f1(1) unfolding b1(1) ms by simp
      then show "mapped ?n ?x s F (Done (STATUS_NO_MEMORY, s1))"
        using r1 unfolding e(1) by (intro mapped_no_memory [OF _ sp1])
    next
      fix s2 F2 W2 g2
      assume r2: "ready s2 F2 W2" and f2: "F2 = drop (of_bool (table s1 [?b, ?a] = None)) F1" "of_bool (table s1 [?b, ?a] = None) \<le> length F1"
        and t2: "\<And>q. valid_path q \<Longrightarrow> table s2 q = (if q = [?b, ?a] then Some g2 else table s1 q)" and sp12: "same_space s1 F1 s2"
      have sp2: "same_space s F s2" by (rule same_space_trans [OF sp1 _ sp12]) (simp add: f1 set_drop_subset)
      have b2: "(table s2 [?c, ?b, ?a] = None) = ?C" "table s2 [?b, ?a] = Some g2" using t2 [OF v] t2 [OF v2] b1(2) by (simp_all del: table.simps)
      show "mapped ?n ?x s F (and_then (ensure_table RecursivePagingPDsBase (word_of_nat (?n div 2 ^ 9)) RecursivePagingPTsBase s2) (\<lambda>s.
         obind (put RecursivePagingPTsBase (word_of_nat ?n) ?x s) (\<lambda>s. Done (STATUS_SUCCESS, s))))"
      proof (rule and_then_ensured [OF ensure_table_spec [OF r2 v b2(2) ad(3) ch(3)]])
        assume e: "F2 = []" "table s2 [?c, ?b, ?a] = None"
        have "length F < missing s ?n"
          using used_up [of "of_bool ?B" "of_bool ?A" F] e f1(1) f2(1) unfolding b1(1) b2(1) ms by simp
        then show "mapped ?n ?x s F (Done (STATUS_NO_MEMORY, s2))"
          using r2 unfolding e(1) by (intro mapped_no_memory [OF _ sp2])
      next
        fix s3 F3 W3 g3
        assume r3: "ready s3 F3 W3" and f3: "F3 = drop (of_bool (table s2 [?c, ?b, ?a] = None)) F2" "of_bool (table s2 [?c, ?b, ?a] = None) \<le> length F2"
          and t3: "\<And>q. valid_path q \<Longrightarrow> table s3 q = (if q = [?c, ?b, ?a] then Some g3 else table s2 q)" and sp23: "same_space s2 F2 s3"
        have sp3: "same_space s F s3"
          by (rule same_space_trans [OF sp2 _ sp23]) (use set_drop_subset f1(1) f2(1) in fastforce)
        have ok: "tables_ok s3" using r3 by (simp add: ready_def)
        have i: "?n mod 512 < 512" and t: "table s3 [?c, ?b, ?a] = Some g3" using t3 [OF v] by (simp_all del: table.simps)
        have w: "put RecursivePagingPTsBase (word_of_nat ?n) ?x s3 = Done (poke g3 (?n mod 512) ?x s3)"
          by (rule access_table(2) [OF tables_ok_root [OF ok] tables_ok_path [OF ok v t] v t i ad(4)])
        have t': "table s3 (page_path ?n) = Some g3" using t by (simp add: page_path_def del: table.simps)
        have "length [?c, ?b, ?a] = 3" by simp
        note lp = leaf_poke [OF ok v this t]
        have fr: "F3 = drop (missing s ?n) F" "missing s ?n \<le> length F"
          using used_exactly [OF f1(2) f2(2) [unfolded f1(1)] f3(2) [unfolded f2(1) f1(1)]]
          unfolding f3(1) f2(1) f1(1) unfolding b1(1) b2(1) ms by blast+
        have "ready (poke g3 (?n mod 512) ?x s3) F3 W3" using r3 lp by (auto simp: ready_def poke_def simp del: table.simps)
        moreover have "page_entry (poke g3 (?n mod 512) ?x s3) k = (if k = ?n then ?x else page_entry s k)" if "ordinary k" for k
          using page_entry_leaf_poke [OF ok o t' that, of ?x] sp3 that by (simp add: same_space_def del: table.simps)
        moreover have "\<exists>d m. poke g3 (?n mod 512) ?x s3 = s\<lparr>mpfns := d, phys := m\<rparr>"
          using sp3 unfolding same_space_def poke_def by fastforce
        moreover have "tables_from s F (poke g3 (?n mod 512) ?x s3)"
          by (rule tables_from_same [OF lp(1)]) (use sp3 in \<open>simp_all add: same_space_def\<close>)
        ultimately show "mapped ?n ?x s F (obind (put RecursivePagingPTsBase (word_of_nat ?n) ?x s3) (\<lambda>s. Done (STATUS_SUCCESS, s)))"
          using mapped_success fr w by (simp del: table.simps)
      qed
    qed
  qed
qed

text \<open>What the processor and PagingGetTableMapping see.\<close>

definition canonical :: "u64 \<Rightarrow> bool" where
  "canonical v = (unat v div 2 ^ 47 \<in> {0, 2 ^ 17 - 1})"

lemma slots_page:
  "slot 3 v = page_of v div 2 ^ 27 mod 512" "slot 2 v = page_of v div 2 ^ 18 mod 512"
  "slot 1 v = page_of v div 2 ^ 9 mod 512" "slot 0 v = page_of v mod 512"
proof -
  have s: "slot k v = unat v div 2 ^ (12 + 9 * k) mod 2 ^ 9" for k
    unfolding slot_def unat_drop_bit_eq by (simp add: drop_bit_eq_div)
  have p: "page_of v div 2 ^ (9 * k) mod 2 ^ 9 = unat v div 2 ^ 12 div 2 ^ (9 * k) mod 2 ^ 9" if "9 * k \<le> 27" for k
  proof -
    have "unat v div 2 ^ 12 mod 2 ^ 36 div 2 ^ (9 * k) = unat v div 2 ^ 12 div 2 ^ (9 * k) mod 2 ^ (36 - 9 * k)"
      using div_exp_mod_exp_eq [of "unat v div 2 ^ 12" "9 * k" "36 - 9 * k"] that by simp
    moreover have "x mod 2 ^ (36 - 9 * k) mod 2 ^ 9 = x mod 2 ^ 9" for x :: nat
      by (rule mod_mod_cancel, rule le_imp_power_dvd) (use that in simp)
    ultimately show ?thesis by (simp only: page_of_def)
  qed
  have "slot k v = page_of v div 2 ^ (9 * k) mod 2 ^ 9" if "9 * k \<le> 27" for k
    unfolding s p [OF that] power_add div_mult2_eq ..
  from this [of 3] this [of 2] this [of 1] this [of 0]
  show "slot 3 v = page_of v div 2 ^ 27 mod 512" "slot 2 v = page_of v div 2 ^ 18 mod 512"
    "slot 1 v = page_of v div 2 ^ 9 mod 512" "slot 0 v = page_of v mod 512" by simp_all
qed

lemma page_walk_missing:
  assumes "tables_ok s" "valid_path p" "table s p = None"
  shows "page_walk s (frame_of (cr3 s)) (rev p @ i # is) = None"
  using assms(2,3)
proof (induction p arbitrary: i "is")
  case (Cons j p)
  note v = valid_path_Cons [OF Cons.prems(1)]
  show ?case
  proof (cases "table s p")
    case None
    then show ?thesis using Cons.IH [OF v None, of j "i # is"] by simp
  next
    case (Some f)
    then have "phys s f j = 0" using Cons.prems(2) by (simp split: if_splits)
    then show ?thesis using walk_table [OF tables_ok_path [OF assms(1) v Some] Some, of "j # i # is"] by simp
  qed
qed simp

lemma translate_page:
  assumes ok: "tables_ok s" and o: "ordinary (page_of v)" and c: "canonical v"
  shows "translate s v = (let e = page_entry s (page_of v) in if bit e 0 then Some (frame_of e) else None)"
proof -
  let ?n = "page_of v"
  have v: "valid_path (page_path ?n)" by (rule page_path_valid [OF o])
  have t: "translate s v = page_walk s (frame_of (cr3 s)) (rev (page_path ?n) @ [?n mod 512])"
    using c unfolding translate_def slots_page canonical_def by (simp add: page_path_def)
  show ?thesis
  proof (cases "table s (page_path ?n)")
    case None
    then show ?thesis using page_walk_missing [OF ok v None] t by (simp add: page_entry_def)
  next
    case (Some f)
    then show ?thesis using walk_table [OF tables_ok_path [OF ok v Some] Some, of "[?n mod 512]"] t
      by (simp add: page_entry_def Let_def)
  qed
qed

lemma PagingGetTableMapping_page:
  assumes ok: "tables_ok s" and o: "ordinary (page_of v)"
  shows "PagingGetTableMapping v s = Done (page_entry s (page_of v))"
  unfolding PagingGetTableMapping_def Let_def page_indices page_entry_def page_path_def page_gets(1) [OF ok o]
  using page_gets(2-4) [OF ok o] by (auto split: option.split)

text \<open>Mapping a page whose tables exist is one write.\<close>

lemma PagingMapPage_present:
  assumes ok: "tables_ok s" and o: "ordinary (page_of v)" and t: "table s (page_path (page_of v)) = Some h"
  shows "PagingMapPage v p f s = Done (STATUS_SUCCESS, poke h (page_of v mod 512) (or (PAGE_ALIGN p) (ucast f)) s)"
proof -
  let ?n = "page_of v"
  let ?a = "?n div 2 ^ 27 mod 512" and ?b = "?n div 2 ^ 18 mod 512" and ?c = "?n div 2 ^ 9 mod 512"
  have t3: "table s [?c, ?b, ?a] = Some h" using t by (simp add: page_path_def)
  obtain g where t2: "table s [?b, ?a] = Some g" "phys s g ?c \<noteq> 0" using t3 by (auto split: option.splits if_splits)
  obtain k where t1: "table s [?a] = Some k" "phys s k ?b \<noteq> 0" using t2(1) by (auto split: option.splits if_splits)
  have t0: "phys s (frame_of (cr3 s)) ?a \<noteq> 0" using t1(1) by (auto split: if_splits)
  note g = page_gets [OF ok o]
  have e: "get base i s = Done x \<Longrightarrow> x \<noteq> 0 \<Longrightarrow> ensure_table base i child s = Done (STATUS_SUCCESS, s)" for base i x child
    by (simp add: ensure_table_def)
  have and_then_done: "and_then (Done (STATUS_SUCCESS, s)) k = k s" for k by (simp add: and_then_def)
  show ?thesis
    unfolding PagingMapPage_def Let_def page_indices page_of_align e [OF g(1) t0] and_then_done
      e [OF g(2) [OF t1(1)] t1(2)] e [OF g(3) [OF t2(1)] t2(2)] g(5) [OF t3] by simp
qed

section \<open>Properties\<close>

text \<open>C23: PagingMapPage implements an update of the abstract address space, through the recursive
  mapping and the page walk. With enough free pages for the missing tables it succeeds, uses exactly
  as many of them, enters the page and changes no other; otherwise it fails with STATUS_NO_MEMORY,
  the free pages that were left have become tables, and the entry of no page changes. In both cases the tables stay well formed, and the processor and
  PagingGetTableMapping see the entries.\<close>

theorem PagingMapPage_spec:
  assumes "ready s F W" and "ordinary (page_of v)"
  shows "\<exists>st s' F' W'. PagingMapPage v p f s = Done (st, s') \<and> ready s' F' W' \<and>
    (if missing s (page_of v) \<le> length F
     then st = STATUS_SUCCESS \<and> F' = drop (missing s (page_of v)) F \<and>
       (\<forall>k. ordinary k \<longrightarrow> page_entry s' k = (if k = page_of v then or (PAGE_ALIGN p) (ucast f) else page_entry s k))
     else st = STATUS_NO_MEMORY \<and> F' = [] \<and> (\<forall>k. ordinary k \<longrightarrow> page_entry s' k = page_entry s k)) \<and>
    (\<forall>u. ordinary (page_of u) \<longrightarrow> PagingGetTableMapping u s' = Done (page_entry s' (page_of u)) \<and>
       (canonical u \<longrightarrow> translate s' u =
          (if bit (page_entry s' (page_of u)) 0 then Some (frame_of (page_entry s' (page_of u))) else None)))"
proof -
  obtain st s' F' W' where m: "PagingMapPage v p f s = Done (st, s')" "ready s' F' W'"
    "missing s (page_of v) \<le> length F \<and> st = STATUS_SUCCESS \<and> F' = drop (missing s (page_of v)) F \<and>
       (\<forall>k. ordinary k \<longrightarrow> page_entry s' k = (if k = page_of v then or (PAGE_ALIGN p) (ucast f) else page_entry s k)) \<or>
     length F < missing s (page_of v) \<and> st = STATUS_NO_MEMORY \<and> F' = [] \<and>
       (\<forall>k. ordinary k \<longrightarrow> page_entry s' k = page_entry s k)"
    using PagingMapPage_mapped [OF assms, of p f] unfolding mapped_def by (elim exE conjE) (rule that)
  have ok: "tables_ok s'" using m(2) by (simp add: ready_def)
  have "PagingGetTableMapping u s' = Done (page_entry s' (page_of u)) \<and>
       (canonical u \<longrightarrow> translate s' u =
          (if bit (page_entry s' (page_of u)) 0 then Some (frame_of (page_entry s' (page_of u))) else None))"
    if "ordinary (page_of u)" for u
    using PagingGetTableMapping_page [OF ok that] translate_page [OF ok that] by (simp add: Let_def)
  moreover have "if missing s (page_of v) \<le> length F
     then st = STATUS_SUCCESS \<and> F' = drop (missing s (page_of v)) F \<and>
       (\<forall>k. ordinary k \<longrightarrow> page_entry s' k = (if k = page_of v then or (PAGE_ALIGN p) (ucast f) else page_entry s k))
     else st = STATUS_NO_MEMORY \<and> F' = [] \<and> (\<forall>k. ordinary k \<longrightarrow> page_entry s' k = page_entry s k)"
    using m(3) by (cases "missing s (page_of v) \<le> length F") (simp_all add: not_le)
  ultimately show ?thesis using m(1,2) by blast
qed

text \<open>A top table with the recursive entry and one table below it, and two free pages.\<close>

definition small_mmu :: mmu where
  "small_mmu = \<lparr>mcpu = \<lparr>irql = 2, tpr = 2\<rparr>, mpfns = sample_db,
     phys = (\<lambda>_ _. 0)(0 := (\<lambda>_. 0)(510 := 3, 0 := 0x5007)), cr3 = 0, cr0 = 0, cr4 = 0, vheap = InitializeListHead 0 \<lparr>flink = (\<lambda>_. 0), blink = (\<lambda>_. 0)\<rparr>,
     PagingSpinlock = 0, KernelPml4Entry = 0\<rparr>"

lemma small_frames: "frame_of 0 = 0" "frame_of 3 = 0" "frame_of 0x5007 = 5" "good 3" "good 0x5007"
  by (simp_all add: frame_of_def good_def)

lemma small_tables: "valid_path p \<Longrightarrow> table small_mmu p = (if p = [] then Some 0 else if p = [0] then Some 5 else None)"
proof (induction p)
  case Nil then show ?case by (simp add: small_mmu_def small_frames)
next
  case (Cons i p)
  have "p = [] \<Longrightarrow> i \<noteq> 510" using Cons.prems by (simp add: valid_path_def)
  then show ?case using Cons.IH [OF valid_path_Cons [OF Cons.prems]] by (auto simp: small_mmu_def small_frames)
qed

lemma small_ready: "ready small_mmu [1, 2] [0]"
proof -
  have "tables_ok small_mmu"
    unfolding tables_ok_def
  proof (intro conjI allI impI)
    show "good (phys small_mmu (frame_of (cr3 small_mmu)) 510)"
      "frame_of (phys small_mmu (frame_of (cr3 small_mmu)) 510) = frame_of (cr3 small_mmu)"
      by (simp_all add: small_mmu_def small_frames)
    show "good (phys small_mmu f i)" if v: "valid_path (i # p)" and t: "table small_mmu p = Some f" and z: "phys small_mmu f i \<noteq> 0" for p i f
      using t z small_tables [OF valid_path_Cons [OF v]]
      by (auto simp: small_mmu_def small_frames split: if_splits)
    show "p = q" if "valid_path p" "valid_path q" "table small_mmu p = Some f" "table small_mmu q = Some f" for p q f
      using that by (auto simp: small_tables split: if_splits)
  qed
  then show ?thesis
    using sample_db_ok by (auto simp: ready_def small_tables) (auto simp: small_mmu_def)
qed

theorem PagingMapPage_spec_witness:
  "\<exists>s'. PagingMapPage 0x1000 0x7000 7 small_mmu = Done (STATUS_SUCCESS, s') \<and>
     translate s' 0x1234 = Some 7 \<and> translate s' 0x2000 = None"
proof -
  have pg: "page_of 0x1000 = 1" "page_of 0x1234 = 1" "page_of 0x2000 = 2" by (simp_all add: page_of_def)
  have o: "ordinary 1" "ordinary 2" by (simp_all add: ordinary_def)
  have c: "canonical 0x1234" "canonical 0x2000" by (simp_all add: canonical_def)
  have vp: "valid_path [0]" "valid_path [0, 0]" "valid_path [0, 0, 0]" by (simp_all add: valid_path_def)
  have m: "missing small_mmu 1 = 2" using small_tables [OF vp(1)] small_tables [OF vp(2)] small_tables [OF vp(3)]
    by (simp add: missing_paths page_path_def del: table.simps)
  have e: "page_entry small_mmu 2 = 0" using small_tables [OF vp(3)] by (simp add: page_entry_def page_path_def del: table.simps)
  have x: "or (PAGE_ALIGN 0x7000) (ucast (7 :: u16)) = 0x7007" "frame_of 0x7007 = 7" "bit (0x7007 :: u64) 0"
    by (simp_all add: PAGE_ALIGN_def frame_of_def)
  obtain s' F' W' where s': "PagingMapPage 0x1000 0x7000 7 small_mmu = Done (STATUS_SUCCESS, s')"
    "\<forall>k. ordinary k \<longrightarrow> page_entry s' k = (if k = 1 then 0x7007 else page_entry small_mmu k)"
    "\<forall>u. ordinary (page_of u) \<longrightarrow> PagingGetTableMapping u s' = Done (page_entry s' (page_of u)) \<and>
       (canonical u \<longrightarrow> translate s' u =
          (if bit (page_entry s' (page_of u)) 0 then Some (frame_of (page_entry s' (page_of u))) else None))"
    using PagingMapPage_spec [OF small_ready, of "0x1000" "0x7000" 7] o(1) unfolding pg m x(1) by auto
  have "translate s' 0x1234 = Some 7" "translate s' 0x2000 = None"
    using s'(3) [THEN spec, of "0x1234"] s'(3) [THEN spec, of "0x2000"] s'(2) o c e x(2,3) by (simp_all add: pg)
  then show ?thesis using s'(1) by blast
qed

end
