(* ===== verification/PageAlloc.thy ===== *)
theory PageAlloc
  imports PageTables
begin

text \<open>
  Finding and allocating virtual pages (HAL/X64/paging.c), over the abstract address space of
  PageTables: the first run of free pages, and what an allocation does when there is none.
\<close>

section \<open>Free pages\<close>

lemma PagingCheckIsPageIndexFree_page:
  assumes ok: "tables_ok s" and o: "ordinary n"
  shows "PagingCheckIsPageIndexFree (word_of_nat n) s = Done (page_entry s n = 0)"
proof -
  have n: "n < 2 ^ 36" using o by (simp add: ordinary_def)
  have w: "word_of_nat n div word_of_nat k = (word_of_nat (n div k) :: u64)" if "k < 2 ^ 64" for k
  proof -
    have "n < 2 ^ 64" using n by simp
    then have "unat (word_of_nat n div word_of_nat k :: u64) = n div k" using that by (simp add: unat_div unat_of_nat)
    then show ?thesis by (metis of_nat_unat ucast_id)
  qed
  have i: "word_of_nat n div (512 * 512 * 512) = (word_of_nat (n div 2 ^ 27) :: u64)"
    "word_of_nat n div (512 * 512) = (word_of_nat (n div 2 ^ 18) :: u64)"
    "word_of_nat n div 512 = (word_of_nat (n div 2 ^ 9) :: u64)"
    using w [of "2 ^ 27"] w [of "2 ^ 18"] w [of "2 ^ 9"] by simp_all
  show ?thesis
    unfolding PagingCheckIsPageIndexFree_def i page_entry_def page_path_def page_gets(1) [OF ok o]
    using page_gets(2-4) [OF ok o] by (auto split: option.split)
qed

text \<open>The first run of \<open>c\<close> pages that satisfy \<open>free\<close>; the run must end before the last page.\<close>

definition first_run :: "(nat \<Rightarrow> bool) \<Rightarrow> nat \<Rightarrow> nat \<Rightarrow> nat \<Rightarrow> nat option" where
  "first_run free lo hi c = List.find (\<lambda>i. i + c < hi \<and> list_all free [i..<i + c]) [lo..<hi]"

definition free_page :: "mmu \<Rightarrow> nat \<Rightarrow> bool" where
  "free_page s n = (page_entry s n = 0)"

lemma first_used_spec:
  assumes ok: "tables_ok s" and "\<And>j. j \<in> set js \<Longrightarrow> ordinary (i + j)"
  shows "first_used js (word_of_nat i) s = Done (List.find (\<lambda>j. \<not> free_page s (i + j)) js)"
  using assms(2)
proof (induction js)
  case (Cons j js)
  have "PagingCheckIsPageIndexFree (word_of_nat i + word_of_nat j) s = Done (free_page s (i + j))"
    using PagingCheckIsPageIndexFree_page [OF ok, of "i + j"] Cons.prems by (simp add: free_page_def)
  then show ?case using Cons by simp
qed simp

lemma first_run_end: "hi \<le> lo + c \<Longrightarrow> first_run free lo hi c = None"
  unfolding first_run_def find_None_iff by auto

lemma first_run_here: "lo + c < hi \<Longrightarrow> list_all free [lo..<lo + c] \<Longrightarrow> first_run free lo hi c = Some lo"
  unfolding first_run_def by (subst upt_conv_Cons) auto

lemma first_run_skip:
  assumes "j < c" "\<not> free (lo + j)" "lo + c < hi"
  shows "first_run free lo hi c = first_run free (lo + j + 1) hi c"
proof -
  have u: "[lo..<hi] = [lo..<lo + j + 1] @ [lo + j + 1..<hi]"
    using upt_add_eq_append [of lo "lo + j + 1" "hi - (lo + j + 1)"] assms by (simp del: upt_Suc)
  have "\<not> list_all free [i..<i + c]" if "i \<in> set [lo..<lo + j + 1]" for i
    using that assms unfolding list_all_iff by (intro notI) (drule bspec [of _ _ "lo + j"], auto)
  then have "List.find (\<lambda>i. i + c < hi \<and> list_all free [i..<i + c]) [lo..<lo + j + 1] = None"
    by (auto simp: find_None_iff simp del: upt_Suc)
  then show ?thesis unfolding first_run_def u by (simp add: find_append del: upt_Suc)
qed

definition run_result :: "nat option \<Rightarrow> u64" where
  "run_result r = (case r of None \<Rightarrow> - 1 | Some i \<Rightarrow> ToCanonicalAddress (word_of_nat i * 4096))"

lemma find_pages_loop_spec:
  assumes ok: "tables_ok s" and hi: "hi \<le> 2 ^ 36" and o: "\<And>n. lo \<le> n \<Longrightarrow> n < hi \<Longrightarrow> ordinary n" and c: "unat count < 2 ^ 63"
    and i: "lo \<le> i" "i \<le> hi"
  shows "find_pages_loop (word_of_nat hi) count (word_of_nat i) s = Some (Done (run_result (first_run (free_page s) i hi (unat count))))"
  using i
proof (induction "hi - i" arbitrary: i rule: less_induct)
  case less
  show ?case
  proof (cases "i < hi")
    case False
    then have "i = hi" using less.prems by simp
    then show ?thesis by (subst find_pages_loop.simps) (simp add: first_run_def run_result_def)
  next
    case True
    let ?c = "unat count"
    have il: "i < 2 ^ 36" using True hi by simp
    have u: "unat (word_of_nat i :: u64) = i" "unat (word_of_nat hi :: u64) = hi" using il hi by (simp_all add: unat_of_nat)
    have lt: "word_of_nat i < (word_of_nat hi :: u64)" using True by (simp add: word_less_nat_alt u)
    have "unat (word_of_nat i + count) = i + ?c" using il c by (subst unat_add_lem [THEN iffD1]) (simp_all add: u)
    then have ge: "(word_of_nat i + count \<ge> (word_of_nat hi :: u64)) = (hi \<le> i + ?c)"
      by (simp add: word_le_nat_alt u)
    show ?thesis
    proof (cases "hi \<le> i + ?c")
      case True
      then show ?thesis using lt ge by (subst find_pages_loop.simps) (simp add: first_run_end run_result_def)
    next
      case False
      have fu: "first_used [0..<?c] (word_of_nat i) s = Done (List.find (\<lambda>j. \<not> free_page s (i + j)) [0..<?c])"
        by (rule first_used_spec [OF ok]) (use o less.prems False in simp)
      show ?thesis
      proof (cases "List.find (\<lambda>j. \<not> free_page s (i + j)) [0..<?c]")
        case None
        then have f: "free_page s (i + j)" if "j < ?c" for j using that by (auto simp: find_None_iff)
        have "free_page s k" if "i \<le> k" "k < i + ?c" for k using f [of "k - i"] that by simp
        then have "list_all (free_page s) [i..<i + ?c]" by (simp add: list_all_iff)
        then show ?thesis using lt ge False fu \<open>List.find _ _ = None\<close>
          by (subst find_pages_loop.simps) (simp add: first_run_here run_result_def)
      next
        case (Some j)
        then have j: "j < ?c" "\<not> free_page s (i + j)" by (auto simp: find_Some_iff)
        have "find_pages_loop (word_of_nat hi) count (word_of_nat i) s =
            find_pages_loop (word_of_nat hi) count (word_of_nat (i + j + 1)) s"
          using lt ge False fu Some by (subst find_pages_loop.simps) (simp add: add_ac)
        moreover have "hi - (i + j + 1) < hi - i" using \<open>i < hi\<close> by simp
        ultimately show ?thesis
          using less.hyps [of "i + j + 1"] less.prems first_run_skip [of j ?c "free_page s" i hi] j False by simp
      qed
    qed
  qed
qed

lemma page_number_word: "and v 0xFFFFFFFFFFFF div 4096 = word_of_nat (page_of v)"
proof -
  have "drop_bit 12 (and v 0xFFFFFFFFFFFF) = and v 0xFFFFFFFFFFFF div (4096 :: u64)" by (simp add: drop_bit_eq_div)
  then show ?thesis using page_indices(1) [of v] by simp
qed

lemma page_of_bound: "page_of v < 2 ^ 36"
  by (simp add: page_of_def)

lemma page_of_mono:
  assumes "lo \<le> hi" "and hi 0xFFFF000000000000 = and lo 0xFFFF000000000000"
  shows "page_of lo \<le> page_of hi"
proof -
  have b: "bit (0xFFFF000000000000 :: u64) (48 + n) = (n < 16)" for n
  proof -
    have e: "(0xFFFF000000000000 :: u64) = push_bit 48 (mask 16)" by (simp add: mask_eq_exp_minus_1)
    show ?thesis unfolding e bit_push_bit_iff bit_mask_iff by auto
  qed
  have "bit hi (48 + n) = bit lo (48 + n)" for n
  proof (cases "n < 16")
    case True
    then show ?thesis using arg_cong [OF assms(2), of "\<lambda>w. bit w (48 + n)"] unfolding bit_and_iff b by simp
  next
    case False then show ?thesis by (auto dest: bit_imp_le_length)
  qed
  then have "drop_bit 48 hi = drop_bit 48 lo" by (intro bit_word_eqI) (simp add: bit_drop_bit_eq)
  then have q: "unat hi div 2 ^ 48 = unat lo div 2 ^ 48" by (metis drop_bit_eq_div unat_drop_bit_eq)
  have "unat lo mod 2 ^ 48 \<le> unat hi mod 2 ^ 48"
  proof -
    have "unat lo \<le> unat hi" using assms(1) by (simp add: word_le_nat_alt)
    then have "unat hi div 2 ^ 48 * 2 ^ 48 + unat lo mod 2 ^ 48 \<le> unat hi div 2 ^ 48 * 2 ^ 48 + unat hi mod 2 ^ 48"
      using div_mult_mod_eq [of "unat hi" "2 ^ 48"] div_mult_mod_eq [of "unat lo" "2 ^ 48"] unfolding q by linarith
    then show ?thesis by (rule add_le_imp_le_left)
  qed
  then have "unat lo mod 2 ^ 48 div 2 ^ 12 \<le> unat hi mod 2 ^ 48 div 2 ^ 12" by (rule div_le_mono)
  then show ?thesis unfolding page_of_def using div_exp_mod_exp_eq [of "unat lo" 12 36] div_exp_mod_exp_eq [of "unat hi" 12 36] by simp
qed

lemma PagingFindFreePages_run:
  assumes ok: "tables_ok s" and le: "lo \<le> hi" and top: "and hi 0xFFFF000000000000 = and lo 0xFFFF000000000000"
    and o: "\<And>n. page_of lo \<le> n \<Longrightarrow> n < page_of hi \<Longrightarrow> ordinary n" and c: "unat count < 2 ^ 63"
  shows "PagingFindFreePages lo hi count s = Done (run_result (first_run (free_page s) (page_of lo) (page_of hi) (unat count)))"
proof -
  have "find_pages_loop (word_of_nat (page_of hi)) count (word_of_nat (page_of lo)) s =
      Some (Done (run_result (first_run (free_page s) (page_of lo) (page_of hi) (unat count))))"
    by (rule find_pages_loop_spec [OF ok _ o c order_refl page_of_mono [OF le top]]) (use page_of_bound [of hi] in simp_all)
  moreover have "(hi < lo) = False" using le by simp
  ultimately show ?thesis using top by (simp add: PagingFindFreePages_def Let_def page_number_word run_loop_def)
qed

section \<open>Allocating one page\<close>

lemma ToCanonicalAddress_idem [simp]: "ToCanonicalAddress (ToCanonicalAddress v) = ToCanonicalAddress v"
proof -
  have e: "and (ToCanonicalAddress v) 0x800000000000 = and v (0x800000000000 :: u64)"
    unfolding ToCanonicalAddress_def by (cases "and v (0x800000000000 :: u64) = 0") (simp_all add: bit.conj_disj_distrib2)
  show ?thesis unfolding ToCanonicalAddress_def [of "ToCanonicalAddress v"] e
    unfolding ToCanonicalAddress_def by (simp add: or.assoc)
qed

lemma page_of_canonical: "page_of (ToCanonicalAddress v) = page_of v"
proof -
  have "(0xFFFF000000000000 :: u64) = push_bit 48 (mask 16)" by (simp add: mask_eq_exp_minus_1)
  then have "take_bit 48 (0xFFFF000000000000 :: u64) = 0" by simp
  then have "take_bit 48 (ToCanonicalAddress v) = take_bit 48 v"
    by (simp add: ToCanonicalAddress_def take_bit_or)
  then have "unat (ToCanonicalAddress v) mod 2 ^ 48 = unat v mod 2 ^ 48"
    by (metis unsigned_take_bit_eq take_bit_eq_mod)
  moreover have "page_of w = unat w mod 2 ^ 48 div 2 ^ 12" for w
    unfolding page_of_def using div_exp_mod_exp_eq [of "unat w" 12 36] by simp
  ultimately show ?thesis by simp
qed

lemma page_of_page: "i < 2 ^ 36 \<Longrightarrow> page_of (word_of_nat i * 4096) = i"
  by (simp add: page_of_def unat_word_ariths unat_of_nat)

lemma first_run_bound: "first_run free lo hi c = Some i \<Longrightarrow> i < hi"
  unfolding first_run_def find_Some_iff by auto

lemma first_run_ge: "first_run free lo hi c = Some i \<Longrightarrow> lo \<le> i"
  unfolding first_run_def find_Some_iff by auto

lemma page_of_run_result:
  assumes "hi \<le> 2 ^ 36"
  shows "page_of (run_result (first_run free lo hi c)) = (case first_run free lo hi c of None \<Rightarrow> 2 ^ 36 - 1 | Some i \<Rightarrow> i)"
proof -
  have m: "page_of (- 1) = 2 ^ 36 - 1" by (simp add: page_of_def unsigned_minus_1_eq_mask mask_eq_exp_minus_1)
  show ?thesis using first_run_bound [of free lo hi c] assms
    by (auto simp: run_result_def page_of_canonical page_of_page m split: option.split)
qed

lemma canonical_run_result: "ToCanonicalAddress (run_result r) = run_result r"
  by (simp add: run_result_def ToCanonicalAddress_def split: option.split)

lemma lock_simps [simp]:
  "table (s\<lparr>PagingSpinlock := l\<rparr>) p = table s p" "page_entry (s\<lparr>PagingSpinlock := l\<rparr>) n = page_entry s n"
  "tables_ok (s\<lparr>PagingSpinlock := l\<rparr>) = tables_ok s"
  "ready (s\<lparr>PagingSpinlock := l\<rparr>) F W = ready s F W" "missing (s\<lparr>PagingSpinlock := l\<rparr>) n = missing s n"
  "free_page (s\<lparr>PagingSpinlock := l\<rparr>) = free_page s"
proof -
  show t: "table (s\<lparr>PagingSpinlock := l\<rparr>) p = table s p" for p by (induction p) (simp_all split: option.splits)
  show e: "page_entry (s\<lparr>PagingSpinlock := l\<rparr>) n = page_entry s n" for n by (simp add: page_entry_def t split: option.split)
  show ok: "tables_ok (s\<lparr>PagingSpinlock := l\<rparr>) = tables_ok s" by (simp add: tables_ok_def t)
  show "ready (s\<lparr>PagingSpinlock := l\<rparr>) F W = ready s F W" by (simp add: ready_def t ok)
  show "missing (s\<lparr>PagingSpinlock := l\<rparr>) n = missing s n" by (simp add: missing_def t)
  show "free_page (s\<lparr>PagingSpinlock := l\<rparr>) = free_page s" by (simp add: free_page_def e fun_eq_iff)
qed

lemma paging_locks:
  assumes "DISPATCH_LEVEL \<le> irql (mcpu s)"
  shows "PagingSpinlock s = 0 \<Longrightarrow> lock_paging s = Done (s\<lparr>PagingSpinlock := 1\<rparr>)"
    "PagingSpinlock s = 1 \<Longrightarrow> unlock_paging s = Done (s\<lparr>PagingSpinlock := 0\<rparr>)"
proof -
  have n: "\<not> KeGetCurrentIrql (mcpu s) < DISPATCH_LEVEL" using assms by (simp add: KeGetCurrentIrql_def not_less)
  show "PagingSpinlock s = 0 \<Longrightarrow> lock_paging s = Done (s\<lparr>PagingSpinlock := 1\<rparr>)"
    using n by (simp add: lock_paging_def KeAcquireSpinLockAtDpcLevel_def KiAcquireSpinLock_def)
  show "PagingSpinlock s = 1 \<Longrightarrow> unlock_paging s = Done (s\<lparr>PagingSpinlock := 0\<rparr>)"
    using n by (simp add: unlock_paging_def KeReleaseSpinLockFromDpcLevel_def KiReleaseSpinLock_def)
qed

section \<open>Properties\<close>

text \<open>PagingFindFreePages finds the first run of free pages. When both bounds agree in their upper
  16 bits, it gives the canonical address of the first page from the lower bound such that it
  and the following pages, as many as asked for, have no entry and end before the last page of the
  range, and -1 when there is none (so the very last page is never used); the order of the bounds does not
  matter. When the upper bits differ it stops with bug check 0x4D.\<close>

lemma PagingFindFreePages_spec:
  assumes "tables_ok s" "lo \<le> hi" "\<And>n. page_of lo \<le> n \<Longrightarrow> n < page_of hi \<Longrightarrow> ordinary n" "unat count < 2 ^ 63"
  shows "PagingFindFreePages lo hi count s =
    (if and hi 0xFFFF000000000000 \<noteq> and lo 0xFFFF000000000000 then Bugcheck 0x4D
     else Done (case first_run (free_page s) (page_of lo) (page_of hi) (unat count) of
                  Some i \<Rightarrow> ToCanonicalAddress (word_of_nat i * 4096) | None \<Rightarrow> - 1)) \<and>
    PagingFindFreePages hi lo count s = PagingFindFreePages lo hi count s"
proof
  have n: "(hi < lo) = False" using assms(2) by simp
  show "PagingFindFreePages lo hi count s =
    (if and hi 0xFFFF000000000000 \<noteq> and lo 0xFFFF000000000000 then Bugcheck 0x4D
     else Done (case first_run (free_page s) (page_of lo) (page_of hi) (unat count) of
                  Some i \<Rightarrow> ToCanonicalAddress (word_of_nat i * 4096) | None \<Rightarrow> - 1))"
  proof (cases "and hi 0xFFFF000000000000 = and lo 0xFFFF000000000000")
    case True
    then show ?thesis using PagingFindFreePages_run [OF assms(1,2) True assms(3,4)] by (simp add: run_result_def split: option.split)
  next
    case False then show ?thesis by (simp add: PagingFindFreePages_def n)
  qed
  show "PagingFindFreePages hi lo count s = PagingFindFreePages lo hi count s"
    using assms(2) by (cases "lo = hi") (auto simp: PagingFindFreePages_def)
qed

lemma small_page_entry:
  assumes "ordinary n"
  shows "page_entry small_mmu n = 0"
  using small_tables [OF page_path_valid [OF assms]] by (simp add: page_entry_def page_path_def)

lemma PagingFindFreePages_spec_example:
  "PagingFindFreePages 0x3000 0x9000 4 small_mmu = Done 0x3000 \<and>
   PagingFindFreePages 0x9000 0x3000 6 small_mmu = Done (- 1)"
proof -
  have o: "ordinary n" if "n < 9" for n using that by (simp add: ordinary_def)
  have ok: "tables_ok small_mmu" using small_ready by (simp add: ready_def)
  have p: "page_of 0x3000 = 3" "page_of 0x9000 = 9" by (simp_all add: page_of_def)
  have "first_run (free_page small_mmu) 3 9 4 = Some 3" "first_run (free_page small_mmu) 3 9 6 = None"
    by (simp_all add: first_run_def upt_conv_Cons free_page_def small_page_entry o)
  then show ?thesis
    using PagingFindFreePages_spec [OF ok, of "0x3000" "0x9000" 4] PagingFindFreePages_spec [OF ok, of "0x3000" "0x9000" 6]
    by (simp add: p o ToCanonicalAddress_def)
qed

text \<open>C24: what PagingAllocatePageWithPhysicalAddress does in every case. When the range has a free
  page and there is memory for the missing tables, the first free page is mapped to the given one and
  its address is the result, with every other entry unchanged. The result of PagingMapPage is not
  looked at: without the memory the address is given although nothing is mapped. Nor is the result
  of the search: when no page is free, the result is -1, and the last page of the address space
  has been mapped over whatever it was.\<close>

theorem PagingAllocatePageWithPhysicalAddress_spec:
  assumes "ready s F W" "PagingSpinlock s = 0" "lo \<le> hi" "and hi 0xFFFF000000000000 = and lo 0xFFFF000000000000"
    and "\<And>n. page_of lo \<le> n \<Longrightarrow> n < page_of hi \<Longrightarrow> ordinary n"
  defines "r \<equiv> first_run (free_page s) (page_of lo) (page_of hi) 1"
  defines "n \<equiv> (case r of None \<Rightarrow> 2 ^ 36 - 1 | Some i \<Rightarrow> i)"
  shows "\<exists>s' F' W'. PagingAllocatePageWithPhysicalAddress lo hi flags p s =
      Done (case r of None \<Rightarrow> - 1 | Some i \<Rightarrow> ToCanonicalAddress (word_of_nat i * 4096), s') \<and>
    ready s' F' W' \<and> PagingSpinlock s' = 0 \<and> F' = drop (missing s n) F \<and>
    (\<forall>k. ordinary k \<longrightarrow> page_entry s' k =
       (if k = n \<and> missing s n \<le> length F then or (PAGE_ALIGN p) (ucast flags) else page_entry s k))"
proof -
  let ?s = "s\<lparr>PagingSpinlock := 1\<rparr>"
  have q: "DISPATCH_LEVEL \<le> irql (mcpu s)" "tables_ok s" using assms(1) by (simp_all add: ready_def)
  have hi: "page_of hi \<le> 2 ^ 36" using page_of_bound [of hi] by simp
  have pn: "page_of (run_result r) = n" unfolding n_def r_def by (rule page_of_run_result [OF hi])
  have on: "ordinary n"
    using assms(5) first_run_bound [of "free_page s" "page_of lo" "page_of hi" 1] first_run_ge [of "free_page s" "page_of lo" "page_of hi" 1]
    by (cases r) (auto simp: n_def r_def ordinary_def)
  have find: "PagingFindFreePages lo hi 1 ?s = Done (run_result r)"
    using PagingFindFreePages_run [of ?s lo hi 1] assms(3-5) q(2) by (simp add: r_def)
  have "mapped n (or (PAGE_ALIGN p) (ucast flags)) ?s F (PagingMapPage (run_result r) p flags ?s)"
    using PagingMapPage_mapped [of ?s F W "run_result r" p flags] assms(1) on pn by simp
  then obtain st s1 F' W' d m where m: "PagingMapPage (run_result r) p flags ?s = Done (st, s1)" "ready s1 F' W'"
    "s1 = ?s\<lparr>mpfns := d, phys := m\<rparr>" "F' = drop (missing s n) F"
    "\<forall>k. ordinary k \<longrightarrow> page_entry s1 k = (if k = n \<and> missing s n \<le> length F then or (PAGE_ALIGN p) (ucast flags) else page_entry s k)"
    unfolding mapped_def lock_simps by fastforce
  have q1: "DISPATCH_LEVEL \<le> irql (mcpu s1)" using m(2) by (simp add: ready_def)
  have l: "lock_paging s = Done ?s" by (rule paging_locks(1) [OF q(1) assms(2)])
  have u: "unlock_paging s1 = Done (s1\<lparr>PagingSpinlock := 0\<rparr>)" by (rule paging_locks(2) [OF q1]) (simp add: m(3))
  have "PagingAllocatePageWithPhysicalAddress lo hi flags p s = Done (run_result r, s1\<lparr>PagingSpinlock := 0\<rparr>)"
    unfolding PagingAllocatePageWithPhysicalAddress_def l by (simp add: find m(1) u canonical_run_result)
  then show ?thesis
    by (intro exI [of _ "s1\<lparr>PagingSpinlock := 0\<rparr>"] exI [of _ F'] exI [of _ W'])
      (use m(2,4,5) in \<open>simp add: run_result_def\<close>)
qed

theorem PagingAllocatePageWithPhysicalAddress_spec_witness:
  "(\<exists>s' F' W'. PagingAllocatePageWithPhysicalAddress 0x3000 0x9000 7 0x8000 small_mmu = Done (0x3000, s') \<and>
     ready s' F' W' \<and> page_entry s' 3 = 0x8007 \<and> page_entry s' 4 = 0) \<and>
   (\<exists>s' F' W'. PagingAllocatePageWithPhysicalAddress 0x3000 0x4000 7 0x8000 small_mmu = Done (- 1, s') \<and> ready s' F' W')"
proof -
  have o: "ordinary n" if "n < 9" for n using that by (simp add: ordinary_def)
  have p: "page_of 0x3000 = 3" "page_of 0x4000 = 4" "page_of 0x9000 = 9" by (simp_all add: page_of_def)
  have r: "first_run (free_page small_mmu) 3 9 (Suc 0) = Some 3" "first_run (free_page small_mmu) 3 4 (Suc 0) = None"
    by (simp_all add: first_run_def upt_conv_Cons free_page_def small_page_entry o)
  have l: "PagingSpinlock small_mmu = 0" by (simp add: small_mmu_def)
  have m: "missing small_mmu 3 = 2" by (simp add: missing_paths page_path_def small_tables valid_path_def del: table.simps)
  note e = small_page_entry [OF o]
  have 1: "\<exists>s' F' W'. PagingAllocatePageWithPhysicalAddress 0x3000 0x9000 7 0x8000 small_mmu = Done (0x3000, s') \<and>
     ready s' F' W' \<and> page_entry s' 3 = 0x8007 \<and> page_entry s' 4 = 0"
  proof -
    obtain s' F' W' where h: "PagingAllocatePageWithPhysicalAddress 0x3000 0x9000 7 0x8000 small_mmu = Done (0x3000, s')" "ready s' F' W'"
      "\<forall>k. ordinary k \<longrightarrow> page_entry s' k = (if k = 3 then or (PAGE_ALIGN 0x8000) (ucast (7 :: u16)) else page_entry small_mmu k)"
      using PagingAllocatePageWithPhysicalAddress_spec [OF small_ready l, of "0x3000" "0x9000" 7 "0x8000"]
      by (auto simp: p r o m ToCanonicalAddress_def)
    have "page_entry s' 3 = 0x8007" "page_entry s' 4 = 0" using h(3) o e by (simp_all add: PAGE_ALIGN_def)
    then show ?thesis using h(1,2) by blast
  qed
  have 2: "\<exists>s' F' W'. PagingAllocatePageWithPhysicalAddress 0x3000 0x4000 7 0x8000 small_mmu = Done (- 1, s') \<and> ready s' F' W'"
    using PagingAllocatePageWithPhysicalAddress_spec [OF small_ready l, of "0x3000" "0x4000" 7 "0x8000"]
    by (auto simp: p r o)
  show ?thesis using 1 2 by blast
qed

end
