(* ===== verification/PageFile.thy ===== *)
theory PageFile
  imports PageTables
begin

text \<open>
  The page file, NNXOSKRN/HAL/X64/pagefile.c: its bit map, and moving a page out to the file and in
  again. The operations of the file system that holds the file are called through its table of
  functions, which is part of the state here; they read and write the words of a page.
\<close>

section \<open>State\<close>

text \<open>WriteFile and ReadFile get the file pointer and leave a new one.\<close>

record 'fs file_functions =
  OpenOrCreateFile :: "string \<Rightarrow> 'fs \<Rightarrow> ptr \<times> 'fs"
  ResizeFile :: "ptr \<Rightarrow> u64 \<Rightarrow> 'fs \<Rightarrow> 'fs"
  WriteFile :: "ptr \<Rightarrow> u64 \<Rightarrow> u64 list \<Rightarrow> 'fs \<Rightarrow> u64 \<times> 'fs"
  ReadFile :: "ptr \<Rightarrow> u64 \<Rightarrow> u64 \<Rightarrow> 'fs \<Rightarrow> u64 list \<times> u64 \<times> 'fs"

record 'fs page_file =
  pmmu :: mmu
  PageFileSize :: u64
  PageFileLock :: KSPIN_LOCK
  PageFile :: ptr
  FilePointer :: u64
  Functions :: "'fs file_functions"
  PageFileMap :: "u64 \<Rightarrow> u8"
  files :: 'fs

abbreviation (input) SPIN_LOCK_NOT_OWNED :: u32 where "SPIN_LOCK_NOT_OWNED \<equiv> 0x10"

definition lock_page_file :: "'fs page_file \<Rightarrow> (u8 \<times> 'fs page_file) outcome" where
  "lock_page_file s = obind (KeAcquireSpinLock (PageFileLock s) (mcpu (pmmu s))) (\<lambda>(old, l, c).
     Done (old, s\<lparr>PageFileLock := l, pmmu := (pmmu s)\<lparr>mcpu := c\<rparr>\<rparr>))"

definition unlock_page_file :: "u8 \<Rightarrow> 'fs page_file \<Rightarrow> 'fs page_file outcome" where
  "unlock_page_file old s = obind (KeReleaseSpinLock (PageFileLock s) old (mcpu (pmmu s))) (\<lambda>(l, c).
     Done (s\<lparr>PageFileLock := l, pmmu := (pmmu s)\<lparr>mcpu := c\<rparr>\<rparr>))"

section \<open>The map of used pages\<close>

definition PagingSetPageFileMapBit :: "u64 \<Rightarrow> bool \<Rightarrow> 'fs page_file \<Rightarrow> (bool \<times> 'fs page_file) outcome" where
  "PagingSetPageFileMapBit pageFilePageIndex v s =
     (if PageFileLock s = 0 then Bugcheck SPIN_LOCK_NOT_OWNED
      else let c = pageFilePageIndex div 8; b = unat (pageFilePageIndex mod 8) in
      if c > PageFileSize s div 4096 div 8 then Done (False, s)
      else Done (True, s\<lparr>PageFileMap := (PageFileMap s)
        (c := if v then or (PageFileMap s c) (push_bit b 1) else and (PageFileMap s c) (not (push_bit b 1)))\<rparr>))"

definition PagingGetPageFileMapBit :: "u64 \<Rightarrow> 'fs page_file \<Rightarrow> bool outcome" where
  "PagingGetPageFileMapBit pageFilePageIndex s =
     (if PageFileLock s = 0 then Bugcheck SPIN_LOCK_NOT_OWNED
      else let c = pageFilePageIndex div 8; b = unat (pageFilePageIndex mod 8) in
      if c > PageFileSize s div 4096 div 8 then Done False
      else Done (and (PageFileMap s c) (push_bit b 1) \<noteq> 0))"

primrec select_loop :: "nat list \<Rightarrow> 'fs page_file \<Rightarrow> (u64 \<times> 'fs page_file) outcome" where
  "select_loop [] s = Done (- 1, s)"
| "select_loop (i # is) s = obind (PagingGetPageFileMapBit (word_of_nat i) s) (\<lambda>used.
     if used then select_loop is s
     else obind (PagingSetPageFileMapBit (word_of_nat i) True s) (\<lambda>(ok, s).
       Done (if ok then word_of_nat i else - 1, s)))"

definition PagingSelectPageFilePageIndex :: "'fs page_file \<Rightarrow> (u64 \<times> 'fs page_file) outcome" where
  "PagingSelectPageFilePageIndex s =
     (if PageFileLock s = 0 then Bugcheck SPIN_LOCK_NOT_OWNED
      else select_loop [1..<unat (PageFileSize s div 4096)] s)"

section \<open>Reading and writing the file\<close>

text \<open>The words of a page, through the page walk.\<close>

primrec load_words :: "u64 \<Rightarrow> nat list \<Rightarrow> mmu \<Rightarrow> u64 list outcome" where
  "load_words base [] s = Done []"
| "load_words base (i # is) s = obind (get base (word_of_nat i) s) (\<lambda>w. obind (load_words base is s) (\<lambda>ws. Done (w # ws)))"

primrec store_words :: "u64 \<Rightarrow> nat \<Rightarrow> u64 list \<Rightarrow> mmu \<Rightarrow> mmu outcome" where
  "store_words base i [] s = Done s"
| "store_words base i (w # ws) s = obind (put base (word_of_nat i) w s) (store_words base (Suc i) ws)"

definition PagingSavePageToPageFile :: "u64 \<Rightarrow> u64 \<Rightarrow> 'fs page_file \<Rightarrow> (NTSTATUS \<times> 'fs page_file) outcome" where
  "PagingSavePageToPageFile virtualAddress pageFilePageIndex s =
     (if PageFileLock s = 0 then Bugcheck SPIN_LOCK_NOT_OWNED
      else let s = s\<lparr>FilePointer := 4096 * pageFilePageIndex\<rparr> in
      obind (load_words virtualAddress [0..<512] (pmmu s)) (\<lambda>ws.
        let (p, fs) = WriteFile (Functions s) (PageFile s) (FilePointer s) ws (files s)
        in Done (STATUS_SUCCESS, s\<lparr>FilePointer := p, files := fs\<rparr>)))"

definition PagingLoadPageFromPageFile :: "u64 \<Rightarrow> u64 \<Rightarrow> 'fs page_file \<Rightarrow> (NTSTATUS \<times> 'fs page_file) outcome" where
  "PagingLoadPageFromPageFile virtualAddress pageFilePageIndex s =
     (if PageFileLock s = 0 then Bugcheck SPIN_LOCK_NOT_OWNED
      else let s = s\<lparr>FilePointer := 4096 * pageFilePageIndex\<rparr>;
               (ws, p, fs) = ReadFile (Functions s) (PageFile s) (FilePointer s) 4096 (files s)
      in obind (store_words virtualAddress 0 ws (pmmu s)) (\<lambda>m.
        Done (STATUS_SUCCESS, s\<lparr>FilePointer := p, files := fs, pmmu := m\<rparr>)))"

text \<open>The memory of the map comes from the pool and is not shared; the allocation succeeds.\<close>

definition PagingInitializePageFile :: "u64 \<Rightarrow> string \<Rightarrow> 'fs file_functions \<Rightarrow> 'fs page_file \<Rightarrow> (NTSTATUS \<times> 'fs page_file) outcome" where
  "PagingInitializePageFile pageFileSize filePath filesystem s =
     (let s = s\<lparr>PageFileSize := pageFileSize, PageFileLock := KeInitializeSpinLock (PageFileLock s), Functions := filesystem\<rparr>;
          (f, fs) = OpenOrCreateFile filesystem filePath (files s);
          s = s\<lparr>PageFile := f, files := fs\<rparr>
      in if f = NULL then Hang
         else Done (STATUS_SUCCESS, s\<lparr>files := ResizeFile filesystem f (PageFileSize s) (files s),
           PageFileMap := (\<lambda>i. if i < PageFileSize s div 4096 div 8 then 0 else PageFileMap s i)\<rparr>))"

section \<open>Moving pages\<close>

definition free_physical :: "u64 \<Rightarrow> 'fs page_file \<Rightarrow> (NTSTATUS \<times> 'fs page_file) outcome" where
  "free_physical a s = obind (MmFreePhysicalAddress a (mcpu (pmmu s)) (mpfns (pmmu s))) (\<lambda>(status, d).
     Done (status, s\<lparr>pmmu := (pmmu s)\<lparr>mpfns := d\<rparr>\<rparr>))"

definition map_page :: "u64 \<Rightarrow> u64 \<Rightarrow> u16 \<Rightarrow> 'fs page_file \<Rightarrow> 'fs page_file outcome" where
  "map_page v p f s = obind (PagingMapPage v p f (pmmu s)) (\<lambda>(_, m). Done (s\<lparr>pmmu := m\<rparr>))"

definition PagingPageOutPage :: "u64 \<Rightarrow> 'fs page_file \<Rightarrow> (NTSTATUS \<times> 'fs page_file) outcome" where
  "PagingPageOutPage virtualAddress s =
     obind (lock_page_file s) (\<lambda>(old, s).
     obind (PagingSelectPageFilePageIndex s) (\<lambda>(pageFilePageIndex, s).
     obind (PagingSavePageToPageFile virtualAddress pageFilePageIndex s) (\<lambda>(status, s).
     if status \<noteq> STATUS_SUCCESS then
       obind (PagingSetPageFileMapBit pageFilePageIndex False s) (\<lambda>(_, s).
       obind (unlock_page_file old s) (\<lambda>s. Done (status, s)))
     else
     obind (PagingGetTableMapping virtualAddress (pmmu s)) (\<lambda>oldMapping.
     let oldFlags = ucast (and (and oldMapping 0xFFF) (not PAGE_PRESENT)) :: u16;
         oldMapping = and oldMapping (not 0xFFF)
     in obind (free_physical oldMapping s) (\<lambda>(status, s).
     if \<not> NT_SUCCESS status then obind (unlock_page_file old s) (\<lambda>s. Done (status, s))
     else
     obind (map_page virtualAddress (pageFilePageIndex * 4096) oldFlags s) (\<lambda>s.
     obind (unlock_page_file old s) (\<lambda>s. Done (STATUS_SUCCESS, s))))))))"

definition PagingPageInPage :: "u64 \<Rightarrow> 'fs page_file \<Rightarrow> (NTSTATUS \<times> 'fs page_file) outcome" where
  "PagingPageInPage virtualAddress s =
     obind (lock_page_file s) (\<lambda>(old, s).
     obind (PagingGetTableMapping (PAGE_ALIGN virtualAddress) (pmmu s)) (\<lambda>tempMapping.
     let originalFlags = ucast (and (and tempMapping 0xFFF) (not PAGE_PRESENT)) :: u16;
         pageFilePageIndex = PAGE_ALIGN tempMapping div 4096
     in obind (if pageFilePageIndex = 0 then Done False else PagingGetPageFileMapBit pageFilePageIndex s) (\<lambda>used.
     if \<not> used then obind (unlock_page_file old s) (\<lambda>s. Done (STATUS_INVALID_PARAMETER, s))
     else
     obind (allocate_pfn (pmmu s)) (\<lambda>((status, pfnNumber), m).
     let s = s\<lparr>pmmu := m\<rparr> in
     case pfnNumber of
       None \<Rightarrow> obind (unlock_page_file old s) (\<lambda>s. Done (status, s))
     | Some pfn \<Rightarrow>
       if \<not> NT_SUCCESS status then obind (unlock_page_file old s) (\<lambda>s. Done (status, s))
       else
       obind (map_page virtualAddress (PA_FROM_PFN pfn) (or originalFlags 1) s) (\<lambda>s.
       obind (PagingLoadPageFromPageFile virtualAddress pageFilePageIndex s) (\<lambda>(status, s).
       if \<not> NT_SUCCESS status then obind (unlock_page_file old s) (\<lambda>s. Done (status, s))
       else
       obind (PagingSetPageFileMapBit pageFilePageIndex False s) (\<lambda>(_, s).
       obind (unlock_page_file old s) (\<lambda>s. Done (STATUS_SUCCESS, s)))))))))"

section \<open>The bit map\<close>

definition used :: "'fs page_file \<Rightarrow> u64 \<Rightarrow> bool" where
  "used s i = bit (PageFileMap s (i div 8)) (unat (i mod 8))"

definition mark :: "u64 \<Rightarrow> bool \<Rightarrow> 'fs page_file \<Rightarrow> 'fs page_file" where
  "mark i v s = s\<lparr>PageFileMap := (PageFileMap s)(i div 8 :=
     (if v then set_bit else unset_bit) (unat (i mod 8)) (PageFileMap s (i div 8)))\<rparr>"

definition in_file :: "'fs page_file \<Rightarrow> u64 \<Rightarrow> bool" where
  "in_file s i = (i < PageFileSize s div 4096)"

lemma in_file_cell: "in_file s i \<Longrightarrow> \<not> i div 8 > PageFileSize s div 4096 div 8"
  by (simp add: in_file_def not_less word_le_nat_alt word_less_nat_alt unat_div div_le_mono)

lemma map_bit_spec:
  assumes "in_file s i" "PageFileLock s \<noteq> 0"
  shows "PagingGetPageFileMapBit i s = Done (used s i)" "PagingSetPageFileMapBit i v s = Done (True, mark i v s)"
  using assms in_file_cell [OF assms(1)]
  by (simp_all add: PagingGetPageFileMapBit_def PagingSetPageFileMapBit_def Let_def used_def mark_def push_bit_eq_mult
      and_exp_eq_0_iff_not_bit set_bit_eq_or unset_bit_eq_and_not)

lemma mark_simps [simp]:
  "pmmu (mark i v s) = pmmu s" "PageFileLock (mark i v s) = PageFileLock s" "PageFileSize (mark i v s) = PageFileSize s"
  "Functions (mark i v s) = Functions s" "PageFile (mark i v s) = PageFile s" "files (mark i v s) = files s"
  by (simp_all add: mark_def)

lemma used_mark: "used (mark i v s) j = (if j = i then v else used s j)"
proof -
  have "j div 8 = i div 8 \<Longrightarrow> unat (j mod 8) = unat (i mod 8) \<Longrightarrow> j = i"
    by (metis word_mod_div_equality word_unat_eq_iff)
  moreover have "unat (i mod 8) < 8" by (simp add: unat_mod)
  ultimately show ?thesis by (auto simp: used_def mark_def bit_set_bit_iff bit_unset_bit_iff)
qed

lemma select_loop_spec:
  assumes "PageFileLock s \<noteq> 0" "\<And>i. i \<in> set is \<Longrightarrow> in_file s (word_of_nat i)" "\<exists>i\<in>set is. \<not> used s (word_of_nat i)"
  shows "\<exists>i\<in>set is. \<not> used s (word_of_nat i) \<and> select_loop is s = Done (word_of_nat i, mark (word_of_nat i) True s)"
  using assms(2,3) by (induction "is") (auto simp: map_bit_spec assms(1))

lemma PagingSelectPageFilePageIndex_spec:
  assumes "PageFileLock s \<noteq> 0" "in_file s i" "i \<noteq> 0" "\<not> used s i"
  shows "\<exists>j. in_file s j \<and> j \<noteq> 0 \<and> \<not> used s j \<and> PagingSelectPageFilePageIndex s = Done (j, mark j True s)"
proof -
  let ?is = "[1..<unat (PageFileSize s div 4096)]"
  have n: "in_file s (word_of_nat k) \<and> (word_of_nat k :: u64) \<noteq> 0" if "k \<in> set ?is" for k
  proof -
    have "unat (PageFileSize s div 4096) < 2 ^ LENGTH(64)" by (rule unsigned_less)
    then have "k < 2 ^ 64" using that by auto
    then have u: "unat (word_of_nat k :: u64) = k" by (simp add: unat_of_nat)
    then have "(word_of_nat k :: u64) \<noteq> 0" using that by (metis atLeastLessThan_iff not_one_le_zero set_upt unat_0)
    then show ?thesis using that u by (simp add: in_file_def word_less_nat_alt)
  qed
  have "unat i \<in> set ?is" using assms(2,3) by (auto simp: in_file_def word_less_nat_alt unat_gt_0 Suc_le_eq)
  then have "\<exists>k\<in>set ?is. \<not> used s (word_of_nat k)" using assms(4) by (intro bexI [of _ "unat i"]) simp_all
  then show ?thesis
    using select_loop_spec [OF assms(1), of ?is] n assms(1) unfolding PagingSelectPageFilePageIndex_def by fastforce
qed

section \<open>The words of a page\<close>

definition aligned :: "u64 \<Rightarrow> bool" where
  "aligned v = (unat v mod 4096 = 0)"

lemma page_word:
  assumes "aligned v" "i < 512"
  shows "page_of (v + 8 * word_of_nat i) = page_of v" "canonical v \<Longrightarrow> canonical (v + 8 * word_of_nat i)"
    "word_in_page (v + 8 * word_of_nat i) = i"
proof -
  obtain q where q: "unat v = 4096 * q" using assms(1) unfolding aligned_def by (metis mod_0_imp_dvd dvdE)
  have "unat v < 2 ^ LENGTH(64)" by (rule unsigned_less)
  then have "q < 2 ^ 52" using q by simp
  then have b: "4096 * q + 8 * i < 2 ^ 64" using assms(2) by simp
  have u: "unat (v + 8 * word_of_nat i) = 4096 * q + 8 * i"
    using b assms(2) by (simp add: unat_word_ariths unat_of_nat q)
  have d: "(4096 * q + 8 * i) div 4096 = q" using assms(2) by (intro div_nat_eqI) simp_all
  show "page_of (v + 8 * word_of_nat i) = page_of v" using d by (simp add: page_of_def u q)
  have "(4096 * q + 8 * i) div 2 ^ 47 = q div 2 ^ 35" using d div_mult2_eq [of "4096 * q + 8 * i" 4096 "2 ^ 35"] by simp
  moreover have "unat v div 2 ^ 47 = q div 2 ^ 35" using div_mult2_eq [of "unat v" 4096 "2 ^ 35"] by (simp add: q)
  ultimately show "canonical v \<Longrightarrow> canonical (v + 8 * word_of_nat i)" by (simp add: canonical_def u)
  show "word_in_page (v + 8 * word_of_nat i) = i" using assms(2) by (simp add: word_in_page_def u mod_mult_self4 [of 4096])
qed

lemma access_page:
  assumes "tables_ok s" "ordinary (page_of v)" "canonical v" "aligned v" "bit (page_entry s (page_of v)) 0" "i < 512"
  shows "get v (word_of_nat i) s = Done (phys s (frame_of (page_entry s (page_of v))) i)"
    "put v (word_of_nat i) x s = Done (poke (frame_of (page_entry s (page_of v))) i x s)"
  using translate_page [OF assms(1), of "v + 8 * word_of_nat i"] page_word [OF assms(4,6)] assms(2,3,5)
  by (simp_all add: get_def put_def load_def store_def poke_def Let_def)

lemma load_words_page:
  assumes "tables_ok s" "ordinary (page_of v)" "canonical v" "aligned v" "bit (page_entry s (page_of v)) 0" "set is \<subseteq> {..<512}"
  shows "load_words v is s = Done (map (phys s (frame_of (page_entry s (page_of v)))) is)"
  using assms(6) by (induction "is") (simp_all add: access_page [OF assms(1-5)])

text \<open>Writing to a frame that is no table changes no entry.\<close>

definition no_table :: "mmu \<Rightarrow> u64 \<Rightarrow> bool" where
  "no_table s g = (\<forall>p. valid_path p \<longrightarrow> table s p \<noteq> Some g)"

lemma poke_data:
  assumes ok: "tables_ok s" and n: "no_table s g"
  shows "valid_path p \<Longrightarrow> table (poke g i x s) p = table s p" "tables_ok (poke g i x s)" "no_table (poke g i x s) g"
    "ordinary k \<Longrightarrow> page_entry (poke g i x s) k = page_entry s k"
proof -
  show t: "table (poke g i x s) p = table s p" if "valid_path p" for p
    using above_poke(1) [OF above_fresh [of s g p]] n that by (simp add: no_table_def)
  have r: "frame_of (cr3 s) \<noteq> g" using n unfolding no_table_def by (auto simp: valid_path_def dest: spec [of _ "[]"])
  have c: "cr3 (poke g i x s) = cr3 s" by (simp add: poke_def)
  have ph: "h \<noteq> g \<Longrightarrow> phys (poke g i x s) h = phys s h" for h by (simp add: poke_def)
  have nt: "table s p = Some h \<Longrightarrow> valid_path p \<Longrightarrow> h \<noteq> g" for p h using n by (auto simp: no_table_def)
  have v: "valid_path (i # p) \<Longrightarrow> valid_path p" for i p by (rule valid_path_Cons)
  show "tables_ok (poke g i x s)"
    using ok t nt v unfolding tables_ok_def c ph [OF r] by (auto simp: ph)
  show "no_table (poke g i x s) g" using n t by (simp add: no_table_def)
  show "page_entry (poke g i x s) k = page_entry s k" if "ordinary k"
    using t [OF page_path_valid [OF that]] nt [OF _ page_path_valid [OF that]] by (auto simp: page_entry_def ph split: option.split)
qed

lemma store_words_page:
  assumes "ordinary (page_of v)" "canonical v" "aligned v"
  shows "tables_ok s \<Longrightarrow> bit (page_entry s (page_of v)) 0 \<Longrightarrow> g = frame_of (page_entry s (page_of v)) \<Longrightarrow> no_table s g \<Longrightarrow>
    i + length ws \<le> 512 \<Longrightarrow>
    \<exists>m. store_words v i ws s = Done (s\<lparr>phys := m\<rparr>) \<and> tables_ok (s\<lparr>phys := m\<rparr>) \<and>
      (\<forall>p. valid_path p \<longrightarrow> table (s\<lparr>phys := m\<rparr>) p = table s p) \<and>
      (\<forall>k. ordinary k \<longrightarrow> page_entry (s\<lparr>phys := m\<rparr>) k = page_entry s k) \<and>
      (\<forall>j. m g j = (if i \<le> j \<and> j < i + length ws then ws ! (j - i) else phys s g j))"
proof (induction ws arbitrary: i s)
  case Nil
  have "s\<lparr>phys := phys s\<rparr> = s" by simp
  then show ?case using Nil by (intro exI [of _ "phys s"]) auto
next
  case (Cons w ws)
  let ?s = "poke g i w s"
  note pd = poke_data [OF Cons.prems(1,4), where i = i and x = w]
  have put: "put v (word_of_nat i) w s = Done ?s"
    using access_page(2) [OF Cons.prems(1) assms Cons.prems(2)] Cons.prems(3,5) by simp
  obtain m where m: "store_words v (Suc i) ws ?s = Done (?s\<lparr>phys := m\<rparr>)" "tables_ok (?s\<lparr>phys := m\<rparr>)"
    "\<forall>p. valid_path p \<longrightarrow> table (?s\<lparr>phys := m\<rparr>) p = table ?s p" "\<forall>k. ordinary k \<longrightarrow> page_entry (?s\<lparr>phys := m\<rparr>) k = page_entry ?s k"
    "\<forall>j. m g j = (if Suc i \<le> j \<and> j < Suc i + length ws then ws ! (j - Suc i) else phys ?s g j)"
    using Cons.IH [of ?s "Suc i"] pd assms(1) Cons.prems(2,3,5) by auto
  have e: "?s\<lparr>phys := m\<rparr> = s\<lparr>phys := m\<rparr>" by (simp add: poke_def)
  have "m g j = (if i \<le> j \<and> j < i + length (w # ws) then (w # ws) ! (j - i) else phys s g j)" for j
    using m(5) [rule_format, of j] by (cases "j = i") (auto simp: poke_def nth_Cons' Suc_diff_Suc)
  then show ?case
    using m(1-4) pd put unfolding e by (intro exI [of _ m]) (simp add: obind.simps)
qed

text \<open>An entry: a page number and twelve bits of flags.\<close>

lemma entry_bits:
  fixes w x :: u64
  assumes "w < 2 ^ 52" "x < 2 ^ 12"
  shows "and (or (w * 4096) x) 0xFFF = x" "PAGE_ALIGN (or (w * 4096) x) = w * 4096" "PAGE_ALIGN (w * 4096) = w * 4096"
    "drop_bit 12 (or (w * 4096) x) = w" "w * 4096 div 4096 = w"
proof -
  have p: "w * 4096 = push_bit 12 w" by (simp add: push_bit_eq_mult)
  have m: "(0xFFF :: u64) = mask 12" by (simp add: mask_eq_exp_minus_1)
  have bw: "bit w n \<Longrightarrow> n < 52" for n using assms(1) by (metis bit_take_bit_iff less_mask_eq take_bit_eq_mask)
  have bx: "bit x n \<Longrightarrow> n < 12" for n using assms(2) by (metis bit_take_bit_iff less_mask_eq take_bit_eq_mask)
  show "and (or (w * 4096) x) 0xFFF = x" unfolding p m by (rule bit_word_eqI) (auto simp: bit_simps dest: bx)
  show "PAGE_ALIGN (or (w * 4096) x) = w * 4096" unfolding PAGE_ALIGN_def p m by (rule bit_word_eqI) (auto simp: bit_simps dest: bx)
  show "PAGE_ALIGN (w * 4096) = w * 4096" unfolding PAGE_ALIGN_def p m by (rule bit_word_eqI) (auto simp: bit_simps)
  show d: "drop_bit 12 (or (w * 4096) x) = w" unfolding p by (rule bit_word_eqI) (auto simp: bit_simps dest: bx bw bit_imp_le_length)
  have "drop_bit 12 (w * 4096) = w" unfolding p by (rule bit_word_eqI) (auto simp: bit_simps dest: bw bit_imp_le_length)
  then show "w * 4096 div 4096 = w" by (simp add: drop_bit_eq_div)
qed

section \<open>The state around the moves\<close>

definition memory_ok :: "mmu \<Rightarrow> PFN_NUMBER list \<Rightarrow> PFN_NUMBER list \<Rightarrow> bool" where
  "memory_ok s F W = (tables_ok s \<and> pfn_ok (mpfns s) F W \<and> PfnEntriesLock (mpfns s) = 0 \<and> (\<forall>g\<in>set F. g < 2 ^ 40 \<and> no_table s g))"

definition idle :: "'fs page_file \<Rightarrow> bool" where
  "idle s = (cpu_ok (mcpu (pmmu s)) \<and> irql (mcpu (pmmu s)) \<le> DISPATCH_LEVEL \<and> PageFileLock s = 0)"

lemma same_phys:
  assumes "phys s' = phys s" "cr3 s' = cr3 s"
  shows "table s' p = table s p" "page_entry s' n = page_entry s n" "tables_ok s' = tables_ok s" "no_table s' g = no_table s g"
proof -
  show t: "table s' p = table s p" for p by (induction p) (simp_all add: assms split: option.splits)
  show "page_entry s' n = page_entry s n" by (simp add: page_entry_def t assms split: option.split)
  show "tables_ok s' = tables_ok s" by (simp add: tables_ok_def t assms)
  show "no_table s' g = no_table s g" by (simp add: no_table_def t)
qed

lemma page_file_locks:
  assumes "idle s"
  shows "lock_page_file s = Done (irql (mcpu (pmmu s)), s\<lparr>PageFileLock := 1,
      pmmu := (pmmu s)\<lparr>mcpu := KiApplyIrql (irql (mcpu (pmmu s))) DISPATCH_LEVEL (mcpu (pmmu s))\<rparr>\<rparr>)"
    "PageFileLock t = 1 \<Longrightarrow> mcpu (pmmu t) = KiApplyIrql (irql (mcpu (pmmu s))) DISPATCH_LEVEL (mcpu (pmmu s)) \<Longrightarrow>
      unlock_page_file (irql (mcpu (pmmu s))) t = Done (t\<lparr>PageFileLock := 0, pmmu := (pmmu t)\<lparr>mcpu := mcpu (pmmu s)\<rparr>\<rparr>)"
  using assms by (simp_all add: idle_def lock_page_file_def unlock_page_file_def KeAcquireSpinLock_def KeReleaseSpinLock_def KfAcquire_free KfRelease_taken)

lemma page_entry_table: "page_entry s n \<noteq> 0 \<Longrightarrow> \<exists>h. table s (page_path n) = Some h"
  by (simp add: page_entry_def split: option.splits)

text \<open>Mapping a page that has an entry: one write, and the tables stay.\<close>

lemma PagingMapPage_entry:
  assumes ok: "tables_ok s" and o: "ordinary (page_of v)" and e: "page_entry s (page_of v) \<noteq> 0"
  shows "\<exists>m. PagingMapPage v p f s = Done (STATUS_SUCCESS, s\<lparr>phys := m\<rparr>) \<and> tables_ok (s\<lparr>phys := m\<rparr>) \<and>
    (\<forall>p. valid_path p \<longrightarrow> table (s\<lparr>phys := m\<rparr>) p = table s p) \<and>
    (\<forall>k. ordinary k \<longrightarrow> page_entry (s\<lparr>phys := m\<rparr>) k = (if k = page_of v then or (PAGE_ALIGN p) (ucast f) else page_entry s k)) \<and>
    (\<forall>g. no_table s g \<longrightarrow> m g = phys s g)"
proof -
  obtain h where h: "table s (page_path (page_of v)) = Some h" using page_entry_table [OF e] by blast
  have P: "valid_path (page_path (page_of v))" "length (page_path (page_of v)) = 3"
    using page_path_valid [OF o] by (simp_all add: page_path_def)
  let ?x = "or (PAGE_ALIGN p) (ucast f)"
  let ?m = "(phys s)(h := (phys s h)(page_of v mod 512 := ?x))"
  have pk: "poke h (page_of v mod 512) ?x s = s\<lparr>phys := ?m\<rparr>" by (simp add: poke_def)
  have "?m g = phys s g" if "no_table s g" for g using that h P(1) by (auto simp: no_table_def)
  then show ?thesis
    using PagingMapPage_present [OF ok o h, of p f] leaf_poke [OF ok P h, where d = "page_of v mod 512" and x = ?x]
      page_entry_leaf_poke [OF ok o h, of _ ?x] unfolding pk
    by (intro exI [of _ ?m]) simp
qed

lemma map_page_entry:
  assumes "tables_ok (pmmu s)" and "ordinary (page_of v)" and "page_entry (pmmu s) (page_of v) \<noteq> 0"
  shows "\<exists>m. map_page v p f s = Done (s\<lparr>pmmu := (pmmu s)\<lparr>phys := m\<rparr>\<rparr>) \<and> tables_ok ((pmmu s)\<lparr>phys := m\<rparr>) \<and>
    (\<forall>p. valid_path p \<longrightarrow> table ((pmmu s)\<lparr>phys := m\<rparr>) p = table (pmmu s) p) \<and>
    (\<forall>k. ordinary k \<longrightarrow> page_entry ((pmmu s)\<lparr>phys := m\<rparr>) k =
       (if k = page_of v then or (PAGE_ALIGN p) (ucast f) else page_entry (pmmu s) k)) \<and>
    (\<forall>g. no_table (pmmu s) g \<longrightarrow> m g = phys (pmmu s) g)"
  using PagingMapPage_entry [OF assms, of p f] by (auto simp: map_page_def)

section \<open>Paging out\<close>

definition place_ok :: "u64 \<Rightarrow> bool" where
  "place_ok v = (ordinary (page_of v) \<and> canonical v \<and> aligned v)"

lemma flags_u16:
  assumes "x < (2 :: u64) ^ 12"
  shows "ucast (ucast x :: u16) = x"
proof -
  have bx: "bit x n \<Longrightarrow> n < 12" for n using assms by (metis bit_take_bit_iff less_mask_eq take_bit_eq_mask)
  show ?thesis by (rule bit_word_eqI) (auto simp: bit_simps dest: bx)
qed

definition flags_of :: "u64 \<Rightarrow> u64" where
  "flags_of e = and (and e 0xFFF) (not 1)"

lemma flags_of_bound: "flags_of e < 2 ^ 12" "\<not> bit (flags_of e) 0"
proof -
  have m: "(0xFFF :: u64) = mask 12" by (simp add: mask_eq_exp_minus_1)
  have "flags_of e = take_bit 12 (and e (not 1))"
    unfolding flags_of_def m by (rule bit_word_eqI) (simp only: bit_and_iff bit_take_bit_iff bit_mask_iff; auto)
  then have "unat (flags_of e) = take_bit 12 (unat (and e (not 1)))" by (simp only: unsigned_take_bit_eq)
  then have "unat (flags_of e) < 2 ^ 12" by (simp only: take_bit_nat_less_exp)
  then show "flags_of e < 2 ^ 12" by (simp add: word_less_nat_alt)
  show "\<not> bit (flags_of e) 0" by (simp add: flags_of_def bit_simps)
qed

lemma free_physical_spec:
  assumes "pfn_ok (mpfns (pmmu s)) F (us @ f # vs)" "PfnEntriesLock (mpfns (pmmu s)) = 0" "DISPATCH_LEVEL \<le> irql (mcpu (pmmu s))"
    "and (Flags (mpfns (pmmu s)) (pfn_entry (mpfns (pmmu s)) f)) MMPFN_FLAG_PERMAMENT = 0" "a div 4096 = f"
  shows "\<exists>d. free_physical a s = Done (STATUS_SUCCESS, s\<lparr>pmmu := (pmmu s)\<lparr>mpfns := d\<rparr>\<rparr>) \<and> pfn_ok d (F @ [f]) (us @ vs) \<and> PfnEntriesLock d = 0"
  using MmFreePfn_refines [OF assms(1,2,3,4)] assms(5)
  by (auto simp: free_physical_def MmFreePhysicalAddress_def PFN_FROM_PA_def)

lemma frame_of_entry: "e < 2 ^ 52 \<Longrightarrow> PAGE_ALIGN e div 4096 = frame_of e"
proof -
  assume "e < 2 ^ 52"
  then have be: "bit e n \<Longrightarrow> n < 52" for n by (metis bit_take_bit_iff less_mask_eq take_bit_eq_mask)
  have m: "(0xFFF :: u64) = mask 12" "(0xFFFFFFFFFF :: u64) = mask 40" by (simp_all add: mask_eq_exp_minus_1)
  have "drop_bit 12 (PAGE_ALIGN e) = frame_of e"
    unfolding PAGE_ALIGN_def frame_of_def m by (rule bit_word_eqI) (auto simp: bit_simps dest: be)
  then show ?thesis by (simp add: drop_bit_eq_div)
qed

lemma frame_of_bound: "frame_of e < 2 ^ 40"
proof -
  have m: "(0xFFFFFFFFFF :: u64) = mask 40" by (simp add: mask_eq_exp_minus_1)
  have "frame_of e = take_bit 40 (drop_bit 12 e)"
    unfolding frame_of_def m by (simp only: take_bit_eq_mask)
  then have "unat (frame_of e) = take_bit 40 (unat (drop_bit 12 e))" by (simp only: unsigned_take_bit_eq)
  then have "unat (frame_of e) < 2 ^ 40" by (simp only: take_bit_nat_less_exp)
  then show ?thesis by (simp add: word_less_nat_alt)
qed

lemma in_file_bound: "in_file s j \<Longrightarrow> j < 2 ^ 52"
proof -
  assume j: "in_file s j"
  have "unat (PageFileSize s) < 2 ^ LENGTH(64)" by (rule unsigned_less)
  then have "unat (PageFileSize s) div 4096 < 2 ^ 52" by simp
  then show ?thesis using j by (simp add: in_file_def word_less_nat_alt unat_div)
qed

text \<open>The words of the page go to the file, its frame to the free list, its place in the file to its entry.\<close>

definition written :: "u64 \<Rightarrow> u64 list \<Rightarrow> 'fs page_file \<Rightarrow> 'fs" where
  "written j ws s = snd (WriteFile (Functions s) (PageFile s) (4096 * j) ws (files s))"

lemma page_out:
  assumes mem: "memory_ok (pmmu s) F (us @ frame_of e # vs)" and id: "idle s" and pl: "place_ok v"
    and e: "e = page_entry (pmmu s) (page_of v)" "bit e 0" "e < 2 ^ 52" and nt: "no_table (pmmu s) (frame_of e)"
    and np: "and (Flags (mpfns (pmmu s)) (pfn_entry (mpfns (pmmu s)) (frame_of e))) MMPFN_FLAG_PERMAMENT = 0"
    and i: "in_file s i" "i \<noteq> 0" "\<not> used s i"
  shows "\<exists>j p m. PagingPageOutPage v s = Done (STATUS_SUCCESS, (mark j True s)\<lparr>pmmu := m, FilePointer := p,
        files := written j (map (phys (pmmu s) (frame_of e)) [0..<512]) s\<rparr>) \<and>
      in_file s j \<and> j \<noteq> 0 \<and> \<not> used s j \<and> mcpu m = mcpu (pmmu s) \<and> memory_ok m (F @ [frame_of e]) (us @ vs) \<and>
      (\<forall>k. ordinary k \<longrightarrow> page_entry m k = (if k = page_of v then or (j * 4096) (flags_of e) else page_entry (pmmu s) k))"
proof -
  let ?c = "KiApplyIrql (irql (mcpu (pmmu s))) DISPATCH_LEVEL (mcpu (pmmu s))" and ?f = "frame_of e"
  let ?ws = "map (phys (pmmu s) ?f) [0..<512]"
  define s0 where "s0 = s\<lparr>PageFileLock := 1, pmmu := (pmmu s)\<lparr>mcpu := ?c\<rparr>\<rparr>"
  have pl': "ordinary (page_of v)" "canonical v" "aligned v" using pl by (simp_all add: place_ok_def)
  have lock: "lock_page_file s = Done (irql (mcpu (pmmu s)), s0)" unfolding s0_def by (rule page_file_locks(1) [OF id])
  note sp0 = same_phys [of "pmmu s0" "pmmu s", OF _ _, unfolded s0_def, simplified, folded s0_def]
  have ok0: "tables_ok (pmmu s0)" and e0: "page_entry (pmmu s0) (page_of v) = e"
    using same_phys [of "pmmu s0" "pmmu s"] mem e(1) by (simp_all add: s0_def memory_ok_def)
  have "in_file s0 i" "\<not> used s0 i" "PageFileLock s0 \<noteq> 0" using i by (simp_all add: s0_def in_file_def used_def)
  then obtain j where j: "in_file s0 j" "j \<noteq> 0" "\<not> used s0 j" "PagingSelectPageFilePageIndex s0 = Done (j, mark j True s0)"
    using PagingSelectPageFilePageIndex_spec [of s0 i] i(2) by blast
  obtain q fs where w: "WriteFile (Functions s) (PageFile s) (4096 * j) ?ws (files s) = (q, fs)" by fastforce
  define s2 where "s2 = (mark j True s0)\<lparr>FilePointer := q, files := fs\<rparr>"
  have ld: "load_words v [0..<512] (pmmu s0) = Done ?ws"
  proof -
    have "set [0..<512] \<subseteq> {..<512}" and p: "phys (pmmu s0) = phys (pmmu s)" by (auto simp: s0_def)
    from load_words_page [OF ok0 pl' _ this(1)] e(2) show ?thesis unfolding e0 p .
  qed
  have save: "PagingSavePageToPageFile v j (mark j True s0) = Done (STATUS_SUCCESS, s2)"
    using ld w by (simp add: PagingSavePageToPageFile_def s2_def s0_def)
  have get: "PagingGetTableMapping v (pmmu s2) = Done e"
    using PagingGetTableMapping_page [OF ok0 pl'(1)] e0 by (simp add: s2_def)
  have pre: "pfn_ok (mpfns (pmmu s2)) F (us @ ?f # vs)" "PfnEntriesLock (mpfns (pmmu s2)) = 0" "DISPATCH_LEVEL \<le> irql (mcpu (pmmu s2))"
    "and (Flags (mpfns (pmmu s2)) (pfn_entry (mpfns (pmmu s2)) ?f)) MMPFN_FLAG_PERMAMENT = 0"
    using mem np by (simp_all add: s2_def s0_def memory_ok_def)
  obtain d where d: "free_physical (PAGE_ALIGN e) s2 = Done (STATUS_SUCCESS, s2\<lparr>pmmu := (pmmu s2)\<lparr>mpfns := d\<rparr>\<rparr>)"
    "pfn_ok d (F @ [?f]) (us @ vs)" "PfnEntriesLock d = 0"
    using free_physical_spec [OF pre frame_of_entry [OF e(3)]] by blast
  define s3 where "s3 = s2\<lparr>pmmu := (pmmu s2)\<lparr>mpfns := d\<rparr>\<rparr>"
  have ph3: "phys (pmmu s3) = phys (pmmu s)" "cr3 (pmmu s3) = cr3 (pmmu s)" by (simp_all add: s3_def s2_def s0_def)
  note sp3 = same_phys [OF ph3]
  have ok3: "tables_ok (pmmu s3)" "page_entry (pmmu s3) (page_of v) \<noteq> 0"
    using mem e(1,2) by (auto simp: sp3 memory_ok_def)
  obtain m where m: "map_page v (j * 4096) (ucast (flags_of e)) s3 = Done (s3\<lparr>pmmu := (pmmu s3)\<lparr>phys := m\<rparr>\<rparr>)"
    "tables_ok ((pmmu s3)\<lparr>phys := m\<rparr>)"
    "\<forall>p. valid_path p \<longrightarrow> table ((pmmu s3)\<lparr>phys := m\<rparr>) p = table (pmmu s) p"
    "\<forall>k. ordinary k \<longrightarrow> page_entry ((pmmu s3)\<lparr>phys := m\<rparr>) k = (if k = page_of v then or (j * 4096) (flags_of e) else page_entry (pmmu s) k)"
    using map_page_entry [OF ok3(1) pl'(1) ok3(2), of "j * 4096" "ucast (flags_of e)"] in_file_bound [OF j(1)]
    unfolding sp3 by (auto simp: entry_bits(3) [OF _ flags_of_bound(1)] flags_u16 [OF flags_of_bound(1)])
  define m' where "m' = (pmmu s3)\<lparr>phys := m, mcpu := mcpu (pmmu s)\<rparr>"
  have sm: "page_entry m' k = page_entry ((pmmu s3)\<lparr>phys := m\<rparr>) k" "tables_ok m'" "table m' p = table ((pmmu s3)\<lparr>phys := m\<rparr>) p" for k p
    using same_phys [of m' "(pmmu s3)\<lparr>phys := m\<rparr>"] m(2) by (simp_all add: m'_def)
  have un: "unlock_page_file (irql (mcpu (pmmu s))) (s3\<lparr>pmmu := (pmmu s3)\<lparr>phys := m\<rparr>\<rparr>) =
      Done ((mark j True s)\<lparr>pmmu := m', FilePointer := q, files := fs\<rparr>)"
    by (subst page_file_locks(2) [OF id]) (use id in \<open>simp_all add: s3_def s2_def s0_def m'_def mark_def idle_def\<close>)
  have res: "PagingPageOutPage v s = Done (STATUS_SUCCESS, (mark j True s)\<lparr>pmmu := m', FilePointer := q, files := fs\<rparr>)"
    unfolding PagingPageOutPage_def lock
    using j(4) save get d(1) [unfolded PAGE_ALIGN_def] m(1) [unfolded flags_of_def] un by (simp add: Let_def s3_def [symmetric])
  have mo: "memory_ok m' (F @ [?f]) (us @ vs)"
  proof -
    note frame_of_bound [of e]
    moreover have "no_table m' g = no_table (pmmu s) g" for g using m(3) by (simp add: no_table_def sm(3))
    ultimately show ?thesis using mem d(2,3) sm(2) nt by (auto simp: memory_ok_def m'_def [THEN arg_cong [where f = mpfns]] s3_def)
  qed
  have fin: "in_file s j" "\<not> used s j" "mcpu m' = mcpu (pmmu s)" using j(1,3) by (simp_all add: s0_def in_file_def used_def m'_def)
  show ?thesis
    by (rule exI [of _ j], rule exI [of _ q], rule exI [of _ m'])
      (use res j(2) m(4) w mo fin in \<open>simp add: sm(1) written_def del: upt_Suc\<close>)
qed

section \<open>Paging in\<close>

lemma allocate_pfn_next:
  assumes "pfn_ok (mpfns m) (g # F) W" "PfnEntriesLock (mpfns m) = 0" "DISPATCH_LEVEL \<le> irql (mcpu m)"
  shows "\<exists>d. allocate_pfn m = Done ((STATUS_SUCCESS, Some g), m\<lparr>mpfns := d\<rparr>) \<and> pfn_ok d F (W @ [g]) \<and> PfnEntriesLock d = 0"
  using MmAllocatePfn_refines [OF assms] by (auto simp: allocate_pfn_def)

lemma present_flags:
  assumes "x < (2 :: u64) ^ 12"
  shows "ucast (or (ucast x :: u16) 1) = or x 1" "or x 1 < 2 ^ 12" "bit (or x 1) 0"
proof -
  have bx: "bit x n \<Longrightarrow> n < 12" for n using assms by (metis bit_take_bit_iff less_mask_eq take_bit_eq_mask)
  have t: "or x 1 = take_bit 12 (or x 1)" by (rule bit_word_eqI) (auto simp: bit_simps dest: bx)
  have "unat (or x 1) = take_bit 12 (unat (or x 1))" by (subst t) (simp only: unsigned_take_bit_eq)
  then have "unat (or x 1) < 2 ^ 12" by (metis take_bit_nat_less_exp)
  then show "or x 1 < 2 ^ 12" by (simp add: word_less_nat_alt)
  show "ucast (or (ucast x :: u16) 1) = or x 1" by (rule bit_word_eqI) (auto simp: bit_simps dest: bx)
  show "bit (or x 1) 0" by (simp add: bit_simps)
qed

lemma entry_frame: "g < 2 ^ 40 \<Longrightarrow> x < 2 ^ 12 \<Longrightarrow> frame_of (or (g * 4096) x) = g"
proof -
  assume g: "g < 2 ^ 40" and x: "x < 2 ^ 12"
  have "drop_bit 12 (or (g * 4096) x) = g" by (rule entry_bits(4)) (use g x in \<open>simp_all add: word_less_nat_alt\<close>)
  moreover have "(0xFFFFFFFFFF :: u64) = mask 40" by (simp add: mask_eq_exp_minus_1)
  ultimately show ?thesis unfolding frame_of_def using less_mask_eq [OF g] by (simp only:)
qed

lemma page_in:
  assumes mem: "memory_ok (pmmu s) (g # F) W" and id: "idle s" and pl: "place_ok v"
    and e: "page_entry (pmmu s) (page_of v) = or (j * 4096) x" "flags_of x = x" and j: "in_file s j" "j \<noteq> 0" "used s j"
    and rd: "ReadFile (Functions s) (PageFile s) (4096 * j) 4096 (files s) = (ws, q, fs)" "length ws = 512"
  shows "\<exists>m. PagingPageInPage v s = Done (STATUS_SUCCESS, (mark j False s)\<lparr>pmmu := m, FilePointer := q, files := fs\<rparr>) \<and>
    mcpu m = mcpu (pmmu s) \<and> memory_ok m F (W @ [g]) \<and> (\<forall>i<512. phys m g i = ws ! i) \<and>
    (\<forall>k. ordinary k \<longrightarrow> page_entry m k = (if k = page_of v then or (g * 4096) (or x 1) else page_entry (pmmu s) k))"
proof -
  let ?c = "KiApplyIrql (irql (mcpu (pmmu s))) DISPATCH_LEVEL (mcpu (pmmu s))"
  define s0 where "s0 = s\<lparr>PageFileLock := 1, pmmu := (pmmu s)\<lparr>mcpu := ?c\<rparr>\<rparr>"
  have pl': "ordinary (page_of v)" "canonical v" "aligned v" using pl by (simp_all add: place_ok_def)
  have x: "x < 2 ^ 12" using flags_of_bound(1) [of x] e(2) by simp
  note pf = present_flags [OF x]
  note jb = in_file_bound [OF j(1)]
  note eb = entry_bits [OF jb x]
  have g: "g < 2 ^ 40" "no_table (pmmu s) g" using mem by (simp_all add: memory_ok_def)
  have gb: "g < 2 ^ 52" using g(1) by (simp add: word_less_nat_alt)
  have lock: "lock_page_file s = Done (irql (mcpu (pmmu s)), s0)" unfolding s0_def by (rule page_file_locks(1) [OF id])
  have ph0: "phys (pmmu s0) = phys (pmmu s)" "cr3 (pmmu s0) = cr3 (pmmu s)" by (simp_all add: s0_def)
  note sp0 = same_phys [OF ph0]
  have get: "PagingGetTableMapping (PAGE_ALIGN v) (pmmu s0) = Done (or (j * 4096) x)"
    using PagingGetTableMapping_page [of "pmmu s0" "PAGE_ALIGN v"] mem pl'(1) e(1) by (simp add: sp0 memory_ok_def)
  have bit: "PagingGetPageFileMapBit j s0 = Done True"
    using map_bit_spec(1) [of s0 j] j by (simp add: s0_def in_file_def used_def)
  obtain d where d: "allocate_pfn (pmmu s0) = Done ((STATUS_SUCCESS, Some g), (pmmu s0)\<lparr>mpfns := d\<rparr>)" "pfn_ok d F (W @ [g])" "PfnEntriesLock d = 0"
    using allocate_pfn_next [of "pmmu s0" g F W] mem by (auto simp: s0_def memory_ok_def)
  define s1 where "s1 = s0\<lparr>pmmu := (pmmu s0)\<lparr>mpfns := d\<rparr>\<rparr>"
  have ph1: "phys (pmmu s1) = phys (pmmu s)" "cr3 (pmmu s1) = cr3 (pmmu s)" by (simp_all add: s1_def s0_def)
  note sp1 = same_phys [OF ph1]
  have nz: "or (j * 4096) x \<noteq> 0"
  proof
    assume z: "or (j * 4096) x = 0"
    have "j = 0" using eb(4) unfolding z by simp
    then show False using j(2) by simp
  qed
  obtain m where m: "map_page v (PA_FROM_PFN g) (or (ucast x) 1) s1 = Done (s1\<lparr>pmmu := (pmmu s1)\<lparr>phys := m\<rparr>\<rparr>)"
    "tables_ok ((pmmu s1)\<lparr>phys := m\<rparr>)"
    "\<forall>p. valid_path p \<longrightarrow> table ((pmmu s1)\<lparr>phys := m\<rparr>) p = table (pmmu s) p"
    "\<forall>k. ordinary k \<longrightarrow> page_entry ((pmmu s1)\<lparr>phys := m\<rparr>) k = (if k = page_of v then or (g * 4096) (or x 1) else page_entry (pmmu s) k)"
    using map_page_entry [of s1 v "PA_FROM_PFN g" "or (ucast x) 1"] mem pl'(1) e(1) nz pf(1) entry_bits(3) [OF gb x]
    unfolding sp1 by (auto simp: memory_ok_def PA_FROM_PFN_def)
  define m1 where "m1 = (pmmu s1)\<lparr>phys := m\<rparr>"
  have e1: "page_entry m1 (page_of v) = or (g * 4096) (or x 1)" using m(4) pl'(1) by (simp add: m1_def)
  have f1: "frame_of (page_entry m1 (page_of v)) = g" "bit (page_entry m1 (page_of v)) 0"
    unfolding e1 using entry_frame [OF g(1) pf(2)] pf(3) by (simp_all add: bit_or_iff)
  have n1: "no_table m1 g" using m(3) g(2) by (simp add: no_table_def m1_def)
  obtain m' where m': "store_words v 0 ws m1 = Done (m1\<lparr>phys := m'\<rparr>)" "tables_ok (m1\<lparr>phys := m'\<rparr>)"
    "\<forall>p. valid_path p \<longrightarrow> table (m1\<lparr>phys := m'\<rparr>) p = table m1 p"
    "\<forall>k. ordinary k \<longrightarrow> page_entry (m1\<lparr>phys := m'\<rparr>) k = page_entry m1 k" "\<forall>i. m' g i = (if i < 512 then ws ! i else phys m1 g i)"
    using store_words_page [OF pl', of m1 g 0 ws] m(2) f1 n1 rd(2) by (auto simp: m1_def)
  define s2 where "s2 = s1\<lparr>FilePointer := q, files := fs, pmmu := m1\<lparr>phys := m'\<rparr>\<rparr>"
  have load: "PagingLoadPageFromPageFile v j (s1\<lparr>pmmu := m1\<rparr>) = Done (STATUS_SUCCESS, s2)"
    using m'(1) rd(1) by (simp add: PagingLoadPageFromPageFile_def Let_def s2_def s1_def s0_def)
  have set: "PagingSetPageFileMapBit j False s2 = Done (True, mark j False s2)"
    by (rule map_bit_spec(2)) (use j(1) in \<open>simp_all add: in_file_def s2_def s1_def s0_def\<close>)
  define m2 where "m2 = m1\<lparr>phys := m', mcpu := mcpu (pmmu s)\<rparr>"
  have un: "unlock_page_file (irql (mcpu (pmmu s))) (mark j False s2) =
      Done ((mark j False s)\<lparr>pmmu := m2, FilePointer := q, files := fs\<rparr>)"
    by (subst page_file_locks(2) [OF id]) (use id in \<open>simp_all add: s2_def s1_def s0_def m2_def m1_def mark_def idle_def\<close>)
  have x': "and (and (or (j * 4096) x) 0xFFF) (not 1) = x" using e(2) eb(1) entry_bits(1) [OF _ x, of 0] by (simp add: flags_of_def)
  have res: "PagingPageInPage v s = Done (STATUS_SUCCESS, (mark j False s)\<lparr>pmmu := m2, FilePointer := q, files := fs\<rparr>)"
    unfolding PagingPageInPage_def lock
    using get bit d(1) m(1) load set un x' eb(2,5) j(2)
    by (simp add: Let_def s1_def [symmetric] m1_def [symmetric])
  have sm: "page_entry m2 k = page_entry (m1\<lparr>phys := m'\<rparr>) k" "tables_ok m2" "table m2 p = table (m1\<lparr>phys := m'\<rparr>) p" for k p
    using same_phys [of m2 "m1\<lparr>phys := m'\<rparr>"] m'(2) by (simp_all add: m2_def)
  have "no_table m2 h = no_table (pmmu s) h" for h using m(3) m'(3) by (simp add: no_table_def sm(3) m1_def)
  then have "memory_ok m2 F (W @ [g])"
    using mem d(2,3) sm(2) by (auto simp: memory_ok_def m2_def [THEN arg_cong [where f = mpfns]] m1_def s1_def)
  moreover have "phys m2 g i = ws ! i" if "i < 512" for i using m'(5) that by (simp add: m2_def)
  moreover have "page_entry m2 k = (if k = page_of v then or (g * 4096) (or x 1) else page_entry (pmmu s) k)" if "ordinary k" for k
    using m(4) m'(4) that by (simp add: sm(1) m1_def)
  moreover have "mcpu m2 = mcpu (pmmu s)" by (simp add: m2_def)
  ultimately show ?thesis using res by blast
qed

lemma restored_flags: "bit e 0 \<Longrightarrow> or (flags_of e) 1 = and e 0xFFF"
proof -
  assume e: "bit e 0"
  have m: "(0xFFF :: u64) = mask 12" by (simp add: mask_eq_exp_minus_1)
  show ?thesis unfolding flags_of_def m by (rule bit_word_eqI) (use e in \<open>auto simp: bit_or_iff bit_and_iff bit_not_iff bit_mask_iff bit_1_iff\<close>)
qed

lemma mark_back: "\<not> used s j \<Longrightarrow> PageFileMap (mark j False (mark j True s)) = PageFileMap s"
proof -
  assume "\<not> used s j"
  then have "unset_bit (unat (j mod 8)) (set_bit (unat (j mod 8)) (PageFileMap s (j div 8))) = PageFileMap s (j div 8)"
    by (intro bit_word_eqI) (auto simp: bit_set_bit_iff bit_unset_bit_iff used_def dest: bit_imp_le_length)
  then show ?thesis by (simp add: mark_def fun_eq_iff)
qed

section \<open>Properties\<close>

text \<open>C25: a page that is moved out to the page file and in again. While it is out the processor does not
  find it, and its frame is free. Afterwards a frame from the free list holds the same 512 words, the
  entry has the old flags, no other entry has changed, the place in the file is free again, and locks and
  IRQL are as before. The file system has to give back what was written to it.\<close>

theorem page_file_roundtrip:
  assumes "memory_ok (pmmu s) F (us @ frame_of e # vs)" "idle s" "place_ok v"
    and "e = page_entry (pmmu s) (page_of v)" "bit e 0" "e < 2 ^ 52" "no_table (pmmu s) (frame_of e)"
    and "and (Flags (mpfns (pmmu s)) (pfn_entry (mpfns (pmmu s)) (frame_of e))) MMPFN_FLAG_PERMAMENT = 0"
    and "in_file s i" "i \<noteq> 0" "\<not> used s i"
    and read: "\<And>j ws. length ws = 512 \<Longrightarrow> fst (ReadFile (Functions s) (PageFile s) (4096 * j) 4096 (written j ws s)) = ws"
  defines "g \<equiv> hd (F @ [frame_of e])"
  shows "\<exists>s1 s2 W. PagingPageOutPage v s = Done (STATUS_SUCCESS, s1) \<and>
    translate (pmmu s1) v = None \<and> memory_ok (pmmu s1) (F @ [frame_of e]) (us @ vs) \<and>
    PagingPageInPage v s1 = Done (STATUS_SUCCESS, s2) \<and>
    translate (pmmu s2) v = Some g \<and> (\<forall>i<512. phys (pmmu s2) g i = phys (pmmu s) (frame_of e) i) \<and>
    (\<forall>k. ordinary k \<longrightarrow> page_entry (pmmu s2) k = (if k = page_of v then or (g * 4096) (and e 0xFFF) else page_entry (pmmu s) k)) \<and>
    memory_ok (pmmu s2) (tl (F @ [frame_of e])) W \<and> PageFileMap s2 = PageFileMap s \<and> idle s2"
proof -
  let ?ws = "map (phys (pmmu s) (frame_of e)) [0..<512]"
  obtain j p m where o: "PagingPageOutPage v s = Done (STATUS_SUCCESS, (mark j True s)\<lparr>pmmu := m, FilePointer := p, files := written j ?ws s\<rparr>)"
    "in_file s j" "j \<noteq> 0" "\<not> used s j" "mcpu m = mcpu (pmmu s)" "memory_ok m (F @ [frame_of e]) (us @ vs)"
    "\<forall>k. ordinary k \<longrightarrow> page_entry m k = (if k = page_of v then or (j * 4096) (flags_of e) else page_entry (pmmu s) k)"
    using page_out [OF assms(1-11)] by blast
  define s1 where "s1 = (mark j True s)\<lparr>pmmu := m, FilePointer := p, files := written j ?ws s\<rparr>"
  have pl: "ordinary (page_of v)" "canonical v" using assms(3) by (simp_all add: place_ok_def)
  have l: "length ?ws = 512" by (simp del: upt_Suc)
  obtain q fs where rd: "ReadFile (Functions s1) (PageFile s1) (4096 * j) 4096 (files s1) = (?ws, q, fs)"
    using read [OF l, of j] by (cases "ReadFile (Functions s) (PageFile s) (4096 * j) 4096 (written j ?ws s)") (auto simp: s1_def simp del: upt_Suc)
  obtain G where G: "F @ [frame_of e] = g # G" unfolding g_def by (cases F) auto
  have e1: "page_entry (pmmu s1) (page_of v) = or (j * 4096) (flags_of e)" using o(7) pl(1) by (simp add: s1_def)
  have ff: "flags_of (flags_of e) = flags_of e" by (rule bit_word_eqI) (auto simp: flags_of_def bit_and_iff)
  have u1: "used s1 j" using used_mark [of j True s j] by (simp add: s1_def used_def)
  have i1: "idle s1" "in_file s1 j" "memory_ok (pmmu s1) (g # G) (us @ vs)" using assms(2) o(2,5,6) G by (simp_all add: idle_def s1_def in_file_def)
  obtain m2 where m2: "PagingPageInPage v s1 = Done (STATUS_SUCCESS, (mark j False s1)\<lparr>pmmu := m2, FilePointer := q, files := fs\<rparr>)"
    "mcpu m2 = mcpu (pmmu s1)" "memory_ok m2 G ((us @ vs) @ [g])" "\<forall>i<512. phys m2 g i = ?ws ! i"
    "\<forall>k. ordinary k \<longrightarrow> page_entry m2 k = (if k = page_of v then or (g * 4096) (or (flags_of e) 1) else page_entry (pmmu s1) k)"
    using page_in [OF i1(3,1) assms(3) e1 ff i1(2) o(3) u1 rd l] by blast
  define s2 where "s2 = (mark j False s1)\<lparr>pmmu := m2, FilePointer := q, files := fs\<rparr>"
  have "\<not> bit (or (j * 4096) (flags_of e)) 0"
  proof -
    have "j * 4096 = push_bit 12 j" by (simp add: push_bit_eq_mult)
    then show ?thesis using flags_of_bound(2) [of e] by (simp add: bit_or_iff bit_push_bit_iff)
  qed
  then have t1: "translate (pmmu s1) v = None"
    using translate_page [of "pmmu s1" v] pl e1 i1(3) by (simp add: memory_ok_def Let_def)
  have g40: "g < 2 ^ 40" using i1(3) by (simp add: memory_ok_def)
  note pf = present_flags [OF flags_of_bound(1)]
  have e2: "page_entry m2 (page_of v) = or (g * 4096) (or (flags_of e) 1)" using m2(5) pl(1) by simp
  have t2: "translate (pmmu s2) v = Some g"
    using translate_page [of m2 v] pl m2(3) entry_frame [OF g40 pf(2)] pf(3) unfolding e2
    by (simp add: memory_ok_def Let_def s2_def bit_or_iff)
  have "page_entry m2 k = (if k = page_of v then or (g * 4096) (and e 0xFFF) else page_entry (pmmu s) k)" if "ordinary k" for k
    using m2(5) o(7) that restored_flags [OF assms(5)] by (simp add: s1_def)
  moreover have "phys m2 g i = phys (pmmu s) (frame_of e) i" if "i < 512" for i
    using m2(4) that by (simp del: upt_Suc)
  moreover have "PageFileMap s2 = PageFileMap s" using mark_back [OF o(4)] by (simp add: s2_def s1_def mark_def)
  moreover have "idle s2" using assms(2) o(5) m2(2) i1(1) by (simp add: idle_def s2_def s1_def)
  ultimately show ?thesis
    using o(1) o(6) m2(1,3) t1 t2 G unfolding s1_def [symmetric] s2_def [symmetric]
    by (intro exI [of _ s1] exI [of _ s2] exI [of _ "(us @ vs) @ [g]"]) (simp add: s1_def s2_def)
qed

text \<open>Page 3 is mapped to frame 1, which is allocated; the file system is a map from offsets to pages.\<close>

definition paged_db :: pfn_db where
  "paged_db = (case MmAllocatePfn \<lparr>irql = 2, tpr = 2\<rparr> sample_db of Done (_, d) \<Rightarrow> d | _ \<Rightarrow> sample_db)"

lemma paged_db_ok:
  "pfn_ok paged_db [2] [0, 1]" "PfnEntriesLock paged_db = 0" "Flags paged_db (pfn_entry paged_db 1) = 0"
proof -
  obtain d where "MmAllocatePfn \<lparr>irql = 2, tpr = 2\<rparr> sample_db = Done ((STATUS_SUCCESS, Some 1), d)" "pfn_ok d [2] [0, 1]"
    "PfnEntriesLock d = 0" "same_static sample_db d" "Flags d (pfn_entry sample_db 1) = 0"
    using MmAllocatePfn_refines [OF sample_db_ok, of "\<lparr>irql = 2, tpr = 2\<rparr>"] by auto
  moreover from this have "paged_db = d" by (simp add: paged_db_def)
  ultimately show "pfn_ok paged_db [2] [0, 1]" "PfnEntriesLock paged_db = 0" "Flags paged_db (pfn_entry paged_db 1) = 0"
    by (simp_all add: pfn_entry_def same_static_def)
qed

definition paged_mmu :: mmu where
  "paged_mmu = small_mmu\<lparr>mcpu := \<lparr>irql = 0, tpr = 0\<rparr>, mpfns := paged_db, cr3 := 0x4000,
     phys := (\<lambda>_ _. 0)(4 := (\<lambda>_. 0)(510 := 0x4003, 0 := 0x5007), 5 := (\<lambda>_. 0)(0 := 0x6007), 6 := (\<lambda>_. 0)(0 := 0x7007),
       7 := (\<lambda>_. 0)(3 := 0x1007), 1 := (\<lambda>i. word_of_nat i))\<rparr>"

definition page_store :: "(u64 \<Rightarrow> u64 list) page_file" where
  "page_store = \<lparr>pmmu = paged_mmu, PageFileSize = 0x10000, PageFileLock = 0, PageFile = 1, FilePointer = 0,
     Functions = \<lparr>OpenOrCreateFile = (\<lambda>_ fs. (1, fs)), ResizeFile = (\<lambda>_ _ fs. fs),
       WriteFile = (\<lambda>_ pos ws fs. (pos + 4096, fs(pos := ws))), ReadFile = (\<lambda>_ pos n fs. (fs pos, pos + n, fs))\<rparr>,
     PageFileMap = (\<lambda>_. 0), files = (\<lambda>_. [])\<rparr>"

lemma paged_frames: "frame_of 0x4000 = 4" "frame_of 0x4003 = 4" "frame_of 0x5007 = 5" "frame_of 0x6007 = 6" "frame_of 0x7007 = 7" "frame_of 0x1007 = 1"
    "good 0x4003" "good 0x5007" "good 0x6007" "good 0x7007"
  by (simp_all add: frame_of_def good_def)

lemma paged_tables: "valid_path p \<Longrightarrow> table paged_mmu p =
    (if p = [] then Some 4 else if p = [0] then Some 5 else if p = [0, 0] then Some 6 else if p = [0, 0, 0] then Some 7 else None)"
proof (induction p)
  case Nil then show ?case by (simp add: paged_mmu_def paged_frames)
next
  case (Cons i p)
  have "p = [] \<Longrightarrow> i \<noteq> 510" "length p \<le> 2" using Cons.prems by (simp_all add: valid_path_def)
  then show ?case using Cons.IH [OF valid_path_Cons [OF Cons.prems]]
    by (auto simp: paged_mmu_def paged_frames)
qed

lemma paged_memory: "memory_ok paged_mmu [2] [0, 1]"
proof -
  have "tables_ok paged_mmu"
    unfolding tables_ok_def
  proof (intro conjI allI impI)
    show "good (phys paged_mmu (frame_of (cr3 paged_mmu)) 510)"
      "frame_of (phys paged_mmu (frame_of (cr3 paged_mmu)) 510) = frame_of (cr3 paged_mmu)"
      by (simp_all add: paged_mmu_def paged_frames)
    show "good (phys paged_mmu f i)" if v: "valid_path (i # p)" and t: "table paged_mmu p = Some f" and z: "phys paged_mmu f i \<noteq> 0" for p i f
    proof -
      have "length p \<le> 2" using v by (simp add: valid_path_def)
      then show ?thesis using t z paged_tables [OF valid_path_Cons [OF v]]
        by (auto simp: paged_mmu_def paged_frames split: if_splits)
    qed
    show "p = q" if "valid_path p" "valid_path q" "table paged_mmu p = Some f" "table paged_mmu q = Some f" for p q f
      using that by (auto simp: paged_tables split: if_splits)
  qed
  then show ?thesis
    using paged_db_ok by (auto simp: memory_ok_def no_table_def paged_tables) (auto simp: paged_mmu_def)
qed

theorem page_file_roundtrip_witness:
  "\<exists>s1 s2. PagingPageOutPage 0x3000 page_store = Done (STATUS_SUCCESS, s1) \<and> translate (pmmu s1) 0x3000 = None \<and>
     PagingPageInPage 0x3000 s1 = Done (STATUS_SUCCESS, s2) \<and> translate (pmmu s2) 0x3000 = Some 2 \<and> phys (pmmu s2) 2 5 = 5"
proof -
  have pg: "page_of 0x3000 = 3" by (simp add: page_of_def)
  have pl: "place_ok 0x3000" by (simp add: place_ok_def pg ordinary_def canonical_def aligned_def)
  have "valid_path [0, 0, 0]" by (simp add: valid_path_def)
  then have e: "page_entry paged_mmu 3 = 0x1007"
    by (simp add: page_entry_def page_path_def paged_tables del: table.simps) (simp add: paged_mmu_def)
  have pm: "pmmu page_store = paged_mmu" by (simp add: page_store_def)
  have mem: "memory_ok (pmmu page_store) [2] ([0] @ frame_of 0x1007 # [])" using paged_memory by (simp add: pm paged_frames)
  have id: "idle page_store" by (simp add: idle_def page_store_def paged_mmu_def cpu_ok_def)
  have nt: "no_table (pmmu page_store) (frame_of 0x1007)" by (simp add: no_table_def paged_tables pm paged_frames)
  have np: "and (Flags (mpfns (pmmu page_store)) (pfn_entry (mpfns (pmmu page_store)) (frame_of 0x1007))) MMPFN_FLAG_PERMAMENT = 0"
    using paged_db_ok(3) by (simp add: pm paged_frames paged_mmu_def)
  have i: "in_file page_store 1" "\<not> used page_store 1" by (simp_all add: in_file_def used_def page_store_def)
  have r: "fst (ReadFile (Functions page_store) (PageFile page_store) (4096 * j) 4096 (written j ws page_store)) = ws" for j ws
    by (simp add: written_def page_store_def)
  have p5: "phys paged_mmu 1 5 = 5" by (simp add: paged_mmu_def)
  have eq: "0x1007 = page_entry (pmmu page_store) (page_of 0x3000)" by (simp add: pm pg e)
  obtain s1 s2 where s: "PagingPageOutPage 0x3000 page_store = Done (STATUS_SUCCESS, s1)" "translate (pmmu s1) 0x3000 = None"
    "PagingPageInPage 0x3000 s1 = Done (STATUS_SUCCESS, s2)" "translate (pmmu s2) 0x3000 = Some 2"
    "\<forall>i<512. phys (pmmu s2) 2 i = phys paged_mmu 1 i"
    using page_file_roundtrip [OF mem id pl eq _ _ nt np i(1) _ i(2) r] by (auto simp: pm paged_frames)
  moreover have "phys (pmmu s2) 2 5 = 5" using s(5) p5 by simp
  ultimately show ?thesis by blast
qed

end
