(* ===== verification/Descriptors.thy ===== *)
theory Descriptors
  imports Irql
begin

text \<open>
  Descriptor tables and interrupt stubs, HALX64/gdt.c and HALX64/idt.c: the segment and gate
  descriptors with the fields of the source, and the code the HAL writes into interrupt objects. That
  code is given a meaning by a small model of the five x64 instructions it uses, as the Intel manual
  describes them.
\<close>

section \<open>The global descriptor table\<close>

text \<open>The two fields of four bits share a byte; here each is a byte below 16.\<close>

record KGDTENTRY64 =
  Limit0To15 :: u16
  Base0To15 :: u16
  Base16To23 :: u8
  AccessByte :: u8
  Limit16To19 :: u8
  Flags :: u8
  Base24To31 :: u8

text \<open>An entry as the 64-bit word it is in memory.\<close>

definition entry_word :: "KGDTENTRY64 \<Rightarrow> u64" where
  "entry_word e = or (ucast (Limit0To15 e)) (or (push_bit 16 (ucast (Base0To15 e))) (or (push_bit 32 (ucast (Base16To23 e)))
     (or (push_bit 40 (ucast (AccessByte e))) (or (push_bit 48 (ucast (Limit16To19 e)))
     (or (push_bit 52 (ucast (Flags e))) (push_bit 56 (ucast (Base24To31 e))))))))"

definition word_entry :: "u64 \<Rightarrow> KGDTENTRY64" where
  "word_entry w = \<lparr>Limit0To15 = ucast w, Base0To15 = ucast (drop_bit 16 w), Base16To23 = ucast (drop_bit 32 w),
     AccessByte = ucast (drop_bit 40 w), Limit16To19 = and (ucast (drop_bit 48 w)) 0xF, Flags = and (ucast (drop_bit 52 w)) 0xF,
     Base24To31 = ucast (drop_bit 56 w)\<rparr>"

type_synonym gdt = "nat \<Rightarrow> KGDTENTRY64"

definition HalpSetGdtEntry :: "gdt \<Rightarrow> u16 \<Rightarrow> u32 \<Rightarrow> u32 \<Rightarrow> u8 \<Rightarrow> u8 \<Rightarrow> u16 \<times> gdt" where
  "HalpSetGdtEntry gdt entryIndex base limit flags accessByte =
     (8 * entryIndex, gdt(unat entryIndex :=
       \<lparr>Limit0To15 = ucast (and limit 0xFFFF), Base0To15 = ucast (and base 0xFFFF),
        Base16To23 = ucast (drop_bit 16 (and base 0xFF0000)), AccessByte = accessByte,
        Limit16To19 = ucast (drop_bit 16 (and limit 0xF0000)), Flags = and flags 0xF,
        Base24To31 = ucast (drop_bit 24 (and base 0xFF000000))\<rparr>))"

definition HalpSetGdtTssDescriptorEntry :: "gdt \<Rightarrow> u16 \<Rightarrow> u64 \<Rightarrow> u64 \<Rightarrow> u16 \<times> gdt" where
  "HalpSetGdtTssDescriptorEntry gdt entryIndex tss tssSize =
     (let (_, gdt) = HalpSetGdtEntry gdt entryIndex (ucast (and tss 0xFFFFFFFF)) (ucast tssSize) 0x40 0x89
      in (8 * entryIndex, gdt(unat entryIndex + 1 := word_entry (drop_bit 32 (and tss (not 0xFFFFFFFF))))))"

definition HalpGetGdtBase :: "KGDTENTRY64 \<Rightarrow> u32" where
  "HalpGetGdtBase entry =
     or (ucast (Base0To15 entry)) (or (push_bit 16 (ucast (Base16To23 entry))) (push_bit 24 (ucast (Base24To31 entry))))"

definition HalpGetTssBase :: "KGDTENTRY64 \<Rightarrow> KGDTENTRY64 \<Rightarrow> u64" where
  "HalpGetTssBase tssEntryLow tssEntryHigh =
     or (ucast (HalpGetGdtBase tssEntryLow)) (push_bit 32 (entry_word tssEntryHigh))"

text \<open>The loop counter is a USHORT; the step of a TSS entry is taken before the entry read earlier is
  compared, and \<open>ab\<close> never is 9 or 11 in its low digit, since its lowest bit is masked off.\<close>

partial_function (option) find_entry_loop :: "gdt \<Rightarrow> u16 \<Rightarrow> bool \<Rightarrow> bool \<Rightarrow> u16 \<Rightarrow> u16 option" where
  "find_entry_loop gdt numberOfEntries code user i =
     (if i < numberOfEntries
      then let ab = and (ucast (AccessByte (gdt (unat i)))) 0xFE :: u16;
               i = (if and ab 0xF = 0x9 \<or> and ab 0xF = 0xB then i + 2 else i)
        in if code \<and> \<not> user \<and> ab = 0x9A then Some (i * 8)
           else if code \<and> user \<and> ab = 0xFA then Some (or (i * 8) 3)
           else if \<not> code \<and> \<not> user \<and> ab = 0x92 then Some (i * 8)
           else if \<not> code \<and> user \<and> ab = 0xF2 then Some (or (i * 8) 3)
           else find_entry_loop gdt numberOfEntries code user (i + 1)
      else Some 0)"

definition HalpGdtFindEntry :: "gdt \<Rightarrow> u16 \<Rightarrow> bool \<Rightarrow> bool \<Rightarrow> u16 outcome" where
  "HalpGdtFindEntry gdt numberOfEntries code user =
     (case find_entry_loop gdt numberOfEntries code user 1 of None \<Rightarrow> Hang | Some r \<Rightarrow> Done r)"

text \<open>The table, its register, the field of the TSS that is set, and what the processor was given.\<close>

record gdt_state =
  Gdt :: gdt
  GdtrSize :: u16
  GdtrBase :: ptr
  IopbBase :: u16
  loaded_gdt :: "(u16 \<times> ptr) option"
  loaded_tss :: "u16 option"

definition HalpInitializeGdt :: "ptr \<Rightarrow> ptr \<Rightarrow> gdt_state \<Rightarrow> gdt_state" where
  "HalpInitializeGdt GdtAddress Tss s =
     (let s = s\<lparr>GdtrSize := 8 * 8 - 1, GdtrBase := GdtAddress, IopbBase := 104\<rparr>;
          (null, g) = HalpSetGdtEntry (Gdt s) 0 0 0 0 0;
          (code0, g) = HalpSetGdtEntry g 1 0 0xFFFFF 0xA 0x9A;
          (data0, g) = HalpSetGdtEntry g 2 0 0xFFFFF 0xC 0x92;
          (data3, g) = HalpSetGdtEntry g 3 0 0xFFFFF 0xC 0xF2;
          (code3, g) = HalpSetGdtEntry g 4 0 0xFFFFF 0xA 0xFA;
          (tr, g) = HalpSetGdtTssDescriptorEntry g 5 Tss 104
      in s\<lparr>Gdt := g, loaded_gdt := Some (GdtrSize s, GdtrBase s), loaded_tss := Some tr\<rparr>)"

section \<open>The interrupt descriptor table\<close>

record KIDTENTRY64 =
  Offset0to15 :: u16
  Selector :: u16
  Ist :: u8
  GateType :: u8
  Offset16to31 :: u16
  Offset32to63 :: u32
  Zero :: u32

type_synonym idt = "nat \<Rightarrow> KIDTENTRY64"

definition HalBindInterrupt :: "idt \<Rightarrow> nat \<Rightarrow> ptr \<Rightarrow> bool \<Rightarrow> bool \<Rightarrow> KIDTENTRY64 \<times> idt" where
  "HalBindInterrupt Idt EntryNo Handler Usermode Trap =
     (Idt EntryNo, Idt(EntryNo :=
       \<lparr>Offset0to15 = ucast (and Handler 0xFFFF), Selector = 0x8, Ist = 0,
        GateType = or 0x8E (or (if Usermode then 0x60 else 0) (if Trap then 0 else 1)),
        Offset16to31 = ucast (and (drop_bit 16 Handler) 0xFFFF), Offset32to63 = ucast (and (drop_bit 32 Handler) 0xFFFFFFFF), Zero = 0\<rparr>))"

definition HalpGetHandlerFromIdtEntry :: "KIDTENTRY64 \<Rightarrow> ptr" where
  "HalpGetHandlerFromIdtEntry Entry =
     or (or (ucast (Offset0to15 Entry)) (push_bit 16 (ucast (Offset16to31 Entry)))) (push_bit 32 (ucast (Offset32to63 Entry)))"

record idt_state =
  IdtEntries :: idt
  IdtrSize :: u16
  IdtrBase :: ptr
  loaded_idt :: "(u16 \<times> ptr) option"

definition HalpInitializeIdt :: "ptr \<Rightarrow> ptr \<Rightarrow> idt_state \<Rightarrow> idt_state" where
  "HalpInitializeIdt HalpDefInterruptHandler IdtAddress s =
     (let s = s\<lparr>IdtrSize := 16 * 256 - 1, IdtrBase := IdtAddress\<rparr>;
          idt = fold (\<lambda>a idt. snd (HalBindInterrupt idt a HalpDefInterruptHandler False False)) [0..<256] (IdtEntries s)
      in s\<lparr>IdtEntries := idt, loaded_idt := Some (IdtrSize s, IdtrBase s)\<rparr>)"

section \<open>Interrupt stubs\<close>

text \<open>The Handler bytes of an interrupt object. Words are stored with the lowest byte first.\<close>

primrec put_bytes :: "nat \<Rightarrow> nat \<Rightarrow> u64 \<Rightarrow> (nat \<Rightarrow> u8) \<Rightarrow> nat \<Rightarrow> u8" where
  "put_bytes idx 0 w h = h"
| "put_bytes idx (Suc n) w h = put_bytes (Suc idx) n (drop_bit 8 w) (h(idx := ucast w))"

definition HalpInitLegacyInterruptHandlerStub :: "u64 \<Rightarrow> (nat \<Rightarrow> u8) \<Rightarrow> nat \<Rightarrow> u8" where
  "HalpInitLegacyInterruptHandlerStub ProperHandler h =
     (let h = h(0 := 0x68);
          h = put_bytes 1 4 (and ProperHandler 0xFFFFFFFF) h;
          h = put_bytes 5 4 0x042444C7 h;
          h = put_bytes 9 4 (drop_bit 32 ProperHandler) h
      in h(13 := 0xC3))"

definition HalpInitInterruptHandlerStub :: "ptr \<Rightarrow> u64 \<Rightarrow> (nat \<Rightarrow> u8) \<Rightarrow> nat \<Rightarrow> u8" where
  "HalpInitInterruptHandlerStub pInterrupt ProperHandler h =
     (let h = h(0 := 0x50, 1 := 0x48, 2 := 0xB8);
          h = put_bytes 3 8 ProperHandler h;
          h = h(11 := 0x50, 12 := 0x48, 13 := 0xB8);
          h = put_bytes 14 8 pInterrupt h
      in h(22 := 0xC3))"

section \<open>What the stubs do\<close>

text \<open>
  The state of the processor while it runs a stub: the offset in the stub or the address jumped to, the
  register rax, and the words on the stack. push rax (50), mov rax with a 64-bit immediate (48 B8), push with
  a sign-extended 32-bit immediate (68), mov to the doubleword at rsp + 4 (C7 44 24 04) and ret (C3).
\<close>

datatype pc = At nat | Jumped u64

type_synonym stub_state = "pc \<times> u64 \<times> u64 list"

primrec read_bytes :: "(nat \<Rightarrow> u8) \<Rightarrow> nat \<Rightarrow> nat \<Rightarrow> u64" where
  "read_bytes h i 0 = 0"
| "read_bytes h i (Suc n) = or (ucast (h i)) (push_bit 8 (read_bytes h (Suc i) n))"

definition stub_step :: "(nat \<Rightarrow> u8) \<Rightarrow> nat \<Rightarrow> u64 \<Rightarrow> u64 list \<Rightarrow> stub_state option" where
  "stub_step h k rax st =
     (if h k = 0x50 then Some (At (k + 1), rax, rax # st)
      else if h k = 0x48 \<and> h (k + 1) = 0xB8 then Some (At (k + 10), read_bytes h (k + 2) 8, st)
      else if h k = 0x68 then Some (At (k + 5), rax, scast (ucast (read_bytes h (k + 1) 4) :: u32) # st)
      else if h k = 0xC7 \<and> h (k + 1) = 0x44 \<and> h (k + 2) = 0x24 \<and> h (k + 3) = 0x04 then
        (case st of [] \<Rightarrow> None
         | x # xs \<Rightarrow> Some (At (k + 8), rax, or (and x 0xFFFFFFFF) (push_bit 32 (read_bytes h (k + 4) 4)) # xs))
      else if h k = 0xC3 then (case st of [] \<Rightarrow> None | x # xs \<Rightarrow> Some (Jumped x, rax, xs))
      else None)"

primrec run_stub :: "nat \<Rightarrow> (nat \<Rightarrow> u8) \<Rightarrow> stub_state \<Rightarrow> stub_state option" where
  "run_stub 0 h s = Some s"
| "run_stub (Suc n) h s = (case s of
     (Jumped a, _) \<Rightarrow> Some s
   | (At k, rax, st) \<Rightarrow> (case stub_step h k rax st of None \<Rightarrow> None | Some s \<Rightarrow> run_stub n h s))"

lemma put_bytes_other: "j < i \<or> i + n \<le> j \<Longrightarrow> put_bytes i n w h j = h j"
  by (induction n arbitrary: i w h) auto

lemma read_cong: "(\<And>j. i \<le> j \<Longrightarrow> j < i + n \<Longrightarrow> h j = h' j) \<Longrightarrow> read_bytes h i n = read_bytes h' i n"
proof (induction n arbitrary: i)
  case (Suc n)
  have "read_bytes h (Suc i) n = read_bytes h' (Suc i) n" by (rule Suc.IH) (use Suc.prems in simp)
  then show ?case using Suc.prems [of i] by simp
qed simp

lemma read_upd: "j < i \<or> i + n \<le> j \<Longrightarrow> read_bytes (h(j := b)) i n = read_bytes h i n"
  by (rule read_cong) auto

lemma read_put_other: "j + m \<le> i \<or> i + n \<le> j \<Longrightarrow> read_bytes (put_bytes j m w h) i n = read_bytes h i n"
  by (rule read_cong) (auto simp: put_bytes_other)

lemma read_put: "read_bytes (put_bytes i n w h) i n = take_bit (8 * n) w"
proof (induction n arbitrary: i w h)
  case (Suc n)
  have "or (ucast (ucast w :: u8)) (push_bit 8 (take_bit (8 * n) (drop_bit 8 w))) = take_bit (8 + 8 * n) w"
    by (rule bit_word_eqI) (auto simp: bit_simps)
  then show ?case by (simp add: Suc.IH put_bytes_other)
qed simp

lemmas stub_bytes = put_bytes_other read_upd read_put_other read_put

lemma InterruptHandlerStub_bytes:
  fixes p H h
  defines "b \<equiv> HalpInitInterruptHandlerStub p H h"
  shows "b 0 = 0x50" "b 1 = 0x48" "b 2 = 0xB8" "read_bytes b 3 8 = H" "b 11 = 0x50" "b 12 = 0x48" "b 13 = 0xB8"
    "read_bytes b 14 8 = p" "b 22 = 0xC3"
proof -
  have f: "take_bit 64 w = w" for w :: u64 by (rule bit_word_eqI) (auto simp: bit_simps)
  show "b 0 = 0x50" "b 1 = 0x48" "b 2 = 0xB8" "read_bytes b 3 8 = H" "b 11 = 0x50" "b 12 = 0x48" "b 13 = 0xB8"
    "read_bytes b 14 8 = p" "b 22 = 0xC3"
    unfolding b_def HalpInitInterruptHandlerStub_def Let_def
    by (simp_all add: stub_bytes f del: put_bytes.simps read_bytes.simps)
qed

lemma LegacyInterruptHandlerStub_bytes:
  fixes H h
  defines "b \<equiv> HalpInitLegacyInterruptHandlerStub H h"
  shows "b 0 = 0x68" "read_bytes b 1 4 = take_bit 32 H" "b 5 = 0xC7" "b 6 = 0x44" "b 7 = 0x24" "b 8 = 0x04"
    "read_bytes b 9 4 = drop_bit 32 H" "b 13 = 0xC3"
proof -
  have m: "(0xFFFFFFFF :: u64) = mask 32" by (simp add: mask_eq_exp_minus_1)
  have t: "and (take_bit 32 H) 0xFFFFFFFF = take_bit 32 H" unfolding m by (rule bit_word_eqI) (auto simp: bit_simps)
  have d: "take_bit 32 (drop_bit 32 H) = drop_bit 32 H" by (rule bit_word_eqI) (auto simp: bit_simps dest: bit_imp_le_length)
  have four: "(4 :: nat) = Suc (Suc (Suc (Suc 0)))" by simp
  have c: "put_bytes 5 4 0x042444C7 f 5 = 0xC7" "put_bytes 5 4 0x042444C7 f 6 = 0x44" "put_bytes 5 4 0x042444C7 f 7 = 0x24"
    "put_bytes 5 4 0x042444C7 f 8 = 0x04" for f
    unfolding four put_bytes.simps by simp_all
  show "b 0 = 0x68" "read_bytes b 1 4 = take_bit 32 H" "b 5 = 0xC7" "b 6 = 0x44" "b 7 = 0x24" "b 8 = 0x04"
    "read_bytes b 9 4 = drop_bit 32 H" "b 13 = 0xC3"
    unfolding b_def HalpInitLegacyInterruptHandlerStub_def Let_def
    by (simp_all add: stub_bytes c t d del: put_bytes.simps read_bytes.simps)
qed

lemma run_stub_step: "run_stub (Suc n) h (At k, rax, st) = (case stub_step h k rax st of None \<Rightarrow> None | Some s \<Rightarrow> run_stub n h s)"
  by simp

section \<open>Words in pieces\<close>

lemma join_pieces: "or (push_bit a (take_bit b (drop_bit a w))) (push_bit (a + b) (drop_bit (a + b) w)) = push_bit a (drop_bit a (w :: 'a :: len word))"
proof (rule bit_word_eqI)
  fix n assume "n < LENGTH('a)"
  then show "bit (or (push_bit a (take_bit b (drop_bit a w))) (push_bit (a + b) (drop_bit (a + b) w))) n = bit (push_bit a (drop_bit a w)) n"
    by (cases "a + b \<le> n"; cases "a \<le> n") (auto simp: bit_simps)
qed

lemma join_pieces_0: "or (take_bit b w) (push_bit b (drop_bit b w)) = (w :: 'a :: len word)"
  using join_pieces [of 0 b w] by simp

lemma join_from: "a + b = c \<Longrightarrow> or (push_bit a (take_bit b (drop_bit a w))) (push_bit c (drop_bit c w)) = push_bit a (drop_bit a (w :: u64))"
  using join_pieces [of a b w] by simp

lemma pushed_low: "and (scast (ucast (take_bit 32 w :: u64) :: u32)) 0xFFFFFFFF = (take_bit 32 w :: u64)"
proof -
  have m: "(0xFFFFFFFF :: u64) = mask 32" by (simp add: mask_eq_exp_minus_1)
  show ?thesis unfolding m by (rule bit_word_eqI) (auto simp: bit_simps)
qed

lemma word_entry_word: "entry_word (word_entry w) = w"
proof -
  have m: "(0xF :: u8) = mask 4" by (simp add: mask_eq_exp_minus_1)
  have u16: "ucast (ucast v :: u16) = take_bit 16 v" and u8: "ucast (ucast v :: u8) = take_bit 8 v"
    and u4: "ucast (and (ucast v :: u8) 0xF) = take_bit 4 v" for v :: u64
    unfolding m by (rule bit_word_eqI; auto simp: bit_simps)+
  have top: "take_bit 8 (drop_bit 56 w) = drop_bit 56 w" by (rule bit_word_eqI) (auto simp: bit_simps dest: bit_imp_le_length)
  show ?thesis
    unfolding entry_word_def word_entry_def KGDTENTRY64.simps u16 u8 u4 top
    by (simp only: join_from [of 52 4 56] join_from [of 48 4 52] join_from [of 40 8 48] join_from [of 32 8 40] join_from [of 16 16 32]
        join_pieces_0 numeral_plus_numeral semiring_norm)
qed

section \<open>Looking the descriptors up\<close>

lemma idt_pieces:
  "HalpGetHandlerFromIdtEntry \<lparr>Offset0to15 = ucast (and H 0xFFFF), Selector = a, Ist = b, GateType = c,
     Offset16to31 = ucast (and (drop_bit 16 H) 0xFFFF), Offset32to63 = ucast (and (drop_bit 32 H) 0xFFFFFFFF), Zero = d\<rparr> = H"
proof -
  have m: "(0xFFFF :: u64) = mask 16" "(0xFFFFFFFF :: u64) = mask 32" by (simp_all add: mask_eq_exp_minus_1)
  have u: "ucast (ucast (and v 0xFFFF) :: u16) = take_bit 16 v" "ucast (ucast (and v 0xFFFFFFFF) :: u32) = take_bit 32 v" for v :: u64
    unfolding m by (rule bit_word_eqI; auto simp: bit_simps)+
  have top: "take_bit 32 (drop_bit 32 H) = drop_bit 32 H" by (rule bit_word_eqI) (auto simp: bit_simps dest: bit_imp_le_length)
  show ?thesis unfolding HalpGetHandlerFromIdtEntry_def KIDTENTRY64.simps u top or.assoc
    by (simp only: join_from [of 16 16 32] join_pieces_0 numeral_plus_numeral semiring_norm)
qed

lemma base_pieces:
  "or (ucast (ucast (and b 0xFFFF) :: u16)) (or (push_bit 16 (ucast (ucast (drop_bit 16 (and b 0xFF0000)) :: u8)))
     (push_bit 24 (ucast (ucast (drop_bit 24 (and b 0xFF000000)) :: u8)))) = (b :: u32)"
proof -
  have m: "(0xFFFF :: u32) = mask 16" "(0xFF0000 :: u32) = push_bit 16 (mask 8)" "(0xFF000000 :: u32) = push_bit 24 (mask 8)"
    by (simp_all add: mask_eq_exp_minus_1)
  have u: "ucast (ucast (and b 0xFFFF) :: u16) = take_bit 16 b" "ucast (ucast (drop_bit 16 (and b 0xFF0000)) :: u8) = take_bit 8 (drop_bit 16 b)"
    "ucast (ucast (drop_bit 24 (and b 0xFF000000)) :: u8) = take_bit 8 (drop_bit 24 b)"
    unfolding m by (rule bit_word_eqI; auto simp: bit_simps)+
  have top: "take_bit 8 (drop_bit 24 b) = drop_bit 24 b" by (rule bit_word_eqI) (auto simp: bit_simps dest: bit_imp_le_length)
  have j: "or (push_bit 16 (take_bit 8 (drop_bit 16 b))) (push_bit 24 (drop_bit 24 b)) = push_bit 16 (drop_bit 16 b)"
    using join_pieces [of 16 8 b] by simp
  show ?thesis unfolding u top j by (rule join_pieces_0)
qed

lemma tss_base:
  "HalpGetTssBase (snd (HalpSetGdtTssDescriptorEntry g i tss n) (unat i)) (snd (HalpSetGdtTssDescriptorEntry g i tss n) (unat i + 1)) = tss"
proof -
  have m: "(0xFFFFFFFF :: u64) = mask 32" by (simp add: mask_eq_exp_minus_1)
  have lo: "ucast (ucast (and tss 0xFFFFFFFF) :: u32) = take_bit 32 tss" unfolding m by (rule bit_word_eqI) (auto simp: bit_simps)
  have hi: "drop_bit 32 (and tss (not 0xFFFFFFFF)) = drop_bit 32 tss" unfolding m by (rule bit_word_eqI) (auto simp: bit_simps dest: bit_imp_le_length)
  show ?thesis
    unfolding HalpSetGdtTssDescriptorEntry_def HalpSetGdtEntry_def HalpGetTssBase_def HalpGetGdtBase_def Let_def
    by (simp only: prod.case snd_conv fun_upd_apply KGDTENTRY64.simps n_not_Suc_n Suc_n_not_n simp_thms Suc_eq_plus1 [symmetric] if_False if_True
        base_pieces lo hi word_entry_word join_pieces_0)
qed

lemma fold_bind_spec:
  "HalpGetHandlerFromIdtEntry (fold (\<lambda>a idt. snd (HalBindInterrupt idt a H u t)) ns idt k) =
     (if k \<in> set ns then H else HalpGetHandlerFromIdtEntry (idt k))"
  by (induction ns arbitrary: idt) (auto simp: HalBindInterrupt_def idt_pieces)

lemma tables_of_descriptors:
  fixes s :: gdt_state and i :: idt_state and a Tss d b :: u64
  defines "s' \<equiv> HalpInitializeGdt a Tss s" and "i' \<equiv> HalpInitializeIdt d b i"
  shows "HalpGdtFindEntry (Gdt s') 7 code user =
      Done (if code then if user then 0x23 else 0x08 else if user then 0x1B else 0x10) \<and>
    HalpGetTssBase (Gdt s' 5) (Gdt s' 6) = Tss \<and> loaded_gdt s' = Some (63, a) \<and> loaded_tss s' = Some 0x28 \<and>
    list_all (\<lambda>n. HalpGetHandlerFromIdtEntry (IdtEntries i' n) = d) [0..<256] \<and> loaded_idt i' = Some (4095, b) \<and>
    (let e = snd (HalBindInterrupt idt n Handler Usermode Trap) n
     in HalpGetHandlerFromIdtEntry e = Handler \<and> and (GateType e) 0xF = (if Trap then 14 else 15) \<and>
        and (GateType e) 0x60 = (if Usermode then 0x60 else 0) \<and> bit (GateType e) 7)"
proof (intro conjI)
  have g: "Gdt s' 5 = snd (HalpSetGdtTssDescriptorEntry g5 5 Tss 104) (unat (5 :: u16))"
    "Gdt s' 6 = snd (HalpSetGdtTssDescriptorEntry g5 5 Tss 104) (unat (5 :: u16) + 1)" for g5
    by (simp_all add: s'_def HalpInitializeGdt_def HalpSetGdtTssDescriptorEntry_def HalpSetGdtEntry_def Let_def)
  show "HalpGetTssBase (Gdt s' 5) (Gdt s' 6) = Tss" unfolding g [of "Gdt s"] by (rule tss_base)
  show "loaded_gdt s' = Some (63, a)" "loaded_tss s' = Some 0x28"
    by (simp_all add: s'_def HalpInitializeGdt_def HalpSetGdtTssDescriptorEntry_def HalpSetGdtEntry_def Let_def)
  have ab: "AccessByte (Gdt s' 1) = 0x9A" "AccessByte (Gdt s' 2) = 0x92" "AccessByte (Gdt s' 3) = 0xF2" "AccessByte (Gdt s' 4) = 0xFA"
    by (simp_all add: s'_def HalpInitializeGdt_def HalpSetGdtTssDescriptorEntry_def HalpSetGdtEntry_def Let_def)
  show "HalpGdtFindEntry (Gdt s') 7 code user = Done (if code then if user then 0x23 else 0x08 else if user then 0x1B else 0x10)"
  proof -
    have "find_entry_loop (Gdt s') 7 code user 4 = Some 0x23" if "code" "user"
      using that ab by (subst find_entry_loop.simps) (simp add: Let_def)
    then have 3: "find_entry_loop (Gdt s') 7 code user 3 = (if code then Some 0x23 else Some 0x1B)" if "user"
      using that ab by (subst find_entry_loop.simps) (simp add: Let_def)
    then have 2: "find_entry_loop (Gdt s') 7 code user 2 = (if user then if code then Some 0x23 else Some 0x1B else Some 0x10)" if "\<not> (code \<and> \<not> user)"
      using that ab by (subst find_entry_loop.simps) (simp add: Let_def)
    then have "find_entry_loop (Gdt s') 7 code user 1 = Some (if code then if user then 0x23 else 0x08 else if user then 0x1B else 0x10)"
      using ab by (subst find_entry_loop.simps) (simp add: Let_def)
    then show ?thesis by (simp add: HalpGdtFindEntry_def)
  qed
  show "list_all (\<lambda>n. HalpGetHandlerFromIdtEntry (IdtEntries i' n) = d) [0..<256]"
    unfolding i'_def HalpInitializeIdt_def Let_def idt_state.simps list_all_iff by (auto simp: fold_bind_spec simp del: upt_Suc)
  show "loaded_idt i' = Some (4095, b)" by (simp add: i'_def HalpInitializeIdt_def Let_def del: upt_Suc)
  show "let e = snd (HalBindInterrupt idt n Handler Usermode Trap) n
     in HalpGetHandlerFromIdtEntry e = Handler \<and> and (GateType e) 0xF = (if Trap then 14 else 15) \<and>
        and (GateType e) 0x60 = (if Usermode then 0x60 else 0) \<and> bit (GateType e) 7"
    by (simp add: HalBindInterrupt_def idt_pieces Let_def)
qed

lemma InterruptHandlerStub_runs:
  "run_stub 5 (HalpInitInterruptHandlerStub pInterrupt ProperHandler h) (At 0, rax, st) = Some (Jumped ProperHandler, pInterrupt, rax # st)"
proof -
  let ?b = "HalpInitInterruptHandlerStub pInterrupt ProperHandler h"
  note b = InterruptHandlerStub_bytes [of pInterrupt ProperHandler h]
  have "stub_step ?b 0 rax st = Some (At 1, rax, rax # st)" "stub_step ?b 1 rax (rax # st) = Some (At 11, ProperHandler, rax # st)"
    "stub_step ?b 11 ProperHandler (rax # st) = Some (At 12, ProperHandler, ProperHandler # rax # st)"
    "stub_step ?b 12 ProperHandler (ProperHandler # rax # st) = Some (At 22, pInterrupt, ProperHandler # rax # st)"
    "stub_step ?b 22 pInterrupt (ProperHandler # rax # st) = Some (Jumped ProperHandler, pInterrupt, rax # st)"
    using b b(3) [unfolded numeral_2_eq_2] b(4) [unfolded numeral_3_eq_3] by (simp_all add: stub_step_def)
  then have "run_stub (Suc (Suc (Suc (Suc (Suc 0))))) ?b (At 0, rax, st) = Some (Jumped ProperHandler, pInterrupt, rax # st)" by simp
  moreover have "Suc (Suc (Suc (Suc (Suc 0)))) = 5" by simp
  ultimately show ?thesis by (simp only:)
qed

section \<open>Properties\<close>

text \<open>C26: the code written into an interrupt object. The stub of HalpInitInterruptHandlerStub ends at
  the handler with rax pointing at the interrupt object and the old rax on top of the stack; the one of
  HalpInitLegacyInterruptHandlerStub ends at the handler with every register and the stack as they were.
  This holds for every address of handler and object, in either half of the address space, and whatever the
  bytes were before.\<close>

theorem interrupt_stubs_reach_handler:
  "run_stub 5 (HalpInitInterruptHandlerStub pInterrupt ProperHandler h) (At 0, rax, st) = Some (Jumped ProperHandler, pInterrupt, rax # st) \<and>
   run_stub 3 (HalpInitLegacyInterruptHandlerStub ProperHandler h) (At 0, rax, st) = Some (Jumped ProperHandler, rax, st)"
proof
  show "run_stub 5 (HalpInitInterruptHandlerStub pInterrupt ProperHandler h) (At 0, rax, st) = Some (Jumped ProperHandler, pInterrupt, rax # st)"
    by (rule InterruptHandlerStub_runs)
next
  let ?b = "HalpInitLegacyInterruptHandlerStub ProperHandler h"
  note b = LegacyInterruptHandlerStub_bytes [of ProperHandler h]
  let ?x = "scast (ucast (take_bit 32 ProperHandler) :: u32) :: u64"
  have j: "or (and ?x 0xFFFFFFFF) (push_bit 32 (drop_bit 32 ProperHandler)) = ProperHandler"
    unfolding pushed_low by (rule join_pieces_0)
  have "stub_step ?b 0 rax st = Some (At 5, rax, ?x # st)" "stub_step ?b 5 rax (?x # st) = Some (At 13, rax, ProperHandler # st)"
    "stub_step ?b 13 rax (ProperHandler # st) = Some (Jumped ProperHandler, rax, st)"
    using b j by (simp_all add: stub_step_def)
  then have "run_stub (Suc (Suc (Suc 0))) ?b (At 0, rax, st) = Some (Jumped ProperHandler, rax, st)" by simp
  moreover have "Suc (Suc (Suc 0)) = 3" by simp
  ultimately show "run_stub 3 ?b (At 0, rax, st) = Some (Jumped ProperHandler, rax, st)" by (simp only:)
qed

text \<open>C27: descriptor tables. After HalpInitializeGdt the selectors for kernel and user code and data are
  found in the table with the privilege level that belongs to them, the base of the TSS is read back
  from its two entries, and the processor was given the table and the TSS. Every gate of HalpInitializeIdt
  leads to the default handler, and a bound gate to its handler at the privilege asked for; but its type is
  the trap gate (15) when no trap gate was asked for, and the interrupt gate (14) when one was.\<close>

theorem descriptor_tables_spec:
  "let s' = HalpInitializeGdt a Tss s; i' = HalpInitializeIdt d b i; e = snd (HalBindInterrupt idt n Handler Usermode Trap) n in
    HalpGdtFindEntry (Gdt s') 7 code user = Done (if code then if user then 0x23 else 0x08 else if user then 0x1B else 0x10) \<and>
    HalpGetTssBase (Gdt s' 5) (Gdt s' 6) = Tss \<and> loaded_gdt s' = Some (63, a) \<and> loaded_tss s' = Some 0x28 \<and>
    list_all (\<lambda>n. HalpGetHandlerFromIdtEntry (IdtEntries i' n) = d) [0..<256] \<and> loaded_idt i' = Some (4095, b) \<and>
    HalpGetHandlerFromIdtEntry e = Handler \<and> and (GateType e) 0xF = (if Trap then 14 else 15) \<and>
    and (GateType e) 0x60 = (if Usermode then 0x60 else 0) \<and> bit (GateType e) 7"
  using tables_of_descriptors unfolding Let_def .

end
