(* ===== verification/Threads.thy ===== *)
theory Threads
  imports Waits Descriptors
begin

text \<open>
  Threads on a processor: the context switch of the scheduler (PspScheduleThread in NNXOSKRN/scheduler.c)
  with the quantum and the deferred procedure calls it starts (io/dpc.c), calls into user mode and
  the asynchronous procedure calls (io/apc.c), and the entry of interrupts (HAL/X64/interrupt.c). The state is
  that of one processor: the dispatcher state, its PCR and PRCB, and the fields of threads, processes, DPCs and
  APCs these functions use. Saved contexts are words of memory at the offsets of KTASK_STATE.
\<close>

section \<open>State\<close>

text \<open>A KPROCESS has its ProcessLock at offset 32 and its AddressSpace at 56; a KDPC its Entry at 8; a KDPC_DATA
  starts with DpcListHead and has its lock at 16; a KAPC has its ApcListEntry at 16; the heads of a KAPC_STATE are its start.\<close>

definition ProcessLock :: "ptr \<Rightarrow> ptr" where "ProcessLock p = p + 32"
definition AddressSpace :: "ptr \<Rightarrow> ptr" where "AddressSpace p = p + 56"
definition DpcEntry :: "ptr \<Rightarrow> ptr" where "DpcEntry d = d + 8"
definition dpc_of_entry :: "ptr \<Rightarrow> ptr" where "dpc_of_entry e = e - 8"
definition DpcLock :: "ptr \<Rightarrow> ptr" where "DpcLock data = data + 16"
definition ApcListEntry :: "ptr \<Rightarrow> ptr" where "ApcListEntry a = a + 16"
definition ApcListHeads :: "ptr \<Rightarrow> u8 \<Rightarrow> ptr" where "ApcListHeads st mode = st + 16 * ucast mode"

record pstate =
  ks :: kstate
  kclock :: clock
  Number :: u8
  ClockInterrupt :: ptr
  CyclesLeft :: u64
  KiCyclesPerQuantum :: u64
  NextThread :: ptr
  PrcbLock :: KSPIN_LOCK
  DpcData :: ptr
  DpcStack :: u64
  DpcInProgress :: bool
  DpcEnding :: bool
  NestedInterrupts :: u8
  PcrGdt :: gdt
  PspCallDpcAddress :: u64
  PsThreadCleanupDpc :: ptr
  pcr3 :: u64
  umem :: "ptr \<Rightarrow> u64"
  ThreadIrql :: "ptr \<Rightarrow> u8"
  KernelStackPointer :: "ptr \<Rightarrow> ptr"
  SwitchStackPointer :: "ptr \<Rightarrow> ptr"
  LastSwitchStackPointer :: "ptr \<Rightarrow> ptr"
  CustomAddressSpace :: "ptr \<Rightarrow> ptr"
  UserAffinity :: "ptr \<Rightarrow> u64"
  ThreadExitCode :: "ptr \<Rightarrow> u32"
  QuantumReset :: "ptr \<Rightarrow> u64"
  TopStruct :: "ptr \<Rightarrow> u64"
  DpcInserted :: "ptr \<Rightarrow> bool"
  DpcRoutine :: "ptr \<Rightarrow> ptr"
  DpcContext :: "ptr \<Rightarrow> u64"
  DpcArgument1 :: "ptr \<Rightarrow> u64"
  DpcArgument2 :: "ptr \<Rightarrow> u64"
  DpcDataOf :: "ptr \<Rightarrow> ptr"
  DpcQueueDepth :: "ptr \<Rightarrow> u32"
  DpcCount :: "ptr \<Rightarrow> u32"

abbreviation (input) HIGH_IRQL :: u8 where "HIGH_IRQL \<equiv> 15"
abbreviation (input) WORKER_THREAD_TEST_CONDITION :: u32 where "WORKER_THREAD_TEST_CONDITION \<equiv> 0x163"

definition with_ks :: "(kstate \<Rightarrow> kstate outcome) \<Rightarrow> pstate \<Rightarrow> pstate outcome" where
  "with_ks f s = obind (f (ks s)) (\<lambda>k. Done (s\<lparr>ks := k\<rparr>))"

text \<open>PspGetCurrentThread and KeGetCurrentThread.\<close>

definition KeGetCurrentThread :: "pstate \<Rightarrow> ptr" where
  "KeGetCurrentThread s = CurrentThread (ks s)"

definition KeGetCurrentProcess :: "pstate \<Rightarrow> ptr" where
  "KeGetCurrentProcess s = (if KeGetCurrentThread s = NULL then NULL else ThreadProcess (ks s) (KeGetCurrentThread s))"

definition apply_address_space :: "ptr \<Rightarrow> pstate \<Rightarrow> pstate" where
  "apply_address_space a s = s\<lparr>pcr3 := TopStruct s a\<rparr>"

definition KeSetCustomThreadAddressSpace :: "ptr \<Rightarrow> ptr \<Rightarrow> pstate \<Rightarrow> NTSTATUS \<times> pstate" where
  "KeSetCustomThreadAddressSpace pThread pAddressSpace s =
     (let s = s\<lparr>CustomAddressSpace := (CustomAddressSpace s)(pThread := pAddressSpace)\<rparr>
      in (STATUS_SUCCESS, if pThread = KeGetCurrentThread s then apply_address_space pAddressSpace s else s))"

definition KeClearCustomThreadAddressSpace :: "ptr \<Rightarrow> pstate \<Rightarrow> NTSTATUS \<times> pstate" where
  "KeClearCustomThreadAddressSpace pThread s =
     (let s = s\<lparr>CustomAddressSpace := (CustomAddressSpace s)(pThread := NULL)\<rparr>
      in (STATUS_SUCCESS, if pThread = KeGetCurrentThread s then apply_address_space (AddressSpace (ThreadProcess (ks s) pThread)) s else s))"

section \<open>Saved contexts\<close>

text \<open>The offsets in a KTASK_STATE, which has 192 bytes.\<close>

abbreviation (input) oDs :: u64 where "oDs \<equiv> 0"
abbreviation (input) oEs :: u64 where "oEs \<equiv> 8"
abbreviation (input) oGs :: u64 where "oGs \<equiv> 16"
abbreviation (input) oFs :: u64 where "oFs \<equiv> 24"
abbreviation (input) oR15 :: u64 where "oR15 \<equiv> 56"
abbreviation (input) oR14 :: u64 where "oR14 \<equiv> 64"
abbreviation (input) oR9 :: u64 where "oR9 \<equiv> 104"
abbreviation (input) oR8 :: u64 where "oR8 \<equiv> 120"
abbreviation (input) oRdx :: u64 where "oRdx \<equiv> 128"
abbreviation (input) oRcx :: u64 where "oRcx \<equiv> 136"
abbreviation (input) oRip :: u64 where "oRip \<equiv> 152"
abbreviation (input) oCs :: u64 where "oCs \<equiv> 160"
abbreviation (input) oRflags :: u64 where "oRflags \<equiv> 168"
abbreviation (input) oRsp :: u64 where "oRsp \<equiv> 176"
abbreviation (input) oSs :: u64 where "oSs \<equiv> 184"

definition set_mem :: "ptr \<Rightarrow> u64 \<Rightarrow> pstate \<Rightarrow> pstate" where
  "set_mem a v s = s\<lparr>umem := (umem s)(a := v)\<rparr>"

definition KiSetUserMemory :: "ptr \<Rightarrow> u64 \<Rightarrow> pstate \<Rightarrow> bool \<times> pstate" where
  "KiSetUserMemory Address Data s = (True, set_mem Address Data s)"

definition PspSetupThreadState :: "ptr \<Rightarrow> bool \<Rightarrow> u64 \<Rightarrow> u64 \<Rightarrow> pstate \<Rightarrow> pstate outcome" where
  "PspSetupThreadState p IsKernel Entrypoint Userstack s =
     obind (HalpGdtFindEntry (PcrGdt s) 7 True False) (\<lambda>code0.
     obind (HalpGdtFindEntry (PcrGdt s) 7 True True) (\<lambda>code3.
     obind (HalpGdtFindEntry (PcrGdt s) 7 False False) (\<lambda>data0.
     obind (HalpGdtFindEntry (PcrGdt s) 7 False True) (\<lambda>data3.
     let s = fold (\<lambda>i. set_mem (p + 8 * word_of_nat i) 0) [0..<24] s;
         s = set_mem (p + oRip) Entrypoint s;
         code = ucast (if IsKernel then code0 else code3);
         data = ucast (if IsKernel then data0 else data3);
         s = set_mem (p + oCs) code s;
         s = set_mem (p + oDs) data s;
         s = set_mem (p + oEs) data s;
         s = set_mem (p + oFs) data s;
         s = set_mem (p + oGs) data s;
         s = set_mem (p + oSs) data s;
         s = set_mem (p + oRflags) 0x286 s;
         s = set_mem (p + oRsp) Userstack s
     in Done (set_mem (p + oR14) 0xABCDEF s)))))"

section \<open>Calls into user mode\<close>

definition PspSetUsercallParameter :: "ptr \<Rightarrow> u32 \<Rightarrow> u64 \<Rightarrow> pstate \<Rightarrow> NTSTATUS \<times> pstate" where
  "PspSetUsercallParameter pThread ParameterIndex v s =
     (let p = KernelStackPointer s pThread in
      if ParameterIndex = 0 then (STATUS_SUCCESS, set_mem (p + oRcx) v s)
      else if ParameterIndex = 1 then (STATUS_SUCCESS, set_mem (p + oRdx) v s)
      else if ParameterIndex = 2 then (STATUS_SUCCESS, set_mem (p + oR8) v s)
      else if ParameterIndex = 3 then (STATUS_SUCCESS, set_mem (p + oR9) v s)
      else
        let stackLocation = umem s (p + oRsp) + (4 * 8 + 1 * 8) + 8 * ucast (ParameterIndex - 4)
        in (STATUS_INVALID_ADDRESS, snd (KiSetUserMemory stackLocation v s)))"

primrec set_parameters :: "ptr \<Rightarrow> nat \<Rightarrow> u64 list \<Rightarrow> pstate \<Rightarrow> pstate" where
  "set_parameters pThread i [] s = s"
| "set_parameters pThread i (v # vs) s = set_parameters pThread (Suc i) vs (snd (PspSetUsercallParameter pThread (word_of_nat i) v s))"

text \<open>The function that is to be called is an argument the code does not use.\<close>

definition PspUsercall :: "ptr \<Rightarrow> ptr \<Rightarrow> u64 list \<Rightarrow> u64 \<Rightarrow> pstate \<Rightarrow> pstate" where
  "PspUsercall pThread Function Parameters ReturnAddress s =
     (let p = KernelStackPointer s pThread; n = length Parameters;
          s = (if n > 4 then set_mem (p + oRsp) (umem s (p + oRsp) - word_of_nat (n - 4) * 8) s else s);
          s = set_mem (p + oRsp) (umem s (p + oRsp) - 4 * 8) s;
          s = set_mem (p + oRsp) (umem s (p + oRsp) - 8) s;
          s = snd (KiSetUserMemory (umem s (p + oRsp)) ReturnAddress s)
      in set_parameters pThread 0 Parameters s)"

definition PsGetProcessorModeFromTrapFrame :: "ptr \<Rightarrow> pstate \<Rightarrow> u8" where
  "PsGetProcessorModeFromTrapFrame TrapFrame s = (if and (umem s (TrapFrame + oCs)) 3 = 0 then 0 else 1)"

section \<open>Deferred procedure calls\<close>

definition lock_dpc_data :: "ptr \<Rightarrow> pstate \<Rightarrow> pstate outcome" where
  "lock_dpc_data d s = with_ks (\<lambda>k. obind (KiAcquireSpinLock (Locks k (DpcLock d))) (\<lambda>l.
     Done (k\<lparr>Locks := (Locks k)(DpcLock d := l)\<rparr>))) s"

definition unlock_dpc_data :: "ptr \<Rightarrow> pstate \<Rightarrow> pstate" where
  "unlock_dpc_data d s = s\<lparr>ks := (ks s)\<lparr>Locks := (Locks (ks s))(DpcLock d := KiReleaseSpinLock (Locks (ks s) (DpcLock d)))\<rparr>\<rparr>"

definition KeInitializeDpc :: "ptr \<Rightarrow> ptr \<Rightarrow> u64 \<Rightarrow> pstate \<Rightarrow> pstate" where
  "KeInitializeDpc Dpc DeferredRoutine DeferredContext s =
     s\<lparr>DpcRoutine := (DpcRoutine s)(Dpc := DeferredRoutine), DpcContext := (DpcContext s)(Dpc := DeferredContext),
       DpcDataOf := (DpcDataOf s)(Dpc := DpcData s), DpcInserted := (DpcInserted s)(Dpc := False)\<rparr>"

text \<open>The address of the local variable irql is not NULL; 1 stands for it.\<close>

definition KeInsertQueueDpc :: "ptr \<Rightarrow> u64 \<Rightarrow> u64 \<Rightarrow> pstate \<Rightarrow> (bool \<times> pstate) outcome" where
  "KeInsertQueueDpc Dpc SystemArgument1 SystemArgument2 s =
     obind (KeRaiseIrql HIGH_IRQL 1 (kcpu (ks s))) (\<lambda>(old, c).
     let s = s\<lparr>ks := (ks s)\<lparr>kcpu := c\<rparr>\<rparr>; data = DpcDataOf s Dpc in
     obind (lock_dpc_data data s) (\<lambda>s.
     if DpcInserted s Dpc then obind (with_ks (release_lock (DpcLock data) (the old)) s) (\<lambda>s. Done (False, s))
     else
       let s = s\<lparr>DpcArgument1 := (DpcArgument1 s)(Dpc := SystemArgument1), DpcArgument2 := (DpcArgument2 s)(Dpc := SystemArgument2),
             DpcInserted := (DpcInserted s)(Dpc := True),
             ks := (ks s)\<lparr>sheap := InsertTailList data (DpcEntry Dpc) (sheap (ks s))\<rparr>,
             DpcQueueDepth := (DpcQueueDepth s)(data := DpcQueueDepth s data + 1),
             DpcCount := (DpcCount s)(data := DpcCount s data + 1)\<rparr>
       in obind (with_ks (release_lock (DpcLock data) (the old)) s) (\<lambda>s. Done (True, s))))"

text \<open>The first queued DPC gets a context of its own on the DPC stack, in front of the one of the thread.\<close>

definition start_dpc :: "ptr \<Rightarrow> pstate \<Rightarrow> pstate outcome" where
  "start_dpc Thread s =
     (let d = DpcData s;
          s = s\<lparr>DpcInProgress := True, DpcQueueDepth := (DpcQueueDepth s)(d := DpcQueueDepth s d - 1)\<rparr>;
          (entry, h) = RemoveHeadList d (sheap (ks s));
          s = s\<lparr>ks := (ks s)\<lparr>sheap := h\<rparr>\<rparr>;
          dpc = dpc_of_entry entry;
          s = s\<lparr>DpcInserted := (DpcInserted s)(dpc := False)\<rparr>;
          resumeStack = KernelStackPointer s Thread;
          dpcStack = DpcStack s - 32;
          taskState = dpcStack - 192 - 1000
      in obind (PspSetupThreadState taskState True (PspCallDpcAddress s) dpcStack s) (\<lambda>s.
         let s = set_mem (taskState + oR15) 0x1515151515151515 s;
             s = s\<lparr>KernelStackPointer := (KernelStackPointer s)(Thread := taskState)\<rparr>;
             s = snd (PspSetUsercallParameter Thread 0 dpc s)
         in Done (snd (PspSetUsercallParameter Thread 1 resumeStack s))))"

text \<open>The message and ASSERT(FALSE) for more than one nested interrupt are left out; PspScheduleThread has returned
  before in that case.\<close>

definition PspCheckDpcQueue :: "ptr \<Rightarrow> pstate \<Rightarrow> pstate outcome" where
  "PspCheckDpcQueue Thread s =
     (if DpcEnding s then Done (s\<lparr>DpcInProgress := False, DpcEnding := False\<rparr>)
      else if DpcInProgress s then Done s
      else if ThreadIrql s Thread \<ge> DISPATCH_LEVEL then Done s
      else obind (KfRaiseIrql HIGH_IRQL (kcpu (ks s))) (\<lambda>(old, c).
           let s = s\<lparr>ks := (ks s)\<lparr>kcpu := c\<rparr>\<rparr> in
           obind (lock_dpc_data (DpcData s) s) (\<lambda>s.
           obind (if DpcQueueDepth s (DpcData s) = 0 then Done s else start_dpc Thread s) (\<lambda>s.
           let s = unlock_dpc_data (DpcData s) s in
           with_ks (\<lambda>k. obind (KeLowerIrql old (kcpu k)) (\<lambda>c. Done (k\<lparr>kcpu := c\<rparr>))) s))))"

section \<open>The context switch\<close>

definition lock_prcb :: "pstate \<Rightarrow> pstate outcome" where
  "lock_prcb s = obind (KeAcquireSpinLockAtDpcLevel (PrcbLock s) (kcpu (ks s))) (\<lambda>l. Done (s\<lparr>PrcbLock := l\<rparr>))"

definition unlock_prcb :: "pstate \<Rightarrow> pstate outcome" where
  "unlock_prcb s = obind (KeReleaseSpinLockFromDpcLevel (PrcbLock s) (kcpu (ks s))) (\<lambda>l. Done (s\<lparr>PrcbLock := l\<rparr>))"

definition select_next :: "pstate \<Rightarrow> pstate outcome" where
  "select_next s = obind (PspSelectNextReadyThread (Number s) (ks s)) (\<lambda>(t, k). Done (s\<lparr>NextThread := t, ks := k\<rparr>))"

text \<open>The stack of the thread that was interrupted; a DPC that ends asks for its old one.\<close>

definition save_stack :: "ptr \<Rightarrow> u64 \<Rightarrow> pstate \<Rightarrow> pstate" where
  "save_stack t Stack s =
     (let s = s\<lparr>KernelStackPointer := (KernelStackPointer s)(t := Stack)\<rparr> in
      if SwitchStackPointer s t \<noteq> 0
      then s\<lparr>KernelStackPointer := (KernelStackPointer s)(t := SwitchStackPointer s t),
             LastSwitchStackPointer := (LastSwitchStackPointer s)(t := SwitchStackPointer s t),
             SwitchStackPointer := (SwitchStackPointer s)(t := NULL), DpcEnding := True\<rparr>
      else s\<lparr>LastSwitchStackPointer := (LastSwitchStackPointer s)(t := 0)\<rparr>)"

text \<open>The sum of the priorities of a thread without the cut to a UCHAR; ThreadPriority is signed.\<close>

definition full_priority :: "ptr \<Rightarrow> pstate \<Rightarrow> int" where
  "full_priority t s = sint (ThreadPriority (ks s) t) + uint (BasePriority (ks s) (ThreadProcess (ks s) t))"

definition switch_space :: "ptr \<Rightarrow> ptr \<Rightarrow> pstate \<Rightarrow> pstate" where
  "switch_space t n s =
     (if n \<noteq> t
      then if CustomAddressSpace s n \<noteq> NULL then apply_address_space (CustomAddressSpace s n) s
           else if ThreadProcess (ks s) (CurrentThread (ks s)) \<noteq> ThreadProcess (ks s) (NextThread s)
           then apply_address_space (AddressSpace (ThreadProcess (ks s) n)) s else s
      else s)"

definition set_state :: "ptr \<Rightarrow> u8 \<Rightarrow> pstate \<Rightarrow> pstate" where
  "set_state t st s = s\<lparr>ks := (ks s)\<lparr>ThreadState := (ThreadState (ks s))(t := st)\<rparr>\<rparr>"

text \<open>The processor is given to the next thread, and the one after it is selected before the old one is queued again.\<close>

definition switch_thread :: "ptr \<Rightarrow> pstate \<Rightarrow> pstate outcome" where
  "switch_thread t s =
     (let n = NextThread s;
          s = s\<lparr>CyclesLeft := QuantumReset s (ThreadProcess (ks s) n) * KiCyclesPerQuantum s\<rparr>;
          s = set_state n THREAD_STATE_RUNNING (switch_space t n s)
      in obind (select_next s) (\<lambda>s.
         let s = s\<lparr>ks := (ks s)\<lparr>CurrentThread := n\<rparr>\<rparr> in
         if ThreadState (ks s) t = THREAD_STATE_RUNNING
         then obind (with_ks (PspInsertIntoSharedQueue t) s) (\<lambda>s. Done (set_state t THREAD_STATE_READY s))
         else if ThreadState (ks s) t = THREAD_STATE_TERMINATED
         then obind (KeInsertQueueDpc (PsThreadCleanupDpc s) t NULL s) (\<lambda>(_, s). Done s)
         else Done s))"

definition use_quantum :: "ptr \<Rightarrow> u8 \<Rightarrow> pstate \<Rightarrow> pstate outcome" where
  "use_quantum t origRunThrdPriority s =
     (let idle = IdleThread (ks s) (Number s); n = NextThread s; c = CurrentThread (ks s) in
      if CyclesLeft s <s KiCyclesPerQuantum s \<or> ThreadState (ks s) c = THREAD_STATE_TERMINATED
      then if ((n = idle \<and> c \<noteq> idle) \<or> uint origRunThrdPriority > full_priority n s) \<and> ThreadState (ks s) c = THREAD_STATE_RUNNING
           then Done (s\<lparr>CyclesLeft := QuantumReset s (ThreadProcess (ks s) t) * KiCyclesPerQuantum s\<rparr>)
           else switch_thread t s
      else let left = CyclesLeft s - KiCyclesPerQuantum s
           in Done (s\<lparr>CyclesLeft := (if left <s 0 then 0 else left)\<rparr>))"

definition schedule_locked :: "ptr \<Rightarrow> u64 \<Rightarrow> pstate \<Rightarrow> pstate outcome" where
  "schedule_locked t Stack s =
     (let s = save_stack t Stack s;
          s = (if ThreadState (ks s) t \<noteq> THREAD_STATE_RUNNING then s\<lparr>CyclesLeft := 0\<rparr> else s);
          p = ThreadProcess (ks s) t
      in if p = NULL then Bugcheck WORKER_THREAD_TEST_CONDITION
      else
      obind (with_ks (acquire_at_dpc (ProcessLock p)) s) (\<lambda>s.
      let prio = thread_priority (ks s) t in
      obind (if IdleThread (ks s) (Number s) = NextThread s \<or> ThreadState (ks s) (NextThread s) \<noteq> THREAD_STATE_READY
             then select_next s else Done s) (\<lambda>s.
      obind (use_quantum t prio s) (\<lambda>s.
      with_ks (release_from_dpc (ProcessLock p)) s))))"

definition begin_schedule :: "u64 \<Rightarrow> ptr \<Rightarrow> pstate \<Rightarrow> (u8 \<times> pstate) outcome" where
  "begin_schedule rtc InterruptSource s =
     obind (KiAcquireDispatcherLock (ks s)) (\<lambda>(old, k).
     let s = s\<lparr>ks := k\<rparr> in
     obind (if ClockInterrupt s = InterruptSource
            then obind (KiClockTick rtc (unat (Number s)) (kclock s, ks s)) (\<lambda>(c, k). Done (s\<lparr>kclock := c, ks := k\<rparr>))
            else Done s) (\<lambda>s. Done (old, s)))"

text \<open>The ASSERTs on stack pointers and on the address of the processor region are left out.\<close>

definition PspScheduleThread :: "u64 \<Rightarrow> ptr \<Rightarrow> u64 \<Rightarrow> pstate \<Rightarrow> (u64 \<times> pstate) outcome" where
  "PspScheduleThread rtc InterruptSource Stack s =
     obind (begin_schedule rtc InterruptSource s) (\<lambda>(old, s).
     obind (lock_prcb s) (\<lambda>s.
     let t = CurrentThread (ks s) in
     if t = NULL then Bugcheck WORKER_THREAD_TEST_CONDITION
     else if ThreadIrql s t \<ge> DISPATCH_LEVEL \<or> NestedInterrupts s > 1
     then obind (unlock_prcb s) (\<lambda>s. obind (with_ks (KiReleaseDispatcherLock old) s) (\<lambda>s. Done (0, s)))
     else
     obind (schedule_locked t Stack s) (\<lambda>s.
     obind (unlock_prcb s) (\<lambda>s.
     obind (PspCheckDpcQueue (CurrentThread (ks s)) s) (\<lambda>s.
     obind (with_ks (KiReleaseDispatcherLock old) s) (\<lambda>s.
       Done (KernelStackPointer s (CurrentThread (ks s)), s)))))))"

end
