(* ===== verification/ContextSwitch.thy ===== *)
theory ContextSwitch
  imports Threads
begin

text \<open>
  What a context switch does to the state of a processor and to the ready queues: the cases of
  PspScheduleThread over the abstract queues of Scheduler.
\<close>

section \<open>The queue operations keep the rest of the state\<close>

definition queues_changed :: "kstate \<Rightarrow> kstate \<Rightarrow> bool" where
  "queues_changed k k' = (\<exists>h a b. k' = k\<lparr>sheap := h, SharedSummary := a, CoreSummary := b\<rparr>)"

lemma queues_changed_refl [simp]: "queues_changed k k"
proof -
  have "k = k\<lparr>sheap := sheap k, SharedSummary := SharedSummary k, CoreSummary := CoreSummary k\<rparr>" by simp
  then show ?thesis unfolding queues_changed_def by blast
qed

lemma queues_changed_upd [simp]:
  "queues_changed k (k\<lparr>sheap := h\<rparr>)" "queues_changed k (k\<lparr>sheap := h, CoreSummary := b\<rparr>)"
  "queues_changed k (k\<lparr>sheap := h, SharedSummary := a\<rparr>)" "queues_changed k (k\<lparr>sheap := h, CoreSummary := b, SharedSummary := a\<rparr>)"
proof -
  have "k\<lparr>sheap := h\<rparr> = k\<lparr>sheap := h, SharedSummary := SharedSummary k, CoreSummary := CoreSummary k\<rparr>"
    "k\<lparr>sheap := h, CoreSummary := b\<rparr> = k\<lparr>sheap := h, SharedSummary := SharedSummary k, CoreSummary := b\<rparr>"
    "k\<lparr>sheap := h, SharedSummary := a\<rparr> = k\<lparr>sheap := h, SharedSummary := a, CoreSummary := CoreSummary k\<rparr>"
    "k\<lparr>sheap := h, CoreSummary := b, SharedSummary := a\<rparr> = k\<lparr>sheap := h, SharedSummary := a, CoreSummary := b\<rparr>" by simp_all
  then show "queues_changed k (k\<lparr>sheap := h\<rparr>)" "queues_changed k (k\<lparr>sheap := h, CoreSummary := b\<rparr>)"
    "queues_changed k (k\<lparr>sheap := h, SharedSummary := a\<rparr>)" "queues_changed k (k\<lparr>sheap := h, CoreSummary := b, SharedSummary := a\<rparr>)"
    unfolding queues_changed_def by blast+
qed

lemma queues_changed_trans: "queues_changed k k' \<Longrightarrow> queues_changed k' k'' \<Longrightarrow> queues_changed k k''"
  unfolding queues_changed_def by fastforce

lemma queues_changed_keeps:
  assumes "queues_changed k k'"
  shows "kcpu k' = kcpu k" "CurrentThread k' = CurrentThread k" "DispatcherLock k' = DispatcherLock k" "Locks k' = Locks k"
    "ThreadState k' = ThreadState k" "ThreadProcess k' = ThreadProcess k" "ThreadPriority k' = ThreadPriority k"
    "BasePriority k' = BasePriority k" "IdleThread k' = IdleThread k"
  using assms unfolding queues_changed_def by auto

lemma manage_loop_changes: "manage_loop c ps k = Done (r, k') \<Longrightarrow> queues_changed k k'"
  by (induction ps) (auto simp: Let_def split: if_splits option.splits)

lemma select_loop_changes: "select_loop c ps k = (t, k') \<Longrightarrow> queues_changed k k'"
  by (induction ps) (auto simp: Let_def split: if_splits prod.splits)

lemma PspSelectNextReadyThread_changes: "PspSelectNextReadyThread c k = Done (t, k') \<Longrightarrow> queues_changed k k'"
  unfolding PspSelectNextReadyThread_def PspManageSharedReadyQueue_def
  by (auto simp: obind_eq_Done split: if_splits dest: manage_loop_changes select_loop_changes intro: queues_changed_trans)

lemma PspInsertIntoSharedQueue_changes: "PspInsertIntoSharedQueue t k = Done k' \<Longrightarrow> queues_changed k k'"
  by (auto simp: PspInsertIntoSharedQueue_def Let_def split: if_splits)


lemma rq_head_upd [simp]:
  fixes k :: kstate
  shows "rq_head (k\<lparr>Locks := l\<rparr>) = rq_head k" "rq_head (k\<lparr>ThreadState := st\<rparr>) = rq_head k" "rq_head (k\<lparr>CurrentThread := t\<rparr>) = rq_head k"
    "rq_head (k\<lparr>kcpu := cp\<rparr>) = rq_head k" "rq_head (k\<lparr>DispatcherLock := d\<rparr>) = rq_head k"
  by (rule rq_head_cong, simp_all)+

lemma rq_summary_upd [simp]:
  fixes k :: kstate
  shows "rq_summary (k\<lparr>Locks := l\<rparr>) = rq_summary k" "rq_summary (k\<lparr>ThreadState := st\<rparr>) = rq_summary k"
    "rq_summary (k\<lparr>CurrentThread := t\<rparr>) = rq_summary k" "rq_summary (k\<lparr>kcpu := cp\<rparr>) = rq_summary k"
    "rq_summary (k\<lparr>DispatcherLock := d\<rparr>) = rq_summary k"
  by (rule ext, rename_tac w, case_tac w, simp_all)+

lemma sched_ok_upd [simp]:
  fixes k :: kstate
  shows "sched_ok (k\<lparr>Locks := l\<rparr>) R = sched_ok k R" "sched_ok (k\<lparr>ThreadState := st\<rparr>) R = sched_ok k R"
    "sched_ok (k\<lparr>CurrentThread := t\<rparr>) R = sched_ok k R" "sched_ok (k\<lparr>kcpu := cp\<rparr>) R = sched_ok k R"
    "sched_ok (k\<lparr>DispatcherLock := d\<rparr>) R = sched_ok k R"
  by (simp_all add: sched_ok_def)

lemma selection_upd [simp]:
  fixes k :: kstate
  shows "selection (k\<lparr>Locks := l\<rparr>) R c t k' R' = selection k R c t k' R'"
    "selection (k\<lparr>ThreadState := st\<rparr>) R c t k' R' = selection k R c t k' R'"
    "selection (k\<lparr>CurrentThread := u\<rparr>) R c t k' R' = selection k R c t k' R'"
  by (simp_all add: selection_def same_queues_def is_next_def runnable_def [abs_def] can_run_def [abs_def])

lemma same_queues_refl [simp]: "same_queues k k"
  by (simp add: same_queues_def)

lemma same_queues_upd [simp]:
  fixes k :: kstate
  shows "same_queues k0 (k\<lparr>Locks := l\<rparr>) = same_queues k0 k" "same_queues k0 (k\<lparr>ThreadState := st\<rparr>) = same_queues k0 k"
    "same_queues k0 (k\<lparr>CurrentThread := t\<rparr>) = same_queues k0 k"
    "same_queues (k\<lparr>Locks := l\<rparr>) k0 = same_queues k k0" "same_queues (k\<lparr>ThreadState := st\<rparr>) k0 = same_queues k k0"
    "same_queues (k\<lparr>CurrentThread := t\<rparr>) k0 = same_queues k k0"
  by (simp_all add: same_queues_def)

lemma selection_leaves_unqueued:
  assumes "selection k R c n k' R'" "unqueued k R t"
  shows "unqueued k' R' t"
proof -
  have "\<not> queued R t" using assms(2) by (auto simp: unqueued_def queued_def)
  then have "\<not> queued R' t" using assms(1) unfolding selection_def by metis
  then show ?thesis using assms unfolding selection_def same_queues_def unqueued_def queued_def by auto
qed

section \<open>The locks around a context switch\<close>

definition quiet_dpc :: "pstate \<Rightarrow> bool" where
  "quiet_dpc s = (cpu_ok (kcpu (ks s)) \<and> irql (kcpu (ks s)) = SYNCH_LEVEL \<and> \<not> DpcEnding s \<and>
     (DpcInProgress s \<or> DpcQueueDepth s (DpcData s) = 0) \<and> Locks (ks s) (DpcLock (DpcData s)) = 0)"

lemma PspCheckDpcQueue_quiet:
  assumes "quiet_dpc s"
  shows "PspCheckDpcQueue t s = Done s"
proof -
  have i: "irql (kcpu (ks s)) = SYNCH_LEVEL" "cpu_ok (kcpu (ks s))" using assms by (simp_all add: quiet_dpc_def)
  have r: "KfRaiseIrql HIGH_IRQL (kcpu (ks s)) = Done (13, KiApplyIrql 13 15 (kcpu (ks s)))"
    using i by (simp add: KfRaiseIrql_def Let_def)
  have l: "KeLowerIrql 13 (KiApplyIrql 13 15 (kcpu (ks s))) = Done (kcpu (ks s))"
    using raise_then_lower [of "kcpu (ks s)" 15] i by simp
  show ?thesis
  proof (cases "DpcInProgress s \<or> ThreadIrql s t \<ge> DISPATCH_LEVEL")
    case True
    then show ?thesis using assms by (auto simp: PspCheckDpcQueue_def quiet_dpc_def)
  next
    case False
    let ?d = "DpcData s" let ?a = "s\<lparr>ks := (ks s)\<lparr>kcpu := KiApplyIrql 13 15 (kcpu (ks s))\<rparr>\<rparr>"
    have z: "DpcQueueDepth s ?d = 0" "\<not> DpcEnding s" "Locks (ks s) (DpcLock ?d) = 0"
      using assms False by (simp_all add: quiet_dpc_def)
    let ?b = "?a\<lparr>ks := (ks ?a)\<lparr>Locks := (Locks (ks s))(DpcLock ?d := 1)\<rparr>\<rparr>"
    have a: "lock_dpc_data ?d ?a = Done ?b"
      using z(3) by (simp add: lock_dpc_data_def with_ks_def KiAcquireSpinLock_def set_bit_eq_or)
    have b: "unlock_dpc_data ?d ?b = ?a"
      using fun_upd_idem [where f = "Locks (ks s)" and x = "DpcLock ?d", OF z(3)] by (simp add: unlock_dpc_data_def)
    have d: "DpcData ?a = ?d" "DpcData ?b = ?d" "DpcQueueDepth ?b ?d = 0" using z by simp_all
    have e: "with_ks (\<lambda>k. obind (KeLowerIrql 13 (kcpu k)) (\<lambda>c. Done (k\<lparr>kcpu := c\<rparr>))) ?a = Done s"
      using l by (simp add: with_ks_def)
    have "PspCheckDpcQueue t s = obind (lock_dpc_data (DpcData ?a) ?a) (\<lambda>s'.
           obind (if DpcQueueDepth s' (DpcData s') = 0 then Done s' else start_dpc t s') (\<lambda>s'.
           let s' = unlock_dpc_data (DpcData s') s' in
           with_ks (\<lambda>k. obind (KeLowerIrql 13 (kcpu k)) (\<lambda>c. Done (k\<lparr>kcpu := c\<rparr>))) s'))"
      using False z(2) unfolding PspCheckDpcQueue_def r by (simp add: Let_def)
    also have "\<dots> = Done s" unfolding d(1) a obind.simps(1) d(2) d(3) if_P [OF refl] Let_def b e by simp
    finally show ?thesis .
  qed
qed

lemma prcb_locks:
  assumes "irql (kcpu (ks s)) = SYNCH_LEVEL"
  shows "PrcbLock s = 0 \<Longrightarrow> lock_prcb s = Done (s\<lparr>PrcbLock := 1\<rparr>)"
    "unlock_prcb s = Done (s\<lparr>PrcbLock := KiReleaseSpinLock (PrcbLock s)\<rparr>)"
  using assms
  by (simp_all add: lock_prcb_def unlock_prcb_def KeAcquireSpinLockAtDpcLevel_def KeReleaseSpinLockFromDpcLevel_def
      KeGetCurrentIrql_def KiAcquireSpinLock_def set_bit_eq_or)

lemma release_dispatcher:
  assumes "irql (kcpu k) = SYNCH_LEVEL" "old \<le> SYNCH_LEVEL"
  shows "KiReleaseDispatcherLock old k =
    Done (k\<lparr>kcpu := KiApplyIrql SYNCH_LEVEL old (kcpu k), DispatcherLock := KiReleaseSpinLock (DispatcherLock k)\<rparr>)"
  using assms by (simp add: KiReleaseDispatcherLock_def KeReleaseSpinLockFromDpcLevel_def irql_defs not_less)

section \<open>Giving the processor away\<close>

text \<open>The table in use when n has taken the processor from t. The code does not load the table of the process
  of n when t belongs to the same process, also when t ran in an address space of its own.\<close>

definition space_after :: "pstate \<Rightarrow> ptr \<Rightarrow> ptr \<Rightarrow> u64" where
  "space_after s t n =
     (if n = t then pcr3 s
      else if CustomAddressSpace s n \<noteq> NULL then TopStruct s (CustomAddressSpace s n)
      else if ThreadProcess (ks s) t \<noteq> ThreadProcess (ks s) n then TopStruct s (AddressSpace (ThreadProcess (ks s) n))
      else pcr3 s)"

text \<open>The table a thread is meant to run in, and the one case in which a switch leaves that of the old thread in use.\<close>

definition own_space :: "pstate \<Rightarrow> ptr \<Rightarrow> u64" where
  "own_space s t = TopStruct s (if CustomAddressSpace s t \<noteq> NULL then CustomAddressSpace s t else AddressSpace (ThreadProcess (ks s) t))"

definition space_left :: "pstate \<Rightarrow> ptr \<Rightarrow> ptr \<Rightarrow> bool" where
  "space_left s t n = (CustomAddressSpace s t \<noteq> NULL \<and> CustomAddressSpace s n = NULL \<and>
     ThreadProcess (ks s) n = ThreadProcess (ks s) t)"

lemma space_after_own:
  assumes "pcr3 s = own_space s t"
  shows "space_after s t n = own_space s (if space_left s t n then t else n)"
proof (cases "n = t")
  case True
  then show ?thesis using assms by (simp add: space_after_def)
next
  case False
  then show ?thesis using assms
    by (cases "CustomAddressSpace s n = NULL"; cases "ThreadProcess (ks s) t = ThreadProcess (ks s) n")
      (simp_all add: space_after_def own_space_def space_left_def)
qed

text \<open>The thread that ran is ready again, unless it waits.\<close>

definition requeued :: "kstate \<Rightarrow> ptr \<Rightarrow> ptr \<Rightarrow> bool" where
  "requeued k t n = (ThreadState k t = THREAD_STATE_RUNNING \<or> t = n)"

definition states_after :: "kstate \<Rightarrow> ptr \<Rightarrow> ptr \<Rightarrow> ptr \<Rightarrow> u8" where
  "states_after k t n = (if requeued k t n then (ThreadState k)(n := THREAD_STATE_RUNNING, t := THREAD_STATE_READY)
     else (ThreadState k)(n := THREAD_STATE_RUNNING))"

definition queues_after :: "kstate \<Rightarrow> ptr \<Rightarrow> ptr \<Rightarrow> (rq \<Rightarrow> ptr list) \<Rightarrow> rq \<Rightarrow> ptr list" where
  "queues_after k t n R = (if requeued k t n
     then (let p = unat (thread_priority k t) in R((None, p) := R (None, p) @ [t])) else R)"

definition same_rest :: "kstate \<Rightarrow> kstate \<Rightarrow> bool" where
  "same_rest k k' = (kcpu k' = kcpu k \<and> DispatcherLock k' = DispatcherLock k \<and> Locks k' = Locks k)"

lemma same_queues_priority: "same_queues k k' \<Longrightarrow> thread_priority k' t = thread_priority k t"
  by (simp add: same_queues_def thread_priority_def)

lemma switch_thread_spec:
  assumes ok: "sched_ok (ks u) R" and un: "unqueued (ks u) R t" and pr: "thread_priority (ks u) t < 32"
    and c: "CurrentThread (ks u) = t" and st: "ThreadState (ks u) t \<noteq> THREAD_STATE_TERMINATED"
  defines "n \<equiv> NextThread u"
  shows "\<exists>k' m k2 R2. switch_thread t u = Done (u\<lparr>CyclesLeft := QuantumReset u (ThreadProcess (ks u) n) * KiCyclesPerQuantum u,
       pcr3 := space_after u t n, NextThread := m, ks := k'\<rparr>) \<and>
     selection (ks u) R (Number u) m k2 R2 \<and> sched_ok k' (queues_after (ks u) t n R2) \<and>
     CurrentThread k' = n \<and> ThreadState k' = states_after (ks u) t n \<and> same_rest (ks u) k' \<and> same_queues (ks u) k'"
proof -
  let ?k = "ks u" let ?S = "(ThreadState ?k)(n := THREAD_STATE_RUNNING)" let ?k1 = "?k\<lparr>ThreadState := ?S\<rparr>"
  let ?u1 = "u\<lparr>CyclesLeft := QuantumReset u (ThreadProcess (ks u) n) * KiCyclesPerQuantum u, pcr3 := space_after u t n, ks := ?k1\<rparr>"
  have u1: "set_state n THREAD_STATE_RUNNING (switch_space t n
      (u\<lparr>CyclesLeft := QuantumReset u (ThreadProcess (ks u) n) * KiCyclesPerQuantum u\<rparr>)) = ?u1"
    using c by (simp add: set_state_def switch_space_def space_after_def apply_address_space_def n_def)
  obtain m k2 R2 where sel: "PspSelectNextReadyThread (Number u) ?k1 = Done (m, k2)" "selection ?k R (Number u) m k2 R2"
    using PspSelectNextReadyThread_selection [of ?k1 R "Number u"] ok by auto
  note keeps = queues_changed_keeps [OF PspSelectNextReadyThread_changes [OF sel(1)]]
  have ok2: "sched_ok k2 R2" "same_queues ?k k2" "unqueued k2 R2 t"
    using sel(2) selection_leaves_unqueued [OF sel(2) un] by (simp_all add: selection_def)
  let ?k3 = "k2\<lparr>CurrentThread := n\<rparr>"
  have t3: "ThreadState ?k3 t = THREAD_STATE_RUNNING \<longleftrightarrow> requeued ?k t n" "ThreadState ?k3 t \<noteq> THREAD_STATE_TERMINATED"
    using keeps(5) st by (auto simp: requeued_def)
  have sw: "switch_thread t u = (if requeued ?k t n
      then obind (with_ks (PspInsertIntoSharedQueue t) (?u1\<lparr>NextThread := m, ks := ?k3\<rparr>)) (\<lambda>s. Done (set_state t THREAD_STATE_READY s))
      else Done (?u1\<lparr>NextThread := m, ks := ?k3\<rparr>))"
    using t3 sel(1) unfolding switch_thread_def Let_def n_def [symmetric] u1
    by (simp add: select_next_def)
  show ?thesis
  proof (cases "requeued ?k t n")
    case False
    then show ?thesis
      using sw sel(2) ok2 keeps by (auto simp: queues_after_def states_after_def same_rest_def intro!: exI)
  next
    case True
    have pr3: "thread_priority ?k3 t = thread_priority ?k t"
      using same_queues_priority [OF ok2(2)] by (simp add: thread_priority_def)
    have p32: "unat (thread_priority ?k3 t) < 32" using pr unfolding pr3 by (simp add: word_less_nat_alt)
    have "sched_ok ?k3 R2" "unqueued ?k3 R2 t" using ok2 by (simp_all add: unqueued_def)
    from PspInsertIntoSharedQueue_refines [OF this p32] obtain k4 where
      k4: "PspInsertIntoSharedQueue t ?k3 = Done k4" "sched_ok k4 (queues_after ?k t n R2)" "same_queues ?k3 k4"
      unfolding pr3 using True by (auto simp: queues_after_def Let_def)
    note keeps4 = queues_changed_keeps [OF PspInsertIntoSharedQueue_changes [OF k4(1)]]
    have "same_queues ?k k4" using same_queues_trans [OF ok2(2)] k4(3) by simp
    then show ?thesis
      using True sw sel(2) k4 keeps keeps4
      by (auto simp: with_ks_def set_state_def states_after_def same_rest_def intro!: exI)
  qed
qed

text \<open>The thread that may run next: the one that was selected before, if it is still ready, or the selected one.\<close>

definition picked :: "pstate \<Rightarrow> (rq \<Rightarrow> ptr list) \<Rightarrow> ptr \<Rightarrow> (rq \<Rightarrow> ptr list) \<Rightarrow> bool" where
  "picked s R n R1 =
     (if IdleThread (ks s) (Number s) \<noteq> NextThread s \<and> ThreadState (ks s) (NextThread s) = THREAD_STATE_READY
      then n = NextThread s \<and> R1 = R else (\<exists>k1. selection (ks s) R (Number s) n k1 R1))"

lemma pick_next:
  assumes "sched_ok (ks s) R" "unqueued (ks s) R t"
  shows "\<exists>n k1 R1. (if IdleThread (ks s) (Number s) = NextThread s \<or> ThreadState (ks s) (NextThread s) \<noteq> THREAD_STATE_READY
      then select_next s else Done s) = Done (s\<lparr>NextThread := n, ks := k1\<rparr>) \<and> picked s R n R1 \<and>
    queues_changed (ks s) k1 \<and> sched_ok k1 R1 \<and> unqueued k1 R1 t \<and> same_queues (ks s) k1"
proof (cases "IdleThread (ks s) (Number s) = NextThread s \<or> ThreadState (ks s) (NextThread s) \<noteq> THREAD_STATE_READY")
  case True
  obtain n k1 R1 where sel: "PspSelectNextReadyThread (Number s) (ks s) = Done (n, k1)" "selection (ks s) R (Number s) n k1 R1"
    using PspSelectNextReadyThread_selection [OF assms(1)] by blast
  then show ?thesis
    using True PspSelectNextReadyThread_changes [OF sel(1)] selection_leaves_unqueued [OF sel(2) assms(2)]
    by (auto simp: select_next_def picked_def selection_def intro!: exI [of _ n] exI [of _ k1] exI [of _ R1])
next
  case False
  then show ?thesis
    using assms by (auto simp: picked_def intro!: exI [of _ "NextThread s"] exI [of _ "ks s"] exI [of _ R])
qed

text \<open>The thread t runs on the processor, no DPC is to be started, and the locks are free.\<close>

definition on_cpu :: "pstate \<Rightarrow> ptr \<Rightarrow> (rq \<Rightarrow> ptr list) \<Rightarrow> bool" where
  "on_cpu s t R = (CurrentThread (ks s) = t \<and> t \<noteq> NULL \<and> ThreadProcess (ks s) t \<noteq> NULL \<and>
     ThreadState (ks s) t \<noteq> THREAD_STATE_TERMINATED \<and> thread_priority (ks s) t < 32 \<and>
     sched_ok (ks s) R \<and> unqueued (ks s) R t \<and>
     SwitchStackPointer s t = NULL \<and> PrcbLock s = 0 \<and> Locks (ks s) (ProcessLock (ThreadProcess (ks s) t)) = 0 \<and> quiet_dpc s)"

text \<open>What is left of the quantum; a thread that waits has nothing left.\<close>

definition time_left :: "pstate \<Rightarrow> ptr \<Rightarrow> u64" where
  "time_left s t = (if ThreadState (ks s) t = THREAD_STATE_RUNNING then CyclesLeft s else 0)"

text \<open>A thread that can go on is not replaced by the idle thread or by one of a lower priority.\<close>

definition outranks :: "pstate \<Rightarrow> ptr \<Rightarrow> ptr \<Rightarrow> bool" where
  "outranks s t n = (ThreadState (ks s) t = THREAD_STATE_RUNNING \<and>
     (n = IdleThread (ks s) (Number s) \<and> t \<noteq> n \<or> uint (thread_priority (ks s) t) > full_priority n s))"

definition stays :: "pstate \<Rightarrow> ptr \<Rightarrow> ptr \<Rightarrow> (rq \<Rightarrow> ptr list) \<Rightarrow> u64 \<Rightarrow> pstate \<Rightarrow> bool" where
  "stays s t n R1 c s' = (CurrentThread (ks s') = t \<and> NextThread s' = n \<and> CyclesLeft s' = c \<and>
     ThreadState (ks s') = ThreadState (ks s) \<and> pcr3 s' = pcr3 s \<and> sched_ok (ks s') R1)"

definition switched :: "pstate \<Rightarrow> ptr \<Rightarrow> ptr \<Rightarrow> (rq \<Rightarrow> ptr list) \<Rightarrow> pstate \<Rightarrow> bool" where
  "switched s t n R1 s' = (CurrentThread (ks s') = n \<and>
     CyclesLeft s' = QuantumReset s (ThreadProcess (ks s) n) * KiCyclesPerQuantum s \<and>
     ThreadState (ks s') = states_after (ks s) t n \<and> pcr3 s' = space_after s t n \<and>
     (\<exists>k k2 R2. same_queues (ks s) k \<and> selection k R1 (Number s) (NextThread s') k2 R2 \<and>
       sched_ok (ks s') (queues_after (ks s) t n R2)))"

definition quantum_used :: "pstate \<Rightarrow> ptr \<Rightarrow> ptr \<Rightarrow> (rq \<Rightarrow> ptr list) \<Rightarrow> pstate \<Rightarrow> bool" where
  "quantum_used s t n R1 s' =
     (let q = KiCyclesPerQuantum s; c = time_left s t in
      if \<not> c <s q then stays s t n R1 (if c - q <s 0 then 0 else c - q) s'
      else if outranks s t n then stays s t n R1 (QuantumReset s (ThreadProcess (ks s) t) * q) s'
      else switched s t n R1 s')"

text \<open>The fields a context switch does not touch.\<close>

definition frame :: "pstate \<Rightarrow> pstate \<Rightarrow> bool" where
  "frame u u' = (\<exists>c a m k. u' = u\<lparr>CyclesLeft := c, pcr3 := a, NextThread := m, ks := k\<rparr> \<and> same_rest (ks u) k)"

lemma use_quantum_spec:
  assumes ok: "sched_ok (ks u) R" and un: "unqueued (ks u) R t" and pr: "thread_priority (ks u) t < 32"
    and c: "CurrentThread (ks u) = t" and st: "ThreadState (ks u) t \<noteq> THREAD_STATE_TERMINATED"
    and cy: "CyclesLeft u = time_left u t"
  shows "\<exists>u'. use_quantum t (thread_priority (ks u) t) u = Done u' \<and> frame u u' \<and> quantum_used u t (NextThread u) R u'"
proof -
  let ?n = "NextThread u" and ?q = "KiCyclesPerQuantum u"
  have fr: "frame u (u\<lparr>CyclesLeft := x\<rparr>)" for x
    unfolding frame_def by (intro exI [of _ x] exI [of _ "pcr3 u"] exI [of _ ?n] exI [of _ "ks u"]) (simp add: same_rest_def)
  show ?thesis
  proof (cases "CyclesLeft u <s ?q")
    case False
    then have "use_quantum t (thread_priority (ks u) t) u = Done (u\<lparr>CyclesLeft := (if CyclesLeft u - ?q <s 0 then 0 else CyclesLeft u - ?q)\<rparr>)"
      using c st by (simp add: use_quantum_def Let_def)
    then show ?thesis using False fr c ok unfolding quantum_used_def Let_def cy [symmetric]
      by (auto simp: stays_def simp del: word_sless_eq intro!: exI)
  next
    case True
    have o: "outranks u t ?n \<longleftrightarrow> ((?n = IdleThread (ks u) (Number u) \<and> CurrentThread (ks u) \<noteq> IdleThread (ks u) (Number u)) \<or>
        uint (thread_priority (ks u) t) > full_priority ?n u) \<and> ThreadState (ks u) (CurrentThread (ks u)) = THREAD_STATE_RUNNING"
      using c by (auto simp: outranks_def)
    show ?thesis
    proof (cases "outranks u t ?n")
      case ut: True
      then have "use_quantum t (thread_priority (ks u) t) u = Done (u\<lparr>CyclesLeft := QuantumReset u (ThreadProcess (ks u) t) * ?q\<rparr>)"
        using True o unfolding use_quantum_def Let_def by simp
      then show ?thesis using True ut fr c ok unfolding quantum_used_def Let_def cy [symmetric]
        by (auto simp: stays_def intro!: exI)
    next
      case nut: False
      then have uq: "use_quantum t (thread_priority (ks u) t) u = switch_thread t u"
        using True o unfolding use_quantum_def Let_def by (simp only: if_True if_False simp_thms)
      obtain k' m k2 R2 where sw: "switch_thread t u = Done (u\<lparr>CyclesLeft := QuantumReset u (ThreadProcess (ks u) ?n) * ?q,
          pcr3 := space_after u t ?n, NextThread := m, ks := k'\<rparr>)"
        "selection (ks u) R (Number u) m k2 R2" "sched_ok k' (queues_after (ks u) t ?n R2)" "CurrentThread k' = ?n"
        "ThreadState k' = states_after (ks u) t ?n" "same_rest (ks u) k'"
        using switch_thread_spec [OF ok un pr c st] by blast
      have "quantum_used u t ?n R (u\<lparr>CyclesLeft := QuantumReset u (ThreadProcess (ks u) ?n) * ?q,
          pcr3 := space_after u t ?n, NextThread := m, ks := k'\<rparr>)"
      proof -
        have "\<exists>k k2 R2. same_queues (ks u) k \<and> selection k R (Number u) m k2 R2 \<and> sched_ok k' (queues_after (ks u) t ?n R2)"
          using sw(2,3) same_queues_refl by blast
        then show ?thesis
          using True nut sw(4,5) unfolding quantum_used_def Let_def cy [symmetric] by (simp add: switched_def)
      qed
      then show ?thesis using sw(1,6) uq by (auto simp: frame_def)
    qed
  qed
qed

lemma quantum_used_source:
  assumes "quantum_used u t n R u'" "same_queues (ks s) (ks u)" "ThreadState (ks u) = ThreadState (ks s)"
    "time_left u t = time_left s t" "KiCyclesPerQuantum u = KiCyclesPerQuantum s" "QuantumReset u = QuantumReset s"
    "Number u = Number s" "pcr3 u = pcr3 s" "TopStruct u = TopStruct s" "CustomAddressSpace u = CustomAddressSpace s"
  shows "quantum_used s t n R u'"
proof -
  have th: "ThreadProcess (ks u) = ThreadProcess (ks s)" "IdleThread (ks u) = IdleThread (ks s)"
    "ThreadPriority (ks u) = ThreadPriority (ks s)" "BasePriority (ks u) = BasePriority (ks s)"
    using assms(2) by (simp_all add: same_queues_def)
  have pr: "thread_priority (ks u) t = thread_priority (ks s) t" using same_queues_priority [OF assms(2)] by simp
  have 1: "outranks u t n = outranks s t n"
    using th pr assms(3,7) by (simp add: outranks_def full_priority_def)
  have 2: "stays u t n R c u' = stays s t n R c u'" for c using assms(3,8) by (simp add: stays_def)
  have 3: "states_after (ks u) t n = states_after (ks s) t n" "queues_after (ks u) t n = queues_after (ks s) t n"
    using assms(3) unfolding states_after_def queues_after_def [abs_def] requeued_def pr by simp_all
  have 4: "space_after u t n = space_after s t n" using th assms(8-10) by (simp add: space_after_def)
  have 5: "switched u t n R u' \<Longrightarrow> switched s t n R u'"
    using same_queues_trans [OF assms(2)] 3 4 th assms(5-7) unfolding switched_def by auto
  show ?thesis using assms(1) 1 2 5 assms(4-6) th unfolding quantum_used_def Let_def by (auto split: if_splits)
qed

lemma quantum_used_space:
  assumes "quantum_used s t n R s'" "pcr3 s = own_space s t"
  shows "pcr3 s' = own_space s (if space_left s t (CurrentThread (ks s')) then t else CurrentThread (ks s'))"
proof -
  have "pcr3 s' = pcr3 s \<and> CurrentThread (ks s') = t \<or> pcr3 s' = space_after s t n \<and> CurrentThread (ks s') = n"
    using assms(1) by (auto simp: quantum_used_def stays_def switched_def Let_def split: if_splits)
  then show ?thesis using space_after_own [OF assms(2)] assms(2) by auto
qed

lemma quantum_used_result:
  assumes "CurrentThread (ks a) = CurrentThread (ks b)" "ThreadState (ks a) = ThreadState (ks b)" "sched_ok (ks a) = sched_ok (ks b)"
    "NextThread a = NextThread b" "CyclesLeft a = CyclesLeft b" "pcr3 a = pcr3 b"
  shows "quantum_used s t n R a = quantum_used s t n R b"
  unfolding quantum_used_def stays_def switched_def assms ..

lemma schedule_locked_spec:
  assumes on: "on_cpu s t R" and sync: "irql (kcpu (ks s)) = SYNCH_LEVEL"
  shows "\<exists>n R1 s'. picked s R n R1 \<and> schedule_locked t Stack (s\<lparr>PrcbLock := 1\<rparr>) = Done s' \<and> quantum_used s t n R1 s' \<and>
    KernelStackPointer s' = (KernelStackPointer s)(t := Stack) \<and> PrcbLock s' = 1 \<and> same_rest (ks s) (ks s') \<and> quiet_dpc s' \<and>
    ThreadIrql s' = ThreadIrql s \<and> NestedInterrupts s' = NestedInterrupts s"
proof -
  let ?P = "ThreadProcess (ks s) t"
  have h: "CurrentThread (ks s) = t" "?P \<noteq> NULL" "ThreadState (ks s) t \<noteq> THREAD_STATE_TERMINATED" "thread_priority (ks s) t < 32"
    "sched_ok (ks s) R" "unqueued (ks s) R t" "SwitchStackPointer s t = NULL" "Locks (ks s) (ProcessLock ?P) = 0" "quiet_dpc s"
    using on by (auto simp: on_cpu_def)
  let ?l = "ks s\<lparr>Locks := (Locks (ks s))(ProcessLock ?P := 1)\<rparr>"
  define b where "b = s\<lparr>PrcbLock := 1, KernelStackPointer := (KernelStackPointer s)(t := Stack),
    LastSwitchStackPointer := (LastSwitchStackPointer s)(t := 0), CyclesLeft := time_left s t\<rparr>"
  have b: "(if ThreadState (ks (save_stack t Stack (s\<lparr>PrcbLock := 1\<rparr>))) t \<noteq> THREAD_STATE_RUNNING
      then (save_stack t Stack (s\<lparr>PrcbLock := 1\<rparr>))\<lparr>CyclesLeft := 0\<rparr> else save_stack t Stack (s\<lparr>PrcbLock := 1\<rparr>)) = b"
    using h(7) by (simp add: save_stack_def time_left_def b_def)
  have bs: "ks b = ks s" "NextThread b = NextThread s" "Number b = Number s" by (simp_all add: b_def)
  have acq: "with_ks (acquire_at_dpc (ProcessLock ?P)) b = Done (b\<lparr>ks := ?l\<rparr>)"
    using acquire_free [OF h(8)] sync bs by (simp add: with_ks_def)
  have "sched_ok (ks (b\<lparr>ks := ?l\<rparr>)) R" "unqueued (ks (b\<lparr>ks := ?l\<rparr>)) R t" using h(5,6) by (simp_all add: unqueued_def)
  from pick_next [OF this] obtain n k1 R1 where
    pk: "(if IdleThread (ks (b\<lparr>ks := ?l\<rparr>)) (Number (b\<lparr>ks := ?l\<rparr>)) = NextThread (b\<lparr>ks := ?l\<rparr>) \<or>
          ThreadState (ks (b\<lparr>ks := ?l\<rparr>)) (NextThread (b\<lparr>ks := ?l\<rparr>)) \<noteq> THREAD_STATE_READY
        then select_next (b\<lparr>ks := ?l\<rparr>) else Done (b\<lparr>ks := ?l\<rparr>)) = Done (b\<lparr>ks := ?l, NextThread := n, ks := k1\<rparr>)"
    and n: "picked (b\<lparr>ks := ?l\<rparr>) R n R1" and k1: "queues_changed ?l k1" "sched_ok k1 R1" "unqueued k1 R1 t" "same_queues ?l k1"
    by auto
  have pick: "picked s R n R1" using n bs by (simp add: picked_def cong: if_cong)
  note keeps = queues_changed_keeps [OF k1(1)]
  define u where "u = b\<lparr>ks := ?l, NextThread := n, ks := k1\<rparr>"
  have us: "ks u = k1" "NextThread u = n" "CyclesLeft u = time_left s t" "DpcData u = DpcData s" by (simp_all add: u_def b_def)
  have tl: "time_left u t = time_left s t" using keeps(5) us by (simp add: time_left_def)
  have sq: "same_queues (ks s) (ks u)" using k1(4) us by simp
  have prio: "thread_priority (ks u) t = thread_priority (ks s) t" using same_queues_priority [OF sq] .
  have "CyclesLeft u = time_left u t" using us tl by simp
  from use_quantum_spec [OF _ _ _ _ _ this, of R1] obtain u' where
    u': "use_quantum t (thread_priority (ks u) t) u = Done u'" "frame u u'" "quantum_used u t n R1 u'"
    unfolding prio using h keeps k1 us by auto
  have q: "quantum_used s t n R1 u'"
    by (rule quantum_used_source [OF u'(3) sq _ tl]) (use keeps(5) us in \<open>simp_all add: u_def b_def\<close>)
  obtain k' where k': "ks u' = k'" "same_rest k1 k'" "KernelStackPointer u' = (KernelStackPointer s)(t := Stack)" "PrcbLock u' = 1"
    "ThreadIrql u' = ThreadIrql s" "NestedInterrupts u' = NestedInterrupts s" "DpcEnding u' = DpcEnding s" "DpcInProgress u' = DpcInProgress s" "DpcQueueDepth u' = DpcQueueDepth s" "DpcData u' = DpcData s"
    using u'(2) us by (auto simp: frame_def u_def b_def)
  have lk: "Locks k' = (Locks (ks s))(ProcessLock ?P := 1)" "kcpu k' = kcpu (ks s)" "DispatcherLock k' = DispatcherLock (ks s)"
    using k'(2) keeps by (simp_all add: same_rest_def)
  let ?s' = "u'\<lparr>ks := k'\<lparr>Locks := Locks (ks s)\<rparr>\<rparr>"
  have "with_ks (release_from_dpc (ProcessLock ?P)) u' = Done ?s'"
    using release_dpc [of k' "ProcessLock ?P"] sync lk h(8) k'(1)
      fun_upd_idem [where f = "Locks (ks s)" and x = "ProcessLock ?P", OF h(8)] by (simp add: with_ks_def)
  moreover have "schedule_locked t Stack (s\<lparr>PrcbLock := 1\<rparr>) =
      obind (use_quantum t (thread_priority (ks (b\<lparr>ks := ?l\<rparr>)) t) u) (with_ks (release_from_dpc (ProcessLock ?P)))"
    unfolding schedule_locked_def Let_def b bs if_not_P [OF h(2)] acq obind.simps(1) pk u_def by simp
  moreover have "thread_priority (ks (b\<lparr>ks := ?l\<rparr>)) t = thread_priority (ks u) t"
    unfolding prio by (simp add: thread_priority_def)
  ultimately have run: "schedule_locked t Stack (s\<lparr>PrcbLock := 1\<rparr>) = Done ?s'" using u'(1) by simp
  have "quantum_used s t n R1 ?s'"
    using q quantum_used_result [of ?s' u'] k'(1) by (simp add: fun_eq_iff)
  moreover have "same_rest (ks s) (ks ?s')" using lk by (simp add: same_rest_def)
  moreover have "quiet_dpc ?s'" using h(9) k' lk by (simp add: quiet_dpc_def)
  ultimately show ?thesis using pick run k'(3-6) by (intro exI [of _ n] exI [of _ R1] exI [of _ ?s']) simp
qed

section \<open>Property\<close>

text \<open>A thread above APC_LEVEL, or a second interrupt, is not interrupted by the scheduler.\<close>

definition not_preemptible :: "pstate \<Rightarrow> ptr \<Rightarrow> bool" where
  "not_preemptible s t = (ThreadIrql s t \<ge> DISPATCH_LEVEL \<or> NestedInterrupts s > 1)"

lemma begin_schedule_old:
  assumes "begin_schedule rtc src s0 = Done (old, s)"
  shows "old \<le> SYNCH_LEVEL" "old = irql (kcpu (ks s0))" "\<exists>c k. s = s0\<lparr>kclock := c, ks := k\<rparr>"
proof -
  show "old \<le> SYNCH_LEVEL" "old = irql (kcpu (ks s0))"
    using assms by (auto simp: begin_schedule_def KiAcquireDispatcherLock_def KfRaiseIrql_def Let_def obind_eq_Done split: if_splits)
  have "\<exists>c k. s0\<lparr>ks := k1\<rparr> = s0\<lparr>kclock := c, ks := k\<rparr>" for k1
    by (intro exI [of _ "kclock s0"] exI [of _ k1]) simp
  then show "\<exists>c k. s = s0\<lparr>kclock := c, ks := k\<rparr>"
    using assms by (auto simp: begin_schedule_def Let_def obind_eq_Done split: if_splits)
qed

lemma PspScheduleThread_result:
  assumes start: "begin_schedule rtc src s0 = Done (old, s)" and on: "on_cpu s t R"
  shows "\<exists>s'. PspScheduleThread rtc src Stack s0 =
      Done (if not_preemptible s t then 0 else KernelStackPointer s' (CurrentThread (ks s')), s') \<and>
    Locks (ks s') = Locks (ks s) \<and> PrcbLock s' = 0 \<and> DispatcherLock (ks s') = KiReleaseSpinLock (DispatcherLock (ks s)) \<and>
    kcpu (ks s') = KiApplyIrql SYNCH_LEVEL old (kcpu (ks s)) \<and> ThreadIrql s' = ThreadIrql s \<and> NestedInterrupts s' = NestedInterrupts s \<and>
    (if not_preemptible s t then s' = s\<lparr>ks := ks s'\<rparr> \<and> ThreadState (ks s') = ThreadState (ks s) \<and> CurrentThread (ks s') = t
     else KernelStackPointer s' = (KernelStackPointer s)(t := Stack) \<and>
       (\<exists>n R1. picked s R n R1 \<and> quantum_used s t n R1 s'))"
proof -
  let ?rel = "\<lambda>k. k\<lparr>kcpu := KiApplyIrql SYNCH_LEVEL old (kcpu k), DispatcherLock := KiReleaseSpinLock (DispatcherLock k)\<rparr>"
  have old: "old \<le> SYNCH_LEVEL" by (rule begin_schedule_old(1) [OF start])
  have h: "CurrentThread (ks s) = t" "t \<noteq> NULL" "PrcbLock s = 0" "irql (kcpu (ks s)) = SYNCH_LEVEL"
    using on by (auto simp: on_cpu_def quiet_dpc_def)
  have pl: "s\<lparr>PrcbLock := 0\<rparr> = s" using h(3) by simp
  show ?thesis
  proof (cases "not_preemptible s t")
    case True
    have "PspScheduleThread rtc src Stack s0 = Done (0, s\<lparr>ks := ?rel (ks s)\<rparr>)"
      using start h True prcb_locks [of s] prcb_locks [of "s\<lparr>PrcbLock := 1\<rparr>"] release_dispatcher [OF h(4) old] pl
      by (simp add: PspScheduleThread_def Let_def not_preemptible_def with_ks_def)
    then show ?thesis using True h by auto
  next
    case False
    obtain n R1 u where pk: "picked s R n R1" and u: "schedule_locked t Stack (s\<lparr>PrcbLock := 1\<rparr>) = Done u"
      "quantum_used s t n R1 u" "KernelStackPointer u = (KernelStackPointer s)(t := Stack)" "PrcbLock u = 1"
      "same_rest (ks s) (ks u)" "quiet_dpc u" "ThreadIrql u = ThreadIrql s" "NestedInterrupts u = NestedInterrupts s"
      using schedule_locked_spec [OF on h(4), of Stack] by blast
    let ?u = "u\<lparr>PrcbLock := 0\<rparr>" let ?s' = "?u\<lparr>ks := ?rel (ks u)\<rparr>"
    have iu: "irql (kcpu (ks u)) = SYNCH_LEVEL" and qu: "quiet_dpc ?u" using u(6) by (simp_all add: quiet_dpc_def)
    have "unlock_prcb u = Done ?u" using prcb_locks(2) [OF iu] u(4) by simp
    moreover have "with_ks (KiReleaseDispatcherLock old) ?u = Done ?s'" using release_dispatcher [OF iu old] by (simp add: with_ks_def)
    ultimately have run: "PspScheduleThread rtc src Stack s0 = Done (KernelStackPointer ?s' (CurrentThread (ks ?s')), ?s')"
      using start h False u(1) prcb_locks(1) [OF h(4,3)] PspCheckDpcQueue_quiet [OF qu]
      by (simp add: PspScheduleThread_def Let_def not_preemptible_def)
    have "quantum_used s t n R1 ?s'" using u(2) quantum_used_result [of ?s' u] by (simp add: fun_eq_iff)
    then show ?thesis using run False pk u(3,5,7,8) unfolding same_rest_def
      by (intro exI [of _ ?s']) auto
  qed
qed

text \<open>C36: what an interrupt of the clock, or the request of a thread, does to the processor, for a thread that has not
  terminated and has no stack to switch to, on a processor with no DPC that is waiting to start or that ends (on_cpu): the
  clean-up of a terminated thread and the start of a DPC are not part of this property. Above APC_LEVEL and in a
  nested interrupt nothing is scheduled and NULL is returned. Otherwise the stack of the interrupted thread is saved and a
  next thread is picked, the one selected before if it is still ready, else the first of the highest priority. A thread with
  time left only loses a quantum; a running thread that outranks the picked one gets a new quantum; in every other case the picked
  thread runs with the quantum of its process, a thread that was running is ready and last in the
  shared queue of its priority, a waiting one is not queued, and the thread after that is selected before. The locks
  are free again, the IRQL is the old one, and the returned stack is that of the thread that runs now. If the thread ran in its
  own address space (its custom one, else that of its process), the thread that runs now is in its own too, with one exception
  (space_left): when the old thread has a custom address space and the new one has none and belongs to the same process, the
  code leaves the custom address space of the old thread in use.\<close>

theorem PspScheduleThread_spec:
  assumes start: "begin_schedule rtc src s0 = Done (old, s)" and on: "on_cpu s t R"
  shows "\<exists>s'. PspScheduleThread rtc src Stack s0 =
      Done (if not_preemptible s t then 0 else KernelStackPointer s' (CurrentThread (ks s')), s') \<and>
    Locks (ks s') = Locks (ks s) \<and> PrcbLock s' = 0 \<and> DispatcherLock (ks s') = KiReleaseSpinLock (DispatcherLock (ks s)) \<and>
    kcpu (ks s') = KiApplyIrql SYNCH_LEVEL old (kcpu (ks s)) \<and> ThreadIrql s' = ThreadIrql s \<and> NestedInterrupts s' = NestedInterrupts s \<and>
    (if not_preemptible s t then s' = s\<lparr>ks := ks s'\<rparr> \<and> ThreadState (ks s') = ThreadState (ks s) \<and> CurrentThread (ks s') = t
     else KernelStackPointer s' = (KernelStackPointer s)(t := Stack) \<and>
       (\<exists>n R1. picked s R n R1 \<and> quantum_used s t n R1 s')) \<and>
    (pcr3 s = own_space s t \<longrightarrow>
      pcr3 s' = own_space s (if space_left s t (CurrentThread (ks s')) then t else CurrentThread (ks s')))"
proof -
  obtain s' where s': "PspScheduleThread rtc src Stack s0 =
      Done (if not_preemptible s t then 0 else KernelStackPointer s' (CurrentThread (ks s')), s')"
    "Locks (ks s') = Locks (ks s)" "PrcbLock s' = 0" "DispatcherLock (ks s') = KiReleaseSpinLock (DispatcherLock (ks s))"
    "kcpu (ks s') = KiApplyIrql SYNCH_LEVEL old (kcpu (ks s))" "ThreadIrql s' = ThreadIrql s" "NestedInterrupts s' = NestedInterrupts s"
    and res: "if not_preemptible s t then s' = s\<lparr>ks := ks s'\<rparr> \<and> ThreadState (ks s') = ThreadState (ks s) \<and> CurrentThread (ks s') = t
     else KernelStackPointer s' = (KernelStackPointer s)(t := Stack) \<and>
       (\<exists>n R1. picked s R n R1 \<and> quantum_used s t n R1 s')"
    using PspScheduleThread_result [OF assms] by blast
  have "pcr3 s' = own_space s (if space_left s t (CurrentThread (ks s')) then t else CurrentThread (ks s'))" if p: "pcr3 s = own_space s t"
  proof (cases "not_preemptible s t")
    case True
    then have "s' = s\<lparr>ks := ks s'\<rparr>" "CurrentThread (ks s') = t" using res by simp_all
    moreover have "pcr3 (s\<lparr>ks := ks s'\<rparr>) = pcr3 s" by simp
    ultimately have "pcr3 s' = pcr3 s" "CurrentThread (ks s') = t" by (metis, metis)
    then show ?thesis using p by simp
  next
    case False
    then show ?thesis using res quantum_used_space [OF _ p] by auto
  qed
  then show ?thesis using s' res by blast
qed

text \<open>Thread 0x2000 runs and has used its quantum; thread 0x3000 of the same priority was selected before.\<close>

definition two_threads :: pstate where
  "two_threads = \<lparr>ks = (quiet_kstate 0)\<lparr>ThreadState := (\<lambda>_. THREAD_STATE_RUNNING)(0x3000 := THREAD_STATE_READY)\<rparr>,
     kclock = timed_clock, Number = 0, ClockInterrupt = 1, CyclesLeft = 0, KiCyclesPerQuantum = 10, NextThread = 0x3000,
     PrcbLock = 0, DpcData = 0x60000, DpcStack = 0x70000, DpcInProgress = False, DpcEnding = False, NestedInterrupts = 1,
     PcrGdt = (\<lambda>_. word_entry 0),
     PspCallDpcAddress = 0x80000, PsThreadCleanupDpc = 0x90000, pcr3 = 0x1000, umem = (\<lambda>_. 0), ThreadIrql = (\<lambda>_. 0),
     KernelStackPointer = (\<lambda>_. 0x7000), SwitchStackPointer = (\<lambda>_. 0), LastSwitchStackPointer = (\<lambda>_. 0),
     CustomAddressSpace = (\<lambda>_. 0), UserAffinity = (\<lambda>_. 0), ThreadExitCode = (\<lambda>_. 0), QuantumReset = (\<lambda>_. 6), TopStruct = (\<lambda>_. 0x1000),
     DpcInserted = (\<lambda>_. False), DpcRoutine = (\<lambda>_. 0), DpcContext = (\<lambda>_. 0), DpcArgument1 = (\<lambda>_. 0), DpcArgument2 = (\<lambda>_. 0),
     DpcDataOf = (\<lambda>_. 0), DpcQueueDepth = (\<lambda>_. 0), DpcCount = (\<lambda>_. 0)\<rparr>"

definition two_locked :: pstate where
  "two_locked = two_threads\<lparr>ks := (ks two_threads)\<lparr>kcpu := \<lparr>irql = 13, tpr = 13\<rparr>, DispatcherLock := 1\<rparr>\<rparr>"

lemma two_begin: "begin_schedule 0 5 two_threads = Done (0, two_locked)"
  by (simp add: begin_schedule_def two_locked_def two_threads_def KiAcquireDispatcherLock_def quiet_kstate_def irql_defs
      KeAcquireSpinLockAtDpcLevel_def KiAcquireSpinLock_def set_bit_eq_or)

lemma two_heads: "rq_head (ks two_locked) = rq_head idle_sched"
  by (rule ext, rename_tac k, case_tac "(idle_sched, k)" rule: rq_head.cases)
    (simp_all add: two_locked_def two_threads_def quiet_kstate_def)

lemma two_on_cpu: "on_cpu two_locked 0x2000 (\<lambda>_. [])"
proof -
  have "family is_list (sheap (ks two_locked)) rqs (rq_head (ks two_locked)) (rq_entries (\<lambda>_. []))"
    unfolding two_heads using sched_ok_family [OF idle_sched_ok] by (simp add: two_locked_def two_threads_def quiet_kstate_def)
  moreover have "\<not> bit (rq_summary (ks two_locked) w) p" for w p
    by (cases w) (simp_all add: two_locked_def two_threads_def quiet_kstate_def)
  ultimately have ok: "sched_ok (ks two_locked) (\<lambda>_. [])" by (simp add: sched_ok_def)
  have "ReadyQueueEntry 0x2000 \<noteq> rq_head idle_sched (w, p)" if "p < 32" for w p
    by (rule not_idle_head [OF _ that]) (simp add: ReadyQueueEntry_def)
  then have "unqueued (ks two_locked) (\<lambda>_. []) 0x2000" by (auto simp: unqueued_def two_heads rqs_def)
  then show ?thesis using ok
    by (simp add: on_cpu_def quiet_dpc_def two_locked_def two_threads_def quiet_kstate_def thread_priority_def cpu_ok_def)
qed

text \<open>The same threads, when 0x2000 runs in an address space of its own: thread 0x3000 goes on in it.\<close>

definition with_custom :: "pstate \<Rightarrow> pstate" where
  "with_custom s = s\<lparr>CustomAddressSpace := (\<lambda>_. 0)(0x2000 := 0x55000), TopStruct := (\<lambda>_. 0x1000)(0x55000 := 0x8000), pcr3 := 0x8000\<rparr>"

definition custom_threads :: pstate where
  "custom_threads = with_custom two_threads"

definition custom_locked :: pstate where
  "custom_locked = with_custom two_locked"

lemma custom_begin: "begin_schedule 0 5 custom_threads = Done (0, custom_locked)"
  by (simp add: begin_schedule_def custom_threads_def custom_locked_def with_custom_def two_locked_def two_threads_def
      KiAcquireDispatcherLock_def quiet_kstate_def irql_defs KeAcquireSpinLockAtDpcLevel_def KiAcquireSpinLock_def set_bit_eq_or)

lemma custom_on_cpu: "on_cpu custom_locked 0x2000 (\<lambda>_. [])"
  using two_on_cpu by (simp add: on_cpu_def quiet_dpc_def custom_locked_def with_custom_def)

lemma custom_space:
  "pcr3 custom_locked = own_space custom_locked 0x2000" "space_left custom_locked 0x2000 0x3000"
  "own_space custom_locked 0x2000 = 0x8000" "own_space custom_threads 0x3000 = 0x1000"
  by (simp_all add: custom_locked_def custom_threads_def with_custom_def own_space_def space_left_def two_locked_def two_threads_def
      quiet_kstate_def AddressSpace_def)

theorem PspScheduleThread_spec_witness:
  "\<exists>s'. PspScheduleThread 0 5 0x9000 custom_threads = Done (0x7000, s') \<and> CurrentThread (ks s') = 0x3000 \<and>
     ThreadState (ks s') 0x3000 = THREAD_STATE_RUNNING \<and> ThreadState (ks s') 0x2000 = THREAD_STATE_READY \<and>
     sched_ok (ks s') ((\<lambda>_. [])((None, 7) := [0x2000])) \<and>
     pcr3 s' = 0x8000 \<and> own_space custom_threads 0x3000 = 0x1000"
proof -
  let ?s = custom_locked
  have f: "\<not> not_preemptible ?s 0x2000" "time_left ?s 0x2000 <s KiCyclesPerQuantum ?s" "\<not> outranks ?s 0x2000 0x3000"
    "thread_priority (ks ?s) 0x2000 = 7" "IdleThread (ks ?s) (Number ?s) \<noteq> NextThread ?s"
    "ThreadState (ks ?s) (NextThread ?s) = THREAD_STATE_READY" "NextThread ?s = 0x3000" "KernelStackPointer ?s 0x3000 = 0x7000"
    "requeued (ks ?s) 0x2000 0x3000"
    by (simp_all add: custom_locked_def with_custom_def two_locked_def two_threads_def quiet_kstate_def not_preemptible_def time_left_def word_sless_alt
        outranks_def full_priority_def thread_priority_def requeued_def)
  from PspScheduleThread_spec [OF custom_begin custom_on_cpu, of "0x9000"] f(1) custom_space(1) obtain s' n R1 where
    run: "PspScheduleThread 0 5 0x9000 custom_threads = Done (KernelStackPointer s' (CurrentThread (ks s')), s')"
      "KernelStackPointer s' = (KernelStackPointer ?s)(0x2000 := 0x9000)"
    and p: "picked ?s (\<lambda>_. []) n R1" and q: "quantum_used ?s 0x2000 n R1 s'"
    and a: "pcr3 s' = own_space ?s (if space_left ?s 0x2000 (CurrentThread (ks s')) then 0x2000 else CurrentThread (ks s'))" by auto
  have n: "n = 0x3000" "R1 = (\<lambda>_. [])" using p f(5-7) by (auto simp: picked_def split: if_splits)
  have sw: "switched ?s 0x2000 0x3000 (\<lambda>_. []) s'" using q f(2,3) unfolding n quantum_used_def Let_def by simp
  then obtain R2 where R2: "CurrentThread (ks s') = 0x3000" "ThreadState (ks s') = states_after (ks ?s) 0x2000 0x3000"
    "\<exists>(k :: kstate) k2. selection k (\<lambda>_. []) (Number ?s) (NextThread s') k2 R2" "sched_ok (ks s') (queues_after (ks ?s) 0x2000 0x3000 R2)"
    unfolding switched_def by blast
  have "R2 = (\<lambda>_. [])" using R2(3) by (auto simp: selection_def queued_def)
  then have "queues_after (ks ?s) 0x2000 0x3000 R2 = (\<lambda>_. [])((None, 7) := [0x2000])"
    using f(4,9) by (simp add: queues_after_def Let_def)
  then show ?thesis using run R2 f(8,9) a custom_space by (simp add: states_after_def)
qed

end
