(* ===== verification/Interrupts.thy ===== *)
theory Interrupts
  imports ContextSwitch
begin

text \<open>
  Interrupt objects and the entry of interrupts (NNXOSKRN/HAL/X64/interrupt.c, with the dispatch of IrqHandler in
  HAL/X64/IDT.asm), and asynchronous procedure calls (NNXOSKRN/io/apc.c). The service routines of
  drivers and the kernel routines of APCs are arguments; the only routine that gets the whole context of the
  interrupted thread is PspScheduleThread. Taking an interrupt pushes its frame before these functions run.
\<close>

section \<open>State\<close>

datatype full_routine = NoRoutine | ScheduleThread

record istate =
  ps :: pstate
  idt_entries :: idt
  InterruptListHead :: ptr
  HasInterrupts :: bool
  Eois :: nat
  Ipis :: "(u8 \<times> u8) list"
  InterruptLock :: "ptr \<Rightarrow> KSPIN_LOCK"
  InterruptIrql :: "ptr \<Rightarrow> u8"
  Handler :: "ptr \<Rightarrow> nat \<Rightarrow> u8"
  Vector :: "ptr \<Rightarrow> u8"
  Connected :: "ptr \<Rightarrow> bool"
  CpuNumber :: "ptr \<Rightarrow> u32"
  ServiceCtx :: "ptr \<Rightarrow> u64"
  pfnServiceRoutine :: "ptr \<Rightarrow> ptr"
  pfnFullCtxRoutine :: "ptr \<Rightarrow> full_routine"
  pfnGetRequiresFullCtx :: "ptr \<Rightarrow> (ptr \<Rightarrow> bool) option"
  IsTrap :: "ptr \<Rightarrow> bool"
  SendEOI :: "ptr \<Rightarrow> bool"
  ApcThread :: "ptr \<Rightarrow> ptr"
  KernelRoutine :: "ptr \<Rightarrow> ptr"
  NormalRoutine :: "ptr \<Rightarrow> ptr"
  NormalContext :: "ptr \<Rightarrow> u64"
  SystemArgument1 :: "ptr \<Rightarrow> u64"
  SystemArgument2 :: "ptr \<Rightarrow> u64"
  ApcStateIndex :: "ptr \<Rightarrow> u8"
  ApcMode :: "ptr \<Rightarrow> u8"
  ApcInserted :: "ptr \<Rightarrow> bool"
  ThreadApcStateIndex :: "ptr \<Rightarrow> u8"
  ApcStatePointers :: "ptr \<Rightarrow> u8 \<Rightarrow> ptr"
  KernelApcsDisabled :: "ptr \<Rightarrow> bool"
  UserApcsDisabled :: "ptr \<Rightarrow> bool"
  UserApcPending :: "ptr \<Rightarrow> bool"
  KernelApcPending :: "ptr \<Rightarrow> bool"
  KernelApcInProgress :: "ptr \<Rightarrow> bool"

abbreviation (input) KernelMode :: u8 where "KernelMode \<equiv> 0"
abbreviation (input) UserMode :: u8 where "UserMode \<equiv> 1"
abbreviation (input) SPIN_LOCK_NOT_OWNED :: u32 where "SPIN_LOCK_NOT_OWNED \<equiv> 0x10"
abbreviation (input) STATUS_USER_APC :: u64 where "STATUS_USER_APC \<equiv> 0xC0"
abbreviation (input) STATUS_KERNEL_APC :: u64 where "STATUS_KERNEL_APC \<equiv> 0x100"

text \<open>The offsets of CpuListEntry in a KINTERRUPT and of the current ApcState in a KTHREAD.\<close>

definition CpuListEntry :: "ptr \<Rightarrow> ptr" where "CpuListEntry i = i + 48"
definition ApcState :: "ptr \<Rightarrow> ptr" where "ApcState t = t + 368"

definition with_ps :: "(pstate \<Rightarrow> pstate outcome) \<Rightarrow> istate \<Rightarrow> istate outcome" where
  "with_ps f s = obind (f (ps s)) (\<lambda>p. Done (s\<lparr>ps := p\<rparr>))"

definition set_cpu :: "cpu \<Rightarrow> istate \<Rightarrow> istate" where
  "set_cpu c s = s\<lparr>ps := (ps s)\<lparr>ks := (ks (ps s))\<lparr>kcpu := c\<rparr>\<rparr>\<rparr>"

definition set_ThreadIrql :: "ptr \<Rightarrow> u8 \<Rightarrow> istate \<Rightarrow> istate" where
  "set_ThreadIrql t l s = s\<lparr>ps := (ps s)\<lparr>ThreadIrql := (ThreadIrql (ps s))(t := l)\<rparr>\<rparr>"

section \<open>The entry of an interrupt\<close>

definition KiApplyIrql_interrupt :: "u8 \<Rightarrow> cpu \<Rightarrow> (u8 \<times> cpu) outcome" where
  "KiApplyIrql_interrupt new c =
     (let currentIrql = KeGetCurrentIrql c in
      if new > currentIrql then obind (KfRaiseIrql new c) (\<lambda>(_, c). Done (currentIrql, c))
      else obind (KfLowerIrql new c) (\<lambda>c. Done (currentIrql, c)))"

definition KiApplyInterruptIrql :: "ptr \<Rightarrow> istate \<Rightarrow> (u8 \<times> istate) outcome" where
  "KiApplyInterruptIrql i s =
     obind (KiApplyIrql_interrupt (InterruptIrql s i) (kcpu (ks (ps s)))) (\<lambda>(old, c). Done (old, set_cpu c s))"

definition lower_irql :: "u8 \<Rightarrow> istate \<Rightarrow> istate outcome" where
  "lower_irql l s = obind (KeLowerIrql l (kcpu (ks (ps s)))) (\<lambda>c. Done (set_cpu c s))"

definition ApicSendEoi :: "istate \<Rightarrow> istate" where
  "ApicSendEoi s = s\<lparr>Eois := Suc (Eois s)\<rparr>"

type_synonym service = "ptr \<Rightarrow> ptr \<Rightarrow> u64 \<Rightarrow> istate \<Rightarrow> istate outcome"

text \<open>The result says that the full context is needed.\<close>

definition HalGenericInterruptHandlerEntry :: "service \<Rightarrow> ptr \<Rightarrow> istate \<Rightarrow> (bool \<times> istate) outcome" where
  "HalGenericInterruptHandlerEntry isr i s =
     obind (KiApplyInterruptIrql i (s\<lparr>HasInterrupts := False\<rparr>)) (\<lambda>(old, s).
     let t = KeGetCurrentThread (ps s); prevIrql = ThreadIrql (ps s) t;
         s = set_ThreadIrql t old s;
         s = s\<lparr>ps := (ps s)\<lparr>NestedInterrupts := NestedInterrupts (ps s) + 1\<rparr>, HasInterrupts := True\<rparr>
     in if (case pfnGetRequiresFullCtx s i of None \<Rightarrow> True | Some f \<Rightarrow> \<not> f i)
        then if pfnServiceRoutine s i = NULL then Fault
             else obind (isr (pfnServiceRoutine s i) i (ServiceCtx s i) s) (\<lambda>s.
                  let s = (if SendEOI s i then ApicSendEoi s else s); s = s\<lparr>HasInterrupts := False\<rparr>
                  in obind (lower_irql old s) (\<lambda>s.
                     let s = set_ThreadIrql (KeGetCurrentThread (ps s)) prevIrql s
                     in Done (False, s\<lparr>ps := (ps s)\<lparr>NestedInterrupts := NestedInterrupts (ps s) - 1\<rparr>\<rparr>)))
        else obind (lower_irql old s) (\<lambda>s. Done (True, set_ThreadIrql (KeGetCurrentThread (ps s)) prevIrql s)))"

definition full_ctx_routine :: "u64 \<Rightarrow> ptr \<Rightarrow> u64 \<Rightarrow> istate \<Rightarrow> (u64 \<times> istate) outcome" where
  "full_ctx_routine rtc i FullCtx s = (case pfnFullCtxRoutine s i of NoRoutine \<Rightarrow> Fault
     | ScheduleThread \<Rightarrow> obind (PspScheduleThread rtc i FullCtx (ps s)) (\<lambda>(r, p). Done (r, s\<lparr>ps := p\<rparr>)))"

definition HalFullCtxInterruptHandlerEntry :: "u64 \<Rightarrow> ptr \<Rightarrow> u64 \<Rightarrow> istate \<Rightarrow> (u64 \<times> istate) outcome" where
  "HalFullCtxInterruptHandlerEntry rtc i FullCtx s =
     obind (KiApplyInterruptIrql i (s\<lparr>HasInterrupts := False\<rparr>)) (\<lambda>(old, s).
     let t = KeGetCurrentThread (ps s); prevIrql = ThreadIrql (ps s) t;
         s = (set_ThreadIrql t old s)\<lparr>HasInterrupts := True\<rparr>
     in obind (full_ctx_routine rtc i FullCtx s) (\<lambda>(result, s).
        let s = (if SendEOI s i then ApicSendEoi s else s); s = s\<lparr>HasInterrupts := False\<rparr>
        in obind (KiApplyIrql_interrupt old (kcpu (ks (ps s)))) (\<lambda>(_, c).
           let s = set_ThreadIrql (KeGetCurrentThread (ps s)) prevIrql (set_cpu c s)
           in Done (result, s\<lparr>ps := (ps s)\<lparr>NestedInterrupts := NestedInterrupts (ps s) - 1\<rparr>\<rparr>))))"

text \<open>IrqHandler: the result is the stack to go on with, None the one of the interrupt.\<close>

definition IrqHandler :: "service \<Rightarrow> u64 \<Rightarrow> ptr \<Rightarrow> u64 \<Rightarrow> istate \<Rightarrow> (u64 option \<times> istate) outcome" where
  "IrqHandler isr rtc i FullCtx s =
     obind (HalGenericInterruptHandlerEntry isr i s) (\<lambda>(fullCtxRequired, s).
     if \<not> fullCtxRequired then Done (None, s)
     else obind (HalFullCtxInterruptHandlerEntry rtc i FullCtx s) (\<lambda>(r, s). Done (if r = 0 then None else Some r, s)))"

section \<open>Mocking up an interrupt\<close>

text \<open>HalpMockupInterruptHandler calls the handler as the processor would: here the bytes of the handler run
  on the model of the instructions of Descriptors, and IrqAddress is the address of IrqHandler.\<close>

definition run_handler :: "service \<Rightarrow> u64 \<Rightarrow> u64 \<Rightarrow> u64 \<Rightarrow> (nat \<Rightarrow> u8) \<Rightarrow> istate \<Rightarrow> (u64 option \<times> istate) outcome" where
  "run_handler isr rtc IrqAddress FullCtx h s =
     (case run_stub 5 h (At 0, 0, []) of
        Some (Jumped a, rax, st) \<Rightarrow> if a = IrqAddress then IrqHandler isr rtc rax FullCtx s else Fault
      | _ \<Rightarrow> Fault)"

text \<open>tmpCopy is the address of the local copy.\<close>

definition copy_interrupt :: "ptr \<Rightarrow> ptr \<Rightarrow> istate \<Rightarrow> istate" where
  "copy_interrupt c i s = s\<lparr>InterruptLock := (InterruptLock s)(c := InterruptLock s i),
     InterruptIrql := (InterruptIrql s)(c := InterruptIrql s i), Handler := (Handler s)(c := Handler s i),
     Vector := (Vector s)(c := Vector s i), Connected := (Connected s)(c := Connected s i),
     CpuNumber := (CpuNumber s)(c := CpuNumber s i), ServiceCtx := (ServiceCtx s)(c := ServiceCtx s i),
     pfnServiceRoutine := (pfnServiceRoutine s)(c := pfnServiceRoutine s i),
     pfnFullCtxRoutine := (pfnFullCtxRoutine s)(c := pfnFullCtxRoutine s i),
     pfnGetRequiresFullCtx := (pfnGetRequiresFullCtx s)(c := pfnGetRequiresFullCtx s i),
     IsTrap := (IsTrap s)(c := IsTrap s i), SendEOI := (SendEOI s)(c := SendEOI s i)\<rparr>"

definition HalMockupInterrupt :: "service \<Rightarrow> u64 \<Rightarrow> u64 \<Rightarrow> u64 \<Rightarrow> ptr \<Rightarrow> ptr \<Rightarrow> istate \<Rightarrow> (u64 option \<times> istate) outcome" where
  "HalMockupInterrupt isr rtc IrqAddress FullCtx tmpCopy Interrupt s =
     (let old = tpr (kcpu (ks (ps s)));
          s = copy_interrupt tmpCopy Interrupt s;
          s = s\<lparr>SendEOI := (SendEOI s)(tmpCopy := False)\<rparr>;
          s = (if old < InterruptIrql s Interrupt then set_cpu ((kcpu (ks (ps s)))\<lparr>tpr := InterruptIrql s Interrupt\<rparr>) s else s)
      in obind (run_handler isr rtc IrqAddress FullCtx (Handler s tmpCopy) s) (\<lambda>(r, s).
         Done (r, set_cpu ((kcpu (ks (ps s)))\<lparr>tpr := old\<rparr>) s)))"

definition KeForceClockTick :: "service \<Rightarrow> u64 \<Rightarrow> u64 \<Rightarrow> u64 \<Rightarrow> ptr \<Rightarrow> istate \<Rightarrow> (u64 option \<times> istate) outcome" where
  "KeForceClockTick isr rtc IrqAddress FullCtx tmpCopy s =
     HalMockupInterrupt isr rtc IrqAddress FullCtx tmpCopy (ClockInterrupt (ps s)) s"

section \<open>Affinity\<close>

text \<open>tick is KeForceClockTick with the stack and the local copy of that call.\<close>

definition KeSetSystemAffinityThread :: "(istate \<Rightarrow> istate outcome) \<Rightarrow> u64 \<Rightarrow> istate \<Rightarrow> istate outcome" where
  "KeSetSystemAffinityThread tick aff s =
     obind (KiAcquireDispatcherLock (ks (ps s))) (\<lambda>(old, k).
     let t = CurrentThread k;
         p = (ps s)\<lparr>UserAffinity := (UserAffinity (ps s))(t := Affinity k t), ks := k\<lparr>Affinity := (Affinity k)(t := aff)\<rparr>\<rparr>
     in obind (with_ks (KiReleaseDispatcherLock old) p) (\<lambda>p. tick (s\<lparr>ps := p\<rparr>)))"

definition KeRevertToUserAffinityThread :: "(istate \<Rightarrow> istate outcome) \<Rightarrow> istate \<Rightarrow> istate outcome" where
  "KeRevertToUserAffinityThread tick s =
     obind (KiAcquireDispatcherLock (ks (ps s))) (\<lambda>(old, k).
     let t = CurrentThread k;
         p = (ps s)\<lparr>UserAffinity := (UserAffinity (ps s))(t := 0), ks := k\<lparr>Affinity := (Affinity k)(t := UserAffinity (ps s) t)\<rparr>\<rparr>
     in obind (with_ks (KiReleaseDispatcherLock old) p) (\<lambda>p. tick (s\<lparr>ps := p\<rparr>)))"

section \<open>Interrupt objects\<close>

text \<open>Memory is what ExAllocatePool returned.\<close>

definition KiCreateInterrupt :: "ptr \<Rightarrow> istate \<Rightarrow> (NTSTATUS \<times> ptr option) \<times> istate" where
  "KiCreateInterrupt Memory s =
     (if Memory = NULL then ((STATUS_NO_MEMORY, None), s)
      else ((STATUS_SUCCESS, Some Memory), s\<lparr>Connected := (Connected s)(Memory := False),
             InterruptLock := (InterruptLock s)(Memory := KeInitializeSpinLock (InterruptLock s Memory))\<rparr>))"

definition InitializeInterrupt :: "ptr \<Rightarrow> u8 \<Rightarrow> u64 \<Rightarrow> u32 \<Rightarrow> u8 \<Rightarrow> ptr \<Rightarrow> istate \<Rightarrow> istate" where
  "InitializeInterrupt i vec handler cpu l Routine s =
     s\<lparr>Vector := (Vector s)(i := vec), Handler := (Handler s)(i := HalpInitInterruptHandlerStub i handler (Handler s i)),
       CpuNumber := (CpuNumber s)(i := cpu), InterruptIrql := (InterruptIrql s)(i := l), IsTrap := (IsTrap s)(i := False),
       pfnFullCtxRoutine := (pfnFullCtxRoutine s)(i := NoRoutine), pfnServiceRoutine := (pfnServiceRoutine s)(i := Routine),
       pfnGetRequiresFullCtx := (pfnGetRequiresFullCtx s)(i := None), SendEOI := (SendEOI s)(i := True)\<rparr>"

definition IoCreateInterrupt :: "ptr \<Rightarrow> u8 \<Rightarrow> u64 \<Rightarrow> u32 \<Rightarrow> bool \<Rightarrow> ptr \<Rightarrow> istate \<Rightarrow> (NTSTATUS \<times> ptr option) \<times> istate" where
  "IoCreateInterrupt Memory vec handler cpu trap Routine s =
     (case KiCreateInterrupt Memory s of
        ((status, None), s) \<Rightarrow> ((status, None), s)
      | ((status, Some i), s) \<Rightarrow>
          let s = InitializeInterrupt i vec handler cpu (drop_bit 4 vec) Routine s
          in ((STATUS_SUCCESS, Some i), s\<lparr>IsTrap := (IsTrap s)(i := trap)\<rparr>))"

text \<open>The table keeps the address of the Handler bytes of the object, which start at offset 9.\<close>

definition HandlerAddress :: "ptr \<Rightarrow> ptr" where "HandlerAddress i = i + 9"

definition KeConnectInterrupt :: "(istate \<Rightarrow> istate outcome) \<Rightarrow> ptr \<Rightarrow> istate \<Rightarrow> (bool \<times> istate) outcome" where
  "KeConnectInterrupt tick i s =
     obind (if irql (kcpu (ks (ps s))) < DISPATCH_LEVEL
            then KeSetSystemAffinityThread tick (push_bit (unat (CpuNumber s i) mod 64) 1) s else Done s) (\<lambda>s.
     obind (KiAcquireDispatcherLock (ks (ps s))) (\<lambda>(old, k).
     let s = s\<lparr>ps := (ps s)\<lparr>ks := k\<rparr>\<rparr>;
         s = (if Connected s i then s
              else let s = s\<lparr>idt_entries := snd (HalBindInterrupt (idt_entries s) (unat (Vector s i)) (HandlerAddress i) False (IsTrap s i))\<rparr>;
                       s = s\<lparr>ps := (ps s)\<lparr>ks := (ks (ps s))\<lparr>sheap := InsertTailList (InterruptListHead s) (CpuListEntry i) (sheap (ks (ps s)))\<rparr>\<rparr>\<rparr>
                   in s\<lparr>Connected := (Connected s)(i := True)\<rparr>)
     in obind (with_ps (with_ks (KiReleaseDispatcherLock old)) s) (\<lambda>s.
        obind (if old < DISPATCH_LEVEL then KeRevertToUserAffinityThread tick s else Done s) (\<lambda>s.
          Done (Connected s i, s)))))"

definition KeDisconnectInterrupt :: "ptr \<Rightarrow> istate \<Rightarrow> bool" where
  "KeDisconnectInterrupt i s = Connected s i"

definition KiSendIpiToSingleCore :: "u64 \<Rightarrow> u8 \<Rightarrow> istate \<Rightarrow> istate" where
  "KiSendIpiToSingleCore ProcessorNumber vec s = s\<lparr>Ipis := Ipis s @ [(ucast ProcessorNumber, vec)]\<rparr>"

definition KeSendIpi :: "u32 \<Rightarrow> u32 \<Rightarrow> u64 \<Rightarrow> u8 \<Rightarrow> istate \<Rightarrow> istate" where
  "KeSendIpi KeNumberOfProcessors selfId TargetProcessors vec s =
     fold (\<lambda>n s. if word_of_nat n \<noteq> selfId \<and> bit TargetProcessors (n mod 64)
                 then KiSendIpiToSingleCore (word_of_nat n) vec s else s) [0..<unat KeNumberOfProcessors] s"

text \<open>The handler bytes of an exception are written before the status is tested, through a pointer that was
  not set when there is no memory. Memory gives the result of each allocation.\<close>

primrec connect_exceptions :: "(istate \<Rightarrow> istate outcome) \<Rightarrow> (nat \<Rightarrow> u64) \<Rightarrow> (nat \<Rightarrow> ptr) \<Rightarrow> u32 \<Rightarrow> nat list \<Rightarrow> istate \<Rightarrow> istate outcome" where
  "connect_exceptions tick exceptionHandlers Memory cpu [] s = Done s"
| "connect_exceptions tick exceptionHandlers Memory cpu (i # js) s =
     (case IoCreateInterrupt (Memory i) (word_of_nat i) (exceptionHandlers i) cpu (i = 1 \<or> i = 3 \<or> i = 4) NULL s of
        ((status, None), s) \<Rightarrow> Fault
      | ((status, Some e), s) \<Rightarrow>
          let s = s\<lparr>Handler := (Handler s)(e := HalpInitLegacyInterruptHandlerStub (exceptionHandlers i) (Handler s e))\<rparr>
          in obind (KeConnectInterrupt tick e s) (\<lambda>(_, s). connect_exceptions tick exceptionHandlers Memory cpu js s))"

definition init_full_interrupt :: "ptr \<Rightarrow> u32 \<Rightarrow> u8 \<Rightarrow> u8 \<Rightarrow> bool \<Rightarrow> u64 \<Rightarrow> istate \<Rightarrow> istate" where
  "init_full_interrupt i cpu l vec eoi IrqAddress s =
     s\<lparr>CpuNumber := (CpuNumber s)(i := cpu), InterruptIrql := (InterruptIrql s)(i := l), Connected := (Connected s)(i := False),
       InterruptLock := (InterruptLock s)(i := KeInitializeSpinLock (InterruptLock s i)), IsTrap := (IsTrap s)(i := False),
       Vector := (Vector s)(i := vec), pfnServiceRoutine := (pfnServiceRoutine s)(i := NULL),
       pfnFullCtxRoutine := (pfnFullCtxRoutine s)(i := ScheduleThread),
       pfnGetRequiresFullCtx := (pfnGetRequiresFullCtx s)(i := Some (\<lambda>_. True)), SendEOI := (SendEOI s)(i := eoi),
       Handler := (Handler s)(i := HalpInitInterruptHandlerStub i IrqAddress (Handler s i))\<rparr>"

definition KiInitializeInterrupts ::
  "(istate \<Rightarrow> istate outcome) \<Rightarrow> (nat \<Rightarrow> u64) \<Rightarrow> (nat \<Rightarrow> ptr) \<Rightarrow> u64 \<Rightarrow> u64 \<Rightarrow> ptr \<Rightarrow> istate \<Rightarrow> (NTSTATUS \<times> istate) outcome"
where
  "KiInitializeInterrupts tick exceptionHandlers Memory IrqAddress KeStop KeStopIsr s =
     (let cpu = ucast (Number (ps s)) in
      obind (connect_exceptions tick exceptionHandlers Memory cpu [0..<16] s) (\<lambda>s.
      case KiCreateInterrupt (Memory 16) s of
        ((_, None), s) \<Rightarrow> Fault
      | ((_, Some clock), s) \<Rightarrow>
          let s = init_full_interrupt clock cpu DISPATCH_LEVEL 0x20 True IrqAddress s;
              s = s\<lparr>ps := (ps s)\<lparr>ClockInterrupt := clock\<rparr>\<rparr>
          in obind (KeConnectInterrupt tick clock s) (\<lambda>(_, s).
             case IoCreateInterrupt (Memory 17) 0xEF KeStop cpu False KeStopIsr s of
               ((status, None), s) \<Rightarrow> Done (status, s)
             | ((_, Some stop), s) \<Rightarrow> obind (KeConnectInterrupt tick stop s) (\<lambda>(_, s). Done (STATUS_SUCCESS, s)))))"

text \<open>PsConnectNotifyIpi of scheduler.c; CLOCK_LEVEL is 13.\<close>

definition PsConnectNotifyIpi :: "(istate \<Rightarrow> istate outcome) \<Rightarrow> ptr \<Rightarrow> u64 \<Rightarrow> istate \<Rightarrow> (NTSTATUS \<times> istate) outcome" where
  "PsConnectNotifyIpi tick Memory IrqAddress s =
     (case KiCreateInterrupt Memory s of
        ((status, None), s) \<Rightarrow> Done (status, s)
      | ((_, Some i), s) \<Rightarrow>
          let s = init_full_interrupt i (ucast (Number (ps s))) 13 0x21 False IrqAddress s
          in obind (KeConnectInterrupt tick i s) (\<lambda>(ok, s). Done (if ok then STATUS_SUCCESS else STATUS_INTERNAL_ERROR, s)))"

section \<open>The end of a deferred procedure call\<close>

text \<open>The thread goes on at ResumeStack: the forced tick finds it as the stack to switch to.\<close>

definition raise_irql :: "u8 \<Rightarrow> istate \<Rightarrow> istate outcome" where
  "raise_irql l s = obind (KfRaiseIrql l (kcpu (ks (ps s)))) (\<lambda>(_, c). Done (set_cpu c s))"

definition PspCallDpc ::
  "(ptr \<Rightarrow> ptr \<Rightarrow> u64 \<times> u64 \<times> u64 \<Rightarrow> istate \<Rightarrow> istate outcome) \<Rightarrow> (istate \<Rightarrow> istate outcome) \<Rightarrow> ptr \<Rightarrow> ptr \<Rightarrow> istate \<Rightarrow> istate outcome"
where
  "PspCallDpc routine tick Dpc ResumeStack s =
     obind (raise_irql DISPATCH_LEVEL s) (\<lambda>s.
     obind (routine (DpcRoutine (ps s) Dpc) Dpc (DpcContext (ps s) Dpc, DpcArgument1 (ps s) Dpc, DpcArgument2 (ps s) Dpc) s) (\<lambda>s.
     obind (raise_irql HIGH_IRQL s) (\<lambda>s.
     let s = s\<lparr>ps := (ps s)\<lparr>SwitchStackPointer := (SwitchStackPointer (ps s))(KeGetCurrentThread (ps s) := ResumeStack)\<rparr>\<rparr>
     in obind (KfLowerIrql PASSIVE_LEVEL (kcpu (ks (ps s)))) (\<lambda>c. tick (set_cpu c s)))))"

section \<open>Asynchronous procedure calls\<close>

definition KeInitializeApcState :: "ptr \<Rightarrow> istate \<Rightarrow> istate" where
  "KeInitializeApcState st s =
     (let h = InitializeListHead (ApcListHeads st 1) (InitializeListHead (ApcListHeads st 0) (sheap (ks (ps s))))
      in s\<lparr>ps := (ps s)\<lparr>ks := (ks (ps s))\<lparr>sheap := h\<rparr>\<rparr>,
           KernelApcsDisabled := (KernelApcsDisabled s)(st := False), UserApcsDisabled := (UserApcsDisabled s)(st := False),
           KernelApcInProgress := (KernelApcInProgress s)(st := False), KernelApcPending := (KernelApcPending s)(st := False),
           UserApcPending := (UserApcPending s)(st := False)\<rparr>)"

text \<open>Both branches on the kind of the APC insert at the tail of the list of its mode.\<close>

definition insert_apc :: "ptr \<Rightarrow> istate \<Rightarrow> istate outcome" where
  "insert_apc Apc s =
     (let t = ApcThread s Apc; st = ApcStatePointers s t (ApcStateIndex s Apc); k = ks (ps s);
          s = s\<lparr>ps := (ps s)\<lparr>ks := k\<lparr>sheap := InsertTailList (ApcListHeads st (ApcMode s Apc)) (ApcListEntry Apc) (sheap k)\<rparr>\<rparr>\<rparr>;
          s = (if ApcStateIndex s Apc = ThreadApcStateIndex s t \<and> ApcMode s Apc = KernelMode
               then s\<lparr>KernelApcPending := (KernelApcPending s)(st := True)\<rparr> else s);
          unwait = (\<lambda>status s. with_ps (with_ks (KeUnwaitThreadNoLock t status)) s)
      in obind (if ThreadState (ks (ps s)) t = THREAD_STATE_WAITING \<and> (Alertable (ks (ps s)) t \<or> ApcMode s Apc = KernelMode)
                then if ApcMode s Apc = UserMode then unwait STATUS_USER_APC (s\<lparr>UserApcPending := (UserApcPending s)(st := True)\<rparr>)
                     else unwait STATUS_KERNEL_APC s
                else Done s)
           (\<lambda>s. Done (s\<lparr>ApcInserted := (ApcInserted s)(Apc := True)\<rparr>)))"

definition KiInsertQueueAPC :: "ptr \<Rightarrow> istate \<Rightarrow> (bool \<times> istate) outcome" where
  "KiInsertQueueAPC Apc s =
     (if DispatcherLock (ks (ps s)) = 0 then Bugcheck SPIN_LOCK_NOT_OWNED
      else let t = ApcThread s Apc in
        obind (with_ps (with_ks (acquire_at_dpc (ThreadLock t))) s) (\<lambda>s.
        obind (if ApcInserted s Apc then Done (False, s) else obind (insert_apc Apc s) (\<lambda>s. Done (True, s))) (\<lambda>(success, s).
        obind (with_ps (with_ks (release_from_dpc (ThreadLock t))) s) (\<lambda>s. Done (success, s)))))"

text \<open>The loop runs over the words of a pointer, not of a KTASK_STATE.\<close>

definition KiCopyContextToUserStack :: "ptr \<Rightarrow> pstate \<Rightarrow> pstate outcome" where
  "KiCopyContextToUserStack t s =
     (if Locks (ks s) (ThreadLock t) = 0 then Bugcheck SPIN_LOCK_NOT_OWNED
      else let source = KernelStackPointer s t; destination = umem s (source + oRsp);
               s = fold (\<lambda>i s. snd (KiSetUserMemory (destination + 8 * word_of_nat i) (umem s (source + 8 * word_of_nat i)) s)) [0..<8 div 8] s
           in Done (set_mem (source + oRsp) (umem s (source + oRsp) - 192) s))"

definition KiExecuteUserApcNormalRoutine :: "ptr \<Rightarrow> ptr \<Rightarrow> u64 \<Rightarrow> u64 \<Rightarrow> u64 \<Rightarrow> ptr \<Rightarrow> pstate \<Rightarrow> pstate outcome" where
  "KiExecuteUserApcNormalRoutine t nr nc arg1 arg2 KiUserApcDispatcher s =
     (if KeGetCurrentIrql (kcpu (ks s)) < DISPATCH_LEVEL then Bugcheck IRQL_NOT_GREATER_OR_EQUAL
      else obind (KiCopyContextToUserStack t s) (\<lambda>s.
        Done (PspUsercall t KiUserApcDispatcher [nr, nc, arg1, arg2, umem s (KernelStackPointer s t + oRsp)] NULL s)))"

definition lock_thread :: "ptr \<Rightarrow> istate \<Rightarrow> (u8 \<times> istate) outcome" where
  "lock_thread t s = (let k = ks (ps s) in
     obind (KeAcquireSpinLock (Locks k (ThreadLock t)) (kcpu k)) (\<lambda>(old, l, c).
       Done (old, s\<lparr>ps := (ps s)\<lparr>ks := k\<lparr>Locks := (Locks k)(ThreadLock t := l), kcpu := c\<rparr>\<rparr>\<rparr>)))"

text \<open>A kernel routine gets the APC and pointers to the routine, its context and arguments, which it may change.\<close>

type_synonym apc_call = "ptr \<times> u64 \<times> u64 \<times> u64"
type_synonym kernel_routine = "ptr \<Rightarrow> ptr \<Rightarrow> apc_call \<Rightarrow> istate \<Rightarrow> (apc_call \<times> istate) outcome"

definition KeDeliverApcs :: "kernel_routine \<Rightarrow> ptr \<Rightarrow> u8 \<Rightarrow> istate \<Rightarrow> istate outcome" where
  "KeDeliverApcs routine KiUserApcDispatcher PreviousMode s =
     (let t = KeGetCurrentThread (ps s); st = ApcState t; release = (\<lambda>irql. with_ps (with_ks (release_lock (ThreadLock t) irql))) in
      obind (lock_thread t s) (\<lambda>(old, s).
      if \<not> IsListEmpty (ApcListHeads st UserMode) (sheap (ks (ps s))) \<and> UserApcPending s st \<and> PreviousMode = UserMode
      then let apc = flink (sheap (ks (ps s))) (ApcListHeads st UserMode) - 16;
               call = (NormalRoutine s apc, NormalContext s apc, SystemArgument1 s apc, SystemArgument2 s apc)
           in obind (release old s) (\<lambda>s.
              obind (routine (KernelRoutine s apc) apc call s) (\<lambda>((nr, nc, arg1, arg2), s).
              obind (lock_thread t s) (\<lambda>(old, s).
              let s = s\<lparr>UserApcPending := (UserApcPending s)(st := False),
                    ps := (ps s)\<lparr>ks := (ks (ps s))\<lparr>sheap := RemoveEntry (ApcListEntry apc) (sheap (ks (ps s)))\<rparr>\<rparr>,
                    ApcInserted := (ApcInserted s)(apc := False)\<rparr>
              in obind (with_ps (KiExecuteUserApcNormalRoutine t nr nc arg1 arg2 KiUserApcDispatcher) s) (release old))))
      else release old s))"

definition HalHandleApc :: "kernel_routine \<Rightarrow> ptr \<Rightarrow> istate \<Rightarrow> istate outcome" where
  "HalHandleApc routine KiUserApcDispatcher s =
     obind (KiAcquireDispatcherLock (ks (ps s))) (\<lambda>(old, k).
     let s = s\<lparr>ps := (ps s)\<lparr>ks := k\<rparr>\<rparr>; t = CurrentThread k; st = ApcState t
     in obind (if KernelApcPending s st \<or> UserApcPending s st
               then KeDeliverApcs routine KiUserApcDispatcher (PsGetProcessorModeFromTrapFrame (KernelStackPointer (ps s) t) (ps s)) s
               else Done s)
          (with_ps (with_ks (KiReleaseDispatcherLock old))))"

lemma HalHandleApc_bug_check:
  assumes "KernelApcPending s (ApcState (CurrentThread (ks (ps s)))) \<or> UserApcPending s (ApcState (CurrentThread (ks (ps s))))"
    and "irql (kcpu (ks (ps s))) \<le> SYNCH_LEVEL" "DispatcherLock (ks (ps s)) = 0"
  shows "HalHandleApc routine d s = Bugcheck IRQL_NOT_GREATER_OR_EQUAL"
  using assms by (simp add: HalHandleApc_def KiAcquireDispatcherLock_def irql_defs not_less KeAcquireSpinLockAtDpcLevel_def
      KiAcquireSpinLock_def KeDeliverApcs_def lock_thread_def KeAcquireSpinLock_def KfAcquireSpinLock_def KeGetCurrentThread_def)

section \<open>The levels around an interrupt\<close>

lemma apply_interrupt_irql:
  assumes "irql (kcpu (ks (ps s))) \<le> InterruptIrql s i"
  shows "KiApplyInterruptIrql i s = Done (irql (kcpu (ks (ps s))),
    set_cpu (KiApplyIrql (irql (kcpu (ks (ps s)))) (InterruptIrql s i) (kcpu (ks (ps s)))) s)"
  using assms by (auto simp: KiApplyInterruptIrql_def KiApplyIrql_interrupt_def irql_defs)

lemma apply_irql_down: "l \<le> irql c \<Longrightarrow> KiApplyIrql_interrupt l c = Done (irql c, KiApplyIrql (irql c) l c)"
  by (auto simp: KiApplyIrql_interrupt_def irql_defs)

lemma set_cpu_simps [simp]:
  "ks (ps (set_cpu c s)) = (ks (ps s))\<lparr>kcpu := c\<rparr>" "InterruptIrql (set_cpu c s) = InterruptIrql s"
  "ThreadIrql (ps (set_cpu c s)) = ThreadIrql (ps s)" "NestedInterrupts (ps (set_cpu c s)) = NestedInterrupts (ps s)"
  "SendEOI (set_cpu c s) = SendEOI s" "Eois (set_cpu c s) = Eois s" "pfnFullCtxRoutine (set_cpu c s) = pfnFullCtxRoutine s"
  "pfnGetRequiresFullCtx (set_cpu c s) = pfnGetRequiresFullCtx s"
  by (simp_all add: set_cpu_def)

lemma set_ThreadIrql_simps [simp]:
  "ks (ps (set_ThreadIrql t l s)) = ks (ps s)" "InterruptIrql (set_ThreadIrql t l s) = InterruptIrql s"
  "ThreadIrql (ps (set_ThreadIrql t l s)) = (ThreadIrql (ps s))(t := l)"
  "NestedInterrupts (ps (set_ThreadIrql t l s)) = NestedInterrupts (ps s)" "SendEOI (set_ThreadIrql t l s) = SendEOI s"
  "Eois (set_ThreadIrql t l s) = Eois s" "pfnFullCtxRoutine (set_ThreadIrql t l s) = pfnFullCtxRoutine s"
  "pfnGetRequiresFullCtx (set_ThreadIrql t l s) = pfnGetRequiresFullCtx s"
  by (simp_all add: set_ThreadIrql_def)

text \<open>The state in which the scheduler is called: the interrupt has raised the IRQL, the level of the thread is
  noted, and one interrupt more is nested.\<close>

definition interrupted :: "ptr \<Rightarrow> pstate \<Rightarrow> u8 \<Rightarrow> pstate" where
  "interrupted t p l = p\<lparr>ks := (ks p)\<lparr>kcpu := KiApplyIrql (irql (kcpu (ks p))) l (kcpu (ks p))\<rparr>,
     ThreadIrql := (ThreadIrql p)(t := irql (kcpu (ks p))), NestedInterrupts := NestedInterrupts p + 1\<rparr>"

lemma generic_full:
  assumes full: "pfnGetRequiresFullCtx s i = Some f" "f i" and l: "irql (kcpu (ks (ps s))) \<le> InterruptIrql s i"
    and ok: "cpu_ok (kcpu (ks (ps s)))"
  shows "HalGenericInterruptHandlerEntry isr i s =
    Done (True, s\<lparr>ps := (ps s)\<lparr>NestedInterrupts := NestedInterrupts (ps s) + 1\<rparr>, HasInterrupts := True\<rparr>)"
proof -
  let ?c = "kcpu (ks (ps s))"
  have "KeLowerIrql (irql ?c) (KiApplyIrql (irql ?c) (InterruptIrql s i) ?c) = Done ?c" by (rule raise_then_lower [OF ok l])
  then show ?thesis
    using full apply_interrupt_irql [of "s\<lparr>HasInterrupts := False\<rparr>" i] l
    by (simp add: HalGenericInterruptHandlerEntry_def Let_def lower_irql_def KeGetCurrentThread_def set_cpu_def set_ThreadIrql_def)
qed

lemma full_ctx_entry:
  assumes l: "irql (kcpu (ks (ps s))) \<le> InterruptIrql s i" and full: "pfnFullCtxRoutine s i = ScheduleThread"
    and run: "PspScheduleThread rtc i Stack ((ps s)\<lparr>ks := (ks (ps s))\<lparr>kcpu := KiApplyIrql (irql (kcpu (ks (ps s)))) (InterruptIrql s i) (kcpu (ks (ps s)))\<rparr>,
        ThreadIrql := (ThreadIrql (ps s))(KeGetCurrentThread (ps s) := irql (kcpu (ks (ps s))))\<rparr>) = Done (r, p)"
    and down: "irql (kcpu (ks (ps s))) \<le> irql (kcpu (ks p))"
  shows "HalFullCtxInterruptHandlerEntry rtc i Stack s = Done (r, s\<lparr>HasInterrupts := False, Eois := (if SendEOI s i then Suc (Eois s) else Eois s),
    ps := p\<lparr>ks := (ks p)\<lparr>kcpu := KiApplyIrql (irql (kcpu (ks p))) (irql (kcpu (ks (ps s)))) (kcpu (ks p))\<rparr>,
      ThreadIrql := (ThreadIrql p)(KeGetCurrentThread p := ThreadIrql (ps s) (KeGetCurrentThread (ps s))),
      NestedInterrupts := NestedInterrupts p - 1\<rparr>\<rparr>)"
  using apply_interrupt_irql [of "s\<lparr>HasInterrupts := False\<rparr>" i] l full run apply_irql_down [OF down]
  by (simp add: HalFullCtxInterruptHandlerEntry_def full_ctx_routine_def Let_def KeGetCurrentThread_def set_cpu_def set_ThreadIrql_def
      ApicSendEoi_def)

section \<open>Property\<close>

text \<open>An interrupt object as KiInitializeInterrupts makes the one of the clock, taken at a level it may be taken at.\<close>

definition scheduling_interrupt :: "ptr \<Rightarrow> istate \<Rightarrow> bool" where
  "scheduling_interrupt i s = (pfnGetRequiresFullCtx s i = Some (\<lambda>_. True) \<and> pfnFullCtxRoutine s i = ScheduleThread \<and>
     irql (kcpu (ks (ps s))) \<le> InterruptIrql s i \<and> cpu_ok (kcpu (ks (ps s))))"

text \<open>C37: an interrupt of the clock from its entry to its end, where the thread and the processor are as in C36
  (on_cpu: not terminated, no DPC to start or ending). The IRQL and the count of nested interrupts are
  restored and one end of interrupt is sent. If the level was DISPATCH_LEVEL or more, or another interrupt was being handled, the thread
  goes on; otherwise the scheduler decides as for C36 and the stack of the thread that runs now is taken. The levels
  go to the wrong threads: the new thread runs at the IRQL of the old one and gets its ThreadIrql, whatever
  it had when it was interrupted, and the old one keeps the IRQL as its ThreadIrql.\<close>

theorem clock_interrupt_spec:
  assumes i: "scheduling_interrupt i s" and t: "t = KeGetCurrentThread (ps s)"
    and start: "begin_schedule rtc i (interrupted t (ps s) (InterruptIrql s i)) = Done (old, q)" and on: "on_cpu q t R"
  shows "\<exists>r p. IrqHandler isr rtc i Stack s = Done (r, s\<lparr>HasInterrupts := False, Eois := (if SendEOI s i then Suc (Eois s) else Eois s), ps := p\<rparr>) \<and>
    irql (kcpu (ks p)) = irql (kcpu (ks (ps s))) \<and> cpu_ok (kcpu (ks p)) \<and> NestedInterrupts p = NestedInterrupts (ps s) \<and>
    ThreadIrql p = (ThreadIrql (ps s))(t := irql (kcpu (ks (ps s))), CurrentThread (ks p) := ThreadIrql (ps s) t) \<and>
    (if irql (kcpu (ks (ps s))) \<ge> DISPATCH_LEVEL \<or> NestedInterrupts (ps s) + 1 > 1
     then r = None \<and> CurrentThread (ks p) = t \<and> ThreadState (ks p) = ThreadState (ks q)
     else r = (let k = KernelStackPointer p (CurrentThread (ks p)) in if k = 0 then None else Some k) \<and>
       KernelStackPointer p = (KernelStackPointer (ps s))(t := Stack) \<and> (\<exists>n R1. picked q R n R1 \<and> quantum_used q t n R1 p))"
proof -
  let ?l = "irql (kcpu (ks (ps s)))" and ?L = "InterruptIrql s i" and ?a = "interrupted t (ps s) (InterruptIrql s i)"
  have h: "?l \<le> ?L" "cpu_ok (kcpu (ks (ps s)))" "pfnGetRequiresFullCtx s i = Some (\<lambda>_. True)" "pfnFullCtxRoutine s i = ScheduleThread"
    using i by (simp_all add: scheduling_interrupt_def)
  let ?s1 = "s\<lparr>ps := (ps s)\<lparr>NestedInterrupts := NestedInterrupts (ps s) + 1\<rparr>, HasInterrupts := True\<rparr>"
  have gen: "HalGenericInterruptHandlerEntry isr i s = Done (True, ?s1)"
    by (rule generic_full [OF h(3) _ h(1,2)]) simp
  obtain c k where q: "q = ?a\<lparr>kclock := c, ks := k\<rparr>" using begin_schedule_old(3) [OF start] by blast
  have old: "old = ?L" using begin_schedule_old(2) [OF start] by (simp add: interrupted_def)
  have q': "ThreadIrql q = (ThreadIrql (ps s))(t := ?l)" "NestedInterrupts q = NestedInterrupts (ps s) + 1"
    "KernelStackPointer q = KernelStackPointer (ps s)" unfolding q by (simp_all add: interrupted_def)
  have np: "not_preemptible q t \<longleftrightarrow> ?l \<ge> DISPATCH_LEVEL \<or> NestedInterrupts (ps s) + 1 > 1"
    using q' by (simp add: not_preemptible_def)
  obtain p where run: "PspScheduleThread rtc i Stack ?a =
      Done (if not_preemptible q t then 0 else KernelStackPointer p (CurrentThread (ks p)), p)"
    and cpu: "kcpu (ks p) = KiApplyIrql SYNCH_LEVEL old (kcpu (ks q))"
    and keep: "ThreadIrql p = ThreadIrql q" "NestedInterrupts p = NestedInterrupts q"
    and res: "if not_preemptible q t then p = q\<lparr>ks := ks p\<rparr> \<and> ThreadState (ks p) = ThreadState (ks q) \<and> CurrentThread (ks p) = t
     else KernelStackPointer p = (KernelStackPointer q)(t := Stack) \<and> (\<exists>n R1. picked q R n R1 \<and> quantum_used q t n R1 p)"
    using PspScheduleThread_result [OF start on, of Stack] by blast
  have qs: "irql (kcpu (ks q)) = SYNCH_LEVEL" "cpu_ok (kcpu (ks q))" using on by (simp_all add: on_cpu_def quiet_dpc_def)
  have ip: "irql (kcpu (ks p)) = ?L" "cpu_ok (kcpu (ks p))"
    using irql_apply [of "kcpu (ks q)" old] cpu_ok_apply [OF qs(2), of old] unfolding cpu old qs(1) by simp_all
  let ?p = "p\<lparr>ks := (ks p)\<lparr>kcpu := KiApplyIrql ?L ?l (kcpu (ks p))\<rparr>,
      ThreadIrql := (ThreadIrql p)(CurrentThread (ks p) := ThreadIrql (ps s) t), NestedInterrupts := NestedInterrupts p - 1\<rparr>"
  let ?r = "if not_preemptible q t then 0 else KernelStackPointer p (CurrentThread (ks p))"
  have ct: "KeGetCurrentThread (ps ?s1) = t" using t by (simp add: KeGetCurrentThread_def)
  have arg: "(ps ?s1)\<lparr>ks := (ks (ps ?s1))\<lparr>kcpu := KiApplyIrql (irql (kcpu (ks (ps ?s1)))) (InterruptIrql ?s1 i) (kcpu (ks (ps ?s1)))\<rparr>,
        ThreadIrql := (ThreadIrql (ps ?s1))(t := irql (kcpu (ks (ps ?s1))))\<rparr> = ?a"
    by (simp add: interrupted_def)
  have "HalFullCtxInterruptHandlerEntry rtc i Stack ?s1 = Done (?r, s\<lparr>HasInterrupts := False,
      Eois := (if SendEOI s i then Suc (Eois s) else Eois s), ps := ?p\<rparr>)"
  proof -
    note fe = full_ctx_entry [of ?s1 i rtc Stack ?r p, unfolded ct arg]
    have 1: "irql (kcpu (ks (ps ?s1))) \<le> InterruptIrql ?s1 i" "pfnFullCtxRoutine ?s1 i = ScheduleThread" using h by simp_all
    have 2: "irql (kcpu (ks (ps ?s1))) \<le> irql (kcpu (ks p))" using h(1) ip(1) by simp
    show ?thesis unfolding fe [OF 1 run 2] using ip(1) by (simp add: KeGetCurrentThread_def)
  qed
  then have irq: "IrqHandler isr rtc i Stack s = Done (if ?r = 0 then None else Some ?r, s\<lparr>HasInterrupts := False,
      Eois := (if SendEOI s i then Suc (Eois s) else Eois s), ps := ?p\<rparr>)"
    unfolding IrqHandler_def gen by simp
  have lv: "irql (kcpu (ks ?p)) = ?l" "cpu_ok (kcpu (ks ?p))" "NestedInterrupts ?p = NestedInterrupts (ps s)"
    "ThreadIrql ?p = (ThreadIrql (ps s))(t := ?l, CurrentThread (ks ?p) := ThreadIrql (ps s) t)"
    using irql_apply [of "kcpu (ks p)" ?l] cpu_ok_apply [OF ip(2), of ?l] keep q' unfolding ip(1) by simp_all
  have used: "quantum_used q t n R1 ?p = quantum_used q t n R1 p" for n R1
    by (rule quantum_used_result) (simp_all add: fun_eq_iff)
  show ?thesis
    unfolding np [symmetric] using irq lv res used q'(3)
    by (intro exI [of _ "if ?r = 0 then None else Some ?r"] exI [of _ ?p]) (simp add: Let_def)
qed

text \<open>The interrupt object at 0x500 interrupts thread 0x2000 of two_threads.\<close>

definition clock_istate :: istate where
  "clock_istate = \<lparr>ps = two_threads\<lparr>NestedInterrupts := 0\<rparr>, idt_entries = (\<lambda>_. undefined), InterruptListHead = 0x600,
     HasInterrupts = True, Eois = 0, Ipis = [], InterruptLock = (\<lambda>_. 0), InterruptIrql = (\<lambda>_. DISPATCH_LEVEL), Handler = (\<lambda>_ _. 0),
     Vector = (\<lambda>_. 0x20), Connected = (\<lambda>_. True), CpuNumber = (\<lambda>_. 0), ServiceCtx = (\<lambda>_. 0), pfnServiceRoutine = (\<lambda>_. 0),
     pfnFullCtxRoutine = (\<lambda>_. ScheduleThread), pfnGetRequiresFullCtx = (\<lambda>_. Some (\<lambda>_. True)), IsTrap = (\<lambda>_. False), SendEOI = (\<lambda>_. True),
     ApcThread = (\<lambda>_. 0), KernelRoutine = (\<lambda>_. 0), NormalRoutine = (\<lambda>_. 0), NormalContext = (\<lambda>_. 0), SystemArgument1 = (\<lambda>_. 0),
     SystemArgument2 = (\<lambda>_. 0), ApcStateIndex = (\<lambda>_. 0), ApcMode = (\<lambda>_. 0), ApcInserted = (\<lambda>_. False), ThreadApcStateIndex = (\<lambda>_. 0),
     ApcStatePointers = (\<lambda>_ _. 0), KernelApcsDisabled = (\<lambda>_. False), UserApcsDisabled = (\<lambda>_. False), UserApcPending = (\<lambda>_. False),
     KernelApcPending = (\<lambda>_. False), KernelApcInProgress = (\<lambda>_. False)\<rparr>"

lemma clock_interrupted:
  "interrupted 0x2000 (ps clock_istate) DISPATCH_LEVEL = two_threads\<lparr>ks := (ks two_threads)\<lparr>kcpu := \<lparr>irql = 2, tpr = 2\<rparr>\<rparr>\<rparr>"
  by (simp add: interrupted_def clock_istate_def two_threads_def quiet_kstate_def KiApplyIrql_def fun_eq_iff)

lemma clock_begin: "begin_schedule 0 0x500 (interrupted 0x2000 (ps clock_istate) (InterruptIrql clock_istate 0x500)) = Done (2, two_locked)"
proof -
  have l: "InterruptIrql clock_istate 0x500 = DISPATCH_LEVEL" by (simp add: clock_istate_def)
  show ?thesis unfolding l clock_interrupted
    by (simp add: begin_schedule_def two_locked_def two_threads_def KiAcquireDispatcherLock_def quiet_kstate_def irql_defs
        KeAcquireSpinLockAtDpcLevel_def KiAcquireSpinLock_def set_bit_eq_or)
qed

theorem clock_interrupt_spec_witness:
  "\<exists>r p. IrqHandler (\<lambda>_ _ _. Done) 0 0x500 0x9000 clock_istate = Done (r, clock_istate\<lparr>HasInterrupts := False, Eois := 1, ps := p\<rparr>) \<and>
     irql (kcpu (ks p)) = 0 \<and> NestedInterrupts p = 0 \<and> KernelStackPointer p 0x2000 = 0x9000 \<and> ThreadIrql p 0x2000 = 0"
proof -
  have f: "scheduling_interrupt 0x500 clock_istate" "0x2000 = KeGetCurrentThread (ps clock_istate)"
    "irql (kcpu (ks (ps clock_istate))) = 0" "NestedInterrupts (ps clock_istate) = 0" "SendEOI clock_istate 0x500" "Eois clock_istate = 0"
    "ThreadIrql (ps clock_istate) = (\<lambda>_. 0)"
    by (simp_all add: scheduling_interrupt_def clock_istate_def two_threads_def quiet_kstate_def cpu_ok_def KeGetCurrentThread_def)
  obtain r p where p: "IrqHandler (\<lambda>_ _ _. Done) 0 0x500 0x9000 clock_istate =
      Done (r, clock_istate\<lparr>HasInterrupts := False, Eois := (if SendEOI clock_istate 0x500 then Suc (Eois clock_istate) else Eois clock_istate), ps := p\<rparr>)"
    "irql (kcpu (ks p)) = 0" "NestedInterrupts p = 0" "KernelStackPointer p 0x2000 = 0x9000" "ThreadIrql p 0x2000 = 0"
    using clock_interrupt_spec [OF f(1,2) clock_begin two_on_cpu, where isr = "\<lambda>_ _ _. Done" and Stack = "0x9000"] f(3,4,7) by auto
  show ?thesis by (rule exI [of _ r], rule exI [of _ p]) (use p f(5,6) in simp)
qed

section \<open>A forced tick\<close>

text \<open>The bytes of a copied interrupt object name the object they were written for: the copy is not used.\<close>

lemma mock_runs_original:
  assumes "Handler s Interrupt = HalpInitInterruptHandlerStub Interrupt IrqAddress h" "tpr (kcpu (ks (ps s))) \<ge> InterruptIrql s Interrupt"
  shows "HalMockupInterrupt isr rtc IrqAddress FullCtx tmpCopy Interrupt s =
    obind (IrqHandler isr rtc Interrupt FullCtx ((copy_interrupt tmpCopy Interrupt s)\<lparr>SendEOI := (SendEOI s)(tmpCopy := False)\<rparr>))
      (\<lambda>(r, s'). Done (r, set_cpu ((kcpu (ks (ps s')))\<lparr>tpr := tpr (kcpu (ks (ps s)))\<rparr>) s'))"
proof -
  have "HalMockupInterrupt isr rtc IrqAddress FullCtx tmpCopy Interrupt s =
    obind (run_handler isr rtc IrqAddress FullCtx (HalpInitInterruptHandlerStub Interrupt IrqAddress h)
        ((copy_interrupt tmpCopy Interrupt s)\<lparr>SendEOI := (SendEOI s)(tmpCopy := False)\<rparr>))
      (\<lambda>(r, s'). Done (r, set_cpu ((kcpu (ks (ps s')))\<lparr>tpr := tpr (kcpu (ks (ps s)))\<rparr>) s'))"
    using assms leD [OF assms(2)] by (cases "Interrupt = tmpCopy") (simp_all add: HalMockupInterrupt_def Let_def copy_interrupt_def)
  then show ?thesis by (simp add: run_handler_def InterruptHandlerStub_runs)
qed

end
