(* ===== verification/KernelStack.thy ===== *)
theory KernelStack
  imports PageFile PageAlloc
begin

text \<open>
  The stacks of threads in the kernel: PspCreateKernelStack of NNXOSKRN/scheduler.c over the paging model, and what
  a block of pages from PagingAllocatePageBlockEx looks like.
\<close>

section \<open>Operations\<close>

definition free_frame :: "u64 \<Rightarrow> mmu \<Rightarrow> mmu outcome" where
  "free_frame a s = obind (MmFreePhysicalAddress a (mcpu s) (mpfns s)) (\<lambda>(_, d). Done (s\<lparr>mpfns := d\<rparr>))"

text \<open>The lowest and the highest page of the block become guards: their frames are given back and their entries
  are not present, but not zero. The result is the end of the pages between.\<close>

definition PspCreateKernelStack :: "u64 \<Rightarrow> mmu \<Rightarrow> (u64 \<times> mmu) outcome" where
  "PspCreateKernelStack nPages s =
     obind (PagingAllocatePageBlockFromRange (nPages + 2) PAGING_KERNEL_SPACE PAGING_KERNEL_SPACE_END s) (\<lambda>(b, s).
     obind (PagingGetTableMapping b s) (\<lambda>m1.
     obind (PagingGetTableMapping (b + 4096 * (nPages + 1)) s) (\<lambda>m2.
     let guard1 = PAGE_ALIGN m1; guard2 = PAGE_ALIGN m2 in
     obind (PagingMapPage b 0 2 s) (\<lambda>(status, s).
     if \<not> NT_SUCCESS status then Done (NULL, s)
     else obind (PagingMapPage (b + 4096 * (nPages + 1)) 0 2 s) (\<lambda>(status, s).
     if \<not> NT_SUCCESS status then Done (NULL, s)
     else obind (free_frame guard1 s) (\<lambda>s.
          obind (free_frame guard2 s) (\<lambda>s. Done (b + (nPages + 1) * 4096, s))))))))"

definition PspFreeKernelStack :: "ptr \<Rightarrow> u64 \<Rightarrow> mmu \<Rightarrow> mmu" where
  "PspFreeKernelStack OriginalStackLocation nPages s = s"

section \<open>The flags of frames\<close>

text \<open>Allocating keeps the flags of a frame or clears them.\<close>

definition flags_kept :: "pfn_db \<Rightarrow> pfn_db \<Rightarrow> bool" where
  "flags_kept d d' = (same_static d d' \<and> (\<forall>e. Flags d' e = Flags d e \<or> Flags d' e = 0))"

lemma flags_kept_refl [simp]: "flags_kept d d" by (simp add: flags_kept_def same_static_def)

lemma flags_kept_entry: "flags_kept d d' \<Longrightarrow> pfn_entry d' g = pfn_entry d g"
  by (simp add: flags_kept_def same_static_entry)

lemma flags_kept_trans: "flags_kept a b \<Longrightarrow> flags_kept b c \<Longrightarrow> flags_kept a c"
  unfolding flags_kept_def same_static_def by metis

lemma flags_kept_lock: "flags_kept (d\<lparr>PfnEntriesLock := l\<rparr>) (d'\<lparr>PfnEntriesLock := l'\<rparr>) = flags_kept d d'"
  "flags_kept (d\<lparr>PfnEntriesLock := l\<rparr>) d' = flags_kept d d'" "flags_kept d (d'\<lparr>PfnEntriesLock := l'\<rparr>) = flags_kept d d'"
  by (auto simp: flags_kept_def same_static_def)

lemma pfn_locked_flags:
  assumes "pfn_locked c body d = Done (r, d')" "\<And>s r s'. body s = Done (r, s') \<Longrightarrow> flags_kept s s'"
  shows "flags_kept d d'"
  using assms(1) unfolding pfn_locked_def
  by (auto simp: obind_eq_Done flags_kept_lock dest!: assms(2))

lemma MmAllocatePfn_flags: "MmAllocatePfn c d = Done (r, d') \<Longrightarrow> flags_kept d d'"
proof (unfold MmAllocatePfn_def, erule pfn_locked_flags)
  fix s :: pfn_db and r :: "NTSTATUS \<times> PFN_NUMBER option" and s'
  obtain e h where r: "RemoveHeadList (FreeList s) (pheap s) = (e, h)" by fastforce
  assume "(if IsListEmpty (FreeList s) (pheap s) then Done ((STATUS_NO_MEMORY, None), s)
     else
       let (e, h) = RemoveHeadList (FreeList s) (pheap s);
           s = set_list e (WorkingsetList s) (s\<lparr>pheap := h\<rparr>);
           s = s\<lparr>Flags := (Flags s)(e := 0), pheap := InsertTailList (WorkingsetList s) e (pheap s)\<rparr>
       in Done ((STATUS_SUCCESS, Some (pfn_index s e)), s)) = Done (r, s')"
  then show "flags_kept s s'"
    unfolding r by (auto simp: flags_kept_def same_static_def set_list_def Let_def split: if_splits)
qed

lemma MmFreePfn_flags: "MmFreePfn i c d = Done (r, d') \<Longrightarrow> flags_kept d d'"
  by (unfold MmFreePfn_def, erule pfn_locked_flags)
    (auto simp: flags_kept_def same_static_def set_list_def Let_def split: if_splits)

lemma allocate_pfn_flags: "allocate_pfn s = Done (r, s') \<Longrightarrow> flags_kept (mpfns s) (mpfns s')"
  by (auto simp: allocate_pfn_def obind_eq_Done dest: MmAllocatePfn_flags)

lemma store_flags: "store v x s = Done s' \<Longrightarrow> mpfns s' = mpfns s"
  by (auto simp: store_def split: option.splits)

lemma zero_words_flags: "zero_words base is s = Done s' \<Longrightarrow> mpfns s' = mpfns s"
  by (induction "is" arbitrary: s) (auto simp: obind_eq_Done put_def dest: store_flags)

lemma ensure_table_flags: "ensure_table base i child s = Done (r, s') \<Longrightarrow> flags_kept (mpfns s) (mpfns s')"
  unfolding ensure_table_def
  by (auto simp: obind_eq_Done put_def split: if_splits option.splits dest!: allocate_pfn_flags store_flags zero_words_flags)

lemma PagingMapPage_flags: "PagingMapPage v p f s = Done (r, s') \<Longrightarrow> flags_kept (mpfns s) (mpfns s')"
  unfolding PagingMapPage_def Let_def and_then_def
  by (auto simp: obind_eq_Done put_def split: if_splits dest!: ensure_table_flags store_flags) (metis flags_kept_trans)+

section \<open>A block of pages\<close>

lemma page_of_offset:
  assumes "page_of v + i < 2 ^ 36"
  shows "page_of (v + word_of_nat i * 4096) = page_of v + i"
proof -
  let ?u = "unat v mod 2 ^ 48"
  have p: "page_of w = unat w mod 2 ^ 48 div 2 ^ 12" for w
    unfolding page_of_def using div_exp_mod_exp_eq [of "unat w" 12 36] by simp
  have i: "i < 2 ^ 36" using assms by simp
  have "unat (v + word_of_nat i * 4096) = (unat v + i * 4096) mod 2 ^ 64"
    using i by (simp add: unat_word_ariths unat_of_nat)
  then have "unat (v + word_of_nat i * 4096) mod 2 ^ 48 = (?u + i * 4096) mod 2 ^ 48"
    by (simp add: mod_mod_cancel mod_add_left_eq)
  moreover have "?u + i * 4096 < 2 ^ 48" using assms unfolding p by simp
  ultimately show ?thesis unfolding p by simp
qed

lemma allocate_physical_next:
  assumes "pfn_ok (mpfns s) (g # F) W" "PfnEntriesLock (mpfns s) = 0" "DISPATCH_LEVEL \<le> irql (mcpu s)"
  shows "\<exists>d. allocate_physical s = Done ((STATUS_SUCCESS, Some (PA_FROM_PFN g)), s\<lparr>mpfns := d\<rparr>) \<and> pfn_ok d F (W @ [g]) \<and>
    PfnEntriesLock d = 0 \<and> Flags d (pfn_entry d g) = 0 \<and> flags_kept (mpfns s) d"
proof -
  obtain d where d: "MmAllocatePfn (mcpu s) (mpfns s) = Done ((STATUS_SUCCESS, Some g), d)" "pfn_ok d F (W @ [g])" "PfnEntriesLock d = 0"
    "same_static (mpfns s) d" "Flags d (pfn_entry (mpfns s) g) = 0"
    using MmAllocatePfn_refines [OF assms] by blast
  have e: "pfn_entry d g = pfn_entry (mpfns s) g" using d(4) by (simp add: same_static_def pfn_entry_def)
  show ?thesis using d MmAllocatePfn_flags [OF d(1)]
    by (intro exI [of _ d]) (simp add: allocate_physical_def MmAllocatePhysicalAddress_def e)
qed

lemma mapped_frame: "PAGE_ALIGN (PA_FROM_PFN g) = PA_FROM_PFN g"
proof -
  have "PAGE_ALIGN (PA_FROM_PFN g) = and (push_bit 12 g) (not (mask 12))"
    by (simp add: PAGE_ALIGN_def PA_FROM_PFN_def push_bit_eq_mult mult.commute mask_eq_exp_minus_1)
  also have "\<dots> = push_bit 12 g"
    by (intro bit_word_eqI) (auto simp: bit_push_bit_iff bit_and_iff bit_not_iff bit_mask_iff simp del: mask_numeral)
  finally show ?thesis by (simp add: PA_FROM_PFN_def push_bit_eq_mult mult.commute)
qed

definition only_memory :: "mmu \<Rightarrow> mmu \<Rightarrow> bool" where
  "only_memory s s' = (s\<lparr>mpfns := mpfns s', phys := phys s'\<rparr> = s')"

lemma only_memory_refl [simp]: "only_memory s s" by (simp add: only_memory_def)

lemma only_memory_trans: "only_memory a b \<Longrightarrow> only_memory b c \<Longrightarrow> only_memory a c"
  unfolding only_memory_def by (cases a, cases b, cases c) simp

lemma only_memory_pfns [simp]: "only_memory (s\<lparr>mpfns := d\<rparr>) s' = only_memory s s'"
  unfolding only_memory_def by simp

lemma only_memoryI: "\<exists>d m. s' = s\<lparr>mpfns := d, phys := m\<rparr> \<Longrightarrow> only_memory s s'"
  by (auto simp: only_memory_def)

text \<open>Pages b to b + n - 1 have frames of the free list, in this order; the other entries are as before.\<close>

definition block_mapped :: "nat \<Rightarrow> PFN_NUMBER list \<Rightarrow> mmu \<Rightarrow> mmu \<Rightarrow> bool" where
  "block_mapped b gs s s' = (\<forall>k. ordinary k \<longrightarrow>
     page_entry s' k = (if b \<le> k \<and> k < b + length gs then or (PA_FROM_PFN (gs ! (k - b))) 3 else page_entry s k))"

lemma allocate_block_spec:
  assumes "ready s F W" "4 * length js \<le> length F" "page_of virt + j + length js < 2 ^ 36"
    "js = [j..<j + length js]" "\<And>i. i \<in> set js \<Longrightarrow> ordinary (page_of virt + i)"
  shows "\<exists>gs s' F' W'. allocate_block js virt 3 s = Done (True, s') \<and> ready s' F' W' \<and> length gs = length js \<and>
    distinct gs \<and> set gs \<subseteq> set F \<and> set F' \<subseteq> set F - set gs \<and> block_mapped (page_of virt + j) gs s s' \<and>
    only_memory s s' \<and> flags_kept (mpfns s) (mpfns s') \<and>
    (\<forall>g\<in>set gs. Flags (mpfns s') (pfn_entry (mpfns s') g) = 0 \<and> no_table s' g) \<and> tables_from s F s'"
  using assms
proof (induction js arbitrary: s F W j)
  case Nil
  from Nil show ?case
    by - (rule exI [of _ "[]"], rule exI [of _ s], rule exI [of _ F], rule exI [of _ W], auto simp: block_mapped_def)
next
  case (Cons i js)
  have ij: "i = j" "js = [Suc j..<Suc j + length js]"
    using Cons.prems(4) by (auto simp: upt_conv_Cons simp del: upt_Suc dest: arg_cong [of _ _ hd] arg_cong [of _ _ tl])
  obtain g F1 where F: "F = g # F1" using Cons.prems(2) by (cases F) auto
  have pf: "pfn_ok (mpfns s) (g # F1) W" "PfnEntriesLock (mpfns s) = 0" "DISPATCH_LEVEL \<le> irql (mcpu s)"
    using Cons.prems(1) F by (simp_all add: ready_def)
  obtain d where d: "allocate_physical s = Done ((STATUS_SUCCESS, Some (PA_FROM_PFN g)), s\<lparr>mpfns := d\<rparr>)" "pfn_ok d F1 (W @ [g])"
    "PfnEntriesLock d = 0" "Flags d (pfn_entry d g) = 0" "flags_kept (mpfns s) d"
    using allocate_physical_next [OF pf] by blast
  let ?s = "s\<lparr>mpfns := d\<rparr>"
  note sp = same_phys [of ?s s, simplified]
  have pe: "page_entry ?s k = page_entry s k" for k using sp by simp
  have r1: "ready ?s F1 (W @ [g])" using Cons.prems(1) d(2,3) F sp by (auto simp: ready_def)
  have pg: "page_of (virt + word_of_nat i * 4096) = page_of virt + j"
    using page_of_offset [of virt i] Cons.prems(3) ij(1) by simp
  have o: "ordinary (page_of virt + j)" using Cons.prems(5) ij(1) by simp
  have miss: "missing ?s (page_of virt + j) \<le> 3" by (simp add: missing_def)
  have "mapped (page_of virt + j) (or (PAGE_ALIGN (PA_FROM_PFN g)) (ucast (3 :: u16))) ?s F1
      (PagingMapPage (virt + word_of_nat i * 4096) (PA_FROM_PFN g) 3 ?s)"
    using PagingMapPage_mapped [OF r1, of "virt + word_of_nat i * 4096" "PA_FROM_PFN g" 3] o unfolding pg by blast
  then obtain st s1 F2 W2 where m0: "PagingMapPage (virt + word_of_nat i * 4096) (PA_FROM_PFN g) 3 ?s = Done (st, s1)" "ready s1 F2 W2"
    "\<exists>d m. s1 = ?s\<lparr>mpfns := d, phys := m\<rparr>" "tables_from ?s F1 s1"
    "missing ?s (page_of virt + j) \<le> length F1 \<and> st = STATUS_SUCCESS \<and> F2 = drop (missing ?s (page_of virt + j)) F1 \<and>
      (\<forall>k. ordinary k \<longrightarrow> page_entry s1 k = (if k = page_of virt + j then or (PA_FROM_PFN g) (ucast (3 :: u16)) else page_entry s k)) \<or>
     length F1 < missing ?s (page_of virt + j)"
    unfolding mapped_def mapped_frame pe by blast
  have "\<not> length F1 < missing ?s (page_of virt + j)" using miss Cons.prems(2) F by simp
  with m0 have m: "PagingMapPage (virt + word_of_nat i * 4096) (PA_FROM_PFN g) 3 ?s = Done (STATUS_SUCCESS, s1)" "ready s1 F2 W2"
    "\<exists>d m. s1 = ?s\<lparr>mpfns := d, phys := m\<rparr>" "F2 = drop (missing ?s (page_of virt + j)) F1"
    "\<And>k. ordinary k \<Longrightarrow> page_entry s1 k = (if k = page_of virt + j then or (PA_FROM_PFN g) 3 else page_entry s k)"
    by simp_all
  note fl = PagingMapPage_flags [OF m(1)]
  have l: "4 * length js \<le> length F2" using m(4) miss Cons.prems(2) F by simp
  have b: "page_of virt + Suc j + length js < 2 ^ 36" using Cons.prems(3) by simp
  have oj: "ordinary (page_of virt + i)" if "i \<in> set js" for i using Cons.prems(5) that by simp
  obtain gs s' F' W' where h: "allocate_block js virt 3 s1 = Done (True, s')" "ready s' F' W'" "length gs = length js" "distinct gs"
    "set gs \<subseteq> set F2" "set F' \<subseteq> set F2 - set gs" "block_mapped (page_of virt + Suc j) gs s1 s'" "only_memory s1 s'"
    "flags_kept (mpfns s1) (mpfns s')" "\<forall>g\<in>set gs. Flags (mpfns s') (pfn_entry (mpfns s') g) = 0 \<and> no_table s' g" "tables_from s1 F2 s'"
    using Cons.IH [OF m(2) l b ij(2) oj] by blast
  have F2: "set F2 \<subseteq> set F1" using m(4) by (simp add: set_drop_subset)
  have gF: "g \<notin> set F1" using pf(1) F by (simp add: pfn_ok_def)
  have fd: "flags_kept d (mpfns s')" using flags_kept_trans [OF fl [simplified] h(9)] .
  have fk: "flags_kept (mpfns s) (mpfns s')" using flags_kept_trans [OF d(5) fd] .
  have "Flags (mpfns s') (pfn_entry (mpfns s') g) = 0"
    using fd d(4) unfolding flags_kept_entry [OF fd] flags_kept_def by metis
  moreover have "block_mapped (page_of virt + j) (g # gs) s s'"
    using h(7) m(5) h(3) unfolding block_mapped_def by (auto simp: nth_Cons' Suc_le_eq)
  moreover have "allocate_block (i # js) virt 3 s = Done (True, s')" using d(1) m(1) h(1) by simp
  moreover have "only_memory s s'" using only_memory_trans [OF _ h(8)] only_memoryI [OF m(3)] by simp
  moreover have tf: "tables_from s F1 s'"
    using tables_from_trans [OF m0(4) F2 h(11)] unfolding tables_from_def by (simp add: sp)
  moreover have "no_table s' g"
    using tf gF Cons.prems(1) F unfolding tables_from_def no_table_def ready_def by fastforce
  moreover have "tables_from s F s'" using tf F unfolding tables_from_def by fastforce
  ultimately show ?case
    by - (rule exI [of _ "g # gs"], rule exI [of _ s'], rule exI [of _ F'], rule exI [of _ W'], use h F F2 gF fk in auto)
qed

section \<open>Guards\<close>

lemma free_frame_spec:
  assumes "pfn_ok (mpfns s) F W" "g \<in> set W" "PfnEntriesLock (mpfns s) = 0" "DISPATCH_LEVEL \<le> irql (mcpu s)"
    "Flags (mpfns s) (pfn_entry (mpfns s) g) = 0" "g < 2 ^ 40"
  shows "\<exists>d W'. free_frame (g * 4096) s = Done (s\<lparr>mpfns := d\<rparr>) \<and> pfn_ok d (F @ [g]) W' \<and> set W' = set W - {g} \<and> PfnEntriesLock d = 0 \<and>
    flags_kept (mpfns s) d"
proof -
  obtain us vs where W: "W = us @ g # vs" using split_list [OF assms(2)] by blast
  have a: "PFN_FROM_PA (g * 4096) = g" using entry_bits(5) [of g 0] assms(6) by (simp add: PFN_FROM_PA_def word_less_nat_alt)
  have np: "and (Flags (mpfns s) (pfn_entry (mpfns s) g)) MMPFN_FLAG_PERMAMENT = 0" using assms(5) by simp
  obtain d where d: "MmFreePfn g (mcpu s) (mpfns s) = Done (STATUS_SUCCESS, d)" "pfn_ok d (F @ [g]) (us @ vs)" "PfnEntriesLock d = 0"
    "same_static (mpfns s) d"
    using MmFreePfn_refines [OF assms(1) [unfolded W] assms(3,4) np] by blast
  have "distinct W" using assms(1) by (simp add: pfn_ok_def)
  then have "set (us @ vs) = set W - {g}" by (auto simp: W)
  moreover have "flags_kept (mpfns s) d" using MmFreePfn_flags [OF d(1)] .
  ultimately show ?thesis
    using d by (intro exI [of _ d] exI [of _ "us @ vs"]) (simp add: free_frame_def MmFreePhysicalAddress_def a)
qed

lemma mapped_entry: "g < 2 ^ 40 \<Longrightarrow> PAGE_ALIGN (or (PA_FROM_PFN g) 3) = g * 4096" "or (PA_FROM_PFN g) 3 \<noteq> 0"
proof -
  have "PA_FROM_PFN g = g * 4096" by (simp add: PA_FROM_PFN_def)
  then show "g < 2 ^ 40 \<Longrightarrow> PAGE_ALIGN (or (PA_FROM_PFN g) 3) = g * 4096"
    using entry_bits(2) [of g 3] by (simp add: word_less_nat_alt)
  have "bit (or (PA_FROM_PFN g) 3) 0" by (simp add: bit_simps)
  then show "or (PA_FROM_PFN g) 3 \<noteq> 0" by (metis bit_0_eq bot_apply bot_bool_def)
qed

text \<open>Both guards of a block whose pages are mapped to allocated frames.\<close>

definition guard_ready :: "mmu \<Rightarrow> nat \<Rightarrow> PFN_NUMBER \<Rightarrow> PFN_NUMBER list \<Rightarrow> PFN_NUMBER list \<Rightarrow> bool" where
  "guard_ready s k g F W = (ready s F W \<and> g \<in> set W \<and> g < 2 ^ 40 \<and> no_table s g \<and> Flags (mpfns s) (pfn_entry (mpfns s) g) = 0 \<and>
     ordinary k \<and> page_entry s k \<noteq> 0)"

lemma guard_page:
  assumes g: "guard_ready s (page_of v) g F W"
  shows "\<exists>m. PagingMapPage v 0 2 s = Done (STATUS_SUCCESS, s\<lparr>phys := m\<rparr>) \<and> ready (s\<lparr>phys := m\<rparr>) F W \<and>
    (\<forall>h. no_table s h \<longrightarrow> no_table (s\<lparr>phys := m\<rparr>) h) \<and>
    (\<forall>k. ordinary k \<longrightarrow> page_entry (s\<lparr>phys := m\<rparr>) k = (if k = page_of v then 2 else page_entry s k))"
proof -
  have r: "ready s F W" and o: "ordinary (page_of v)" and e: "page_entry s (page_of v) \<noteq> 0" using g by (simp_all add: guard_ready_def)
  have ok: "tables_ok s" using r by (simp add: ready_def)
  obtain m where m: "PagingMapPage v 0 2 s = Done (STATUS_SUCCESS, s\<lparr>phys := m\<rparr>)" "tables_ok (s\<lparr>phys := m\<rparr>)"
    "\<forall>p. valid_path p \<longrightarrow> table (s\<lparr>phys := m\<rparr>) p = table s p"
    "\<forall>k. ordinary k \<longrightarrow> page_entry (s\<lparr>phys := m\<rparr>) k = (if k = page_of v then or (PAGE_ALIGN 0) (ucast (2 :: u16)) else page_entry s k)"
    using PagingMapPage_entry [OF ok o e, of 0 2] by blast
  have "PAGE_ALIGN 0 = 0" by (simp add: PAGE_ALIGN_def)
  moreover have "ready (s\<lparr>phys := m\<rparr>) F W" using r m(2,3) by (auto simp: ready_def)
  ultimately show ?thesis using m(1,3,4) by (intro exI [of _ m]) (auto simp: no_table_def)
qed

lemma give_back:
  assumes r: "ready s F W" and g: "g \<in> set W" "g < 2 ^ 40" "no_table s g" "Flags (mpfns s) (pfn_entry (mpfns s) g) = 0"
  shows "\<exists>d W'. free_frame (g * 4096) s = Done (s\<lparr>mpfns := d\<rparr>) \<and> ready (s\<lparr>mpfns := d\<rparr>) (F @ [g]) W' \<and> set W' = set W - {g} \<and>
    flags_kept (mpfns s) d"
proof -
  have p: "pfn_ok (mpfns s) F W" "PfnEntriesLock (mpfns s) = 0" "DISPATCH_LEVEL \<le> irql (mcpu s)" using r by (simp_all add: ready_def)
  obtain d W' where d: "free_frame (g * 4096) s = Done (s\<lparr>mpfns := d\<rparr>)" "pfn_ok d (F @ [g]) W'" "set W' = set W - {g}" "PfnEntriesLock d = 0"
    "flags_kept (mpfns s) d"
    using free_frame_spec [OF p(1) g(1) p(2,3) g(4,2)] by blast
  have "ready (s\<lparr>mpfns := d\<rparr>) (F @ [g]) W'" using r d(2,4) g(2,3) by (auto simp: ready_def no_table_def)
  then show ?thesis using d(1,3,5) by blast
qed

text \<open>Both guards together, from a block that is mapped.\<close>

lemma make_guards:
  assumes r: "ready s F W" "PagingSpinlock s = 0" and g: "guard_ready s (page_of v) g F W" "guard_ready s (page_of w) h F W"
    and d: "g \<noteq> h" "page_of v \<noteq> page_of w"
  shows "\<exists>s' W'. obind (PagingMapPage v 0 2 s) (\<lambda>(status, s).
     if \<not> NT_SUCCESS status then Done (NULL, s)
     else obind (PagingMapPage w 0 2 s) (\<lambda>(status, s).
     if \<not> NT_SUCCESS status then Done (NULL, s)
     else obind (free_frame (g * 4096) s) (\<lambda>s.
          obind (free_frame (h * 4096) s) (\<lambda>s. Done (x, s))))) = Done (x, s') \<and> ready s' (F @ [g, h]) W' \<and> PagingSpinlock s' = 0 \<and>
     (\<forall>k. ordinary k \<longrightarrow> page_entry s' k = (if k = page_of v \<or> k = page_of w then 2 else page_entry s k))"
proof -
  obtain m1 where m1: "PagingMapPage v 0 2 s = Done (STATUS_SUCCESS, s\<lparr>phys := m1\<rparr>)" "ready (s\<lparr>phys := m1\<rparr>) F W"
    "\<forall>h. no_table s h \<longrightarrow> no_table (s\<lparr>phys := m1\<rparr>) h"
    "\<forall>k. ordinary k \<longrightarrow> page_entry (s\<lparr>phys := m1\<rparr>) k = (if k = page_of v then 2 else page_entry s k)"
    using guard_page [OF g(1)] by blast
  let ?s1 = "s\<lparr>phys := m1\<rparr>"
  have g2: "guard_ready ?s1 (page_of w) h F W" using g(2) m1(2-4) d(2) by (auto simp: guard_ready_def)
  obtain m2 where m2: "PagingMapPage w 0 2 ?s1 = Done (STATUS_SUCCESS, ?s1\<lparr>phys := m2\<rparr>)" "ready (?s1\<lparr>phys := m2\<rparr>) F W"
    "\<forall>h. no_table ?s1 h \<longrightarrow> no_table (?s1\<lparr>phys := m2\<rparr>) h"
    "\<forall>k. ordinary k \<longrightarrow> page_entry (?s1\<lparr>phys := m2\<rparr>) k = (if k = page_of w then 2 else page_entry ?s1 k)"
    using guard_page [OF g2] by blast
  let ?s2 = "?s1\<lparr>phys := m2\<rparr>"
  have q: "g \<in> set W" "g < 2 ^ 40" "no_table ?s2 g" "Flags (mpfns ?s2) (pfn_entry (mpfns ?s2) g) = 0"
    "h \<in> set W" "h < 2 ^ 40" "no_table ?s2 h" "Flags (mpfns ?s2) (pfn_entry (mpfns ?s2) h) = 0"
    using g m1(3) m2(3) by (simp_all add: guard_ready_def)
  obtain d1 W1 where d1: "free_frame (g * 4096) ?s2 = Done (?s2\<lparr>mpfns := d1\<rparr>)" "ready (?s2\<lparr>mpfns := d1\<rparr>) (F @ [g]) W1" "set W1 = set W - {g}"
    "flags_kept (mpfns ?s2) d1"
    using give_back [OF m2(2) q(1-4)] by blast
  let ?s3 = "?s2\<lparr>mpfns := d1\<rparr>"
  have "Flags d1 (pfn_entry d1 h) = 0" using d1(4) q(8) unfolding flags_kept_entry [OF d1(4)] flags_kept_def by metis
  moreover have "no_table ?s3 h" using q(7) by (simp add: no_table_def)
  ultimately obtain d2 W2 where d2: "free_frame (h * 4096) ?s3 = Done (?s3\<lparr>mpfns := d2\<rparr>)" "ready (?s3\<lparr>mpfns := d2\<rparr>) ((F @ [g]) @ [h]) W2"
    using give_back [OF d1(2), of h] q(5,6) d1(3) d(1) by auto
  have e: "page_entry (?s3\<lparr>mpfns := d2\<rparr>) k = (if k = page_of v \<or> k = page_of w then 2 else page_entry s k)" if "ordinary k" for k
    using m1(4) m2(4) that by auto
  show ?thesis
    by (intro exI [of _ "?s3\<lparr>mpfns := d2\<rparr>"] exI [of _ W2])
      (use m1(1) m2(1) d1(1) d2 r(2) e in simp)
qed

section \<open>Property\<close>

lemma first_run_Some:
  assumes "first_run free lo hi c = Some i"
  shows "lo \<le> i" "i + c < hi" "j < c \<Longrightarrow> free (i + j)"
  using assms unfolding first_run_def find_Some_iff list_all_iff by auto

lemma kernel_space: "page_of PAGING_KERNEL_SPACE = 2 ^ 36 - 2 ^ 27" "page_of PAGING_KERNEL_SPACE_END = 2 ^ 36 - 1"
  "2 ^ 36 - 2 ^ 27 \<le> n \<Longrightarrow> n < 2 ^ 36 \<Longrightarrow> ordinary n"
  by (simp_all add: page_of_def ordinary_def)

lemma allocate_range_spec:
  assumes "ready s F W" "PagingSpinlock s = 0"
    and "first_run (free_page s) (page_of PAGING_KERNEL_SPACE) (page_of PAGING_KERNEL_SPACE_END) c = Some b" and "4 * c \<le> length F"
  shows "\<exists>hs t F1 W1. PagingAllocatePageBlockFromRange (word_of_nat c) PAGING_KERNEL_SPACE PAGING_KERNEL_SPACE_END s = Done (run_result (Some b), t) \<and>
    ready t F1 W1 \<and> PagingSpinlock t = 0 \<and> length hs = c \<and> distinct hs \<and> set hs \<subseteq> set F \<and> set F1 \<subseteq> set F - set hs \<and>
    (\<forall>g\<in>set hs. g \<in> set W1 \<and> g < 2 ^ 40 \<and> no_table t g \<and> Flags (mpfns t) (pfn_entry (mpfns t) g) = 0) \<and>
    (\<forall>k. ordinary k \<longrightarrow> page_entry t k = (if b \<le> k \<and> k < b + c then or (PA_FROM_PFN (hs ! (k - b))) 3 else page_entry s k))"
proof -
  let ?t = "s\<lparr>PagingSpinlock := 1\<rparr>" and ?v = "run_result (Some b)"
  note fr = first_run_Some [OF assms(3), unfolded kernel_space]
  have b: "2 ^ 36 - 2 ^ 27 \<le> b" "b + c < 2 ^ 36" using fr(1,2) by simp_all
  have q: "DISPATCH_LEVEL \<le> irql (mcpu s)" "tables_ok s" using assms(1) by (simp_all add: ready_def)
  have cnt: "unat (word_of_nat c :: u64) = c" using b by (simp only: unat_of_nat) simp
  have pv: "page_of ?v = b" using page_of_page [of b] b(2) by (simp add: run_result_def page_of_canonical)
  have lock: "lock_paging s = Done ?t" by (rule paging_locks(1) [OF q(1) assms(2)])
  have "PagingFindFreePages PAGING_KERNEL_SPACE PAGING_KERNEL_SPACE_END (word_of_nat c) ?t =
      Done (run_result (first_run (free_page ?t) (page_of PAGING_KERNEL_SPACE) (page_of PAGING_KERNEL_SPACE_END) (unat (word_of_nat c :: u64))))"
  proof (rule PagingFindFreePages_run)
    show "ordinary k" if "page_of PAGING_KERNEL_SPACE \<le> k" "k < page_of PAGING_KERNEL_SPACE_END" for k
      using that kernel_space(3) [of k] unfolding kernel_space by simp
    show "unat (word_of_nat c :: u64) < 2 ^ 63" using b unfolding cnt by simp
  qed (use q(2) in simp_all)
  then have find: "PagingFindFreePages PAGING_KERNEL_SPACE PAGING_KERNEL_SPACE_END (word_of_nat c) ?t = Done ?v"
    unfolding cnt using assms(3) by simp
  have "ready ?t F W" "4 * length [0..<c] \<le> length F" "page_of ?v + 0 + length [0..<c] < 2 ^ 36" "[0..<c] = [0..<0 + length [0..<c]]"
    using assms(1,4) b(2) pv by simp_all
  moreover have "\<And>i. i \<in> set [0..<c] \<Longrightarrow> ordinary (page_of ?v + i)" using kernel_space(3) b unfolding pv by auto
  ultimately obtain hs s1 F1 W1 where h: "allocate_block [0..<c] ?v 3 ?t = Done (True, s1)" "ready s1 F1 W1" "length hs = length [0..<c]"
    "distinct hs" "set hs \<subseteq> set F" "set F1 \<subseteq> set F - set hs" "block_mapped (page_of ?v + 0) hs ?t s1" "only_memory ?t s1"
    "flags_kept (mpfns ?t) (mpfns s1)" "\<forall>g\<in>set hs. Flags (mpfns s1) (pfn_entry (mpfns s1) g) = 0 \<and> no_table s1 g"
    using allocate_block_spec [of ?t F W "[0..<c]" ?v 0] by blast
  let ?u = "s1\<lparr>PagingSpinlock := 0\<rparr>"
  have q1: "DISPATCH_LEVEL \<le> irql (mcpu s1)" using h(2) by (simp add: ready_def)
  have "PagingSpinlock s1 = PagingSpinlock (?t\<lparr>mpfns := mpfns s1, phys := phys s1\<rparr>)" using h(8) by (simp only: only_memory_def)
  then have unlock: "unlock_paging s1 = Done ?u" using paging_locks(2) [OF q1] by simp
  have inW: "g \<in> set W1" if "g \<in> set hs" for g
  proof -
    have "set (F1 @ W1) = {i. i < NumberOfPfnEntries (mpfns s1)}" "set (F @ W) = {i. i < NumberOfPfnEntries (mpfns s)}"
      using h(2) assms(1) by (simp_all add: ready_def pfn_ok_def)
    moreover have "NumberOfPfnEntries (mpfns s1) = NumberOfPfnEntries (mpfns s)" using h(9) by (simp add: flags_kept_def same_static_def)
    ultimately show ?thesis using that h(5,6) by auto
  qed
  have lt: "g < 2 ^ 40" if "g \<in> set hs" for g using that h(5) assms(1) by (auto simp: ready_def)
  have o: "(or 1 2 :: u16) = 3" by simp
  have "PagingAllocatePageBlockFromRange (word_of_nat c) PAGING_KERNEL_SPACE PAGING_KERNEL_SPACE_END s = Done (?v, ?u)"
    unfolding PagingAllocatePageBlockFromRange_def PagingAllocatePageBlockEx_def lock
    by (simp only: o find cnt h(1) unlock obind.simps prod.case if_True)
  then show ?thesis
    by (intro exI [of _ hs] exI [of _ ?u] exI [of _ F1] exI [of _ W1])
      (use h(2-7,10) inW lt in \<open>simp add: block_mapped_def pv no_table_def\<close>)
qed

text \<open>C28: a kernel stack of n pages, when the kernel space has n + 2 free pages in a row and enough frames are free. The first
  run of n + 2 free pages, from page b, is taken. The n pages between its ends are mapped, writable and for the kernel only,
  to n frames of their own that were free; the first and the last page become guards, whose entries are not
  present but not zero, so that neither the processor nor the search for free pages takes them; their two frames are
  free again. The address returned is the end of the last mapped page, where the guard above begins. Every other
  page is as it was.\<close>

theorem PspCreateKernelStack_spec:
  assumes "ready s F W" "PagingSpinlock s = 0"
    and "first_run (free_page s) (page_of PAGING_KERNEL_SPACE) (page_of PAGING_KERNEL_SPACE_END) (n + 2) = Some b"
    and "4 * (n + 2) \<le> length F"
  shows "\<exists>gs g1 g2 s' F' W'.
    PspCreateKernelStack (word_of_nat n) s = Done (ToCanonicalAddress (word_of_nat b * 4096) + word_of_nat (n + 1) * 4096, s') \<and>
    ready s' (F' @ [g1, g2]) W' \<and> PagingSpinlock s' = 0 \<and> length gs = n \<and> distinct (g1 # gs @ [g2]) \<and>
    set (g1 # gs @ [g2]) \<subseteq> set F \<and> set F' \<subseteq> set F - set (g1 # gs @ [g2]) \<and>
    (\<forall>k. ordinary k \<longrightarrow> page_entry s' k =
       (if k = b \<or> k = b + n + 1 then 2 else if b < k \<and> k \<le> b + n then or (PA_FROM_PFN (gs ! (k - b - 1))) 3 else page_entry s k))"
proof -
  let ?v = "run_result (Some b)" let ?w = "?v + word_of_nat (n + 1) * 4096"
  note fr = first_run_Some [OF assms(3), unfolded kernel_space]
  have b: "2 ^ 36 - 2 ^ 27 \<le> b" "b + n + 2 < 2 ^ 36" using fr(1,2) by simp_all
  have pv: "page_of ?v = b" and pw: "page_of ?w = b + (n + 1)"
    using page_of_page [of b] page_of_offset [of ?v "n + 1"] b(2) by (simp_all add: run_result_def page_of_canonical)
  have ord: "ordinary (b + j)" if "j < n + 2" for j using kernel_space(3) [of "b + j"] b that by simp
  obtain hs t F1 W1 where h: "PagingAllocatePageBlockFromRange (word_of_nat (n + 2)) PAGING_KERNEL_SPACE PAGING_KERNEL_SPACE_END s = Done (?v, t)"
    "ready t F1 W1" "PagingSpinlock t = 0" "length hs = n + 2" "distinct hs" "set hs \<subseteq> set F" "set F1 \<subseteq> set F - set hs"
    "\<forall>g\<in>set hs. g \<in> set W1 \<and> g < 2 ^ 40 \<and> no_table t g \<and> Flags (mpfns t) (pfn_entry (mpfns t) g) = 0"
    "\<forall>k. ordinary k \<longrightarrow> page_entry t k = (if b \<le> k \<and> k < b + (n + 2) then or (PA_FROM_PFN (hs ! (k - b))) 3 else page_entry s k)"
    using allocate_range_spec [OF assms] by blast
  obtain g1 ys where "hs = g1 # ys" "length ys = Suc n" using h(4) by (auto simp: length_Suc_conv)
  moreover from this obtain gs g2 where "ys = gs @ [g2]" by (cases ys rule: rev_cases) auto
  ultimately have hs: "hs = g1 # gs @ [g2]" and len: "length gs = n" by simp_all
  have gd: "guard_ready t (page_of ?v) g1 F1 W1" "guard_ready t (page_of ?w) g2 F1 W1"
    using h(2,8,9) ord [of 0] ord [of "n + 1"] unfolding pv pw by (simp_all add: guard_ready_def mapped_entry hs)
  have m: "PAGE_ALIGN (page_entry t (page_of ?v)) = g1 * 4096" "PAGE_ALIGN (page_entry t (page_of ?w)) = g2 * 4096"
    using h(8,9) ord [of 0] ord [of "n + 1"] len unfolding pv pw by (simp_all add: hs nth_append mapped_entry)
  have ok: "tables_ok t" using h(2) by (simp add: ready_def)
  have gm: "PagingGetTableMapping ?v t = Done (page_entry t (page_of ?v))" "PagingGetTableMapping ?w t = Done (page_entry t (page_of ?w))"
    using PagingGetTableMapping_page [OF ok] ord [of 0] ord [of "n + 1"] pv pw by simp_all
  have d: "g1 \<noteq> g2" "page_of ?v \<noteq> page_of ?w" using h(5) hs pv pw by auto
  obtain s' W' where s': "obind (PagingMapPage ?v 0 2 t) (\<lambda>(status, s).
     if \<not> NT_SUCCESS status then Done (NULL, s)
     else obind (PagingMapPage ?w 0 2 s) (\<lambda>(status, s).
     if \<not> NT_SUCCESS status then Done (NULL, s)
     else obind (free_frame (g1 * 4096) s) (\<lambda>s.
          obind (free_frame (g2 * 4096) s) (\<lambda>s. Done (?w, s))))) = Done (?w, s')"
    "ready s' (F1 @ [g1, g2]) W'" "PagingSpinlock s' = 0"
    "\<forall>k. ordinary k \<longrightarrow> page_entry s' k = (if k = page_of ?v \<or> k = page_of ?w then 2 else page_entry t k)"
    using make_guards [OF h(2,3) gd d, of ?w] by blast
  have w: "word_of_nat n + 2 = (word_of_nat (n + 2) :: u64)" "?v + 4096 * (word_of_nat n + 1) = ?w" "?v + (word_of_nat n + 1) * 4096 = ?w"
    by (simp_all add: algebra_simps)
  have "PspCreateKernelStack (word_of_nat n) s = Done (?w, s')"
    unfolding PspCreateKernelStack_def by (simp only: w h(1) obind.simps prod.case gm m Let_def s'(1))
  moreover have "page_entry s' k =
       (if k = b \<or> k = b + n + 1 then 2 else if b < k \<and> k \<le> b + n then or (PA_FROM_PFN (gs ! (k - b - 1))) 3 else page_entry s k)" if "ordinary k" for k
  proof -
    have "hs ! (k - b) = gs ! (k - b - 1)" if "b < k" "k \<le> b + n"
    proof -
      have "k - b - 1 < n" "k - b \<noteq> 0" using that by arith+
      then show ?thesis using len by (simp add: hs nth_Cons' nth_append)
    qed
    then show ?thesis using s'(4) that h(9) unfolding pv pw by auto
  qed
  ultimately show ?thesis
    by (intro exI [of _ gs] exI [of _ g1] exI [of _ g2] exI [of _ s'] exI [of _ F1] exI [of _ W'])
      (use s'(2,3) h(5-7) hs len in \<open>simp add: run_result_def\<close>)
qed

text \<open>Sixteen frames, of which the first is the top table and the others are free.\<close>

definition stack_db :: pfn_db where "stack_db = MmReinitPhysAllocator 0x1000 16 blank_db"

definition stack_mmu :: mmu where
  "stack_mmu = small_mmu\<lparr>mpfns := stack_db, phys := (\<lambda>_ _. 0)(0 := (\<lambda>_. 0)(510 := 3))\<rparr>"

lemma stack_geometry: "geometry (blank_db\<lparr>PfnEntries := 0x1000, NumberOfPfnEntries := 16\<rparr>)"
proof -
  have e: "unat (0x1000 + 32 * i :: u64) = 0x1000 + 32 * unat i" if "i < 16" for i :: u64
    using that by (simp add: unat_word_ariths word_less_nat_alt)
  show ?thesis
    unfolding geometry_def pfn_entry_def
    by (auto simp: blank_db_def word_unat_eq_iff e intro!: inj_onI)
qed

lemma stack_db_ok: "pfn_ok stack_db [1, 2, 3, 4, 5, 6, 7, 8, 9, 10, 11, 12, 13, 14, 15] [0]" "PfnEntriesLock stack_db = 0"
proof -
  have "pfns_below (unat (16 :: u64)) = [0, 1, 2, 3, 4, 5, 6, 7, 8, 9, 10, 11, 12, 13, 14, 15]"
    by (simp add: pfns_below_def upt_rec)
  then show "pfn_ok stack_db [1, 2, 3, 4, 5, 6, 7, 8, 9, 10, 11, 12, 13, 14, 15] [0]" "PfnEntriesLock stack_db = 0"
    using reinit_establishes [OF stack_geometry] unfolding blank_flags stack_db_def by auto
qed

lemma stack_tables: "valid_path p \<Longrightarrow> table stack_mmu p = (if p = [] then Some 0 else None)"
proof (induction p)
  case Nil then show ?case by (simp add: stack_mmu_def small_mmu_def small_frames)
next
  case (Cons i p)
  have "p = [] \<Longrightarrow> i \<noteq> 510" using Cons.prems by (simp add: valid_path_def)
  then show ?case using Cons.IH [OF valid_path_Cons [OF Cons.prems]] by (auto simp: stack_mmu_def small_mmu_def)
qed

lemma stack_ready: "ready stack_mmu [1, 2, 3, 4, 5, 6, 7, 8, 9, 10, 11, 12, 13, 14, 15] [0]"
proof -
  have "tables_ok stack_mmu"
    unfolding tables_ok_def
  proof (intro conjI allI impI)
    show "good (phys stack_mmu (frame_of (cr3 stack_mmu)) 510)"
      "frame_of (phys stack_mmu (frame_of (cr3 stack_mmu)) 510) = frame_of (cr3 stack_mmu)"
      by (simp_all add: stack_mmu_def small_mmu_def small_frames)
    show "good (phys stack_mmu f i)" if v: "valid_path (i # p)" and t: "table stack_mmu p = Some f" and z: "phys stack_mmu f i \<noteq> 0" for p i f
      using t z stack_tables [OF valid_path_Cons [OF v]] by (auto simp: stack_mmu_def small_frames split: if_splits)
    show "p = q" if "valid_path p" "valid_path q" "table stack_mmu p = Some f" "table stack_mmu q = Some f" for p q f
      using that by (auto simp: stack_tables split: if_splits)
  qed
  then show ?thesis
    using stack_db_ok by (auto simp: ready_def stack_tables) (auto simp: stack_mmu_def small_mmu_def)
qed

lemma stack_page_entry: "ordinary n \<Longrightarrow> page_entry stack_mmu n = 0"
  using stack_tables [OF page_path_valid] by (simp add: page_entry_def page_path_def)

theorem PspCreateKernelStack_spec_witness:
  "\<exists>s' F W. PspCreateKernelStack 1 stack_mmu = Done (0xFFFFFF8000002000, s') \<and> ready s' F W \<and>
     page_entry s' (2 ^ 36 - 2 ^ 27) = 2 \<and> bit (page_entry s' (2 ^ 36 - 2 ^ 27 + 1)) 0 \<and> page_entry s' (2 ^ 36 - 2 ^ 27 + 2) = 2"
proof -
  let ?b = "2 ^ 36 - 2 ^ 27 :: nat"
  have o: "ordinary (?b + i)" if "i < 3" for i using kernel_space(3) [of "?b + i"] that by simp
  have lk: "PagingSpinlock stack_mmu = 0" by (simp add: stack_mmu_def small_mmu_def)
  have u: "[?b..<?b + 3] = [?b, ?b + 1, ?b + 2]" by (simp add: upt_conv_Cons)
  have fr: "first_run (free_page stack_mmu) (page_of PAGING_KERNEL_SPACE) (page_of PAGING_KERNEL_SPACE_END) (1 + 2) = Some ?b"
    unfolding kernel_space
    by (rule first_run_here) (use o [of 0] o [of 1] o [of 2] u in \<open>simp_all add: free_page_def stack_page_entry\<close>)
  have c: "ToCanonicalAddress (word_of_nat ?b * 4096) + word_of_nat (1 + 1) * 4096 = 0xFFFFFF8000002000"
    by (simp add: ToCanonicalAddress_def)
  have len: "4 * (1 + 2) \<le> length [1 :: u64, 2, 3, 4, 5, 6, 7, 8, 9, 10, 11, 12, 13, 14, 15]" by simp
  obtain gs g1 g2 s' F' W' where h: "PspCreateKernelStack (word_of_nat 1) stack_mmu = Done (0xFFFFFF8000002000, s')"
    "ready s' (F' @ [g1, g2]) W'"
    "\<forall>k. ordinary k \<longrightarrow> page_entry s' k = (if k = ?b \<or> k = ?b + 1 + 1 then 2 else if ?b < k \<and> k \<le> ?b + 1 then or (PA_FROM_PFN (gs ! (k - ?b - 1))) 3
       else page_entry stack_mmu k)"
    using PspCreateKernelStack_spec [OF stack_ready lk fr, unfolded c] len by blast
  have "bit (or (PA_FROM_PFN (gs ! 0)) 3) 0" by (simp add: bit_simps)
  then show ?thesis
    using h o [of 0] o [of 1] o [of 2] by (intro exI [of _ s'] exI [of _ "F' @ [g1, g2]"] exI [of _ W']) simp
qed

end
