(* ===== verification/Processes.thy ===== *)
theory Processes
  imports Interrupts Namespace Handles KernelStack
begin

text \<open>
  Creation and deletion of threads and processes (the rest of NNXOSKRN/scheduler.c, with HAL/X64/pcr.c). The state
  puts the object manager, the processor with its scheduler and interrupts, and the memory manager together: an object that is
  created runs the method of its type, which takes the dispatcher lock and maps the stacks of the thread.
\<close>

section \<open>State\<close>

text \<open>A KPROCESS has its ThreadListHead at offset 88, its ProcessListEntry at 112, its HandleDatabaseHead at 144 and
  its LdrModulesHead at 160; a KTHREAD has its ProcessChildListEntry at 272 and its ThreadListEntry at 288; its saved
  APC state follows the one at 368. The fields OnCreate... are those of a THREAD_ON_CREATE_DATA.\<close>

definition ChildThreads :: "ptr \<Rightarrow> ptr" where "ChildThreads p = p + 88"
definition ProcessListEntry :: "ptr \<Rightarrow> ptr" where "ProcessListEntry p = p + 112"
definition HandleDatabaseHead :: "ptr \<Rightarrow> ptr" where "HandleDatabaseHead p = p + 144"
definition LdrModulesHead :: "ptr \<Rightarrow> ptr" where "LdrModulesHead p = p + 160"
definition ProcessChildListEntry :: "ptr \<Rightarrow> ptr" where "ProcessChildListEntry t = t + 272"
definition ThreadListEntry :: "ptr \<Rightarrow> ptr" where "ThreadListEntry t = t + 288"
definition SavedApcState :: "ptr \<Rightarrow> ptr" where "SavedApcState t = t + 424"

record sys = ob +
  ist :: istate
  mm :: mmu
  ProcessListHead :: ptr
  ThreadListHead :: ptr
  EThreadProcess :: "ptr \<Rightarrow> ptr"
  StartAddress :: "ptr \<Rightarrow> u64"
  OriginalKernelStackPointer :: "ptr \<Rightarrow> u64"
  NumberOfKernelStackPages :: "ptr \<Rightarrow> u64"
  ApcBackupKernelStackPointer :: "ptr \<Rightarrow> u64"
  NumberOfThreads :: "ptr \<Rightarrow> u64"
  AffinityMask :: "ptr \<Rightarrow> u64"
  ProcessInitialized :: "ptr \<Rightarrow> bool"
  OnCreateEntrypoint :: "ptr \<Rightarrow> u64"
  OnCreateIsKernel :: "ptr \<Rightarrow> bool"
  OnCreateParentProcess :: "ptr \<Rightarrow> ptr"
  IdleProcess :: "u8 \<Rightarrow> ptr"
  DummyThread :: ptr
  PcrTss :: u64
  PsProcessType :: ptr
  PsThreadType :: ptr
  CoresSchedulerData :: ptr
  PspCoresInitialized :: u32
  KeNumberOfProcessors :: u32

type_synonym 'z psp_methods = "'z sys_ext methods"

definition on_ps :: "(pstate \<Rightarrow> pstate) \<Rightarrow> 'z sys_scheme \<Rightarrow> 'z sys_scheme" where
  "on_ps f s = s\<lparr>ist := (ist s)\<lparr>ps := f (ps (ist s))\<rparr>\<rparr>"

definition on_ks :: "(kstate \<Rightarrow> kstate) \<Rightarrow> 'z sys_scheme \<Rightarrow> 'z sys_scheme" where
  "on_ks f = on_ps (\<lambda>p. p\<lparr>ks := f (ks p)\<rparr>)"

abbreviation (input) kst :: "'z sys_scheme \<Rightarrow> kstate" where "kst s \<equiv> ks (ps (ist s))"

definition current_process :: "'z sys_scheme \<Rightarrow> ptr" where
  "current_process s = ThreadProcess (kst s) (CurrentThread (kst s))"

text \<open>The parts share the processor, and the object manager calls the lock and the handle database of the current process its own:
  both are handed over when the scheduler, or the memory manager, runs, and taken back after it.\<close>

definition share_in :: "'z sys_scheme \<Rightarrow> istate" where
  "share_in s = ist (on_ks (\<lambda>k. k\<lparr>kcpu := ocpu s,
     Locks := (Locks k)(Threads.ProcessLock (current_process s) := Objects.ProcessLock s)\<rparr>) s)"

definition share_out :: "istate \<Rightarrow> 'z sys_scheme \<Rightarrow> 'z sys_scheme" where
  "share_out i s = (let s = s\<lparr>ist := i\<rparr>; k = kst s; p = current_process s in
     s\<lparr>ocpu := kcpu k, Objects.ProcessLock := Locks k (Threads.ProcessLock p), ProcessHandleDatabaseHead := HandleDatabaseHead p\<rparr>)"

definition run_ist :: "(istate \<Rightarrow> ('a \<times> istate) outcome) \<Rightarrow> 'z sys_scheme \<Rightarrow> ('a \<times> 'z sys_scheme) outcome" where
  "run_ist f s = obind (f (share_in s)) (\<lambda>(r, i). Done (r, share_out i s))"

definition run_ks :: "(kstate \<Rightarrow> ('a \<times> kstate) outcome) \<Rightarrow> 'z sys_scheme \<Rightarrow> ('a \<times> 'z sys_scheme) outcome" where
  "run_ks f = run_ist (\<lambda>i. obind (f (ks (ps i))) (\<lambda>(r, k). Done (r, i\<lparr>ps := (ps i)\<lparr>ks := k\<rparr>\<rparr>)))"

definition do_ks :: "(kstate \<Rightarrow> kstate outcome) \<Rightarrow> 'z sys_scheme \<Rightarrow> 'z sys_scheme outcome" where
  "do_ks f s = obind (run_ks (\<lambda>k. obind (f k) (\<lambda>k. Done ((), k))) s) (\<lambda>(_, s). Done s)"

definition run_mm :: "(mmu \<Rightarrow> ('a \<times> mmu) outcome) \<Rightarrow> 'z sys_scheme \<Rightarrow> ('a \<times> 'z sys_scheme) outcome" where
  "run_mm f s = obind (f ((mm s)\<lparr>mcpu := ocpu s, cr3 := pcr3 (ps (ist s))\<rparr>)) (\<lambda>(r, m). Done (r, s\<lparr>mm := m, ocpu := mcpu m\<rparr>))"

definition pool_alloc :: "u64 \<Rightarrow> 'z sys_scheme \<Rightarrow> (ptr \<times> 'z sys_scheme) outcome" where
  "pool_alloc n s = obind (ExAllocatePool NonPagedPool n ((opool s)\<lparr>cpool := ocpu s\<rparr>)) (\<lambda>(p, q).
     Done (p, s\<lparr>opool := q, ocpu := cpool q\<rparr>))"

definition lock_dispatcher :: "'z sys_scheme \<Rightarrow> (u8 \<times> 'z sys_scheme) outcome" where "lock_dispatcher = run_ks KiAcquireDispatcherLock"

definition unlock_dispatcher :: "u8 \<Rightarrow> 'z sys_scheme \<Rightarrow> 'z sys_scheme outcome" where "unlock_dispatcher old = do_ks (KiReleaseDispatcherLock old)"

definition set_sheap :: "(list_heap \<Rightarrow> list_heap) \<Rightarrow> 'z sys_scheme \<Rightarrow> 'z sys_scheme" where
  "set_sheap f = on_ks (\<lambda>k. k\<lparr>sheap := f (sheap k)\<rparr>)"

section \<open>Processes\<close>

text \<open>The status of MmCreateAddressSpace is dropped. A KPROCESS has its AddressSpace at 56, the list of section
  views 8 and the lock 24 bytes behind.\<close>

definition create_address_space :: "ptr \<Rightarrow> 'z sys_scheme \<Rightarrow> (NTSTATUS \<times> 'z sys_scheme) outcome" where
  "create_address_space a s =
     obind (run_mm (\<lambda>m. obind (MmCreateAddressSpace \<lparr>TopStructPhysAddress = TopStruct (ps (ist s)) a, SectionViewHead = a + 8,
                ALock = Locks (kst s) (a + 24)\<rparr> m) (\<lambda>(status, r, m). Done ((status, r), m))) s) (\<lambda>((status, r), s).
     Done (status, on_ks (\<lambda>k. k\<lparr>Locks := (Locks k)(a + 24 := ALock r)\<rparr>)
       (on_ps (\<lambda>p. p\<lparr>TopStruct := (TopStruct p)(a := TopStructPhysAddress r)\<rparr>) s)))"

definition PspProcessOnCreateNoDispatcher :: "ptr \<Rightarrow> ptr \<Rightarrow> 'z sys_scheme \<Rightarrow> (NTSTATUS \<times> 'z sys_scheme) outcome" where
  "PspProcessOnCreateNoDispatcher pProcess CreateData s =
     (let s = s\<lparr>ProcessInitialized := (ProcessInitialized s)(pProcess := False)\<rparr>;
          s = on_ks (\<lambda>k. k\<lparr>Locks := (Locks k)(Threads.ProcessLock pProcess := KeInitializeSpinLock (Locks k (Threads.ProcessLock pProcess))),
                BasePriority := (BasePriority k)(pProcess := 0)\<rparr>) s;
          s = s\<lparr>AffinityMask := (AffinityMask s)(pProcess := - 1)\<rparr>;
          s = set_sheap (InitializeListHead (ChildThreads pProcess)) s;
          s = s\<lparr>NumberOfThreads := (NumberOfThreads s)(pProcess := 0)\<rparr>
      in obind (create_address_space (AddressSpace pProcess) s) (\<lambda>(_, s).
         let s = on_ps (\<lambda>p. p\<lparr>QuantumReset := (QuantumReset p)(pProcess := 6)\<rparr>) s;
             s = s\<lparr>oheap := InitializeListHead (HandleDatabaseHead pProcess) (oheap s)\<rparr>
         in Done (STATUS_SUCCESS, set_sheap (InitializeListHead (LdrModulesHead pProcess)) s)))"

abbreviation (input) ProcessObject :: u8 where "ProcessObject \<equiv> 0"
abbreviation (input) ThreadObject :: u8 where "ThreadObject \<equiv> 1"

definition PspProcessOnCreate :: "ptr \<Rightarrow> ptr \<Rightarrow> 'z sys_scheme \<Rightarrow> (NTSTATUS \<times> 'z sys_scheme) outcome" where
  "PspProcessOnCreate pProcess createData s =
     obind (lock_dispatcher s) (\<lambda>(old, s).
     let s = on_ks (InitializeDispatcherHeader pProcess ProcessObject) s in
     obind (PspProcessOnCreateNoDispatcher pProcess createData s) (\<lambda>(status, s).
     let s = set_sheap (InsertTailList (ProcessListHead s) (ProcessListEntry pProcess)) s in
     obind (unlock_dispatcher old s) (\<lambda>s. Done (status, s))))"

text \<open>All entries of the parts of the handle database are closed, also those that are not used.\<close>

primrec close_entries :: "'z psp_methods \<Rightarrow> ptr \<Rightarrow> nat list \<Rightarrow> 'z sys_scheme \<Rightarrow> 'z sys_scheme outcome" where
  "close_entries M part [] s = Done s"
| "close_entries M part (i # js) s = obind (ObCloseHandleByEntry M (part, i) s) (close_entries M part js)"

partial_function (option) delete_parts :: "'z psp_methods \<Rightarrow> ptr \<Rightarrow> ptr \<Rightarrow> 'z sys_scheme \<Rightarrow> 'z sys_scheme outcome option" where
  "delete_parts M head part s =
     (if part = head then Some (Done s)
      else let nxt = flink (oheap s) part in
        next_step (obind (close_entries M part [0..<255] s) (free_header part)) (delete_parts M head nxt))"

definition PspProcessOnDelete :: "'z psp_methods \<Rightarrow> ptr \<Rightarrow> 'z sys_scheme \<Rightarrow> (NTSTATUS \<times> 'z sys_scheme) outcome" where
  "PspProcessOnDelete M pProcess s =
     obind (lock_dispatcher s) (\<lambda>(old, s).
     obind (do_ks (acquire_at_dpc (Threads.ProcessLock pProcess)) s) (\<lambda>s.
     if flink (sheap (kst s)) (ChildThreads pProcess) \<noteq> ChildThreads pProcess then Bugcheck 0x109
     else
     obind (run_loop (delete_parts M (HandleDatabaseHead pProcess) (flink (oheap s) (HandleDatabaseHead pProcess)) s)) (\<lambda>s.
     let s = set_sheap (RemoveEntry (ProcessListEntry pProcess)) s in
     obind (do_ks (release_from_dpc (Threads.ProcessLock pProcess)) s) (\<lambda>s.
     obind (unlock_dispatcher old s) (\<lambda>s. Done (STATUS_SUCCESS, s))))))"

section \<open>Threads\<close>

definition PspCreateThreadStacks :: "ptr \<Rightarrow> 'z sys_scheme \<Rightarrow> 'z sys_scheme outcome" where
  "PspCreateThreadStacks tcb s =
     obind (run_mm (PspCreateKernelStack 4) (s\<lparr>NumberOfKernelStackPages := (NumberOfKernelStackPages s)(tcb := 4)\<rparr>)) (\<lambda>(stack, s).
     let s = s\<lparr>OriginalKernelStackPointer := (OriginalKernelStackPointer s)(tcb := stack)\<rparr>;
         s = on_ps (\<lambda>p. p\<lparr>KernelStackPointer := (KernelStackPointer p)(tcb := stack - 192)\<rparr>) s
     in obind (run_mm (PspCreateKernelStack 1) s) (\<lambda>(backup, s).
        Done (on_ps (\<lambda>p. p\<lparr>SwitchStackPointer := (SwitchStackPointer p)(tcb := NULL)\<rparr>)
          (s\<lparr>ApcBackupKernelStackPointer := (ApcBackupKernelStackPointer s)(tcb := backup)\<rparr>))))"

definition zero_wait_block :: "ptr \<Rightarrow> kstate \<Rightarrow> kstate" where
  "zero_wait_block w k = k\<lparr>sheap := set_blink w 0 (set_flink w 0 (sheap k)), WbThread := (WbThread k)(w := 0), WbObject := (WbObject k)(w := 0),
     WbWaitType := (WbWaitType k)(w := 0), WbWaitMode := (WbWaitMode k)(w := 0)\<rparr>"

text \<open>The wait fields, the timeout entry and the priority of a new thread. The only OnTimeout is PspOnThreadTimeout.\<close>

definition init_waits :: "ptr \<Rightarrow> ptr \<Rightarrow> kstate \<Rightarrow> kstate" where
  "init_waits t p k =
     (let k = fold (\<lambda>i. zero_wait_block (wait_block (ThreadWaitBlocks t) i)) [0..<3] k in
      k\<lparr>ThreadPriority := (ThreadPriority k)(t := 0), NumberOfCurrentWaitBlocks := (NumberOfCurrentWaitBlocks k)(t := 0),
        NumberOfActiveWaitBlocks := (NumberOfActiveWaitBlocks k)(t := 0), CurrentWaitBlocks := (CurrentWaitBlocks k)(t := NULL),
        WaitStatus := (WaitStatus k)(t := 0), Alertable := (Alertable k)(t := False), ThreadProcess := (ThreadProcess k)(t := p),
        Timeout := (Timeout k)(TimeoutEntry t := 0), TimeoutIsAbsolute := (TimeoutIsAbsolute k)(TimeoutEntry t := False),
        sheap := InitializeListHead (TimeoutEntry t) (sheap k)\<rparr>)"

abbreviation (input) PAGING_USER_SPACE :: u64 where "PAGING_USER_SPACE \<equiv> 0"
abbreviation (input) PAGING_USER_SPACE_END :: u64 where "PAGING_USER_SPACE_END \<equiv> 0x7FFFFFFFFFFF"

definition PspThreadOnCreateNoDispatcher :: "ptr \<Rightarrow> ptr \<Rightarrow> 'z sys_scheme \<Rightarrow> (NTSTATUS \<times> 'z sys_scheme) outcome" where
  "PspThreadOnCreateNoDispatcher t CreateData s =
     (if CreateData = NULL then Done (STATUS_INVALID_PARAMETER, s)
      else let parent = OnCreateParentProcess s CreateData; me = CurrentThread (kst s) in
      obind (do_ks (acquire_at_dpc (Threads.ProcessLock parent)) s) (\<lambda>s.
      let s = s\<lparr>EThreadProcess := (EThreadProcess s)(t := parent), StartAddress := (StartAddress s)(t := 0)\<rparr>;
          s = on_ks (\<lambda>k. k\<lparr>ThreadState := (ThreadState k)(t := 0), Locks := (Locks k)(ThreadLock t := KeInitializeSpinLock (Locks k (ThreadLock t)))\<rparr>) s;
          s = on_ps (\<lambda>p. snd (KeSetCustomThreadAddressSpace me (AddressSpace parent) p)) s
      in obind (PspCreateThreadStacks t s) (\<lambda>s.
      obind (if OnCreateIsKernel s CreateData then Done (KernelStackPointer (ps (ist s)) t, s)
             else obind (run_mm (PagingAllocatePageFromRange PAGING_USER_SPACE PAGING_USER_SPACE_END) s) (\<lambda>(a, s). Done (a + 4096, s)))
        (\<lambda>(userstack, s).
      let s = on_ps (\<lambda>p. snd (KeClearCustomThreadAddressSpace me p)) s;
          s = on_ks (init_waits t parent) s;
          s = on_ps (\<lambda>p. p\<lparr>UserAffinity := (UserAffinity p)(t := 0), ThreadIrql := (ThreadIrql p)(t := PASSIVE_LEVEL),
                CustomAddressSpace := (CustomAddressSpace p)(t := NULL)\<rparr>) s;
          s = on_ks (\<lambda>k. k\<lparr>Affinity := (Affinity k)(t := AffinityMask s parent)\<rparr>) s
      in obind (run_ist (\<lambda>i. obind (PspSetupThreadState (KernelStackPointer (ps i) t) (OnCreateIsKernel s CreateData)
                 (OnCreateEntrypoint s CreateData) userstack (ps i)) (\<lambda>p. Done ((), i\<lparr>ps := p\<rparr>))) s) (\<lambda>(_, s).
      let s = set_sheap (InsertTailList (ChildThreads parent) (ProcessChildListEntry t)) s
      in obind (do_ks (release_from_dpc (Threads.ProcessLock parent)) s) (\<lambda>s. Done (STATUS_SUCCESS, s)))))))"

text \<open>The status of the initialisation is returned after the thread has been made READY. The parent process is referenced.\<close>

definition PspThreadOnCreate :: "ptr \<Rightarrow> ptr \<Rightarrow> 'z sys_scheme \<Rightarrow> (NTSTATUS \<times> 'z sys_scheme) outcome" where
  "PspThreadOnCreate t CreateData s =
     obind (lock_dispatcher s) (\<lambda>(old, s).
     let s = on_ks (InitializeDispatcherHeader t ThreadObject) s in
     obind (PspThreadOnCreateNoDispatcher t CreateData s) (\<lambda>(status, s).
     let s = set_sheap (InsertTailList (ThreadListHead s) (ThreadListEntry t)) s;
         s = s\<lparr>ist := KeInitializeApcState (SavedApcState t) (KeInitializeApcState (ApcState t) (ist s))\<rparr>;
         s = on_ks (\<lambda>k. k\<lparr>ThreadState := (ThreadState k)(t := THREAD_STATE_READY)\<rparr>) s
     in obind (unlock_dispatcher old s) (\<lambda>s.
        obind (ObReferenceObject (EThreadProcess s t) s) (\<lambda>(_, s). Done (status, s)))))"

definition PspThreadOnDelete :: "ptr \<Rightarrow> 'z sys_scheme \<Rightarrow> (NTSTATUS \<times> 'z sys_scheme) outcome" where
  "PspThreadOnDelete t s =
     obind (lock_dispatcher s) (\<lambda>(old, s).
     let pl = Threads.ProcessLock (EThreadProcess s t) in
     obind (do_ks (acquire_at_dpc pl) s) (\<lambda>s.
     obind (do_ks (acquire_at_dpc (ThreadLock t)) s) (\<lambda>s.
     let s = on_ks (\<lambda>k. k\<lparr>ThreadState := (ThreadState k)(t := THREAD_STATE_TERMINATED)\<rparr>) s;
         s = set_sheap (RemoveEntry (ThreadListEntry t) \<circ> RemoveEntry (ProcessChildListEntry t)) s;
         s = s\<lparr>mm := PspFreeKernelStack (ApcBackupKernelStackPointer s t) 1
                (PspFreeKernelStack (OriginalKernelStackPointer s t) (NumberOfKernelStackPages s t) (mm s))\<rparr>
     in obind (do_ks (release_from_dpc (ThreadLock t)) s) (\<lambda>s.
        obind (do_ks (release_from_dpc pl) s) (\<lambda>s.
        obind (unlock_dispatcher old s) (\<lambda>s. Done (STATUS_SUCCESS, s)))))))"

definition PspInsertIntoSharedQueueLocked :: "ptr \<Rightarrow> 'z sys_scheme \<Rightarrow> 'z sys_scheme outcome" where
  "PspInsertIntoSharedQueueLocked Thread s =
     obind (lock_dispatcher s) (\<lambda>(old, s).
     obind (do_ks (PspInsertIntoSharedQueue Thread) s) (unlock_dispatcher old))"

definition ThreadCleanupRoutine :: "'z psp_methods \<Rightarrow> ptr \<Rightarrow> 'z sys_scheme \<Rightarrow> 'z sys_scheme outcome" where
  "ThreadCleanupRoutine M Thread s = obind (ObDereferenceObject M Thread s) (\<lambda>(_, s). Done s)"

definition PsNotifyThreadAwaken :: "u32 \<Rightarrow> 'z sys_scheme \<Rightarrow> 'z sys_scheme" where
  "PsNotifyThreadAwaken selfId s = s\<lparr>ist := KeSendIpi (KeNumberOfProcessors s) selfId (- 1) 0x21 (ist s)\<rparr>"

text \<open>The dispatcher lock raises the IRQL once more; the level returned for it is not used. tick is KeForceClockTick. A thread
  that has exited does not come back from it.\<close>

definition PsExitThread :: "(istate \<Rightarrow> istate outcome) \<Rightarrow> u32 \<Rightarrow> 'z sys_scheme \<Rightarrow> 'z sys_scheme outcome" where
  "PsExitThread tick exitCode s =
     obind (run_ks (\<lambda>k. obind (KfRaiseIrql DISPATCH_LEVEL (kcpu k)) (\<lambda>(old, c). Done (old, k\<lparr>kcpu := c\<rparr>))) s) (\<lambda>(originalIrql, s).
     let t = CurrentThread (kst s) in
     obind (do_ks (acquire_at_dpc t) s) (\<lambda>s.
     obind (lock_dispatcher s) (\<lambda>(_, s).
     obind (do_ks (acquire_at_dpc (ThreadLock t)) s) (\<lambda>s.
     let s = on_ks (\<lambda>k. k\<lparr>ThreadState := (ThreadState k)(t := THREAD_STATE_TERMINATED)\<rparr>) s;
         s = on_ps (\<lambda>p. p\<lparr>ThreadExitCode := (ThreadExitCode p)(t := exitCode)\<rparr>) s
     in obind (do_ks (KiSignal t (- 1)) s) (\<lambda>s.
        obind (do_ks (release_from_dpc t) s) (\<lambda>s.
        obind (do_ks (release_from_dpc (ThreadLock t)) s) (\<lambda>s.
        obind (do_ks (\<lambda>k. obind (KeReleaseSpinLockFromDpcLevel (DispatcherLock k) (kcpu k)) (\<lambda>l. Done (k\<lparr>DispatcherLock := l\<rparr>))) s) (\<lambda>s.
        obind (do_ks (\<lambda>k. obind (KeLowerIrql originalIrql (kcpu k)) (\<lambda>c. Done (k\<lparr>kcpu := c\<rparr>))) s) (\<lambda>s.
        obind (run_ist (\<lambda>i. obind (tick i) (\<lambda>i. Done ((), i))) s) (\<lambda>(_, s). Done s))))))))))"

section \<open>Methods of the types\<close>

text \<open>The function pointers of the two types. Deleting a process closes handles and may delete further objects, as deep as
  the chain of references goes; the other pointers are those of a table of other types.\<close>

abbreviation (input) pPspProcessOnCreate :: u64 where "pPspProcessOnCreate \<equiv> 3"
abbreviation (input) pPspProcessOnDelete :: u64 where "pPspProcessOnDelete \<equiv> 4"
abbreviation (input) pPspThreadOnCreate :: u64 where "pPspThreadOnCreate \<equiv> 5"
abbreviation (input) pPspThreadOnDelete :: u64 where "pPspThreadOnDelete \<equiv> 6"

definition psp_method ::
  "'z psp_methods \<Rightarrow> (u64 \<Rightarrow> ptr \<Rightarrow> ptr \<Rightarrow> 'z sys_scheme \<Rightarrow> (NTSTATUS \<times> 'z sys_scheme) outcome) \<Rightarrow> u64 \<Rightarrow> ptr \<Rightarrow> ptr \<Rightarrow> 'z sys_scheme \<Rightarrow> (NTSTATUS \<times> 'z sys_scheme) outcome"
where
  "psp_method deeper other f obj data =
     (if f = pPspProcessOnCreate then PspProcessOnCreate obj data
      else if f = pPspProcessOnDelete then PspProcessOnDelete deeper obj
      else if f = pPspThreadOnCreate then PspThreadOnCreate obj data
      else if f = pPspThreadOnDelete then PspThreadOnDelete obj
      else other f obj data)"

primrec psp_methods_at :: "nat \<Rightarrow> 'z psp_methods \<Rightarrow> 'z psp_methods" where
  "psp_methods_at 0 M = M"
| "psp_methods_at (Suc n) M = M\<lparr>call_method := psp_method (psp_methods_at n M) (call_method M)\<rparr>"

definition psp_table :: "'z psp_methods \<Rightarrow> 'z psp_methods" where "psp_table = psp_methods_at deref_depth"

section \<open>Creating processes and threads\<close>

definition PspCreateProcessInternal :: "'z psp_methods \<Rightarrow> u32 \<Rightarrow> OBJECT_ATTRIBUTES option \<Rightarrow> 'z sys_scheme \<Rightarrow> ((NTSTATUS \<times> ptr option) \<times> 'z sys_scheme) outcome" where
  "PspCreateProcessInternal M DesiredAccess pProcessObjAttributes s =
     (let A = (case pProcessObjAttributes of None \<Rightarrow> InitializeObjectAttributes None OBJ_KERNEL_HANDLE NULL | Some A \<Rightarrow> A)
      in ObCreateObject M DesiredAccess KernelMode A (PsProcessType s) NULL s)"

text \<open>data is the address of the local structure.\<close>

definition PspCreateThreadInternal :: "'z psp_methods \<Rightarrow> ptr \<Rightarrow> ptr \<Rightarrow> bool \<Rightarrow> u64 \<Rightarrow> 'z sys_scheme \<Rightarrow> ((NTSTATUS \<times> ptr option) \<times> 'z sys_scheme) outcome" where
  "PspCreateThreadInternal M data pParentProcess IsKernel EntryPoint s =
     (let s = s\<lparr>OnCreateEntrypoint := (OnCreateEntrypoint s)(data := EntryPoint),
            OnCreateParentProcess := (OnCreateParentProcess s)(data := pParentProcess), OnCreateIsKernel := (OnCreateIsKernel s)(data := IsKernel)\<rparr>
      in ObCreateObject M 0 KernelMode (InitializeObjectAttributes None OBJ_KERNEL_HANDLE NULL) (PsThreadType s) data s)"

definition NtCreateProcessEx :: "'z psp_methods \<Rightarrow> u32 \<Rightarrow> OBJECT_ATTRIBUTES option \<Rightarrow> 'z sys_scheme \<Rightarrow> ((NTSTATUS \<times> handle option) \<times> 'z sys_scheme) outcome" where
  "NtCreateProcessEx M DesiredAccess pObjectAttributes s =
     obind (PspCreateProcessInternal M DesiredAccess pObjectAttributes s) (\<lambda>((Status, p), s).
     if \<not> NT_SUCCESS Status then Done ((Status, None), s)
     else let pProcess = the p in
       obind (ObCreateHandle (ucast DesiredAccess) False pProcess s) (\<lambda>((Status, h), s).
       if \<not> NT_SUCCESS Status then obind (ObDereferenceObject M pProcess s) (\<lambda>(_, s). Done ((Status, None), s))
       else Done ((STATUS_SUCCESS, h), s)))"

text \<open>The flags are not used.\<close>

definition NtCreateProcess :: "'z psp_methods \<Rightarrow> u32 \<Rightarrow> OBJECT_ATTRIBUTES option \<Rightarrow> bool \<Rightarrow> 'z sys_scheme \<Rightarrow> ((NTSTATUS \<times> handle option) \<times> 'z sys_scheme) outcome" where
  "NtCreateProcess M DesiredAccess ObjectAttributes InheritObjectTable s = NtCreateProcessEx M DesiredAccess ObjectAttributes s"

text \<open>The handle is created, but the out pointer ThreadHandle is never written: only the status comes back. Without a handle
  the thread is not dereferenced. Rip is that of the context given.\<close>

definition NtCreateThread :: "'z psp_methods \<Rightarrow> ptr \<Rightarrow> u32 \<Rightarrow> handle \<Rightarrow> u64 \<Rightarrow> bool \<Rightarrow> 'z sys_scheme \<Rightarrow> (NTSTATUS \<times> 'z sys_scheme) outcome" where
  "NtCreateThread M data DesiredAccess ProcessHandle Rip CreateSuspended s =
     obind (if ProcessHandle = NULL then Done ((STATUS_SUCCESS, Some (current_process s)), s)
            else ObReferenceObjectByHandle M ProcessHandle 0 (PsProcessType s) UserMode s) (\<lambda>((Status, p), s).
     if \<not> NT_SUCCESS Status then Done (Status, s)
     else let pProcess = the p in
       obind (PspCreateThreadInternal M data pProcess False Rip s) (\<lambda>((Status, t), s).
       obind (if ProcessHandle \<noteq> NULL then obind (ObDereferenceObject M pProcess s) (\<lambda>(_, s). Done s) else Done s) (\<lambda>s.
       if \<not> NT_SUCCESS Status then Done (Status, s)
       else obind (if \<not> CreateSuspended then PspInsertIntoSharedQueueLocked (the t) s else Done s) (\<lambda>s.
         obind (ObCreateHandle (ucast DesiredAccess) False (the t) s) (\<lambda>((Status, h), s).
         Done (if \<not> NT_SUCCESS Status then Status else STATUS_SUCCESS, s))))))"

section \<open>Starting a processor\<close>

text \<open>The names of the types and the address of the type object type are given. A KCORE_SCHEDULER_DATA has 536 bytes,
  an EPROCESS 184 and an ETHREAD 528.\<close>

definition PspInitializeScheduler :: "'z psp_methods \<Rightarrow> UNICODE_STRING \<Rightarrow> UNICODE_STRING \<Rightarrow> ptr \<Rightarrow> u64 \<Rightarrow> 'z sys_scheme \<Rightarrow> (NTSTATUS \<times> 'z sys_scheme) outcome" where
  "PspInitializeScheduler M PsProcessTypeName PsThreadTypeName ObTypeObjectType cleanup s =
     obind (ObCreateType M PsProcessTypeName 184 ObTypeObjectType s) (\<lambda>((status, pt), s).
     if \<not> NT_SUCCESS status then Done (status, s)
     else let s = s\<lparr>PsProcessType := the pt\<rparr> in
     obind (ObCreateType M PsThreadTypeName 528 ObTypeObjectType s) (\<lambda>((status, tt), s).
     if \<not> NT_SUCCESS status then obind (ObDereferenceObject M (PsProcessType s) s) (\<lambda>(_, s). Done (status, s))
     else
       let s = s\<lparr>PsThreadType := the tt\<rparr>;
           s = s\<lparr>TOnCreate := (TOnCreate s)(PsProcessType s := pPspProcessOnCreate, PsThreadType s := pPspThreadOnCreate),
                TOnDelete := (TOnDelete s)(PsProcessType s := pPspProcessOnDelete, PsThreadType s := pPspThreadOnDelete)\<rparr>;
           s = on_ps (\<lambda>p. KeInitializeDpc (PsThreadCleanupDpc p) cleanup NULL p) s
       in obind (lock_dispatcher s) (\<lambda>(old, s).
          obind (if CoresSchedulerData s = NULL
                 then let s = set_sheap (InitializeListHead (ProcessListHead s) \<circ> InitializeListHead (ThreadListHead s)) s in
                   obind (run_mm (PagingAllocatePageBlockFromRange ((ucast (KeNumberOfProcessors s) * 536 + 4095) div 4096)
                     PAGING_KERNEL_SPACE PAGING_KERNEL_SPACE_END) s) (\<lambda>(a, s).
                   let s = s\<lparr>CoresSchedulerData := a\<rparr>;
                       s = on_ks (\<lambda>k. k\<lparr>CoreQueues := (\<lambda>c. a + 536 * ucast c)\<rparr>) s
                   in Done (if a \<noteq> NULL then set_sheap (\<lambda>h. fold (\<lambda>i. InitializeListHead (queue_head (SharedQueues (kst s)) i)) [0..<32] h) s else s))
                 else Done s) (\<lambda>s.
          obind (unlock_dispatcher old s) (\<lambda>s.
          Done (if CoresSchedulerData s = NULL then STATUS_NO_MEMORY else STATUS_SUCCESS, s))))))"

text \<open>The idle process and thread of a processor have no object headers. entry is PspIdleThreadProcedure, data
  the address of the local structure.\<close>

definition PspCreateIdleProcessForCore :: "ptr \<Rightarrow> u64 \<Rightarrow> u8 \<Rightarrow> 'z sys_scheme \<Rightarrow> ((NTSTATUS \<times> (ptr \<times> ptr) option) \<times> 'z sys_scheme) outcome" where
  "PspCreateIdleProcessForCore data entry coreNumber s =
     obind (pool_alloc 184 s) (\<lambda>(pIdleProcess, s).
     if pIdleProcess = NULL then Done ((STATUS_NO_MEMORY, None), s)
     else obind (PspProcessOnCreateNoDispatcher pIdleProcess NULL s) (\<lambda>(status, s).
     if \<not> NT_SUCCESS status then obind (free_header pIdleProcess s) (\<lambda>s. Done ((status, None), s))
     else let s = s\<lparr>AffinityMask := (AffinityMask s)(pIdleProcess := push_bit (unat coreNumber) 1)\<rparr> in
       obind (pool_alloc 528 s) (\<lambda>(pIdleThread, s).
       if pIdleThread = NULL then obind (free_header pIdleProcess s) (\<lambda>s. Done ((STATUS_NO_MEMORY, None), s))
       else let s = s\<lparr>OnCreateEntrypoint := (OnCreateEntrypoint s)(data := entry), OnCreateIsKernel := (OnCreateIsKernel s)(data := True),
                  OnCreateParentProcess := (OnCreateParentProcess s)(data := pIdleProcess)\<rparr> in
         obind (PspThreadOnCreateNoDispatcher pIdleThread data s) (\<lambda>(status, s).
         if \<not> NT_SUCCESS status
         then obind (free_header pIdleProcess s) (\<lambda>s. obind (free_header pIdleThread s) (\<lambda>s. Done ((status, None), s)))
         else let s = on_ks (\<lambda>k. k\<lparr>ThreadPriority := (ThreadPriority k)(pIdleThread := 0)\<rparr>) s;
                  s = set_sheap (InsertHeadList (ThreadListHead s) (ThreadListEntry pIdleThread) \<circ>
                        InsertHeadList (ProcessListHead s) (ProcessListEntry pIdleProcess)) s
              in Done ((STATUS_SUCCESS, Some (pIdleProcess, pIdleThread)), s)))))"

definition PspInitializeCoreSchedulerData :: "ptr \<Rightarrow> u64 \<Rightarrow> u8 \<Rightarrow> 'z sys_scheme \<Rightarrow> 'z sys_scheme outcome" where
  "PspInitializeCoreSchedulerData data entry CoreNumber s =
     (let s = on_ks (\<lambda>k. k\<lparr>CoreSummary := (CoreSummary k)(CoreNumber := 0),
            sheap := fold (\<lambda>i. InitializeListHead (queue_head (CoreQueues k CoreNumber) i)) [0..<32] (sheap k)\<rparr>) s
      in obind (PspCreateIdleProcessForCore data entry CoreNumber s) (\<lambda>((status, r), s).
         let s = (case r of None \<Rightarrow> s | Some (p, t) \<Rightarrow>
                on_ks (\<lambda>k. k\<lparr>IdleThread := (IdleThread k)(CoreNumber := t)\<rparr>) (s\<lparr>IdleProcess := (IdleProcess s)(CoreNumber := p)\<rparr>))
         in if status \<noteq> STATUS_SUCCESS then Bugcheck 0x32 else Done s))"

text \<open>The rest of the arguments is what the parts that are not modelled give: memory for the interrupt object, the
  address of IrqHandler, and start for NnxStartUserProcess. The right result is the context the processor goes on with.\<close>

definition PspInitializeCore ::
  "('z sys_scheme \<Rightarrow> (NTSTATUS \<times> 'z sys_scheme) outcome) \<Rightarrow> ptr \<Rightarrow> u64 \<Rightarrow> (istate \<Rightarrow> istate outcome) \<Rightarrow> ptr \<Rightarrow> u64 \<Rightarrow> ('z sys_scheme \<Rightarrow> (NTSTATUS \<times> 'z sys_scheme) outcome) \<Rightarrow>
    u8 \<Rightarrow> 'z sys_scheme \<Rightarrow> ((NTSTATUS + u64) \<times> 'z sys_scheme) outcome"
where
  "PspInitializeCore init_scheduler data entry tick Memory IrqAddress start CoreNumber s =
     obind (if CoresSchedulerData s = NULL then init_scheduler s else Done (STATUS_SUCCESS, s)) (\<lambda>(status, s).
     if \<not> NT_SUCCESS status then Done (Inl status, s)
     else
     obind (run_ks (\<lambda>k. obind (KfRaiseIrql DISPATCH_LEVEL (kcpu k)) (\<lambda>(old, c). Done (old, k\<lparr>kcpu := c\<rparr>))) s) (\<lambda>(old, s).
     obind (PspInitializeCoreSchedulerData data entry CoreNumber s) (\<lambda>s.
     obind (do_ks (\<lambda>k. obind (KeLowerIrql old (kcpu k)) (\<lambda>c. Done (k\<lparr>kcpu := c\<rparr>))) s) (\<lambda>s.
     obind (lock_dispatcher s) (\<lambda>(old, s).
     obind (run_ist (\<lambda>i. obind (lock_prcb (ps i)) (\<lambda>p. Done ((), i\<lparr>ps := p\<rparr>))) s) (\<lambda>(_, s).
     let idle = IdleThread (kst s) CoreNumber;
         s = on_ps (\<lambda>p. p\<lparr>NextThread := idle, ks := (ks p)\<lparr>CurrentThread := idle\<rparr>\<rparr>) s;
         s = share_out (ist s) s
     in obind (run_mm (PspCreateKernelStack 1) s) (\<lambda>(stack, s).
     let dummy = DummyThread s;
         s = on_ps (\<lambda>p. p\<lparr>DpcStack := stack, CyclesLeft := KiCyclesPerQuantum p * 3\<rparr>) (s\<lparr>DummyThread := NULL\<rparr>)
     in obind (run_ist (\<lambda>i. obind (unlock_prcb (ps i)) (\<lambda>p. Done ((), i\<lparr>ps := p\<rparr>))) s) (\<lambda>(_, s).
     let s = s\<lparr>PspCoresInitialized := PspCoresInitialized s + 1\<rparr>;
         space = apply_address_space (AddressSpace (ThreadProcess (kst s) idle));
         s = on_ks (\<lambda>k. k\<lparr>ThreadState := (ThreadState k)(idle := THREAD_STATE_RUNNING)\<rparr>) (on_ps space s)
     in obind (unlock_dispatcher old s) (\<lambda>s.
     obind (free_header (ThreadProcess (kst s) dummy) s) (\<lambda>s.
     obind (free_header dummy s) (\<lambda>s.
     obind (run_ist (PsConnectNotifyIpi tick Memory IrqAddress) s) (\<lambda>(_, s).
     obind (if PspCoresInitialized s = KeNumberOfProcessors s then start s else Done (STATUS_SUCCESS, s)) (\<lambda>(status, s).
     if \<not> NT_SUCCESS status then Done (Inl status, s)
     else let s = on_ps space s in
       obind (do_ks (\<lambda>k. obind (KeLowerIrql 0 (kcpu k)) (\<lambda>c. Done (k\<lparr>kcpu := c\<rparr>))) s) (\<lambda>s.
       Done (Inr (KernelStackPointer (ps (ist s)) idle), s)))))))))))))))"

section \<open>The control region of a processor\<close>

text \<open>sizeof(KPRCB) is 163, sizeof(KPCR) is 110: both are packed. The allocations are not tested for NULL. pcr3 is what __readcr3 gives.
  The IdleThread of the KPRCB is no field of its own: it is NULL until PspInitializeCore copies that of the scheduler data.\<close>

definition HalCreatePrcb :: "u8 \<Rightarrow> 'z sys_scheme \<Rightarrow> 'z sys_scheme outcome" where
  "HalCreatePrcb CoreNumber s =
     obind (pool_alloc 163 s) (\<lambda>(prcb, s). if prcb = NULL then Fault else
     obind (pool_alloc 184 s) (\<lambda>(pDummyProcess, s). if pDummyProcess = NULL then Fault else
     obind (pool_alloc 528 s) (\<lambda>(pDummyThread, s). if pDummyThread = NULL then Fault else
     let s = on_ps (\<lambda>p. p\<lparr>PrcbLock := KeInitializeSpinLock (PrcbLock p),
               TopStruct := (TopStruct p)(AddressSpace pDummyProcess := pcr3 p),
               NextThread := NULL, Number := CoreNumber, DpcStack := 0, DpcInProgress := False, DpcEnding := False, NestedInterrupts := 0,
               DpcData := prcb + 56, DpcCount := (DpcCount p)(prcb + 56 := 0), DpcQueueDepth := (DpcQueueDepth p)(prcb + 56 := 0)\<rparr>) s;
         s = on_ks (\<lambda>k. k\<lparr>ThreadProcess := (ThreadProcess k)(pDummyThread := pDummyProcess), CurrentThread := pDummyThread,
               sheap := InitializeListHead (prcb + 56) (sheap k),
               Locks := (Locks k)(DpcLock (prcb + 56) := KeInitializeSpinLock (Locks k (DpcLock (prcb + 56))))\<rparr>) s;
         s = s\<lparr>DummyThread := pDummyThread, EThreadProcess := (EThreadProcess s)(pDummyThread := pDummyProcess)\<rparr>
     in Done (share_out (ist s) s))))"

text \<open>The new control region begins at IRQL 0; the level of before is lost. init is KiInitializeInterrupts.\<close>

definition HalCreatePcr :: "(istate \<Rightarrow> (NTSTATUS \<times> istate) outcome) \<Rightarrow> gdt \<Rightarrow> idt \<Rightarrow> u8 \<Rightarrow> 'z sys_scheme \<Rightarrow> 'z sys_scheme outcome" where
  "HalCreatePcr init gdt idt CoreNumber s =
     obind (pool_alloc 110 s) (\<lambda>(pcr, s). if pcr = NULL then Fault else
     let s = on_ps (\<lambda>p. p\<lparr>PcrGdt := gdt\<rparr>) (s\<lparr>PcrTss := HalpGetTssBase (gdt 5) (gdt 6)\<rparr>);
         s = set_sheap (InitializeListHead (pcr + 86)) (s\<lparr>ist := (ist s)\<lparr>idt_entries := idt, InterruptListHead := pcr + 86\<rparr>\<rparr>)
     in obind (HalCreatePrcb CoreNumber s) (\<lambda>s.
     let s = s\<lparr>ocpu := (ocpu s)\<lparr>irql := 0\<rparr>\<rparr> in
     obind (run_ks (\<lambda>k. obind (KfRaiseIrql DISPATCH_LEVEL (kcpu k)) (\<lambda>(old, c). Done (old, k\<lparr>kcpu := c\<rparr>))) s) (\<lambda>(oldIrql, s).
     obind (run_ist init s) (\<lambda>(_, s).
     do_ks (\<lambda>k. obind (KeLowerIrql oldIrql (kcpu k)) (\<lambda>c. Done (k\<lparr>kcpu := c\<rparr>))) s))))"

section \<open>Coherent states\<close>

text \<open>The copies of the processor and of the lock and the handle database of the current process agree.\<close>

definition coherent :: "'z sys_scheme \<Rightarrow> bool" where
  "coherent s = (kcpu (kst s) = ocpu s \<and> Locks (kst s) (Threads.ProcessLock (current_process s)) = Objects.ProcessLock s \<and>
     ProcessHandleDatabaseHead s = HandleDatabaseHead (current_process s))"

definition with_kst :: "kstate \<Rightarrow> 'z sys_scheme \<Rightarrow> 'z sys_scheme" where
  "with_kst k s = share_out ((ist s)\<lparr>ps := (ps (ist s))\<lparr>ks := k\<rparr>\<rparr>) s"

lemma kst_with [simp]: "kst (with_kst k s) = k"
  by (simp add: with_kst_def share_out_def Let_def)

lemma coherent_with [simp]: "coherent (with_kst k s)"
  by (simp add: coherent_def with_kst_def share_out_def Let_def current_process_def)

lemma with_with [simp]: "with_kst k (with_kst l s) = with_kst k s"
  by (simp add: with_kst_def share_out_def Let_def current_process_def)

lemma ocpu_with [simp]: "ocpu (with_kst k s) = kcpu k"
  by (simp add: with_kst_def share_out_def Let_def)

lemma with_kst_keeps [simp]:
  "mm (with_kst k s) = mm s" "ReferenceCount (with_kst k s) = ReferenceCount s" "HandleCount (with_kst k s) = HandleCount s"
  "oheap (with_kst k s) = oheap s" "DbObject (with_kst k s) = DbObject s" "HLock (with_kst k s) = HLock s"
  "EThreadProcess (with_kst k s) = EThreadProcess s" "ThreadListHead (with_kst k s) = ThreadListHead s"
  "ProcessListHead (with_kst k s) = ProcessListHead s"
  by (simp_all add: with_kst_def share_out_def Let_def)

lemma with_same: "coherent s \<Longrightarrow> with_kst (kst s) s = s"
  by (simp add: coherent_def with_kst_def share_out_def Let_def)

lemma run_ks_coherent:
  assumes "coherent s"
  shows "run_ks f s = obind (f (kst s)) (\<lambda>(r, k). Done (r, with_kst k s))"
proof -
  have "share_in s = ist s"
    using assms by (simp add: share_in_def on_ks_def on_ps_def coherent_def current_process_def fun_upd_idem)
  then show ?thesis by (cases "f (kst s)") (auto simp: run_ks_def run_ist_def with_kst_def)
qed

lemma do_ks_coherent: "coherent s \<Longrightarrow> do_ks f s = obind (f (kst s)) (\<lambda>k. Done (with_kst k s))"
  by (cases "f (kst s)") (simp_all add: do_ks_def run_ks_coherent)

text \<open>Changes that do not concern what is shared.\<close>

lemma on_ks_coherent:
  assumes "coherent s" "kcpu (f (kst s)) = kcpu (kst s)" "Locks (f (kst s)) = Locks (kst s)" "CurrentThread (f (kst s)) = CurrentThread (kst s)"
    "ThreadProcess (f (kst s)) = ThreadProcess (kst s)"
  shows "on_ks f s = with_kst (f (kst s)) s"
  using assms by (simp add: on_ks_def on_ps_def with_kst_def share_out_def Let_def coherent_def current_process_def)

lemma set_sheap_coherent: "coherent s \<Longrightarrow> set_sheap f s = with_kst ((kst s)\<lparr>sheap := f (sheap (kst s))\<rparr>) s"
  unfolding set_sheap_def by (rule on_ks_coherent) simp_all

section \<open>Deleting threads and processes\<close>

definition locked_kst :: "kstate \<Rightarrow> kstate" where
  "locked_kst k = k\<lparr>kcpu := KiApplyIrql (irql (kcpu k)) SYNCH_LEVEL (kcpu k), DispatcherLock := 1\<rparr>"

definition lockable :: "'z sys_scheme \<Rightarrow> bool" where
  "lockable s = (coherent s \<and> cpu_ok (ocpu s) \<and> irql (ocpu s) \<le> SYNCH_LEVEL \<and> DispatcherLock (kst s) = 0)"

lemma lock_dispatcher_free:
  "lockable s \<Longrightarrow> lock_dispatcher s = Done (irql (ocpu s), with_kst (locked_kst (kst s)) s)"
  by (simp add: lock_dispatcher_def run_ks_coherent lockable_def dispatcher_lock_free locked_kst_def coherent_def)

lemma locked_irql: "cpu_ok (kcpu k) \<Longrightarrow> irql (kcpu (locked_kst k)) = SYNCH_LEVEL"
  by (simp add: locked_kst_def cpu_ok_apply)

lemma unlock_dispatcher_held:
  assumes "coherent s" "kcpu (kst s) = kcpu (locked_kst k)" "DispatcherLock (kst s) = 1" "cpu_ok (kcpu k)" "irql (kcpu k) \<le> SYNCH_LEVEL"
  shows "unlock_dispatcher (irql (kcpu k)) s = Done (with_kst ((kst s)\<lparr>kcpu := kcpu k, DispatcherLock := 0\<rparr>) s)"
proof -
  have "KiReleaseDispatcherLock (irql (kcpu k)) (kst s) = Done ((kst s)\<lparr>kcpu := kcpu k, DispatcherLock := 0\<rparr>)"
    using dispatcher_lock_release [of "kst s" "irql (kcpu k)"] assms(2-5) apply_twice [OF assms(4), of SYNCH_LEVEL "irql (kcpu k)"]
    by (simp add: locked_irql) (simp add: locked_kst_def)
  then show ?thesis by (simp add: unlock_dispatcher_def do_ks_coherent [OF assms(1)])
qed

lemma PspThreadOnDelete_eq:
  assumes s: "lockable s" and l: "Locks (kst s) (Threads.ProcessLock (EThreadProcess s t)) = 0" "Locks (kst s) (ThreadLock t) = 0"
    and d: "Threads.ProcessLock (EThreadProcess s t) \<noteq> ThreadLock t"
  shows "PspThreadOnDelete t s = Done (STATUS_SUCCESS, with_kst ((kst s)\<lparr>ThreadState := (ThreadState (kst s))(t := THREAD_STATE_TERMINATED),
    sheap := RemoveEntry (ThreadListEntry t) (RemoveEntry (ProcessChildListEntry t) (sheap (kst s)))\<rparr>) s)"
proof -
  let ?k = "kst s"
  let ?l = "locked_kst ?k" let ?pl = "Threads.ProcessLock (EThreadProcess s t)"
  have c: "cpu_ok (kcpu ?k)" "irql (kcpu ?k) \<le> SYNCH_LEVEL" "irql (ocpu s) = irql (kcpu ?k)"
    using s by (simp_all add: lockable_def coherent_def)
  have i: "DISPATCH_LEVEL \<le> irql (kcpu ?l)" using locked_irql [OF c(1)] by simp
  have ll: "Locks ?l = Locks ?k" "DispatcherLock ?l = 1" "ThreadState ?l = ThreadState ?k" "sheap ?l = sheap ?k"
    by (simp_all add: locked_kst_def)
  have a: "acquire_at_dpc ?pl ?l = Done (?l\<lparr>Locks := (Locks ?k)(?pl := 1)\<rparr>)"
    "acquire_at_dpc (ThreadLock t) (?l\<lparr>Locks := (Locks ?k)(?pl := 1)\<rparr>) = Done (?l\<lparr>Locks := (Locks ?k)(?pl := 1, ThreadLock t := 1)\<rparr>)"
    using acquire_free [of ?l ?pl] acquire_free [of "?l\<lparr>Locks := (Locks ?k)(?pl := 1)\<rparr>" "ThreadLock t"] l d i by (simp_all add: ll)
  let ?d = "\<lambda>L. ?l\<lparr>Locks := L, ThreadState := (ThreadState ?k)(t := THREAD_STATE_TERMINATED),
    sheap := RemoveEntry (ThreadListEntry t) (RemoveEntry (ProcessChildListEntry t) (sheap ?k))\<rparr>"
  have r: "release_from_dpc (ThreadLock t) (?d ((Locks ?k)(?pl := 1, ThreadLock t := 1))) = Done (?d ((Locks ?k)(?pl := 1)))"
    "release_from_dpc ?pl (?d ((Locks ?k)(?pl := 1))) = Done (?d (Locks ?k))"
    using release_dpc [of "?d ((Locks ?k)(?pl := 1, ThreadLock t := 1))" "ThreadLock t"] release_dpc [of "?d ((Locks ?k)(?pl := 1))" ?pl] l d i
    by (simp_all add: fun_upd_idem fun_upd_twist)
  have u: "unlock_dispatcher (irql (kcpu ?k)) (with_kst (?d (Locks ?k)) s) = Done (with_kst ((?d (Locks ?k))\<lparr>kcpu := kcpu ?k, DispatcherLock := 0\<rparr>) s)"
    using unlock_dispatcher_held [of "with_kst (?d (Locks ?k)) s" ?k] c ll by simp
  have e: "(?d (Locks ?k))\<lparr>kcpu := kcpu ?k, DispatcherLock := 0\<rparr> = ?k\<lparr>ThreadState := (ThreadState ?k)(t := THREAD_STATE_TERMINATED),
    sheap := RemoveEntry (ThreadListEntry t) (RemoveEntry (ProcessChildListEntry t) (sheap ?k))\<rparr>"
    using s by (simp add: locked_kst_def lockable_def)
  have mm: "x\<lparr>mm := PspFreeKernelStack p 1 (PspFreeKernelStack q n (mm x))\<rparr> = x" for x :: "'z sys_scheme" and p q n
    by (simp add: PspFreeKernelStack_def)
  have o: "on_ks (\<lambda>k. k\<lparr>ThreadState := (ThreadState k)(t := THREAD_STATE_TERMINATED)\<rparr>) x =
      with_kst ((kst x)\<lparr>ThreadState := (ThreadState (kst x))(t := THREAD_STATE_TERMINATED)\<rparr>) x" if "coherent x" for x
    using that by (rule on_ks_coherent) simp_all
  show ?thesis
    unfolding PspThreadOnDelete_def lock_dispatcher_free [OF s] c(3)
    by (simp add: do_ks_coherent o set_sheap_coherent a r u e mm ll Let_def)
qed

text \<open>C29: deleting a thread. PspThreadOnDelete takes the thread off the list of all threads and off the list of its
  process, with both lists as they were otherwise, marks it TERMINATED and gives back all locks and the IRQL. But nothing is
  released: the stacks stay mapped and their frames allocated, and the reference of the parent process, which
  PspThreadOnCreate has taken, is not dropped.\<close>

theorem PspThreadOnDelete_spec:
  fixes s t
  defines "p \<equiv> EThreadProcess s t"
  assumes "lockable s" "Locks (kst s) (Threads.ProcessLock p) = 0" "Locks (kst s) (ThreadLock t) = 0" "Threads.ProcessLock p \<noteq> ThreadLock t"
    and "is_list (sheap (kst s)) (ThreadListHead s) (xs @ ThreadListEntry t # ys)"
    and "is_list (sheap (kst s)) (ChildThreads p) (us @ ProcessChildListEntry t # vs)"
    and "apart (ThreadListHead s) (xs @ ThreadListEntry t # ys) (ChildThreads p) (us @ ProcessChildListEntry t # vs)"
  shows "\<exists>s'. PspThreadOnDelete t s = Done (STATUS_SUCCESS, s') \<and> lockable s' \<and> ocpu s' = ocpu s \<and> Locks (kst s') = Locks (kst s) \<and>
    is_list (sheap (kst s')) (ThreadListHead s) (xs @ ys) \<and> is_list (sheap (kst s')) (ChildThreads p) (us @ vs) \<and>
    ThreadState (kst s') t = THREAD_STATE_TERMINATED \<and> mm s' = mm s \<and> ReferenceCount s' = ReferenceCount s"
proof -
  let ?h = "RemoveEntry (ProcessChildListEntry t) (sheap (kst s))"
  let ?k = "(kst s)\<lparr>ThreadState := (ThreadState (kst s))(t := THREAD_STATE_TERMINATED), sheap := RemoveEntry (ThreadListEntry t) ?h\<rparr>"
  have c: "is_list ?h (ChildThreads p) (us @ vs)" by (rule nl.rem_entry [OF assms(7)])
  have a: "is_list ?h (ThreadListHead s) (xs @ ThreadListEntry t # ys)"
    by (rule nl.rem_entry_frame [OF assms(7) apart_sym [OF assms(8)] _ assms(6)]) simp
  have "apart (ThreadListHead s) (xs @ ThreadListEntry t # ys) (ChildThreads p) (us @ vs)" using assms(8) by (auto simp: apart_def)
  from nl.rem_entry_frame [OF a this _ c]
  have "is_list (RemoveEntry (ThreadListEntry t) ?h) (ChildThreads p) (us @ vs)" by simp
  moreover have "ocpu s = kcpu (kst s)" using assms(2) by (simp add: lockable_def coherent_def)
  ultimately show ?thesis
    using PspThreadOnDelete_eq [of s t] assms(2-5) nl.rem_entry [OF a] unfolding p_def
    by (intro exI [of _ "with_kst ?k s"]) (simp add: lockable_def)
qed

text \<open>A lock cannot be taken with the dispatcher lock held.\<close>

lemma lock_header_above: "DISPATCH_LEVEL < irql (ocpu s) \<Longrightarrow> lock_header h s = Bugcheck IRQL_NOT_GREATER_OR_EQUAL"
  by (simp add: lock_header_def KeAcquireSpinLock_def KfAcquireSpinLock_def irql_defs)

lemma close_entry_above:
  "DISPATCH_LEVEL < irql (ocpu s) \<Longrightarrow> ObCloseHandleByEntry M e s = Bugcheck IRQL_NOT_GREATER_OR_EQUAL"
  by (simp add: ObCloseHandleByEntry_def Let_def lock_header_above)

lemma delete_part_above:
  assumes "DISPATCH_LEVEL < irql (ocpu s)" "part \<noteq> head"
  shows "run_loop (delete_parts M head part s) = Bugcheck IRQL_NOT_GREATER_OR_EQUAL"
proof -
  have "[0..<255] = 0 # [1..<255 :: nat]" by (simp add: upt_conv_Cons)
  then have "close_entries M part [0..<255] s = Bugcheck IRQL_NOT_GREATER_OR_EQUAL" using close_entry_above [OF assms(1)] by simp
  then show ?thesis using assms(2) by (subst delete_parts.simps) (simp add: Let_def run_loop_def next_step_def)
qed

lemma no_parts: "run_loop (delete_parts M head head s) = Done s"
  by (subst delete_parts.simps) (simp add: run_loop_def)

text \<open>C30: deleting a process, in every case. With threads left it is a bug check. A process without handle database parts is taken
  off the list of processes and everything else is as before. But with even one part the processor stops with
  IRQL_NOT_GREATER_OR_EQUAL, whether an entry of it is used or not: the dispatcher lock is held, so the IRQL is SYNCH_LEVEL, and
  closing an entry takes a spin lock that raises to DISPATCH_LEVEL.\<close>

theorem PspProcessOnDelete_spec:
  assumes "lockable s" "Locks (kst s) (Threads.ProcessLock p) = 0"
  shows "PspProcessOnDelete M p s =
    (if flink (sheap (kst s)) (ChildThreads p) \<noteq> ChildThreads p then Bugcheck 0x109
     else if flink (oheap s) (HandleDatabaseHead p) \<noteq> HandleDatabaseHead p then Bugcheck IRQL_NOT_GREATER_OR_EQUAL
     else Done (STATUS_SUCCESS, with_kst ((kst s)\<lparr>sheap := RemoveEntry (ProcessListEntry p) (sheap (kst s))\<rparr>) s))"
proof -
  let ?k = "kst s" and ?pl = "Threads.ProcessLock p" let ?l = "locked_kst ?k"
  have c: "cpu_ok (kcpu ?k)" "irql (kcpu ?k) \<le> SYNCH_LEVEL" "irql (ocpu s) = irql (kcpu ?k)"
    using assms(1) by (simp_all add: lockable_def coherent_def)
  have i: "irql (kcpu ?l) = SYNCH_LEVEL" by (rule locked_irql [OF c(1)])
  have ll: "Locks ?l = Locks ?k" "DispatcherLock ?l = 1" "sheap ?l = sheap ?k" by (simp_all add: locked_kst_def)
  have a: "acquire_at_dpc ?pl ?l = Done (?l\<lparr>Locks := (Locks ?k)(?pl := 1)\<rparr>)"
    using acquire_free [of ?l ?pl] assms(2) i by (simp add: ll)
  let ?s = "with_kst (?l\<lparr>Locks := (Locks ?k)(?pl := 1)\<rparr>) s"
  let ?d = "\<lambda>L. ?l\<lparr>Locks := L, sheap := RemoveEntry (ProcessListEntry p) (sheap ?k)\<rparr>"
  have r: "release_from_dpc ?pl (?d ((Locks ?k)(?pl := 1))) = Done (?d (Locks ?k))"
    using release_dpc [of "?d ((Locks ?k)(?pl := 1))" ?pl] assms(2) i by (simp add: fun_upd_idem)
  have u: "unlock_dispatcher (irql (kcpu ?k)) (with_kst (?d (Locks ?k)) s) = Done (with_kst ((?d (Locks ?k))\<lparr>kcpu := kcpu ?k, DispatcherLock := 0\<rparr>) s)"
    using unlock_dispatcher_held [of "with_kst (?d (Locks ?k)) s" ?k] c ll by simp
  have e: "(?d (Locks ?k))\<lparr>kcpu := kcpu ?k, DispatcherLock := 0\<rparr> = ?k\<lparr>sheap := RemoveEntry (ProcessListEntry p) (sheap ?k)\<rparr>"
    using assms(1) by (simp add: locked_kst_def lockable_def)
  have part: "run_loop (delete_parts M (HandleDatabaseHead p) (flink (oheap s) (HandleDatabaseHead p)) ?s) =
      (if flink (oheap s) (HandleDatabaseHead p) \<noteq> HandleDatabaseHead p then Bugcheck IRQL_NOT_GREATER_OR_EQUAL else Done ?s)"
    using delete_part_above [of ?s] i by (simp add: no_parts)
  show ?thesis
    unfolding PspProcessOnDelete_def lock_dispatcher_free [OF assms(1)] c(3)
    using part by (simp add: do_ks_coherent set_sheap_coherent a r u e ll Let_def)
qed

text \<open>Thread 0x9000 of process 0x8000 is on its lists. Process 0x1F70 has the part 0x3000 in its handle database, process 0x4000
  has none; both have no threads.\<close>

definition psp_heap :: list_heap where
  "psp_heap = \<lparr>flink = (\<lambda>_. 0)(0x700 := 0x9120, 0x9120 := 0x700, 0x8058 := 0x9110, 0x9110 := 0x8058, 0x1FC8 := 0x1FC8, 0x4058 := 0x4058),
     blink = (\<lambda>_. 0)(0x700 := 0x9120, 0x9120 := 0x700, 0x8058 := 0x9110, 0x9110 := 0x8058, 0x1FC8 := 0x1FC8, 0x4058 := 0x4058)\<rparr>"

definition psp_sys :: sys where
  "psp_sys = ob.extend (one_handle\<lparr>ProcessHandleDatabaseHead := 0xE0, oheap := InitializeListHead 0x4090 (oheap one_handle)\<rparr>)
    (sys.fields (clock_istate\<lparr>ps := two_threads\<lparr>ks := (quiet_kstate 0)\<lparr>sheap := psp_heap\<rparr>\<rparr>\<rparr>) stack_mmu 0x800 0x700 (\<lambda>_. 0x8000)
      (\<lambda>_. 0) (\<lambda>_. 0) (\<lambda>_. 0) (\<lambda>_. 0) (\<lambda>_. 0) (\<lambda>_. 0) (\<lambda>_. True) (\<lambda>_. 0) (\<lambda>_. False) (\<lambda>_. 0) (\<lambda>_. 0) 0 0 0xA000 0xB000 0 0 1)"

lemma psp_kst: "kst psp_sys = (quiet_kstate 0)\<lparr>sheap := psp_heap\<rparr>" "EThreadProcess psp_sys = (\<lambda>_. 0x8000)" "ThreadListHead psp_sys = 0x700"
  "oheap psp_sys = InitializeListHead 0x4090 (oheap one_handle)" "ReferenceCount psp_sys = (\<lambda>_. 1)"
  by (simp_all add: psp_sys_def ob.defs sys.defs one_handle_def)

lemma psp_lockable: "lockable psp_sys"
  by (simp add: lockable_def coherent_def current_process_def psp_kst quiet_kstate_def)
    (simp add: psp_sys_def ob.defs sys.defs one_handle_def HandleDatabaseHead_def cpu_ok_def)

theorem PspThreadOnDelete_spec_witness:
  "\<exists>s'. PspThreadOnDelete 0x9000 psp_sys = Done (STATUS_SUCCESS, s') \<and> is_list (sheap (kst s')) 0x700 [] \<and>
     is_list (sheap (kst s')) 0x8058 [] \<and> ThreadState (kst s') 0x9000 = THREAD_STATE_TERMINATED \<and> ReferenceCount s' (ObGetHeaderFromObject 0x8000) = 1"
proof -
  have o: "ChildThreads 0x8000 = 0x8058" "ThreadListEntry 0x9000 = 0x9120" "ProcessChildListEntry 0x9000 = 0x9110"
    "Threads.ProcessLock 0x8000 = 0x8020" "ThreadLock 0x9000 = 0x9020"
    by (simp_all add: ChildThreads_def ThreadListEntry_def ProcessChildListEntry_def Threads.ProcessLock_def ThreadLock_def)
  have l: "is_list (sheap (kst psp_sys)) 0x700 ([] @ 0x9120 # [])" "is_list (sheap (kst psp_sys)) 0x8058 ([] @ 0x9110 # [])"
    by (simp_all add: psp_kst psp_heap_def is_list_def)
  have a: "apart 0x700 ([] @ 0x9120 # []) 0x8058 ([] @ [0x9110 :: ptr])" by (simp add: apart_def)
  have k: "Locks (kst psp_sys) = (\<lambda>_. 0)" by (simp add: psp_kst quiet_kstate_def)
  have e: "EThreadProcess psp_sys 0x9000 = 0x8000" by (simp add: psp_kst)
  note spec = PspThreadOnDelete_spec [of psp_sys "0x9000" "[]" "[]" "[]" "[]", unfolded e psp_kst(3) o]
  obtain s' where "PspThreadOnDelete 0x9000 psp_sys = Done (STATUS_SUCCESS, s')" "is_list (sheap (kst s')) 0x700 ([] @ [])"
    "is_list (sheap (kst s')) 0x8058 ([] @ [])" "ThreadState (kst s') 0x9000 = THREAD_STATE_TERMINATED" "ReferenceCount s' = ReferenceCount psp_sys"
    using spec [OF psp_lockable _ _ _ l a] by (auto simp: k)
  then show ?thesis by (auto simp: psp_kst)
qed

theorem PspProcessOnDelete_spec_witness:
  "\<forall>M. PspProcessOnDelete M 0x8000 psp_sys = Bugcheck 0x109 \<and> PspProcessOnDelete M 0x1F70 psp_sys = Bugcheck IRQL_NOT_GREATER_OR_EQUAL \<and>
   (\<exists>s'. PspProcessOnDelete M 0x4000 psp_sys = Done (STATUS_SUCCESS, s'))"
proof
  fix M
  have k: "Locks (kst psp_sys) = (\<lambda>_. 0)" by (simp add: psp_kst quiet_kstate_def)
  have c: "flink (sheap (kst psp_sys)) (ChildThreads 0x8000) \<noteq> ChildThreads 0x8000" "flink (sheap (kst psp_sys)) (ChildThreads 0x1F70) = ChildThreads 0x1F70"
    "flink (sheap (kst psp_sys)) (ChildThreads 0x4000) = ChildThreads 0x4000"
    "flink (oheap psp_sys) (HandleDatabaseHead 0x1F70) \<noteq> HandleDatabaseHead 0x1F70" "flink (oheap psp_sys) (HandleDatabaseHead 0x4000) = HandleDatabaseHead 0x4000"
    by (simp_all add: psp_kst psp_heap_def ChildThreads_def HandleDatabaseHead_def one_handle_def InitializeListHead_def)
  show "PspProcessOnDelete M 0x8000 psp_sys = Bugcheck 0x109 \<and> PspProcessOnDelete M 0x1F70 psp_sys = Bugcheck IRQL_NOT_GREATER_OR_EQUAL \<and>
     (\<exists>s'. PspProcessOnDelete M 0x4000 psp_sys = Done (STATUS_SUCCESS, s'))"
    using PspProcessOnDelete_spec [OF psp_lockable, of "0x8000" M] PspProcessOnDelete_spec [OF psp_lockable, of "0x1F70" M]
      PspProcessOnDelete_spec [OF psp_lockable, of "0x4000" M] c by (simp add: k)
qed

end
