(* ===== verification/FileObjects.thy ===== *)
theory FileObjects
  imports Processes Paths FatVfs
begin

text \<open>
  Files as objects, NNXOSKRN/io/fileio.c: a named object for every file that is open, an unnamed one for every time it was opened,
  the system calls that open and read a file by handle, and the section kept with a file.
\<close>

section \<open>State\<close>

text \<open>The two functions of a file system that are called here, and those of the FAT driver.\<close>

record volume_functions =
  VOpenFile :: "vfs \<Rightarrow> cstr \<Rightarrow> (VFS_FILE option \<times> vfs) outcome"
  VReadFile :: "VFS_FILE option \<Rightarrow> u64 \<Rightarrow> bytes \<Rightarrow> vfs \<Rightarrow> (VFS_STATUS \<times> bytes \<times> VFS_FILE option \<times> vfs) outcome"

definition fat_functions :: "bool \<times> bool \<times> bool \<Rightarrow> volume_functions" where
  "fat_functions got = \<lparr>VOpenFile = FatVfsInterfaceOpenFile got, VReadFile = FatVfsInterfaceReadFile\<rparr>"

text \<open>Every file is on the system volume. SharedFileObject belongs to a FILE_OPEN_INSTANCE_OBJECT, whose ListEntry is at offset 0; pFile,
  the VFS_FILE it points at, and hImageSection to a SHARED_FILE_OBJECT, whose Instances are at offset 0. InitShared and InitFilepath
  are fields of the structures handed to the OnCreate methods; Filepath is the address of the descriptor.\<close>

record fsys = sys +
  mounted :: "vfs_entry list"
  volume :: vfs
  fs_functions :: volume_functions
  SharedFileObject :: "ptr \<Rightarrow> ptr"
  pFile :: "ptr \<Rightarrow> VFS_FILE option"
  hImageSection :: "ptr \<Rightarrow> handle"
  IoFileObjectType :: ptr
  IoFileOpenInstanceObjectType :: ptr
  InitShared :: "ptr \<Rightarrow> ptr"
  InitFilepath :: "ptr \<Rightarrow> ptr"

type_synonym 'z io_methods = "'z fsys_ext psp_methods"

section \<open>Methods of the types\<close>

definition InstanceOnCreate :: "ptr \<Rightarrow> ptr \<Rightarrow> 'z fsys_scheme \<Rightarrow> NTSTATUS \<times> 'z fsys_scheme" where
  "InstanceOnCreate SelfObject InitData s =
     (STATUS_SUCCESS, s\<lparr>SharedFileObject := (SharedFileObject s)(SelfObject := InitShared s InitData),
        oheap := InsertTailList (InitShared s InitData) SelfObject (oheap s)\<rparr>)"

definition InstanceOnClose :: "'z io_methods \<Rightarrow> ptr \<Rightarrow> 'z fsys_scheme \<Rightarrow> (NTSTATUS \<times> 'z fsys_scheme) outcome" where
  "InstanceOnClose M Self s =
     obind (ObDereferenceObject M (SharedFileObject s Self) (s\<lparr>oheap := RemoveEntry Self (oheap s)\<rparr>)) (\<lambda>(_, s). Done (STATUS_SUCCESS, s))"

text \<open>The path in the 2048 characters of asciiPath. A path as long as that is not terminated: rest is what follows on the stack.\<close>

definition ascii_path :: "u16 strings \<Rightarrow> UNICODE_STRING \<Rightarrow> bytes \<Rightarrow> cstr" where
  "ascii_path S u rest =
     (\<lambda>i. if i < 2048 then (if i < unat (Length u) div 2 then ucast (wchar_at S (Buffer u) i) else 0) else rest i)"

text \<open>Without a mounted file system a NULL pointer is followed.\<close>

definition SharedObjOnCreate :: "ptr \<Rightarrow> ptr \<Rightarrow> 'z fsys_scheme \<Rightarrow> (NTSTATUS \<times> 'z fsys_scheme) outcome" where
  "SharedObjOnCreate Self OpenData s =
     (let s = s\<lparr>hImageSection := (hImageSection s)(Self := NULL)\<rparr>;
          asciiPath = ascii_path (ostr s) (str (ostr s) (InitFilepath s OpenData)) (fresh (volume s))
      in if VfsGetSystemVfs (mounted s) = None then Fault
         else obind (VOpenFile (fs_functions s) (volume s) asciiPath) (\<lambda>(file, v).
           let s = s\<lparr>volume := v, pFile := (pFile s)(Self := file)\<rparr> in
           if file = None then Done (STATUS_NO_SUCH_FILE, s)
           else Done (STATUS_SUCCESS, s\<lparr>oheap := InitializeListHead Self (oheap s)\<rparr>)))"

text \<open>Their pointers. No code calls OnClose, so there is no field for it.\<close>

abbreviation (input) pSharedObjOnCreate :: u64 where "pSharedObjOnCreate \<equiv> 7"
abbreviation (input) pInstanceOnCreate :: u64 where "pInstanceOnCreate \<equiv> 8"

definition io_method ::
  "(u64 \<Rightarrow> ptr \<Rightarrow> ptr \<Rightarrow> 'z fsys_scheme \<Rightarrow> (NTSTATUS \<times> 'z fsys_scheme) outcome) \<Rightarrow> u64 \<Rightarrow> ptr \<Rightarrow> ptr \<Rightarrow> 'z fsys_scheme \<Rightarrow>
    (NTSTATUS \<times> 'z fsys_scheme) outcome"
where
  "io_method other f obj data s =
     (if f = pSharedObjOnCreate then SharedObjOnCreate obj data s
      else if f = pInstanceOnCreate then Done (InstanceOnCreate obj data s)
      else other f obj data s)"

definition io_table :: "'z io_methods \<Rightarrow> 'z io_methods" where
  "io_table M = M\<lparr>call_method := io_method (call_method M)\<rparr>"

text \<open>A SHARED_FILE_OBJECT has 40 bytes, a FILE_OPEN_INSTANCE_OBJECT 24. The names and the type of types are given.\<close>

definition NtFileObjInit :: "'z io_methods \<Rightarrow> UNICODE_STRING \<Rightarrow> UNICODE_STRING \<Rightarrow> ptr \<Rightarrow> 'z fsys_scheme \<Rightarrow> (NTSTATUS \<times> 'z fsys_scheme) outcome" where
  "NtFileObjInit M IoFileTypeName IoFileOpenInstanceObjectTypeName ObTypeObjectType s =
     obind (ObCreateType M IoFileTypeName 40 ObTypeObjectType s) (\<lambda>((Status, t), s).
     if \<not> NT_SUCCESS Status then Done (Status, s)
     else let s = s\<lparr>IoFileObjectType := the t, TOnCreate := (TOnCreate s)(the t := pSharedObjOnCreate)\<rparr> in
       obind (ObCreateType M IoFileOpenInstanceObjectTypeName 24 ObTypeObjectType s) (\<lambda>((Status, t), s).
       if \<not> NT_SUCCESS Status then Done (Status, s)
       else Done (STATUS_SUCCESS, s\<lparr>IoFileOpenInstanceObjectType := the t, TOnCreate := (TOnCreate s)(the t := pInstanceOnCreate)\<rparr>)))"

section \<open>Opening\<close>

text \<open>data is the address of the creation data, also below.\<close>

definition NtCreateInstanceFileObjectFromShared ::
  "'z io_methods \<Rightarrow> ptr \<Rightarrow> ptr \<Rightarrow> OBJECT_ATTRIBUTES \<Rightarrow> u32 \<Rightarrow> u8 \<Rightarrow> 'z fsys_scheme \<Rightarrow> ((NTSTATUS \<times> ptr option) \<times> 'z fsys_scheme) outcome"
where
  "NtCreateInstanceFileObjectFromShared M data pSharedFile A AccessMask Mode s =
     obind (ObReferenceObject pSharedFile s) (\<lambda>(Status, s).
     if \<not> NT_SUCCESS Status then Done ((Status, None), s)
     else let s = s\<lparr>InitShared := (InitShared s)(data := pSharedFile)\<rparr> in
       obind (ObCreateObject M AccessMask Mode A (IoFileOpenInstanceObjectType s) data s) (\<lambda>((Status, i), s).
       if \<not> NT_SUCCESS Status then obind (ObDereferenceObject M pSharedFile s) (\<lambda>(_, s). Done ((Status, None), s))
       else Done ((STATUS_SUCCESS, i), s)))"

partial_function (option) str_loop :: "cstr \<Rightarrow> nat \<Rightarrow> nat option" where
  "str_loop c Result = (if c Result = 0 then Some Result else str_loop c (Suc Result))"

definition StrLen :: "cstr \<Rightarrow> nat outcome" where
  "StrLen c = (case str_loop c 0 of None \<Rightarrow> Hang | Some n \<Rightarrow> Done n)"

text \<open>The characters are signed. The length of the result is not set, and the reference to the parent is kept.\<close>

definition copy_path :: "cstr \<Rightarrow> nat \<Rightarrow> ptr \<Rightarrow> u16 strings \<Rightarrow> u16 strings" where
  "copy_path c n buf S = S\<lparr>chars := fold (\<lambda>i m. m(buf + 2 * word_of_nat i := scast (c i))) [0..<n] (chars S)\<rparr>"

definition GetPathFromParent :: "'z io_methods \<Rightarrow> handle \<Rightarrow> ptr \<Rightarrow> u8 \<Rightarrow> 'z fsys_scheme \<Rightarrow> (NTSTATUS \<times> 'z fsys_scheme) outcome" where
  "GetPathFromParent M hParent pResult Mode s =
     obind (ObReferenceObjectByHandle M hParent 0 (IoFileObjectType s) Mode s) (\<lambda>((Status, p), s).
     if \<not> NT_SUCCESS Status then Done (Status, s)
     else case pFile s (the p) of
       None \<Rightarrow> Fault
     | Some file \<Rightarrow>
         obind (StrLen (FPath file)) (\<lambda>n.
         let r = str (ostr s) pResult in
         if n > unat (MaxLength r) div 2 then Done (STATUS_BUFFER_TOO_SMALL, s)
         else Done (STATUS_SUCCESS, s\<lparr>ostr := copy_path (FPath file) n (Buffer r) (ostr s)\<rparr>)))"

definition string_cat :: "ptr \<Rightarrow> ptr \<Rightarrow> 'z fsys_scheme \<Rightarrow> NTSTATUS \<times> 'z fsys_scheme" where
  "string_cat D S s = (let (Status, t) = RtlUnicodeStringCat D S (ostr s) in (Status, s\<lparr>ostr := t\<rparr>))"

definition set_string :: "ptr \<Rightarrow> UNICODE_STRING \<Rightarrow> 'z fsys_scheme \<Rightarrow> 'z fsys_scheme" where
  "set_string a u s = s\<lparr>ostr := (ostr s)\<lparr>str := (str (ostr s))(a := u)\<rparr>\<rparr>"

text \<open>path and name are the addresses of the descriptors of the path and of the name given, buf that of the 2048 characters of
  PathBuffer, separator that of PathSeparatorString. The create disposition, the attributes and the share access are never read.\<close>

abbreviation (input) OBJ_OPENLINK :: u32 where "OBJ_OPENLINK \<equiv> 0x100"

definition NtCreateFile ::
  "'z io_methods \<Rightarrow> ptr \<Rightarrow> ptr \<Rightarrow> ptr \<Rightarrow> ptr \<Rightarrow> ptr \<Rightarrow> u32 \<Rightarrow> OBJECT_ATTRIBUTES \<Rightarrow> 'z fsys_scheme \<Rightarrow>
    ((NTSTATUS \<times> handle option) \<times> 'z fsys_scheme) outcome"
where
  "NtCreateFile M path buf separator name data DesiredAccessMask pInObjectAttributes s =
     (let s = set_string path \<lparr>Length = 0, MaxLength = 4096, Buffer = buf\<rparr> s;
          A = pInObjectAttributes\<lparr>AAttributes := or (AAttributes pInObjectAttributes) (or OBJ_OPENIF OBJ_OPENLINK)\<rparr>
      in obind (if ARoot A \<noteq> NULL
                then obind (GetPathFromParent M (ARoot A) path KernelMode s) (\<lambda>(Status, s).
                       Done (if \<not> NT_SUCCESS Status then (Status, s) else string_cat path separator s))
                else Done (STATUS_SUCCESS, s)) (\<lambda>(Status, s).
         if \<not> NT_SUCCESS Status then Done ((Status, None), s)
         else let (Status, s) = (case ObjectName A of None \<Rightarrow> string_cat path NULL s | Some n \<Rightarrow> string_cat path name (set_string name n s)) in
         if \<not> NT_SUCCESS Status then Done ((Status, None), s)
         else let s = s\<lparr>InitFilepath := (InitFilepath s)(data := path)\<rparr> in
         obind (ObCreateObject M 0 KernelMode A (IoFileObjectType s) data s) (\<lambda>((Status, f), s).
         if \<not> NT_SUCCESS Status then Done ((Status, None), s)
         else let FileObject = the f in
           obind (NtCreateInstanceFileObjectFromShared M data FileObject (InitializeObjectAttributes None 0 NULL) DesiredAccessMask KernelMode s)
             (\<lambda>((Status, i), s).
           if \<not> NT_SUCCESS Status then obind (ObDereferenceObject M FileObject s) (\<lambda>(_, s). Done ((Status, None), s))
           else let Instance = the i in
             obind (ObCreateHandle KernelMode True Instance s) (\<lambda>((Status, h), s).
             if \<not> NT_SUCCESS Status
             then obind (ObDereferenceObject M Instance s) (\<lambda>(_, s).
                  obind (ObDereferenceObject M FileObject s) (\<lambda>(_, s). Done ((Status, None), s)))
             else obind (ObDereferenceObject M FileObject s) (\<lambda>(_, s). Done ((STATUS_SUCCESS, h), s)))))))"

section \<open>Using an open file\<close>

record IO_STATUS_BLOCK =
  IoStatus :: NTSTATUS
  Information :: u64

text \<open>The first half of the four functions below: the instance a handle leads to.\<close>

definition open_instance :: "'z io_methods \<Rightarrow> handle \<Rightarrow> 'z fsys_scheme \<Rightarrow> ((NTSTATUS \<times> ptr option) \<times> 'z fsys_scheme) outcome" where
  "open_instance M hFile s = ObReferenceObjectByHandle M hFile 0 (IoFileOpenInstanceObjectType s) KernelMode s"

text \<open>The buffer comes back with the bytes read. The file pointer belongs to the shared file.\<close>

definition NtReadFile ::
  "'z io_methods \<Rightarrow> handle \<Rightarrow> IO_STATUS_BLOCK \<Rightarrow> bytes \<Rightarrow> u32 \<Rightarrow> u64 \<Rightarrow> 'z fsys_scheme \<Rightarrow>
    ((NTSTATUS \<times> IO_STATUS_BLOCK \<times> bytes) \<times> 'z fsys_scheme) outcome"
where
  "NtReadFile M hFile block buffer n ByteOffset s =
     obind (open_instance M hFile s) (\<lambda>((Status, i), s).
     if \<not> NT_SUCCESS Status then Done ((Status, block, buffer), s)
     else let pInstance = the i; shared = SharedFileObject s pInstance in
       case pFile s shared of
         None \<Rightarrow> Fault
       | Some file \<Rightarrow>
           obind (VReadFile (fs_functions s) (Some (file\<lparr>Vfs.FilePointer := ByteOffset\<rparr>)) (ucast n) buffer (volume s)) (\<lambda>(VfsStatus, buffer, file, v).
           let s = s\<lparr>volume := v, pFile := (pFile s)(shared := file)\<rparr>;
               block = block\<lparr>Information := Vfs.FilePointer (the file) - ByteOffset\<rparr>
           in if VfsStatus = VFS_ERR_EOF
              then obind (ObDereferenceObject M pInstance s) (\<lambda>(_, s). Done ((STATUS_END_OF_FILE, block, buffer), s))
              else let block = block\<lparr>IoStatus := STATUS_SUCCESS\<rparr> in
                obind (ObDereferenceObject M pInstance s) (\<lambda>(Status, s).
                Done ((if \<not> NT_SUCCESS Status then Status else STATUS_SUCCESS, block, buffer), s))))"

definition NnxGetNtFileSize :: "'z io_methods \<Rightarrow> handle \<Rightarrow> 'z fsys_scheme \<Rightarrow> ((NTSTATUS \<times> u64 option) \<times> 'z fsys_scheme) outcome" where
  "NnxGetNtFileSize M hFile s =
     obind (open_instance M hFile s) (\<lambda>((Status, i), s).
     if \<not> NT_SUCCESS Status then Done ((Status, None), s)
     else case pFile s (SharedFileObject s (the i)) of
         None \<Rightarrow> Fault
       | Some file \<Rightarrow>
           obind (ObDereferenceObject M (the i) s) (\<lambda>(Status, s).
           Done ((if \<not> NT_SUCCESS Status then Status else STATUS_SUCCESS, Some (FileSize file)), s)))"

definition NnxGetImageSection :: "'z io_methods \<Rightarrow> handle \<Rightarrow> 'z fsys_scheme \<Rightarrow> ((NTSTATUS \<times> handle option) \<times> 'z fsys_scheme) outcome" where
  "NnxGetImageSection M hFile s =
     obind (open_instance M hFile s) (\<lambda>((Status, i), s).
     if \<not> NT_SUCCESS Status then Done ((Status, None), s)
     else let outSection = hImageSection s (SharedFileObject s (the i)) in
       obind (ObDereferenceObject M (the i) s) (\<lambda>(_, s). Done ((Status, Some outSection), s)))"

definition NnxSetImageSection :: "'z io_methods \<Rightarrow> handle \<Rightarrow> handle \<Rightarrow> 'z fsys_scheme \<Rightarrow> (NTSTATUS \<times> 'z fsys_scheme) outcome" where
  "NnxSetImageSection M hFile hSection s =
     obind (open_instance M hFile s) (\<lambda>((Status, i), s).
     if \<not> NT_SUCCESS Status then Done (Status, s)
     else obind (ObDereferenceObject M (the i) (s\<lparr>hImageSection := (hImageSection s)(SharedFileObject s (the i) := hSection)\<rparr>)) (\<lambda>(_, s).
       Done (Status, s)))"

section \<open>Handles to live objects\<close>

text \<open>A handle that leads to an object while all locks are free.\<close>

definition leads_to :: "handle \<Rightarrow> ptr \<Rightarrow> 'w ob_scheme \<Rightarrow> bool" where
  "leads_to h obj s =
     (handles_idle s \<and> h \<noteq> NULL \<and> obj \<noteq> NULL \<and>
      (\<exists>e. ObGetHandleDatabaseEntryFromHandle h (ObpGetHandleDatabaseHead (ObpIsKernelHandle h) s) s = Done (STATUS_SUCCESS, Some e) \<and>
         entry_object s e = obj) \<and>
      (let d = ObGetHeaderFromObject obj in HLock s d = 0 \<and> 0 < unat (ReferenceCount s d) \<and> unat (ReferenceCount s d) < 2 ^ 31 \<and>
         and (HAttributes s d) (not OBJ_VALID_ATTRIBUTES) = 0 \<and> and (HAttributes s d) OBJ_FORCE_ACCESS_CHECK = 0))"

lemma handle_referenced:
  assumes "leads_to h obj s"
  shows "ObReferenceObjectByHandle M h 0 ty KernelMode s = Done ((STATUS_SUCCESS, Some obj), referenced (ObGetHeaderFromObject obj) s)"
proof -
  let ?d = "ObGetHeaderFromObject obj"
  obtain e where e: "ObGetHandleDatabaseEntryFromHandle h (ObpGetHandleDatabaseHead (ObpIsKernelHandle h) s) s = Done (STATUS_SUCCESS, Some e)"
    "entry_object s e = obj"
    using assms by (auto simp: leads_to_def)
  have l: "handles_idle s" "calm s" "h \<noteq> NULL" "obj \<noteq> NULL" "HLock s ?d = 0" "ReferenceCount s ?d \<noteq> 0" "unat (ReferenceCount s ?d) + 1 < 2 ^ 32"
    "and (HAttributes s ?d) (not OBJ_VALID_ATTRIBUTES) = 0" "and (HAttributes s ?d) OBJ_FORCE_ACCESS_CHECK = 0"
    using assms by (auto simp: leads_to_def Let_def handles_idle_def)
  have x: "ObExtractAndReferenceObjectFromHandle h KernelMode s = Done ((STATUS_SUCCESS, Some obj), referenced ?d s)"
    using Extract_eq [OF l(1,3) _ e(1), of KernelMode] l(4,5) unfolding e(2) by simp
  have c: "calm (referenced ?d s)" "HLock (referenced ?d s) ?d = 0" using l(2,5) by (simp_all add: referenced_def calm_def)
  have "ObReferenceObjectByPointer obj 0 ty KernelMode (referenced ?d s) = Done (STATUS_SUCCESS, referenced ?d (referenced ?d s))"
    using l(4,8,9) lock_header_free [OF c] under_header_lock(2) [OF c]
    by (simp add: ObReferenceObjectByPointer_def Let_def referenced_def)
  moreover have "ObDereferenceObject M obj (referenced ?d (referenced ?d s)) = Done (STATUS_SUCCESS, referenced ?d s)"
    by (rule dereferenced_below [OF l(2,5,6,7)])
  ultimately show ?thesis
    using x l(3) by (simp add: ObReferenceObjectByHandle_def ObReferenceObjectByHandle_with_def)
qed

text \<open>Giving the reference back after work that leaves the object manager alone.\<close>

definition same_ob :: "'w ob_scheme \<Rightarrow> 'w ob_scheme \<Rightarrow> bool" where
  "same_ob s t = (ocpu t = ocpu s \<and> HLock t = HLock s \<and> ReferenceCount t = ReferenceCount s)"

lemma handle_dereferenced:
  assumes "leads_to h obj s" "same_ob (referenced (ObGetHeaderFromObject obj) s) t"
  shows "ObDereferenceObject M obj t = Done (STATUS_SUCCESS, t\<lparr>ReferenceCount := ReferenceCount s\<rparr>)"
proof -
  let ?d = "ObGetHeaderFromObject obj" let ?u = "t\<lparr>ReferenceCount := ReferenceCount s\<rparr>"
  have "t = referenced ?d ?u" using assms(2) by (simp add: same_ob_def referenced_def)
  moreover have "calm ?u" "HLock ?u ?d = 0" "ReferenceCount ?u ?d \<noteq> 0"
    using assms by (auto simp: leads_to_def Let_def handles_idle_def same_ob_def referenced_def calm_def)
  ultimately show ?thesis using dereferenced [of ?u obj M] by simp
qed

text \<open>Reading by handle: the file system reads at ByteOffset into the buffer, whatever the file pointer was, and
  the file pointer that all instances share is moved; the number of bytes is how far it moved. The end of the file gives
  STATUS_END_OF_FILE and leaves the Status of the block alone; every other answer of the file system, a failure included,
  gives STATUS_SUCCESS. The reference taken on the way is given back.\<close>

lemma NtReadFile_eq:
  assumes "leads_to h i s" "pFile s (SharedFileObject s i) = Some f"
    and "VReadFile (fs_functions s) (Some (f\<lparr>Vfs.FilePointer := off\<rparr>)) (ucast n) buf (volume s) = Done (st, buf', Some f', v)"
  shows "NtReadFile M h block buf n off s =
    Done ((if st = VFS_ERR_EOF then STATUS_END_OF_FILE else STATUS_SUCCESS,
           \<lparr>IoStatus = (if st = VFS_ERR_EOF then IoStatus block else STATUS_SUCCESS), Information = Vfs.FilePointer f' - off\<rparr>, buf'),
          s\<lparr>volume := v, pFile := (pFile s)(SharedFileObject s i := Some f')\<rparr>)"
proof -
  let ?r = "referenced (ObGetHeaderFromObject i) s"
  let ?t = "?r\<lparr>volume := v, pFile := (pFile s)(SharedFileObject s i := Some f')\<rparr>"
  have r: "SharedFileObject ?r = SharedFileObject s" "pFile ?r = pFile s" "fs_functions ?r = fs_functions s" "volume ?r = volume s"
    by (simp_all add: referenced_def)
  have d: "ObDereferenceObject M i ?t = Done (STATUS_SUCCESS, ?t\<lparr>ReferenceCount := ReferenceCount s\<rparr>)"
    by (rule handle_dereferenced [OF assms(1)]) (simp add: same_ob_def)
  have "?t\<lparr>ReferenceCount := ReferenceCount s\<rparr> = s\<lparr>volume := v, pFile := (pFile s)(SharedFileObject s i := Some f')\<rparr>"
    by (simp add: referenced_def)
  then show ?thesis
    using assms(2,3) d handle_referenced [OF assms(1), of M]
    by (simp add: NtReadFile_def open_instance_def Let_def r)
qed

section \<open>An open file\<close>

text \<open>Handle 1 leads to the open instance 0x5058 of file 0x6058, which has 10 bytes on a FAT volume.\<close>

definition io_sys :: fsys where
  "io_sys = sys.extend psp_sys
    (fsys.fields (snd (VfsRegister 1 2 3 4 VfsInit))
      \<lparr>sectors = (\<lambda>_ _. 0), read_status = (\<lambda>_. 0), write_status = (\<lambda>_. 0), CachedFatSector = (\<lambda>_. 0), CachedFatSectorNumber = 0, fresh = (\<lambda>_. 0)\<rparr>
      (fat_functions (True, True, True)) (\<lambda>_. 0x6058) (\<lambda>_. Some \<lparr>FName = (\<lambda>_. 0), FPath = (\<lambda>_. 0), FilePointer = 0, FileSize = 10\<rparr>)
      (\<lambda>_. 0) 0xC000 0xD000 (\<lambda>_. 0) (\<lambda>_. 0))"

lemmas io_sys_fields = io_sys_def psp_sys_def ob.defs sys.defs fsys.defs one_handle_def InitializeListHead_def

lemma io_leads: "leads_to 1 0x5058 io_sys"
proof -
  have "is_list (oheap io_sys) 0x2000 [0x3000]" by (simp add: io_sys_fields is_list_def)
  then have "ObGetHandleDatabaseEntryFromHandle 1 0x2000 io_sys = Done (STATUS_SUCCESS, Some (0x3000, 0))"
    using lookup_entry [of io_sys "0x2000" "[0x3000]" 1] by simp
  moreover have "ObpGetHandleDatabaseHead (ObpIsKernelHandle 1) io_sys = 0x2000" "entry_object io_sys (0x3000, 0) = 0x5058"
    by (simp_all add: ObpGetHandleDatabaseHead_def ObpIsKernelHandle_def entry_object_def io_sys_fields)
  moreover have "handles_idle io_sys" by (simp add: handles_idle_def calm_def io_sys_fields cpu_ok_def)
  moreover have "HLock io_sys 0x5000 = 0" "ReferenceCount io_sys 0x5000 = 1" "HAttributes io_sys 0x5000 = OBJ_KERNEL_HANDLE"
    by (simp_all add: io_sys_fields)
  ultimately show ?thesis by (simp add: leads_to_def Let_def ObGetHeaderFromObject_def)
qed

lemma NtReadFile_eq_example:
  "\<forall>M buf. \<exists>s. NtReadFile M 1 \<lparr>IoStatus = 7, Information = 7\<rparr> buf 4 20 io_sys = Done ((STATUS_SUCCESS, \<lparr>IoStatus = STATUS_SUCCESS, Information = 0\<rparr>, buf), s)"
proof (intro allI)
  fix M and buf :: bytes
  let ?f = "\<lparr>FName = (\<lambda>_. 0), FPath = (\<lambda>_. 0), FilePointer = 0, FileSize = 10\<rparr> :: VFS_FILE"
  have f: "SharedFileObject io_sys 0x5058 = 0x6058" "pFile io_sys 0x6058 = Some ?f" "fs_functions io_sys = fat_functions (True, True, True)"
    by (simp_all add: io_sys_fields)
  have "VReadFile (fs_functions io_sys) (Some (?f\<lparr>Vfs.FilePointer := 20\<rparr>)) (ucast (4 :: u32)) buf (volume io_sys) =
      Done (VFS_ERR_ARGUMENT_INVALID, buf, Some (?f\<lparr>Vfs.FilePointer := 20\<rparr>), volume io_sys)"
    unfolding f by (simp add: fat_functions_def FatVfsInterfaceReadFile_def Checks_def)
  from NtReadFile_eq [OF io_leads f(2) [folded f(1)] this]
  show "\<exists>s. NtReadFile M 1 \<lparr>IoStatus = 7, Information = 7\<rparr> buf 4 20 io_sys =
      Done ((STATUS_SUCCESS, \<lparr>IoStatus = STATUS_SUCCESS, Information = 0\<rparr>, buf), s)" by simp
qed

end
