(* ===== verification/Sections.thy ===== *)
theory Sections
  imports FileObjects
begin

text \<open>
  Memory sections and their views, NNXOSKRN/mm/mmobj.c: section objects with their array of frames, views of them in address
  spaces, page faults in views, and the section of a file.
\<close>

section \<open>State\<close>

text \<open>MappingAt gives the entries of an array of frames by its address. In a SECTION_VIEW the AddressSpaceEntry is at offset 0; in an
  ADDRESS_SPACE the SectionViewHead is at offset 8 and the Lock at 24. The fields Init... are those of a MEMORY_SECTION_CREATION_DATA.\<close>

record ssys = fsys +
  NumberOfPages :: "ptr \<Rightarrow> u64"
  Mappings :: "ptr \<Rightarrow> ptr"
  MappingAt :: "ptr \<Rightarrow> u64 \<Rightarrow> PFN_NUMBER"
  SectionFlags :: "ptr \<Rightarrow> u64"
  SectionFile :: "ptr \<Rightarrow> handle"
  SectionLock :: "ptr \<Rightarrow> KSPIN_LOCK"
  ViewSection :: "ptr \<Rightarrow> handle"
  FileOffset :: "ptr \<Rightarrow> u64"
  MappingStart :: "ptr \<Rightarrow> u64"
  BaseAddress :: "ptr \<Rightarrow> u64"
  SizePages :: "ptr \<Rightarrow> u64"
  ViewName :: "ptr \<Rightarrow> ptr"
  Protection :: "ptr \<Rightarrow> u32"
  MmSectionType :: ptr
  InitPages :: "ptr \<Rightarrow> u64"
  InitFlags :: "ptr \<Rightarrow> u64"
  InitFile :: "ptr \<Rightarrow> handle"

type_synonym 'z mm_methods = "'z ssys_ext io_methods"

definition SectionViews :: "ptr \<Rightarrow> ptr" where "SectionViews a = a + 8"
definition AddressSpaceLock :: "ptr \<Rightarrow> ptr" where "AddressSpaceLock a = a + 24"

section \<open>Calls into the other parts\<close>

abbreviation (input) MSEC :: u32 where "MSEC \<equiv> 0x4D534543"
abbreviation (input) MSEL :: u32 where "MSEL \<equiv> 0x4D53454C"

definition with_pool :: "(pool \<Rightarrow> ('a \<times> pool) outcome) \<Rightarrow> 'w ob_scheme \<Rightarrow> ('a \<times> 'w ob_scheme) outcome" where
  "with_pool f s = obind (f ((opool s)\<lparr>cpool := ocpu s\<rparr>)) (\<lambda>(r, q). Done (r, s\<lparr>opool := q, ocpu := cpool q\<rparr>))"

definition free_tagged :: "ptr \<Rightarrow> u32 \<Rightarrow> 'w ob_scheme \<Rightarrow> 'w ob_scheme outcome" where
  "free_tagged p tag s = obind (ExFreePoolWithTag p tag ((opool s)\<lparr>cpool := ocpu s\<rparr>)) (\<lambda>q. Done (s\<lparr>opool := q, ocpu := cpool q\<rparr>))"

text \<open>A spin lock of the scheduler's state, with the IRQL.\<close>

definition acquire_ks_lock :: "ptr \<Rightarrow> 'z sys_scheme \<Rightarrow> (u8 \<times> 'z sys_scheme) outcome" where
  "acquire_ks_lock a = run_ks (\<lambda>k. obind (KeAcquireSpinLock (Locks k a) (kcpu k)) (\<lambda>(old, l, c).
     Done (old, k\<lparr>Locks := (Locks k)(a := l), kcpu := c\<rparr>)))"

definition release_ks_lock :: "ptr \<Rightarrow> u8 \<Rightarrow> 'z sys_scheme \<Rightarrow> 'z sys_scheme outcome" where
  "release_ks_lock a old = do_ks (\<lambda>k. obind (KeReleaseSpinLock (Locks k a) old (kcpu k)) (\<lambda>(l, c).
     Done (k\<lparr>Locks := (Locks k)(a := l), kcpu := c\<rparr>)))"

definition lock_section_at_dpc :: "ptr \<Rightarrow> 'z ssys_scheme \<Rightarrow> 'z ssys_scheme outcome" where
  "lock_section_at_dpc sec s = obind (KeAcquireSpinLockAtDpcLevel (SectionLock s sec) (ocpu s)) (\<lambda>l.
     Done (s\<lparr>SectionLock := (SectionLock s)(sec := l)\<rparr>))"

definition unlock_section_from_dpc :: "ptr \<Rightarrow> 'z ssys_scheme \<Rightarrow> 'z ssys_scheme outcome" where
  "unlock_section_from_dpc sec s = obind (KeReleaseSpinLockFromDpcLevel (SectionLock s sec) (ocpu s)) (\<lambda>l.
     Done (s\<lparr>SectionLock := (SectionLock s)(sec := l)\<rparr>))"

definition lock_section :: "ptr \<Rightarrow> 'z ssys_scheme \<Rightarrow> (u8 \<times> 'z ssys_scheme) outcome" where
  "lock_section sec s = obind (KeAcquireSpinLock (SectionLock s sec) (ocpu s)) (\<lambda>(old, l, c).
     Done (old, s\<lparr>SectionLock := (SectionLock s)(sec := l), ocpu := c\<rparr>))"

definition unlock_section :: "ptr \<Rightarrow> u8 \<Rightarrow> 'z ssys_scheme \<Rightarrow> 'z ssys_scheme outcome" where
  "unlock_section sec old s = obind (KeReleaseSpinLock (SectionLock s sec) old (ocpu s)) (\<lambda>(l, c).
     Done (s\<lparr>SectionLock := (SectionLock s)(sec := l), ocpu := c\<rparr>))"

definition referenced_section :: "'z mm_methods \<Rightarrow> handle \<Rightarrow> 'z ssys_scheme \<Rightarrow> ((NTSTATUS \<times> ptr option) \<times> 'z ssys_scheme) outcome" where
  "referenced_section M h s = ObReferenceObjectByHandle M h 0 NULL KernelMode s"

definition dereference :: "'z mm_methods \<Rightarrow> ptr \<Rightarrow> 'z ssys_scheme \<Rightarrow> 'z ssys_scheme outcome" where
  "dereference M obj s = obind (ObDereferenceObject M obj s) (\<lambda>(_, s). Done s)"

definition set_space :: "ptr \<Rightarrow> 'z ssys_scheme \<Rightarrow> NTSTATUS \<times> 'z ssys_scheme" where
  "set_space a s = (fst (KeSetCustomThreadAddressSpace (CurrentThread (kst s)) a (ps (ist s))),
     on_ps (\<lambda>p. snd (KeSetCustomThreadAddressSpace (CurrentThread (ks p)) a p)) s)"

definition clear_space :: "'z ssys_scheme \<Rightarrow> NTSTATUS \<times> 'z ssys_scheme" where
  "clear_space s = (fst (KeClearCustomThreadAddressSpace (CurrentThread (kst s)) (ps (ist s))),
     on_ps (\<lambda>p. snd (KeClearCustomThreadAddressSpace (CurrentThread (ks p)) p)) s)"

text \<open>The memory as the current address space shows it.\<close>

definition mm_view :: "'z sys_scheme \<Rightarrow> mmu" where
  "mm_view s = (mm s)\<lparr>mcpu := ocpu s, cr3 := pcr3 (ps (ist s))\<rparr>"

section \<open>Sections\<close>

definition MiCreateSection :: "ptr \<Rightarrow> ptr \<Rightarrow> 'z ssys_scheme \<Rightarrow> (NTSTATUS \<times> 'z ssys_scheme) outcome" where
  "MiCreateSection Section Data s =
     (if Data = NULL \<or> InitPages s Data = 0 then Done (STATUS_INVALID_PARAMETER, s)
      else
        let s = s\<lparr>NumberOfPages := (NumberOfPages s)(Section := InitPages s Data), SectionFlags := (SectionFlags s)(Section := InitFlags s Data),
              SectionFile := (SectionFile s)(Section := InitFile s Data),
              SectionLock := (SectionLock s)(Section := KeInitializeSpinLock (SectionLock s Section))\<rparr>
        in obind (with_pool (ExAllocatePoolZero NonPagedPool (NumberOfPages s Section * 8) MSEC) s) (\<lambda>(m, s).
           let s = s\<lparr>Mappings := (Mappings s)(Section := m)\<rparr> in
           if m = NULL then Done (STATUS_NO_MEMORY, s)
           else Done (STATUS_SUCCESS, s\<lparr>MappingAt := (MappingAt s)(m := (\<lambda>_. 0))\<rparr>)))"

text \<open>More than 0x7FFFFFFF bytes are a Fault of RtlCopyMemory, and so is a copy that does not fit into the new array.\<close>

definition MiResizeSection :: "ptr \<Rightarrow> u64 \<Rightarrow> 'z ssys_scheme \<Rightarrow> (NTSTATUS \<times> 'z ssys_scheme) outcome" where
  "MiResizeSection Section NumPages s =
     (let oldSize = NumberOfPages s Section; oldMappings = Mappings s Section;
          s = s\<lparr>NumberOfPages := (NumberOfPages s)(Section := NumPages)\<rparr>
      in obind (with_pool (ExAllocatePoolZero NonPagedPool (NumPages * 8) MSEC) s) (\<lambda>(m, s).
         let s = s\<lparr>Mappings := (Mappings s)(Section := m)\<rparr> in
         if m = NULL then Done (STATUS_NO_MEMORY, s)
         else if oldSize * 8 > 0x7FFFFFFF \<or> oldSize > NumPages then Fault
         else let s = s\<lparr>MappingAt := (MappingAt s)(m := (\<lambda>i. if i < oldSize then MappingAt s oldMappings i else 0))\<rparr> in
           obind (free_header oldMappings s) (\<lambda>s. Done (STATUS_SUCCESS, s))))"

definition MiDeleteSection :: "'z mm_methods \<Rightarrow> ptr \<Rightarrow> 'z ssys_scheme \<Rightarrow> (NTSTATUS \<times> 'z ssys_scheme) outcome" where
  "MiDeleteSection M Section s =
     obind (if SectionFile s Section \<noteq> NULL then obind (ObCloseHandle M (SectionFile s Section) KernelMode s) (\<lambda>(_, s). Done s) else Done s) (\<lambda>s.
     obind (free_tagged (Mappings s Section) MSEC s) (\<lambda>s.
     Done (STATUS_SUCCESS, s\<lparr>NumberOfPages := (NumberOfPages s)(Section := 0), Mappings := (Mappings s)(Section := NULL)\<rparr>)))"

text \<open>A KMEMORY_SECTION has 40 bytes.\<close>

abbreviation (input) pMiCreateSection :: u64 where "pMiCreateSection \<equiv> 9"
abbreviation (input) pMiDeleteSection :: u64 where "pMiDeleteSection \<equiv> 10"

definition mm_method ::
  "'z mm_methods \<Rightarrow> (u64 \<Rightarrow> ptr \<Rightarrow> ptr \<Rightarrow> 'z ssys_scheme \<Rightarrow> (NTSTATUS \<times> 'z ssys_scheme) outcome) \<Rightarrow> u64 \<Rightarrow> ptr \<Rightarrow> ptr \<Rightarrow> 'z ssys_scheme \<Rightarrow>
    (NTSTATUS \<times> 'z ssys_scheme) outcome"
where
  "mm_method deeper other f obj data s =
     (if f = pMiCreateSection then MiCreateSection obj data s
      else if f = pMiDeleteSection then MiDeleteSection deeper obj s
      else other f obj data s)"

primrec mm_methods_at :: "nat \<Rightarrow> 'z mm_methods \<Rightarrow> 'z mm_methods" where
  "mm_methods_at 0 M = M"
| "mm_methods_at (Suc n) M = M\<lparr>call_method := mm_method (mm_methods_at n M) (call_method M)\<rparr>"

definition mm_table :: "'z mm_methods \<Rightarrow> 'z mm_methods" where "mm_table M = mm_methods_at deref_depth (io_table M)"

definition MmInitObjects :: "'z mm_methods \<Rightarrow> UNICODE_STRING \<Rightarrow> ptr \<Rightarrow> 'z ssys_scheme \<Rightarrow> (NTSTATUS \<times> 'z ssys_scheme) outcome" where
  "MmInitObjects M MmSectionTypeName ObTypeObjectType s =
     obind (ObCreateType M MmSectionTypeName 40 ObTypeObjectType s) (\<lambda>((Status, t), s).
     if \<not> NT_SUCCESS Status then Done (Status, s)
     else Done (Status, s\<lparr>MmSectionType := the t, TOnDelete := (TOnDelete s)(the t := pMiDeleteSection),
       TOnCreate := (TOnCreate s)(the t := pMiCreateSection)\<rparr>))"

text \<open>The file handle is cloned; data is the address of the creation data.\<close>

definition MiCreateSectionObject ::
  "'z mm_methods \<Rightarrow> ptr \<Rightarrow> u64 \<Rightarrow> u64 \<Rightarrow> handle \<Rightarrow> 'z ssys_scheme \<Rightarrow> ((NTSTATUS \<times> ptr option) \<times> 'z ssys_scheme) outcome"
where
  "MiCreateSectionObject M data pages flags File s =
     obind (ObCloneHandle M File s) (\<lambda>((Status, h), s).
     if \<not> NT_SUCCESS Status then Done ((Status, None), s)
     else let s = s\<lparr>InitPages := (InitPages s)(data := pages), InitFlags := (InitFlags s)(data := flags), InitFile := (InitFile s)(data := the h)\<rparr> in
       ObCreateObject M 0 KernelMode (InitializeObjectAttributes None 0 NULL) (MmSectionType s) data s)"

section \<open>Views\<close>

text \<open>MappingIndex is computed from the address again; in the check it leaves out MappingStart.\<close>

definition view_page :: "ptr \<Rightarrow> nat \<Rightarrow> 'z ssys_scheme \<Rightarrow> u64" where
  "view_page V i s = BaseAddress s V + word_of_nat i * 4096"

definition view_index :: "ptr \<Rightarrow> nat \<Rightarrow> 'z ssys_scheme \<Rightarrow> u64" where
  "view_index V i s = (view_page V i s - BaseAddress s V) div 4096"

primrec check_pages :: "nat list \<Rightarrow> ptr \<Rightarrow> ptr \<Rightarrow> 'z ssys_scheme \<Rightarrow> bool outcome" where
  "check_pages [] sec V s = Done True"
| "check_pages (i # js) sec V s =
     obind (PagingGetTableMapping (view_page V i s) (mm_view s)) (\<lambda>e.
     if e \<noteq> 0 \<or> view_index V i s \<ge> NumberOfPages s sec then Done False else check_pages js sec V s)"

primrec unmap_pages :: "nat list \<Rightarrow> ptr \<Rightarrow> 'z ssys_scheme \<Rightarrow> 'z ssys_scheme outcome" where
  "unmap_pages [] V s = Done s"
| "unmap_pages (i # js) V s = obind (run_mm (PagingMapPage (view_page V i s) 0 0) s) (\<lambda>(_, s). unmap_pages js V s)"

primrec map_pages :: "nat list \<Rightarrow> ptr \<Rightarrow> ptr \<Rightarrow> 'z ssys_scheme \<Rightarrow> (NTSTATUS \<times> 'z ssys_scheme) outcome" where
  "map_pages [] sec V s = Done (STATUS_SUCCESS, s)"
| "map_pages (i # js) sec V s =
     (let g = MappingAt s (Mappings s sec) (view_index V i s + MappingStart s V) in
      obind (run_mm (PagingMapPage (view_page V i s) (PA_FROM_PFN g) (PagingFlagsFromSectionFlags g (Protection s V))) s) (\<lambda>(Status, s).
      if \<not> NT_SUCCESS Status then obind (unmap_pages [0..<i] V s) (\<lambda>s. Done (Status, s))
      else map_pages js sec V s))"

definition MiMapView :: "'z mm_methods \<Rightarrow> ptr \<Rightarrow> ptr \<Rightarrow> 'z ssys_scheme \<Rightarrow> (NTSTATUS \<times> 'z ssys_scheme) outcome" where
  "MiMapView M a V s =
     obind (referenced_section M (ViewSection s V) s) (\<lambda>((Status, r), s).
     if \<not> NT_SUCCESS Status then Done (Status, s)
     else let sec = the r; s = snd (set_space a s); pages = [0..<unat (SizePages s V)] in
       obind (check_pages pages sec V s) (\<lambda>ok.
       obind (if \<not> ok then Done (STATUS_CONFLICTING_ADDRESSES, s) else map_pages pages sec V s) (\<lambda>(Status, s).
       obind (dereference M sec (snd (clear_space s))) (\<lambda>s. Done (Status, s)))))"

text \<open>The end of MmCreateView, which all paths behind the locks reach: the status is that of clearing the address space, whatever it
  was before.\<close>

definition leave_view :: "ptr \<Rightarrow> u8 \<Rightarrow> ptr option \<Rightarrow> 'z ssys_scheme \<Rightarrow> ((NTSTATUS \<times> ptr option) \<times> 'z ssys_scheme) outcome" where
  "leave_view a Irql out s = obind (release_ks_lock (AddressSpaceLock a) Irql s) (\<lambda>s.
     let (Status, s) = clear_space s in Done ((Status, out), s))"

text \<open>A SECTION_VIEW has 72 bytes.\<close>

definition MmCreateView ::
  "'z mm_methods \<Rightarrow> ptr \<Rightarrow> handle \<Rightarrow> u64 \<Rightarrow> u64 \<Rightarrow> u64 \<Rightarrow> u32 \<Rightarrow> u64 \<Rightarrow> 'z ssys_scheme \<Rightarrow> ((NTSTATUS \<times> ptr option) \<times> 'z ssys_scheme) outcome"
where
  "MmCreateView M a hSection VirtualAddress start off Prot Size s =
     (let Size = PAGE_ALIGN (Size + 4096 - 1); VirtualAddress = PAGE_ALIGN VirtualAddress in
      obind (referenced_section M hSection s) (\<lambda>((Status, r), s).
      if \<not> NT_SUCCESS Status then Done ((Status, None), s)
      else let sec = the r; (Status, s) = set_space a s in
      if \<not> NT_SUCCESS Status then obind (dereference M sec s) (\<lambda>s. Done ((Status, None), s))
      else
        obind (acquire_ks_lock (AddressSpaceLock a) s) (\<lambda>(Irql, s).
        obind (lock_section_at_dpc sec s) (\<lambda>s.
        let give_up = (\<lambda>s. obind (unlock_section_from_dpc sec s) (\<lambda>s. obind (dereference M sec s) (leave_view a Irql None)));
            Size = (if Size = 0 then NumberOfPages s sec * 4096 else Size)
        in obind (if start + Size div 4096 > NumberOfPages s sec then MiResizeSection sec (start + Size div 4096) s
                  else Done (STATUS_SUCCESS, s)) (\<lambda>(Status, s).
           if \<not> NT_SUCCESS Status then give_up s
           else
           obind (if VirtualAddress = NULL
                  then PagingFindFreePages PAGING_USER_SPACE PAGING_USER_SPACE_END (Size div 4096 + 1) (mm_view s)
                  else Done VirtualAddress) (\<lambda>VirtualAddress.
           obind (with_pool (ExAllocatePoolWithTag NonPagedPool 72 MSEL) s) (\<lambda>(V, s).
           if V = NULL then give_up s
           else let s = s\<lparr>ViewSection := (ViewSection s)(V := hSection), ViewName := (ViewName s)(V := NULL),
                  BaseAddress := (BaseAddress s)(V := VirtualAddress), SizePages := (SizePages s)(V := Size div 4096),
                  FileOffset := (FileOffset s)(V := off), MappingStart := (MappingStart s)(V := start), Protection := (Protection s)(V := Prot)\<rparr>
           in obind (MiMapView M a V s) (\<lambda>(Status, s).
              if \<not> NT_SUCCESS Status then give_up s
              else let s = s\<lparr>mm := (mm s)\<lparr>vheap := InsertTailList (SectionViews a) V (vheap (mm s))\<rparr>\<rparr> in
                obind (unlock_section_from_dpc sec s) (leave_view a Irql (Some V))))))))))"

text \<open>The view is read after it has been freed, and the lock of the section is released after both references are gone. In the
  branch where the address space cannot be set, the handle is taken for an object.\<close>

definition MmDeleteView :: "'z mm_methods \<Rightarrow> ptr \<Rightarrow> ptr \<Rightarrow> 'z ssys_scheme \<Rightarrow> (NTSTATUS \<times> 'z ssys_scheme) outcome" where
  "MmDeleteView M a V s =
     obind (referenced_section M (ViewSection s V) s) (\<lambda>((Status, r), s).
     if \<not> NT_SUCCESS Status then Done (Status, s)
     else let sec = the r; (Status, s) = set_space a s in
     if \<not> NT_SUCCESS Status then obind (dereference M (ViewSection s V) s) (\<lambda>s. Done (Status, s))
     else
       obind (acquire_ks_lock (AddressSpaceLock a) s) (\<lambda>(Irql, s).
       obind (lock_section_at_dpc sec s) (\<lambda>s.
       obind (unmap_pages [0..<unat (SizePages s V)] V s) (\<lambda>s.
       obind (free_header V (s\<lparr>mm := (mm s)\<lparr>vheap := RemoveEntry V (vheap (mm s))\<rparr>\<rparr>)) (\<lambda>s.
       obind (dereference M sec s) (\<lambda>s.
       obind (dereference M sec s) (\<lambda>s.
       obind (unlock_section_from_dpc sec s) (\<lambda>s.
       obind (release_ks_lock (AddressSpaceLock a) Irql s) (\<lambda>s.
       obind (if ViewName s V \<noteq> NULL then free_header (ViewName s V) s else Done s) (\<lambda>s.
       Done (clear_space s)))))))))))"

section \<open>Page faults\<close>

definition MmGetCurrentAddressSpace :: "'z sys_scheme \<Rightarrow> ptr" where
  "MmGetCurrentAddressSpace s =
     (let t = CurrentThread (kst s) in
      if CustomAddressSpace (ps (ist s)) t \<noteq> NULL then CustomAddressSpace (ps (ist s)) t else AddressSpace (ThreadProcess (kst s) t))"

text \<open>The bytes of a page and its words.\<close>

definition page_bytes :: "(nat \<Rightarrow> u64) \<Rightarrow> bytes" where
  "page_bytes w i = ucast (drop_bit (8 * (i mod 8)) (w (i div 8)))"

definition page_words :: "bytes \<Rightarrow> nat \<Rightarrow> u64" where
  "page_words b j = horner_sum ucast 256 (map (\<lambda>k. b (8 * j + k)) [0..<8])"

text \<open>Reading a page of the file into the page that faulted. When the page is still not mapped, writing to it faults with the lock of
  the section held, and PageFaultHandler stops the processor at DISPATCH_LEVEL.\<close>

abbreviation (input) PAGE_FAULT_WITH_INTERRUPTS_OFF :: u32 where "PAGE_FAULT_WITH_INTERRUPTS_OFF \<equiv> 0x49"
abbreviation (input) PAGE_FAULT_IN_NONPAGED_AREA :: u32 where "PAGE_FAULT_IN_NONPAGED_AREA \<equiv> 0x50"

definition read_page ::
  "'z mm_methods \<Rightarrow> handle \<Rightarrow> u64 \<Rightarrow> u64 \<Rightarrow> 'z ssys_scheme \<Rightarrow> (NTSTATUS \<times> 'z ssys_scheme) outcome"
where
  "read_page M File page off s =
     (let at = translate (mm_view s) page;
          old = (case at of None \<Rightarrow> (\<lambda>_. 0) | Some f \<Rightarrow> page_bytes (phys (mm s) f))
      in obind (NtReadFile M File \<lparr>IoStatus = 0, Information = 0\<rparr> old 4096 off s) (\<lambda>((Status, block, buffer), s).
         case at of
           None \<Rightarrow> if Information block = 0 then Done (Status, s) else Bugcheck PAGE_FAULT_WITH_INTERRUPTS_OFF
         | Some f \<Rightarrow> Done (Status, s\<lparr>mm := (mm s)\<lparr>phys := (phys (mm s))(f := (\<lambda>j. if j < 512 then page_words buffer j else phys (mm s) f j))\<rparr>\<rparr>)))"

text \<open>The write protection of the system is off while the page is read. Whether the access was a write does not matter.\<close>

definition MmHandleViewPageFault :: "'z mm_methods \<Rightarrow> ptr \<Rightarrow> u64 \<Rightarrow> 'z ssys_scheme \<Rightarrow> (NTSTATUS \<times> 'z ssys_scheme) outcome" where
  "MmHandleViewPageFault M V Address s =
     obind (referenced_section M (ViewSection s V) s) (\<lambda>((Status, r), s).
     if \<not> NT_SUCCESS Status then Done (Status, s)
     else let sec = the r in
       obind (lock_section sec s) (\<lambda>(Irql, s).
       let leave = (\<lambda>Status s. obind (unlock_section sec Irql s) (\<lambda>s. obind (dereference M sec s) (\<lambda>s. Done (Status, s)))) in
       if SectionFile s sec = NULL then leave STATUS_INVALID_ADDRESS s
       else
         let off = PAGE_ALIGN (Address - BaseAddress s V) + FileOffset s V;
             i = (Address - BaseAddress s V) div 4096 + MappingStart s V; arr = Mappings s sec
         in obind (if MappingAt s arr i = 0
                   then obind (run_mm allocate_pfn s) (\<lambda>((Status, p), s).
                     if \<not> NT_SUCCESS Status then Done (Status, s)
                     else let s = s\<lparr>MappingAt := (MappingAt s)(arr := (MappingAt s arr)(i := the p))\<rparr>; g = MappingAt s arr i in
                       obind (run_mm (PagingMapPage (PAGE_ALIGN Address) (PA_FROM_PFN g) (PagingFlagsFromSectionFlags g (Protection s V))) s)
                         (\<lambda>(_, s). Done (STATUS_SUCCESS, s)))
                   else Done (STATUS_SUCCESS, s)) (\<lambda>(Status, s).
            if \<not> NT_SUCCESS Status then leave Status s
            else
            obind (read_page M (SectionFile s sec) (PAGE_ALIGN Address) off (s\<lparr>mm := PagingDisableSystemWriteProtection (mm s)\<rparr>)) (\<lambda>(Status, s).
            leave Status (s\<lparr>mm := PagingEnableSystemWriteProtection (mm s)\<rparr>)))))"

definition MmIsAddressInView :: "ptr \<Rightarrow> u64 \<Rightarrow> 'z ssys_scheme \<Rightarrow> bool" where
  "MmIsAddressInView V Address s =
     (let Base = BaseAddress s V; Size = SizePages s V * 4096 in Base \<le> Address \<and> Address < Base + Size)"

partial_function (option) view_loop :: "ptr \<Rightarrow> ptr \<Rightarrow> u64 \<Rightarrow> 'z ssys_scheme \<Rightarrow> ptr option option" where
  "view_loop Head Current Address s =
     (if Current = Head then Some None
      else if MmIsAddressInView Current Address s then Some (Some Current)
      else view_loop Head (flink (vheap (mm s)) Current) Address s)"

definition MmHandlePageFault :: "'z mm_methods \<Rightarrow> u64 \<Rightarrow> 'z ssys_scheme \<Rightarrow> (NTSTATUS \<times> 'z ssys_scheme) outcome" where
  "MmHandlePageFault M Address s =
     (let t = CurrentThread (kst s) in
      obind (acquire_ks_lock (ThreadLock t) s) (\<lambda>(Irql, s).
      let a = MmGetCurrentAddressSpace s in
      obind (do_ks (acquire_at_dpc (AddressSpaceLock a)) s) (\<lambda>s.
      obind (case view_loop (SectionViews a) (flink (vheap (mm s)) (SectionViews a)) Address s of
               None \<Rightarrow> Hang
             | Some None \<Rightarrow> Done (STATUS_INVALID_PARAMETER, s)
             | Some (Some V) \<Rightarrow> MmHandleViewPageFault M V Address s) (\<lambda>(Status, s).
      obind (do_ks (release_from_dpc (AddressSpaceLock a)) s) (\<lambda>s.
      obind (release_ks_lock (ThreadLock t) Irql s) (\<lambda>s. Done (Status, s)))))))"

text \<open>The handler of the exception (HAL/X64/pagefile.c): the address is that of CR2.\<close>

definition PageFaultHandler :: "'z mm_methods \<Rightarrow> u64 \<Rightarrow> 'z ssys_scheme \<Rightarrow> 'z ssys_scheme outcome" where
  "PageFaultHandler M Address s =
     (if irql (ocpu s) \<ge> DISPATCH_LEVEL then Bugcheck PAGE_FAULT_WITH_INTERRUPTS_OFF
      else obind (PagingGetTableMapping (PAGE_ALIGN Address) (mm_view s)) (\<lambda>e.
        if \<not> bit e 0
        then obind (MmHandlePageFault M Address s) (\<lambda>(status, s).
          if \<not> NT_SUCCESS status then Bugcheck PAGE_FAULT_IN_NONPAGED_AREA else Done s)
        else Bugcheck PAGE_FAULT_IN_NONPAGED_AREA))"

section \<open>The section of a file\<close>

definition close :: "'z mm_methods \<Rightarrow> handle \<Rightarrow> 'z ssys_scheme \<Rightarrow> 'z ssys_scheme outcome" where
  "close M h s = obind (ObCloseHandle M h KernelMode s) (\<lambda>(_, s). Done s)"

text \<open>open is NtCreateFile with the addresses of its locals, FILE_GENERIC_READ is 0x120089.\<close>

definition NtReferenceSectionFromFile ::
  "'z mm_methods \<Rightarrow> (u32 \<Rightarrow> OBJECT_ATTRIBUTES \<Rightarrow> 'z ssys_scheme \<Rightarrow> ((NTSTATUS \<times> handle option) \<times> 'z ssys_scheme) outcome) \<Rightarrow> ptr \<Rightarrow>
    UNICODE_STRING \<Rightarrow> 'z ssys_scheme \<Rightarrow> ((NTSTATUS \<times> handle option) \<times> 'z ssys_scheme) outcome"
where
  "NtReferenceSectionFromFile M open data pFilepath s =
     obind (open 0x120089 (InitializeObjectAttributes (Some pFilepath) 0 NULL) s) (\<lambda>((Status, f), s).
     if \<not> NT_SUCCESS Status then Done ((Status, None), s)
     else let hFile = the f in
       obind (NnxGetImageSection M hFile s) (\<lambda>((Status, r), s).
       let h = (case r of None \<Rightarrow> NULL | Some h \<Rightarrow> h) in
       if \<not> NT_SUCCESS Status \<or> h \<noteq> NULL
       then obind (if h \<noteq> NULL then obind (referenced_section M h s) (\<lambda>(_, s). Done (Some h, s)) else Done (None, s)) (\<lambda>(out, s).
            obind (close M hFile s) (\<lambda>s. Done ((Status, out), s)))
       else
         obind (NnxGetNtFileSize M hFile s) (\<lambda>((Status, sz), s).
         if \<not> NT_SUCCESS Status then obind (close M hFile s) (\<lambda>s. Done ((Status, None), s))
         else
           obind (MiCreateSectionObject M data ((the sz + 4096 - 1) div 4096) 0 hFile s) (\<lambda>((Status, m), s).
           if \<not> NT_SUCCESS Status then obind (close M hFile s) (\<lambda>s. Done ((Status, None), s))
           else let sec = the m in
             obind (ObCreateHandle KernelMode True sec s) (\<lambda>((Status, h), s).
             if \<not> NT_SUCCESS Status
             then obind (dereference M sec s) (\<lambda>s. obind (close M hFile s) (\<lambda>s. Done ((Status, None), s)))
             else
               obind (dereference M sec s) (\<lambda>s.
               obind (NnxSetImageSection M hFile (the h) s) (\<lambda>(Status, s).
               if \<not> NT_SUCCESS Status
               then obind (dereference M sec s) (\<lambda>s. obind (close M hFile s) (\<lambda>s. obind (close M (the h) s) (\<lambda>s. Done ((Status, None), s))))
               else obind (close M hFile s) (\<lambda>s. Done ((Status, h), s)))))))))"

section \<open>Locks around a page fault\<close>

lemma locks_cpu: "k\<lparr>Locks := L, kcpu := c\<rparr> = k\<lparr>kcpu := c, Locks := L\<rparr>" for k :: kstate
  by (cases k) simp

lemma acquire_ks_lock_free:
  assumes "coherent s" "calm s" "Locks (kst s) a = 0"
  shows "acquire_ks_lock a s = Done (irql (ocpu s), with_kst ((kst s)\<lparr>kcpu := raised (ocpu s), Locks := (Locks (kst s))(a := 1)\<rparr>) s)"
proof -
  have "kcpu (kst s) = ocpu s" using assms(1) by (simp add: coherent_def)
  then show ?thesis using assms(2,3) by (simp add: acquire_ks_lock_def run_ks_coherent [OF assms(1)] lock_free calm_def locks_cpu)
qed

lemma release_lock_taken:
  assumes "coherent s" "Locks (kst s) a = 1" "kcpu (kst s) = raised c" "cpu_ok c" "irql c \<le> DISPATCH_LEVEL"
  shows "release_ks_lock a (irql c) s = Done (with_kst ((kst s)\<lparr>kcpu := c, Locks := (Locks (kst s))(a := 0)\<rparr>) s)"
  by (simp add: release_ks_lock_def do_ks_coherent [OF assms(1)] assms unlock_taken locks_cpu)

lemma raised_raised: "cpu_ok c \<Longrightarrow> raised (raised c) = raised c"
  using raised_ok [of c] raised_ok [of "raised c"] by (cases "raised c", cases "raised (raised c)") (simp add: cpu_ok_def)

text \<open>The locks of the current thread and of its address space are free and none of them is another one of the locks taken here.\<close>

definition fault_space :: "'z sys_scheme \<Rightarrow> ptr" where
  "fault_space s = AddressSpaceLock (MmGetCurrentAddressSpace s)"

definition fault_ready :: "'z sys_scheme \<Rightarrow> bool" where
  "fault_ready s = (let t = ThreadLock (CurrentThread (kst s)); a = fault_space s; p = Threads.ProcessLock (current_process s) in
     coherent s \<and> calm s \<and> Locks (kst s) t = 0 \<and> Locks (kst s) a = 0 \<and> distinct [t, a, p])"

definition faulting :: "'z sys_scheme \<Rightarrow> 'z sys_scheme" where
  "faulting s = with_kst ((kst s)\<lparr>kcpu := raised (ocpu s),
     Locks := (Locks (kst s))(ThreadLock (CurrentThread (kst s)) := 1, fault_space s := 1)\<rparr>) s"

lemma faulting_keeps [simp]:
  "mm (faulting s) = mm s" "ocpu (faulting s) = raised (ocpu s)"
  "CurrentThread (kst (faulting s)) = CurrentThread (kst s)" "MmGetCurrentAddressSpace (faulting s) = MmGetCurrentAddressSpace s"
  "ViewSection (faulting u) = ViewSection u" "SectionLock (faulting u) = SectionLock u" "SectionFile (faulting u) = SectionFile u"
  "BaseAddress (faulting u) = BaseAddress u" "SizePages (faulting u) = SizePages u"
  by (simp_all add: faulting_def with_kst_def share_out_def Let_def MmGetCurrentAddressSpace_def)

lemma faulting_coherent [simp]: "coherent (faulting s)" by (simp add: faulting_def)

lemma leads_to_faulting:
  assumes "leads_to h obj s" "fault_ready s"
  shows "leads_to h obj (faulting s)"
proof -
  have p: "Objects.ProcessLock (faulting s) = Objects.ProcessLock s" "ProcessHandleDatabaseHead (faulting s) = ProcessHandleDatabaseHead s"
    "HandleManagerLock (faulting s) = HandleManagerLock s" "SystemHandleDatabaseHead (faulting s) = SystemHandleDatabaseHead s"
    "oheap (faulting s) = oheap s" "DbObject (faulting s) = DbObject s" "HLock (faulting s) = HLock s"
    "ReferenceCount (faulting s) = ReferenceCount s" "HAttributes (faulting s) = HAttributes s"
    using assms(2) by (auto simp: fault_ready_def Let_def faulting_def with_kst_def share_out_def current_process_def coherent_def)
  have "handles_idle (faulting s)"
    using assms raised_ok [of "ocpu s"] by (simp add: leads_to_def handles_idle_def calm_def p)
  moreover have "ObpGetHandleDatabaseHead k (faulting s) = ObpGetHandleDatabaseHead k s" "entry_object (faulting s) = entry_object s"
      "ObGetHandleDatabaseEntryFromHandle h q (faulting s) = ObGetHandleDatabaseEntryFromHandle h q s" for k q
    by (simp_all add: p ObpGetHandleDatabaseHead_def ObGetHandleDatabaseEntryFromHandle_def entry_object_def fun_eq_iff)
  ultimately show ?thesis using assms(1) by (simp add: leads_to_def Let_def p)
qed

lemma fault_locks:
  fixes s
  defines "t \<equiv> ThreadLock (CurrentThread (kst s))"
  defines "u \<equiv> with_kst ((kst s)\<lparr>kcpu := raised (ocpu s), Locks := (Locks (kst s))(t := 1)\<rparr>) s"
  assumes "fault_ready s"
  shows "acquire_ks_lock t s = Done (irql (ocpu s), u)" "do_ks (acquire_at_dpc (fault_space s)) u = Done (faulting s)"
    "do_ks (release_from_dpc (fault_space s)) (faulting s) = Done u" "release_ks_lock t (irql (ocpu s)) u = Done s"
proof -
  have c: "coherent s" "calm s" "Locks (kst s) t = 0" "Locks (kst s) (fault_space s) = 0" "t \<noteq> fault_space s" "cpu_ok (ocpu s)"
    "irql (ocpu s) \<le> DISPATCH_LEVEL" "kcpu (kst s) = ocpu s"
    using assms(3) by (auto simp: fault_ready_def Let_def t_def calm_def coherent_def)
  have i: "irql (raised (ocpu s)) = DISPATCH_LEVEL" using raised_ok [OF c(6)] by simp
  show "acquire_ks_lock t s = Done (irql (ocpu s), u)" unfolding u_def by (rule acquire_ks_lock_free [OF c(1,2,3)])
  show "do_ks (acquire_at_dpc (fault_space s)) u = Done (faulting s)"
    using c(4,5) i unfolding u_def
    by (simp add: do_ks_coherent acquire_free faulting_def t_def)
  show "do_ks (release_from_dpc (fault_space s)) (faulting s) = Done u"
    using c(4,5) i unfolding u_def
    by (simp add: do_ks_coherent release_dpc faulting_def t_def fun_upd_idem fun_upd_twist)
  have "(kst s)\<lparr>kcpu := ocpu s, Locks := (Locks (kst s))(t := 0)\<rparr> = kst s" using c(3,8) by (simp add: fun_upd_idem)
  then show "release_ks_lock t (irql (ocpu s)) u = Done s"
    using release_lock_taken [of u t "ocpu s"] c(6,7) with_same [OF c(1)] unfolding u_def by simp
qed

text \<open>The views are searched in the order of their list.\<close>

lemma view_loop_find:
  assumes "is_list (vheap (mm s)) q (xs @ ys)"
  shows "view_loop q (hd (ys @ [q])) Address s = Some (List.find (\<lambda>V. MmIsAddressInView V Address s) ys)"
  using assms
proof (induction ys arbitrary: xs)
  case Nil
  show ?case by (subst view_loop.simps) simp
next
  case (Cons V ys)
  have "V \<noteq> q" using Cons.prems by (auto simp: is_list_def)
  moreover have "flink (vheap (mm s)) V = hd (ys @ [q])"
    using Cons.prems links_first [of "vheap (mm s)" V ys q] by (auto simp: is_list_def links_append hd_append)
  ultimately show ?case using Cons.IH [of "xs @ [V]"] Cons.prems by (subst view_loop.simps) simp
qed

definition fault_answer :: "'z mm_methods \<Rightarrow> u64 \<Rightarrow> ptr list \<Rightarrow> 'z ssys_scheme \<Rightarrow> (NTSTATUS \<times> 'z ssys_scheme) outcome" where
  "fault_answer M Address Vs s =
     (case List.find (\<lambda>V. MmIsAddressInView V Address s) Vs of
        None \<Rightarrow> Done (STATUS_INVALID_PARAMETER, s)
      | Some V \<Rightarrow> MmHandleViewPageFault M V Address s)"

lemma MmHandlePageFault_eq:
  assumes "fault_ready s" "is_list (vheap (mm s)) (SectionViews (MmGetCurrentAddressSpace s)) Vs"
  shows "fault_answer M Address Vs (faulting s) = Done (st, faulting s) \<Longrightarrow> MmHandlePageFault M Address s = Done (st, s)"
    and "fault_answer M Address Vs (faulting s) = Bugcheck c \<Longrightarrow> MmHandlePageFault M Address s = Bugcheck c"
proof -
  let ?q = "SectionViews (MmGetCurrentAddressSpace s)"
  have "view_loop ?q (flink (vheap (mm (faulting s))) ?q) Address (faulting s) = Some (List.find (\<lambda>V. MmIsAddressInView V Address (faulting s)) Vs)"
    using view_loop_find [of "faulting s" ?q "[]" Vs Address] assms(2) is_list_first [OF assms(2)] by simp
  moreover have "MmGetCurrentAddressSpace (with_kst ((kst s)\<lparr>kcpu := c, Locks := L\<rparr>) s) = MmGetCurrentAddressSpace s"
      "fault_space (with_kst ((kst s)\<lparr>kcpu := c, Locks := L\<rparr>) s) = fault_space s" for L c
    by (simp_all add: with_kst_def share_out_def Let_def MmGetCurrentAddressSpace_def fault_space_def)
  ultimately have "MmHandlePageFault M Address s = obind (fault_answer M Address Vs (faulting s)) (\<lambda>(Status, r).
      obind (do_ks (release_from_dpc (fault_space s)) r) (\<lambda>r. obind (release_ks_lock (ThreadLock (CurrentThread (kst s))) (irql (ocpu s)) r) (\<lambda>r. Done (Status, r))))"
    using fault_locks(1,2) [OF assms(1)]
    by (simp add: MmHandlePageFault_def Let_def fault_space_def [symmetric] fault_answer_def split: option.split)
  then show "fault_answer M Address Vs (faulting s) = Done (st, faulting s) \<Longrightarrow> MmHandlePageFault M Address s = Done (st, s)"
    and "fault_answer M Address Vs (faulting s) = Bugcheck c \<Longrightarrow> MmHandlePageFault M Address s = Bugcheck c"
    using fault_locks(3,4) [OF assms(1)] by simp_all
qed

text \<open>Under the lock of the section, and with a reference to it.\<close>

definition section_held :: "ptr \<Rightarrow> 'z ssys_scheme \<Rightarrow> 'z ssys_scheme" where
  "section_held sec s = (referenced (ObGetHeaderFromObject sec) s)\<lparr>SectionLock := (SectionLock s)(sec := 1), ocpu := raised (ocpu s)\<rparr>"

lemma section_held_keeps [simp]:
  "mm (section_held sec s) = mm s" "ist (section_held sec s) = ist s" "SectionFile (section_held sec s) = SectionFile s"
  "BaseAddress (section_held sec s) = BaseAddress s" "FileOffset (section_held sec s) = FileOffset s"
  "MappingStart (section_held sec s) = MappingStart s" "Mappings (section_held sec s) = Mappings s" "MappingAt (section_held sec s) = MappingAt s"
  "ocpu (section_held sec s) = raised (ocpu s)"
  by (simp_all add: section_held_def referenced_def)

lemma lock_section_free:
  assumes "leads_to h sec s" "SectionLock s sec = 0"
  shows "lock_section sec (referenced (ObGetHeaderFromObject sec) s) = Done (irql (ocpu s), section_held sec s)"
proof -
  have "calm s" using assms(1) by (simp add: leads_to_def handles_idle_def)
  then show ?thesis
    using lock_free [of "ocpu s"] assms(2) by (simp add: lock_section_def referenced_def section_held_def calm_def)
qed

lemma leave_section:
  assumes "leads_to h sec s" "SectionLock s sec = 0"
  shows "obind (unlock_section sec (irql (ocpu s)) (section_held sec s)) (dereference M sec) = Done s"
proof -
  have "calm s" using assms(1) by (simp add: leads_to_def handles_idle_def)
  then have "unlock_section sec (irql (ocpu s)) (section_held sec s) = Done (referenced (ObGetHeaderFromObject sec) s)"
    using unlock_taken [of "ocpu s"] assms(2) by (simp add: unlock_section_def referenced_def section_held_def calm_def fun_upd_idem)
  moreover have "ObDereferenceObject M sec (referenced (ObGetHeaderFromObject sec) s) = Done (STATUS_SUCCESS, s)"
    using handle_dereferenced [OF assms(1), of "referenced (ObGetHeaderFromObject sec) s" M] by (simp add: same_ob_def referenced_def)
  ultimately show ?thesis by (simp add: dereference_def)
qed

lemma fault_without_file:
  assumes "leads_to (ViewSection s V) sec s" "SectionLock s sec = 0" "SectionFile s sec = NULL"
  shows "MmHandleViewPageFault M V Address s = Done (STATUS_INVALID_ADDRESS, s)"
proof -
  have r: "SectionFile (referenced d s) = SectionFile s" for d by (simp add: referenced_def)
  have "obind (dereference M sec u) (\<lambda>s. Done (STATUS_INVALID_ADDRESS, s)) = Done (STATUS_INVALID_ADDRESS, s)"
    if "unlock_section sec (irql (ocpu s)) (section_held sec s) = Done u" for u
    using leave_section [OF assms(1,2), of M] that by simp
  moreover obtain u where "unlock_section sec (irql (ocpu s)) (section_held sec s) = Done u"
    using leave_section [OF assms(1,2), of M] by (cases "unlock_section sec (irql (ocpu s)) (section_held sec s)") simp_all
  ultimately show ?thesis
    using handle_referenced [OF assms(1), of M NULL] lock_section_free [OF assms(1,2)] assms(3)
    by (simp add: MmHandleViewPageFault_def referenced_section_def Let_def)
qed

text \<open>A file handle under the lock of the section.\<close>

lemma leads_to_held:
  assumes "leads_to h obj s" "ObGetHeaderFromObject obj \<noteq> ObGetHeaderFromObject sec"
  shows "leads_to h obj (section_held sec s)"
proof -
  have "handles_idle (section_held sec s)"
    using assms(1) raised_ok [of "ocpu s"] by (simp add: leads_to_def handles_idle_def calm_def) (simp add: section_held_def referenced_def)
  moreover have "ObpGetHandleDatabaseHead k (section_held sec s) = ObpGetHandleDatabaseHead k s" "entry_object (section_held sec s) = entry_object s"
      "ObGetHandleDatabaseEntryFromHandle h q (section_held sec s) = ObGetHandleDatabaseEntryFromHandle h q s" for k q
    by (simp_all add: section_held_def referenced_def ObpGetHandleDatabaseHead_def ObGetHandleDatabaseEntryFromHandle_def entry_object_def fun_eq_iff)
  ultimately show ?thesis using assms by (simp add: leads_to_def Let_def) (simp add: section_held_def referenced_def)
qed

lemma page_walk_phys: "phys s = phys t \<Longrightarrow> page_walk s f is = page_walk t f is"
  by (induction s f "is" rule: page_walk.induct) (auto simp: Let_def)

lemma translate_phys: "phys s = phys t \<Longrightarrow> cr3 s = cr3 t \<Longrightarrow> translate s a = translate t a"
  unfolding translate_def by (simp only: page_walk_phys [of s t])

lemma leads_to_mm: "leads_to h obj (s\<lparr>mm := m\<rparr>) = leads_to h obj (s :: 'z sys_scheme)"
  by (simp add: leads_to_def handles_idle_def calm_def ObpGetHandleDatabaseHead_def ObGetHandleDatabaseEntryFromHandle_def entry_object_def)

lemma fault_not_mapped:
  fixes s V Address
  defines "off \<equiv> PAGE_ALIGN (Address - BaseAddress s V) + FileOffset s V"
  assumes sec: "leads_to (ViewSection s V) sec s" "SectionLock s sec = 0"
    and fl: "leads_to (SectionFile s sec) inst s" "ObGetHeaderFromObject inst \<noteq> ObGetHeaderFromObject sec"
    and g: "MappingAt s (Mappings s sec) ((Address - BaseAddress s V) div 4096 + MappingStart s V) \<noteq> 0"
    and tr: "translate (mm_view s) (PAGE_ALIGN Address) = None"
    and rd: "pFile s (SharedFileObject s inst) = Some f"
      "VReadFile (fs_functions s) (Some (f\<lparr>Vfs.FilePointer := off\<rparr>)) 4096 (\<lambda>_. 0) (volume s) = Done (st, buf, Some f', v)"
      "Vfs.FilePointer f' \<noteq> off"
  shows "MmHandleViewPageFault M V Address s = Bugcheck PAGE_FAULT_WITH_INTERRUPTS_OFF"
proof -
  let ?u = "(section_held sec s)\<lparr>mm := PagingDisableSystemWriteProtection (mm s)\<rparr>" let ?F = "SectionFile s sec"
  have l: "leads_to ?F inst ?u" using leads_to_held [OF fl] by (simp add: leads_to_mm)
  have u: "pFile ?u (SharedFileObject ?u inst) = Some f"
    "VReadFile (fs_functions ?u) (Some (f\<lparr>Vfs.FilePointer := off\<rparr>)) (ucast (4096 :: u32)) (\<lambda>_. 0) (volume ?u) = Done (st, buf, Some f', v)"
    using rd by (simp_all add: section_held_def referenced_def)
  have t: "translate (mm_view ?u) (PAGE_ALIGN Address) = None"
    using tr translate_phys [of "mm_view ?u" "mm_view s"] by (simp add: mm_view_def PagingDisableSystemWriteProtection_def)
  have n: "?F \<noteq> NULL" using fl(1) by (simp add: leads_to_def)
  have r: "SectionFile (referenced d s) = SectionFile s" for d by (simp add: referenced_def)
  have "read_page M ?F (PAGE_ALIGN Address) off ?u = Bugcheck PAGE_FAULT_WITH_INTERRUPTS_OFF"
    using NtReadFile_eq [OF l u] rd(3) t by (simp add: read_page_def Let_def)
  then show ?thesis
    using handle_referenced [OF sec(1), of M NULL] lock_section_free [OF sec] n g
    by (simp add: MmHandleViewPageFault_def referenced_section_def Let_def off_def)
qed

section \<open>Creating a view without memory\<close>

text \<open>The current thread is put into the other address space and out of it again.\<close>

definition in_space :: "ptr \<Rightarrow> 'z ssys_scheme \<Rightarrow> 'z ssys_scheme" where
  "in_space a = on_ps (\<lambda>p. p\<lparr>CustomAddressSpace := (CustomAddressSpace p)(CurrentThread (ks p) := a), pcr3 := TopStruct p a\<rparr>)"

definition own_space :: "'z ssys_scheme \<Rightarrow> 'z ssys_scheme" where
  "own_space s = on_ps (\<lambda>p. p\<lparr>CustomAddressSpace := (CustomAddressSpace p)(CurrentThread (ks p) := NULL),
     pcr3 := TopStruct p (AddressSpace (current_process s))\<rparr>) s"

lemma set_space_eq: "set_space a s = (STATUS_SUCCESS, in_space a s)"
  by (simp add: set_space_def in_space_def on_ps_def KeSetCustomThreadAddressSpace_def KeGetCurrentThread_def apply_address_space_def Let_def)

lemma clear_space_eq: "clear_space s = (STATUS_SUCCESS, own_space s)"
  by (simp add: clear_space_def own_space_def on_ps_def KeClearCustomThreadAddressSpace_def KeGetCurrentThread_def apply_address_space_def Let_def
      current_process_def)

lemma in_space_keeps [simp]:
  "kst (in_space a s) = kst s" "coherent (in_space a s) = coherent s" "current_process (in_space a s) = current_process s"
  "ocpu (in_space a s) = ocpu s"
  by (simp_all add: in_space_def on_ps_def coherent_def current_process_def)

lemma own_after_in: "own_space (in_space a s) = own_space s"
  by (cases "ps (ist s)") (simp add: in_space_def own_space_def on_ps_def current_process_def)

text \<open>A lock of the scheduler that is not the one of the current process.\<close>

definition lock_held :: "ptr \<Rightarrow> 'z sys_scheme \<Rightarrow> 'z sys_scheme" where
  "lock_held a s = s\<lparr>ocpu := raised (ocpu s), ist := (ist s)\<lparr>ps := (ps (ist s))\<lparr>ks :=
     (kst s)\<lparr>kcpu := raised (ocpu s), Locks := (Locks (kst s))(a := 1)\<rparr>\<rparr>\<rparr>\<rparr>"

lemma acquire_lock_held:
  assumes "coherent s" "calm s" "Locks (kst s) a = 0" "a \<noteq> Threads.ProcessLock (current_process s)"
  shows "acquire_ks_lock a s = Done (irql (ocpu s), lock_held a s)"
  using acquire_ks_lock_free [OF assms(1-3)] assms(1,4)
  by (simp add: with_kst_def lock_held_def share_out_def Let_def coherent_def current_process_def)

lemma release_lock_held:
  assumes "coherent s" "calm s" "Locks (kst s) a = 0" "a \<noteq> Threads.ProcessLock (current_process s)"
    and "ist t = ist (lock_held a s)" "ocpu t = raised (ocpu s)" "Objects.ProcessLock t = Objects.ProcessLock s"
      "ProcessHandleDatabaseHead t = ProcessHandleDatabaseHead s"
  shows "release_ks_lock a (irql (ocpu s)) t = Done (t\<lparr>ocpu := ocpu s, ist := ist s\<rparr>)"
proof -
  have "coherent t" using assms by (simp add: coherent_def current_process_def lock_held_def)
  moreover have "(kst s)\<lparr>kcpu := ocpu s, Locks := Locks (kst s)\<rparr> = kst s" using assms(1) by (simp add: coherent_def)
  ultimately show ?thesis
    using release_lock_taken [of t a "ocpu s"] assms
    by (simp add: lock_held_def calm_def with_kst_def share_out_def Let_def coherent_def current_process_def fun_upd_idem)
qed

definition view_pages :: "ptr \<Rightarrow> u64 \<Rightarrow> 'z ssys_scheme \<Rightarrow> u64" where
  "view_pages sec Size s = (let Size = PAGE_ALIGN (Size + 4096 - 1) in (if Size = 0 then NumberOfPages s sec * 4096 else Size) div 4096)"

lemma dereference_held:
  assumes "cpu_ok (ocpu u)" "irql (ocpu u) \<le> DISPATCH_LEVEL" "HLock u (ObGetHeaderFromObject obj) = 0"
    "ReferenceCount u (ObGetHeaderFromObject obj) \<noteq> 0"
  shows "dereference M obj (referenced (ObGetHeaderFromObject obj) u) = Done u"
  using dereferenced [of u obj M] assms by (simp add: dereference_def calm_def)

text \<open>C35: creating a view of a section that has to grow, when the pool has no memory for the new array. The answer is STATUS_SUCCESS, since
  the status of the failure is overwritten by that of clearing the address space; no view is created and the out pointer is not written.
  The section is broken: it keeps its new number of pages, but its array is gone. Everything else is as before, but for the custom
  address space of the thread, which is cleared.\<close>

theorem MmCreateView_no_memory:
  assumes "leads_to hSection sec s" "SectionLock s sec = 0" "coherent s" "Locks (kst s) (AddressSpaceLock a) = 0"
    and "AddressSpaceLock a \<noteq> Threads.ProcessLock (current_process s)"
    and "n = start + view_pages sec Size s" "NumberOfPages s sec < n"
    and "ExAllocatePoolZero NonPagedPool (n * 8) MSEC ((opool s)\<lparr>cpool := raised (ocpu s)\<rparr>) = Done (NULL, q)" "cpool q = raised (ocpu s)"
  shows "MmCreateView M a hSection VirtualAddress start off Prot Size s = Done ((STATUS_SUCCESS, None),
    own_space (s\<lparr>NumberOfPages := (NumberOfPages s)(sec := n), Mappings := (Mappings s)(sec := NULL), opool := q\<rparr>))"
proof -
  let ?d = "ObGetHeaderFromObject sec" and ?L = "AddressSpaceLock a" let ?r = "referenced ?d s" let ?i = "in_space a ?r"
  let ?h = "lock_held ?L ?i" let ?k = "?h\<lparr>SectionLock := (SectionLock s)(sec := 1)\<rparr>"
  let ?u = "lock_held ?L (in_space a s)"
  let ?x = "s\<lparr>NumberOfPages := (NumberOfPages s)(sec := n), Mappings := (Mappings s)(sec := NULL), opool := q\<rparr>"
  let ?v = "lock_held ?L (in_space a ?x)" let ?w = "referenced ?d ?v"
  let ?z = "?w\<lparr>SectionLock := (SectionLock s)(sec := 1)\<rparr>"
  have c: "calm s" "HLock s ?d = 0" "ReferenceCount s ?d \<noteq> 0" "cpu_ok (ocpu s)" "irql (ocpu s) \<le> DISPATCH_LEVEL"
    using assms(1) by (auto simp: leads_to_def Let_def handles_idle_def calm_def)
  have i: "irql (raised (ocpu s)) = DISPATCH_LEVEL" "cpu_ok (raised (ocpu s))" using raised_ok [OF c(4)] by simp_all
  have r: "coherent ?r" "calm ?r" "kst ?r = kst s" "ocpu ?r = ocpu s" "current_process ?r = current_process s"
    using assms(3) c(1) by (simp_all add: referenced_def coherent_def calm_def current_process_def)
  have "calm ?i" using r(2) by (simp add: calm_def)
  then have al: "acquire_ks_lock ?L ?i = Done (irql (ocpu s), ?h)" using acquire_lock_held [of ?i ?L] r assms(4,5) by simp
  have ls: "lock_section_at_dpc sec ?h = Done ?k"
    using assms(2) i by (simp add: lock_section_at_dpc_def KeAcquireSpinLockAtDpcLevel_def KeGetCurrentIrql_def KiAcquireSpinLock_def set_bit_eq_or)
      (simp add: lock_held_def referenced_def in_space_def on_ps_def KeAcquireSpinLockAtDpcLevel_def KeGetCurrentIrql_def KiAcquireSpinLock_def set_bit_eq_or)
  have rs: "MiResizeSection sec n ?k = Done (STATUS_NO_MEMORY, ?z)"
    using assms(8,9) by (simp add: MiResizeSection_def Let_def with_pool_def lock_held_def referenced_def in_space_def on_ps_def)
  have us: "unlock_section_from_dpc sec ?z = Done ?w"
    using assms(2) i by (simp add: unlock_section_from_dpc_def KeReleaseSpinLockFromDpcLevel_def KeGetCurrentIrql_def lock_held_def referenced_def
        in_space_def on_ps_def fun_upd_idem)
  have dr: "dereference M sec ?w = Done ?v"
    by (rule dereference_held) (use c i in \<open>simp_all add: lock_held_def in_space_def on_ps_def\<close>)
  have "release_ks_lock ?L (irql (ocpu s)) ?v = Done (in_space a ?x)"
    using release_lock_held [of "in_space a s" ?L ?v] assms(3-5) c(1)
    by (simp add: lock_held_def calm_def) (simp add: in_space_def on_ps_def)
  then have lv: "leave_view a (irql (ocpu s)) None ?v = Done ((STATUS_SUCCESS, None), own_space ?x)"
    by (simp add: leave_view_def clear_space_eq own_after_in)
  have np: "NumberOfPages ?k = NumberOfPages s" by (simp add: lock_held_def referenced_def in_space_def on_ps_def)
  show ?thesis
    using handle_referenced [OF assms(1), of M NULL] al ls rs us dr lv assms(6,7)
    by (simp add: MmCreateView_def referenced_section_def set_space_eq np view_pages_def Let_def cong: if_cong split del: if_split)
qed

section \<open>Properties of page faults\<close>

text \<open>C33: page faults that no page can be given for. An address in none of the views of the current address space gives
  STATUS_INVALID_PARAMETER; an address whose first view shows a section without a file gives STATUS_INVALID_ADDRESS, so that the pages
  of such a section can only be mapped by MmCreateView. In both cases the state is the one before: the locks of the thread, the
  address space and the section are free again, the reference to the section is given back and the IRQL is as it was.\<close>

theorem MmHandlePageFault_no_page:
  assumes "fault_ready s" "is_list (vheap (mm s)) (SectionViews (MmGetCurrentAddressSpace s)) Vs"
    and "\<forall>V. List.find (\<lambda>V. MmIsAddressInView V Address s) Vs = Some V \<longrightarrow>
      (\<exists>sec. leads_to (ViewSection s V) sec s \<and> SectionLock s sec = 0 \<and> SectionFile s sec = NULL)"
  shows "MmHandlePageFault M Address s =
    Done (if \<exists>V\<in>set Vs. MmIsAddressInView V Address s then STATUS_INVALID_ADDRESS else STATUS_INVALID_PARAMETER, s)"
proof (cases "List.find (\<lambda>V. MmIsAddressInView V Address s) Vs")
  case None
  then have "fault_answer M Address Vs (faulting s) = Done (STATUS_INVALID_PARAMETER, faulting s)"
    by (simp add: fault_answer_def MmIsAddressInView_def)
  with None show ?thesis using MmHandlePageFault_eq(1) [OF assms(1,2)] by (auto simp: find_None_iff)
next
  case (Some V)
  then obtain sec where sec: "leads_to (ViewSection s V) sec s" "SectionLock s sec = 0" "SectionFile s sec = NULL" using assms(3) by blast
  have "MmHandleViewPageFault M V Address (faulting s) = Done (STATUS_INVALID_ADDRESS, faulting s)"
    using fault_without_file [of "faulting s" V sec M Address] leads_to_faulting [OF sec(1) assms(1)] sec(2,3) by simp
  then have "fault_answer M Address Vs (faulting s) = Done (STATUS_INVALID_ADDRESS, faulting s)"
    using Some by (simp add: fault_answer_def MmIsAddressInView_def)
  moreover have "\<exists>V\<in>set Vs. MmIsAddressInView V Address s" using Some by (auto simp: find_Some_iff)
  ultimately show ?thesis using MmHandlePageFault_eq(1) [OF assms(1,2)] by simp
qed

text \<open>C34: two views of the same page of a file. When the frame of the page has been put into the section by a fault in another view and
  is not mapped in this one, a fault stops the machine: the handler does not map the frame, the file is read into the page, and
  that faults again while the locks are held, at DISPATCH_LEVEL.\<close>

theorem MmHandlePageFault_second_view:
  assumes "fault_ready s" "is_list (vheap (mm s)) (SectionViews (MmGetCurrentAddressSpace s)) Vs"
    and "List.find (\<lambda>V. MmIsAddressInView V Address s) Vs = Some V"
    and "leads_to (ViewSection s V) sec s" "SectionLock s sec = 0"
    and "leads_to (SectionFile s sec) inst s" "ObGetHeaderFromObject inst \<noteq> ObGetHeaderFromObject sec"
    and "MappingAt s (Mappings s sec) ((Address - BaseAddress s V) div 4096 + MappingStart s V) \<noteq> 0"
    and "translate (mm_view s) (PAGE_ALIGN Address) = None"
    and "off = PAGE_ALIGN (Address - BaseAddress s V) + FileOffset s V" "pFile s (SharedFileObject s inst) = Some f"
    and "VReadFile (fs_functions s) (Some (f\<lparr>Vfs.FilePointer := off\<rparr>)) 4096 (\<lambda>_. 0) (volume s) = Done (st, buf, Some f', v)"
    and "Vfs.FilePointer f' \<noteq> off"
  shows "MmHandlePageFault M Address s = Bugcheck PAGE_FAULT_WITH_INTERRUPTS_OFF"
proof -
  let ?s = "faulting s"
  have k: "BaseAddress ?s = BaseAddress s" "FileOffset ?s = FileOffset s" "MappingAt ?s = MappingAt s" "Mappings ?s = Mappings s"
    "MappingStart ?s = MappingStart s" "pFile ?s = pFile s" "SharedFileObject ?s = SharedFileObject s" "fs_functions ?s = fs_functions s"
    "volume ?s = volume s" "pcr3 (ps (ist ?s)) = pcr3 (ps (ist s))"
    by (simp_all add: faulting_def with_kst_def share_out_def Let_def)
  have "translate (mm_view ?s) (PAGE_ALIGN Address) = None"
    using assms(9) translate_phys [of "mm_view ?s" "mm_view s"] k(10) by (simp add: mm_view_def)
  then have "MmHandleViewPageFault M V Address ?s = Bugcheck PAGE_FAULT_WITH_INTERRUPTS_OFF"
    using fault_not_mapped [of ?s V sec inst Address f st buf f' v M] leads_to_faulting [OF assms(4,1)] leads_to_faulting [OF assms(6,1)]
      assms(5,7,8,10-13) by (simp add: k)
  then show ?thesis
    using MmHandlePageFault_eq(2) [OF assms(1,2)] assms(3) by (simp add: fault_answer_def MmIsAddressInView_def)
qed

text \<open>Handle 1 leads to the section 0x5058, which handle 3 of the file 0x9058 may belong to; the view 0xE000 shows its only page at 0x400000,
  whose frame is 7. Reading the file gives as many bytes as are wanted. The pool has no free block.\<close>

definition full_pool :: pool where
  "full_pool = no_pools\<lparr>Pools := (\<lambda>_. 0x100), bheap := InitializeListHead 0x100 (bheap no_pools), MaximalIrql := (\<lambda>_. DISPATCH_LEVEL)\<rparr>"

lemma full_pool_alloc:
  "ExAllocatePoolZero NonPagedPool n MSEC (full_pool\<lparr>cpool := \<lparr>irql = 2, tpr = 2\<rparr>\<rparr>) = Done (NULL, full_pool\<lparr>cpool := \<lparr>irql = 2, tpr = 2\<rparr>\<rparr>)"
proof -
  let ?p = "full_pool\<lparr>cpool := \<lparr>irql = 2, tpr = 2\<rparr>\<rparr>" let ?h = "held 0x100 ?p"
  have p: "pool_of 0 ?p = Done 0x100" "pool_of 0 ?h = Done 0x100" by (simp_all add: pool_of_def full_pool_def held_def)
  have f: "flink (bheap ?p) 0x100 = 0x100" "PoolLock ?p 0x100 = 0" "MaximalIrql ?p 0x100 = 2" "cpool ?p = \<lparr>irql = 2, tpr = 2\<rparr>"
    by (simp_all add: full_pool_def no_pools_def InitializeListHead_def)
  have l: "lock_pool 0x100 ?p = Done (2, ?h)" using lock_held [of ?p "0x100"] f by (simp add: cpu_ok_def)
  have u: "unlock_pool 0x100 2 ?h = Done ?p" using unlock_held [of ?h "0x100" "cpool ?p"] f by (simp add: cpu_ok_def held_def fun_upd_idem)
  have "ExVerifyPoolBlock 0x100 0 ?h = Done ok \<Longrightarrow> run_loop (enumerate_loop 0 0x100 0x100 ?h) = Done ()" for ok
    by (subst enumerate_loop.simps) (simp add: run_loop_def next_step_def)
  then have e: "DebugEnumeratePoolBlocks 0 ?h = Done ()" using p(2) f by (simp add: DebugEnumeratePoolBlocks_def ExVerifyPoolBlock_def Let_def)
  have "run_loop (alloc_loop 0 n m t 0x100 0x100 ?h) = Done (None, ?h)" for n m t
    by (subst alloc_loop.simps) (simp add: run_loop_def)
  then show ?thesis
    using p l u e f by (simp add: ExAllocatePoolZero_def ExAllocatePoolWithTag_def ValidateTag_def tag_byte_def upt_conv_Cons Let_def)
qed

definition sec_sys :: "handle \<Rightarrow> ssys" where
  "sec_sys F = fsys.extend (io_sys\<lparr>DbObject := (\<lambda>_ _. 0)(0x3000 := (\<lambda>_. 0)(0 := 0x5058, 1 := 0x9058)), opool := full_pool,
      mm := stack_mmu\<lparr>vheap := \<lparr>flink = (\<lambda>_. 0)(0x90 := 0xE000, 0xE000 := 0x90), blink = (\<lambda>_. 0)(0x90 := 0xE000, 0xE000 := 0x90)\<rparr>\<rparr>,
      fs_functions := \<lparr>VOpenFile = (\<lambda>v p. Done (None, v)),
        VReadFile = (\<lambda>f n b v. Done (0, b, map_option (\<lambda>f. f\<lparr>Vfs.FilePointer := Vfs.FilePointer f + n\<rparr>) f, v))\<rparr>\<rparr>)
    (ssys.fields (\<lambda>_. 1) (\<lambda>_. 0xF000) (\<lambda>_ _. 7) (\<lambda>_. 0) (\<lambda>_. F) (\<lambda>_. 0) (\<lambda>_. 1) (\<lambda>_. 0) (\<lambda>_. 0) (\<lambda>_. 0x400000) (\<lambda>_. 1) (\<lambda>_. 0) (\<lambda>_. 0)
      0 (\<lambda>_. 0) (\<lambda>_. 0) (\<lambda>_. 0))"

lemmas sec_sys_fields = sec_sys_def ssys.defs io_sys_fields

lemma sec_leads: "leads_to 1 0x5058 (sec_sys F)" "leads_to 3 0x9058 (sec_sys F)"
proof -
  have "is_list (oheap (sec_sys F)) 0x2000 [0x3000]" by (simp add: sec_sys_fields is_list_def)
  then have "ObGetHandleDatabaseEntryFromHandle 1 0x2000 (sec_sys F) = Done (STATUS_SUCCESS, Some (0x3000, 0))"
    "ObGetHandleDatabaseEntryFromHandle 3 0x2000 (sec_sys F) = Done (STATUS_SUCCESS, Some (0x3000, 1))"
    using lookup_entry [of "sec_sys F" "0x2000" "[0x3000]" 1] lookup_entry [of "sec_sys F" "0x2000" "[0x3000]" 3] by simp_all
  moreover have "ObpGetHandleDatabaseHead (ObpIsKernelHandle 1) (sec_sys F) = 0x2000" "ObpGetHandleDatabaseHead (ObpIsKernelHandle 3) (sec_sys F) = 0x2000"
    "entry_object (sec_sys F) (0x3000, 0) = 0x5058" "entry_object (sec_sys F) (0x3000, 1) = 0x9058"
    by (simp_all add: ObpGetHandleDatabaseHead_def ObpIsKernelHandle_def entry_object_def sec_sys_fields)
  moreover have "handles_idle (sec_sys F)" by (simp add: handles_idle_def calm_def sec_sys_fields cpu_ok_def)
  moreover have "HLock (sec_sys F) = (\<lambda>_. 0)" "ReferenceCount (sec_sys F) = (\<lambda>_. 1)" "HAttributes (sec_sys F) = (\<lambda>_. OBJ_KERNEL_HANDLE)"
    by (simp_all add: sec_sys_fields)
  ultimately show "leads_to 1 0x5058 (sec_sys F)" "leads_to 3 0x9058 (sec_sys F)" by (simp_all add: leads_to_def Let_def ObGetHeaderFromObject_def)
qed

lemma sec_kst: "kst (sec_sys F) = (quiet_kstate 0)\<lparr>sheap := psp_heap\<rparr>" "CustomAddressSpace (ps (ist (sec_sys F))) = (\<lambda>_. 0)"
    "ocpu (sec_sys F) = \<lparr>irql = 0, tpr = 0\<rparr>"
  by (simp_all add: sec_sys_fields clock_istate_def two_threads_def)

lemma sec_space: "MmGetCurrentAddressSpace (sec_sys F) = 0x88"
  by (simp add: MmGetCurrentAddressSpace_def sec_kst quiet_kstate_def AddressSpace_def)

lemma sec_ready: "fault_ready (sec_sys F)"
proof -
  have "coherent (sec_sys F)"
    by (simp add: coherent_def current_process_def sec_kst) (simp add: sec_sys_fields quiet_kstate_def HandleDatabaseHead_def)
  then show ?thesis
    by (simp add: fault_ready_def Let_def fault_space_def sec_space sec_kst calm_def cpu_ok_def quiet_kstate_def current_process_def
      ThreadLock_def AddressSpaceLock_def Threads.ProcessLock_def)
qed

lemma sec_views: "is_list (vheap (mm (sec_sys F))) (SectionViews (MmGetCurrentAddressSpace (sec_sys F))) [0xE000]"
  by (simp add: sec_space SectionViews_def is_list_def) (simp add: sec_sys_fields)

lemma sec_view: "MmIsAddressInView 0xE000 a (sec_sys F) = (0x400000 \<le> a \<and> a < 0x401000)"
  by (simp add: MmIsAddressInView_def Let_def) (simp add: sec_sys_fields)

theorem MmHandlePageFault_no_page_witness:
  "\<forall>M. MmHandlePageFault M 0x400123 (sec_sys 0) = Done (STATUS_INVALID_ADDRESS, sec_sys 0) \<and>
       MmHandlePageFault M 0x500000 (sec_sys 0) = Done (STATUS_INVALID_PARAMETER, sec_sys 0)"
proof
  fix M
  have h: "\<forall>V. List.find (\<lambda>V. MmIsAddressInView V a (sec_sys 0)) [0xE000] = Some V \<longrightarrow>
      (\<exists>sec. leads_to (ViewSection (sec_sys 0) V) sec (sec_sys 0) \<and> SectionLock (sec_sys 0) sec = 0 \<and> SectionFile (sec_sys 0) sec = NULL)" for a
    using sec_leads(1) [of 0] by (intro allI impI exI [of _ "0x5058"]) (simp add: sec_sys_fields)
  show "MmHandlePageFault M 0x400123 (sec_sys 0) = Done (STATUS_INVALID_ADDRESS, sec_sys 0) \<and>
       MmHandlePageFault M 0x500000 (sec_sys 0) = Done (STATUS_INVALID_PARAMETER, sec_sys 0)"
    using MmHandlePageFault_no_page [OF sec_ready sec_views h, of M "0x400123"] MmHandlePageFault_no_page [OF sec_ready sec_views h, of M "0x500000"]
    by (simp add: sec_view)
qed

theorem MmHandlePageFault_second_view_witness: "\<forall>M. MmHandlePageFault M 0x400123 (sec_sys 3) = Bugcheck PAGE_FAULT_WITH_INTERRUPTS_OFF"
proof
  fix M
  let ?s = "sec_sys 3" let ?f = "\<lparr>FName = (\<lambda>_. 0), FPath = (\<lambda>_. 0), FilePointer = 0, FileSize = 10\<rparr> :: VFS_FILE"
  have v: "List.find (\<lambda>V. MmIsAddressInView V 0x400123 ?s) [0xE000] = Some 0xE000" by (simp add: sec_view)
  have f: "ViewSection ?s 0xE000 = 1" "SectionFile ?s 0x5058 = 3" "SectionLock ?s 0x5058 = 0" "BaseAddress ?s 0xE000 = 0x400000"
    "MappingAt ?s (Mappings ?s 0x5058) i = 7" "FileOffset ?s 0xE000 = 0" "pFile ?s (SharedFileObject ?s 0x9058) = Some ?f" for i
    by (simp_all add: sec_sys_fields)
  have g: "PAGE_ALIGN 0x123 = 0" "PAGE_ALIGN 0x400123 = 0x400000" by (simp_all add: PAGE_ALIGN_def)
  have r: "VReadFile (fs_functions ?s) (Some (?f\<lparr>Vfs.FilePointer := 0\<rparr>)) 4096 (\<lambda>_. 0) (volume ?s) =
      Done (0, \<lambda>_. 0, Some (?f\<lparr>Vfs.FilePointer := 4096\<rparr>), volume ?s)"
    by (simp add: sec_sys_fields)
  have p: "phys (mm_view ?s) (frame_of (cr3 (mm_view ?s))) = (\<lambda>_. 0)"
    by (simp add: mm_view_def) (simp add: sec_sys_fields stack_mmu_def clock_istate_def two_threads_def frame_of_def)
  have t: "translate (mm_view ?s) 0x400000 = None" by (simp add: translate_def p Let_def)
  show "MmHandlePageFault M 0x400123 ?s = Bugcheck PAGE_FAULT_WITH_INTERRUPTS_OFF"
    using MmHandlePageFault_second_view [OF sec_ready sec_views v, of "0x5058" "0x9058" 0 ?f 0 "\<lambda>_. 0" "?f\<lparr>Vfs.FilePointer := 4096\<rparr>" "volume ?s" M]
      sec_leads [of 3] r t by (simp add: f g ObGetHeaderFromObject_def)
qed

theorem MmCreateView_no_memory_witness:
  "\<forall>M. \<exists>s. MmCreateView M 0x88 1 0x600000 0 0 0 8192 (sec_sys 3) = Done ((STATUS_SUCCESS, None), s) \<and> NumberOfPages s 0x5058 = 2 \<and> Mappings s 0x5058 = NULL"
proof
  fix M
  let ?s = "sec_sys 3"
  have n: "2 = 0 + view_pages 0x5058 8192 ?s" by (simp add: view_pages_def PAGE_ALIGN_def)
  have k: "Locks (kst ?s) (AddressSpaceLock 0x88) = 0" "AddressSpaceLock 0x88 \<noteq> Threads.ProcessLock (current_process ?s)" "SectionLock ?s 0x5058 = 0"
    "NumberOfPages ?s 0x5058 < 2"
    by (simp_all add: sec_kst quiet_kstate_def current_process_def AddressSpaceLock_def Threads.ProcessLock_def) (simp_all add: sec_sys_fields)
  have "raised (ocpu ?s) = \<lparr>irql = 2, tpr = 2\<rparr>" "opool ?s = full_pool"
    by (simp_all add: sec_kst raised_def KiApplyIrql_def) (simp add: sec_sys_fields)
  then have a: "ExAllocatePoolZero NonPagedPool (2 * 8) MSEC ((opool ?s)\<lparr>cpool := raised (ocpu ?s)\<rparr>) = Done (NULL, full_pool\<lparr>cpool := raised (ocpu ?s)\<rparr>)"
    using full_pool_alloc [of "2 * 8"] by simp
  have "coherent ?s" using sec_ready by (simp add: fault_ready_def Let_def)
  from MmCreateView_no_memory [OF sec_leads(1) k(3) this k(1,2) n k(4) a, of M "0x600000" 0 0]
  show "\<exists>s. MmCreateView M 0x88 1 0x600000 0 0 0 8192 ?s = Done ((STATUS_SUCCESS, None), s) \<and> NumberOfPages s 0x5058 = 2 \<and> Mappings s 0x5058 = NULL"
    by (simp add: own_space_def on_ps_def)
qed

end
