(* ===== verification/Loader.thy ===== *)
theory Loader
  imports Sections
begin

text \<open>
  Starting user processes, NNXOSKRN/ldr/ldr.c: the process with its loader thread, and the loader thread, which maps the image of the
  program and starts its main thread.
\<close>

section \<open>State\<close>

text \<open>The fields of an LDR_MODULE, whose ProcessEntry is at offset 0; it has 56 bytes. ViewAt gives the entries of an array of views by its
  address; the memory of a fresh array holds what it held before.\<close>

record lsys = ssys +
  ModSection :: "ptr \<Rightarrow> handle"
  PreferredBaseAddress :: "ptr \<Rightarrow> u64"
  ModBaseAddress :: "ptr \<Rightarrow> u64"
  ModSectionViews :: "ptr \<Rightarrow> ptr"
  ModEntrypointRVA :: "ptr \<Rightarrow> u64"
  ViewAt :: "ptr \<Rightarrow> u64 \<Rightarrow> ptr"

type_synonym 'z ldr_methods = "'z lsys_ext mm_methods"

abbreviation (input) DummyTag :: u32 where "DummyTag \<equiv> 0x54485244"
abbreviation (input) LdrmTag :: u32 where "LdrmTag \<equiv> 0x4C44524D"
abbreviation (input) STATUS_INVALID_IMAGE_FORMAT :: NTSTATUS where "STATUS_INVALID_IMAGE_FORMAT \<equiv> 0xC000007B"
abbreviation (input) PAGE_READONLY :: u32 where "PAGE_READONLY \<equiv> 2"
abbreviation (input) PAGE_READWRITE :: u32 where "PAGE_READWRITE \<equiv> 4"

definition pool_bytes :: "(mem \<Rightarrow> mem) \<Rightarrow> 'w ob_scheme \<Rightarrow> 'w ob_scheme" where
  "pool_bytes f s = s\<lparr>opool := (opool s)\<lparr>pmem := f (pmem (opool s))\<rparr>\<rparr>"

section \<open>Reading memory that may fault\<close>

text \<open>A byte of the address space. When its page is not present the handler of page faults runs and the access is tried again.\<close>

definition byte_at :: "u64 \<Rightarrow> u64 \<Rightarrow> mmu \<Rightarrow> u8" where
  "byte_at f a m = ucast (drop_bit (8 * (unat a mod 8)) (phys m f (word_in_page a)))"

partial_function (option) read_byte :: "'z mm_methods \<Rightarrow> u64 \<Rightarrow> 'z ssys_scheme \<Rightarrow> (u8 \<times> 'z ssys_scheme) outcome option" where
  "read_byte M a s =
     (case translate (mm_view s) a of
        Some f \<Rightarrow> Some (Done (byte_at f a (mm s), s))
      | None \<Rightarrow> next_step (PageFaultHandler M a s) (read_byte M a))"

primrec read_bytes :: "'z mm_methods \<Rightarrow> u64 \<Rightarrow> nat list \<Rightarrow> 'z ssys_scheme \<Rightarrow> (u8 list \<times> 'z ssys_scheme) outcome" where
  "read_bytes M a [] s = Done ([], s)"
| "read_bytes M a (i # js) s =
     obind (run_loop (read_byte M (a + word_of_nat i) s)) (\<lambda>(b, s).
     obind (read_bytes M a js s) (\<lambda>(bs, s). Done (b # bs, s)))"

text \<open>A number of n bytes.\<close>

definition read_number :: "'z mm_methods \<Rightarrow> nat \<Rightarrow> u64 \<Rightarrow> 'z ssys_scheme \<Rightarrow> (u64 \<times> 'z ssys_scheme) outcome" where
  "read_number M n a s = obind (read_bytes M a [0..<n] s) (\<lambda>(bs, s). Done (horner_sum ucast 256 bs, s))"

section \<open>Images\<close>

text \<open>Offsets in IMAGE_DOS_HEADER, IMAGE_PE_HEADER (136 bytes) and IMAGE_SECTION_HEADER (40 bytes), all packed.\<close>

abbreviation (input) IMAGE_MZ_MAGIC :: u64 where "IMAGE_MZ_MAGIC \<equiv> 0x5A4D"
abbreviation (input) IMAGE_PE_MAGIC :: u64 where "IMAGE_PE_MAGIC \<equiv> 0x4550"
abbreviation (input) o_lfanew :: u64 where "o_lfanew \<equiv> 60"
abbreviation (input) oNumberOfSections :: u64 where "oNumberOfSections \<equiv> 6"
abbreviation (input) oEntrypointRVA :: u64 where "oEntrypointRVA \<equiv> 40"
abbreviation (input) oImageBase :: u64 where "oImageBase \<equiv> 48"
abbreviation (input) oSizeOfHeaders :: u64 where "oSizeOfHeaders \<equiv> 84"
abbreviation (input) oNumberOfDataDirectories :: u64 where "oNumberOfDataDirectories \<equiv> 132"
abbreviation (input) oVirtualSize :: u64 where "oVirtualSize \<equiv> 8"
abbreviation (input) oVirtualAddressRVA :: u64 where "oVirtualAddressRVA \<equiv> 12"
abbreviation (input) oPointerToDataRVA :: u64 where "oPointerToDataRVA \<equiv> 20"
abbreviation (input) oCharacteristics :: u64 where "oCharacteristics \<equiv> 36"

definition pool_number :: "nat \<Rightarrow> ptr \<Rightarrow> 'w ob_scheme \<Rightarrow> u64" where
  "pool_number n a s = horner_sum ucast 256 (map (\<lambda>j. pmem (opool s) (a + word_of_nat j)) [0..<n])"

definition set_view :: "ptr \<Rightarrow> u64 \<Rightarrow> ptr option \<Rightarrow> 'z lsys_scheme \<Rightarrow> 'z lsys_scheme" where
  "set_view p i v s = (case v of None \<Rightarrow> s | Some v \<Rightarrow> s\<lparr>ViewAt := (ViewAt s)(p := (ViewAt s p)(i := v))\<rparr>)"

primrec free_views :: "'z ldr_methods \<Rightarrow> ptr \<Rightarrow> ptr \<Rightarrow> nat list \<Rightarrow> 'z lsys_scheme \<Rightarrow> 'z lsys_scheme outcome" where
  "free_views M a p [] s = Done s"
| "free_views M a p (i # js) s =
     (let v = ViewAt s p (word_of_nat i) in
      obind (if v \<noteq> NULL then obind (MmDeleteView M a v s) (\<lambda>(_, s). Done s) else Done s) (\<lambda>s.
      free_views M a p js (set_view p (word_of_nat i) (Some NULL) s)))"

definition FreeSectionViews :: "'z ldr_methods \<Rightarrow> ptr \<Rightarrow> ptr \<Rightarrow> nat \<Rightarrow> 'z lsys_scheme \<Rightarrow> 'z lsys_scheme outcome" where
  "FreeSectionViews M a p n s = obind (free_views M a p [0..<n] s) (free_header p)"

definition give_up_views :: "'z ldr_methods \<Rightarrow> ptr \<Rightarrow> ptr \<Rightarrow> nat \<Rightarrow> 'z lsys_scheme \<Rightarrow> 'z lsys_scheme outcome" where
  "give_up_views M a pModule n s =
     obind (FreeSectionViews M a (ModSectionViews s pModule) (Suc n) s) (\<lambda>s. Done (s\<lparr>ModSectionViews := (ModSectionViews s)(pModule := NULL)\<rparr>))"

text \<open>The views of the sections i; h is the copy of the headers. The name is given to what stands in the array, whether a
  view was created or not; neither the array nor the memory of the name is tested.\<close>

primrec create_subviews ::
  "'z ldr_methods \<Rightarrow> ptr \<Rightarrow> handle \<Rightarrow> ptr \<Rightarrow> ptr \<Rightarrow> u64 \<Rightarrow> nat \<Rightarrow> nat list \<Rightarrow> 'z lsys_scheme \<Rightarrow> (NTSTATUS \<times> 'z lsys_scheme) outcome"
where
  "create_subviews M a hSection pModule h baseAddress n [] s = obind (free_header h s) (\<lambda>s. Done (STATUS_SUCCESS, s))"
| "create_subviews M a hSection pModule h baseAddress n (i # js) s =
     (let e = h + 40 * word_of_nat i;
          protection = (if bit (pool_number 4 (e + oCharacteristics) s) 31 then PAGE_READWRITE else PAGE_READONLY);
          rva = pool_number 4 (e + oVirtualAddressRVA) s;
          views = ModSectionViews s pModule
      in obind (MmCreateView M a hSection (baseAddress + rva) (rva div 4096) (pool_number 4 (e + oPointerToDataRVA) s) protection
             (pool_number 4 (e + oVirtualSize) s) s) (\<lambda>((Status, v), s).
         let s = set_view views (word_of_nat i) v s in
         if views = NULL then Fault
         else if \<not> NT_SUCCESS Status
         then obind (give_up_views M a pModule n s) (\<lambda>s. obind (free_header h s) (\<lambda>s. Done (Status, s)))
         else
           obind (pool_alloc 9 s) (\<lambda>(name, s).
           let s = s\<lparr>ViewName := (ViewName s)(ViewAt s views (word_of_nat i) := name)\<rparr> in
           if name = NULL then Fault
           else create_subviews M a hSection pModule h baseAddress n js
             (pool_bytes (\<lambda>m. (fold (\<lambda>j m. m(name + word_of_nat j := m (e + word_of_nat j))) [0..<8] m)(name + 8 := 0)) s))))"

definition NnxLdrCreateSectionSubviews :: "'z ldr_methods \<Rightarrow> handle \<Rightarrow> ptr \<Rightarrow> ptr \<Rightarrow> 'z lsys_scheme \<Rightarrow> (NTSTATUS \<times> 'z lsys_scheme) outcome" where
  "NnxLdrCreateSectionSubviews M hSection pInitialView pModule s =
     (let dosHeader = BaseAddress s pInitialView in
      obind (read_number M 2 dosHeader s) (\<lambda>(magic, s).
      if magic \<noteq> IMAGE_MZ_MAGIC then Done (STATUS_INVALID_IMAGE_FORMAT, s)
      else
      obind (read_number M 4 (dosHeader + o_lfanew) s) (\<lambda>(lfanew, s).
      let peHeader = dosHeader + lfanew in
      obind (read_number M 4 peHeader s) (\<lambda>(magic, s).
      if magic \<noteq> IMAGE_PE_MAGIC then Done (STATUS_INVALID_IMAGE_FORMAT, s)
      else
      obind (read_number M 2 (peHeader + oNumberOfSections) s) (\<lambda>(numberOfSections, s).
      obind (read_number M 4 (peHeader + oSizeOfHeaders) s) (\<lambda>(sizeOfHeaders, s).
      obind (with_pool (ExAllocatePoolWithTag NonPagedPool ((numberOfSections + 1) * 8) LdrmTag) s) (\<lambda>(views, s).
      let s = s\<lparr>ModSectionViews := (ModSectionViews s)(pModule := views)\<rparr> in
      obind (read_number M 4 (peHeader + oEntrypointRVA) s) (\<lambda>(entry, s).
      let s = s\<lparr>ModEntrypointRVA := (ModEntrypointRVA s)(pModule := entry)\<rparr> in
      obind (read_number M 4 (peHeader + oNumberOfDataDirectories) s) (\<lambda>(directories, s).
      let sectionHeadersInFile = peHeader + 136 + directories * 8; len = numberOfSections * 40 in
      obind (pool_alloc len s) (\<lambda>(sectionHeaders, s).
      obind (read_bytes M sectionHeadersInFile [0..<unat len] s) (\<lambda>(bs, s).
      if sectionHeaders = NULL \<and> bs \<noteq> [] then Fault
      else
      let s = pool_bytes (\<lambda>m. fold (\<lambda>j m. m(sectionHeaders + word_of_nat j := bs ! j)) [0..<length bs] m) s in
      obind (read_number M 8 (peHeader + oImageBase) s) (\<lambda>(baseAddress, s).
      let s = s\<lparr>ModBaseAddress := (ModBaseAddress s)(pModule := baseAddress), PreferredBaseAddress := (PreferredBaseAddress s)(pModule := baseAddress)\<rparr>;
          a = AddressSpace (current_process s); n = unat numberOfSections
      in obind (MmDeleteView M a pInitialView s) (\<lambda>(Status, s).
         if \<not> NT_SUCCESS Status
         then obind (free_header sectionHeaders s) (\<lambda>s. obind (free_header views s) (\<lambda>s.
              Done (Status, s\<lparr>ModSectionViews := (ModSectionViews s)(pModule := NULL)\<rparr>)))
         else
         obind (MmCreateView M a hSection baseAddress 0 0 PAGE_READONLY sizeOfHeaders s) (\<lambda>((Status, v), s).
         let s = set_view views numberOfSections v s in
         if views = NULL \<and> (v \<noteq> None \<or> \<not> NT_SUCCESS Status) then Fault
         else if \<not> NT_SUCCESS Status
         then obind (free_header sectionHeaders s) (\<lambda>s. obind (give_up_views M a pModule n s) (\<lambda>s. Done (Status, s)))
         else create_subviews M a hSection pModule sectionHeaders baseAddress n [0..<n] s))))))))))))))"

definition NnxLdrCreateModule :: "'z ldr_methods \<Rightarrow> handle \<Rightarrow> ptr \<Rightarrow> 'z lsys_scheme \<Rightarrow> ((NTSTATUS \<times> ptr option) \<times> 'z lsys_scheme) outcome" where
  "NnxLdrCreateModule M hSection pInitialView s =
     obind (with_pool (ExAllocatePoolWithTag NonPagedPool 56 LdrmTag) s) (\<lambda>(pModule, s).
     if pModule = NULL then Fault
     else
     let s = s\<lparr>ModSectionViews := (ModSectionViews s)(pModule := NULL), ModEntrypointRVA := (ModEntrypointRVA s)(pModule := 0),
           ModSection := (ModSection s)(pModule := hSection), PreferredBaseAddress := (PreferredBaseAddress s)(pModule := NULL),
           ModBaseAddress := (ModBaseAddress s)(pModule := NULL)\<rparr>
     in obind (NnxLdrCreateSectionSubviews M hSection pInitialView pModule s) (\<lambda>(Status, s).
        if \<not> NT_SUCCESS Status then obind (free_tagged pModule LdrmTag s) (\<lambda>s. Done ((Status, None), s))
        else
        let p = current_process s in
        obind (acquire_ks_lock (Threads.ProcessLock p) s) (\<lambda>(Irql, s).
        let s = set_sheap (InsertTailList (LdrModulesHead p) pModule) s in
        obind (release_ks_lock (Threads.ProcessLock p) Irql s) (\<lambda>s. Done ((STATUS_SUCCESS, Some pModule), s)))))"

section \<open>Threads of the loader\<close>

text \<open>The copy of the path is not freed when the process or the thread cannot be created. A UNICODE_STRING has 16 bytes; loader is the
  address of NnxDummyLdrThread, data that of the creation data.\<close>

definition NnxStartUserProcess :: "'z ldr_methods \<Rightarrow> ptr \<Rightarrow> u64 \<Rightarrow> ptr \<Rightarrow> u32 \<Rightarrow> 'z lsys_scheme \<Rightarrow> ((NTSTATUS \<times> handle option) \<times> 'z lsys_scheme) outcome" where
  "NnxStartUserProcess M data loader Filepath Priority s =
     obind (with_pool (ExAllocatePoolWithTag NonPagedPool 16 DummyTag) s) (\<lambda>(strCopy, s).
     if strCopy = NULL then Done ((STATUS_NO_MEMORY, None), s)
     else let path = str (ostr s) Filepath in
       obind (with_pool (ExAllocatePoolWithTag NonPagedPool (ucast (MaxLength path) * 2) DummyTag) s) (\<lambda>(b, s).
       let s = set_string strCopy ((str (ostr s) strCopy)\<lparr>Buffer := b\<rparr>) s in
       if b = NULL then obind (free_tagged strCopy DummyTag s) (\<lambda>s. Done ((STATUS_NO_MEMORY, None), s))
       else
       let s = set_string strCopy \<lparr>Length = Length path, MaxLength = MaxLength path, Buffer = b\<rparr> s;
           s = s\<lparr>ostr := (ostr s)\<lparr>chars := fold (\<lambda>i m. m(b + 2 * word_of_nat i := m (Buffer path + 2 * word_of_nat i)))
                 [0..<unat (Length path) div 2] (chars (ostr s))\<rparr>\<rparr>
       in obind (PspCreateProcessInternal M 0 None s) (\<lambda>((status, p), s).
          if \<not> NT_SUCCESS status then Done ((status, None), s)
          else let pProcess = the p; s = on_ks (\<lambda>k. k\<lparr>BasePriority := (BasePriority k)(pProcess := ucast Priority)\<rparr>) s in
          obind (PspCreateThreadInternal M data pProcess True loader s) (\<lambda>((status, t), s).
          if \<not> NT_SUCCESS status then Done ((status, None), s)
          else let pThread = the t;
                 s = on_ps (\<lambda>p. snd (PspSetUsercallParameter pThread 0 strCopy p)) s;
                 s = on_ks (\<lambda>k. k\<lparr>ThreadPriority := (ThreadPriority k)(pThread := 0)\<rparr>) s
          in obind (PspInsertIntoSharedQueueLocked pThread s) (ObCreateHandle KernelMode True pProcess)))))"

definition free_path :: "ptr \<Rightarrow> 'z lsys_scheme \<Rightarrow> 'z lsys_scheme outcome" where
  "free_path Filepath s = obind (free_tagged (Buffer (str (ostr s) Filepath)) DummyTag s) (free_tagged Filepath DummyTag)"

text \<open>open and exit_thread are NtCreateFile and PsExitThread with the addresses and the tick of this processor; a thread that
  has exited does not come back. Without a view the code goes on with a pointer that was never set, a Fault here. data is the address of the creation data of sections and threads.\<close>

definition NnxDummyLdrThread ::
  "'z ldr_methods \<Rightarrow> (u32 \<Rightarrow> OBJECT_ATTRIBUTES \<Rightarrow> 'z lsys_scheme \<Rightarrow> ((NTSTATUS \<times> handle option) \<times> 'z lsys_scheme) outcome) \<Rightarrow>
    (u32 \<Rightarrow> 'z lsys_scheme \<Rightarrow> 'z lsys_scheme outcome) \<Rightarrow> ptr \<Rightarrow> ptr \<Rightarrow> 'z lsys_scheme \<Rightarrow> 'z lsys_scheme outcome"
where
  "NnxDummyLdrThread M open exit_thread data Filepath s =
     obind (NtReferenceSectionFromFile M open data (str (ostr s) Filepath) s) (\<lambda>((Status, h), s).
     if \<not> NT_SUCCESS Status then obind (free_path Filepath s) (exit_thread Status)
     else
     obind (MmCreateView M (AddressSpace (current_process s)) (the h) 0x4321000 0 0 PAGE_READONLY 0 s) (\<lambda>((Status, v), s).
     if \<not> NT_SUCCESS Status then obind (free_path Filepath s) (exit_thread Status)
     else
     obind (free_path Filepath s) (\<lambda>s.
     case v of
       None \<Rightarrow> Fault
     | Some View \<Rightarrow>
         obind (NnxLdrCreateModule M (the h) View s) (\<lambda>((Status, m), s).
         if \<not> NT_SUCCESS Status then exit_thread Status s
         else let pModule = the m in
           if ModEntrypointRVA s pModule \<noteq> NULL
           then obind (PspCreateThreadInternal M data (current_process s) False (ModEntrypointRVA s pModule + ModBaseAddress s pModule) s)
                  (\<lambda>((Status, t), s).
                  if \<not> NT_SUCCESS Status then exit_thread Status s
                  else obind (PspInsertIntoSharedQueueLocked (the t) s) (exit_thread STATUS_SUCCESS))
           else exit_thread STATUS_SUCCESS s))))"

section \<open>Images that are present\<close>

text \<open>The memory of the current address space where it is mapped.\<close>

definition mapped_byte :: "u64 \<Rightarrow> 'z ssys_scheme \<Rightarrow> u8 option" where
  "mapped_byte a s = map_option (\<lambda>f. byte_at f a (mm s)) (translate (mm_view s) a)"

lemma read_byte_mapped: "mapped_byte a s = Some b \<Longrightarrow> run_loop (read_byte M a s) = Done (b, s)"
  by (subst read_byte.simps) (auto simp: mapped_byte_def run_loop_def split: option.splits)

lemma read_bytes_mapped:
  "\<forall>i\<in>set js. mapped_byte (a + word_of_nat i) s = Some (b i) \<Longrightarrow> read_bytes M a js s = Done (map b js, s)"
  by (induction js) (simp_all add: read_byte_mapped)

lemma read_number_mapped:
  "\<forall>i<n. mapped_byte (a + word_of_nat i) s = Some (b i) \<Longrightarrow> read_number M n a s = Done (horner_sum ucast 256 (map b [0..<n]), s)"
  using read_bytes_mapped [of "[0..<n]" a s b M] by (simp add: read_number_def)

text \<open>A file that does not begin with MZ, or has no PE header where the first header says, is refused before anything is allocated or
  mapped; the view it was looked at with stays.\<close>

lemma foreign_image_refused:
  fixes s V
  defines "B \<equiv> BaseAddress s V"
  assumes "\<forall>i<64. mapped_byte (B + word_of_nat i) s = Some (b i)"
    and "horner_sum ucast 256 [b 0, b 1] \<noteq> (0x5A4D :: u64) \<or>
      (let pe = B + horner_sum ucast 256 [b 60, b 61, b 62, b 63] in
       (\<forall>i<4. mapped_byte (pe + word_of_nat i) s = Some (c i)) \<and> horner_sum ucast 256 (map c [0..<4]) \<noteq> (0x4550 :: u64))"
  shows "NnxLdrCreateSectionSubviews M hSection V pModule s = Done (STATUS_INVALID_IMAGE_FORMAT, s)"
proof -
  have m: "read_number M 2 B s = Done (horner_sum ucast 256 [b 0, b 1], s)"
    using read_number_mapped [of 2 B s b M] assms(2) by (simp add: upt_conv_Cons)
  show ?thesis
  proof (cases "horner_sum ucast 256 [b 0, b 1] \<noteq> (0x5A4D :: u64)")
    case True
    then show ?thesis using m by (simp add: NnxLdrCreateSectionSubviews_def B_def [symmetric] Let_def)
  next
    case False
    have "mapped_byte (B + 60 + word_of_nat i) s = Some (b (60 + i))" if "i < 4" for i
      using assms(2) [rule_format, of "60 + i"] that by (simp add: add.assoc)
    then have l: "read_number M 4 (B + 60) s = Done (horner_sum ucast 256 [b 60, b 61, b 62, b 63], s)"
      using read_number_mapped [of 4 "B + 60" s "\<lambda>i. b (60 + i)" M] by (simp add: upt_conv_Cons)
    have "read_number M 4 (B + horner_sum ucast 256 [b 60, b 61, b 62, b 63]) s = Done (horner_sum ucast 256 (map c [0..<4]), s)"
      using read_number_mapped [of 4 _ s c M] assms(3) False by (simp add: Let_def)
    then show ?thesis using m l False assms(3) by (simp add: NnxLdrCreateSectionSubviews_def B_def [symmetric] Let_def)
  qed
qed

end
