(* ===== verification/Preloaded.thy ===== *)
theory Preloaded
  imports FileObjects
begin

text \<open>
  The files the boot loader leaves in memory as a file system, NNXOSKRN/drivers/builtin/fs/preloaded.c, and reading them
  by handle.
\<close>

section \<open>Finding files\<close>

text \<open>The list of PRELOADED_FILE structures, with the Entry at offset 0. Names gives the characters from the beginning of Name on.\<close>

record preloaded =
  KePreloadedHeadPtr :: ptr
  files :: list_heap
  Names :: "ptr \<Rightarrow> nat \<Rightarrow> u16"
  Filesize :: "ptr \<Rightarrow> u64"
  Data :: "ptr \<Rightarrow> ptr"
  content :: "ptr \<Rightarrow> u8"

definition VfsAccessInvalid :: "u64 \<Rightarrow> bytes \<Rightarrow> VFS_STATUS" where
  "VfsAccessInvalid s b = 0xFFFF0003"

text \<open>A WCHAR has no sign, a char has one.\<close>

partial_function (option) matches_loop :: "(nat \<Rightarrow> u16) \<Rightarrow> cstr \<Rightarrow> nat \<Rightarrow> bool option" where
  "matches_loop wideName asciiName i =
     (if wideName i \<noteq> 0 \<and> asciiName i \<noteq> 0 \<and> uint (wideName i) = sint (asciiName i) then matches_loop wideName asciiName (Suc i)
      else Some (wideName i = 0 \<and> asciiName i = 0))"

definition GetNameMatches :: "(nat \<Rightarrow> u16) \<Rightarrow> cstr \<Rightarrow> bool outcome" where
  "GetNameMatches wideName asciiName = (case matches_loop wideName asciiName 0 of None \<Rightarrow> Hang | Some r \<Rightarrow> Done r)"

partial_function (option) get_file_loop :: "preloaded \<Rightarrow> cstr \<Rightarrow> ptr \<Rightarrow> ptr outcome option" where
  "get_file_loop P path pCurrent =
     (if pCurrent = KePreloadedHeadPtr P then Some (Done NULL)
      else next_step (GetNameMatches (Names P pCurrent) path) (\<lambda>ok.
        if ok then Some (Done pCurrent) else get_file_loop P path (flink (files P) pCurrent)))"

definition PreloadedGetFile :: "preloaded \<Rightarrow> cstr \<Rightarrow> ptr outcome" where
  "PreloadedGetFile P path = run_loop (get_file_loop P path (flink (files P) (KePreloadedHeadPtr P)))"

section \<open>The operations of the file system\<close>

definition PreloadedCheckIfFileExists :: "preloaded \<Rightarrow> cstr \<Rightarrow> bool outcome" where
  "PreloadedCheckIfFileExists P path = obind (PreloadedGetFile P path) (\<lambda>f. Done (f \<noteq> NULL))"

text \<open>Neither the file nor the allocation is tested.\<close>

definition PreloadedOpenFile :: "preloaded \<Rightarrow> bool \<times> bool \<times> bool \<Rightarrow> cstr \<Rightarrow> VFS_FILE option outcome" where
  "PreloadedOpenFile P got path =
     obind (PreloadedGetFile P path) (\<lambda>f.
     case VfsAllocateVfsFile got path of
       None \<Rightarrow> Fault
     | Some file \<Rightarrow> if f = NULL then Fault else Done (Some (file\<lparr>FileSize := Filesize P f\<rparr>)))"

definition PreloadedOpenOrCreateFile :: "preloaded \<Rightarrow> bool \<times> bool \<times> bool \<Rightarrow> cstr \<Rightarrow> VFS_FILE option outcome" where
  "PreloadedOpenOrCreateFile P got path = PreloadedOpenFile P got path"

text \<open>There are no range checks. The result is the status, the buffer and the file with its new pointer.\<close>

definition PreloadedReadFile :: "preloaded \<Rightarrow> VFS_FILE \<Rightarrow> u64 \<Rightarrow> bytes \<Rightarrow> (VFS_STATUS \<times> bytes \<times> VFS_FILE) outcome" where
  "PreloadedReadFile P file n buffer =
     obind (PreloadedGetFile P (FPath file)) (\<lambda>f.
     if f = NULL \<or> n > 0x7FFFFFFF then Fault
     else Done (STATUS_SUCCESS,
       (\<lambda>i. if i < unat n then content P (Data P f + Vfs.FilePointer file + word_of_nat i) else buffer i),
       file\<lparr>Vfs.FilePointer := Vfs.FilePointer file + n\<rparr>))"

abbreviation (input) VFS_ERR_READONLY :: VFS_STATUS where "VFS_ERR_READONLY \<equiv> 0xFFFF0009"

definition PreloadedDeleteFile :: "VFS_FILE \<Rightarrow> VFS_STATUS" where "PreloadedDeleteFile file = VFS_ERR_READONLY"
definition PreloadedDeleteAndCloseFile :: "VFS_FILE \<Rightarrow> VFS_STATUS" where "PreloadedDeleteAndCloseFile file = VFS_ERR_READONLY"
definition PreloadedCreateFile :: "cstr \<Rightarrow> VFS_STATUS" where "PreloadedCreateFile path = VFS_ERR_READONLY"
definition PreloadedRecreateDeletedFile :: "VFS_FILE \<Rightarrow> VFS_STATUS" where "PreloadedRecreateDeletedFile file = VFS_ERR_READONLY"
definition PreloadedAppendFile :: "VFS_FILE \<Rightarrow> u64 \<Rightarrow> bytes \<Rightarrow> VFS_STATUS" where "PreloadedAppendFile file n buffer = VFS_ERR_READONLY"
definition PreloadedResizeFile :: "VFS_FILE \<Rightarrow> u64 \<Rightarrow> VFS_STATUS" where "PreloadedResizeFile file n = VFS_ERR_READONLY"
definition PreloadedWriteFile :: "VFS_FILE \<Rightarrow> u64 \<Rightarrow> bytes \<Rightarrow> VFS_STATUS" where "PreloadedWriteFile file n buffer = VFS_ERR_READONLY"
definition PreloadedCreateDirectory :: "cstr \<Rightarrow> VFS_STATUS" where "PreloadedCreateDirectory path = VFS_ERR_READONLY"
definition PreloadedMoveFile :: "cstr \<Rightarrow> cstr \<Rightarrow> VFS_STATUS" where "PreloadedMoveFile oldPath newPath = VFS_ERR_READONLY"
definition PreloadedRenameFile :: "VFS_FILE \<Rightarrow> cstr \<Rightarrow> VFS_STATUS" where "PreloadedRenameFile file newName = VFS_ERR_READONLY"

text \<open>access is the address of VfsAccessInvalid, functionSet that of the local table.\<close>

definition KeInitPreloadedFilesystem :: "preloaded \<Rightarrow> ptr \<Rightarrow> ptr \<Rightarrow> vfs_entry list \<Rightarrow> NTSTATUS \<times> vfs_entry list" where
  "KeInitPreloadedFilesystem P access functionSet t =
     (if KePreloadedHeadPtr P = NULL then (STATUS_NOT_SUPPORTED, t)
      else (STATUS_SUCCESS, snd (VfsRegister (- 1) access access functionSet t)))"

text \<open>The functions as file objects call them.\<close>

definition preloaded_functions :: "preloaded \<Rightarrow> bool \<times> bool \<times> bool \<Rightarrow> volume_functions" where
  "preloaded_functions P got =
     \<lparr>VOpenFile = (\<lambda>v path. obind (PreloadedOpenFile P got path) (\<lambda>f. Done (f, v))),
      VReadFile = (\<lambda>f n buffer v. case f of None \<Rightarrow> Fault
        | Some f \<Rightarrow> obind (PreloadedReadFile P f n buffer) (\<lambda>(st, buffer, f). Done (st, buffer, Some f, v)))\<rparr>"

section \<open>Which file a path names\<close>

definition same_name :: "(nat \<Rightarrow> u16) \<Rightarrow> cstr \<Rightarrow> bool" where
  "same_name w c = (\<exists>n. w n = 0 \<and> c n = 0 \<and> (\<forall>i<n. c i \<noteq> 0 \<and> uint (w i) = sint (c i)))"

lemma same_name_at:
  assumes "\<forall>j<i. c j \<noteq> 0 \<and> uint (w j) = sint (c j)"
  shows "same_name w c = (\<exists>n\<ge>i. w n = 0 \<and> c n = 0 \<and> (\<forall>j<n. c j \<noteq> 0 \<and> uint (w j) = sint (c j)))"
proof -
  have "i \<le> n" if "c n = 0" for n using assms that by (meson not_le)
  then show ?thesis unfolding same_name_def by auto
qed

lemma matches_loop_same:
  assumes "c n = 0" "i \<le> n" "\<forall>j<i. c j \<noteq> 0 \<and> uint (w j) = sint (c j)"
  shows "matches_loop w c i = Some (same_name w c)"
  using assms(2,3)
proof (induction "n - i" arbitrary: i rule: less_induct)
  case less
  show ?case
  proof (cases "w i \<noteq> 0 \<and> c i \<noteq> 0 \<and> uint (w i) = sint (c i)")
    case True
    then have "i < n" using less.prems assms(1) by (metis nat_less_le)
    then have "matches_loop w c (Suc i) = Some (same_name w c)"
      using less.hyps [of "Suc i"] less.prems(2) True by (auto simp: less_Suc_eq)
    then show ?thesis using True by (subst matches_loop.simps) simp
  next
    case False
    have "same_name w c = (w i = 0 \<and> c i = 0)"
    proof
      assume "same_name w c"
      then obtain m where m: "i \<le> m" "w m = 0" "c m = 0" "\<forall>j<m. c j \<noteq> 0 \<and> uint (w j) = sint (c j)"
        using same_name_at [OF less.prems(2)] by blast
      moreover have "i = m"
      proof (rule ccontr)
        assume "i \<noteq> m"
        then have "c i \<noteq> 0" "uint (w i) = sint (c i)" using m by auto
        then show False using False signed_eq_0_iff [of "c i"] by auto
      qed
      ultimately show "w i = 0 \<and> c i = 0" by simp
    qed (use less.prems in \<open>auto simp: same_name_def\<close>)
    then show ?thesis using False by (subst matches_loop.simps) auto
  qed
qed

lemma GetNameMatches_same: "c n = 0 \<Longrightarrow> GetNameMatches w c = Done (same_name w c)"
  using matches_loop_same [of c n 0 w] by (simp add: GetNameMatches_def)

lemma get_file_loop_find:
  assumes "path n = 0" "is_list (files P) (KePreloadedHeadPtr P) (xs @ ys)"
  shows "get_file_loop P path (hd (ys @ [KePreloadedHeadPtr P])) =
    Some (Done (case List.find (\<lambda>f. same_name (Names P f) path) ys of None \<Rightarrow> NULL | Some f \<Rightarrow> f))"
  using assms(2)
proof (induction ys arbitrary: xs)
  case Nil
  show ?case by (subst get_file_loop.simps) simp
next
  case (Cons f ys)
  let ?h = "KePreloadedHeadPtr P"
  have "f \<noteq> ?h" using Cons.prems by (auto simp: is_list_def)
  moreover have "flink (files P) f = hd (ys @ [?h])"
    using Cons.prems links_first [of "files P" f ys ?h] by (auto simp: is_list_def links_append hd_append)
  ultimately show ?case
    using Cons.IH [of "xs @ [f]"] Cons.prems GetNameMatches_same [of path n, OF assms(1)] by (subst get_file_loop.simps) simp
qed

lemma PreloadedGetFile_find:
  assumes "path n = 0" "is_list (files P) (KePreloadedHeadPtr P) fs"
  shows "PreloadedGetFile P path = Done (case List.find (\<lambda>f. same_name (Names P f) path) fs of None \<Rightarrow> NULL | Some f \<Rightarrow> f)"
  using get_file_loop_find [of path n P "[]" fs, OF assms(1)] assms(2) is_list_first [OF assms(2)]
  by (simp add: PreloadedGetFile_def run_loop_def split: if_splits)

text \<open>Opening a file that is not there follows a NULL pointer.\<close>

lemma PreloadedOpenFile_missing:
  assumes "path n = 0" "is_list (files P) (KePreloadedHeadPtr P) fs" "\<forall>f\<in>set fs. \<not> same_name (Names P f) path"
  shows "PreloadedOpenFile P got path = Fault"
proof -
  have "List.find (\<lambda>f. same_name (Names P f) path) fs = None" using assms(3) by (auto simp: find_None_iff)
  then show ?thesis using PreloadedGetFile_find [of path n P fs, OF assms(1,2)] by (simp add: PreloadedOpenFile_def split: option.split)
qed

section \<open>Properties\<close>

text \<open>C31: reading a preloaded file by handle. The file is the first one of the list with the name in its path; n bytes are
  copied from where it lies in memory plus the offset, and the answer is STATUS_SUCCESS with n bytes, whatever the size of the file is:
  behind its end the bytes are those of the memory that follows, and there is no end of file.\<close>

theorem NtReadFile_preloaded:
  assumes "leads_to h i s" "pFile s (SharedFileObject s i) = Some f" "fs_functions s = preloaded_functions P got"
    and "is_list (files P) (KePreloadedHeadPtr P) fs" "FPath f k = 0" "List.find (\<lambda>f'. same_name (Names P f') (FPath f)) fs = Some g"
    and "g \<noteq> NULL" "n \<le> 0x7FFFFFFF"
  shows "NtReadFile M h block buf n off s = Done ((STATUS_SUCCESS, \<lparr>IoStatus = STATUS_SUCCESS, Information = ucast n\<rparr>,
      (\<lambda>j. if j < unat n then content P (Data P g + off + word_of_nat j) else buf j)),
    s\<lparr>pFile := (pFile s)(SharedFileObject s i := Some (f\<lparr>Vfs.FilePointer := off + ucast n\<rparr>))\<rparr>)"
proof -
  have u: "unat (ucast n :: u64) = unat n" by (simp add: unsigned_ucast_eq take_bit_nat_eq_self unat_bound less_le_trans [OF unat_bound])
  then have "ucast n \<le> (0x7FFFFFFF :: u64)" using assms(8) by (simp add: word_le_nat_alt)
  then have "VReadFile (fs_functions s) (Some (f\<lparr>Vfs.FilePointer := off\<rparr>)) (ucast n) buf (volume s) =
      Done (STATUS_SUCCESS, (\<lambda>j. if j < unat n then content P (Data P g + off + word_of_nat j) else buf j),
        Some (f\<lparr>Vfs.FilePointer := off + ucast n\<rparr>), volume s)"
    using PreloadedGetFile_find [of "FPath f" k P fs] assms(4-7)
    by (simp add: assms(3) preloaded_functions_def PreloadedReadFile_def u not_less fun_eq_iff)
  from NtReadFile_eq [OF assms(1,2) this] show ?thesis by simp
qed

text \<open>The file 0x6058 of io_sys, whose size is 10, as a preloaded file with an empty name at 0x900000, where each byte is that of its address.\<close>

definition one_preloaded :: preloaded where
  "one_preloaded = \<lparr>KePreloadedHeadPtr = 0x500,
     files = \<lparr>flink = (\<lambda>_. 0)(0x500 := 0x600, 0x600 := 0x500), blink = (\<lambda>_. 0)(0x500 := 0x600, 0x600 := 0x500)\<rparr>,
     Names = (\<lambda>_ _. 0), Filesize = (\<lambda>_. 10), Data = (\<lambda>_. 0x900000), content = ucast\<rparr>"

lemma leads_to_functions: "leads_to h obj (s\<lparr>fs_functions := x\<rparr>) = leads_to h obj (s :: 'z fsys_scheme)"
  by (simp add: leads_to_def handles_idle_def calm_def ObpGetHandleDatabaseHead_def ObGetHandleDatabaseEntryFromHandle_def entry_object_def)

theorem NtReadFile_preloaded_witness:
  "\<forall>M buf. \<exists>buf' s. NtReadFile M 1 \<lparr>IoStatus = 7, Information = 7\<rparr> buf 4 20 (io_sys\<lparr>fs_functions := preloaded_functions one_preloaded (True, True, True)\<rparr>) =
     Done ((STATUS_SUCCESS, \<lparr>IoStatus = STATUS_SUCCESS, Information = 4\<rparr>, buf'), s) \<and> buf' 0 = 20 \<and> buf' 3 = 23"
proof (intro allI)
  fix M and buf :: bytes
  let ?s = "io_sys\<lparr>fs_functions := preloaded_functions one_preloaded (True, True, True)\<rparr>"
  let ?f = "\<lparr>FName = (\<lambda>_. 0), FPath = (\<lambda>_. 0), FilePointer = 0, FileSize = 10\<rparr> :: VFS_FILE"
  have l: "leads_to 1 0x5058 ?s" using io_leads by (simp add: leads_to_functions)
  have f: "pFile ?s (SharedFileObject ?s 0x5058) = Some ?f" "fs_functions ?s = preloaded_functions one_preloaded (True, True, True)"
    by (simp_all add: io_sys_fields)
  have p: "is_list (files one_preloaded) (KePreloadedHeadPtr one_preloaded) [0x600]" by (simp add: one_preloaded_def is_list_def)
  have g: "List.find (\<lambda>f'. same_name (Names one_preloaded f') (FPath ?f)) [0x600] = Some 0x600"
    by (auto simp: one_preloaded_def same_name_def)
  have d: "FPath ?f 0 = 0" "Data one_preloaded 0x600 = 0x900000" "content one_preloaded = ucast" by (simp_all add: one_preloaded_def)
  from NtReadFile_preloaded [OF l f p d(1) g, of 4 M "\<lparr>IoStatus = 7, Information = 7\<rparr>" buf 20]
  show "\<exists>buf' s. NtReadFile M 1 \<lparr>IoStatus = 7, Information = 7\<rparr> buf 4 20 ?s =
     Done ((STATUS_SUCCESS, \<lparr>IoStatus = STATUS_SUCCESS, Information = 4\<rparr>, buf'), s) \<and> buf' 0 = 20 \<and> buf' 3 = 23"
    by (simp add: d(2,3))
qed

end
