(* ===== verification/Gdi.thy ===== *)
theory Gdi
  imports Irql "HOL-Library.Signed_Division"
begin

text \<open>
  The graphics objects of NNXOSKRN/gdi: the table of handles (object.c), regions and their combination (region.c),
  brushes (brush.c), device contexts (dc.c) and display devices (device.c). The pool is a list of the
  results of the next allocations, NULL when it is used up; memory that was allocated holds what it held before.
  Drawing into the frame buffer is at the end of region.c.
\<close>

section \<open>State\<close>

record RECT =
  rleft :: u32
  rtop :: u32
  rright :: u32
  rbottom :: u32

abbreviation (input) GDI_LOCKED_OBJECT :: ptr where "GDI_LOCKED_OBJECT \<equiv> -1"
abbreviation (input) GDI_OBJECT_DC_TYPE :: u32 where "GDI_OBJECT_DC_TYPE \<equiv> 0"
abbreviation (input) GDI_OBJECT_REGION_TYPE :: u32 where "GDI_OBJECT_REGION_TYPE \<equiv> 1"
abbreviation (input) GDI_OBJECT_BRUSH_TYPE :: u32 where "GDI_OBJECT_BRUSH_TYPE \<equiv> 2"
abbreviation (input) GDI_OBJECT_DEVICE_TYPE :: u32 where "GDI_OBJECT_DEVICE_TYPE \<equiv> 7"
abbreviation (input) ERROR_REGION :: u32 where "ERROR_REGION \<equiv> 0"
abbreviation (input) NULLREGION :: u32 where "NULLREGION \<equiv> 1"
abbreviation (input) SIMPLEREGION :: u32 where "SIMPLEREGION \<equiv> 2"
abbreviation (input) COMPLEXREGION :: u32 where "COMPLEXREGION \<equiv> 3"

text \<open>The only destructor is GdiComplexRegionDestructor. A rectangular region keeps its Rect and a complex one its
  BoundingBox at the same place.\<close>

record gdi =
  gcpu :: cpu
  ObjectDatabase :: "ptr list"
  ObjectDatabaseLock :: KSPIN_LOCK
  PoolBlocks :: "ptr list"
  FreedBlocks :: "ptr list"
  ObjType :: "ptr \<Rightarrow> u32"
  SelfHandle :: "ptr \<Rightarrow> ptr"
  Destructor :: "ptr \<Rightarrow> bool"
  ObjLock :: "ptr \<Rightarrow> KSPIN_LOCK"
  RegionType :: "ptr \<Rightarrow> u32"
  RgnRect :: "ptr \<Rightarrow> RECT"
  RgnData :: "ptr \<Rightarrow> ptr"
  bytes :: "ptr \<Rightarrow> u8"
  lbStyle :: "ptr \<Rightarrow> u32"
  lbColor :: "ptr \<Rightarrow> u32"
  lbHatch :: "ptr \<Rightarrow> u64"
  dcWords :: "ptr \<Rightarrow> nat \<Rightarrow> u64"
  dheap :: list_heap
  GdiDisplayDevicesHead :: ptr
  GdiDisplayDevicesLock :: KSPIN_LOCK
  DeviceName :: "ptr \<Rightarrow> nat \<Rightarrow> u16"
  GenericGdiDisplayDevice :: ptr
  gFramebuffer :: "u64 \<Rightarrow> u32"
  gPixelsPerScanline :: u32
  gWidth :: u32
  gHeight :: u32

definition ExAllocatePool :: "gdi \<Rightarrow> ptr \<times> gdi" where
  "ExAllocatePool s = (case PoolBlocks s of [] \<Rightarrow> (NULL, s) | p # ps \<Rightarrow> (p, s\<lparr>PoolBlocks := ps\<rparr>))"

definition ExFreePool :: "ptr \<Rightarrow> gdi \<Rightarrow> gdi" where
  "ExFreePool p s = s\<lparr>FreedBlocks := p # FreedBlocks s\<rparr>"

section \<open>The table of objects\<close>

definition lock_db :: "gdi \<Rightarrow> (u8 \<times> gdi) outcome" where
  "lock_db s = obind (KeAcquireSpinLock (ObjectDatabaseLock s) (gcpu s)) (\<lambda>(old, l, c).
     Done (old, s\<lparr>ObjectDatabaseLock := l, gcpu := c\<rparr>))"

definition unlock_db :: "u8 \<Rightarrow> gdi \<Rightarrow> gdi outcome" where
  "unlock_db old s = obind (KeReleaseSpinLock (ObjectDatabaseLock s) old (gcpu s)) (\<lambda>(l, c).
     Done (s\<lparr>ObjectDatabaseLock := l, gcpu := c\<rparr>))"

text \<open>Entry handle - 1; a handle that is too large reads and writes outside the table.\<close>

definition entry_index :: "ptr \<Rightarrow> nat" where "entry_index handle = unat (handle - 1)"

definition read_entry :: "ptr \<Rightarrow> gdi \<Rightarrow> ptr outcome" where
  "read_entry handle s = (if entry_index handle < length (ObjectDatabase s) then Done (ObjectDatabase s ! entry_index handle) else Fault)"

definition write_entry :: "ptr \<Rightarrow> ptr \<Rightarrow> gdi \<Rightarrow> gdi outcome" where
  "write_entry handle object s = (if entry_index handle < length (ObjectDatabase s)
     then Done (s\<lparr>ObjectDatabase := (ObjectDatabase s)[entry_index handle := object]\<rparr>) else Fault)"

definition GdiUnlockHandle :: "ptr \<Rightarrow> ptr \<Rightarrow> gdi \<Rightarrow> (NTSTATUS \<times> gdi) outcome" where
  "GdiUnlockHandle handle object s =
     (if handle = NULL \<or> object = GDI_LOCKED_OBJECT then Done (STATUS_INVALID_PARAMETER, s)
      else obind (lock_db s) (\<lambda>(old, s).
      obind (read_entry handle s) (\<lambda>e.
      if e \<noteq> GDI_LOCKED_OBJECT then obind (unlock_db old s) (\<lambda>s. Done (STATUS_INVALID_PARAMETER, s))
      else obind (write_entry handle object s) (\<lambda>s. obind (unlock_db old s) (\<lambda>s. Done (STATUS_SUCCESS, s))))))"

text \<open>The loop waits for another thread to unlock the handle; when none does it never ends.\<close>

definition GdiLockHandle :: "ptr \<Rightarrow> gdi \<Rightarrow> (ptr \<times> gdi) outcome" where
  "GdiLockHandle handle s =
     (if handle = NULL then Done (NULL, s)
      else obind (lock_db s) (\<lambda>(old, s).
      obind (read_entry handle s) (\<lambda>result.
      if result = GDI_LOCKED_OBJECT then Hang
      else obind (write_entry handle GDI_LOCKED_OBJECT s) (\<lambda>s. obind (unlock_db old s) (\<lambda>s. Done (result, s))))))"

definition GdiComplexRegionDestructor :: "ptr \<Rightarrow> gdi \<Rightarrow> gdi" where
  "GdiComplexRegionDestructor self s = (if RgnData s self \<noteq> NULL then ExFreePool (RgnData s self) s else s)"

definition GdiFreeObject :: "ptr \<Rightarrow> gdi \<Rightarrow> gdi" where
  "GdiFreeObject pObject s =
     (if pObject = NULL then s
      else let s = (if Destructor s pObject then GdiComplexRegionDestructor pObject s else s) in ExFreePool pObject s)"

definition GdiDestroy :: "ptr \<Rightarrow> gdi \<Rightarrow> gdi outcome" where
  "GdiDestroy handle s =
     (if handle = NULL then Done s
      else obind (GdiLockHandle handle s) (\<lambda>(pObj, s).
        obind (GdiUnlockHandle handle NULL (if pObj \<noteq> NULL then GdiFreeObject pObj s else s)) (\<lambda>(_, s). Done s)))"

text \<open>The lock is taken and released for each entry. Writing to an object at NULL faults.\<close>

fun register_loop :: "ptr \<Rightarrow> nat list \<Rightarrow> gdi \<Rightarrow> (ptr \<times> gdi) outcome" where
  "register_loop pObject [] s = Done (NULL, s)"
| "register_loop pObject (i # js) s =
     obind (lock_db s) (\<lambda>(old, s).
     if ObjectDatabase s ! i = NULL
     then if pObject = NULL then Fault
          else let s = s\<lparr>ObjectDatabase := (ObjectDatabase s)[i := pObject], SelfHandle := (SelfHandle s)(pObject := word_of_nat (i + 1)),
                   ObjLock := (ObjLock s)(pObject := KeInitializeSpinLock (ObjLock s pObject))\<rparr>
               in obind (unlock_db old s) (\<lambda>s. Done (word_of_nat (i + 1), s))
     else obind (unlock_db old s) (register_loop pObject js))"

definition GdiRegisterObject :: "ptr \<Rightarrow> gdi \<Rightarrow> (ptr \<times> gdi) outcome" where
  "GdiRegisterObject pObject s = register_loop pObject [0..<length (ObjectDatabase s)] s"

definition GdiCreateObject :: "u32 \<Rightarrow> gdi \<Rightarrow> ptr \<times> gdi" where
  "GdiCreateObject ty s = (let (object, s) = ExAllocatePool s in
     if object = NULL then (NULL, s)
     else (object, s\<lparr>ObjType := (ObjType s)(object := ty), Destructor := (Destructor s)(object := False),
            ObjLock := (ObjLock s)(object := KeInitializeSpinLock (ObjLock s object))\<rparr>))"

definition clear_entry :: "ptr \<Rightarrow> gdi \<Rightarrow> gdi outcome" where
  "clear_entry handle s = obind (lock_db s) (\<lambda>(old, s). obind (write_entry handle NULL s) (unlock_db old))"

definition GdiMoveIntoHandle :: "ptr \<Rightarrow> ptr \<Rightarrow> gdi \<Rightarrow> gdi outcome" where
  "GdiMoveIntoHandle Dst Src s =
     (if Dst = NULL \<or> Src = NULL then Done s
      else obind (GdiLockHandle Dst s) (\<lambda>(pObjDst, s).
      obind (GdiLockHandle Src s) (\<lambda>(pObjSrc, s).
      if pObjSrc = NULL then obind (GdiUnlockHandle Dst pObjDst s) (\<lambda>(_, s). Done s)
      else let s = (if pObjDst \<noteq> NULL then GdiFreeObject pObjDst s else s);
               s = s\<lparr>SelfHandle := (SelfHandle s)(pObjSrc := Dst)\<rparr>
           in obind (GdiUnlockHandle Dst pObjSrc s) (\<lambda>(_, s). clear_entry Src s))))"

definition GdiMovePtrIntoHandle :: "ptr \<Rightarrow> ptr \<Rightarrow> gdi \<Rightarrow> gdi outcome" where
  "GdiMovePtrIntoHandle Dst SrcPtr s =
     (if Dst = NULL \<or> SrcPtr = NULL then Done s
      else obind (GdiLockHandle Dst s) (\<lambda>(pObjDst, s).
      let s = (if pObjDst \<noteq> NULL then GdiFreeObject pObjDst s else s);
          s = s\<lparr>SelfHandle := (SelfHandle s)(SrcPtr := Dst)\<rparr>
      in obind (GdiUnlockHandle Dst SrcPtr s) (\<lambda>(_, s).
         obind (lock_db s) (\<lambda>(old, s).
         let Src = SelfHandle s SrcPtr
         in obind (if Src \<noteq> NULL then write_entry Src NULL s else Done s) (unlock_db old)))))"

section \<open>Brushes and device contexts\<close>

definition GdiCreateBrushIndirect :: "(u32 \<times> u32 \<times> u64) option \<Rightarrow> gdi \<Rightarrow> (ptr \<times> gdi) outcome" where
  "GdiCreateBrushIndirect logBrush s = (case logBrush of None \<Rightarrow> Done (NULL, s)
     | Some (st, color, hatch) \<Rightarrow>
       let (brush, s) = GdiCreateObject GDI_OBJECT_BRUSH_TYPE s in
       if brush = NULL then Done (NULL, s)
       else let s = s\<lparr>lbColor := (lbColor s)(brush := color), lbHatch := (lbHatch s)(brush := hatch), lbStyle := (lbStyle s)(brush := st)\<rparr>
         in obind (GdiRegisterObject brush s) (\<lambda>(hBrush, s). Done (hBrush, if hBrush = NULL then GdiFreeObject brush s else s)))"

text \<open>lbHatch of the local structure is not initialised; BS_SOLID is 0.\<close>

definition GdiCreateSolidBrush :: "u64 \<Rightarrow> u32 \<Rightarrow> gdi \<Rightarrow> (ptr \<times> gdi) outcome" where
  "GdiCreateSolidBrush uninitialised color s = GdiCreateBrushIndirect (Some (0, color, uninitialised)) s"

text \<open>A GDI_DC has no object header: its first handles hBrush, hBitmap, hPalette and hFont lie where
  GdiCreateObject and GdiRegisterObject keep Type, SelfHandle, Destructor and Lock. The handles from hPath on are dcWords.\<close>

definition GdiCreateDC :: "gdi \<Rightarrow> (ptr \<times> gdi) outcome" where
  "GdiCreateDC s =
     (let (dc, s) = GdiCreateObject GDI_OBJECT_DC_TYPE s in
      if dc = NULL then Done (NULL, s)
      else let s = s\<lparr>SelfHandle := (SelfHandle s)(dc := NULL), ObjType := (ObjType s)(dc := 0), ObjLock := (ObjLock s)(dc := 0),
                 Destructor := (Destructor s)(dc := False), dcWords := (dcWords s)(dc := \<lambda>_. NULL)\<rparr>
           in obind (GdiRegisterObject dc s) (\<lambda>(hdc, s). Done (hdc, if hdc = NULL then GdiFreeObject dc s else s)))"

definition dc_hBitmap :: "gdi \<Rightarrow> ptr \<Rightarrow> ptr" where "dc_hBitmap s dc = SelfHandle s dc"

section \<open>Creating regions\<close>

definition GdiCreateEmptyRgnPtr :: "gdi \<Rightarrow> ptr \<times> gdi" where
  "GdiCreateEmptyRgnPtr s = (let (region, s) = GdiCreateObject GDI_OBJECT_REGION_TYPE s in
     if region = NULL then (NULL, s) else (region, s\<lparr>RegionType := (RegionType s)(region := NULLREGION)\<rparr>))"

definition GdiCreateEmptyRgn :: "gdi \<Rightarrow> (ptr \<times> gdi) outcome" where
  "GdiCreateEmptyRgn s = (let (region, s) = GdiCreateEmptyRgnPtr s in
     if region = NULL then Done (NULL, s)
     else obind (GdiRegisterObject region s) (\<lambda>(h, s). Done (h, if h = NULL then GdiFreeObject region s else s)))"

text \<open>The rectangle given is tested for NULL, but not stored.\<close>

definition GdiCreateRectRgnPtr :: "RECT option \<Rightarrow> gdi \<Rightarrow> ptr \<times> gdi" where
  "GdiCreateRectRgnPtr rect s = (if rect = None then (NULL, s) else GdiCreateObject GDI_OBJECT_REGION_TYPE s)"

definition GdiCreateRectRgn :: "RECT option \<Rightarrow> gdi \<Rightarrow> (ptr \<times> gdi) outcome" where
  "GdiCreateRectRgn rect s = (let (region, s) = GdiCreateRectRgnPtr rect s in
     if region = NULL then Done (NULL, s)
     else obind (GdiRegisterObject region s) (\<lambda>(h, s).
       if h = NULL then Done (NULL, GdiFreeObject region s)
       else Done (h, s\<lparr>RgnRect := (RgnRect s)(region := the rect), RegionType := (RegionType s)(region := SIMPLEREGION)\<rparr>)))"

text \<open>LONG arithmetic; the result is converted to SIZE_T.\<close>

definition ComplexRegionDataSizeForRect :: "RECT \<Rightarrow> u64" where
  "ComplexRegionDataSizeForRect r = word_of_int (sint ((rbottom r - rtop r) * (rright r - rleft r) + 7) sdiv 8)"

definition GdiCreateComplexRgnPtr :: "RECT option \<Rightarrow> gdi \<Rightarrow> ptr \<times> gdi" where
  "GdiCreateComplexRgnPtr rect s = (case rect of None \<Rightarrow> (NULL, s)
     | Some r \<Rightarrow> if rbottom r \<le>s rtop r \<or> rright r \<le>s rleft r then (NULL, s)
       else let (region, s) = GdiCreateObject GDI_OBJECT_REGION_TYPE s in
         if region = NULL then (NULL, s)
         else let s = s\<lparr>RgnRect := (RgnRect s)(region := r), RegionType := (RegionType s)(region := COMPLEXREGION)\<rparr>;
                  (data, s) = ExAllocatePool s;
                  s = s\<lparr>RgnData := (RgnData s)(region := data)\<rparr>
              in if data = NULL then (NULL, GdiFreeObject region s)
                 else (region, s\<lparr>Destructor := (Destructor s)(region := True)\<rparr>))"

definition GdiCreateComplexRgn :: "RECT option \<Rightarrow> gdi \<Rightarrow> (ptr \<times> gdi) outcome" where
  "GdiCreateComplexRgn rect s = (let (region, s) = GdiCreateComplexRgnPtr rect s in
     obind (GdiRegisterObject region s) (\<lambda>(h, s). if h = NULL then Done (NULL, GdiFreeObject region s) else Done (h, s)))"

section \<open>Intersections\<close>

definition Clamp :: "u32 \<Rightarrow> u32 \<Rightarrow> u32 \<Rightarrow> u32" where
  "Clamp lo v hi = (if v <s lo then lo else if hi <s v then hi else v)"

definition RectAnd :: "RECT \<Rightarrow> RECT \<Rightarrow> RECT" where
  "RectAnd r1 r2 = \<lparr>rleft = Clamp (rleft r1) (rleft r2) (rright r1), rtop = Clamp (rtop r1) (rtop r2) (rbottom r1),
     rright = Clamp (rleft r1) (rright r2) (rright r1), rbottom = Clamp (rtop r1) (rbottom r2) (rbottom r1)\<rparr>"

definition no_area :: "RECT \<Rightarrow> bool" where
  "no_area r = (rright r - rleft r \<le>s 0 \<or> rbottom r - rtop r \<le>s 0)"

definition RegionSimpleAndSimple :: "ptr \<Rightarrow> ptr \<Rightarrow> ptr \<Rightarrow> gdi \<Rightarrow> (u32 \<times> gdi) outcome" where
  "RegionSimpleAndSimple dst src1 src2 s =
     (let result = RectAnd (RgnRect s src1) (RgnRect s src2) in
      if no_area result
      then obind (GdiCreateEmptyRgn s) (\<lambda>(h, s). obind (GdiMoveIntoHandle dst h s) (\<lambda>s. Done (NULLREGION, s)))
      else obind (GdiCreateRectRgn (Some result) s) (\<lambda>(hTmp, s).
        if hTmp = NULL then Done (ERROR_REGION, s)
        else obind (GdiMoveIntoHandle dst hTmp s) (\<lambda>s. Done (SIMPLEREGION, s))))"

text \<open>The coordinates of the loops from a bound up to another.\<close>

definition coords :: "u32 \<Rightarrow> u32 \<Rightarrow> u32 list" where
  "coords a b = map (\<lambda>i. a + word_of_nat i) [0..<nat (sint b - sint a)]"

text \<open>The number of the bit for x and y in the bit map of a rectangle: ULONG arithmetic in a row and up to
  the row, SIZE_T for the sum.\<close>

definition bit_index :: "RECT \<Rightarrow> u32 \<Rightarrow> u32 \<Rightarrow> u64" where
  "bit_index r x y = ucast ((y - rtop r) * (rright r - rleft r)) + ucast (x - rleft r)"

definition get_bit :: "ptr \<Rightarrow> u64 \<Rightarrow> gdi \<Rightarrow> bool" where
  "get_bit data i s = (and (ucast (bytes s (data + drop_bit 3 i))) (push_bit (unat (and i 7)) 1) \<noteq> (0 :: u32))"

text \<open>\<open>Data[i >> 3] &= ~(b << (i & 7))\<close>\<close>

definition clear_bit_if :: "bool \<Rightarrow> ptr \<Rightarrow> u64 \<Rightarrow> gdi \<Rightarrow> gdi" where
  "clear_bit_if b data i s = (let a = data + drop_bit 3 i in
     s\<lparr>bytes := (bytes s)(a := and (bytes s a) (not (push_bit (unat (and i 7)) (of_bool b))))\<rparr>)"

text \<open>The bits of the new region are numbered in the other rectangle src2Rect, not in the intersection its memory is
  for, and emptiness is decided by the byte at the number of the bit.\<close>

definition copy_pixel :: "ptr \<Rightarrow> RECT \<Rightarrow> ptr \<Rightarrow> u32 \<Rightarrow> u32 \<Rightarrow> bool \<times> gdi \<Rightarrow> bool \<times> gdi" where
  "copy_pixel src1 src2Rect pTmp y x es =
     (let (is_empty, s) = es; n = bit_index src2Rect x y; b = get_bit (RgnData s src1) (bit_index (RgnRect s src1) x y) s;
          s = clear_bit_if (\<not> b) (RgnData s pTmp) n s
      in (if bytes s (RgnData s pTmp + n) \<noteq> 0 then False else is_empty, s))"

definition RegionComplexAndRectPtr :: "ptr \<Rightarrow> RECT \<Rightarrow> gdi \<Rightarrow> u32 \<times> ptr option \<times> gdi" where
  "RegionComplexAndRectPtr src1 src2Rect s =
     (let intersection = RectAnd (RgnRect s src1) src2Rect in
      if no_area intersection then let (p, s) = GdiCreateEmptyRgnPtr s in (NULLREGION, Some p, s)
      else let (pTmp, s) = GdiCreateComplexRgnPtr (Some intersection) s in
        if pTmp = NULL then (ERROR_REGION, None, s)
        else let (is_empty, s) = fold (\<lambda>y. fold (copy_pixel src1 src2Rect pTmp y) (coords (rleft intersection) (rright intersection)))
                 (coords (rtop intersection) (rbottom intersection)) (True, s)
          in if is_empty then let (p, s) = GdiCreateEmptyRgnPtr (GdiFreeObject pTmp s) in (NULLREGION, Some p, s)
             else (COMPLEXREGION, Some pTmp, s))"

definition RegionComplexAndSimple :: "ptr \<Rightarrow> ptr \<Rightarrow> ptr \<Rightarrow> gdi \<Rightarrow> (u32 \<times> gdi) outcome" where
  "RegionComplexAndSimple Dst src1 src2 s =
     (case RegionComplexAndRectPtr src1 (RgnRect s src2) s of (result, region, s) \<Rightarrow>
        if result = ERROR_REGION then Done (ERROR_REGION, s)
        else obind (GdiMovePtrIntoHandle Dst (case region of None \<Rightarrow> NULL | Some r \<Rightarrow> r) s) (\<lambda>s. Done (result, s)))"

definition and_bytes :: "ptr \<Rightarrow> ptr \<Rightarrow> nat \<Rightarrow> gdi \<Rightarrow> gdi" where
  "and_bytes d1 d2 i s = s\<lparr>bytes := (bytes s)(d1 + word_of_nat i := and (bytes s (d1 + word_of_nat i)) (bytes s (d2 + word_of_nat i)))\<rparr>"

definition empty_into :: "ptr \<Rightarrow> gdi \<Rightarrow> (u32 \<times> gdi) outcome" where
  "empty_into dst s = (let (p, s) = GdiCreateEmptyRgnPtr s in obind (GdiMovePtrIntoHandle dst p s) (\<lambda>s. Done (NULLREGION, s)))"

text \<open>empty is TRUE and is not changed, so the intersection is dropped.\<close>

definition RegionComplexAndComplex :: "ptr \<Rightarrow> ptr \<Rightarrow> ptr \<Rightarrow> gdi \<Rightarrow> (u32 \<times> gdi) outcome" where
  "RegionComplexAndComplex dst src1 src2 s =
     (case RegionComplexAndRectPtr src1 (RgnRect s src2) s of (result1, r1, s) \<Rightarrow>
      if result1 = ERROR_REGION then Done (ERROR_REGION, s)
      else case RegionComplexAndRectPtr src2 (RgnRect s src1) s of (result2, r2, s) \<Rightarrow>
      let reg1 = the r1 in
      if result2 = ERROR_REGION then Done (ERROR_REGION, GdiFreeObject reg1 s)
      else let reg2 = the r2 in
      if result2 = NULLREGION \<or> result1 = NULLREGION then empty_into dst (GdiFreeObject reg2 (GdiFreeObject reg1 s))
      else if result2 = COMPLEXREGION \<and> result1 = COMPLEXREGION then
        let free_both = GdiFreeObject reg1 (GdiFreeObject reg2 s); n = ComplexRegionDataSizeForRect (RgnRect s reg1) in
        if RgnRect s reg1 \<noteq> RgnRect s reg2 then Done (ERROR_REGION, free_both)
        else if n \<noteq> ComplexRegionDataSizeForRect (RgnRect s reg2) then Done (ERROR_REGION, free_both)
        else let s = fold (and_bytes (RgnData s reg1) (RgnData s reg2)) [0..<unat n] s;
                 s = GdiFreeObject reg2 s; is_empty = True
             in if is_empty then empty_into dst (GdiFreeObject reg1 s)
                else obind (GdiMovePtrIntoHandle dst reg1 s) (\<lambda>s. Done (COMPLEXREGION, s))
      else Done (ERROR_REGION, s))"

definition RegionAnd :: "ptr \<Rightarrow> ptr \<Rightarrow> ptr \<Rightarrow> gdi \<Rightarrow> (u32 \<times> gdi) outcome" where
  "RegionAnd dst src1 src2 s =
     (if RegionType s src1 = NULLREGION \<or> RegionType s src2 = NULLREGION then empty_into dst s
      else let (src1, src2) = (if RegionType s src1 <s RegionType s src2 then (src2, src1) else (src1, src2)) in
      if RegionType s src1 = SIMPLEREGION \<and> RegionType s src2 = SIMPLEREGION then RegionSimpleAndSimple dst src1 src2 s
      else if RegionType s src1 = COMPLEXREGION \<and> RegionType s src2 = SIMPLEREGION then RegionComplexAndSimple dst src1 src2 s
      else if RegionType s src1 = COMPLEXREGION \<and> RegionType s src2 = COMPLEXREGION then RegionComplexAndComplex dst src1 src2 s
      else Done (ERROR_REGION, s))"

section \<open>Differences\<close>

definition set_rgn_bytes :: "bool \<Rightarrow> ptr \<Rightarrow> ptr \<Rightarrow> nat \<Rightarrow> gdi \<Rightarrow> gdi" where
  "set_rgn_bytes simple d src i s = s\<lparr>bytes := (bytes s)(d + word_of_nat i := (if simple then 0xFF else bytes s (src + word_of_nat i)))\<rparr>"

definition remove_pixel :: "ptr \<Rightarrow> ptr \<Rightarrow> u32 \<Rightarrow> u32 \<Rightarrow> bool \<times> gdi \<Rightarrow> bool \<times> gdi" where
  "remove_pixel copy src2 y x es =
     (let (is_empty, s) = es; n = bit_index (RgnRect s copy) x y;
          b = (if RegionType s src2 = COMPLEXREGION then get_bit (RgnData s src2) (bit_index (RgnRect s src2) x y) s else True);
          s = clear_bit_if b (RgnData s copy) n s
      in (if bytes s (RgnData s copy + n) \<noteq> 0 then False else is_empty, s))"

text \<open>empty starts as FALSE and is only ever set to FALSE.\<close>

definition RegionComplexCopyDiff :: "ptr \<Rightarrow> ptr \<Rightarrow> ptr \<Rightarrow> gdi \<Rightarrow> (u32 \<times> gdi) outcome" where
  "RegionComplexCopyDiff dst src1 src2 s =
     (let (copy, s) = GdiCreateComplexRgnPtr (Some (RgnRect s src1)) s in
      if copy = NULL then Done (ERROR_REGION, s)
      else obind (GdiLockHandle dst s) (\<lambda>(pDstObj, s).
      let s = GdiFreeObject pDstObj s;
          s = s\<lparr>SelfHandle := (SelfHandle s)(copy := dst)\<rparr>;
          s = fold (set_rgn_bytes (RegionType s src1 = SIMPLEREGION) (RgnData s copy) (RgnData s src1))
                [0..<unat (ComplexRegionDataSizeForRect (RgnRect s copy))] s;
          intersection = RectAnd (RgnRect s copy) (RgnRect s src2);
          (is_empty, s) = fold (\<lambda>y. fold (remove_pixel copy src2 y) (coords (rleft intersection) (rright intersection)))
                 (coords (rtop intersection) (rbottom intersection)) (False, s)
      in if \<not> is_empty then obind (GdiUnlockHandle dst copy s) (\<lambda>(_, s). Done (COMPLEXREGION, s))
         else let s = GdiFreeObject copy s; (p, s) = GdiCreateEmptyRgnPtr s
              in obind (GdiUnlockHandle dst p s) (\<lambda>(_, s). Done (NULLREGION, s))))"

definition copy_byte :: "ptr \<Rightarrow> ptr \<Rightarrow> nat \<Rightarrow> gdi \<Rightarrow> gdi" where
  "copy_byte d src i s = s\<lparr>bytes := (bytes s)(d + word_of_nat i := bytes s (src + word_of_nat i))\<rparr>"

text \<open>The new object is not put under the handle, which stays locked. Without memory for a complex region the code
  goes on with a NULL pointer.\<close>

definition RegionCopy :: "ptr \<Rightarrow> ptr \<Rightarrow> gdi \<Rightarrow> (u32 \<times> gdi) outcome" where
  "RegionCopy dst src s =
     obind (GdiLockHandle dst s) (\<lambda>(pDstObj, s).
     let ty = RegionType s src in
     obind (if ty = NULLREGION then Done (GdiCreateEmptyRgnPtr s)
            else if ty = SIMPLEREGION then Done (GdiCreateRectRgnPtr (Some (RgnRect s src)) s)
            else if ty = COMPLEXREGION then
              (let (p, s) = GdiCreateComplexRgnPtr (Some (RgnRect s src)) s; n = unat (ComplexRegionDataSizeForRect (RgnRect s src)) in
               if p = NULL then (if n = 0 then Done (p, s) else Fault)
               else Done (p, fold (copy_byte (RgnData s p) (RgnData s src)) [0..<n] s))
            else Done (NULL, s)) (\<lambda>(pNewObj, s).
     if pNewObj \<noteq> NULL then Done (RegionType s src, GdiFreeObject pDstObj s)
     else obind (GdiUnlockHandle dst pDstObj s) (\<lambda>(_, s). Done (ERROR_REGION, s))))"

definition RegionDiff :: "ptr \<Rightarrow> ptr \<Rightarrow> ptr \<Rightarrow> gdi \<Rightarrow> (u32 \<times> gdi) outcome" where
  "RegionDiff dst src1 src2 s =
     (if RegionType s src2 = ERROR_REGION \<or> RegionType s src1 = ERROR_REGION then Done (ERROR_REGION, s)
      else if RegionType s src1 = NULLREGION then RegionCopy dst src2 s
      else if RegionType s src2 = NULLREGION then RegionCopy dst src1 s
      else if RegionType s src1 = SIMPLEREGION \<or> RegionType s src1 = COMPLEXREGION then RegionComplexCopyDiff dst src1 src2 s
      else Done (ERROR_REGION, s))"

text \<open>RGN_AND is 1 and RGN_DIFF is 4; the other modes are not implemented.\<close>

definition GdiCombineRgn :: "ptr \<Rightarrow> ptr \<Rightarrow> ptr \<Rightarrow> u32 \<Rightarrow> gdi \<Rightarrow> (u32 \<times> gdi) outcome" where
  "GdiCombineRgn hRgnDst hRgnSrc1 hRgnSrc2 iMode s =
     (if hRgnDst = NULL then Done (ERROR_REGION, s)
      else obind (GdiLockHandle hRgnSrc1 s) (\<lambda>(src1, s).
      obind (GdiLockHandle hRgnSrc2 s) (\<lambda>(src2, s).
      obind (if src1 = NULL \<or> src2 = NULL then Done (ERROR_REGION, s)
             else if iMode = 1 then RegionAnd hRgnDst src1 src2 s
             else if iMode = 4 then RegionDiff hRgnDst src1 src2 s
             else Done (ERROR_REGION, s)) (\<lambda>(result, s).
      obind (GdiUnlockHandle hRgnSrc1 src1 s) (\<lambda>(_, s).
      obind (GdiUnlockHandle hRgnSrc2 src2 s) (\<lambda>(_, s). Done (result, s)))))))"

section \<open>Display devices\<close>

definition DeviceEntry :: "ptr \<Rightarrow> ptr" where "DeviceEntry d = d + 96"
definition device_of_entry :: "ptr \<Rightarrow> ptr" where "device_of_entry e = e - 96"

text \<open>Strings of WCHARs as functions of the position; equal pointers are tested before.\<close>

partial_function (option) wsz_equal :: "(nat \<Rightarrow> u16) \<Rightarrow> (nat \<Rightarrow> u16) \<Rightarrow> nat \<Rightarrow> bool option" where
  "wsz_equal a b i = (if a i \<noteq> 0 \<and> b i \<noteq> 0 then if a i \<noteq> b i then Some False else wsz_equal a b (Suc i) else Some (a i = b i))"

definition CheckWszsEqual :: "(nat \<Rightarrow> u16) option \<Rightarrow> (nat \<Rightarrow> u16) \<Rightarrow> bool option" where
  "CheckWszsEqual wsz1 wsz2 = (case wsz1 of None \<Rightarrow> Some False | Some a \<Rightarrow> wsz_equal a wsz2 0)"

partial_function (option) open_loop :: "(nat \<Rightarrow> u16) option \<Rightarrow> ptr \<Rightarrow> gdi \<Rightarrow> ptr outcome option" where
  "open_loop wszName current s =
     (if current = GdiDisplayDevicesHead s then Some (Done NULL)
      else let d = device_of_entry current in
        case KeAcquireSpinLockAtDpcLevel (ObjLock s d) (gcpu s) of
          Done l \<Rightarrow> (case CheckWszsEqual wszName (DeviceName s d) of
              None \<Rightarrow> None
            | Some eq \<Rightarrow> if eq then Some (Done (SelfHandle s d)) else open_loop wszName (flink (dheap s) current) s)
        | Bugcheck c \<Rightarrow> Some (Bugcheck c) | Fault \<Rightarrow> Some Fault | Hang \<Rightarrow> Some Hang)"

definition GdiOpenDevice :: "(nat \<Rightarrow> u16) option \<Rightarrow> gdi \<Rightarrow> (ptr \<times> gdi) outcome" where
  "GdiOpenDevice wszName s =
     obind (KeAcquireSpinLock (GdiDisplayDevicesLock s) (gcpu s)) (\<lambda>(old, l, c).
     let s = s\<lparr>GdiDisplayDevicesLock := l, gcpu := c\<rparr> in
     case open_loop wszName (flink (dheap s) (GdiDisplayDevicesHead s)) s of
       None \<Rightarrow> Hang
     | Some r \<Rightarrow> obind r (\<lambda>h. obind (KeReleaseSpinLock l old c) (\<lambda>(l, c).
         Done (h, s\<lparr>GdiDisplayDevicesLock := l, gcpu := c\<rparr>))))"

text \<open>The name as the WCHARs before its terminator. RtlCopyMemory gets the number of characters as a number
  of bytes, so half of the name is copied; the rest of the field is what the memory held.\<close>

definition copy_name_bytes :: "u16 list \<Rightarrow> nat \<Rightarrow> (nat \<Rightarrow> u16) \<Rightarrow> nat \<Rightarrow> u16" where
  "copy_name_bytes name n old i =
     (let c = (name @ [0]) ! i in
      if 2 * i + 1 < n then c else if 2 * i < n then or (and c 0xFF) (and (old i) 0xFF00) else old i)"

definition GdiCreateDevice :: "u16 list \<Rightarrow> gdi \<Rightarrow> (ptr \<times> gdi) outcome" where
  "GdiCreateDevice name s =
     (let (d, s) = GdiCreateObject GDI_OBJECT_DEVICE_TYPE s;
          len = min 31 (length name + 1) in
      if d = NULL then Fault
      else let s = s\<lparr>DeviceName := (DeviceName s)(d := (copy_name_bytes name len (DeviceName s d))(31 := 0))\<rparr>
        in obind (GdiRegisterObject d s) (\<lambda>(h, s).
           let s = (if h = NULL then ExFreePool d s else s) in
           obind (ExInterlockedInsertTailList (GdiDisplayDevicesHead s) (DeviceEntry d)
               \<lparr>lcpu = gcpu s, llock = GdiDisplayDevicesLock s, lheap = dheap s\<rparr>) (\<lambda>(_, l).
             Done (h, s\<lparr>gcpu := lcpu l, GdiDisplayDevicesLock := llock l, dheap := lheap l\<rparr>))))"

definition GdiInit :: "nat \<Rightarrow> gdi \<Rightarrow> (NTSTATUS \<times> gdi) outcome" where
  "GdiInit maxGdiObjects s =
     (let s = s\<lparr>dheap := InitializeListHead (GdiDisplayDevicesHead s) (dheap s),
            GdiDisplayDevicesLock := KeInitializeSpinLock (GdiDisplayDevicesLock s),
            ObjectDatabaseLock := KeInitializeSpinLock (ObjectDatabaseLock s)\<rparr>;
          (db, s) = ExAllocatePool s in
      if db = NULL then Done (STATUS_NO_MEMORY, s\<lparr>ObjectDatabase := []\<rparr>)
      else let s = s\<lparr>ObjectDatabase := replicate maxGdiObjects NULL\<rparr>
        in obind (GdiCreateDevice (map of_char ''DISPLAY'') s) (\<lambda>(h, s).
           Done (STATUS_SUCCESS, s\<lparr>GenericGdiDisplayDevice := h\<rparr>)))"

section \<open>Drawing\<close>

text \<open>The pixels of the frame buffer by their number. line is where the current row starts; the product for the first one
  is an unsigned 32-bit product. colorFunction is called with x, y and its argument.\<close>

type_synonym color_function = "u32 \<Rightarrow> u32 \<Rightarrow> u64 \<Rightarrow> u32"

definition put_pixel :: "u64 \<Rightarrow> u32 \<Rightarrow> u32 \<Rightarrow> gdi \<Rightarrow> gdi" where
  "put_pixel line x c s = s\<lparr>gFramebuffer := (gFramebuffer s)(line + scast x := c)\<rparr>"

definition fill_pixel :: "color_function \<Rightarrow> u64 \<Rightarrow> u32 \<Rightarrow> u64 \<Rightarrow> u32 \<Rightarrow> gdi \<Rightarrow> gdi" where
  "fill_pixel colorFunction color y line x s =
     (if and (colorFunction x y color) 0xFF000000 \<noteq> 0
      then if 0 \<le>s x \<and> x \<le> gWidth s then put_pixel line x (colorFunction x y color) s else s
      else s)"

definition fill_row :: "color_function \<Rightarrow> u64 \<Rightarrow> RECT \<Rightarrow> u32 \<Rightarrow> u64 \<times> gdi \<Rightarrow> u64 \<times> gdi" where
  "fill_row colorFunction color rect y ls =
     (let (line, s) = ls in
      (line + ucast (gPixelsPerScanline s),
       if y <s 0 \<or> gHeight s \<le>s y then s
       else fold (fill_pixel colorFunction color y line) (coords (rleft rect) (rright rect)) s))"

definition DebugFillRect :: "RECT \<Rightarrow> u64 \<Rightarrow> color_function \<Rightarrow> gdi \<Rightarrow> gdi" where
  "DebugFillRect rect color colorFunction s =
     snd (fold (fill_row colorFunction color rect) (coords (rtop rect) (rbottom rect)) (ucast (rtop rect * gPixelsPerScanline s), s))"

definition GdiDebugFillSimpleRegion :: "ptr \<Rightarrow> u64 \<Rightarrow> color_function \<Rightarrow> gdi \<Rightarrow> gdi" where
  "GdiDebugFillSimpleRegion region color colorFunction s = DebugFillRect (RgnRect s region) color colorFunction s"

text \<open>The pixels of a complex region are not clipped to the screen.\<close>

definition fill_set_pixel :: "color_function \<Rightarrow> u64 \<Rightarrow> ptr \<Rightarrow> u32 \<Rightarrow> u64 \<Rightarrow> u32 \<Rightarrow> gdi \<Rightarrow> gdi" where
  "fill_set_pixel colorFunction color region y line x s =
     (if get_bit (RgnData s region) (bit_index (RgnRect s region) x y) s \<and> and (colorFunction x y color) 0xFF000000 \<noteq> 0
      then put_pixel line x (colorFunction x y color) s else s)"

definition fill_set_row :: "color_function \<Rightarrow> u64 \<Rightarrow> ptr \<Rightarrow> u32 \<Rightarrow> u64 \<times> gdi \<Rightarrow> u64 \<times> gdi" where
  "fill_set_row colorFunction color region y ls =
     (let (line, s) = ls; r = RgnRect s region in
      (line + ucast (gPixelsPerScanline s), fold (fill_set_pixel colorFunction color region y line) (coords (rleft r) (rright r)) s))"

definition GdiDebugFillComplexRegion :: "ptr \<Rightarrow> u64 \<Rightarrow> color_function \<Rightarrow> gdi \<Rightarrow> gdi" where
  "GdiDebugFillComplexRegion region color colorFunction s = (let r = RgnRect s region in
     snd (fold (fill_set_row colorFunction color region) (coords (rtop r) (rbottom r)) (ucast (rtop r * gPixelsPerScanline s), s)))"

definition GdiDebugFillRegion :: "ptr \<Rightarrow> u64 \<Rightarrow> color_function \<Rightarrow> gdi \<Rightarrow> gdi outcome" where
  "GdiDebugFillRegion hRgn colorFunctionArg colorFunction s =
     obind (GdiLockHandle hRgn s) (\<lambda>(region, s).
     if region = NULL then Fault
     else let s = (if RegionType s region = SIMPLEREGION then GdiDebugFillSimpleRegion region colorFunctionArg colorFunction s
                   else if RegionType s region = COMPLEXREGION then GdiDebugFillComplexRegion region colorFunctionArg colorFunction s
                   else s)
          in obind (GdiUnlockHandle hRgn region s) (\<lambda>(_, s). Done s))"

end
