(* ===== verification/GdiRegions.thy ===== *)
theory GdiRegions
  imports Gdi
begin

text \<open>
  What the operations on graphics handles and regions do to the table of objects: the intersection of
  rectangles, the handles that are lost or stay locked, and the pixels that are drawn.
\<close>

section \<open>The table of objects\<close>

definition db_idle :: "gdi \<Rightarrow> bool" where
  "db_idle s = (ObjectDatabaseLock s = 0 \<and> cpu_ok (gcpu s) \<and> irql (gcpu s) \<le> DISPATCH_LEVEL)"

definition db_held :: "gdi \<Rightarrow> gdi" where
  "db_held s = s\<lparr>ObjectDatabaseLock := 1, gcpu := KiApplyIrql (irql (gcpu s)) DISPATCH_LEVEL (gcpu s)\<rparr>"

lemma lock_db_idle: "db_idle s \<Longrightarrow> lock_db s = Done (irql (gcpu s), db_held s)"
  by (simp add: db_idle_def lock_db_def db_held_def KeAcquireSpinLock_def KfAcquire_free)

lemma unlock_db_held:
  assumes "db_idle s" "ObjectDatabaseLock u = 1" "gcpu u = gcpu (db_held s)"
  shows "unlock_db (irql (gcpu s)) u = Done (u\<lparr>ObjectDatabaseLock := 0, gcpu := gcpu s\<rparr>)"
  using assms by (simp add: db_idle_def unlock_db_def db_held_def KeReleaseSpinLock_def KfRelease_taken)

definition valid_handle :: "ptr \<Rightarrow> gdi \<Rightarrow> bool" where
  "valid_handle h s = (h \<noteq> NULL \<and> entry_index h < length (ObjectDatabase s))"

definition slot :: "gdi \<Rightarrow> ptr \<Rightarrow> ptr" where
  "slot s h = ObjectDatabase s ! entry_index h"

lemma read_valid: "valid_handle h s \<Longrightarrow> read_entry h s = Done (slot s h)"
  by (simp add: valid_handle_def read_entry_def slot_def)

lemma db_held_simps [simp]:
  "ObjectDatabase (db_held s) = ObjectDatabase s" "ObjectDatabaseLock (db_held s) = 1" "valid_handle h (db_held s) = valid_handle h s"
  "slot (db_held s) h = slot s h" "SelfHandle (db_held s) = SelfHandle s" "ObjLock (db_held s) = ObjLock s"
  by (simp_all add: db_held_def valid_handle_def slot_def)

lemma held_release: "db_idle s \<Longrightarrow> (db_held s)\<lparr>ObjectDatabaseLock := 0, gcpu := gcpu s\<rparr> = s"
  by (simp add: db_held_def db_idle_def)

definition set_slot :: "ptr \<Rightarrow> ptr \<Rightarrow> gdi \<Rightarrow> gdi" where
  "set_slot h p s = s\<lparr>ObjectDatabase := (ObjectDatabase s)[entry_index h := p]\<rparr>"

lemma GdiLockHandle_free:
  assumes "db_idle s" "valid_handle h s" "slot s h \<noteq> GDI_LOCKED_OBJECT"
  shows "GdiLockHandle h s = Done (slot s h, set_slot h GDI_LOCKED_OBJECT s)"
proof -
  have "unlock_db (irql (gcpu s)) ((db_held s)\<lparr>ObjectDatabase := (ObjectDatabase s)[entry_index h := GDI_LOCKED_OBJECT]\<rparr>) =
      Done (set_slot h GDI_LOCKED_OBJECT s)"
    by (subst unlock_db_held [OF assms(1)]) (use assms(1) in \<open>simp_all add: db_held_def set_slot_def db_idle_def\<close>)
  then show ?thesis
    using assms lock_db_idle [OF assms(1)] by (simp add: GdiLockHandle_def read_valid write_entry_def valid_handle_def)
qed

lemma GdiLockHandle_locked:
  assumes "db_idle s" "valid_handle h s" "slot s h = GDI_LOCKED_OBJECT"
  shows "GdiLockHandle h s = Hang"
  using assms lock_db_idle [OF assms(1)] by (simp add: GdiLockHandle_def read_valid valid_handle_def)

lemma GdiUnlockHandle_locked:
  assumes "db_idle s" "valid_handle h s" "slot s h = GDI_LOCKED_OBJECT" "p \<noteq> GDI_LOCKED_OBJECT"
  shows "GdiUnlockHandle h p s = Done (STATUS_SUCCESS, set_slot h p s)"
proof -
  have "unlock_db (irql (gcpu s)) ((db_held s)\<lparr>ObjectDatabase := (ObjectDatabase s)[entry_index h := p]\<rparr>) = Done (set_slot h p s)"
    by (subst unlock_db_held [OF assms(1)]) (use assms(1) in \<open>simp_all add: db_held_def set_slot_def db_idle_def\<close>)
  then show ?thesis
    using assms lock_db_idle [OF assms(1)] by (simp add: GdiUnlockHandle_def read_valid write_entry_def valid_handle_def)
qed

lemma clear_entry_valid:
  assumes "db_idle s" "valid_handle h s"
  shows "clear_entry h s = Done (set_slot h NULL s)"
proof -
  have "unlock_db (irql (gcpu s)) ((db_held s)\<lparr>ObjectDatabase := (ObjectDatabase s)[entry_index h := NULL]\<rparr>) = Done (set_slot h NULL s)"
    by (subst unlock_db_held [OF assms(1)]) (use assms(1) in \<open>simp_all add: db_held_def set_slot_def db_idle_def\<close>)
  then show ?thesis
    using assms lock_db_idle [OF assms(1)] by (simp add: clear_entry_def write_entry_def valid_handle_def)
qed

text \<open>Operations that leave lock, processor and table alone keep these facts.\<close>

definition same_table :: "gdi \<Rightarrow> gdi \<Rightarrow> bool" where
  "same_table s u = (ObjectDatabase u = ObjectDatabase s \<and> ObjectDatabaseLock u = ObjectDatabaseLock s \<and> gcpu u = gcpu s)"

lemma same_table_idle: "same_table s u \<Longrightarrow> db_idle u = db_idle s"
  and same_table_valid: "same_table s u \<Longrightarrow> valid_handle h u = valid_handle h s"
  and same_table_slot: "same_table s u \<Longrightarrow> slot u h = slot s h"
  by (simp_all add: same_table_def db_idle_def valid_handle_def slot_def)

lemma set_slot_simps [simp]:
  "db_idle (set_slot h p s) = db_idle s" "valid_handle g (set_slot h p s) = valid_handle g s"
  "length (ObjectDatabase (set_slot h p s)) = length (ObjectDatabase s)"
  by (simp_all add: set_slot_def db_idle_def valid_handle_def)

lemma slot_set_slot: "valid_handle h s \<Longrightarrow> slot (set_slot h p s) g = (if entry_index g = entry_index h then p else slot s g)"
  by (auto simp: set_slot_def slot_def valid_handle_def nth_list_update)

lemma entry_index_inj: "entry_index g = entry_index h \<longleftrightarrow> g = h"
  by (auto simp: entry_index_def word_unat_eq_iff [symmetric])

text \<open>Registering takes the first free entry.\<close>

definition registered :: "ptr \<Rightarrow> nat \<Rightarrow> gdi \<Rightarrow> gdi" where
  "registered p k s = s\<lparr>ObjectDatabase := (ObjectDatabase s)[k := p], SelfHandle := (SelfHandle s)(p := word_of_nat (k + 1)),
     ObjLock := (ObjLock s)(p := 0)\<rparr>"

definition first_free :: "nat \<Rightarrow> gdi \<Rightarrow> bool" where
  "first_free k s = (k < length (ObjectDatabase s) \<and> ObjectDatabase s ! k = NULL \<and> (\<forall>j<k. ObjectDatabase s ! j \<noteq> NULL))"

lemma register_loop_first:
  assumes "db_idle s" "p \<noteq> NULL" "ObjectDatabase s ! k = NULL" "\<forall>j\<in>set js. ObjectDatabase s ! j \<noteq> NULL"
  shows "register_loop p (js @ k # ks) s = Done (word_of_nat (k + 1), registered p k s)"
  using assms(4)
proof (induction js)
  case Nil
  have "unlock_db (irql (gcpu s)) ((db_held s)\<lparr>ObjectDatabase := (ObjectDatabase s)[k := p], SelfHandle := (SelfHandle s)(p := word_of_nat (k + 1)),
       ObjLock := (ObjLock s)(p := 0)\<rparr>) = Done (registered p k s)"
    by (subst unlock_db_held [OF assms(1)]) (use assms(1) in \<open>simp_all add: db_held_def registered_def db_idle_def\<close>)
  then show ?case using assms lock_db_idle [OF assms(1)] by (simp add: KeInitializeSpinLock_def)
next
  case (Cons j js)
  then show ?case
    using assms(1) lock_db_idle [OF assms(1)] unlock_db_held [OF assms(1), of "db_held s"] held_release [OF assms(1)] by simp
qed

lemma GdiRegisterObject_first:
  assumes "db_idle s" "p \<noteq> NULL" "first_free k s"
  shows "GdiRegisterObject p s = Done (word_of_nat (k + 1), registered p k s)"
proof -
  have k: "k < length (ObjectDatabase s)" using assms(3) by (simp add: first_free_def)
  have "[0..<length (ObjectDatabase s)] = [0..<k] @ k # [Suc k..<length (ObjectDatabase s)]"
    using upt_add_eq_append [of 0 k "length (ObjectDatabase s) - k"] k upt_conv_Cons [OF k] by simp
  then show ?thesis
    unfolding GdiRegisterObject_def using register_loop_first [OF assms(1,2), of k "[0..<k]"] assms(3) by (simp add: first_free_def)
qed

section \<open>Rectangles\<close>

definition in_rect :: "RECT \<Rightarrow> int \<Rightarrow> int \<Rightarrow> bool" where
  "in_rect r x y = (sint (rleft r) \<le> x \<and> x < sint (rright r) \<and> sint (rtop r) \<le> y \<and> y < sint (rbottom r))"

text \<open>The sides are in order and so close that their differences are LONGs.\<close>

definition rect_ok :: "RECT \<Rightarrow> bool" where
  "rect_ok r = (sint (rleft r) \<le> sint (rright r) \<and> sint (rright r) - sint (rleft r) < 2 ^ 31 \<and>
     sint (rtop r) \<le> sint (rbottom r) \<and> sint (rbottom r) - sint (rtop r) < 2 ^ 31)"

lemma sint_Clamp: "sint lo \<le> sint hi \<Longrightarrow> sint (Clamp lo v hi) = max (sint lo) (min (sint v) (sint hi))"
  by (auto simp: Clamp_def word_sless_alt)

lemma in_RectAnd: "rect_ok r1 \<Longrightarrow> in_rect (RectAnd r1 r2) x y \<longleftrightarrow> in_rect r1 x y \<and> in_rect r2 x y"
  by (auto simp: in_rect_def RectAnd_def rect_ok_def sint_Clamp)

lemma sint_diff: "\<bar>sint a - sint b\<bar> < 2 ^ 31 \<Longrightarrow> sint (a - b) = sint a - sint (b :: u32)"
  by (simp add: sint_word_ariths signed_take_bit_int_eq_self)

lemma side_empty:
  assumes "sint lo \<le> sint hi" "sint hi - sint lo < 2 ^ 31"
  shows "Clamp lo b hi - Clamp lo a hi \<le>s 0 \<longleftrightarrow> sint (Clamp lo b hi) \<le> sint (Clamp lo a (hi :: u32))"
proof -
  have "\<bar>sint (Clamp lo b hi) - sint (Clamp lo a hi)\<bar> < 2 ^ 31" using assms by (simp add: sint_Clamp)
  then show ?thesis by (simp add: word_sle_eq sint_diff)
qed

lemma no_area_iff: "rect_ok r1 \<Longrightarrow> no_area (RectAnd r1 r2) \<longleftrightarrow> (\<forall>x y. \<not> in_rect (RectAnd r1 r2) x y)"
proof -
  assume ok: "rect_ok r1"
  let ?r = "RectAnd r1 r2"
  have "no_area ?r \<longleftrightarrow> sint (rright ?r) \<le> sint (rleft ?r) \<or> sint (rbottom ?r) \<le> sint (rtop ?r)"
    using ok by (simp add: no_area_def RectAnd_def rect_ok_def side_empty)
  also have "\<dots> \<longleftrightarrow> (\<forall>x y. \<not> in_rect ?r x y)"
  proof
    assume a: "\<forall>x y. \<not> in_rect ?r x y"
    then have "\<not> in_rect ?r (sint (rleft ?r)) (sint (rtop ?r))" by blast
    then show "sint (rright ?r) \<le> sint (rleft ?r) \<or> sint (rbottom ?r) \<le> sint (rtop ?r)"
      by (auto simp: in_rect_def)
  qed (auto simp: in_rect_def)
  finally show ?thesis .
qed

text \<open>The points of a region object; a complex region is not described here.\<close>

definition in_region :: "gdi \<Rightarrow> ptr \<Rightarrow> int \<Rightarrow> int \<Rightarrow> bool" where
  "in_region s p x y = (RegionType s p = SIMPLEREGION \<and> in_rect (RgnRect s p) x y)"

section \<open>Moving objects\<close>

lemma entry_of_index: "Suc k < 2 ^ 64 \<Longrightarrow> entry_index (word_of_nat (k + 1)) = k" "Suc k < 2 ^ 64 \<Longrightarrow> (word_of_nat (k + 1) :: ptr) \<noteq> 0"
proof -
  assume k: "Suc k < 2 ^ 64"
  have "(word_of_nat (k + 1) - 1 :: ptr) = word_of_nat k" by simp
  then show "entry_index (word_of_nat (k + 1)) = k" using k by (simp add: entry_index_def unat_word_of_nat)
  have "unat (word_of_nat (k + 1) :: ptr) = k + 1" by (rule unat_word_of_nat) (use k in simp)
  then show "(word_of_nat (k + 1) :: ptr) \<noteq> 0" by auto
qed

definition freed :: "ptr \<Rightarrow> gdi \<Rightarrow> ptr list" where
  "freed p s = (if p = NULL then [] else if Destructor s p \<and> RgnData s p \<noteq> NULL then [p, RgnData s p] else [p])"

lemma GdiFreeObject_freed: "GdiFreeObject p s = s\<lparr>FreedBlocks := freed p s @ FreedBlocks s\<rparr>"
  by (simp add: GdiFreeObject_def GdiComplexRegionDestructor_def ExFreePool_def freed_def Let_def)

definition moved :: "ptr \<Rightarrow> ptr \<Rightarrow> ptr \<Rightarrow> gdi \<Rightarrow> gdi" where
  "moved dst src p s = s\<lparr>FreedBlocks := freed (slot s dst) s @ FreedBlocks s, SelfHandle := (SelfHandle s)(p := dst),
     ObjectDatabase := (ObjectDatabase s)[entry_index dst := p, entry_index src := NULL]\<rparr>"

lemma GdiMoveIntoHandle_moves:
  assumes "db_idle s" "valid_handle dst s" "valid_handle src s" "dst \<noteq> src" "slot s dst \<noteq> GDI_LOCKED_OBJECT"
    "slot s src = p" "p \<noteq> NULL" "p \<noteq> GDI_LOCKED_OBJECT"
  shows "GdiMoveIntoHandle dst src s = Done (moved dst src p s)"
proof -
  let ?s1 = "set_slot dst GDI_LOCKED_OBJECT s" let ?s2 = "set_slot src GDI_LOCKED_OBJECT ?s1"
  have n: "entry_index dst \<noteq> entry_index src" using assms(4) entry_index_inj by simp
  have nn: "dst \<noteq> NULL" "src \<noteq> NULL" using assms(2,3) by (simp_all add: valid_handle_def)
  have l1: "GdiLockHandle dst s = Done (slot s dst, ?s1)" by (rule GdiLockHandle_free [OF assms(1,2,5)])
  have l2: "GdiLockHandle src ?s1 = Done (p, ?s2)"
    using GdiLockHandle_free [of ?s1 src] assms n slot_set_slot [OF assms(2)] by simp
  let ?f = "if slot s dst \<noteq> NULL then GdiFreeObject (slot s dst) ?s2 else ?s2"
  have f: "?f = ?s2\<lparr>FreedBlocks := freed (slot s dst) s @ FreedBlocks s\<rparr>"
    by (simp add: GdiFreeObject_freed freed_def set_slot_def)
  let ?s3 = "?f\<lparr>SelfHandle := (SelfHandle ?f)(p := dst)\<rparr>"
  have t: "same_table ?s2 ?s3" unfolding f by (simp add: same_table_def)
  have u: "GdiUnlockHandle dst p ?s3 = Done (STATUS_SUCCESS, set_slot dst p ?s3)"
    by (rule GdiUnlockHandle_locked)
      (use assms n in \<open>simp_all add: same_table_idle [OF t] same_table_valid [OF t] same_table_slot [OF t] slot_set_slot\<close>)
  have c: "clear_entry src (set_slot dst p ?s3) = Done (set_slot src NULL (set_slot dst p ?s3))"
    by (rule clear_entry_valid) (use assms in \<open>simp_all add: same_table_idle [OF t] same_table_valid [OF t]\<close>)
  have "set_slot src NULL (set_slot dst p ?s3) = moved dst src p s"
    unfolding f using n by (simp add: set_slot_def moved_def list_update_swap)
  then show ?thesis
    unfolding GdiMoveIntoHandle_def using nn l1 l2 u c assms(7) by (simp add: Let_def)
qed

section \<open>Combining rectangles\<close>

text \<open>Three different handles, the sources with unlocked rectangular regions, the destination with some unlocked object;
  the pool gives a block n that is not in the table, and entry k is the first free one.\<close>

definition combinable :: "gdi \<Rightarrow> ptr \<Rightarrow> ptr \<Rightarrow> ptr \<Rightarrow> ptr \<Rightarrow> nat \<Rightarrow> bool" where
  "combinable s d a b n k = (db_idle s \<and> valid_handle d s \<and> valid_handle a s \<and> valid_handle b s \<and> d \<noteq> a \<and> d \<noteq> b \<and> a \<noteq> b \<and>
     slot s d \<notin> {NULL, GDI_LOCKED_OBJECT} \<and> slot s a \<notin> {NULL, GDI_LOCKED_OBJECT} \<and> slot s b \<notin> {NULL, GDI_LOCKED_OBJECT} \<and>
     RegionType s (slot s a) = SIMPLEREGION \<and> RegionType s (slot s b) = SIMPLEREGION \<and> rect_ok (RgnRect s (slot s a)) \<and>
     n \<notin> {NULL, GDI_LOCKED_OBJECT} \<and> n \<notin> set (ObjectDatabase s) \<and> first_free k s \<and> Suc k < 2 ^ 64)"

text \<open>Both sources are locked.\<close>

definition both_locked :: "ptr \<Rightarrow> ptr \<Rightarrow> gdi \<Rightarrow> gdi" where
  "both_locked a b s = set_slot b GDI_LOCKED_OBJECT (set_slot a GDI_LOCKED_OBJECT s)"

lemma combinable_indices:
  assumes "combinable s d a b n k"
  shows "entry_index d \<noteq> entry_index a" "entry_index d \<noteq> entry_index b" "entry_index a \<noteq> entry_index b"
    "entry_index d \<noteq> k" "entry_index a \<noteq> k" "entry_index b \<noteq> k" "k < length (ObjectDatabase s)"
    "slot s d \<noteq> n" "slot s a \<noteq> n" "slot s b \<noteq> n"
proof -
  have "ObjectDatabase s ! k = NULL" "slot s d \<noteq> NULL" "slot s a \<noteq> NULL" "slot s b \<noteq> NULL"
    using assms by (auto simp: combinable_def first_free_def)
  then show "entry_index d \<noteq> k" "entry_index a \<noteq> k" "entry_index b \<noteq> k" by (auto simp: slot_def)
  show "entry_index d \<noteq> entry_index a" "entry_index d \<noteq> entry_index b" "entry_index a \<noteq> entry_index b" "k < length (ObjectDatabase s)"
    using assms by (simp_all add: combinable_def entry_index_inj first_free_def)
  show "slot s d \<noteq> n" "slot s a \<noteq> n" "slot s b \<noteq> n" using assms by (auto simp: combinable_def valid_handle_def slot_def)
qed

lemma both_locked_simps:
  assumes "combinable s d a b n k"
  shows "db_idle (both_locked a b s)" "first_free k (both_locked a b s)"
    "GdiLockHandle a s = Done (slot s a, set_slot a GDI_LOCKED_OBJECT s)"
    "GdiLockHandle b (set_slot a GDI_LOCKED_OBJECT s) = Done (slot s b, both_locked a b s)"
proof -
  note i = combinable_indices [OF assms]
  have h: "db_idle s" "valid_handle a s" "valid_handle b s" "slot s a \<noteq> GDI_LOCKED_OBJECT" "slot s b \<noteq> GDI_LOCKED_OBJECT" "first_free k s"
    using assms by (simp_all add: combinable_def)
  show "db_idle (both_locked a b s)" using h by (simp add: both_locked_def)
  show "GdiLockHandle a s = Done (slot s a, set_slot a GDI_LOCKED_OBJECT s)" by (rule GdiLockHandle_free [OF h(1,2,4)])
  show "GdiLockHandle b (set_slot a GDI_LOCKED_OBJECT s) = Done (slot s b, both_locked a b s)"
    using GdiLockHandle_free [of "set_slot a GDI_LOCKED_OBJECT s" b] h i(3) slot_set_slot [OF h(2)] by (simp add: both_locked_def)
  show "first_free k (both_locked a b s)"
    using h(2,3,6) i(5,6) by (auto simp: first_free_def both_locked_def set_slot_def valid_handle_def nth_list_update)
qed

text \<open>The state in the end: the new object is under d, every other entry is as before.\<close>

definition replaced :: "ptr \<Rightarrow> ptr \<Rightarrow> gdi \<Rightarrow> gdi \<Rightarrow> gdi" where
  "replaced d n s u = u\<lparr>FreedBlocks := freed (slot s d) s @ FreedBlocks s, SelfHandle := (SelfHandle u)(n := d),
     ObjectDatabase := (ObjectDatabase s)[entry_index d := n]\<rparr>"

lemma move_and_unlock:
  assumes c: "combinable s d a b n k"
    and u: "ObjectDatabase u = (ObjectDatabase (both_locked a b s))[k := n]" "ObjectDatabaseLock u = ObjectDatabaseLock s" "gcpu u = gcpu s"
      "FreedBlocks u = FreedBlocks s" "freed (slot s d) u = freed (slot s d) s"
  shows "obind (GdiMoveIntoHandle d (word_of_nat (k + 1)) u) (\<lambda>v.
      obind (GdiUnlockHandle a (slot s a) v) (\<lambda>(_, v). obind (GdiUnlockHandle b (slot s b) v) (\<lambda>(_, v). Done (r, v)))) =
    Done (r, replaced d n s u)"
proof -
  note i = combinable_indices [OF c]
  have h: "db_idle s" "valid_handle d s" "valid_handle a s" "valid_handle b s" "slot s d \<noteq> GDI_LOCKED_OBJECT" "slot s d \<noteq> NULL"
    "slot s a \<noteq> GDI_LOCKED_OBJECT" "slot s b \<noteq> GDI_LOCKED_OBJECT" "n \<noteq> NULL" "n \<noteq> GDI_LOCKED_OBJECT" "Suc k < 2 ^ 64"
    using c by (auto simp: combinable_def)
  let ?h = "word_of_nat (k + 1) :: ptr"
  have hk: "entry_index ?h = k" "?h \<noteq> NULL" using entry_of_index [OF h(11)] by simp_all
  have len: "length (ObjectDatabase u) = length (ObjectDatabase s)" using u(1) by (simp add: both_locked_def)
  have vu: "db_idle u" "valid_handle d u" "valid_handle a u" "valid_handle b u" "valid_handle ?h u"
    using h hk i(7) u(2,3) len by (simp_all add: db_idle_def valid_handle_def)
  have db: "ObjectDatabase u = (ObjectDatabase s)[entry_index a := GDI_LOCKED_OBJECT, entry_index b := GDI_LOCKED_OBJECT, k := n]"
    using u(1) by (simp add: both_locked_def set_slot_def)
  have su: "slot u d = slot s d" "slot u ?h = n"
    using i hk h(2) by (simp_all add: slot_def db nth_list_update valid_handle_def)
  have "entry_index d \<noteq> entry_index ?h" using i(4) hk by simp
  then have ne: "d \<noteq> ?h" by auto
  have mv: "GdiMoveIntoHandle d ?h u = Done (moved d ?h n u)"
    by (rule GdiMoveIntoHandle_moves [OF vu(1,2,5) ne]) (use su h in simp_all)
  let ?m = "moved d ?h n u"
  have m: "db_idle ?m" "valid_handle a ?m" "valid_handle b ?m" "slot ?m a = GDI_LOCKED_OBJECT" "slot ?m b = GDI_LOCKED_OBJECT"
    using vu i hk h(3,4) len by (simp_all add: moved_def db_idle_def valid_handle_def slot_def db nth_list_update)
  have ua: "GdiUnlockHandle a (slot s a) ?m = Done (STATUS_SUCCESS, set_slot a (slot s a) ?m)"
    by (rule GdiUnlockHandle_locked [OF m(1,2,4) h(7)])
  have ub: "GdiUnlockHandle b (slot s b) (set_slot a (slot s a) ?m) = Done (STATUS_SUCCESS, set_slot b (slot s b) (set_slot a (slot s a) ?m))"
    by (rule GdiUnlockHandle_locked) (use m h i(3) slot_set_slot [OF m(2)] in simp_all)
  have "ObjectDatabase (set_slot b (slot s b) (set_slot a (slot s a) ?m)) = (ObjectDatabase s)[entry_index d := n]"
    by (rule nth_equalityI)
      (use c i hk in \<open>auto simp: set_slot_def moved_def db nth_list_update slot_def combinable_def first_free_def valid_handle_def\<close>)
  then have "set_slot b (slot s b) (set_slot a (slot s a) ?m) = replaced d n s u"
    using u(4,5) su by (simp add: set_slot_def moved_def replaced_def)
  then show ?thesis using mv ua ub by simp
qed

text \<open>The new region object before it is registered.\<close>

definition fresh_region :: "ptr \<Rightarrow> ptr list \<Rightarrow> gdi \<Rightarrow> gdi" where
  "fresh_region n ps t = t\<lparr>PoolBlocks := ps, ObjType := (ObjType t)(n := GDI_OBJECT_REGION_TYPE), Destructor := (Destructor t)(n := False),
     ObjLock := (ObjLock t)(n := 0)\<rparr>"

lemma GdiCreateObject_region:
  "PoolBlocks t = n # ps \<Longrightarrow> n \<noteq> NULL \<Longrightarrow> GdiCreateObject GDI_OBJECT_REGION_TYPE t = (n, fresh_region n ps t)"
  by (simp add: GdiCreateObject_def ExAllocatePool_def fresh_region_def KeInitializeSpinLock_def)

definition made_region :: "ptr \<Rightarrow> ptr list \<Rightarrow> nat \<Rightarrow> RECT option \<Rightarrow> gdi \<Rightarrow> gdi" where
  "made_region n ps k rect t = (let u = registered n k (fresh_region n ps t) in
     case rect of None \<Rightarrow> u\<lparr>RegionType := (RegionType u)(n := NULLREGION)\<rparr>
     | Some r \<Rightarrow> u\<lparr>RgnRect := (RgnRect u)(n := r), RegionType := (RegionType u)(n := SIMPLEREGION)\<rparr>)"

lemma create_regions:
  assumes "PoolBlocks t = n # ps" "n \<noteq> NULL" "db_idle t" "first_free k t" "Suc k < 2 ^ 64"
  shows "GdiCreateEmptyRgn t = Done (word_of_nat (k + 1), made_region n ps k None t)"
    "GdiCreateRectRgn (Some r) t = Done (word_of_nat (k + 1), made_region n ps k (Some r) t)"
proof -
  have h: "(1 + word_of_nat k :: ptr) \<noteq> 0" using entry_of_index(2) [OF assms(5)] by simp
  have f: "db_idle (fresh_region n ps t)" "first_free k (fresh_region n ps t)"
    using assms(3,4) by (simp_all add: fresh_region_def db_idle_def first_free_def)
  note reg = GdiRegisterObject_first [OF f(1) assms(2) f(2)]
  have e: "db_idle ((fresh_region n ps t)\<lparr>RegionType := rt\<rparr>)" "first_free k ((fresh_region n ps t)\<lparr>RegionType := rt\<rparr>)" for rt
    using f by (simp_all add: db_idle_def first_free_def)
  show "GdiCreateRectRgn (Some r) t = Done (word_of_nat (k + 1), made_region n ps k (Some r) t)"
    using assms(2) h reg GdiCreateObject_region [OF assms(1,2)]
    by (simp add: GdiCreateRectRgn_def GdiCreateRectRgnPtr_def made_region_def Let_def)
  show "GdiCreateEmptyRgn t = Done (word_of_nat (k + 1), made_region n ps k None t)"
    using assms(2) h GdiRegisterObject_first [OF e(1) assms(2) e(2)] GdiCreateObject_region [OF assms(1,2)]
    by (simp add: GdiCreateEmptyRgn_def GdiCreateEmptyRgnPtr_def made_region_def registered_def Let_def)
qed

definition and_result :: "gdi \<Rightarrow> ptr \<Rightarrow> ptr \<Rightarrow> ptr \<Rightarrow> ptr \<Rightarrow> ptr list \<Rightarrow> nat \<Rightarrow> gdi" where
  "and_result s d a b n ps k = (let r = RectAnd (RgnRect s (slot s a)) (RgnRect s (slot s b)) in
     replaced d n s (made_region n ps k (if no_area r then None else Some r) (both_locked a b s)))"

lemma GdiCombineRgn_and:
  assumes c: "combinable s d a b n k" and pool: "PoolBlocks s = n # ps"
  shows "GdiCombineRgn d a b 1 s = Done (if no_area (RectAnd (RgnRect s (slot s a)) (RgnRect s (slot s b))) then NULLREGION else SIMPLEREGION,
    and_result s d a b n ps k)"
proof -
  let ?t = "both_locked a b s" let ?r = "RectAnd (RgnRect s (slot s a)) (RgnRect s (slot s b))"
  note i = combinable_indices [OF c]
  note l = both_locked_simps [OF c]
  have h: "n \<noteq> NULL" "Suc k < 2 ^ 64" "d \<noteq> NULL" "slot s a \<noteq> NULL" "slot s b \<noteq> NULL"
    "RegionType s (slot s a) = SIMPLEREGION" "RegionType s (slot s b) = SIMPLEREGION"
    using c by (auto simp: combinable_def valid_handle_def)
  have tp: "PoolBlocks ?t = n # ps" "RegionType ?t = RegionType s" "RgnRect ?t = RgnRect s"
    using pool by (simp_all add: both_locked_def set_slot_def)
  note make = create_regions [OF tp(1) h(1) l(1,2) h(2)]
  have mu: "obind (GdiMoveIntoHandle d (word_of_nat (k + 1)) (made_region n ps k rect ?t)) (\<lambda>v.
      obind (GdiUnlockHandle a (slot s a) v) (\<lambda>(_, v). obind (GdiUnlockHandle b (slot s b) v) (\<lambda>(_, v). Done (r, v)))) =
    Done (r, replaced d n s (made_region n ps k rect ?t))" for r :: u32 and rect
    by (rule move_and_unlock [OF c])
      (use i in \<open>auto simp: made_region_def registered_def fresh_region_def both_locked_def set_slot_def freed_def Let_def split: option.split\<close>)
  have hk: "(word_of_nat (k + 1) :: ptr) \<noteq> 0" by (rule entry_of_index(2) [OF h(2)])
  have "GdiCombineRgn d a b 1 s = obind (RegionSimpleAndSimple d (slot s a) (slot s b) ?t) (\<lambda>(r, v).
      obind (GdiUnlockHandle a (slot s a) v) (\<lambda>(_, v). obind (GdiUnlockHandle b (slot s b) v) (\<lambda>(_, v). Done (r, v))))"
    using l(3,4) h tp(2) by (simp add: GdiCombineRgn_def RegionAnd_def word_sless_alt)
  also have "\<dots> = Done (if no_area ?r then NULLREGION else SIMPLEREGION, and_result s d a b n ps k)"
    using make hk mu tp(3) by (simp add: RegionSimpleAndSimple_def and_result_def obind_assoc Let_def del: of_nat_Suc of_nat_add)
  finally show ?thesis .
qed

section \<open>Empty regions\<close>

text \<open>The handle is read back after it was set, so the entry that is cleared is the one just filled.\<close>

lemma GdiMovePtrIntoHandle_loses:
  assumes "db_idle s" "valid_handle dst s" "slot s dst \<noteq> GDI_LOCKED_OBJECT" "p \<noteq> NULL" "p \<noteq> GDI_LOCKED_OBJECT"
  shows "GdiMovePtrIntoHandle dst p s = Done (set_slot dst NULL (s\<lparr>FreedBlocks := freed (slot s dst) s @ FreedBlocks s,
    SelfHandle := (SelfHandle s)(p := dst)\<rparr>))"
proof -
  let ?l = "set_slot dst GDI_LOCKED_OBJECT s"
  let ?f = "if slot s dst \<noteq> NULL then GdiFreeObject (slot s dst) ?l else ?l"
  have f: "?f = ?l\<lparr>FreedBlocks := freed (slot s dst) s @ FreedBlocks s\<rparr>"
    by (simp add: GdiFreeObject_freed freed_def set_slot_def)
  let ?g = "?f\<lparr>SelfHandle := (SelfHandle ?f)(p := dst)\<rparr>"
  have t: "same_table ?l ?g" unfolding f by (simp add: same_table_def)
  have u: "GdiUnlockHandle dst p ?g = Done (STATUS_SUCCESS, set_slot dst p ?g)"
    by (rule GdiUnlockHandle_locked)
      (use assms in \<open>simp_all add: same_table_idle [OF t] same_table_valid [OF t] same_table_slot [OF t] slot_set_slot\<close>)
  have c: "clear_entry dst (set_slot dst p ?g) = Done (set_slot dst NULL (set_slot dst p ?g))"
    by (rule clear_entry_valid) (use assms in \<open>simp_all add: same_table_idle [OF t] same_table_valid [OF t]\<close>)
  have n: "dst \<noteq> NULL" using assms(2) by (simp add: valid_handle_def)
  have sh: "SelfHandle (set_slot dst p ?g) p = dst" by (simp add: set_slot_def)
  have sh2: "obind (lock_db (set_slot dst p ?g)) (\<lambda>(old, v). let Src = SelfHandle v p in
      obind (if Src \<noteq> NULL then write_entry Src NULL v else Done v) (unlock_db old)) = clear_entry dst (set_slot dst p ?g)"
    using sh n same_table_idle [OF t] assms(1) lock_db_idle [of "set_slot dst p ?g"]
    by (simp add: clear_entry_def Let_def)
  have "set_slot dst NULL (set_slot dst p ?g) = set_slot dst NULL (s\<lparr>FreedBlocks := freed (slot s dst) s @ FreedBlocks s,
    SelfHandle := (SelfHandle s)(p := dst)\<rparr>)" unfolding f by (simp add: set_slot_def)
  then show ?thesis
    using n assms(4) GdiLockHandle_free [OF assms(1-3)] u c sh2 unfolding GdiMovePtrIntoHandle_def
    by (simp add: Let_def)
qed

definition null_source :: "gdi \<Rightarrow> ptr \<Rightarrow> ptr \<Rightarrow> ptr \<Rightarrow> ptr \<Rightarrow> bool" where
  "null_source s d a b n = (db_idle s \<and> valid_handle d s \<and> valid_handle a s \<and> valid_handle b s \<and> d \<noteq> a \<and> d \<noteq> b \<and> a \<noteq> b \<and>
     slot s d \<noteq> GDI_LOCKED_OBJECT \<and> slot s a \<notin> {NULL, GDI_LOCKED_OBJECT} \<and> slot s b \<notin> {NULL, GDI_LOCKED_OBJECT} \<and>
     RegionType s (slot s a) = SIMPLEREGION \<and> RegionType s (slot s b) = NULLREGION \<and>
     n \<notin> {NULL, GDI_LOCKED_OBJECT} \<and> n \<notin> set (ObjectDatabase s))"

lemma sources_locked:
  assumes "null_source s d a b n"
  shows "GdiLockHandle a s = Done (slot s a, set_slot a GDI_LOCKED_OBJECT s)"
    "GdiLockHandle b (set_slot a GDI_LOCKED_OBJECT s) = Done (slot s b, both_locked a b s)"
    "db_idle (both_locked a b s)" "valid_handle d (both_locked a b s)" "slot (both_locked a b s) d = slot s d"
proof -
  have h: "db_idle s" "valid_handle d s" "valid_handle a s" "valid_handle b s" "slot s a \<noteq> GDI_LOCKED_OBJECT" "slot s b \<noteq> GDI_LOCKED_OBJECT"
    "d \<noteq> a" "d \<noteq> b" "a \<noteq> b"
    using assms by (auto simp: null_source_def)
  note i = h(7-9) [folded entry_index_inj]
  show "GdiLockHandle a s = Done (slot s a, set_slot a GDI_LOCKED_OBJECT s)" by (rule GdiLockHandle_free [OF h(1,3,5)])
  show "GdiLockHandle b (set_slot a GDI_LOCKED_OBJECT s) = Done (slot s b, both_locked a b s)"
    using GdiLockHandle_free [of "set_slot a GDI_LOCKED_OBJECT s" b] h i slot_set_slot [OF h(3)] by (simp add: both_locked_def)
  show "db_idle (both_locked a b s)" "valid_handle d (both_locked a b s)" "slot (both_locked a b s) d = slot s d"
    using h i by (simp_all add: both_locked_def slot_set_slot)
qed

text \<open>Unlocking both sources when the table is that of both_locked with entry d replaced.\<close>

lemma unlock_sources:
  assumes c: "null_source s d a b n" and u: "ObjectDatabase u = (ObjectDatabase (both_locked a b s))[entry_index d := x]"
    "ObjectDatabaseLock u = ObjectDatabaseLock s" "gcpu u = gcpu s"
  shows "obind (GdiUnlockHandle a (slot s a) u) (\<lambda>(_, v). obind (GdiUnlockHandle b (slot s b) v) (\<lambda>(_, v). Done (r, v))) =
    Done (r :: u32, u\<lparr>ObjectDatabase := (ObjectDatabase s)[entry_index d := x]\<rparr>)"
proof -
  have h: "db_idle s" "valid_handle d s" "valid_handle a s" "valid_handle b s" "slot s a \<noteq> GDI_LOCKED_OBJECT" "slot s b \<noteq> GDI_LOCKED_OBJECT"
    "d \<noteq> a" "d \<noteq> b" "a \<noteq> b"
    using c by (auto simp: null_source_def)
  note i = h(7-9) [folded entry_index_inj]
  have db: "ObjectDatabase u = (ObjectDatabase s)[entry_index a := GDI_LOCKED_OBJECT, entry_index b := GDI_LOCKED_OBJECT, entry_index d := x]"
    using u(1) by (simp add: both_locked_def set_slot_def)
  have m: "db_idle u" "valid_handle a u" "valid_handle b u" "slot u a = GDI_LOCKED_OBJECT" "slot u b = GDI_LOCKED_OBJECT"
    using h i u(2,3) by (simp_all add: db_idle_def valid_handle_def slot_def db nth_list_update)
  have ua: "GdiUnlockHandle a (slot s a) u = Done (STATUS_SUCCESS, set_slot a (slot s a) u)"
    by (rule GdiUnlockHandle_locked [OF m(1,2,4) h(5)])
  have ub: "GdiUnlockHandle b (slot s b) (set_slot a (slot s a) u) = Done (STATUS_SUCCESS, set_slot b (slot s b) (set_slot a (slot s a) u))"
    by (rule GdiUnlockHandle_locked) (use m h i slot_set_slot [OF m(2)] in simp_all)
  have "ObjectDatabase (set_slot b (slot s b) (set_slot a (slot s a) u)) = (ObjectDatabase s)[entry_index d := x]"
    by (rule nth_equalityI) (use h i in \<open>auto simp: set_slot_def db nth_list_update slot_def valid_handle_def\<close>)
  then have "set_slot b (slot s b) (set_slot a (slot s a) u) = u\<lparr>ObjectDatabase := (ObjectDatabase s)[entry_index d := x]\<rparr>"
    by (simp add: set_slot_def)
  then show ?thesis using ua ub by simp
qed

lemma null_and:
  assumes c: "null_source s d a b n" and pool: "PoolBlocks s = n # ps"
  shows "\<exists>s'. GdiCombineRgn d a b 1 s = Done (NULLREGION, s') \<and> ObjectDatabase s' = (ObjectDatabase s)[entry_index d := NULL] \<and>
    PoolBlocks s' = ps \<and> FreedBlocks s' = freed (slot s d) s @ FreedBlocks s"
proof -
  let ?t = "both_locked a b s"
  note l = sources_locked [OF c]
  have h: "n \<noteq> NULL" "n \<noteq> GDI_LOCKED_OBJECT" "d \<noteq> NULL" "slot s a \<noteq> NULL" "slot s b \<noteq> NULL" "slot s d \<noteq> GDI_LOCKED_OBJECT"
    "RegionType s (slot s b) = NULLREGION" "slot s d \<noteq> n"
    using c by (auto simp: null_source_def valid_handle_def slot_def)
  have tp: "PoolBlocks ?t = n # ps" "RegionType ?t = RegionType s" using pool by (simp_all add: both_locked_def set_slot_def)
  define f where "f = (fresh_region n ps ?t)\<lparr>RegionType := (RegionType (fresh_region n ps ?t))(n := NULLREGION)\<rparr>"
  have e: "GdiCreateEmptyRgnPtr ?t = (n, f)"
    using GdiCreateObject_region [OF tp(1) h(1)] h(1) by (simp add: GdiCreateEmptyRgnPtr_def f_def Let_def)
  have t: "same_table ?t f" by (simp add: f_def fresh_region_def same_table_def)
  let ?u = "set_slot d NULL (f\<lparr>FreedBlocks := freed (slot f d) f @ FreedBlocks f, SelfHandle := (SelfHandle f)(n := d)\<rparr>)"
  have mv: "GdiMovePtrIntoHandle d n f = Done ?u"
    by (rule GdiMovePtrIntoHandle_loses) (use h l(3-5) in \<open>simp_all add: same_table_idle [OF t] same_table_valid [OF t] same_table_slot [OF t]\<close>)
  have us: "obind (GdiUnlockHandle a (slot s a) ?u) (\<lambda>(_, v). obind (GdiUnlockHandle b (slot s b) v) (\<lambda>(_, v). Done (NULLREGION, v))) =
      Done (NULLREGION, ?u\<lparr>ObjectDatabase := (ObjectDatabase s)[entry_index d := NULL]\<rparr>)"
    by (rule unlock_sources [OF c]) (simp_all add: set_slot_def f_def fresh_region_def both_locked_def)
  have "GdiCombineRgn d a b 1 s = Done (NULLREGION, ?u\<lparr>ObjectDatabase := (ObjectDatabase s)[entry_index d := NULL]\<rparr>)"
    using l(1,2) h tp(2) e mv us by (simp add: GdiCombineRgn_def RegionAnd_def empty_into_def)
  moreover have "freed (slot f d) f = freed (slot s d) s"
    using l(5) same_table_slot [OF t] h(8) by (simp add: freed_def f_def fresh_region_def both_locked_def set_slot_def)
  ultimately show ?thesis by (simp add: set_slot_def f_def fresh_region_def both_locked_def)
qed

lemma null_diff:
  assumes c: "null_source s d a b n" and pool: "PoolBlocks s = n # ps"
  shows "\<exists>s'. GdiCombineRgn d a b 4 s = Done (SIMPLEREGION, s') \<and> ObjectDatabase s' = (ObjectDatabase s)[entry_index d := GDI_LOCKED_OBJECT] \<and>
    PoolBlocks s' = ps \<and> FreedBlocks s' = freed (slot s d) s @ FreedBlocks s \<and> GdiLockHandle d s' = Hang"
proof -
  let ?t = "both_locked a b s"
  note l = sources_locked [OF c]
  have h: "n \<noteq> NULL" "d \<noteq> NULL" "slot s a \<noteq> NULL" "slot s b \<noteq> NULL" "slot s d \<noteq> GDI_LOCKED_OBJECT" "slot s a \<noteq> n"
    "RegionType s (slot s b) = NULLREGION" "RegionType s (slot s a) = SIMPLEREGION" "db_idle s" "valid_handle d s" "slot s d \<noteq> n"
    using c by (auto simp: null_source_def valid_handle_def slot_def)
  let ?t1 = "set_slot d GDI_LOCKED_OBJECT ?t"
  have tp: "PoolBlocks ?t1 = n # ps" "RegionType ?t1 = RegionType s" "RegionType ?t = RegionType s"
    using pool by (simp_all add: both_locked_def set_slot_def)
  have ld: "GdiLockHandle d ?t = Done (slot s d, ?t1)" using GdiLockHandle_free [OF l(3,4)] l(5) h(5) by simp
  let ?f = "fresh_region n ps ?t1" let ?u = "GdiFreeObject (slot s d) ?f"
  have e: "GdiCreateRectRgnPtr (Some r) ?t1 = (n, ?f)" for r
    using GdiCreateObject_region [OF tp(1) h(1)] by (simp add: GdiCreateRectRgnPtr_def)
  have rc: "RegionCopy d (slot s a) ?t = Done (SIMPLEREGION, ?u)"
    using ld e h tp(2) by (simp add: RegionCopy_def Let_def fresh_region_def)
  have us: "obind (GdiUnlockHandle a (slot s a) ?u) (\<lambda>(_, v). obind (GdiUnlockHandle b (slot s b) v) (\<lambda>(_, v). Done (SIMPLEREGION, v))) =
      Done (SIMPLEREGION, ?u\<lparr>ObjectDatabase := (ObjectDatabase s)[entry_index d := GDI_LOCKED_OBJECT]\<rparr>)"
    by (rule unlock_sources [OF c]) (simp_all add: GdiFreeObject_freed set_slot_def fresh_region_def both_locked_def)
  let ?s' = "?u\<lparr>ObjectDatabase := (ObjectDatabase s)[entry_index d := GDI_LOCKED_OBJECT]\<rparr>"
  have "GdiCombineRgn d a b 4 s = Done (SIMPLEREGION, ?s')"
    using l(1,2) h tp(3) rc us by (simp add: GdiCombineRgn_def RegionDiff_def)
  moreover have "GdiLockHandle d ?s' = Hang"
    by (rule GdiLockHandle_locked)
      (use h(9,10) in \<open>simp_all add: db_idle_def valid_handle_def slot_def GdiFreeObject_freed set_slot_def fresh_region_def both_locked_def\<close>)
  moreover have "freed (slot s d) ?f = freed (slot s d) s"
    using h(11) by (simp add: freed_def fresh_region_def both_locked_def set_slot_def)
  ultimately show ?thesis by (simp add: GdiFreeObject_freed fresh_region_def both_locked_def set_slot_def)
qed

lemma null_source_unnamed: "null_source s d a b n \<Longrightarrow> x \<noteq> n \<Longrightarrow> n \<notin> set ((ObjectDatabase s)[i := x])"
  using set_update_subset_insert [of "ObjectDatabase s" i x] by (auto simp: null_source_def)

section \<open>Properties\<close>

text \<open>Three regions under the handles 1, 2 and 3, one free entry, and one block in the pool.\<close>

definition three_regions :: "(ptr \<Rightarrow> u32) \<Rightarrow> (ptr \<Rightarrow> RECT) \<Rightarrow> gdi" where
  "three_regions types rects = \<lparr>gcpu = \<lparr>irql = 0, tpr = 0\<rparr>, ObjectDatabase = [0x100, 0x200, 0x300, NULL], ObjectDatabaseLock = 0,
     PoolBlocks = [0x400], FreedBlocks = [], ObjType = (\<lambda>_. GDI_OBJECT_REGION_TYPE), SelfHandle = (\<lambda>p. drop_bit 8 p),
     Destructor = (\<lambda>_. False), ObjLock = (\<lambda>_. 0), RegionType = types, RgnRect = rects, RgnData = (\<lambda>_. NULL), bytes = (\<lambda>_. 0),
     lbStyle = (\<lambda>_. 0), lbColor = (\<lambda>_. 0), lbHatch = (\<lambda>_. 0), dcWords = (\<lambda>_ _. 0), dheap = \<lparr>flink = (\<lambda>p. p), blink = (\<lambda>p. p)\<rparr>,
     GdiDisplayDevicesHead = 0x10, GdiDisplayDevicesLock = 0, DeviceName = (\<lambda>_ _. 0), GenericGdiDisplayDevice = NULL,
     gFramebuffer = (\<lambda>_. 0), gPixelsPerScanline = 1024, gWidth = 800, gHeight = 600\<rparr>"

text \<open>C38: GdiCombineRgn with RGN_AND computes the intersection of two rectangular regions. The points of
  the object that is now under the destination handle are those that are in both; the result is SIMPLEREGION if there are any,
  else NULLREGION. The old object of the destination is freed, the object knows its handle, every other handle has
  its object as before and unlocked, no other region has changed, and one block of the pool is used.\<close>

theorem GdiCombineRgn_intersects:
  assumes c: "combinable s d a b n k" and pool: "PoolBlocks s = n # ps"
  shows "\<exists>s'. GdiCombineRgn d a b 1 s =
      Done (if \<exists>x y. in_region s (slot s a) x y \<and> in_region s (slot s b) x y then SIMPLEREGION else NULLREGION, s') \<and>
    (\<forall>x y. in_region s' (slot s' d) x y = (in_region s (slot s a) x y \<and> in_region s (slot s b) x y)) \<and>
    ObjectDatabase s' = (ObjectDatabase s)[entry_index d := n] \<and> SelfHandle s' n = d \<and> slot s' d = n \<and> db_idle s' \<and>
    FreedBlocks s' = freed (slot s d) s @ FreedBlocks s \<and> PoolBlocks s' = ps \<and>
    (\<forall>p. p \<noteq> n \<longrightarrow> RegionType s' p = RegionType s p \<and> RgnRect s' p = RgnRect s p \<and> SelfHandle s' p = SelfHandle s p) \<and> bytes s' = bytes s"
proof -
  let ?r = "RectAnd (RgnRect s (slot s a)) (RgnRect s (slot s b))" let ?s' = "and_result s d a b n ps k"
  have h: "rect_ok (RgnRect s (slot s a))" "RegionType s (slot s a) = SIMPLEREGION" "RegionType s (slot s b) = SIMPLEREGION"
    "valid_handle d s" "db_idle s"
    using c by (simp_all add: combinable_def)
  have pts: "in_rect ?r x y \<longleftrightarrow> in_region s (slot s a) x y \<and> in_region s (slot s b) x y" for x y
    using in_RectAnd [OF h(1)] h(2,3) by (simp add: in_region_def)
  have na: "no_area ?r \<longleftrightarrow> \<not> (\<exists>x y. in_region s (slot s a) x y \<and> in_region s (slot s b) x y)"
    using no_area_iff [OF h(1)] pts by simp
  have sl: "slot ?s' d = n" "ObjectDatabase ?s' = (ObjectDatabase s)[entry_index d := n]"
    using h(4) by (simp_all add: and_result_def replaced_def Let_def slot_def valid_handle_def)
  have rg: "RegionType ?s' n = (if no_area ?r then NULLREGION else SIMPLEREGION)" "\<not> no_area ?r \<Longrightarrow> RgnRect ?s' n = ?r"
    by (simp_all add: and_result_def replaced_def made_region_def Let_def)
  have "in_region ?s' n x y = in_rect ?r x y" for x y
    using rg na pts by (auto simp: in_region_def)
  then have "\<forall>x y. in_region ?s' (slot ?s' d) x y = (in_region s (slot s a) x y \<and> in_region s (slot s b) x y)"
    using sl(1) pts by simp
  moreover have "\<forall>p. p \<noteq> n \<longrightarrow> RegionType ?s' p = RegionType s p \<and> RgnRect ?s' p = RgnRect s p \<and> SelfHandle ?s' p = SelfHandle s p"
    "bytes ?s' = bytes s" "PoolBlocks ?s' = ps" "SelfHandle ?s' n = d" "db_idle ?s'" "FreedBlocks ?s' = freed (slot s d) s @ FreedBlocks s"
    using h(5) by (simp_all add: and_result_def replaced_def made_region_def registered_def fresh_region_def both_locked_def set_slot_def
        db_idle_def Let_def)
  ultimately show ?thesis
    using GdiCombineRgn_and [OF c pool] sl na by (intro exI [of _ ?s']) simp
qed

definition two_squares :: gdi where
  "two_squares = three_regions (\<lambda>_. SIMPLEREGION) (\<lambda>p. if p = 0x200 then \<lparr>rleft = 0, rtop = 0, rright = 10, rbottom = 10\<rparr>
     else \<lparr>rleft = 5, rtop = 5, rright = 20, rbottom = 20\<rparr>)"

lemma two_squares_combinable: "combinable two_squares 1 2 3 0x400 3"
proof -
  have "first_free 3 two_squares" by (simp add: two_squares_def three_regions_def first_free_def numeral_3_eq_3 All_less_Suc)
  then show ?thesis
    by (simp add: combinable_def two_squares_def three_regions_def db_idle_def cpu_ok_def valid_handle_def slot_def entry_index_def rect_ok_def)
qed

theorem GdiCombineRgn_intersects_witness:
  "\<exists>s'. GdiCombineRgn 1 2 3 1 two_squares = Done (SIMPLEREGION, s') \<and> in_region s' (slot s' 1) 7 7 \<and> \<not> in_region s' (slot s' 1) 3 3 \<and>
    ObjectDatabase s' = [0x400, 0x200, 0x300, NULL]"
proof -
  have v: "PoolBlocks two_squares = [0x400]" "slot two_squares 2 = 0x200" "slot two_squares 3 = 0x300"
    "ObjectDatabase two_squares = [0x100, 0x200, 0x300, NULL]"
    by (simp_all add: two_squares_def three_regions_def slot_def entry_index_def)
  have r: "in_region two_squares 0x200 x y = (0 \<le> x \<and> x < 10 \<and> 0 \<le> y \<and> y < 10)"
    "in_region two_squares 0x300 x y = (5 \<le> x \<and> x < 20 \<and> 5 \<le> y \<and> y < 20)" for x y
    by (auto simp: in_region_def in_rect_def two_squares_def three_regions_def)
  have e: "\<exists>x y. in_region two_squares (slot two_squares 2) x y \<and> in_region two_squares (slot two_squares 3) x y"
    unfolding v r by (intro exI [of _ 7]) simp
  obtain s' where s': "GdiCombineRgn 1 2 3 1 two_squares = Done (SIMPLEREGION, s')"
    "\<And>x y. in_region s' (slot s' 1) x y = (in_region two_squares 0x200 x y \<and> in_region two_squares 0x300 x y)"
    "ObjectDatabase s' = (ObjectDatabase two_squares)[entry_index 1 := 0x400]"
    using GdiCombineRgn_intersects [OF two_squares_combinable v(1)] unfolding if_P [OF e] unfolding v(2,3) by blast
  show ?thesis by (intro exI [of _ s'] conjI s'(1)) (simp_all add: s'(2,3) r v(4) entry_index_def)
qed

text \<open>C39: an empty region among the sources. RGN_AND answers NULLREGION and uses a block of the pool, but leaves
  no object under the destination handle; RGN_DIFF with an empty second source answers SIMPLEREGION, uses a block, and leaves the
  destination handle locked, so that the next GdiLockHandle of it never returns. No handle names the
  block that was used and it is not freed either: only the object the destination had before is.\<close>

theorem null_regions_lose_destination:
  assumes c: "null_source s d a b n" and pool: "PoolBlocks s = n # ps"
  shows "(\<exists>s'. GdiCombineRgn d a b 1 s = Done (NULLREGION, s') \<and> ObjectDatabase s' = (ObjectDatabase s)[entry_index d := NULL] \<and>
      PoolBlocks s' = ps \<and> FreedBlocks s' = freed (slot s d) s @ FreedBlocks s \<and> n \<notin> set (ObjectDatabase s')) \<and>
    (\<exists>s'. GdiCombineRgn d a b 4 s = Done (SIMPLEREGION, s') \<and> ObjectDatabase s' = (ObjectDatabase s)[entry_index d := GDI_LOCKED_OBJECT] \<and>
      PoolBlocks s' = ps \<and> FreedBlocks s' = freed (slot s d) s @ FreedBlocks s \<and> n \<notin> set (ObjectDatabase s') \<and>
      GdiLockHandle d s' = Hang)"
proof -
  have "n \<noteq> NULL" "n \<noteq> GDI_LOCKED_OBJECT" using c by (simp_all add: null_source_def)
  then have "n \<notin> set ((ObjectDatabase s)[entry_index d := NULL])" "n \<notin> set ((ObjectDatabase s)[entry_index d := GDI_LOCKED_OBJECT])"
    by (simp_all add: null_source_unnamed [OF c])
  then show ?thesis using null_and [OF c pool] null_diff [OF c pool] by metis
qed

definition square_and_empty :: gdi where
  "square_and_empty = three_regions (\<lambda>p. if p = 0x300 then NULLREGION else SIMPLEREGION)
     (\<lambda>_. \<lparr>rleft = 0, rtop = 0, rright = 10, rbottom = 10\<rparr>)"

lemma square_and_empty_sources: "null_source square_and_empty 1 2 3 0x400" "PoolBlocks square_and_empty = [0x400]"
  by (simp_all add: null_source_def square_and_empty_def three_regions_def db_idle_def cpu_ok_def valid_handle_def slot_def entry_index_def)

theorem null_regions_lose_destination_witness:
  "(\<exists>s'. GdiCombineRgn 1 2 3 1 square_and_empty = Done (NULLREGION, s') \<and> ObjectDatabase s' = [NULL, 0x200, 0x300, NULL]) \<and>
    (\<exists>s'. GdiCombineRgn 1 2 3 4 square_and_empty = Done (SIMPLEREGION, s') \<and> GdiLockHandle 1 s' = Hang)"
proof -
  have v: "ObjectDatabase square_and_empty = [0x100, 0x200, 0x300, NULL]" by (simp add: square_and_empty_def three_regions_def)
  show ?thesis
    using null_regions_lose_destination [OF square_and_empty_sources] unfolding v by (simp add: entry_index_def) blast
qed

end
