(* ===== verification/GdiDraw.thy ===== *)
theory GdiDraw
  imports GdiRegions
begin

text \<open>Which pixels of the frame buffer DebugFillRect writes.\<close>

lemma sint_range: "- (2 ^ 31) \<le> sint (x :: u32)" "sint (x :: u32) < 2 ^ 31"
  using sint_greater_eq [of x] sint_less [of x] by simp_all

lemma sint_scast: "sint (scast (x :: u32) :: u64) = sint x"
proof -
  have "signed_take_bit 63 (sint x) = sint x"
    by (rule signed_take_bit_int_eq_self) (use sint_range [of x] in simp_all)
  then show ?thesis by (simp add: signed_scast_eq)
qed

lemma scast_inj: "(scast (x :: u32) :: u64) = scast y \<longleftrightarrow> x = y"
proof
  assume e: "(scast x :: u64) = scast y"
  have "sint x = sint y" using sint_scast [of x] sint_scast [of y] unfolding e by simp
  then show "x = y" by (rule signed_word_eqI)
qed simp

lemma in_coords: "sint a \<le> sint b \<Longrightarrow> x \<in> set (coords a b) \<longleftrightarrow> sint a \<le> sint x \<and> sint x < sint (b :: u32)"
proof -
  assume ab: "sint a \<le> sint b"
  have s: "sint (a + word_of_nat i) = sint a + int i" if "int i < sint b - sint a" for i
  proof -
    have e: "a + word_of_nat i = word_of_int (sint a + int i)" by simp
    show ?thesis unfolding e sint_sbintrunc'
      by (rule signed_take_bit_int_eq_self) (use that sint_range [of a] sint_range [of b] in simp_all)
  qed
  show ?thesis
  proof
    assume "x \<in> set (coords a b)"
    then obtain i where i: "x = a + word_of_nat i" "int i < sint b - sint a" by (auto simp: coords_def)
    then show "sint a \<le> sint x \<and> sint x < sint b" using s [OF i(2)] by simp
  next
    assume x: "sint a \<le> sint x \<and> sint x < sint b"
    let ?i = "nat (sint x - sint a)"
    have i: "int ?i < sint b - sint a" using x by simp
    have "sint (a + word_of_nat ?i) = sint x" using s [OF i] x by simp
    then have "a + word_of_nat ?i = x" by (rule signed_word_eqI)
    then have "x = a + word_of_nat ?i" by simp
    moreover have "?i \<in> set [0..<nat (sint b - sint a)]" using x by simp
    ultimately show "x \<in> set (coords a b)" unfolding coords_def set_map by (rule image_eqI)
  qed
qed

section \<open>A row\<close>

definition visible :: "gdi \<Rightarrow> color_function \<Rightarrow> u64 \<Rightarrow> u32 \<Rightarrow> u32 \<Rightarrow> bool" where
  "visible s cf color x y = (and (cf x y color) 0xFF000000 \<noteq> 0 \<and> 0 \<le>s x \<and> x \<le> gWidth s)"

lemma fill_pixel_eq: "fill_pixel cf color y line x s = (if visible s cf color x y then put_pixel line x (cf x y color) s else s)"
  by (simp add: fill_pixel_def visible_def)

lemma fill_pixels:
  "\<exists>fb. fold (fill_pixel cf color y line) xs s = s\<lparr>gFramebuffer := fb\<rparr> \<and>
    (\<forall>x. fb (line + scast x) = (if x \<in> set xs \<and> visible s cf color x y then cf x y color else gFramebuffer s (line + scast x))) \<and>
    (\<forall>i. (\<forall>x. x \<in> set xs \<and> visible s cf color x y \<longrightarrow> i \<noteq> line + scast x) \<longrightarrow> fb i = gFramebuffer s i)"
proof (induction xs arbitrary: s)
  case Nil
  have "s = s\<lparr>gFramebuffer := gFramebuffer s\<rparr>" by simp
  then show ?case by (intro exI [of _ "gFramebuffer s"]) simp
next
  case (Cons x xs)
  let ?s = "fill_pixel cf color y line x s"
  obtain fb where fb: "fold (fill_pixel cf color y line) xs ?s = ?s\<lparr>gFramebuffer := fb\<rparr>"
    "\<And>z. fb (line + scast z) = (if z \<in> set xs \<and> visible ?s cf color z y then cf z y color else gFramebuffer ?s (line + scast z))"
    "\<And>i. (\<forall>z. z \<in> set xs \<and> visible ?s cf color z y \<longrightarrow> i \<noteq> line + scast z) \<Longrightarrow> fb i = gFramebuffer ?s i"
    using Cons.IH [of ?s] by auto
  have v: "visible ?s = visible s" by (intro ext) (simp add: fill_pixel_eq put_pixel_def visible_def)
  have u: "?s\<lparr>gFramebuffer := fb\<rparr> = s\<lparr>gFramebuffer := fb\<rparr>" by (simp add: fill_pixel_eq put_pixel_def)
  have g: "gFramebuffer ?s i = (if visible s cf color x y \<and> i = line + scast x then cf x y color else gFramebuffer s i)" for i
    by (simp add: fill_pixel_eq put_pixel_def)
  have "fb (line + scast z) = (if z \<in> set (x # xs) \<and> visible s cf color z y then cf z y color else gFramebuffer s (line + scast z))" for z
    unfolding fb(2) v g by (auto simp: scast_inj)
  moreover have "fb i = gFramebuffer s i" if "\<forall>z. z \<in> set (x # xs) \<and> visible s cf color z y \<longrightarrow> i \<noteq> line + scast z" for i
    using fb(3) [of i, unfolded v] that unfolding g by auto
  ultimately show ?case using fb(1) u by (intro exI [of _ fb]) simp
qed

section \<open>The rows\<close>

text \<open>Pixel i belongs to column x of row number j, which is on the screen.\<close>

definition hit :: "gdi \<Rightarrow> RECT \<Rightarrow> color_function \<Rightarrow> u64 \<Rightarrow> u64 \<Rightarrow> nat \<Rightarrow> u32 \<Rightarrow> u64 \<Rightarrow> bool" where
  "hit s r cf color l0 j x i = (let y = rtop r + word_of_nat j in \<not> (y <s 0 \<or> gHeight s \<le>s y) \<and>
     x \<in> set (coords (rleft r) (rright r)) \<and> visible s cf color x y \<and> i = l0 + word_of_nat j * ucast (gPixelsPerScanline s) + scast x)"

definition rows_done :: "gdi \<Rightarrow> RECT \<Rightarrow> color_function \<Rightarrow> u64 \<Rightarrow> u64 \<Rightarrow> nat \<Rightarrow> u64 \<times> gdi \<Rightarrow> bool" where
  "rows_done s r cf color l0 n ls = (fst ls = l0 + word_of_nat n * ucast (gPixelsPerScanline s) \<and>
     (\<exists>fb. snd ls = s\<lparr>gFramebuffer := fb\<rparr> \<and>
       (\<forall>j<n. \<forall>x i. hit s r cf color l0 j x i \<longrightarrow> fb i = cf x (rtop r + word_of_nat j) color) \<and>
       (\<forall>i. (\<forall>j<n. \<forall>x. \<not> hit s r cf color l0 j x i) \<longrightarrow> fb i = gFramebuffer s i)))"

lemma rows_step:
  assumes d: "rows_done s r cf color l0 n ls"
    and uniq: "\<And>j x x' i. j < n \<Longrightarrow> hit s r cf color l0 j x i \<Longrightarrow> \<not> hit s r cf color l0 n x' i"
  shows "rows_done s r cf color l0 (Suc n) (fill_row cf color r (rtop r + word_of_nat n) ls)"
proof -
  obtain fb where fb: "ls = (l0 + word_of_nat n * ucast (gPixelsPerScanline s), s\<lparr>gFramebuffer := fb\<rparr>)"
    "\<And>j x i. j < n \<Longrightarrow> hit s r cf color l0 j x i \<Longrightarrow> fb i = cf x (rtop r + word_of_nat j) color"
    "\<And>i. (\<forall>j<n. \<forall>x. \<not> hit s r cf color l0 j x i) \<Longrightarrow> fb i = gFramebuffer s i"
    using d unfolding rows_done_def by (cases ls) auto
  let ?l = "l0 + word_of_nat n * ucast (gPixelsPerScanline s)" let ?y = "rtop r + word_of_nat n :: u32" let ?s = "s\<lparr>gFramebuffer := fb\<rparr>"
  have l: "?l + ucast (gPixelsPerScanline s) = l0 + word_of_nat (Suc n) * ucast (gPixelsPerScanline s)" by (simp add: algebra_simps)
  have v: "visible ?s = visible s" by (intro ext) (simp add: visible_def)
  show ?thesis
  proof (cases "?y <s 0 \<or> gHeight s \<le>s ?y")
    case True
    then have "\<not> hit s r cf color l0 n x i" for x i by (auto simp: hit_def Let_def)
    then show ?thesis
      using True l fb(2,3) unfolding rows_done_def fb(1) fill_row_def by (auto simp: less_Suc_eq intro!: exI [of _ fb])
  next
    case False
    obtain g where g: "fold (fill_pixel cf color ?y ?l) (coords (rleft r) (rright r)) ?s = ?s\<lparr>gFramebuffer := g\<rparr>"
      "\<And>x. g (?l + scast x) = (if x \<in> set (coords (rleft r) (rright r)) \<and> visible s cf color x ?y then cf x ?y color else fb (?l + scast x))"
      "\<And>i. (\<forall>x. x \<in> set (coords (rleft r) (rright r)) \<and> visible s cf color x ?y \<longrightarrow> i \<noteq> ?l + scast x) \<Longrightarrow> g i = fb i"
      using fill_pixels [of cf color ?y ?l "coords (rleft r) (rright r)" ?s] unfolding v by auto
    have h: "hit s r cf color l0 n x i \<longleftrightarrow> x \<in> set (coords (rleft r) (rright r)) \<and> visible s cf color x ?y \<and> i = ?l + scast x" for x i
      using False by (simp add: hit_def Let_def)
    have "g i = cf x (rtop r + word_of_nat j) color" if "j < Suc n" "hit s r cf color l0 j x i" for j x i
    proof (cases "j = n")
      case True
      then show ?thesis using that(2) h g(2) by auto
    next
      case False
      then have j: "j < n" using that(1) by simp
      have "g i = fb i" by (rule g(3)) (use uniq [OF j that(2)] h in blast)
      then show ?thesis using fb(2) [OF j that(2)] by simp
    qed
    moreover have "g i = gFramebuffer s i" if "\<forall>j<Suc n. \<forall>x. \<not> hit s r cf color l0 j x i" for i
    proof -
      have "g i = fb i" by (rule g(3)) (use that h in blast)
      then show ?thesis using fb(3) [of i] that by simp
    qed
    ultimately show ?thesis
      using False g(1) l unfolding rows_done_def fb(1) fill_row_def by (auto intro!: exI [of _ g])
  qed
qed

lemma rows_all:
  assumes "\<And>j j' x x' i. j < n \<Longrightarrow> j' < n \<Longrightarrow> hit s r cf color l0 j x i \<Longrightarrow> hit s r cf color l0 j' x' i \<Longrightarrow> j = j'"
  shows "rows_done s r cf color l0 n (fold (fill_row cf color r) (map (\<lambda>i. rtop r + word_of_nat i) [0..<n]) (l0, s))"
  using assms
proof (induction n)
  case 0
  show ?case unfolding rows_done_def by (intro conjI exI [of _ "gFramebuffer s"]) simp_all
next
  case (Suc n)
  have "rows_done s r cf color l0 n (fold (fill_row cf color r) (map (\<lambda>i. rtop r + word_of_nat i) [0..<n]) (l0, s))"
  proof (rule Suc.IH)
    fix j j' x x' i
    assume h: "j < n" "j' < n" "hit s r cf color l0 j x i" "hit s r cf color l0 j' x' i"
    show "j = j'" by (rule Suc.prems [OF _ _ h(3,4)]) (use h(1,2) in simp_all)
  qed
  then have "rows_done s r cf color l0 (Suc n) (fill_row cf color r (rtop r + word_of_nat n)
      (fold (fill_row cf color r) (map (\<lambda>i. rtop r + word_of_nat i) [0..<n]) (l0, s)))"
  proof (rule rows_step)
    fix j x x' i
    assume j: "j < n" "hit s r cf color l0 j x i"
    show "\<not> hit s r cf color l0 n x' i"
    proof
      assume n: "hit s r cf color l0 n x' i"
      have "j = n" by (rule Suc.prems [OF _ _ j(2) n]) (use j(1) in simp_all)
      then show False using j(1) by simp
    qed
  qed
  then show ?case by simp
qed

section \<open>Coordinates\<close>

text \<open>The pixel of a column and a row when the rectangle starts at row top; with a negative top the 32-bit product of the
  first row puts everything 2^32 pixels further.\<close>

definition pixel :: "gdi \<Rightarrow> RECT \<Rightarrow> int \<Rightarrow> int \<Rightarrow> u64" where
  "pixel s r x y = word_of_int ((if sint (rtop r) < 0 then 2 ^ 32 else 0) + y * uint (gPixelsPerScanline s) + x)"

text \<open>Column gWidth, one past the last of the screen, is drawn as well.\<close>

definition drawn :: "gdi \<Rightarrow> RECT \<Rightarrow> color_function \<Rightarrow> u64 \<Rightarrow> int \<Rightarrow> int \<Rightarrow> bool" where
  "drawn s r cf color x y = (in_rect r x y \<and> 0 \<le> y \<and> y < sint (gHeight s) \<and> 0 \<le> x \<and> x \<le> uint (gWidth s) \<and>
     and (cf (word_of_int x) (word_of_int y) color) 0xFF000000 \<noteq> 0)"

text \<open>The screen has a height that is a LONG, its rows are longer than it is wide, and the rows that
  are drawn have numbers below 2^32.\<close>

definition screen_ok :: "gdi \<Rightarrow> RECT \<Rightarrow> bool" where
  "screen_ok s r = (uint (gWidth s) < uint (gPixelsPerScanline s) \<and> sint (gHeight s) * uint (gPixelsPerScanline s) \<le> 2 ^ 32 \<and>
     sint (rleft r) \<le> sint (rright r) \<and> sint (rtop r) \<le> sint (rbottom r) \<and>
     - (2 ^ 32) \<le> sint (rtop r) * uint (gPixelsPerScanline s) \<and> sint (rtop r) * uint (gPixelsPerScanline s) < 2 ^ 32)"

lemma uint_of_sint: "0 \<le> sint (x :: u32) \<Longrightarrow> uint x = sint x"
proof -
  assume x: "0 \<le> sint x"
  have "uint x = uint (word_of_int (sint x) :: u32)" by simp
  also have "\<dots> = sint x mod 2 ^ 32" unfolding uint_word_of_int by simp
  also have "\<dots> = sint x" using x sint_range [of x] by simp
  finally show ?thesis .
qed

lemma first_line:
  assumes "screen_ok s r"
  shows "(ucast (rtop r * gPixelsPerScanline s) :: u64) =
    word_of_int ((if sint (rtop r) < 0 then 2 ^ 32 else 0) + sint (rtop r) * uint (gPixelsPerScanline s))"
proof -
  let ?t = "sint (rtop r)" and ?p = "uint (gPixelsPerScanline s)"
  have b: "- (2 ^ 32) \<le> ?t * ?p" "?t * ?p < 2 ^ 32" using assms by (simp_all add: screen_ok_def)
  have p: "0 < ?p" using assms le_less_trans [OF uint_nonnegative [of "gWidth s"]] by (simp add: screen_ok_def)
  have neg: "?t < 0 \<longleftrightarrow> ?t * ?p < 0" using p by (simp add: mult_less_0_iff)
  have "rtop r * gPixelsPerScanline s = word_of_int (?t * ?p)" by simp
  then have "uint (rtop r * gPixelsPerScanline s) = (?t * ?p) mod 2 ^ 32" by (simp only: uint_word_of_int) simp
  also have "\<dots> = (if ?t < 0 then 2 ^ 32 else 0) + ?t * ?p"
  proof (cases "?t < 0")
    case True
    have "(?t * ?p) mod 2 ^ 32 = (2 ^ 32 + ?t * ?p) mod 2 ^ 32" by simp
    also have "\<dots> = 2 ^ 32 + ?t * ?p" by (rule mod_pos_pos_trivial) (use True neg b(1) in linarith)+
    finally show ?thesis using True by simp
  next
    case False
    then show ?thesis using neg b(2) by simp
  qed
  finally show ?thesis by (metis ucast_eq)
qed

lemma hit_iff:
  assumes ok: "screen_ok s r" and j: "int j < sint (rbottom r) - sint (rtop r)"
  shows "hit s r cf color (ucast (rtop r * gPixelsPerScanline s)) j x i \<longleftrightarrow>
    drawn s r cf color (sint x) (sint (rtop r) + int j) \<and> i = pixel s r (sint x) (sint (rtop r) + int j)"
proof -
  let ?y = "rtop r + word_of_nat j"
  have e: "?y = word_of_int (sint (rtop r) + int j)" by simp
  have y: "sint ?y = sint (rtop r) + int j"
    unfolding e sint_sbintrunc'
    by (rule signed_take_bit_int_eq_self) (use j sint_range [of "rtop r"] sint_range [of "rbottom r"] in simp_all)
  have lr: "sint (rleft r) \<le> sint (rright r)" using ok by (simp add: screen_ok_def)
  have x: "x \<le> gWidth s \<longleftrightarrow> sint x \<le> uint (gWidth s)" if "0 \<le> sint x"
    using uint_of_sint [OF that] by (simp add: word_le_def)
  have p: "ucast (rtop r * gPixelsPerScanline s) + word_of_nat j * ucast (gPixelsPerScanline s) + scast x =
      pixel s r (sint x) (sint (rtop r) + int j)"
  proof -
    have "(ucast (gPixelsPerScanline s) :: u64) = word_of_int (uint (gPixelsPerScanline s))" by (rule ucast_eq)
    moreover have "(scast x :: u64) = word_of_int (sint x)" by (rule scast_eq)
    ultimately show ?thesis unfolding first_line [OF ok] pixel_def by (simp add: algebra_simps)
  qed
  have "drawn s r cf color (sint x) (sint ?y) \<longleftrightarrow> in_rect r (sint x) (sint ?y) \<and> 0 \<le> sint ?y \<and> sint ?y < sint (gHeight s) \<and>
      0 \<le> sint x \<and> x \<le> gWidth s \<and> and (cf x ?y color) 0xFF000000 \<noteq> 0"
    unfolding drawn_def using x by auto
  moreover have "in_rect r (sint x) (sint ?y) \<longleftrightarrow> sint (rleft r) \<le> sint x \<and> sint x < sint (rright r)"
    using j unfolding in_rect_def y by auto
  ultimately show ?thesis
    unfolding hit_def Let_def visible_def p in_coords [OF lr] y [symmetric] by (auto simp: word_sless_alt word_sle_eq)
qed

lemma pixel_inj:
  assumes ok: "screen_ok s r" and d: "drawn s r cf color x y" "drawn s r cf color x' y'" and p: "pixel s r x y = pixel s r x' y'"
  shows "x = x' \<and> y = y'"
proof -
  let ?p = "uint (gPixelsPerScanline s)" and ?b = "if sint (rtop r) < 0 then 2 ^ 32 else 0 :: int" and ?h = "sint (gHeight s)"
  have b: "0 \<le> x" "x < ?p" "0 \<le> y" "y < ?h" "0 \<le> x'" "x' < ?p" "0 \<le> y'" "y' < ?h" "?h * ?p \<le> 2 ^ 32"
    using ok d by (auto simp: screen_ok_def drawn_def)
  have small: "0 \<le> ?b + v * ?p + u \<and> ?b + v * ?p + u < 2 ^ 64" if "0 \<le> u" "u < ?p" "0 \<le> v" "v < ?h" for u v
  proof -
    have "(v + 1) * ?p \<le> ?h * ?p" by (rule mult_right_mono) (use that in auto)
    then have "v * ?p + u < 2 ^ 32" using that(2) b(9) by (simp add: algebra_simps)
    moreover have "0 \<le> v * ?p" using that by simp
    ultimately show ?thesis using that(1) by auto
  qed
  have "uint (pixel s r u v) = ?b + v * ?p + u" if "0 \<le> u" "u < ?p" "0 \<le> v" "v < ?h" for u v
  proof -
    have "uint (pixel s r u v) = (?b + v * ?p + u) mod 2 ^ LENGTH(64)" unfolding pixel_def by (rule uint_word_of_int)
    then show ?thesis using small [OF that] by simp
  qed
  then have "?b + y * ?p + x = uint (pixel s r x y)" "?b + y' * ?p + x' = uint (pixel s r x' y')" using b(1-8) by simp_all
  then have same_sum: "?b + y * ?p + x = ?b + y' * ?p + x'" unfolding p by simp
  then have "y * ?p + x = y' * ?p + x'" by linarith
  moreover have "(y * ?p + x) div ?p = y" "(y' * ?p + x') div ?p = y'" using b by simp_all
  ultimately have "y = y'" by metis
  then show ?thesis using \<open>y * ?p + x = y' * ?p + x'\<close> by simp
qed

section \<open>Property\<close>

text \<open>C40: the pixels of a filled rectangle. When it starts on or below the first row, exactly the pixels that are in the rectangle
  and on the screen, and those of one column right of it, whose colour has a non-zero top byte get their colour; every
  other pixel and everything else stays. When it starts above the screen, all the visible rows are
  drawn 2^32 pixels behind their place.\<close>

theorem DebugFillRect_spec:
  assumes ok: "screen_ok s r"
  shows "\<exists>fb. DebugFillRect r color cf s = s\<lparr>gFramebuffer := fb\<rparr> \<and>
    (\<forall>x y. drawn s r cf color x y \<longrightarrow> fb (pixel s r x y) = cf (word_of_int x) (word_of_int y) color) \<and>
    (\<forall>i. (\<forall>x y. drawn s r cf color x y \<longrightarrow> i \<noteq> pixel s r x y) \<longrightarrow> fb i = gFramebuffer s i)"
proof -
  let ?l = "ucast (rtop r * gPixelsPerScanline s) :: u64" and ?t = "sint (rtop r)" let ?n = "nat (sint (rbottom r) - ?t)"
  have hit: "hit s r cf color ?l j x i \<longleftrightarrow> drawn s r cf color (sint x) (?t + int j) \<and> i = pixel s r (sint x) (?t + int j)"
    if "j < ?n" for j x i using hit_iff [OF ok] that by simp
  have "rows_done s r cf color ?l ?n (fold (fill_row cf color r) (map (\<lambda>i. rtop r + word_of_nat i) [0..<?n]) (?l, s))"
  proof (rule rows_all)
    fix j j' x x' i
    assume h: "j < ?n" "j' < ?n" "hit s r cf color ?l j x i" "hit s r cf color ?l j' x' i"
    show "j = j'" using pixel_inj [OF ok, of cf color "sint x" "?t + int j" "sint x'" "?t + int j'"] hit h by auto
  qed
  then obtain fb where fb: "DebugFillRect r color cf s = s\<lparr>gFramebuffer := fb\<rparr>"
    "\<And>j x i. j < ?n \<Longrightarrow> hit s r cf color ?l j x i \<Longrightarrow> fb i = cf x (rtop r + word_of_nat j) color"
    "\<And>i. (\<forall>j<?n. \<forall>x. \<not> hit s r cf color ?l j x i) \<Longrightarrow> fb i = gFramebuffer s i"
    unfolding rows_done_def DebugFillRect_def coords_def by auto
  have at: "fb (pixel s r x y) = cf (word_of_int x) (word_of_int y) color" if d: "drawn s r cf color x y" for x y
  proof -
    let ?j = "nat (y - ?t)"
    have in_r: "?t \<le> y" "y < sint (rbottom r)" "sint (rleft r) \<le> x" "x < sint (rright r)" using d by (auto simp: drawn_def in_rect_def)
    have x: "sint (word_of_int x :: u32) = x"
      unfolding sint_sbintrunc' by (rule signed_take_bit_int_eq_self) (use in_r sint_range [of "rleft r"] sint_range [of "rright r"] in simp_all)
    have at_j: "hit s r cf color ?l ?j (word_of_int x) (pixel s r x y)" using hit [of ?j "word_of_int x"] d in_r x by simp
    have "fb (pixel s r x y) = cf (word_of_int x) (rtop r + word_of_nat ?j) color" by (rule fb(2) [OF _ at_j]) (use in_r in simp)
    then show ?thesis using in_r by simp
  qed
  have "fb i = gFramebuffer s i" if "\<forall>x y. drawn s r cf color x y \<longrightarrow> i \<noteq> pixel s r x y" for i
    by (rule fb(3)) (use hit that in auto)
  then show ?thesis using fb(1) at by (intro exI [of _ fb]) blast
qed

text \<open>A rectangle that reaches over the lower right corner of a screen of 800 by 600.\<close>

definition corner :: RECT where "corner = \<lparr>rleft = 790, rtop = 598, rright = 810, rbottom = 610\<rparr>"

theorem DebugFillRect_spec_witness:
  "\<exists>fb. DebugFillRect corner 0xFF00FF00 (\<lambda>x y c. ucast c) two_squares = two_squares\<lparr>gFramebuffer := fb\<rparr> \<and>
    fb (599 * 1024 + 800) = 0xFF00FF00 \<and> fb (599 * 1024 + 801) = 0"
proof -
  let ?cf = "\<lambda>x y c. ucast c :: u32"
  have scr: "gPixelsPerScanline two_squares = 1024" "gWidth two_squares = 800" "gHeight two_squares = 600" "gFramebuffer two_squares = (\<lambda>_. 0)"
    by (simp_all add: two_squares_def three_regions_def)
  have ok: "screen_ok two_squares corner" by (simp add: screen_ok_def scr corner_def)
  have px: "pixel two_squares corner x y = word_of_int (y * 1024 + x)" for x y by (simp add: pixel_def scr corner_def)
  have dr: "drawn two_squares corner ?cf 0xFF00FF00 x y \<longleftrightarrow> 790 \<le> x \<and> x \<le> 800 \<and> 598 \<le> y \<and> y < 600" for x y
    by (auto simp: drawn_def in_rect_def scr corner_def)
  obtain fb where fb: "DebugFillRect corner 0xFF00FF00 ?cf two_squares = two_squares\<lparr>gFramebuffer := fb\<rparr>"
    "\<And>x y. drawn two_squares corner ?cf 0xFF00FF00 x y \<Longrightarrow> fb (pixel two_squares corner x y) = 0xFF00FF00"
    "\<And>i. (\<forall>x y. drawn two_squares corner ?cf 0xFF00FF00 x y \<longrightarrow> i \<noteq> pixel two_squares corner x y) \<Longrightarrow> fb i = 0"
    using DebugFillRect_spec [OF ok, of "0xFF00FF00" ?cf] unfolding scr by auto
  have "fb 614176 = 0xFF00FF00" using fb(2) [unfolded dr px, of 800 599] by simp
  moreover have "fb 614177 = 0"
  proof (rule fb(3), intro allI impI)
    fix x y :: int
    assume "drawn two_squares corner ?cf 0xFF00FF00 x y"
    then have b: "790 \<le> x" "x \<le> 800" "598 \<le> y" "y < 600" unfolding dr by simp_all
    then have "y = 598 \<or> y = 599" by linarith
    then have "y * 1024 + x \<noteq> 614177" "0 \<le> y * 1024 + x" "y * 1024 + x < 2 ^ 64" using b by auto
    then have "uint (word_of_int (y * 1024 + x) :: u64) \<noteq> uint (614177 :: u64)" unfolding uint_word_of_int by simp
    then show "614177 \<noteq> pixel two_squares corner x y" unfolding px by metis
  qed
  ultimately show ?thesis using fb(1) by (intro exI [of _ fb]) simp
qed

end
