(* ===== verification/Console.thy ===== *)
theory Console
  imports Rtl Irql
begin

text \<open>
  The text console, NNXOSKRN/SimpleTextIO.c: characters of 8 by 8 pixels drawn into the frame buffer inside a box, with a cursor,
  scrolling and formatted output.
\<close>

section \<open>State\<close>

text \<open>video gives the pixels by their address, cmem the memory with the strings. A pixel has 4 bytes.\<close>

record console =
  video :: "ptr \<Rightarrow> u32"
  cmem :: mem
  tcpu :: cpu
  PrintLock :: KSPIN_LOCK
  gFramebuffer :: ptr
  gFramebufferEnd :: ptr
  gWidth :: u32
  gHeight :: u32
  gPixelsPerScanline :: u32
  TextIoDeltaX :: u32
  TextIoDeltaY :: u32
  IsCurrentOperationGlobal :: bool
  align_to :: u8
  gCursorX :: u32
  gCursorY :: u32
  gColor :: u32
  gBackdrop :: u32
  gRenderBackdrop :: u8
  gMinX :: u32
  gMaxX :: u32
  gMinY :: u32
  gMaxY :: u32
  initialized :: u8

definition FrameBufferSize :: "console \<Rightarrow> u64" where
  "FrameBufferSize s = gFramebufferEnd s - gFramebuffer s"

definition pixel :: "u64 \<Rightarrow> console \<Rightarrow> u32" where
  "pixel k s = video s (gFramebuffer s + 4 * k)"

definition set_pixel :: "u64 \<Rightarrow> u32 \<Rightarrow> console \<Rightarrow> console" where
  "set_pixel k c s = s\<lparr>video := (video s)(gFramebuffer s + 4 * k := c)\<rparr>"

section \<open>The font\<close>

definition UNKNOWNMARK :: "u8 list" where
  "UNKNOWNMARK = [0x46, 0xBB, 0xFB, 0xF7, 0xEF, 0xEF, 0xFF, 0x6E]"

text \<open>The printable characters, from the blank on.\<close>

definition printable_font :: "u8 list list" where
  "printable_font =
    [[0x00, 0x00, 0x00, 0x00, 0x00, 0x00, 0x00, 0x00], [0x10, 0x10, 0x10, 0x10, 0x10, 0x10, 0x00, 0x10],
     [0x28, 0x28, 0x28, 0x00, 0x00, 0x00, 0x00, 0x00], [0x28, 0x28, 0x7C, 0x28, 0x28, 0x7C, 0x28, 0x28],
     [0x38, 0x54, 0x50, 0x38, 0x14, 0x14, 0x54, 0x38], [0x44, 0x08, 0x08, 0x10, 0x20, 0x20, 0x44, 0x00],
     [0x38, 0x44, 0x44, 0x38, 0x44, 0x46, 0x44, 0x3A], [0x10, 0x10, 0x10, 0x00, 0x00, 0x00, 0x00, 0x00],
     [0x08, 0x10, 0x20, 0x20, 0x20, 0x20, 0x10, 0x08], [0x20, 0x10, 0x08, 0x08, 0x08, 0x08, 0x10, 0x20],
     [0x10, 0x7C, 0x38, 0x6C, 0x00, 0x00, 0x00, 0x00], [0x00, 0x00, 0x10, 0x10, 0x7C, 0x10, 0x10, 0x00],
     [0x00, 0x00, 0x00, 0x00, 0x00, 0x00, 0x10, 0x10], [0x00, 0x00, 0x00, 0x00, 0x7C, 0x00, 0x00, 0x00],
     [0x00, 0x00, 0x00, 0x00, 0x00, 0x00, 0x00, 0x10], [0x04, 0x08, 0x08, 0x10, 0x10, 0x20, 0x20, 0x40],
     [0x38, 0x44, 0x44, 0x44, 0x44, 0x44, 0x44, 0x38], [0x10, 0x30, 0x10, 0x10, 0x10, 0x10, 0x10, 0x38],
     [0x38, 0x44, 0x04, 0x04, 0x08, 0x10, 0x20, 0x7C], [0x38, 0x04, 0x04, 0x38, 0x04, 0x04, 0x04, 0x38],
     [0x10, 0x30, 0x50, 0x90, 0xF8, 0x10, 0x10, 0x10], [0x7C, 0x40, 0x40, 0x78, 0x04, 0x04, 0x04, 0x78],
     [0x38, 0x40, 0x40, 0x78, 0x44, 0x44, 0x44, 0x38], [0x7C, 0x04, 0x04, 0x08, 0x08, 0x10, 0x10, 0x10],
     [0x38, 0x44, 0x44, 0x38, 0x44, 0x44, 0x44, 0x38], [0x38, 0x44, 0x44, 0x44, 0x3C, 0x04, 0x04, 0x38],
     [0x00, 0x00, 0x00, 0x10, 0x00, 0x00, 0x10, 0x00], [0x00, 0x00, 0x00, 0x10, 0x00, 0x00, 0x10, 0x10],
     [0x00, 0x04, 0x08, 0x10, 0x20, 0x10, 0x08, 0x04], [0x00, 0x00, 0x00, 0x7C, 0x00, 0x7C, 0x00, 0x00],
     [0x00, 0x40, 0x20, 0x10, 0x08, 0x10, 0x20, 0x40], [0x38, 0x44, 0x04, 0x08, 0x10, 0x10, 0x00, 0x10],
     [0x38, 0x44, 0x4C, 0x54, 0x54, 0x4C, 0x40, 0x38], [0x10, 0x28, 0x28, 0x44, 0x7C, 0x44, 0x44, 0x44],
     [0x78, 0x44, 0x44, 0x78, 0x44, 0x44, 0x44, 0x78], [0x38, 0x44, 0x40, 0x40, 0x40, 0x40, 0x44, 0x38],
     [0x70, 0x48, 0x44, 0x44, 0x44, 0x44, 0x48, 0x70], [0x7C, 0x40, 0x40, 0x7C, 0x40, 0x40, 0x40, 0x7C],
     [0x7C, 0x40, 0x40, 0x7C, 0x40, 0x40, 0x40, 0x40], [0x38, 0x44, 0x40, 0x40, 0x40, 0x4C, 0x44, 0x38],
     [0x44, 0x44, 0x44, 0x7C, 0x44, 0x44, 0x44, 0x44], [0x38, 0x10, 0x10, 0x10, 0x10, 0x10, 0x10, 0x38],
     [0x38, 0x10, 0x10, 0x10, 0x10, 0x10, 0x90, 0x60], [0x48, 0x48, 0x50, 0x60, 0x50, 0x50, 0x48, 0x48],
     [0x40, 0x40, 0x40, 0x40, 0x40, 0x40, 0x40, 0x7C], [0x82, 0x82, 0xC6, 0xC6, 0xAA, 0xAA, 0x92, 0x92],
     [0x44, 0x64, 0x64, 0x54, 0x54, 0x4C, 0x4C, 0x44], [0x3C, 0x42, 0x42, 0x42, 0x42, 0x42, 0x42, 0x3C],
     [0x38, 0x24, 0x24, 0x24, 0x38, 0x20, 0x20, 0x20], [0x3C, 0x42, 0x42, 0x42, 0x42, 0x46, 0x42, 0x3D],
     [0x38, 0x24, 0x24, 0x24, 0x38, 0x24, 0x24, 0x24], [0x38, 0x44, 0x40, 0x38, 0x04, 0x04, 0x44, 0x38],
     [0x7C, 0x10, 0x10, 0x10, 0x10, 0x10, 0x10, 0x10], [0x42, 0x42, 0x42, 0x42, 0x42, 0x42, 0x42, 0x3C],
     [0x44, 0x44, 0x44, 0x28, 0x28, 0x28, 0x10, 0x10], [0x92, 0x92, 0x92, 0x92, 0x54, 0x54, 0x28, 0x28],
     [0x44, 0x44, 0x28, 0x10, 0x28, 0x28, 0x44, 0x44], [0x44, 0x44, 0x28, 0x28, 0x10, 0x10, 0x10, 0x10],
     [0x7C, 0x08, 0x08, 0x10, 0x10, 0x20, 0x20, 0x7C], [0x38, 0x20, 0x20, 0x20, 0x20, 0x20, 0x20, 0x38],
     [0x40, 0x20, 0x20, 0x10, 0x10, 0x08, 0x08, 0x04], [0x38, 0x08, 0x08, 0x08, 0x08, 0x08, 0x08, 0x38],
     [0x10, 0x28, 0x44, 0x00, 0x00, 0x00, 0x00, 0x00], [0x00, 0x00, 0x00, 0x00, 0x00, 0x00, 0x00, 0x7C],
     [0x20, 0x10, 0x08, 0x00, 0x00, 0x00, 0x00, 0x00], [0x00, 0x00, 0x38, 0x04, 0x3C, 0x44, 0x44, 0x38],
     [0x20, 0x20, 0x20, 0x38, 0x24, 0x24, 0x24, 0x38], [0x00, 0x00, 0x38, 0x44, 0x40, 0x40, 0x44, 0x38],
     [0x04, 0x04, 0x04, 0x1C, 0x24, 0x24, 0x24, 0x1C], [0x00, 0x00, 0x38, 0x44, 0x44, 0x78, 0x40, 0x38],
     [0x18, 0x20, 0x78, 0x20, 0x20, 0x20, 0x20, 0x20], [0x0C, 0x38, 0x44, 0x38, 0x40, 0x38, 0x44, 0x38],
     [0x40, 0x40, 0x40, 0x78, 0x44, 0x44, 0x44, 0x44], [0x00, 0x10, 0x00, 0x30, 0x10, 0x10, 0x10, 0x38],
     [0x00, 0x08, 0x00, 0x18, 0x08, 0x08, 0x48, 0x30], [0x40, 0x40, 0x48, 0x48, 0x50, 0x60, 0x50, 0x48],
     [0x30, 0x10, 0x10, 0x10, 0x10, 0x10, 0x10, 0x38], [0x00, 0x00, 0xEC, 0x92, 0x92, 0x92, 0x92, 0x92],
     [0x00, 0x00, 0x38, 0x24, 0x24, 0x24, 0x24, 0x24], [0x00, 0x00, 0x38, 0x44, 0x44, 0x44, 0x44, 0x38],
     [0x00, 0x00, 0x5C, 0x22, 0x22, 0x3C, 0x20, 0x20], [0x00, 0x00, 0x3A, 0x44, 0x44, 0x3C, 0x04, 0x04],
     [0x00, 0x00, 0x38, 0x44, 0x40, 0x40, 0x40, 0x40], [0x00, 0x00, 0x38, 0x40, 0x38, 0x04, 0x04, 0x38],
     [0x20, 0x20, 0x78, 0x20, 0x20, 0x20, 0x20, 0x18], [0x00, 0x00, 0x44, 0x44, 0x44, 0x44, 0x44, 0x38],
     [0x00, 0x00, 0x44, 0x44, 0x28, 0x28, 0x10, 0x10], [0x00, 0x00, 0x92, 0x92, 0x92, 0x54, 0x28, 0x28],
     [0x00, 0x00, 0x44, 0x28, 0x10, 0x10, 0x28, 0x44], [0x00, 0x00, 0x22, 0x22, 0x14, 0x08, 0x10, 0x20],
     [0x00, 0x00, 0x7C, 0x08, 0x10, 0x10, 0x20, 0x7C], [0x18, 0x20, 0x20, 0x40, 0x40, 0x20, 0x20, 0x18],
     [0x10, 0x10, 0x10, 0x10, 0x10, 0x10, 0x10, 0x10], [0x30, 0x08, 0x08, 0x04, 0x04, 0x08, 0x08, 0x30],
     [0x00, 0x00, 0x00, 0x60, 0x92, 0x0C, 0x00, 0x00]]"

definition StaticFont8x8 :: "u8 list list" where
  "StaticFont8x8 = replicate 32 UNKNOWNMARK @ printable_font @ [UNKNOWNMARK]"

section \<open>Settings\<close>

text \<open>A bounding box is an array of minX, maxX, minY, maxY.\<close>

type_synonym box = "u32 \<times> u32 \<times> u32 \<times> u32"

definition TextIoClear :: "console \<Rightarrow> console" where
  "TextIoClear s =
     fold (\<lambda>y. fold (\<lambda>x s. set_pixel (word_of_nat x + word_of_nat y * ucast (gPixelsPerScanline s)) (gBackdrop s) s)
       [unat (gMinX s)..<unat (gMaxX s)]) [unat (gMinY s)..<unat (gMaxY s)] s"

definition TextIoSetBoundingBox :: "box \<Rightarrow> console \<Rightarrow> console" where
  "TextIoSetBoundingBox b s = (case b of (x0, x1, y0, y1) \<Rightarrow> s\<lparr>gMinX := x0, gMaxX := x1, gMinY := y0, gMaxY := y1\<rparr>)"

definition TextIoGetBoundingBox :: "console \<Rightarrow> box" where
  "TextIoGetBoundingBox s = (gMinX s, gMaxX s, gMinY s, gMaxY s)"

definition TextIoSetCursorPosition :: "u32 \<Rightarrow> u32 \<Rightarrow> console \<Rightarrow> console" where
  "TextIoSetCursorPosition posX posY s = s\<lparr>gCursorX := posX, gCursorY := posY\<rparr>"

definition TextIoGetCursorPosition :: "console \<Rightarrow> u32 \<times> u32" where
  "TextIoGetCursorPosition s = (gCursorX s, gCursorY s)"

definition TextIoSetColorInformation :: "u32 \<Rightarrow> u32 \<Rightarrow> u8 \<Rightarrow> console \<Rightarrow> console" where
  "TextIoSetColorInformation color background renderBack s = s\<lparr>gColor := color, gBackdrop := background, gRenderBackdrop := renderBack\<rparr>"

definition TextIoGetColorInformation :: "console \<Rightarrow> u32 \<times> u32 \<times> u8" where
  "TextIoGetColorInformation s = (gColor s, gBackdrop s, gRenderBackdrop s)"

definition TextIoSetAlignment :: "u8 \<Rightarrow> console \<Rightarrow> console" where
  "TextIoSetAlignment alignment s = s\<lparr>align_to := alignment\<rparr>"

text \<open>The first box is that of the sizes before the call.\<close>

definition TextIoInitialize :: "ptr \<Rightarrow> ptr \<Rightarrow> u32 \<Rightarrow> u32 \<Rightarrow> u32 \<Rightarrow> console \<Rightarrow> console" where
  "TextIoInitialize framebufferIn framebufferEndIn w h p s =
     (let w = (if initialized s \<noteq> 0 \<and> w = 0 then gWidth s else w);
          h = (if initialized s \<noteq> 0 \<and> h = 0 then gHeight s else h);
          p = (if initialized s \<noteq> 0 \<and> p = 0 then gPixelsPerScanline s else p);
          s = (if initialized s = 0 then TextIoSetBoundingBox (0, gWidth s, 0, gHeight s) s else s);
          s = s\<lparr>gFramebuffer := framebufferIn, gFramebufferEnd := framebufferEndIn,
            gWidth := w, gHeight := h, gPixelsPerScanline := p, initialized := 0xFF\<rparr>
      in TextIoSetColorInformation 0xFFFFFFFF 0 1 (TextIoSetCursorPosition 1 1 (TextIoSetAlignment 0 s)))"

definition TextIoGetAlignment :: "console \<Rightarrow> u8" where "TextIoGetAlignment s = align_to s"

definition TextIoIsInitialized :: "console \<Rightarrow> bool" where "TextIoIsInitialized s = (initialized s = 0xFF)"

section \<open>Characters\<close>

text \<open>style is the color, the backdrop and whether it is drawn. The index of a pixel is a UINT32.\<close>

type_synonym style = "u32 \<times> u32 \<times> u8"

definition GetBit :: "u8 \<Rightarrow> nat \<Rightarrow> bool" where "GetBit num n = bit num n"

definition character_pixel :: "u8 \<Rightarrow> u32 \<Rightarrow> u32 \<Rightarrow> style \<Rightarrow> box \<Rightarrow> nat \<Rightarrow> nat \<Rightarrow> console \<Rightarrow> console" where
  "character_pixel rowData posX posY st b y x s =
     (case (st, b) of ((color, backdrop, renderBackdrop), (minX, maxX, minY, maxY)) \<Rightarrow>
      let px = word_of_nat (7 - x) + posX; py = word_of_nat y + posY; k = ucast (px + py * gPixelsPerScanline s) in
      if px \<le> maxX \<and> px \<ge> minX \<and> py \<le> maxY \<and> py \<ge> minY
      then if GetBit rowData x then set_pixel k color s
           else if renderBackdrop \<noteq> 0 then set_pixel k backdrop s else s
      else s)"

definition TextIoOutputCharacterWithinBox :: "u8 \<Rightarrow> u32 \<Rightarrow> u32 \<Rightarrow> style \<Rightarrow> box \<Rightarrow> console \<Rightarrow> console" where
  "TextIoOutputCharacterWithinBox characterID posX posY st b s =
     (if \<not> TextIoIsInitialized s then s
      else let characterID = (if unat characterID \<ge> length StaticFont8x8 then length StaticFont8x8 - 1 else unat characterID);
               StaticFontEntry = StaticFont8x8 ! characterID
        in fold (\<lambda>y. fold (character_pixel (StaticFontEntry ! y) posX posY st b y) [0..<8]) [0..<8] s)"

definition TextIoOutputCharacter :: "u8 \<Rightarrow> u32 \<Rightarrow> u32 \<Rightarrow> style \<Rightarrow> console \<Rightarrow> console" where
  "TextIoOutputCharacter characterID posX posY st s =
     (if \<not> TextIoIsInitialized s then s
      else TextIoOutputCharacterWithinBox characterID posX posY st (gMinX s, gMaxX s, gMinY s, gMaxY s) s)"

text \<open>A box of less than 9 rows makes gMaxY - 9 wrap around.\<close>

definition move_pixel :: "nat \<Rightarrow> nat \<Rightarrow> console \<Rightarrow> console" where
  "move_pixel y x s =
     (let at = (\<lambda>y. ucast (gPixelsPerScanline s) * y + word_of_nat x);
          s = set_pixel (at (word_of_nat y)) (pixel (at (word_of_nat y + 9)) s) s
      in set_pixel (at (word_of_nat y + 9)) (gBackdrop s) s)"

definition TextIoMoveUpARow :: "console \<Rightarrow> console" where
  "TextIoMoveUpARow s =
     (let s = fold (\<lambda>y. fold (move_pixel y) [unat (gMinX s)..<unat (gMaxX s)]) [unat (gMinY s)..<unat (gMaxY s - 9)] s
      in s\<lparr>gCursorY := gCursorY s - 9\<rparr>)"

section \<open>Strings\<close>

abbreviation (input) NEWLINE :: u8 where "NEWLINE \<equiv> 0x0A"

definition end_string :: "u32 \<Rightarrow> u32 \<Rightarrow> u32 \<Rightarrow> u32 \<Rightarrow> console \<Rightarrow> console" where
  "end_string initialPX initialPY posX posY s =
     (let s = s\<lparr>TextIoDeltaX := posX - initialPX, TextIoDeltaY := posY - initialPY\<rparr>
      in if IsCurrentOperationGlobal s then s\<lparr>IsCurrentOperationGlobal := False, gCursorX := posX, gCursorY := posY\<rparr> else s)"

definition align_up :: "u8 \<Rightarrow> u32 \<Rightarrow> u32" where
  "align_up a posX = (if a \<noteq> 0 then (posX + (ucast a - 1)) div ucast a * ucast a else posX)"

partial_function (option) string_loop ::
  "(nat \<Rightarrow> u8) \<Rightarrow> u32 \<Rightarrow> u32 \<Rightarrow> style \<Rightarrow> box \<Rightarrow> nat \<Rightarrow> u32 \<Rightarrow> u32 \<Rightarrow> console \<Rightarrow> console option"
where
  "string_loop input initialPX initialPY st b stringIndex posX posY s =
     (case b of (minX, maxX, minY, maxY) \<Rightarrow>
      if input stringIndex = 0 then Some (end_string initialPX initialPY posX posY s)
      else
        let newline = posX + 8 > maxX \<or> input stringIndex = NEWLINE;
            posY = (if newline then posY + 9 else posY);
            posX = (if newline then minX else posX)
        in if posY + 8 > maxY then Some (end_string initialPX initialPY posX posY s)
           else if input stringIndex = NEWLINE then Some (end_string initialPX initialPY posX posY s)
           else
             let posX = align_up (align_to s) posX;
                 s = TextIoOutputCharacterWithinBox (input stringIndex) posX posY st b s
             in string_loop input initialPX initialPY st b (Suc stringIndex)
                  (posX + (if align_to s \<noteq> 0 then ucast (align_to s) else 8)) posY s)"

text \<open>The string at an address; "(NULL)" for NULL.\<close>

definition string_at :: "ptr \<Rightarrow> mem \<Rightarrow> nat \<Rightarrow> u8" where
  "string_at p m i = (if p = NULL then (if i < 6 then [0x28, 0x4E, 0x55, 0x4C, 0x4C, 0x29] ! i else 0) else m (p + word_of_nat i))"

definition TextIoOutputString :: "(nat \<Rightarrow> u8) \<Rightarrow> u32 \<Rightarrow> u32 \<Rightarrow> style \<Rightarrow> box \<Rightarrow> console \<Rightarrow> console outcome" where
  "TextIoOutputString input posX posY st b s =
     (if \<not> TextIoIsInitialized s then Done s
      else case string_loop input posX posY st b 0 posX posY (s\<lparr>TextIoDeltaX := 0, TextIoDeltaY := 0\<rparr>) of
             None \<Rightarrow> Hang
           | Some s \<Rightarrow> Done s)"

definition TextIoOutputStringGlobal :: "(nat \<Rightarrow> u8) \<Rightarrow> console \<Rightarrow> console outcome" where
  "TextIoOutputStringGlobal input s =
     (if initialized s = 0 then Done s
      else let s = s\<lparr>IsCurrentOperationGlobal := True\<rparr> in
        TextIoOutputString input (gCursorX s) (gCursorY s) (gColor s, gBackdrop s, gRenderBackdrop s) (gMinX s, gMaxX s, gMinY s, gMaxY s) s)"

text \<open>A string of one character.\<close>

definition one_character :: "u8 \<Rightarrow> nat \<Rightarrow> u8" where
  "one_character c i = (if i = 0 then c else 0)"

primrec output_characters :: "(nat \<Rightarrow> u8) \<Rightarrow> nat list \<Rightarrow> console \<Rightarrow> console outcome" where
  "output_characters c [] s = Done s"
| "output_characters c (a # as) s = obind (TextIoOutputStringGlobal (one_character (c a)) s) (output_characters c as)"

section \<open>Formatted output\<close>

text \<open>The arguments are the words behind the format, args k is the one after k others. buf is the address of the buffers str, buf2 that
  of str2. A UNICODE_STRING has its Buffer at offset 8.\<close>

definition word_at :: "nat \<Rightarrow> ptr \<Rightarrow> mem \<Rightarrow> u64" where
  "word_at n p m = horner_sum ucast 256 (map (\<lambda>j. m (p + word_of_nat j)) [0..<n])"

abbreviation (input) HIGH_LEVEL :: u8 where "HIGH_LEVEL \<equiv> 15"

definition display :: "u8 \<Rightarrow> console \<Rightarrow> console outcome" where
  "display c s =
     obind (KeRaiseIrql HIGH_LEVEL 1 (tcpu s)) (\<lambda>(old, cpu).
     obind (KiAcquireSpinLock (PrintLock s)) (\<lambda>l.
     let s = s\<lparr>tcpu := cpu, PrintLock := l\<rparr>;
         s = TextIoOutputCharacterWithinBox c (gCursorX s) (gCursorY s) (gColor s, gBackdrop s, gRenderBackdrop s)
               (gMinX s, gMaxX s, gMinY s, gMaxY s) s;
         s = s\<lparr>PrintLock := KiReleaseSpinLock (PrintLock s)\<rparr>
     in obind (KeLowerIrql (the old) (tcpu s)) (\<lambda>cpu.
        Done (s\<lparr>tcpu := cpu, gCursorX := gCursorX s + 8\<rparr>))))"

definition print_number :: "(u64 \<Rightarrow> u8 \<Rightarrow> ptr \<Rightarrow> mem \<Rightarrow> (u64 \<times> mem) outcome) \<Rightarrow> u64 \<Rightarrow> u8 \<Rightarrow> u64 \<Rightarrow> ptr \<Rightarrow> console \<Rightarrow> console outcome" where
  "print_number convert c base sz buf s =
     obind (convert c base buf (RtlFillMemory buf sz 0 (cmem s))) (\<lambda>(_, m).
     TextIoOutputStringGlobal (string_at buf m) (s\<lparr>cmem := m\<rparr>))"

definition print_padded :: "u64 \<Rightarrow> ptr \<Rightarrow> ptr \<Rightarrow> console \<Rightarrow> console outcome" where
  "print_padded c buf buf2 s =
     (let m = RtlFillMemory buf 17 0 (cmem s); m = (RtlFillMemory buf2 16 0x30 m)(buf2 + 16 := 0)
      in obind (IntegerToAsciiCapital c 16 buf m) (\<lambda>(_, m).
         let length = FindCharacterFirst (string_at buf m) (- 1) 0 in
         obind (RtlCopyMemory (buf2 + 16 - length) buf length m) (\<lambda>m.
         TextIoOutputStringGlobal (string_at buf2 m) (s\<lparr>cmem := m\<rparr>))))"

text \<open>The letter behind a percent sign; the result is the number of arguments used so far.\<close>

definition print_argument :: "u8 \<Rightarrow> (nat \<Rightarrow> u64) \<Rightarrow> nat \<Rightarrow> ptr \<Rightarrow> ptr \<Rightarrow> console \<Rightarrow> (nat \<times> console) outcome" where
  "print_argument letter args k buf buf2 s =
     (let a = args k;
          use = (\<lambda>n r. obind r (\<lambda>s. Done (k + n, s)));
          p = word_at 8 (a + 8) (cmem s)
      in if letter = 0x25 then use 0 (display 0x25 s)
         else if letter = 0x73 then use 1 (TextIoOutputStringGlobal (string_at a (cmem s)) s)
         else if letter = 0x53
           then use 2 (output_characters (\<lambda>i. cmem s (a + word_of_nat i)) [0..<unat (args (k + 1))] s)
         else if letter = 0x55
           then use 1 (output_characters (\<lambda>i. cmem s (p + 2 * word_of_nat i)) [0..<unat (word_at 2 a (cmem s)) div 2] s)
         else if letter = 0x63
           then use 1 (TextIoOutputStringGlobal (one_character (if ucast a = (0 :: u8) then 0xFF else ucast a)) s)
         else if letter = 0x64 \<or> letter = 0x69 then use 1 (print_number IntegerToAscii a 10 32 buf s)
         else if letter = 0x62 \<or> letter = 0x42 then use 1 (print_number IntegerToAscii a 2 65 buf s)
         else if letter = 0x48 then use 1 (print_padded a buf buf2 s)
         else if letter = 0x58 then use 1 (print_number IntegerToAsciiCapital a 16 32 buf s)
         else if letter = 0x78 then use 1 (print_number IntegerToAscii a 16 32 buf s)
         else use 0 (TextIoOutputStringGlobal (one_character 0x3F) s))"

definition move_cursor :: "u8 \<Rightarrow> console \<Rightarrow> console" where
  "move_cursor c s =
     (let s = (if gCursorX s + 8 > gMaxX s \<or> c = NEWLINE then s\<lparr>gCursorX := gMinX s, gCursorY := gCursorY s + 9\<rparr> else s);
          s = (if gCursorY s + 8 > gMaxY s then TextIoMoveUpARow s else s)
      in s\<lparr>gCursorX := align_up (align_to s) (gCursorX s)\<rparr>)"

text \<open>The counter is a UINT32: a size above its range never ends.\<close>

partial_function (option) format_loop ::
  "(nat \<Rightarrow> u8) \<Rightarrow> u64 \<Rightarrow> (nat \<Rightarrow> u64) \<Rightarrow> ptr \<Rightarrow> ptr \<Rightarrow> u32 \<Rightarrow> nat \<Rightarrow> console \<Rightarrow> console outcome option"
where
  "format_loop input sz args buf buf2 i k s =
     (if \<not> ucast i < sz then Some (Done s)
      else let c = input (unat i); s = move_cursor c s in
        if c = NEWLINE then format_loop input sz args buf buf2 (i + 1) k s
        else if c = 0x25
        then next_step (print_argument (input (unat (i + 1))) args k buf buf2 s) (\<lambda>(k, s). format_loop input sz args buf buf2 (i + 2) k s)
        else next_step (display c s) (format_loop input sz args buf buf2 (i + 1) k))"

definition TextIoOutputFormatedString :: "(nat \<Rightarrow> u8) \<Rightarrow> u64 \<Rightarrow> (nat \<Rightarrow> u64) \<Rightarrow> ptr \<Rightarrow> ptr \<Rightarrow> console \<Rightarrow> console outcome" where
  "TextIoOutputFormatedString input sz args buf buf2 s =
     (if initialized s = 0 then Done s else run_loop (format_loop input sz args buf buf2 0 0 s))"

definition PrintTA :: "(nat \<Rightarrow> u8) \<Rightarrow> (nat \<Rightarrow> u64) \<Rightarrow> ptr \<Rightarrow> ptr \<Rightarrow> console \<Rightarrow> console outcome" where
  "PrintTA input args buf buf2 s = TextIoOutputFormatedString input (FindCharacterFirst input (- 1) 0) args buf buf2 s"

section \<open>What is drawn\<close>

text \<open>The pixel at address a lies in the box, and c is one of the two colors.\<close>

definition may_draw :: "ptr \<Rightarrow> u32 \<Rightarrow> style \<Rightarrow> box \<Rightarrow> ptr \<Rightarrow> u32 \<Rightarrow> bool" where
  "may_draw fb pps st b a c =
     (case (st, b) of ((color, backdrop, _), (minX, maxX, minY, maxY)) \<Rightarrow>
      (\<exists>px py. minX \<le> px \<and> px \<le> maxX \<and> minY \<le> py \<and> py \<le> maxY \<and> a = fb + 4 * ucast (px + py * pps)) \<and> (c = color \<or> c = backdrop))"

definition drawn :: "style \<Rightarrow> box \<Rightarrow> console \<Rightarrow> console \<Rightarrow> bool" where
  "drawn st b s t = (\<exists>v. t = s\<lparr>video := v\<rparr> \<and> (\<forall>a. v a = video s a \<or> may_draw (gFramebuffer s) (gPixelsPerScanline s) st b a (v a)))"

lemma drawn_refl: "drawn st b s s"
  unfolding drawn_def by (rule exI [of _ "video s"]) simp

lemma drawn_trans:
  assumes "drawn st b s t" "drawn st b t u"
  shows "drawn st b s u"
proof -
  obtain v where v: "t = s\<lparr>video := v\<rparr>" "\<forall>a. v a = video s a \<or> may_draw (gFramebuffer s) (gPixelsPerScanline s) st b a (v a)"
    using assms(1) unfolding drawn_def by blast
  obtain w where w: "u = t\<lparr>video := w\<rparr>" "\<forall>a. w a = video t a \<or> may_draw (gFramebuffer t) (gPixelsPerScanline t) st b a (w a)"
    using assms(2) unfolding drawn_def by blast
  have "w a = video s a \<or> may_draw (gFramebuffer s) (gPixelsPerScanline s) st b a (w a)" for a
    using v(2) w(2) v(1) by (cases "w a = v a") auto
  then show ?thesis unfolding drawn_def using v(1) w(1) by (intro exI [of _ w]) simp
qed

lemma drawn_fold: "(\<And>i s. drawn st b s (f i s)) \<Longrightarrow> drawn st b s (fold f is s)"
  by (induction "is" arbitrary: s) (auto simp: drawn_refl intro: drawn_trans)

lemma drawn_pixel:
  assumes "st = (color, backdrop, r)" "c = color \<or> c = backdrop" "b = (minX, maxX, minY, maxY)"
    "minX \<le> px" "px \<le> maxX" "minY \<le> py" "py \<le> maxY"
  shows "drawn st b s (set_pixel (ucast (px + py * gPixelsPerScanline s)) c s)"
  unfolding drawn_def set_pixel_def
  by (intro exI [of _ "(video s)(gFramebuffer s + 4 * ucast (px + py * gPixelsPerScanline s) := c)"])
    (use assms in \<open>auto simp: may_draw_def\<close>)

lemma drawn_character_pixel: "drawn st b s (character_pixel row posX posY st b y x s)"
  by (cases st; cases b) (auto simp: character_pixel_def Let_def drawn_refl intro!: drawn_pixel)

lemma drawn_character: "drawn st b s (TextIoOutputCharacterWithinBox c posX posY st b s)"
  by (auto simp: TextIoOutputCharacterWithinBox_def Let_def drawn_refl intro!: drawn_fold drawn_character_pixel)

lemma string_loop_drawn:
  assumes "input n = 0" "i \<le> n"
  shows "\<exists>px py t. string_loop input iX iY st b i posX posY s = Some (end_string iX iY px py t) \<and> drawn st b s t"
  using assms
proof (induction "n - i" arbitrary: i posX posY s rule: less_induct)
  case less
  obtain minX maxX minY maxY where b: "b = (minX, maxX, minY, maxY)" by (cases b)
  let ?nl = "posX + 8 > maxX \<or> input i = NEWLINE"
  let ?x = "if ?nl then minX else posX" and ?y = "if ?nl then posY + 9 else posY"
  let ?s = "TextIoOutputCharacterWithinBox (input i) (align_up (align_to s) ?x) ?y st b s"
  let ?x' = "align_up (align_to s) ?x + (if align_to ?s \<noteq> 0 then ucast (align_to ?s) else 8)"
  show ?case
  proof (cases "input i = 0 \<or> ?y + 8 > maxY \<or> input i = NEWLINE")
    case True
    then have "\<exists>px py. string_loop input iX iY st b i posX posY s = Some (end_string iX iY px py s)"
      by (subst string_loop.simps) (auto simp: b Let_def)
    then show ?thesis using drawn_refl by blast
  next
    case False
    then have F: "input i \<noteq> 0" "\<not> ?y + 8 > maxY" "input i \<noteq> NEWLINE" by blast+
    then have "i \<noteq> n" using less.prems by auto
    then have "n - Suc i < n - i" "Suc i \<le> n" using less.prems by auto
    from less.hyps [OF this(1) less.prems(1) this(2), of ?x' ?y ?s]
    obtain px py t where t: "string_loop input iX iY st b (Suc i) ?x' ?y ?s = Some (end_string iX iY px py t)" "drawn st b ?s t" by blast
    have "string_loop input iX iY st b i posX posY s = string_loop input iX iY st b (Suc i) ?x' ?y ?s"
      by (subst string_loop.simps, simp only: b Let_def prod.case) (simp only: if_not_P [OF F(1)] if_not_P [OF F(2)] if_not_P [OF F(3)])
    then show ?thesis using t drawn_trans [OF drawn_character t(2)] by auto
  qed
qed

lemma drawn_video: "drawn st b s t \<Longrightarrow> video t a \<noteq> video s a \<Longrightarrow> may_draw (gFramebuffer s) (gPixelsPerScanline s) st b a (video t a)"
  unfolding drawn_def by auto

lemma end_string_keeps: "video (end_string iX iY px py t) = video t" "cmem (end_string iX iY px py t) = cmem t"
  by (simp_all add: end_string_def Let_def)

section \<open>Scrolling\<close>

text \<open>The pixel of column x in line y of the screen.\<close>

definition screen :: "console \<Rightarrow> nat \<Rightarrow> nat \<Rightarrow> u32" where
  "screen s x y = pixel (word_of_nat (unat (gPixelsPerScanline s) * y + x)) s"

text \<open>Two consoles that differ in their pixels.\<close>

definition same_settings :: "console \<Rightarrow> console \<Rightarrow> bool" where
  "same_settings s t = (\<exists>v. t = s\<lparr>video := v\<rparr>)"

lemma same_settings_refl: "same_settings s s"
  unfolding same_settings_def by (rule exI [of _ "video s"]) simp

lemma same_settings_trans: "same_settings s t \<Longrightarrow> same_settings t u \<Longrightarrow> same_settings s u"
  unfolding same_settings_def by auto

lemma same_settings_fields:
  "same_settings s t \<Longrightarrow> gPixelsPerScanline t = gPixelsPerScanline s \<and> gBackdrop t = gBackdrop s \<and> gFramebuffer t = gFramebuffer s"
  by (auto simp: same_settings_def)

lemma same_settings_move: "same_settings s (move_pixel y x s)"
  unfolding same_settings_def move_pixel_def set_pixel_def Let_def by simp blast

lemma same_settings_fold: "(\<And>i s. same_settings s (f i s)) \<Longrightarrow> same_settings s (fold f is s)"
  by (induction "is" arbitrary: s) (auto simp: same_settings_refl intro: same_settings_trans)

lemma pixel_set_pixel:
  assumes "j < 2 ^ 62" "k < 2 ^ 62"
  shows "pixel (word_of_nat j) (set_pixel (word_of_nat k) c s) = (if j = k then c else pixel (word_of_nat j) s)"
proof -
  have "4 * word_of_nat j = (4 * word_of_nat k :: u64) \<Longrightarrow> j = k"
  proof -
    assume "4 * word_of_nat j = (4 * word_of_nat k :: u64)"
    then have "word_of_nat (4 * j) = (word_of_nat (4 * k) :: u64)" by simp
    then have "4 * j mod 2 ^ 64 = 4 * k mod 2 ^ 64" by (simp only: word_unat_eq_iff unat_of_nat) simp
    then show "j = k" using assms by simp
  qed
  then show ?thesis by (auto simp: pixel_def set_pixel_def)
qed

lemma position_inj:
  assumes "x < (p :: nat)" "x' < p" "p * y + x = p * y' + x'"
  shows "x = x' \<and> y = y'"
proof -
  have "(p * y + x) div p = (p * y' + x') div p" "(p * y + x) mod p = (p * y' + x') mod p" using assms(3) by simp_all
  then show ?thesis using assms(1,2) by simp
qed

lemma position_below: "x < (p :: nat) \<Longrightarrow> y < h \<Longrightarrow> p * y + x < p * h"
proof -
  assume "x < p" "y < h"
  then have "p * y + x < p * Suc y" "p * Suc y \<le> p * h" by (simp_all del: mult_Suc_right add: mult_le_mono) (simp add: mult_Suc_right)
  then show ?thesis by linarith
qed

lemma screen_move:
  fixes s
  defines "p \<equiv> unat (gPixelsPerScanline s)"
  assumes "x < p" "x' < p" "y + 9 < h" "y' < h" "p * h \<le> 2 ^ 62"
  shows "screen (move_pixel y x s) x' y' = (if x' = x \<and> y' = y then screen s x (y + 9) else if x' = x \<and> y' = y + 9 then gBackdrop s else screen s x' y')"
proof -
  have w: "ucast (gPixelsPerScanline s) * word_of_nat z + word_of_nat x = (word_of_nat (p * z + x) :: u64)" for z
    by (simp add: p_def)
  have w9: "ucast (gPixelsPerScanline s) * (word_of_nat y + 9) + word_of_nat x = (word_of_nat (p * (y + 9) + x) :: u64)"
    using w [of "y + 9"] by simp
  have g: "gPixelsPerScanline (set_pixel k c t) = gPixelsPerScanline t" "gBackdrop (set_pixel k c t) = gBackdrop t" for k c t
    by (simp_all add: set_pixel_def)
  have k: "p * y + x < 2 ^ 62" "p * (y + 9) + x < 2 ^ 62" "p * y' + x' < 2 ^ 62"
    using position_below [of x p y h] position_below [of x p "y + 9" h] position_below [of x' p y' h] assms(2-6) by linarith+
  have i: "p * y' + x' = p * z + x \<longleftrightarrow> x' = x \<and> y' = z" for z using position_inj [of x' p x y' z] assms(2,3) by auto
  show ?thesis
    unfolding screen_def move_pixel_def Let_def w w9 g p_def [symmetric] pixel_set_pixel [OF k(3,2)] pixel_set_pixel [OF k(3,1)] i
    by auto
qed

lemma screen_row:
  fixes s
  defines "p \<equiv> unat (gPixelsPerScanline s)"
  assumes "distinct xs" "\<forall>x\<in>set xs. x < p" "x' < p" "y + 9 < h" "y' < h" "p * h \<le> 2 ^ 62"
  shows "screen (fold (move_pixel y) xs s) x' y' =
    (if x' \<in> set xs \<and> y' = y then screen s x' (y + 9) else if x' \<in> set xs \<and> y' = y + 9 then gBackdrop s else screen s x' y')"
  using assms(2-) unfolding p_def
proof (induction xs arbitrary: s)
  case (Cons x xs)
  let ?t = "move_pixel y x s"
  have f: "gPixelsPerScanline ?t = gPixelsPerScanline s" "gBackdrop ?t = gBackdrop s"
    using same_settings_fields [OF same_settings_move [of s y x]] by simp_all
  have m: "screen ?t x' z = (if x' = x \<and> z = y then screen s x (y + 9) else if x' = x \<and> z = y + 9 then gBackdrop s else screen s x' z)"
    if "z < h" for z by (rule screen_move) (use Cons.prems that in auto)
  have "x \<notin> set xs" using Cons.prems by simp
  then show ?case using Cons.IH [of ?t] Cons.prems m [of y'] m [of "y + 9"] by (auto simp: f)
qed simp

lemma screen_rows:
  fixes s
  defines "p \<equiv> unat (gPixelsPerScanline s)"
  assumes "distinct xs" "\<forall>x\<in>set xs. x < p" "x' < p" "a \<le> b" "b + 9 \<le> h" "y' < h" "p * h \<le> 2 ^ 62"
  shows "screen (fold (\<lambda>y. fold (move_pixel y) xs) [a..<b] s) x' y' =
    (if x' \<in> set xs \<and> a \<le> y' \<and> y' < b then screen s x' (y' + 9)
     else if x' \<in> set xs \<and> a + 9 \<le> y' \<and> y' < b + 9 then gBackdrop s else screen s x' y')"
  using assms(5-7)
proof (induction "b - a" arbitrary: b y')
  case (Suc d)
  then obtain c where b: "b = Suc c" "a \<le> c" by (cases b) auto
  let ?t = "fold (\<lambda>y. fold (move_pixel y) xs) [a..<c] s"
  have "same_settings s ?t" by (intro same_settings_fold same_settings_move)
  then have f: "gPixelsPerScanline ?t = gPixelsPerScanline s" "gBackdrop ?t = gBackdrop s" using same_settings_fields by blast+
  have I: "screen ?t x' z = (if x' \<in> set xs \<and> a \<le> z \<and> z < c then screen s x' (z + 9)
     else if x' \<in> set xs \<and> a + 9 \<le> z \<and> z < c + 9 then gBackdrop s else screen s x' z)" if "z < h" for z
    using Suc.hyps(1) [of c z] Suc.hyps(2) Suc.prems b that by simp
  have "screen (fold (move_pixel c) xs ?t) x' y' =
    (if x' \<in> set xs \<and> y' = c then screen ?t x' (c + 9) else if x' \<in> set xs \<and> y' = c + 9 then gBackdrop s else screen ?t x' y')"
    using screen_row [of xs ?t x' c h y'] assms(2-4,8) Suc.prems b f by (simp add: p_def)
  moreover have "fold (\<lambda>y. fold (move_pixel y) xs) [a..<b] s = fold (move_pixel c) xs ?t" using b by simp
  ultimately show ?case using I [of "c + 9"] I [of y'] Suc.prems b by auto
qed auto

section \<open>Properties\<close>

text \<open>C32: printing a string. For every string with an end, position, alignment and box the output comes to an end,
  and a pixel that has changed lies in the box, the columns maxX and maxY included, and has the color or the backdrop.\<close>

theorem TextIoOutputString_in_box:
  assumes "input n = 0"
  shows "\<exists>s'. TextIoOutputString input posX posY st b s = Done s' \<and>
    (\<forall>a. video s' a \<noteq> video s a \<longrightarrow> may_draw (gFramebuffer s) (gPixelsPerScanline s) st b a (video s' a))"
proof (cases "TextIoIsInitialized s")
  case True
  obtain px py t where t: "string_loop input posX posY st b 0 posX posY (s\<lparr>TextIoDeltaX := 0, TextIoDeltaY := 0\<rparr>) = Some (end_string posX posY px py t)"
    "drawn st b (s\<lparr>TextIoDeltaX := 0, TextIoDeltaY := 0\<rparr>) t"
    using string_loop_drawn [of input n 0 posX posY st b posX posY "s\<lparr>TextIoDeltaX := 0, TextIoDeltaY := 0\<rparr>"] assms by auto
  then show ?thesis
    using True drawn_video [OF t(2)] by (intro exI [of _ "end_string posX posY px py t"]) (simp add: TextIoOutputString_def end_string_keeps)
qed (simp add: TextIoOutputString_def)

text \<open>Printing an exclamation mark and a digit at the lower right end of a screen of 16 by 16 pixels: only the first one fits.\<close>

definition small_console :: console where
  "small_console = TextIoInitialize 0x1000 0x1400 16 16 16
    \<lparr>video = (\<lambda>_. 0), cmem = (\<lambda>_. 0), tcpu = \<lparr>irql = 0, tpr = 0\<rparr>, PrintLock = 0, gFramebuffer = 0, gFramebufferEnd = 0, gWidth = 16, gHeight = 16,
      gPixelsPerScanline = 16, TextIoDeltaX = 0, TextIoDeltaY = 0, IsCurrentOperationGlobal = False, align_to = 0, gCursorX = 0, gCursorY = 0,
      gColor = 0, gBackdrop = 0, gRenderBackdrop = 0, gMinX = 0, gMaxX = 0, gMinY = 0, gMaxY = 0, initialized = 0\<rparr>"

theorem TextIoOutputString_in_box_witness:
  "\<exists>s'. TextIoOutputString (\<lambda>i. if i = 0 then 0x21 else if i = 1 then 0x31 else 0) 8 8 (7, 0, 1) (0, 16, 0, 16) small_console = Done s' \<and>
     (\<forall>a. video s' a \<noteq> video small_console a \<longrightarrow> may_draw (gFramebuffer small_console) (gPixelsPerScanline small_console) (7, 0, 1) (0, 16, 0, 16) a (video s' a))"
  by (rule TextIoOutputString_in_box [of _ 2]) simp

text \<open>Scrolling. In the box every line shows what stood nine lines below, the lines that come free show the backdrop, the pixels
  beside and around the box stay as they are, and the cursor goes up by nine. This is for boxes of at least nine lines on a screen whose pixels have
  different addresses; with less the loop would run on for four thousand million lines.\<close>

lemma TextIoMoveUpARow_spec:
  fixes s
  defines "p \<equiv> unat (gPixelsPerScanline s)" and "x0 \<equiv> unat (gMinX s)" and "x1 \<equiv> unat (gMaxX s)"
    and "y0 \<equiv> unat (gMinY s)" and "y1 \<equiv> unat (gMaxY s)"
  assumes "x1 \<le> p" "y0 + 9 \<le> y1" "y1 \<le> h" "p * h \<le> 2 ^ 62" "x < p" "y < h"
  shows "gCursorY (TextIoMoveUpARow s) = gCursorY s - 9 \<and>
    screen (TextIoMoveUpARow s) x y =
      (if x0 \<le> x \<and> x < x1 \<and> y0 \<le> y \<and> y < y1 - 9 then screen s x (y + 9)
       else if x0 \<le> x \<and> x < x1 \<and> y0 + 9 \<le> y \<and> y < y1 then gBackdrop s else screen s x y)"
proof -
  let ?t = "fold (\<lambda>y. fold (move_pixel y) [x0..<x1]) [y0..<y1 - 9] s"
  have u: "unat (gMaxY s - 9) = y1 - 9" using assms(7) by (subst unat_sub) (simp_all add: y1_def word_le_nat_alt)
  have "same_settings s ?t" by (intro same_settings_fold same_settings_move)
  then have c: "gCursorY ?t = gCursorY s" by (auto simp: same_settings_def)
  have "screen (?t\<lparr>gCursorY := n\<rparr>) x y = screen ?t x y" for n by (simp add: screen_def pixel_def)
  moreover have "screen ?t x y = (if x \<in> set [x0..<x1] \<and> y0 \<le> y \<and> y < y1 - 9 then screen s x (y + 9)
      else if x \<in> set [x0..<x1] \<and> y0 + 9 \<le> y \<and> y < y1 - 9 + 9 then gBackdrop s else screen s x y)"
    by (rule screen_rows) (use assms(6-) in \<open>auto simp: p_def\<close>)
  moreover have "TextIoMoveUpARow s = ?t\<lparr>gCursorY := gCursorY s - 9\<rparr>"
    using c unfolding TextIoMoveUpARow_def u x0_def [symmetric] x1_def [symmetric] y0_def [symmetric] by (simp add: Let_def)
  ultimately show ?thesis using assms(7) by auto
qed

lemma TextIoMoveUpARow_spec_example:
  "let s = small_console\<lparr>gMaxX := 16, gMaxY := 16\<rparr> in
     gCursorY (TextIoMoveUpARow s) = -8 \<and> screen (TextIoMoveUpARow s) 3 5 = screen s 3 14 \<and> screen (TextIoMoveUpARow s) 3 15 = 0"
proof -
  let ?s = "small_console\<lparr>gMaxX := 16, gMaxY := 16\<rparr>"
  have f: "gPixelsPerScanline ?s = 16" "gMinX ?s = 0" "gMaxX ?s = 16" "gMinY ?s = 0" "gMaxY ?s = 16" "gCursorY ?s = 1" "gBackdrop ?s = 0"
    by (simp_all add: small_console_def TextIoInitialize_def TextIoSetBoundingBox_def TextIoSetColorInformation_def TextIoSetCursorPosition_def
        TextIoSetAlignment_def Let_def)
  show ?thesis
    using TextIoMoveUpARow_spec [of ?s 16 3 5, unfolded f] TextIoMoveUpARow_spec [of ?s 16 3 15, unfolded f] by (simp add: Let_def)
qed

end
