(* ===== verification/Spec2Isabelle.thy ===== *)
theory Spec2Isabelle
  imports PhysAlloc Waits Rtl Pool Paths FatContent FatVfs Rtc PageAlloc PageFile Loader Preloaded GdiDraw Console
begin

text \<open>
  The kernel of NNXOS64 (src/NNXOSKRN, src/HALX64), component by component. The kernel manages
  physical pages, pools, threads that wait for dispatcher objects, named objects with handles, and
  a FAT file system; this development models these parts as HOL functions translated from the C
  code and proves what they do.

  \<^bold>\<open>Conventions.\<close> Machine integers are words of their C width and wrap around; a pointer is a
  64-bit address and NULL is 0. Structures in shared memory are fields by address (a map from
  addresses for each field), so that aliasing is the program's. Code that can stop the machine
  returns an outcome (Prelude): Done, Bugcheck with its code, Fault for a dereference it must not
  make, Hang for a loop that spins for ever. Loops that need not end are defined by
  partial_function; run_loop reads a loop without a result as Hang. ASSERT is empty without
  _DEBUG, and this build is modelled: ASSERTs are left out, as are the messages of PrintT. The waits of Dispatcher have
  a flag for the build, because a wait with a zero timeout violates an ASSERT (C8). Spin locks are words: taking a lock that
  is taken is Hang, since on one processor nobody else can release it; only the last part of Irql
  interleaves several processors.

  \<^bold>\<open>Theories and sources.\<close>
  \<^item> Prelude: integer types, status values (CommonInclude/nnxtype.h), outcomes, facts on words.
  \<^item> NtList (include/ntlist.h, ntlist.c): circular doubly linked lists over a heap of Flink and
    Blink. is_list relates a heap to the list of its entries. The locale list_interface states
    what the other components use of lists; its interpretation nl proves it for this code.
  \<^item> Irql (irql.c, spinlock.c, HALX64/spinlock.c, the locked operations of ntlist.c): levels, spin
    locks, and lock_step, the interleaved steps of any number of processors on one lock.
  \<^item> PhysAlloc (HAL/X64/physical_allocator.c): the lists of page frames, refined to an abstract free list.
  \<^item> Scheduler (scheduler.c: ready queues): the shared and the per processor queues with their
    summary words; sched_ok relates them to lists of threads.
  \<^item> Dispatcher and Waits (dispatcher/*.c, time.c): signalling, wait blocks, waiting for one or
    several objects, mutexes, semaphores, queues, timeouts and the clock tick.
  \<^item> Rtc (HALX64/rtc.c, HALX64/cmos.c): the real-time clock behind the CMOS ports, which are an
    argument; the time is compared with a calendar.
  \<^item> Rtl (rtl/*.c, text.c, MemoryOperations.c): memory and string operations, conversion of numbers.
  \<^item> Pool (pool.c): the pool allocator; pool_blocks says that the blocks tile the pool.
  \<^item> Objects, Handles, Namespace, Paths (ob/*.c): reference counts, deletion, handle databases,
    directory objects and the walk along a path.
  \<^item> Vfs, Fat, FatTable, FatFile, FatContent, FatVfs (drivers/builtin/fs/vfs.c, fat.c): sectors,
    geometry, the file allocation table, cluster chains, directories, files, and the interface.
  \<^item> Paging, PageTables, PageAlloc, PageFile (HAL/X64/paging.c, pagefile.c): page tables reached through their
    recursive entry, refined to an abstract address space; finding and allocating pages; the page file.
  \<^item> Descriptors (HALX64/gdt.c, idt.c): segments, gates and the code of interrupt stubs, run by a small model
    of the instructions it uses.
  \<^item> Threads, ContextSwitch, Interrupts (scheduler.c, io/dpc.c, io/apc.c, HAL/X64/interrupt.c): one processor with its
    quantum, deferred and asynchronous calls, the switch of threads and the entry of interrupts.
  \<^item> KernelStack, Processes (scheduler.c, HAL/X64/pcr.c): kernel stacks; creation and deletion of threads and
    processes, the start of a processor. The state sys of Processes puts objects, processor and memory together.
  \<^item> FileObjects (io/fileio.c), Sections (mm/mmobj.c, the handler of pagefile.c): open files as objects, sections,
    views, and page faults in views and in pages that were moved out.
  \<^item> Preloaded (drivers/builtin/fs/preloaded.c): the file system over the files the boot loader left in memory.
  \<^item> Loader (ldr/ldr.c): a process from an image: its headers, the views of its sections, its main thread.
  \<^item> Console (SimpleTextIO.c): characters, scrolling and formatted output in the frame buffer.
  \<^item> Gdi, GdiRegions, GdiDraw (gdi/*.c): handles of graphics objects, regions, and drawing into the frame buffer.

  \<^bold>\<open>How the parts are composed.\<close> Every component uses NtList through the facts of nl, and takes its
  locks through Irql. Dispatcher extends the state of Scheduler: a thread that is woken becomes an
  entry of a ready queue; Threads and Interrupts extend that by the rest of a processor. Objects extends the state of
  Pool: headers are pool blocks. Processes extends Objects by a processor and by the memory manager; run_ks, run_ist and
  run_mm run a part and hand the IRQL and the lock of the current process over (coherent says that the copies agree).
  FileObjects extends this state by the file system and Sections by the sections: the state of a page fault is that of
  the whole kernel. Preloaded provides the functions of the file system that FileObjects calls through its table, and
  Loader reads an image through the page walk of Paging and the page fault handler of Sections. The methods of object types are a table: psp_table, io_table and mm_table add those of each
  component, so that an object that is deleted runs the code of its type. Paths walks directories through the handles of
  Handles. The FAT theories stack a file on cluster chains, the chains on the table and the table on sectors.

  \<^bold>\<open>Bounds and fuel.\<close> Deleting an object dereferences its root, and so on up the tree: deref_depth, 64
  calls, stands for the kernel stack; the tables of methods nest as deep. ObChangeRoot calls itself once,
  KiUnwaitWaitBlock runs down at most the other blocks of its thread (depth 2). Deleting a directory nests at most
  delete_depth, 64 calls. Everything else is structural, measured, or a partial_function.

  \<^bold>\<open>Parameters.\<close> Methods of object types the kernel does not define, service routines of drivers, the disk and the
  CMOS device are arguments. Memory the code reads before writing it, such as the buffer of a fresh sector, is an
  arbitrary function. In the FAT model allocations succeed and a division by a zero field of the
  BIOS parameter block gives 0. There is no TLB. Addresses of local variables that other functions are given are arguments.

  \<^bold>\<open>What is proved.\<close> The properties C1 to C40 stand in the theories, each after its statement in words;
  each with a hypothesis has a witness at a concrete state. The groups: mutual exclusion of spin locks (C1); the page allocator refines an abstract free list (C2-C4); the
  scheduler picks the first thread of the highest priority, signals wake in order, and waits that never end (C5-C8);
  strings and numbers (C9-C10); the pool keeps its tiling (C11-C12); references, handles and paths (C13-C16); the table,
  reading, writing and searching files (C17-C21); the calendar (C22); page tables, allocation of pages and the page file
  (C23-C25); interrupt stubs and descriptors (C26-C27); kernel stacks, deletion of threads and processes (C28-C30);
  reading a preloaded file by its handle (C31); text stays in its box (C32); page faults and views (C33-C35); the context
  switch and the clock interrupt (C36-C37); regions and drawing (C38-C40). Where the code does not do what it
  means to, the property says what it does; the findings of the manifest list these. Lemmas that are not properties
  carry them: the effect of each operation on an idle state, the invariants sched_ok, pool_ok, tables_from and
  coherent, and the frame facts by which one operation leaves the data of another alone.

  \<^bold>\<open>Not modelled.\<close> The system call table and the order in which the kernel starts its parts; the boot
  loader, which calls UEFI and the edk2 submodule that is not part of the repository; disk, bus, interrupt
  controller and keyboard drivers, which are port I/O; the bug check screen; user mode programs, which are stubs; the entry
  code in assembly but for the dispatch of interrupts; self tests.
\<close>

end
